(* ===== verification/Prelude.thy ===== *)
theory Prelude
  imports Main "HOL-Library.Monad_Syntax" "HOL-Library.Signed_Division"
begin

text \<open>
  Shared vocabulary of the development: the reading of C++ references and of
  undefined behaviour, the collections of hints the components feed, and the
  generic facts on lists, maps and truncating division that several components use.

  Conventions. A C or C++ pointer that may be NULL is a value of type \<open>'a option\<close>.
  An operation that the source leaves undefined on some inputs (a dereference of NULL or of
  freed storage) returns an \<open>option\<close> whose \<open>None\<close> stands for that undefined
  behaviour; error codes that the source itself returns are ordinary values.
\<close>

named_theorems op_defs \<open>definitions of operations, for evaluation\<close>
named_theorems wf_intros \<open>operations keep the invariant of their component\<close>

type_synonym addr = nat
type_synonym ptr = "addr option"

section \<open>Lists\<close>

lemma last_snoc_cases:
  obtains "xs = []" | ys y where "xs = ys @ [y]"
  by (cases xs rule: rev_cases) auto

lemma distinct_map_fst_eq:
  "distinct (map fst xs) \<Longrightarrow> (a, u) \<in> set xs \<Longrightarrow> (a, v) \<in> set xs \<Longrightarrow> u = v"
  by (metis eq_key_imp_eq_value)

lemma filter_eq_self_iff: "filter P xs = xs \<longleftrightarrow> (\<forall>x\<in>set xs. P x)"
  by (metis filter_True filter_id_conv)

lemma find_split:
  "find P xs = Some x \<Longrightarrow> \<exists>ys zs. xs = ys @ x # zs \<and> P x \<and> (\<forall>y\<in>set ys. \<not> P y)"
proof (induction xs)
  case (Cons y ys)
  show ?case
  proof (cases "P y")
    case True
    with Cons.prems have "y # ys = [] @ x # ys" "P x" by auto
    then show ?thesis by (metis empty_iff empty_set)
  next
    case False
    with Cons obtain us vs where "ys = us @ x # vs" "P x" "\<forall>u\<in>set us. \<not> P u"
      by auto
    with False have "y # ys = (y # us) @ x # vs \<and> P x \<and> (\<forall>u\<in>set (y # us). \<not> P u)"
      by simp
    then show ?thesis by blast
  qed
qed simp

lemma map_filter_cong:
  "(\<And>x. x \<in> set xs \<Longrightarrow> f x = g x) \<Longrightarrow> List.map_filter f xs = List.map_filter g xs"
  by (induction xs) (auto simp: map_filter_simps split: option.split)

section \<open>Truncating division\<close>

text \<open>
  C++ integer division rounds towards zero; it is \<open>sdiv\<close> of the library theory
  Signed\_Division.
\<close>

lemma sdiv_nonneg: "0 \<le> (a::int) \<Longrightarrow> 0 < b \<Longrightarrow> a sdiv b = a div b"
  by (simp add: signed_divide_int_def sgn_if)

lemma sdiv_neg: "(a::int) < 0 \<Longrightarrow> 0 < b \<Longrightarrow> a sdiv b = - ((- a) div b)"
  by (simp add: signed_divide_int_def sgn_if)

lemma sdiv_le_zero_iff: "0 < b \<Longrightarrow> (a::int) sdiv b \<le> 0 \<longleftrightarrow> a < b"
  using pos_imp_zdiv_pos_iff [of b a] pos_imp_zdiv_nonneg_iff [of b "- a"]
  by (cases "a < 0") (auto simp: sdiv_nonneg sdiv_neg)

end
