(* ===== verification/QueueContract.thy ===== *)
theory QueueContract
  imports Prelude
begin

text \<open>
  What a message store owes to its clients: \<open>holds s xs\<close> relates a state to the
  sequence of items in it, oldest first; \<open>put\<close> appends (given a fresh piece of storage
  \<open>m\<close>), \<open>take\<close> removes the oldest. The linked list of \<open>linked_list.c\<close>
  and the message queue of \<open>msg_q.c\<close> on top of it both provide this contract.
\<close>

datatype ('x, 'v) queue_event = Put 'x | Take 'v

text \<open>A run: a history of successful puts and takes, through whatever states they lead.\<close>

inductive queue_run ::
  "('m \<Rightarrow> 's \<Rightarrow> bool) \<Rightarrow> ('m \<Rightarrow> 'x \<Rightarrow> 's \<Rightarrow> 's option) \<Rightarrow> ('s \<Rightarrow> ('v \<times> 's) option) \<Rightarrow>
   's \<Rightarrow> ('x, 'v) queue_event list \<Rightarrow> 's \<Rightarrow> bool"
  for fresh put take
where
  run_nil: "queue_run fresh put take s [] s"
| run_put: "fresh m s \<Longrightarrow> put m x s = Some s' \<Longrightarrow> queue_run fresh put take s' es s'' \<Longrightarrow>
     queue_run fresh put take s (Put x # es) s''"
| run_take: "take s = Some (v, s') \<Longrightarrow> queue_run fresh put take s' es s'' \<Longrightarrow>
     queue_run fresh put take s (Take v # es) s''"

inductive_cases queue_run_PutE: "queue_run fr pt tk s (Put x # es) s''"
inductive_cases queue_run_TakeE: "queue_run fr pt tk s (Take v # es) s''"

fun puts :: "('x, 'v) queue_event list \<Rightarrow> 'x list" where
  "puts [] = []"
| "puts (Put x # es) = x # puts es"
| "puts (Take v # es) = puts es"

fun takes :: "('x, 'v) queue_event list \<Rightarrow> 'v list" where
  "takes [] = []"
| "takes (Put x # es) = takes es"
| "takes (Take v # es) = v # takes es"

locale message_store =
  fixes holds :: "'s \<Rightarrow> 'x list \<Rightarrow> bool"
    and fresh :: "'m \<Rightarrow> 's \<Rightarrow> bool"
    and put :: "'m \<Rightarrow> 'x \<Rightarrow> 's \<Rightarrow> 's option"
    and take :: "'s \<Rightarrow> ('v \<times> 's) option"
    and val :: "'x \<Rightarrow> 'v"
    and is_empty :: "'s \<Rightarrow> bool"
  assumes put_holds: "holds s xs \<Longrightarrow> fresh m s \<Longrightarrow> \<exists>s'. put m x s = Some s' \<and> holds s' (xs @ [x])"
    and take_holds: "holds s (x # xs) \<Longrightarrow> \<exists>s'. take s = Some (val x, s') \<and> holds s' xs"
    and take_empty: "holds s [] \<Longrightarrow> take s = None"
    and is_empty_holds: "holds s xs \<Longrightarrow> is_empty s \<longleftrightarrow> xs = []"
begin

lemma take_cases:
  assumes "holds s xs" "take s = Some (v, s')"
  obtains x ys where "xs = x # ys" "v = val x" "holds s' ys"
proof (cases xs)
  case Nil
  with assms take_empty show ?thesis by fastforce
next
  case (Cons x ys)
  with assms take_holds [of s x ys] that show ?thesis by fastforce
qed

text \<open>First in, first out, nothing lost and nothing twice: over any run, what was in the
  store followed by what was put in is what came out followed by what is still there.\<close>

lemma fifo_history:
  assumes "queue_run fresh put take s es s'" "holds s xs"
  shows "\<exists>ys. holds s' ys \<and> map val (xs @ puts es) = takes es @ map val ys"
  using assms
proof (induction arbitrary: xs rule: queue_run.induct)
  case (run_nil s)
  then show ?case by auto
next
  case (run_put m s x s' es s'')
  have "holds s' (xs @ [x])" using put_holds [OF run_put.prems run_put.hyps(1), of x] run_put.hyps(2) by auto
  from run_put.IH [OF this] show ?case by auto
next
  case (run_take s v s' es s'')
  from run_take.prems run_take.hyps(1) obtain x ys where "xs = x # ys" "v = val x" "holds s' ys"
    by (rule take_cases)
  with run_take.IH [of ys] show ?case by auto
qed

lemma drain_all:
  "holds s xs \<Longrightarrow> \<exists>s'. queue_run fresh put take s (map (\<lambda>x. Take (val x)) xs) s' \<and> holds s' []"
proof (induction xs arbitrary: s)
  case Nil
  then show ?case by (auto intro: queue_run.intros)
next
  case (Cons x xs)
  from take_holds [OF Cons.prems] obtain s1 where s1: "take s = Some (val x, s1)" "holds s1 xs"
    by blast
  from Cons.IH [OF s1(2)] s1(1) show ?case by (auto intro: run_take)
qed

end

end
