(* ===== verification/LinkedList.thy ===== *)
theory LinkedList
  imports QueueContract
begin

text \<open>
  The doubly linked list of \<open>src/gps/utils/linked_list.c\<close>, with its nodes in an explicit
  store: \<open>list_element\<close> and \<open>list_state\<close> are the two structs, a store maps the
  addresses that \<open>malloc\<close> returned and \<open>free\<close> has not reclaimed to nodes, and
  every operation reads and writes nodes through it. The result of \<open>malloc\<close> is an
  argument. \<open>rep h l xs\<close> says that the handle \<open>l\<close> represents the sequence
  \<open>xs\<close> (head first) and that the store holds exactly its nodes: neither a leak nor a
  dangling link.
\<close>

datatype linked_list_err_type =
    eLINKED_LIST_SUCCESS
  | eLINKED_LIST_FAILURE_GENERAL
  | eLINKED_LIST_INVALID_PARAMETER
  | eLINKED_LIST_INVALID_HANDLE
  | eLINKED_LIST_UNAVAILABLE_RESOURCE
  | eLINKED_LIST_INSUFFICIENT_BUFFER
  | eLINKED_LIST_EMPTY

fun linked_list_err_code :: "linked_list_err_type \<Rightarrow> int" where
  "linked_list_err_code eLINKED_LIST_SUCCESS = 0"
| "linked_list_err_code eLINKED_LIST_FAILURE_GENERAL = -1"
| "linked_list_err_code eLINKED_LIST_INVALID_PARAMETER = -2"
| "linked_list_err_code eLINKED_LIST_INVALID_HANDLE = -3"
| "linked_list_err_code eLINKED_LIST_UNAVAILABLE_RESOURCE = -4"
| "linked_list_err_code eLINKED_LIST_INSUFFICIENT_BUFFER = -5"
| "linked_list_err_code eLINKED_LIST_EMPTY = -6"

record ('d, 'f) list_element =
  e_next :: ptr
  e_prev :: ptr
  data_ptr :: 'd
  dealloc_func :: "'f option"

record list_state =
  p_head :: ptr
  p_tail :: ptr

text \<open>The store, and the calls of the clients' deallocation functions so far.\<close>

record ('d, 'f) store =
  elems :: "addr \<Rightarrow> ('d, 'f) list_element option"
  dealloc_calls :: "('f \<times> 'd) list"

definition load :: "('d, 'f) store \<Rightarrow> ptr \<Rightarrow> ('d, 'f) list_element option" where
  "load h p = Option.bind p (elems h)"

definition update_elem ::
  "('d, 'f) store \<Rightarrow> ptr \<Rightarrow> (('d, 'f) list_element \<Rightarrow> ('d, 'f) list_element) \<Rightarrow> ('d, 'f) store option" where
  "update_elem h p f =
     do { a \<leftarrow> p; e \<leftarrow> elems h a; Some (h\<lparr>elems := (elems h)(a := Some (f e))\<rparr>) }"

definition free_elem :: "('d, 'f) store \<Rightarrow> ptr \<Rightarrow> ('d, 'f) store option" where
  "free_elem h p =
     do { a \<leftarrow> p; e \<leftarrow> elems h a; Some (h\<lparr>elems := (elems h)(a := None)\<rparr>) }"

definition call_dealloc :: "('d, 'f) list_element \<Rightarrow> ('d, 'f) store \<Rightarrow> ('d, 'f) store" where
  "call_dealloc e h =
     (case dealloc_func e of
        None \<Rightarrow> h
      | Some f \<Rightarrow> h\<lparr>dealloc_calls := dealloc_calls h @ [(f, data_ptr e)]\<rparr>)"

section \<open>The operations\<close>

text \<open>
  \<open>linked_list_init\<close>: \<open>out\<close> says whether the caller's \<open>void**\<close> is not
  NULL, \<open>calloc_ok\<close> whether \<open>calloc\<close> succeeded.
\<close>

definition linked_list_init :: "bool \<Rightarrow> bool \<Rightarrow> linked_list_err_type \<times> list_state option" where
  "linked_list_init out calloc_ok =
     (if \<not> out then (eLINKED_LIST_INVALID_PARAMETER, None)
      else if \<not> calloc_ok then (eLINKED_LIST_FAILURE_GENERAL, None)
      else (eLINKED_LIST_SUCCESS, Some \<lparr>p_head = None, p_tail = None\<rparr>))"

definition linked_list_add ::
  "list_state option \<Rightarrow> 'd option \<Rightarrow> 'f option \<Rightarrow> ptr \<Rightarrow> ('d, 'f) store \<Rightarrow>
   (linked_list_err_type \<times> list_state option \<times> ('d, 'f) store) option" where
  "linked_list_add list_data data_obj dealloc m h =
     (case list_data of
        None \<Rightarrow> Some (eLINKED_LIST_INVALID_HANDLE, None, h)
      | Some p_list \<Rightarrow>
     (case data_obj of
        None \<Rightarrow> Some (eLINKED_LIST_INVALID_PARAMETER, Some p_list, h)
      | Some d \<Rightarrow>
     (case m of
        None \<Rightarrow> Some (eLINKED_LIST_FAILURE_GENERAL, Some p_list, h)
      | Some a \<Rightarrow>
          (let tmp = p_head p_list;
               elem = \<lparr>e_next = tmp, e_prev = None, data_ptr = d, dealloc_func = dealloc\<rparr>;
               h1 = h\<lparr>elems := (elems h)(a := Some elem)\<rparr>;
               l1 = p_list\<lparr>p_head := Some a\<rparr>
           in if tmp \<noteq> None
              then do { h2 \<leftarrow> update_elem h1 tmp (\<lambda>e. e\<lparr>e_prev := p_head l1\<rparr>);
                        Some (eLINKED_LIST_SUCCESS, Some l1, h2) }
              else Some (eLINKED_LIST_SUCCESS, Some (l1\<lparr>p_tail := p_head l1\<rparr>), h1)))))"

text \<open>\<open>out\<close> says whether the caller's \<open>data_obj\<close> is not NULL; what is written
  there is the third component.\<close>

definition linked_list_remove ::
  "list_state option \<Rightarrow> bool \<Rightarrow> ('d, 'f) store \<Rightarrow>
   (linked_list_err_type \<times> list_state option \<times> 'd option \<times> ('d, 'f) store) option" where
  "linked_list_remove list_data out h =
     (case list_data of
        None \<Rightarrow> Some (eLINKED_LIST_INVALID_HANDLE, None, None, h)
      | Some p_list \<Rightarrow>
      if \<not> out then Some (eLINKED_LIST_INVALID_PARAMETER, Some p_list, None, h)
      else if p_tail p_list = None
      then Some (eLINKED_LIST_UNAVAILABLE_RESOURCE, Some p_list, None, h)
      else do {
        let tmp = p_tail p_list;
        t \<leftarrow> load h tmp;
        let l1 = p_list\<lparr>p_tail := e_prev t\<rparr>;
        (l2, h2) \<leftarrow>
          (if p_tail l1 \<noteq> None
           then do { h1 \<leftarrow> update_elem h (p_tail l1) (\<lambda>e. e\<lparr>e_next := None\<rparr>); Some (l1, h1) }
           else Some (l1\<lparr>p_head := p_tail l1\<rparr>, h));
        t2 \<leftarrow> load h2 tmp;
        h3 \<leftarrow> free_elem h2 tmp;
        Some (eLINKED_LIST_SUCCESS, Some l2, Some (data_ptr t2), h3)
      })"

definition linked_list_empty :: "list_state option \<Rightarrow> int" where
  "linked_list_empty list_data =
     (case list_data of
        None \<Rightarrow> linked_list_err_code eLINKED_LIST_INVALID_HANDLE
      | Some p_list \<Rightarrow> if p_head p_list = None then 1 else 0)"

text \<open>The loop of \<open>linked_list_flush\<close>; on a cyclic structure it would free a node
  twice, which is \<open>None\<close>.\<close>

partial_function (option) flush_loop :: "ptr \<Rightarrow> ('d, 'f) store \<Rightarrow> ('d, 'f) store option" where
  "flush_loop p h =
     (if p = None then Some h
      else Option.bind (load h p) (\<lambda>e.
           Option.bind (free_elem (call_dealloc e h) p) (\<lambda>h'. flush_loop (e_next e) h')))"

definition linked_list_flush ::
  "list_state option \<Rightarrow> ('d, 'f) store \<Rightarrow>
   (linked_list_err_type \<times> list_state option \<times> ('d, 'f) store) option" where
  "linked_list_flush list_data h =
     (case list_data of
        None \<Rightarrow> Some (eLINKED_LIST_INVALID_HANDLE, None, h)
      | Some p_list \<Rightarrow>
          do { h' \<leftarrow> flush_loop (p_head p_list) h;
               Some (eLINKED_LIST_SUCCESS, Some (p_list\<lparr>p_head := None, p_tail := None\<rparr>), h') })"

text \<open>\<open>linked_list_destroy\<close>: \<open>out\<close> says whether the caller's \<open>void**\<close> is
  not NULL; the handle it points to is flushed, freed and set to NULL.\<close>

definition linked_list_destroy ::
  "bool \<Rightarrow> list_state option \<Rightarrow> ('d, 'f) store \<Rightarrow>
   (linked_list_err_type \<times> list_state option \<times> ('d, 'f) store) option" where
  "linked_list_destroy out list_data h =
     (if \<not> out then Some (eLINKED_LIST_INVALID_HANDLE, list_data, h)
      else do { (_, _, h') \<leftarrow> linked_list_flush list_data h;
                Some (eLINKED_LIST_SUCCESS, None, h') })"

partial_function (option) search_loop ::
  "('d \<Rightarrow> bool) \<Rightarrow> ('d, 'f) store \<Rightarrow> ptr \<Rightarrow> ptr option" where
  "search_loop eq h tmp =
     (if tmp = None then Some None
      else Option.bind (load h tmp) (\<lambda>e.
           if eq (data_ptr e) then Some tmp else search_loop eq h (e_next e)))"

text \<open>Taking a node out of the chain, as the \<open>rm_if_found\<close> branch does.\<close>

definition unlink ::
  "list_state \<Rightarrow> ptr \<Rightarrow> ('d, 'f) store \<Rightarrow> (list_state \<times> ('d, 'f) store) option" where
  "unlink p_list tmp h = do {
     e \<leftarrow> load h tmp;
     (l1, h1) \<leftarrow>
       (if e_prev e = None then Some (p_list\<lparr>p_head := e_next e\<rparr>, h)
        else do { h' \<leftarrow> update_elem h (e_prev e) (\<lambda>x. x\<lparr>e_next := e_next e\<rparr>); Some (p_list, h') });
     e1 \<leftarrow> load h1 tmp;
     (l2, h2) \<leftarrow>
       (if e_next e1 = None then Some (l1\<lparr>p_tail := e_prev e1\<rparr>, h1)
        else do { h' \<leftarrow> update_elem h1 (e_next e1) (\<lambda>x. x\<lparr>e_prev := e_prev e1\<rparr>); Some (l1, h') });
     h3 \<leftarrow> update_elem h2 tmp (\<lambda>x. x\<lparr>e_next := None, e_prev := None\<rparr>);
     Some (l2, h3)
   }"

text \<open>
  \<open>data_p\<close> is NULL (\<open>None\<close>) or the caller's variable with its value; \<open>equal\<close>
  is NULL or the comparison, already applied to the caller's \<open>data_0\<close>.
\<close>

definition linked_list_search ::
  "list_state option \<Rightarrow> 'd option option \<Rightarrow> ('d \<Rightarrow> bool) option \<Rightarrow> bool \<Rightarrow> ('d, 'f) store \<Rightarrow>
   (linked_list_err_type \<times> list_state option \<times> 'd option option \<times> ('d, 'f) store) option" where
  "linked_list_search list_data data_p equal rm_if_found h =
     (case (list_data, equal) of
        (Some p_list, Some eq) \<Rightarrow>
          (if p_tail p_list = None
           then Some (eLINKED_LIST_UNAVAILABLE_RESOURCE, list_data, data_p, h)
           else do {
             let out1 = map_option (\<lambda>_. None) data_p;
             tmp \<leftarrow> search_loop eq h (p_head p_list);
             if tmp = None then Some (eLINKED_LIST_SUCCESS, list_data, out1, h)
             else do {
               e \<leftarrow> load h tmp;
               let out2 = map_option (\<lambda>_. Some (data_ptr e)) out1;
               if \<not> rm_if_found then Some (eLINKED_LIST_SUCCESS, list_data, out2, h)
               else do {
                 (l1, h1) \<leftarrow> unlink p_list tmp h;
                 e1 \<leftarrow> load h1 tmp;
                 let h2 = (if data_p = None then call_dealloc e1 h1 else h1);
                 h3 \<leftarrow> free_elem h2 tmp;
                 Some (eLINKED_LIST_SUCCESS, Some l1, out2, h3)
               }
             }
           })
      | _ \<Rightarrow> Some (eLINKED_LIST_INVALID_HANDLE, list_data, data_p, h))"

section \<open>The representation of a sequence\<close>

type_synonym ('d, 'f) item = "'d \<times> 'f option"

definition elem_item :: "('d, 'f) list_element \<Rightarrow> ('d, 'f) item" where
  "elem_item e = (data_ptr e, dealloc_func e)"

lemma elem_item_update [simp]:
  "elem_item (e\<lparr>e_next := p\<rparr>) = elem_item e"
  "elem_item (e\<lparr>e_prev := p\<rparr>) = elem_item e"
  by (simp_all add: elem_item_def)

text \<open>\<open>seg c p pv ns q\<close>: from \<open>p\<close>, with \<open>pv\<close> behind it, the nodes
  \<open>ns\<close> are chained both ways up to \<open>q\<close>.\<close>

fun seg ::
  "(addr \<Rightarrow> ('d, 'f) list_element option) \<Rightarrow> ptr \<Rightarrow> ptr \<Rightarrow> (addr \<times> ('d, 'f) item) list \<Rightarrow> ptr \<Rightarrow> bool"
where
  "seg c p pv [] q \<longleftrightarrow> p = q"
| "seg c p pv ((a, it) # ns) q \<longleftrightarrow>
     p = Some a \<and>
     (case c a of
        None \<Rightarrow> False
      | Some e \<Rightarrow> e_prev e = pv \<and> elem_item e = it \<and> seg c (e_next e) (Some a) ns q)"

definition last_ptr :: "ptr \<Rightarrow> (addr \<times> 'i) list \<Rightarrow> ptr" where
  "last_ptr pv ns = (if ns = [] then pv else Some (fst (last ns)))"

definition linked ::
  "(addr \<Rightarrow> ('d, 'f) list_element option) \<Rightarrow> list_state \<Rightarrow> (addr \<times> ('d, 'f) item) list \<Rightarrow> bool" where
  "linked c l ns \<longleftrightarrow>
     seg c (p_head l) None ns None \<and> distinct (map fst ns) \<and> p_tail l = last_ptr None ns \<and>
     dom c = fst ` set ns"

definition rep :: "('d, 'f) store \<Rightarrow> list_state \<Rightarrow> ('d, 'f) item list \<Rightarrow> bool" where
  "rep h l xs \<longleftrightarrow> (\<exists>ns. linked (elems h) l ns \<and> map snd ns = xs)"

lemma last_ptr_simps [simp]:
  "last_ptr pv [] = pv"
  "last_ptr pv (ns @ [(a, it)]) = Some a"
  "last_ptr pv ((a, it) # ns) = last_ptr (Some a) ns"
  "last_ptr pv (xs @ ys) = last_ptr (last_ptr pv xs) ys"
  by (auto simp: last_ptr_def)

lemma seg_append:
  "seg c p pv (xs @ ys) q \<longleftrightarrow> (\<exists>r. seg c p pv xs r \<and> seg c r (last_ptr pv xs) ys q)"
  by (induction xs arbitrary: p pv) (auto split: option.splits)

lemma seg_upd_other [simp]:
  "a \<notin> fst ` set ns \<Longrightarrow> seg (c(a := v)) p pv ns q \<longleftrightarrow> seg c p pv ns q"
  by (induction ns arbitrary: p pv) (auto split: option.splits)

text \<open>Redirecting the ends of a segment.\<close>

lemma seg_set_prev:
  assumes "seg c (Some t) pv ((t, it) # ns) q" "t \<notin> fst ` set ns" "c t = Some e"
  shows "seg (c(t := Some (e\<lparr>e_prev := p'\<rparr>))) (Some t) p' ((t, it) # ns) q"
  using assms by (auto split: option.splits)

lemma seg_set_next:
  assumes "seg c p pv (ns @ [(t, it)]) q" "t \<notin> fst ` set ns" "c t = Some e"
  shows "seg (c(t := Some (e\<lparr>e_next := q'\<rparr>))) p pv (ns @ [(t, it)]) q'"
  using assms by (auto simp: seg_append split: option.splits)

lemma linked_empty_iff:
  assumes "linked c l ns"
  shows "p_head l = None \<longleftrightarrow> ns = []" "p_tail l = None \<longleftrightarrow> ns = []"
  using assms by (cases ns; auto simp: linked_def last_ptr_def split: prod.splits)+

lemma rep_empty_iff:
  assumes "rep h l xs"
  shows "p_head l = None \<longleftrightarrow> xs = []" "p_tail l = None \<longleftrightarrow> xs = []"
  using assms linked_empty_iff by (fastforce simp: rep_def)+

section \<open>Every operation against the sequence\<close>

definition empty_store :: "('d, 'f) store" where
  "empty_store = \<lparr>elems = (\<lambda>_. None), dealloc_calls = []\<rparr>"

lemma rep_init: "rep empty_store \<lparr>p_head = None, p_tail = None\<rparr> []"
  by (auto simp: rep_def linked_def empty_store_def)

lemma linked_cons:
  assumes "linked c l ((t, it) # ns)" "a \<notin> dom c" "c t = Some e"
    and "c' = c(a := Some \<lparr>e_next = Some t, e_prev = None, data_ptr = d, dealloc_func = f\<rparr>,
               t := Some (e\<lparr>e_prev := Some a\<rparr>))"
  shows "linked c' (l\<lparr>p_head := Some a\<rparr>) ((a, (d, f)) # (t, it) # ns)"
proof -
  have fresh: "a \<notin> insert t (fst ` set ns)" using assms by (auto simp: linked_def)
  have t: "t \<notin> fst ` set ns" using assms by (auto simp: linked_def)
  have "seg c (Some t) None ((t, it) # ns) None" using assms by (auto simp: linked_def)
  then have "seg (c(t := Some (e\<lparr>e_prev := Some a\<rparr>))) (Some t) (Some a) ((t, it) # ns) None"
    using t assms(3) by (rule seg_set_prev)
  then have "seg c' (Some t) (Some a) ((t, it) # ns) None"
    using fresh assms(4) by (simp add: fun_upd_twist)
  moreover have "c' a = Some \<lparr>e_next = Some t, e_prev = None, data_ptr = d, dealloc_func = f\<rparr>"
    using fresh assms(4) by simp
  ultimately show ?thesis
    using assms(1,4) fresh by (auto simp: linked_def elem_item_def)
qed

lemma linked_list_add_rep:
  assumes "rep h l xs" "elems h a = None"
  shows "\<exists>l' h'. linked_list_add (Some l) (Some d) f (Some a) h =
           Some (eLINKED_LIST_SUCCESS, Some l', h') \<and>
         rep h' l' ((d, f) # xs) \<and> dealloc_calls h' = dealloc_calls h"
proof -
  from assms obtain ns where ns: "linked (elems h) l ns" "map snd ns = xs"
    by (auto simp: rep_def)
  show ?thesis
  proof (cases ns)
    case Nil
    with ns have "p_head l = None" "elems h = (\<lambda>_. None)" by (auto simp: linked_def)
    with Nil ns show ?thesis
      by (auto simp: linked_list_add_def rep_def linked_def elem_item_def Let_def
          intro!: exI [of _ "[(a, (d, f))]"])
  next
    case (Cons n ns')
    obtain t it where n: "n = (t, it)" by (cases n)
    with ns Cons obtain e where e: "elems h t = Some e" "p_head l = Some t"
      by (auto simp: linked_def split: option.splits)
    have neq: "t \<noteq> a" using assms(2) e by auto
    let ?e0 = "\<lparr>e_next = Some t, e_prev = None, data_ptr = d, dealloc_func = f\<rparr>"
    let ?c = "(elems h)(a := Some ?e0, t := Some (e\<lparr>e_prev := Some a\<rparr>))"
    have "linked ?c (l\<lparr>p_head := Some a\<rparr>) ((a, (d, f)) # (t, it) # ns')"
      using ns Cons n e assms(2) by (intro linked_cons [of "elems h"]) auto
    moreover have "linked_list_add (Some l) (Some d) f (Some a) h =
        Some (eLINKED_LIST_SUCCESS, Some (l\<lparr>p_head := Some a\<rparr>), h\<lparr>elems := ?c\<rparr>)"
      using e neq by (simp add: linked_list_add_def Let_def update_elem_def)
    ultimately show ?thesis
      using ns Cons n by (auto simp: rep_def intro!: exI [of _ "(a, (d, f)) # (t, it) # ns'"])
  qed
qed

text \<open>Taking one node out of the chain: \<open>us\<close> before it, \<open>vs\<close> behind it.\<close>

definition relink ::
  "(addr \<Rightarrow> ('d, 'f) list_element option) \<Rightarrow> ptr \<Rightarrow> (('d, 'f) list_element \<Rightarrow> ('d, 'f) list_element) \<Rightarrow>
   addr \<Rightarrow> ('d, 'f) list_element option" where
  "relink c p f = (case p of None \<Rightarrow> c | Some a \<Rightarrow> c(a := map_option f (c a)))"

definition first_ptr :: "(addr \<times> 'i) list \<Rightarrow> ptr" where
  "first_ptr ns = (case ns of [] \<Rightarrow> None | (a, _) # _ \<Rightarrow> Some a)"

lemma first_ptr_simps [simp]:
  "first_ptr [] = None" "first_ptr ((a, it) # ns) = Some a"
  by (simp_all add: first_ptr_def)

lemma seg_start: "seg c p pv ns None \<Longrightarrow> p = first_ptr ns"
  by (cases ns) auto

lemma seg_middle:
  assumes "seg c p None (us @ (t, it) # vs) None"
  obtains e where "c t = Some e" "e_prev e = last_ptr None us" "e_next e = first_ptr vs"
    "elem_item e = it" "seg c p None us (Some t)" "seg c (first_ptr vs) (Some t) vs None"
  using assms seg_start by (force simp: seg_append split: option.splits)

lemma seg_relink_next:
  assumes "seg c p pv us (Some t)" "distinct (map fst us)"
  shows "seg (relink c (last_ptr None us) (\<lambda>e. e\<lparr>e_next := q\<rparr>))
           (if us = [] then q else p) pv us q"
proof (cases us rule: rev_cases)
  case (snoc ys y)
  obtain u iu where y: "y = (u, iu)" by (cases y)
  from assms snoc y obtain e where "c u = Some e"
    by (auto simp: seg_append split: option.splits)
  with assms snoc y show ?thesis
    using seg_set_next [of c p pv ys u iu "Some t" e q] by (auto simp: relink_def)
qed (simp add: relink_def)

lemma seg_relink_prev:
  assumes "seg c p pv vs None" "distinct (map fst vs)"
  shows "seg (relink c (first_ptr vs) (\<lambda>e. e\<lparr>e_prev := pv'\<rparr>)) (first_ptr vs) pv' vs None"
proof (cases vs)
  case (Cons y ys)
  obtain v iv where y: "y = (v, iv)" by (cases y)
  from assms Cons y obtain e where "c v = Some e" "p = Some v"
    by (auto split: option.splits)
  with assms Cons y show ?thesis
    using seg_set_prev [of c v pv iv ys None e pv'] by (auto simp: relink_def)
qed simp

lemma seg_relink_other:
  "(\<And>a. p = Some a \<Longrightarrow> a \<notin> fst ` set ns) \<Longrightarrow>
   seg (relink c p f) q pv ns r \<longleftrightarrow> seg c q pv ns r"
  by (cases p) (auto simp: relink_def)

lemma last_ptr_in: "last_ptr None us = Some a \<Longrightarrow> a \<in> fst ` set us"
  by (auto simp: last_ptr_def split: if_splits)

lemma first_ptr_in: "first_ptr us = Some a \<Longrightarrow> a \<in> fst ` set us"
  by (auto simp: first_ptr_def split: list.splits)

lemma seg_unlink:
  assumes "seg c p None (us @ (t, it) # vs) None" "distinct (map fst (us @ (t, it) # vs))"
  defines "c' \<equiv> relink (relink c (last_ptr None us) (\<lambda>e. e\<lparr>e_next := first_ptr vs\<rparr>))
                  (first_ptr vs) (\<lambda>e. e\<lparr>e_prev := last_ptr None us\<rparr>)"
  shows "seg c' (if us = [] then first_ptr vs else p) None (us @ vs) None"
proof -
  obtain e where e: "seg c p None us (Some t)" "seg c (first_ptr vs) (Some t) vs None"
    using assms(1) by (rule seg_middle)
  have d: "distinct (map fst us)" "distinct (map fst vs)"
      "\<And>a. a \<in> fst ` set us \<Longrightarrow> a \<notin> fst ` set vs"
    using assms(2) by auto
  let ?c1 = "relink c (last_ptr None us) (\<lambda>e. e\<lparr>e_next := first_ptr vs\<rparr>)"
  have "seg ?c1 (if us = [] then first_ptr vs else p) None us (first_ptr vs)"
    using e(1) d(1) by (rule seg_relink_next)
  then have 1: "seg c' (if us = [] then first_ptr vs else p) None us (first_ptr vs)"
    unfolding c'_def using d(3) first_ptr_in by (subst seg_relink_other) blast+
  have "seg ?c1 (first_ptr vs) (Some t) vs None"
    using e(2) d(3) last_ptr_in by (subst seg_relink_other) blast+
  then have 2: "seg c' (first_ptr vs) (last_ptr None us) vs None"
    unfolding c'_def using d(2) by (rule seg_relink_prev)
  from 1 2 show ?thesis by (auto simp: seg_append)
qed

lemma dom_relink [simp]: "dom (relink c p f) = dom c"
  by (cases p) (auto simp: relink_def dom_def)

text \<open>The chain without the node \<open>t\<close>, which is also gone from the store.\<close>

definition without_node ::
  "(addr \<Rightarrow> ('d, 'f) list_element option) \<Rightarrow> (addr \<times> ('d, 'f) item) list \<Rightarrow> addr \<Rightarrow>
   (addr \<times> ('d, 'f) item) list \<Rightarrow> addr \<Rightarrow> ('d, 'f) list_element option" where
  "without_node c us t vs =
     (relink (relink c (last_ptr None us) (\<lambda>e. e\<lparr>e_next := first_ptr vs\<rparr>))
        (first_ptr vs) (\<lambda>e. e\<lparr>e_prev := last_ptr None us\<rparr>)) (t := None)"

lemma linked_without_node:
  assumes "linked c l (us @ (t, it) # vs)"
    and "p_head l' = (if us = [] then first_ptr vs else p_head l)"
    and "p_tail l' = (if vs = [] then last_ptr None us else p_tail l)"
  shows "linked (without_node c us t vs) l' (us @ vs)"
proof -
  have s: "seg c (p_head l) None (us @ (t, it) # vs) None" "distinct (map fst (us @ (t, it) # vs))"
    using assms(1) by (auto simp: linked_def)
  have "seg (without_node c us t vs) (p_head l') None (us @ vs) None"
    unfolding without_node_def using seg_unlink [OF s] s(2) assms(2)
    by (subst seg_upd_other) (auto simp: Un_iff)
  moreover have "p_tail l' = last_ptr None (us @ vs)"
    using assms(1,3) by (cases vs rule: rev_cases) (auto simp: linked_def last_ptr_def)
  moreover have "dom (without_node c us t vs) = fst ` set (us @ vs)"
    using assms(1) s(2) by (auto simp: without_node_def linked_def)
  ultimately show ?thesis using s(2) by (auto simp: linked_def)
qed

lemma linked_middle:
  assumes "linked c l (us @ (t, it) # vs)"
  obtains e where "c t = Some e" "e_prev e = last_ptr None us" "e_next e = first_ptr vs"
    "elem_item e = it"
    "\<And>u. last_ptr None us = Some u \<Longrightarrow> u \<noteq> t \<and> (\<exists>x. c u = Some x)"
    "\<And>v. first_ptr vs = Some v \<Longrightarrow> v \<noteq> t \<and> (\<exists>x. c v = Some x) \<and> last_ptr None us \<noteq> Some v"
proof -
  have d: "distinct (map fst (us @ (t, it) # vs))" "dom c = fst ` set (us @ (t, it) # vs)"
    using assms by (auto simp: linked_def)
  have in_dom: "a \<in> fst ` set (us @ (t, it) # vs) \<Longrightarrow> \<exists>x. c a = Some x" for a
    using d(2) by blast
  have "seg c (p_head l) None (us @ (t, it) # vs) None"
    using assms by (auto simp: linked_def)
  then obtain e where e: "c t = Some e" "e_prev e = last_ptr None us" "e_next e = first_ptr vs"
      "elem_item e = it"
    by (rule seg_middle)
  moreover have "u \<noteq> t \<and> (\<exists>x. c u = Some x)" if "last_ptr None us = Some u" for u
    using last_ptr_in [OF that] d(1) in_dom [of u] by auto
  moreover have "v \<noteq> t \<and> (\<exists>x. c v = Some x) \<and> last_ptr None us \<noteq> Some v"
    if "first_ptr vs = Some v" for v
    using first_ptr_in [OF that] d(1) in_dom [of v] last_ptr_in [of us v] by auto
  ultimately show ?thesis using that by blast
qed

lemma linked_list_remove_rep:
  assumes "rep h l (xs @ [x])"
  shows "\<exists>l' h'. linked_list_remove (Some l) True h =
           Some (eLINKED_LIST_SUCCESS, Some l', Some (fst x), h') \<and>
         rep h' l' xs \<and> dealloc_calls h' = dealloc_calls h"
proof -
  from assms obtain us t where ns: "linked (elems h) l (us @ [(t, x)])" "map snd us = xs"
    by (auto simp: rep_def map_eq_append_conv)
  from ns(1) obtain e where e: "elems h t = Some e" "e_prev e = last_ptr None us"
      "elem_item e = x"
      "\<And>u. last_ptr None us = Some u \<Longrightarrow> u \<noteq> t \<and> (\<exists>x. elems h u = Some x)"
    by (rule linked_middle) auto
  let ?l = "l\<lparr>p_head := (if us = [] then None else p_head l), p_tail := last_ptr None us\<rparr>"
  let ?h = "h\<lparr>elems := without_node (elems h) us t []\<rparr>"
  have tail: "p_tail l = Some t" using ns by (auto simp: linked_def)
  have "linked_list_remove (Some l) True h =
      Some (eLINKED_LIST_SUCCESS, Some ?l, Some (fst x), ?h)"
  proof (cases "last_ptr None us")
    case None
    with e tail show ?thesis
      by (auto simp: linked_list_remove_def load_def free_elem_def without_node_def relink_def
          last_ptr_def elem_item_def split: if_splits)
  next
    case (Some u)
    with e obtain eu where "u \<noteq> t" "elems h u = Some eu" by blast
    with Some e tail show ?thesis
      by (auto simp: linked_list_remove_def load_def free_elem_def update_elem_def
          without_node_def relink_def last_ptr_def elem_item_def split: if_splits)
  qed
  moreover have "linked (without_node (elems h) us t []) ?l (us @ [])"
    by (rule linked_without_node [OF ns(1)]) simp_all
  then have "rep ?h ?l xs" using ns(2) by (auto simp: rep_def simp del: append_Nil2)
  ultimately show ?thesis by auto
qed

text \<open>The deallocation calls that disposing of the items \<open>xs\<close> makes, in order.\<close>

fun dispose :: "('d, 'f) item list \<Rightarrow> ('f \<times> 'd) list" where
  "dispose [] = []"
| "dispose ((d, None) # xs) = dispose xs"
| "dispose ((d, Some f) # xs) = (f, d) # dispose xs"

lemma call_dealloc_simps [simp]:
  "elems (call_dealloc e h) = elems h"
  "dealloc_calls (call_dealloc e h) = dealloc_calls h @ dispose [elem_item e]"
  by (auto simp: call_dealloc_def elem_item_def split: option.splits)

lemma dispose_Cons: "dispose (x # xs) = dispose [x] @ dispose xs"
  by (cases x; cases "snd x") auto

lemma flush_loop_seg:
  assumes "seg (elems h) p pv ns None" "distinct (map fst ns)"
  shows "\<exists>h'. flush_loop p h = Some h' \<and> elems h' = (elems h) |` (- fst ` set ns) \<and>
           dealloc_calls h' = dealloc_calls h @ dispose (map snd ns)"
  using assms
proof (induction ns arbitrary: p pv h)
  case Nil
  then show ?case by (simp add: flush_loop.simps restrict_map_def)
next
  case (Cons n ns)
  obtain a it where n: "n = (a, it)" by (cases n)
  from Cons.prems n obtain e where e: "p = Some a" "elems h a = Some e" "elem_item e = it"
      "seg (elems h) (e_next e) (Some a) ns None" and a: "a \<notin> fst ` set ns" "distinct (map fst ns)"
    by (auto split: option.splits)
  define h1 where "h1 = (call_dealloc e h)\<lparr>elems := (elems h)(a := None)\<rparr>"
  have "seg (elems h1) (e_next e) (Some a) ns None"
    using e a by (simp add: h1_def)
  from Cons.IH [OF this a(2)] obtain h' where
    h': "flush_loop (e_next e) h1 = Some h'" "elems h' = elems h1 |` (- fst ` set ns)"
        "dealloc_calls h' = dealloc_calls h1 @ dispose (map snd ns)"
    by blast
  have "free_elem (call_dealloc e h) p = Some h1"
    using e by (simp add: free_elem_def h1_def)
  then have "flush_loop p h = Some h'"
    using e h'(1) by (simp add: flush_loop.simps load_def)
  moreover have "elems h' = (elems h) |` (- fst ` set (n # ns))"
    using h'(2) n a by (auto simp: h1_def restrict_map_def)
  moreover have "dealloc_calls h' = dealloc_calls h @ dispose (map snd (n # ns))"
    using h'(3) n e dispose_Cons [of it "map snd ns"] by (simp add: h1_def)
  ultimately show ?case by blast
qed

lemma linked_list_flush_rep:
  assumes "rep h l xs"
  shows "\<exists>l' h'. linked_list_flush (Some l) h = Some (eLINKED_LIST_SUCCESS, Some l', h') \<and>
         rep h' l' [] \<and> dealloc_calls h' = dealloc_calls h @ dispose xs"
proof -
  from assms obtain ns where ns: "linked (elems h) l ns" "map snd ns = xs"
    by (auto simp: rep_def)
  then obtain h' where h': "flush_loop (p_head l) h = Some h'"
      "elems h' = (elems h) |` (- fst ` set ns)"
      "dealloc_calls h' = dealloc_calls h @ dispose xs"
    using flush_loop_seg [of h "p_head l" None ns] by (auto simp: linked_def)
  have "dom (elems h') = {}" using ns h'(2) by (auto simp: linked_def)
  then have "elems h' = (\<lambda>_. None)" by simp
  then show ?thesis using h'(1,3)
    by (auto simp: linked_list_flush_def rep_def linked_def)
qed

lemma search_loop_seg:
  assumes "seg (elems h) p pv ns None"
  shows "search_loop eq h p =
           Some (map_option fst (find (\<lambda>n. eq (fst (snd n))) ns))"
  using assms
proof (induction ns arbitrary: p pv)
  case Nil
  then show ?case by (simp add: search_loop.simps)
next
  case (Cons n ns)
  obtain a it where n: "n = (a, it)" by (cases n)
  with Cons.prems obtain e where e: "p = Some a" "elems h a = Some e" "elem_item e = it"
      "seg (elems h) (e_next e) (Some a) ns None"
    by (auto split: option.splits)
  with n Cons.IH [OF e(4)] show ?case
    by (auto simp: search_loop.simps [of eq h "Some a"] load_def elem_item_def)
qed

lemma unlink_rep:
  assumes "linked (elems h) l (us @ (t, it) # vs)"
  shows "\<exists>l' h' e'. unlink l (Some t) h = Some (l', h') \<and> elems h' t = Some e' \<and>
           elem_item e' = it \<and> dealloc_calls h' = dealloc_calls h \<and>
           linked ((elems h')(t := None)) l' (us @ vs)"
proof -
  from assms obtain e where e: "elems h t = Some e" "e_prev e = last_ptr None us"
      "e_next e = first_ptr vs" "elem_item e = it"
      "\<And>u. last_ptr None us = Some u \<Longrightarrow> u \<noteq> t \<and> (\<exists>x. elems h u = Some x)"
      "\<And>v. first_ptr vs = Some v \<Longrightarrow> v \<noteq> t \<and> (\<exists>x. elems h v = Some x) \<and> last_ptr None us \<noteq> Some v"
    by (rule linked_middle) blast
  define l' where "l' = l\<lparr>p_head := (if us = [] then first_ptr vs else p_head l),
                         p_tail := (if vs = [] then last_ptr None us else p_tail l)\<rparr>"
  define h' where "h' = h\<lparr>elems := (without_node (elems h) us t vs)
                             (t := Some (e\<lparr>e_next := None, e_prev := None\<rparr>))\<rparr>"
  have nil: "last_ptr None us = None \<longleftrightarrow> us = []" "first_ptr vs = None \<longleftrightarrow> vs = []"
    by (auto simp: last_ptr_def first_ptr_def split: list.splits)
  have "unlink l (Some t) h = Some (l', h')"
    using e nil unfolding l'_def h'_def
    by (cases "last_ptr None us"; cases "first_ptr vs")
      (force simp: unlink_def load_def update_elem_def without_node_def relink_def)+
  moreover have "linked ((elems h')(t := None)) l' (us @ vs)"
    using linked_without_node [OF assms, of l']
    by (simp add: h'_def l'_def without_node_def)
  ultimately show ?thesis using e(4) by (auto simp: h'_def)
qed

text \<open>
  Looking for the first item that \<open>eq\<close> accepts: without removal, the outputs are
  those of \<open>find\<close> on the sequence; with removal, the item goes, and its
  deallocation function runs exactly when the caller did not take the data out.
\<close>

lemma linked_search_find:
  assumes "linked (elems h) l ns" "ns \<noteq> []"
  shows "search_loop eq h (p_head l) = Some (map_option fst (find (\<lambda>n. eq (fst (snd n))) ns))"
    "p_tail l \<noteq> None"
  using assms search_loop_seg [of h "p_head l" None ns eq]
  by (auto simp: linked_def last_ptr_def)

lemma find_map_snd: "find (\<lambda>it. eq (fst it)) (map snd ns) = map_option snd (find (\<lambda>n. eq (fst (snd n))) ns)"
  by (induction ns) auto

lemma linked_list_search_keep:
  assumes "rep h l xs" "xs \<noteq> []"
  shows "linked_list_search (Some l) data_p (Some eq) False h =
           Some (eLINKED_LIST_SUCCESS, Some l,
                 map_option (\<lambda>_. map_option fst (find (\<lambda>it. eq (fst it)) xs)) data_p, h)"
proof -
  from assms obtain ns where ns: "linked (elems h) l ns" "map snd ns = xs" "ns \<noteq> []"
    by (auto simp: rep_def)
  note s = linked_search_find(1) [OF ns(1,3), of eq] linked_search_find(2) [OF ns(1,3)]
  show ?thesis
  proof (cases "find (\<lambda>n. eq (fst (snd n))) ns")
    case None
    with s ns show ?thesis
      by (cases data_p) (auto simp: linked_list_search_def find_map_snd)
  next
    case (Some n)
    obtain t it where n: "n = (t, it)" by (cases n)
    from find_split [OF Some] n obtain us vs where "ns = us @ (t, it) # vs" by blast
    with ns(1) obtain e where "elems h t = Some e" "elem_item e = it"
      using linked_middle [of "elems h" l us t it vs] by metis
    with s Some n ns show ?thesis
      by (cases data_p) (auto simp: linked_list_search_def load_def find_map_snd elem_item_def)
  qed
qed

lemma linked_list_search_remove:
  assumes "rep h l (xs @ x # ys)" "eq (fst x)" "\<forall>y\<in>set xs. \<not> eq (fst y)"
  shows "\<exists>l' h'. linked_list_search (Some l) data_p (Some eq) True h =
           Some (eLINKED_LIST_SUCCESS, Some l', map_option (\<lambda>_. Some (fst x)) data_p, h') \<and>
         rep h' l' (xs @ ys) \<and>
         dealloc_calls h' = dealloc_calls h @ (if data_p = None then dispose [x] else [])"
proof -
  from assms(1) obtain us t vs where ns: "linked (elems h) l (us @ (t, x) # vs)"
      "map snd us = xs" "map snd vs = ys"
    by (auto simp: rep_def map_eq_append_conv map_eq_Cons_conv)
  then have "find (\<lambda>n. eq (fst (snd n))) us = None"
    using assms(3) by (fastforce simp: find_None_iff)
  then have found: "find (\<lambda>n. eq (fst (snd n))) (us @ (t, x) # vs) = Some (t, x)"
    using assms(2) by (induction us) (auto split: if_splits)
  have s: "search_loop eq h (p_head l) = Some (Some t)" "p_tail l \<noteq> None"
    using linked_search_find(1) [OF ns(1), of eq] linked_search_find(2) [OF ns(1)] found by auto
  obtain l' h1 e' where u: "unlink l (Some t) h = Some (l', h1)" "elems h1 t = Some e'"
      "elem_item e' = x" "dealloc_calls h1 = dealloc_calls h"
      "linked ((elems h1)(t := None)) l' (us @ vs)"
    using unlink_rep [OF ns(1)] by blast
  obtain e where e: "elems h t = Some e" "elem_item e = x"
    using linked_middle [OF ns(1)] by metis
  define h2 where "h2 = (if data_p = None then call_dealloc e' h1 else h1)"
  define h' where "h' = h2\<lparr>elems := (elems h2)(t := None)\<rparr>"
  have h2: "elems h2 = elems h1" by (simp add: h2_def)
  then have "free_elem h2 (Some t) = Some h'"
    using u(2) by (simp add: free_elem_def h'_def)
  then have "linked_list_search (Some l) data_p (Some eq) True h =
      Some (eLINKED_LIST_SUCCESS, Some l', map_option (\<lambda>_. Some (fst x)) data_p, h')"
    using s e u(1,2,3) by (cases data_p)
      (auto simp: linked_list_search_def load_def elem_item_def h2_def)
  moreover have "rep h' l' (xs @ ys)"
    using u(5) ns h2 by (auto simp: rep_def h'_def)
  moreover have "dealloc_calls h' = dealloc_calls h @ (if data_p = None then dispose [x] else [])"
    using u(3,4) by (simp add: h'_def h2_def)
  ultimately show ?thesis by blast
qed

lemma linked_list_remove_empty:
  "rep h l [] \<Longrightarrow>
   linked_list_remove (Some l) True h = Some (eLINKED_LIST_UNAVAILABLE_RESOURCE, Some l, None, h)"
  using rep_empty_iff [of h l "[]"] by (auto simp: linked_list_remove_def)

lemma linked_list_empty_rep:
  "rep h l xs \<Longrightarrow> linked_list_empty (Some l) = (if xs = [] then 1 else 0)"
  using rep_empty_iff [of h l xs] by (auto simp: linked_list_empty_def)

section \<open>The list as a message store\<close>

text \<open>\<open>linked_list_add\<close> puts at the head, \<open>linked_list_remove\<close> takes from the
  tail: the represented sequence, reversed, is a queue.\<close>

type_synonym ('d, 'f) ll = "list_state \<times> ('d, 'f) store"

definition ll_holds :: "('d, 'f) ll \<Rightarrow> ('d, 'f) item list \<Rightarrow> bool" where
  "ll_holds s xs \<longleftrightarrow> rep (snd s) (fst s) (rev xs)"

definition ll_fresh :: "addr \<Rightarrow> ('d, 'f) ll \<Rightarrow> bool" where
  "ll_fresh a s \<longleftrightarrow> elems (snd s) a = None"

definition ll_put :: "addr \<Rightarrow> ('d, 'f) item \<Rightarrow> ('d, 'f) ll \<Rightarrow> ('d, 'f) ll option" where
  "ll_put a x s =
     (case linked_list_add (Some (fst s)) (Some (fst x)) (snd x) (Some a) (snd s) of
        Some (eLINKED_LIST_SUCCESS, Some l, h) \<Rightarrow> Some (l, h)
      | _ \<Rightarrow> None)"

definition ll_take :: "('d, 'f) ll \<Rightarrow> ('d \<times> ('d, 'f) ll) option" where
  "ll_take s =
     (case linked_list_remove (Some (fst s)) True (snd s) of
        Some (eLINKED_LIST_SUCCESS, Some l, Some d, h) \<Rightarrow> Some (d, (l, h))
      | _ \<Rightarrow> None)"

interpretation ll: message_store ll_holds ll_fresh ll_put ll_take fst
  "\<lambda>s. linked_list_empty (Some (fst s)) \<noteq> 0"
proof unfold_locales
  fix s :: "('d, 'f) ll" and xs m x
  assume "ll_holds s xs" "ll_fresh m s"
  then show "\<exists>s'. ll_put m x s = Some s' \<and> ll_holds s' (xs @ [x])"
    using linked_list_add_rep [of "snd s" "fst s" "rev xs" m "fst x" "snd x"]
    by (auto simp: ll_holds_def ll_fresh_def ll_put_def)
next
  fix s :: "('d, 'f) ll" and xs x
  assume "ll_holds s (x # xs)"
  then show "\<exists>s'. ll_take s = Some (fst x, s') \<and> ll_holds s' xs"
    using linked_list_remove_rep [of "snd s" "fst s" "rev xs" x]
    by (auto simp: ll_holds_def ll_take_def)
qed (auto simp: ll_holds_def ll_take_def linked_list_remove_empty linked_list_empty_rep)

section \<open>Properties\<close>

text \<open>
  C1. First in, first out: along any sequence of successful \<open>linked_list_add\<close> and
  \<open>linked_list_remove\<close> calls on a well-formed list, the data removed, followed by the
  data still in the list, is exactly the data that was there and then added, in order.\<close>

theorem linked_list_fifo:
  assumes "queue_run ll_fresh ll_put ll_take s es s'" "ll_holds s xs"
  shows "\<exists>ys. ll_holds s' ys \<and> map fst (xs @ puts es) = takes es @ map fst ys"
  using assms by (rule ll.fifo_history)

definition nil_ll :: "(nat, nat) ll" where
  "nil_ll = (\<lparr>p_head = None, p_tail = None\<rparr>, empty_store)"

definition two_ll :: "(nat, nat) ll" where
  "two_ll = (\<lparr>p_head = Some 1, p_tail = Some 0\<rparr>,
     \<lparr>elems = [0 \<mapsto> \<lparr>e_next = None, e_prev = Some 1, data_ptr = 7, dealloc_func = Some 3\<rparr>,
               1 \<mapsto> \<lparr>e_next = Some 0, e_prev = None, data_ptr = 8, dealloc_func = None\<rparr>],
      dealloc_calls = []\<rparr>)"

definition one_ll :: "(nat, nat) ll" where
  "one_ll = (\<lparr>p_head = Some 0, p_tail = Some 0\<rparr>,
     \<lparr>elems = [0 \<mapsto> \<lparr>e_next = None, e_prev = None, data_ptr = 7, dealloc_func = Some 3\<rparr>],
      dealloc_calls = []\<rparr>)"

lemmas ll_eval = nil_ll_def one_ll_def two_ll_def empty_store_def ll_put_def ll_take_def ll_fresh_def
  linked_list_add_def linked_list_remove_def load_def update_elem_def free_elem_def

lemma two_ll_rep: "rep (snd two_ll) (fst two_ll) [(8, None), (7, Some 3)]"
  by (auto simp: rep_def linked_def two_ll_def elem_item_def last_ptr_def
      intro!: exI [of _ "[(1, (8, None)), (0, (7, Some 3))]"])

theorem linked_list_fifo_witness:
  "\<exists>s' ys. queue_run ll_fresh ll_put ll_take nil_ll [Put (7, Some 3), Put (8, None), Take 7] s' \<and>
     ll_holds s' ys \<and> [7, 8] = [7] @ map fst ys"
proof -
  have "ll_put 0 (7, Some 3) nil_ll = Some one_ll" by (simp add: ll_eval)
  moreover have "ll_put 1 (8, None) one_ll = Some two_ll"
    by (simp add: ll_eval Let_def fun_upd_twist)
  moreover obtain s3 where "ll_take two_ll = Some (7, s3)"
    by (simp add: ll_eval)
  moreover have "ll_fresh 0 nil_ll" "ll_fresh 1 one_ll" by (simp_all add: ll_eval)
  ultimately have run: "queue_run ll_fresh ll_put ll_take nil_ll [Put (7, Some 3), Put (8, None), Take 7] s3"
    by (auto intro!: queue_run.intros)
  have "ll_holds nil_ll []" using rep_init by (simp add: ll_holds_def nil_ll_def)
  from linked_list_fifo [OF run this] obtain ys where
    "ll_holds s3 ys" "[7, 8] = [7] @ map fst ys"
    by auto
  with run show ?thesis by (intro exI [of _ s3] exI [of _ ys]) simp
qed

text \<open>
  Searching with removal on a list that represents \<open>xs @ x # ys\<close>, where \<open>x\<close>
  is the first item the comparison accepts, never touches freed or foreign storage, takes exactly
  \<open>x\<close> out, reports its data to the caller, and runs its deallocation function exactly when the
  caller did not ask for the data.\<close>

theorem linked_list_search_removes_first:
  assumes "rep h l (xs @ x # ys)" "eq (fst x)" "\<forall>y\<in>set xs. \<not> eq (fst y)"
  shows "\<exists>l' h'. linked_list_search (Some l) data_p (Some eq) True h =
           Some (eLINKED_LIST_SUCCESS, Some l', map_option (\<lambda>_. Some (fst x)) data_p, h') \<and>
         rep h' l' (xs @ ys) \<and>
         dealloc_calls h' = dealloc_calls h @ (if data_p = None then dispose [x] else [])"
  using assms by (rule linked_list_search_remove)

theorem linked_list_search_removes_first_witness:
  "\<exists>l' h'. linked_list_search (Some (fst two_ll)) None (Some (\<lambda>d. d = 7)) True (snd two_ll) =
     Some (eLINKED_LIST_SUCCESS, Some l', None, h') \<and>
     rep h' l' [(8, None)] \<and> dealloc_calls h' = [(3, 7)]"
  using linked_list_search_removes_first [of "snd two_ll" "fst two_ll" "[(8, None)]" "(7, Some 3)" "[]"
      "\<lambda>d. d = 7" None] two_ll_rep
  by (simp add: two_ll_def)

text \<open>
  Flushing terminates on every well-formed list, calls each item's deallocation function
  exactly once, head to tail, and leaves an empty list with no node of it in the store.\<close>

theorem linked_list_flush_complete:
  assumes "rep h l xs"
  shows "\<exists>l' h'. linked_list_flush (Some l) h = Some (eLINKED_LIST_SUCCESS, Some l', h') \<and>
         rep h' l' [] \<and> elems h' = (\<lambda>_. None) \<and> dealloc_calls h' = dealloc_calls h @ dispose xs"
proof -
  from linked_list_flush_rep [OF assms] obtain l' h' where
    "linked_list_flush (Some l) h = Some (eLINKED_LIST_SUCCESS, Some l', h')"
    "rep h' l' []" "dealloc_calls h' = dealloc_calls h @ dispose xs"
    by blast
  then show ?thesis by (auto simp: rep_def linked_def)
qed

theorem linked_list_flush_complete_witness:
  "\<exists>l' h'. linked_list_flush (Some (fst two_ll)) (snd two_ll) =
     Some (eLINKED_LIST_SUCCESS, Some l', h') \<and> elems h' = (\<lambda>_. None) \<and> dealloc_calls h' = [(3, 7)]"
  using linked_list_flush_complete [OF two_ll_rep] by (simp add: two_ll_def) blast

end
