(* ===== verification/MsgQ.thy ===== *)
theory MsgQ
  imports LinkedList "HOL-Library.Sublist"
begin

text \<open>
  The blocking message queue of \<open>src/gps/utils/msg_q.c\<close>, over the list of
  \<open>LinkedList\<close>. Every operation runs under the queue's mutex, so each is one atomic
  function; \<open>msg_q_rcv\<close>, which gives the mutex up in \<open>pthread_cond_wait\<close>, is
  cut there: it either returns or waits, and a waiting receiver resumes at the loop test.
  The system of senders and receivers is a step relation over the queue, its store, and the
  receivers that are blocked or have been woken.
\<close>

datatype msq_q_err_type =
    eMSG_Q_SUCCESS
  | eMSG_Q_FAILURE_GENERAL
  | eMSG_Q_INVALID_PARAMETER
  | eMSG_Q_INVALID_HANDLE
  | eMSG_Q_UNAVAILABLE_RESOURCE
  | eMSG_Q_INSUFFICIENT_BUFFER

fun msq_q_err_code :: "msq_q_err_type \<Rightarrow> int" where
  "msq_q_err_code eMSG_Q_SUCCESS = 0"
| "msq_q_err_code eMSG_Q_FAILURE_GENERAL = -1"
| "msq_q_err_code eMSG_Q_INVALID_PARAMETER = -2"
| "msq_q_err_code eMSG_Q_INVALID_HANDLE = -3"
| "msq_q_err_code eMSG_Q_UNAVAILABLE_RESOURCE = -4"
| "msq_q_err_code eMSG_Q_INSUFFICIENT_BUFFER = -5"

text \<open>The struct, without its mutex and condition variable.\<close>

record msg_q =
  msg_list :: "list_state option"
  unblocked :: bool

datatype wakeup = NoWakeup | Signal | Broadcast

fun convert_linked_list_err_type :: "linked_list_err_type \<Rightarrow> msq_q_err_type" where
  "convert_linked_list_err_type eLINKED_LIST_SUCCESS = eMSG_Q_SUCCESS"
| "convert_linked_list_err_type eLINKED_LIST_INVALID_PARAMETER = eMSG_Q_INVALID_PARAMETER"
| "convert_linked_list_err_type eLINKED_LIST_INVALID_HANDLE = eMSG_Q_INVALID_HANDLE"
| "convert_linked_list_err_type eLINKED_LIST_UNAVAILABLE_RESOURCE = eMSG_Q_UNAVAILABLE_RESOURCE"
| "convert_linked_list_err_type eLINKED_LIST_INSUFFICIENT_BUFFER = eMSG_Q_INSUFFICIENT_BUFFER"
| "convert_linked_list_err_type _ = eMSG_Q_FAILURE_GENERAL"

text \<open>\<open>out\<close>: the caller's pointer is not NULL; the others: the outcomes of
  \<open>calloc\<close>, \<open>linked_list_init\<close>'s \<open>calloc\<close> and the two pthread calls.\<close>

definition msg_q_init :: "bool \<Rightarrow> bool \<Rightarrow> bool \<Rightarrow> bool \<Rightarrow> bool \<Rightarrow> msq_q_err_type \<times> msg_q option" where
  "msg_q_init out calloc_ok list_ok mutex_ok cond_ok =
     (if \<not> out then (eMSG_Q_INVALID_PARAMETER, None)
      else if \<not> calloc_ok then (eMSG_Q_FAILURE_GENERAL, None)
      else case linked_list_init True list_ok of (e, l) \<Rightarrow>
        if linked_list_err_code e \<noteq> 0 then (eMSG_Q_FAILURE_GENERAL, None)
        else if \<not> mutex_ok then (eMSG_Q_FAILURE_GENERAL, None)
        else if \<not> cond_ok then (eMSG_Q_FAILURE_GENERAL, None)
        else (eMSG_Q_SUCCESS, Some \<lparr>msg_list = l, unblocked = False\<rparr>))"

definition msg_q_init2 :: "bool \<Rightarrow> bool \<Rightarrow> bool \<Rightarrow> bool \<Rightarrow> msg_q option" where
  "msg_q_init2 calloc_ok list_ok mutex_ok cond_ok =
     (case msg_q_init True calloc_ok list_ok mutex_ok cond_ok of (e, q) \<Rightarrow>
        if e \<noteq> eMSG_Q_SUCCESS then None else q)"

definition msg_q_destroy ::
  "bool \<Rightarrow> msg_q option \<Rightarrow> ('d, 'f) store \<Rightarrow>
   (msq_q_err_type \<times> msg_q option \<times> ('d, 'f) store) option" where
  "msg_q_destroy out msg_q_data h =
     (if \<not> out then Some (eMSG_Q_INVALID_HANDLE, msg_q_data, h)
      else do {
        p \<leftarrow> msg_q_data;
        (_, _, h') \<leftarrow> linked_list_destroy True (msg_list p) h;
        Some (eMSG_Q_SUCCESS, None, h')
      })"

definition msg_q_snd ::
  "msg_q option \<Rightarrow> 'd option \<Rightarrow> 'f option \<Rightarrow> ptr \<Rightarrow> ('d, 'f) store \<Rightarrow>
   (msq_q_err_type \<times> msg_q option \<times> wakeup \<times> ('d, 'f) store) option" where
  "msg_q_snd msg_q_data msg_obj dealloc m h =
     (case msg_q_data of
        None \<Rightarrow> Some (eMSG_Q_INVALID_HANDLE, None, NoWakeup, h)
      | Some p \<Rightarrow>
        if msg_obj = None then Some (eMSG_Q_INVALID_PARAMETER, Some p, NoWakeup, h)
        else if unblocked p then Some (eMSG_Q_UNAVAILABLE_RESOURCE, Some p, NoWakeup, h)
        else do {
          (rv, l, h') \<leftarrow> linked_list_add (msg_list p) msg_obj dealloc m h;
          Some (convert_linked_list_err_type rv, Some (p\<lparr>msg_list := l\<rparr>), Signal, h')
        })"

text \<open>A receive returns a code and perhaps a message, or waits.\<close>

datatype 'd rcv_result = RcvWait | RcvReturn msq_q_err_type "'d option"

definition msg_q_rcv_test ::
  "msg_q \<Rightarrow> ('d, 'f) store \<Rightarrow> ('d rcv_result \<times> msg_q \<times> ('d, 'f) store) option" where
  "msg_q_rcv_test p h =
     (if linked_list_empty (msg_list p) \<noteq> 0 \<and> \<not> unblocked p then Some (RcvWait, p, h)
      else do {
        (rv, l, d, h') \<leftarrow> linked_list_remove (msg_list p) True h;
        Some (RcvReturn (convert_linked_list_err_type rv) d, p\<lparr>msg_list := l\<rparr>, h')
      })"

definition msg_q_rcv ::
  "msg_q option \<Rightarrow> bool \<Rightarrow> ('d, 'f) store \<Rightarrow>
   ('d rcv_result \<times> msg_q option \<times> ('d, 'f) store) option" where
  "msg_q_rcv msg_q_data out h =
     (case msg_q_data of
        None \<Rightarrow> Some (RcvReturn eMSG_Q_INVALID_HANDLE None, None, h)
      | Some p \<Rightarrow>
        if \<not> out then Some (RcvReturn eMSG_Q_INVALID_PARAMETER None, Some p, h)
        else if unblocked p then Some (RcvReturn eMSG_Q_UNAVAILABLE_RESOURCE None, Some p, h)
        else do { (r, p', h') \<leftarrow> msg_q_rcv_test p h; Some (r, Some p', h') })"

text \<open>The non-blocking receive; on an empty list it returns \<open>eLINKED_LIST_EMPTY\<close>,
  the constant of the other enumeration.\<close>

datatype rmv_code = RmvQ msq_q_err_type | RmvList linked_list_err_type

definition msg_q_rmv ::
  "msg_q option \<Rightarrow> bool \<Rightarrow> ('d, 'f) store \<Rightarrow>
   (rmv_code \<times> 'd option \<times> msg_q option \<times> ('d, 'f) store) option" where
  "msg_q_rmv msg_q_data out h =
     (case msg_q_data of
        None \<Rightarrow> Some (RmvQ eMSG_Q_INVALID_HANDLE, None, None, h)
      | Some p \<Rightarrow>
        if \<not> out then Some (RmvQ eMSG_Q_INVALID_PARAMETER, None, Some p, h)
        else if unblocked p then Some (RmvQ eMSG_Q_UNAVAILABLE_RESOURCE, None, Some p, h)
        else if linked_list_empty (msg_list p) \<noteq> 0
        then Some (RmvList eLINKED_LIST_EMPTY, None, Some p, h)
        else do {
          (rv, l, d, h') \<leftarrow> linked_list_remove (msg_list p) True h;
          Some (RmvQ (convert_linked_list_err_type rv), d, Some (p\<lparr>msg_list := l\<rparr>), h')
        })"

definition msg_q_flush ::
  "msg_q option \<Rightarrow> ('d, 'f) store \<Rightarrow> (msq_q_err_type \<times> msg_q option \<times> ('d, 'f) store) option" where
  "msg_q_flush msg_q_data h =
     (case msg_q_data of
        None \<Rightarrow> Some (eMSG_Q_INVALID_HANDLE, None, h)
      | Some p \<Rightarrow> do {
          (rv, l, h') \<leftarrow> linked_list_flush (msg_list p) h;
          Some (convert_linked_list_err_type rv, Some (p\<lparr>msg_list := l\<rparr>), h')
        })"

definition msg_q_unblock :: "msg_q option \<Rightarrow> msq_q_err_type \<times> msg_q option \<times> wakeup" where
  "msg_q_unblock msg_q_data =
     (case msg_q_data of
        None \<Rightarrow> (eMSG_Q_INVALID_HANDLE, None, NoWakeup)
      | Some p \<Rightarrow>
        if unblocked p then (eMSG_Q_UNAVAILABLE_RESOURCE, Some p, NoWakeup)
        else (eMSG_Q_SUCCESS, Some (p\<lparr>unblocked := True\<rparr>), Broadcast))"

section \<open>The queue as a message store\<close>

type_synonym ('d, 'f) mq = "msg_q \<times> ('d, 'f) store"

definition mq_holds :: "('d, 'f) mq \<Rightarrow> ('d, 'f) item list \<Rightarrow> bool" where
  "mq_holds s xs \<longleftrightarrow> (\<exists>l. msg_list (fst s) = Some l \<and> ll_holds (l, snd s) xs)"

definition mq_fresh :: "addr \<Rightarrow> ('d, 'f) mq \<Rightarrow> bool" where
  "mq_fresh a s \<longleftrightarrow> elems (snd s) a = None \<and> \<not> unblocked (fst s)"

definition mq_put :: "addr \<Rightarrow> ('d, 'f) item \<Rightarrow> ('d, 'f) mq \<Rightarrow> ('d, 'f) mq option" where
  "mq_put a x s =
     (case msg_q_snd (Some (fst s)) (Some (fst x)) (snd x) (Some a) (snd s) of
        Some (eMSG_Q_SUCCESS, Some p, _, h) \<Rightarrow> Some (p, h)
      | _ \<Rightarrow> None)"

definition mq_take :: "('d, 'f) mq \<Rightarrow> ('d \<times> ('d, 'f) mq) option" where
  "mq_take s =
     (case msg_q_rmv (Some (fst s)) True (snd s) of
        Some (RmvQ eMSG_Q_SUCCESS, Some d, Some p, h) \<Rightarrow> Some (d, (p, h))
      | _ \<Rightarrow> None)"

lemma mq_init_holds:
  "msg_q_init True True True True True = (eMSG_Q_SUCCESS, Some q) \<Longrightarrow>
   mq_holds (q, empty_store) [] \<and> \<not> unblocked q"
  using rep_init by (auto simp: msg_q_init_def linked_list_init_def mq_holds_def ll_holds_def)

lemma mq_empty_iff: "mq_holds (p, h) xs \<Longrightarrow> linked_list_empty (msg_list p) \<noteq> 0 \<longleftrightarrow> xs = []"
  using ll.is_empty_holds by (fastforce simp: mq_holds_def)

text \<open>The list operations at a queue that holds \<open>xs\<close>.\<close>

lemma mq_list_add:
  assumes "mq_holds (p, h) xs" "elems h a = None"
  obtains l h' where "linked_list_add (msg_list p) (Some d) f (Some a) h =
      Some (eLINKED_LIST_SUCCESS, Some l, h')"
    "mq_holds (p\<lparr>msg_list := Some l\<rparr>, h') (xs @ [(d, f)])"
    "dealloc_calls h' = dealloc_calls h"
proof -
  from assms obtain l0 where "msg_list p = Some l0" "rep h l0 (rev xs)"
    by (auto simp: mq_holds_def ll_holds_def)
  with linked_list_add_rep [OF this(2) assms(2), of d f] that show ?thesis
    by (auto simp: mq_holds_def ll_holds_def)
qed

lemma mq_list_remove:
  assumes "mq_holds (p, h) (x # xs)"
  obtains l h' where "linked_list_remove (msg_list p) True h =
      Some (eLINKED_LIST_SUCCESS, Some l, Some (fst x), h')"
    "mq_holds (p\<lparr>msg_list := Some l\<rparr>, h') xs" "dealloc_calls h' = dealloc_calls h"
proof -
  from assms obtain l0 where "msg_list p = Some l0" "rep h l0 (rev xs @ [x])"
    by (auto simp: mq_holds_def ll_holds_def)
  with linked_list_remove_rep [OF this(2)] that show ?thesis
    by (auto simp: mq_holds_def ll_holds_def)
qed

lemma mq_list_remove_empty:
  assumes "mq_holds (p, h) []"
  shows "linked_list_remove (msg_list p) True h =
      Some (eLINKED_LIST_UNAVAILABLE_RESOURCE, msg_list p, None, h)"
  using assms linked_list_remove_empty by (auto simp: mq_holds_def ll_holds_def)

lemma mq_list_flush:
  assumes "mq_holds (p, h) xs"
  obtains l h' where "linked_list_flush (msg_list p) h = Some (eLINKED_LIST_SUCCESS, Some l, h')"
    "mq_holds (p\<lparr>msg_list := Some l\<rparr>, h') []"
    "dealloc_calls h' = dealloc_calls h @ dispose (rev xs)"
proof -
  from assms obtain l0 where "msg_list p = Some l0" "rep h l0 (rev xs)"
    by (auto simp: mq_holds_def ll_holds_def)
  with linked_list_flush_rep [OF this(2)] that show ?thesis
    by (auto simp: mq_holds_def ll_holds_def)
qed

text \<open>A queue that has been unblocked takes and gives nothing, so the contract is about
  the states before.\<close>

definition mq_open :: "('d, 'f) mq \<Rightarrow> ('d, 'f) item list \<Rightarrow> bool" where
  "mq_open s xs \<longleftrightarrow> mq_holds s xs \<and> \<not> unblocked (fst s)"

interpretation mq: message_store mq_open mq_fresh mq_put mq_take fst
  "\<lambda>s. linked_list_empty (msg_list (fst s)) \<noteq> 0"
proof unfold_locales
  fix s :: "('d, 'f) mq" and xs m and x :: "('d, 'f) item"
  assume a: "mq_open s xs" "mq_fresh m s"
  then have "mq_holds (fst s, snd s) xs" "elems (snd s) m = None"
    by (auto simp: mq_open_def mq_fresh_def)
  then obtain l h' where
    "linked_list_add (msg_list (fst s)) (Some (fst x)) (snd x) (Some m) (snd s) =
       Some (eLINKED_LIST_SUCCESS, Some l, h')"
    "mq_holds (fst s\<lparr>msg_list := Some l\<rparr>, h') (xs @ [(fst x, snd x)])"
    by (rule mq_list_add)
  then show "\<exists>s'. mq_put m x s = Some s' \<and> mq_open s' (xs @ [x])"
    using a by (auto simp: mq_open_def mq_put_def msg_q_snd_def)
next
  fix s :: "('d, 'f) mq" and xs x
  assume a: "mq_open s (x # xs)"
  then have h: "mq_holds (fst s, snd s) (x # xs)" by (simp add: mq_open_def)
  then obtain l h' where
    "linked_list_remove (msg_list (fst s)) True (snd s) =
       Some (eLINKED_LIST_SUCCESS, Some l, Some (fst x), h')"
    "mq_holds (fst s\<lparr>msg_list := Some l\<rparr>, h') xs"
    by (rule mq_list_remove)
  then show "\<exists>s'. mq_take s = Some (fst x, s') \<and> mq_open s' xs"
    using a mq_empty_iff [OF h] by (auto simp: mq_open_def mq_take_def msg_q_rmv_def)
next
  fix s :: "('d, 'f) mq"
  assume "mq_open s []"
  then show "mq_take s = None"
    using mq_empty_iff [of "fst s" "snd s" "[]"]
    by (auto simp: mq_open_def mq_take_def msg_q_rmv_def)
next
  fix s :: "('d, 'f) mq" and xs
  assume "mq_open s xs"
  then show "linked_list_empty (msg_list (fst s)) \<noteq> 0 \<longleftrightarrow> xs = []"
    using mq_empty_iff [of "fst s" "snd s" xs] by (auto simp: mq_open_def)
qed

section \<open>Senders and receivers\<close>

text \<open>
  \<open>waiting\<close>: receivers blocked in \<open>pthread_cond_wait\<close>; \<open>woken\<close>: receivers
  that have left it and have yet to take the mutex and run the loop test again.
  \<open>sent\<close> and \<open>delivered\<close> are the histories of accepted and of received messages.
\<close>

record ('d, 'f) mq_sys =
  sq :: msg_q
  sh :: "('d, 'f) store"
  waiting :: "nat set"
  woken :: "nat set"
  sent :: "'d list"
  delivered :: "'d list"

inductive wake :: "wakeup \<Rightarrow> nat set \<times> nat set \<Rightarrow> nat set \<times> nat set \<Rightarrow> bool" where
  no_wakeup: "wake NoWakeup (W, R) (W, R)"
| signal_one: "t \<in> W \<Longrightarrow> wake Signal (W, R) (W - {t}, insert t R)"
| signal_none: "wake Signal ({}, R) ({}, R)"
| broadcast: "wake Broadcast (W, R) ({}, W \<union> R)"

inductive_simps wake_simps [simp]:
  "wake NoWakeup (W, R) p" "wake Signal (W, R) p" "wake Broadcast (W, R) p"

fun rcv_outcome :: "nat \<Rightarrow> 'd rcv_result \<Rightarrow> ('d, 'f) mq_sys \<Rightarrow> ('d, 'f) mq_sys" where
  "rcv_outcome t RcvWait s = s\<lparr>waiting := insert t (waiting s)\<rparr>"
| "rcv_outcome t (RcvReturn e None) s = s"
| "rcv_outcome t (RcvReturn e (Some d)) s = s\<lparr>delivered := delivered s @ [d]\<rparr>"

inductive mq_step :: "('d, 'f) mq_sys \<Rightarrow> ('d, 'f) mq_sys \<Rightarrow> bool" where
  send: "(\<forall>a. m = Some a \<longrightarrow> elems (sh s) a = None) \<Longrightarrow>
     msg_q_snd (Some (sq s)) (Some d) f m (sh s) = Some (rv, Some q, wk, h) \<Longrightarrow>
     wake wk (waiting s, woken s) (W, R) \<Longrightarrow>
     mq_step s (s\<lparr>sq := q, sh := h, waiting := W, woken := R,
       sent := sent s @ (if rv = eMSG_Q_SUCCESS then [d] else [])\<rparr>)"
| receive: "t \<notin> waiting s \<union> woken s \<Longrightarrow>
     msg_q_rcv (Some (sq s)) True (sh s) = Some (r, Some q, h) \<Longrightarrow>
     mq_step s (rcv_outcome t r (s\<lparr>sq := q, sh := h\<rparr>))"
| resume: "t \<in> woken s \<Longrightarrow>
     msg_q_rcv_test (sq s) (sh s) = Some (r, q, h) \<Longrightarrow>
     mq_step s (rcv_outcome t r (s\<lparr>sq := q, sh := h, woken := woken s - {t}\<rparr>))"
| spurious: "t \<in> waiting s \<Longrightarrow>
     mq_step s (s\<lparr>waiting := waiting s - {t}, woken := insert t (woken s)\<rparr>)"
| poll: "msg_q_rmv (Some (sq s)) True (sh s) = Some (c, d, Some q, h) \<Longrightarrow>
     mq_step s (s\<lparr>sq := q, sh := h,
       delivered := delivered s @ (case d of None \<Rightarrow> [] | Some x \<Rightarrow> [x])\<rparr>)"
| flush: "msg_q_flush (Some (sq s)) (sh s) = Some (e, Some q, h) \<Longrightarrow>
     mq_step s (s\<lparr>sq := q, sh := h\<rparr>)"
| unblock: "msg_q_unblock (Some (sq s)) = (e, Some q, wk) \<Longrightarrow>
     wake wk (waiting s, woken s) (W, R) \<Longrightarrow>
     mq_step s (s\<lparr>sq := q, waiting := W, woken := R\<rparr>)"

definition mq_start :: "msg_q \<Rightarrow> ('d, 'f) mq_sys" where
  "mq_start q = \<lparr>sq = q, sh = empty_store, waiting = {}, woken = {}, sent = [], delivered = []\<rparr>"

inductive mq_reachable :: "('d, 'f) mq_sys \<Rightarrow> bool" where
  start: "msg_q_init True True True True True = (e, Some q) \<Longrightarrow> mq_reachable (mq_start q)"
| step: "mq_reachable s \<Longrightarrow> mq_step s t \<Longrightarrow> mq_reachable t"

text \<open>
  The invariant: the queue holds some sequence \<open>xs\<close>; what was delivered and then
  \<open>xs\<close> is a subsequence of what was sent; and while some receiver is blocked, the queue
  is not unblocked and there are at least as many woken receivers as messages.
\<close>

definition mq_inv_with :: "('d, 'f) mq_sys \<Rightarrow> ('d, 'f) item list \<Rightarrow> bool" where
  "mq_inv_with s xs \<longleftrightarrow>
     mq_holds (sq s, sh s) xs \<and>
     subseq (delivered s @ map fst xs) (sent s) \<and>
     finite (waiting s) \<and> finite (woken s) \<and> waiting s \<inter> woken s = {} \<and>
     (waiting s \<noteq> {} \<longrightarrow> \<not> unblocked (sq s) \<and> length xs \<le> card (woken s))"

definition mq_inv :: "('d, 'f) mq_sys \<Rightarrow> bool" where
  "mq_inv s \<longleftrightarrow> (\<exists>xs. mq_inv_with s xs)"

lemma mq_inv_holds: "mq_inv_with s xs \<Longrightarrow> mq_holds (sq s, sh s) xs"
  by (simp add: mq_inv_with_def)

lemma mq_unblocked_upd [simp]: "mq_holds (p\<lparr>unblocked := b\<rparr>, h) xs \<longleftrightarrow> mq_holds (p, h) xs"
  by (simp add: mq_holds_def)

text \<open>The outcome of the loop test at a queue that holds \<open>xs\<close>.\<close>

lemma rcv_test_cases:
  assumes "mq_holds (p, h) xs" "msg_q_rcv_test p h = Some (r, p', h')"
  obtains (wait) "xs = []" "\<not> unblocked p" "r = RcvWait" "p' = p" "h' = h"
  | (none) "xs = []" "unblocked p" "r = RcvReturn eMSG_Q_UNAVAILABLE_RESOURCE None"
      "p' = p" "h' = h"
  | (some) x ys where "xs = x # ys" "r = RcvReturn eMSG_Q_SUCCESS (Some (fst x))"
      "mq_holds (p', h') ys" "unblocked p' = unblocked p"
proof (cases xs)
  case Nil
  with assms have "linked_list_empty (msg_list p) \<noteq> 0" using mq_empty_iff by blast
  moreover have "linked_list_remove (msg_list p) True h =
      Some (eLINKED_LIST_UNAVAILABLE_RESOURCE, msg_list p, None, h)"
    using assms Nil mq_list_remove_empty by blast
  ultimately show ?thesis using assms(2) Nil wait none
    by (auto simp: msg_q_rcv_test_def split: if_splits)
next
  case (Cons x ys)
  with assms have "linked_list_empty (msg_list p) = 0" using mq_empty_iff by blast
  moreover obtain l h1 where "linked_list_remove (msg_list p) True h =
      Some (eLINKED_LIST_SUCCESS, Some l, Some (fst x), h1)"
      "mq_holds (p\<lparr>msg_list := Some l\<rparr>, h1) ys"
    using mq_list_remove assms(1) Cons by metis
  ultimately show ?thesis using assms(2) Cons some
    by (auto simp: msg_q_rcv_test_def)
qed

lemma wake_signal:
  assumes "wake Signal (W, R) (W', R')" "finite W" "finite R" "W \<inter> R = {}"
  shows "finite W' \<and> finite R' \<and> W' \<inter> R' = {} \<and>
         (W' \<noteq> {} \<longrightarrow> W \<noteq> {} \<and> card R' = Suc (card R))"
  using assms by (auto simp: card_insert_if)

lemma snd_cases:
  assumes "mq_holds (p, h) xs" "\<forall>a. m = Some a \<longrightarrow> elems h a = None"
    and "msg_q_snd (Some p) (Some d) f m h = Some (rv, Some q, wk, h')"
  obtains (refused) "unblocked p" "q = p" "h' = h" "wk = NoWakeup" "rv \<noteq> eMSG_Q_SUCCESS"
  | (no_memory) "\<not> unblocked p" "q = p" "h' = h" "wk = Signal" "rv \<noteq> eMSG_Q_SUCCESS"
  | (accepted) "\<not> unblocked p" "\<not> unblocked q" "mq_holds (q, h') (xs @ [(d, f)])" "wk = Signal"
      "rv = eMSG_Q_SUCCESS"
proof (cases "unblocked p")
  case True
  with assms(3) have "q = p \<and> h' = h \<and> wk = NoWakeup \<and> rv \<noteq> eMSG_Q_SUCCESS"
    by (auto simp: msg_q_snd_def)
  with True show ?thesis by (intro refused) simp_all
next
  case False
  show ?thesis
  proof (cases m)
    case None
    obtain l where "msg_list p = Some l" using assms(1) by (auto simp: mq_holds_def)
    with None False assms(3) have "q = p \<and> h' = h \<and> wk = Signal \<and> rv \<noteq> eMSG_Q_SUCCESS"
      by (auto simp: msg_q_snd_def linked_list_add_def)
    with False show ?thesis by (intro no_memory) simp_all
  next
    case (Some a)
    with assms(2) have "elems h a = None" by simp
    with assms(1) obtain l h1 where
      "linked_list_add (msg_list p) (Some d) f (Some a) h = Some (eLINKED_LIST_SUCCESS, Some l, h1)"
      "mq_holds (p\<lparr>msg_list := Some l\<rparr>, h1) (xs @ [(d, f)])"
      by (rule mq_list_add)
    with Some False assms(3)
    have "\<not> unblocked q \<and> mq_holds (q, h') (xs @ [(d, f)]) \<and> wk = Signal \<and> rv = eMSG_Q_SUCCESS"
      by (auto simp: msg_q_snd_def)
    with False show ?thesis by (intro accepted) simp_all
  qed
qed

lemma subseq_snoc: "subseq xs ys \<Longrightarrow> subseq (xs @ [x]) (ys @ [x])"
  by (simp add: list_emb_append_mono)

lemma subseq_prefix: "subseq (xs @ ys) zs \<Longrightarrow> subseq xs zs"
  by (rule subseq_order.trans [of xs "xs @ ys"]) (simp_all add: prefix_imp_subseq)

lemma mq_inv_send:
  assumes "mq_inv_with s xs" "\<forall>a. m = Some a \<longrightarrow> elems (sh s) a = None"
    "msg_q_snd (Some (sq s)) (Some d) f m (sh s) = Some (rv, Some q, wk, h)"
    "wake wk (waiting s, woken s) (W, R)"
  shows "mq_inv (s\<lparr>sq := q, sh := h, waiting := W, woken := R,
           sent := sent s @ (if rv = eMSG_Q_SUCCESS then [d] else [])\<rparr>)"
  using mq_inv_holds [OF assms(1)] assms(2,3)
proof (cases rule: snd_cases)
  case refused
  with assms(1,4) show ?thesis
    by (auto simp: mq_inv_def mq_inv_with_def intro!: exI [of _ xs])
next
  case no_memory
  with assms(1,4) wake_signal [of "waiting s" "woken s" W R] show ?thesis
    by (auto simp: mq_inv_def mq_inv_with_def simp del: wake_simps intro!: exI [of _ xs])
next
  case accepted
  with assms(1,4) wake_signal [of "waiting s" "woken s" W R]
    subseq_snoc [of "delivered s @ map fst xs" "sent s" d] show ?thesis
    by (auto simp: mq_inv_def mq_inv_with_def simp del: wake_simps
        intro!: exI [of _ "xs @ [(d, f)]"])
qed

text \<open>A receiver \<open>t\<close> that is not blocked runs the loop test; \<open>R'\<close> are the other
  woken receivers.\<close>

lemma mq_inv_test:
  assumes inv: "mq_inv_with s xs" and t: "t \<notin> waiting s"
    and test: "msg_q_rcv_test (sq s) (sh s) = Some (r, q, h)"
  shows "mq_inv (rcv_outcome t r (s\<lparr>sq := q, sh := h, woken := woken s - {t}\<rparr>))"
  using mq_inv_holds [OF inv] test
proof (cases rule: rcv_test_cases)
  case wait
  with inv show ?thesis
    by (auto simp: mq_inv_def mq_inv_with_def intro!: exI [of _ "[]"])
next
  case none
  with inv show ?thesis
    by (auto simp: mq_inv_def mq_inv_with_def intro!: exI [of _ "[]"])
next
  case (some x ys)
  have "length ys \<le> card (woken s - {t})" if "waiting s \<noteq> {}"
    using inv some that by (auto simp: mq_inv_with_def card_Diff_singleton_if)
  with some inv show ?thesis
    by (auto simp: mq_inv_def mq_inv_with_def intro!: exI [of _ ys])
qed

lemma mq_inv_receive:
  assumes "mq_inv_with s xs" "t \<notin> waiting s \<union> woken s"
    "msg_q_rcv (Some (sq s)) True (sh s) = Some (r, Some q, h)"
  shows "mq_inv (rcv_outcome t r (s\<lparr>sq := q, sh := h\<rparr>))"
proof (cases "unblocked (sq s)")
  case True
  with assms show ?thesis by (auto simp: msg_q_rcv_def mq_inv_def)
next
  case False
  with assms(3) have "msg_q_rcv_test (sq s) (sh s) = Some (r, q, h)"
    by (auto simp: msg_q_rcv_def split: Option.bind_splits)
  from mq_inv_test [OF assms(1) _ this, of t] assms(2) show ?thesis by simp
qed

lemma mq_inv_poll:
  assumes inv: "mq_inv_with s xs"
    and rmv: "msg_q_rmv (Some (sq s)) True (sh s) = Some (c, d, Some q, h)"
  shows "mq_inv (s\<lparr>sq := q, sh := h,
           delivered := delivered s @ (case d of None \<Rightarrow> [] | Some x \<Rightarrow> [x])\<rparr>)"
proof (cases "unblocked (sq s) \<or> xs = []")
  case True
  with rmv mq_empty_iff [OF mq_inv_holds [OF inv]] have "q = sq s" "h = sh s" "d = None"
    by (auto simp: msg_q_rmv_def split: if_splits)
  with inv show ?thesis by (auto simp: mq_inv_def)
next
  case False
  then obtain x ys where xs: "xs = x # ys" by (cases xs) auto
  with mq_inv_holds [OF inv] obtain l h1 where
    "linked_list_remove (msg_list (sq s)) True (sh s) =
       Some (eLINKED_LIST_SUCCESS, Some l, Some (fst x), h1)"
    "mq_holds ((sq s)\<lparr>msg_list := Some l\<rparr>, h1) ys"
    using mq_list_remove by metis
  with rmv False xs mq_empty_iff [OF mq_inv_holds [OF inv]] inv show ?thesis
    by (auto simp: msg_q_rmv_def mq_inv_def mq_inv_with_def split: if_splits
        intro!: exI [of _ ys])
qed

lemma mq_inv_flush:
  assumes inv: "mq_inv_with s xs"
    and fl: "msg_q_flush (Some (sq s)) (sh s) = Some (e, Some q, h)"
  shows "mq_inv (s\<lparr>sq := q, sh := h\<rparr>)"
proof -
  from mq_inv_holds [OF inv] obtain l h1 where
    "linked_list_flush (msg_list (sq s)) (sh s) = Some (eLINKED_LIST_SUCCESS, Some l, h1)"
    "mq_holds ((sq s)\<lparr>msg_list := Some l\<rparr>, h1) []"
    by (rule mq_list_flush)
  with inv fl subseq_prefix [of "delivered s" "map fst xs" "sent s"] show ?thesis
    by (auto simp: msg_q_flush_def mq_inv_def mq_inv_with_def intro!: exI [of _ "[]"])
qed

lemma mq_inv_spurious:
  assumes "mq_inv_with s xs" "t \<in> waiting s"
  shows "mq_inv (s\<lparr>waiting := waiting s - {t}, woken := insert t (woken s)\<rparr>)"
  using assms by (auto simp: mq_inv_def mq_inv_with_def card_insert_if intro!: exI [of _ xs])

lemma mq_inv_unblock:
  assumes "mq_inv_with s xs" "msg_q_unblock (Some (sq s)) = (e, Some q, wk)"
    "wake wk (waiting s, woken s) (W, R)"
  shows "mq_inv (s\<lparr>sq := q, waiting := W, woken := R\<rparr>)"
  using assms by (auto simp: msg_q_unblock_def mq_inv_def mq_inv_with_def split: if_splits
      intro!: exI [of _ xs])

lemma mq_step_inv:
  assumes "mq_step s t" "mq_inv s"
  shows "mq_inv t"
proof -
  from assms(2) obtain xs where xs: "mq_inv_with s xs" by (auto simp: mq_inv_def)
  from assms(1) show ?thesis
  proof cases
    case (send m d f rv q wk h W R)
    show ?thesis unfolding send(1) by (rule mq_inv_send [OF xs send(2-4)])
  next
    case (receive t r q h)
    show ?thesis unfolding receive(1) by (rule mq_inv_receive [OF xs receive(2-3)])
  next
    case (resume t r q h)
    with xs have "t \<notin> waiting s" by (auto simp: mq_inv_with_def)
    then show ?thesis unfolding resume(1) by (rule mq_inv_test [OF xs _ resume(3)])
  next
    case (spurious t)
    show ?thesis unfolding spurious(1) by (rule mq_inv_spurious [OF xs spurious(2)])
  next
    case (poll c d q h)
    show ?thesis unfolding poll(1) by (rule mq_inv_poll [OF xs poll(2)])
  next
    case (flush e q h)
    show ?thesis unfolding flush(1) by (rule mq_inv_flush [OF xs flush(2)])
  next
    case (unblock e q wk W R)
    show ?thesis unfolding unblock(1) by (rule mq_inv_unblock [OF xs unblock(2-3)])
  qed
qed

lemma mq_reachable_inv: "mq_reachable s \<Longrightarrow> mq_inv s"
proof (induction rule: mq_reachable.induct)
  case (start e q)
  then have "e = eMSG_Q_SUCCESS"
    by (auto simp: msg_q_init_def linked_list_init_def)
  with start mq_init_holds have "mq_holds (q, empty_store) []" by blast
  then show ?case by (auto simp: mq_inv_def mq_inv_with_def mq_start_def intro!: exI [of _ "[]"])
next
  case (step s t)
  then show ?case using mq_step_inv by blast
qed

section \<open>Properties\<close>

text \<open>
  C3. No lost wake-up: in every reachable state of senders, receivers, pollers, flushes and
  unblocks, while some receiver is blocked in \<open>msg_q_rcv\<close>, the messages in the queue are
  no more than the receivers that have already been woken to fetch them.\<close>

theorem msg_q_no_lost_wakeup:
  assumes "mq_reachable s" "waiting s \<noteq> {}"
  shows "\<exists>xs. mq_holds (sq s, sh s) xs \<and> length xs \<le> card (woken s)"
  using mq_reachable_inv [OF assms(1)] assms(2) by (auto simp: mq_inv_def mq_inv_with_def)

definition demo_q :: msg_q where
  "demo_q = \<lparr>msg_list = Some \<lparr>p_head = None, p_tail = None\<rparr>, unblocked = False\<rparr>"

definition demo_waiting :: "(nat, nat) mq_sys" where
  "demo_waiting = (mq_start demo_q)\<lparr>waiting := {1}\<rparr>"

definition demo_released :: "(nat, nat) mq_sys" where
  "demo_released = demo_waiting\<lparr>sq := demo_q\<lparr>unblocked := True\<rparr>, waiting := {}, woken := {1}\<rparr>"

lemma demo_start: "mq_reachable (mq_start demo_q)"
  by (rule mq_reachable.start [of eMSG_Q_SUCCESS])
    (simp add: msg_q_init_def linked_list_init_def demo_q_def)

lemma demo_waiting_reachable: "mq_reachable demo_waiting"
proof (rule mq_reachable.step [OF demo_start])
  have "mq_step (mq_start demo_q) (rcv_outcome 1 RcvWait
      ((mq_start demo_q)\<lparr>sq := demo_q, sh := (empty_store :: (nat, nat) store)\<rparr>))"
    by (rule mq_step.receive)
      (simp_all add: mq_start_def demo_q_def msg_q_rcv_def msg_q_rcv_test_def linked_list_empty_def)
  then show "mq_step (mq_start demo_q) demo_waiting"
    by (simp add: demo_waiting_def mq_start_def)
qed

lemma demo_released_reachable: "mq_reachable demo_released"
proof (rule mq_reachable.step [OF demo_waiting_reachable])
  have "mq_step demo_waiting (demo_waiting\<lparr>sq := demo_q\<lparr>unblocked := True\<rparr>, waiting := {}, woken := {1}\<rparr>)"
    by (rule mq_step.unblock [of _ eMSG_Q_SUCCESS _ Broadcast])
      (simp_all add: demo_waiting_def mq_start_def demo_q_def msg_q_unblock_def)
  then show "mq_step demo_waiting demo_released" by (simp add: demo_released_def)
qed

theorem msg_q_no_lost_wakeup_witness:
  "\<exists>xs. mq_holds (sq demo_waiting, sh demo_waiting) xs \<and> length xs \<le> 0"
  using msg_q_no_lost_wakeup [OF demo_waiting_reachable]
  by (simp add: demo_waiting_def mq_start_def)

text \<open>
  C2. In every reachable state the messages received so far are a subsequence of the messages
  accepted so far: delivery is in the order of sending, and no message is received twice or
  invented, whatever receivers, polls and flushes run in between.\<close>

theorem msg_q_delivers_in_order:
  assumes "mq_reachable s"
  shows "subseq (delivered s) (sent s)"
  using mq_reachable_inv [OF assms] subseq_prefix
  by (auto simp: mq_inv_def mq_inv_with_def)

theorem msg_q_delivers_in_order_witness:
  "mq_reachable demo_released \<and> subseq (delivered demo_released) (sent demo_released)"
  using msg_q_delivers_in_order [OF demo_released_reachable] demo_released_reachable by blast

text \<open>
  C37. Once the queue is unblocked no receiver is left blocked, and a woken receiver that runs
  the loop test again returns: it never goes back to waiting.\<close>

theorem msg_q_unblock_releases_all:
  assumes "mq_reachable s" "unblocked (sq s)"
  shows "waiting s = {} \<and>
    (\<exists>e d q h. msg_q_rcv_test (sq s) (sh s) = Some (RcvReturn e d, q, h))"
proof -
  from mq_reachable_inv [OF assms(1)] obtain xs where xs: "mq_inv_with s xs"
    by (auto simp: mq_inv_def)
  have "\<exists>e d q h. msg_q_rcv_test (sq s) (sh s) = Some (RcvReturn e d, q, h)"
  proof (cases xs)
    case Nil
    with xs assms(2) mq_list_remove_empty [of "sq s" "sh s"] show ?thesis
      by (auto simp: msg_q_rcv_test_def mq_inv_with_def)
  next
    case (Cons x ys)
    with mq_inv_holds [OF xs] obtain l h1 where
      "linked_list_remove (msg_list (sq s)) True (sh s) =
         Some (eLINKED_LIST_SUCCESS, Some l, Some (fst x), h1)"
      using mq_list_remove by metis
    with assms(2) show ?thesis by (simp add: msg_q_rcv_test_def)
  qed
  with xs assms(2) show ?thesis by (auto simp: mq_inv_with_def)
qed

theorem msg_q_unblock_releases_all_witness:
  "waiting demo_released = {} \<and>
   (\<exists>e d q h. msg_q_rcv_test (sq demo_released) (sh demo_released) = Some (RcvReturn e d, q, h))"
  using msg_q_unblock_releases_all [OF demo_released_reachable]
  by (simp add: demo_released_def)

end
