(* ===== verification/LocHeap.thy ===== *)
theory LocHeap
  imports Prelude "HOL-Library.Multiset"
begin

text \<open>
  The heap of \<open>src/gps/utils/LocHeap.cpp\<close>. A node holds its subtree size
  \<open>mSize\<close>, two children and its data; \<open>Leaf\<close> is a NULL child. Data are identified
  by their address, here by equality on \<open>'a\<close>, and ranked by the client's virtual
  \<open>ranks\<close>, here a parameter; positive means the first argument ranks higher. The
  locale \<open>rankable\<close> states what a client's ranking has to satisfy.
\<close>

datatype 'a heap_node =
    Leaf
  | Node (mSize: int) (mLeft: "'a heap_node") (mRight: "'a heap_node") (mData: 'a)
where
  "mSize Leaf = 0"
| "mLeft Leaf = Leaf"
| "mRight Leaf = Leaf"

type_synonym 'a ranking = "'a \<Rightarrow> 'a \<Rightarrow> int"

definition outRanks :: "'a ranking \<Rightarrow> 'a \<Rightarrow> 'a \<Rightarrow> bool" where
  "outRanks ranks x y \<longleftrightarrow> ranks x y > 0"

definition new_node :: "'a \<Rightarrow> 'a heap_node" where
  "new_node d = Node 1 Leaf Leaf d"

section \<open>The node operations\<close>

text \<open>\<open>LocHeapNode::push\<close> on a node that is not NULL; the pushed node is new.\<close>

fun node_push :: "'a ranking \<Rightarrow> 'a heap_node \<Rightarrow> 'a \<Rightarrow> 'a heap_node" where
  "node_push ranks Leaf x = new_node x"
| "node_push ranks (Node s l r d) x =
     (let hi = (if outRanks ranks x d then x else d);
          lo = (if outRanks ranks x d then d else x)
      in if l = Leaf then Node (s + 1) (new_node lo) r hi
         else if r = Leaf then Node (s + 1) l (new_node lo) hi
         else if mSize l \<le> mSize r then Node (s + 1) (node_push ranks l lo) r hi
         else Node (s + 1) l (node_push ranks r lo) hi)"

fun node_count :: "'a heap_node \<Rightarrow> nat" where
  "node_count Leaf = 0"
| "node_count (Node s l r d) = Suc (node_count l + node_count r)"

fun set_data :: "'a \<Rightarrow> 'a heap_node \<Rightarrow> 'a heap_node" where
  "set_data x Leaf = Leaf"
| "set_data x (Node s l r d) = Node s l r x"

lemma node_count_set_data [simp]: "node_count (set_data x t) = node_count t"
  by (cases t) auto

lemma node_count_0 [simp]: "node_count t = 0 \<longleftrightarrow> t = Leaf"
  by (cases t) auto

text \<open>\<open>LocHeapNode::pop\<close>: swaps the top's data down to a leaf of the tree and unhooks
  that leaf; the result is the popped node's data and the new tree.\<close>

function node_pop :: "'a ranking \<Rightarrow> 'a heap_node \<Rightarrow> 'a option \<times> 'a heap_node" where
  "node_pop ranks Leaf = (None, Leaf)"
| "node_pop ranks (Node s l r d) =
     (if l \<noteq> Leaf \<or> r \<noteq> Leaf then
        (if l = Leaf \<or> (r \<noteq> Leaf \<and> \<not> outRanks ranks (mData l) (mData r))
         then case node_pop ranks (set_data d r) of (p, r') \<Rightarrow> (p, Node (s - 1) l r' (mData r))
         else case node_pop ranks (set_data d l) of (p, l') \<Rightarrow> (p, Node (s - 1) l' r (mData l)))
      else (Some d, Leaf))"
  by pat_completeness auto
termination
  by (relation "measure (\<lambda>(ranks, t). node_count t)") auto

declare node_pop.simps(2) [simp del]

fun node_remove :: "'a ranking \<Rightarrow> 'a heap_node \<Rightarrow> 'a \<Rightarrow> 'a option \<times> 'a heap_node" where
  "node_remove ranks Leaf x = (None, Leaf)"
| "node_remove ranks (Node s l r d) x =
     (if x = d then node_pop ranks (Node s l r d)
      else if \<not> outRanks ranks x d then
        (case (if l \<noteq> Leaf then node_remove ranks l x else (None, l)) of (p, l') \<Rightarrow>
           (case (if p = None \<and> r \<noteq> Leaf then node_remove ranks r x else (p, r)) of (q, r') \<Rightarrow>
              (q, Node (if q \<noteq> None then s - 1 else s) l' r' d)))
      else (None, Node s l r d))"

fun checkNodes :: "'a ranking \<Rightarrow> 'a heap_node \<Rightarrow> bool" where
  "checkNodes ranks Leaf = True"
| "checkNodes ranks (Node s l r d) =
     (if l \<noteq> Leaf \<and> (outRanks ranks (mData l) d \<or> \<not> checkNodes ranks l) then False
      else if r \<noteq> Leaf \<and> (outRanks ranks (mData r) d \<or> \<not> checkNodes ranks r) then False
      else s - (if l \<noteq> Leaf then mSize l else 0) - (if r \<noteq> Leaf then mSize r else 0) = 1)"

declare checkNodes.simps(2) [simp del]

lemma checkNodes_eq:
  "checkNodes ranks (Node s l r d) \<longleftrightarrow>
     (l \<noteq> Leaf \<longrightarrow> \<not> outRanks ranks (mData l) d) \<and> (r \<noteq> Leaf \<longrightarrow> \<not> outRanks ranks (mData r) d) \<and>
     checkNodes ranks l \<and> checkNodes ranks r \<and> s = mSize l + mSize r + 1"
  by (cases "l = Leaf"; cases "r = Leaf") (simp_all add: checkNodes.simps(2), linarith+)

section \<open>The heap operations\<close>

type_synonym 'a loc_heap = "'a heap_node"

definition heap_push :: "'a ranking \<Rightarrow> 'a \<Rightarrow> 'a loc_heap \<Rightarrow> 'a loc_heap" where
  "heap_push ranks x t = (if t = Leaf then new_node x else node_push ranks t x)"

definition heap_peek :: "'a loc_heap \<Rightarrow> 'a option" where
  "heap_peek t = (if t \<noteq> Leaf then Some (mData t) else None)"

definition heap_pop :: "'a ranking \<Rightarrow> 'a loc_heap \<Rightarrow> 'a option \<times> 'a loc_heap" where
  "heap_pop ranks t = (if t \<noteq> Leaf then node_pop ranks t else (None, t))"

definition heap_remove :: "'a ranking \<Rightarrow> 'a \<Rightarrow> 'a loc_heap \<Rightarrow> 'a option \<times> 'a loc_heap" where
  "heap_remove ranks x t = (if t \<noteq> Leaf then node_remove ranks t x else (None, t))"

definition checkTree :: "'a ranking \<Rightarrow> 'a loc_heap \<Rightarrow> bool" where
  "checkTree ranks t \<longleftrightarrow> t = Leaf \<or> checkNodes ranks t"

definition getTreeSize :: "'a loc_heap \<Rightarrow> int" where
  "getTreeSize t = (if t = Leaf then 0 else mSize t)"

section \<open>What a ranking has to satisfy\<close>

fun items :: "'a heap_node \<Rightarrow> 'a multiset" where
  "items Leaf = {#}"
| "items (Node s l r d) = add_mset d (items l + items r)"

text \<open>\<open>valid\<close> is where the client's ranking is a weak order.\<close>

locale rankable =
  fixes valid :: "'a \<Rightarrow> bool" and ranks :: "'a ranking"
  assumes rank_asym: "valid x \<Longrightarrow> valid y \<Longrightarrow> outRanks ranks x y \<Longrightarrow> \<not> outRanks ranks y x"
    and rank_neg_trans: "valid x \<Longrightarrow> valid y \<Longrightarrow> valid z \<Longrightarrow>
      \<not> outRanks ranks x y \<Longrightarrow> \<not> outRanks ranks y z \<Longrightarrow> \<not> outRanks ranks x z"
begin

lemma outRanks_irrefl: "valid x \<Longrightarrow> \<not> outRanks ranks x x"
  using rank_asym by blast

definition valid_items :: "'a heap_node \<Rightarrow> bool" where
  "valid_items t \<longleftrightarrow> (\<forall>x\<in>#items t. valid x)"

text \<open>No item of \<open>t\<close> outranks \<open>d\<close>.\<close>

definition bounded :: "'a \<Rightarrow> 'a heap_node \<Rightarrow> bool" where
  "bounded d t \<longleftrightarrow> (\<forall>y\<in>#items t. \<not> outRanks ranks y d)"

lemma valid_items_simps [simp]:
  "valid_items Leaf"
  "valid_items (Node s l r d) \<longleftrightarrow> valid d \<and> valid_items l \<and> valid_items r"
  by (auto simp: valid_items_def)

lemma bounded_simps [simp]:
  "bounded d Leaf"
  "bounded d (Node s l r x) \<longleftrightarrow> \<not> outRanks ranks x d \<and> bounded d l \<and> bounded d r"
  by (auto simp: bounded_def)

lemma mData_in: "t \<noteq> Leaf \<Longrightarrow> mData t \<in># items t"
  by (cases t) auto

lemma bounded_mData: "bounded d t \<Longrightarrow> t \<noteq> Leaf \<Longrightarrow> \<not> outRanks ranks (mData t) d"
  using mData_in by (auto simp: bounded_def)

lemma bounded_trans:
  assumes "bounded d t" "\<not> outRanks ranks d e" "valid_items t" "valid d" "valid e"
  shows "bounded e t"
  using assms rank_neg_trans unfolding bounded_def valid_items_def by blast

lemma checkNodes_bounded:
  "checkNodes ranks t \<Longrightarrow> valid_items t \<Longrightarrow> t \<noteq> Leaf \<Longrightarrow> bounded (mData t) t"
proof (induction t)
  case (Node s l r d)
  have sub: "bounded d u" if u: "u \<noteq> Leaf \<Longrightarrow> bounded (mData u) u"
      "u \<noteq> Leaf \<Longrightarrow> \<not> outRanks ranks (mData u) d" "valid_items u" for u
  proof (cases "u = Leaf")
    case False
    with u mData_in [OF False] Node.prems(2) show ?thesis
      using bounded_trans [of "mData u" u d] by (auto simp: valid_items_def)
  qed simp
  have "bounded d l" "bounded d r"
    using Node by (auto intro!: sub simp: checkNodes_eq)
  with Node.prems(2) outRanks_irrefl show ?case by simp
qed simp

lemma checkNodes_Node:
  assumes "valid_items (Node s l r d)"
  shows "checkNodes ranks (Node s l r d) \<longleftrightarrow>
    bounded d l \<and> bounded d r \<and> checkNodes ranks l \<and> checkNodes ranks r \<and>
    s = mSize l + mSize r + 1"
proof -
  have "bounded d l \<and> bounded d r" if "checkNodes ranks (Node s l r d)"
    using checkNodes_bounded [OF that assms] by simp
  then show ?thesis using bounded_mData [of d l] bounded_mData [of d r]
    unfolding checkNodes_eq by blast
qed

lemma checkNodes_size:
  "checkNodes ranks t \<Longrightarrow> mSize t = int (size (items t))"
  by (induction t) (auto simp: checkNodes_eq)

lemma checkTree_iff: "checkTree ranks t \<longleftrightarrow> checkNodes ranks t"
  by (cases t) (auto simp: checkTree_def)

subsubsection \<open>Push\<close>

lemma items_push: "items (node_push ranks t x) = add_mset x (items t)"
  by (induction t arbitrary: x) (auto simp: Let_def new_node_def)

lemma valid_push: "valid_items (node_push ranks t x) \<longleftrightarrow> valid x \<and> valid_items t"
  by (auto simp: valid_items_def items_push)

lemma bounded_push: "bounded d (node_push ranks t x) \<longleftrightarrow> \<not> outRanks ranks x d \<and> bounded d t"
  by (auto simp: bounded_def items_push)

lemma mSize_push: "t \<noteq> Leaf \<Longrightarrow> mSize (node_push ranks t x) = mSize t + 1"
  by (cases t) (auto simp: Let_def)

lemma checkNodes_push:
  "checkNodes ranks t \<Longrightarrow> valid_items t \<Longrightarrow> valid x \<Longrightarrow> checkNodes ranks (node_push ranks t x)"
proof (induction t arbitrary: x)
  case Leaf
  then show ?case by (simp add: new_node_def checkNodes_eq)
next
  case (Node s l r d)
  define hi where "hi = (if outRanks ranks x d then x else d)"
  define lo where "lo = (if outRanks ranks x d then d else x)"
  note c = Node.prems(1) [unfolded checkNodes_Node [OF Node.prems(2)]]
  have v: "valid hi" "valid lo" "valid_items l" "valid_items r"
    using Node.prems by (auto simp: hi_def lo_def)
  have "\<not> outRanks ranks lo hi" "\<not> outRanks ranks d hi"
    using Node.prems rank_asym outRanks_irrefl by (auto simp: hi_def lo_def)
  then have b: "\<not> outRanks ranks lo hi" "bounded hi l" "bounded hi r"
    using c v Node.prems bounded_trans by auto
  have eq: "node_push ranks (Node s l r d) x =
      (if l = Leaf then Node (s + 1) (new_node lo) r hi
       else if r = Leaf then Node (s + 1) l (new_node lo) hi
       else if mSize l \<le> mSize r then Node (s + 1) (node_push ranks l lo) r hi
       else Node (s + 1) l (node_push ranks r lo) hi)"
    by (simp add: hi_def lo_def Let_def)
  have "checkNodes ranks (node_push ranks l lo)" if "l \<noteq> Leaf" "r \<noteq> Leaf" "mSize l \<le> mSize r"
    using Node.IH(1) that c v by simp
  moreover have "checkNodes ranks (node_push ranks r lo)"
    if "l \<noteq> Leaf" "r \<noteq> Leaf" "\<not> mSize l \<le> mSize r"
    using Node.IH(2) that c v by simp
  ultimately show ?case
    unfolding eq using b c v
    by (auto simp: checkNodes_Node valid_push bounded_push mSize_push new_node_def)
qed

subsubsection \<open>Pop\<close>

lemma set_data_sel [simp]:
  "mLeft (set_data x t) = mLeft t" "mRight (set_data x t) = mRight t" "mSize (set_data x t) = mSize t"
  "set_data x t = Leaf \<longleftrightarrow> t = Leaf" "t \<noteq> Leaf \<Longrightarrow> mData (set_data x t) = x"
  by (cases t; simp)+

definition sub_ok :: "'a heap_node \<Rightarrow> bool" where
  "sub_ok t \<longleftrightarrow> checkNodes ranks (mLeft t) \<and> checkNodes ranks (mRight t) \<and>
     valid_items (mLeft t) \<and> valid_items (mRight t) \<and>
     mSize t = mSize (mLeft t) + mSize (mRight t) + 1"

lemma sub_ok_set_data [simp]: "sub_ok (set_data x t) \<longleftrightarrow> sub_ok t"
  by (simp add: sub_ok_def)

lemma checkNodes_sub_ok: "checkNodes ranks t \<Longrightarrow> valid_items t \<Longrightarrow> t \<noteq> Leaf \<Longrightarrow> sub_ok t"
  by (cases t) (auto simp: sub_ok_def checkNodes_Node)

lemma items_split: "t \<noteq> Leaf \<Longrightarrow> items t = add_mset (mData t) (items (mLeft t) + items (mRight t))"
  by (cases t) auto

lemma valid_bounded_items:
  "items t = items u - {#x#} \<Longrightarrow> valid_items u \<Longrightarrow> valid_items t"
  "items t = items u - {#x#} \<Longrightarrow> bounded d u \<Longrightarrow> bounded d t"
  by (auto simp: valid_items_def bounded_def dest: in_diffD)

text \<open>One level of \<open>node_pop\<close>: the child \<open>u\<close> is popped into \<open>u'\<close> and its data
  \<open>e\<close> move up, where the other child \<open>w\<close> does not outrank them.\<close>

lemma pop_level:
  assumes "sub_ok (Node s u w d)" "u \<noteq> Leaf" "items u' = items (mLeft u) + items (mRight u)"
    "checkNodes ranks u'" "w \<noteq> Leaf \<Longrightarrow> \<not> outRanks ranks (mData w) (mData u)"
  shows "bounded (mData u) u' \<and> bounded (mData u) w \<and> valid_items u' \<and> valid (mData u) \<and>
    mSize u' = mSize u - 1 \<and> add_mset (mData u) (items u' + items w) = items u + items w"
proof -
  have ok: "checkNodes ranks u" "checkNodes ranks w" "valid_items u" "valid_items w"
    using assms(1) by (auto simp: sub_ok_def)
  note split = items_split [OF assms(2)]
  have vu: "valid (mData u)" using ok(3) split by (simp add: valid_items_def)
  have vu': "valid_items u'" using ok(3) split assms(3) by (auto simp: valid_items_def)
  have "bounded (mData u) u" using checkNodes_bounded ok assms(2) by blast
  then have "bounded (mData u) u'" using split assms(3) by (auto simp: bounded_def)
  moreover have "bounded (mData u) w"
  proof (cases "w = Leaf")
    case False
    then have "valid (mData w)" using ok(4) mData_in by (auto simp: valid_items_def)
    with False assms(5) ok vu checkNodes_bounded [of w] show ?thesis
      by (intro bounded_trans [of "mData w" w "mData u"]) auto
  qed simp
  moreover have "mSize u' = mSize u - 1"
    using checkNodes_size [OF assms(4)] checkNodes_size [OF ok(1)] split assms(3) by simp
  ultimately show ?thesis using vu vu' split assms(3) by simp
qed

lemma node_pop_ok:
  assumes "sub_ok t" "t \<noteq> Leaf"
  shows "\<exists>t'. node_pop ranks t = (Some (mData t), t') \<and> checkNodes ranks t' \<and>
    items t' = items (mLeft t) + items (mRight t)"
  using assms
proof (induction "node_count t" arbitrary: t rule: less_induct)
  case less
  then obtain s l r d where t: "t = Node s l r d" by (cases t) auto
  consider (right) "r \<noteq> Leaf" "l = Leaf \<or> \<not> outRanks ranks (mData l) (mData r)"
    | (left) "l \<noteq> Leaf" "r = Leaf \<or> outRanks ranks (mData l) (mData r)"
    | (leaf) "l = Leaf" "r = Leaf"
    by blast
  then show ?case
  proof cases
    case right
    have "sub_ok r" using less.prems t right checkNodes_sub_ok by (auto simp: sub_ok_def)
    with less.hyps [of "set_data d r"] t right obtain r' where r':
      "node_pop ranks (set_data d r) = (Some d, r')" "checkNodes ranks r'"
      "items r' = items (mLeft r) + items (mRight r)"
      by auto
    have sub: "sub_ok (Node s r l d)" using less.prems t by (auto simp: sub_ok_def)
    have "l \<noteq> Leaf \<Longrightarrow> \<not> outRanks ranks (mData l) (mData r)" using right by simp
    note lev = pop_level [OF sub right(1) r'(3) r'(2) this]
    have "node_pop ranks t = (Some d, Node (s - 1) l r' (mData r))"
      using t right r' by (auto simp: node_pop.simps(2))
    moreover have "checkNodes ranks (Node (s - 1) l r' (mData r))"
    proof -
      have "valid_items (Node (s - 1) l r' (mData r))" "checkNodes ranks l"
        "s = mSize l + mSize r + 1"
        using lev right less.prems t by (simp_all add: sub_ok_def)
      then show ?thesis using lev right r'(2) by (simp add: checkNodes_Node)
    qed
    moreover have "items (Node (s - 1) l r' (mData r)) = items l + items r"
      using lev right by (simp add: union_commute)
    ultimately show ?thesis using t by simp
  next
    case left
    have "sub_ok l" using less.prems t left checkNodes_sub_ok by (auto simp: sub_ok_def)
    with less.hyps [of "set_data d l"] t left obtain l' where l':
      "node_pop ranks (set_data d l) = (Some d, l')" "checkNodes ranks l'"
      "items l' = items (mLeft l) + items (mRight l)"
      by auto
    have "valid (mData r)" "valid (mData l)" if "r \<noteq> Leaf"
      using less.prems t left mData_in that by (auto simp: sub_ok_def valid_items_def)
    then have "r \<noteq> Leaf \<Longrightarrow> \<not> outRanks ranks (mData r) (mData l)" using left rank_asym by blast
    note lev = pop_level [OF less.prems(1) [unfolded t] left(1) l'(3) l'(2) this]
    have "node_pop ranks t = (Some d, Node (s - 1) l' r (mData l))"
      using t left l' by (auto simp: node_pop.simps(2))
    moreover have "checkNodes ranks (Node (s - 1) l' r (mData l))"
    proof -
      have "valid_items (Node (s - 1) l' r (mData l))" "checkNodes ranks r"
        "s = mSize l + mSize r + 1"
        using lev left less.prems t by (simp_all add: sub_ok_def)
      then show ?thesis using lev left l'(2) by (simp add: checkNodes_Node)
    qed
    moreover have "items (Node (s - 1) l' r (mData l)) = items l + items r"
      using lev left by simp
    ultimately show ?thesis using t by simp
  next
    case leaf
    with t show ?thesis by (simp add: node_pop.simps(2))
  qed
qed

subsubsection \<open>Remove\<close>

lemma size_remove1: "x \<in># M \<Longrightarrow> int (size (M - {#x#})) = int (size M) - 1"
  by (metis insert_DiffM size_add_mset of_nat_Suc add_diff_cancel_left' add.commute)

lemma node_remove_ok:
  assumes "checkNodes ranks t" "valid_items t"
  shows "(x \<in># items t \<longrightarrow> (\<exists>t'. node_remove ranks t x = (Some x, t') \<and> checkNodes ranks t' \<and>
            items t' = items t - {#x#})) \<and>
         (x \<notin># items t \<longrightarrow> node_remove ranks t x = (None, t))"
  using assms
proof (induction t)
  case (Node s l r d)
  note c = Node.prems(1) [unfolded checkNodes_Node [OF Node.prems(2)]]
  have v: "valid d" "valid_items l" "valid_items r" using Node.prems by auto
  show ?case
  proof (cases "x = d")
    case True
    have "sub_ok (Node s l r d)" using checkNodes_sub_ok Node.prems by blast
    from node_pop_ok [OF this] True show ?thesis by auto
  next
    case False
    note IHl = Node.IH(1) [OF _ v(2)] and IHr = Node.IH(2) [OF _ v(3)]
    show ?thesis
    proof (cases "outRanks ranks x d")
      case True
      with c False have "x \<notin># items (Node s l r d)" by (auto simp: bounded_def)
      with True False show ?thesis by simp
    next
      case nout: False
      consider (inl) "x \<in># items l" | (inr) "x \<notin># items l" "x \<in># items r"
        | (out) "x \<notin># items l" "x \<notin># items r" by blast
      then show ?thesis
      proof cases
        case inl
        with IHl c obtain l' where l': "node_remove ranks l x = (Some x, l')"
            "checkNodes ranks l'" "items l' = items l - {#x#}" by auto
        have "mSize l' = mSize l - 1"
          using checkNodes_size [OF l'(2)] checkNodes_size [of l] c l'(3) size_remove1 [OF inl]
          by simp
        moreover have "valid_items l'" "bounded d l'" using valid_bounded_items l'(3) v c by auto
        ultimately have "checkNodes ranks (Node (s - 1) l' r d)"
          using c v l' by (subst checkNodes_Node) auto
        with l' inl nout False show ?thesis by auto
      next
        case inr
        with IHr c obtain r' where r': "node_remove ranks r x = (Some x, r')"
            "checkNodes ranks r'" "items r' = items r - {#x#}" by auto
        have "mSize r' = mSize r - 1"
          using checkNodes_size [OF r'(2)] checkNodes_size [of r] c r'(3) size_remove1 [OF inr(2)]
          by simp
        moreover have "valid_items r'" "bounded d r'" using valid_bounded_items r'(3) v c by auto
        ultimately have "checkNodes ranks (Node (s - 1) l r' d)"
          using c v r' by (subst checkNodes_Node) auto
        with r' inr nout False IHl c show ?thesis by auto
      next
        case out
        with IHl IHr c nout False show ?thesis by auto
      qed
    qed
  qed
qed simp

lemma heap_push_ok:
  assumes "checkTree ranks t" "valid_items t" "valid x"
  shows "checkTree ranks (heap_push ranks x t)" "items (heap_push ranks x t) = add_mset x (items t)"
    "valid_items (heap_push ranks x t)"
  using assms checkNodes_push [of t x] items_push [of t x] valid_push [of t x]
  by (auto simp: heap_push_def checkTree_iff new_node_def checkNodes_eq)

lemma heap_pop_ok:
  assumes "checkTree ranks t" "valid_items t" "t \<noteq> Leaf"
  shows "\<exists>t'. heap_pop ranks t = (Some (mData t), t') \<and> checkTree ranks t' \<and> valid_items t' \<and>
    items t' = items t - {#mData t#} \<and> bounded (mData t) t"
proof -
  have "sub_ok t" using assms checkNodes_sub_ok by (simp add: checkTree_iff)
  from node_pop_ok [OF this assms(3)] obtain t' where t':
    "node_pop ranks t = (Some (mData t), t')" "checkNodes ranks t'"
    "items t' = items t - {#mData t#}"
    using items_split [OF assms(3)] by auto
  then show ?thesis
    using assms valid_bounded_items(1) [OF t'(3)] checkNodes_bounded [of t]
    by (simp add: heap_pop_def checkTree_iff)
qed

lemma heap_remove_ok:
  assumes "checkTree ranks t" "valid_items t"
  shows "x \<in># items t \<Longrightarrow> \<exists>t'. heap_remove ranks x t = (Some x, t') \<and> checkTree ranks t' \<and>
      valid_items t' \<and> items t' = items t - {#x#}"
    and "x \<notin># items t \<Longrightarrow> heap_remove ranks x t = (None, t)"
  using node_remove_ok [of t x] assms valid_bounded_items(1) [of _ t x]
  by (auto simp: heap_remove_def checkTree_iff)

lemma heap_peek_ok:
  "checkTree ranks t \<Longrightarrow> valid_items t \<Longrightarrow> heap_peek t = Some x \<Longrightarrow>
    x \<in># items t \<and> valid x \<and> (\<forall>y\<in>#items t. \<not> outRanks ranks y x)"
  using checkNodes_bounded [of t] mData_in [of t]
  by (auto simp: heap_peek_def checkTree_iff bounded_def valid_items_def split: if_splits)

lemma getTreeSize_ok: "checkTree ranks t \<Longrightarrow> getTreeSize t = int (size (items t))"
  using checkNodes_size [of t] by (auto simp: getTreeSize_def checkTree_iff)

end

section \<open>A ranking by an integer key\<close>

interpretation int_rank: rankable "\<lambda>_. True" "\<lambda>x y :: int. y - x"
  by unfold_locales (auto simp: outRanks_def)

section \<open>The heap is a priority queue\<close>

lemma items_Leaf [simp]: "items t = {#} \<longleftrightarrow> t = Leaf"
  by (cases t) auto

lemma mData_in_items: "t \<noteq> Leaf \<Longrightarrow> mData t \<in># items t"
  by (cases t) auto

text \<open>
  \<open>LocHeap::push\<close> adds exactly the pushed datum, keeps the heap order and the
  size bookkeeping that \<open>checkTree\<close> tests, and grows the size by one.\<close>

theorem heap_push_keeps_order:
  assumes "rankable valid ranks" "checkTree ranks t" "\<forall>y\<in>#items t. valid y" "valid x"
  shows "checkTree ranks (heap_push ranks x t) \<and>
    items (heap_push ranks x t) = add_mset x (items t) \<and>
    getTreeSize (heap_push ranks x t) = getTreeSize t + 1"
proof -
  note R = rankable.heap_push_ok [OF assms(1,2)] rankable.valid_items_def [OF assms(1)]
  show ?thesis
    using R assms rankable.getTreeSize_ok [OF assms(1)] by simp
qed

theorem heap_push_keeps_order_witness:
  "checkTree (\<lambda>x y :: int. y - x) (heap_push (\<lambda>x y. y - x) 3 (Node 1 Leaf Leaf 5)) \<and>
   items (heap_push (\<lambda>x y :: int. y - x) 3 (Node 1 Leaf Leaf 5)) = {#3, 5#} \<and>
   getTreeSize (heap_push (\<lambda>x y :: int. y - x) 3 (Node 1 Leaf Leaf 5)) = 2"
  using heap_push_keeps_order [OF int_rank.rankable_axioms, of "Node 1 Leaf Leaf 5" 3]
  by (simp add: checkTree_def checkNodes_eq getTreeSize_def)

text \<open>
  C22. \<open>LocHeap::pop\<close> on a heap that is not empty returns the datum that
  \<open>peek\<close> shows, which no datum of the heap outranks, takes exactly that datum out, and
  leaves a heap that passes \<open>checkTree\<close> with one element fewer; on an empty heap it
  returns NULL.\<close>

theorem heap_pop_returns_highest:
  assumes "rankable valid ranks" "checkTree ranks t" "\<forall>y\<in>#items t. valid y"
  shows "if t = Leaf then heap_pop ranks t = (None, Leaf)
    else \<exists>x t'. heap_peek t = Some x \<and> heap_pop ranks t = (Some x, t') \<and> x \<in># items t \<and>
      (\<forall>y\<in>#items t. \<not> outRanks ranks y x) \<and> items t' = items t - {#x#} \<and>
      checkTree ranks t' \<and> getTreeSize t' = getTreeSize t - 1"
proof (cases "t = Leaf")
  case False
  have v: "rankable.valid_items valid t" using assms rankable.valid_items_def by blast
  from rankable.heap_pop_ok [OF assms(1,2) v False] obtain t' where
    t': "heap_pop ranks t = (Some (mData t), t')" "checkTree ranks t'"
    "items t' = items t - {#mData t#}" by blast
  moreover have "getTreeSize t' = getTreeSize t - 1"
    using rankable.getTreeSize_ok [OF assms(1)] t' assms(2) mData_in_items [OF False]
    by (simp add: size_Diff_singleton of_nat_diff Suc_le_eq nonempty_has_size [symmetric] False)
  ultimately show ?thesis
    using False rankable.heap_peek_ok [OF assms(1,2) v] mData_in_items by (simp add: heap_peek_def)
qed (simp add: heap_pop_def)

theorem heap_pop_returns_highest_witness:
  "\<exists>t'. heap_pop (\<lambda>x y :: int. y - x) (Node 2 (Node 1 Leaf Leaf 5) Leaf 3) = (Some 3, t') \<and>
    items t' = {#5#}"
  using heap_pop_returns_highest [OF int_rank.rankable_axioms, of "Node 2 (Node 1 Leaf Leaf 5) Leaf 3"]
  by (auto simp: checkTree_def checkNodes_eq heap_peek_def outRanks_def)

text \<open>
  \<open>LocHeap::remove\<close> takes out exactly the datum with the given address,
  although it prunes the subtrees that the datum outranks; a datum that is not in the heap
  is reported as not found and the heap is unchanged, subtree sizes included.\<close>

theorem heap_remove_exact:
  assumes "rankable valid ranks" "checkTree ranks t" "\<forall>y\<in>#items t. valid y"
  shows "if x \<in># items t
    then \<exists>t'. heap_remove ranks x t = (Some x, t') \<and> items t' = items t - {#x#} \<and>
      checkTree ranks t'
    else heap_remove ranks x t = (None, t)"
proof -
  have v: "rankable.valid_items valid t" using assms rankable.valid_items_def by blast
  show ?thesis using rankable.heap_remove_ok [OF assms(1,2) v, of x] by auto
qed

theorem heap_remove_exact_witness:
  "\<exists>t'. heap_remove (\<lambda>x y :: int. y - x) 5 (Node 2 (Node 1 Leaf Leaf 5) Leaf 3) = (Some 5, t') \<and>
    items t' = {#3#}"
  using heap_remove_exact [OF int_rank.rankable_axioms, of "Node 2 (Node 1 Leaf Leaf 5) Leaf 3" 5]
  by (auto simp: checkTree_def checkNodes_eq outRanks_def)

end
