(* ===== verification/LocTimer.thy ===== *)
theory LocTimer
  imports LocHeap
begin

text \<open>
  The timer service of \<open>src/gps/utils/LocTimer.cpp\<close>: one \<open>LocTimerContainer\<close>
  (the heap of ticking timers and its timerfd), the message task that owns the heap, the
  polling thread and any number of clients. A \<open>delegate\<close> stands for the address of a
  \<open>LocTimerDelegate\<close> with its deadline; the fields that change are maps of the state.
  The kernel's part is \<open>armed\<close> (the absolute time the timerfd is set to) and
  \<open>polled\<close> (the fd is in the epoll set). A message is processed in one step; the three
  system calls and the message post of \<open>LocTimerContainer::expire\<close>, which runs in the
  polling thread, are steps of their own.
\<close>

record timespec =
  tv_sec :: int
  tv_nsec :: int

definition ts_less :: "timespec \<Rightarrow> timespec \<Rightarrow> bool" where
  "ts_less t u \<longleftrightarrow> tv_sec t < tv_sec u \<or> (tv_sec t = tv_sec u \<and> tv_nsec t < tv_nsec u)"

definition ts_ok :: "timespec \<Rightarrow> bool" where
  "ts_ok t \<longleftrightarrow> 0 \<le> tv_sec t \<and> tv_sec t < 2147483648 \<and> 0 \<le> tv_nsec t \<and> tv_nsec t < 1000000000"

record delegate =
  tm_id :: nat
  mFutureTime :: timespec

text \<open>\<open>LocTimerDelegate::ranks\<close>: the differences are cast to the 32-bit \<open>int\<close>.\<close>

definition to_int :: "int \<Rightarrow> int" where
  "to_int x = signed_take_bit 31 x"

definition delegate_ranks :: "delegate ranking" where
  "delegate_ranks d e =
     (let rank = to_int (tv_sec (mFutureTime e) - tv_sec (mFutureTime d))
      in if rank = 0 then to_int (tv_nsec (mFutureTime e) - tv_nsec (mFutureTime d)) else rank)"

datatype timer_msg =
    MsgTimerPush delegate
  | MsgTimerRemove delegate
  | MsgTimerExpire

datatype poll_pc = Polling | Disarmed | Unpolled

record timers =
  tree :: "delegate loc_heap"
  armed :: "timespec option"
  polled :: bool
  poll_pc :: poll_pc
  msgs :: "timer_msg list"
  mTimer :: "nat \<Rightarrow> delegate option"
  mClient :: "delegate \<Rightarrow> nat option"
  mContainer :: "delegate \<Rightarrow> bool"
  deleted :: "delegate set"
  callbacks :: "nat list"
  next_id :: nat
  clk :: timespec

section \<open>The container\<close>

definition getSoonestTimer :: "timers \<Rightarrow> delegate option" where
  "getSoonestTimer s = heap_peek (tree s)"

definition updateSoonestTime :: "delegate option \<Rightarrow> timers \<Rightarrow> timers" where
  "updateSoonestTime priorTop s =
     (let curTop = getSoonestTimer s in
      if curTop = priorTop then s
      else case curTop of
          None \<Rightarrow> s\<lparr>polled := False, armed := None\<rparr>
        | Some cur \<Rightarrow>
            if (case priorTop of None \<Rightarrow> True | Some prior \<Rightarrow> outRanks delegate_ranks cur prior)
            then s\<lparr>polled := True, armed := Some (mFutureTime cur)\<rparr>
            else s)"

definition MsgTimerPush_proc :: "delegate \<Rightarrow> timers \<Rightarrow> timers" where
  "MsgTimerPush_proc t s =
     updateSoonestTime (getSoonestTimer s) (s\<lparr>tree := heap_push delegate_ranks t (tree s)\<rparr>)"

definition MsgTimerRemove_proc :: "delegate \<Rightarrow> timers \<Rightarrow> timers" where
  "MsgTimerRemove_proc t s =
     (case heap_remove delegate_ranks t (tree s) of (removed, tr) \<Rightarrow>
        let s1 = s\<lparr>tree := tr\<rparr>;
            s2 = (if getSoonestTimer s = removed then updateSoonestTime None s1 else s1)
        in s2\<lparr>deleted := insert t (deleted s2)\<rparr>)"

text \<open>\<open>LocTimerContainer::add\<close> and \<open>remove\<close> post a message.\<close>

definition container_add :: "delegate \<Rightarrow> timers \<Rightarrow> timers" where
  "container_add t s = s\<lparr>msgs := msgs s @ [MsgTimerPush t]\<rparr>"

definition container_remove :: "delegate \<Rightarrow> timers \<Rightarrow> timers" where
  "container_remove t s = s\<lparr>msgs := msgs s @ [MsgTimerRemove t]\<rparr>"

section \<open>Delegates and clients\<close>

definition destroyLocked :: "delegate \<Rightarrow> timers \<Rightarrow> timers" where
  "destroyLocked t s =
     (let s1 = s\<lparr>mClient := (mClient s)(t := None)\<rparr>
      in if mContainer s1 t
         then container_remove t (s1\<lparr>mContainer := (mContainer s1)(t := False)\<rparr>)
         else s1)"

definition start_deadline :: "timespec \<Rightarrow> nat \<Rightarrow> timespec" where
  "start_deadline now ms =
     (let sec = tv_sec now + int (ms div 1000);
          nsec = tv_nsec now + int ((ms mod 1000) * 1000000)
      in if nsec \<ge> 1000000000
         then \<lparr>tv_sec = sec + nsec div 1000000000, tv_nsec = nsec mod 1000000000\<rparr>
         else \<lparr>tv_sec = sec, tv_nsec = nsec\<rparr>)"

definition LocTimer_start :: "nat \<Rightarrow> nat \<Rightarrow> timers \<Rightarrow> bool \<times> timers" where
  "LocTimer_start c timeOutInMs s =
     (case mTimer s c of
        Some _ \<Rightarrow> (False, s)
      | None \<Rightarrow>
          (let t = \<lparr>tm_id = next_id s, mFutureTime = start_deadline (clk s) timeOutInMs\<rparr>;
               s1 = s\<lparr>next_id := Suc (next_id s), mClient := (mClient s)(t := Some c),
                      mContainer := (mContainer s)(t := True)\<rparr>;
               s2 = container_add t s1
           in (True, s2\<lparr>mTimer := (mTimer s2)(c := Some t)\<rparr>)))"

definition LocTimer_stop :: "nat \<Rightarrow> timers \<Rightarrow> bool \<times> timers" where
  "LocTimer_stop c s =
     (case mTimer s c of
        None \<Rightarrow> (False, s)
      | Some t \<Rightarrow> (True, destroyLocked t (s\<lparr>mTimer := (mTimer s)(c := None)\<rparr>)))"

definition delegate_expire :: "delegate \<Rightarrow> timers \<Rightarrow> timers" where
  "delegate_expire t s =
     (case mClient s t of
        None \<Rightarrow> s
      | Some c \<Rightarrow>
          (case LocTimer_stop c s of (stopped, s1) \<Rightarrow>
             if stopped then s1\<lparr>callbacks := callbacks s1 @ [c]\<rparr> else s1))"

section \<open>Expiration\<close>

definition timer_of :: "timespec \<Rightarrow> delegate" where
  "timer_of now = \<lparr>tm_id = 0, mFutureTime = now\<rparr>"

definition container_pop :: "timers \<Rightarrow> delegate option \<times> timers" where
  "container_pop s = (case heap_pop delegate_ranks (tree s) of (t, tr) \<Rightarrow> (t, s\<lparr>tree := tr\<rparr>))"

definition popIfOutRanks :: "timespec \<Rightarrow> timers \<Rightarrow> delegate option \<times> timers" where
  "popIfOutRanks now s =
     (if tree s \<noteq> Leaf \<and> \<not> outRanks delegate_ranks (timer_of now) (mData (tree s))
      then container_pop s else (None, s))"

lemma node_count_pop:
  "t \<noteq> Leaf \<Longrightarrow> node_count (snd (node_pop ranks t)) < node_count t"
proof (induction "node_count t" arbitrary: t rule: less_induct)
  case less
  then obtain s l r d where t: "t = Node s l r d" by (cases t) auto
  have "l \<noteq> Leaf \<Longrightarrow> node_count (snd (node_pop ranks (set_data d l))) < node_count l"
    "r \<noteq> Leaf \<Longrightarrow> node_count (snd (node_pop ranks (set_data d r))) < node_count r"
    using less.hyps [of "set_data d l"] less.hyps [of "set_data d r"] t by auto
  then show ?case using t by (auto simp: node_pop.simps(2) split: prod.split)
qed

lemma tree_frame [simp]:
  "tree (container_remove t s) = tree s" "tree (destroyLocked t s) = tree s"
  "tree (snd (LocTimer_stop c s)) = tree s" "tree (delegate_expire t s) = tree s"
  by (auto simp: container_remove_def destroyLocked_def LocTimer_stop_def delegate_expire_def
      Let_def split: option.split prod.split)

text \<open>The loop of \<open>MsgTimerExpire::proc\<close>; its argument is the timer just popped.\<close>

function expire_loop :: "timespec \<Rightarrow> delegate option \<times> timers \<Rightarrow> timers" where
  "expire_loop now (None, s) = s"
| "expire_loop now (Some t, s) = expire_loop now (popIfOutRanks now (delegate_expire t s))"
  by pat_completeness auto
termination
proof (relation "measure (\<lambda>(now, t, s). 2 * node_count (tree s) + (if t = None then 0 else 1))")
  fix now t s
  show "((now, popIfOutRanks now (delegate_expire t s)), now, Some t, s)
    \<in> measure (\<lambda>(now, t, s). 2 * node_count (tree s) + (if t = None then 0 else 1))"
    using node_count_pop [of "tree s" delegate_ranks]
    by (auto simp: popIfOutRanks_def container_pop_def heap_pop_def split: prod.split)
qed simp

definition MsgTimerExpire_proc :: "timers \<Rightarrow> timers" where
  "MsgTimerExpire_proc s = updateSoonestTime None (expire_loop (clk s) (container_pop s))"

fun msg_proc :: "timer_msg \<Rightarrow> timers \<Rightarrow> timers" where
  "msg_proc (MsgTimerPush t) = MsgTimerPush_proc t"
| "msg_proc (MsgTimerRemove t) = MsgTimerRemove_proc t"
| "msg_proc MsgTimerExpire = MsgTimerExpire_proc"

section \<open>The service as a transition system\<close>

text \<open>The events: time passes; a client starts or stops its timer; the message task
  processes its next message; and the steps of the polling thread, \<open>epoll_wait\<close>
  returning on an expired timer with the disarming \<open>timerfd_settime\<close>, then
  \<open>removePoll\<close>, then the post.\<close>

datatype timer_event = Tick timespec | Start nat nat | Stop nat | Proc | Fire | RemovePoll | Post

text \<open>The boot clock and the timeouts are such that a deadline in seconds fits 31 bits.\<close>

definition clk_ok :: "timespec \<Rightarrow> bool" where
  "clk_ok t \<longleftrightarrow> 0 \<le> tv_sec t \<and> tv_sec t < 2143000000 \<and> 0 \<le> tv_nsec t \<and> tv_nsec t < 1000000000"

fun timer_exec :: "timer_event \<Rightarrow> timers \<Rightarrow> timers option" where
  "timer_exec (Tick t) s = (if clk_ok t \<and> ts_less (clk s) t then Some (s\<lparr>clk := t\<rparr>) else None)"
| "timer_exec (Start c ms) s = (if ms < 2 ^ 32 then Some (snd (LocTimer_start c ms s)) else None)"
| "timer_exec (Stop c) s = Some (snd (LocTimer_stop c s))"
| "timer_exec Proc s =
     (case msgs s of [] \<Rightarrow> None | m # ms \<Rightarrow> Some (msg_proc m (s\<lparr>msgs := ms\<rparr>)))"
| "timer_exec Fire s =
     (case armed s of
        None \<Rightarrow> None
      | Some t \<Rightarrow> if polled s \<and> poll_pc s = Polling \<and> \<not> ts_less (clk s) t
                  then Some (s\<lparr>armed := None, poll_pc := Disarmed\<rparr>) else None)"
| "timer_exec RemovePoll s =
     (if poll_pc s = Disarmed then Some (s\<lparr>polled := False, poll_pc := Unpolled\<rparr>) else None)"
| "timer_exec Post s =
     (if poll_pc s = Unpolled
      then Some (s\<lparr>msgs := msgs s @ [MsgTimerExpire], poll_pc := Polling\<rparr>) else None)"

definition timers_init :: timers where
  "timers_init = \<lparr>tree = Leaf, armed = None, polled = False, poll_pc = Polling, msgs = [],
     mTimer = Map.empty, mClient = Map.empty, mContainer = (\<lambda>_. False), deleted = {},
     callbacks = [], next_id = 0, clk = \<lparr>tv_sec = 0, tv_nsec = 0\<rparr>\<rparr>"

inductive timers_reachable :: "timers \<Rightarrow> bool" where
  timers_start: "timers_reachable timers_init"
| timers_next: "timers_reachable s \<Longrightarrow> timer_exec e s = Some s' \<Longrightarrow> timers_reachable s'"

section \<open>Timers are ranked by deadline\<close>

lemma to_int_id: "- 2147483648 \<le> x \<Longrightarrow> x < 2147483648 \<Longrightarrow> to_int x = x"
  unfolding to_int_def by (rule signed_take_bit_int_eq_self) simp_all

lemma outRanks_deadline:
  assumes "ts_ok (mFutureTime d)" "ts_ok (mFutureTime e)"
  shows "outRanks delegate_ranks d e \<longleftrightarrow> ts_less (mFutureTime d) (mFutureTime e)"
proof -
  have "to_int (tv_sec (mFutureTime e) - tv_sec (mFutureTime d)) =
      tv_sec (mFutureTime e) - tv_sec (mFutureTime d)"
    "to_int (tv_nsec (mFutureTime e) - tv_nsec (mFutureTime d)) =
      tv_nsec (mFutureTime e) - tv_nsec (mFutureTime d)"
    using assms unfolding ts_ok_def by (intro to_int_id; linarith)+
  then show ?thesis by (auto simp: outRanks_def delegate_ranks_def Let_def ts_less_def)
qed

lemma ts_less_trans: "ts_less t u \<Longrightarrow> ts_less u v \<Longrightarrow> ts_less t v"
  by (auto simp: ts_less_def)

lemma ts_le_trans: "\<not> ts_less t u \<Longrightarrow> \<not> ts_less u v \<Longrightarrow> \<not> ts_less t v"
  by (auto simp: ts_less_def)

lemma ts_less_asym: "ts_less t u \<Longrightarrow> \<not> ts_less u t"
  by (auto simp: ts_less_def)

interpretation tm: rankable "\<lambda>d. ts_ok (mFutureTime d)" delegate_ranks
  by unfold_locales (auto simp: outRanks_deadline ts_less_asym dest: ts_le_trans)

lemma carry_arith:
  fixes n b :: int
  assumes "0 \<le> n" "n < 1000000000" "0 \<le> b" "b < 1000"
  shows "0 \<le> (n + b * 1000000) mod 1000000000" "(n + b * 1000000) mod 1000000000 < 1000000000"
    "0 \<le> (n + b * 1000000) div 1000000000" "(n + b * 1000000) div 1000000000 \<le> 1"
    "(n + b * 1000000) div 1000000000 * 1000000000 + (n + b * 1000000) mod 1000000000 = n + b * 1000000"
  using assms by (auto intro: pos_mod_bound simp: div_mult_mod_eq)

lemma start_deadline_ok:
  assumes "clk_ok now" "ms < 2 ^ 32"
  shows "ts_ok (start_deadline now ms) \<and>
    tv_sec (start_deadline now ms) * 1000000000 + tv_nsec (start_deadline now ms) =
      tv_sec now * 1000000000 + tv_nsec now + int ms * 1000000"
proof -
  define a b where "a = int (ms div 1000)" and "b = int (ms mod 1000)"
  have "int ms = a * 1000 + b"
    unfolding a_def b_def by (metis div_mult_mod_eq of_nat_add of_nat_mult of_nat_numeral)
  moreover have "0 \<le> a" "a \<le> 4294967" "0 \<le> b" "b < 1000" using assms(2) by (auto simp: a_def b_def)
  moreover have "start_deadline now ms =
      (if tv_nsec now + b * 1000000 \<ge> 1000000000
       then \<lparr>tv_sec = tv_sec now + a + (tv_nsec now + b * 1000000) div 1000000000,
             tv_nsec = (tv_nsec now + b * 1000000) mod 1000000000\<rparr>
       else \<lparr>tv_sec = tv_sec now + a, tv_nsec = tv_nsec now + b * 1000000\<rparr>)"
    by (simp add: start_deadline_def a_def b_def Let_def)
  moreover note carry_arith [of "tv_nsec now" b]
  ultimately show ?thesis
    using assms(1) unfolding ts_ok_def clk_ok_def by auto
qed

section \<open>The invariant\<close>

fun concerns :: "delegate \<Rightarrow> timer_msg \<Rightarrow> bool" where
  "concerns d (MsgTimerPush t) \<longleftrightarrow> t = d"
| "concerns d (MsgTimerRemove t) \<longleftrightarrow> t = d"
| "concerns d MsgTimerExpire \<longleftrightarrow> False"

definition pending :: "delegate \<Rightarrow> timers \<Rightarrow> timer_msg list" where
  "pending d s = filter (concerns d) (msgs s)"

definition heap_inv :: "timers \<Rightarrow> bool" where
  "heap_inv s \<longleftrightarrow> checkTree delegate_ranks (tree s) \<and> (\<forall>d\<in>#items (tree s). ts_ok (mFutureTime d)) \<and>
     (\<forall>d. MsgTimerPush d \<in> set (msgs s) \<longrightarrow> ts_ok (mFutureTime d))"

definition armed_for :: "timers \<Rightarrow> bool" where
  "armed_for s \<longleftrightarrow> tree s = Leaf \<or>
     (polled s \<and> (\<exists>t. armed s = Some t \<and> \<not> ts_less (mFutureTime (mData (tree s))) t))"

definition armed_inv :: "timers \<Rightarrow> bool" where
  "armed_inv s \<longleftrightarrow> armed_for s \<or> poll_pc s \<noteq> Polling \<or> MsgTimerExpire \<in> set (msgs s)"

definition life_inv :: "timers \<Rightarrow> delegate \<Rightarrow> bool" where
  "life_inv s d \<longleftrightarrow>
     pending d s \<in> {[], [MsgTimerPush d], [MsgTimerRemove d], [MsgTimerPush d, MsgTimerRemove d]} \<and>
     count (items (tree s)) d \<le> (if MsgTimerPush d \<in> set (pending d s) then 0 else 1) \<and>
     (mContainer s d \<longrightarrow> MsgTimerRemove d \<notin> set (pending d s)) \<and>
     (d \<in> deleted s \<longrightarrow> pending d s = [] \<and> d \<notin># items (tree s) \<and> \<not> mContainer s d) \<and>
     (\<forall>c. mTimer s c = Some d \<longleftrightarrow> mClient s d = Some c) \<and>
     (mClient s d \<noteq> None \<longrightarrow> mContainer s d) \<and>
     (tm_id d \<ge> next_id s \<longrightarrow> pending d s = [] \<and> d \<notin># items (tree s) \<and> d \<notin> deleted s \<and>
        \<not> mContainer s d)"

definition timers_inv :: "timers \<Rightarrow> bool" where
  "timers_inv s \<longleftrightarrow> clk_ok (clk s) \<and> heap_inv s \<and> armed_inv s \<and> (\<forall>d. life_inv s d)"

lemma life_inv_cong:
  assumes "pending d s' = pending d s" "count (items (tree s')) d \<le> count (items (tree s)) d"
    "mContainer s' d = mContainer s d" "d \<in> deleted s' \<longleftrightarrow> d \<in> deleted s"
    "mTimer s' = mTimer s" "mClient s' d = mClient s d" "next_id s' = next_id s"
  shows "life_inv s d \<Longrightarrow> life_inv s' d"
  using assms unfolding life_inv_def by (auto simp: count_eq_zero_iff [symmetric])

lemma life_link: "life_inv s d \<Longrightarrow> mTimer s c = Some d \<longleftrightarrow> mClient s d = Some c"
  unfolding life_inv_def by blast

lemma life_count: "life_inv s d \<Longrightarrow> count (items (tree s)) d \<le> 1"
  unfolding life_inv_def by (auto split: if_splits)

lemma update_frame [simp]:
  "tree (updateSoonestTime p s) = tree s" "msgs (updateSoonestTime p s) = msgs s"
  "poll_pc (updateSoonestTime p s) = poll_pc s" "mTimer (updateSoonestTime p s) = mTimer s"
  "mClient (updateSoonestTime p s) = mClient s" "mContainer (updateSoonestTime p s) = mContainer s"
  "deleted (updateSoonestTime p s) = deleted s" "next_id (updateSoonestTime p s) = next_id s"
  "clk (updateSoonestTime p s) = clk s" "callbacks (updateSoonestTime p s) = callbacks s"
  by (auto simp: updateSoonestTime_def Let_def split: option.split)

lemma pending_update [simp]: "pending d (updateSoonestTime p s) = pending d s"
  by (simp add: pending_def)

lemma life_update: "life_inv (updateSoonestTime p s) d = life_inv s d"
  by (simp add: life_inv_def)

lemma heap_update: "heap_inv (updateSoonestTime p s) = heap_inv s"
  by (simp add: heap_inv_def)

lemma armed_update_None: "armed_for (updateSoonestTime None s)"
  by (auto simp: armed_for_def updateSoonestTime_def getSoonestTimer_def heap_peek_def Let_def
      ts_less_def split: option.split)

lemma heap_inv_valid:
  "heap_inv s \<Longrightarrow> checkTree delegate_ranks (tree s) \<and> tm.valid_items (tree s)"
  by (simp add: heap_inv_def tm.valid_items_def)

lemma container_pop_cases:
  assumes "heap_inv s"
  obtains "tree s = Leaf" "container_pop s = (None, s)"
  | t tr where "tree s \<noteq> Leaf" "t = mData (tree s)" "container_pop s = (Some t, s\<lparr>tree := tr\<rparr>)"
    "checkTree delegate_ranks tr" "tm.valid_items tr" "items tr = items (tree s) - {#t#}"
    "t \<in># items (tree s)" "tm.bounded t (tree s)"
proof (cases "tree s = Leaf")
  case True
  with that(1) show ?thesis by (simp add: container_pop_def heap_pop_def)
next
  case False
  with tm.heap_pop_ok [of "tree s"] heap_inv_valid [OF assms] obtain tr where
    "heap_pop delegate_ranks (tree s) = (Some (mData (tree s)), tr)" "checkTree delegate_ranks tr"
    "tm.valid_items tr" "items tr = items (tree s) - {#mData (tree s)#}"
    "tm.bounded (mData (tree s)) (tree s)" by blast
  then show ?thesis
    by (intro that(2) [of "mData (tree s)" tr]) (simp_all add: False mData_in_items container_pop_def)
qed

lemma pop_keeps:
  assumes "heap_inv s"
  shows "heap_inv (snd (container_pop s)) \<and> (life_inv s d \<longrightarrow> life_inv (snd (container_pop s)) d)"
  using assms
proof (cases rule: container_pop_cases)
  case (2 t tr)
  then show ?thesis
    using assms life_inv_cong [of d "s\<lparr>tree := tr\<rparr>" s]
    by (auto simp: heap_inv_def tm.valid_items_def pending_def dest: in_diffD)
qed (use assms in simp)

section \<open>Starting and stopping\<close>

lemma stop_frame [simp]:
  "poll_pc (snd (LocTimer_stop c s)) = poll_pc s" "armed (snd (LocTimer_stop c s)) = armed s"
  "polled (snd (LocTimer_stop c s)) = polled s" "deleted (snd (LocTimer_stop c s)) = deleted s"
  "next_id (snd (LocTimer_stop c s)) = next_id s" "clk (snd (LocTimer_stop c s)) = clk s"
  by (auto simp: LocTimer_stop_def destroyLocked_def container_remove_def Let_def split: option.split)

lemma stop_msgs:
  "set (msgs s) \<subseteq> set (msgs (snd (LocTimer_stop c s)))"
  "set (msgs (snd (LocTimer_stop c s))) \<subseteq> set (msgs s) \<union> range MsgTimerRemove"
  by (auto simp: LocTimer_stop_def destroyLocked_def container_remove_def Let_def split: option.split)

lemma heap_stop: "heap_inv s \<Longrightarrow> heap_inv (snd (LocTimer_stop c s))"
  using stop_msgs(2) [of c s] unfolding heap_inv_def by auto

lemma armed_stop: "armed_inv s \<Longrightarrow> armed_inv (snd (LocTimer_stop c s))"
  using stop_msgs(1) [of s c] unfolding armed_inv_def armed_for_def by auto

lemma stop_eq:
  assumes "life_inv s t" "mTimer s c = Some t"
  shows "LocTimer_stop c s = (True, s\<lparr>mTimer := (mTimer s)(c := None),
    mClient := (mClient s)(t := None), mContainer := (mContainer s)(t := False),
    msgs := msgs s @ [MsgTimerRemove t]\<rparr>)"
proof -
  have "mContainer s t" using assms by (auto simp: life_inv_def)
  with assms(2) show ?thesis
    by (simp add: LocTimer_stop_def destroyLocked_def container_remove_def Let_def)
qed

lemma life_stop:
  assumes "\<forall>d. life_inv s d"
  shows "life_inv (snd (LocTimer_stop c s)) d"
proof (cases "mTimer s c")
  case None
  with assms show ?thesis by (simp add: LocTimer_stop_def)
next
  case (Some t)
  have t: "life_inv s t" and d: "life_inv s d" using assms by auto
  let ?s = "snd (LocTimer_stop c s)"
  note eq = stop_eq [OF t Some]
  have p: "pending d ?s = pending d s @ (if d = t then [MsgTimerRemove t] else [])"
    by (simp add: eq pending_def)
  have t': "pending t s \<in> {[], [MsgTimerPush t]}" "mContainer s t" "mClient s t = Some c"
    using t Some by (auto simp: life_inv_def)
  show ?thesis
  proof (cases "d = t")
    case True
    with t t' Some show ?thesis
      unfolding life_inv_def p by (auto simp: eq split: if_splits)
  next
    case False
    then have "mClient s d \<noteq> Some c" using life_link [OF d, of c] Some by simp
    with d t' Some False show ?thesis
      unfolding life_inv_def p by (auto simp: eq split: if_splits)
  qed
qed

lemma start_keeps:
  assumes inv: "timers_inv s" and ms: "ms < 2 ^ 32"
  shows "timers_inv (snd (LocTimer_start c ms s))"
proof (cases "mTimer s c")
  case (Some t)
  with inv show ?thesis by (simp add: LocTimer_start_def)
next
  case None
  define t where "t = \<lparr>tm_id = next_id s, mFutureTime = start_deadline (clk s) ms\<rparr>"
  let ?s = "snd (LocTimer_start c ms s)"
  have eq: "?s = s\<lparr>next_id := Suc (next_id s), mClient := (mClient s)(t \<mapsto> c),
      mContainer := (mContainer s)(t := True), msgs := msgs s @ [MsgTimerPush t],
      mTimer := (mTimer s)(c \<mapsto> t)\<rparr>"
    using None by (simp add: LocTimer_start_def container_add_def Let_def t_def)
  have "ts_ok (mFutureTime t)"
    using start_deadline_ok [of "clk s" ms] inv ms by (simp add: t_def timers_inv_def)
  then have "heap_inv ?s" using inv by (auto simp: eq timers_inv_def heap_inv_def)
  moreover have "armed_inv ?s" using inv by (auto simp: eq timers_inv_def armed_inv_def armed_for_def)
  moreover have "life_inv ?s d" for d
  proof -
    have d: "life_inv s d" and t: "life_inv s t" using inv by (auto simp: timers_inv_def)
    have p: "pending d ?s = pending d s @ (if d = t then [MsgTimerPush t] else [])"
      by (simp add: eq pending_def)
    show ?thesis
    proof (cases "d = t")
      case True
      have "pending t s = []" "t \<notin># items (tree s)" "t \<notin> deleted s" "mClient s t = None"
        using t by (auto simp: life_inv_def t_def)
      with t True show ?thesis
        unfolding life_inv_def p by (auto simp: eq t_def not_in_iff)
    next
      case False
      then have "mClient s d \<noteq> Some c" using life_link [OF d, of c] None by simp
      with d False show ?thesis unfolding life_inv_def p by (auto simp: eq)
    qed
  qed
  moreover have "clk_ok (clk ?s)" using inv by (simp add: eq timers_inv_def)
  ultimately show ?thesis by (simp add: timers_inv_def)
qed

section \<open>Processing the messages\<close>

lemma expire_delegate_keeps:
  assumes "heap_inv s" "\<forall>d. life_inv s d"
  shows "heap_inv (delegate_expire t s) \<and> (\<forall>d. life_inv (delegate_expire t s) d)"
proof -
  have cb: "life_inv (u\<lparr>callbacks := x\<rparr>) d = life_inv u d" "heap_inv (u\<lparr>callbacks := x\<rparr>) = heap_inv u"
    for u x d by (simp_all add: life_inv_def heap_inv_def pending_def)
  have "heap_inv (snd (LocTimer_stop c s)) \<and> (\<forall>d. life_inv (snd (LocTimer_stop c s)) d)" for c
    using heap_stop life_stop assms by blast
  with assms show ?thesis
    by (auto simp: delegate_expire_def cb split: option.split prod.split) (metis snd_conv)+
qed

lemma popIfOutRanks_eq:
  "popIfOutRanks now s = (None, s) \<or> popIfOutRanks now s = container_pop s"
  by (simp add: popIfOutRanks_def)

lemma expire_loop_keeps:
  assumes "heap_inv s" "\<forall>d. life_inv s d"
  shows "heap_inv (expire_loop now (t, s)) \<and> (\<forall>d. life_inv (expire_loop now (t, s)) d)"
  using assms
proof (induction now "(t, s)" arbitrary: t s rule: expire_loop.induct)
  case (2 now t s)
  obtain t' s' where pop: "popIfOutRanks now (delegate_expire t s) = (t', s')" by fastforce
  have e: "heap_inv (delegate_expire t s)" "\<forall>d. life_inv (delegate_expire t s) d"
    using expire_delegate_keeps "2.prems" by blast+
  then have "heap_inv s' \<and> (\<forall>d. life_inv s' d)"
    using pop popIfOutRanks_eq [of now "delegate_expire t s"] pop_keeps [OF e(1)]
    by (metis snd_conv)
  with "2.hyps" [of t' s'] pop show ?case unfolding expire_loop.simps by auto
qed simp

lemma container_pop_frame [simp]:
  "poll_pc (snd (container_pop s)) = poll_pc s" "clk (snd (container_pop s)) = clk s"
  "msgs (snd (container_pop s)) = msgs s"
  by (simp_all add: container_pop_def split: prod.split)

lemma delegate_expire_frame [simp]:
  "poll_pc (delegate_expire t s) = poll_pc s" "clk (delegate_expire t s) = clk s"
proof -
  have "poll_pc (delegate_expire t s) = poll_pc s \<and> clk (delegate_expire t s) = clk s"
  proof (cases "mClient s t")
    case (Some c)
    obtain b u where "LocTimer_stop c s = (b, u)" by fastforce
    with Some stop_frame [of c s] show ?thesis by (simp add: delegate_expire_def)
  qed (simp add: delegate_expire_def)
  then show "poll_pc (delegate_expire t s) = poll_pc s" "clk (delegate_expire t s) = clk s"
    by auto
qed

lemma expire_loop_clk [simp]: "clk (expire_loop now (t, s)) = clk s"
proof (induction now "(t, s)" arbitrary: t s rule: expire_loop.induct)
  case (2 now t s)
  obtain t' s' where pop: "popIfOutRanks now (delegate_expire t s) = (t', s')" by fastforce
  then have "clk s' = clk s"
    using popIfOutRanks_eq [of now "delegate_expire t s"] container_pop_frame(2) [of "delegate_expire t s"]
      delegate_expire_frame(2) [of t s]
    by (metis snd_conv)
  with "2.hyps" [of t' s'] pop show ?case by simp
qed simp

lemma expire_proc_keeps:
  assumes "clk_ok (clk s)" "heap_inv s" "\<forall>d. life_inv s d"
  shows "timers_inv (MsgTimerExpire_proc s)"
proof -
  obtain t s' where pop: "container_pop s = (t, s')" by fastforce
  then have "heap_inv s'" "\<forall>d. life_inv s' d" "clk s' = clk s"
    using pop_keeps [OF assms(2)] assms(3) container_pop_frame(2) [of s] by (metis snd_conv)+
  with expire_loop_keeps [of s' "clk s" t] assms(1) show ?thesis
    by (simp add: timers_inv_def MsgTimerExpire_proc_def pop heap_update life_update
        armed_inv_def armed_update_None)
qed

lemma pending_Cons:
  "msgs s = m # ms \<Longrightarrow> pending d s = (if concerns d m then [m] else []) @ pending d (s\<lparr>msgs := ms\<rparr>)"
  by (simp add: pending_def)

lemma push_proc_keeps:
  assumes inv: "timers_inv s" and ms: "msgs s = MsgTimerPush t # ms"
  shows "timers_inv (MsgTimerPush_proc t (s\<lparr>msgs := ms\<rparr>))"
proof -
  let ?s1 = "s\<lparr>msgs := ms\<rparr>"
  let ?s2 = "?s1\<lparr>tree := heap_push delegate_ranks t (tree s)\<rparr>"
  have eq: "MsgTimerPush_proc t ?s1 = updateSoonestTime (getSoonestTimer s) ?s2"
    by (simp add: MsgTimerPush_proc_def getSoonestTimer_def)
  have h: "heap_inv s" "ts_ok (mFutureTime t)"
    using inv ms by (auto simp: timers_inv_def heap_inv_def)
  note push = tm.heap_push_ok [of "tree s" t, OF _ _ h(2)]
  have p: "checkTree delegate_ranks (tree ?s2)" "items (tree ?s2) = add_mset t (items (tree s))"
    "tm.valid_items (tree ?s2)"
    using push heap_inv_valid [OF h(1)] by auto
  have "heap_inv ?s2"
    using h p ms by (auto simp: heap_inv_def)
  moreover have "life_inv ?s2 d" for d
  proof -
    have d: "life_inv s d" using inv by (simp add: timers_inv_def)
    have q: "pending d s = (if t = d then [MsgTimerPush t] else []) @ pending d ?s2"
      using pending_Cons [OF ms, of d] by (simp add: pending_def)
    show ?thesis
    proof (cases "t = d")
      case True
      with d q p(2) show ?thesis by (auto simp: life_inv_def count_eq_zero_iff)
    next
      case False
      with d q p(2) show ?thesis by (auto simp: life_inv_def)
    qed
  qed
  moreover have "armed_inv (updateSoonestTime (getSoonestTimer s) ?s2)"
  proof -
    have ne: "tree ?s2 \<noteq> Leaf" using p(2) by (metis empty_not_add_mset items_Leaf)
    have top: "mData (tree ?s2) = (if tree s = Leaf \<or> outRanks delegate_ranks t (mData (tree s)) then t else mData (tree s))"
      by (cases "tree s") (auto simp: heap_push_def new_node_def Let_def)
    have "armed_for (updateSoonestTime (getSoonestTimer s) ?s2)" if "armed_for s"
      using that ne top
      by (auto simp: armed_for_def updateSoonestTime_def getSoonestTimer_def heap_peek_def Let_def ts_less_def)
    with inv ms show ?thesis by (auto simp: timers_inv_def armed_inv_def)
  qed
  ultimately show ?thesis
    using inv by (simp add: eq timers_inv_def heap_update life_update)
qed

lemma heap_remove_keeps_top:
  "heap_remove ranks t tr = (rm, tr') \<Longrightarrow> tr \<noteq> Leaf \<Longrightarrow> mData tr \<noteq> t \<Longrightarrow> mData tr' = mData tr"
  by (cases tr) (auto simp: heap_remove_def split: if_splits prod.splits)

lemma remove_proc_keeps:
  assumes inv: "timers_inv s" and ms: "msgs s = MsgTimerRemove t # ms"
  shows "timers_inv (MsgTimerRemove_proc t (s\<lparr>msgs := ms\<rparr>))"
proof -
  let ?s1 = "s\<lparr>msgs := ms\<rparr>"
  obtain rm tr where rm: "heap_remove delegate_ranks t (tree s) = (rm, tr)" by fastforce
  let ?s2 = "?s1\<lparr>tree := tr\<rparr>"
  let ?s3 = "if getSoonestTimer s = rm then updateSoonestTime None ?s2 else ?s2"
  have eq: "MsgTimerRemove_proc t ?s1 = ?s3\<lparr>deleted := insert t (deleted ?s3)\<rparr>"
    by (simp add: MsgTimerRemove_proc_def getSoonestTimer_def rm)
  have h: "heap_inv s" using inv by (simp add: timers_inv_def)
  note v = heap_inv_valid [OF h]
  have r: "checkTree delegate_ranks tr \<and> tm.valid_items tr \<and> items tr = items (tree s) - {#t#} \<and>
      (if t \<in># items (tree s) then rm = Some t else rm = None \<and> tr = tree s)"
    using tm.heap_remove_ok [of "tree s" t] v rm by (cases "t \<in># items (tree s)") auto
  have "heap_inv ?s2" using h r ms by (auto simp: heap_inv_def tm.valid_items_def)
  then have heap: "heap_inv (MsgTimerRemove_proc t ?s1)" by (simp add: eq heap_inv_def)
  have life: "life_inv (MsgTimerRemove_proc t ?s1) d" for d
  proof -
    have d: "life_inv s d" using inv by (simp add: timers_inv_def)
    have q: "pending d s = (if t = d then [MsgTimerRemove t] else []) @ pending d ?s2"
      using pending_Cons [OF ms, of d] by (simp add: pending_def)
    have c: "count (items tr) d = count (items (tree s)) d - (if d = t then 1 else 0)"
      using r by auto
    let ?f = "MsgTimerRemove_proc t ?s1"
    have f: "pending d ?f = pending d ?s2" "tree ?f = tr" "mContainer ?f = mContainer s"
      "deleted ?f = insert t (deleted s)" "mTimer ?f = mTimer s" "mClient ?f = mClient s"
      "next_id ?f = next_id s"
      by (auto simp: eq pending_def)
    have q': "pending d ?s2 = (if t = d then tl (pending d s) else pending d s)" using q by simp
    show ?thesis
    proof (cases "t = d")
      case True
      then have "pending d s \<noteq> [] \<and> hd (pending d s) = MsgTimerRemove d" using q by simp
      then have "pending d s = [MsgTimerRemove d]" using d by (auto simp: life_inv_def)
      with d c True show ?thesis unfolding life_inv_def f q' by (auto simp: not_in_iff)
    next
      case False
      with d c show ?thesis unfolding life_inv_def f q' by (simp add: not_in_iff)
    qed
  qed
  have "armed_inv (MsgTimerRemove_proc t ?s1)"
  proof (cases "getSoonestTimer s = rm")
    case True
    then show ?thesis using armed_update_None [of ?s2] by (simp add: eq armed_inv_def armed_for_def)
  next
    case False
    have "tr = Leaf \<or> (tree s \<noteq> Leaf \<and> mData tr = mData (tree s))"
    proof (cases "t \<in># items (tree s)")
      case True
      with False r have "tree s \<noteq> Leaf" "mData (tree s) \<noteq> t"
        by (auto simp: getSoonestTimer_def heap_peek_def split: if_splits)
      then show ?thesis using heap_remove_keeps_top [OF rm] by simp
    qed (use r False in \<open>auto simp: getSoonestTimer_def heap_peek_def split: if_splits\<close>)
    with inv ms False show ?thesis
      by (auto simp: eq timers_inv_def armed_inv_def armed_for_def)
  qed
  with heap life inv show ?thesis by (simp add: timers_inv_def eq)
qed

lemma exec_keeps:
  assumes "timers_inv s" "timer_exec e s = Some s'"
  shows "timers_inv s'"
proof (cases e)
  case (Tick t)
  with assms have eq: "s' = s\<lparr>clk := t\<rparr>" and "clk_ok t" by (auto split: if_splits)
  moreover have "heap_inv s' = heap_inv s" "armed_inv s' = armed_inv s" "life_inv s' d = life_inv s d"
    for d by (simp_all add: eq heap_inv_def armed_inv_def armed_for_def life_inv_def pending_def)
  ultimately show ?thesis using assms by (simp add: timers_inv_def)
next
  case (Start c ms)
  with assms start_keeps show ?thesis by (auto split: if_splits)
next
  case (Stop c)
  with assms heap_stop life_stop armed_stop show ?thesis by (auto simp: timers_inv_def)
next
  case Proc
  with assms(2) obtain m ms where m: "msgs s = m # ms" "s' = msg_proc m (s\<lparr>msgs := ms\<rparr>)"
    by (auto split: list.splits)
  show ?thesis
  proof (cases m)
    case (MsgTimerPush t)
    with m push_proc_keeps assms(1) show ?thesis by simp
  next
    case (MsgTimerRemove t)
    with m remove_proc_keeps assms(1) show ?thesis by simp
  next
    case MsgTimerExpire
    let ?s = "s\<lparr>msgs := ms\<rparr>"
    have "pending d ?s = pending d s" for d
      using pending_Cons [OF m(1), of d] MsgTimerExpire by simp
    then have "\<forall>d. life_inv ?s d" using assms(1) by (simp add: timers_inv_def life_inv_def)
    moreover have "heap_inv ?s" using assms(1) m(1) by (auto simp: timers_inv_def heap_inv_def)
    ultimately show ?thesis
      using expire_proc_keeps [of ?s] assms(1) m(2) MsgTimerExpire by (simp add: timers_inv_def)
  qed
next
  case Fire
  with assms(2) have eq: "s' = s\<lparr>armed := None, poll_pc := Disarmed\<rparr>"
    by (auto split: option.splits if_splits)
  have "heap_inv s' = heap_inv s" "life_inv s' d = life_inv s d" for d
    by (simp_all add: eq heap_inv_def life_inv_def pending_def)
  with assms(1) show ?thesis by (simp add: timers_inv_def eq armed_inv_def)
next
  case RemovePoll
  with assms(2) have eq: "s' = s\<lparr>polled := False, poll_pc := Unpolled\<rparr>" by (auto split: if_splits)
  have "heap_inv s' = heap_inv s" "life_inv s' d = life_inv s d" for d
    by (simp_all add: eq heap_inv_def life_inv_def pending_def)
  with assms(1) show ?thesis by (simp add: timers_inv_def eq armed_inv_def)
next
  case Post
  with assms(2) have eq: "s' = s\<lparr>msgs := msgs s @ [MsgTimerExpire], poll_pc := Polling\<rparr>"
    by (auto split: if_splits)
  have "heap_inv s' = heap_inv s" "life_inv s' d = life_inv s d" for d
    by (auto simp: eq heap_inv_def life_inv_def pending_def)
  with assms(1) show ?thesis by (simp add: timers_inv_def eq armed_inv_def)
qed

lemma reachable_inv: "timers_reachable s \<Longrightarrow> timers_inv s"
proof (induction rule: timers_reachable.induct)
  case timers_start
  show ?case
    by (simp add: timers_inv_def timers_init_def clk_ok_def heap_inv_def armed_inv_def armed_for_def
        life_inv_def pending_def checkTree_def)
qed (rule exec_keeps)

fun timer_run :: "timer_event list \<Rightarrow> timers \<Rightarrow> timers option" where
  "timer_run [] s = Some s"
| "timer_run (e # es) s = (case timer_exec e s of None \<Rightarrow> None | Some s' \<Rightarrow> timer_run es s')"

lemma run_reachable: "timer_run es s = Some s' \<Longrightarrow> timers_reachable s \<Longrightarrow> timers_reachable s'"
  by (induction es arbitrary: s) (auto intro: timers_next split: option.splits)

lemmas timer_eval = timers_init_def LocTimer_start_def LocTimer_stop_def container_add_def
  destroyLocked_def container_remove_def start_deadline_def clk_ok_def ts_less_def Let_def
  MsgTimerPush_proc_def MsgTimerRemove_proc_def MsgTimerExpire_proc_def updateSoonestTime_def
  getSoonestTimer_def heap_peek_def heap_push_def heap_remove_def heap_pop_def new_node_def
  container_pop_def popIfOutRanks_def delegate_expire_def

section \<open>What an expiration pops\<close>

lemma delegate_expire_effect:
  assumes "\<forall>d. life_inv s d"
  shows "callbacks (delegate_expire t s) = callbacks s @ List.map_filter (mClient s) [t] \<and>
    (\<forall>d. d \<noteq> t \<longrightarrow> mClient (delegate_expire t s) d = mClient s d)"
proof (cases "mClient s t")
  case (Some c)
  with assms have l: "life_inv s t" "mTimer s c = Some t" using life_link by auto
  show ?thesis using Some by (simp add: delegate_expire_def stop_eq [OF l] map_filter_simps)
qed (simp add: delegate_expire_def map_filter_simps)

lemma popIfOutRanks_cases:
  assumes "heap_inv s" "ts_ok now"
  obtains "popIfOutRanks now s = (None, s)" "\<forall>d\<in>#items (tree s). ts_less now (mFutureTime d)"
  | t s' where "popIfOutRanks now s = (Some t, s')" "container_pop s = (Some t, s')"
    "\<not> ts_less now (mFutureTime t)" "items (tree s) = add_mset t (items (tree s'))"
    "mClient s' = mClient s" "callbacks s' = callbacks s"
  using assms(1)
proof (cases rule: container_pop_cases)
  case 1
  with that(1) show ?thesis by (simp add: popIfOutRanks_def)
next
  case (2 t tr)
  have ok: "ts_ok (mFutureTime d)" if "d \<in># items (tree s)" for d
    using assms(1) that by (auto simp: heap_inv_def)
  show ?thesis
  proof (cases "ts_less now (mFutureTime t)")
    case True
    have "\<forall>d\<in>#items (tree s). ts_less now (mFutureTime d)"
    proof
      fix d
      assume d: "d \<in># items (tree s)"
      with 2(8) have "\<not> outRanks delegate_ranks d t" by (simp add: tm.bounded_def)
      with ok [OF d] ok [OF 2(7)] have "\<not> ts_less (mFutureTime d) (mFutureTime t)"
        by (simp add: outRanks_deadline)
      with True show "ts_less now (mFutureTime d)" using ts_le_trans by blast
    qed
    moreover have "popIfOutRanks now s = (None, s)"
      using True 2 ok [OF 2(7)] assms(2) outRanks_deadline [of "timer_of now" t]
      by (simp add: popIfOutRanks_def timer_of_def)
    ultimately show ?thesis using that(1) by blast
  next
    case False
    then have "popIfOutRanks now s = container_pop s"
      using 2 ok [OF 2(7)] assms(2) outRanks_deadline [of "timer_of now" t]
      by (simp add: popIfOutRanks_def timer_of_def)
    with False 2 show ?thesis by (intro that(2) [of t "s\<lparr>tree := tr\<rparr>"]) simp_all
  qed
qed

lemma expire_loop_pops:
  assumes "heap_inv s" "\<forall>d. life_inv s d" "ts_ok now" "t \<notin># items (tree s)"
  shows "\<exists>ds. items (tree s) = mset ds + items (tree (expire_loop now (Some t, s))) \<and>
    (\<forall>d\<in>set ds. \<not> ts_less now (mFutureTime d)) \<and>
    (\<forall>d\<in>#items (tree (expire_loop now (Some t, s))). ts_less now (mFutureTime d)) \<and>
    callbacks (expire_loop now (Some t, s)) = callbacks s @ List.map_filter (mClient s) (t # ds)"
  using assms
proof (induction "size (items (tree s))" arbitrary: s t rule: less_induct)
  case less
  define s1 where "s1 = delegate_expire t s"
  have s1: "heap_inv s1" "\<forall>d. life_inv s1 d" "tree s1 = tree s"
    using expire_delegate_keeps [OF less.prems(1,2), of t] by (auto simp: s1_def)
  note eff = delegate_expire_effect [OF less.prems(2), of t, folded s1_def]
  from s1(1) less.prems(3) show ?case
  proof (cases rule: popIfOutRanks_cases)
    case 1
    then have "expire_loop now (Some t, s) = s1" by (simp add: s1_def)
    with 1 eff s1(3) show ?thesis by (intro exI [of _ "[]"]) simp
  next
    case (2 u s')
    have loop: "expire_loop now (Some t, s) = expire_loop now (Some u, s')"
      using 2(1) by (simp add: s1_def)
    have keep: "heap_inv s'" "\<forall>d. life_inv s' d"
      using pop_keeps [OF s1(1)] s1(2) 2(2) by (metis snd_conv)+
    have cnt: "count (items (tree s1)) d \<le> 1" for d
      using s1(2) life_count by blast
    have nu: "u \<notin># items (tree s')" using cnt [of u] 2(4) by (simp add: not_in_iff)
    have "size (items (tree s')) < size (items (tree s))" using 2(4) s1(3) by simp
    from less.hyps [OF this keep less.prems(3) nu] obtain ds where ds:
      "items (tree s') = mset ds + items (tree (expire_loop now (Some u, s')))"
      "\<forall>d\<in>set ds. \<not> ts_less now (mFutureTime d)"
      "\<forall>d\<in>#items (tree (expire_loop now (Some u, s'))). ts_less now (mFutureTime d)"
      "callbacks (expire_loop now (Some u, s')) = callbacks s' @ List.map_filter (mClient s') (u # ds)"
      by blast
    have "t \<notin> set (u # ds)"
      using less.prems(4) 2(4) s1(3) ds(1) by auto
    then have "List.map_filter (mClient s1) (u # ds) = List.map_filter (mClient s) (u # ds)"
      using eff by (intro map_filter_cong) metis
    with 2 ds eff s1(3) loop show ?thesis
      by (intro exI [of _ "u # ds"]) (simp add: map_filter_simps split: option.split)
  qed
qed

section \<open>Properties\<close>

text \<open>
  C4. No timer is lost, in any interleaving of clients, message task and polling thread:
  while a timer is in the container, an expiration is about to be processed (the polling
  thread is inside \<open>expire\<close>, or its message is queued), or the kernel timer is polled
  and set no later than the deadline of every timer in the container.\<close>

theorem timer_never_lost:
  assumes "timers_reachable s" "tree s \<noteq> Leaf"
  shows "MsgTimerExpire \<in> set (msgs s) \<or> poll_pc s \<noteq> Polling \<or>
    (polled s \<and> (\<exists>t. armed s = Some t \<and> (\<forall>d\<in>#items (tree s). \<not> ts_less (mFutureTime d) t)))"
proof -
  have inv: "heap_inv s" "armed_inv s" using reachable_inv [OF assms(1)] by (auto simp: timers_inv_def)
  have "\<not> ts_less (mFutureTime d) (mFutureTime (mData (tree s)))" if d: "d \<in># items (tree s)" for d
  proof -
    have "heap_peek (tree s) = Some (mData (tree s))" using assms(2) by (simp add: heap_peek_def)
    with tm.heap_peek_ok [of "tree s"] heap_inv_valid [OF inv(1)] d
    have "\<not> outRanks delegate_ranks d (mData (tree s))" "ts_ok (mFutureTime (mData (tree s)))" by auto
    moreover have "ts_ok (mFutureTime d)" using inv(1) d by (auto simp: heap_inv_def)
    ultimately show ?thesis by (simp add: outRanks_deadline)
  qed
  with inv(2) assms(2) ts_le_trans show ?thesis unfolding armed_inv_def armed_for_def by blast
qed

theorem timer_never_lost_witness:
  "\<exists>s. timer_run [Start 0 1500, Proc] timers_init = Some s \<and>
    (polled s \<and> (\<exists>t. armed s = Some t \<and> (\<forall>d\<in>#items (tree s). \<not> ts_less (mFutureTime d) t)))"
proof -
  obtain s where s: "timer_run [Start 0 1500, Proc] timers_init = Some s" "tree s \<noteq> Leaf"
    "msgs s = []" "poll_pc s = Polling"
    by (simp add: timer_eval)
  from timer_never_lost [OF run_reachable [OF s(1) timers_start] s(2)] s show ?thesis by auto
qed

text \<open>
  C5. No timer object is used after it is freed: a delegate that is in the heap, is named
  by a queued message or is held by a client as its running timer has not been deleted;
  in particular each delegate is deleted at most once.\<close>

theorem timer_no_use_after_free:
  assumes "timers_reachable s"
    "d \<in># items (tree s) \<or> MsgTimerPush d \<in> set (msgs s) \<or> MsgTimerRemove d \<in> set (msgs s) \<or>
      mTimer s c = Some d"
  shows "d \<notin> deleted s"
proof
  assume del: "d \<in> deleted s"
  have d: "life_inv s d" using reachable_inv [OF assms(1)] by (simp add: timers_inv_def)
  with del have q: "pending d s = []" "d \<notin># items (tree s)" "\<not> mContainer s d"
    by (auto simp: life_inv_def)
  from q(1) have "MsgTimerPush d \<notin> set (msgs s)" "MsgTimerRemove d \<notin> set (msgs s)"
    by (auto simp: pending_def filter_empty_conv)
  moreover have "mTimer s c \<noteq> Some d" using d q(3) by (auto simp: life_inv_def)
  ultimately show False using assms(2) q(2) by blast
qed

theorem timer_no_use_after_free_witness:
  "\<exists>s d. timer_run [Start 0 1500, Proc] timers_init = Some s \<and> mTimer s 0 = Some d \<and> d \<notin> deleted s"
proof -
  obtain s d where s: "timer_run [Start 0 1500, Proc] timers_init = Some s" "mTimer s 0 = Some d"
    by (simp add: timer_eval)
  from timer_no_use_after_free [OF run_reachable [OF s(1) timers_start]] s show ?thesis by blast
qed

text \<open>
  Processing an expiration at time \<open>now\<close> takes out of the container the
  soonest timer and every timer whose deadline is not after \<open>now\<close>, leaves exactly the
  timers that are still to come, sets the kernel timer for the soonest of them, and calls
  back, once each and in the order popped, the clients that had not stopped their timer.\<close>

theorem expire_pops_due_timers:
  assumes "timers_reachable s" "msgs s = MsgTimerExpire # ms" "tree s \<noteq> Leaf"
    "timer_exec Proc s = Some s'"
  shows "\<exists>t ds. getSoonestTimer s = Some t \<and> items (tree s) = mset (t # ds) + items (tree s') \<and>
    (\<forall>d\<in>set ds. \<not> ts_less (clk s) (mFutureTime d)) \<and>
    (\<forall>d\<in>#items (tree s'). ts_less (clk s) (mFutureTime d)) \<and>
    callbacks s' = callbacks s @ List.map_filter (mClient s) (t # ds) \<and>
    (tree s' \<noteq> Leaf \<longrightarrow> polled s' \<and> armed s' = map_option mFutureTime (getSoonestTimer s'))"
proof -
  let ?s = "s\<lparr>msgs := ms\<rparr>"
  have inv: "timers_inv s" by (rule reachable_inv [OF assms(1)])
  have life: "\<forall>d. life_inv ?s d"
    using pending_Cons [OF assms(2)] inv by (simp add: timers_inv_def life_inv_def)
  have heap: "heap_inv ?s" using inv assms(2) by (auto simp: timers_inv_def heap_inv_def)
  have now: "ts_ok (clk s)" using inv by (simp add: timers_inv_def clk_ok_def ts_ok_def)
  from heap obtain t tr where pop: "t = mData (tree s)" "container_pop ?s = (Some t, ?s\<lparr>tree := tr\<rparr>)"
    "items tr = items (tree s) - {#t#}" "t \<in># items (tree s)"
    by (cases rule: container_pop_cases) (use assms(3) in auto)
  let ?p = "?s\<lparr>tree := tr\<rparr>"
  have keep: "heap_inv ?p" "\<forall>d. life_inv ?p d"
    using pop_keeps [OF heap] life pop(2) by (metis snd_conv)+
  have "count (items (tree s)) t \<le> 1"
    using life_count [of ?s t] life by simp
  then have "t \<notin># items (tree ?p)" using pop(3) by (simp add: not_in_iff)
  from expire_loop_pops [OF keep now this] obtain ds where ds:
    "items tr = mset ds + items (tree (expire_loop (clk s) (Some t, ?p)))"
    "\<forall>d\<in>set ds. \<not> ts_less (clk s) (mFutureTime d)"
    "\<forall>d\<in>#items (tree (expire_loop (clk s) (Some t, ?p))). ts_less (clk s) (mFutureTime d)"
    "callbacks (expire_loop (clk s) (Some t, ?p)) = callbacks s @ List.map_filter (mClient s) (t # ds)"
    by auto
  have s': "s' = updateSoonestTime None (expire_loop (clk s) (Some t, ?p))"
    using assms(2,4) pop(2) by (simp add: MsgTimerExpire_proc_def)
  have "tree s' \<noteq> Leaf \<longrightarrow> polled s' \<and> armed s' = map_option mFutureTime (getSoonestTimer s')"
    unfolding s' by (auto simp: updateSoonestTime_def getSoonestTimer_def heap_peek_def Let_def)
  moreover have "items (tree s) = add_mset t (items tr)" using pop(3,4) by simp
  moreover have "getSoonestTimer s = Some t"
    using assms(3) pop(1) by (simp add: getSoonestTimer_def heap_peek_def)
  ultimately show ?thesis
    using ds by (intro exI [of _ t] exI [of _ ds]) (simp add: s')
qed

theorem expire_pops_due_timers_witness:
  "\<exists>s s'. timer_run [Start 0 1500, Proc, Start 1 2500, Proc,
      Tick \<lparr>tv_sec = 1, tv_nsec = 600000000\<rparr>, Fire, RemovePoll, Post] timers_init = Some s \<and>
    timer_exec Proc s = Some s' \<and> callbacks s' = [0] \<and>
    (\<forall>d\<in>#items (tree s'). ts_less (clk s) (mFutureTime d))"
proof -
  have "\<exists>s s'. timer_run [Start 0 1500, Proc, Start 1 2500, Proc,
      Tick \<lparr>tv_sec = 1, tv_nsec = 600000000\<rparr>, Fire, RemovePoll, Post] timers_init = Some s \<and>
    msgs s = [MsgTimerExpire] \<and> tree s \<noteq> Leaf \<and> timer_exec Proc s = Some s' \<and> callbacks s' = [0]"
    by (simp add: timer_eval outRanks_def delegate_ranks_def to_int_def node_pop.simps(2) timer_of_def)
  then obtain s s' where s: "timer_run [Start 0 1500, Proc, Start 1 2500, Proc,
      Tick \<lparr>tv_sec = 1, tv_nsec = 600000000\<rparr>, Fire, RemovePoll, Post] timers_init = Some s"
    "msgs s = [MsgTimerExpire]" "tree s \<noteq> Leaf" "timer_exec Proc s = Some s'" "callbacks s' = [0]"
    by blast
  from expire_pops_due_timers [OF run_reachable [OF s(1) timers_start] s(2-4)] s show ?thesis by blast
qed

text \<open>
  \<open>LocTimer::start\<close> computes a deadline that is exactly the timeout after
  now, normalised (nanoseconds below 10^9) and within the range in which the 32-bit
  \<open>ranks\<close> orders deadlines by time.\<close>

theorem start_deadline_exact:
  assumes "clk_ok now" "ms < 2 ^ 32" "ts_ok u"
  shows "ts_ok (start_deadline now ms) \<and>
    tv_sec (start_deadline now ms) * 1000000000 + tv_nsec (start_deadline now ms) =
      tv_sec now * 1000000000 + tv_nsec now + int ms * 1000000 \<and>
    (outRanks delegate_ranks \<lparr>tm_id = i, mFutureTime = start_deadline now ms\<rparr>
       \<lparr>tm_id = j, mFutureTime = u\<rparr> \<longleftrightarrow> ts_less (start_deadline now ms) u)"
  using start_deadline_ok [OF assms(1,2)] assms(3) by (simp add: outRanks_deadline)

theorem start_deadline_exact_witness:
  "tv_sec (start_deadline \<lparr>tv_sec = 7, tv_nsec = 999000000\<rparr> 1001) * 1000000000 +
    tv_nsec (start_deadline \<lparr>tv_sec = 7, tv_nsec = 999000000\<rparr> 1001) = 9000000000"
  using start_deadline_exact [of "\<lparr>tv_sec = 7, tv_nsec = 999000000\<rparr>" 1001 "\<lparr>tv_sec = 7, tv_nsec = 999000000\<rparr>"]
  by (simp add: clk_ok_def ts_ok_def)

text \<open>
  A timer can be called back long before its deadline. The expiration message of a
  stopped timer pops the top of the container unconditionally: here client 0 restarts its
  timer for a second just as the first one fires, and is called back at once.\<close>

theorem timer_expires_early:
  "\<exists>s s' d. timers_reachable s \<and> mTimer s 0 = Some d \<and>
    mFutureTime d = \<lparr>tv_sec = 1, tv_nsec = 1000000\<rparr> \<and> clk s = \<lparr>tv_sec = 0, tv_nsec = 1000000\<rparr> \<and>
    timer_exec Proc s = Some s' \<and> callbacks s = [] \<and> callbacks s' = [0]"
proof -
  have "\<exists>s s' d. timer_run [Start 0 1, Proc, Tick \<lparr>tv_sec = 0, tv_nsec = 1000000\<rparr>, Fire,
      Stop 0, Start 0 1000, RemovePoll, Post, Proc, Proc] timers_init = Some s \<and>
    mTimer s 0 = Some d \<and> mFutureTime d = \<lparr>tv_sec = 1, tv_nsec = 1000000\<rparr> \<and>
    clk s = \<lparr>tv_sec = 0, tv_nsec = 1000000\<rparr> \<and>
    timer_exec Proc s = Some s' \<and> callbacks s = [] \<and> callbacks s' = [0]"
    by (simp add: timer_eval outRanks_def delegate_ranks_def to_int_def node_pop.simps(2) timer_of_def)
  then show ?thesis using run_reachable timers_start by blast
qed

text \<open>
  Stopping the only timer never disarms the kernel timer: the removal reports an
  update only through a NULL previous top, which then equals the NULL current top. Whatever
  the deadline, the kernel timer stays armed and polled for a timer that was deleted.\<close>

theorem last_timer_stays_armed:
  assumes "tree s = Node 1 Leaf Leaf t"
  shows "tree (MsgTimerRemove_proc t s) = Leaf \<and> armed (MsgTimerRemove_proc t s) = armed s \<and>
    polled (MsgTimerRemove_proc t s) = polled s"
  using assms
  by (simp add: MsgTimerRemove_proc_def heap_remove_def node_pop.simps(2) updateSoonestTime_def
      getSoonestTimer_def heap_peek_def Let_def)

theorem last_timer_stays_armed_witness:
  "\<exists>s. timer_run [Start 0 1500, Proc, Stop 0] timers_init = Some s \<and>
    armed (MsgTimerRemove_proc (mData (tree s)) s) = Some \<lparr>tv_sec = 1, tv_nsec = 500000000\<rparr>"
proof -
  obtain s t where s: "timer_run [Start 0 1500, Proc, Stop 0] timers_init = Some s"
    "tree s = Node 1 Leaf Leaf t" "armed s = Some \<lparr>tv_sec = 1, tv_nsec = 500000000\<rparr>"
    by (simp add: timer_eval)
  from last_timer_stays_armed [OF s(2)] s show ?thesis by simp
qed

end
