(* ===== verification/Agps.thy ===== *)
theory Agps
  imports Prelude "HOL-Library.Word"
begin

text \<open>
  The AGPS data-call state machines of \<open>src/gps/gnss/Agps.cpp\<close> and \<open>Agps.h\<close>.
  An \<open>agps_sm\<close> is an \<open>AgpsStateMachine\<close>: its subscriber list, its state, the
  current subscriber and the APN of the data call. Calls out of the component (ATL status
  callbacks to the modem side, data connection requests to the framework) are appended to
  \<open>out\<close>, a ghost field.

  \<open>mCurrentSubscriber\<close> is a raw pointer: to a subscriber on the stack of
  \<open>requestATL\<close>, or to an element of the list, given by its position. Deleting through
  the second kind frees the object that the comparison of \<open>deleteSubscriber\<close> keeps
  reading; the handle that such a read of freed storage yields is the parameter \<open>freed\<close>.
\<close>

unbundle bit_operations_syntax

datatype agps_state = RELEASED | PENDING | ACQUIRED | RELEASING

datatype agps_event =
  EVENT_SUBSCRIBE | EVENT_UNSUBSCRIBE | EVENT_GRANTED | EVENT_RELEASED | EVENT_DENIED

datatype notification_type = FOR_ALL_SUBSCRIBERS | FOR_INACTIVE_SUBSCRIBERS | FOR_ACTIVE_SUBSCRIBERS

record agps_subscriber =
  mConnHandle :: int
  mWaitForCloseComplete :: bool
  mIsInactive :: bool
  mSubApnTypeMask :: "32 word"

datatype sub_ptr = OnStack agps_subscriber | InList nat

datatype agps_out =
    AtlOpenStatus int bool "string option" nat int int "32 word"
  | AtlCloseStatus int bool
  | DataConn int "32 word" bool

record agps_sm =
  mSubscriberList :: "agps_subscriber list"
  mCurrentSubscriber :: "sub_ptr option"
  mState :: agps_state
  mAgpsType :: int
  mApnTypeMask :: "32 word"
  mAPN :: "string option"
  mAPNLen :: nat
  mBearer :: int
  out :: "agps_out list"

abbreviation (input) LOC_AGPS_TYPE_INVALID :: int where "LOC_AGPS_TYPE_INVALID \<equiv> - 1"
abbreviation (input) LOC_AGPS_TYPE_SUPL :: int where "LOC_AGPS_TYPE_SUPL \<equiv> 1"
abbreviation (input) LOC_AGPS_TYPE_WWAN_ANY :: int where "LOC_AGPS_TYPE_WWAN_ANY \<equiv> 3"
abbreviation (input) LOC_AGPS_TYPE_SUPL_ES :: int where "LOC_AGPS_TYPE_SUPL_ES \<equiv> 5"
abbreviation (input) APN_MASK_SUPL :: "32 word" where "APN_MASK_SUPL \<equiv> 0x10"
abbreviation (input) APN_MASK_EMERGENCY :: "32 word" where "APN_MASK_EMERGENCY \<equiv> 0x200"
abbreviation (input) MAX_APN_LEN :: nat where "MAX_APN_LEN \<equiv> 100"

section \<open>Subscribers\<close>

definition equals :: "agps_subscriber \<Rightarrow> agps_subscriber \<Rightarrow> bool" where
  "equals a b \<longleftrightarrow> mConnHandle a = mConnHandle b"

definition deref :: "sub_ptr \<Rightarrow> agps_sm \<Rightarrow> agps_subscriber" where
  "deref p sm = (case p of OnStack x \<Rightarrow> x | InList i \<Rightarrow> mSubscriberList sm ! i)"

definition set_inactive :: "sub_ptr \<Rightarrow> agps_sm \<Rightarrow> agps_sm" where
  "set_inactive p sm =
     (case p of
        OnStack x \<Rightarrow> sm\<lparr>mCurrentSubscriber := Some (OnStack (x\<lparr>mIsInactive := True\<rparr>))\<rparr>
      | InList i \<Rightarrow> sm\<lparr>mSubscriberList := (mSubscriberList sm)[i := (mSubscriberList sm ! i)\<lparr>mIsInactive := True\<rparr>]\<rparr>)"

definition addSubscriber :: "agps_subscriber \<Rightarrow> agps_sm \<Rightarrow> agps_sm" where
  "addSubscriber x sm =
     (if list_ex (\<lambda>y. equals y x) (mSubscriberList sm) then sm
      else sm\<lparr>mSubscriberList := mSubscriberList sm @ [x]\<rparr>)"

text \<open>The loop of \<open>deleteSubscriber\<close>: \<open>h\<close> is what \<open>subscriberToDelete->mConnHandle\<close>
  reads as, \<open>at\<close> the distance to the element that \<open>subscriberToDelete\<close> points to.\<close>

fun delete_loop :: "int \<Rightarrow> int \<Rightarrow> nat option \<Rightarrow> agps_subscriber list \<Rightarrow> agps_subscriber list" where
  "delete_loop freed h at [] = []"
| "delete_loop freed h at (x # xs) =
     (let at' = (case at of Some (Suc i) \<Rightarrow> Some i | _ \<Rightarrow> None) in
      if mConnHandle x = h
      then delete_loop freed (if at = Some 0 then freed else h) at' xs
      else x # delete_loop freed h at' xs)"

definition deleteSubscriber :: "int \<Rightarrow> sub_ptr \<Rightarrow> agps_sm \<Rightarrow> agps_sm" where
  "deleteSubscriber freed p sm =
     sm\<lparr>mSubscriberList := delete_loop freed (mConnHandle (deref p sm))
         (case p of OnStack _ \<Rightarrow> None | InList i \<Rightarrow> Some i) (mSubscriberList sm)\<rparr>"

definition anyActiveSubscribers :: "agps_sm \<Rightarrow> bool" where
  "anyActiveSubscribers sm \<longleftrightarrow> list_ex (\<lambda>x. \<not> mIsInactive x) (mSubscriberList sm)"

definition getSubscriber :: "int \<Rightarrow> agps_sm \<Rightarrow> sub_ptr option" where
  "getSubscriber h sm =
     (let n = length (takeWhile (\<lambda>x. mConnHandle x \<noteq> h) (mSubscriberList sm))
      in if n < length (mSubscriberList sm) then Some (InList n) else None)"

definition getFirstSubscriber :: "bool \<Rightarrow> agps_sm \<Rightarrow> agps_subscriber option" where
  "getFirstSubscriber inactive sm = find (\<lambda>x. mIsInactive x = inactive) (mSubscriberList sm)"

definition dropAllSubscribers :: "agps_sm \<Rightarrow> agps_sm" where
  "dropAllSubscribers sm = sm\<lparr>mSubscriberList := []\<rparr>"

definition setAPN :: "string option \<Rightarrow> nat \<Rightarrow> agps_sm \<Rightarrow> agps_sm" where
  "setAPN apn len sm =
     (case apn of
        None \<Rightarrow> sm\<lparr>mAPN := None, mAPNLen := 0\<rparr>
      | Some a \<Rightarrow>
          if len = 0 \<or> len > MAX_APN_LEN \<or> length a \<noteq> len then sm\<lparr>mAPN := None, mAPNLen := 0\<rparr>
          else sm\<lparr>mAPN := Some a, mAPNLen := len\<rparr>)"

section \<open>The state machine\<close>

definition transitionState :: "agps_state \<Rightarrow> agps_sm \<Rightarrow> agps_sm" where
  "transitionState st sm = sm\<lparr>mState := st\<rparr>"

definition emit :: "agps_out \<Rightarrow> agps_sm \<Rightarrow> agps_sm" where
  "emit e sm = sm\<lparr>out := out sm @ [e]\<rparr>"

definition requestOrReleaseDataConn :: "bool \<Rightarrow> agps_sm \<Rightarrow> agps_sm" where
  "requestOrReleaseDataConn request sm = emit (DataConn (mAgpsType sm) (mApnTypeMask sm) request) sm"

definition notify_out :: "agps_event \<Rightarrow> int \<Rightarrow> agps_sm \<Rightarrow> agps_out list" where
  "notify_out event h sm =
     (case event of
        EVENT_GRANTED \<Rightarrow> [AtlOpenStatus h True (mAPN sm) (mAPNLen sm) (mBearer sm) (mAgpsType sm) (mApnTypeMask sm)]
      | EVENT_DENIED \<Rightarrow> [AtlOpenStatus h False (mAPN sm) (mAPNLen sm) (mBearer sm) (mAgpsType sm) (mApnTypeMask sm)]
      | EVENT_UNSUBSCRIBE \<Rightarrow> [AtlCloseStatus h True]
      | EVENT_RELEASED \<Rightarrow> [AtlCloseStatus h True]
      | EVENT_SUBSCRIBE \<Rightarrow> [])"

definition notifyEventToSubscriber :: "int \<Rightarrow> agps_event \<Rightarrow> sub_ptr \<Rightarrow> bool \<Rightarrow> agps_sm \<Rightarrow> agps_sm" where
  "notifyEventToSubscriber freed event p del sm =
     (let sm1 = sm\<lparr>out := out sm @ notify_out event (mConnHandle (deref p sm)) sm\<rparr>
      in if del then deleteSubscriber freed p sm1 else sm1)"

definition notification_for :: "notification_type \<Rightarrow> agps_subscriber \<Rightarrow> bool" where
  "notification_for ty x \<longleftrightarrow> ty = FOR_ALL_SUBSCRIBERS \<or>
     (ty = FOR_INACTIVE_SUBSCRIBERS \<and> mIsInactive x) \<or> (ty = FOR_ACTIVE_SUBSCRIBERS \<and> \<not> mIsInactive x)"

text \<open>The loop of \<open>notifyAllSubscribers\<close>; \<open>kept\<close> are the elements already passed
  and not erased, \<open>rest\<close> those from the iterator on.\<close>

fun notify_loop ::
  "agps_event \<Rightarrow> bool \<Rightarrow> notification_type \<Rightarrow> agps_subscriber list \<Rightarrow> agps_subscriber list \<Rightarrow> agps_sm \<Rightarrow> agps_sm"
where
  "notify_loop event del ty kept [] sm = sm\<lparr>mSubscriberList := kept\<rparr>"
| "notify_loop event del ty kept (x # rest) sm =
     (if notification_for ty x
      then let sm1 = sm\<lparr>out := out sm @ notify_out event (mConnHandle x) sm\<rparr>
           in notify_loop event del ty (if del then kept else kept @ [x]) rest sm1
      else notify_loop event del ty (kept @ [x]) rest sm)"

definition notifyAllSubscribers :: "agps_event \<Rightarrow> bool \<Rightarrow> notification_type \<Rightarrow> agps_sm \<Rightarrow> agps_sm" where
  "notifyAllSubscribers event del ty sm = notify_loop event del ty [] (mSubscriberList sm) sm"

definition processAgpsEventSubscribe :: "int \<Rightarrow> agps_sm \<Rightarrow> agps_sm option" where
  "processAgpsEventSubscribe freed sm =
     (case mCurrentSubscriber sm of
        None \<Rightarrow> None
      | Some cur \<Rightarrow>
          Some (case mState sm of
             RELEASED \<Rightarrow> transitionState PENDING
               (requestOrReleaseDataConn True (addSubscriber (deref cur sm) sm))
           | PENDING \<Rightarrow> addSubscriber (deref cur sm) sm
           | ACQUIRED \<Rightarrow>
               (let sm1 = notifyEventToSubscriber freed EVENT_GRANTED cur False sm
                in addSubscriber (deref cur sm1) sm1)
           | RELEASING \<Rightarrow> addSubscriber (deref cur sm) sm))"

definition unsubscribe_current :: "int \<Rightarrow> sub_ptr \<Rightarrow> agps_sm \<Rightarrow> agps_sm" where
  "unsubscribe_current freed cur sm =
     (if mWaitForCloseComplete (deref cur sm) then set_inactive cur sm
      else notifyEventToSubscriber freed EVENT_UNSUBSCRIBE cur True sm)"

definition processAgpsEventUnsubscribe :: "int \<Rightarrow> agps_sm \<Rightarrow> agps_sm option" where
  "processAgpsEventUnsubscribe freed sm =
     (case mCurrentSubscriber sm of
        None \<Rightarrow> None
      | Some cur \<Rightarrow>
          Some (if mState sm = RELEASED then notifyEventToSubscriber freed EVENT_UNSUBSCRIBE cur False sm
            else if mState sm = RELEASING then
              (let sm1 = unsubscribe_current freed cur sm
               in if mSubscriberList sm1 = [] then transitionState RELEASED sm1 else sm1)
            else
              (let sm1 = unsubscribe_current freed cur sm
               in if mSubscriberList sm1 = []
                  then requestOrReleaseDataConn False (transitionState RELEASED sm1)
                  else if \<not> anyActiveSubscribers sm1
                  then requestOrReleaseDataConn False (transitionState RELEASING sm1)
                  else sm1)))"

definition processAgpsEventGranted :: "agps_sm \<Rightarrow> agps_sm" where
  "processAgpsEventGranted sm =
     (if mState sm = PENDING
      then notifyAllSubscribers EVENT_GRANTED False FOR_ACTIVE_SUBSCRIBERS (transitionState ACQUIRED sm)
      else sm)"

text \<open>The branch that RELEASED and DENIED share in state RELEASING.\<close>

definition close_complete :: "agps_sm \<Rightarrow> agps_sm" where
  "close_complete sm =
     (let sm1 = notifyAllSubscribers EVENT_RELEASED True FOR_INACTIVE_SUBSCRIBERS sm
      in if anyActiveSubscribers sm1
         then requestOrReleaseDataConn True (transitionState PENDING sm1)
         else transitionState RELEASED sm1)"

definition processAgpsEventReleased :: "agps_sm \<Rightarrow> agps_sm" where
  "processAgpsEventReleased sm =
     (case mState sm of
        RELEASED \<Rightarrow> sm
      | ACQUIRED \<Rightarrow> notifyAllSubscribers EVENT_RELEASED True FOR_ALL_SUBSCRIBERS (transitionState RELEASED sm)
      | RELEASING \<Rightarrow> close_complete sm
      | PENDING \<Rightarrow> sm)"

definition processAgpsEventDenied :: "agps_sm \<Rightarrow> agps_sm" where
  "processAgpsEventDenied sm =
     (case mState sm of
        RELEASED \<Rightarrow> sm
      | ACQUIRED \<Rightarrow> sm
      | RELEASING \<Rightarrow> close_complete sm
      | PENDING \<Rightarrow> notifyAllSubscribers EVENT_DENIED True FOR_ALL_SUBSCRIBERS (transitionState RELEASED sm))"

definition processAgpsEvent :: "int \<Rightarrow> agps_event \<Rightarrow> agps_sm \<Rightarrow> agps_sm option" where
  "processAgpsEvent freed event sm =
     (case event of
        EVENT_SUBSCRIBE \<Rightarrow> processAgpsEventSubscribe freed sm
      | EVENT_UNSUBSCRIBE \<Rightarrow> processAgpsEventUnsubscribe freed sm
      | EVENT_GRANTED \<Rightarrow> Some (processAgpsEventGranted sm)
      | EVENT_RELEASED \<Rightarrow> Some (processAgpsEventReleased sm)
      | EVENT_DENIED \<Rightarrow> Some (processAgpsEventDenied sm))"

section \<open>The manager\<close>

datatype nif = AGNSS | INTERNET

record agps_manager =
  mAgnssNif :: "agps_sm option"
  mInternetNif :: "agps_sm option"
  direct_out :: "agps_out list"

definition new_sm :: "int \<Rightarrow> agps_sm" where
  "new_sm ty = \<lparr>mSubscriberList = [], mCurrentSubscriber = None, mState = RELEASED, mAgpsType = ty,
     mApnTypeMask = 0, mAPN = None, mAPNLen = 0, mBearer = 0, out = []\<rparr>"

definition createAgpsStateMachines :: "32 word \<Rightarrow> 32 word \<Rightarrow> agps_manager \<Rightarrow> agps_manager" where
  "createAgpsStateMachines capabilities atlType m =
     (let agpsCapable = (capabilities AND 4 \<noteq> 0 \<or> capabilities AND 2 \<noteq> 0);
          m1 = (if mInternetNif m = None \<and> atlType AND 4 \<noteq> 0
                then m\<lparr>mInternetNif := Some (new_sm LOC_AGPS_TYPE_WWAN_ANY)\<rparr> else m)
      in if agpsCapable \<and> mAgnssNif m1 = None \<and> atlType AND 1 \<noteq> 0 \<and> atlType AND 2 \<noteq> 0
         then m1\<lparr>mAgnssNif := Some (new_sm LOC_AGPS_TYPE_SUPL)\<rparr> else m1)"

definition nif_of :: "int \<Rightarrow> nif" where
  "nif_of agpsType =
     (if agpsType = LOC_AGPS_TYPE_INVALID \<or> agpsType = LOC_AGPS_TYPE_SUPL \<or>
         agpsType = LOC_AGPS_TYPE_SUPL_ES then AGNSS else INTERNET)"

definition sm_at :: "nif \<Rightarrow> agps_manager \<Rightarrow> agps_sm option" where
  "sm_at n m = (case n of AGNSS \<Rightarrow> mAgnssNif m | INTERNET \<Rightarrow> mInternetNif m)"

definition put_sm :: "nif \<Rightarrow> agps_sm \<Rightarrow> agps_manager \<Rightarrow> agps_manager" where
  "put_sm n sm m = (case n of AGNSS \<Rightarrow> m\<lparr>mAgnssNif := Some sm\<rparr> | INTERNET \<Rightarrow> m\<lparr>mInternetNif := Some sm\<rparr>)"

definition getAgpsStateMachine :: "int \<Rightarrow> agps_manager \<Rightarrow> agps_sm option" where
  "getAgpsStateMachine agpsType m = sm_at (nif_of agpsType) m"

definition emergency_downgrade :: "bool \<Rightarrow> int \<Rightarrow> 32 word \<Rightarrow> int \<times> 32 word" where
  "emergency_downgrade useEmergencyPdn agpsType apnMask =
     (if \<not> useEmergencyPdn \<and> agpsType = LOC_AGPS_TYPE_SUPL_ES
      then (LOC_AGPS_TYPE_SUPL, (apnMask AND NOT APN_MASK_EMERGENCY) OR APN_MASK_SUPL)
      else (agpsType, apnMask))"

definition requestATL :: "bool \<Rightarrow> int \<Rightarrow> int \<Rightarrow> int \<Rightarrow> 32 word \<Rightarrow> agps_manager \<Rightarrow> agps_manager option" where
  "requestATL useEmergencyPdn freed connHandle agpsType apnTypeMask m =
     (case emergency_downgrade useEmergencyPdn agpsType apnTypeMask of (ty, apnMask) \<Rightarrow>
        case getAgpsStateMachine ty m of
          None \<Rightarrow> Some (m\<lparr>direct_out := direct_out m @ [AtlOpenStatus connHandle False None 0 0 ty apnMask]\<rparr>)
        | Some sm \<Rightarrow>
            (let subscriber = \<lparr>mConnHandle = connHandle, mWaitForCloseComplete = False,
                   mIsInactive = False, mSubApnTypeMask = apnMask\<rparr>;
                 sm1 = sm\<lparr>mAgpsType := ty, mApnTypeMask := apnMask, mCurrentSubscriber := Some (OnStack subscriber)\<rparr>
             in do { sm2 \<leftarrow> processAgpsEvent freed EVENT_SUBSCRIBE sm1; Some (put_sm (nif_of ty) sm2 m) }))"

definition releaseATL :: "int \<Rightarrow> int \<Rightarrow> agps_manager \<Rightarrow> agps_manager option" where
  "releaseATL freed connHandle m =
     (let unsub = (\<lambda>n sm p. do {
            sm1 \<leftarrow> processAgpsEvent freed EVENT_UNSUBSCRIBE (sm\<lparr>mCurrentSubscriber := Some p\<rparr>);
            Some (put_sm n sm1 m) });
          found = (\<lambda>n. do { sm \<leftarrow> sm_at n m; p \<leftarrow> getSubscriber connHandle sm; Some (sm, p) })
      in case found AGNSS of
           Some (sm, p) \<Rightarrow> unsub AGNSS sm p
         | None \<Rightarrow> (case found INTERNET of
              Some (sm, p) \<Rightarrow> unsub INTERNET sm p
            | None \<Rightarrow> Some m))"

text \<open>The reports dereference the state machine without a test.\<close>

definition reportAtlOpenSuccess :: "int \<Rightarrow> string option \<Rightarrow> nat \<Rightarrow> int \<Rightarrow> agps_manager \<Rightarrow> agps_manager option" where
  "reportAtlOpenSuccess agpsType apnName apnLen bearer m =
     do { sm \<leftarrow> getAgpsStateMachine agpsType m;
          sm1 \<leftarrow> processAgpsEvent 0 EVENT_GRANTED (setAPN apnName apnLen (sm\<lparr>mBearer := bearer\<rparr>));
          Some (put_sm (nif_of agpsType) sm1 m) }"

definition reportAtlOpenFailed :: "int \<Rightarrow> agps_manager \<Rightarrow> agps_manager option" where
  "reportAtlOpenFailed agpsType m =
     do { sm \<leftarrow> getAgpsStateMachine agpsType m;
          sm1 \<leftarrow> processAgpsEvent 0 EVENT_DENIED sm;
          Some (put_sm (nif_of agpsType) sm1 m) }"

definition reportAtlClosed :: "int \<Rightarrow> agps_manager \<Rightarrow> agps_manager option" where
  "reportAtlClosed agpsType m =
     do { sm \<leftarrow> getAgpsStateMachine agpsType m;
          sm1 \<leftarrow> processAgpsEvent 0 EVENT_RELEASED sm;
          Some (put_sm (nif_of agpsType) sm1 m) }"

definition handleModemSSR :: "agps_manager \<Rightarrow> agps_manager" where
  "handleModemSSR m =
     (let m1 = (case mAgnssNif m of None \<Rightarrow> m | Some sm \<Rightarrow> m\<lparr>mAgnssNif := Some (dropAllSubscribers sm)\<rparr>)
      in case mInternetNif m1 of None \<Rightarrow> m1 | Some sm \<Rightarrow> m1\<lparr>mInternetNif := Some (dropAllSubscribers sm)\<rparr>)"

section \<open>Reachable managers\<close>

inductive agps_step :: "agps_manager \<Rightarrow> agps_manager \<Rightarrow> bool" where
  step_create: "agps_step m (createAgpsStateMachines caps atl m)"
| step_request: "requestATL emergency freed h ty msk m = Some m' \<Longrightarrow> agps_step m m'"
| step_release: "releaseATL freed h m = Some m' \<Longrightarrow> agps_step m m'"
| step_opened: "reportAtlOpenSuccess ty apn len bearer m = Some m' \<Longrightarrow> agps_step m m'"
| step_failed: "reportAtlOpenFailed ty m = Some m' \<Longrightarrow> agps_step m m'"
| step_closed: "reportAtlClosed ty m = Some m' \<Longrightarrow> agps_step m m'"

text \<open>\<open>ssr\<close> records whether the modem has been restarted.\<close>

inductive agps_reachable :: "bool \<Rightarrow> agps_manager \<Rightarrow> bool" where
  agps_start: "agps_reachable False \<lparr>mAgnssNif = None, mInternetNif = None, direct_out = []\<rparr>"
| agps_next: "agps_reachable ssr m \<Longrightarrow> agps_step m m' \<Longrightarrow> agps_reachable ssr m'"
| agps_ssr: "agps_reachable ssr m \<Longrightarrow> agps_reachable True (handleModemSSR m)"

definition sm_inv :: "bool \<Rightarrow> agps_sm \<Rightarrow> bool" where
  "sm_inv ssr sm \<longleftrightarrow> distinct (map mConnHandle (mSubscriberList sm)) \<and>
     (\<forall>x\<in>set (mSubscriberList sm). \<not> mIsInactive x \<and> \<not> mWaitForCloseComplete x) \<and>
     mState sm \<noteq> RELEASING \<and> (mState sm = RELEASED \<longrightarrow> mSubscriberList sm = []) \<and>
     (\<not> ssr \<longrightarrow> mSubscriberList sm = [] \<longrightarrow> mState sm = RELEASED)"

lemmas sm_defs = transitionState_def emit_def requestOrReleaseDataConn_def
  notifyEventToSubscriber_def notifyAllSubscribers_def deleteSubscriber_def Let_def

lemma listed_iff: "list_ex (\<lambda>y. equals y x) xs \<longleftrightarrow> mConnHandle x \<in> mConnHandle ` set xs"
  by (induction xs) (auto simp: equals_def)

lemma delete_loop_subset: "set (delete_loop freed h at xs) \<subseteq> set xs"
  by (induction xs arbitrary: h at) (auto simp: Let_def)

lemma delete_loop_distinct:
  "distinct (map mConnHandle xs) \<Longrightarrow> distinct (map mConnHandle (delete_loop freed h at xs))"
proof (induction xs arbitrary: h at)
  case (Cons x xs)
  then have "mConnHandle x \<notin> mConnHandle ` set (delete_loop freed h' at' xs)" for h' at'
    using delete_loop_subset [of freed h' at' xs] by auto
  with Cons show ?case by (simp add: Let_def)
qed simp

lemma notify_loop_eq:
  "notify_loop event del ty kept xs sm = sm\<lparr>mSubscriberList :=
       kept @ (if del then filter (\<lambda>x. \<not> notification_for ty x) xs else xs),
     out := out sm @ concat (map (\<lambda>x. notify_out event (mConnHandle x) sm) (filter (notification_for ty) xs))\<rparr>"
proof (induction xs arbitrary: kept sm)
  case (Cons x xs)
  have "notify_out event h (sm\<lparr>out := y\<rparr>) = notify_out event h sm" for h y
    by (simp add: notify_out_def split: agps_event.split)
  with Cons show ?case by (simp add: Let_def)
qed simp

lemma filter_active:
  assumes "\<forall>x\<in>set xs. \<not> mIsInactive x"
  shows "filter (notification_for FOR_ALL_SUBSCRIBERS) xs = xs"
    "filter (notification_for FOR_ACTIVE_SUBSCRIBERS) xs = xs"
    "filter (\<lambda>x. \<not> notification_for FOR_ALL_SUBSCRIBERS x) xs = []"
  using assms by (auto simp: notification_for_def filter_eq_self_iff filter_empty_conv)

lemma getSubscriber_SomeD:
  assumes "getSubscriber h sm = Some p"
  obtains i where "p = InList i" "i < length (mSubscriberList sm)"
    "mConnHandle (mSubscriberList sm ! i) = h"
    "\<forall>j<i. mConnHandle (mSubscriberList sm ! j) \<noteq> h"
proof -
  define i where "i = length (takeWhile (\<lambda>x. mConnHandle x \<noteq> h) (mSubscriberList sm))"
  have i: "i < length (mSubscriberList sm)" "p = InList i"
    using assms by (auto simp: getSubscriber_def i_def Let_def split: if_splits)
  moreover have "mConnHandle (mSubscriberList sm ! i) = h"
    using nth_length_takeWhile [of "\<lambda>x. mConnHandle x \<noteq> h" "mSubscriberList sm"] i(1)
    by (simp add: i_def)
  moreover have "\<forall>j<i. mConnHandle (mSubscriberList sm ! j) \<noteq> h"
  proof (intro allI impI)
    fix j
    assume j: "j < i"
    then have "mSubscriberList sm ! j = takeWhile (\<lambda>x. mConnHandle x \<noteq> h) (mSubscriberList sm) ! j"
      by (simp add: i_def takeWhile_nth)
    also have "\<dots> \<in> set (takeWhile (\<lambda>x. mConnHandle x \<noteq> h) (mSubscriberList sm))"
      using j by (simp add: i_def)
    finally show "mConnHandle (mSubscriberList sm ! j) \<noteq> h" using set_takeWhileD by fastforce
  qed
  ultimately show ?thesis using that by blast
qed

lemma getSubscriber_None: "getSubscriber h sm = None \<longleftrightarrow> h \<notin> mConnHandle ` set (mSubscriberList sm)"
proof -
  have "length (takeWhile (\<lambda>x. mConnHandle x \<noteq> h) xs) < length xs \<longleftrightarrow> h \<in> mConnHandle ` set xs"
    for xs :: "agps_subscriber list"
    by (induction xs) auto
  then show ?thesis unfolding getSubscriber_def Let_def by (simp only: split: if_split) simp
qed

section \<open>The invariant\<close>

lemma subscribe_inv [wf_intros]:
  assumes "sm_inv ssr sm" "\<not> mIsInactive x" "\<not> mWaitForCloseComplete x"
    "processAgpsEvent freed EVENT_SUBSCRIBE (sm\<lparr>mAgpsType := ty, mApnTypeMask := msk,
      mCurrentSubscriber := Some (OnStack x)\<rparr>) = Some sm'"
  shows "sm_inv ssr sm'"
  using assms
  by (cases "mState sm")
    (auto simp: sm_inv_def processAgpsEvent_def processAgpsEventSubscribe_def addSubscriber_def
      deref_def sm_defs listed_iff split: if_splits)

lemma unsubscribe_inv [wf_intros]:
  assumes "sm_inv ssr sm" "getSubscriber h sm = Some p"
    "processAgpsEvent freed EVENT_UNSUBSCRIBE (sm\<lparr>mCurrentSubscriber := Some p\<rparr>) = Some sm'"
  shows "sm_inv ssr sm'"
proof -
  obtain i where i: "p = InList i" "i < length (mSubscriberList sm)"
    using assms(2) by (rule getSubscriber_SomeD)
  let ?x = "mSubscriberList sm ! i" and ?xs = "mSubscriberList sm"
  have act: "\<not> mWaitForCloseComplete ?x" "?xs \<noteq> []" "mState sm \<noteq> RELEASING" "mState sm \<noteq> RELEASED"
    using assms(1) i(2) by (auto simp: sm_inv_def)
  let ?ys = "delete_loop freed (mConnHandle ?x) (Some i) ?xs"
  have ys: "distinct (map mConnHandle ?ys)" "\<forall>x\<in>set ?ys. \<not> mIsInactive x \<and> \<not> mWaitForCloseComplete x"
    using assms(1) delete_loop_distinct delete_loop_subset [of freed "mConnHandle ?x" "Some i" ?xs]
    unfolding sm_inv_def by blast+
  then have "?ys \<noteq> [] \<Longrightarrow> list_ex (\<lambda>x. \<not> mIsInactive x) ?ys"
    by (cases ?ys) auto
  with assms(1,3) i act ys show ?thesis
    by (auto simp: processAgpsEvent_def processAgpsEventUnsubscribe_def unsubscribe_current_def
        deref_def sm_defs anyActiveSubscribers_def sm_inv_def split: if_splits)
qed

lemma report_inv [wf_intros]:
  assumes "sm_inv ssr sm" "ev \<in> {EVENT_GRANTED, EVENT_RELEASED, EVENT_DENIED}"
    "processAgpsEvent freed ev sm = Some sm'"
  shows "sm_inv ssr sm'"
proof -
  have f: "filter (notification_for FOR_ALL_SUBSCRIBERS) (mSubscriberList sm) = mSubscriberList sm"
    "filter (\<lambda>x. \<not> notification_for FOR_ALL_SUBSCRIBERS x) (mSubscriberList sm) = []"
    using assms(1) filter_active by (auto simp: sm_inv_def)
  from assms show ?thesis
    by (cases "mState sm")
      (auto simp: sm_inv_def processAgpsEvent_def processAgpsEventGranted_def
        processAgpsEventReleased_def processAgpsEventDenied_def sm_defs notify_loop_eq f)
qed

definition m_inv :: "bool \<Rightarrow> agps_manager \<Rightarrow> bool" where
  "m_inv ssr m \<longleftrightarrow> (\<forall>n sm. sm_at n m = Some sm \<longrightarrow> sm_inv ssr sm)"

lemma sm_at_put [simp]: "sm_at k (put_sm n sm m) = (if k = n then Some sm else sm_at k m)"
  by (cases k; cases n) (simp_all add: sm_at_def put_sm_def)

lemma put_sm_inject [simp]: "put_sm n a m = put_sm n b m \<longleftrightarrow> a = b"
  by (metis sm_at_put option.inject)

lemma m_inv_put: "m_inv ssr m \<Longrightarrow> sm_inv ssr sm \<Longrightarrow> m_inv ssr (put_sm n sm m)"
  by (simp add: m_inv_def)

lemma m_invD: "m_inv ssr m \<Longrightarrow> sm_at n m = Some sm \<Longrightarrow> sm_inv ssr sm"
  by (simp add: m_inv_def)

lemma all_nif: "(\<forall>n. P n) \<longleftrightarrow> P AGNSS \<and> P INTERNET"
  by (metis nif.exhaust)

lemma m_inv_iff: "m_inv ssr m \<longleftrightarrow>
    (\<forall>sm. mAgnssNif m = Some sm \<longrightarrow> sm_inv ssr sm) \<and> (\<forall>sm. mInternetNif m = Some sm \<longrightarrow> sm_inv ssr sm)"
  by (simp add: m_inv_def all_nif sm_at_def)

lemma sm_inv_params [simp]:
  "sm_inv ssr (sm\<lparr>mBearer := b\<rparr>) = sm_inv ssr sm" "sm_inv ssr (setAPN apn len sm) = sm_inv ssr sm"
  "sm_inv ssr (new_sm ty)"
  by (auto simp: sm_inv_def setAPN_def new_sm_def dropAllSubscribers_def split: option.split)

lemma drop_inv: "sm_inv ssr sm \<Longrightarrow> sm_inv True (dropAllSubscribers sm)"
  by (simp add: sm_inv_def dropAllSubscribers_def)

lemma request_keeps:
  assumes "requestATL em freed h ty msk m = Some m'" "m_inv ssr m"
  shows "m_inv ssr m'"
proof -
  obtain ty' msk' where d: "emergency_downgrade em ty msk = (ty', msk')" by fastforce
  show ?thesis
  proof (cases "sm_at (nif_of ty') m")
    case None
    with assms d have "m' = m\<lparr>direct_out := direct_out m @ [AtlOpenStatus h False None 0 0 ty' msk']\<rparr>"
      by (simp add: requestATL_def getAgpsStateMachine_def)
    with assms(2) show ?thesis by (simp add: m_inv_def sm_at_def split: nif.splits)
  next
    case (Some sm)
    with assms(1) d obtain sm2 where sm2: "m' = put_sm (nif_of ty') sm2 m"
      "processAgpsEvent freed EVENT_SUBSCRIBE (sm\<lparr>mAgpsType := ty', mApnTypeMask := msk',
        mCurrentSubscriber := Some (OnStack \<lparr>mConnHandle = h, mWaitForCloseComplete = False,
          mIsInactive = False, mSubApnTypeMask = msk'\<rparr>)\<rparr>) = Some sm2"
      by (auto simp: requestATL_def getAgpsStateMachine_def split: Option.bind_splits)
    have "sm_inv ssr sm2"
      by (rule subscribe_inv [OF m_invD [OF assms(2) Some] _ _ sm2(2)]) simp_all
    with sm2(1) assms(2) show ?thesis by (simp add: m_inv_put)
  qed
qed

lemma release_cases:
  assumes "releaseATL freed h m = Some m'"
  obtains "m' = m" "\<And>n sm. sm_at n m = Some sm \<Longrightarrow> h \<notin> mConnHandle ` set (mSubscriberList sm)"
  | n sm p sm1 where "sm_at n m = Some sm" "getSubscriber h sm = Some p"
      "processAgpsEvent freed EVENT_UNSUBSCRIBE (sm\<lparr>mCurrentSubscriber := Some p\<rparr>) = Some sm1"
      "m' = put_sm n sm1 m"
proof -
  define found where "found n = do { sm \<leftarrow> sm_at n m; p \<leftarrow> getSubscriber h sm; Some (sm, p) }" for n
  have f: "found n = Some (sm, p) \<longleftrightarrow> sm_at n m = Some sm \<and> getSubscriber h sm = Some p" for n sm p
    by (auto simp: found_def split: Option.bind_splits)
  have none: "found n = None \<Longrightarrow> sm_at n m = Some sm \<Longrightarrow> h \<notin> mConnHandle ` set (mSubscriberList sm)" for n sm
    by (auto simp: found_def getSubscriber_None [symmetric] split: Option.bind_splits)
  consider (a) sm p where "found AGNSS = Some (sm, p)"
    | (b) sm p where "found AGNSS = None" "found INTERNET = Some (sm, p)"
    | (c) "found AGNSS = None" "found INTERNET = None" by (metis option.exhaust surj_pair)
  then show ?thesis
  proof cases
    case (a sm p)
    with assms that(2) [of AGNSS sm p] show ?thesis
      by (auto simp: releaseATL_def f found_def [symmetric] split: Option.bind_splits)
  next
    case (b sm p)
    with assms that(2) [of INTERNET sm p] show ?thesis
      by (auto simp: releaseATL_def f found_def [symmetric] split: Option.bind_splits)
  next
    case c
    with assms have "m' = m" by (simp add: releaseATL_def found_def [symmetric])
    moreover have "h \<notin> mConnHandle ` set (mSubscriberList sm)" if "sm_at n m = Some sm" for n sm
      using none [OF _ that] c by (cases n) auto
    ultimately show ?thesis using that(1) by blast
  qed
qed

lemma report_keeps:
  assumes "m_inv ssr m"
  shows "reportAtlOpenSuccess ty apn len b m = Some m' \<Longrightarrow> m_inv ssr m'"
    and "reportAtlOpenFailed ty m = Some m' \<Longrightarrow> m_inv ssr m'"
    and "reportAtlClosed ty m = Some m' \<Longrightarrow> m_inv ssr m'"
  using assms
  by (auto simp: reportAtlOpenSuccess_def reportAtlOpenFailed_def reportAtlClosed_def
      getAgpsStateMachine_def split: Option.bind_splits
      intro!: m_inv_put elim!: report_inv [rotated 2] dest: m_invD)

lemma step_keeps: "agps_step m m' \<Longrightarrow> m_inv ssr m \<Longrightarrow> m_inv ssr m'"
proof (induction rule: agps_step.induct)
  case (step_create m caps atl)
  then show ?case
    by (auto simp: m_inv_iff createAgpsStateMachines_def Let_def)
next
  case (step_release freed h m m')
  from step_release.hyps show ?case
  proof (cases rule: release_cases)
    case (2 n sm p sm1)
    have "sm_inv ssr sm1"
      by (rule unsubscribe_inv [OF m_invD [OF step_release.prems 2(1)] 2(2,3)])
    with 2(4) step_release.prems show ?thesis by (simp add: m_inv_put)
  qed (use step_release.prems in simp)
next
  case (step_request em freed h ty msk m m')
  then show ?case using request_keeps by blast
next
  case (step_opened ty apn len b m m')
  then show ?case using report_keeps(1) by blast
next
  case (step_failed ty m m')
  then show ?case using report_keeps(2) by blast
next
  case (step_closed ty m m')
  then show ?case using report_keeps(3) by blast
qed

lemma ssr_keeps: "m_inv ssr m \<Longrightarrow> m_inv True (handleModemSSR m)"
  by (auto simp: m_inv_iff handleModemSSR_def Let_def intro: drop_inv split: option.split)

lemma reachable_m_inv: "agps_reachable ssr m \<Longrightarrow> m_inv ssr m"
proof (induction rule: agps_reachable.induct)
  case agps_start
  show ?case by (simp add: m_inv_iff)
qed (use step_keeps ssr_keeps in blast)+

section \<open>Properties\<close>

text \<open>A manager with both state machines, for the witnesses.\<close>

definition agps_up :: agps_manager where
  "agps_up = createAgpsStateMachines 6 7 \<lparr>mAgnssNif = None, mInternetNif = None, direct_out = []\<rparr>"

lemma agps_up_reachable: "agps_reachable False agps_up"
  unfolding agps_up_def by (rule agps_next [OF agps_start step_create])

lemma agps_up_eq: "agps_up = \<lparr>mAgnssNif = Some (new_sm 1), mInternetNif = Some (new_sm 3), direct_out = []\<rparr>"
  by (simp add: agps_up_def createAgpsStateMachines_def Let_def)

lemmas agps_eval = requestATL_def releaseATL_def emergency_downgrade_def getAgpsStateMachine_def
  nif_of_def sm_at_def put_sm_def processAgpsEvent_def processAgpsEventSubscribe_def
  processAgpsEventUnsubscribe_def unsubscribe_current_def addSubscriber_def deref_def equals_def
  sm_defs notify_out_def getSubscriber_def anyActiveSubscribers_def new_sm_def

text \<open>
  C7. In every reachable manager, whatever freed storage reads as: subscribers have
  distinct handles and are all active; the state RELEASING is never entered; a released
  state machine has no subscribers, and unless the modem was restarted the converse holds,
  so a data connection is held or requested exactly while somebody subscribes to it.\<close>

theorem agps_connection_iff_subscribers:
  assumes "agps_reachable ssr m" "sm_at n m = Some sm"
  shows "distinct (map mConnHandle (mSubscriberList sm)) \<and>
    (\<forall>x\<in>set (mSubscriberList sm). \<not> mIsInactive x) \<and> mState sm \<noteq> RELEASING \<and>
    (mState sm = RELEASED \<longrightarrow> mSubscriberList sm = []) \<and>
    (\<not> ssr \<longrightarrow> mSubscriberList sm = [] \<longrightarrow> mState sm = RELEASED)"
  using m_invD [OF reachable_m_inv [OF assms(1)] assms(2)] by (simp add: sm_inv_def)

theorem agps_connection_iff_subscribers_witness:
  "\<exists>m sm. requestATL True 0 7 1 0x10 agps_up = Some m \<and> sm_at AGNSS m = Some sm \<and>
    mSubscriberList sm \<noteq> [] \<and> mState sm \<noteq> RELEASED"
proof -
  obtain m sm where m: "requestATL True 0 7 1 0x10 agps_up = Some m" "sm_at AGNSS m = Some sm"
    "mSubscriberList sm \<noteq> []"
    by (simp add: agps_up_eq agps_eval)
  have "agps_reachable False m" using agps_up_reachable m(1) step_request agps_next by blast
  from agps_connection_iff_subscribers [OF this m(2)] m show ?thesis by blast
qed

text \<open>
  \<open>requestATL\<close>: a new handle joins the subscribers of its state machine, a
  known one is not added twice. The framework is asked for a data connection exactly when
  none was held or requested; if one is up the caller is told at once, with the APN of the
  call; otherwise it waits.\<close>

theorem agps_request:
  assumes "agps_reachable ssr m" "emergency_downgrade em ty msk = (ty', msk')"
    "getAgpsStateMachine ty' m = Some sm"
  shows "\<exists>sm'. requestATL em freed h ty msk m = Some (put_sm (nif_of ty') sm' m) \<and>
    mState sm' = (if mState sm = RELEASED then PENDING else mState sm) \<and>
    map mConnHandle (mSubscriberList sm') =
      (let hs = map mConnHandle (mSubscriberList sm) in if h \<in> set hs then hs else hs @ [h]) \<and>
    out sm' = out sm @
      (case mState sm of
         RELEASED \<Rightarrow> [DataConn ty' msk' True]
       | ACQUIRED \<Rightarrow> [AtlOpenStatus h True (mAPN sm) (mAPNLen sm) (mBearer sm) ty' msk']
       | _ \<Rightarrow> [])"
proof -
  have "mState sm \<noteq> RELEASING"
    using m_invD [OF reachable_m_inv [OF assms(1)]] assms(3) by (auto simp: getAgpsStateMachine_def sm_inv_def)
  with assms(2,3) show ?thesis
    by (cases "mState sm")
      (auto simp: requestATL_def processAgpsEvent_def processAgpsEventSubscribe_def addSubscriber_def
        deref_def sm_defs notify_out_def listed_iff)
qed

theorem agps_request_witness:
  "\<exists>sm'. requestATL True 0 7 1 0x10 agps_up = Some (put_sm AGNSS sm' agps_up) \<and>
    mState sm' = PENDING \<and> out sm' = [DataConn 1 0x10 True]"
proof -
  have "emergency_downgrade True 1 0x10 = (1, 0x10)" "getAgpsStateMachine 1 agps_up = Some (new_sm 1)"
    by (simp_all add: agps_up_eq agps_eval)
  from agps_request [OF agps_up_reachable this, of 0 7] show ?thesis
    by (auto simp: new_sm_def nif_of_def)
qed

text \<open>
  With emergency PDN turned off an emergency SUPL request is served as a plain SUPL
  request: the type is SUPL, the emergency bit of the APN mask is cleared, the SUPL bit is
  set and all others stay; other requests and configurations are left alone.\<close>

theorem agps_emergency_downgrade:
  "case emergency_downgrade em ty msk of (ty', msk') \<Rightarrow>
    (if \<not> em \<and> ty = LOC_AGPS_TYPE_SUPL_ES
     then ty' = LOC_AGPS_TYPE_SUPL \<and> \<not> bit msk' 9 \<and> bit msk' 4 \<and>
       (\<forall>i. i \<noteq> 4 \<and> i \<noteq> 9 \<longrightarrow> bit msk' i = bit msk i)
     else ty' = ty \<and> msk' = msk) \<and>
    nif_of ty' = nif_of ty"
proof -
  have "bit (push_bit 9 1 :: int) i \<longleftrightarrow> i = 9" "bit (push_bit 4 1 :: int) i \<longleftrightarrow> i = 4" for i
    unfolding bit_push_bit_iff bit_1_iff by auto
  then have b: "bit (0x200 :: int) i \<longleftrightarrow> i = 9" "bit (0x10 :: int) i \<longleftrightarrow> i = 4" for i by simp_all
  show ?thesis
    by (auto simp: emergency_downgrade_def nif_of_def bit_simps b dest: bit_imp_le_length)
qed

text \<open>
  \<open>reportAtlOpenSuccess\<close> while the call is pending answers every waiting
  subscriber exactly once, in the order of the requests, with success and the APN just
  reported, keeps them all for later notifications, and marks the call as acquired; in any
  other state nobody is notified.\<close>

theorem agps_open_success:
  assumes "agps_reachable ssr m" "getAgpsStateMachine ty m = Some sm"
    "0 < len" "len \<le> MAX_APN_LEN" "length apn = len"
  shows "\<exists>sm'. reportAtlOpenSuccess ty (Some apn) len bearer m = Some (put_sm (nif_of ty) sm' m) \<and>
    mSubscriberList sm' = mSubscriberList sm \<and>
    (if mState sm = PENDING
     then mState sm' = ACQUIRED \<and>
       out sm' = out sm @ map (\<lambda>x. AtlOpenStatus (mConnHandle x) True (Some apn) len bearer
         (mAgpsType sm) (mApnTypeMask sm)) (mSubscriberList sm)
     else mState sm' = mState sm \<and> out sm' = out sm)"
proof -
  have "sm_inv ssr sm"
    using m_invD [OF reachable_m_inv [OF assms(1)]] assms(2) by (simp add: getAgpsStateMachine_def)
  then have f: "filter (notification_for FOR_ACTIVE_SUBSCRIBERS) (mSubscriberList sm) = mSubscriberList sm"
    using filter_active(2) by (auto simp: sm_inv_def)
  from assms show ?thesis
    by (auto simp: reportAtlOpenSuccess_def processAgpsEvent_def processAgpsEventGranted_def setAPN_def
        sm_defs notify_loop_eq f notify_out_def concat_map_singleton)
qed

theorem agps_open_success_witness:
  "\<exists>m sm sm'. requestATL True 0 7 1 0x10 agps_up = Some m \<and> sm_at AGNSS m = Some sm \<and>
    reportAtlOpenSuccess 1 (Some ''ims'') 3 1 m = Some (put_sm AGNSS sm' m) \<and>
    out sm' = [DataConn 1 0x10 True, AtlOpenStatus 7 True (Some ''ims'') 3 1 1 0x10]"
proof -
  obtain m sm where m: "requestATL True 0 7 1 0x10 agps_up = Some m" "sm_at AGNSS m = Some sm"
    "map mConnHandle (mSubscriberList sm) = [7]" "mState sm = PENDING" "mAgpsType sm = 1"
    "mApnTypeMask sm = 0x10" "out sm = [DataConn 1 0x10 True]"
    by (simp add: agps_up_eq agps_eval)
  have r: "agps_reachable False m" using agps_up_reachable m(1) step_request agps_next by blast
  have g: "getAgpsStateMachine 1 m = Some sm" using m(2) by (simp add: getAgpsStateMachine_def nif_of_def)
  have "map (\<lambda>x. AtlOpenStatus (mConnHandle x) True (Some ''ims'') 3 1 1 0x10) (mSubscriberList sm) =
      map (\<lambda>h. AtlOpenStatus h True (Some ''ims'') 3 1 1 0x10) (map mConnHandle (mSubscriberList sm))"
    by simp
  with agps_open_success [OF r g, of 3 "''ims''" 1] m show ?thesis
    by (auto simp: nif_of_def)
qed

text \<open>
  A failed open in state PENDING, or a close in state ACQUIRED, tells every
  subscriber exactly once and in order, drops them all and releases the state machine; in
  the other reachable states the two reports change nothing.\<close>

theorem agps_failed_or_closed:
  assumes "agps_reachable ssr m" "getAgpsStateMachine ty m = Some sm"
  shows "\<exists>sm1 sm2. reportAtlOpenFailed ty m = Some (put_sm (nif_of ty) sm1 m) \<and>
    reportAtlClosed ty m = Some (put_sm (nif_of ty) sm2 m) \<and>
    (if mState sm = PENDING
     then mState sm1 = RELEASED \<and> mSubscriberList sm1 = [] \<and>
       out sm1 = out sm @ map (\<lambda>x. AtlOpenStatus (mConnHandle x) False (mAPN sm) (mAPNLen sm)
         (mBearer sm) (mAgpsType sm) (mApnTypeMask sm)) (mSubscriberList sm)
     else sm1 = sm) \<and>
    (if mState sm = ACQUIRED
     then mState sm2 = RELEASED \<and> mSubscriberList sm2 = [] \<and>
       out sm2 = out sm @ map (\<lambda>x. AtlCloseStatus (mConnHandle x) True) (mSubscriberList sm)
     else sm2 = sm)"
proof -
  have inv: "sm_inv ssr sm"
    using m_invD [OF reachable_m_inv [OF assms(1)]] assms(2) by (simp add: getAgpsStateMachine_def)
  then have f: "filter (notification_for FOR_ALL_SUBSCRIBERS) (mSubscriberList sm) = mSubscriberList sm"
    "filter (\<lambda>x. \<not> notification_for FOR_ALL_SUBSCRIBERS x) (mSubscriberList sm) = []"
    using filter_active by (auto simp: sm_inv_def)
  show ?thesis
    using assms(2) inv
    by (cases "mState sm")
      (auto simp: reportAtlOpenFailed_def reportAtlClosed_def processAgpsEvent_def
        processAgpsEventDenied_def processAgpsEventReleased_def sm_defs notify_loop_eq f
        notify_out_def concat_map_singleton sm_inv_def)
qed

theorem agps_failed_or_closed_witness:
  "\<exists>m sm sm1. requestATL True 0 7 1 0x10 agps_up = Some m \<and> sm_at AGNSS m = Some sm \<and>
    reportAtlOpenFailed 1 m = Some (put_sm AGNSS sm1 m) \<and> mState sm1 = RELEASED \<and> mSubscriberList sm1 = []"
proof -
  obtain m sm where m: "requestATL True 0 7 1 0x10 agps_up = Some m" "sm_at AGNSS m = Some sm"
    "mState sm = PENDING"
    by (simp add: agps_up_eq agps_eval)
  have r: "agps_reachable False m" using agps_up_reachable m(1) step_request agps_next by blast
  have g: "getAgpsStateMachine 1 m = Some sm" using m(2) by (simp add: getAgpsStateMachine_def nif_of_def)
  from agps_failed_or_closed [OF r g] m show ?thesis by (auto simp: nif_of_def)
qed

lemma delete_loop_self:
  assumes "distinct (map mConnHandle xs)"
  shows "delete_loop h h at xs = filter (\<lambda>x. mConnHandle x \<noteq> h) xs"
  using assms by (induction xs arbitrary: at) (auto simp: Let_def)

text \<open>
  \<open>releaseATL\<close> of a subscriber's handle, as long as the freed subscriber still
  reads as that handle: the subscriber is told that the call is closed and exactly it is
  removed; the data connection is released, and the machine is RELEASED, when and only when
  it was the last one. A handle that nobody subscribed changes nothing.\<close>

theorem agps_release:
  assumes "agps_reachable ssr m"
  shows "(\<forall>sm. mAgnssNif m = Some sm \<longrightarrow> h \<in> mConnHandle ` set (mSubscriberList sm) \<longrightarrow>
      (\<exists>sm'. releaseATL h h m = Some (put_sm AGNSS sm' m) \<and>
        mSubscriberList sm' = filter (\<lambda>x. mConnHandle x \<noteq> h) (mSubscriberList sm) \<and>
        mState sm' = (if mSubscriberList sm' = [] then RELEASED else mState sm) \<and>
        out sm' = out sm @ AtlCloseStatus h True #
          (if mSubscriberList sm' = [] then [DataConn (mAgpsType sm) (mApnTypeMask sm) False] else []))) \<and>
    ((\<forall>n sm. sm_at n m = Some sm \<longrightarrow> h \<notin> mConnHandle ` set (mSubscriberList sm)) \<longrightarrow>
      releaseATL h h m = Some m)"
proof (intro conjI allI impI)
  fix sm
  assume sm: "mAgnssNif m = Some sm" "h \<in> mConnHandle ` set (mSubscriberList sm)"
  have at: "sm_at AGNSS m = Some sm" using sm by (simp add: sm_at_def)
  have inv: "sm_inv ssr sm" using m_invD [OF reachable_m_inv [OF assms] at] .
  obtain p where p: "getSubscriber h sm = Some p" using sm(2) getSubscriber_None [of h sm] by auto
  then obtain i where i: "p = InList i" "i < length (mSubscriberList sm)"
    "mConnHandle (mSubscriberList sm ! i) = h" by (rule getSubscriber_SomeD)
  have act: "\<not> mWaitForCloseComplete (mSubscriberList sm ! i)" "mState sm = PENDING \<or> mState sm = ACQUIRED"
    using inv i(2) by (cases "mState sm"; auto simp: sm_inv_def)+
  let ?ys = "filter (\<lambda>x. mConnHandle x \<noteq> h) (mSubscriberList sm)"
  have del: "delete_loop h h (Some i) (mSubscriberList sm) = ?ys"
    using inv delete_loop_self by (simp add: sm_inv_def)
  have "list_ex (\<lambda>x. \<not> mIsInactive x) ?ys" if "?ys \<noteq> []"
    using that inv by (cases ?ys) (auto simp: sm_inv_def list_ex_iff filter_eq_Cons_iff)
  with sm at p i act del show "\<exists>sm'. releaseATL h h m = Some (put_sm AGNSS sm' m) \<and>
        mSubscriberList sm' = ?ys \<and>
        mState sm' = (if mSubscriberList sm' = [] then RELEASED else mState sm) \<and>
        out sm' = out sm @ AtlCloseStatus h True #
          (if mSubscriberList sm' = [] then [DataConn (mAgpsType sm) (mApnTypeMask sm) False] else [])"
    by (cases "?ys = []")
      (auto simp: releaseATL_def processAgpsEvent_def processAgpsEventUnsubscribe_def
        unsubscribe_current_def deref_def sm_defs notify_out_def anyActiveSubscribers_def)
next
  assume none: "\<forall>n sm. sm_at n m = Some sm \<longrightarrow> h \<notin> mConnHandle ` set (mSubscriberList sm)"
  have "do { sm \<leftarrow> sm_at n m; p \<leftarrow> getSubscriber h sm; Some (sm, p) } = None" for n
  proof (cases "sm_at n m")
    case (Some sm)
    with none have "getSubscriber h sm = None" by (simp add: getSubscriber_None)
    with Some show ?thesis by simp
  qed simp
  then show "releaseATL h h m = Some m" by (simp add: releaseATL_def)
qed

text \<open>
  \<open>releaseATL\<close> passes the list's own element to \<open>deleteSubscriber\<close>, which
  frees it and goes on comparing with its handle. If the freed storage has come to hold
  another subscriber's handle, that subscriber is dropped too, without any notification, and
  the data connection it uses is released.\<close>

theorem agps_release_drops_other:
  "\<exists>m m' sm sm'. agps_reachable False m \<and> sm_at AGNSS m = Some sm \<and>
    map mConnHandle (mSubscriberList sm) = [7, 8] \<and> releaseATL 8 7 m = Some m' \<and>
    sm_at AGNSS m' = Some sm' \<and> mSubscriberList sm' = [] \<and>
    out sm' = out sm @ [AtlCloseStatus 7 True, DataConn 1 0x10 False]"
proof -
  obtain m1 where m1: "requestATL True 0 7 1 0x10 agps_up = Some m1"
    by (simp add: agps_up_eq agps_eval)
  then obtain m2 where m2: "requestATL True 0 8 1 0x10 m1 = Some m2"
    by (auto simp: agps_up_eq agps_eval)
  have "agps_reachable False m2"
    using agps_up_reachable m1 m2 step_request agps_next by meson
  moreover have "\<exists>m' sm sm'. sm_at AGNSS m2 = Some sm \<and>
      map mConnHandle (mSubscriberList sm) = [7, 8] \<and> releaseATL 8 7 m2 = Some m' \<and>
      sm_at AGNSS m' = Some sm' \<and> mSubscriberList sm' = [] \<and>
      out sm' = out sm @ [AtlCloseStatus 7 True, DataConn 1 0x10 False]"
    using m1 m2 by (auto simp: agps_up_eq agps_eval)
  ultimately show ?thesis
    apply (elim exE)
    apply (rule exI)+
    apply (rule conjI, assumption)
    apply assumption
    done
qed

text \<open>
  A request for a type without a state machine is refused with a failure status,
  but the three reports of the framework dereference the missing state machine.\<close>

theorem agps_report_without_machine:
  "requestATL em freed h ty msk m \<noteq> None \<and>
   (reportAtlOpenSuccess ty' apn len bearer m = None \<longleftrightarrow> getAgpsStateMachine ty' m = None) \<and>
   (reportAtlOpenFailed ty' m = None \<longleftrightarrow> getAgpsStateMachine ty' m = None) \<and>
   (reportAtlClosed ty' m = None \<longleftrightarrow> getAgpsStateMachine ty' m = None)"
  by (auto simp: requestATL_def reportAtlOpenSuccess_def reportAtlOpenFailed_def reportAtlClosed_def
      processAgpsEvent_def processAgpsEventSubscribe_def Let_def split: prod.split option.split Option.bind_split)

end
