(* ===== verification/Geofence.thy ===== *)
theory Geofence
  imports Prelude "HOL-Library.Word"
begin

text \<open>
  The geofence adapter of \<open>src/gps/geofence/GeofenceAdapter.cpp\<close> and \<open>.h\<close>: the two maps
  from engine ids to geofences and from client keys to engine ids, the client commands, the
  response callbacks, the restart after an engine reset, and the reports. The engine behind
  \<open>LocApiBase\<close> is outside the program: its requests are collected in \<open>requests\<close>, each
  with the closure to run on the response, and it may answer them in any order and with any
  result. A closure is a value of the datatype \<open>response\<close>; a call that \<open>addToCallQueue\<close>
  takes is a value of \<open>call\<close>. Floating point numbers are only stored and stand as bit
  patterns. The arrays of a command (ids, options, errors) are a \<open>batch\<close>; reading or
  writing one that was deleted is undefined, None.
\<close>

type_synonym client = nat
type_synonym double_bits = nat
type_synonym session_id = "32 word"
type_synonym hw_id = "32 word"

datatype loc_error =
  ERROR_SUCCESS | ERROR_GENERAL_FAILURE | ERROR_INVALID_PARAMETER | ERROR_ID_UNKNOWN | ERROR_NOT_SUPPORTED

record geofence_key =
  key_client :: client
  key_id :: session_id

record geofence_option =
  breachTypeMask :: nat
  responsiveness :: nat
  dwellTime :: nat

record geofence_info =
  latitude :: double_bits
  longitude :: double_bits
  radius :: double_bits

record geofence_object =
  obj_key :: geofence_key
  obj_option :: geofence_option
  obj_info :: geofence_info
  paused :: bool

record batch =
  b_client :: client
  b_ids :: "session_id list"
  b_options :: "geofence_option list option"
  b_infos :: "geofence_info list option"
  b_errs :: "loc_error list"
  b_deleted :: bool

datatype call = CallAdd nat nat | CallRemove nat nat | CallPause nat nat | CallResume nat nat | CallModify nat nat

datatype response =
    AddDone nat nat
  | RemoveDone nat nat hw_id
  | PauseDone nat nat hw_id
  | ResumeDone nat nat hw_id
  | ModifyDone nat nat hw_id
  | RestartDone geofence_object
  | StopDone hw_id
  | Nothing

datatype engine_op =
    AddGeofence session_id geofence_option geofence_info
  | RemoveGeofence hw_id session_id
  | PauseGeofence hw_id session_id
  | ResumeGeofence hw_id session_id
  | ModifyGeofence hw_id session_id geofence_option

record client_callbacks =
  collectiveResponseCb :: bool
  geofenceBreachCb :: bool
  geofenceStatusCb :: bool

datatype report =
    CollectiveResponse client "loc_error list" "session_id list"
  | BreachNotification client "session_id list"
  | StatusNotification client bool

record adapter =
  mGeofences :: "hw_id \<rightharpoonup> geofence_object"
  mGeofenceIds :: "geofence_key \<rightharpoonup> hw_id"
  mClientData :: "(client \<times> client_callbacks) list"
  batches :: "batch list"
  call_queue :: "call list"
  requests :: "(engine_op \<times> response) list"
  reports :: "report list"
  mSessionIdCounter :: session_id

section \<open>The maps\<close>

definition getHwIdFromClient :: "client \<Rightarrow> session_id \<Rightarrow> adapter \<Rightarrow> hw_id option" where
  "getHwIdFromClient c cid s = mGeofenceIds s \<lparr>key_client = c, key_id = cid\<rparr>"

definition getGeofenceKeyFromHwId :: "hw_id \<Rightarrow> adapter \<Rightarrow> geofence_key option" where
  "getGeofenceKeyFromHwId hw s = map_option obj_key (mGeofences s hw)"

definition saveGeofenceItem ::
  "client \<Rightarrow> session_id \<Rightarrow> hw_id \<Rightarrow> geofence_option \<Rightarrow> geofence_info \<Rightarrow> adapter \<Rightarrow> adapter"
where
  "saveGeofenceItem c cid hw opt info s =
     (let key = \<lparr>key_client = c, key_id = cid\<rparr>;
          object = \<lparr>obj_key = key, obj_option = opt, obj_info = info, paused = False\<rparr>
      in s\<lparr>mGeofences := (mGeofences s)(hw \<mapsto> object), mGeofenceIds := (mGeofenceIds s)(key \<mapsto> hw)\<rparr>)"

definition removeGeofenceItem :: "hw_id \<Rightarrow> adapter \<Rightarrow> adapter" where
  "removeGeofenceItem hw s =
     (case getGeofenceKeyFromHwId hw s of
        None \<Rightarrow> s
      | Some key \<Rightarrow>
          (if mGeofenceIds s key = None then s
           else s\<lparr>mGeofenceIds := (mGeofenceIds s)(key := None), mGeofences := (mGeofences s)(hw := None)\<rparr>))"

definition update_object :: "hw_id \<Rightarrow> (geofence_object \<Rightarrow> geofence_object) \<Rightarrow> adapter \<Rightarrow> adapter" where
  "update_object hw f s =
     (case mGeofences s hw of None \<Rightarrow> s | Some x \<Rightarrow> s\<lparr>mGeofences := (mGeofences s)(hw \<mapsto> f x)\<rparr>)"

definition pauseGeofenceItem :: "hw_id \<Rightarrow> adapter \<Rightarrow> adapter" where
  "pauseGeofenceItem hw = update_object hw (\<lambda>x. x\<lparr>paused := True\<rparr>)"

definition resumeGeofenceItem :: "hw_id \<Rightarrow> adapter \<Rightarrow> adapter" where
  "resumeGeofenceItem hw = update_object hw (\<lambda>x. x\<lparr>paused := False\<rparr>)"

definition modifyGeofenceItem :: "hw_id \<Rightarrow> geofence_option \<Rightarrow> adapter \<Rightarrow> adapter" where
  "modifyGeofenceItem hw opt = update_object hw (\<lambda>x. x\<lparr>obj_option := opt\<rparr>)"

section \<open>Batches and responses\<close>

definition engine :: "engine_op \<Rightarrow> response \<Rightarrow> adapter \<Rightarrow> adapter" where
  "engine req k s = s\<lparr>requests := requests s @ [(req, k)]\<rparr>"

definition reportResponse :: "client \<Rightarrow> loc_error list \<Rightarrow> session_id list \<Rightarrow> adapter \<Rightarrow> adapter" where
  "reportResponse c errs ids s =
     (case map_of (mClientData s) c of
        None \<Rightarrow> s
      | Some cbs \<Rightarrow>
          if collectiveResponseCb cbs then s\<lparr>reports := reports s @ [CollectiveResponse c errs ids]\<rparr> else s)"

definition batch_of :: "nat \<Rightarrow> adapter \<Rightarrow> batch option" where
  "batch_of b s = (if b < length (batches s) \<and> \<not> b_deleted (batches s ! b) then Some (batches s ! b) else None)"

definition set_err :: "nat \<Rightarrow> nat \<Rightarrow> loc_error \<Rightarrow> adapter \<Rightarrow> adapter option" where
  "set_err b i err s =
     do { x \<leftarrow> batch_of b s;
          Some (s\<lparr>batches := (batches s)[b := x\<lparr>b_errs := (b_errs x)[i := err]\<rparr>]\<rparr>) }"

text \<open>Send aggregated response on last item and cleanup.\<close>

definition report_last :: "nat \<Rightarrow> nat \<Rightarrow> adapter \<Rightarrow> adapter option" where
  "report_last b i s =
     do { x \<leftarrow> batch_of b s;
          if i = length (b_ids x) - 1
          then Some ((reportResponse (b_client x) (b_errs x) (b_ids x) s)
                      \<lparr>batches := (batches s)[b := x\<lparr>b_deleted := True\<rparr>]\<rparr>)
          else Some s }"

section \<open>Commands\<close>

text \<open>What \<open>proc\<close> of a command's message does: one call per item; adding and modifying
  check their arrays first and then only set the error.\<close>

definition new_batch :: "client \<Rightarrow> session_id list \<Rightarrow> geofence_option list option \<Rightarrow> geofence_info list option \<Rightarrow> batch" where
  "new_batch c ids opts infos = \<lparr>b_client = c, b_ids = ids, b_options = opts, b_infos = infos,
     b_errs = replicate (length ids) ERROR_SUCCESS, b_deleted = False\<rparr>"

definition queue_items :: "(nat \<Rightarrow> nat \<Rightarrow> call) \<Rightarrow> batch \<Rightarrow> adapter \<Rightarrow> adapter" where
  "queue_items mk x s =
     s\<lparr>batches := batches s @ [x],
       call_queue := call_queue s @ map (mk (length (batches s))) [0..<length (b_ids x)]\<rparr>"

definition invalid_items :: "batch \<Rightarrow> adapter \<Rightarrow> adapter" where
  "invalid_items x s =
     s\<lparr>batches := batches s @ [x\<lparr>b_errs := replicate (length (b_ids x)) ERROR_INVALID_PARAMETER\<rparr>]\<rparr>"

text \<open>The counter of session ids is one static variable for all adapters: other adapters may take any
  number of ids before each of those taken here; \<open>gaps\<close> says how many, and has one entry for each
  geofence.\<close>

definition generateSessionId :: "session_id \<Rightarrow> session_id" where
  "generateSessionId n = (if n + 1 = 0xFFFFFFFF then 1 else n + 1)"

fun session_ids :: "nat list \<Rightarrow> session_id \<Rightarrow> session_id list \<times> session_id" where
  "session_ids [] n = ([], n)"
| "session_ids (g # gs) n =
     (let k = generateSessionId ((generateSessionId ^^ g) n); (ids, m) = session_ids gs k in (k # ids, m))"

definition addGeofencesCommand ::
  "client \<Rightarrow> nat list \<Rightarrow> geofence_option list option \<Rightarrow> geofence_info list option \<Rightarrow> adapter \<Rightarrow>
   session_id list option \<times> adapter"
where
  "addGeofencesCommand c gaps options infos s =
     (if length gaps = 0 then (None, s)
      else
        (let (ids, n) = session_ids gaps (mSessionIdCounter s);
             s1 = s\<lparr>mSessionIdCounter := n\<rparr>;
             x = new_batch c ids options infos
         in (Some ids, if options = None \<or> infos = None then invalid_items x s1 else queue_items CallAdd x s1)))"

definition removeGeofencesCommand :: "client \<Rightarrow> session_id list \<Rightarrow> adapter \<Rightarrow> adapter" where
  "removeGeofencesCommand c ids s =
     (if ids = [] then s else queue_items CallRemove (new_batch c ids None None) s)"

definition pauseGeofencesCommand :: "client \<Rightarrow> session_id list \<Rightarrow> adapter \<Rightarrow> adapter" where
  "pauseGeofencesCommand c ids s =
     (if ids = [] then s else queue_items CallPause (new_batch c ids None None) s)"

definition resumeGeofencesCommand :: "client \<Rightarrow> session_id list \<Rightarrow> adapter \<Rightarrow> adapter" where
  "resumeGeofencesCommand c ids s =
     (if ids = [] then s else queue_items CallResume (new_batch c ids None None) s)"

definition modifyGeofencesCommand :: "client \<Rightarrow> session_id list \<Rightarrow> geofence_option list option \<Rightarrow> adapter \<Rightarrow> adapter" where
  "modifyGeofencesCommand c ids options s =
     (if ids = [] then s
      else (let x = new_batch c ids options None
            in if options = None then invalid_items x s else queue_items CallModify x s))"

text \<open>The closures on the call queue: all but adding look up the engine id first.\<close>

definition with_hw_id :: "nat \<Rightarrow> nat \<Rightarrow> (batch \<Rightarrow> hw_id \<Rightarrow> adapter \<Rightarrow> adapter) \<Rightarrow> adapter \<Rightarrow> adapter option" where
  "with_hw_id b i f s =
     do { x \<leftarrow> batch_of b s;
          case getHwIdFromClient (b_client x) (b_ids x ! i) s of
            Some hw \<Rightarrow> do { s1 \<leftarrow> set_err b i ERROR_SUCCESS s; Some (f x hw s1) }
          | None \<Rightarrow> do { s1 \<leftarrow> set_err b i ERROR_ID_UNKNOWN s; report_last b i s1 } }"

fun run_call :: "call \<Rightarrow> adapter \<Rightarrow> adapter option" where
  "run_call (CallAdd b i) s =
     do { x \<leftarrow> batch_of b s; opts \<leftarrow> b_options x; infos \<leftarrow> b_infos x;
          Some (engine (AddGeofence (b_ids x ! i) (opts ! i) (infos ! i)) (AddDone b i) s) }"
| "run_call (CallRemove b i) s =
     with_hw_id b i (\<lambda>x hw. engine (RemoveGeofence hw (b_ids x ! i)) (RemoveDone b i hw)) s"
| "run_call (CallPause b i) s =
     with_hw_id b i (\<lambda>x hw. engine (PauseGeofence hw (b_ids x ! i)) (PauseDone b i hw)) s"
| "run_call (CallResume b i) s =
     with_hw_id b i (\<lambda>x hw. engine (ResumeGeofence hw (b_ids x ! i)) (ResumeDone b i hw)) s"
| "run_call (CallModify b i) s =
     with_hw_id b i (\<lambda>x hw. engine (ModifyGeofence hw (b_ids x ! i) (the (b_options x) ! i)) (ModifyDone b i hw)) s"

text \<open>The closures on the responses of the engine; \<open>hw'\<close> is the id that a successful
  \<open>addGeofence\<close> returns.\<close>

fun run_response :: "response \<Rightarrow> loc_error \<Rightarrow> hw_id \<Rightarrow> adapter \<Rightarrow> adapter option" where
  "run_response (AddDone b i) err hw' s =
     do { x \<leftarrow> batch_of b s;
          opts \<leftarrow> b_options x; infos \<leftarrow> b_infos x;
          s1 \<leftarrow> set_err b i err
                 (if err = ERROR_SUCCESS then saveGeofenceItem (b_client x) (b_ids x ! i) hw' (opts ! i) (infos ! i) s else s);
          report_last b i s1 }"
| "run_response (RemoveDone b i hw) err hw' s =
     do { s1 \<leftarrow> set_err b i err (if err = ERROR_SUCCESS then removeGeofenceItem hw s else s); report_last b i s1 }"
| "run_response (PauseDone b i hw) err hw' s =
     do { s1 \<leftarrow> set_err b i err (if err = ERROR_SUCCESS then pauseGeofenceItem hw s else s); report_last b i s1 }"
| "run_response (ResumeDone b i hw) err hw' s =
     (if err = ERROR_SUCCESS
      then do { s1 \<leftarrow> set_err b i err s; report_last b i (resumeGeofenceItem hw s1) }
      else Some s)"
| "run_response (ModifyDone b i hw) err hw' s =
     do { s1 \<leftarrow> (if err = ERROR_SUCCESS
                 then do { x \<leftarrow> batch_of b s; s1 \<leftarrow> set_err b i err s;
                           Some (modifyGeofenceItem hw (the (b_options x) ! i) s1) }
                 else Some s);
          report_last b i s1 }"
| "run_response (RestartDone object) err hw' s =
     (if err = ERROR_SUCCESS
      then (let s1 = (if paused object
                      then engine (PauseGeofence hw' (key_id (obj_key object))) Nothing s else s)
            in Some (saveGeofenceItem (key_client (obj_key object)) (key_id (obj_key object)) hw'
                      (obj_option object) (obj_info object) s1))
      else Some s)"
| "run_response (StopDone hw) err hw' s =
     Some (if err = ERROR_SUCCESS then s\<lparr>mGeofences := (mGeofences s)(hw := None)\<rparr> else s)"
| "run_response Nothing err hw' s = Some s"

section \<open>Sessions, restart and reports\<close>

text \<open>\<open>stopClientSessions\<close> walks the map of ids, here given as the list of its entries.\<close>

fun stop_loop :: "client \<Rightarrow> (geofence_key \<times> hw_id) list \<Rightarrow> adapter \<Rightarrow> adapter" where
  "stop_loop c [] s = s"
| "stop_loop c ((key, hw) # entries) s =
     (if c = key_client key
      then stop_loop c entries
             (engine (RemoveGeofence hw (key_id key)) (StopDone hw)
               (s\<lparr>mGeofenceIds := (mGeofenceIds s)(key := None)\<rparr>))
      else stop_loop c entries s)"

definition stopClientSessions :: "client \<Rightarrow> (geofence_key \<times> hw_id) list \<Rightarrow> adapter \<Rightarrow> adapter" where
  "stopClientSessions c entries s = stop_loop c entries s"

fun restart_loop :: "geofence_object list \<Rightarrow> adapter \<Rightarrow> adapter" where
  "restart_loop [] s = s"
| "restart_loop (object # objects) s =
     restart_loop objects
       (engine (AddGeofence (key_id (obj_key object)) (obj_option object) (obj_info object)) (RestartDone object) s)"

definition restartGeofences :: "geofence_object list \<Rightarrow> adapter \<Rightarrow> adapter" where
  "restartGeofences objects s =
     (if objects = [] then s
      else restart_loop objects (s\<lparr>mGeofences := Map.empty, mGeofenceIds := Map.empty\<rparr>))"

definition breach_ids :: "client \<Rightarrow> hw_id list \<Rightarrow> adapter \<Rightarrow> session_id list" where
  "breach_ids c hwIds s =
     List.map_filter (\<lambda>hw. case getGeofenceKeyFromHwId hw s of
         Some key \<Rightarrow> if key_client key = c then Some (key_id key) else None
       | None \<Rightarrow> None) hwIds"

fun breach_loop :: "hw_id list \<Rightarrow> (client \<times> client_callbacks) list \<Rightarrow> adapter \<Rightarrow> adapter" where
  "breach_loop hwIds [] s = s"
| "breach_loop hwIds ((c, cbs) # cs) s =
     (let ids = breach_ids c hwIds s
      in breach_loop hwIds cs
           (if length ids > 0 \<and> geofenceBreachCb cbs
            then s\<lparr>reports := reports s @ [BreachNotification c ids]\<rparr> else s))"

definition geofenceBreach :: "hw_id list \<Rightarrow> adapter \<Rightarrow> adapter" where
  "geofenceBreach hwIds s = (if hwIds = [] then s else breach_loop hwIds (mClientData s) s)"

definition geofenceStatus :: "bool \<Rightarrow> adapter \<Rightarrow> adapter" where
  "geofenceStatus available s =
     s\<lparr>reports := reports s @ map (\<lambda>(c, _). StatusNotification c available)
         (filter (\<lambda>(_, cbs). geofenceStatusCb cbs) (mClientData s))\<rparr>"

definition updateClientsEventMask :: "adapter \<Rightarrow> bool \<times> bool" where
  "updateClientsEventMask s =
     (list_ex (\<lambda>(_, cbs). geofenceBreachCb cbs) (mClientData s),
      list_ex (\<lambda>(_, cbs). geofenceStatusCb cbs) (mClientData s))"

section \<open>The adapter as a transition system\<close>

text \<open>The engine answers the outstanding requests in any order, with any error and any id; it may come
  up again at any moment, and other adapters take session ids.\<close>

inductive geo_step :: "adapter \<Rightarrow> adapter \<Rightarrow> bool" where
  step_add: "geo_step s (snd (addGeofencesCommand c gaps opts infos s))"
| step_remove: "geo_step s (removeGeofencesCommand c ids s)"
| step_pause: "geo_step s (pauseGeofencesCommand c ids s)"
| step_resume: "geo_step s (resumeGeofencesCommand c ids s)"
| step_modify: "geo_step s (modifyGeofencesCommand c ids opts s)"
| step_call: "call_queue s = q # qs \<Longrightarrow> run_call q (s\<lparr>call_queue := qs\<rparr>) = Some s' \<Longrightarrow> geo_step s s'"
| step_reply: "requests s = rs1 @ (req, k) # rs2 \<Longrightarrow>
    run_response k err hw (s\<lparr>requests := rs1 @ rs2\<rparr>) = Some s' \<Longrightarrow> geo_step s s'"
| step_stop: "map_of entries = mGeofenceIds s \<Longrightarrow> distinct (map fst entries) \<Longrightarrow>
    geo_step s (stopClientSessions c entries s)"
| step_restart: "distinct hws \<Longrightarrow> set hws = dom (mGeofences s) \<Longrightarrow>
    geo_step s (restartGeofences (map (the \<circ> mGeofences s) hws) s)"
| step_breach: "geo_step s (geofenceBreach hws s)"
| step_status: "geo_step s (geofenceStatus available s)"
| step_client: "geo_step s (s\<lparr>mClientData := cs\<rparr>)"
| step_counter: "geo_step s (s\<lparr>mSessionIdCounter := generateSessionId (mSessionIdCounter s)\<rparr>)"

text \<open>What the adapter relies on of the engine: an id that a geofence newly gets is not the id of a
  known geofence, and no removal of it is outstanding.\<close>

definition id_unused :: "hw_id \<Rightarrow> adapter \<Rightarrow> bool" where
  "id_unused hw s \<longleftrightarrow> mGeofences s hw = None \<and> (\<forall>r\<in>set (requests s). snd r \<noteq> StopDone hw)"

definition new_ids_unused :: "adapter \<Rightarrow> adapter \<Rightarrow> bool" where
  "new_ids_unused s s' \<longleftrightarrow>
     (\<forall>key hw. mGeofenceIds s' key = Some hw \<and> mGeofenceIds s key \<noteq> Some hw \<longrightarrow> id_unused hw s)"

definition adapter_init :: adapter where
  "adapter_init = \<lparr>mGeofences = Map.empty, mGeofenceIds = Map.empty, mClientData = [], batches = [],
     call_queue = [], requests = [], reports = [], mSessionIdCounter = 1\<rparr>"

inductive geo_reachable :: "adapter \<Rightarrow> bool" where
  geo_start: "geo_reachable adapter_init"
| geo_next: "geo_reachable s \<Longrightarrow> geo_step s s' \<Longrightarrow> new_ids_unused s s' \<Longrightarrow> geo_reachable s'"

definition geo_inv :: "adapter \<Rightarrow> bool" where
  "geo_inv s \<longleftrightarrow>
     (\<forall>key hw. mGeofenceIds s key = Some hw \<longrightarrow> (\<exists>x. mGeofences s hw = Some x \<and> obj_key x = key)) \<and>
     (\<forall>req hw key. (req, StopDone hw) \<in> set (requests s) \<longrightarrow> mGeofenceIds s key \<noteq> Some hw)"

lemma geo_invI:
  assumes "\<And>key hw. mGeofenceIds s key = Some hw \<Longrightarrow> \<exists>x. mGeofences s hw = Some x \<and> obj_key x = key"
    "\<And>req hw key. (req, StopDone hw) \<in> set (requests s) \<Longrightarrow> mGeofenceIds s key \<noteq> Some hw"
  shows "geo_inv s"
  using assms unfolding geo_inv_def by blast

lemma geo_invD:
  assumes "geo_inv s"
  shows "mGeofenceIds s key = Some hw \<Longrightarrow> \<exists>x. mGeofences s hw = Some x \<and> obj_key x = key"
    and "(req, StopDone hw) \<in> set (requests s) \<Longrightarrow> mGeofenceIds s key \<noteq> Some hw"
  using assms unfolding geo_inv_def by blast+

lemma geo_inv_cong:
  assumes "mGeofences s' = mGeofences s" "mGeofenceIds s' = mGeofenceIds s"
    "\<And>req hw. (req, StopDone hw) \<in> set (requests s') \<Longrightarrow> (req, StopDone hw) \<in> set (requests s)"
  shows "geo_inv s \<Longrightarrow> geo_inv s'"
  using assms(3) unfolding geo_inv_def assms(1,2) by blast

lemma report_frame:
  "mGeofences (reportResponse c errs ids s) = mGeofences s"
  "mGeofenceIds (reportResponse c errs ids s) = mGeofenceIds s"
  "requests (reportResponse c errs ids s) = requests s"
  by (auto simp: reportResponse_def split: option.split)

lemma set_err_frame:
  assumes "set_err b i err s = Some s'"
  shows "mGeofences s' = mGeofences s" "mGeofenceIds s' = mGeofenceIds s" "requests s' = requests s"
    "reports s' = reports s" "mClientData s' = mClientData s"
  using assms by (auto simp: set_err_def split: Option.bind_splits)

lemma report_last_frame:
  assumes "report_last b i s = Some s'"
  shows "mGeofences s' = mGeofences s" "mGeofenceIds s' = mGeofenceIds s" "requests s' = requests s"
  using assms by (auto simp: report_last_def report_frame split: Option.bind_splits if_splits)

lemma finish_inv:
  assumes "set_err b i err s = Some s1" "report_last b j s1 = Some s2" "geo_inv s"
  shows "geo_inv s2"
  using geo_inv_cong [OF _ _ _ assms(3), of s2] set_err_frame [OF assms(1)] report_last_frame [OF assms(2)]
  by auto

lemma save_inv:
  assumes inv: "geo_inv s"
    and unused: "mGeofenceIds s \<lparr>key_client = c, key_id = cid\<rparr> = Some hw \<or> id_unused hw s"
  shows "geo_inv (saveGeofenceItem c cid hw opt info s)"
proof (rule geo_invI)
  fix key h
  let ?s = "saveGeofenceItem c cid hw opt info s" and ?k = "\<lparr>key_client = c, key_id = cid\<rparr>"
  assume a: "mGeofenceIds ?s key = Some h"
  show "\<exists>x. mGeofences ?s h = Some x \<and> obj_key x = key"
  proof (cases "key = ?k")
    case True
    with a show ?thesis by (simp add: saveGeofenceItem_def Let_def)
  next
    case False
    with a have old: "mGeofenceIds s key = Some h" by (simp add: saveGeofenceItem_def Let_def)
    from geo_invD(1) [OF inv old] geo_invD(1) [OF inv, of ?k hw] False unused have "h \<noteq> hw"
      by (auto simp: id_unused_def)
    with geo_invD(1) [OF inv old] show ?thesis by (simp add: saveGeofenceItem_def Let_def)
  qed
next
  fix req h key
  assume "(req, StopDone h) \<in> set (requests (saveGeofenceItem c cid hw opt info s))"
  then have "(req, StopDone h) \<in> set (requests s)" by (simp add: saveGeofenceItem_def Let_def)
  with geo_invD(2) [OF inv this] unused
  show "mGeofenceIds (saveGeofenceItem c cid hw opt info s) key \<noteq> Some h"
    by (auto simp: saveGeofenceItem_def Let_def id_unused_def)
qed

lemma remove_inv:
  assumes inv: "geo_inv s"
  shows "geo_inv (removeGeofenceItem hw s)"
proof (cases "removeGeofenceItem hw s = s")
  case False
  then obtain x where x: "mGeofences s hw = Some x" and
    eq: "removeGeofenceItem hw s = s\<lparr>mGeofenceIds := (mGeofenceIds s)(obj_key x := None),
      mGeofences := (mGeofences s)(hw := None)\<rparr>"
    by (auto simp: removeGeofenceItem_def getGeofenceKeyFromHwId_def split: option.splits if_splits)
  show ?thesis
  proof (rule geo_invI)
    fix key h
    assume "mGeofenceIds (removeGeofenceItem hw s) key = Some h"
    then have k: "key \<noteq> obj_key x" "mGeofenceIds s key = Some h" by (simp_all add: eq split: if_splits)
    from geo_invD(1) [OF inv k(2)] k(1) x have "h \<noteq> hw" by auto
    with geo_invD(1) [OF inv k(2)]
    show "\<exists>x. mGeofences (removeGeofenceItem hw s) h = Some x \<and> obj_key x = key" by (simp add: eq)
  qed (use geo_invD(2) [OF inv] in \<open>simp add: eq\<close>)
qed (use inv in simp)

lemma update_inv:
  assumes "\<And>x. obj_key (f x) = obj_key x" and inv: "geo_inv s"
  shows "geo_inv (update_object hw f s)"
proof (cases "mGeofences s hw")
  case (Some y)
  show ?thesis
  proof (rule geo_invI)
    fix key h
    assume "mGeofenceIds (update_object hw f s) key = Some h"
    then have "mGeofenceIds s key = Some h" using Some by (simp add: update_object_def)
    from geo_invD(1) [OF inv this] assms(1) Some
    show "\<exists>x. mGeofences (update_object hw f s) h = Some x \<and> obj_key x = key"
      by (auto simp: update_object_def)
  qed (use geo_invD(2) [OF inv] Some in \<open>simp add: update_object_def\<close>)
qed (use inv in \<open>simp add: update_object_def\<close>)

lemma item_inv:
  "geo_inv s \<Longrightarrow> geo_inv (pauseGeofenceItem hw s)" "geo_inv s \<Longrightarrow> geo_inv (resumeGeofenceItem hw s)"
  "geo_inv s \<Longrightarrow> geo_inv (modifyGeofenceItem hw opt s)"
  unfolding pauseGeofenceItem_def resumeGeofenceItem_def modifyGeofenceItem_def
  by (rule update_inv; simp)+

lemma engine_inv: "k \<notin> range StopDone \<Longrightarrow> geo_inv s \<Longrightarrow> geo_inv (engine req k s)"
  unfolding geo_inv_def engine_def by auto

lemma run_call_inv:
  assumes "run_call q s = Some s'" "geo_inv s"
  shows "geo_inv s'"
proof -
  have w: "geo_inv u" if "with_hw_id b i f s = Some u"
      "\<And>x hw s1. geo_inv s1 \<Longrightarrow> geo_inv (f x hw s1)" for b i f u
  proof -
    have "geo_inv s1" if "set_err b i e s = Some s1" for e s1
      using geo_inv_cong [OF _ _ _ assms(2), of s1] set_err_frame [OF that] by auto
    then show ?thesis
      using that finish_inv [OF _ _ assms(2)]
      by (auto simp: with_hw_id_def split: Option.bind_splits option.splits)
  qed
  have e: "geo_inv u \<Longrightarrow> geo_inv (engine req (RemoveDone b i hw) u)"
    "geo_inv u \<Longrightarrow> geo_inv (engine req (PauseDone b i hw) u)"
    "geo_inv u \<Longrightarrow> geo_inv (engine req (ResumeDone b i hw) u)"
    "geo_inv u \<Longrightarrow> geo_inv (engine req (ModifyDone b i hw) u)"
    "geo_inv u \<Longrightarrow> geo_inv (engine req (AddDone b i) u)" for u req b i hw
    by (rule engine_inv; auto)+
  show ?thesis
  proof (cases q)
    case (CallAdd b i)
    with assms e(5) show ?thesis by (auto split: Option.bind_splits)
  next
    case (CallRemove b i)
    with assms(1) have "with_hw_id b i (\<lambda>x hw. engine (RemoveGeofence hw (b_ids x ! i)) (RemoveDone b i hw)) s = Some s'"
      by simp
    then show ?thesis by (rule w) (rule e(1))
  next
    case (CallPause b i)
    with assms(1) have "with_hw_id b i (\<lambda>x hw. engine (PauseGeofence hw (b_ids x ! i)) (PauseDone b i hw)) s = Some s'"
      by simp
    then show ?thesis by (rule w) (rule e(2))
  next
    case (CallResume b i)
    with assms(1) have "with_hw_id b i (\<lambda>x hw. engine (ResumeGeofence hw (b_ids x ! i)) (ResumeDone b i hw)) s = Some s'"
      by simp
    then show ?thesis by (rule w) (rule e(3))
  next
    case (CallModify b i)
    with assms(1) have "with_hw_id b i (\<lambda>x hw. engine (ModifyGeofence hw (b_ids x ! i) (the (b_options x) ! i)) (ModifyDone b i hw)) s = Some s'"
      by simp
    then show ?thesis by (rule w) (rule e(4))
  qed
qed

lemma run_response_inv:
  assumes "run_response k err hw s = Some s'" "geo_inv s" "new_ids_unused s s'"
    "\<And>h. k = StopDone h \<Longrightarrow> h \<notin> ran (mGeofenceIds s)"
  shows "geo_inv s'"
proof -
  have fin: "geo_inv s2" if "do { s1 \<leftarrow> set_err b i err u; report_last b i s1 } = Some s2" "geo_inv u" for b i u s2
    using that finish_inv by (auto split: Option.bind_splits)
  show ?thesis
  proof (cases k)
    case (AddDone b i)
    show ?thesis
    proof (cases "err = ERROR_SUCCESS")
      case True
      with assms(1) AddDone have "\<exists>(x :: batch) opts infos s1.
          set_err b i err (saveGeofenceItem (b_client x) (b_ids x ! i) hw (opts ! i) (infos ! i) s) = Some s1 \<and>
          report_last b i s1 = Some s'" by (auto split: Option.bind_splits)
      then obtain x :: batch and opts infos s1 where
        s1: "set_err b i err (saveGeofenceItem (b_client x) (b_ids x ! i) hw (opts ! i) (infos ! i) s) = Some s1"
          "report_last b i s1 = Some s'" by blast
      have "mGeofenceIds s' \<lparr>key_client = b_client x, key_id = b_ids x ! i\<rparr> = Some hw"
        by (simp add: report_last_frame [OF s1(2)] set_err_frame [OF s1(1)] saveGeofenceItem_def Let_def)
      with assms(3) have "geo_inv (saveGeofenceItem (b_client x) (b_ids x ! i) hw (opts ! i) (infos ! i) s)"
        by (intro save_inv [OF assms(2)]) (auto simp: new_ids_unused_def)
      with s1 finish_inv show ?thesis by blast
    qed (use assms AddDone finish_inv in \<open>auto split: Option.bind_splits\<close>)
  next
    case (RemoveDone b i h)
    with assms(1) fin remove_inv [OF assms(2)] assms(2) show ?thesis by (auto split: if_splits)
  next
    case (PauseDone b i h)
    with assms(1) fin item_inv(1) [OF assms(2)] assms(2) show ?thesis by (auto split: if_splits)
  next
    case (ResumeDone b i h)
    show ?thesis
    proof (cases "err = ERROR_SUCCESS")
      case True
      with assms(1) ResumeDone obtain s1 where s1: "set_err b i err s = Some s1"
        "report_last b i (resumeGeofenceItem h s1) = Some s'" by (auto split: Option.bind_splits)
      have "geo_inv s1" using geo_inv_cong [OF _ _ _ assms(2), of s1] set_err_frame [OF s1(1)] by auto
      with item_inv(2) have "geo_inv (resumeGeofenceItem h s1)" by blast
      from geo_inv_cong [OF _ _ _ this, of s'] report_last_frame [OF s1(2)] show ?thesis by auto
    qed (use assms ResumeDone in auto)
  next
    case (ModifyDone b i h)
    then obtain s1 where s1: "report_last b i s1 = Some s'" "geo_inv s1"
    proof (cases "err = ERROR_SUCCESS")
      case True
      with assms(1) ModifyDone have "\<exists>(x :: batch) u. set_err b i err s = Some u \<and>
          report_last b i (modifyGeofenceItem h (the (b_options x) ! i) u) = Some s'"
        by (auto split: Option.bind_splits)
      then obtain x :: batch and u where u: "set_err b i err s = Some u"
        "report_last b i (modifyGeofenceItem h (the (b_options x) ! i) u) = Some s'" by blast
      have "geo_inv u" using geo_inv_cong [OF _ _ _ assms(2), of u] set_err_frame [OF u(1)] by auto
      with item_inv(3) u(2) that show ?thesis by blast
    qed (use assms ModifyDone that in auto)
    from geo_inv_cong [OF _ _ _ s1(2), of s'] report_last_frame [OF s1(1)] show ?thesis by auto
  next
    case (RestartDone object)
    show ?thesis
    proof (cases "err = ERROR_SUCCESS")
      case True
      define s1 where "s1 = (if paused object then engine (PauseGeofence hw (key_id (obj_key object))) Nothing s else s)"
      let ?k = "\<lparr>key_client = key_client (obj_key object), key_id = key_id (obj_key object)\<rparr>"
      have s': "s' = saveGeofenceItem (key_client (obj_key object)) (key_id (obj_key object)) hw
          (obj_option object) (obj_info object) s1"
        using assms(1) RestartDone True by (simp add: s1_def Let_def)
      have "mGeofenceIds s' ?k = Some hw" by (simp add: s' saveGeofenceItem_def Let_def)
      with assms(3) have "mGeofenceIds s ?k = Some hw \<or> id_unused hw s" by (auto simp: new_ids_unused_def)
      then have "mGeofenceIds s1 ?k = Some hw \<or> id_unused hw s1"
        by (auto simp: s1_def id_unused_def engine_def)
      moreover have "geo_inv s1" unfolding s1_def using engine_inv [of Nothing s] assms(2) by auto
      ultimately show ?thesis using save_inv s' by blast
    qed (use assms RestartDone in auto)
  next
    case (StopDone h)
    have "h \<notin> ran (mGeofenceIds s)" by (rule assms(4) [OF StopDone])
    with assms(1,2) StopDone show ?thesis
      by (auto simp: geo_inv_def ran_def split: if_splits)
  next
    case Nothing
    with assms show ?thesis by simp
  qed
qed

lemma queue_inv: "geo_inv s \<Longrightarrow> geo_inv (queue_items mk x s)" "geo_inv s \<Longrightarrow> geo_inv (invalid_items x s)"
  by (rule geo_inv_cong [of _ s]; simp add: queue_items_def invalid_items_def)+

lemma command_inv:
  assumes "geo_inv s"
  shows "geo_inv (snd (addGeofencesCommand c gaps opts infos s))" "geo_inv (removeGeofencesCommand c ids s)"
    "geo_inv (pauseGeofencesCommand c ids s)" "geo_inv (resumeGeofencesCommand c ids s)"
    "geo_inv (modifyGeofencesCommand c ids opts s)"
proof -
  have n: "geo_inv (s\<lparr>mSessionIdCounter := k\<rparr>)" for k by (rule geo_inv_cong [OF _ _ _ assms]) simp_all
  show "geo_inv (snd (addGeofencesCommand c gaps opts infos s))"
    using queue_inv n assms by (simp add: addGeofencesCommand_def Let_def split: prod.split)
qed (use queue_inv assms in \<open>simp_all add: removeGeofencesCommand_def pauseGeofencesCommand_def
      resumeGeofencesCommand_def modifyGeofencesCommand_def Let_def\<close>)

definition drop_keys :: "'k set \<Rightarrow> ('k \<rightharpoonup> 'v) \<Rightarrow> ('k \<rightharpoonup> 'v)" where
  "drop_keys A m = (\<lambda>k. if k \<in> A then None else m k)"

lemma drop_keys_upd:
  "drop_keys A (m(k := None)) = drop_keys (insert k A) m"
  "drop_keys A (\<lambda>a. if a = k then None else m a) = drop_keys (insert k A) m"
  by (auto simp: drop_keys_def fun_eq_iff)

lemma stop_loop_eq:
  "stop_loop c entries s = s\<lparr>
     mGeofenceIds := drop_keys (fst ` set (filter (\<lambda>(key, _). key_client key = c) entries)) (mGeofenceIds s),
     requests := requests s @ map (\<lambda>(key, hw). (RemoveGeofence hw (key_id key), StopDone hw))
       (filter (\<lambda>(key, _). key_client key = c) entries)\<rparr>"
proof (induction c entries s rule: stop_loop.induct)
  case (1 c s)
  show ?case by (simp add: drop_keys_def)
next
  case (2 c key hw entries s)
  then show ?case by (simp add: engine_def drop_keys_upd)
qed

lemma stop_inv:
  assumes inv: "geo_inv s" and entries: "map_of entries = mGeofenceIds s" "distinct (map fst entries)"
  shows "geo_inv (stopClientSessions c entries s)"
proof (rule geo_invI)
  fix key hw
  assume "mGeofenceIds (stopClientSessions c entries s) key = Some hw"
  then have "mGeofenceIds s key = Some hw" by (simp add: stopClientSessions_def stop_loop_eq drop_keys_def split: if_splits)
  from geo_invD(1) [OF inv this]
  show "\<exists>x. mGeofences (stopClientSessions c entries s) hw = Some x \<and> obj_key x = key"
    by (simp add: stopClientSessions_def stop_loop_eq)
next
  fix req hw key
  assume r: "(req, StopDone hw) \<in> set (requests (stopClientSessions c entries s))"
  show "mGeofenceIds (stopClientSessions c entries s) key \<noteq> Some hw"
  proof
    assume k: "mGeofenceIds (stopClientSessions c entries s) key = Some hw"
    then have key: "mGeofenceIds s key = Some hw" "\<not> (key_client key = c \<and> key \<in> fst ` set entries)"
      by (auto simp: stopClientSessions_def stop_loop_eq drop_keys_def split: if_splits)
    have "(req, StopDone hw) \<notin> set (requests s)" using geo_invD(2) [OF inv, of req hw key] key(1) by blast
    with r obtain key' where k': "(key', hw) \<in> set entries" "key_client key' = c"
      by (auto simp: stopClientSessions_def stop_loop_eq)
    then have "mGeofenceIds s key' = Some hw" using entries by (simp flip: entries(1))
    with geo_invD(1) [OF inv this] geo_invD(1) [OF inv key(1)] have "key' = key" by auto
    with k' key(2) show False by force
  qed
qed

lemma restart_loop_eq:
  "restart_loop objects s = s\<lparr>requests := requests s @ map (\<lambda>x.
     (AddGeofence (key_id (obj_key x)) (obj_option x) (obj_info x), RestartDone x)) objects\<rparr>"
  by (induction objects s rule: restart_loop.induct) (simp_all add: engine_def)

lemma breach_loop_frame:
  "mGeofences (breach_loop hws cs s) = mGeofences s \<and> mGeofenceIds (breach_loop hws cs s) = mGeofenceIds s \<and>
   requests (breach_loop hws cs s) = requests s"
  by (induction hws cs s rule: breach_loop.induct) (simp_all add: Let_def)

lemma geo_step_inv: "geo_step s s' \<Longrightarrow> new_ids_unused s s' \<Longrightarrow> geo_inv s \<Longrightarrow> geo_inv s'"
proof (induction rule: geo_step.induct)
  case (step_call s q qs s')
  have "geo_inv (s\<lparr>call_queue := qs\<rparr>)" by (rule geo_inv_cong [OF _ _ _ step_call.prems(2)]) simp_all
  with run_call_inv step_call.hyps(2) show ?case by blast
next
  case (step_reply s rs1 req k rs2 err hw s')
  let ?s = "s\<lparr>requests := rs1 @ rs2\<rparr>"
  have "geo_inv ?s"
    by (rule geo_inv_cong [OF _ _ _ step_reply.prems(2)]) (use step_reply.hyps(1) in auto)
  moreover have "new_ids_unused ?s s'"
    using step_reply.prems(1) step_reply.hyps(1) by (auto simp: new_ids_unused_def id_unused_def)
  moreover have "h \<notin> ran (mGeofenceIds ?s)" if "k = StopDone h" for h
    using geo_invD(2) [OF step_reply.prems(2), of req h] step_reply.hyps(1) that by (auto simp: ran_def)
  ultimately show ?case using run_response_inv step_reply.hyps(2) by blast
next
  case (step_restart s hws)
  then show ?case
    by (auto simp: restartGeofences_def restart_loop_eq geo_inv_def)
next
  case (step_breach s hws)
  show ?case
    by (rule geo_inv_cong [OF _ _ _ step_breach.prems(2)]) (simp_all add: geofenceBreach_def breach_loop_frame split: if_splits)
next
  case (step_status s available)
  show ?case by (rule geo_inv_cong [OF _ _ _ step_status.prems(2)]) (simp_all add: geofenceStatus_def)
next
  case (step_client s cs)
  show ?case by (rule geo_inv_cong [OF _ _ _ step_client.prems(2)]) simp_all
next
  case (step_counter s)
  show ?case by (rule geo_inv_cong [OF _ _ _ step_counter.prems(2)]) simp_all
qed (use command_inv stop_inv in auto)

lemma reachable_geo_inv: "geo_reachable s \<Longrightarrow> geo_inv s"
proof (induction rule: geo_reachable.induct)
  case geo_start
  show ?case by (simp add: geo_inv_def adapter_init_def)
qed (rule geo_step_inv)

section \<open>Properties\<close>

definition sample_option :: geofence_option where
  "sample_option = \<lparr>breachTypeMask = 3, responsiveness = 4000, dwellTime = 0\<rparr>"

definition sample_info :: geofence_info where
  "sample_info = \<lparr>latitude = 0, longitude = 0, radius = 100\<rparr>"

text \<open>A client 9 with all callbacks whose geofence 2 the engine knows as 77.\<close>

definition asked :: adapter where
  "asked = snd (addGeofencesCommand 9 [0] (Some [sample_option]) (Some [sample_info])
     (adapter_init\<lparr>mClientData := [(9, \<lparr>collectiveResponseCb = True, geofenceBreachCb = True, geofenceStatusCb = True\<rparr>)]\<rparr>))"

definition called :: adapter where
  "called = the (run_call (CallAdd 0 0) (asked\<lparr>call_queue := []\<rparr>))"

definition added :: adapter where
  "added = the (run_response (AddDone 0 0) ERROR_SUCCESS 77 (called\<lparr>requests := []\<rparr>))"

lemmas geo_eval = addGeofencesCommand_def adapter_init_def new_batch_def generateSessionId_def queue_items_def batch_of_def
  engine_def set_err_def report_last_def reportResponse_def saveGeofenceItem_def Let_def

lemma asked_eq: "asked = adapter_init\<lparr>mSessionIdCounter := 2, call_queue := [CallAdd 0 0],
    mClientData := [(9, \<lparr>collectiveResponseCb = True, geofenceBreachCb = True, geofenceStatusCb = True\<rparr>)],
    batches := [new_batch 9 [2] (Some [sample_option]) (Some [sample_info])]\<rparr>"
  by (simp add: asked_def geo_eval)

lemma called_eq: "run_call (CallAdd 0 0) (asked\<lparr>call_queue := []\<rparr>) = Some called"
    "called = asked\<lparr>call_queue := [], requests := [(AddGeofence 2 sample_option sample_info, AddDone 0 0)]\<rparr>"
  by (simp_all add: called_def asked_eq geo_eval)

lemma added_run: "run_response (AddDone 0 0) ERROR_SUCCESS 77 (called\<lparr>requests := []\<rparr>) = Some added"
  by (simp add: added_def called_eq(2) asked_eq geo_eval)

lemma added_eq:
  "mGeofences added = [77 \<mapsto> \<lparr>obj_key = \<lparr>key_client = 9, key_id = 2\<rparr>, obj_option = sample_option,
     obj_info = sample_info, paused = False\<rparr>]"
  "mGeofenceIds added = [\<lparr>key_client = 9, key_id = 2\<rparr> \<mapsto> 77]" "requests added = []"
  "mClientData added = [(9, \<lparr>collectiveResponseCb = True, geofenceBreachCb = True, geofenceStatusCb = True\<rparr>)]"
  "reports added = [CollectiveResponse 9 [ERROR_SUCCESS] [2]]"
  by (simp_all add: added_def called_eq(2) asked_eq geo_eval)

lemma added_reachable: "geo_reachable added"
proof -
  have no: "mGeofenceIds s' = Map.empty \<Longrightarrow> new_ids_unused s s'" for s s' by (simp add: new_ids_unused_def)
  define s0 where "s0 = adapter_init\<lparr>mClientData :=
    [(9, \<lparr>collectiveResponseCb = True, geofenceBreachCb = True, geofenceStatusCb = True\<rparr>)]\<rparr>"
  have 0: "geo_reachable s0"
    unfolding s0_def by (rule geo_next [OF geo_start step_client no]) (simp add: adapter_init_def)
  have 1: "geo_reachable asked"
    unfolding asked_def s0_def [symmetric]
    by (rule geo_next [OF 0 step_add no]) (simp add: s0_def geo_eval)
  have "call_queue asked = CallAdd 0 0 # []" by (simp add: asked_eq)
  from geo_next [OF 1 step_call [OF this called_eq(1)] no] have 2: "geo_reachable called"
    by (simp add: called_eq(2) asked_eq adapter_init_def)
  have "requests called = [] @ (AddGeofence 2 sample_option sample_info, AddDone 0 0) # []"
    by (simp add: called_eq(2) asked_eq)
  from step_reply [OF this, of ERROR_SUCCESS 77 added] added_run have "geo_step called added" by simp
  moreover have "new_ids_unused called added"
    by (auto simp: new_ids_unused_def id_unused_def added_eq called_eq(2) asked_eq adapter_init_def split: if_splits)
  ultimately show ?thesis using 2 geo_next by blast
qed



text \<open>
  What is asked of the engine is needed: an engine that gives the id of a known geofence to another one
  leaves two keys with the same id, and the first leads to the geofence of the second.\<close>

theorem reused_id_mixes_clients:
  assumes "getHwIdFromClient c cid s = Some hw" "\<lparr>key_client = c, key_id = cid\<rparr> \<noteq> obj_key x"
    and "run_response (RestartDone x) ERROR_SUCCESS hw s = Some s'"
  shows "getHwIdFromClient c cid s' = Some hw \<and> getGeofenceKeyFromHwId hw s' = Some (obj_key x)"
  using assms
  by (cases "obj_key x") (auto simp: Let_def saveGeofenceItem_def engine_def getHwIdFromClient_def getGeofenceKeyFromHwId_def)

theorem reused_id_mixes_clients_witness:
  "\<exists>s'. getHwIdFromClient 9 2 s' = Some 77 \<and> getGeofenceKeyFromHwId 77 s' = Some \<lparr>key_client = 8, key_id = 3\<rparr>"
proof -
  let ?x = "\<lparr>obj_key = \<lparr>key_client = 8, key_id = 3\<rparr>, obj_option = sample_option, obj_info = sample_info, paused = False\<rparr>"
  have "getHwIdFromClient 9 2 added = Some 77" by (simp add: getHwIdFromClient_def added_eq)
  from reused_id_mixes_clients [OF this, of ?x] show ?thesis by auto
qed

lemma breach_loop_reports:
  "reports (breach_loop hws cs s) = reports s @
     map (\<lambda>(c, _). BreachNotification c (breach_ids c hws s))
       (filter (\<lambda>(c, cbs). geofenceBreachCb cbs \<and> breach_ids c hws s \<noteq> []) cs)"
proof (induction hws cs s rule: breach_loop.induct)
  case (2 hws c cbs cs s)
  have "breach_ids c' hws (s\<lparr>reports := r\<rparr>) = breach_ids c' hws s" for c' r
    by (simp add: breach_ids_def getGeofenceKeyFromHwId_def)
  with 2 show ?case by (auto simp: Let_def)
qed simp

lemma key_eq: "k = \<lparr>key_client = c, key_id = i\<rparr> \<longleftrightarrow> key_client k = c \<and> key_id k = i"
  by (cases k) auto

lemma breach_ids_iff:
  "cid \<in> set (breach_ids c hws s) \<longleftrightarrow>
    (\<exists>hw\<in>set hws. getGeofenceKeyFromHwId hw s = Some \<lparr>key_client = c, key_id = cid\<rparr>)"
  unfolding breach_ids_def
  by (induction hws) (auto simp: map_filter_simps key_eq split: option.splits if_splits)

text \<open>
  A breach is reported to exactly the clients that registered for breaches and own one
  of the breached geofences, once each, and with exactly their own ids of those geofences.\<close>

theorem breach_reaches_owners:
  assumes "hws \<noteq> []"
  shows "reports (geofenceBreach hws s) = reports s @
      map (\<lambda>(c, _). BreachNotification c (breach_ids c hws s))
        (filter (\<lambda>(c, cbs). geofenceBreachCb cbs \<and> breach_ids c hws s \<noteq> []) (mClientData s)) \<and>
    (\<forall>c cid. cid \<in> set (breach_ids c hws s) \<longleftrightarrow>
      (\<exists>hw\<in>set hws. getGeofenceKeyFromHwId hw s = Some \<lparr>key_client = c, key_id = cid\<rparr>))"
  using assms by (simp add: geofenceBreach_def breach_loop_reports breach_ids_iff)

theorem breach_reaches_owners_witness:
  "reports (geofenceBreach [76, 77] added) = [CollectiveResponse 9 [ERROR_SUCCESS] [2], BreachNotification 9 [2]]"
  using breach_reaches_owners [of "[76, 77]" added]
  by (simp add: added_eq breach_ids_def getGeofenceKeyFromHwId_def map_filter_simps)

text \<open>
  When the engine refuses the last item of a command, \<open>pauseGeofencesCommand\<close>
  answers its client with that error; \<open>resumeGeofencesCommand\<close> never answers, and
  \<open>modifyGeofencesCommand\<close> answers with the success that the look-up had left there.\<close>

theorem engine_failure_of_last_item:
  assumes "batch_of b s = Some x" "i = length (b_ids x) - 1" "i < length (b_errs x)"
    "b_errs x ! i = ERROR_SUCCESS" "err \<noteq> ERROR_SUCCESS"
    "map_of (mClientData s) (b_client x) = Some cbs" "collectiveResponseCb cbs"
  shows "(\<exists>s'. run_response (PauseDone b i hw) err hw' s = Some s' \<and>
      reports s' = reports s @ [CollectiveResponse (b_client x) ((b_errs x)[i := err]) (b_ids x)]) \<and>
    run_response (ResumeDone b i hw) err hw' s = Some s \<and>
    (\<exists>s' errs. run_response (ModifyDone b i hw) err hw' s = Some s' \<and>
      reports s' = reports s @ [CollectiveResponse (b_client x) errs (b_ids x)] \<and> errs ! i = ERROR_SUCCESS)"
proof -
  have b: "b < length (batches s)" "\<not> b_deleted (batches s ! b)" "x = batches s ! b"
    using assms(1) by (auto simp: batch_of_def split: if_splits)
  show ?thesis
    using assms b by (simp add: set_err_def report_last_def reportResponse_def batch_of_def)
qed

theorem engine_failure_of_last_item_witness:
  "\<exists>s'. run_response (ModifyDone 0 0 77) ERROR_GENERAL_FAILURE 0
      (added\<lparr>batches := [new_batch 9 [1] (Some [sample_option]) None]\<rparr>) = Some s' \<and>
    (\<exists>errs. last (reports s') = CollectiveResponse 9 errs [1] \<and> errs ! 0 = ERROR_SUCCESS)"
proof -
  let ?x = "new_batch 9 [1] (Some [sample_option]) None"
  have x: "batch_of 0 (added\<lparr>batches := [?x]\<rparr>) = Some ?x" by (simp add: batch_of_def new_batch_def)
  from engine_failure_of_last_item [OF x, of 0 ERROR_GENERAL_FAILURE] show ?thesis
    by (auto simp: new_batch_def added_eq)
qed

text \<open>
  A paused geofence survives one engine restart, not two: when it is added back the
  engine is told to pause it, but it is recorded as not paused, and the restart after that
  one adds it without pausing.\<close>

theorem restart_forgets_pause:
  assumes "paused x" "run_response (RestartDone x) ERROR_SUCCESS hw s = Some s'"
    "run_response (RestartDone y) ERROR_SUCCESS hw2 s2 = Some s3" "mGeofences s' hw = Some y"
  shows "requests s' = requests s @ [(PauseGeofence hw (key_id (obj_key x)), Nothing)] \<and>
    obj_key y = obj_key x \<and> \<not> paused y \<and> requests s3 = requests s2"
  using assms by (auto simp: Let_def saveGeofenceItem_def engine_def)

theorem restart_forgets_pause_witness:
  "\<exists>s' y. run_response (RestartDone (the (mGeofences (pauseGeofenceItem 77 added) 77))) ERROR_SUCCESS 5 added = Some s' \<and>
    mGeofences s' 5 = Some y \<and> \<not> paused y"
proof -
  let ?x = "the (mGeofences (pauseGeofenceItem 77 added) 77)"
  have p: "paused ?x" by (simp add: pauseGeofenceItem_def update_object_def added_eq)
  obtain s' y where r: "run_response (RestartDone ?x) ERROR_SUCCESS 5 added = Some s'" "mGeofences s' 5 = Some y"
    using p by (simp add: saveGeofenceItem_def Let_def)
  obtain s3 where "run_response (RestartDone y) ERROR_SUCCESS 6 s' = Some s3" by simp
  from restart_forgets_pause [OF p r(1) this r(2)] r show ?thesis by blast
qed

text \<open>
  Stopping a client forgets its key before the engine agreed to remove the geofence: if
  the engine refuses, the geofence stays in the table with no key leading to it, no command
  can remove it any more, and the next restart asks the engine to add it again.\<close>

theorem stopped_geofence_comes_back:
  assumes "map_of entries = mGeofenceIds s" "distinct (map fst entries)"
    "getHwIdFromClient c cid s = Some hw" "mGeofences s hw = Some x" "err \<noteq> ERROR_SUCCESS"
    "s1 = stopClientSessions c entries s" "run_response (StopDone hw) err hw' s1 = Some s2"
    "x \<in> set objects"
  shows "(RemoveGeofence hw cid, StopDone hw) \<in> set (requests s1) \<and>
    getHwIdFromClient c cid s2 = None \<and> mGeofences s2 hw = Some x \<and>
    (AddGeofence (key_id (obj_key x)) (obj_option x) (obj_info x), RestartDone x)
      \<in> set (requests (restartGeofences objects s2))"
proof -
  let ?k = "\<lparr>key_client = c, key_id = cid\<rparr>"
  have "(?k, hw) \<in> set entries"
    using assms(1,3) by (intro map_of_SomeD) (simp add: getHwIdFromClient_def)
  then have f: "(?k, hw) \<in> set (filter (\<lambda>(key, _). key_client key = c) entries)" by simp
  then have "(RemoveGeofence hw cid, StopDone hw) \<in> set (requests s1)"
    unfolding assms(6) stopClientSessions_def stop_loop_eq by (force simp del: set_filter)
  moreover have "?k \<in> fst ` set (filter (\<lambda>(key, _). key_client key = c) entries)"
    using f by (rule rev_image_eqI) simp
  then have "drop_keys (fst ` set (filter (\<lambda>(key, _). key_client key = c) entries)) (mGeofenceIds s) ?k = None"
    unfolding drop_keys_def by (rule if_P)
  then have "getHwIdFromClient c cid s2 = None"
    using assms(5,7) unfolding assms(6) stopClientSessions_def stop_loop_eq
    by (auto simp: getHwIdFromClient_def simp del: set_filter)
  moreover have "mGeofences s2 hw = Some x"
    using assms(4,5,7) unfolding assms(6) stopClientSessions_def stop_loop_eq by auto
  moreover have "objects \<noteq> []" using assms(8) by auto
  then have "(AddGeofence (key_id (obj_key x)) (obj_option x) (obj_info x), RestartDone x)
      \<in> set (requests (restartGeofences objects s2))"
    using assms(8) by (simp add: restartGeofences_def restart_loop_eq)
  ultimately show ?thesis by blast
qed

theorem stopped_geofence_comes_back_witness:
  "getHwIdFromClient 9 2 (stopClientSessions 9 [(\<lparr>key_client = 9, key_id = 2\<rparr>, 77)] added) = None \<and>
   mGeofences (stopClientSessions 9 [(\<lparr>key_client = 9, key_id = 2\<rparr>, 77)] added) 77 \<noteq> None"
proof -
  let ?x = "\<lparr>obj_key = \<lparr>key_client = 9, key_id = 2\<rparr>, obj_option = sample_option, obj_info = sample_info, paused = False\<rparr>"
  let ?s1 = "stopClientSessions 9 [(\<lparr>key_client = 9, key_id = 2\<rparr>, 77)] added"
  have r: "run_response (StopDone 77) ERROR_GENERAL_FAILURE 0 ?s1 = Some ?s1" by simp
  have "map_of [(\<lparr>key_client = 9, key_id = 2\<rparr>, 77)] = mGeofenceIds added"
    "getHwIdFromClient 9 2 added = Some 77" "mGeofences added 77 = Some ?x"
    by (simp_all add: added_eq getHwIdFromClient_def)
  from stopped_geofence_comes_back [OF this(1) _ this(2,3) _ refl r, of "[?x]"] show ?thesis by simp
qed

end
