(* ===== verification/OrderedMap.thy ===== *)
theory OrderedMap
  imports Prelude "HOL-Library.AList"
begin

text \<open>
  \<open>std::map\<close>: association lists in ascending order of their keys, so that iteration has the
  order of the source. Lookup is \<open>map_of\<close>, \<open>m[k] = v\<close> is \<open>put\<close>, \<open>erase\<close> is \<open>AList.delete\<close>.
\<close>

fun put :: "'k::linorder \<Rightarrow> 'v \<Rightarrow> ('k \<times> 'v) list \<Rightarrow> ('k \<times> 'v) list" where
  "put k v [] = [(k, v)]"
| "put k v ((a, b) # m) =
     (if k < a then (k, v) # (a, b) # m else if k = a then (k, v) # m else (a, b) # put k v m)"

definition ordered :: "('k::linorder \<times> 'v) list \<Rightarrow> bool" where
  "ordered m \<longleftrightarrow> sorted_wrt (<) (map fst m)"

lemma ordered_Nil [simp, intro!]: "ordered []"
  by (simp add: ordered_def)

lemma ordered_Cons [simp]: "ordered (x # m) \<longleftrightarrow> (\<forall>y\<in>set m. fst x < fst y) \<and> ordered m"
  by (auto simp: ordered_def)

lemma ordered_distinct: "ordered m \<Longrightarrow> distinct (map fst m)"
  by (induction m) auto

lemma map_of_put [simp]: "ordered m \<Longrightarrow> map_of (put k v m) = (map_of m)(k \<mapsto> v)"
proof (induction k v m rule: put.induct)
  case (2 k v a b m)
  have "map_of m k = None" if "k < a" using that 2(2)
    by (auto simp: map_of_eq_None_iff)
  then show ?case using 2 by (auto simp: fun_eq_iff)
qed simp

lemma set_fst_put: "fst ` set (put k v m) = insert k (fst ` set m)"
  by (induction k v m rule: put.induct) auto

lemma ordered_put [simp, intro]: "ordered m \<Longrightarrow> ordered (put k v m)"
proof (induction k v m rule: put.induct)
  case (2 k v a b m)
  have "\<forall>y\<in>set (put k v m). a < fst y" if "a < k"
  proof
    fix y assume "y \<in> set (put k v m)"
    then have "fst y \<in> insert k (fst ` set m)" using set_fst_put by (metis imageI)
    then show "a < fst y" using 2(2) that by auto
  qed
  with 2 show ?case by (auto intro: less_trans)
qed simp

lemma ordered_filter [simp, intro]: "ordered m \<Longrightarrow> ordered (filter P m)"
  by (induction m) auto

lemma delete_filter: "AList.delete k m = filter (\<lambda>x. fst x \<noteq> k) m"
  by (simp add: AList.delete_eq comp_def split_def eq_commute)

lemma ordered_delete [simp, intro]: "ordered m \<Longrightarrow> ordered (AList.delete k m)"
  by (simp add: delete_filter)

lemma map_of_delete [simp]: "map_of (AList.delete k m) = (map_of m)(k := None)"
  by (rule AList.delete_conv')

lemma ordered_map_values [simp]: "ordered (map (\<lambda>(k, v). (k, f k v)) m) \<longleftrightarrow> ordered m"
  by (induction m) auto

lemma delete_absent: "map_of m k = None \<Longrightarrow> AList.delete k m = m"
  by (auto simp: delete_filter filter_eq_self_iff map_of_eq_None_iff)

lemma put_absent_length: "map_of m k = None \<Longrightarrow> length (put k v m) = Suc (length m)"
  by (induction k v m rule: put.induct) (auto split: if_splits)

lemma delete_present_length:
  "ordered m \<Longrightarrow> map_of m k = Some v \<Longrightarrow> Suc (length (AList.delete k m)) = length m"
proof (induction m)
  case (Cons x m)
  show ?case
  proof (cases "fst x = k")
    case True
    then have "map_of m k = None" using Cons.prems(1) by (auto simp: map_of_eq_None_iff)
    then show ?thesis using True delete_absent [of m k] by (cases x) simp
  next
    case False
    then show ?thesis using Cons by (cases x) auto
  qed
qed simp

lemma set_put_ordered: "ordered m \<Longrightarrow> set (put k v m) = insert (k, v) {x \<in> set m. fst x \<noteq> k}"
  by (induction k v m rule: put.induct) auto

end
