(* ===== verification/AdapterBase.thy ===== *)
theory AdapterBase
  imports OrderedMap "HOL-Library.Word"
begin

unbundle bit_operations_syntax

text \<open>
  What the adapters of the location stack share: \<open>src/gps/core/LocAdapterBase.cpp\<close> and \<open>.h\<close>
  (clients, event mask, messages that wait for the engine, session ids) and the part of
  \<open>ContextBase\<close> that knows the capabilities of the engine. A callback is present or NULL; what an
  adapter tells its clients is collected in \<open>reports\<close>. A pointer to a client is its address.
\<close>

section \<open>Capabilities of the engine\<close>

datatype message_id =
    LOCATION_BATCHING | BATCHED_GENFENCE_BREACH | DISTANCE_BASE_TRACKING | ADAPTIVE_LOCATION_BATCHING
  | DISTANCE_BASE_LOCATION_BATCHING | UPDATE_TBF_ON_THE_FLY | OUTDOOR_TRIP_BATCHING

fun message_code :: "message_id \<Rightarrow> nat" where
  "message_code LOCATION_BATCHING = 0"
| "message_code BATCHED_GENFENCE_BREACH = 1"
| "message_code DISTANCE_BASE_TRACKING = 2"
| "message_code ADAPTIVE_LOCATION_BATCHING = 3"
| "message_code DISTANCE_BASE_LOCATION_BATCHING = 4"
| "message_code UPDATE_TBF_ON_THE_FLY = 5"
| "message_code OUTDOOR_TRIP_BATCHING = 6"

datatype feature =
    ODCPI_2 | WIFI_AP_DATA_INJECT_2 | DEBUG_NMEA | GNSS_ONLY_POSITION_REPORT | FDCL
  | CONSTELLATION_ENABLEMENT | AGPM | XTRA_INTEGRITY | FDCL_2 | LOCATION_PRIVACY | NAVIC
  | MEASUREMENTS_CORRECTION | ROBUST_LOCATION | EDGNSS

fun feature_code :: "feature \<Rightarrow> nat" where
  "feature_code ODCPI_2 = 0"
| "feature_code WIFI_AP_DATA_INJECT_2 = 1"
| "feature_code DEBUG_NMEA = 2"
| "feature_code GNSS_ONLY_POSITION_REPORT = 3"
| "feature_code FDCL = 4"
| "feature_code CONSTELLATION_ENABLEMENT = 5"
| "feature_code AGPM = 6"
| "feature_code XTRA_INTEGRITY = 7"
| "feature_code FDCL_2 = 8"
| "feature_code LOCATION_PRIVACY = 9"
| "feature_code NAVIC = 10"
| "feature_code MEASUREMENTS_CORRECTION = 11"
| "feature_code ROBUST_LOCATION = 12"
| "feature_code EDGNSS = 13"

record context_base =
  sSupportedMsgMask :: "64 word"
  sFeaturesSupported :: "8 word list"
  sGnssMeasurementSupported :: bool
  CAPABILITIES :: "32 word"
  SUPL_MODE :: "32 word"

definition isMessageSupported :: "message_id \<Rightarrow> context_base \<Rightarrow> bool" where
  "isMessageSupported m ctx =
     (if message_code m > 64 then False
      else let messageChecker = ucast (push_bit (message_code m) (1 :: 32 word))
           in messageChecker AND sSupportedMsgMask ctx = messageChecker)"

definition isFeatureSupported :: "feature \<Rightarrow> context_base \<Rightarrow> bool" where
  "isFeatureSupported f ctx =
     (let arrayIndex = feature_code f div 8; bitPos = feature_code f mod 8
      in if arrayIndex \<ge> length (sFeaturesSupported ctx) then False
         else drop_bit bitPos (sFeaturesSupported ctx ! arrayIndex) AND 1 = 1)"

definition getCarrierCapabilities :: "context_base \<Rightarrow> 32 word" where
  "getCarrierCapabilities ctx =
     (let c1 = (if SUPL_MODE ctx AND 2 \<noteq> 2 then CAPABILITIES ctx AND NOT 4 else CAPABILITIES ctx)
      in if SUPL_MODE ctx AND 1 \<noteq> 1 then c1 AND NOT 2 else c1)"

definition capability :: "bool \<Rightarrow> nat \<Rightarrow> 64 word" where
  "capability b n = (if b then push_bit n 1 else 0)"

definition getCapabilities :: "bool \<Rightarrow> context_base \<Rightarrow> 64 word" where
  "getCapabilities known ctx =
     (if known
      then capability True 0
        OR capability (isMessageSupported DISTANCE_BASE_LOCATION_BATCHING ctx) 1
        OR capability (isMessageSupported DISTANCE_BASE_LOCATION_BATCHING ctx) 3
        OR capability (isMessageSupported DISTANCE_BASE_TRACKING ctx) 2
        OR capability (isMessageSupported OUTDOOR_TRIP_BATCHING ctx) 9
        OR capability True 4
        OR capability (sGnssMeasurementSupported ctx) 5
        OR capability (getCarrierCapabilities ctx AND 2 \<noteq> 0) 6
        OR capability (getCarrierCapabilities ctx AND 4 \<noteq> 0) 7
        OR capability (isFeatureSupported DEBUG_NMEA ctx) 8
        OR capability (isFeatureSupported CONSTELLATION_ENABLEMENT ctx) 10
        OR capability (isFeatureSupported AGPM ctx) 11
        OR capability (isFeatureSupported LOCATION_PRIVACY ctx) 12
        OR capability (isFeatureSupported MEASUREMENTS_CORRECTION ctx) 13
        OR capability (isFeatureSupported ROBUST_LOCATION ctx) 14
        OR capability (isFeatureSupported EDGNSS ctx) 15
      else 0)"

section \<open>Clients and sessions\<close>

type_synonym client = nat
type_synonym session_id = "32 word"
type_synonym location = nat

datatype loc_error =
    SUCCESS | GENERAL_FAILURE | CALLBACK_MISSING | INVALID_PARAMETER | ID_EXISTS | ID_UNKNOWN
  | ALREADY_STARTED | GEOFENCES_AT_MAX | NOT_SUPPORTED

text \<open>Keys of sessions are ordered by id, then by client.\<close>

datatype session_key = LocationSessionKey (key_client: client) (key_id: session_id)

definition session_key_less :: "session_key \<Rightarrow> session_key \<Rightarrow> bool" where
  "session_key_less l r \<longleftrightarrow>
     key_id l < key_id r \<or> (key_id l = key_id r \<and> key_client l < key_client r)"

instantiation session_key :: linorder
begin

definition less_session_key :: "session_key \<Rightarrow> session_key \<Rightarrow> bool" where
  "less_session_key = session_key_less"

definition less_eq_session_key :: "session_key \<Rightarrow> session_key \<Rightarrow> bool" where
  "less_eq_session_key l r \<longleftrightarrow> l < r \<or> l = r"

instance
proof
  fix x y z :: session_key
  show "x < y \<longleftrightarrow> x \<le> y \<and> \<not> y \<le> x"
    by (auto simp: less_session_key_def session_key_less_def less_eq_session_key_def)
  show "x \<le> x" by (simp add: less_eq_session_key_def)
  show "x \<le> y \<Longrightarrow> y \<le> z \<Longrightarrow> x \<le> z"
    by (auto simp: less_session_key_def session_key_less_def less_eq_session_key_def)
  show "x \<le> y \<Longrightarrow> y \<le> x \<Longrightarrow> x = y"
    by (auto simp: less_session_key_def session_key_less_def less_eq_session_key_def)
  show "x \<le> y \<or> y \<le> x"
    by (cases x; cases y) (auto simp: less_session_key_def session_key_less_def less_eq_session_key_def)
qed

end

record callbacks =
  capabilitiesCb :: bool
  responseCb :: bool
  collectiveResponseCb :: bool
  trackingCb :: bool
  batchingCb :: bool
  geofenceBreachCb :: bool
  geofenceStatusCb :: bool
  gnssLocationInfoCb :: bool
  gnssNiCb :: bool
  gnssSvCb :: bool
  gnssNmeaCb :: bool
  gnssDataCb :: bool
  gnssMeasurementsCb :: bool
  batchingStatusCb :: bool
  locationSystemInfoCb :: bool
  engineLocationsInfoCb :: bool

definition no_callbacks :: callbacks where
  "no_callbacks = \<lparr>capabilitiesCb = False, responseCb = False, collectiveResponseCb = False, trackingCb = False,
     batchingCb = False, geofenceBreachCb = False, geofenceStatusCb = False, gnssLocationInfoCb = False,
     gnssNiCb = False, gnssSvCb = False, gnssNmeaCb = False, gnssDataCb = False, gnssMeasurementsCb = False,
     batchingStatusCb = False, locationSystemInfoCb = False, engineLocationsInfoCb = False\<rparr>"

datatype mask_status = MASK_ENABLED | MASK_DISABLED | MASK_SET

text \<open>\<open>msg_queue\<close> is the queue of the message task, \<open>open_requests\<close> counts the calls of
  \<open>LocApiBase::updateEvtMask\<close>.\<close>

record ('m, 'r) adapter_base =
  mClientData :: "(client \<times> callbacks) list"
  mEvtMask :: "64 word"
  mIsEngineCapabilitiesKnown :: bool
  mPendingMsgs :: "'m list"
  mSessionIdCounter :: session_id
  context_of :: context_base
  msg_queue :: "'m list"
  open_requests :: nat
  reports :: "(client \<times> 'r) list"

definition generateSessionId :: "('m, 'r, 'z) adapter_base_scheme \<Rightarrow> session_id \<times> ('m, 'r, 'z) adapter_base_scheme" where
  "generateSessionId s =
     (let n = mSessionIdCounter s + 1; n' = (if n = 0xFFFFFFFF then 1 else n)
      in (n', s\<lparr>mSessionIdCounter := n'\<rparr>))"

definition sendMsg :: "'m \<Rightarrow> ('m, 'r, 'z) adapter_base_scheme \<Rightarrow> ('m, 'r, 'z) adapter_base_scheme" where
  "sendMsg m s = s\<lparr>msg_queue := msg_queue s @ [m]\<rparr>"

definition postpone :: "'m \<Rightarrow> ('m, 'r, 'z) adapter_base_scheme \<Rightarrow> ('m, 'r, 'z) adapter_base_scheme" where
  "postpone m s = s\<lparr>mPendingMsgs := mPendingMsgs s @ [m]\<rparr>"

definition tell :: "client \<Rightarrow> 'r \<Rightarrow> ('m, 'r, 'z) adapter_base_scheme \<Rightarrow> ('m, 'r, 'z) adapter_base_scheme" where
  "tell c r s = s\<lparr>reports := reports s @ [(c, r)]\<rparr>"

definition updateEvtMask ::
  "64 word \<Rightarrow> mask_status \<Rightarrow> ('m, 'r, 'z) adapter_base_scheme \<Rightarrow> ('m, 'r, 'z) adapter_base_scheme"
where
  "updateEvtMask event status s =
     s\<lparr>mEvtMask := (case status of MASK_ENABLED \<Rightarrow> mEvtMask s OR event
                     | MASK_DISABLED \<Rightarrow> mEvtMask s AND NOT event | MASK_SET \<Rightarrow> event),
       open_requests := open_requests s + 1\<rparr>"

definition getClientCallbacks :: "client \<Rightarrow> ('m, 'r, 'z) adapter_base_scheme \<Rightarrow> callbacks" where
  "getClientCallbacks c s = (case map_of (mClientData s) c of None \<Rightarrow> no_callbacks | Some cbs \<Rightarrow> cbs)"

text \<open>The virtual function \<open>updateClientsEventMask\<close> is an argument.\<close>

definition saveClient ::
  "(('m, 'r, 'z) adapter_base_scheme \<Rightarrow> ('m, 'r, 'z) adapter_base_scheme) \<Rightarrow> client \<Rightarrow> callbacks \<Rightarrow>
   ('m, 'r, 'z) adapter_base_scheme \<Rightarrow> ('m, 'r, 'z) adapter_base_scheme"
where
  "saveClient upd c cbs s = upd (s\<lparr>mClientData := put c cbs (mClientData s)\<rparr>)"

definition eraseClient ::
  "(('m, 'r, 'z) adapter_base_scheme \<Rightarrow> ('m, 'r, 'z) adapter_base_scheme) \<Rightarrow> client \<Rightarrow>
   ('m, 'r, 'z) adapter_base_scheme \<Rightarrow> ('m, 'r, 'z) adapter_base_scheme"
where
  "eraseClient upd c s = upd (s\<lparr>mClientData := AList.delete c (mClientData s)\<rparr>)"

definition broadcastCapabilities ::
  "(64 word \<Rightarrow> 'r) \<Rightarrow> 64 word \<Rightarrow> ('m, 'r, 'z) adapter_base_scheme \<Rightarrow> ('m, 'r, 'z) adapter_base_scheme"
where
  "broadcastCapabilities cb caps s =
     s\<lparr>reports := reports s @ map (\<lambda>(c, _). (c, cb caps)) (filter (\<lambda>(_, cbs). capabilitiesCb cbs) (mClientData s))\<rparr>"

text \<open>The \<open>proc\<close> of \<open>MsgRemoveClient\<close> and \<open>MsgRequestCapabilities\<close>; \<open>MsgAddClient\<close> only saves.
  \<open>stop\<close> is the virtual \<open>stopClientSessions\<close>, \<open>done_cb\<close> the optional completion callback.\<close>

definition remove_client ::
  "(client \<Rightarrow> ('m, 'r, 'z) adapter_base_scheme \<Rightarrow> ('m, 'r, 'z) adapter_base_scheme option) \<Rightarrow>
   (('m, 'r, 'z) adapter_base_scheme \<Rightarrow> ('m, 'r, 'z) adapter_base_scheme) \<Rightarrow> 'r option \<Rightarrow> client \<Rightarrow>
   ('m, 'r, 'z) adapter_base_scheme \<Rightarrow> ('m, 'r, 'z) adapter_base_scheme option"
where
  "remove_client stop upd done_cb c s =
     do { s1 \<leftarrow> stop c s;
          let s2 = eraseClient upd c s1;
          Some (case done_cb of None \<Rightarrow> s2 | Some r \<Rightarrow> tell c r s2) }"

definition request_capabilities ::
  "(64 word \<Rightarrow> 'r) \<Rightarrow> 'm \<Rightarrow> client \<Rightarrow> ('m, 'r, 'z) adapter_base_scheme \<Rightarrow> ('m, 'r, 'z) adapter_base_scheme"
where
  "request_capabilities cb m c s =
     (if \<not> mIsEngineCapabilitiesKnown s then postpone m s
      else if capabilitiesCb (getClientCallbacks c s)
           then tell c (cb (getCapabilities True (context_of s))) s else s)"

end
