(* ===== verification/Batching.thy ===== *)
theory Batching
  imports AdapterBase
begin

text \<open>
  The batching adapter of \<open>src/gps/batching/BatchingAdapter.cpp\<close> and \<open>.h\<close>: routine and trip
  sessions of the clients on one engine that knows a single outdoor trip. The engine behind
  \<open>LocApiBase\<close> is outside the program: what is asked of it is collected in \<open>ops\<close>, and for each
  request that expects an answer the closure waits in \<open>pending\<close>; the engine may answer them in
  any order with any result (\<open>answer\<close>). A closure is a value of \<open>response\<close>. Distances and
  intervals are 32-bit words. Dereferencing the iterator of a trip that is not in the map is
  undefined, None. \<open>reportCompletedTrips\<close> reads a map node after erasing it: the argument
  \<open>stale\<close> is what such a read yields, any value, and the theorems hold for all of them.
\<close>

section \<open>Data\<close>

datatype batching_mode = ROUTINE | TRIP | NO_AUTO_REPORT | OTHER_MODE

record batching_options =
  opt_size :: "32 word"
  minInterval :: "32 word"
  minDistance :: "32 word"
  supl_mode :: nat
  locReqEngTypeMask :: nat
  batchingMode :: batching_mode

definition default_options :: batching_options where
  "default_options = \<lparr>opt_size = 0, minInterval = 0, minDistance = 0, supl_mode = 0, locReqEngTypeMask = 0, batchingMode = ROUTINE\<rparr>"

record trip_session =
  accumulatedDistanceOngoingBatch :: "32 word"
  accumulatedDistanceThisTrip :: "32 word"
  accumulatedDistanceOnTripRestart :: "32 word"
  tripDistance :: "32 word"
  tripTBFInterval :: "32 word"

datatype batching_status = TRIP_COMPLETED | POSITION_AVAILABLE | POSITION_UNAVAILABLE

datatype batching_report =
    Capabilities "64 word"
  | Response loc_error session_id
  | BatchedLocations "location list" batching_mode
  | BatchingStatus batching_status "session_id list"
  | RemoveComplete

datatype engine_op =
    SetBatchSize nat
  | SetTripBatchSize nat
  | StartBatching session_id batching_options "32 word" "32 word"
  | StopBatching session_id
  | StartTrip "32 word" "32 word" "32 word"
  | ReStartTrip "32 word" "32 word" "32 word"
  | StopTrip
  | QueryTripDistance
  | GetBatched nat
  | GetTripBatched nat

datatype response =
    StartDone client session_id batching_options
  | StopDone client session_id batching_options bool batching_options
  | TripStartDone client session_id batching_options
  | TripQueryDone client session_id batching_options
  | TripRestartDone client session_id
  | TripStopDone client session_id bool batching_options
  | SessionsRestarted
  | DistanceQueryDone bool "32 word" "32 word" "32 word"
  | ReStartDone "32 word" "32 word" "32 word"
  | GetDone client session_id
  | NoResponse

datatype batching_msg =
    MsgReadConfig
  | MsgSetConfig
  | MsgAddClient client callbacks
  | MsgRemoveClient client bool
  | MsgRequestCapabilities client
  | MsgSSREvent
  | MsgStartBatching client session_id batching_options
  | MsgUpdateBatching client session_id batching_options
  | MsgStopBatching client session_id
  | MsgGetBatchedLocations client session_id nat
  | MsgReportLocations "location list" batching_mode
  | MsgReportCompletedTrips "32 word"
  | MsgReportBatchStatus batching_status

record batching_adapter = "(batching_msg, batching_report) adapter_base" +
  mBatchingSessions :: "(session_key \<times> batching_options) list"
  mTripSessions :: "(session_id \<times> trip_session) list"
  mOngoingTripDistance :: "32 word"
  mOngoingTripTBFInterval :: "32 word"
  mTripWithOngoingTBFDropped :: bool
  mTripWithOngoingTripDistanceDropped :: bool
  mBatchingTimeout :: "32 word"
  mBatchingAccuracy :: "32 word"
  mBatchSize :: nat
  mTripBatchSize :: nat
  ops :: "engine_op list"
  pending :: "response list"

definition BIT_BATCH_FULL :: "64 word" where "BIT_BATCH_FULL = push_bit 19 1"

text \<open>\<open>1 << 31\<close> is a negative \<open>int\<close>; converting it to the 64-bit mask extends its sign.\<close>

definition BIT_BATCH_STATUS :: "64 word" where
  "BIT_BATCH_STATUS = scast (push_bit 31 1 :: 32 word)"

definition engine :: "engine_op \<Rightarrow> response \<Rightarrow> batching_adapter \<Rightarrow> batching_adapter" where
  "engine op k s = s\<lparr>ops := ops s @ [op], pending := pending s @ [k]\<rparr>"

definition engine_set :: "engine_op \<Rightarrow> batching_adapter \<Rightarrow> batching_adapter" where
  "engine_set op s = s\<lparr>ops := ops s @ [op]\<rparr>"

section \<open>Sessions\<close>

definition hasBatchingCallback :: "client \<Rightarrow> batching_adapter \<Rightarrow> bool" where
  "hasBatchingCallback c s =
     (case map_of (mClientData s) c of None \<Rightarrow> False | Some cbs \<Rightarrow> batchingCb cbs)"

definition isBatchingSession :: "client \<Rightarrow> session_id \<Rightarrow> batching_adapter \<Rightarrow> bool" where
  "isBatchingSession c i s \<longleftrightarrow> map_of (mBatchingSessions s) (LocationSessionKey c i) \<noteq> None"

definition isTripSession :: "session_id \<Rightarrow> batching_adapter \<Rightarrow> bool" where
  "isTripSession i s \<longleftrightarrow> map_of (mTripSessions s) i \<noteq> None"

definition saveBatchingSession ::
  "client \<Rightarrow> session_id \<Rightarrow> batching_options \<Rightarrow> batching_adapter \<Rightarrow> batching_adapter"
where
  "saveBatchingSession c i opt s =
     s\<lparr>mBatchingSessions := put (LocationSessionKey c i) opt (mBatchingSessions s)\<rparr>"

definition eraseBatchingSession :: "client \<Rightarrow> session_id \<Rightarrow> batching_adapter \<Rightarrow> batching_adapter" where
  "eraseBatchingSession c i s =
     s\<lparr>mBatchingSessions := AList.delete (LocationSessionKey c i) (mBatchingSessions s)\<rparr>"

definition reportResponse :: "client \<Rightarrow> loc_error \<Rightarrow> session_id \<Rightarrow> batching_adapter \<Rightarrow> batching_adapter" where
  "reportResponse c err i s =
     (case map_of (mClientData s) c of
        None \<Rightarrow> s
      | Some cbs \<Rightarrow> if responseCb cbs then tell c (Response err i) s else s)"

definition autoReportBatchingSessionsCount :: "batching_adapter \<Rightarrow> nat" where
  "autoReportBatchingSessionsCount s =
     length (filter (\<lambda>(_, opt). batchingMode opt \<noteq> NO_AUTO_REPORT) (mBatchingSessions s))
     + length (mTripSessions s)"

definition updateClientsEventMask :: "batching_adapter \<Rightarrow> batching_adapter" where
  "updateClientsEventMask s =
     (let m1 = (if \<exists>(_, cbs) \<in> set (mClientData s). batchingCb cbs then BIT_BATCH_STATUS else 0);
          m2 = (if autoReportBatchingSessionsCount s > 0 then m1 OR BIT_BATCH_FULL else m1)
      in updateEvtMask m2 MASK_SET s)"

section \<open>Starting and stopping\<close>

definition startBatching ::
  "client \<Rightarrow> session_id \<Rightarrow> batching_options \<Rightarrow> batching_adapter \<Rightarrow> batching_adapter"
where
  "startBatching c i opt s =
     (let s1 = (if batchingMode opt \<noteq> NO_AUTO_REPORT \<and> autoReportBatchingSessionsCount s = 0
                then updateEvtMask BIT_BATCH_FULL MASK_ENABLED s else s)
      in engine (StartBatching i opt (mBatchingAccuracy s) (mBatchingTimeout s)) (StartDone c i opt)
           (saveBatchingSession c i opt s1))"

definition start_done ::
  "loc_error \<Rightarrow> client \<Rightarrow> session_id \<Rightarrow> batching_options \<Rightarrow> batching_adapter \<Rightarrow> batching_adapter"
where
  "start_done err c i opt s =
     (let s1 = (if err \<noteq> SUCCESS then eraseBatchingSession c i s else s);
          s2 = (if err \<noteq> SUCCESS \<and> batchingMode opt \<noteq> NO_AUTO_REPORT \<and> autoReportBatchingSessionsCount s1 = 0
                then updateEvtMask BIT_BATCH_FULL MASK_DISABLED s1 else s1)
      in reportResponse c err i s2)"

definition stopBatching ::
  "client \<Rightarrow> session_id \<Rightarrow> bool \<Rightarrow> batching_options \<Rightarrow> batching_adapter \<Rightarrow> batching_adapter"
where
  "stopBatching c i restart opt s =
     (case map_of (mBatchingSessions s) (LocationSessionKey c i) of
        None \<Rightarrow> s
      | Some old \<Rightarrow> engine (StopBatching i) (StopDone c i old restart opt) (eraseBatchingSession c i s))"

definition startTripBatchingMultiplex ::
  "client \<Rightarrow> session_id \<Rightarrow> batching_options \<Rightarrow> batching_adapter \<Rightarrow> batching_adapter"
where
  "startTripBatchingMultiplex c i opt s =
     (if mTripSessions s = [] then
        (let s1 = (if autoReportBatchingSessionsCount s = 0 then updateEvtMask BIT_BATCH_FULL MASK_ENABLED s else s);
             s2 = saveBatchingSession c i opt s1;
             s3 = s2\<lparr>mTripSessions := put i \<lparr>accumulatedDistanceOngoingBatch = 0, accumulatedDistanceThisTrip = 0,
                       accumulatedDistanceOnTripRestart = 0, tripDistance = minDistance opt,
                       tripTBFInterval = minInterval opt\<rparr> (mTripSessions s2)\<rparr>
         in engine (StartTrip (minDistance opt) (minInterval opt) (mBatchingTimeout s)) (TripStartDone c i opt) s3)
      else engine QueryTripDistance (TripQueryDone c i opt) s)"

definition start_mode ::
  "client \<Rightarrow> session_id \<Rightarrow> batching_options \<Rightarrow> batching_adapter \<Rightarrow> batching_adapter"
where
  "start_mode c i opt s =
     (case batchingMode opt of
        ROUTINE \<Rightarrow> startBatching c i opt s
      | NO_AUTO_REPORT \<Rightarrow> startBatching c i opt s
      | TRIP \<Rightarrow> startTripBatchingMultiplex c i opt s
      | OTHER_MODE \<Rightarrow> s)"

definition stop_done ::
  "loc_error \<Rightarrow> client \<Rightarrow> session_id \<Rightarrow> batching_options \<Rightarrow> bool \<Rightarrow> batching_options \<Rightarrow>
   batching_adapter \<Rightarrow> batching_adapter"
where
  "stop_done err c i old restart opt s =
     (let s1 = (if err \<noteq> SUCCESS then saveBatchingSession c i opt s
                else
                  (let s2 = (if autoReportBatchingSessionsCount s = 0 \<and> batchingMode old \<noteq> NO_AUTO_REPORT
                             then updateEvtMask BIT_BATCH_FULL MASK_DISABLED s else s)
                   in if restart then start_mode c i opt s2 else s2))
      in reportResponse c err i s1)"

definition trip_start_done ::
  "loc_error \<Rightarrow> client \<Rightarrow> session_id \<Rightarrow> batching_options \<Rightarrow> batching_adapter \<Rightarrow> batching_adapter"
where
  "trip_start_done err c i opt s =
     (let s1 = (if err = SUCCESS
                then s\<lparr>mOngoingTripDistance := minDistance opt, mOngoingTripTBFInterval := minInterval opt\<rparr>
                else
                  (let s2 = eraseBatchingSession c i s;
                       s3 = s2\<lparr>mTripSessions := AList.delete i (mTripSessions s2)\<rparr>
                   in if autoReportBatchingSessionsCount s3 = 0
                      then updateEvtMask BIT_BATCH_FULL MASK_DISABLED s3 else s3))
      in reportResponse c err i s1)"

section \<open>Trips that share the engine\<close>

definition trip_remaining :: "trip_session \<Rightarrow> 32 word" where
  "trip_remaining t = tripDistance t - accumulatedDistanceThisTrip t"

text \<open>A minimum of 0 is not yet recorded.\<close>

definition record_min :: "32 word \<Rightarrow> 32 word \<Rightarrow> 32 word" where
  "record_min m x = (if m = 0 \<or> m > x then x else m)"

definition min_remaining :: "(session_id \<times> trip_session) list \<Rightarrow> 32 word" where
  "min_remaining m = foldl (\<lambda>a (_, t). record_min a (trip_remaining t)) 0 m"

definition min_interval :: "(session_id \<times> trip_session) list \<Rightarrow> 32 word" where
  "min_interval m = foldl (\<lambda>a (_, t). record_min a (tripTBFInterval t)) 0 m"

definition forget_ongoing :: "trip_session \<Rightarrow> trip_session" where
  "forget_ongoing t = t\<lparr>accumulatedDistanceOngoingBatch := 0,
     accumulatedDistanceOnTripRestart := accumulatedDistanceThisTrip t\<rparr>"

definition trip_query_done ::
  "loc_error \<Rightarrow> 32 word \<Rightarrow> client \<Rightarrow> session_id \<Rightarrow> batching_options \<Rightarrow> batching_adapter \<Rightarrow> batching_adapter"
where
  "trip_query_done err acc c i opt s =
     (let dist = mOngoingTripDistance s;
          shorter = mOngoingTripTBFInterval s > minInterval opt;
          interval = (if shorter then minInterval opt else mOngoingTripTBFInterval s);
          fresh = \<lparr>accumulatedDistanceOngoingBatch = acc, accumulatedDistanceThisTrip = 0,
                   accumulatedDistanceOnTripRestart = 0, tripDistance = minDistance opt,
                   tripTBFInterval = minInterval opt\<rparr>;
          remaining = dist - acc;
          (dist', needsRestart) =
            (if err \<noteq> SUCCESS then (if minDistance opt < dist then (minDistance opt, True) else (dist, shorter))
             else if minDistance opt < remaining then (minDistance opt, True)
             else if shorter then (remaining, True) else (dist, False));
          s1 = (if err \<noteq> SUCCESS then s else s\<lparr>mTripSessions := put i fresh (mTripSessions s)\<rparr>)
      in if needsRestart
         then engine (ReStartTrip dist' interval (mBatchingTimeout s)) (TripRestartDone c i)
                (s1\<lparr>mOngoingTripDistance := dist', mOngoingTripTBFInterval := interval,
                    mTripSessions := map (\<lambda>(j, t). (j, forget_ongoing t)) (mTripSessions s1)\<rparr>)
         else reportResponse c SUCCESS i s1)"

definition restartTripBatching :: "bool \<Rightarrow> 32 word \<Rightarrow> batching_adapter \<Rightarrow> batching_adapter" where
  "restartTripBatching query accDist s =
     (if mTripSessions s = [] then
        (let s1 = (engine StopTrip NoResponse s)\<lparr>mOngoingTripDistance := 0, mOngoingTripTBFInterval := 0\<rparr>
         in if autoReportBatchingSessionsCount s1 = 0 then updateEvtMask BIT_BATCH_FULL MASK_DISABLED s1 else s1)
      else engine QueryTripDistance
             (DistanceQueryDone query (min_remaining (mTripSessions s)) (min_interval (mTripSessions s)) accDist) s)"

definition distance_query_done ::
  "32 word \<Rightarrow> bool \<Rightarrow> 32 word \<Rightarrow> 32 word \<Rightarrow> 32 word \<Rightarrow> batching_adapter \<Rightarrow> batching_adapter"
where
  "distance_query_done data query minRemaining minTBF accDist s =
     (let acc = (if query then data else accDist);
          dist = mOngoingTripDistance s; interval = mOngoingTripTBFInterval s;
          (dist', r1) =
            (if \<not> mTripWithOngoingTripDistanceDropped s \<and> dist - acc \<noteq> 0
             then (if minRemaining < dist - acc then (minRemaining, True) else (dist, False))
             else if minRemaining \<noteq> 0 then (minRemaining, True) else (dist, False));
          (interval', r2) =
            (if minTBF < interval \<or> (minTBF \<noteq> interval \<and> mTripWithOngoingTBFDropped s)
             then (minTBF, True) else (interval, r1))
      in if r2 then engine (ReStartTrip dist' interval' (mBatchingTimeout s)) (ReStartDone acc dist' interval') s
         else s)"

definition carry_over :: "32 word \<Rightarrow> trip_session \<Rightarrow> trip_session" where
  "carry_over acc t =
     (let this = accumulatedDistanceOnTripRestart t + (acc - accumulatedDistanceOngoingBatch t)
      in t\<lparr>accumulatedDistanceThisTrip := this, accumulatedDistanceOngoingBatch := 0,
           accumulatedDistanceOnTripRestart := this\<rparr>)"

definition re_start_done ::
  "loc_error \<Rightarrow> 32 word \<Rightarrow> 32 word \<Rightarrow> 32 word \<Rightarrow> batching_adapter \<Rightarrow> batching_adapter"
where
  "re_start_done err acc dist interval s =
     (if err \<noteq> SUCCESS then s
      else s\<lparr>mTripSessions := map (\<lambda>(j, t). (j, carry_over acc t)) (mTripSessions s),
             mOngoingTripDistance := dist, mOngoingTripTBFInterval := interval\<rparr>)"

definition stop_trip_common ::
  "loc_error \<Rightarrow> client \<Rightarrow> session_id \<Rightarrow> bool \<Rightarrow> batching_options \<Rightarrow> batching_adapter \<Rightarrow> batching_adapter option"
where
  "stop_trip_common err c i restart opt s =
     (case map_of (mTripSessions s) i of
        None \<Rightarrow> None
      | Some t \<Rightarrow>
          (let s1 = s\<lparr>mTripWithOngoingTBFDropped :=
                        mTripWithOngoingTBFDropped s \<or> tripTBFInterval t = mOngoingTripTBFInterval s,
                      mTripWithOngoingTripDistanceDropped :=
                        mTripWithOngoingTripDistanceDropped s \<or> tripDistance t = mOngoingTripDistance s,
                      mTripSessions := AList.delete i (mTripSessions s)\<rparr>;
               s2 = (if mTripSessions s1 = [] then s1\<lparr>mOngoingTripDistance := 0, mOngoingTripTBFInterval := 0\<rparr>
                     else restartTripBatching True 0 s1);
               s3 = (if restart then start_mode c i opt (eraseBatchingSession c i s2) else s2)
           in Some (reportResponse c err i s3)))"

definition stopTripBatchingMultiplex ::
  "client \<Rightarrow> session_id \<Rightarrow> bool \<Rightarrow> batching_options \<Rightarrow> batching_adapter \<Rightarrow> batching_adapter option"
where
  "stopTripBatchingMultiplex c i restart opt s =
     (if length (mTripSessions s) = 1 then Some (engine StopTrip (TripStopDone c i restart opt) s)
      else stop_trip_common SUCCESS c i restart opt s)"

definition trip_stop_done ::
  "loc_error \<Rightarrow> client \<Rightarrow> session_id \<Rightarrow> bool \<Rightarrow> batching_options \<Rightarrow> batching_adapter \<Rightarrow> batching_adapter option"
where
  "trip_stop_done err c i restart opt s =
     stop_trip_common err c i restart opt
       (if err = SUCCESS \<and> autoReportBatchingSessionsCount s = 1
        then updateEvtMask BIT_BATCH_FULL MASK_DISABLED s else s)"

section \<open>Restart of the engine\<close>

text \<open>The loop over the trips works on copies: it computes the minima, and the resetting of
  \<open>accumulatedDistanceOngoingBatch\<close> is lost.\<close>

definition restartSessions :: "batching_adapter \<Rightarrow> batching_adapter" where
  "restartSessions s =
     (let s1 = (if autoReportBatchingSessionsCount s > 0 then updateEvtMask BIT_BATCH_FULL MASK_ENABLED s else s);
          s2 = fold (\<lambda>(k, opt) t. if batchingMode opt \<noteq> TRIP
                  then engine (StartBatching (key_id k) opt (mBatchingAccuracy t) (mBatchingTimeout t)) NoResponse t
                  else t) (mBatchingSessions s1) s1
      in if mTripSessions s2 = [] then s2
         else
           (let d = min_remaining (mTripSessions s2); v = min_interval (mTripSessions s2)
            in engine (StartTrip d v (mBatchingTimeout s2)) SessionsRestarted
                 (s2\<lparr>mOngoingTripDistance := d, mOngoingTripTBFInterval := v\<rparr>)))"

definition sessions_restarted :: "loc_error \<Rightarrow> batching_adapter \<Rightarrow> batching_adapter" where
  "sessions_restarted err s =
     (if err \<noteq> SUCCESS then s\<lparr>mOngoingTripDistance := 0, mOngoingTripTBFInterval := 0\<rparr> else s)"

definition engine_up :: "batching_adapter \<Rightarrow> batching_adapter" where
  "engine_up s =
     (let s1 = s\<lparr>mIsEngineCapabilitiesKnown := True\<rparr>;
          s2 = broadcastCapabilities Capabilities (getCapabilities True (context_of s1)) s1;
          s3 = engine_set (SetTripBatchSize (mTripBatchSize s2)) (engine_set (SetBatchSize (mBatchSize s2)) s2);
          s4 = restartSessions s3
      in (fold sendMsg (mPendingMsgs s4) s4)\<lparr>mPendingMsgs := []\<rparr>)"

section \<open>Reports\<close>

fun complete_trips ::
  "(trip_session \<Rightarrow> trip_session) \<Rightarrow> 32 word \<Rightarrow> 32 word \<Rightarrow> 32 word \<Rightarrow> (session_id \<times> trip_session) list \<Rightarrow>
   session_id list \<times> (session_id \<times> trip_session) list \<times> bool \<times> bool"
where
  "complete_trips stale acc dist interval [] = ([], [], False, False)"
| "complete_trips stale acc dist interval ((i, t) # m) =
     (let t' = t\<lparr>accumulatedDistanceThisTrip :=
                   accumulatedDistanceOnTripRestart t + (acc - accumulatedDistanceOngoingBatch t)\<rparr>;
          (ids, m', tbf, dropped) = complete_trips stale acc dist interval m
      in if tripDistance t' \<le> accumulatedDistanceThisTrip t'
         then (i # ids, m', tbf \<or> tripTBFInterval (stale t') = interval, dropped \<or> tripDistance (stale t') = dist)
         else (ids, (i, t') # m', tbf, dropped))"

definition reportBatchStatusChange :: "batching_status \<Rightarrow> session_id list \<Rightarrow> batching_adapter \<Rightarrow> batching_adapter" where
  "reportBatchStatusChange status ids s =
     s\<lparr>reports := reports s @
        map (\<lambda>(c, _). (c, BatchingStatus status ids)) (filter (\<lambda>(_, cbs). batchingStatusCb cbs) (mClientData s))\<rparr>"

definition reportCompletedTrips ::
  "(trip_session \<Rightarrow> trip_session) \<Rightarrow> 32 word \<Rightarrow> batching_adapter \<Rightarrow> batching_adapter"
where
  "reportCompletedTrips stale acc s =
     (let (ids, m, tbf, dropped) =
            complete_trips stale acc (mOngoingTripDistance s) (mOngoingTripTBFInterval s) (mTripSessions s);
          s1 = s\<lparr>mTripSessions := m,
                 mTripWithOngoingTBFDropped := mTripWithOngoingTBFDropped s \<or> tbf,
                 mTripWithOngoingTripDistanceDropped := mTripWithOngoingTripDistanceDropped s \<or> dropped\<rparr>
      in if ids = [] then s1
         else restartTripBatching False acc (reportBatchStatusChange TRIP_COMPLETED ids s1))"

definition reportLocations :: "location list \<Rightarrow> batching_mode \<Rightarrow> batching_adapter \<Rightarrow> batching_adapter" where
  "reportLocations locs m s =
     s\<lparr>reports := reports s @
        map (\<lambda>(c, _). (c, BatchedLocations locs m)) (filter (\<lambda>(_, cbs). batchingCb cbs) (mClientData s))\<rparr>"

section \<open>Commands and messages\<close>

fun stop_sessions :: "(session_key \<times> batching_options) list \<Rightarrow> batching_adapter \<Rightarrow> batching_adapter option" where
  "stop_sessions [] s = Some s"
| "stop_sessions ((k, opt) # ks) s =
     do { s1 \<leftarrow> (if batchingMode opt \<noteq> TRIP
                 then Some (stopBatching (key_client k) (key_id k) False default_options s)
                 else stopTripBatchingMultiplex (key_client k) (key_id k) False default_options s);
          stop_sessions ks s1 }"

definition stopClientSessions :: "client \<Rightarrow> batching_adapter \<Rightarrow> batching_adapter option" where
  "stopClientSessions c s = stop_sessions (filter (\<lambda>(k, _). key_client k = c) (mBatchingSessions s)) s"

definition startBatchingCommand ::
  "client \<Rightarrow> batching_options \<Rightarrow> batching_adapter \<Rightarrow> session_id \<times> batching_adapter"
where
  "startBatchingCommand c opt s = (let (i, s1) = generateSessionId s in (i, sendMsg (MsgStartBatching c i opt) s1))"

definition start_proc :: "client \<Rightarrow> session_id \<Rightarrow> batching_options \<Rightarrow> batching_adapter \<Rightarrow> batching_adapter" where
  "start_proc c i opt s =
     (if \<not> mIsEngineCapabilitiesKnown s then postpone (MsgStartBatching c i opt) s
      else
        (let err = (if \<not> hasBatchingCallback c s then CALLBACK_MISSING
                    else if opt_size opt = 0 then INVALID_PARAMETER
                    else if \<not> isMessageSupported DISTANCE_BASE_LOCATION_BATCHING (context_of s) then NOT_SUPPORTED
                    else SUCCESS)
         in if err = SUCCESS
            then (case batchingMode opt of
                    OTHER_MODE \<Rightarrow> reportResponse c INVALID_PARAMETER i s
                  | _ \<Rightarrow> start_mode c i opt s)
            else s))"

definition update_proc ::
  "client \<Rightarrow> session_id \<Rightarrow> batching_options \<Rightarrow> batching_adapter \<Rightarrow> batching_adapter option"
where
  "update_proc c i opt s =
     (if \<not> mIsEngineCapabilitiesKnown s then Some (postpone (MsgUpdateBatching c i opt) s)
      else
        (let err = (if \<not> isBatchingSession c i s then ID_UNKNOWN
                    else if opt_size opt = 0 \<or> batchingMode opt = OTHER_MODE then INVALID_PARAMETER else SUCCESS)
         in if err = SUCCESS
            then (if \<not> isTripSession i s then Some (stopBatching c i True opt s)
                  else stopTripBatchingMultiplex c i True opt s)
            else Some s))"

definition stop_proc :: "client \<Rightarrow> session_id \<Rightarrow> batching_adapter \<Rightarrow> batching_adapter option" where
  "stop_proc c i s =
     (if \<not> mIsEngineCapabilitiesKnown s then Some (postpone (MsgStopBatching c i) s)
      else if \<not> isBatchingSession c i s then Some s
      else if isTripSession i s then stopTripBatchingMultiplex c i False default_options s
      else Some (stopBatching c i False default_options s))"

definition get_proc :: "client \<Rightarrow> session_id \<Rightarrow> nat \<Rightarrow> batching_adapter \<Rightarrow> batching_adapter" where
  "get_proc c i count s =
     (if \<not> mIsEngineCapabilitiesKnown s then postpone (MsgGetBatchedLocations c i count) s
      else
        (let err = (if \<not> hasBatchingCallback c s then CALLBACK_MISSING
                    else if \<not> isBatchingSession c i s then ID_UNKNOWN else SUCCESS)
         in if err = SUCCESS
            then engine (if isTripSession i s then GetTripBatched count else GetBatched count) (GetDone c i) s
            else reportResponse c err i s))"

text \<open>The configuration file: the values of its four parameters, 0 for one that is absent.\<close>

record flp_conf =
  BATCH_SIZE :: nat
  OUTDOOR_TRIP_BATCH_SIZE :: nat
  BATCH_SESSION_TIMEOUT :: "32 word"
  ACCURACY :: "32 word"

fun proc ::
  "(trip_session \<Rightarrow> trip_session) \<Rightarrow> flp_conf \<Rightarrow> batching_msg \<Rightarrow> batching_adapter \<Rightarrow> batching_adapter option"
where
  "proc stale conf MsgReadConfig s =
     Some (s\<lparr>mBatchSize := BATCH_SIZE conf, mTripBatchSize := OUTDOOR_TRIP_BATCH_SIZE conf,
             mBatchingTimeout := BATCH_SESSION_TIMEOUT conf, mBatchingAccuracy := ACCURACY conf\<rparr>)"
| "proc stale conf MsgSetConfig s =
     Some (engine_set (SetTripBatchSize (mTripBatchSize s)) (engine_set (SetBatchSize (mBatchSize s)) s))"
| "proc stale conf (MsgAddClient c cbs) s = Some (saveClient updateClientsEventMask c cbs s)"
| "proc stale conf (MsgRemoveClient c cb) s =
     remove_client stopClientSessions updateClientsEventMask (if cb then Some RemoveComplete else None) c s"
| "proc stale conf (MsgRequestCapabilities c) s =
     Some (request_capabilities Capabilities (MsgRequestCapabilities c) c s)"
| "proc stale conf MsgSSREvent s = Some (engine_up s)"
| "proc stale conf (MsgStartBatching c i opt) s = Some (start_proc c i opt s)"
| "proc stale conf (MsgUpdateBatching c i opt) s = update_proc c i opt s"
| "proc stale conf (MsgStopBatching c i) s = stop_proc c i s"
| "proc stale conf (MsgGetBatchedLocations c i count) s = Some (get_proc c i count s)"
| "proc stale conf (MsgReportLocations locs m) s = Some (reportLocations locs m s)"
| "proc stale conf (MsgReportCompletedTrips acc) s = Some (reportCompletedTrips stale acc s)"
| "proc stale conf (MsgReportBatchStatus status) s = Some (reportBatchStatusChange status [] s)"

fun respond :: "response \<Rightarrow> loc_error \<Rightarrow> 32 word \<Rightarrow> batching_adapter \<Rightarrow> batching_adapter option" where
  "respond (StartDone c i opt) err data s = Some (start_done err c i opt s)"
| "respond (StopDone c i old restart opt) err data s = Some (stop_done err c i old restart opt s)"
| "respond (TripStartDone c i opt) err data s = Some (trip_start_done err c i opt s)"
| "respond (TripQueryDone c i opt) err data s = Some (trip_query_done err data c i opt s)"
| "respond (TripRestartDone c i) err data s = Some (reportResponse c err i s)"
| "respond (TripStopDone c i restart opt) err data s = trip_stop_done err c i restart opt s"
| "respond SessionsRestarted err data s = Some (sessions_restarted err s)"
| "respond (DistanceQueryDone query rem tbf acc) err data s = Some (distance_query_done data query rem tbf acc s)"
| "respond (ReStartDone acc dist interval) err data s = Some (re_start_done err acc dist interval s)"
| "respond (GetDone c i) err data s = Some (reportResponse c err i s)"
| "respond NoResponse err data s = Some s"

definition answer :: "nat \<Rightarrow> loc_error \<Rightarrow> 32 word \<Rightarrow> batching_adapter \<Rightarrow> batching_adapter option" where
  "answer n err data s =
     (if n < length (pending s)
      then respond (pending s ! n) err data (s\<lparr>pending := take n (pending s) @ drop (Suc n) (pending s)\<rparr>)
      else Some s)"

definition run_next ::
  "(trip_session \<Rightarrow> trip_session) \<Rightarrow> flp_conf \<Rightarrow> batching_adapter \<Rightarrow> batching_adapter option"
where
  "run_next stale conf s =
     (case msg_queue s of [] \<Rightarrow> Some s | m # ms \<Rightarrow> proc stale conf m (s\<lparr>msg_queue := ms\<rparr>))"

definition new_batching_adapter :: "context_base \<Rightarrow> bool \<Rightarrow> session_id \<Rightarrow> batching_adapter" where
  "new_batching_adapter ctx known counter =
     \<lparr>mClientData = [], mEvtMask = 0, mIsEngineCapabilitiesKnown = known, mPendingMsgs = [],
      mSessionIdCounter = counter, context_of = ctx, msg_queue = [MsgReadConfig, MsgSetConfig], open_requests = 0,
      reports = [], mBatchingSessions = [], mTripSessions = [], mOngoingTripDistance = 0, mOngoingTripTBFInterval = 0,
      mTripWithOngoingTBFDropped = False, mTripWithOngoingTripDistanceDropped = False, mBatchingTimeout = 0,
      mBatchingAccuracy = 1, mBatchSize = 0, mTripBatchSize = 0, ops = [], pending = []\<rparr>"

end
