(* ===== verification/BatchingProps.thy ===== *)
theory BatchingProps
  imports Batching
begin

text \<open>
  Properties of the batching adapter: the registration for batch-full events as an invariant of
  its messages and of the answers of the engine, the completion of trips, the distances the
  engine is asked for, and the histories in which sessions are lost, leaked or used after they
  are gone.
\<close>

section \<open>Frames\<close>

lemma reportResponse_frame [simp]:
  "mBatchingSessions (reportResponse c e i s) = mBatchingSessions s"
  "mTripSessions (reportResponse c e i s) = mTripSessions s"
  "mEvtMask (reportResponse c e i s) = mEvtMask s"
  "mClientData (reportResponse c e i s) = mClientData s"
  "ops (reportResponse c e i s) = ops s" "pending (reportResponse c e i s) = pending s"
  "mOngoingTripDistance (reportResponse c e i s) = mOngoingTripDistance s"
  "mOngoingTripTBFInterval (reportResponse c e i s) = mOngoingTripTBFInterval s"
  by (simp_all add: reportResponse_def tell_def split: option.split)

lemma engine_frame [simp]:
  "mBatchingSessions (engine op k s) = mBatchingSessions s"
  "mTripSessions (engine op k s) = mTripSessions s"
  "mEvtMask (engine op k s) = mEvtMask s"
  "mClientData (engine op k s) = mClientData s"
  "mOngoingTripDistance (engine op k s) = mOngoingTripDistance s"
  "mOngoingTripTBFInterval (engine op k s) = mOngoingTripTBFInterval s"
  by (simp_all add: engine_def)

lemma mask_frame [simp]:
  "mBatchingSessions (updateEvtMask e st s) = mBatchingSessions s"
  "mTripSessions (updateEvtMask e st s) = mTripSessions s"
  "mClientData (updateEvtMask e st s) = mClientData s"
  by (simp_all add: updateEvtMask_def)

section \<open>Who wants batch-full events\<close>

definition wants_full :: "batching_adapter \<Rightarrow> bool" where
  "wants_full s \<longleftrightarrow> autoReportBatchingSessionsCount s > 0"

lemma wants_full_iff:
  "wants_full s \<longleftrightarrow> mTripSessions s \<noteq> [] \<or> (\<exists>(k, opt) \<in> set (mBatchingSessions s). batchingMode opt \<noteq> NO_AUTO_REPORT)"
  by (auto simp: wants_full_def autoReportBatchingSessionsCount_def filter_empty_conv)

lemma count_zero [simp]: "autoReportBatchingSessionsCount s = 0 \<longleftrightarrow> \<not> wants_full s"
  by (simp add: wants_full_def)

definition batch_ok :: "batching_adapter \<Rightarrow> bool" where
  "batch_ok s \<longleftrightarrow>
     ordered (mTripSessions s) \<and> ordered (mBatchingSessions s) \<and> (wants_full s \<longrightarrow> bit (mEvtMask s) 19)"

lemma full_bit [simp]: "bit (BIT_BATCH_FULL) 19" "bit (m OR BIT_BATCH_FULL) 19"
  by (simp_all add: BIT_BATCH_FULL_def bit_simps)

lemma enabled_mask [simp]: "bit (mEvtMask (updateEvtMask BIT_BATCH_FULL MASK_ENABLED s)) 19"
  by (simp add: updateEvtMask_def)

lemma wants_full_cong:
  "mBatchingSessions t = mBatchingSessions s \<Longrightarrow> mTripSessions t = mTripSessions s \<Longrightarrow> wants_full t = wants_full s"
  by (simp add: wants_full_iff)

lemma wants_full_frame [simp]:
  "wants_full (reportResponse c e i s) = wants_full s" "wants_full (engine op k s) = wants_full s"
  "wants_full (updateEvtMask e' st s) = wants_full s"
  by (simp_all add: wants_full_iff)

lemma batch_ok_frame [simp]:
  "batch_ok (reportResponse c e i s) = batch_ok s" "batch_ok (engine op k s) = batch_ok s"
  by (simp_all add: batch_ok_def)

lemma batch_ok_shrink:
  assumes "batch_ok s" "mEvtMask t = mEvtMask s" "ordered (mTripSessions t)"
    "set (mBatchingSessions t) \<subseteq> set (mBatchingSessions s)" "ordered (mBatchingSessions t)"
    "mTripSessions t \<noteq> [] \<Longrightarrow> mTripSessions s \<noteq> []"
  shows "batch_ok t"
proof -
  have "wants_full t \<Longrightarrow> wants_full s" using assms(4,6) unfolding wants_full_iff by blast
  with assms show ?thesis by (simp add: batch_ok_def)
qed

lemma batch_ok_disable:
  "batch_ok s \<Longrightarrow> \<not> wants_full s \<Longrightarrow> batch_ok (updateEvtMask e st s)"
  by (simp add: batch_ok_def)

lemma set_put: "set (put k v m) \<subseteq> insert (k, v) (set m)"
  by (induction k v m rule: put.induct) auto

lemma delete_subset: "set (AList.delete k m) \<subseteq> set m"
  by (auto simp: delete_filter)

lemma batch_ok_erase [intro]: "batch_ok s \<Longrightarrow> batch_ok (eraseBatchingSession c i s)"
  by (rule batch_ok_shrink [of s]) (auto simp: eraseBatchingSession_def batch_ok_def delete_filter)

lemma eraseBatchingSession_frame [simp]:
  "mTripSessions (eraseBatchingSession c i s) = mTripSessions s"
  "mEvtMask (eraseBatchingSession c i s) = mEvtMask s"
  "mClientData (eraseBatchingSession c i s) = mClientData s"
  by (simp_all add: eraseBatchingSession_def)

lemma wants_full_save:
  "wants_full (saveBatchingSession c i opt s) \<Longrightarrow> wants_full s \<or> batchingMode opt \<noteq> NO_AUTO_REPORT"
  using set_put [of "LocationSessionKey c i" opt "mBatchingSessions s"]
  by (auto simp: wants_full_iff saveBatchingSession_def)

lemma batch_ok_startBatching:
  assumes "batch_ok s"
  shows "batch_ok (startBatching c i opt s)"
proof -
  define t where "t = (if batchingMode opt \<noteq> NO_AUTO_REPORT \<and> \<not> wants_full s
                       then updateEvtMask BIT_BATCH_FULL MASK_ENABLED s else s)"
  have t: "mTripSessions t = mTripSessions s" "mBatchingSessions t = mBatchingSessions s"
    by (auto simp: t_def)
  have "bit (mEvtMask t) 19" if "wants_full (saveBatchingSession c i opt t)"
  proof (cases "wants_full s")
    case True
    then show ?thesis using assms by (simp add: t_def batch_ok_def)
  next
    case False
    then have "\<not> wants_full t" using t wants_full_cong by blast
    with wants_full_save [OF that] have "batchingMode opt \<noteq> NO_AUTO_REPORT" by blast
    with False show ?thesis by (simp add: t_def)
  qed
  then have "batch_ok (saveBatchingSession c i opt t)"
    using assms t by (auto simp: batch_ok_def saveBatchingSession_def)
  then show ?thesis by (simp add: startBatching_def t_def Let_def)
qed

lemma batch_ok_start_done:
  assumes "batch_ok s"
  shows "batch_ok (start_done err c i opt s)"
  using assms by (auto simp: start_done_def Let_def intro: batch_ok_disable)

lemma batch_ok_startTrip:
  assumes "batch_ok s"
  shows "batch_ok (startTripBatchingMultiplex c i opt s)"
proof (cases "mTripSessions s = []")
  case True
  define t where "t = (if \<not> wants_full s then updateEvtMask BIT_BATCH_FULL MASK_ENABLED s else s)"
  have "bit (mEvtMask t) 19" using assms by (auto simp: t_def batch_ok_def)
  moreover have "mTripSessions t = []" "ordered (mBatchingSessions t)"
    using True assms by (auto simp: t_def batch_ok_def)
  ultimately show ?thesis using True
    by (simp add: startTripBatchingMultiplex_def t_def [symmetric] Let_def saveBatchingSession_def)
      (simp add: batch_ok_def)
next
  case False
  then show ?thesis using assms by (simp add: startTripBatchingMultiplex_def)
qed

lemma batch_ok_start_mode: "batch_ok s \<Longrightarrow> batch_ok (start_mode c i opt s)"
  by (simp add: start_mode_def batch_ok_startBatching batch_ok_startTrip split: batching_mode.split)

lemma batch_ok_stopBatching: "batch_ok s \<Longrightarrow> batch_ok (stopBatching c i r opt s)"
  by (auto simp: stopBatching_def split: option.split)

lemma batch_ok_stop_done:
  assumes "batch_ok s" "err = SUCCESS \<or> wants_full s"
  shows "batch_ok (stop_done err c i old r opt s)"
proof (cases "err = SUCCESS")
  case True
  then show ?thesis using assms(1)
    by (auto simp: stop_done_def Let_def intro: batch_ok_disable batch_ok_start_mode)
next
  case False
  with assms show ?thesis
    by (auto simp: stop_done_def Let_def batch_ok_def saveBatchingSession_def)
qed

lemma batch_ok_trip_start_done:
  assumes "batch_ok s"
  shows "batch_ok (trip_start_done err c i opt s)"
proof (cases "err = SUCCESS")
  case True
  then show ?thesis using assms by (simp add: trip_start_done_def) (simp add: batch_ok_def wants_full_iff)
next
  case False
  define t where "t = (eraseBatchingSession c i s)\<lparr>mTripSessions := AList.delete i (mTripSessions s)\<rparr>"
  have "batch_ok t"
  proof (rule batch_ok_shrink [OF assms])
    show "set (mBatchingSessions t) \<subseteq> set (mBatchingSessions s)"
      by (simp add: t_def eraseBatchingSession_def delete_subset)
    show "mTripSessions s \<noteq> []" if "mTripSessions t \<noteq> []" using that by (auto simp: t_def)
  qed (use assms in \<open>simp_all add: t_def eraseBatchingSession_def batch_ok_def\<close>)
  moreover have "trip_start_done err c i opt s =
      reportResponse c err i (if \<not> wants_full t then updateEvtMask BIT_BATCH_FULL MASK_DISABLED t else t)"
    using False by (simp add: trip_start_done_def Let_def t_def)
  ultimately show ?thesis using batch_ok_disable by (simp split: if_split)
qed

lemma batch_ok_same_sessions:
  assumes "batch_ok s" "mEvtMask t = mEvtMask s" "mBatchingSessions t = mBatchingSessions s"
    "ordered (mTripSessions t)" "mTripSessions t \<noteq> [] \<Longrightarrow> wants_full s"
  shows "batch_ok t"
proof -
  have "wants_full t \<Longrightarrow> wants_full s" using assms(3,5) by (auto simp: wants_full_iff)
  with assms show ?thesis by (simp add: batch_ok_def)
qed

lemma batch_ok_trip_query_done:
  assumes ok: "batch_ok s" and w: "err \<noteq> SUCCESS \<or> wants_full s"
  shows "batch_ok (trip_query_done err acc c i opt s)"
proof -
  have o: "ordered (mTripSessions s)" using ok by (simp add: batch_ok_def)
  have trips: "mTripSessions s \<noteq> [] \<Longrightarrow> wants_full s" by (simp add: wants_full_iff)
  show ?thesis
  proof (cases "err = SUCCESS")
    case True
    then have "wants_full s" using w by simp
    then show ?thesis using True unfolding trip_query_done_def Let_def
      by (auto intro!: batch_ok_same_sessions [OF ok] simp: o split: prod.splits)
  next
    case False
    then show ?thesis using trips unfolding trip_query_done_def Let_def
      by (auto intro!: batch_ok_same_sessions [OF ok] simp: o split: prod.splits)
  qed
qed

lemma batch_ok_restartTrip:
  assumes "batch_ok s"
  shows "batch_ok (restartTripBatching q acc s)"
proof (cases "mTripSessions s = []")
  case True
  define t where "t = (engine StopTrip NoResponse s)\<lparr>mOngoingTripDistance := 0, mOngoingTripTBFInterval := 0\<rparr>"
  have "batch_ok t" using assms by (rule batch_ok_same_sessions) (use assms True in \<open>simp_all add: t_def batch_ok_def\<close>)
  moreover have "restartTripBatching q acc s =
      (if \<not> wants_full t then updateEvtMask BIT_BATCH_FULL MASK_DISABLED t else t)"
    using True by (simp add: restartTripBatching_def t_def Let_def)
  ultimately show ?thesis using batch_ok_disable by (simp split: if_split)
next
  case False
  then show ?thesis using assms by (simp add: restartTripBatching_def)
qed

lemma batch_ok_distance_query_done:
  "batch_ok s \<Longrightarrow> batch_ok (distance_query_done data q rem tbf acc s)"
  by (simp add: distance_query_done_def Let_def split: prod.split)

lemma batch_ok_re_start_done:
  assumes "batch_ok s"
  shows "batch_ok (re_start_done err acc dist interval s)"
  using assms by (auto simp: re_start_done_def batch_ok_def wants_full_iff)

lemma batch_ok_stop_common:
  assumes ok: "batch_ok (s\<lparr>mTripSessions := AList.delete i (mTripSessions s)\<rparr>)"
    and stop: "stop_trip_common err c i restart opt s = Some s'"
  shows "batch_ok s'"
proof -
  from stop obtain t where t: "map_of (mTripSessions s) i = Some t"
    by (auto simp: stop_trip_common_def split: option.splits)
  define s1 where "s1 = s\<lparr>mTripWithOngoingTBFDropped :=
        mTripWithOngoingTBFDropped s \<or> tripTBFInterval t = mOngoingTripTBFInterval s,
      mTripWithOngoingTripDistanceDropped :=
        mTripWithOngoingTripDistanceDropped s \<or> tripDistance t = mOngoingTripDistance s,
      mTripSessions := AList.delete i (mTripSessions s)\<rparr>"
  define s2 where "s2 = (if mTripSessions s1 = [] then s1\<lparr>mOngoingTripDistance := 0, mOngoingTripTBFInterval := 0\<rparr>
     else restartTripBatching True 0 s1)"
  have s1: "batch_ok s1"
    using ok by (rule batch_ok_same_sessions) (use ok in \<open>simp_all add: s1_def batch_ok_def wants_full_iff\<close>)
  have "batch_ok (s1\<lparr>mOngoingTripDistance := 0, mOngoingTripTBFInterval := 0\<rparr>)"
    using s1 by (rule batch_ok_same_sessions) (use s1 in \<open>simp_all add: batch_ok_def wants_full_iff\<close>)
  then have s2: "batch_ok s2" using s1 batch_ok_restartTrip by (simp add: s2_def)
  have "stop_trip_common err c i restart opt s =
      Some (reportResponse c err i (if restart then start_mode c i opt (eraseBatchingSession c i s2) else s2))"
    by (simp add: stop_trip_common_def t Let_def s1_def s2_def)
  with stop have "s' = reportResponse c err i (if restart then start_mode c i opt (eraseBatchingSession c i s2) else s2)"
    by simp
  then show ?thesis using s2 batch_ok_start_mode batch_ok_erase by simp
qed

lemma batch_ok_delete_trip:
  assumes "batch_ok s"
  shows "batch_ok (s\<lparr>mTripSessions := AList.delete i (mTripSessions s)\<rparr>)"
  using assms by (rule batch_ok_shrink) (use assms in \<open>auto simp: batch_ok_def\<close>)

lemma batch_ok_stopTrip:
  "batch_ok s \<Longrightarrow> stopTripBatchingMultiplex c i restart opt s = Some s' \<Longrightarrow> batch_ok s'"
  using batch_ok_stop_common [OF batch_ok_delete_trip]
  by (fastforce simp: stopTripBatchingMultiplex_def split: if_splits)

lemma batch_ok_trip_stop_done:
  assumes ok: "batch_ok s" and stop: "trip_stop_done err c i restart opt s = Some s'"
  shows "batch_ok s'"
proof (cases "err = SUCCESS \<and> autoReportBatchingSessionsCount s = 1")
  case True
  define t where "t = updateEvtMask BIT_BATCH_FULL MASK_DISABLED s"
  have stop': "stop_trip_common err c i restart opt t = Some s'"
    using stop True by (simp add: trip_stop_done_def t_def)
  then obtain x where "map_of (mTripSessions t) i = Some x"
    by (auto simp: stop_trip_common_def split: option.splits)
  then have x: "map_of (mTripSessions s) i = Some x" by (simp add: t_def)
  have o: "ordered (mTripSessions s)" "ordered (mBatchingSessions s)" using ok by (auto simp: batch_ok_def)
  have "Suc (length (AList.delete i (mTripSessions s))) = length (mTripSessions s)"
    by (rule delete_present_length [OF o(1) x])
  then have "Suc (autoReportBatchingSessionsCount (s\<lparr>mTripSessions := AList.delete i (mTripSessions s)\<rparr>)) =
      autoReportBatchingSessionsCount s"
    unfolding autoReportBatchingSessionsCount_def by simp
  with True have "autoReportBatchingSessionsCount (s\<lparr>mTripSessions := AList.delete i (mTripSessions s)\<rparr>) = 0"
    by linarith
  then have "\<not> wants_full (t\<lparr>mTripSessions := AList.delete i (mTripSessions t)\<rparr>)"
    by (simp add: wants_full_iff t_def)
  then have "batch_ok (t\<lparr>mTripSessions := AList.delete i (mTripSessions t)\<rparr>)"
    using o by (simp add: batch_ok_def t_def)
  then show ?thesis using stop' by (rule batch_ok_stop_common)
next
  case False
  have "trip_stop_done err c i restart opt s = stop_trip_common err c i restart opt s"
    unfolding trip_stop_done_def if_not_P [OF False] by (rule refl)
  with stop show ?thesis using batch_ok_stop_common [OF batch_ok_delete_trip [OF ok]] by simp
qed

lemma batch_ok_clients_mask:
  assumes "ordered (mTripSessions s)" "ordered (mBatchingSessions s)"
  shows "batch_ok (updateClientsEventMask s)"
proof -
  have w: "wants_full (updateClientsEventMask s) = wants_full s"
    by (simp add: updateClientsEventMask_def Let_def)
  have "bit (mEvtMask (updateClientsEventMask s)) 19" if "wants_full s"
    using that by (simp add: updateClientsEventMask_def updateEvtMask_def Let_def wants_full_def)
  with w show ?thesis using assms
    by (simp add: batch_ok_def) (simp add: updateClientsEventMask_def Let_def)
qed

lemma batch_ok_clients:
  "batch_ok s \<Longrightarrow> batch_ok (updateClientsEventMask (s\<lparr>mClientData := m\<rparr>))"
  by (rule batch_ok_clients_mask) (simp_all add: batch_ok_def)

lemma batch_ok_stop_sessions:
  "stop_sessions ks s = Some s' \<Longrightarrow> batch_ok s \<Longrightarrow> batch_ok s'"
proof (induction ks s rule: stop_sessions.induct)
  case (2 k opt ks s)
  then show ?case
    by (auto simp: bind_eq_Some_conv batch_ok_stopBatching split: if_splits intro: batch_ok_stopTrip)
qed simp

lemma restart_fold:
  "mBatchingSessions (fold (\<lambda>(k, opt) t. if batchingMode opt \<noteq> TRIP
      then engine (StartBatching (key_id k) opt (mBatchingAccuracy t) (mBatchingTimeout t)) NoResponse t else t) ks s) =
     mBatchingSessions s"
  "mTripSessions (fold (\<lambda>(k, opt) t. if batchingMode opt \<noteq> TRIP
      then engine (StartBatching (key_id k) opt (mBatchingAccuracy t) (mBatchingTimeout t)) NoResponse t else t) ks s) =
     mTripSessions s"
  "mEvtMask (fold (\<lambda>(k, opt) t. if batchingMode opt \<noteq> TRIP
      then engine (StartBatching (key_id k) opt (mBatchingAccuracy t) (mBatchingTimeout t)) NoResponse t else t) ks s) =
     mEvtMask s"
  by (induction ks arbitrary: s) auto

lemma batch_ok_restartSessions:
  assumes ok: "batch_ok s"
  shows "batch_ok (restartSessions s)"
proof -
  have "mBatchingSessions (restartSessions s) = mBatchingSessions s" "mTripSessions (restartSessions s) = mTripSessions s"
    by (simp_all add: restartSessions_def restart_fold Let_def)
  moreover have "bit (mEvtMask (restartSessions s)) 19" if "wants_full s"
    using that by (simp add: restartSessions_def restart_fold Let_def wants_full_def)
  ultimately show ?thesis using ok wants_full_cong [of "restartSessions s" s] by (simp add: batch_ok_def)
qed

lemma sendMsg_frame [simp]:
  "mBatchingSessions (fold sendMsg ms s) = mBatchingSessions s"
  "mTripSessions (fold sendMsg ms s) = mTripSessions s" "mEvtMask (fold sendMsg ms s) = mEvtMask s"
  by (induction ms arbitrary: s) (simp_all add: sendMsg_def)

lemma batch_ok_engine_up:
  assumes ok: "batch_ok s"
  shows "batch_ok (engine_up s)"
proof -
  define s3 where "s3 = (let s1 = s\<lparr>mIsEngineCapabilitiesKnown := True\<rparr>;
          s2 = broadcastCapabilities Capabilities (getCapabilities True (context_of s1)) s1
      in engine_set (SetTripBatchSize (mTripBatchSize s2)) (engine_set (SetBatchSize (mBatchSize s2)) s2))"
  have s3: "mBatchingSessions s3 = mBatchingSessions s" "mTripSessions s3 = mTripSessions s" "mEvtMask s3 = mEvtMask s"
    by (simp_all add: s3_def Let_def engine_set_def broadcastCapabilities_def)
  then have "batch_ok s3" using ok by (simp add: batch_ok_def wants_full_iff)
  then have r: "batch_ok (restartSessions s3)" by (rule batch_ok_restartSessions)
  have "engine_up s = (fold sendMsg (mPendingMsgs (restartSessions s3)) (restartSessions s3))\<lparr>mPendingMsgs := []\<rparr>"
    by (simp add: engine_up_def s3_def Let_def)
  with r show ?thesis by (simp add: batch_ok_def wants_full_iff)
qed

section \<open>Completed trips\<close>

definition distance_now :: "32 word \<Rightarrow> trip_session \<Rightarrow> 32 word" where
  "distance_now acc t = accumulatedDistanceOnTripRestart t + (acc - accumulatedDistanceOngoingBatch t)"

lemma complete_trips_spec:
  "fst (complete_trips stale acc dist interval m) =
     map fst (filter (\<lambda>(_, t). tripDistance t \<le> distance_now acc t) m)"
  "fst (snd (complete_trips stale acc dist interval m)) =
     map (\<lambda>(i, t). (i, t\<lparr>accumulatedDistanceThisTrip := distance_now acc t\<rparr>))
       (filter (\<lambda>(_, t). \<not> tripDistance t \<le> distance_now acc t) m)"
proof (induction m)
  case (Cons x m)
  obtain i t where x: "x = (i, t)" by (cases x)
  obtain ids m' tbf dropped where r: "complete_trips stale acc dist interval m = (ids, m', tbf, dropped)"
    by (rule prod_cases4)
  from Cons r show "fst (complete_trips stale acc dist interval (x # m)) = map fst (filter (\<lambda>(_, t). tripDistance t \<le> distance_now acc t) (x # m))"
    by (simp add: x distance_now_def Let_def)
  from Cons r show "fst (snd (complete_trips stale acc dist interval (x # m))) =
     map (\<lambda>(i, t). (i, t\<lparr>accumulatedDistanceThisTrip := distance_now acc t\<rparr>))
       (filter (\<lambda>(_, t). \<not> tripDistance t \<le> distance_now acc t) (x # m))"
    by (simp add: x distance_now_def Let_def)
qed simp_all

lemma batch_ok_reportCompletedTrips:
  assumes ok: "batch_ok s"
  shows "batch_ok (reportCompletedTrips stale acc s)"
proof -
  obtain ids m tbf dropped where r: "complete_trips stale acc (mOngoingTripDistance s) (mOngoingTripTBFInterval s)
      (mTripSessions s) = (ids, m, tbf, dropped)"
    by (rule prod_cases4)
  have m: "m = map (\<lambda>(i, t). (i, t\<lparr>accumulatedDistanceThisTrip := distance_now acc t\<rparr>))
       (filter (\<lambda>(_, t). \<not> tripDistance t \<le> distance_now acc t) (mTripSessions s))"
    using complete_trips_spec(2) [of stale acc "mOngoingTripDistance s" "mOngoingTripTBFInterval s" "mTripSessions s"] r
    by simp
  define s1 where "s1 = s\<lparr>mTripSessions := m,
                 mTripWithOngoingTBFDropped := mTripWithOngoingTBFDropped s \<or> tbf,
                 mTripWithOngoingTripDistanceDropped := mTripWithOngoingTripDistanceDropped s \<or> dropped\<rparr>"
  have "ordered (mTripSessions s)" using ok by (simp add: batch_ok_def)
  then have "ordered m" by (simp add: m)
  moreover have "m = [] \<or> mTripSessions s \<noteq> []" by (auto simp: m)
  ultimately have s1: "batch_ok s1" using ok
    by (intro batch_ok_shrink [OF ok]) (auto simp: s1_def batch_ok_def)
  then have "batch_ok (reportBatchStatusChange st ids s1)" for st
    by (simp add: batch_ok_def wants_full_iff reportBatchStatusChange_def)
  then show ?thesis using s1 batch_ok_restartTrip
    by (simp add: reportCompletedTrips_def r s1_def Let_def)
qed

section \<open>The invariant over all histories\<close>

text \<open>
  The answers of the engine that can come too late: a stop that fails after the last interested
  session was gone, and a distance query for a new trip after the last trip was gone.
\<close>

fun late :: "response \<Rightarrow> loc_error \<Rightarrow> batching_adapter \<Rightarrow> bool" where
  "late (StopDone c i old r opt) err s \<longleftrightarrow> err \<noteq> SUCCESS \<and> \<not> wants_full s"
| "late (TripQueryDone c i opt) err s \<longleftrightarrow> err = SUCCESS \<and> \<not> wants_full s"
| "late _ err s \<longleftrightarrow> False"

lemma batch_ok_clear [simp]:
  "batch_ok (s\<lparr>mOngoingTripDistance := d, mOngoingTripTBFInterval := v\<rparr>) = batch_ok s"
  "batch_ok (s\<lparr>msg_queue := ms\<rparr>) = batch_ok s" "batch_ok (s\<lparr>pending := ks\<rparr>) = batch_ok s"
  "wants_full (s\<lparr>pending := ks\<rparr>) = wants_full s"
  by (simp_all add: batch_ok_def wants_full_iff)

lemma batch_ok_respond:
  assumes "batch_ok s" "\<not> late k err s" "respond k err data s = Some s'"
  shows "batch_ok s'"
  using assms
proof (cases k)
  case (StopDone c i old r opt)
  with assms show ?thesis using batch_ok_stop_done by fastforce
next
  case (TripQueryDone c i opt)
  with assms show ?thesis using batch_ok_trip_query_done by fastforce
next
  case (TripStopDone c i r opt)
  with assms show ?thesis using batch_ok_trip_stop_done by fastforce
next
  case SessionsRestarted
  with assms show ?thesis by (auto simp: sessions_restarted_def)
qed (auto simp: batch_ok_start_done batch_ok_trip_start_done batch_ok_distance_query_done batch_ok_re_start_done)

lemma batch_ok_postpone [simp]: "batch_ok (postpone m s) = batch_ok s"
  by (simp add: batch_ok_def wants_full_iff postpone_def)

lemma batch_ok_tell [simp]: "batch_ok (tell c r s) = batch_ok s"
  by (simp add: batch_ok_def wants_full_iff tell_def)

lemma batch_ok_engine_set [simp]: "batch_ok (engine_set op s) = batch_ok s"
  by (simp add: batch_ok_def wants_full_iff engine_set_def)

lemma batch_ok_proc:
  assumes ok: "batch_ok s" and run: "proc stale conf m s = Some s'"
  shows "batch_ok s'"
proof (cases m)
  case MsgReadConfig
  with ok run show ?thesis by (auto simp: batch_ok_def wants_full_iff)
next
  case (MsgAddClient c cbs)
  with ok run show ?thesis by (auto simp: saveClient_def batch_ok_clients)
next
  case (MsgRemoveClient c cb)
  with run obtain s1 where s1: "stopClientSessions c s = Some s1" "s' = (case (if cb then Some RemoveComplete else None) of
      None \<Rightarrow> eraseClient updateClientsEventMask c s1 | Some r \<Rightarrow> tell c r (eraseClient updateClientsEventMask c s1))"
    by (auto simp: remove_client_def Let_def bind_eq_Some_conv)
  have "batch_ok s1" using batch_ok_stop_sessions s1(1) ok by (simp add: stopClientSessions_def)
  then have "batch_ok (eraseClient updateClientsEventMask c s1)"
    by (simp add: eraseClient_def batch_ok_clients)
  with s1(2) show ?thesis by (cases cb) simp_all
next
  case (MsgUpdateBatching c i opt)
  with ok run show ?thesis
    by (auto simp: update_proc_def batch_ok_stopBatching split: if_splits intro: batch_ok_stopTrip)
next
  case (MsgStopBatching c i)
  with ok run show ?thesis
    by (auto simp: stop_proc_def batch_ok_stopBatching split: if_splits intro: batch_ok_stopTrip)
next
  case (MsgStartBatching c i opt)
  with ok run show ?thesis
    by (auto simp: start_proc_def batch_ok_start_mode Let_def split: batching_mode.split)
next
  case (MsgReportLocations locs md)
  with ok run show ?thesis by (auto simp: batch_ok_def wants_full_iff reportLocations_def)
next
  case (MsgReportBatchStatus st)
  with ok run show ?thesis by (auto simp: batch_ok_def wants_full_iff reportBatchStatusChange_def)
qed (use ok run in \<open>auto simp: batch_ok_engine_up batch_ok_reportCompletedTrips request_capabilities_def get_proc_def Let_def\<close>)

text \<open>The histories of the adapter: it processes messages, commands arrive, the engine answers.\<close>

inductive batching_reach :: "batching_adapter \<Rightarrow> bool" where
  reach_new: "batching_reach (new_batching_adapter ctx known counter)"
| reach_post: "batching_reach s \<Longrightarrow> batching_reach (sendMsg m s)"
| reach_start: "batching_reach s \<Longrightarrow> startBatchingCommand c opt s = (i, s') \<Longrightarrow> batching_reach s'"
| reach_run: "batching_reach s \<Longrightarrow> run_next stale conf s = Some s' \<Longrightarrow> batching_reach s'"
| reach_answer: "batching_reach s \<Longrightarrow> n < length (pending s) \<Longrightarrow> \<not> late (pending s ! n) err s \<Longrightarrow>
     answer n err data s = Some s' \<Longrightarrow> batching_reach s'"

lemma batch_ok_reach: "batching_reach s \<Longrightarrow> batch_ok s"
proof (induction rule: batching_reach.induct)
  case (reach_new ctx known counter)
  show ?case by (simp add: batch_ok_def wants_full_iff new_batching_adapter_def)
next
  case (reach_post s m)
  then show ?case by (simp add: sendMsg_def)
next
  case (reach_start s c opt i s')
  then show ?case
    by (auto simp: startBatchingCommand_def generateSessionId_def sendMsg_def Let_def batch_ok_def wants_full_iff)
next
  case (reach_run s stale conf s')
  then show ?case
    by (auto simp: run_next_def split: list.splits intro: batch_ok_proc [rotated])
next
  case (reach_answer s n err data s')
  have "\<not> late (pending s ! n) err (s\<lparr>pending := ks\<rparr>)" for ks
    using reach_answer.hyps(3) by (cases "pending s ! n") simp_all
  with reach_answer show ?case by (auto simp: answer_def intro: batch_ok_respond [rotated 2])
qed

text \<open>
  C10. In every history of the batching adapter in which no answer of the engine comes too late (a
  failed stop, or the distance for a new trip, after the last interested session is gone), the
  adapter is registered for batch-full events whenever a session or trip wants them, through starts,
  stops, updates, completions, failures, restarts of the engine and clients that come and go.\<close>

theorem batch_full_registered:
  assumes "batching_reach s" "autoReportBatchingSessionsCount s > 0"
  shows "bit (mEvtMask s) 19"
  using batch_ok_reach [OF assms(1)] assms(2) by (simp add: batch_ok_def wants_full_def)

section \<open>An example\<close>

definition all_callbacks :: callbacks where
  "all_callbacks = no_callbacks\<lparr>capabilitiesCb := True, responseCb := True, batchingCb := True, batchingStatusCb := True\<rparr>"

definition example_context :: context_base where
  "example_context = \<lparr>sSupportedMsgMask = 0x50, sFeaturesSupported = [], sGnssMeasurementSupported = False,
     CAPABILITIES = 0x7, SUPL_MODE = 1\<rparr>"

definition trip_options :: "32 word \<Rightarrow> batching_options" where
  "trip_options d = default_options\<lparr>opt_size := 24, minInterval := 1000, minDistance := d, batchingMode := TRIP\<rparr>"

text \<open>Client 1 has started a trip of 500 meters, session 2, which the engine has confirmed.\<close>

definition example_conf :: flp_conf where
  "example_conf = \<lparr>BATCH_SIZE = 0, OUTDOOR_TRIP_BATCH_SIZE = 0, BATCH_SESSION_TIMEOUT = 0, ACCURACY = 0\<rparr>"

definition example_start :: "batching_adapter option" where
  "example_start =
     do { s1 \<leftarrow> run_next id example_conf (new_batching_adapter example_context True 1);
          s2 \<leftarrow> run_next id example_conf s1;
          s3 \<leftarrow> run_next id example_conf (sendMsg (MsgAddClient 1 all_callbacks) s2);
          run_next id example_conf (snd (startBatchingCommand 1 (trip_options 500) s3)) }"

definition example_trip :: trip_session where
  "example_trip = \<lparr>accumulatedDistanceOngoingBatch = 0, accumulatedDistanceThisTrip = 0,
     accumulatedDistanceOnTripRestart = 0, tripDistance = 500, tripTBFInterval = 1000\<rparr>"

lemmas example_defs = new_batching_adapter_def sendMsg_def run_next_def saveClient_def engine_set_def
      updateClientsEventMask_def autoReportBatchingSessionsCount_def updateEvtMask_def startBatchingCommand_def
      generateSessionId_def start_proc_def hasBatchingCallback_def all_callbacks_def no_callbacks_def
      isMessageSupported_def example_context_def trip_options_def default_options_def start_mode_def
      startTripBatchingMultiplex_def saveBatchingSession_def engine_def answer_def trip_start_done_def
      reportResponse_def tell_def example_trip_def example_conf_def Let_def

lemma example_start_result:
  "\<exists>s. example_start = Some s \<and> pending s = [TripStartDone 1 2 (trip_options 500)]"
  by (simp add: example_start_def example_defs)

lemma example_run_result:
  "\<exists>s. do { s \<leftarrow> example_start; answer 0 SUCCESS 0 s } = Some s \<and> mTripSessions s = [(2, example_trip)] \<and>
     mBatchingSessions s = [(LocationSessionKey 1 2, trip_options 500)] \<and> mIsEngineCapabilitiesKnown s \<and>
     mOngoingTripDistance s = 500 \<and> mOngoingTripTBFInterval s = 1000 \<and> mClientData s = [(1, all_callbacks)] \<and>
     autoReportBatchingSessionsCount s = 2 \<and> pending s = []"
  by (simp add: example_start_def example_defs)

definition example_adapter :: batching_adapter where
  "example_adapter = the (do { s \<leftarrow> example_start; answer 0 SUCCESS 0 s })"

lemma example_adapter:
  "do { s \<leftarrow> example_start; answer 0 SUCCESS 0 s } = Some example_adapter"
  "mTripSessions example_adapter = [(2, example_trip)]"
  "mBatchingSessions example_adapter = [(LocationSessionKey 1 2, trip_options 500)]"
  "mIsEngineCapabilitiesKnown example_adapter" "mOngoingTripDistance example_adapter = 500"
  "mOngoingTripTBFInterval example_adapter = 1000" "mClientData example_adapter = [(1, all_callbacks)]"
  "autoReportBatchingSessionsCount example_adapter = 2" "pending example_adapter = []"
  using example_run_result by (auto simp: example_adapter_def)

lemma example_reach: "batching_reach example_adapter"
proof -
  obtain s where s: "example_start = Some s" "pending s = [TripStartDone 1 2 (trip_options 500)]"
    using example_start_result by blast
  obtain s1 s2 s3 where run: "run_next id example_conf (new_batching_adapter example_context True 1) = Some s1"
    "run_next id example_conf s1 = Some s2"
    "run_next id example_conf (sendMsg (MsgAddClient 1 all_callbacks) s2) = Some s3"
    "run_next id example_conf (snd (startBatchingCommand 1 (trip_options 500) s3)) = Some s"
    using s(1) by (auto simp: example_start_def bind_eq_Some_conv)
  have "batching_reach s3" by (rule reach_run [OF reach_post [OF reach_run [OF reach_run [OF reach_new run(1)] run(2)]] run(3)])
  then have "batching_reach (snd (startBatchingCommand 1 (trip_options 500) s3))"
    by (rule reach_start [OF _ prod.collapse [symmetric]])
  then have "batching_reach s" by (rule reach_run [OF _ run(4)])
  moreover have "answer 0 SUCCESS 0 s = Some example_adapter"
    using example_adapter(1) unfolding s(1) Option.bind.simps .
  ultimately show ?thesis using reach_answer [of s 0 SUCCESS 0 example_adapter] s(2) by simp
qed

lemma batch_full_registered_witness: "bit (mEvtMask example_adapter) 19"
  by (rule batch_full_registered [OF example_reach]) (simp add: example_adapter)

section \<open>What completion, restart and the shortest distance do\<close>

lemma restartTripBatching_frame [simp]:
  "mTripSessions (restartTripBatching q acc s) = mTripSessions s"
  "mBatchingSessions (restartTripBatching q acc s) = mBatchingSessions s"
  "reports (restartTripBatching q acc s) = reports s"
  by (simp_all add: restartTripBatching_def engine_def updateEvtMask_def Let_def)

text \<open>
  C21. When the engine reports the distance it has covered, exactly the trips whose own distance has
  reached their goal are taken out and reported, in the order of their session ids, to every client
  with a status callback; the others stay, with the distance they have covered so far; nothing is
  reported when no trip is complete. This holds whatever the code reads from a trip it has erased.\<close>

theorem completed_trips_reported:
  defines "complete \<equiv> \<lambda>acc t. tripDistance t \<le> distance_now acc t"
  shows "mTripSessions (reportCompletedTrips stale acc s) =
           map (\<lambda>(i, t). (i, t\<lparr>accumulatedDistanceThisTrip := distance_now acc t\<rparr>))
             (filter (\<lambda>(_, t). \<not> complete acc t) (mTripSessions s)) \<and>
         reports (reportCompletedTrips stale acc s) =
           reports s @ (if \<exists>(_, t) \<in> set (mTripSessions s). complete acc t
             then map (\<lambda>(c, _). (c, BatchingStatus TRIP_COMPLETED
                     (map fst (filter (\<lambda>(_, t). complete acc t) (mTripSessions s)))))
                   (filter (\<lambda>(_, cbs). batchingStatusCb cbs) (mClientData s))
             else [])"
proof -
  obtain ids m tbf dropped where r: "complete_trips stale acc (mOngoingTripDistance s) (mOngoingTripTBFInterval s)
      (mTripSessions s) = (ids, m, tbf, dropped)"
    by (rule prod_cases4)
  note spec = complete_trips_spec [of stale acc "mOngoingTripDistance s" "mOngoingTripTBFInterval s" "mTripSessions s"]
  have ids: "ids = map fst (filter (\<lambda>(_, t). complete acc t) (mTripSessions s))"
    and m: "m = map (\<lambda>(i, t). (i, t\<lparr>accumulatedDistanceThisTrip := distance_now acc t\<rparr>))
       (filter (\<lambda>(_, t). \<not> complete acc t) (mTripSessions s))"
    using spec r by (simp_all add: complete_def)
  have e: "ids = [] \<longleftrightarrow> \<not> (\<exists>(_, t) \<in> set (mTripSessions s). complete acc t)"
    by (auto simp: ids filter_empty_conv)
  show ?thesis
    using e by (simp add: reportCompletedTrips_def r Let_def m [symmetric] ids [symmetric] reportBatchStatusChange_def)
qed

lemma record_min_fold:
  assumes "\<forall>x\<in>set xs. x \<noteq> 0"
  shows "foldl record_min a xs = (if a = 0 then (if xs = [] then 0 else Min (set xs)) else Min (insert a (set xs)))"
  using assms
proof (induction xs arbitrary: a)
  case (Cons x xs)
  have r: "record_min a x = (if a = 0 then x else min a x)"
    by (auto simp: record_min_def min_def)
  show ?case
  proof (cases "a = 0")
    case True
    then show ?thesis using Cons r by simp
  next
    case False
    then have "min a x \<noteq> 0" using Cons.prems by (simp add: min_def)
    moreover have "Min (insert (min a x) (set xs)) = Min (insert a (insert x (set xs)))"
      by (cases "xs = []") (simp_all add: Min_insert2 min.assoc)
    ultimately show ?thesis using Cons False r by simp
  qed
qed simp

lemma min_remaining_Min:
  assumes "m \<noteq> []" "\<forall>t\<in>snd ` set m. trip_remaining t \<noteq> 0"
  shows "min_remaining m = Min (trip_remaining ` snd ` set m)"
proof -
  have "min_remaining m = foldl record_min 0 (map (trip_remaining \<circ> snd) m)"
    by (simp add: min_remaining_def foldl_map split_def)
  then show ?thesis using assms by (simp add: record_min_fold image_comp comp_assoc)
qed

lemma min_interval_Min:
  assumes "m \<noteq> []" "\<forall>t\<in>snd ` set m. tripTBFInterval t \<noteq> 0"
  shows "min_interval m = Min (tripTBFInterval ` snd ` set m)"
proof -
  have "min_interval m = foldl record_min 0 (map (tripTBFInterval \<circ> snd) m)"
    by (simp add: min_interval_def foldl_map split_def)
  then show ?thesis using assms by (simp add: record_min_fold image_comp comp_assoc)
qed

text \<open>
  After the engine has come back, one outdoor trip is started for all sessions: it ends after
  the shortest distance any of them still has to cover, with the shortest of their intervals, and
  these become the ongoing distance and interval. (A remaining distance or interval of 0 would count
  as not yet recorded.)\<close>

theorem restart_asks_for_nearest:
  assumes "mTripSessions s \<noteq> []"
    and "\<forall>t\<in>snd ` set (mTripSessions s). trip_remaining t \<noteq> 0 \<and> tripTBFInterval t \<noteq> 0"
  shows "last (ops (restartSessions s)) =
           StartTrip (Min (trip_remaining ` snd ` set (mTripSessions s)))
             (Min (tripTBFInterval ` snd ` set (mTripSessions s))) (mBatchingTimeout s) \<and>
         mOngoingTripDistance (restartSessions s) = Min (trip_remaining ` snd ` set (mTripSessions s)) \<and>
         mOngoingTripTBFInterval (restartSessions s) = Min (tripTBFInterval ` snd ` set (mTripSessions s))"
proof -
  have t: "mBatchingTimeout (fold (\<lambda>(k, opt) t. if batchingMode opt \<noteq> TRIP
      then engine (StartBatching (key_id k) opt (mBatchingAccuracy t) (mBatchingTimeout t)) NoResponse t else t) ks u) =
     mBatchingTimeout u" for ks u
    by (induction ks arbitrary: u) (auto simp: engine_def)
  show ?thesis using assms
    by (simp add: restartSessions_def restart_fold Let_def engine_def t min_remaining_Min min_interval_Min)
      (simp add: updateEvtMask_def)
qed

lemma restart_asks_for_nearest_witness:
  "last (ops (restartSessions example_adapter)) = StartTrip 500 1000 (mBatchingTimeout example_adapter)"
  using restart_asks_for_nearest [of example_adapter]
  by (simp add: example_adapter example_trip_def trip_remaining_def)

text \<open>
  When the engine confirms the restart that follows a completed or stopped trip, no trip loses
  distance: with the counter of the engine starting anew at 0, every trip stands at the distance it
  had covered when the restart was asked for, and the distance and interval asked for become the
  ongoing ones.
\<close>
theorem restart_keeps_distance:
  shows "map (\<lambda>(i, t). (i, distance_now 0 t, tripDistance t)) (mTripSessions (re_start_done SUCCESS acc d v s)) =
           map (\<lambda>(i, t). (i, distance_now acc t, tripDistance t)) (mTripSessions s) \<and>
         mOngoingTripDistance (re_start_done SUCCESS acc d v s) = d \<and>
         mOngoingTripTBFInterval (re_start_done SUCCESS acc d v s) = v"
  by (simp add: re_start_done_def carry_over_def distance_now_def Let_def comp_def split_def)

text \<open>
  A new trip that is shorter than what is left of the ongoing one makes the trips that are
  already running forget the distance covered since they were last restarted: the source copies
  \<open>accumulatedDistanceThisTrip\<close>, which only a report of completed trips updates, and not the
  distance the engine has just reported.
\<close>
theorem new_trip_forgets_distance:
  assumes "map_of (mTripSessions s) j = Some t" "j \<noteq> i" "ordered (mTripSessions s)"
    and "minDistance opt < mOngoingTripDistance s - acc"
  shows "\<exists>t'. map_of (mTripSessions (trip_query_done SUCCESS acc c i opt s)) j = Some t' \<and>
     tripDistance t' = tripDistance t \<and> distance_now 0 t' = accumulatedDistanceThisTrip t"
proof -
  have m: "map_of (map (\<lambda>(j, t). (j, forget_ongoing t)) m) j = map_option forget_ongoing (map_of m j)"
    for m :: "(session_id \<times> trip_session) list"
    by (induction m) auto
  have "map_of (mTripSessions (trip_query_done SUCCESS acc c i opt s)) j = Some (forget_ongoing t)"
    using assms by (simp add: trip_query_done_def Let_def m)
  then show ?thesis by (simp add: forget_ongoing_def distance_now_def)
qed

lemma new_trip_forgets_distance_witness:
  "\<exists>t'. map_of (mTripSessions (trip_query_done SUCCESS 300 1 3 (trip_options 100) example_adapter)) 2 = Some t' \<and>
     tripDistance t' = 500 \<and> distance_now 0 t' = 0 \<and> distance_now 300 example_trip = 300"
  using new_trip_forgets_distance [of example_adapter 2 example_trip 3 "trip_options 100" 300 1]
  by (simp add: example_adapter example_trip_def trip_options_def distance_now_def)

section \<open>Sessions lost, leaked and used after they are gone\<close>

text \<open>
  Only the first of the trips that run at a time is entered into the batching sessions. A trip
  that joins a running one is started, but its client can neither stop nor update it: both commands
  are dropped without an answer.\<close>

theorem second_trip_cannot_be_stopped:
  assumes "mTripSessions s \<noteq> []" "\<not> isBatchingSession c i s" "mIsEngineCapabilitiesKnown s" "ordered (mTripSessions s)"
    and s': "s' = trip_query_done SUCCESS acc c i opt (startTripBatchingMultiplex c i opt s)"
  shows "isTripSession i s' \<and> stop_proc c i s' = Some s' \<and> update_proc c i opt' s' = Some s'"
proof -
  have s'_def: "s' = trip_query_done SUCCESS acc c i opt (engine QueryTripDistance (TripQueryDone c i opt) s)"
    using assms(1) by (simp add: s' startTripBatchingMultiplex_def)
  have m: "map_of (map (\<lambda>(j, t). (j, forget_ongoing t)) m) i = map_option forget_ongoing (map_of m i)"
    for m :: "(session_id \<times> trip_session) list"
    by (induction m) auto
  have sess: "mBatchingSessions s' = mBatchingSessions s"
    by (simp add: s'_def trip_query_done_def Let_def split: prod.split)
  have known: "mIsEngineCapabilitiesKnown s'"
    using assms(3) by (simp add: s'_def trip_query_done_def Let_def engine_def reportResponse_def tell_def
        split: prod.split option.split)
  have trip: "isTripSession i s'"
    using assms(4) by (simp add: s'_def trip_query_done_def Let_def isTripSession_def m split: prod.split)
  have "\<not> isBatchingSession c i s'" using assms(2) sess by (simp add: isBatchingSession_def)
  with known trip show ?thesis by (simp add: stop_proc_def update_proc_def)
qed

lemma second_trip_cannot_be_stopped_witness:
  "let s' = trip_query_done SUCCESS 0 1 3 (trip_options 800) (startTripBatchingMultiplex 1 3 (trip_options 800) example_adapter)
   in isTripSession 3 s' \<and> stop_proc 1 3 s' = Some s' \<and> update_proc 1 3 default_options s' = Some s'"
  unfolding Let_def
  by (rule second_trip_cannot_be_stopped [OF _ _ _ _ refl]) (simp_all add: example_adapter isBatchingSession_def)

text \<open>
  A completed trip leaves the trips but stays in the batching sessions. When its client goes
  away afterwards, the adapter looks the trip up, finds nothing, and dereferences the end of the
  map: undefined behaviour.
\<close>
theorem remove_client_after_trip_undefined:
  assumes "mBatchingSessions s = [(LocationSessionKey c i, opt)]" "batchingMode opt = TRIP"
    and "mTripSessions s = [(i, t)]" "tripDistance t \<le> distance_now acc t"
  shows "proc stale conf (MsgRemoveClient c cb) (reportCompletedTrips stale acc s) = None"
proof -
  have "mTripSessions (reportCompletedTrips stale acc s) = []"
    using complete_trips_spec [of stale acc "mOngoingTripDistance s" "mOngoingTripTBFInterval s" "mTripSessions s"] assms(3,4)
    by (simp add: reportCompletedTrips_def reportBatchStatusChange_def Let_def split_def)
  moreover have "mBatchingSessions (reportCompletedTrips stale acc s) = mBatchingSessions s"
    by (simp add: reportCompletedTrips_def reportBatchStatusChange_def Let_def split: prod.split)
  ultimately show ?thesis
    using assms(1,2) by (simp add: remove_client_def stopClientSessions_def stopTripBatchingMultiplex_def stop_trip_common_def)
qed

lemma remove_client_after_trip_undefined_witness:
  "proc id example_conf (MsgRemoveClient 1 True) (reportCompletedTrips id 500 example_adapter) = None"
  using remove_client_after_trip_undefined [of example_adapter 1 2 "trip_options 500" example_trip 500 id example_conf True]
  by (simp add: example_adapter trip_options_def example_trip_def distance_now_def)

text \<open>
  Stopping the last trip leaves its batching session behind: the engine has no trip any more, but
  the session still counts, so the adapter stays registered for batch-full events.
\<close>
theorem stopped_trip_stays_counted:
  assumes "mBatchingSessions s = [(LocationSessionKey c i, opt)]" "batchingMode opt = TRIP"
    and "mTripSessions s = [(i, t)]" "bit (mEvtMask s) 19"
  shows "\<exists>s'. trip_stop_done SUCCESS c i False default_options s = Some s' \<and> mTripSessions s' = [] \<and>
     isBatchingSession c i s' \<and> autoReportBatchingSessionsCount s' = 1 \<and> bit (mEvtMask s') 19"
proof -
  have n: "autoReportBatchingSessionsCount s \<noteq> 1"
    using assms by (simp add: autoReportBatchingSessionsCount_def)
  show ?thesis using assms n
    by (simp add: trip_stop_done_def stop_trip_common_def Let_def isBatchingSession_def autoReportBatchingSessionsCount_def)
qed

lemma stopped_trip_stays_counted_witness:
  "\<exists>s'. trip_stop_done SUCCESS 1 2 False default_options example_adapter = Some s' \<and> mTripSessions s' = [] \<and>
     autoReportBatchingSessionsCount s' = 1"
  using stopped_trip_stays_counted [of example_adapter 1 2 "trip_options 500" example_trip]
    batch_ok_reach [OF example_reach]
  by (auto simp: example_adapter trip_options_def batch_ok_def wants_full_def)

text \<open>
  When the engine refuses to stop a session, the adapter puts the session back, but with the
  options of the stop command, which for a plain stop are the default ones, instead of those the
  session runs with.
\<close>
theorem failed_stop_loses_options:
  assumes "map_of (mBatchingSessions s) (LocationSessionKey c i) = Some old" "ordered (mBatchingSessions s)"
    and "err \<noteq> SUCCESS"
  shows "pending (stopBatching c i False default_options s) = pending s @ [StopDone c i old False default_options] \<and>
    map_of (mBatchingSessions (stop_done err c i old False default_options (stopBatching c i False default_options s)))
      (LocationSessionKey c i) = Some default_options"
  using assms by (simp add: stopBatching_def engine_def eraseBatchingSession_def stop_done_def saveBatchingSession_def Let_def)

lemma failed_stop_loses_options_witness:
  "map_of (mBatchingSessions (stop_done GENERAL_FAILURE 1 2 (trip_options 500) False default_options
      (stopBatching 1 2 False default_options example_adapter))) (LocationSessionKey 1 2) = Some default_options"
  using failed_stop_loses_options [of example_adapter 1 2 "trip_options 500" GENERAL_FAILURE]
  by (simp add: example_adapter)

text \<open>
  A client with a batching callback makes the adapter register for every event of the engine
  with a number from 31 on, not only for the batch status: the mask of the batch status is the
  negative number \<open>1 << 31\<close>, extended to 64 bits.
\<close>
theorem batch_status_registers_all_above:
  assumes "batchingCb cbs" "31 \<le> n" "n < 64"
  shows "bit (mEvtMask (saveClient updateClientsEventMask c cbs s)) n"
proof -
  have eq: "BIT_BATCH_STATUS = NOT (mask 31)"
    by (simp add: BIT_BATCH_STATUS_def mask_eq_exp_minus_1)
  have "bit BIT_BATCH_STATUS n"
    unfolding eq bit_not_iff bit_mask_iff using assms(2,3) by simp
  moreover have "(c, cbs) \<in> set (put c cbs m)" for m :: "(client \<times> callbacks) list"
    by (induction c cbs m rule: put.induct) auto
  ultimately show ?thesis using assms(1)
    by (auto simp: saveClient_def updateClientsEventMask_def updateEvtMask_def Let_def bit_simps)
qed

lemma batch_status_registers_all_above_witness:
  "bit (mEvtMask (saveClient updateClientsEventMask 1 all_callbacks example_adapter)) 36"
  by (rule batch_status_registers_all_above) (simp_all add: all_callbacks_def)

text \<open>
  Without the side condition of the invariant it fails: when the distance for a new trip arrives
  after the last session is gone, the trip is entered although nothing is registered.
\<close>
theorem late_trip_is_not_registered:
  assumes "mTripSessions s = []" "\<not> bit (mEvtMask s) 19"
  shows "isTripSession i (trip_query_done SUCCESS acc c i opt s) \<and>
    \<not> bit (mEvtMask (trip_query_done SUCCESS acc c i opt s)) 19"
  using assms by (simp add: trip_query_done_def Let_def isTripSession_def split: prod.split)

lemma late_trip_is_not_registered_witness:
  "isTripSession 3 (trip_query_done SUCCESS 0 1 3 (trip_options 800) (new_batching_adapter example_context True 1))"
  using late_trip_is_not_registered [of "new_batching_adapter example_context True 1" 3 0 1 "trip_options 800"]
  by (simp add: new_batching_adapter_def)

end
