(* ===== verification/SetMap.thy ===== *)
theory SetMap
  imports Prelude
begin

text \<open>
  The map of sets of \<open>src/gps/utils/LocUnorderedSetMap.h\<close>. Unordered sets and maps have no order
  that a caller may rely on: sets are sets, the map is a partial function, and the loops over sets,
  whose iterations touch different keys or only add to a result, are comprehensions. Two functions
  use an iterator after they have erased its element. Advancing it
  (\<open>removeAndReturnInterset\<close>) is undefined, None. Reading the key of the erased entry
  (\<open>trimOrRemove\<close>) yields whatever the freed node holds: the argument \<open>stale\<close> maps the key that
  was erased to the one that is read, and is the identity when the storage is still intact.
\<close>

type_synonym ('k, 'v) set_map = "'k \<Rightarrow> 'v set option"

definition val_set :: "('k, 'v) set_map \<Rightarrow> 'k \<Rightarrow> 'v set" where
  "val_set m k = (case m k of None \<Rightarrow> {} | Some vs \<Rightarrow> vs)"

definition trimSet :: "'v set \<Rightarrow> 'v set \<Rightarrow> 'v set \<Rightarrow> 'v set \<times> 'v set" where
  "trimSet fromSet rVals goneVals = (fromSet - rVals, goneVals \<union> (fromSet \<inter> rVals))"

definition removeAndReturnInterset :: "'v set \<Rightarrow> 'v set \<Rightarrow> ('v set \<times> 'v set \<times> 'v set) option" where
  "removeAndReturnInterset s1 s2 = (if s1 \<inter> s2 = {} then Some ({}, s1, s2) else None)"

definition getKeys :: "('k, 'v) set_map \<Rightarrow> 'k set" where
  "getKeys m = dom m"

definition remove_key :: "'k \<Rightarrow> ('k, 'v) set_map \<Rightarrow> bool \<times> ('k, 'v) set_map" where
  "remove_key k m = (m k \<noteq> None, m(k := None))"

text \<open>The entry of one key after trimming: whether it went away, and what is left of it.\<close>

definition trim_entry :: "'v set \<Rightarrow> 'v set option \<Rightarrow> 'v set option" where
  "trim_entry rVals entry =
     (case entry of None \<Rightarrow> None
      | Some vs \<Rightarrow> (let left = fst (trimSet vs rVals {}) in if left = {} then None else Some left))"

definition trimOrRemove ::
  "('k \<Rightarrow> 'k) \<Rightarrow> 'k set \<Rightarrow> 'v set \<Rightarrow> ('k, 'v) set_map \<Rightarrow> ('k, 'v) set_map \<times> 'k set \<times> 'v set"
where
  "trimOrRemove stale keys rVals m =
     ((\<lambda>k. if k \<in> keys then trim_entry rVals (m k) else m k),
      stale ` {k \<in> keys. m k \<noteq> None \<and> trim_entry rVals (m k) = None},
      (\<Union>k\<in>keys. snd (trimSet (val_set m k) rVals {})))"

definition add_vals :: "'k \<Rightarrow> 'v set \<Rightarrow> ('k, 'v) set_map \<Rightarrow> bool \<times> ('k, 'v) set_map" where
  "add_vals key newVals m =
     (if newVals = {} then (False, m)
      else case m key of
          Some vs \<Rightarrow> (False, m(key \<mapsto> vs \<union> newVals))
        | None \<Rightarrow> (True, m(key \<mapsto> newVals)))"

definition add_keys :: "'k set \<Rightarrow> 'v set \<Rightarrow> ('k, 'v) set_map \<Rightarrow> ('k, 'v) set_map \<times> 'k set" where
  "add_keys keys newVals m =
     ((\<lambda>k. if k \<in> keys then snd (add_vals k newVals m) k else m k), {k \<in> keys. fst (add_vals k newVals m)})"

text \<open>The values that go out, what is left of the new values, and the map.\<close>

definition update_vals ::
  "'k \<Rightarrow> 'v set \<Rightarrow> ('k, 'v) set_map \<Rightarrow> ('v set \<times> 'v set \<times> ('k, 'v) set_map) option"
where
  "update_vals key newVals m =
     (if newVals = {} then Some ({}, newVals, m(key := None))
      else do { (gone, cur, left) \<leftarrow> removeAndReturnInterset (val_set m key) newVals;
                Some (gone, left, m(key \<mapsto> newVals)) })"

section \<open>The map as a relation\<close>

definition related :: "('k, 'v) set_map \<Rightarrow> 'k \<Rightarrow> 'v \<Rightarrow> bool" where
  "related m k v \<longleftrightarrow> v \<in> val_set m k"

definition no_empty :: "('k, 'v) set_map \<Rightarrow> bool" where
  "no_empty m \<longleftrightarrow> (\<forall>k. m k \<noteq> Some {})"

lemma related_upd [simp]: "related (m(k \<mapsto> vs)) k' v \<longleftrightarrow> (if k' = k then v \<in> vs else related m k' v)"
  "related (m(k := None)) k' v \<longleftrightarrow> k' \<noteq> k \<and> related m k' v"
  by (simp_all add: related_def val_set_def)

lemma val_set_related: "val_set m k = {v. related m k v}"
  by (simp add: related_def)

lemma related_trim [simp]:
  "related (fst (trimOrRemove stale keys rVals m)) k v \<longleftrightarrow> related m k v \<and> \<not> (k \<in> keys \<and> v \<in> rVals)"
  by (auto simp: related_def val_set_def trimOrRemove_def trim_entry_def trimSet_def Let_def split: option.splits if_splits)

lemma no_empty_trim [intro]: "no_empty m \<Longrightarrow> no_empty (fst (trimOrRemove stale keys rVals m))"
  by (auto simp: no_empty_def trimOrRemove_def trim_entry_def Let_def split: option.splits)

lemma trim_gone_vals: "v \<in> snd (snd (trimOrRemove stale keys rVals m)) \<longleftrightarrow> v \<in> rVals \<and> (\<exists>k\<in>keys. related m k v)"
  by (auto simp: trimOrRemove_def trimSet_def related_def)

lemma trim_gone_keys:
  "no_empty m \<Longrightarrow> fst (snd (trimOrRemove id keys rVals m)) = {k \<in> keys. k \<in> dom m \<and> (\<forall>v. related m k v \<longrightarrow> v \<in> rVals)}"
  by (auto simp: trimOrRemove_def trim_entry_def trimSet_def related_def val_set_def Let_def split: option.splits if_splits)

lemma dom_no_empty: "no_empty m \<Longrightarrow> k \<in> dom m \<longleftrightarrow> (\<exists>v. related m k v)"
  by (cases "m k") (use ex_in_conv in \<open>fastforce simp: no_empty_def related_def val_set_def\<close>)+

lemma related_add [simp]:
  "related (snd (add_vals key vs m)) k v \<longleftrightarrow> related m k v \<or> (k = key \<and> v \<in> vs)"
  by (auto simp: add_vals_def related_def val_set_def split: option.splits)

lemma no_empty_add [intro]: "no_empty m \<Longrightarrow> no_empty (snd (add_vals key vs m))"
  by (auto simp: add_vals_def no_empty_def split: option.splits)

lemma related_add_keys [simp]:
  "related (fst (add_keys keys vs m)) k v \<longleftrightarrow> related m k v \<or> (k \<in> keys \<and> v \<in> vs)"
  by (auto simp: add_keys_def add_vals_def related_def val_set_def split: option.splits)

lemma no_empty_add_keys [intro]: "no_empty m \<Longrightarrow> no_empty (fst (add_keys keys vs m))"
  by (auto simp: add_keys_def add_vals_def no_empty_def split: option.splits if_splits)

lemma add_keys_new: "vs \<noteq> {} \<Longrightarrow> snd (add_keys keys vs m) = keys - dom m"
  by (auto simp: add_keys_def add_vals_def split: option.splits)

lemma dom_add_keys: "vs \<noteq> {} \<Longrightarrow> dom (fst (add_keys keys vs m)) = dom m \<union> keys"
  by (auto simp: add_keys_def add_vals_def split: option.splits if_splits)

lemma update_vals_Some:
  "update_vals key newVals m = Some (gone, left, m') \<longleftrightarrow>
     gone = {} \<and> left = newVals \<and> (if newVals = {} then m' = m(key := None)
       else val_set m key \<inter> newVals = {} \<and> m' = m(key \<mapsto> newVals))"
  by (auto simp: update_vals_def removeAndReturnInterset_def)

end
