(* ===== verification/CText.thy ===== *)
theory CText
  imports Prelude "HOL-Library.Word" "HOL-Library.Sublist"
begin

text \<open>
  The C and C++ text functions the parsers of the repository use: \<open>isspace\<close>,
  \<open>android::base::Trim\<close>, \<open>std::string::find\<close> and \<open>substr\<close>, \<open>std::getline\<close>,
  \<open>strtoul\<close> and \<open>std::to_string\<close> of integers, over strings as lists of characters, in the
  C locale. The lemmas are the facts the round trips of the components rest on: what a number
  prints is read back, and a search stops at the first match.
\<close>

section \<open>Characters and decimal numbers\<close>

definition is_space :: "char \<Rightarrow> bool" where
  "is_space c \<longleftrightarrow> of_char c = (32 :: nat) \<or> (9 \<le> (of_char c :: nat) \<and> (of_char c :: nat) \<le> 13)"

definition is_digit :: "char \<Rightarrow> bool" where
  "is_digit c \<longleftrightarrow> 48 \<le> (of_char c :: nat) \<and> (of_char c :: nat) \<le> 57"

definition digit_value :: "char \<Rightarrow> nat" where
  "digit_value c = of_char c - 48"

definition digit :: "nat \<Rightarrow> char" where
  "digit n = char_of (48 + n)"

fun to_dec :: "nat \<Rightarrow> string" where
  "to_dec n = (if n < 10 then [digit n] else to_dec (n div 10) @ [digit (n mod 10)])"

declare to_dec.simps [simp del]

definition dec_value :: "string \<Rightarrow> nat" where
  "dec_value s = foldl (\<lambda>a c. 10 * a + digit_value c) 0 s"

definition int_to_dec :: "int \<Rightarrow> string" where
  "int_to_dec i = (if i < 0 then CHR ''-'' # to_dec (nat (- i)) else to_dec (nat i))"

lemma of_char_digit: "n < 10 \<Longrightarrow> of_char (digit n) = (48 + n :: nat)"
  by (simp add: digit_def)

lemma is_digit_digit [simp]: "n < 10 \<Longrightarrow> is_digit (digit n)"
  by (simp add: is_digit_def of_char_digit)

lemma digit_value_digit [simp]: "n < 10 \<Longrightarrow> digit_value (digit n) = n"
  by (simp add: digit_value_def of_char_digit)

lemma space_not_digit: "is_space c \<Longrightarrow> \<not> is_digit c"
  by (auto simp: is_space_def is_digit_def)

lemma to_dec_not_Nil [simp]: "to_dec n \<noteq> []"
  by (subst to_dec.simps) simp

lemma to_dec_digits: "c \<in> set (to_dec n) \<Longrightarrow> is_digit c"
proof (induction n rule: to_dec.induct)
  case (1 n)
  then show ?case by (subst (asm) (2) to_dec.simps) (auto split: if_splits)
qed

lemma dec_value_snoc: "dec_value (s @ [c]) = 10 * dec_value s + digit_value c"
  by (simp add: dec_value_def)

lemma dec_value_to_dec [simp]: "dec_value (to_dec n) = n"
proof (induction n rule: to_dec.induct)
  case (1 n)
  show ?case
  proof (cases "n < 10")
    case True
    then show ?thesis by (subst to_dec.simps) (simp add: dec_value_def)
  next
    case False
    with 1 show ?thesis by (subst to_dec.simps) (simp add: dec_value_snoc)
  qed
qed

lemma takeWhile_digits [simp]:
  "rest = [] \<or> \<not> is_digit (hd rest) \<Longrightarrow> takeWhile is_digit (to_dec n @ rest) = to_dec n"
  by (cases rest) (auto simp: takeWhile_append2 to_dec_digits takeWhile_tail)

lemma dropWhile_digits:
  "rest = [] \<or> \<not> is_digit (hd rest) \<Longrightarrow> dropWhile is_digit (to_dec n @ rest) = rest"
  by (cases rest) (auto simp: dropWhile_append to_dec_digits)

lemma to_dec_hd: "is_digit (hd (to_dec n))"
  by (rule to_dec_digits [of _ n], rule hd_in_set) simp

section \<open>Trimming, searching and cutting\<close>

definition trim :: "string \<Rightarrow> string" where
  "trim s = rev (dropWhile is_space (rev (dropWhile is_space s)))"

text \<open>\<open>npos\<close> is None.\<close>

fun find_str :: "string \<Rightarrow> string \<Rightarrow> nat option" where
  "find_str p s =
     (if prefix p s then Some 0
      else (case s of [] \<Rightarrow> None | c # cs \<Rightarrow> map_option Suc (find_str p cs)))"

declare find_str.simps [simp del]

text \<open>\<open>s.substr(b, e - b)\<close> where \<open>e\<close> is the result of a search: a length below zero or
  from \<open>npos\<close> wraps to one beyond the end, which takes all that is left.\<close>

definition cut :: "string \<Rightarrow> nat \<Rightarrow> nat option \<Rightarrow> string" where
  "cut s b e = (case e of None \<Rightarrow> drop b s
                | Some e \<Rightarrow> if b \<le> e then take (e - b) (drop b s) else drop b s)"

lemma cut_middle: "cut (u @ v @ w) (length u) (Some (length u + length v)) = v"
  by (simp add: cut_def)

lemma drop_front: "drop (length u) (u @ v) = v"
  by simp

text \<open>The lines \<open>std::getline\<close> yields until the stream fails: no empty last one.\<close>

fun split_lines :: "string \<Rightarrow> string list" where
  "split_lines [] = []"
| "split_lines (c # cs) =
     (if c = CHR 0x0A then [] # split_lines cs
      else (case split_lines cs of
              [] \<Rightarrow> [[c]]
            | l # ls \<Rightarrow> (c # l) # ls))"

lemma split_lines_line:
  "CHR 0x0A \<notin> set l \<Longrightarrow> split_lines (l @ CHR 0x0A # s) = l # split_lines s"
  by (induction l) auto

text \<open>The patterns of the parsers have one or two characters.\<close>

lemma find_str_char: "c \<notin> set u \<Longrightarrow> find_str [c] (u @ c # v) = Some (length u)"
  by (induction u) (subst find_str.simps, auto)+

lemma find_str_pair:
  "c \<notin> set u \<Longrightarrow> find_str [c, d] (u @ c # d # v) = Some (length u)"
  by (induction u) (subst find_str.simps, auto)+

lemma find_str_pair_skip:
  "c \<notin> set u \<Longrightarrow> find_str [c, d] (u @ v) = map_option ((+) (length u)) (find_str [c, d] v)"
proof (induction u)
  case Nil
  then show ?case by (simp add: option.map_id0 [unfolded id_def])
next
  case (Cons a u)
  then show ?case by (subst find_str.simps) (auto simp: option.map_comp intro!: option.map_cong)
qed

section \<open>\<open>strtoul\<close>\<close>

text \<open>A value beyond 64 bits saturates, whatever the sign; a minus sign negates modulo
  \<open>2 ^ 64\<close>; no digits give 0.\<close>

definition strtoul :: "string \<Rightarrow> 64 word" where
  "strtoul s =
     (let s1 = dropWhile is_space s;
          neg = (s1 \<noteq> [] \<and> hd s1 = CHR ''-'');
          s2 = (if s1 \<noteq> [] \<and> (hd s1 = CHR ''-'' \<or> hd s1 = CHR ''+'') then tl s1 else s1);
          v = dec_value (takeWhile is_digit s2)
      in if v \<ge> 2 ^ 64 then - 1 else if neg then - of_nat v else of_nat v)"

text \<open>\<open>std::stoul\<close> throws (None) when there is no digit or the value does not fit.\<close>

definition stoul :: "string \<Rightarrow> 64 word option" where
  "stoul s =
     (let s1 = dropWhile is_space s;
          s2 = (if s1 \<noteq> [] \<and> (hd s1 = CHR ''-'' \<or> hd s1 = CHR ''+'') then tl s1 else s1);
          ds = takeWhile is_digit s2
      in if ds = [] \<or> dec_value ds \<ge> 2 ^ 64 then None else Some (strtoul s))"

lemma digit_not_sign: "is_digit c \<Longrightarrow> c \<noteq> CHR ''-'' \<and> c \<noteq> CHR ''+''"
  by (auto simp: is_digit_def)

lemma strtoul_to_dec:
  assumes "rest = [] \<or> \<not> is_digit (hd rest)" "n < 2 ^ 64"
  shows "strtoul (to_dec n @ rest) = of_nat n"
proof -
  have h: "hd (to_dec n @ rest) = hd (to_dec n)" by simp
  have d: "is_digit (hd (to_dec n))" by (rule to_dec_hd)
  have "\<not> is_space (hd (to_dec n))" using space_not_digit d by blast
  then have "dropWhile is_space (to_dec n @ rest) = to_dec n @ rest"
    by (cases "to_dec n") auto
  with digit_not_sign [OF d] h assms show ?thesis
    by (simp add: strtoul_def Let_def)
qed

lemma strtoul_blank: "strtoul (CHR '' '' # s) = strtoul s"
  by (simp add: strtoul_def is_space_def)

end
