(* ===== verification/CStdio.thy ===== *)
theory CStdio
  imports CText Complex_Main
begin

text \<open>
  The C functions the configuration files are read with: \<open>strtol\<close>, \<open>atoi\<close> and \<open>atof\<close>, \<open>strlcpy\<close>,
  \<open>fgets\<close>, and the string functions of \<open>src/gps/utils/loc_misc_utils.cpp\<close>. A file is the text that
  is left to read.
\<close>

section \<open>Numbers\<close>

definition hex_value :: "char \<Rightarrow> nat option" where
  "hex_value c =
     (let n = of_char c :: nat
      in if is_digit c then Some (n - 48)
         else if 65 \<le> n \<and> n \<le> 70 then Some (n - 55)
         else if 97 \<le> n \<and> n \<le> 102 then Some (n - 87) else None)"

definition hex_number :: "string \<Rightarrow> nat" where
  "hex_number s = foldl (\<lambda>a c. 16 * a + the (hex_value c)) 0 s"

definition clamp64 :: "int \<Rightarrow> int" where
  "clamp64 v = max (- (2 ^ 63)) (min (2 ^ 63 - 1) v)"

definition strtol10 :: "string \<Rightarrow> int" where
  "strtol10 s =
     (let s1 = dropWhile is_space s;
          neg = (s1 \<noteq> [] \<and> hd s1 = CHR ''-'');
          s2 = (if s1 \<noteq> [] \<and> (hd s1 = CHR ''-'' \<or> hd s1 = CHR ''+'') then tl s1 else s1);
          v = int (dec_value (takeWhile is_digit s2))
      in clamp64 (if neg then - v else v))"

definition strtol16 :: "string \<Rightarrow> int" where
  "strtol16 s =
     (let s1 = dropWhile is_space s;
          neg = (s1 \<noteq> [] \<and> hd s1 = CHR ''-'');
          s2 = (if s1 \<noteq> [] \<and> (hd s1 = CHR ''-'' \<or> hd s1 = CHR ''+'') then tl s1 else s1);
          s3 = (case s2 of a # b # c # cs \<Rightarrow>
                  if a = CHR ''0'' \<and> (b = CHR ''x'' \<or> b = CHR ''X'') \<and> hex_value c \<noteq> None then c # cs else s2
                | _ \<Rightarrow> s2);
          v = int (hex_number (takeWhile (\<lambda>c. hex_value c \<noteq> None) s3))
      in clamp64 (if neg then - v else v))"

text \<open>\<open>(int)\<close> of a \<open>long\<close>, as a 32-bit word; \<open>atoi\<close> is \<open>(int) strtol(s, NULL, 10)\<close>.\<close>

definition to_int32 :: "int \<Rightarrow> 32 word" where
  "to_int32 v = word_of_int v"

definition atoi :: "string \<Rightarrow> 32 word" where
  "atoi s = to_int32 (strtol10 s)"

text \<open>\<open>atof\<close>: a decimal number rounded to 53 bits, half to even; the spellings of infinities, of NaN
  and of hexadecimal numbers give 0 here.\<close>

fun bit_count :: "nat \<Rightarrow> nat" where
  "bit_count n = (if n = 0 then 0 else Suc (bit_count (n div 2)))"

declare bit_count.simps [simp del]

definition round_half_even :: "rat \<Rightarrow> int" where
  "round_half_even x =
     (let f = \<lfloor>x\<rfloor>; r = x - of_int f in if r < 1 / 2 then f else if r > 1 / 2 then f + 1 else f + f mod 2)"

definition two_to :: "int \<Rightarrow> rat" where
  "two_to k = (if 0 \<le> k then 2 ^ nat k else 1 / 2 ^ nat (- k))"

definition fl64 :: "rat \<Rightarrow> rat" where
  "fl64 x =
     (let (n, d) = quotient_of x;
          k0 = int (bit_count (nat \<bar>n\<bar>)) - int (bit_count (nat d)) - 53;
          k = (if two_to (k0 + 53) \<le> \<bar>x\<bar> then k0 + 1 else k0)
      in if x = 0 then 0 else sgn x * of_int (round_half_even (\<bar>x\<bar> / two_to k)) * two_to k)"

definition ten_to :: "int \<Rightarrow> rat" where
  "ten_to e = (if 0 \<le> e then 10 ^ nat e else 1 / 10 ^ nat (- e))"

definition exponent_of :: "string \<Rightarrow> int" where
  "exponent_of s =
     (case s of
        [] \<Rightarrow> 0
      | c # t \<Rightarrow>
          (let neg = (t \<noteq> [] \<and> hd t = CHR ''-'');
               u = (if t \<noteq> [] \<and> (hd t = CHR ''-'' \<or> hd t = CHR ''+'') then tl t else t);
               v = int (dec_value (takeWhile is_digit u))
           in if c \<noteq> CHR ''e'' \<and> c \<noteq> CHR ''E'' then 0 else if neg then - v else v))"

definition atof :: "string \<Rightarrow> rat" where
  "atof s =
     (let s1 = dropWhile is_space s;
          neg = (s1 \<noteq> [] \<and> hd s1 = CHR ''-'');
          s2 = (if s1 \<noteq> [] \<and> (hd s1 = CHR ''-'' \<or> hd s1 = CHR ''+'') then tl s1 else s1);
          ds = takeWhile is_digit s2;
          s3 = dropWhile is_digit s2;
          fs = (if s3 \<noteq> [] \<and> hd s3 = CHR ''.'' then takeWhile is_digit (tl s3) else []);
          s4 = (if s3 \<noteq> [] \<and> hd s3 = CHR ''.'' then dropWhile is_digit (tl s3) else s3);
          x = fl64 (of_nat (dec_value (ds @ fs)) * ten_to (exponent_of s4 - int (length fs)))
      in if ds = [] \<and> fs = [] then 0 else if neg then - x else x)"

section \<open>Strings\<close>

definition c_str :: "string \<Rightarrow> string" where
  "c_str s = takeWhile (\<lambda>c. c \<noteq> CHR 0x00) s"

text \<open>\<open>loc_util_trim_space\<close>: a text of blanks alone is left as it is.\<close>

definition loc_util_trim_space :: "string \<Rightarrow> string" where
  "loc_util_trim_space s = (if \<exists>c\<in>set s. \<not> is_space c then trim s else s)"

fun split_at_char :: "char \<Rightarrow> string \<Rightarrow> string list" where
  "split_at_char d [] = [[]]"
| "split_at_char d (c # cs) =
     (if c = d then [] # split_at_char d cs
      else (case split_at_char d cs of [] \<Rightarrow> [[c]] | w # ws \<Rightarrow> (c # w) # ws))"

definition loc_util_split_string :: "string \<Rightarrow> nat \<Rightarrow> char \<Rightarrow> string list" where
  "loc_util_split_string raw max_num delimiter = take max_num (split_at_char delimiter raw)"

text \<open>\<open>strlcpy\<close> into a buffer of \<open>n\<close> characters.\<close>

definition strlcpy :: "nat \<Rightarrow> string \<Rightarrow> string" where
  "strlcpy n s = take (n - 1) s"

section \<open>Reading files\<close>

fun take_line :: "nat \<Rightarrow> string \<Rightarrow> string \<times> string" where
  "take_line 0 s = ([], s)"
| "take_line (Suc n) [] = ([], [])"
| "take_line (Suc n) (c # cs) =
     (if c = CHR 0x0A then ([c], cs) else (let (l, r) = take_line n cs in (c # l, r)))"

definition fgets :: "nat \<Rightarrow> string \<Rightarrow> (string \<times> string) option" where
  "fgets n s = (if s = [] then None else Some (take_line (n - 1) s))"

lemma take_line_append: "take_line n s = (l, r) \<Longrightarrow> s = l @ r"
  by (induction n s arbitrary: l r rule: take_line.induct) (auto simp: Let_def split: if_splits prod.splits)

lemma take_line_nonempty: "take_line (Suc n) (c # cs) = (l, r) \<Longrightarrow> l \<noteq> []"
  by (auto simp: Let_def split: if_splits prod.splits)

lemma fgets_shorter: "fgets (Suc (Suc n)) s = Some (l, r) \<Longrightarrow> length r < length s"
proof -
  assume a: "fgets (Suc (Suc n)) s = Some (l, r)"
  then obtain c cs where s: "s = c # cs" and t: "take_line (Suc n) (c # cs) = (l, r)"
    by (cases s) (auto simp: fgets_def)
  show ?thesis using take_line_append [OF t] take_line_nonempty [OF t] by (cases l) (auto simp: s)
qed

end
