(* ===== verification/Binary64.thy ===== *)
theory Binary64
  imports Prelude "HOL-Library.Log_Nat"
begin

text \<open>
  The part of C++ arithmetic the PID controller of
  \<open>power-libperfmgr/aidl/PowerHintSession.cpp\<close> needs: \<open>int64_t\<close> arithmetic, whose
  overflow is undefined, and IEEE 754 binary64 numbers. A finite double is a pair of an integer
  significand and a binary exponent; the operations round the exact result to 53 bits, half to
  even. Exponents are not bounded (the values here stay far from the limits of the format), so
  no operation yields an infinity but division by zero, which has no result: converting an
  infinity or a NaN to an integer is undefined anyway.
\<close>

definition in64 :: "int \<Rightarrow> bool" where
  "in64 x \<longleftrightarrow> - (2 ^ 63) \<le> x \<and> x < 2 ^ 63"

definition ck64 :: "int \<Rightarrow> int option" where
  "ck64 x = (if in64 x then Some x else None)"

lemma ck64_eq_Some [simp]: "ck64 x = Some y \<longleftrightarrow> in64 x \<and> y = x"
  by (auto simp: ck64_def)

type_synonym double = "int \<times> int"

definition bits :: "int \<Rightarrow> nat" where
  "bits m = floorlog 2 (nat \<bar>m\<bar>)"

text \<open>Division of a magnitude by \<open>2 ^ k\<close>, to the nearest, ties to even.\<close>

definition half_even :: "int \<Rightarrow> nat \<Rightarrow> int" where
  "half_even m k =
     (let q = m div 2 ^ k; r = m mod 2 ^ k
      in if 2 * r < 2 ^ k then q else if 2 * r > 2 ^ k then q + 1 else q + q mod 2)"

definition round53 :: "int \<times> int \<Rightarrow> double" where
  "round53 d =
     (let k = bits (fst d) - 53
      in if k = 0 then d else (sgn (fst d) * half_even \<bar>fst d\<bar> k, snd d + int k))"

definition of_int64 :: "int \<Rightarrow> double" where
  "of_int64 n = round53 (n, 0)"

definition dmul :: "double \<Rightarrow> double \<Rightarrow> double" where
  "dmul x y = round53 (fst x * fst y, snd x + snd y)"

text \<open>The quotient is taken to at least 55 bits; one more bit says whether it was exact.\<close>

definition ddiv :: "double \<Rightarrow> double \<Rightarrow> double option" where
  "ddiv x y =
     (if fst y = 0 then None
      else let s = 55 + bits (fst y);
               q = (\<bar>fst x\<bar> * 2 ^ s) div \<bar>fst y\<bar>;
               sticky = (if (\<bar>fst x\<bar> * 2 ^ s) mod \<bar>fst y\<bar> = 0 then 0 else 1)
           in Some (round53 (sgn (fst x) * sgn (fst y) * (2 * q + sticky), snd x - snd y - int s - 1)))"

text \<open>\<open>static_cast<int64_t>\<close>: towards zero, undefined out of range.\<close>

definition to_int64 :: "double \<Rightarrow> int option" where
  "to_int64 d =
     ck64 (if 0 \<le> snd d then fst d * 2 ^ nat (snd d) else sgn (fst d) * (\<bar>fst d\<bar> div 2 ^ nat (- snd d)))"

section \<open>Signs\<close>

lemma sgn_nonneg_int [simp]: "0 \<le> (x :: int) \<Longrightarrow> 0 \<le> sgn x"
  by (simp add: sgn_if)

lemma half_even_nonneg: "0 \<le> m \<Longrightarrow> 0 \<le> half_even m k"
  by (simp add: half_even_def Let_def pos_imp_zdiv_nonneg_iff)

lemma round53_nonneg: "0 \<le> fst d \<Longrightarrow> 0 \<le> fst (round53 d)"
  by (auto simp: round53_def Let_def half_even_nonneg zero_le_mult_iff)

lemma of_int64_nonneg: "0 \<le> n \<Longrightarrow> 0 \<le> fst (of_int64 n)"
  by (simp add: of_int64_def round53_nonneg)

lemma dmul_nonneg: "0 \<le> fst x \<Longrightarrow> 0 \<le> fst y \<Longrightarrow> 0 \<le> fst (dmul x y)"
  by (simp add: dmul_def round53_nonneg)

lemma ddiv_nonneg: "0 \<le> fst x \<Longrightarrow> 0 \<le> fst y \<Longrightarrow> ddiv x y = Some z \<Longrightarrow> 0 \<le> fst z"
  by (auto simp: ddiv_def Let_def split: if_splits intro!: round53_nonneg)
    (auto simp: zero_le_mult_iff pos_imp_zdiv_nonneg_iff)

lemma to_int64_nonneg: "0 \<le> fst x \<Longrightarrow> to_int64 x = Some n \<Longrightarrow> 0 \<le> n"
  by (auto simp: to_int64_def zero_le_mult_iff pos_imp_zdiv_nonneg_iff split: if_splits)

lemma round53_zero [simp]: "round53 (0, e) = (0, e)"
  by (simp add: round53_def bits_def floorlog_def)

lemma to_int64_zero [simp]: "to_int64 (0, e) = Some 0"
  by (simp add: to_int64_def ck64_def in64_def)

section \<open>Small integers are exact\<close>

lemma bits_le: "\<bar>m\<bar> < 2 ^ k \<Longrightarrow> bits m \<le> k"
  unfolding bits_def
  by (rule floorlog_leI) (simp_all add: nat_less_iff)

lemma round53_exact: "\<bar>m\<bar> < 2 ^ 53 \<Longrightarrow> round53 (m, e) = (m, e)"
  using bits_le [of m 53] by (simp add: round53_def)

lemma of_int64_exact: "\<bar>n\<bar> < 2 ^ 53 \<Longrightarrow> of_int64 n = (n, 0)"
  by (simp add: of_int64_def round53_exact)

lemma to_int64_of_int64: "\<bar>n\<bar> < 2 ^ 53 \<Longrightarrow> to_int64 (of_int64 n) = Some n"
  by (auto simp: of_int64_exact to_int64_def ck64_def in64_def)

text \<open>The width of a concrete significand, by halving.\<close>

lemma bits_code: "bits m = (if m = 0 then 0 else bits (\<bar>m\<bar> div 2) + 1)"
  unfolding bits_def by (subst compute_floorlog) (auto simp: nat_div_distrib)

end
