(* ===== verification/Float32.thy ===== *)
theory Float32
  imports Binary64 CText Complex_Main
begin

text \<open>
  Single-precision numbers as the thermal code uses them: a rational number rounded to a
  significand of 24 bits, half to even, or NaN, which is None. Comparisons with NaN are false and
  arithmetic with it yields it. The exponent is not bounded, so there are no infinities and no
  subnormal numbers: temperatures, powers and weights stay far from both ends of the format.
\<close>

type_synonym float32 = "rat option"

definition pow2 :: "int \<Rightarrow> rat" where
  "pow2 k = (if 0 \<le> k then 2 ^ nat k else 1 / 2 ^ nat (- k))"

definition round_even :: "rat \<Rightarrow> int" where
  "round_even x =
     (let f = \<lfloor>x\<rfloor>; r = x - of_int f
      in if r < 1 / 2 then f else if r > 1 / 2 then f + 1 else f + f mod 2)"

definition fl32 :: "rat \<Rightarrow> rat" where
  "fl32 x =
     (let (n, d) = quotient_of x;
          k0 = int (bits n) - int (bits d) - 24;
          k = (if pow2 (k0 + 24) \<le> \<bar>x\<bar> then k0 + 1 else k0)
      in if x = 0 then 0 else sgn x * of_int (round_even (\<bar>x\<bar> / pow2 k)) * pow2 k)"

definition f_less :: "float32 \<Rightarrow> float32 \<Rightarrow> bool" where
  "f_less a b = (case (a, b) of (Some x, Some y) \<Rightarrow> x < y | _ \<Rightarrow> False)"

definition f_le :: "float32 \<Rightarrow> float32 \<Rightarrow> bool" where
  "f_le a b = (case (a, b) of (Some x, Some y) \<Rightarrow> x \<le> y | _ \<Rightarrow> False)"

fun lift32 :: "(rat \<Rightarrow> rat \<Rightarrow> rat) \<Rightarrow> float32 \<Rightarrow> float32 \<Rightarrow> float32" where
  "lift32 f (Some x) (Some y) = Some (fl32 (f x y))"
| "lift32 f _ _ = None"

definition f_add :: "float32 \<Rightarrow> float32 \<Rightarrow> float32" where "f_add = lift32 (+)"
definition f_sub :: "float32 \<Rightarrow> float32 \<Rightarrow> float32" where "f_sub = lift32 (-)"
definition f_mul :: "float32 \<Rightarrow> float32 \<Rightarrow> float32" where "f_mul = lift32 (*)"
definition f_neg :: "float32 \<Rightarrow> float32" where "f_neg = map_option uminus"

text \<open>Division by zero is an infinity or NaN; the code never divides by a zero that it has not
  excluded, and here it is NaN.\<close>

definition f_div :: "float32 \<Rightarrow> float32 \<Rightarrow> float32" where
  "f_div a b = (if b = Some 0 then None else lift32 (/) a b)"

definition of_uint :: "nat \<Rightarrow> float32" where "of_uint n = Some (fl32 (of_nat n))"

text \<open>The largest finite number, \<open>numeric_limits<float>::max()\<close>, and its negative,
  \<open>lowest()\<close>.\<close>

definition max32 :: rat where "max32 = (2 ^ 24 - 1) * 2 ^ 104"

lemma f_less_simps [simp]:
  "f_less (Some x) (Some y) \<longleftrightarrow> x < y" "\<not> f_less None b" "\<not> f_less a None"
  by (simp_all add: f_less_def split: option.split)

lemma f_le_simps [simp]:
  "f_le (Some x) (Some y) \<longleftrightarrow> x \<le> y" "\<not> f_le None b" "\<not> f_le a None"
  by (simp_all add: f_le_def split: option.split)

section \<open>Integers below two to the 24 are exact\<close>

lemma round_even_of_int [simp]: "round_even (of_int n) = n"
  by (simp add: round_even_def)

lemma bits_int_le: "\<bar>n\<bar> < 2 ^ k \<Longrightarrow> int (bits n) \<le> int k"
  using bits_le [of n k] by simp

lemma fl32_scaled: "sgn x * of_int (round_even (\<bar>x\<bar> / pow2 k)) * pow2 k = x"
  if "\<bar>x\<bar> / pow2 k = of_int m" "k \<le> 0" for x :: rat and m k :: int
proof -
  have p: "pow2 k > 0" using that(2) by (simp add: pow2_def)
  have "round_even (\<bar>x\<bar> / pow2 k) = m" by (simp only: that(1) round_even_of_int)
  then have "of_int (round_even (\<bar>x\<bar> / pow2 k)) * pow2 k = \<bar>x\<bar>"
    using that(1) p by (simp add: field_simps)
  then have "sgn x * (of_int (round_even (\<bar>x\<bar> / pow2 k)) * pow2 k) = sgn x * \<bar>x\<bar>" by simp
  then show ?thesis by (simp only: mult.assoc sgn_mult_abs)
qed

lemma fl32_of_int:
  assumes "\<bar>n\<bar> < 2 ^ 23"
  shows "fl32 (of_int n) = of_int n"
proof -
  have b1: "bits 1 = 1" by (simp add: bits_code)
  define k0 where "k0 = int (bits n) - int (bits 1) - 24"
  define k where "k = (if pow2 (k0 + 24) \<le> \<bar>of_int n\<bar> then k0 + 1 else k0)"
  have "int (bits n) \<le> 23" using bits_int_le [OF assms] by simp
  then have k: "k \<le> 0" by (auto simp: k_def k0_def b1)
  have "\<bar>of_int n\<bar> / pow2 k = of_int (\<bar>n\<bar> * 2 ^ nat (- k))"
    using k by (cases "k = 0") (simp_all add: pow2_def)
  note scaled = fl32_scaled [OF this k]
  have "fl32 (of_int n) =
      (if n = 0 then 0
       else sgn (of_int n) * of_int (round_even (\<bar>of_int n\<bar> / pow2 k)) * pow2 k)"
    unfolding fl32_def k_def k0_def Let_def by simp
  then show ?thesis using scaled by simp
qed

lemma fl32_of_int_nonzero:
  assumes "n \<noteq> 0"
  shows "fl32 (of_int n) \<noteq> 0"
proof -
  define k0 where "k0 = int (bits n) - int (bits 1) - 24"
  define k where "k = (if pow2 (k0 + 24) \<le> \<bar>of_int n\<bar> then k0 + 1 else k0)"
  have b1: "bits 1 = 1" by (simp add: bits_code)
  have b: "2 ^ (bits n - 1) \<le> \<bar>n\<bar>"
  proof -
    have "2 ^ (bits n - 1) \<le> nat \<bar>n\<bar>" using assms floorlog_bounds [of "nat \<bar>n\<bar>" 2] by (simp add: bits_def)
    then show ?thesis by (simp add: nat_le_eq_zle le_nat_iff)
  qed
  have "pow2 k \<le> of_int \<bar>n\<bar>"
  proof (cases "0 \<le> k")
    case True
    then have "nat k \<le> bits n - 1" by (auto simp: k_def k0_def b1 split: if_splits)
    then have "(2 :: int) ^ nat k \<le> 2 ^ (bits n - 1)" by (rule power_increasing) simp
    with b have "(2 :: int) ^ nat k \<le> \<bar>n\<bar>" by linarith
    then have "(of_int (2 ^ nat k) :: rat) \<le> of_int \<bar>n\<bar>" by (simp only: of_int_le_iff)
    then show ?thesis using True by (simp add: pow2_def)
  next
    case False
    have "(1 :: rat) / 2 ^ nat (- k) \<le> 1" by (simp add: divide_le_eq)
    also have "(1 :: rat) \<le> of_int \<bar>n\<bar>" using assms by (metis of_int_1 of_int_le_iff zabs_less_one_iff linorder_not_less)
    finally show ?thesis using False by (simp add: pow2_def)
  qed
  moreover have p: "0 < pow2 k" by (simp add: pow2_def)
  ultimately have "1 \<le> \<bar>of_int n\<bar> / pow2 k" by (simp add: le_divide_eq)
  then have "1 \<le> \<lfloor>\<bar>of_int n\<bar> / pow2 k\<rfloor>" by (simp add: le_floor_iff)
  moreover have "1 \<le> f \<Longrightarrow> 1 \<le> f + f mod 2" for f :: int by (simp add: add_increasing2)
  ultimately have "1 \<le> round_even (\<bar>of_int n\<bar> / pow2 k)" by (simp add: round_even_def Let_def)
  moreover have "fl32 (of_int n) = sgn (of_int n) * of_int (round_even (\<bar>of_int n\<bar> / pow2 k)) * pow2 k"
    using assms unfolding fl32_def k_def k0_def Let_def by simp
  ultimately show ?thesis using assms p by (simp add: sgn_0_0)
qed

lemma fl32_numeral [simp]:
  "fl32 0 = 0" "fl32 1 = 1"
  "(numeral w :: int) < 2 ^ 23 \<Longrightarrow> fl32 (numeral w) = numeral w"
  "(numeral w :: int) < 2 ^ 23 \<Longrightarrow> fl32 (- numeral w) = - numeral w"
  using fl32_of_int [of 0] fl32_of_int [of 1] fl32_of_int [of "numeral w"] fl32_of_int [of "- numeral w"]
  by simp_all

section \<open>Text\<close>

text \<open>
  \<open>std::to_string\<close> of a float, \<open>"%f"\<close>, and \<open>std::stof\<close>: None when it throws (no
  number, or one beyond the format). The spellings \<open>inf\<close> and the hexadecimal forms are not
  accepted: neither \<open>to_string\<close> of a finite number nor a kernel file prints them.
\<close>

definition six_digits :: "nat \<Rightarrow> string" where
  "six_digits n = map (\<lambda>k. digit (n div 10 ^ k mod 10)) [5, 4, 3, 2, 1, 0]"

definition to_string_f :: "float32 \<Rightarrow> string" where
  "to_string_f a =
     (case a of
        None \<Rightarrow> ''nan''
      | Some x \<Rightarrow>
          (let n = nat (round_even (\<bar>x\<bar> * 1000000))
           in (if x < 0 then ''-'' else []) @ to_dec (n div 1000000) @ ''.'' @ six_digits (n mod 1000000)))"

definition is_nan_text :: "string \<Rightarrow> bool" where
  "is_nan_text s =
     (case s of a # b # c # _ \<Rightarrow> a \<in> set ''nN'' \<and> b \<in> set ''aA'' \<and> c \<in> set ''nN'' | _ \<Rightarrow> False)"

text \<open>The exponent \<open>e[+-]digits\<close> at the head of a text, 0 when there is none.\<close>

definition exponent_part :: "string \<Rightarrow> int" where
  "exponent_part s =
     (case s of
        [] \<Rightarrow> 0
      | c # t \<Rightarrow>
          (let neg = (t \<noteq> [] \<and> hd t = CHR ''-'');
               u = (if t \<noteq> [] \<and> (hd t = CHR ''-'' \<or> hd t = CHR ''+'') then tl t else t);
               v = int (dec_value (takeWhile is_digit u))
           in if c \<noteq> CHR ''e'' \<and> c \<noteq> CHR ''E'' then 0 else if neg then - v else v))"

definition pow10 :: "int \<Rightarrow> rat" where
  "pow10 e = (if 0 \<le> e then 10 ^ nat e else 1 / 10 ^ nat (- e))"

definition stof :: "string \<Rightarrow> float32 option" where
  "stof s =
     (let s1 = dropWhile is_space s;
          neg = (s1 \<noteq> [] \<and> hd s1 = CHR ''-'');
          s2 = (if s1 \<noteq> [] \<and> (hd s1 = CHR ''-'' \<or> hd s1 = CHR ''+'') then tl s1 else s1);
          ds = takeWhile is_digit s2;
          s3 = dropWhile is_digit s2;
          fs = (if s3 \<noteq> [] \<and> hd s3 = CHR ''.'' then takeWhile is_digit (tl s3) else []);
          s4 = (if s3 \<noteq> [] \<and> hd s3 = CHR ''.'' then dropWhile is_digit (tl s3) else s3);
          x = fl32 (of_nat (dec_value (ds @ fs)) * pow10 (exponent_part s4 - int (length fs)))
      in if is_nan_text s2 then Some None
         else if ds = [] \<and> fs = [] then None
         else if x > max32 then None
         else Some (Some (if neg then - x else x)))"

lemma fl32_nat: "n < 2 ^ 23 \<Longrightarrow> fl32 (of_nat n) = of_nat n"
  using fl32_of_int [of "int n"] by simp

lemma not_nan_digit: "is_digit (hd s) \<Longrightarrow> s \<noteq> [] \<Longrightarrow> \<not> is_nan_text s"
  by (cases s) (auto simp: is_nan_text_def is_digit_def split: list.split)

text \<open>A decimal integer below \<open>2 ^ 23\<close>, as the kernel prints temperatures, is read exactly.\<close>

lemma stof_to_dec:
  assumes "n < 2 ^ 23"
  shows "stof (to_dec n) = Some (Some (of_nat n))"
proof -
  have d: "is_digit (hd (to_dec n))" by (rule to_dec_hd)
  have "\<not> is_space (hd (to_dec n))" using space_not_digit d by blast
  then have s: "dropWhile is_space (to_dec n) = to_dec n" by (cases "to_dec n") auto
  have t: "takeWhile is_digit (to_dec n) = to_dec n" "dropWhile is_digit (to_dec n) = []"
    using takeWhile_digits [of "[]" n] dropWhile_digits [of "[]" n] by simp_all
  have "(of_nat n :: rat) < 2 ^ 23"
    using assms by (metis of_nat_less_iff of_nat_numeral of_nat_power)
  then have m: "\<not> max32 < of_nat n" by (simp add: max32_def)
  show ?thesis
    using digit_not_sign [OF d] m not_nan_digit [OF d]
    by (simp add: stof_def Let_def exponent_part_def pow10_def s t fl32_nat [OF assms])
qed

end
