(* ===== verification/StatusParsers.thy ===== *)
theory StatusParsers
  imports CStdio Float32 Prelude "HOL-Library.Word" "HOL-Library.Monad_Syntax"
begin

text \<open>
  The debug sentences of the modem in \<open>src/gps/core/SystemStatus.cpp\<close>: a sentence is cut into fields
  (\<open>SystemStatusNmeaBase\<close>) and each parser reads the fields of its kind into a record. A parser that
  returns before its record is cleared leaves the record uninitialised, and it is read afterwards:
  None. \<open>long\<close> has 64 bits. Numbers are read by \<open>atoi\<close>, \<open>atof\<close> and \<open>strtol\<close> (\<open>CStdio\<close>) and cut to the
  width of the member.
\<close>

section \<open>Fields\<close>

definition DEBUG_NMEA_MINSIZE :: nat where "DEBUG_NMEA_MINSIZE = 6"
definition DEBUG_NMEA_MAXSIZE :: nat where "DEBUG_NMEA_MAXSIZE = 4096"

text \<open>The length is an \<open>int\<close>; a text ends at its NUL, which is not part of it.\<close>

definition loc_nmea_is_debug :: "string \<Rightarrow> int \<Rightarrow> bool" where
  "loc_nmea_is_debug nmea len \<longleftrightarrow>
     int DEBUG_NMEA_MINSIZE \<le> len \<and> len \<le> int DEBUG_NMEA_MAXSIZE \<and> take 4 nmea = ''$PQW''"

function tokenize :: "string \<Rightarrow> string list" where
  "tokenize parser =
     (let str = takeWhile (\<lambda>c. c \<noteq> CHR '','') parser
      in if length str = length parser then []
         else str # tokenize (drop (Suc (length str)) parser))"
  by pat_completeness auto
termination
  by (relation "measure length") (auto simp: Let_def dest: le_neq_implies_less [OF length_takeWhile_le])

declare tokenize.simps [simp del]

definition nmea_fields :: "string \<Rightarrow> int \<Rightarrow> string list" where
  "nmea_fields str_in len_in =
     (if \<not> loc_nmea_is_debug str_in len_in then []
      else (let index = length (takeWhile (\<lambda>c. c \<noteq> CHR ''*'') str_in)
            in if index = length str_in then [] else tokenize (str_in[index := CHR '','']) ))"

section \<open>Numbers\<close>

definition int_field :: "string list \<Rightarrow> nat \<Rightarrow> 32 word" where
  "int_field f i = atoi (c_str (f ! i))"

definition hex_field :: "string list \<Rightarrow> nat \<Rightarrow> 'a::len word" where
  "hex_field f i = word_of_int (strtol16 (c_str (f ! i)))"

definition double_field :: "string list \<Rightarrow> nat \<Rightarrow> rat" where
  "double_field f i = atof (c_str (f ! i))"

definition float_field :: "string list \<Rightarrow> nat \<Rightarrow> rat" where
  "float_field f i = fl32 (atof (c_str (f ! i)))"

text \<open>\<open>strtoull\<close> is \<open>strtoul\<close> of \<open>CText\<close>. A \<open>float\<close> member set by \<open>atoi\<close> takes the rounded integer.\<close>

definition ull_field :: "string list \<Rightarrow> nat \<Rightarrow> 64 word" where
  "ull_field f i = strtoul (c_str (f ! i))"

definition float_of_int_field :: "string list \<Rightarrow> nat \<Rightarrow> rat" where
  "float_of_int_field f i = fl32 (of_int (sint (int_field f i)))"

section \<open>Measurement engine\<close>

record pqwm1 =
  mGpsWeek :: "16 word"
  mGpsTowMs :: "32 word"
  mTimeValid :: "8 word"
  mTimeSource :: "8 word"
  mTimeUnc :: "32 word"
  mClockFreqBias :: "32 word"
  mClockFreqBiasUnc :: "32 word"
  mXoState :: "8 word"
  mPgaGain :: "32 word"
  mGpsBpAmpI :: "32 word"
  mGpsBpAmpQ :: "32 word"
  mAdcI :: "32 word"
  mAdcQ :: "32 word"
  mJammerGps :: "32 word"
  mJammerGlo :: "32 word"
  mJammerBds :: "32 word"
  mJammerGal :: "32 word"
  mRecErrorRecovery :: "32 word"
  mAgcGps :: rat
  mAgcGlo :: rat
  mAgcBds :: rat
  mAgcGal :: rat
  mLeapSeconds :: "32 word"
  mLeapSecUnc :: "32 word"
  mGloBpAmpI :: "32 word"
  mGloBpAmpQ :: "32 word"
  mBdsBpAmpI :: "32 word"
  mBdsBpAmpQ :: "32 word"
  mGalBpAmpI :: "32 word"
  mGalBpAmpQ :: "32 word"
  mTimeUncNs :: "64 word"

definition zero_m1 :: pqwm1 where
  "zero_m1 = \<lparr>mGpsWeek = 0, mGpsTowMs = 0, mTimeValid = 0, mTimeSource = 0, mTimeUnc = 0, mClockFreqBias = 0,
     mClockFreqBiasUnc = 0, mXoState = 0, mPgaGain = 0, mGpsBpAmpI = 0, mGpsBpAmpQ = 0, mAdcI = 0, mAdcQ = 0,
     mJammerGps = 0, mJammerGlo = 0, mJammerBds = 0, mJammerGal = 0, mRecErrorRecovery = 0, mAgcGps = 0,
     mAgcGlo = 0, mAgcBds = 0, mAgcGal = 0, mLeapSeconds = 0, mLeapSecUnc = 0, mGloBpAmpI = 0, mGloBpAmpQ = 0,
     mBdsBpAmpI = 0, mBdsBpAmpQ = 0, mGalBpAmpI = 0, mGalBpAmpQ = 0, mTimeUncNs = 0\<rparr>"

definition PQWM1parser :: "string \<Rightarrow> int \<Rightarrow> pqwm1" where
  "PQWM1parser str_in len_in =
     (let f = nmea_fields str_in len_in
      in if length f \<le> 22 then zero_m1
         else
           (let m1 = zero_m1\<lparr>mGpsWeek := ucast (int_field f 1), mGpsTowMs := int_field f 2,
                  mTimeValid := ucast (int_field f 3), mTimeSource := ucast (int_field f 4),
                  mTimeUnc := int_field f 5, mClockFreqBias := int_field f 6, mClockFreqBiasUnc := int_field f 7,
                  mXoState := ucast (int_field f 8), mPgaGain := int_field f 9, mGpsBpAmpI := int_field f 10,
                  mGpsBpAmpQ := int_field f 11, mAdcI := int_field f 12, mAdcQ := int_field f 13,
                  mJammerGps := int_field f 14, mJammerGlo := int_field f 15, mJammerBds := int_field f 16,
                  mJammerGal := int_field f 17, mRecErrorRecovery := int_field f 18,
                  mAgcGps := double_field f 19, mAgcGlo := double_field f 20, mAgcBds := double_field f 21,
                  mAgcGal := double_field f 22\<rparr>;
                m2 = (if 24 < length f
                      then m1\<lparr>mLeapSeconds := int_field f 23, mLeapSecUnc := int_field f 24\<rparr> else m1);
                m3 = (if 30 < length f
                      then m2\<lparr>mGloBpAmpI := int_field f 25, mGloBpAmpQ := int_field f 26,
                             mBdsBpAmpI := int_field f 27, mBdsBpAmpQ := int_field f 28,
                             mGalBpAmpI := int_field f 29, mGalBpAmpQ := int_field f 30\<rparr> else m2)
            in if 31 < length f then m3\<lparr>mTimeUncNs := ull_field f 31\<rparr> else m3))"

section \<open>Position engine\<close>

record pqwp1 =
  mEpiValidity :: "8 word"
  mEpiLat :: rat
  mEpiLon :: rat
  mEpiAlt :: rat
  mEpiHepe :: rat
  mEpiAltUnc :: rat
  mEpiSrc :: "8 word"

definition PQWP1parser :: "string \<Rightarrow> int \<Rightarrow> pqwp1 option" where
  "PQWP1parser str_in len_in =
     (let f = nmea_fields str_in len_in
      in if length f < 9 then None
         else Some \<lparr>mEpiValidity = hex_field f 2, mEpiLat = float_field f 3, mEpiLon = float_field f 4,
                mEpiAlt = float_field f 5, mEpiHepe = float_of_int_field f 6, mEpiAltUnc = float_field f 7,
                mEpiSrc = ucast (int_field f 8)\<rparr>)"

record pqwp2 =
  mBestLat :: rat
  mBestLon :: rat
  mBestAlt :: rat
  mBestHepe :: rat
  mBestAltUnc :: rat

definition PQWP2parser :: "string \<Rightarrow> int \<Rightarrow> pqwp2 option" where
  "PQWP2parser str_in len_in =
     (let f = nmea_fields str_in len_in
      in if length f < 7 then None
         else Some \<lparr>mBestLat = float_field f 2, mBestLon = float_field f 3, mBestAlt = float_field f 4,
                mBestHepe = float_field f 5, mBestAltUnc = float_field f 6\<rparr>)"

record pqwp3 =
  mXtraValidMask :: "8 word"
  mGpsXtraAge :: "32 word"
  mGloXtraAge :: "32 word"
  mBdsXtraAge :: "32 word"
  mGalXtraAge :: "32 word"
  mQzssXtraAge :: "32 word"
  mNavicXtraAge :: "32 word"
  mGpsXtraValid :: "32 word"
  mGloXtraValid :: "32 word"
  mBdsXtraValid :: "64 word"
  mGalXtraValid :: "64 word"
  mQzssXtraValid :: "8 word"
  mNavicXtraValid :: "32 word"

definition PQWP3parser :: "string \<Rightarrow> int \<Rightarrow> pqwp3 option" where
  "PQWP3parser str_in len_in =
     (let f = nmea_fields str_in len_in
      in if length f < 13 then None
         else Some \<lparr>mXtraValidMask = hex_field f 2, mGpsXtraAge = int_field f 3, mGloXtraAge = int_field f 4,
                mBdsXtraAge = int_field f 5, mGalXtraAge = int_field f 6, mQzssXtraAge = int_field f 7,
                mNavicXtraAge = 0, mGpsXtraValid = hex_field f 8, mGloXtraValid = hex_field f 9,
                mBdsXtraValid = hex_field f 10, mGalXtraValid = hex_field f 11, mQzssXtraValid = hex_field f 12,
                mNavicXtraValid = 0\<rparr>)"

record pqwp4 =
  mGpsEpheValid :: "32 word"
  mGloEpheValid :: "32 word"
  mBdsEpheValid :: "64 word"
  mGalEpheValid :: "64 word"
  mQzssEpheValid :: "8 word"

definition PQWP4parser :: "string \<Rightarrow> int \<Rightarrow> pqwp4 option" where
  "PQWP4parser str_in len_in =
     (let f = nmea_fields str_in len_in
      in if length f < 7 then None
         else Some \<lparr>mGpsEpheValid = hex_field f 2, mGloEpheValid = hex_field f 3, mBdsEpheValid = hex_field f 4,
                mGalEpheValid = hex_field f 5, mQzssEpheValid = hex_field f 6\<rparr>)"

record pqwp5 =
  mGpsUnknownMask :: "32 word"
  mGloUnknownMask :: "32 word"
  mBdsUnknownMask :: "64 word"
  mGalUnknownMask :: "64 word"
  mQzssUnknownMask :: "8 word"
  mNavicUnknownMask :: "32 word"
  mGpsGoodMask :: "32 word"
  mGloGoodMask :: "32 word"
  mBdsGoodMask :: "64 word"
  mGalGoodMask :: "64 word"
  mQzssGoodMask :: "8 word"
  mNavicGoodMask :: "32 word"
  mGpsBadMask :: "32 word"
  mGloBadMask :: "32 word"
  mBdsBadMask :: "64 word"
  mGalBadMask :: "64 word"
  mQzssBadMask :: "8 word"
  mNavicBadMask :: "32 word"

definition PQWP5parser :: "string \<Rightarrow> int \<Rightarrow> pqwp5 option" where
  "PQWP5parser str_in len_in =
     (let f = nmea_fields str_in len_in
      in if length f < 17 then None
         else Some \<lparr>mGpsUnknownMask = hex_field f 2, mGloUnknownMask = hex_field f 3,
                mBdsUnknownMask = hex_field f 4, mGalUnknownMask = hex_field f 5,
                mQzssUnknownMask = hex_field f 6, mNavicUnknownMask = 0,
                mGpsGoodMask = hex_field f 7, mGloGoodMask = hex_field f 8, mBdsGoodMask = hex_field f 9,
                mGalGoodMask = hex_field f 10, mQzssGoodMask = hex_field f 11, mNavicGoodMask = 0,
                mGpsBadMask = hex_field f 12, mGloBadMask = hex_field f 13, mBdsBadMask = hex_field f 14,
                mGalBadMask = hex_field f 15, mQzssBadMask = hex_field f 16, mNavicBadMask = 0\<rparr>)"

text \<open>\<open>SystemStatusPQWP6\<close> has one member.\<close>

definition PQWP6parser :: "string \<Rightarrow> int \<Rightarrow> 32 word option" where
  "PQWP6parser str_in len_in =
     (let f = nmea_fields str_in len_in in if length f < 3 then None else Some (hex_field f 2))"

definition SV_ALL_NUM_MIN :: nat where "SV_ALL_NUM_MIN = 32 + 24 + 5 + 37 + 36"
definition SV_ALL_NUM :: nat where "SV_ALL_NUM = SV_ALL_NUM_MIN + 14"

record status_nav =
  nav_type :: int
  nav_source :: int
  mAgeSec :: int

definition zero_nav :: status_nav where
  "zero_nav = \<lparr>nav_type = 0, nav_source = 0, mAgeSec = 0\<rparr>"

definition nav_at :: "string list \<Rightarrow> nat \<Rightarrow> status_nav" where
  "nav_at f i = \<lparr>nav_type = sint (int_field f (i * 3 + 2)), nav_source = sint (int_field f (i * 3 + 3)),
     mAgeSec = sint (int_field f (i * 3 + 4))\<rparr>"

definition PQWP7parser :: "string \<Rightarrow> int \<Rightarrow> status_nav list option" where
  "PQWP7parser str_in len_in =
     (let f = nmea_fields str_in len_in
      in if length f < 2 + SV_ALL_NUM_MIN * 3 then None
         else (let svLimit = (if length f < 2 + SV_ALL_NUM * 3 then SV_ALL_NUM_MIN else SV_ALL_NUM)
               in Some (map (\<lambda>i. if i < svLimit then nav_at f i else zero_nav) [0..<SV_ALL_NUM])))"

section \<open>Session manager\<close>

record pqws1 =
  mFixInfoMask :: "32 word"
  mHepeLimit :: "32 word"

definition PQWS1parser :: "string \<Rightarrow> int \<Rightarrow> pqws1 option" where
  "PQWS1parser str_in len_in =
     (let f = nmea_fields str_in len_in
      in if length f < 4 then None else Some \<lparr>mFixInfoMask = int_field f 2, mHepeLimit = int_field f 3\<rparr>)"

section \<open>What the tokens are\<close>

text \<open>The texts between the commas; what follows the last comma is dropped.\<close>

lemma tokenize_field:
  "\<forall>c\<in>set w. c \<noteq> CHR '','' \<Longrightarrow> tokenize (w @ CHR '','' # rest) = w # tokenize rest"
  by (subst tokenize.simps) (simp add: Let_def takeWhile_append2)

lemma tokenize_last: "\<forall>c\<in>set w. c \<noteq> CHR '','' \<Longrightarrow> tokenize w = []"
  by (subst tokenize.simps) (simp add: Let_def takeWhile_eq_all_conv [THEN iffD2])

fun joined :: "string list \<Rightarrow> string" where
  "joined [] = []"
| "joined (w # ws) = w @ CHR '','' # joined ws"

lemma tokenize_joined:
  "\<forall>w\<in>set ws. CHR '','' \<notin> set w \<Longrightarrow> CHR '','' \<notin> set rest \<Longrightarrow> tokenize (joined ws @ rest) = ws"
proof (induction ws)
  case Nil
  then show ?case using tokenize_last [of rest] by auto
next
  case (Cons w ws)
  then show ?case using tokenize_field [of w "joined ws @ rest"] by auto
qed

end
