(* ===== verification/NetworkTable.thy ===== *)
theory NetworkTable
  imports Prelude "HOL-Library.Word"
begin

unbundle bit_operations_syntax

text \<open>
  The table of connected networks in \<open>SystemStatusNetworkInfo\<close> (\<open>src/gps/core/SystemStatus.h\<close>) on the
  data item of \<open>src/gps/core/data-items/DataItemConcreteTypesBase.h\<close>: ten pairs of a network handle and
  a type, filled from the front, and the mask of the types that are connected. A new event is collated
  with the last one: it takes over its table and enters or removes its own handle. A value of
  \<open>NetworkType\<close> outside the enumeration is kept as the number it is.
\<close>

section \<open>Items\<close>

definition MAX_NETWORK_HANDLES :: nat where "MAX_NETWORK_HANDLES = 10"
definition NETWORK_HANDLE_UNKNOWN :: "64 word" where "NETWORK_HANDLE_UNKNOWN = - 1"
definition TYPE_UNKNOWN :: int where "TYPE_UNKNOWN = 10"

type_synonym network_handle = "64 word \<times> int"

definition no_handle :: network_handle where "no_handle = (NETWORK_HANDLE_UNKNOWN, TYPE_UNKNOWN)"

record network_info =
  mAllTypes :: "64 word"
  mType :: int
  mTypeName :: string
  mSubTypeName :: string
  mAvailable :: bool
  mConnected :: bool
  mRoaming :: bool
  mAllNetworkHandles :: "network_handle list"
  mNetworkHandle :: "64 word"

definition typeToAllTypes :: "int \<Rightarrow> 64 word" where
  "typeToAllTypes t = (if TYPE_UNKNOWN \<le> t \<or> t < 0 then 0 else push_bit (nat t) 1)"

definition new_network_info :: "int \<Rightarrow> string \<Rightarrow> string \<Rightarrow> bool \<Rightarrow> bool \<Rightarrow> 64 word \<Rightarrow> network_info" where
  "new_network_info type typeName subTypeName connected roaming handle =
     \<lparr>mAllTypes = typeToAllTypes type, mType = type, mTypeName = typeName, mSubTypeName = subTypeName,
      mAvailable = (connected \<and> \<not> roaming), mConnected = connected, mRoaming = roaming,
      mAllNetworkHandles = (handle, type) # replicate (MAX_NETWORK_HANDLES - 1) no_handle,
      mNetworkHandle = handle\<rparr>"

definition network_equals :: "network_info \<Rightarrow> network_info \<Rightarrow> bool" where
  "network_equals a b \<longleftrightarrow> (\<forall>i < MAX_NETWORK_HANDLES. mAllNetworkHandles a ! i = mAllNetworkHandles b ! i)"

section \<open>Collating\<close>

text \<open>The loop over the table for a connected network stops at the handle or at a free place.\<close>

fun enter_handle :: "network_handle \<Rightarrow> network_handle list \<Rightarrow> network_handle list" where
  "enter_handle h [] = []"
| "enter_handle h (x # xs) =
     (if fst h = fst x then x # xs
      else if fst x = NETWORK_HANDLE_UNKNOWN then h # xs else x # enter_handle h xs)"

text \<open>The loop for a disconnected one runs up to the first free place; it returns the index of the
  handle, the index where it stopped, and how many handles of the type are left.\<close>

fun scan_handles :: "network_handle \<Rightarrow> nat \<Rightarrow> network_handle list \<Rightarrow> nat \<times> 8 word \<Rightarrow> nat \<times> nat \<times> 8 word" where
  "scan_handles h i [] (deleted, count) = (deleted, i, count)"
| "scan_handles h i (x # xs) (deleted, count) =
     (if fst x = NETWORK_HANDLE_UNKNOWN then (deleted, i, count)
      else
        (let count1 = (if snd h = snd x then count + 1 else count)
         in if fst h = fst x then scan_handles h (i + 1) xs (i, count1 - 1)
            else scan_handles h (i + 1) xs (deleted, count1)))"

definition remove_handle :: "network_handle \<Rightarrow> network_handle list \<Rightarrow> network_handle list \<times> 8 word" where
  "remove_handle h t =
     (let (deletedIndex, stop, typeCount) = scan_handles h 0 t (MAX_NETWORK_HANDLES, 0);
          lastValidIndex = (if stop = MAX_NETWORK_HANDLES then stop - 1 else stop)
      in (if deletedIndex \<noteq> MAX_NETWORK_HANDLES
          then (t[deletedIndex := t ! lastValidIndex])[lastValidIndex := no_handle] else t,
          typeCount))"

definition network_collate :: "network_info \<Rightarrow> network_info \<Rightarrow> network_info" where
  "network_collate s cur =
     (let allTypes = mAllTypes cur;
          table = mAllNetworkHandles cur;
          h = (mNetworkHandle s, mType s)
      in if mConnected s
         then s\<lparr>mAllTypes := mAllTypes s OR allTypes, mAllNetworkHandles := enter_handle h table\<rparr>
         else if mAllTypes s \<noteq> 0
         then (let (table', typeCount) = remove_handle h table
               in s\<lparr>mAllNetworkHandles := table',
                    mAllTypes := (if typeCount = 0 then allTypes AND NOT (mAllTypes s) else mAllTypes s)\<rparr>)
         else s\<lparr>mAllNetworkHandles := table\<rparr>)"

section \<open>The table\<close>

lemma length_enter [simp]: "length (enter_handle h t) = length t"
  by (induction h t rule: enter_handle.induct) auto

lemma length_remove [simp]: "length (fst (remove_handle h t)) = length t"
  by (auto simp: remove_handle_def Let_def split: prod.split)

definition network_wf :: "network_info \<Rightarrow> bool" where
  "network_wf n \<longleftrightarrow> length (mAllNetworkHandles n) = MAX_NETWORK_HANDLES"

lemma network_wf_new [simp]: "network_wf (new_network_info t a b c r h)"
  by (simp add: network_wf_def new_network_info_def MAX_NETWORK_HANDLES_def)

lemma network_wf_collate [simp]: "network_wf cur \<Longrightarrow> network_wf (network_collate s cur)"
  by (simp add: network_wf_def network_collate_def Let_def split_def)

lemma network_equals_iff:
  "network_wf a \<Longrightarrow> network_wf b \<Longrightarrow> network_equals a b \<longleftrightarrow> mAllNetworkHandles a = mAllNetworkHandles b"
  by (auto simp: network_wf_def network_equals_def list_eq_iff_nth_eq)

text \<open>The handles that are in the table.\<close>

definition known :: "network_handle list \<Rightarrow> 64 word set" where
  "known t = fst ` set t - {NETWORK_HANDLE_UNKNOWN}"

lemma known_simps [simp]:
  "known [] = {}"
  "known (x # xs) = (if fst x = NETWORK_HANDLE_UNKNOWN then known xs else insert (fst x) (known xs))"
  by (auto simp: known_def)

lemma known_append [simp]: "known (xs @ ys) = known xs \<union> known ys"
  by (auto simp: known_def)

lemma known_free [simp]: "known (replicate n no_handle) = {}"
  by (auto simp: known_def no_handle_def)

lemma unknown_not_known [simp]: "NETWORK_HANDLE_UNKNOWN \<notin> known t"
  by (simp add: known_def)

text \<open>A table without gaps: the handles in front, free places behind.\<close>

definition packed :: "network_handle list \<Rightarrow> bool" where
  "packed t \<longleftrightarrow> (\<exists>hs n. t = hs @ replicate n no_handle \<and> (\<forall>x\<in>set hs. fst x \<noteq> NETWORK_HANDLE_UNKNOWN))"

lemma enter_packed:
  assumes "\<forall>x\<in>set hs. fst x \<noteq> NETWORK_HANDLE_UNKNOWN" "fst h \<noteq> NETWORK_HANDLE_UNKNOWN"
  shows "enter_handle h (hs @ replicate n no_handle) =
     (if fst h \<in> fst ` set hs \<or> n = 0 then hs @ replicate n no_handle
      else hs @ h # replicate (n - 1) no_handle)"
  using assms
proof (induction hs)
  case Nil
  then show ?case by (cases n) (auto simp: no_handle_def)
qed auto


lemma scan_packed:
  assumes "\<forall>x\<in>set hs. fst x \<noteq> NETWORK_HANDLE_UNKNOWN" "fst h \<notin> known hs" "snd h \<notin> snd ` set hs"
  shows "scan_handles h i (hs @ t) (d, c) = scan_handles h (i + length hs) t (d, c)"
  using assms by (induction hs arbitrary: i) auto

lemma remove_last:
  assumes "\<forall>x\<in>set hs. fst x \<noteq> NETWORK_HANDLE_UNKNOWN" "fst h \<notin> known hs" "snd h \<notin> snd ` set hs"
    and "fst h \<noteq> NETWORK_HANDLE_UNKNOWN" and l: "length hs + 1 + n = MAX_NETWORK_HANDLES"
  shows "remove_handle h (hs @ h # replicate n no_handle) = (hs @ replicate (Suc n) no_handle, 0)"
proof (cases n)
  case 0
  then show ?thesis using scan_packed [OF assms(1-3), of 0 "[h]"] l
    by (simp add: remove_handle_def assms(4) nth_append list_update_append MAX_NETWORK_HANDLES_def)
next
  case (Suc m)
  have "scan_handles h 0 (hs @ h # replicate n no_handle) (MAX_NETWORK_HANDLES, 0) = (length hs, length hs + 1, 0)"
    using scan_packed [OF assms(1-3)] Suc assms(4) by (simp add: no_handle_def)
  then show ?thesis using l Suc
    by (simp add: remove_handle_def nth_append list_update_append MAX_NETWORK_HANDLES_def no_handle_def)
qed

end
