(* ===== verification/StatusItems.thy ===== *)
theory StatusItems
  imports StatusParsers NetworkTable
begin

text \<open>
  The items that \<open>src/gps/core/SystemStatus.cpp\<close> and \<open>.h\<close> keep reports of: what each takes from a parsed
  sentence or from a data item, and when two of them count as equal. An item is its contents with
  the time it was made and the time it was last reported. Where a class has the members of what it
  is made from, the record of that is used again. Positions and other numbers of type \<open>double\<close> are
  rationals; NaN, which would differ from itself, is left out.
\<close>

type_synonym timespec = "int \<times> int"

record 'a status_item =
  mUtcTime :: timespec
  mUtcReported :: timespec
  contents :: 'a

text \<open>The time is read by \<open>gettimeofday\<close>, in seconds and microseconds.\<close>

definition new_item :: "int \<times> int \<Rightarrow> 'a \<Rightarrow> 'a status_item" where
  "new_item tv x = \<lparr>mUtcTime = (fst tv, snd tv * 1000), mUtcReported = (fst tv, snd tv * 1000), contents = x\<rparr>"

text \<open>The functions a class may override; \<open>copied\<close> is its copy constructor.\<close>

record 'a item_ops =
  ignore :: "'a \<Rightarrow> bool"
  collate :: "'a \<Rightarrow> 'a \<Rightarrow> 'a"
  equals :: "'a \<Rightarrow> 'a \<Rightarrow> bool"
  copied :: "'a \<Rightarrow> 'a"

definition base_ops :: "('a \<Rightarrow> 'a \<Rightarrow> bool) \<Rightarrow> 'a item_ops" where
  "base_ops eq = \<lparr>ignore = (\<lambda>_. False), collate = (\<lambda>s _. s), equals = eq, copied = (\<lambda>s. s)\<rparr>"

section \<open>From the modem\<close>

text \<open>The coordinates of a default location are uninitialised. \<open>loc_rest\<close> stands for the members of
  \<open>UlpLocation\<close> and \<open>GpsLocationExtended\<close> that are only copied.\<close>

record location_item =
  loc_valid :: bool
  loc_coordinates :: "(rat \<times> rat \<times> rat) option"
  loc_rest :: nat

definition status_location :: "rat \<Rightarrow> rat \<Rightarrow> rat \<Rightarrow> nat \<Rightarrow> location_item" where
  "status_location latitude longitude altitude rest =
     \<lparr>loc_valid = True, loc_coordinates = Some (latitude, longitude, altitude), loc_rest = rest\<rparr>"

definition default_location :: "location_item" where
  "default_location = \<lparr>loc_valid = False, loc_coordinates = None, loc_rest = 0\<rparr>"

definition location_equals :: "location_item \<Rightarrow> location_item \<Rightarrow> bool" where
  "location_equals a b \<longleftrightarrow> loc_coordinates a = loc_coordinates b"

record time_and_clock =
  tc_GpsWeek :: "16 word"
  tc_GpsTowMs :: "32 word"
  tc_TimeValid :: "8 word"
  tc_TimeSource :: "8 word"
  tc_TimeUnc :: "32 word"
  tc_ClockFreqBias :: "32 word"
  tc_ClockFreqBiasUnc :: "32 word"
  tc_LeapSeconds :: "32 word"
  tc_LeapSecUnc :: "32 word"
  tc_TimeUncNs :: "64 word"

definition TimeAndClock :: "pqwm1 \<Rightarrow> time_and_clock" where
  "TimeAndClock nmea = \<lparr>tc_GpsWeek = mGpsWeek nmea, tc_GpsTowMs = mGpsTowMs nmea, tc_TimeValid = mTimeValid nmea,
     tc_TimeSource = mTimeSource nmea, tc_TimeUnc = mTimeUnc nmea, tc_ClockFreqBias = mClockFreqBias nmea,
     tc_ClockFreqBiasUnc = mClockFreqBiasUnc nmea, tc_LeapSeconds = mLeapSeconds nmea,
     tc_LeapSecUnc = mLeapSecUnc nmea, tc_TimeUncNs = mTimeUncNs nmea\<rparr>"

definition time_and_clock_equals :: "time_and_clock \<Rightarrow> time_and_clock \<Rightarrow> bool" where
  "time_and_clock_equals a b \<longleftrightarrow>
     \<not> (tc_GpsWeek a \<noteq> tc_GpsWeek b \<or> tc_GpsTowMs a \<noteq> tc_GpsTowMs b \<or> tc_TimeValid a \<noteq> tc_TimeValid b \<or>
        tc_TimeSource a \<noteq> tc_TimeSource b \<or> tc_TimeUnc a \<noteq> tc_TimeUnc b \<or>
        tc_ClockFreqBias a \<noteq> tc_ClockFreqBias b \<or> tc_ClockFreqBiasUnc a \<noteq> tc_ClockFreqBiasUnc b \<or>
        tc_LeapSeconds a \<noteq> tc_LeapSeconds b \<or> tc_LeapSecUnc a \<noteq> tc_LeapSecUnc b \<or>
        tc_TimeUncNs a \<noteq> tc_TimeUncNs b)"

record rf_and_params =
  rf_PgaGain :: "32 word"
  rf_GpsBpAmpI :: "32 word"
  rf_GpsBpAmpQ :: "32 word"
  rf_AdcI :: "32 word"
  rf_AdcQ :: "32 word"
  rf_JammerGps :: "32 word"
  rf_JammerGlo :: "32 word"
  rf_JammerBds :: "32 word"
  rf_JammerGal :: "32 word"
  rf_AgcGps :: rat
  rf_AgcGlo :: rat
  rf_AgcBds :: rat
  rf_AgcGal :: rat
  rf_GloBpAmpI :: "32 word"
  rf_GloBpAmpQ :: "32 word"
  rf_BdsBpAmpI :: "32 word"
  rf_BdsBpAmpQ :: "32 word"
  rf_GalBpAmpI :: "32 word"
  rf_GalBpAmpQ :: "32 word"

definition RfAndParams :: "pqwm1 \<Rightarrow> rf_and_params" where
  "RfAndParams nmea = \<lparr>rf_PgaGain = mPgaGain nmea, rf_GpsBpAmpI = mGpsBpAmpI nmea, rf_GpsBpAmpQ = mGpsBpAmpQ nmea,
     rf_AdcI = mAdcI nmea, rf_AdcQ = mAdcQ nmea, rf_JammerGps = mJammerGps nmea, rf_JammerGlo = mJammerGlo nmea,
     rf_JammerBds = mJammerBds nmea, rf_JammerGal = mJammerGal nmea, rf_AgcGps = mAgcGps nmea,
     rf_AgcGlo = mAgcGlo nmea, rf_AgcBds = mAgcBds nmea, rf_AgcGal = mAgcGal nmea,
     rf_GloBpAmpI = mGloBpAmpI nmea, rf_GloBpAmpQ = mGloBpAmpQ nmea, rf_BdsBpAmpI = mBdsBpAmpI nmea,
     rf_BdsBpAmpQ = mBdsBpAmpQ nmea, rf_GalBpAmpI = mGalBpAmpI nmea, rf_GalBpAmpQ = mGalBpAmpQ nmea\<rparr>"

definition rf_and_params_equals :: "rf_and_params \<Rightarrow> rf_and_params \<Rightarrow> bool" where
  "rf_and_params_equals a b \<longleftrightarrow>
     \<not> (rf_PgaGain a \<noteq> rf_PgaGain b \<or> rf_GpsBpAmpI a \<noteq> rf_GpsBpAmpI b \<or> rf_GpsBpAmpQ a \<noteq> rf_GpsBpAmpQ b \<or>
        rf_AdcI a \<noteq> rf_AdcI b \<or> rf_AdcQ a \<noteq> rf_AdcQ b \<or> rf_JammerGps a \<noteq> rf_JammerGps b \<or>
        rf_JammerGlo a \<noteq> rf_JammerGlo b \<or> rf_JammerBds a \<noteq> rf_JammerBds b \<or> rf_JammerGal a \<noteq> rf_JammerGal b \<or>
        rf_AgcGps a \<noteq> rf_AgcGps b \<or> rf_AgcGlo a \<noteq> rf_AgcGlo b \<or> rf_AgcBds a \<noteq> rf_AgcBds b \<or>
        rf_AgcGal a \<noteq> rf_AgcGal b \<or> rf_GloBpAmpI a \<noteq> rf_GloBpAmpI b \<or> rf_GloBpAmpQ a \<noteq> rf_GloBpAmpQ b \<or>
        rf_BdsBpAmpI a \<noteq> rf_BdsBpAmpI b \<or> rf_BdsBpAmpQ a \<noteq> rf_BdsBpAmpQ b \<or>
        rf_GalBpAmpI a \<noteq> rf_GalBpAmpI b \<or> rf_GalBpAmpQ a \<noteq> rf_GalBpAmpQ b)"

text \<open>An item with one member is that member.\<close>

definition err_recovery_ops :: "32 word item_ops" where
  "err_recovery_ops = (base_ops (=))\<lparr>ignore := (\<lambda>e. e = 0)\<rparr>"

definition injected_position_equals :: "pqwp1 \<Rightarrow> pqwp1 \<Rightarrow> bool" where
  "injected_position_equals a b \<longleftrightarrow>
     \<not> (mEpiValidity a \<noteq> mEpiValidity b \<or> mEpiLat a \<noteq> mEpiLat b \<or> mEpiLon a \<noteq> mEpiLon b \<or> mEpiAlt a \<noteq> mEpiAlt b \<or>
        mEpiHepe a \<noteq> mEpiHepe b \<or> mEpiAltUnc a \<noteq> mEpiAltUnc b \<or> mEpiSrc a \<noteq> mEpiSrc b)"

record best_position = pqwp2 +
  best_valid :: bool

definition BestPosition :: "pqwp2 \<Rightarrow> best_position" where
  "BestPosition nmea = pqwp2.extend nmea \<lparr>best_valid = True\<rparr>"

definition best_position_equals :: "best_position \<Rightarrow> best_position \<Rightarrow> bool" where
  "best_position_equals a b \<longleftrightarrow>
     \<not> (mBestLat a \<noteq> mBestLat b \<or> mBestLon a \<noteq> mBestLon b \<or> mBestAlt a \<noteq> mBestAlt b \<or>
        mBestHepe a \<noteq> mBestHepe b \<or> mBestAltUnc a \<noteq> mBestAltUnc b)"

definition xtra_equals :: "pqwp3 \<Rightarrow> pqwp3 \<Rightarrow> bool" where
  "xtra_equals a b \<longleftrightarrow>
     \<not> (mXtraValidMask a \<noteq> mXtraValidMask b \<or> mGpsXtraAge a \<noteq> mGpsXtraAge b \<or> mGloXtraAge a \<noteq> mGloXtraAge b \<or>
        mBdsXtraAge a \<noteq> mBdsXtraAge b \<or> mGalXtraAge a \<noteq> mGalXtraAge b \<or> mQzssXtraAge a \<noteq> mQzssXtraAge b \<or>
        mNavicXtraAge a \<noteq> mNavicXtraAge b \<or> mGpsXtraValid a \<noteq> mGpsXtraValid b \<or>
        mGloXtraValid a \<noteq> mGloXtraValid b \<or> mBdsXtraValid a \<noteq> mBdsXtraValid b \<or>
        mGalXtraValid a \<noteq> mGalXtraValid b \<or> mQzssXtraValid a \<noteq> mQzssXtraValid b \<or>
        mNavicXtraValid a \<noteq> mNavicXtraValid b)"

definition ephemeris_equals :: "pqwp4 \<Rightarrow> pqwp4 \<Rightarrow> bool" where
  "ephemeris_equals a b \<longleftrightarrow>
     \<not> (mGpsEpheValid a \<noteq> mGpsEpheValid b \<or> mGloEpheValid a \<noteq> mGloEpheValid b \<or> mBdsEpheValid a \<noteq> mBdsEpheValid b \<or>
        mGalEpheValid a \<noteq> mGalEpheValid b \<or> mQzssEpheValid a \<noteq> mQzssEpheValid b)"

text \<open>The masks of NavIC are not compared.\<close>

definition sv_health_equals :: "pqwp5 \<Rightarrow> pqwp5 \<Rightarrow> bool" where
  "sv_health_equals a b \<longleftrightarrow>
     \<not> (mGpsUnknownMask a \<noteq> mGpsUnknownMask b \<or> mGloUnknownMask a \<noteq> mGloUnknownMask b \<or>
        mBdsUnknownMask a \<noteq> mBdsUnknownMask b \<or> mGalUnknownMask a \<noteq> mGalUnknownMask b \<or>
        mQzssUnknownMask a \<noteq> mQzssUnknownMask b \<or> mGpsGoodMask a \<noteq> mGpsGoodMask b \<or>
        mGloGoodMask a \<noteq> mGloGoodMask b \<or> mBdsGoodMask a \<noteq> mBdsGoodMask b \<or> mGalGoodMask a \<noteq> mGalGoodMask b \<or>
        mQzssGoodMask a \<noteq> mQzssGoodMask b \<or> mGpsBadMask a \<noteq> mGpsBadMask b \<or> mGloBadMask a \<noteq> mGloBadMask b \<or>
        mBdsBadMask a \<noteq> mBdsBadMask b \<or> mGalBadMask a \<noteq> mGalBadMask b \<or> mQzssBadMask a \<noteq> mQzssBadMask b)"

definition nav_data_equals :: "status_nav list \<Rightarrow> status_nav list \<Rightarrow> bool" where
  "nav_data_equals a b \<longleftrightarrow>
     (\<forall>i < SV_ALL_NUM. \<not> (nav_type (a ! i) \<noteq> nav_type (b ! i) \<or> nav_source (a ! i) \<noteq> nav_source (b ! i) \<or>
        mAgeSec (a ! i) \<noteq> mAgeSec (b ! i)))"

definition position_failure_equals :: "pqws1 \<Rightarrow> pqws1 \<Rightarrow> bool" where
  "position_failure_equals a b \<longleftrightarrow> \<not> (mFixInfoMask a \<noteq> mFixInfoMask b \<or> mHepeLimit a \<noteq> mHepeLimit b)"

section \<open>Default items\<close>

definition default_p1 :: pqwp1 where
  "default_p1 = \<lparr>mEpiValidity = 0, mEpiLat = 0, mEpiLon = 0, mEpiAlt = 0, mEpiHepe = 0, mEpiAltUnc = 0, mEpiSrc = 0\<rparr>"

definition default_best :: best_position where
  "default_best = \<lparr>mBestLat = 0, mBestLon = 0, mBestAlt = 0, mBestHepe = 0, mBestAltUnc = 0, best_valid = False\<rparr>"

definition default_p3 :: pqwp3 where
  "default_p3 = \<lparr>mXtraValidMask = 0, mGpsXtraAge = 0, mGloXtraAge = 0, mBdsXtraAge = 0, mGalXtraAge = 0,
     mQzssXtraAge = 0, mNavicXtraAge = 0, mGpsXtraValid = 0, mGloXtraValid = 0, mBdsXtraValid = 0,
     mGalXtraValid = 0, mQzssXtraValid = 0, mNavicXtraValid = 0\<rparr>"

definition default_p4 :: pqwp4 where
  "default_p4 = \<lparr>mGpsEpheValid = 0, mGloEpheValid = 0, mBdsEpheValid = 0, mGalEpheValid = 0, mQzssEpheValid = 0\<rparr>"

definition default_p5 :: pqwp5 where
  "default_p5 = \<lparr>mGpsUnknownMask = 0, mGloUnknownMask = 0, mBdsUnknownMask = 0, mGalUnknownMask = 0,
     mQzssUnknownMask = 0, mNavicUnknownMask = 0, mGpsGoodMask = 0, mGloGoodMask = 0, mBdsGoodMask = 0,
     mGalGoodMask = 0, mQzssGoodMask = 0, mNavicGoodMask = 0, mGpsBadMask = 0, mGloBadMask = 0, mBdsBadMask = 0,
     mGalBadMask = 0, mQzssBadMask = 0, mNavicBadMask = 0\<rparr>"

section \<open>From the observer\<close>

record time_change =
  mCurrTimeMillis :: int
  mRawOffsetTZ :: int
  mDstOffsetTZ :: int

definition time_change_equals :: "time_change \<Rightarrow> time_change \<Rightarrow> bool" where
  "time_change_equals a b \<longleftrightarrow> mCurrTimeMillis a = mCurrTimeMillis b \<and> mRawOffsetTZ a = mRawOffsetTZ b \<and>
     mDstOffsetTZ a = mDstOffsetTZ b"

record wifi_supplicant =
  wifi_state :: int
  mApMacAddressValid :: bool
  mApMacAddress :: "8 word list"
  mWifiApSsidValid :: bool
  mWifiApSsid :: string

definition wifi_supplicant_equals :: "wifi_supplicant \<Rightarrow> wifi_supplicant \<Rightarrow> bool" where
  "wifi_supplicant_equals a b \<longleftrightarrow> wifi_state a = wifi_state b \<and> mApMacAddressValid a = mApMacAddressValid b \<and>
     mWifiApSsidValid a = mWifiApSsidValid b \<and> mWifiApSsid a = mWifiApSsid b"

record srn_scan =
  mValidSrnData :: bool
  mApSrnRssi :: int
  mApSrnMacAddress :: "8 word list"
  mApSrnTimestamp :: int
  mRequestTimestamp :: int
  mReceiveTimestamp :: int
  mErrorCause :: int

definition srn_scan_equals :: "srn_scan \<Rightarrow> srn_scan \<Rightarrow> bool" where
  "srn_scan_equals a b \<longleftrightarrow> mApSrnRssi a = mApSrnRssi b \<and> mApSrnMacAddress a = mApSrnMacAddress b \<and>
     mApSrnTimestamp a = mApSrnTimestamp b \<and> mRequestTimestamp a = mRequestTimestamp b \<and>
     mReceiveTimestamp a = mReceiveTimestamp b"

text \<open>The items of the radio interface are a pointer. Their copy constructor starts with NULL and lets
  the virtual \<open>setPeerData\<close> of the copied object fill it; the classes of this file inherit the one that does
  nothing, so a copy made from them has NULL.\<close>

definition ril_ops :: "ptr item_ops" where
  "ril_ops = (base_ops (\<lambda>a b. b = a))\<lparr>copied := (\<lambda>_. None)\<rparr>"

definition network_ops :: "network_info item_ops" where
  "network_ops = (base_ops network_equals)\<lparr>collate := network_collate\<rparr>"

datatype data_item =
    AirplaneMode bool
  | ENH bool
  | GPSState bool
  | NLPStatus bool
  | WifiHardwareState bool
  | NetworkInfo network_info
  | RilServiceInfo ptr
  | RilCellInfo ptr
  | ServiceStatus int
  | Model string
  | Manufacturer string
  | AssistedGps bool
  | ScreenState bool
  | PowerConnectState bool
  | TimeZoneChange time_change
  | TimeChange time_change
  | WifiSupplicantStatus wifi_supplicant
  | ShutdownState bool
  | Tac string
  | MccMnc string
  | BtLeDeviceScanDetails srn_scan
  | BtDeviceScanDetails srn_scan
  | OtherDataItem nat

end
