(* ===== verification/SystemStatus.thy ===== *)
theory SystemStatus
  imports StatusItems
begin

text \<open>
  The cache of \<open>src/gps/core/SystemStatus.cpp\<close>: for every kind of item the last five reports that
  differ from the one before. Debug sentences, positions and data items enter it; a client reads
  the whole cache or the last reports. Times are arguments: \<open>now\<close> is what \<open>gettimeofday\<close> returns, the
  n-th time it is called. What is posted to the observer (\<open>OsObserver\<close>) is a result. The mutex makes each
  function one step; \<open>getInstance\<close> is left out.
\<close>

section \<open>Reports\<close>

definition maxItem :: nat where "maxItem = 5"

definition push_report :: "'a status_item \<Rightarrow> 'a status_item list \<Rightarrow> 'a status_item list" where
  "push_report s report = (let r = report @ [s] in if maxItem < length r then tl r else r)"

text \<open>The result has the contents of the item too, which \<open>collate\<close> changes.\<close>

definition setIteminReport ::
  "'a item_ops \<Rightarrow> 'a status_item \<Rightarrow> 'a status_item list \<Rightarrow> bool \<times> 'a status_item list \<times> 'a"
where
  "setIteminReport ops s report =
     (if ignore ops (contents s) then (False, report, contents s)
      else
        (let s' = (if report \<noteq> [] then s\<lparr>contents := collate ops (contents s) (contents (last report))\<rparr> else s)
         in if report \<noteq> [] \<and> equals ops (contents (last report)) (contents s')
            then (False, butlast report @ [(last report)\<lparr>mUtcReported := mUtcReported s'\<rparr>], contents s')
            else (True, push_report (s'\<lparr>contents := copied ops (contents s')\<rparr>) report, contents s')))"

definition setDefaultIteminReport :: "'a status_item \<Rightarrow> 'a status_item list \<Rightarrow> 'a status_item list" where
  "setDefaultIteminReport s report = push_report s report"

definition getIteminReport :: "'a status_item list \<Rightarrow> 'a status_item list" where
  "getIteminReport c = (if 1 \<le> length c then [last c] else [])"

record reports =
  mLocation :: "location_item status_item list"
  mTimeAndClock :: "time_and_clock status_item list"
  mXoState_reports :: "8 word status_item list"
  mRfAndParams :: "rf_and_params status_item list"
  mErrRecovery :: "32 word status_item list"
  mInjectedPosition :: "pqwp1 status_item list"
  mBestPosition :: "best_position status_item list"
  mXtra :: "pqwp3 status_item list"
  mEphemeris :: "pqwp4 status_item list"
  mSvHealth :: "pqwp5 status_item list"
  mPdr :: "32 word status_item list"
  mNavData :: "status_nav list status_item list"
  mPositionFailure :: "pqws1 status_item list"
  mAirplaneMode :: "bool status_item list"
  mENH :: "bool status_item list"
  mGPSState :: "bool status_item list"
  mNLPStatus :: "bool status_item list"
  mWifiHardwareState :: "bool status_item list"
  mNetworkInfo :: "network_info status_item list"
  mRilServiceInfo :: "ptr status_item list"
  mRilCellInfo :: "ptr status_item list"
  mServiceStatus :: "int status_item list"
  mModel :: "string status_item list"
  mManufacturer :: "string status_item list"
  mAssistedGps :: "bool status_item list"
  mScreenState :: "bool status_item list"
  mPowerConnectState :: "bool status_item list"
  mTimeZoneChange :: "time_change status_item list"
  mTimeChange :: "time_change status_item list"
  mWifiSupplicantStatus :: "wifi_supplicant status_item list"
  mShutdownState :: "bool status_item list"
  mTac :: "string status_item list"
  mMccMnc :: "string status_item list"
  mBtDeviceScanDetail :: "srn_scan status_item list"
  mBtLeDeviceScanDetail :: "srn_scan status_item list"

definition new_reports :: reports where
  "new_reports = \<lparr>mLocation = [], mTimeAndClock = [], mXoState_reports = [], mRfAndParams = [], mErrRecovery = [],
     mInjectedPosition = [], mBestPosition = [], mXtra = [], mEphemeris = [], mSvHealth = [], mPdr = [],
     mNavData = [], mPositionFailure = [], mAirplaneMode = [], mENH = [], mGPSState = [], mNLPStatus = [],
     mWifiHardwareState = [], mNetworkInfo = [], mRilServiceInfo = [], mRilCellInfo = [], mServiceStatus = [],
     mModel = [], mManufacturer = [], mAssistedGps = [], mScreenState = [], mPowerConnectState = [],
     mTimeZoneChange = [], mTimeChange = [], mWifiSupplicantStatus = [], mShutdownState = [], mTac = [],
     mMccMnc = [], mBtDeviceScanDetail = [], mBtLeDeviceScanDetail = []\<rparr>"

abbreviation "report_of ops s r \<equiv> fst (snd (setIteminReport ops s r))"

section \<open>Debug sentences\<close>

definition set_m1 :: "(nat \<Rightarrow> int \<times> int) \<Rightarrow> pqwm1 \<Rightarrow> reports \<Rightarrow> reports" where
  "set_m1 now s c =
     c\<lparr>mTimeAndClock :=
         report_of (base_ops time_and_clock_equals) (new_item (now 0) (TimeAndClock s)) (mTimeAndClock c),
       mXoState_reports := report_of (base_ops (=)) (new_item (now 1) (mXoState s)) (mXoState_reports c),
       mRfAndParams :=
         report_of (base_ops rf_and_params_equals) (new_item (now 2) (RfAndParams s)) (mRfAndParams c),
       mErrRecovery := report_of err_recovery_ops (new_item (now 3) (mRecErrorRecovery s)) (mErrRecovery c)\<rparr>"

text \<open>The kinds of sentence, with the first six characters to tell them apart.\<close>

definition set_sentence :: "(nat \<Rightarrow> int \<times> int) \<Rightarrow> string \<Rightarrow> string \<Rightarrow> int \<Rightarrow> reports \<Rightarrow> reports option" where
  "set_sentence now kind buf len c =
     (if kind = ''$PQWM1'' then Some (set_m1 now (PQWM1parser buf len) c)
      else if kind = ''$PQWP1'' then map_option (\<lambda>s. c\<lparr>mInjectedPosition :=
          report_of (base_ops injected_position_equals) (new_item (now 0) s) (mInjectedPosition c)\<rparr>)
        (PQWP1parser buf len)
      else if kind = ''$PQWP2'' then map_option (\<lambda>s. c\<lparr>mBestPosition :=
          report_of (base_ops best_position_equals) (new_item (now 0) (BestPosition s)) (mBestPosition c)\<rparr>)
        (PQWP2parser buf len)
      else if kind = ''$PQWP3'' then map_option (\<lambda>s. c\<lparr>mXtra :=
          report_of (base_ops xtra_equals) (new_item (now 0) s) (mXtra c)\<rparr>) (PQWP3parser buf len)
      else if kind = ''$PQWP4'' then map_option (\<lambda>s. c\<lparr>mEphemeris :=
          report_of (base_ops ephemeris_equals) (new_item (now 0) s) (mEphemeris c)\<rparr>) (PQWP4parser buf len)
      else if kind = ''$PQWP5'' then map_option (\<lambda>s. c\<lparr>mSvHealth :=
          report_of (base_ops sv_health_equals) (new_item (now 0) s) (mSvHealth c)\<rparr>) (PQWP5parser buf len)
      else if kind = ''$PQWP6'' then map_option (\<lambda>s. c\<lparr>mPdr :=
          report_of (base_ops (=)) (new_item (now 0) s) (mPdr c)\<rparr>) (PQWP6parser buf len)
      else if kind = ''$PQWP7'' then map_option (\<lambda>s. c\<lparr>mNavData :=
          report_of (base_ops nav_data_equals) (new_item (now 0) s) (mNavData c)\<rparr>) (PQWP7parser buf len)
      else if kind = ''$PQWS1'' then map_option (\<lambda>s. c\<lparr>mPositionFailure :=
          report_of (base_ops position_failure_equals) (new_item (now 0) s) (mPositionFailure c)\<rparr>)
        (PQWS1parser buf len)
      else Some c)"

definition setNmeaString :: "(nat \<Rightarrow> int \<times> int) \<Rightarrow> string \<Rightarrow> int \<Rightarrow> reports \<Rightarrow> (bool \<times> reports) option" where
  "setNmeaString now data len c =
     (if \<not> loc_nmea_is_debug data len then Some (False, c)
      else (let buf = strlcpy (DEBUG_NMEA_MAXSIZE + 1) data
            in map_option (Pair True) (set_sentence now (take DEBUG_NMEA_MINSIZE data) buf len c)))"

section \<open>Positions\<close>

text \<open>Comparing with uninitialised coordinates is undefined.\<close>

definition eventPosition :: "int \<times> int \<Rightarrow> location_item \<Rightarrow> reports \<Rightarrow> (bool \<times> reports) option" where
  "eventPosition now location c =
     (if mLocation c \<noteq> [] \<and> loc_coordinates (contents (last (mLocation c))) = None then None
      else
        (let (ret, r, _) = setIteminReport (base_ops location_equals) (new_item now location) (mLocation c)
         in Some (ret, c\<lparr>mLocation := r\<rparr>)))"

section \<open>Data items\<close>

text \<open>\<open>peer\<close> is what \<open>setPeerData\<close> of the vendor's items hands to a copy. The item is returned: \<open>collate\<close>
  writes the table of networks back to it. Bluetooth scans go to the report of the other kind.\<close>

definition eventDataItemNotify ::
  "(ptr \<Rightarrow> ptr) \<Rightarrow> int \<times> int \<Rightarrow> data_item \<Rightarrow> reports \<Rightarrow> bool \<times> reports \<times> data_item"
where
  "eventDataItemNotify peer now d c =
     (case d of
        AirplaneMode x \<Rightarrow> (let (ret, r, _) = setIteminReport (base_ops (=)) (new_item now x) (mAirplaneMode c)
          in (ret, c\<lparr>mAirplaneMode := r\<rparr>, d))
      | ENH x \<Rightarrow> (let (ret, r, _) = setIteminReport (base_ops (=)) (new_item now x) (mENH c)
          in (ret, c\<lparr>mENH := r\<rparr>, d))
      | GPSState x \<Rightarrow> (let (ret, r, _) = setIteminReport (base_ops (=)) (new_item now x) (mGPSState c)
          in (ret, c\<lparr>mGPSState := r\<rparr>, d))
      | NLPStatus x \<Rightarrow> (let (ret, r, _) = setIteminReport (base_ops (=)) (new_item now x) (mNLPStatus c)
          in (ret, c\<lparr>mNLPStatus := r\<rparr>, d))
      | WifiHardwareState x \<Rightarrow>
          (let (ret, r, _) = setIteminReport (base_ops (=)) (new_item now x) (mWifiHardwareState c)
          in (ret, c\<lparr>mWifiHardwareState := r\<rparr>, d))
      | NetworkInfo x \<Rightarrow> (let (ret, r, s) = setIteminReport network_ops (new_item now x) (mNetworkInfo c)
          in (ret, c\<lparr>mNetworkInfo := r\<rparr>,
              NetworkInfo (x\<lparr>mAllTypes := mAllTypes s, mAllNetworkHandles := mAllNetworkHandles s\<rparr>)))
      | RilServiceInfo p \<Rightarrow> (let (ret, r, _) = setIteminReport ril_ops (new_item now (peer p)) (mRilServiceInfo c)
          in (ret, c\<lparr>mRilServiceInfo := r\<rparr>, d))
      | RilCellInfo p \<Rightarrow> (let (ret, r, _) = setIteminReport ril_ops (new_item now (peer p)) (mRilCellInfo c)
          in (ret, c\<lparr>mRilCellInfo := r\<rparr>, d))
      | ServiceStatus x \<Rightarrow> (let (ret, r, _) = setIteminReport (base_ops (=)) (new_item now x) (mServiceStatus c)
          in (ret, c\<lparr>mServiceStatus := r\<rparr>, d))
      | Model x \<Rightarrow> (let (ret, r, _) = setIteminReport (base_ops (=)) (new_item now x) (mModel c)
          in (ret, c\<lparr>mModel := r\<rparr>, d))
      | Manufacturer x \<Rightarrow> (let (ret, r, _) = setIteminReport (base_ops (=)) (new_item now x) (mManufacturer c)
          in (ret, c\<lparr>mManufacturer := r\<rparr>, d))
      | AssistedGps x \<Rightarrow> (let (ret, r, _) = setIteminReport (base_ops (=)) (new_item now x) (mAssistedGps c)
          in (ret, c\<lparr>mAssistedGps := r\<rparr>, d))
      | ScreenState x \<Rightarrow> (let (ret, r, _) = setIteminReport (base_ops (=)) (new_item now x) (mScreenState c)
          in (ret, c\<lparr>mScreenState := r\<rparr>, d))
      | PowerConnectState x \<Rightarrow>
          (let (ret, r, _) = setIteminReport (base_ops (=)) (new_item now x) (mPowerConnectState c)
          in (ret, c\<lparr>mPowerConnectState := r\<rparr>, d))
      | TimeZoneChange x \<Rightarrow>
          (let (ret, r, _) = setIteminReport (base_ops time_change_equals) (new_item now x) (mTimeZoneChange c)
          in (ret, c\<lparr>mTimeZoneChange := r\<rparr>, d))
      | TimeChange x \<Rightarrow>
          (let (ret, r, _) = setIteminReport (base_ops time_change_equals) (new_item now x) (mTimeChange c)
          in (ret, c\<lparr>mTimeChange := r\<rparr>, d))
      | WifiSupplicantStatus x \<Rightarrow>
          (let (ret, r, _) =
             setIteminReport (base_ops wifi_supplicant_equals) (new_item now x) (mWifiSupplicantStatus c)
          in (ret, c\<lparr>mWifiSupplicantStatus := r\<rparr>, d))
      | ShutdownState x \<Rightarrow> (let (ret, r, _) = setIteminReport (base_ops (=)) (new_item now x) (mShutdownState c)
          in (ret, c\<lparr>mShutdownState := r\<rparr>, d))
      | Tac x \<Rightarrow> (let (ret, r, _) = setIteminReport (base_ops (=)) (new_item now x) (mTac c)
          in (ret, c\<lparr>mTac := r\<rparr>, d))
      | MccMnc x \<Rightarrow> (let (ret, r, _) = setIteminReport (base_ops (=)) (new_item now x) (mMccMnc c)
          in (ret, c\<lparr>mMccMnc := r\<rparr>, d))
      | BtLeDeviceScanDetails x \<Rightarrow>
          (let (ret, r, _) = setIteminReport (base_ops srn_scan_equals) (new_item now x) (mBtDeviceScanDetail c)
          in (ret, c\<lparr>mBtDeviceScanDetail := r\<rparr>, d))
      | BtDeviceScanDetails x \<Rightarrow>
          (let (ret, r, _) = setIteminReport (base_ops srn_scan_equals) (new_item now x) (mBtLeDeviceScanDetail c)
          in (ret, c\<lparr>mBtLeDeviceScanDetail := r\<rparr>, d))
      | OtherDataItem _ \<Rightarrow> (False, c, d))"

section \<open>Reading and resetting\<close>

definition latest_reports :: "reports \<Rightarrow> reports" where
  "latest_reports c =
     \<lparr>mLocation = getIteminReport (mLocation c), mTimeAndClock = getIteminReport (mTimeAndClock c),
      mXoState_reports = getIteminReport (mXoState_reports c), mRfAndParams = getIteminReport (mRfAndParams c),
      mErrRecovery = getIteminReport (mErrRecovery c), mInjectedPosition = getIteminReport (mInjectedPosition c),
      mBestPosition = getIteminReport (mBestPosition c), mXtra = getIteminReport (mXtra c),
      mEphemeris = getIteminReport (mEphemeris c), mSvHealth = getIteminReport (mSvHealth c),
      mPdr = getIteminReport (mPdr c), mNavData = getIteminReport (mNavData c),
      mPositionFailure = getIteminReport (mPositionFailure c), mAirplaneMode = getIteminReport (mAirplaneMode c),
      mENH = getIteminReport (mENH c), mGPSState = getIteminReport (mGPSState c),
      mNLPStatus = getIteminReport (mNLPStatus c), mWifiHardwareState = getIteminReport (mWifiHardwareState c),
      mNetworkInfo = getIteminReport (mNetworkInfo c), mRilServiceInfo = getIteminReport (mRilServiceInfo c),
      mRilCellInfo = getIteminReport (mRilCellInfo c), mServiceStatus = getIteminReport (mServiceStatus c),
      mModel = getIteminReport (mModel c), mManufacturer = getIteminReport (mManufacturer c),
      mAssistedGps = getIteminReport (mAssistedGps c), mScreenState = getIteminReport (mScreenState c),
      mPowerConnectState = getIteminReport (mPowerConnectState c),
      mTimeZoneChange = getIteminReport (mTimeZoneChange c), mTimeChange = getIteminReport (mTimeChange c),
      mWifiSupplicantStatus = getIteminReport (mWifiSupplicantStatus c),
      mShutdownState = getIteminReport (mShutdownState c), mTac = getIteminReport (mTac c),
      mMccMnc = getIteminReport (mMccMnc c), mBtDeviceScanDetail = getIteminReport (mBtDeviceScanDetail c),
      mBtLeDeviceScanDetail = getIteminReport (mBtLeDeviceScanDetail c)\<rparr>"

definition getReport :: "bool \<Rightarrow> reports \<Rightarrow> bool \<times> reports" where
  "getReport isLatestOnly c = (True, if isLatestOnly then latest_reports c else c)"

definition setDefaultGnssEngineStates :: "(nat \<Rightarrow> int \<times> int) \<Rightarrow> reports \<Rightarrow> bool \<times> reports" where
  "setDefaultGnssEngineStates now c =
     (True, c\<lparr>mLocation := setDefaultIteminReport (new_item (now 0) default_location) (mLocation c),
       mTimeAndClock := setDefaultIteminReport (new_item (now 1) (TimeAndClock zero_m1)) (mTimeAndClock c),
       mXoState_reports := setDefaultIteminReport (new_item (now 2) 0) (mXoState_reports c),
       mRfAndParams := setDefaultIteminReport (new_item (now 3) (RfAndParams zero_m1)) (mRfAndParams c),
       mErrRecovery := setDefaultIteminReport (new_item (now 4) 0) (mErrRecovery c),
       mInjectedPosition := setDefaultIteminReport (new_item (now 5) default_p1) (mInjectedPosition c),
       mBestPosition := setDefaultIteminReport (new_item (now 6) default_best) (mBestPosition c),
       mXtra := setDefaultIteminReport (new_item (now 7) default_p3) (mXtra c),
       mEphemeris := setDefaultIteminReport (new_item (now 8) default_p4) (mEphemeris c),
       mSvHealth := setDefaultIteminReport (new_item (now 9) default_p5) (mSvHealth c),
       mPdr := setDefaultIteminReport (new_item (now 10) 0) (mPdr c),
       mNavData := setDefaultIteminReport (new_item (now 11) (replicate SV_ALL_NUM zero_nav)) (mNavData c),
       mPositionFailure :=
         setDefaultIteminReport (new_item (now 12) \<lparr>mFixInfoMask = 0, mHepeLimit = 0\<rparr>) (mPositionFailure c)\<rparr>)"

text \<open>The items posted to the observer, with the result.\<close>

definition eventConnectionStatus :: "bool \<Rightarrow> int \<Rightarrow> bool \<Rightarrow> 64 word \<Rightarrow> bool \<times> data_item list" where
  "eventConnectionStatus conn type roaming networkHandle =
     (True, [NetworkInfo (new_network_info type [] [] conn roaming networkHandle)])"

definition updatePowerConnectState :: "bool \<Rightarrow> bool \<times> data_item list" where
  "updatePowerConnectState charging = (True, [PowerConnectState charging])"

end
