(* ===== verification/OsObserver.thy ===== *)
theory OsObserver
  imports SetMap SystemStatus
begin

text \<open>
  The observer of the operating system in \<open>src/gps/core/SystemStatusOsObserver.cpp\<close>: clients
  subscribe to data items, the framework is subscribed to each item once, updates are cached and
  handed to the clients of the items that changed. An operation stands for the \<open>proc\<close> of the message
  it posts, with the guards of the function that posts it; the messages are processed in order. What
  leaves the observer is a list of effects. The data items come from a vendor library: \<open>create\<close> makes
  an empty one, \<open>copy\<close> copies the contents and tells whether they changed. A data item first goes to the
  cache of \<open>SystemStatus\<close>, which is part of the state. Sets of clients are run through in ascending order, which
  stands for the unspecified order of the source.
\<close>

type_synonym item_id = nat
type_synonym client = nat

fun item_getId :: "data_item \<Rightarrow> item_id" where
  "item_getId (AirplaneMode _) = 0"
| "item_getId (ENH _) = 1"
| "item_getId (GPSState _) = 2"
| "item_getId (NLPStatus _) = 3"
| "item_getId (WifiHardwareState _) = 4"
| "item_getId (NetworkInfo _) = 5"
| "item_getId (RilServiceInfo _) = 7"
| "item_getId (RilCellInfo _) = 8"
| "item_getId (ServiceStatus _) = 9"
| "item_getId (Model _) = 10"
| "item_getId (Manufacturer _) = 11"
| "item_getId (AssistedGps _) = 13"
| "item_getId (ScreenState _) = 14"
| "item_getId (PowerConnectState _) = 15"
| "item_getId (TimeZoneChange _) = 16"
| "item_getId (TimeChange _) = 17"
| "item_getId (WifiSupplicantStatus _) = 18"
| "item_getId (ShutdownState _) = 19"
| "item_getId (Tac _) = 20"
| "item_getId (MccMnc _) = 21"
| "item_getId (BtLeDeviceScanDetails _) = 22"
| "item_getId (BtDeviceScanDetails _) = 23"
| "item_getId (OtherDataItem i) = i"

datatype os_effect =
    Notify client "(item_id \<times> data_item) set"
  | Subscribe "item_id set"
  | Unsubscribe "item_id set"
  | RequestData "item_id list"
  | TurnOn item_id int
  | TurnOff item_id

record os_observer =
  mClientToDataItems :: "(client, item_id) set_map"
  mDataItemToClients :: "(item_id, client) set_map"
  mDataItemCache :: "item_id \<Rightarrow> data_item option"
  mActiveRequestCount :: "item_id \<Rightarrow> int option"
  mSubscriptionObj :: bool
  mFrameworkActionReqObj :: bool
  mSystemStatus :: reports

text \<open>What the vendor's data items do; \<open>peer\<close> is for \<open>eventDataItemNotify\<close>.\<close>

record os_env =
  create :: "item_id \<Rightarrow> data_item option"
  copy :: "data_item \<Rightarrow> data_item \<Rightarrow> data_item \<times> bool"
  peer :: "ptr \<Rightarrow> ptr"

definition new_observer :: "os_observer" where
  "new_observer = \<lparr>mClientToDataItems = (\<lambda>_. None), mDataItemToClients = (\<lambda>_. None), mDataItemCache = (\<lambda>_. None),
     mActiveRequestCount = (\<lambda>_. None), mSubscriptionObj = False, mFrameworkActionReqObj = False,
     mSystemStatus = new_reports\<rparr>"

section \<open>Subscriptions\<close>

definition sendCachedDataItems :: "item_id set \<Rightarrow> client \<Rightarrow> os_observer \<Rightarrow> os_effect list" where
  "sendCachedDataItems items c s =
     (let cached = {(i, d). i \<in> items \<and> mDataItemCache s i = Some d}
      in if cached = {} then [] else [Notify c cached])"

definition setSubscriptionObj :: "os_observer \<Rightarrow> os_observer \<times> os_effect list" where
  "setSubscriptionObj s =
     (s\<lparr>mSubscriptionObj := True\<rparr>,
      if getKeys (mDataItemToClients s) = {} then []
      else [Subscribe (getKeys (mDataItemToClients s)), RequestData (sorted_list_of_set (getKeys (mDataItemToClients s)))])"

definition subscribe ::
  "item_id list \<Rightarrow> client option \<Rightarrow> bool \<Rightarrow> os_observer \<Rightarrow> os_observer \<times> os_effect list"
where
  "subscribe l client toRequestData s =
     (case client of
        None \<Rightarrow> (s, [])
      | Some c \<Rightarrow>
          if l = [] then (s, [])
          else
            (let (d2c, toSubscribe) = add_keys (set l) {c} (mDataItemToClients s);
                 s' = s\<lparr>mDataItemToClients := d2c,
                        mClientToDataItems := snd (add_vals c (set l) (mClientToDataItems s))\<rparr>
             in (s', sendCachedDataItems (set l) c s' @
                   (if \<not> mSubscriptionObj s then []
                    else if toRequestData then [RequestData l]
                    else if toSubscribe \<noteq> {} then [Subscribe toSubscribe] else []))))"

definition updateSubscription ::
  "(item_id \<Rightarrow> item_id) \<Rightarrow> item_id list \<Rightarrow> client option \<Rightarrow> os_observer \<Rightarrow>
   (os_observer \<times> os_effect list) option"
where
  "updateSubscription stale l client s =
     (case client of
        None \<Rightarrow> Some (s, [])
      | Some c \<Rightarrow>
          if l = [] then Some (s, [])
          else
            do { (gone, items, c2d) \<leftarrow> update_vals c (set l) (mClientToDataItems s);
                 let (d2c1, toUnsubscribe, _) = trimOrRemove stale gone {c} (mDataItemToClients s);
                 let (d2c2, toSubscribe) = add_keys items {c} d2c1;
                 let s' = s\<lparr>mClientToDataItems := c2d, mDataItemToClients := d2c2\<rparr>;
                 Some (s', sendCachedDataItems items c s' @
                   (if \<not> mSubscriptionObj s then []
                    else (if toSubscribe \<noteq> {} then [Subscribe toSubscribe] else []) @
                         (if toUnsubscribe \<noteq> {} then [Unsubscribe toUnsubscribe] else []))) })"

text \<open>The client keys that the first \<open>trimOrRemove\<close> records are not used.\<close>

definition unsubscribe ::
  "(item_id \<Rightarrow> item_id) \<Rightarrow> item_id list \<Rightarrow> client option \<Rightarrow> os_observer \<Rightarrow> os_observer \<times> os_effect list"
where
  "unsubscribe stale l client s =
     (case client of
        None \<Rightarrow> (s, [])
      | Some c \<Rightarrow>
          if l = [] then (s, [])
          else
            (let (c2d, clientToRemove, unused) = trimOrRemove id {c} (set l) (mClientToDataItems s);
                 (d2c, toUnsubscribe, _) = trimOrRemove stale unused {c} (mDataItemToClients s)
             in (s\<lparr>mClientToDataItems := c2d, mDataItemToClients := d2c\<rparr>,
                 if mSubscriptionObj s \<and> toUnsubscribe \<noteq> {} then [Unsubscribe toUnsubscribe] else [])))"

definition unsubscribeAll ::
  "(item_id \<Rightarrow> item_id) \<Rightarrow> client option \<Rightarrow> os_observer \<Rightarrow> os_observer \<times> os_effect list"
where
  "unsubscribeAll stale client s =
     (case client of
        None \<Rightarrow> (s, [])
      | Some c \<Rightarrow>
          (let diByClient = val_set (mClientToDataItems s) c
           in if diByClient = {} then (s, [])
              else
                (let c2d = snd (remove_key c (mClientToDataItems s));
                     (d2c, toUnsubscribe, _) = trimOrRemove stale diByClient {c} (mDataItemToClients s)
                 in (s\<lparr>mClientToDataItems := c2d, mDataItemToClients := d2c\<rparr>,
                     if toUnsubscribe \<noteq> {} \<and> mSubscriptionObj s then [Unsubscribe toUnsubscribe] else []))))"

section \<open>Updates\<close>

definition updateCache :: "os_env \<Rightarrow> int \<times> int \<Rightarrow> data_item \<Rightarrow> os_observer \<Rightarrow> bool \<times> os_observer" where
  "updateCache e now d s =
     (let (handled, reports, d') = eventDataItemNotify (peer e) now d (mSystemStatus s);
          s' = s\<lparr>mSystemStatus := reports\<rparr>
      in if \<not> handled then (False, s')
         else case mDataItemCache s (item_getId d') of
             None \<Rightarrow>
               (case create e (item_getId d') of
                  None \<Rightarrow> (False, s')
                | Some fresh \<Rightarrow> (True, s'\<lparr>mDataItemCache := (mDataItemCache s)(item_getId d' \<mapsto> fst (copy e fresh d'))\<rparr>))
           | Some old \<Rightarrow>
               (snd (copy e old d'), s'\<lparr>mDataItemCache := (mDataItemCache s)(item_getId d' \<mapsto> fst (copy e old d'))\<rparr>))"

text \<open>The n-th item is recorded at \<open>now n\<close>. Recording an item does not change its id.\<close>

fun update_all ::
  "os_env \<Rightarrow> (nat \<Rightarrow> int \<times> int) \<Rightarrow> data_item list \<Rightarrow> os_observer \<Rightarrow> item_id set \<times> os_observer"
where
  "update_all e now [] s = ({}, s)"
| "update_all e now (d # ds) s =
     (let (updated, s1) = updateCache e (now 0) d s;
          (ids, s2) = update_all e (\<lambda>n. now (Suc n)) ds s1
      in (if updated then insert (item_getId d) ids else ids, s2))"

text \<open>The copies the poster makes: an item that cannot be created is left out. (The vector it fills
  starts with as many NULL pointers, which the loop of \<open>proc\<close> skips.)\<close>

definition copies :: "os_env \<Rightarrow> data_item list \<Rightarrow> data_item list" where
  "copies e dlist = List.map_filter (\<lambda>d. map_option (\<lambda>fresh. fst (copy e fresh d)) (create e (item_getId d))) dlist"

definition clients_of :: "item_id set \<Rightarrow> os_observer \<Rightarrow> client set" where
  "clients_of ids s = (\<Union>i\<in>ids. val_set (mDataItemToClients s) i)"

definition notify ::
  "os_env \<Rightarrow> (nat \<Rightarrow> int \<times> int) \<Rightarrow> data_item list \<Rightarrow> os_observer \<Rightarrow> os_observer \<times> os_effect list"
where
  "notify e now dlist s =
     (let (ids, s1) = update_all e now (copies e dlist) s
      in (s1, concat (map (\<lambda>c. sendCachedDataItems (val_set (mClientToDataItems s1) c \<inter> ids) c s1)
                (sorted_list_of_set (clients_of ids s1)))))"

section \<open>Requests to the framework\<close>

definition turnOn :: "item_id \<Rightarrow> int \<Rightarrow> os_observer \<Rightarrow> os_observer \<times> os_effect list" where
  "turnOn dit timeOut s =
     (if \<not> mFrameworkActionReqObj s then (s, [])
      else case mActiveRequestCount s dit of
          None \<Rightarrow> (s\<lparr>mActiveRequestCount := (mActiveRequestCount s)(dit \<mapsto> 1)\<rparr>, [TurnOn dit timeOut])
        | Some n \<Rightarrow> (s\<lparr>mActiveRequestCount := (mActiveRequestCount s)(dit \<mapsto> n + 1)\<rparr>, []))"

definition turnOff :: "item_id \<Rightarrow> os_observer \<Rightarrow> os_observer \<times> os_effect list" where
  "turnOff dit s =
     (if \<not> mFrameworkActionReqObj s then (s, [])
      else case mActiveRequestCount s dit of
          None \<Rightarrow> (s, [])
        | Some n \<Rightarrow>
            if n - 1 = 0 then (s\<lparr>mActiveRequestCount := (mActiveRequestCount s)(dit := None)\<rparr>, [TurnOff dit])
            else (s\<lparr>mActiveRequestCount := (mActiveRequestCount s)(dit \<mapsto> n - 1)\<rparr>, []))"

definition setFrameworkActionReqObj :: "os_observer \<Rightarrow> os_observer" where
  "setFrameworkActionReqObj s = s\<lparr>mFrameworkActionReqObj := True\<rparr>"

section \<open>The two maps are each other's inverse\<close>

definition maps_inverse :: "os_observer \<Rightarrow> bool" where
  "maps_inverse s \<longleftrightarrow>
     no_empty (mClientToDataItems s) \<and> no_empty (mDataItemToClients s) \<and>
     (\<forall>c i. related (mClientToDataItems s) c i \<longleftrightarrow> related (mDataItemToClients s) i c)"

lemma maps_inverse_new: "maps_inverse new_observer"
  by (simp add: maps_inverse_def new_observer_def no_empty_def related_def val_set_def)

lemma maps_inverse_subscribe:
  "maps_inverse s \<Longrightarrow> maps_inverse (fst (subscribe l c req s))"
  by (auto simp: maps_inverse_def subscribe_def Let_def split_def split: option.split)

lemma maps_inverse_unsubscribe:
  "maps_inverse s \<Longrightarrow> maps_inverse (fst (unsubscribe stale l c s))"
  by (auto simp: maps_inverse_def unsubscribe_def Let_def split_def trim_gone_vals split: option.split)

lemma maps_inverse_unsubscribeAll:
  assumes "maps_inverse s"
  shows "maps_inverse (fst (unsubscribeAll stale c s))"
proof -
  have "no_empty (m(k := None))" if "no_empty m" for m :: "(client, item_id) set_map" and k
    using that by (simp add: no_empty_def)
  then show ?thesis using assms
    by (auto simp: maps_inverse_def unsubscribeAll_def Let_def split_def remove_key_def val_set_related split: option.split)
qed

section \<open>Histories\<close>

text \<open>Each operation that reads erased entries has its own \<open>stale\<close>. Between the messages the cache of
  \<open>SystemStatus\<close> may become anything (\<open>OpStatus\<close>).\<close>

datatype os_op =
    OpSetSubscription
  | OpSubscribe "item_id list" "client option" bool
  | OpUpdate "item_id \<Rightarrow> item_id" "item_id list" "client option"
  | OpUnsubscribe "item_id \<Rightarrow> item_id" "item_id list" "client option"
  | OpUnsubscribeAll "item_id \<Rightarrow> item_id" "client option"
  | OpNotify "nat \<Rightarrow> int \<times> int" "data_item list"
  | OpSetFramework
  | OpTurnOn item_id int
  | OpTurnOff item_id
  | OpStatus reports

fun os_step :: "os_env \<Rightarrow> os_op \<Rightarrow> os_observer \<Rightarrow> (os_observer \<times> os_effect list) option" where
  "os_step e OpSetSubscription s = Some (setSubscriptionObj s)"
| "os_step e (OpSubscribe l c req) s = Some (subscribe l c req s)"
| "os_step e (OpUpdate stale l c) s = updateSubscription stale l c s"
| "os_step e (OpUnsubscribe stale l c) s = Some (unsubscribe stale l c s)"
| "os_step e (OpUnsubscribeAll stale c) s = Some (unsubscribeAll stale c s)"
| "os_step e (OpNotify now dl) s = Some (notify e now dl s)"
| "os_step e OpSetFramework s = Some (setFrameworkActionReqObj s, [])"
| "os_step e (OpTurnOn d t) s = Some (turnOn d t s)"
| "os_step e (OpTurnOff d) s = Some (turnOff d s)"
| "os_step e (OpStatus c) s = Some (s\<lparr>mSystemStatus := c\<rparr>, [])"

fun os_run :: "os_env \<Rightarrow> os_op list \<Rightarrow> os_observer \<Rightarrow> (os_observer \<times> os_effect list) option" where
  "os_run e [] s = Some (s, [])"
| "os_run e (p # ps) s =
     do { (s1, es) \<leftarrow> os_step e p s; (s2, fs) \<leftarrow> os_run e ps s1; Some (s2, es @ fs) }"

definition is_update :: "os_op \<Rightarrow> bool" where
  "is_update p \<longleftrightarrow> (\<exists>st l c. p = OpUpdate st l c)"

definition finite_vals :: "os_observer \<Rightarrow> bool" where
  "finite_vals s \<longleftrightarrow> (\<forall>i. finite (val_set (mDataItemToClients s) i))"

definition os_ok :: "os_observer \<Rightarrow> bool" where
  "os_ok s \<longleftrightarrow> maps_inverse s \<and> finite_vals s"

lemma updateCache_frame [simp]:
  "mClientToDataItems (snd (updateCache e now d s)) = mClientToDataItems s"
  "mDataItemToClients (snd (updateCache e now d s)) = mDataItemToClients s"
  "mSubscriptionObj (snd (updateCache e now d s)) = mSubscriptionObj s"
  by (simp_all add: updateCache_def Let_def split: prod.split option.split)

lemma update_all_frame [simp]:
  "mClientToDataItems (snd (update_all e now ds s)) = mClientToDataItems s"
  "mDataItemToClients (snd (update_all e now ds s)) = mDataItemToClients s"
  "mSubscriptionObj (snd (update_all e now ds s)) = mSubscriptionObj s"
  by (induction ds arbitrary: s now) (simp_all add: Let_def split_def)

lemma finite_updated: "finite (fst (update_all e now ds s))"
  by (induction ds arbitrary: s now) (simp_all add: Let_def split_def)

lemma notify_frame [simp]:
  "mClientToDataItems (fst (notify e now dl s)) = mClientToDataItems s"
  "mDataItemToClients (fst (notify e now dl s)) = mDataItemToClients s"
  "mSubscriptionObj (fst (notify e now dl s)) = mSubscriptionObj s"
  by (simp_all add: notify_def split_def Let_def)

lemma turn_frame [simp]:
  "mClientToDataItems (fst (turnOn d t s)) = mClientToDataItems s"
  "mDataItemToClients (fst (turnOn d t s)) = mDataItemToClients s"
  "mSubscriptionObj (fst (turnOn d t s)) = mSubscriptionObj s"
  "mClientToDataItems (fst (turnOff d s)) = mClientToDataItems s"
  "mDataItemToClients (fst (turnOff d s)) = mDataItemToClients s"
  "mSubscriptionObj (fst (turnOff d s)) = mSubscriptionObj s"
  by (simp_all add: turnOn_def turnOff_def split: option.split)

lemma maps_inverse_cong:
  "mClientToDataItems t = mClientToDataItems s \<Longrightarrow> mDataItemToClients t = mDataItemToClients s \<Longrightarrow>
   maps_inverse t = maps_inverse s"
  by (simp add: maps_inverse_def)

lemma maps_inverse_step:
  assumes "maps_inverse s" "\<not> is_update p" "os_step e p s = Some (s', es)"
  shows "maps_inverse s'"
proof (cases p)
  case (OpSubscribe l c req)
  with assms maps_inverse_subscribe [of s l c req] show ?thesis by simp
next
  case (OpUnsubscribe st l c)
  with assms maps_inverse_unsubscribe [of s st l c] show ?thesis by simp
next
  case (OpUnsubscribeAll st c)
  with assms maps_inverse_unsubscribeAll [of s st c] show ?thesis by simp
next
  case (OpNotify now dl)
  with assms have "s' = fst (notify e now dl s)" by simp
  with assms(1) maps_inverse_cong [of s' s] show ?thesis by simp
next
  case (OpTurnOn d t)
  with assms have "s' = fst (turnOn d t s)" by simp
  with assms(1) maps_inverse_cong [of s' s] show ?thesis by simp
next
  case (OpTurnOff d)
  with assms have "s' = fst (turnOff d s)" by simp
  with assms(1) maps_inverse_cong [of s' s] show ?thesis by simp
qed (use assms in \<open>auto simp: setSubscriptionObj_def setFrameworkActionReqObj_def maps_inverse_def is_update_def\<close>)

lemma finite_trim: "finite (val_set m i) \<Longrightarrow> finite (val_set (fst (trimOrRemove st keys vs m)) i)"
  by (rule finite_subset [of _ "val_set m i"]) (auto simp: val_set_related)

lemma finite_add: "finite (val_set m i) \<Longrightarrow> finite vs \<Longrightarrow> finite (val_set (fst (add_keys keys vs m)) i)"
  by (rule finite_subset [of _ "val_set m i \<union> vs"]) (auto simp: val_set_related)

lemma finite_vals_step:
  assumes f: "finite_vals s" and "\<not> is_update p" "os_step e p s = Some (s', es)"
  shows "finite_vals s'"
proof (cases p)
  case (OpSubscribe l c req)
  with assms have "s' = fst (subscribe l c req s)" by simp
  then show ?thesis using f
    by (auto simp: finite_vals_def subscribe_def Let_def split_def finite_add split: option.split)
next
  case (OpUnsubscribe st l c)
  with assms have "s' = fst (unsubscribe st l c s)" by simp
  then show ?thesis using f
    by (auto simp: finite_vals_def unsubscribe_def Let_def split_def finite_trim split: option.split)
next
  case (OpUnsubscribeAll st c)
  with assms have "s' = fst (unsubscribeAll st c s)" by simp
  then show ?thesis using f
    by (auto simp: finite_vals_def unsubscribeAll_def Let_def split_def finite_trim split: option.split)
next
  case (OpNotify now dl)
  with assms have "s' = fst (notify e now dl s)" by simp
  then show ?thesis using f by (simp add: finite_vals_def)
next
  case (OpTurnOn d t)
  with assms have "s' = fst (turnOn d t s)" by simp
  then show ?thesis using f by (simp add: finite_vals_def)
next
  case (OpTurnOff d)
  with assms have "s' = fst (turnOff d s)" by simp
  then show ?thesis using f by (simp add: finite_vals_def)
qed (use assms in \<open>auto simp: setSubscriptionObj_def setFrameworkActionReqObj_def finite_vals_def is_update_def\<close>)

lemma os_ok_run:
  "os_run e ps s = Some (s', es) \<Longrightarrow> os_ok s \<Longrightarrow> \<forall>p\<in>set ps. \<not> is_update p \<Longrightarrow> os_ok s'"
proof (induction ps arbitrary: s es)
  case (Cons p ps)
  then obtain s1 es1 es2 where s1: "os_step e p s = Some (s1, es1)" "os_run e ps s1 = Some (s', es2)"
    by (auto simp: bind_eq_Some_conv)
  have "os_ok s1" using Cons.prems s1(1) maps_inverse_step finite_vals_step by (fastforce simp: os_ok_def)
  then show ?case using Cons.IH [OF s1(2)] Cons.prems(3) by simp
qed simp

lemma os_ok_new: "os_ok new_observer"
proof -
  have "finite_vals new_observer" by (simp add: finite_vals_def new_observer_def val_set_def)
  then show ?thesis by (simp add: os_ok_def maps_inverse_new)
qed

text \<open>
  C9. In every history of subscribing, requesting data, unsubscribing, unsubscribing from all,
  notifying and turning on and off (everything but updating a subscription), the two maps of the
  observer stay each other's inverse: an item lists a client exactly when the client lists the item,
  and neither map keeps an empty entry, whatever is read from the entries that are erased and whatever
  \<open>SystemStatus\<close> records in between.\<close>

theorem os_maps_inverse:
  assumes "os_run e ps new_observer = Some (s, es)" "\<forall>p\<in>set ps. \<not> is_update p"
  shows "(\<forall>c i. related (mClientToDataItems s) c i \<longleftrightarrow> related (mDataItemToClients s) i c) \<and>
         no_empty (mClientToDataItems s) \<and> no_empty (mDataItemToClients s)"
  using os_ok_run [OF assms(1) os_ok_new assms(2)] by (simp add: os_ok_def maps_inverse_def)

definition example_env :: "os_env" where
  "example_env = \<lparr>create = (\<lambda>i. if i = 3 then Some (NLPStatus False) else None),
     copy = (\<lambda>old new. (new, old \<noteq> new)), peer = id\<rparr>"

definition example_ops :: "os_op list" where
  "example_ops = [OpSetSubscription, OpSubscribe [3, 4] (Some 1) False, OpSubscribe [4] (Some 2) False]"

lemma example_ops_run:
  "\<exists>s. os_run example_env example_ops new_observer = Some (s, [Subscribe {3, 4}]) \<and>
     val_set (mClientToDataItems s) 1 = {3, 4} \<and> val_set (mClientToDataItems s) 2 = {4} \<and>
     val_set (mDataItemToClients s) 3 = {1} \<and> val_set (mDataItemToClients s) 4 = {1, 2} \<and> mSubscriptionObj s"
  by (auto simp: example_ops_def example_env_def new_observer_def setSubscriptionObj_def subscribe_def add_keys_def
      add_vals_def sendCachedDataItems_def getKeys_def val_set_def Let_def)

lemma os_maps_inverse_witness:
  "\<exists>s. os_run example_env example_ops new_observer = Some (s, [Subscribe {3, 4}]) \<and>
     related (mDataItemToClients s) 4 2 \<and> no_empty (mClientToDataItems s)"
proof -
  obtain s where s: "os_run example_env example_ops new_observer = Some (s, [Subscribe {3, 4}])"
    "val_set (mDataItemToClients s) 4 = {1, 2}"
    using example_ops_run by blast
  have "\<forall>p\<in>set example_ops. \<not> is_update p" by (simp add: example_ops_def is_update_def)
  from os_maps_inverse [OF s(1) this] s show ?thesis by (auto simp: related_def)
qed

section \<open>The framework follows the clients\<close>

text \<open>The items the framework is subscribed to after a list of effects.\<close>

fun framework_items :: "os_effect list \<Rightarrow> item_id set \<Rightarrow> item_id set" where
  "framework_items [] A = A"
| "framework_items (Subscribe B # es) A = framework_items es (A \<union> B)"
| "framework_items (Unsubscribe B # es) A = framework_items es (A - B)"
| "framework_items (_ # es) A = framework_items es A"

lemma framework_items_append: "framework_items (es @ fs) A = framework_items fs (framework_items es A)"
  by (induction es A rule: framework_items.induct) auto

lemma framework_items_cached [simp]: "framework_items (sendCachedDataItems items c s) A = A"
  by (simp add: sendCachedDataItems_def Let_def)

lemma framework_items_concat:
  "\<forall>x\<in>set xs. \<forall>A. framework_items (f x) A = A \<Longrightarrow> framework_items (concat (map f xs)) A = A"
  by (induction xs) (auto simp: framework_items_append)

definition plain_op :: "os_op \<Rightarrow> bool" where
  "plain_op p \<longleftrightarrow> \<not> is_update p \<and> (\<forall>l c. p \<noteq> OpSubscribe l c True)"

text \<open>The operation when the erased entries it reads still hold their keys, and what the framework is sent
  otherwise: of each set to unsubscribe an image.\<close>

fun intact :: "os_op \<Rightarrow> os_op" where
  "intact (OpUpdate st l c) = OpUpdate id l c"
| "intact (OpUnsubscribe st l c) = OpUnsubscribe id l c"
| "intact (OpUnsubscribeAll st c) = OpUnsubscribeAll id c"
| "intact p = p"

fun sent_for :: "os_effect \<Rightarrow> os_effect \<Rightarrow> bool" where
  "sent_for (Unsubscribe B) y \<longleftrightarrow> (\<exists>st. y = Unsubscribe (st ` B))"
| "sent_for x y \<longleftrightarrow> y = x"

lemma sent_for_refl: "sent_for x x"
  by (cases x) (auto intro: exI [of _ id])

lemma sent_for_same: "list_all2 sent_for es es"
  by (simp add: list_all2_same sent_for_refl)

lemma trim_stale:
  "trimOrRemove st keys vs m =
     (let (m', gone, vals) = trimOrRemove id keys vs m in (m', st ` gone, vals))"
  by (simp add: trimOrRemove_def)

lemma intact_step:
  assumes "os_step e p s = Some (s', es)" "plain_op p"
  shows "\<exists>es0. os_step e (intact p) s = Some (s', es0) \<and> list_all2 sent_for es0 es"
proof (cases p)
  case (OpUnsubscribe st l c)
  have "fst (unsubscribe st l c s) = fst (unsubscribe id l c s) \<and>
      list_all2 sent_for (snd (unsubscribe id l c s)) (snd (unsubscribe st l c s))"
    by (auto simp: unsubscribe_def trim_stale [of st] Let_def split_def split: option.split)
  then show ?thesis using assms OpUnsubscribe by (cases "unsubscribe id l c s") auto
next
  case (OpUnsubscribeAll st c)
  have "fst (unsubscribeAll st c s) = fst (unsubscribeAll id c s) \<and>
      list_all2 sent_for (snd (unsubscribeAll id c s)) (snd (unsubscribeAll st c s))"
    by (auto simp: unsubscribeAll_def trim_stale [of st] Let_def split_def split: option.split)
  then show ?thesis using assms OpUnsubscribeAll by (cases "unsubscribeAll id c s") auto
qed (use assms sent_for_same in \<open>auto simp: plain_op_def is_update_def\<close>)

lemma intact_run:
  assumes "os_run e ps s = Some (s', es)" "\<forall>p\<in>set ps. plain_op p"
  shows "\<exists>es0. os_run e (map intact ps) s = Some (s', es0) \<and> list_all2 sent_for es0 es"
  using assms
proof (induction ps arbitrary: s es)
  case (Cons p ps)
  then obtain s1 es1 es2 where s1: "os_step e p s = Some (s1, es1)" "os_run e ps s1 = Some (s', es2)" "es = es1 @ es2"
    by (auto simp: bind_eq_Some_conv)
  obtain xs where xs: "os_step e (intact p) s = Some (s1, xs)" "list_all2 sent_for xs es1"
    using intact_step [OF s1(1)] Cons.prems(2) by auto
  obtain ys where ys: "os_run e (map intact ps) s1 = Some (s', ys)" "list_all2 sent_for ys es2"
    using Cons.IH [OF s1(2)] Cons.prems(2) by auto
  show ?case using xs ys by (auto simp: s1(3) intro: list_all2_appendI)
qed simp

lemma plain_intact: "plain_op p \<Longrightarrow> plain_op (intact p)" "intact (intact p) = intact p"
  by (cases p; simp add: plain_op_def is_update_def)+

definition followed :: "os_observer \<Rightarrow> item_id set \<Rightarrow> bool" where
  "followed s A \<longleftrightarrow> (if mSubscriptionObj s then A = dom (mDataItemToClients s) else A = {})"

lemma dom_trim:
  assumes "no_empty m"
  shows "dom (fst (trimOrRemove st keys vs m)) = dom m - fst (snd (trimOrRemove id keys vs m))"
proof -
  note n = no_empty_trim [OF assms, of st keys vs]
  show ?thesis
    using dom_no_empty [OF n] dom_no_empty [OF assms] trim_gone_keys [OF assms, of keys vs] by fastforce
qed

lemma followed_trim:
  assumes f: "followed s A" and n: "no_empty (mDataItemToClients s)"
    and s': "mDataItemToClients s' = fst (trimOrRemove id keys vs (mDataItemToClients s))"
      "mSubscriptionObj s' = mSubscriptionObj s"
    and es: "es = (let gone = fst (snd (trimOrRemove id keys vs (mDataItemToClients s)))
                   in if mSubscriptionObj s \<and> gone \<noteq> {} then [Unsubscribe gone] else [])"
  shows "followed s' (framework_items es A)"
  using f unfolding followed_def s' dom_trim [OF n] es Let_def by (simp split: if_splits)

lemma followed_step:
  assumes ok: "maps_inverse s" and f: "followed s A" and p: "plain_op p" "intact p = p"
    and step: "os_step e p s = Some (s', es)"
  shows "followed s' (framework_items es A)"
proof -
  have n: "no_empty (mDataItemToClients s)" using ok by (simp add: maps_inverse_def)
  show ?thesis
  proof (cases p)
    case OpSetSubscription
    with step f show ?thesis
      by (auto simp: setSubscriptionObj_def followed_def getKeys_def split: if_splits)
  next
    case (OpSubscribe l c req)
    then have req: "\<not> req" using p by (auto simp: plain_op_def)
    show ?thesis
    proof (cases "c = None \<or> l = []")
      case True
      with OpSubscribe step f show ?thesis by (auto simp: subscribe_def split: option.splits)
    next
      case False
      then obtain x where x: "c = Some x" "l \<noteq> []" by auto
      from step have s': "s' = fst (subscribe l c False s)" "es = snd (subscribe l c False s)"
        using OpSubscribe req by simp_all
      have "dom (mDataItemToClients s') = dom (mDataItemToClients s) \<union> set l" "mSubscriptionObj s' = mSubscriptionObj s"
        by (simp_all add: s' subscribe_def x Let_def split_def dom_add_keys)
      moreover have "framework_items es A = (if mSubscriptionObj s then A \<union> (set l - dom (mDataItemToClients s)) else A)"
        by (simp add: s' subscribe_def x Let_def split_def framework_items_append add_keys_new
            Diff_eq_empty_iff [THEN iffD2])
      ultimately show ?thesis using f by (auto simp only: followed_def Un_Diff_cancel split: if_splits)
    qed
  next
    case (OpUnsubscribe st l c)
    show ?thesis
    proof (cases "c = None \<or> l = []")
      case True
      with OpUnsubscribe step f show ?thesis by (auto simp: unsubscribe_def split: option.splits)
    next
      case False
      then obtain x where x: "c = Some x" "l \<noteq> []" by auto
      from step have s': "s' = fst (unsubscribe id l c s)" "es = snd (unsubscribe id l c s)"
        using OpUnsubscribe p(2) by simp_all
      show ?thesis
        by (rule followed_trim [OF f n, of _ "snd (snd (trimOrRemove id {x} (set l) (mClientToDataItems s)))" "{x}"])
          (simp_all add: s' unsubscribe_def x Let_def split_def)
    qed
  next
    case (OpUnsubscribeAll st c)
    show ?thesis
    proof (cases "c = None \<or> val_set (mClientToDataItems s) (the c) = {}")
      case True
      with OpUnsubscribeAll step f show ?thesis by (auto simp: unsubscribeAll_def Let_def split: option.splits)
    next
      case False
      then obtain x where x: "c = Some x" "val_set (mClientToDataItems s) x \<noteq> {}" by (cases c) simp_all
      from step have s': "s' = fst (unsubscribeAll id c s)" "es = snd (unsubscribeAll id c s)"
        using OpUnsubscribeAll p(2) by simp_all
      show ?thesis
        by (rule followed_trim [OF f n, of _ "val_set (mClientToDataItems s) x" "{x}"])
          (simp_all add: s' unsubscribeAll_def x Let_def split_def conj_commute)
    qed
  next
    case (OpNotify now dl)
    with step have s': "s' = fst (notify e now dl s)"
      "es = snd (notify e now dl s)" by simp_all
    have "framework_items es A = A"
      unfolding s'(2) notify_def by (simp add: Let_def split_def framework_items_concat)
    with f s'(1) show ?thesis by (simp add: followed_def)
  next
    case (OpTurnOn d t)
    with step f show ?thesis by (auto simp: turnOn_def followed_def split: option.splits if_splits)
  next
    case (OpTurnOff d)
    with step f show ?thesis by (auto simp: turnOff_def followed_def Let_def split: option.splits if_splits)
  qed (use step f p in \<open>auto simp: setFrameworkActionReqObj_def followed_def plain_op_def is_update_def\<close>)
qed

lemma followed_run:
  "os_run e ps s = Some (s', es) \<Longrightarrow> maps_inverse s \<Longrightarrow> followed s A \<Longrightarrow> \<forall>p\<in>set ps. plain_op p \<and> intact p = p \<Longrightarrow>
   followed s' (framework_items es A)"
proof (induction ps arbitrary: s es A)
  case (Cons p ps)
  then obtain s1 es1 es2 where s1: "os_step e p s = Some (s1, es1)" "os_run e ps s1 = Some (s', es2)" "es = es1 @ es2"
    by (auto simp: bind_eq_Some_conv)
  have p: "plain_op p" "intact p = p" using Cons.prems(4) by simp_all
  then have inv: "maps_inverse s1" using Cons.prems(2) s1(1) maps_inverse_step by (auto simp: plain_op_def)
  have "followed s1 (framework_items es1 A)"
    using followed_step [OF Cons.prems(2,3) p s1(1)] .
  with Cons.IH [OF s1(2) inv] Cons.prems(4) s1(3) show ?case by (simp add: framework_items_append)
qed simp

text \<open>
  C20. In every history of subscribing, unsubscribing, unsubscribing from all, notifying and turning on
  and off, what the framework is sent is, message by message, what it would be sent if the erased map
  entries the code reads still held their keys: only the items of a message to unsubscribe are replaced
  by whatever is read. And with the messages it would be sent, the framework, once it is known, is
  subscribed to exactly the items that some client wants. (Requesting data and updating a subscription
  break this.)\<close>

theorem framework_follows_clients:
  assumes "os_run e ps new_observer = Some (s, es)" "\<forall>p\<in>set ps. plain_op p" "mSubscriptionObj s"
  shows "\<exists>es0. os_run e (map intact ps) new_observer = Some (s, es0) \<and> list_all2 sent_for es0 es \<and>
    framework_items es0 {} = {i. \<exists>c. related (mClientToDataItems s) c i}"
proof -
  obtain es0 where es0: "os_run e (map intact ps) new_observer = Some (s, es0)" "list_all2 sent_for es0 es"
    using intact_run [OF assms(1,2)] by blast
  have plain: "\<forall>p\<in>set (map intact ps). plain_op p \<and> intact p = p" using assms(2) plain_intact by auto
  have "followed new_observer {}" by (simp add: followed_def new_observer_def)
  from followed_run [OF es0(1) maps_inverse_new this plain] assms(3)
  have "framework_items es0 {} = dom (mDataItemToClients s)" by (simp add: followed_def)
  moreover have "maps_inverse s"
    using os_ok_run [OF assms(1) os_ok_new] assms(2) by (simp add: os_ok_def plain_op_def)
  moreover have "dom (mDataItemToClients s) = {i. \<exists>c. related (mDataItemToClients s) i c}"
    using calculation(2) dom_no_empty [of "mDataItemToClients s"] unfolding maps_inverse_def by blast
  ultimately show ?thesis using es0 by (simp add: maps_inverse_def)
qed

text \<open>Client 1 leaves item 3; the number 9 is read instead of it.\<close>

lemma framework_follows_clients_witness:
  "\<exists>s. os_run example_env (example_ops @ [OpUnsubscribe (\<lambda>_. 9) [3] (Some 1)]) new_observer =
       Some (s, [Subscribe {3, 4}, Unsubscribe {9}]) \<and>
     (\<exists>es0. list_all2 sent_for es0 [Subscribe {3, 4}, Unsubscribe {9}] \<and>
        framework_items es0 {} = {i. \<exists>c. related (mClientToDataItems s) c i})"
proof -
  have "\<exists>s. os_run example_env (example_ops @ [OpUnsubscribe (\<lambda>_. 9) [3] (Some 1)]) new_observer =
       Some (s, [Subscribe {3, 4}, Unsubscribe {9}]) \<and> mSubscriptionObj s"
    by (auto simp: example_ops_def example_env_def new_observer_def setSubscriptionObj_def subscribe_def add_keys_def
      add_vals_def sendCachedDataItems_def getKeys_def val_set_def Let_def unsubscribe_def trimOrRemove_def
      trim_entry_def trimSet_def)
  then obtain s where s: "os_run example_env (example_ops @ [OpUnsubscribe (\<lambda>_. 9) [3] (Some 1)]) new_observer =
       Some (s, [Subscribe {3, 4}, Unsubscribe {9}])" "mSubscriptionObj s"
    by blast
  have p: "\<forall>p\<in>set (example_ops @ [OpUnsubscribe (\<lambda>_. 9) [3] (Some 1)]). plain_op p"
    by (simp add: example_ops_def plain_op_def is_update_def)
  from framework_follows_clients [OF s(1) p s(2)] s show ?thesis by blast
qed

section \<open>Delivery\<close>

text \<open>What a notification comes to: the items that \<open>SystemStatus\<close> records, as it leaves them, and what
  those with one id make of the cached item of that id, with whether it changes.\<close>

fun recorded :: "os_env \<Rightarrow> (nat \<Rightarrow> int \<times> int) \<Rightarrow> data_item list \<Rightarrow> reports \<Rightarrow> data_item list" where
  "recorded e now [] c = []"
| "recorded e now (d # ds) c =
     (case eventDataItemNotify (peer e) (now 0) d c of (is_new, c', d') \<Rightarrow>
        (if is_new then [d'] else []) @ recorded e (\<lambda>n. now (Suc n)) ds c')"

fun taken_over :: "os_env \<Rightarrow> item_id \<Rightarrow> data_item list \<Rightarrow> data_item option \<Rightarrow> bool \<times> data_item option" where
  "taken_over e i [] cached = (False, cached)"
| "taken_over e i (d # ds) None =
     (case create e i of None \<Rightarrow> taken_over e i ds None
      | Some fresh \<Rightarrow> (True, snd (taken_over e i ds (Some (fst (copy e fresh d))))))"
| "taken_over e i (d # ds) (Some old) =
     (case taken_over e i ds (Some (fst (copy e old d))) of (later, new) \<Rightarrow> (snd (copy e old d) \<or> later, new))"

definition effect_on :: "os_env \<Rightarrow> (nat \<Rightarrow> int \<times> int) \<Rightarrow> data_item list \<Rightarrow> os_observer \<Rightarrow> item_id \<Rightarrow> bool \<times> data_item option" where
  "effect_on e now ds s i =
     taken_over e i (filter (\<lambda>d. item_getId d = i) (recorded e now ds (mSystemStatus s))) (mDataItemCache s i)"

lemma item_getId_event: "eventDataItemNotify pe t d c = (b, c', d') \<Longrightarrow> item_getId d' = item_getId d"
  by (cases d) (auto simp: eventDataItemNotify_def split: prod.splits)

lemma updateCache_effect:
  assumes u: "updateCache e t d s = (b, s1)" and n: "eventDataItemNotify (peer e) t d (mSystemStatus s) = (h, c', d')"
  shows "mSystemStatus s1 = c' \<and> (b \<longleftrightarrow> h \<and> fst (taken_over e (item_getId d) [d'] (mDataItemCache s (item_getId d)))) \<and>
    mDataItemCache s1 = (if h then (mDataItemCache s)(item_getId d := snd (taken_over e (item_getId d) [d'] (mDataItemCache s (item_getId d))))
      else mDataItemCache s)"
  using u item_getId_event [OF n] by (auto simp: updateCache_def n Let_def split: if_splits option.splits)

lemma taken_over_Cons:
  "taken_over e i (d # ds) x =
     (case taken_over e i [d] x of (b, y) \<Rightarrow> case taken_over e i ds y of (b', z) \<Rightarrow> (b \<or> b', z))"
  by (cases x) (simp_all add: split_def split: option.split)

lemma update_all_effect:
  "update_all e now ds s = (ids, s') \<Longrightarrow>
     (i \<in> ids \<longleftrightarrow> fst (effect_on e now ds s i)) \<and> mDataItemCache s' i = snd (effect_on e now ds s i)"
proof (induction ds arbitrary: now s ids s')
  case Nil
  then show ?case by (auto simp: effect_on_def)
next
  case (Cons d ds)
  obtain b s1 where u: "updateCache e (now 0) d s = (b, s1)" by fastforce
  obtain h c' d' where n: "eventDataItemNotify (peer e) (now 0) d (mSystemStatus s) = (h, c', d')" by (metis prod_cases3)
  obtain ids2 where r: "update_all e (\<lambda>n. now (Suc n)) ds s1 = (ids2, s')" and ids: "ids = (if b then insert (item_getId d) ids2 else ids2)"
    using Cons.prems by (auto simp: u Let_def split: prod.splits)
  note IH = Cons.IH [OF r] and eff = updateCache_effect [OF u n] and id = item_getId_event [OF n]
  show ?case
  proof (cases "h \<and> item_getId d = i")
    case True
    then have "effect_on e now (d # ds) s i =
        taken_over e i (d' # filter (\<lambda>d. item_getId d = i) (recorded e (\<lambda>n. now (Suc n)) ds c')) (mDataItemCache s i)"
      using id by (simp add: effect_on_def n)
    then show ?thesis
      using True IH eff ids by (subst (asm) taken_over_Cons) (auto simp: effect_on_def split_def)
  next
    case False
    then have "effect_on e now (d # ds) s i = effect_on e (\<lambda>n. now (Suc n)) ds s1 i"
      using id eff by (auto simp: effect_on_def n)
    then show ?thesis using False IH eff ids by auto
  qed
qed

text \<open>
  C32. A notification reaches every client that is subscribed to an item it changes, once, with exactly
  the new contents of those of its items that changed, and no other client. An item changes when
  \<open>SystemStatus\<close> records one of the notified items of its id, because it differs from the last report of
  it, and the observer has no copy of it yet or copying what was recorded finds a difference.\<close>

theorem notify_reaches_subscribers:
  assumes "os_run e ps new_observer = Some (s, es0)" "\<forall>p\<in>set ps. \<not> is_update p" "notify e now dl s = (s', es)"
  shows "(\<forall>x\<in>set es. \<exists>c items. x = Notify c items) \<and> distinct (map (\<lambda>x. case x of Notify c _ \<Rightarrow> c) es) \<and>
    (\<forall>c items. Notify c items \<in> set es \<longleftrightarrow> items \<noteq> {} \<and>
       items = {(i, d). related (mClientToDataItems s) c i \<and> effect_on e now (copies e dl) s i = (True, Some d)}) \<and>
    (\<forall>i. mDataItemCache s' i = snd (effect_on e now (copies e dl) s i))"
proof -
  have ok: "os_ok s" by (rule os_ok_run [OF assms(1) os_ok_new assms(2)])
  obtain ids s1 where u: "update_all e now (copies e dl) s = (ids, s1)" by fastforce
  note eff = update_all_effect [OF u]
  define f where "f = (\<lambda>c. sendCachedDataItems (val_set (mClientToDataItems s1) c \<inter> ids) c s1)"
  have "notify e now dl s = (s1, concat (map f (sorted_list_of_set (clients_of ids s1))))"
    by (simp add: notify_def u f_def)
  with assms(3) have s': "s' = s1" and es: "es = concat (map f (sorted_list_of_set (clients_of ids s1)))"
    by auto
  have maps: "mClientToDataItems s1 = mClientToDataItems s" "mDataItemToClients s1 = mDataItemToClients s"
    using update_all_frame(1,2) [of e now "copies e dl" s] by (simp_all add: u)
  have fin: "finite (clients_of ids s1)"
    using ok finite_updated [of e now "copies e dl" s] by (auto simp: clients_of_def maps os_ok_def finite_vals_def u)
  have new: "i \<in> ids \<and> mDataItemCache s1 i = Some d \<longleftrightarrow> effect_on e now (copies e dl) s i = (True, Some d)" for i d
    using eff [of i] by (cases "effect_on e now (copies e dl) s i") auto
  have f: "f c = (let items = {(i, d). related (mClientToDataItems s) c i \<and> effect_on e now (copies e dl) s i = (True, Some d)}
                  in if items = {} then [] else [Notify c items])" for c
    by (simp add: f_def sendCachedDataItems_def maps val_set_related Let_def conj_assoc new)
  have "c \<in> clients_of ids s1" if "related (mClientToDataItems s) c i" "i \<in> ids" for c i
    using that ok by (auto simp: clients_of_def maps os_ok_def maps_inverse_def related_def)
  then have "Notify c items \<in> set es \<longleftrightarrow> items \<noteq> {} \<and>
       items = {(i, d). related (mClientToDataItems s) c i \<and> effect_on e now (copies e dl) s i = (True, Some d)}" for c items
    unfolding es using fin by (auto simp: f Let_def new [symmetric] split: if_splits)
  moreover have "distinct (map (\<lambda>x. case x of Notify c _ \<Rightarrow> c) (concat (map f cs)))" if "distinct cs" for cs
    using that by (induction cs) (auto simp: f Let_def)
  moreover have "\<exists>c items. x = Notify c items" if "x \<in> set es" for x
    using that unfolding es by (auto simp: f Let_def split: if_splits)
  ultimately show ?thesis using es s' eff by simp
qed

text \<open>The same contents a second time are not recorded again, and nobody is told.\<close>

lemma notify_reaches_subscribers_witness:
  "\<exists>s s'. os_run example_env example_ops new_observer = Some (s, [Subscribe {3, 4}]) \<and>
     notify example_env (\<lambda>_. (0, 0)) [NLPStatus True] s = (s', [Notify 1 {(3, NLPStatus True)}]) \<and>
     snd (notify example_env (\<lambda>_. (0, 0)) [NLPStatus True] s') = []"
proof -
  obtain s where s: "os_run example_env example_ops new_observer = Some (s, [Subscribe {3, 4}])"
    "val_set (mClientToDataItems s) 1 = {3, 4}" "val_set (mClientToDataItems s) 2 = {4}"
    "val_set (mDataItemToClients s) 3 = {1}"
    using example_ops_run by blast
  have c: "mDataItemCache s = (\<lambda>_. None)" "mSystemStatus s = new_reports"
    using s(1) by (auto simp: example_ops_def new_observer_def setSubscriptionObj_def subscribe_def Let_def split_def)
  have p: "\<forall>p\<in>set example_ops. \<not> is_update p" by (simp add: example_ops_def is_update_def)
  note event = eventDataItemNotify_def setIteminReport_def base_ops_def new_item_def push_report_def maxItem_def
  have copies: "copies example_env [NLPStatus True] = [NLPStatus True]"
    by (simp add: copies_def map_filter_simps example_env_def)
  have eff: "effect_on example_env (\<lambda>_. (0, 0)) [NLPStatus True] s i =
      (i = 3, if i = 3 then Some (NLPStatus True) else None)" for i
    by (simp add: effect_on_def c event new_reports_def example_env_def Let_def)
  obtain s' es where n: "notify example_env (\<lambda>_. (0, 0)) [NLPStatus True] s = (s', es)" by fastforce
  note all = notify_reaches_subscribers [OF s(1) p n, unfolded copies eff]
  obtain s1 where s1: "updateCache example_env (0, 0) (NLPStatus True) s = (True, s1)"
    "mNLPStatus (mSystemStatus s1) = [new_item (0, 0) True]"
    by (simp add: updateCache_def example_env_def c event new_reports_def Let_def)
  have maps: "mDataItemToClients s1 = mDataItemToClients s"
    using updateCache_frame(2) [of example_env "(0, 0)" "NLPStatus True" s] s1(1) by simp
  have s': "s' = s1" and e1: "es = [] \<or> (\<exists>items. es = [Notify 1 items])"
    using n by (auto simp: notify_def copies s1(1) clients_of_def maps s(4) [simplified] sendCachedDataItems_def Let_def split: if_splits)
  have "snd (notify example_env (\<lambda>_. (0, 0)) [NLPStatus True] s') = []"
    using s1(2) unfolding s'
    by (simp add: notify_def copies updateCache_def event clients_of_def Let_def)
  moreover have "Notify 1 {(3, NLPStatus True)} \<in> set es" using all s(2) by (auto simp: related_def)
  then have "es = [Notify 1 {(3, NLPStatus True)}]" using e1 by auto
  ultimately show ?thesis using s(1) n by auto
qed

section \<open>Where it goes wrong\<close>

text \<open>
  Updating a subscription never ends one. When the new items of the client overlap its old ones
  the behaviour is undefined (an iterator is advanced after its element is erased); otherwise no
  item is unsubscribed from the framework, and every item the client had before still lists it.
\<close>
theorem update_never_unsubscribes:
  assumes "l \<noteq> []"
  shows "(updateSubscription st l (Some c) s = None \<longleftrightarrow> val_set (mClientToDataItems s) c \<inter> set l \<noteq> {}) \<and>
    (\<forall>s' es. updateSubscription st l (Some c) s = Some (s', es) \<longrightarrow>
       (\<forall>B. Unsubscribe B \<notin> set es) \<and> val_set (mClientToDataItems s') c = set l \<and>
       (\<forall>i. related (mDataItemToClients s) i c \<longrightarrow> related (mDataItemToClients s') i c))"
proof -
  have n: "Unsubscribe B \<notin> set (sendCachedDataItems items c t)" for B items and t :: "os_observer"
    by (simp add: sendCachedDataItems_def Let_def)
  have empty: "trimOrRemove st {} vs m = (m, {}, {})" for vs and m :: "(item_id, client) set_map"
    by (simp add: trimOrRemove_def)
  have "updateSubscription st l (Some c) s = None" if "val_set (mClientToDataItems s) c \<inter> set l \<noteq> {}"
    using that assms by (auto simp: updateSubscription_def update_vals_def removeAndReturnInterset_def)
  moreover have "(\<exists>s' es. updateSubscription st l (Some c) s = Some (s', es)) \<and>
      (\<forall>s' es. updateSubscription st l (Some c) s = Some (s', es) \<longrightarrow>
        (\<forall>B. Unsubscribe B \<notin> set es) \<and> val_set (mClientToDataItems s') c = set l \<and>
        (\<forall>i. related (mDataItemToClients s) i c \<longrightarrow> related (mDataItemToClients s') i c))"
    if "val_set (mClientToDataItems s) c \<inter> set l = {}"
    using that assms
    by (auto simp: updateSubscription_def update_vals_def removeAndReturnInterset_def empty n Let_def split_def
        val_set_def split: if_splits)
  ultimately show ?thesis by (cases "val_set (mClientToDataItems s) c \<inter> set l = {}") auto
qed

lemma update_never_unsubscribes_witness:
  "\<exists>s. os_run example_env example_ops new_observer = Some (s, [Subscribe {3, 4}]) \<and>
     updateSubscription id [4, 5] (Some 1) s = None \<and>
     (\<forall>s' es. updateSubscription id [5] (Some 1) s = Some (s', es) \<longrightarrow> related (mDataItemToClients s') 3 1)"
proof -
  obtain s where s: "os_run example_env example_ops new_observer = Some (s, [Subscribe {3, 4}])"
    "val_set (mClientToDataItems s) 1 = {3, 4}" "val_set (mDataItemToClients s) 3 = {1}"
    using example_ops_run by blast
  have "updateSubscription id [4, 5] (Some 1) s = None"
    using update_never_unsubscribes [of "[4, 5]" id 1 s] s(2) by auto
  moreover have "\<forall>s' es. updateSubscription id [5] (Some 1) s = Some (s', es) \<longrightarrow> related (mDataItemToClients s') 3 1"
    using update_never_unsubscribes [of "[5]" id 1 s] s(3) by (auto simp: related_def)
  ultimately show ?thesis using s(1) by blast
qed

text \<open>
  An item that a client first asks for with a data request is never subscribed: the request
  enters it into the maps without telling the framework, and a later subscription of any client finds
  it there already and sends nothing.
\<close>
theorem request_swallows_subscription:
  assumes "l \<noteq> []" "subscribe l (Some c) True s = (s1, es1)" "subscribe l (Some c') False s1 = (s2, es2)"
  shows "Subscribe B \<notin> set (es1 @ es2)"
proof -
  have n: "Subscribe B \<notin> set (sendCachedDataItems items x t)" for items x and t :: "os_observer"
    by (simp add: sendCachedDataItems_def Let_def)
  have "Subscribe B \<notin> set es1" using assms(1,2) n by (auto simp: subscribe_def Let_def split_def split: if_splits)
  moreover have "mDataItemToClients s1 = fst (add_keys (set l) {c} (mDataItemToClients s))"
    using assms(1,2) by (auto simp: subscribe_def Let_def split_def)
  then have "dom (mDataItemToClients s1) = dom (mDataItemToClients s) \<union> set l" by (simp add: dom_add_keys)
  then have "set l - dom (mDataItemToClients s1) = {}" by blast
  then have "Subscribe B \<notin> set es2"
    using assms(1,3) n by (auto simp: subscribe_def Let_def split_def add_keys_new split: if_splits)
  ultimately show ?thesis by simp
qed

lemma request_swallows_subscription_witness:
  "\<exists>s1 es1 s2 es2. subscribe [3] (Some 1) True (fst (setSubscriptionObj new_observer :: os_observer \<times> _)) = (s1, es1) \<and>
     subscribe [3] (Some 2) False s1 = (s2, es2) \<and> mSubscriptionObj s2 \<and> Subscribe {3} \<notin> set (es1 @ es2)"
proof -
  define s0 :: "os_observer" where "s0 = fst (setSubscriptionObj new_observer)"
  obtain s1 es1 where 1: "subscribe [3] (Some 1) True s0 = (s1, es1)" by fastforce
  obtain s2 es2 where 2: "subscribe [3] (Some 2) False s1 = (s2, es2)" by fastforce
  have "mSubscriptionObj s2" using 1 2 by (auto simp: subscribe_def s0_def setSubscriptionObj_def Let_def split_def)
  with request_swallows_subscription [OF _ 1 2, of "{3}"] 1 2 show ?thesis by (auto simp: s0_def)
qed

text \<open>
  When the last client of an item unsubscribes, the item that the framework is told to drop is
  read from the map entry after it has been erased: it is whatever the freed storage holds.
\<close>
theorem unsubscribe_reads_erased_entry:
  assumes "mSubscriptionObj s" "mDataItemToClients s i = Some {c}" "related (mClientToDataItems s) c i"
  shows "snd (unsubscribe st [i] (Some c) s) = [Unsubscribe {st i}]"
proof -
  have "snd (snd (trimOrRemove id {c} {i} (mClientToDataItems s))) = {i}"
    using assms(3) by (auto simp: trim_gone_vals)
  moreover have "fst (snd (trimOrRemove st {i} {c} (mDataItemToClients s))) = {st i}"
    using assms(2) by (auto simp: trimOrRemove_def trim_entry_def trimSet_def Let_def)
  ultimately show ?thesis using assms(1) by (simp add: unsubscribe_def Let_def split_def)
qed

lemma unsubscribe_reads_erased_entry_witness:
  "\<exists>s. os_run example_env [OpSetSubscription, OpSubscribe [3] (Some 1) False] new_observer = Some (s, [Subscribe {3}]) \<and>
     snd (unsubscribe (\<lambda>i. i + 1) [3] (Some 1) s) = [Unsubscribe {4}]"
proof -
  obtain s where s: "os_run example_env [OpSetSubscription, OpSubscribe [3] (Some 1) False] new_observer = Some (s, [Subscribe {3}])"
    "mSubscriptionObj s" "mDataItemToClients s 3 = Some {1}" "related (mClientToDataItems s) 1 3"
    by (auto simp: example_env_def new_observer_def setSubscriptionObj_def subscribe_def add_keys_def
      add_vals_def sendCachedDataItems_def getKeys_def related_def val_set_def Let_def)
  from unsubscribe_reads_erased_entry [OF s(2-4), of "\<lambda>i. i + 1"] s(1) show ?thesis by auto
qed

section \<open>Turning on and off\<close>

fun turn_all :: "(bool \<times> int) list \<Rightarrow> item_id \<Rightarrow> os_observer \<Rightarrow> os_observer \<times> os_effect list" where
  "turn_all [] d s = (s, [])"
| "turn_all ((on, t) # rs) d s =
     (let (s1, es) = (if on then turnOn d t s else turnOff d s); (s2, fs) = turn_all rs d s1 in (s2, es @ fs))"

definition is_on :: "os_effect \<Rightarrow> bool" where "is_on e \<longleftrightarrow> (\<exists>d t. e = TurnOn d t)"
definition is_off :: "os_effect \<Rightarrow> bool" where "is_off e \<longleftrightarrow> (\<exists>d. e = TurnOff d)"

definition count_of :: "os_observer \<Rightarrow> item_id \<Rightarrow> int" where
  "count_of s d = (case mActiveRequestCount s d of None \<Rightarrow> 0 | Some n \<Rightarrow> n)"

text \<open>What a sequence of requests comes to when surplus requests to turn off are ignored.\<close>

fun pending_requests :: "(bool \<times> int) list \<Rightarrow> int \<Rightarrow> int" where
  "pending_requests [] n = n"
| "pending_requests ((on, t) # rs) n = pending_requests rs (if on then n + 1 else max 0 (n - 1))"

text \<open>
  Requests to turn a module on and off are counted: the framework is told to turn it on with the
  first request and off when the last one has been taken back, so the messages to it alternate, on
  first, and it is on exactly while requests are pending; a surplus request to turn off is ignored.\<close>

theorem turn_requests_balanced:
  assumes "mFrameworkActionReqObj s" "mActiveRequestCount s d = None" "turn_all rs d s = (s', es)"
  shows "count_of s' d = pending_requests rs 0 \<and>
    int (length (filter is_on es)) - int (length (filter is_off es)) = (if pending_requests rs 0 > 0 then 1 else 0) \<and>
    (\<forall>e\<in>set es. is_on e \<or> is_off e)"
proof -
  have "count_of s' d = pending_requests rs (count_of s d) \<and> pending_requests rs (count_of s d) \<ge> 0 \<and>
    int (length (filter is_on es)) - int (length (filter is_off es)) =
      (if pending_requests rs (count_of s d) > 0 then 1 else 0) - (if count_of s d > 0 then 1 else 0) \<and>
    (\<forall>e\<in>set es. is_on e \<or> is_off e)"
    if "mFrameworkActionReqObj s" "turn_all rs d s = (s', es)" "\<forall>n. mActiveRequestCount s d = Some n \<longrightarrow> n > 0"
    for rs s es
    using that
  proof (induction rs arbitrary: s es)
    case Nil
    then show ?case by (auto simp: count_of_def split: option.split)
  next
    case (Cons r rs)
    obtain on t where r: "r = (on, t)" by (cases r)
    obtain s1 es1 where s1: "(if on then turnOn d t s else turnOff d s) = (s1, es1)" by fastforce
    obtain es2 where es2: "turn_all rs d s1 = (s', es2)" "es = es1 @ es2"
      using Cons.prems(2) by (auto simp: r s1 split: prod.splits)
    have inv: "mFrameworkActionReqObj s1" "\<forall>n. mActiveRequestCount s1 d = Some n \<longrightarrow> n > 0"
      using s1 Cons.prems(1,3) by (auto simp: turnOn_def turnOff_def Let_def split: if_splits option.splits)
    have step: "count_of s1 d = (if on then count_of s d + 1 else max 0 (count_of s d - 1))"
      "int (length (filter is_on es1)) - int (length (filter is_off es1)) =
         (if count_of s1 d > 0 then 1 else 0) - (if count_of s d > 0 then 1 else 0)"
      "\<forall>e\<in>set es1. is_on e \<or> is_off e"
      using s1 Cons.prems(1,3)
      by (auto simp: turnOn_def turnOff_def count_of_def is_on_def is_off_def split: if_splits option.splits)
    from Cons.IH [OF inv(1) es2(1) inv(2)] step es2(2) show ?case by (auto simp: r)
  qed
  from this [OF assms(1,3)] assms(2) show ?thesis by (simp add: count_of_def)
qed

lemma turn_requests_balanced_witness:
  "\<exists>s'. turn_all [(True, 0), (True, 0), (False, 0), (False, 0), (False, 0)] 5
       (setFrameworkActionReqObj new_observer :: os_observer) = (s', [TurnOn 5 0, TurnOff 5]) \<and> count_of s' 5 = 0"
proof -
  define s0 :: "os_observer" where "s0 = setFrameworkActionReqObj new_observer"
  obtain s' where s': "turn_all [(True, 0), (True, 0), (False, 0), (False, 0), (False, 0)] 5 s0 = (s', [TurnOn 5 0, TurnOff 5])"
    by (simp add: s0_def setFrameworkActionReqObj_def new_observer_def turnOn_def turnOff_def)
  have "mFrameworkActionReqObj s0" "mActiveRequestCount s0 5 = None"
    by (simp_all add: s0_def setFrameworkActionReqObj_def new_observer_def)
  from turn_requests_balanced [OF this s'] s' show ?thesis by (auto simp: s0_def)
qed

end
