(* ===== verification/LocTarget.thy ===== *)
theory LocTarget
  imports CStdio
begin

text \<open>
  What the device is: \<open>src/gps/utils/loc_target.cpp\<close> and \<open>.h\<close>. The files of \<open>/sys\<close> and the system
  properties are the fields of a \<open>device\<close>; \<open>prop_get key d\<close> is Android's \<open>property_get\<close>. The
  static \<open>gTarget\<close> is the state; its initial value \<open>(unsigned int) -1\<close> stands for "not known yet".
\<close>

record device =
  file_exists :: "string \<Rightarrow> bool"
  file_text :: "string \<Rightarrow> string option"
  prop_get :: "string \<Rightarrow> string \<Rightarrow> string"

text \<open>\<open>read_a_line\<close>: the line without the newlines at its end. When nothing is left the loop reads the
  character before the buffer, which is undefined (None).\<close>

definition read_a_line :: "device \<Rightarrow> string \<Rightarrow> nat \<Rightarrow> (int \<times> string) option" where
  "read_a_line d path line_size =
     (case file_text d path of
        None \<Rightarrow> Some (-1, [])
      | Some t \<Rightarrow>
          (let got = (case fgets line_size t of None \<Rightarrow> [] | Some (l, _) \<Rightarrow> c_str l);
               line = rev (dropWhile (\<lambda>c. c = CHR 0x0A) (rev got))
           in if line = [] then None else Some (0, take (line_size - 1) line)))"

definition PROPERTY_VALUE_MAX :: nat where "PROPERTY_VALUE_MAX = 92"
definition LINE_LEN :: nat where "LINE_LEN = 100"

definition loc_get_target_baseband :: "device \<Rightarrow> string" where
  "loc_get_target_baseband d = prop_get d ''ro.baseband'' []"

definition loc_get_platform_name :: "device \<Rightarrow> string" where
  "loc_get_platform_name d = prop_get d ''ro.board.platform'' []"

definition loc_get_auto_platform_name :: "device \<Rightarrow> string" where
  "loc_get_auto_platform_name d = prop_get d ''ro.hardware.type'' []"

definition loc_identify_low_ram_target :: "device \<Rightarrow> bool" where
  "loc_identify_low_ram_target d \<longleftrightarrow>
     take PROPERTY_VALUE_MAX (prop_get d ''ro.config.low_ram'' []) = ''true''"

definition loc_get_device_soc_id :: "device \<Rightarrow> nat \<Rightarrow> string option" where
  "loc_get_device_soc_id d n =
     map_option snd
       (read_a_line d (if file_exists d ''/sys/devices/soc0/soc_id'' then ''/sys/devices/soc0/soc_id''
                       else ''/sys/devices/system/soc/soc0/id'') n)"

section \<open>The kind of target\<close>

datatype gnss_target = GNSS_NONE | GNSS_MSM | GNSS_GSS | GNSS_MDM | GNSS_AUTO | GNSS_UNKNOWN
datatype ssc_type = NO_SSC | HAS_SSC

primrec gnss_code :: "gnss_target \<Rightarrow> 32 word" where
  "gnss_code GNSS_NONE = 0"
| "gnss_code GNSS_MSM = 1"
| "gnss_code GNSS_GSS = 2"
| "gnss_code GNSS_MDM = 3"
| "gnss_code GNSS_AUTO = 4"
| "gnss_code GNSS_UNKNOWN = 5"

primrec ssc_code :: "ssc_type \<Rightarrow> 32 word" where
  "ssc_code NO_SSC = 0"
| "ssc_code HAS_SSC = 1"

definition TARGET_SET :: "gnss_target \<Rightarrow> ssc_type \<Rightarrow> 32 word" where
  "TARGET_SET g c = or (push_bit 1 (gnss_code g)) (ssc_code c)"

definition getTargetGnssType :: "32 word \<Rightarrow> 32 word" where
  "getTargetGnssType t = drop_bit 1 t"

text \<open>\<open>memcmp\<close> with a literal on a buffer that holds a string, and the literal followed by the end of
  a line.\<close>

definition starts_with :: "string \<Rightarrow> string \<Rightarrow> bool" where
  "starts_with p s \<longleftrightarrow> prefix p s"

definition is_str_end :: "string \<Rightarrow> bool" where
  "is_str_end s \<longleftrightarrow> s = [] \<or> hd s \<in> {CHR 0x00, CHR 0x0A, CHR 0x0D}"

definition is_line :: "string \<Rightarrow> string \<Rightarrow> bool" where
  "is_line p s \<longleftrightarrow> starts_with p s \<and> is_str_end (drop (length p) s)"

definition target_of :: "string \<Rightarrow> string \<Rightarrow> string \<Rightarrow> string \<Rightarrow> bool \<Rightarrow> 32 word" where
  "target_of auto_platform baseband soc_id hw_platform mdm =
     (if starts_with ''auto'' auto_platform then TARGET_SET GNSS_AUTO NO_SSC
      else if starts_with ''baseband_apq_nowgr'' baseband then TARGET_SET GNSS_NONE NO_SSC
      else if starts_with ''apq'' baseband \<or> starts_with ''sdc'' baseband \<or> starts_with ''qcs'' baseband then
        (if is_line ''130'' soc_id then TARGET_SET GNSS_NONE NO_SSC else TARGET_SET GNSS_GSS NO_SSC)
      else if (is_line ''Liquid'' hw_platform \<or> is_line ''Surf'' hw_platform \<or> is_line ''MTP'' hw_platform) \<and> mdm
      then TARGET_SET GNSS_MDM HAS_SSC
      else if is_line ''142'' soc_id \<or> is_line ''116'' soc_id then TARGET_SET GNSS_MSM NO_SSC
      else if starts_with ''msm'' baseband \<or> starts_with ''sdm'' baseband then TARGET_SET GNSS_MSM HAS_SSC
      else TARGET_SET GNSS_UNKNOWN NO_SSC)"

text \<open>\<open>/target\<close> is read only when the earlier conditions send the code there.\<close>

definition asks_mdm :: "string \<Rightarrow> string \<Rightarrow> string \<Rightarrow> bool" where
  "asks_mdm auto_platform baseband hw_platform \<longleftrightarrow>
     \<not> starts_with ''auto'' auto_platform \<and> \<not> starts_with ''baseband_apq_nowgr'' baseband \<and>
     \<not> (starts_with ''apq'' baseband \<or> starts_with ''sdc'' baseband \<or> starts_with ''qcs'' baseband) \<and>
     (is_line ''Liquid'' hw_platform \<or> is_line ''Surf'' hw_platform \<or> is_line ''MTP'' hw_platform)"

definition loc_get_target :: "device \<Rightarrow> 32 word \<Rightarrow> (32 word \<times> 32 word) option" where
  "loc_get_target d gTarget =
     (if gTarget \<noteq> - 1 then Some (gTarget, gTarget)
      else
        let baseband = loc_get_target_baseband d; auto_platform = loc_get_auto_platform_name d in
        Option.bind (read_a_line d (if file_exists d ''/sys/devices/soc0/hw_platform''
                                    then ''/sys/devices/soc0/hw_platform''
                                    else ''/sys/devices/system/soc/soc0/hw_platform'') LINE_LEN) (\<lambda>(_, hw).
        Option.bind (loc_get_device_soc_id d LINE_LEN) (\<lambda>soc.
        Option.bind (if asks_mdm auto_platform baseband hw then read_a_line d ''/target'' LINE_LEN else Some (-1, []))
          (\<lambda>(r, _). let t = target_of auto_platform baseband soc hw (r = 0) in Some (t, t)))))"

section \<open>What the answers are\<close>

lemma read_a_line_no_newline:
  "read_a_line d p n = Some (r, l) \<Longrightarrow> l = [] \<or> last l \<noteq> CHR 0x0A \<or> length l = n - 1"
proof -
  assume a: "read_a_line d p n = Some (r, l)"
  show ?thesis
  proof (cases "file_text d p")
    case None
    with a show ?thesis by (simp add: read_a_line_def)
  next
    case (Some t)
    define got where "got = (case fgets n t of None \<Rightarrow> [] | Some (l, _) \<Rightarrow> c_str l)"
    define line where "line = rev (dropWhile (\<lambda>c. c = CHR 0x0A) (rev got))"
    have l: "l = take (n - 1) line"
      using a by (simp add: read_a_line_def Some Let_def got_def line_def split: if_splits)
    have "line = [] \<or> last line \<noteq> CHR 0x0A"
      using hd_dropWhile [of "\<lambda>c. c = CHR 0x0A" "rev got"] by (auto simp: line_def last_rev)
    then show ?thesis
      by (cases "length line \<le> n - 1") (auto simp: l)
  qed
qed

lemma target_set_type: "getTargetGnssType (TARGET_SET g c) = gnss_code g"
  by (cases g; cases c) (simp_all add: getTargetGnssType_def TARGET_SET_def)

lemma target_set_known: "TARGET_SET g c \<noteq> - 1"
  by (cases g; cases c) (simp_all add: TARGET_SET_def)

lemma if_mem: "x \<in> A \<Longrightarrow> y \<in> A \<Longrightarrow> (if b then x else y) \<in> A"
  by simp

lemma target_of_cases: "\<exists>g c. target_of a b i h m = TARGET_SET g c"
proof -
  have "target_of a b i h m \<in> {TARGET_SET g c | g c. True}"
    unfolding target_of_def by (intro if_mem) auto
  then show ?thesis by simp
qed

lemma loc_get_target_detects:
  "loc_get_target d (- 1) = Some (t, g) \<Longrightarrow> t = g \<and> (\<exists>a b i h m. g = target_of a b i h m)"
  unfolding loc_get_target_def Let_def by (clarsimp simp: bind_eq_Some_conv) blast

text \<open>
  The kind of target is detected once: the first call of \<open>loc_get_target\<close> that returns keeps its
  answer, which names one of the known GNSS kinds, and every later call returns the same answer
  whatever has become of the files and properties of the device.
\<close>

theorem target_detected_once:
  assumes "loc_get_target d (- 1) = Some (t, g)"
  shows "loc_get_target d' g = Some (t, g) \<and> (\<exists>k. getTargetGnssType t = gnss_code k)"
proof -
  obtain k c where t: "t = g" and g: "g = TARGET_SET k c"
    using loc_get_target_detects [OF assms] target_of_cases by metis
  have "loc_get_target d' g = Some (g, g)" using target_set_known by (simp add: loc_get_target_def g)
  moreover have "getTargetGnssType t = gnss_code k" by (simp add: t g target_set_type)
  ultimately show ?thesis using t by blast
qed

definition example_device :: device where
  "example_device =
     \<lparr>file_exists = (\<lambda>p. p = ''/sys/devices/soc0/hw_platform'' \<or> p = ''/sys/devices/soc0/soc_id''),
      file_text = (\<lambda>p. if p = ''/sys/devices/soc0/hw_platform'' then Some (''MTP'' @ [CHR 0x0A])
                       else if p = ''/sys/devices/soc0/soc_id'' then Some (''339'' @ [CHR 0x0A])
                       else None),
      prop_get = (\<lambda>k d. if k = ''ro.baseband'' then ''msm'' else if k = ''ro.board.platform'' then ''msmnile'' else d)\<rparr>"

lemma example_target: "loc_get_target example_device (- 1) = Some (3, 3)"
  by (simp add: loc_get_target_def loc_get_target_baseband_def loc_get_auto_platform_name_def
      loc_get_device_soc_id_def read_a_line_def fgets_def c_str_def example_device_def LINE_LEN_def
      asks_mdm_def target_of_def is_line_def starts_with_def is_str_end_def numeral_eq_Suc TARGET_SET_def
      Let_def)

theorem target_detected_once_witness:
  "loc_get_target example_device (- 1) = Some (3, 3) \<and>
   loc_get_target (example_device\<lparr>prop_get := \<lambda>k d. d\<rparr>) 3 = Some (3, 3) \<and>
   (\<exists>k. getTargetGnssType 3 = gnss_code k)"
  using target_detected_once [OF example_target] example_target by simp

text \<open>
  A platform or SoC file that is empty, or whose first line is, makes \<open>loc_get_target\<close> read the
  character before its buffer: the behaviour is undefined, while an unreadable file is handled.
\<close>

theorem blank_platform_file_undefined:
  assumes "file_exists d ''/sys/devices/soc0/hw_platform''"
  shows "(file_text d ''/sys/devices/soc0/hw_platform'' = Some (CHR 0x0A # rest) \<longrightarrow> loc_get_target d (- 1) = None) \<and>
         (file_text d ''/sys/devices/soc0/hw_platform'' = Some [] \<longrightarrow> loc_get_target d (- 1) = None) \<and>
         (file_text d ''/sys/devices/soc0/hw_platform'' = None \<longrightarrow>
            read_a_line d ''/sys/devices/soc0/hw_platform'' LINE_LEN = Some (-1, []))"
  using assms
  by (simp add: loc_get_target_def read_a_line_def fgets_def c_str_def LINE_LEN_def numeral_eq_Suc Let_def)

theorem blank_platform_file_undefined_witness:
  "loc_get_target (example_device\<lparr>file_text := \<lambda>_. Some [CHR 0x0A]\<rparr>) (- 1) = None"
  using blank_platform_file_undefined [of "example_device\<lparr>file_text := \<lambda>_. Some [CHR 0x0A]\<rparr>" "[]"]
  by (simp add: example_device_def)

end
