(* ===== verification/LocCfg.thy ===== *)
theory LocCfg
  imports LocTarget
begin

text \<open>
  The configuration files of the location stack: \<open>src/gps/utils/loc_cfg.cpp\<close> and \<open>.h\<close>. A parameter
  table names variables; the variables are the fields of a \<open>conf_store\<close>, which maps the name of a
  variable to its string, its \<open>int\<close>, its \<open>double\<close> or its validity flag. The files and the system
  properties are arguments.
\<close>

definition LOC_MAX_PARAM_STRING :: nat where "LOC_MAX_PARAM_STRING = 172"
definition LOC_MAX_PARAM_LINE :: nat where "LOC_MAX_PARAM_LINE = 252"

section \<open>Tables and variables\<close>

record conf_entry =
  param_name :: string
  param_ptr :: "string option"
  param_set :: "string option"
  param_type :: char

record conf_value =
  v_name :: string
  v_str :: string
  v_int :: "32 word"
  v_double :: rat

record conf_store =
  strs :: "string \<Rightarrow> string"
  ints :: "string \<Rightarrow> 32 word"
  dbls :: "string \<Rightarrow> rat"
  flags :: "string \<Rightarrow> bool"

definition set_flag :: "string option \<Rightarrow> bool \<Rightarrow> conf_store \<Rightarrow> conf_store" where
  "set_flag p b s = (case p of None \<Rightarrow> s | Some x \<Rightarrow> s\<lparr>flags := (flags s)(x := b)\<rparr>)"

definition loc_set_config_entry :: "conf_entry \<Rightarrow> conf_value \<Rightarrow> conf_store \<Rightarrow> int \<times> conf_store" where
  "loc_set_config_entry e v s =
     (if param_name e \<noteq> v_name v then (-1, s)
      else case param_ptr e of
          None \<Rightarrow> (-1, s)
        | Some p \<Rightarrow>
            if param_type e = CHR ''s'' then
              (0, set_flag (param_set e) True
                (s\<lparr>strs := (strs s)(p := (if v_str v = ''NULL'' then [] else strlcpy LOC_MAX_PARAM_STRING (v_str v)))\<rparr>))
            else if param_type e = CHR ''n'' then
              (0, set_flag (param_set e) True (s\<lparr>ints := (ints s)(p := v_int v)\<rparr>))
            else if param_type e = CHR ''f'' then
              (0, set_flag (param_set e) True (s\<lparr>dbls := (dbls s)(p := v_double v)\<rparr>))
            else (-1, s))"

fun set_entries :: "conf_entry list \<Rightarrow> conf_value \<Rightarrow> conf_store \<Rightarrow> nat \<times> conf_store" where
  "set_entries [] v s = (0, s)"
| "set_entries (e # es) v s =
     (let (r, s1) = loc_set_config_entry e v s; (n, s2) = set_entries es v s1
      in (if r = 0 then n + 1 else n, s2))"

definition is_hex :: "string \<Rightarrow> bool" where
  "is_hex s \<longleftrightarrow> length s \<ge> 3 \<and> s ! 0 = CHR ''0'' \<and> (s ! 1 = CHR ''x'' \<or> s ! 1 = CHR ''X'')"

definition parse_value :: "string \<Rightarrow> string \<Rightarrow> conf_value" where
  "parse_value name str =
     (if is_hex str then \<lparr>v_name = name, v_str = str, v_int = to_int32 (strtol16 (drop 2 str)), v_double = 0\<rparr>
      else \<lparr>v_name = name, v_str = str, v_int = atoi str, v_double = atof str\<rparr>)"

text \<open>\<open>strtok_r(buf, "=")\<close> skips leading separators; the second call takes all that is left.\<close>

definition loc_fill_conf_item :: "string \<Rightarrow> conf_entry list \<Rightarrow> conf_store \<Rightarrow> nat \<times> conf_store" where
  "loc_fill_conf_item input_buf table s =
     (let buf = dropWhile (\<lambda>c. c = CHR ''='') (c_str input_buf);
          name = takeWhile (\<lambda>c. c \<noteq> CHR ''='') buf;
          rest = drop (length name + 1) buf
      in if name = [] \<or> rest = [] then (0, s)
         else set_entries table (parse_value (loc_util_trim_space name) (loc_util_trim_space rest)) s)"

section \<open>Reading a file\<close>

function read_loop :: "32 word \<Rightarrow> conf_entry list \<Rightarrow> string \<Rightarrow> conf_store \<Rightarrow> string \<times> conf_store" where
  "read_loop num_params table file s =
     (if num_params = 0 then (file, s)
      else case fgets LOC_MAX_PARAM_LINE file of
          None \<Rightarrow> (file, s)
        | Some (line, rest) \<Rightarrow>
            (let (n, s1) = loc_fill_conf_item line table s in read_loop (num_params - of_nat n) table rest s1))"
  by pat_completeness auto
termination
  by (relation "measure (\<lambda>(_, _, file, _). length file)")
    (auto simp: LOC_MAX_PARAM_LINE_def numeral_eq_Suc dest: fgets_shorter)

declare read_loop.simps [simp del]

definition loc_read_conf_r :: "string option \<Rightarrow> conf_entry list \<Rightarrow> conf_store \<Rightarrow> int \<times> string option \<times> conf_store" where
  "loc_read_conf_r conf_fp table s =
     (case conf_fp of
        None \<Rightarrow> (-1, None, s)
      | Some file \<Rightarrow>
          (let s1 = fold (\<lambda>e. set_flag (param_set e) False) table s;
               (rest, s2) = read_loop (of_nat (length table)) table file s1
           in (0, Some rest, s2)))"

section \<open>\<open>loc_update_conf\<close>\<close>

text \<open>The tokens \<open>strtok_r\<close> yields between newlines; the loop over them. The result is None when the
  copy would read beyond the text and its terminator.\<close>

definition line_tokens :: "string \<Rightarrow> string list" where
  "line_tokens s = filter (\<lambda>w. w \<noteq> []) (split_at_char (CHR 0x0A) s)"

fun update_loop :: "32 word \<Rightarrow> conf_entry list \<Rightarrow> string list \<Rightarrow> conf_store \<Rightarrow> nat \<times> conf_store" where
  "update_loop num_params table [] s = (0, s)"
| "update_loop num_params table (t # ts) s =
     (if num_params = 0 then (0, s)
      else let (n, s1) = loc_fill_conf_item t table s;
               (r, s2) = update_loop (num_params - of_nat n) table ts s1
           in (r + 1, s2))"

definition loc_update_conf :: "string option \<Rightarrow> nat \<Rightarrow> conf_entry list \<Rightarrow> conf_store \<Rightarrow> (int \<times> conf_store) option" where
  "loc_update_conf conf_data len table s =
     (case conf_data of
        None \<Rightarrow> Some (-1, s)
      | Some t \<Rightarrow>
          if len = 0 \<or> table = [] then Some (-1, s)
          else if length t + 1 < len then None
          else let (r, s1) = update_loop (of_nat (length table) - 1) table (line_tokens (c_str (take len t))) s
               in Some (int r, s1))"

section \<open>\<open>loc_read_conf\<close>\<close>

text \<open>The logger of \<open>log_util.h\<close> and the parameters \<open>loc_cfg.cpp\<close> keeps for it.\<close>

datatype build_type = BUILD_TYPE_PROP_NA | BUILD_TYPE_PROP_USER | BUILD_TYPE_PROP_USERDEBUG | BUILD_TYPE_PROP_INVALID

record loc_logger =
  DEBUG_LEVEL :: "64 word"
  TIMESTAMP :: "64 word"
  LOG_BUFFER_ENABLE :: bool
  build_type_prop :: build_type

definition loc_logger_init :: "device \<Rightarrow> 64 word \<Rightarrow> 64 word \<Rightarrow> loc_logger \<Rightarrow> loc_logger" where
  "loc_logger_init d debug timestamp g =
     (let btype = prop_get d ''ro.build.type'' ''userdebug'';
          b = (if build_type_prop g = BUILD_TYPE_PROP_NA then
                 (if btype = ''user'' then BUILD_TYPE_PROP_USER
                  else if btype = ''userdebug'' then BUILD_TYPE_PROP_USERDEBUG else BUILD_TYPE_PROP_INVALID)
               else build_type_prop g);
          l = (if b = BUILD_TYPE_PROP_USER \<and> debug > 2 then 2 else debug)
      in g\<lparr>DEBUG_LEVEL := l, TIMESTAMP := timestamp, build_type_prop := b\<rparr>)"

definition log_buffer_init :: "bool \<Rightarrow> loc_logger \<Rightarrow> loc_logger" where
  "log_buffer_init enabled g = g\<lparr>LOG_BUFFER_ENABLE := enabled\<rparr>"

definition number_entry :: "string \<Rightarrow> string \<Rightarrow> conf_entry" where
  "number_entry name var = \<lparr>param_name = name, param_ptr = Some var, param_set = None, param_type = CHR ''n''\<rparr>"

definition string_entry :: "string \<Rightarrow> string \<Rightarrow> conf_entry" where
  "string_entry name var = \<lparr>param_name = name, param_ptr = Some var, param_set = None, param_type = CHR ''s''\<rparr>"

definition loc_param_table :: "conf_entry list" where
  "loc_param_table =
     [number_entry ''DEBUG_LEVEL'' ''DEBUG_LEVEL'', number_entry ''TIMESTAMP'' ''TIMESTAMP'',
      number_entry ''DATUM_TYPE'' ''DATUM_TYPE'', number_entry ''LOG_BUFFER_ENABLED'' ''sLogBufferEnabled'']"

definition loc_get_datum_type :: "conf_store \<Rightarrow> 32 word" where
  "loc_get_datum_type s = ints s ''DATUM_TYPE''"

definition loc_read_conf ::
  "device \<Rightarrow> string \<Rightarrow> conf_entry list \<Rightarrow> conf_store \<times> loc_logger \<Rightarrow> conf_store \<times> loc_logger" where
  "loc_read_conf d conf_file_name table sg =
     (let (s, g) = sg;
          s1 = (case file_text d conf_file_name of
                  None \<Rightarrow> s
                | Some text1 \<Rightarrow>
                    (let s1 = (if table = [] then s else snd (snd (loc_read_conf_r (Some text1) table s)))
                     in snd (snd (loc_read_conf_r (Some text1) loc_param_table s1))))
      in (s1, log_buffer_init (ints s1 ''sLogBufferEnabled'' \<noteq> 0)
                (loc_logger_init d (ucast (ints s1 ''DEBUG_LEVEL'')) (ucast (ints s1 ''TIMESTAMP''))
                  (log_buffer_init False g))))"

end
