(* ===== verification/LocCfgProps.thy ===== *)
theory LocCfgProps
  imports LocCfg
begin

text \<open>
  What holds of the configuration reader: a file of numbers is read back, duplicate, over-long and
  empty lines, the missing last parameter of \<open>loc_update_conf\<close>, and the cap on the log level of user
  builds.
\<close>

section \<open>Lines\<close>

abbreviation nl :: char where "nl \<equiv> CHR 0x0A"

definition clean_name :: "string \<Rightarrow> bool" where
  "clean_name n \<longleftrightarrow> n \<noteq> [] \<and> (\<forall>c\<in>set n. \<not> is_space c \<and> c \<noteq> CHR ''='' \<and> c \<noteq> CHR 0x00)"

definition int32_range :: "int \<Rightarrow> bool" where
  "int32_range v \<longleftrightarrow> - (2 ^ 31) \<le> v \<and> v < 2 ^ 31"

lemma space_nl [simp]: "is_space nl"
  by (simp add: is_space_def)

lemma clean_name_no_nl: "clean_name n \<Longrightarrow> nl \<notin> set n"
  unfolding clean_name_def using space_nl by blast

lemma dropWhile_none: "(\<And>c. c \<in> set s \<Longrightarrow> \<not> P c) \<Longrightarrow> dropWhile P s = s"
  by (cases s) auto

lemma trim_none: "(\<And>c. c \<in> set s \<Longrightarrow> \<not> is_space c) \<Longrightarrow> trim s = s"
  using dropWhile_none [of s is_space] dropWhile_none [of "rev s" is_space] by (simp add: trim_def)

lemma trim_blank_end: "(\<And>c. c \<in> set s \<Longrightarrow> \<not> is_space c) \<Longrightarrow> s \<noteq> [] \<Longrightarrow> trim (s @ [nl]) = s"
  using dropWhile_none [of "s @ [nl]" is_space] dropWhile_none [of "rev s" is_space]
    dropWhile_none [of s is_space] by (cases s) (simp_all add: trim_def)

lemma trim_space_clean: "clean_name n \<Longrightarrow> loc_util_trim_space n = n"
  by (auto simp: loc_util_trim_space_def clean_name_def trim_none)

lemma int_to_dec_chars: "c \<in> set (int_to_dec v) \<Longrightarrow> is_digit c \<or> c = CHR ''-''"
  by (auto simp: int_to_dec_def to_dec_digits split: if_splits)

lemma digit_or_minus:
  "is_digit c \<or> c = CHR ''-'' \<Longrightarrow> \<not> is_space c \<and> c \<noteq> CHR 0x00 \<and> c \<noteq> CHR ''x'' \<and> c \<noteq> CHR ''X'' \<and> c \<noteq> nl"
  by (auto simp: is_digit_def is_space_def)

lemma int_to_dec_nonempty: "int_to_dec v \<noteq> []"
  by (simp add: int_to_dec_def)

lemma trim_space_number: "loc_util_trim_space (int_to_dec v @ [nl]) = int_to_dec v"
  using trim_blank_end [of "int_to_dec v"] int_to_dec_chars digit_or_minus int_to_dec_nonempty
  by (metis (no_types, lifting) Un_iff loc_util_trim_space_def set_append hd_in_set)

lemma fill_line:
  assumes "clean_name n" "x \<noteq> []" "\<And>c. c \<in> set x \<Longrightarrow> c \<noteq> CHR 0x00"
  shows "loc_fill_conf_item (n @ CHR ''='' # x) table s =
           set_entries table (parse_value n (loc_util_trim_space x)) s"
proof -
  have "c_str (n @ CHR ''='' # x) = n @ CHR ''='' # x"
    using assms by (auto simp: c_str_def clean_name_def takeWhile_eq_all_conv)
  moreover have "dropWhile (\<lambda>c. c = CHR ''='') (n @ CHR ''='' # x) = n @ CHR ''='' # x"
    using assms by (cases n) (auto simp: clean_name_def)
  moreover have "takeWhile (\<lambda>c. c \<noteq> CHR ''='') (n @ CHR ''='' # x) = n"
    using assms by (auto simp: clean_name_def takeWhile_tail)
  ultimately show ?thesis
    using assms by (simp add: loc_fill_conf_item_def Let_def trim_space_clean) (simp add: clean_name_def)
qed

lemma strtol10_int_to_dec: "int32_range v \<Longrightarrow> strtol10 (int_to_dec v) = v"
proof -
  assume r: "int32_range v"
  have d: "\<not> is_space (hd (to_dec n)) \<and> hd (to_dec n) \<noteq> CHR ''-'' \<and> hd (to_dec n) \<noteq> CHR ''+''" for n
    using to_dec_hd space_not_digit digit_not_sign by blast
  have w: "dropWhile is_space (to_dec n) = to_dec n" for n using d [of n] by (cases "to_dec n") auto
  have t: "takeWhile is_digit (to_dec n) = to_dec n" for n by (simp add: takeWhile_eq_all_conv to_dec_digits)
  show ?thesis
  proof (cases "v < 0")
    case True
    then have "int_to_dec v = CHR ''-'' # to_dec (nat (- v))" by (simp add: int_to_dec_def)
    moreover have "\<not> is_space (CHR ''-'')" by (simp add: is_space_def)
    ultimately show ?thesis
      using r True by (simp add: strtol10_def Let_def w t clamp64_def int32_range_def)
  next
    case False
    then have e: "int_to_dec v = to_dec (nat v)" by (simp add: int_to_dec_def)
    show ?thesis
      using r False d [of "nat v"] by (simp add: strtol10_def Let_def e w t clamp64_def int32_range_def)
  qed
qed

lemma not_hex_number: "\<not> is_hex (int_to_dec v)"
proof
  assume h: "is_hex (int_to_dec v)"
  then have "int_to_dec v ! 1 \<in> set (int_to_dec v)" by (intro nth_mem) (simp add: is_hex_def)
  with h show False using digit_or_minus [OF int_to_dec_chars, of "int_to_dec v ! 1" v] by (auto simp: is_hex_def)
qed

lemma parse_number:
  "int32_range v \<Longrightarrow> v_int (parse_value n (int_to_dec v)) = word_of_int v \<and> v_name (parse_value n (int_to_dec v)) = n"
  by (simp add: parse_value_def not_hex_number atoi_def to_int32_def strtol10_int_to_dec)

section \<open>Tables of numbers\<close>

definition number_table :: "string list \<Rightarrow> conf_entry list" where
  "number_table ns = map (\<lambda>n. number_entry n n) ns"

definition set_int :: "string \<Rightarrow> int \<Rightarrow> conf_store \<Rightarrow> conf_store" where
  "set_int n v s = s\<lparr>ints := (ints s)(n := word_of_int v)\<rparr>"

definition print_line :: "string \<times> int \<Rightarrow> string" where
  "print_line kv = fst kv @ CHR ''='' # int_to_dec (snd kv) @ [nl]"

definition print_conf :: "(string \<times> int) list \<Rightarrow> string" where
  "print_conf kvs = concat (map print_line kvs)"

definition line_ok :: "string \<times> int \<Rightarrow> bool" where
  "line_ok kv \<longleftrightarrow> clean_name (fst kv) \<and> int32_range (snd kv) \<and> length (print_line kv) < LOC_MAX_PARAM_LINE"

definition set_ints :: "(string \<times> int) list \<Rightarrow> conf_store \<Rightarrow> conf_store" where
  "set_ints kvs s = fold (\<lambda>(k, v). set_int k v) kvs s"

lemma set_ints_Cons: "set_ints ((k, v) # kvs) s = set_ints kvs (set_int k v s)"
  by (simp add: set_ints_def)

lemma set_number_entry:
  "loc_set_config_entry (number_entry n m) v s =
     (if n = v_name v then (0, s\<lparr>ints := (ints s)(m := v_int v)\<rparr>) else (-1, s))"
  by (simp add: loc_set_config_entry_def number_entry_def set_flag_def)

lemma set_entries_numbers:
  "set_entries (number_table ns) v s =
     (count_list ns (v_name v),
      if v_name v \<in> set ns then s\<lparr>ints := (ints s)(v_name v := v_int v)\<rparr> else s)"
  by (induction ns arbitrary: s) (auto simp: number_table_def set_number_entry Let_def split: prod.splits)

lemma count_list_distinct: "distinct xs \<Longrightarrow> x \<in> set xs \<Longrightarrow> count_list xs x = 1"
  by (induction xs) auto

lemma fill_print_line:
  assumes "line_ok (k, v)"
  shows "loc_fill_conf_item (print_line (k, v)) (number_table ns) s =
           (count_list ns k, if k \<in> set ns then set_int k v s else s)"
proof -
  have x: "int_to_dec v @ [nl] \<noteq> []" "\<And>c. c \<in> set (int_to_dec v @ [nl]) \<Longrightarrow> c \<noteq> CHR 0x00"
    using digit_or_minus [OF int_to_dec_chars] by auto
  have "loc_fill_conf_item (print_line (k, v)) (number_table ns) s =
          set_entries (number_table ns) (parse_value k (int_to_dec v)) s"
    using assms fill_line [OF _ x] trim_space_number by (simp add: print_line_def line_ok_def)
  with assms parse_number show ?thesis by (simp add: set_entries_numbers set_int_def line_ok_def)
qed

lemma take_line_whole: "nl \<notin> set l \<Longrightarrow> length l < n \<Longrightarrow> take_line n (l @ nl # r) = (l @ [nl], r)"
proof (induction l arbitrary: n)
  case Nil
  then show ?case by (cases n) simp_all
next
  case (Cons a l)
  then show ?case by (cases n) auto
qed

lemma fgets_print_line:
  assumes "line_ok kv"
  shows "fgets LOC_MAX_PARAM_LINE (print_line kv @ r) = Some (print_line kv, r)"
proof -
  let ?l = "fst kv @ CHR ''='' # int_to_dec (snd kv)"
  have "nl \<notin> set ?l"
    using assms clean_name_no_nl digit_or_minus [OF int_to_dec_chars] by (auto simp: line_ok_def)
  moreover have "length ?l < LOC_MAX_PARAM_LINE - 1" using assms by (simp add: line_ok_def print_line_def LOC_MAX_PARAM_LINE_def)
  ultimately show ?thesis
    using take_line_whole [of ?l "LOC_MAX_PARAM_LINE - 1" r] by (simp add: fgets_def print_line_def)
qed

lemma read_loop_line:
  assumes "line_ok (k, v)" "num \<noteq> 0"
  shows "read_loop num (number_table ns) (print_line (k, v) @ r) s =
           read_loop (num - of_nat (count_list ns k)) (number_table ns) r (if k \<in> set ns then set_int k v s else s)"
  using assms by (subst read_loop.simps) (simp add: fgets_print_line fill_print_line)

lemma read_loop_stop: "read_loop 0 table r s = (r, s)"
  by (subst read_loop.simps) simp

lemma of_nat_Suc_nonzero: "Suc n < 2 ^ 32 \<Longrightarrow> (of_nat (Suc n) :: 32 word) \<noteq> 0"
proof
  assume n: "Suc n < 2 ^ 32" and z: "(of_nat (Suc n) :: 32 word) = 0"
  have "unat (of_nat (Suc n) :: 32 word) = Suc n mod 2 ^ 32" by (subst unat_of_nat) simp
  with n z show False by simp
qed

lemma read_loop_file:
  "distinct ns \<Longrightarrow> \<forall>kv\<in>set kvs. line_ok kv \<and> fst kv \<in> set ns \<Longrightarrow> length kvs < 2 ^ 32 \<Longrightarrow>
   read_loop (of_nat (length kvs)) (number_table ns) (print_conf kvs @ r) s = (r, set_ints kvs s)"
proof (induction kvs arbitrary: s)
  case Nil
  then show ?case by (simp add: print_conf_def set_ints_def read_loop_stop)
next
  case (Cons kv kvs)
  obtain k v where kv: "kv = (k, v)" by fastforce
  have nz: "(of_nat (length (kv # kvs)) :: 32 word) \<noteq> 0"
    using of_nat_Suc_nonzero [of "length kvs"] Cons.prems by simp
  have "print_conf (kv # kvs) @ r = print_line (k, v) @ print_conf kvs @ r" by (simp add: print_conf_def kv)
  then have "read_loop (of_nat (length (kv # kvs))) (number_table ns) (print_conf (kv # kvs) @ r) s =
       read_loop (of_nat (length kvs)) (number_table ns) (print_conf kvs @ r) (set_int k v s)"
    using read_loop_line [OF _ nz, of k v] Cons.prems by (simp add: kv count_list_distinct)
  with Cons.IH [of "set_int k v s"] Cons.prems show ?case by (simp add: kv set_ints_Cons)
qed

lemma set_ints_other: "k \<notin> fst ` set kvs \<Longrightarrow> ints (set_ints kvs s) k = ints s k"
  by (induction kvs arbitrary: s) (auto simp: set_ints_def set_int_def)

lemma set_ints_value:
  "distinct (map fst kvs) \<Longrightarrow> (k, v) \<in> set kvs \<Longrightarrow> ints (set_ints kvs s) k = word_of_int v"
proof (induction kvs arbitrary: s)
  case Nil
  then show ?case by simp
next
  case (Cons kv kvs)
  obtain j u where kv: "kv = (j, u)" by fastforce
  show ?case
  proof (cases "(k, v) = kv")
    case True
    then show ?thesis using Cons.prems set_ints_other [of j kvs] by (simp add: kv set_ints_Cons set_int_def)
  next
    case False
    then have "(k, v) \<in> set kvs" using Cons.prems by auto
    then show ?thesis using Cons by (simp add: kv set_ints_Cons)
  qed
qed

lemma clear_no_flags: "fold (\<lambda>e. set_flag (param_set e) False) (number_table ns) s = s"
  by (induction ns) (simp_all add: number_table_def number_entry_def set_flag_def)

text \<open>
  C29. Round trip of a configuration file of numbers: a file with one line \<open>NAME=number\<close> for each
  parameter of a table, in any order, gives every parameter its number when \<open>loc_read_conf_r\<close> reads
  it, reads exactly those lines and leaves what follows them in the file. The names are not empty and have
  no white space, no \<open>=\<close> and no NUL in them, the numbers fit an int, and a line fits the buffer it is
  read into.\<close>

theorem conf_file_roundtrip:
  assumes "distinct (map fst kvs)" "\<forall>kv\<in>set kvs. line_ok kv" "length kvs < 2 ^ 32"
    and "distinct ns" "set ns = set (map fst kvs)" "(k, v) \<in> set kvs"
  shows "\<exists>s'. loc_read_conf_r (Some (print_conf kvs @ r)) (number_table ns) s = (0, Some r, s') \<and> sint (ints s' k) = v"
proof -
  have "length ns = length kvs"
    using assms(1,4,5) distinct_card [of ns] distinct_card [of "map fst kvs"] by simp
  then have "loc_read_conf_r (Some (print_conf kvs @ r)) (number_table ns) s = (0, Some r, set_ints kvs s)"
    using assms read_loop_file [of ns kvs r s] clear_no_flags
    by (auto simp: loc_read_conf_r_def number_table_def Let_def)
  moreover have "sint (ints (set_ints kvs s) k) = v"
    using assms(2,6) set_ints_value [OF assms(1,6)]
    by (auto simp: line_ok_def int32_range_def sint_sbintrunc' signed_take_bit_int_eq_self)
  ultimately show ?thesis by blast
qed

definition no_store :: conf_store where
  "no_store = \<lparr>strs = (\<lambda>_. []), ints = (\<lambda>_. 0), dbls = (\<lambda>_. 0), flags = (\<lambda>_. False)\<rparr>"

lemmas line_simps =
  line_ok_def clean_name_def is_space_def int32_range_def print_line_def LOC_MAX_PARAM_LINE_def
  int_to_dec_def to_dec.simps digit_def

theorem conf_file_roundtrip_witness:
  "\<exists>s'. loc_read_conf_r (Some (print_conf [(''B'', - 7), (''A'', 12)])) (number_table [''A'', ''B'']) no_store =
          (0, Some [], s') \<and> sint (ints s' ''B'') = - 7"
  using conf_file_roundtrip [of "[(''B'', - 7), (''A'', 12)]" "[''A'', ''B'']" "''B''" "- 7" "[]" no_store]
  by (simp add: line_simps insert_commute)

text \<open>
  \<open>loc_read_conf_r\<close> counts values, not parameters: when a parameter is given twice, the reader
  stops after as many lines as the table has entries, so the parameter on the last line keeps the
  value it had, and that line is left in the file.
\<close>

theorem duplicate_line_hides_last:
  assumes "line_ok (a, u)" "line_ok (a, v)" "line_ok (b, w)" "a \<noteq> b"
  shows "\<exists>s'. loc_read_conf_r (Some (print_conf [(a, u), (a, v), (b, w)])) (number_table [a, b]) s =
                (0, Some (print_line (b, w)), s') \<and> ints s' b = ints s b \<and> sint (ints s' a) = v"
proof -
  have "read_loop (of_nat (length [(a, u), (a, v)])) (number_table [a, b])
          (print_conf [(a, u), (a, v)] @ print_line (b, w)) s =
          (print_line (b, w), set_ints [(a, u), (a, v)] s)"
    using assms by (intro read_loop_file) simp_all
  then have "loc_read_conf_r (Some (print_conf [(a, u), (a, v), (b, w)])) (number_table [a, b]) s =
               (0, Some (print_line (b, w)), set_ints [(a, u), (a, v)] s)"
    using clear_no_flags [of "[a, b]" s] by (simp add: loc_read_conf_r_def print_conf_def number_table_def)
  moreover have "sint (ints (set_ints [(a, u), (a, v)] s) a) = v"
    using assms(2) by (simp add: set_ints_def set_int_def line_ok_def int32_range_def sint_sbintrunc'
        signed_take_bit_int_eq_self)
  ultimately show ?thesis using assms(4) by (simp add: set_ints_other)
qed

theorem duplicate_line_hides_last_witness:
  "\<exists>s'. loc_read_conf_r (Some (print_conf [(''A'', 1), (''A'', 2), (''B'', 3)])) (number_table [''A'', ''B'']) no_store =
          (0, Some (print_line (''B'', 3)), s') \<and> ints s' ''B'' = ints no_store ''B'' \<and> sint (ints s' ''A'') = 2"
  by (rule duplicate_line_hides_last) (simp_all add: line_simps)

section \<open>\<open>loc_update_conf\<close>\<close>

lemma split_at_char_line: "d \<notin> set l \<Longrightarrow> split_at_char d (l @ d # r) = l # split_at_char d r"
  by (induction l) auto

lemma line_tokens_print: 
  assumes "\<forall>kv\<in>set kvs. line_ok kv"
  shows "line_tokens (print_conf kvs) = map (\<lambda>(k, v). k @ CHR ''='' # int_to_dec v) kvs"
  using assms
proof (induction kvs)
  case Nil
  then show ?case by (simp add: print_conf_def line_tokens_def)
next
  case (Cons kv kvs)
  obtain k v where kv: "kv = (k, v)" by fastforce
  have "nl \<notin> set (k @ CHR ''='' # int_to_dec v)"
    using Cons.prems clean_name_no_nl digit_or_minus [OF int_to_dec_chars] by (auto simp: line_ok_def kv)
  from split_at_char_line [OF this, of "print_conf kvs"] Cons show ?case
    by (simp add: kv line_tokens_def print_conf_def print_line_def)
qed

lemma fill_token:
  assumes "line_ok (k, v)"
  shows "loc_fill_conf_item (k @ CHR ''='' # int_to_dec v) (number_table ns) s =
           (count_list ns k, if k \<in> set ns then set_int k v s else s)"
proof -
  have x: "\<And>c. c \<in> set (int_to_dec v) \<Longrightarrow> c \<noteq> CHR 0x00 \<and> \<not> is_space c"
    using digit_or_minus [OF int_to_dec_chars] by blast
  then have "loc_util_trim_space (int_to_dec v) = int_to_dec v" by (simp add: loc_util_trim_space_def trim_none)
  then have "loc_fill_conf_item (k @ CHR ''='' # int_to_dec v) (number_table ns) s =
          set_entries (number_table ns) (parse_value k (int_to_dec v)) s"
    using assms fill_line [OF _ int_to_dec_nonempty] x by (simp add: line_ok_def)
  with assms parse_number show ?thesis by (simp add: set_entries_numbers set_int_def line_ok_def)
qed

lemma update_loop_stop: "update_loop 0 table ts s = (0, s)"
  by (cases ts) simp_all

lemma update_loop_tokens:
  "distinct ns \<Longrightarrow> \<forall>kv\<in>set kvs. line_ok kv \<and> fst kv \<in> set ns \<Longrightarrow> length kvs < 2 ^ 32 \<Longrightarrow>
   update_loop (of_nat (length kvs)) (number_table ns)
     (map (\<lambda>(k, v). k @ CHR ''='' # int_to_dec v) kvs @ ts) s = (length kvs, set_ints kvs s)"
proof (induction kvs arbitrary: s)
  case Nil
  then show ?case by (simp add: set_ints_def update_loop_stop)
next
  case (Cons kv kvs)
  obtain k v where kv: "kv = (k, v)" by fastforce
  have "(of_nat (length (kv # kvs)) :: 32 word) \<noteq> 0"
    using of_nat_Suc_nonzero [of "length kvs"] Cons.prems by simp
  with Cons.IH [of "set_int k v s"] Cons.prems show ?case
    by (simp add: kv set_ints_Cons fill_token count_list_distinct)
qed

lemma print_conf_c_str: "\<forall>kv\<in>set kvs. line_ok kv \<Longrightarrow> c_str (print_conf kvs) = print_conf kvs"
  using digit_or_minus [OF int_to_dec_chars]
  by (fastforce simp: c_str_def takeWhile_eq_all_conv print_conf_def print_line_def line_ok_def clean_name_def)

text \<open>
  \<open>loc_update_conf\<close> starts "with one record off": given one line for each parameter of the
  table it sets all but the last line's parameter, which keeps its value; so a table with a single
  parameter is never updated. It returns the number of lines it has read.\<close>

theorem update_conf_drops_last_line:
  assumes "distinct (map fst (kvs @ [(k, v)]))" "\<forall>kv\<in>set (kvs @ [(k, v)]). line_ok kv" "length kvs < 2 ^ 32"
    and "distinct ns" "set ns = set (map fst (kvs @ [(k, v)]))"
  shows "\<exists>s'. loc_update_conf (Some (print_conf (kvs @ [(k, v)]))) (length (print_conf (kvs @ [(k, v)]))) (number_table ns) s =
                Some (int (length kvs), s') \<and>
              ints s' k = ints s k \<and> (\<forall>(j, u)\<in>set kvs. sint (ints s' j) = u)"
proof -
  let ?t = "print_conf (kvs @ [(k, v)])"
  have n: "length ns = Suc (length kvs)"
    using assms(1,4,5) distinct_card [of ns] distinct_card [of "map fst (kvs @ [(k, v)])"] by simp
  then have t: "number_table ns \<noteq> []" "?t \<noteq> []" by (auto simp: number_table_def print_conf_def print_line_def)
  have "(of_nat (length (number_table ns)) :: 32 word) - 1 = of_nat (length kvs)" by (simp add: number_table_def n)
  then have "loc_update_conf (Some ?t) (length ?t) (number_table ns) s = Some (int (length kvs), set_ints kvs s)"
    using assms t update_loop_tokens [of ns kvs "[k @ CHR ''='' # int_to_dec v]" s]
    by (auto simp: loc_update_conf_def print_conf_c_str line_tokens_print Let_def)
  moreover have "ints (set_ints kvs s) k = ints s k" using assms(1) by (simp add: set_ints_other)
  moreover have "sint (ints (set_ints kvs s) j) = u" if "(j, u) \<in> set kvs" for j u
    using assms(1,2) that set_ints_value [of kvs j u s]
    by (auto simp: line_ok_def int32_range_def sint_sbintrunc' signed_take_bit_int_eq_self)
  ultimately show ?thesis by blast
qed

theorem update_conf_drops_last_line_witness:
  "\<exists>s'. loc_update_conf (Some (print_conf ([(''A'', 5)] @ [(''B'', 6)])))
          (length (print_conf ([(''A'', 5)] @ [(''B'', 6)]))) (number_table [''A'', ''B'']) no_store = Some (int 1, s') \<and>
        ints s' ''B'' = ints no_store ''B'' \<and> (\<forall>(j, u)\<in>set [(''A'', 5)]. sint (ints s' j) = u)"
  using update_conf_drops_last_line [of "[(''A'', 5)]" "''B''" 6 "[''A'', ''B'']" no_store]
  by (simp add: line_simps)

section \<open>Lines the buffer cuts\<close>

lemma take_line_full: "nl \<notin> set p \<Longrightarrow> length p = n \<Longrightarrow> take_line n (p @ r) = (p, r)"
  by (induction p arbitrary: n) auto

lemma fill_no_equals:
  assumes "CHR ''='' \<notin> set p"
  shows "loc_fill_conf_item p table s = (0, s)"
proof -
  have e: "CHR ''='' \<notin> set (c_str p)" using assms by (metis c_str_def set_takeWhileD)
  then have d: "dropWhile (\<lambda>c. c = CHR ''='') (c_str p) = c_str p" by (intro dropWhile_none) auto
  from e have t: "takeWhile (\<lambda>c. c \<noteq> CHR ''='') (c_str p) = c_str p" by (auto simp: takeWhile_eq_all_conv)
  show ?thesis by (simp add: loc_fill_conf_item_def Let_def d t)
qed

text \<open>
  The reader takes a line of more than 251 characters in pieces, and each piece counts as a
  line: a parameter that follows 251 characters of a comment takes effect.
\<close>

theorem long_comment_tail_takes_effect:
  assumes "length p = LOC_MAX_PARAM_LINE - 1" "nl \<notin> set p" "CHR ''='' \<notin> set p" "line_ok (k, v)"
  shows "\<exists>s'. loc_read_conf_r (Some (p @ print_line (k, v) @ r)) (number_table [k]) s = (0, Some r, s') \<and> sint (ints s' k) = v"
proof -
  have ne: "p \<noteq> []" using assms(1) by (auto simp: LOC_MAX_PARAM_LINE_def)
  have "fgets LOC_MAX_PARAM_LINE (p @ print_line (k, v) @ r) = Some (p, print_line (k, v) @ r)"
    using take_line_full [OF assms(2,1), of "print_line (k, v) @ r"] ne by (simp add: fgets_def)
  then have "read_loop 1 (number_table [k]) (p @ print_line (k, v) @ r) s =
               read_loop 1 (number_table [k]) (print_line (k, v) @ r) s"
    by (subst read_loop.simps) (simp add: fill_no_equals [OF assms(3)])
  also have "\<dots> = read_loop 0 (number_table [k]) r (set_int k v s)"
    using read_loop_line [OF assms(4), of 1 "[k]" r s] by simp
  finally have "loc_read_conf_r (Some (p @ print_line (k, v) @ r)) (number_table [k]) s = (0, Some r, set_int k v s)"
    using clear_no_flags [of "[k]" s] by (simp add: loc_read_conf_r_def read_loop_stop number_table_def)
  then show ?thesis
    using assms(4) by (simp add: set_int_def line_ok_def int32_range_def sint_sbintrunc' signed_take_bit_int_eq_self)
qed

theorem long_comment_tail_takes_effect_witness:
  "\<exists>s'. loc_read_conf_r (Some (replicate 251 (CHR ''#'') @ print_line (''B'', 3) @ [])) (number_table [''B'']) no_store =
          (0, Some [], s') \<and> sint (ints s' ''B'') = 3"
  by (rule long_comment_tail_takes_effect) (simp_all add: line_simps)

text \<open>
  A string parameter with nothing after its equals sign is not set to the empty string but to
  the newline that ends its line, because \<open>loc_util_trim_space\<close> leaves a text of blanks alone;
  a parameter with a text is set to the text, cut to 171 characters, and \<open>NULL\<close> to the empty string.
\<close>

theorem string_parameter_values:
  assumes "clean_name n" "x \<noteq> []" "\<forall>c\<in>set x. \<not> is_space c \<and> c \<noteq> CHR 0x00"
  shows "strs (snd (loc_fill_conf_item (n @ CHR ''='' # [nl]) [string_entry n v] s)) v = [nl] \<and>
         strs (snd (loc_fill_conf_item (n @ CHR ''='' # x @ [nl]) [string_entry n v] s)) v =
           (if x = ''NULL'' then [] else take 171 x)"
proof -
  have b: "loc_util_trim_space [nl] = [nl]" by (simp add: loc_util_trim_space_def)
  have t: "loc_util_trim_space (x @ [nl]) = x"
    using assms(2,3) trim_blank_end [of x] hd_in_set [of x] unfolding loc_util_trim_space_def
    by (metis UnCI set_append)
  have set1: "strs (snd (set_entries [string_entry n v] (parse_value n y) s)) v =
                (if y = ''NULL'' then [] else take 171 y)" for y
    by (simp add: string_entry_def loc_set_config_entry_def set_flag_def parse_value_def
        strlcpy_def LOC_MAX_PARAM_STRING_def)
  have "\<And>c. c \<in> set (x @ [nl]) \<Longrightarrow> c \<noteq> CHR 0x00" using assms(3) by auto
  then have f: "loc_fill_conf_item (n @ CHR ''='' # x @ [nl]) [string_entry n v] s =
                  set_entries [string_entry n v] (parse_value n x) s"
    using fill_line [OF assms(1), of "x @ [nl]"] by (simp only: t) simp
  have g: "loc_fill_conf_item (n @ CHR ''='' # [nl]) [string_entry n v] s =
             set_entries [string_entry n v] (parse_value n [nl]) s"
    using fill_line [OF assms(1), of "[nl]" "[string_entry n v]" s] by (simp add: b)
  show ?thesis unfolding f g set1 by simp
qed

theorem string_parameter_values_witness:
  "strs (snd (loc_fill_conf_item (''A'' @ CHR ''='' # [nl]) [string_entry ''A'' ''a''] no_store)) ''a'' = [nl]"
  using string_parameter_values [of "''A''" "''x''"] by (simp add: clean_name_def is_space_def)

text \<open>
  On a user build (the property \<open>ro.build.type\<close> is read once) no configuration file raises the
  level of the log above 2, and the log buffer is on exactly when the file last read or an earlier
  one has switched it on.
\<close>

theorem user_build_log_level:
  assumes "build_type_prop g = BUILD_TYPE_PROP_USER \<or>
           build_type_prop g = BUILD_TYPE_PROP_NA \<and> prop_get d ''ro.build.type'' ''userdebug'' = ''user''"
  shows "DEBUG_LEVEL (snd (loc_read_conf d name table (s, g))) \<le> 2 \<and>
         build_type_prop (snd (loc_read_conf d name table (s, g))) = BUILD_TYPE_PROP_USER \<and>
         (LOG_BUFFER_ENABLE (snd (loc_read_conf d name table (s, g))) \<longleftrightarrow>
            ints (fst (loc_read_conf d name table (s, g))) ''sLogBufferEnabled'' \<noteq> 0)"
  using assms by (auto simp: loc_read_conf_def log_buffer_init_def loc_logger_init_def Let_def)

definition quiet_logger :: loc_logger where
  "quiet_logger = \<lparr>DEBUG_LEVEL = 0, TIMESTAMP = 0, LOG_BUFFER_ENABLE = False, build_type_prop = BUILD_TYPE_PROP_USER\<rparr>"

theorem user_build_log_level_witness:
  "DEBUG_LEVEL (snd (loc_read_conf example_device ''/vendor/etc/gps.conf'' []
     (no_store\<lparr>ints := \<lambda>_. 5\<rparr>, quiet_logger))) \<le> 2"
  using user_build_log_level [of quiet_logger example_device "''/vendor/etc/gps.conf''" "[]" "no_store\<lparr>ints := \<lambda>_. 5\<rparr>"]
  by (simp add: quiet_logger_def)

end
