(* ===== verification/LocLaunch.thy ===== *)
theory LocLaunch
  imports LocCfgProps
begin

unbundle bit_operations_syntax

text \<open>
  The list of processes to launch: \<open>loc_read_process_conf\<close> of \<open>src/gps/utils/loc_cfg.cpp\<close>. The fields
  of the static \<open>conf\<close> are variables of the \<open>conf_store\<close>, so that a process whose block leaves a
  parameter out sees the value of an earlier one, and \<open>loc_util_split_string\<close> leaves only the first
  word in the string it has split. \<open>getgrnam\<close> is an argument.
\<close>

section \<open>Tables\<close>

definition MAX_NUM_STRINGS :: nat where "MAX_NUM_STRINGS = 20"
definition LOC_PROCESS_MAX_NUM_ARGS :: nat where "LOC_PROCESS_MAX_NUM_ARGS = 25"
definition LOC_PROCESS_MAX_ARG_STR_LENGTH :: nat where "LOC_PROCESS_MAX_ARG_STR_LENGTH = 32"
definition LOC_PATH_GPS_CONF :: string where "LOC_PATH_GPS_CONF = ''/vendor/etc/gps.conf''"

definition CONFIG_MASK_TARGET_ALL :: "8 word" where "CONFIG_MASK_TARGET_ALL = 0x01"
definition CONFIG_MASK_TARGET_FOUND :: "8 word" where "CONFIG_MASK_TARGET_FOUND = 0x02"
definition CONFIG_MASK_TARGET_CHECK :: "8 word" where "CONFIG_MASK_TARGET_CHECK = 0x03"
definition CONFIG_MASK_BASEBAND_ALL :: "8 word" where "CONFIG_MASK_BASEBAND_ALL = 0x04"
definition CONFIG_MASK_BASEBAND_FOUND :: "8 word" where "CONFIG_MASK_BASEBAND_FOUND = 0x08"
definition CONFIG_MASK_BASEBAND_CHECK :: "8 word" where "CONFIG_MASK_BASEBAND_CHECK = 0x0c"
definition CONFIG_MASK_AUTOPLATFORM_ALL :: "8 word" where "CONFIG_MASK_AUTOPLATFORM_ALL = 0x10"
definition CONFIG_MASK_AUTOPLATFORM_FOUND :: "8 word" where "CONFIG_MASK_AUTOPLATFORM_FOUND = 0x20"
definition CONFIG_MASK_AUTOPLATFORM_CHECK :: "8 word" where "CONFIG_MASK_AUTOPLATFORM_CHECK = 0x30"
definition CONFIG_MASK_SOCID_ALL :: "8 word" where "CONFIG_MASK_SOCID_ALL = 0x40"
definition CONFIG_MASK_SOCID_FOUND :: "8 word" where "CONFIG_MASK_SOCID_FOUND = 0x80"
definition CONFIG_MASK_SOCID_CHECK :: "8 word" where "CONFIG_MASK_SOCID_CHECK = 0xc0"

lemmas config_masks =
  CONFIG_MASK_TARGET_ALL_def CONFIG_MASK_TARGET_FOUND_def CONFIG_MASK_TARGET_CHECK_def
  CONFIG_MASK_BASEBAND_ALL_def CONFIG_MASK_BASEBAND_FOUND_def CONFIG_MASK_BASEBAND_CHECK_def
  CONFIG_MASK_AUTOPLATFORM_ALL_def CONFIG_MASK_AUTOPLATFORM_FOUND_def CONFIG_MASK_AUTOPLATFORM_CHECK_def
  CONFIG_MASK_SOCID_ALL_def CONFIG_MASK_SOCID_FOUND_def CONFIG_MASK_SOCID_CHECK_def

definition LOC_FEATURE_MASK_GTP_WIFI_BASIC :: "32 word" where "LOC_FEATURE_MASK_GTP_WIFI_BASIC = 0x01"
definition LOC_FEATURE_MASK_GTP_WIFI_PREMIUM :: "32 word" where "LOC_FEATURE_MASK_GTP_WIFI_PREMIUM = 0x02"
definition LOC_FEATURE_MASK_GTP_CELL_BASIC :: "32 word" where "LOC_FEATURE_MASK_GTP_CELL_BASIC = 0x04"
definition LOC_FEATURE_MASK_GTP_CELL_PREMIUM :: "32 word" where "LOC_FEATURE_MASK_GTP_CELL_PREMIUM = 0x08"
definition LOC_FEATURE_MASK_SAP_BASIC :: "32 word" where "LOC_FEATURE_MASK_SAP_BASIC = 0x40"
definition LOC_FEATURE_MASK_SAP_PREMIUM :: "32 word" where "LOC_FEATURE_MASK_SAP_PREMIUM = 0x80"
definition LOC_FEATURE_MASK_GTP_WAA_BASIC :: "32 word" where "LOC_FEATURE_MASK_GTP_WAA_BASIC = 0x100"
definition LOC_FEATURE_MASK_GTP_MODEM_CELL_BASIC :: "32 word" where "LOC_FEATURE_MASK_GTP_MODEM_CELL_BASIC = 0x400"
definition LOC_FEATURE_MASK_ODCPI :: "32 word" where "LOC_FEATURE_MASK_ODCPI = 0x1000"
definition LOC_FEATURE_MASK_FREE_WIFI_SCAN_INJECT :: "32 word" where "LOC_FEATURE_MASK_FREE_WIFI_SCAN_INJECT = 0x2000"
definition LOC_FEATURE_MASK_SUPL_WIFI :: "32 word" where "LOC_FEATURE_MASK_SUPL_WIFI = 0x4000"
definition LOC_FEATURE_MASK_WIFI_SUPPLICANT_INFO :: "32 word" where "LOC_FEATURE_MASK_WIFI_SUPPLICANT_INFO = 0x8000"

definition gps_conf_parameter_table :: "conf_entry list" where
  "gps_conf_parameter_table = [number_entry ''SGLTE_TARGET'' ''sglte_target'']"

definition loc_feature_conf_table :: "conf_entry list" where
  "loc_feature_conf_table =
     [string_entry ''GTP_MODE'' ''feature_gtp_mode'', string_entry ''GTP_WAA'' ''feature_gtp_waa'',
      string_entry ''SAP'' ''feature_sap'', string_entry ''ODCPI'' ''feature_odcpi'',
      string_entry ''FREE_WIFI_SCAN_INJECT'' ''feature_free_wifi_scan_inject'',
      string_entry ''SUPL_WIFI'' ''feature_supl_wifi'',
      string_entry ''WIFI_SUPPLICANT_INFO'' ''feature_wifi_supplicant_info'']"

definition loc_process_conf_parameter_table :: "conf_entry list" where
  "loc_process_conf_parameter_table =
     [string_entry ''PROCESS_NAME'' ''proc_name'', string_entry ''PROCESS_ARGUMENT'' ''proc_argument'',
      string_entry ''PROCESS_STATE'' ''proc_status'', string_entry ''PROCESS_GROUPS'' ''group_list'',
      number_entry ''PREMIUM_FEATURE'' ''premium_feature'', number_entry ''IZAT_FEATURE_MASK'' ''loc_feature_mask'',
      string_entry ''PLATFORMS'' ''platform_list'', string_entry ''SOC_IDS'' ''soc_id_list'',
      string_entry ''BASEBAND'' ''baseband'', string_entry ''LOW_RAM_TARGETS'' ''low_ram_targets'',
      string_entry ''HARDWARE_TYPE'' ''auto_platform'',
      number_entry ''VENDOR_ENHANCED_PROCESS'' ''vendor_enhanced_process'']"

section \<open>The service mask\<close>

definition gtp_mode_mask :: "string \<Rightarrow> 32 word" where
  "gtp_mode_mask v =
     (if v = ''DISABLED'' then 0
      else if v = ''LEGACY_WWAN'' then LOC_FEATURE_MASK_GTP_MODEM_CELL_BASIC
      else if v = ''SDK'' then LOC_FEATURE_MASK_GTP_WIFI_BASIC
      else if v = ''SDK_WIFI'' then LOC_FEATURE_MASK_GTP_WIFI_BASIC
      else 0)"

definition gtp_waa_mask :: "string \<Rightarrow> 32 word" where
  "gtp_waa_mask v = (if v = ''BASIC'' then LOC_FEATURE_MASK_GTP_WAA_BASIC else 0)"

definition sap_mask :: "string \<Rightarrow> 32 word" where
  "sap_mask v =
     (if v = ''PREMIUM'' \<or> v = ''PREMIUM_ENV_AIDING'' then LOC_FEATURE_MASK_SAP_PREMIUM
      else if v = ''BASIC'' then LOC_FEATURE_MASK_SAP_BASIC
      else if v = ''MODEM_DEFAULT'' then LOC_FEATURE_MASK_SAP_BASIC
      else if v = ''DISABLED'' then 0
      else LOC_FEATURE_MASK_SAP_BASIC)"

definition on_off_mask :: "32 word \<Rightarrow> string \<Rightarrow> 32 word" where
  "on_off_mask m v = (if v = ''BASIC'' then m else if v = ''DISABLED'' then 0 else if v = ''PREMIUM'' then m else 0)"

definition loc_service_mask :: "conf_store \<Rightarrow> 32 word" where
  "loc_service_mask s =
     gtp_mode_mask (strs s ''feature_gtp_mode'') OR gtp_waa_mask (strs s ''feature_gtp_waa'') OR
     sap_mask (strs s ''feature_sap'') OR
     on_off_mask LOC_FEATURE_MASK_ODCPI (strs s ''feature_odcpi'') OR
     on_off_mask LOC_FEATURE_MASK_FREE_WIFI_SCAN_INJECT (strs s ''feature_free_wifi_scan_inject'') OR
     on_off_mask LOC_FEATURE_MASK_SUPL_WIFI (strs s ''feature_supl_wifi'') OR
     on_off_mask LOC_FEATURE_MASK_WIFI_SUPPLICANT_INFO (strs s ''feature_wifi_supplicant_info'')"

section \<open>One process\<close>

datatype process_status = ENABLED | RUNNING | DISABLED | DISABLED_FROM_CONF | DISABLED_VIA_VENDOR_ENHANCED_CHECK

record process_info =
  proc_status :: process_status
  proc_name :: string
  group_list :: "32 word list"
  args :: "string list"
  argument_string :: string

definition new_process_info :: process_info where
  "new_process_info = \<lparr>proc_status = DISABLED, proc_name = [], group_list = [], args = [], argument_string = []\<rparr>"

record launch_env =
  platform_name :: string
  baseband_name :: string
  autoplatform_name :: string
  socid_value :: string
  low_ram_target :: bool
  vendor_enhanced :: bool
  getgrnam :: "string \<Rightarrow> 32 word option"

definition split_conf :: "string \<Rightarrow> conf_store \<Rightarrow> string list \<times> conf_store" where
  "split_conf var s =
     (let ws = loc_util_split_string (strs s var) MAX_NUM_STRINGS (CHR '' '')
      in (ws, s\<lparr>strs := (strs s)(var := hd ws)\<rparr>))"

definition list_mask :: "8 word \<Rightarrow> 8 word \<Rightarrow> (string \<Rightarrow> bool) \<Rightarrow> string \<Rightarrow> string list \<Rightarrow> 8 word" where
  "list_mask all_bit found_bit accepts this ws =
     (if hd ws = ''all'' then
        (if length ws = 1 \<or> length ws = 2 \<and> ws ! 1 = ''exclude'' then all_bit
         else if 2 < length ws \<and> ws ! 1 = ''exclude'' then (if this \<in> set (drop 2 ws) then 0 else found_bit)
         else 0)
      else if \<exists>w\<in>set ws. accepts w then found_bit else 0)"

definition auto_mask :: "string \<Rightarrow> string list \<Rightarrow> 8 word" where
  "auto_mask this ws =
     (if hd ws = ''all'' then CONFIG_MASK_AUTOPLATFORM_ALL
      else if this \<in> set ws then CONFIG_MASK_AUTOPLATFORM_FOUND else 0)"

definition mode_args :: "string \<Rightarrow> 32 word \<Rightarrow> (32 word \<times> string) list \<Rightarrow> string list" where
  "mode_args name service modes =
     [''--'' @ name, (case find (\<lambda>(m, _). service AND m \<noteq> 0) modes of None \<Rightarrow> ''DISABLED'' | Some (_, v) \<Rightarrow> v)]"

definition premium_args :: "32 word \<Rightarrow> 32 word \<Rightarrow> string list" where
  "premium_args feature service =
     (if feature AND (LOC_FEATURE_MASK_GTP_WIFI_BASIC OR LOC_FEATURE_MASK_GTP_WIFI_PREMIUM) \<noteq> 0
      then mode_args ''gtp-wifi'' service
             [(LOC_FEATURE_MASK_GTP_WIFI_BASIC, ''BASIC''), (LOC_FEATURE_MASK_GTP_WIFI_PREMIUM, ''PREMIUM'')] else []) @
     (if feature AND (LOC_FEATURE_MASK_GTP_CELL_BASIC OR LOC_FEATURE_MASK_GTP_CELL_PREMIUM) \<noteq> 0
      then mode_args ''gtp-modem-cell'' service [(LOC_FEATURE_MASK_GTP_MODEM_CELL_BASIC, ''BASIC'')] else []) @
     (if feature AND (LOC_FEATURE_MASK_SAP_BASIC OR LOC_FEATURE_MASK_SAP_PREMIUM) \<noteq> 0
      then mode_args ''sap'' service
             [(LOC_FEATURE_MASK_SAP_BASIC, ''BASIC''), (LOC_FEATURE_MASK_SAP_PREMIUM, ''PREMIUM'')] else []) @
     (if feature AND LOC_FEATURE_MASK_GTP_WAA_BASIC \<noteq> 0
      then mode_args ''gtp-waa'' service [(LOC_FEATURE_MASK_GTP_WAA_BASIC, ''BASIC'')] else [])"

text \<open>The text after the last \<open>/\<close> of an absolute path.\<close>

definition base_name :: "string \<Rightarrow> string" where
  "base_name n =
     (if n \<noteq> [] \<and> hd n = CHR ''/'' then rev (takeWhile (\<lambda>c. c \<noteq> CHR ''/'') (rev n)) else n)"

definition set_args :: "32 word \<Rightarrow> conf_store \<Rightarrow> process_info \<Rightarrow> process_info" where
  "set_args service s p =
     (let arg0 = strlcpy LOC_PROCESS_MAX_ARG_STR_LENGTH (base_name (proc_name p));
          feature = ints s ''loc_feature_mask'';
          premium = (ints s ''premium_feature'' \<noteq> 0);
          enabled = (\<not> premium \<or> feature AND service \<noteq> 0);
          p1 = p\<lparr>proc_status := if enabled then ENABLED else proc_status p,
                 args := arg0 # (if premium \<and> enabled then premium_args feature service else [])\<rparr>;
          more = strs s ''proc_argument''
      in if more = [] then p1
         else p1\<lparr>argument_string := strlcpy LOC_MAX_PARAM_STRING more,
                 args := args p1 @ map (strlcpy LOC_PROCESS_MAX_ARG_STR_LENGTH)
                   (loc_util_split_string (strlcpy LOC_MAX_PARAM_STRING more)
                     (LOC_PROCESS_MAX_NUM_ARGS - length (args p1)) (CHR '' ''))\<rparr>)"

definition missing_parameter :: "conf_store \<Rightarrow> bool" where
  "missing_parameter s \<longleftrightarrow>
     strs s ''proc_name'' = [] \<or> strs s ''group_list'' = [] \<or> strs s ''platform_list'' = [] \<or>
     strs s ''baseband'' = [] \<or> strs s ''proc_status'' = [] \<or> strs s ''auto_platform'' = [] \<or>
     strs s ''soc_id_list'' = []"

definition process_mask :: "launch_env \<Rightarrow> conf_store \<Rightarrow> string list \<Rightarrow> string list \<Rightarrow> string list \<Rightarrow> string list \<Rightarrow> 8 word" where
  "process_mask env s platforms socs basebands autos =
     list_mask CONFIG_MASK_TARGET_ALL CONFIG_MASK_TARGET_FOUND (\<lambda>w. platform_name env = w) (platform_name env) platforms OR
     list_mask CONFIG_MASK_SOCID_ALL CONFIG_MASK_SOCID_FOUND (\<lambda>w. socid_value env = w) (socid_value env) socs OR
     list_mask CONFIG_MASK_BASEBAND_ALL CONFIG_MASK_BASEBAND_FOUND
       (\<lambda>w. baseband_name env = w \<or> w = ''sglte'' \<and> ints s ''sglte_target'' \<noteq> 0) (baseband_name env) basebands OR
     auto_mask (autoplatform_name env) autos"

definition mask_complete :: "8 word \<Rightarrow> bool" where
  "mask_complete m \<longleftrightarrow>
     m AND CONFIG_MASK_TARGET_CHECK \<noteq> 0 \<and> m AND CONFIG_MASK_BASEBAND_CHECK \<noteq> 0 \<and>
     m AND CONFIG_MASK_AUTOPLATFORM_CHECK \<noteq> 0 \<and> m AND CONFIG_MASK_SOCID_CHECK \<noteq> 0"

definition process_entry :: "launch_env \<Rightarrow> 32 word \<Rightarrow> conf_store \<Rightarrow> process_info \<times> conf_store" where
  "process_entry env service s =
     (let name = strs s ''proc_name''; p = new_process_info in
      if missing_parameter s then (p, s)
      else if \<not> vendor_enhanced env \<and> ints s ''vendor_enhanced_process'' \<noteq> 0
      then (p\<lparr>proc_status := DISABLED_VIA_VENDOR_ENHANCED_CHECK\<rparr>, s)
      else if strs s ''proc_status'' = ''DISABLED'' then (p\<lparr>proc_status := DISABLED_FROM_CONF\<rparr>, s)
      else if LOC_MAX_PARAM_STRING < length name + 1 then (p, s)
      else
        let (groups, s1) = split_conf ''group_list'' s;
            p1 = p\<lparr>proc_name := strlcpy LOC_MAX_PARAM_STRING name, group_list := List.map_filter (getgrnam env) groups\<rparr>;
            (platforms, s2) = split_conf ''platform_list'' s1;
            (socs, s3) = split_conf ''soc_id_list'' s2;
            (basebands, s4) = split_conf ''baseband'' s3;
            (autos, s5) = split_conf ''auto_platform'' s4;
            (low_ram, s6) = split_conf ''low_ram_targets'' s5
        in if hd low_ram = ''DISABLED'' \<and> low_ram_target env then (p1, s6)
           else if mask_complete (process_mask env s platforms socs basebands autos)
           then (set_args service s6 p1, s6)
           else (p1, s6))"

section \<open>The file\<close>

lemma read_loop_length: "length (fst (read_loop n table file s)) \<le> length file"
proof (induction n table "file" s rule: read_loop.induct)
  case (1 n table "file" s)
  show ?case
  proof (cases "n = 0 \<or> fgets LOC_MAX_PARAM_LINE file = None")
    case True
    then show ?thesis by (subst read_loop.simps) auto
  next
    case False
    then obtain l r where f: "fgets LOC_MAX_PARAM_LINE file = Some (l, r)" by auto
    then have "length r < length file"
      using fgets_shorter [of 250 "file" l r] by (simp add: LOC_MAX_PARAM_LINE_def)
    moreover obtain k s1 where i: "loc_fill_conf_item l table s = (k, s1)" by fastforce
    ultimately show ?thesis
      using 1 [OF _ f refl i [symmetric] refl] False by (subst read_loop.simps) (simp add: f i)
  qed
qed

lemma read_loop_same:
  "length (fst (read_loop n table file s)) = length file \<Longrightarrow> snd (read_loop n table file s) = s"
proof -
  assume a: "length (fst (read_loop n table file s)) = length file"
  show ?thesis
  proof (cases "n = 0 \<or> fgets LOC_MAX_PARAM_LINE file = None")
    case True
    then show ?thesis by (subst read_loop.simps) auto
  next
    case False
    then obtain l r where f: "fgets LOC_MAX_PARAM_LINE file = Some (l, r)" by auto
    then have "length r < length file"
      using fgets_shorter [of 250 "file" l r] by (simp add: LOC_MAX_PARAM_LINE_def)
    moreover obtain k s1 where i: "loc_fill_conf_item l table s = (k, s1)" by fastforce
    ultimately show ?thesis
      using a False read_loop_length [of "n - of_nat k" table r s1]
      by (subst (asm) read_loop.simps) (simp add: f i)
  qed
qed

text \<open>The loop that counts the processes, in an \<open>unsigned char\<close>.\<close>

definition clear_name :: "conf_store \<Rightarrow> conf_store" where
  "clear_name s = s\<lparr>strs := (strs s)(''proc_name'' := [])\<rparr>"

definition read_names :: "string \<Rightarrow> conf_store \<Rightarrow> string \<times> conf_store" where
  "read_names txt0 s =
     (case loc_read_conf_r (Some txt0) (take 1 loc_process_conf_parameter_table) (clear_name s) of
        (_, rest, s1) \<Rightarrow> (case rest of None \<Rightarrow> ([], s1) | Some r \<Rightarrow> (r, s1)))"

lemma read_names_shorter:
  "read_names t s = (r, s1) \<Longrightarrow> strs s1 ''proc_name'' \<noteq> [] \<Longrightarrow> length r < length t"
proof (rule ccontr)
  define T where "T = take 1 loc_process_conf_parameter_table"
  assume a: "read_names t s = (r, s1)" and n: "strs s1 ''proc_name'' \<noteq> []" and l: "\<not> length r < length t"
  have e: "fold (\<lambda>e. set_flag (param_set e) False) T (clear_name s) = clear_name s"
    by (simp add: T_def loc_process_conf_parameter_table_def string_entry_def set_flag_def)
  have loop: "read_loop (of_nat (length T)) T t (clear_name s) = (r, s1)"
    using a unfolding read_names_def loc_read_conf_r_def T_def [symmetric] by (auto simp: e Let_def split: prod.splits)
  with l read_loop_length [of "of_nat (length T)" T t "clear_name s"] have "length r = length t" by simp
  with loop read_loop_same [of "of_nat (length T)" T t "clear_name s"] have "s1 = clear_name s" by simp
  with n show False by (simp add: clear_name_def)
qed

function count_processes :: "8 word \<Rightarrow> string \<Rightarrow> conf_store \<Rightarrow> 8 word \<times> conf_store" where
  "count_processes k t s =
     (let (r, s1) = read_names t s
      in if strs s1 ''proc_name'' = [] then (k, s1) else count_processes (k + 1) r s1)"
  by pat_completeness auto
termination
  by (relation "measure (\<lambda>(_, t, _). length t)") (auto split: prod.splits dest: read_names_shorter)

declare count_processes.simps [simp del]

fun read_processes :: "nat \<Rightarrow> launch_env \<Rightarrow> 32 word \<Rightarrow> string \<Rightarrow> conf_store \<Rightarrow> process_info list \<times> conf_store" where
  "read_processes 0 env service t s = ([], s)"
| "read_processes (Suc n) env service t s =
     (case loc_read_conf_r (Some t) loc_process_conf_parameter_table s of
        (_, rest, s1) \<Rightarrow>
          (let (p, s2) = process_entry env service s1;
               (ps, s3) = read_processes n env service (case rest of None \<Rightarrow> [] | Some r \<Rightarrow> r) s2
           in (p # ps, s3)))"

definition launch_env_of :: "device \<Rightarrow> bool \<Rightarrow> (string \<Rightarrow> 32 word option) \<Rightarrow> launch_env option" where
  "launch_env_of d vendor groups =
     map_option (\<lambda>soc. \<lparr>platform_name = loc_get_platform_name d, baseband_name = loc_get_target_baseband d,
        autoplatform_name = loc_get_auto_platform_name d, socid_value = soc,
        low_ram_target = loc_identify_low_ram_target d, vendor_enhanced = vendor, getgrnam = groups\<rparr>)
       (loc_get_device_soc_id d PROPERTY_VALUE_MAX)"

definition loc_read_process_conf ::
  "device \<Rightarrow> bool \<Rightarrow> (string \<Rightarrow> 32 word option) \<Rightarrow> string \<Rightarrow> conf_store \<times> loc_logger \<Rightarrow>
   (int \<times> process_info list \<times> conf_store \<times> loc_logger) option" where
  "loc_read_process_conf d vendor groups conf_file_name sg =
     (let sg1 = loc_read_conf d LOC_PATH_GPS_CONF gps_conf_parameter_table sg in
      Option.bind (launch_env_of d vendor groups) (\<lambda>env.
        let (s, g) = loc_read_conf d conf_file_name loc_feature_conf_table sg1;
            service = loc_service_mask s
        in Some (case file_text d conf_file_name of
            None \<Rightarrow> (-1, [], s, g)
          | Some t \<Rightarrow>
              (let (k, s1) = count_processes 0 t s;
                   (ps, s2) = read_processes (unat k) env service t s1
               in (0, ps, s2, g)))))"

section \<open>When a process is enabled\<close>

definition accepted :: "(string \<Rightarrow> bool) \<Rightarrow> string \<Rightarrow> string list \<Rightarrow> bool" where
  "accepted accepts this ws \<longleftrightarrow>
     (if hd ws = ''all''
      then length ws = 1 \<or> 2 \<le> length ws \<and> ws ! 1 = ''exclude'' \<and> this \<notin> set (drop 2 ws)
      else \<exists>w\<in>set ws. accepts w)"

definition words_of :: "string \<Rightarrow> string list" where
  "words_of t = loc_util_split_string t MAX_NUM_STRINGS (CHR '' '')"

lemma split_at_char_nonempty: "split_at_char d t \<noteq> []"
  by (induction t) (auto split: list.splits)

lemma split_conf_words: "split_conf v s = (words_of (strs s v), s\<lparr>strs := (strs s)(v := hd (words_of (strs s v)))\<rparr>)"
  by (simp add: split_conf_def words_of_def Let_def)

lemma split_conf_parts [simp]:
  "fst (split_conf v s) = words_of (strs s v)"
  "strs (snd (split_conf u s)) v = (if v = u then hd (words_of (strs s u)) else strs s v)"
  "ints (snd (split_conf u s)) = ints s"
  by (simp_all add: split_conf_words)

lemma list_mask_values:
  "list_mask a f acc this ws = a \<or> list_mask a f acc this ws = f \<or> list_mask a f acc this ws = 0"
  by (simp add: list_mask_def)

lemma list_mask_nonzero:
  "a \<noteq> 0 \<Longrightarrow> f \<noteq> 0 \<Longrightarrow> list_mask a f acc this ws \<noteq> 0 \<longleftrightarrow> accepted acc this ws"
  by (auto simp: list_mask_def accepted_def)

lemma mask_complete_split:
  assumes "t \<in> {0x01, 0x02, 0}" "c \<in> {0x40, 0x80, 0}" "b \<in> {0x04, 0x08, 0}" "a \<in> {0x10, 0x20, 0}"
  shows "mask_complete (t OR c OR b OR a) \<longleftrightarrow> t \<noteq> 0 \<and> c \<noteq> 0 \<and> b \<noteq> 0 \<and> a \<noteq> 0"
proof -
  have "t AND 3 = t" "t AND 12 = 0" "t AND 48 = 0" "t AND 192 = 0" using assms(1) by auto
  moreover have "c AND 3 = 0" "c AND 12 = 0" "c AND 48 = 0" "c AND 192 = c" using assms(2) by auto
  moreover have "b AND 3 = 0" "b AND 12 = b" "b AND 48 = 0" "b AND 192 = 0" using assms(3) by auto
  moreover have "a AND 3 = 0" "a AND 12 = 0" "a AND 48 = a" "a AND 192 = 0" using assms(4) by auto
  ultimately show ?thesis
    unfolding mask_complete_def config_masks bit.conj_disj_distrib2 by (simp add: conj_ac)
qed

lemma process_mask_complete:
  "mask_complete (process_mask env s ps cs bs as) \<longleftrightarrow>
     accepted (\<lambda>w. platform_name env = w) (platform_name env) ps \<and>
     accepted (\<lambda>w. socid_value env = w) (socid_value env) cs \<and>
     accepted (\<lambda>w. baseband_name env = w \<or> w = ''sglte'' \<and> ints s ''sglte_target'' \<noteq> 0) (baseband_name env) bs \<and>
     (hd as = ''all'' \<or> autoplatform_name env \<in> set as)"
proof -
  let ?t = "list_mask CONFIG_MASK_TARGET_ALL CONFIG_MASK_TARGET_FOUND (\<lambda>w. platform_name env = w) (platform_name env) ps"
  let ?c = "list_mask CONFIG_MASK_SOCID_ALL CONFIG_MASK_SOCID_FOUND (\<lambda>w. socid_value env = w) (socid_value env) cs"
  let ?b = "list_mask CONFIG_MASK_BASEBAND_ALL CONFIG_MASK_BASEBAND_FOUND
       (\<lambda>w. baseband_name env = w \<or> w = ''sglte'' \<and> ints s ''sglte_target'' \<noteq> 0) (baseband_name env) bs"
  have "?t \<in> {0x01, 0x02, 0}" "?c \<in> {0x40, 0x80, 0}" "?b \<in> {0x04, 0x08, 0}"
    using list_mask_values by (simp_all add: config_masks)
  moreover have "auto_mask (autoplatform_name env) as \<in> {0x10, 0x20, 0}" by (simp add: auto_mask_def config_masks)
  ultimately have "mask_complete (process_mask env s ps cs bs as) \<longleftrightarrow>
      ?t \<noteq> 0 \<and> ?c \<noteq> 0 \<and> ?b \<noteq> 0 \<and> auto_mask (autoplatform_name env) as \<noteq> 0"
    unfolding process_mask_def by (rule mask_complete_split)
  then show ?thesis by (simp add: list_mask_nonzero auto_mask_def config_masks)
qed

lemma set_args_status:
  "proc_status (set_args service s p) = ENABLED \<longleftrightarrow>
     proc_status p = ENABLED \<or> ints s ''premium_feature'' = 0 \<or> ints s ''loc_feature_mask'' AND service \<noteq> 0"
  by (auto simp: set_args_def Let_def)

definition wanted_here :: "launch_env \<Rightarrow> conf_store \<Rightarrow> bool" where
  "wanted_here env s \<longleftrightarrow>
     accepted (\<lambda>w. platform_name env = w) (platform_name env) (words_of (strs s ''platform_list'')) \<and>
     accepted (\<lambda>w. socid_value env = w) (socid_value env) (words_of (strs s ''soc_id_list'')) \<and>
     accepted (\<lambda>w. baseband_name env = w \<or> w = ''sglte'' \<and> ints s ''sglte_target'' \<noteq> 0)
       (baseband_name env) (words_of (strs s ''baseband'')) \<and>
     (hd (words_of (strs s ''auto_platform'')) = ''all'' \<or>
      autoplatform_name env \<in> set (words_of (strs s ''auto_platform''))) \<and>
     \<not> (hd (words_of (strs s ''low_ram_targets'')) = ''DISABLED'' \<and> low_ram_target env)"

definition conf_complete :: "launch_env \<Rightarrow> conf_store \<Rightarrow> bool" where
  "conf_complete env s \<longleftrightarrow>
     \<not> missing_parameter s \<and> (vendor_enhanced env \<or> ints s ''vendor_enhanced_process'' = 0) \<and>
     strs s ''proc_status'' \<noteq> ''DISABLED'' \<and> length (strs s ''proc_name'') < LOC_MAX_PARAM_STRING"

lemma process_entry_conf_complete:
  assumes "conf_complete env s"
  shows "\<exists>p s'. process_entry env service s = (if wanted_here env s then set_args service s' p else p, s') \<and>
           proc_status p = DISABLED \<and> ints s' = ints s \<and>
           strs s' ''platform_list'' = hd (words_of (strs s ''platform_list'')) \<and>
           proc_name p = strs s ''proc_name''"
proof -
  have n: "\<not> LOC_MAX_PARAM_STRING < length (strs s ''proc_name'') + 1"
    "strlcpy LOC_MAX_PARAM_STRING (strs s ''proc_name'') = strs s ''proc_name''"
    using assms by (auto simp: conf_complete_def strlcpy_def)
  have m: "\<not> missing_parameter s" and v: "\<not> (\<not> vendor_enhanced env \<and> ints s ''vendor_enhanced_process'' \<noteq> 0)"
    and d: "\<not> strs s ''proc_status'' = ''DISABLED''"
    using assms by (auto simp: conf_complete_def)
  define p where "p = new_process_info\<lparr>proc_name := strs s ''proc_name'',
      group_list := List.map_filter (getgrnam env) (words_of (strs s ''group_list''))\<rparr>"
  define s' where "s' = snd (split_conf ''low_ram_targets'' (snd (split_conf ''auto_platform'' (snd (split_conf ''baseband''
     (snd (split_conf ''soc_id_list'' (snd (split_conf ''platform_list'' (snd (split_conf ''group_list'' s)))))))))))"
  have "process_entry env service s = (if wanted_here env s then set_args service s' p else p, s')"
    unfolding process_entry_def Let_def case_prod_beta if_not_P [OF m] if_not_P [OF v]
      if_not_P [OF d] if_not_P [OF n(1)] n(2) process_mask_complete wanted_here_def
    by (simp add: s'_def [symmetric] p_def [symmetric]) blast
  moreover have "proc_status p = DISABLED \<and> proc_name p = strs s ''proc_name''"
    by (simp add: p_def new_process_info_def)
  moreover have "ints s' = ints s" by (simp add: s'_def)
  moreover have "strs s' ''platform_list'' = hd (words_of (strs s ''platform_list''))"
    by (simp add: s'_def)
  ultimately show ?thesis by blast
qed

lemma process_entry_not_conf_complete:
  "\<not> conf_complete env s \<Longrightarrow> length (strs s ''proc_name'') < LOC_MAX_PARAM_STRING \<Longrightarrow>
   proc_status (fst (process_entry env service s)) \<noteq> ENABLED"
  by (auto simp: process_entry_def conf_complete_def new_process_info_def Let_def)

text \<open>
  C30. A process is decided by what the shared \<open>conf\<close> variables hold at the end of its block: what
  the block names and, since they are never cleared, for what it leaves out the value an earlier block
  left there. If the name fits its buffer, the process is enabled exactly when they give every required
  parameter, the vendor enhancement and the process state allow it, the lists of platforms, SoC ids,
  basebands and hardware types accept the device, it is not held back on a low-RAM target, and, for a
  premium feature, its feature mask meets the service mask.\<close>

theorem process_enabled_iff:
  assumes "length (strs s ''proc_name'') < LOC_MAX_PARAM_STRING"
  shows "proc_status (fst (process_entry env service s)) = ENABLED \<longleftrightarrow>
           conf_complete env s \<and> wanted_here env s \<and>
           (ints s ''premium_feature'' = 0 \<or> ints s ''loc_feature_mask'' AND service \<noteq> 0)"
proof (cases "conf_complete env s")
  case True
  then obtain p s' where e: "process_entry env service s = (if wanted_here env s then set_args service s' p else p, s')"
    and p: "proc_status p = DISABLED" and i: "ints s' = ints s"
    using process_entry_conf_complete by blast
  show ?thesis using True by (simp add: e p i set_args_status)
next
  case False
  then show ?thesis using process_entry_not_conf_complete assms by blast
qed

definition example_env :: launch_env where
  "example_env = \<lparr>platform_name = ''msmnile'', baseband_name = ''msm'', autoplatform_name = [],
     socid_value = ''339'', low_ram_target = False, vendor_enhanced = True, getgrnam = (\<lambda>g. if g = ''gps'' then Some 1021 else None)\<rparr>"

definition example_conf :: conf_store where
  "example_conf = no_store\<lparr>strs := (\<lambda>_. [])
     (''proc_name'' := ''/vendor/bin/lowi-server'', ''proc_status'' := ''ENABLED'', ''group_list'' := ''gps net_raw'',
      ''platform_list'' := ''all exclude msm8996'', ''soc_id_list'' := ''all'', ''baseband'' := ''all'', ''auto_platform'' := ''all'')\<rparr>"

lemmas example_conf_simps =
  example_env_def example_conf_def no_store_def conf_complete_def missing_parameter_def wanted_here_def
  accepted_def words_of_def loc_util_split_string_def MAX_NUM_STRINGS_def LOC_MAX_PARAM_STRING_def

theorem process_enabled_iff_witness:
  "proc_status (fst (process_entry example_env 0 example_conf)) = ENABLED"
  using process_enabled_iff [of example_conf example_env 0]
  by (simp add: example_conf_simps)

text \<open>
  A list that excludes platforms is in force for one process only: splitting it leaves the
  word \<open>all\<close> in the shared \<open>conf\<close>, so that a later block that leaves \<open>PLATFORMS\<close> out, and with it
  means to inherit the list, is accepted on every platform.
\<close>

theorem inherited_exclusion_is_lost:
  assumes "conf_complete env s" "strs s ''platform_list'' = ''all exclude '' @ x"
  shows "strs (snd (process_entry env service s)) ''platform_list'' = ''all'' \<and>
         accepted (\<lambda>w. p = w) p (words_of (strs (snd (process_entry env service s)) ''platform_list''))"
proof -
  obtain q s' where "process_entry env service s = (if wanted_here env s then set_args service s' q else q, s')"
    "strs s' ''platform_list'' = hd (words_of (strs s ''platform_list''))"
    using process_entry_conf_complete [OF assms(1)] by blast
  moreover obtain w ws where "split_at_char (CHR '' '') x = w # ws"
    using split_at_char_nonempty [of _ x] by (meson neq_Nil_conv)
  then have "hd (words_of (''all exclude '' @ x)) = ''all''"
    by (simp add: words_of_def loc_util_split_string_def MAX_NUM_STRINGS_def numeral_eq_Suc)
  ultimately have "strs (snd (process_entry env service s)) ''platform_list'' = ''all''" by (simp add: assms(2))
  then show ?thesis
    by (simp add: accepted_def words_of_def loc_util_split_string_def MAX_NUM_STRINGS_def numeral_eq_Suc)
qed

theorem inherited_exclusion_is_lost_witness:
  "strs (snd (process_entry example_env 0 example_conf)) ''platform_list'' = ''all''"
  using inherited_exclusion_is_lost [of example_env example_conf "''msm8996''" 0]
  by (simp add: example_conf_simps)

section \<open>Lines of text\<close>

definition text_ok :: "string \<times> string \<Rightarrow> bool" where
  "text_ok kv \<longleftrightarrow> clean_name (fst kv) \<and> snd kv \<noteq> [] \<and> snd kv \<noteq> ''NULL'' \<and>
     (\<forall>c\<in>set (snd kv). \<not> is_space c \<and> c \<noteq> CHR 0x00) \<and>
     length (fst kv) + length (snd kv) + 2 < LOC_MAX_PARAM_LINE"

definition text_line :: "string \<times> string \<Rightarrow> string" where
  "text_line kv = fst kv @ CHR ''='' # snd kv @ [nl]"

definition text_file :: "(string \<times> string) list \<Rightarrow> string" where
  "text_file kvs = concat (map text_line kvs)"

definition set_text :: "conf_entry list \<Rightarrow> string \<times> string \<Rightarrow> conf_store \<Rightarrow> conf_store" where
  "set_text table kv s = snd (set_entries table (parse_value (fst kv) (snd kv)) s)"

definition entry_ok :: "conf_entry \<Rightarrow> bool" where
  "entry_ok e \<longleftrightarrow> param_ptr e \<noteq> None \<and> param_type e \<in> {CHR ''s'', CHR ''n'', CHR ''f''}"

lemma fill_text_line:
  assumes "text_ok kv"
  shows "loc_fill_conf_item (text_line kv) table s = set_entries table (parse_value (fst kv) (snd kv)) s"
proof -
  have t: "loc_util_trim_space (snd kv @ [nl]) = snd kv"
    using assms trim_blank_end [of "snd kv"] hd_in_set [of "snd kv"] unfolding loc_util_trim_space_def text_ok_def
    by (metis UnCI set_append)
  have "\<And>c. c \<in> set (snd kv @ [nl]) \<Longrightarrow> c \<noteq> CHR 0x00" using assms by (auto simp: text_ok_def)
  with fill_line [of "fst kv" "snd kv @ [nl]" table s] assms show ?thesis
    unfolding text_line_def t by (simp add: text_ok_def)
qed

lemma fgets_text_line: "text_ok kv \<Longrightarrow> fgets LOC_MAX_PARAM_LINE (text_line kv @ r) = Some (text_line kv, r)"
proof -
  assume a: "text_ok kv"
  let ?l = "fst kv @ CHR ''='' # snd kv"
  have "nl \<notin> set (snd kv)" using a space_nl unfolding text_ok_def by blast
  moreover have "nl \<notin> set (fst kv)" using a clean_name_no_nl by (simp add: text_ok_def)
  ultimately have "nl \<notin> set ?l" by simp
  moreover have "length ?l < LOC_MAX_PARAM_LINE - 1" using a by (simp add: text_ok_def LOC_MAX_PARAM_LINE_def)
  ultimately show ?thesis
    using take_line_whole [of ?l "LOC_MAX_PARAM_LINE - 1" r] by (simp add: fgets_def text_line_def)
qed

lemma set_config_entry_ok:
  "entry_ok e \<Longrightarrow> fst (loc_set_config_entry e v s) = (if param_name e = v_name v then 0 else -1)"
  by (auto simp: entry_ok_def loc_set_config_entry_def)

lemma set_config_entry_other: "param_name e \<noteq> v_name v \<Longrightarrow> loc_set_config_entry e v s = (-1, s)"
  by (simp add: loc_set_config_entry_def)

lemma set_entries_other: "v_name v \<notin> param_name ` set table \<Longrightarrow> set_entries table v s = (0, s)"
  by (induction table) (auto simp: set_config_entry_other Let_def)

lemma set_entries_count:
  "\<forall>e\<in>set table. entry_ok e \<Longrightarrow> fst (set_entries table v s) = count_list (map param_name table) (v_name v)"
proof (induction table arbitrary: s)
  case (Cons e table)
  obtain r s1 where e: "loc_set_config_entry e v s = (r, s1)" by fastforce
  with set_config_entry_ok [of e v s] Cons.prems have "r = (if param_name e = v_name v then 0 else -1)" by simp
  with Cons.IH [of s1] Cons.prems show ?case by (auto simp: e Let_def split: prod.splits)
qed simp

lemma parse_value_name [simp]: "v_name (parse_value n x) = n"
  by (simp add: parse_value_def)

lemma read_loop_text_line:
  assumes "text_ok kv" "n \<noteq> 0" "\<forall>e\<in>set table. entry_ok e"
  shows "read_loop n table (text_line kv @ r) s =
           read_loop (n - of_nat (count_list (map param_name table) (fst kv))) table r (set_text table kv s)"
proof -
  obtain c s1 where e: "set_entries table (parse_value (fst kv) (snd kv)) s = (c, s1)" by fastforce
  then have "c = count_list (map param_name table) (fst kv)" "s1 = set_text table kv s"
    using set_entries_count [OF assms(3), of "parse_value (fst kv) (snd kv)" s] by (simp_all add: set_text_def)
  then show ?thesis
    using assms(1,2) by (subst read_loop.simps) (simp add: fgets_text_line fill_text_line e)
qed

lemma read_loop_text:
  "distinct (map param_name table) \<Longrightarrow> \<forall>e\<in>set table. entry_ok e \<Longrightarrow>
   \<forall>kv\<in>set kvs. text_ok kv \<and> fst kv \<in> param_name ` set table \<Longrightarrow> length kvs < 2 ^ 32 \<Longrightarrow>
   read_loop (of_nat (length kvs)) table (text_file kvs @ r) s = (r, fold (set_text table) kvs s)"
proof (induction kvs arbitrary: s)
  case Nil
  then show ?case by (simp add: text_file_def read_loop_stop)
next
  case (Cons kv kvs)
  have nz: "(of_nat (length (kv # kvs)) :: 32 word) \<noteq> 0"
    using of_nat_Suc_nonzero [of "length kvs"] Cons.prems by simp
  have "count_list (map param_name table) (fst kv) = 1" using Cons.prems by (intro count_list_distinct) auto
  then have "read_loop (of_nat (length (kv # kvs))) table (text_line kv @ text_file kvs @ r) s =
               read_loop (of_nat (length kvs)) table (text_file kvs @ r) (set_text table kv s)"
    using read_loop_text_line [OF _ nz Cons.prems(2), of kv] Cons.prems by simp
  moreover have "text_file (kv # kvs) @ r = text_line kv @ text_file kvs @ r" by (simp add: text_file_def)
  ultimately show ?case using Cons.IH [of "set_text table kv s"] Cons.prems by simp
qed

lemma process_table_ok:
  "distinct (map param_name loc_process_conf_parameter_table)"
  "\<forall>e\<in>set loc_process_conf_parameter_table. entry_ok e"
  "length loc_process_conf_parameter_table = 12"
  by (simp_all add: loc_process_conf_parameter_table_def string_entry_def number_entry_def entry_ok_def)

section \<open>Counting and reading the blocks\<close>

definition name_line :: "string \<times> string \<Rightarrow> bool" where
  "name_line kv \<longleftrightarrow> fst kv = ''PROCESS_NAME''"

abbreviation name_table :: "conf_entry list" where
  "name_table \<equiv> [string_entry ''PROCESS_NAME'' ''proc_name'']"

lemma name_table_is: "take 1 loc_process_conf_parameter_table = name_table"
  by (simp add: loc_process_conf_parameter_table_def)

lemma set_text_name:
  "text_ok kv \<Longrightarrow>
   set_text name_table kv s = (if name_line kv then s\<lparr>strs := (strs s)(''proc_name'' := take 171 (snd kv))\<rparr> else s)"
  by (simp add: set_text_def name_line_def string_entry_def loc_set_config_entry_def set_flag_def text_ok_def
      parse_value_def strlcpy_def LOC_MAX_PARAM_STRING_def)

lemma read_names_file:
  assumes "\<forall>kv\<in>set kvs. text_ok kv"
  shows "\<exists>s1. read_names (text_file kvs) s =
     (case dropWhile (\<lambda>kv. \<not> name_line kv) kvs of [] \<Rightarrow> [] | _ # rest \<Rightarrow> text_file rest, s1) \<and>
     (strs s1 ''proc_name'' = [] \<longleftrightarrow> \<not> (\<exists>kv\<in>set kvs. name_line kv))"
proof -
  have clear: "fold (\<lambda>e. set_flag (param_set e) False) name_table s0 = s0" for s0
    by (simp add: string_entry_def set_flag_def)
  have loop: "\<exists>s1. read_loop 1 name_table (text_file kvs) s0 =
       (case dropWhile (\<lambda>kv. \<not> name_line kv) kvs of [] \<Rightarrow> [] | _ # rest \<Rightarrow> text_file rest, s1) \<and>
     (strs s1 ''proc_name'' = [] \<longleftrightarrow> \<not> (\<exists>kv\<in>set kvs. name_line kv))"
    if "strs s0 ''proc_name'' = []" for s0
    using assms that
  proof (induction kvs)
    case Nil
    then show ?case by (subst read_loop.simps) (simp add: text_file_def fgets_def)
  next
    case (Cons kv kvs)
    have "read_loop 1 name_table (text_line kv @ text_file kvs) s0 =
            read_loop (1 - of_nat (count_list [''PROCESS_NAME''] (fst kv))) name_table (text_file kvs) (set_text name_table kv s0)"
      using read_loop_text_line [of kv 1 name_table "text_file kvs" s0] Cons.prems
      by (simp add: string_entry_def entry_ok_def)
    then have step: "read_loop 1 name_table (text_file (kv # kvs)) s0 =
                 (if name_line kv then (text_file kvs, set_text name_table kv s0) else read_loop 1 name_table (text_file kvs) s0)"
      using Cons.prems by (simp add: text_file_def name_line_def read_loop_stop set_text_name)
    show ?case
    proof (cases "name_line kv")
      case True
      then show ?thesis using step Cons.prems by (simp add: set_text_name text_ok_def)
    next
      case False
      then show ?thesis using step Cons by simp
    qed
  qed
  obtain s1 where r: "read_loop 1 name_table (text_file kvs) (clear_name s) =
       (case dropWhile (\<lambda>kv. \<not> name_line kv) kvs of [] \<Rightarrow> [] | _ # rest \<Rightarrow> text_file rest, s1)"
    and n: "strs s1 ''proc_name'' = [] \<longleftrightarrow> \<not> (\<exists>kv\<in>set kvs. name_line kv)"
    using loop [of "clear_name s"] by (auto simp: clear_name_def)
  have "read_names (text_file kvs) s = (case dropWhile (\<lambda>kv. \<not> name_line kv) kvs of [] \<Rightarrow> [] | _ # rest \<Rightarrow> text_file rest, s1)"
    unfolding read_names_def name_table_is loc_read_conf_r_def option.case clear
    by (simp add: r)
  with n show ?thesis by blast
qed

lemma count_processes_file:
  "\<forall>kv\<in>set kvs. text_ok kv \<Longrightarrow>
   fst (count_processes k (text_file kvs) s) = k + of_nat (length (filter name_line kvs))"
proof (induction "length kvs" arbitrary: kvs k s rule: less_induct)
  case less
  obtain s1 where r: "read_names (text_file kvs) s =
       (case dropWhile (\<lambda>kv. \<not> name_line kv) kvs of [] \<Rightarrow> [] | _ # rest \<Rightarrow> text_file rest, s1)"
    and n: "strs s1 ''proc_name'' = [] \<longleftrightarrow> \<not> (\<exists>kv\<in>set kvs. name_line kv)"
    using read_names_file [OF less.prems] by blast
  show ?case
  proof (cases "dropWhile (\<lambda>kv. \<not> name_line kv) kvs")
    case Nil
    then have none: "\<not> (\<exists>kv\<in>set kvs. name_line kv)" by (simp add: dropWhile_eq_Nil_conv)
    then have "filter name_line kvs = []" by (simp add: filter_empty_conv)
    then show ?thesis using r n none by (subst count_processes.simps) simp
  next
    case (Cons kv rest)
    have kv: "name_line kv" using hd_dropWhile [of "\<lambda>kv. \<not> name_line kv" kvs] Cons by simp
    have split: "kvs = takeWhile (\<lambda>kv. \<not> name_line kv) kvs @ kv # rest"
      using takeWhile_dropWhile_id [of "\<lambda>kv. \<not> name_line kv" kvs] Cons by simp
    have front: "filter name_line (takeWhile (\<lambda>kv. \<not> name_line kv) kvs) = []"
      by (auto simp: filter_empty_conv dest: set_takeWhileD)
    have m: "length (filter name_line kvs) = Suc (length (filter name_line rest))"
      by (subst split) (simp add: front kv)
    have some: "\<exists>kv\<in>set kvs. name_line kv" using kv by (subst split) auto
    have "length rest < length kvs" using arg_cong [OF split, of length] by simp
    moreover have "\<forall>kv\<in>set rest. text_ok kv" using less.prems by (subst (asm) split) simp
    ultimately have "fst (count_processes (k + 1) (text_file rest) s1) = k + 1 + of_nat (length (filter name_line rest))"
      by (rule less.hyps)
    then show ?thesis using r n some Cons by (subst count_processes.simps) (simp add: m)
  qed
qed

lemma read_processes_length: "length (fst (read_processes n env service t s)) = n"
  by (induction n env service t s rule: read_processes.induct) (auto simp: Let_def split: prod.splits)

text \<open>
  \<open>loc_read_process_conf\<close> returns one entry for each line of the file that names a process, but
  it counts them in an \<open>unsigned char\<close>: the number of entries is the number of names modulo 256.\<close>

theorem process_count_wraps:
  assumes "file_text d f = Some (text_file kvs)" "\<forall>kv\<in>set kvs. text_ok kv"
    and "loc_read_process_conf d vendor groups f sg = Some (ret, ps, sg')"
  shows "ret = 0 \<and> length ps = length (filter name_line kvs) mod 256"
proof -
  obtain env where e: "launch_env_of d vendor groups = Some env"
    using assms(3) by (auto simp: loc_read_process_conf_def bind_eq_Some_conv Let_def)
  obtain s g where
    s: "loc_read_conf d f loc_feature_conf_table (loc_read_conf d LOC_PATH_GPS_CONF gps_conf_parameter_table sg) = (s, g)"
    by fastforce
  obtain k s1 where c: "count_processes 0 (text_file kvs) s = (k, s1)" by fastforce
  obtain ps' s2 where r: "read_processes (unat k) env (loc_service_mask s) (text_file kvs) s1 = (ps', s2)" by fastforce
  have "k = of_nat (length (filter name_line kvs))"
    using count_processes_file [OF assms(2), of 0 s] by (simp add: c)
  then have "unat k = length (filter name_line kvs) mod 256" by (simp add: unat_of_nat)
  moreover have "length ps' = unat k" using read_processes_length [of "unat k" env _ "text_file kvs" s1] r by (metis fst_conv)
  moreover have "loc_read_process_conf d vendor groups f sg = Some (0, ps', s2, g)"
    unfolding loc_read_process_conf_def Let_def by (simp add: e s c r assms(1))
  ultimately show ?thesis using assms(3) by simp
qed

definition launch_device :: "string \<Rightarrow> device" where
  "launch_device t = example_device\<lparr>file_text := (file_text example_device)(''/vendor/etc/izat.conf'' := Some t)\<rparr>"

lemma launch_device_returns:
  "\<exists>r. loc_read_process_conf (launch_device t) True (\<lambda>_. None) ''/vendor/etc/izat.conf'' sg = Some r"
  by (simp add: loc_read_process_conf_def launch_env_of_def loc_get_device_soc_id_def read_a_line_def fgets_def
      launch_device_def example_device_def c_str_def PROPERTY_VALUE_MAX_def numeral_eq_Suc Let_def split_def)

theorem process_count_wraps_witness:
  "\<exists>sg'. loc_read_process_conf (launch_device (text_file (replicate 256 (''PROCESS_NAME'', ''a'')))) True (\<lambda>_. None)
     ''/vendor/etc/izat.conf'' (no_store, quiet_logger) = Some (0, [], sg')"
proof -
  let ?kvs = "replicate 256 (''PROCESS_NAME'', ''a'')"
  obtain ret ps sg' where r: "loc_read_process_conf (launch_device (text_file ?kvs)) True (\<lambda>_. None)
     ''/vendor/etc/izat.conf'' (no_store, quiet_logger) = Some (ret, ps, sg')"
    using launch_device_returns by (metis prod_cases3)
  have "ret = 0 \<and> length ps = length (filter name_line ?kvs) mod 256"
    by (rule process_count_wraps [OF _ _ r])
      (simp_all add: launch_device_def text_ok_def clean_name_def is_space_def LOC_MAX_PARAM_LINE_def)
  with r show ?thesis by (simp add: name_line_def)
qed

text \<open>
  The blocks are read by number of lines, not by names: a block that leaves one of the twelve
  parameters out is completed by the next block's first line, so that the process gets the name
  of the next one, and the next block is read without its name.
\<close>

theorem short_block_takes_next_name:
  assumes "length block = 11" "\<forall>kv\<in>set block. text_ok kv \<and> fst kv \<in> param_name ` set loc_process_conf_parameter_table"
    and "text_ok (''PROCESS_NAME'', nxt)"
  shows "\<exists>s'. loc_read_conf_r (Some (text_file (block @ (''PROCESS_NAME'', nxt) # rest))) loc_process_conf_parameter_table s =
                (0, Some (text_file rest), s') \<and> strs s' ''proc_name'' = take 171 nxt"
proof -
  let ?T = loc_process_conf_parameter_table
  let ?kvs = "block @ [(''PROCESS_NAME'', nxt)]"
  have clear: "fold (\<lambda>e. set_flag (param_set e) False) ?T s = s"
    by (simp add: loc_process_conf_parameter_table_def string_entry_def number_entry_def set_flag_def)
  have "''PROCESS_NAME'' \<in> param_name ` set ?T" by (simp add: loc_process_conf_parameter_table_def string_entry_def)
  then have "read_loop (of_nat (length ?kvs)) ?T (text_file ?kvs @ text_file rest) s =
               (text_file rest, fold (set_text ?T) ?kvs s)"
    using assms by (intro read_loop_text process_table_ok) auto
  moreover have "text_file (block @ (''PROCESS_NAME'', nxt) # rest) = text_file ?kvs @ text_file rest"
    by (simp add: text_file_def)
  ultimately have "loc_read_conf_r (Some (text_file (block @ (''PROCESS_NAME'', nxt) # rest))) ?T s =
                     (0, Some (text_file rest), fold (set_text ?T) ?kvs s)"
    using assms(1) by (simp add: loc_read_conf_r_def clear process_table_ok Let_def)
  moreover have "strs (set_text ?T (''PROCESS_NAME'', nxt) s0) ''proc_name'' = take 171 nxt" for s0
    using assms(3) by (simp add: set_text_def loc_process_conf_parameter_table_def string_entry_def number_entry_def
        loc_set_config_entry_def set_flag_def text_ok_def parse_value_def strlcpy_def LOC_MAX_PARAM_STRING_def)
  ultimately show ?thesis by simp
qed

definition example_block :: "(string \<times> string) list" where
  "example_block = [(''PROCESS_NAME'', ''first''), (''PROCESS_STATE'', ''ENABLED''), (''PROCESS_GROUPS'', ''gps''),
     (''PROCESS_ARGUMENT'', ''-a''), (''PREMIUM_FEATURE'', ''0''), (''IZAT_FEATURE_MASK'', ''0''), (''PLATFORMS'', ''all''),
     (''SOC_IDS'', ''all''), (''BASEBAND'', ''all''), (''LOW_RAM_TARGETS'', ''ENABLED''), (''HARDWARE_TYPE'', ''all'')]"

theorem short_block_takes_next_name_witness:
  "\<exists>s'. loc_read_conf_r (Some (text_file (example_block @ [(''PROCESS_NAME'', ''second'')]))) loc_process_conf_parameter_table no_store =
          (0, Some (text_file []), s') \<and> strs s' ''proc_name'' = ''second''"
  using short_block_takes_next_name [of example_block "''second''" "[]" no_store]
  by (simp add: example_block_def text_ok_def clean_name_def is_space_def LOC_MAX_PARAM_LINE_def
      loc_process_conf_parameter_table_def string_entry_def number_entry_def)

end
