(* ===== verification/SkipList.thy ===== *)
theory SkipList
  imports QueueContract
begin

text \<open>
  The skip list of \<open>src/gps/utils/SkipList.h\<close>: one \<open>std::list\<close> of nodes in order of
  arrival, and for every level a chain through it with its head and tail iterators. A node of
  the list keeps its address while it is in the list; an iterator is the address of its node, and
  \<open>end()\<close> is None. Following an iterator to a node that was erased, or indexing the
  vectors of heads and tails out of range, is undefined, None.
\<close>

record 'a skip_node =
  mLevel :: int
  mData :: 'a
  mNextInLevel :: ptr

record 'a skip_list =
  mMainList :: "(addr \<times> 'a skip_node) list"
  mHeadVec :: "ptr list"
  mTailVec :: "ptr list"
  next_node :: addr

definition new_skip_list :: "nat \<Rightarrow> 'a skip_list" where
  "new_skip_list totalLevels =
     \<lparr>mMainList = [], mHeadVec = replicate totalLevels None, mTailVec = replicate totalLevels None,
      next_node = 0\<rparr>"

definition level_ok :: "int \<Rightarrow> 'a skip_list \<Rightarrow> bool" where
  "level_ok level s \<longleftrightarrow> 0 \<le> level \<and> level < int (length (mHeadVec s))"

definition link_to :: "addr \<Rightarrow> ptr \<Rightarrow> addr \<times> 'a skip_node \<Rightarrow> addr \<times> 'a skip_node" where
  "link_to a q x = (fst x, if fst x = a then (snd x)\<lparr>mNextInLevel := q\<rparr> else snd x)"

definition set_next :: "ptr \<Rightarrow> ptr \<Rightarrow> 'a skip_list \<Rightarrow> 'a skip_list option" where
  "set_next p q s =
     do { a \<leftarrow> p;
          n \<leftarrow> map_of (mMainList s) a;
          Some (s\<lparr>mMainList := map (link_to a q) (mMainList s)\<rparr>) }"

definition append_data :: "'a \<Rightarrow> int \<Rightarrow> 'a skip_list \<Rightarrow> 'a skip_list option" where
  "append_data data level s =
     (if \<not> level_ok level s then Some s
      else
        (let l = nat level; a = next_node s;
             node = \<lparr>mLevel = level, mData = data, mNextInLevel = None\<rparr>;
             s1 = s\<lparr>mMainList := mMainList s @ [(a, node)], next_node := a + 1\<rparr>
         in do { s2 \<leftarrow> (if mHeadVec s1 ! l = None then Some (s1\<lparr>mHeadVec := (mHeadVec s1)[l := Some a]\<rparr>)
                        else set_next (mTailVec s1 ! l) (Some a) s1);
                 Some (s2\<lparr>mTailVec := (mTailVec s2)[l := Some a]\<rparr>) }))"

definition pop_level :: "int \<Rightarrow> 'a skip_list \<Rightarrow> 'a skip_list option" where
  "pop_level level s =
     (if \<not> level_ok level s then None
      else case mHeadVec s ! nat level of
          None \<Rightarrow> Some s
        | Some a \<Rightarrow>
            do { n \<leftarrow> map_of (mMainList s) a;
                 let s1 = (if mNextInLevel n = None then s\<lparr>mTailVec := (mTailVec s)[nat level := None]\<rparr> else s);
                 let s2 = s1\<lparr>mMainList := filter (\<lambda>(b, _). b \<noteq> a) (mMainList s1)\<rparr>;
                 Some (s2\<lparr>mHeadVec := (mHeadVec s2)[nat level := mNextInLevel n]\<rparr>) })"

definition pop :: "'a skip_list \<Rightarrow> 'a skip_list option" where
  "pop s = (case mMainList s of [] \<Rightarrow> None | (_, n) # _ \<Rightarrow> pop_level (mLevel n) s)"

definition front :: "int \<Rightarrow> 'a skip_list \<Rightarrow> 'a option" where
  "front level s =
     (if \<not> level_ok level s then None
      else do { a \<leftarrow> mHeadVec s ! nat level; n \<leftarrow> map_of (mMainList s) a; Some (mData n) })"

definition list_size :: "'a skip_list \<Rightarrow> nat" where
  "list_size s = length (mMainList s)"

definition flush :: "'a skip_list \<Rightarrow> 'a skip_list" where
  "flush s =
     s\<lparr>mMainList := [], mHeadVec := map (\<lambda>_. None) (mHeadVec s), mTailVec := map (\<lambda>_. None) (mTailVec s)\<rparr>"

definition item :: "addr \<times> 'a skip_node \<Rightarrow> 'a \<times> int" where
  "item x = (mData (snd x), mLevel (snd x))"

definition dump :: "'a skip_list \<Rightarrow> ('a \<times> int) list" where
  "dump s = map item (mMainList s)"

partial_function (option) dump_from :: "ptr \<Rightarrow> 'a skip_list \<Rightarrow> ('a \<times> int) list option" where
  "dump_from p s =
     (case p of
        None \<Rightarrow> Some []
      | Some a \<Rightarrow>
          do { n \<leftarrow> map_of (mMainList s) a;
               li \<leftarrow> dump_from (mNextInLevel n) s;
               Some (item (a, n) # li) })"

definition dump_level :: "int \<Rightarrow> 'a skip_list \<Rightarrow> ('a \<times> int) list option" where
  "dump_level level s = (if \<not> level_ok level s then None else dump_from (mHeadVec s ! nat level) s)"

section \<open>The chains\<close>

text \<open>The nodes of a level in order, and the iterators a chain must hold for them.\<close>

definition level_nodes :: "int \<Rightarrow> 'a skip_list \<Rightarrow> (addr \<times> 'a skip_node) list" where
  "level_nodes level s = filter (\<lambda>x. mLevel (snd x) = level) (mMainList s)"

definition first_of :: "(addr \<times> 'a skip_node) list \<Rightarrow> ptr" where
  "first_of xs = (case xs of [] \<Rightarrow> None | x # _ \<Rightarrow> Some (fst x))"

definition last_of :: "(addr \<times> 'a skip_node) list \<Rightarrow> ptr" where
  "last_of xs = (if xs = [] then None else Some (fst (List.last xs)))"

fun chained :: "(addr \<times> 'a skip_node) list \<Rightarrow> bool" where
  "chained [] = True"
| "chained (x # xs) \<longleftrightarrow> mNextInLevel (snd x) = first_of xs \<and> chained xs"

definition level_linked :: "int \<Rightarrow> 'a skip_list \<Rightarrow> bool" where
  "level_linked level s \<longleftrightarrow>
     chained (level_nodes level s) \<and> mHeadVec s ! nat level = first_of (level_nodes level s) \<and>
     mTailVec s ! nat level = last_of (level_nodes level s)"

definition skip_list_ok :: "'a skip_list \<Rightarrow> bool" where
  "skip_list_ok s \<longleftrightarrow>
     distinct (map fst (mMainList s)) \<and> (\<forall>x\<in>set (mMainList s). fst x < next_node s \<and> level_ok (mLevel (snd x)) s) \<and>
     length (mTailVec s) = length (mHeadVec s) \<and> (\<forall>level. level_ok level s \<longrightarrow> level_linked level s)"

lemma first_of_simps [simp]: "first_of [] = None" "first_of (x # xs) = Some (fst x)"
  by (simp_all add: first_of_def)

lemma last_of_simps [simp]: "last_of [] = None" "last_of (xs @ [x]) = Some (fst x)" "last_of [x] = Some (fst x)"
  by (simp_all add: last_of_def)

lemma first_of_None [simp]: "first_of xs = None \<longleftrightarrow> xs = []"
  by (cases xs) auto

lemma last_of_Cons: "last_of (x # xs) = (if xs = [] then Some (fst x) else last_of xs)"
  by (simp add: last_of_def)

lemma first_of_append: "first_of (xs @ ys) = (if xs = [] then first_of ys else first_of xs)"
  by (cases xs) auto

lemma chained_snoc:
  "chained (xs @ [(t, n), (a, m)]) \<longleftrightarrow>
     chained (xs @ [(t, n\<lparr>mNextInLevel := None\<rparr>)]) \<and> mNextInLevel n = Some a \<and> mNextInLevel m = None"
  by (induction xs) (auto simp: first_of_append)

lemma skip_list_okD:
  assumes "skip_list_ok s"
  shows "distinct (map fst (mMainList s))" "x \<in> set (mMainList s) \<Longrightarrow> fst x < next_node s"
    "x \<in> set (mMainList s) \<Longrightarrow> level_ok (mLevel (snd x)) s" "length (mTailVec s) = length (mHeadVec s)"
    "level_ok level s \<Longrightarrow> chained (level_nodes level s)"
    "level_ok level s \<Longrightarrow> mHeadVec s ! nat level = first_of (level_nodes level s)"
    "level_ok level s \<Longrightarrow> mTailVec s ! nat level = last_of (level_nodes level s)"
  using assms by (auto simp: skip_list_ok_def level_linked_def)

lemma level_nodes_in_main: "x \<in> set (level_nodes level s) \<Longrightarrow> x \<in> set (mMainList s) \<and> mLevel (snd x) = level"
  by (simp add: level_nodes_def)

lemma node_of_address:
  assumes "skip_list_ok s" "(a, n) \<in> set (mMainList s)"
  shows "map_of (mMainList s) a = Some n"
  using assms skip_list_okD(1) by (metis map_of_is_SomeI)

lemma new_skip_list_ok: "skip_list_ok (new_skip_list n)"
  by (auto simp: skip_list_ok_def new_skip_list_def level_linked_def level_nodes_def level_ok_def)

lemma flush_ok:
  assumes "skip_list_ok s"
  shows "skip_list_ok (flush s)" "dump (flush s) = []"
  using skip_list_okD(4) [OF assms]
  by (auto simp: skip_list_ok_def flush_def level_linked_def level_nodes_def level_ok_def dump_def)

section \<open>Appending\<close>

lemma link_to_simps [simp]:
  "fst (link_to a q x) = fst x" "mLevel (snd (link_to a q x)) = mLevel (snd x)" "item (link_to a q x) = item x"
  "fst x \<noteq> a \<Longrightarrow> link_to a q x = x"
  by (auto simp: link_to_def item_def)

lemma set_next_link:
  assumes "map_of (mMainList s) a = Some n"
  shows "set_next (Some a) q s = Some (s\<lparr>mMainList := map (link_to a q) (mMainList s)\<rparr>)"
  using assms by (simp add: set_next_def)

lemma filter_level_link: "filter (\<lambda>x. mLevel (snd x) = l) (map (link_to a q) xs) =
    map (link_to a q) (filter (\<lambda>x. mLevel (snd x) = l) xs)"
  by (induction xs) auto

lemma map_link_id: "a \<notin> fst ` set xs \<Longrightarrow> map (link_to a q) xs = xs"
  by (rule map_idI) (metis image_eqI link_to_simps(4))

lemma skip_list_ok_grown:
  assumes ok: "skip_list_ok s" and l: "level_ok level s"
    and addrs: "map fst (mMainList s') = map fst (mMainList s) @ [next_node s]"
    and levels: "mLevel ` snd ` set (mMainList s') \<subseteq> insert level (mLevel ` snd ` set (mMainList s))"
    and rest: "next_node s' = next_node s + 1" "length (mHeadVec s') = length (mHeadVec s)"
      "length (mTailVec s') = length (mTailVec s)" "\<And>l'. level_ok l' s' \<Longrightarrow> level_linked l' s'"
  shows "skip_list_ok s'"
proof -
  note d = skip_list_okD [OF ok]
  have old: "fst ` set (mMainList s) \<subseteq> {..<next_node s}" using d(2) by auto
  have new: "fst ` set (mMainList s') = insert (next_node s) (fst ` set (mMainList s))"
    using arg_cong [OF addrs, of set] by simp
  have "distinct (map fst (mMainList s'))" using old d(1) by (auto simp: addrs)
  moreover have "fst y < next_node s'" if "y \<in> set (mMainList s')" for y
  proof -
    have "fst y \<in> insert (next_node s) (fst ` set (mMainList s))" using that new by blast
    then show ?thesis using old rest(1) by auto
  qed
  moreover have "level_ok (mLevel (snd y)) s'" if "y \<in> set (mMainList s')" for y
  proof -
    have "mLevel (snd y) \<in> insert level (mLevel ` snd ` set (mMainList s))" using that levels by blast
    then show ?thesis using d(3) l rest(2) by (auto simp: level_ok_def)
  qed
  ultimately show ?thesis using rest d(4) by (simp add: skip_list_ok_def)
qed

lemma append_first:
  assumes ok: "skip_list_ok s" and l: "level_ok level s" and e: "level_nodes level s = []"
  shows "\<exists>s'. append_data x level s = Some s' \<and> skip_list_ok s' \<and> dump s' = dump s @ [(x, level)] \<and>
     length (mHeadVec s') = length (mHeadVec s)"
proof -
  note d = skip_list_okD [OF ok]
  define node where "node = \<lparr>mLevel = level, mData = x, mNextInLevel = None\<rparr>"
  define s' where "s' = s\<lparr>mMainList := mMainList s @ [(next_node s, node)], next_node := next_node s + 1,
     mHeadVec := (mHeadVec s)[nat level := Some (next_node s)], mTailVec := (mTailVec s)[nat level := Some (next_node s)]\<rparr>"
  have "append_data x level s = Some s'"
    using l d(6) [OF l] by (simp add: append_data_def s'_def node_def e Let_def)
  moreover have "level_linked l' s'" if l': "level_ok l' s'" for l'
  proof (cases "l' = level")
    case True
    have "level_nodes level s' = [(next_node s, node)]" using e by (simp add: level_nodes_def s'_def node_def)
    moreover have "nat level < length (mHeadVec s)" using l by (auto simp: level_ok_def)
    moreover have "nat level < length (mTailVec s)" using calculation(2) d(4) by simp
    ultimately show ?thesis unfolding level_linked_def using True by (simp add: s'_def node_def)
  next
    case False
    then have same: "level_nodes l' s' = level_nodes l' s" by (simp add: level_nodes_def s'_def node_def)
    have l1: "level_ok l' s" using l' by (simp add: s'_def level_ok_def)
    have "nat l' \<noteq> nat level" using False l l1 by (auto simp: level_ok_def)
    then have "mHeadVec s' ! nat l' = mHeadVec s ! nat l'" "mTailVec s' ! nat l' = mTailVec s ! nat l'"
      by (simp_all add: s'_def)
    then show ?thesis using d(5-7) [OF l1] by (simp add: level_linked_def same)
  qed
  then have "skip_list_ok s'"
    by (intro skip_list_ok_grown [OF ok l]) (auto simp: s'_def node_def)
  ultimately show ?thesis by (simp add: s'_def dump_def item_def node_def)
qed

lemma append_next:
  assumes ok: "skip_list_ok s" and l: "level_ok level s" and lv: "level_nodes level s = ys @ [(t, n)]"
  shows "\<exists>s'. append_data x level s = Some s' \<and> skip_list_ok s' \<and> dump s' = dump s @ [(x, level)] \<and>
     length (mHeadVec s') = length (mHeadVec s)"
proof -
  note d = skip_list_okD [OF ok]
  define a where "a = next_node s"
  define node where "node = \<lparr>mLevel = level, mData = x, mNextInLevel = None\<rparr>"
  define s' where "s' = s\<lparr>mMainList := map (link_to t (Some a)) (mMainList s) @ [(a, node)], next_node := a + 1,
     mTailVec := (mTailVec s)[nat level := Some a]\<rparr>"
  have t: "(t, n) \<in> set (mMainList s)" "mLevel n = level" using level_nodes_in_main [of "(t, n)" level s] lv by auto
  have old: "fst y \<noteq> a" if "y \<in> set (mMainList s)" for y using d(2) [OF that] by (simp add: a_def)
  then have ta: "t \<noteq> a" using t(1) by fastforce
  have map: "map_of (mMainList s @ [(a, node)]) t = Some n"
    using node_of_address [OF ok t(1)] by (simp add: map_add_Some_iff)
  obtain h where head: "mHeadVec s ! nat level = Some h"
    using d(6) [OF l] lv by (cases ys) auto
  have tail: "mTailVec s ! nat level = Some t" using d(7) [OF l] lv by simp
  have "append_data x level s = Some s'"
    using l head tail ta set_next_link [where s = "s\<lparr>mMainList := mMainList s @ [(a, node)], next_node := a + 1\<rparr>"] map
    by (simp add: append_data_def s'_def Let_def a_def [symmetric] node_def [symmetric])
  moreover have "level_linked l' s'" if l': "level_ok l' s'" for l'
  proof -
    have l1: "level_ok l' s" using l' by (simp add: s'_def level_ok_def)
    have nodes: "level_nodes l' s' =
        map (link_to t (Some a)) (level_nodes l' s) @ (if l' = level then [(a, node)] else [])"
      by (simp add: level_nodes_def s'_def filter_level_link node_def)
    show ?thesis
    proof (cases "l' = level")
      case True
      have "distinct (map fst (ys @ [(t, n)]))"
        using d(1) lv by (metis distinct_map_filter level_nodes_def)
      then have "map (link_to t (Some a)) ys = ys" by (intro map_link_id) auto
      then have nl: "level_nodes level s' = ys @ [(t, n\<lparr>mNextInLevel := Some a\<rparr>), (a, node)]"
        using nodes lv True by (simp add: link_to_def)
      have "chained (ys @ [(t, n)])" using d(5) [OF l] lv by simp
      then have "mNextInLevel n = None" by (induction ys) auto
      then have "n\<lparr>mNextInLevel := None\<rparr> = n" by (cases n) simp
      then have "chained (level_nodes level s')"
        using \<open>chained (ys @ [(t, n)])\<close> nl by (simp add: chained_snoc node_def)
      moreover have "mHeadVec s' ! nat level = first_of (level_nodes level s')"
        using d(6) [OF l] lv nl by (simp add: s'_def first_of_append)
      moreover have "nat level < length (mTailVec s)" using l d(4) by (auto simp: level_ok_def)
      ultimately show ?thesis using True nl last_of_simps(2) [of "ys @ [(t, n\<lparr>mNextInLevel := Some a\<rparr>)]" "(a, node)"]
        by (simp add: level_linked_def s'_def)
    next
      case False
      have "t \<notin> fst ` set (level_nodes l' s)"
      proof
        assume "t \<in> fst ` set (level_nodes l' s)"
        then obtain m where m: "(t, m) \<in> set (level_nodes l' s)" by force
        then have "(t, m) \<in> set (mMainList s)" "mLevel m = l'" using level_nodes_in_main [OF m] by auto
        then show False using t False node_of_address [OF ok] by (metis option.inject)
      qed
      then have same: "level_nodes l' s' = level_nodes l' s" using nodes False by (simp add: map_link_id)
      have "nat l' \<noteq> nat level" using False l l1 by (auto simp: level_ok_def)
      then have "mHeadVec s' ! nat l' = mHeadVec s ! nat l'" "mTailVec s' ! nat l' = mTailVec s ! nat l'"
        by (simp_all add: s'_def)
      then show ?thesis using d(5-7) [OF l1] by (simp add: level_linked_def same)
    qed
  qed
  then have "skip_list_ok s'"
  proof (rule skip_list_ok_grown [OF ok l, rotated 5])
    show "mLevel ` snd ` set (mMainList s') \<subseteq> insert level (mLevel ` snd ` set (mMainList s))"
      by (simp add: s'_def node_def image_image)
  qed (simp_all add: s'_def a_def)
  moreover have "dump s' = dump s @ [(x, level)]"
    by (simp add: s'_def dump_def comp_def) (simp add: item_def node_def)
  ultimately show ?thesis by (auto simp: s'_def)
qed

lemma append_outside: "\<not> level_ok level s \<Longrightarrow> append_data x level s = Some s"
  by (simp add: append_data_def)

lemma append_inside:
  assumes "skip_list_ok s" "level_ok level s"
  obtains s' where "append_data x level s = Some s'" "skip_list_ok s'" "dump s' = dump s @ [(x, level)]"
    "length (mHeadVec s') = length (mHeadVec s)"
proof (cases "level_nodes level s" rule: rev_cases)
  case Nil
  with append_first [OF assms] that show thesis by blast
next
  case (snoc ys y)
  with append_next [OF assms, of ys "fst y" "snd y"] that show thesis by auto
qed

section \<open>Popping and dumping\<close>

fun remove_level :: "int \<Rightarrow> ('a \<times> int) list \<Rightarrow> ('a \<times> int) list" where
  "remove_level level [] = []"
| "remove_level level (x # xs) = (if snd x = level then xs else x # remove_level level xs)"

definition of_level :: "int \<Rightarrow> ('a \<times> int) list \<Rightarrow> ('a \<times> int) list" where
  "of_level level xs = filter (\<lambda>x. snd x = level) xs"

lemma of_level_simps [simp]:
  "of_level level [] = []" "of_level level (x # xs) = (if snd x = level then x # of_level level xs else of_level level xs)"
  "of_level level (xs @ ys) = of_level level xs @ of_level level ys"
  by (simp_all add: of_level_def)

lemma of_level_remove: "of_level l (remove_level level xs) = (if l = level then tl (of_level level xs) else of_level l xs)"
  by (induction xs) auto

lemma remove_level_absent: "of_level level xs = [] \<Longrightarrow> remove_level level xs = xs"
  by (induction xs) (auto split: if_splits)

lemma snd_item [simp]: "snd (item x) = mLevel (snd x)"
  by (simp add: item_def)

lemma level_items: "map item (level_nodes level s) = of_level level (dump s)"
  by (simp add: level_nodes_def of_level_def dump_def filter_map comp_def)

lemma remove_address:
  assumes "distinct (map fst xs)" "filter (\<lambda>x. mLevel (snd x) = level) xs = (a, n) # rest"
  shows "map item (filter (\<lambda>(b, _). b \<noteq> a) xs) = remove_level level (map item xs)"
    "filter (\<lambda>x. mLevel (snd x) = l) (filter (\<lambda>(b, _). b \<noteq> a) xs) =
       (if l = level then rest else filter (\<lambda>x. mLevel (snd x) = l) xs)"
proof -
  obtain us vs where xs: "xs = us @ (a, n) # vs" "\<forall>u\<in>set us. mLevel (snd u) \<noteq> level"
    "mLevel n = level" "rest = filter (\<lambda>x. mLevel (snd x) = level) vs"
    using assms(2) by (fastforce dest: filter_eq_ConsD)
  have na: "\<forall>x\<in>set us. fst x \<noteq> a" "\<forall>x\<in>set vs. fst x \<noteq> a" using assms(1) xs(1) by force+
  then have "filter (\<lambda>(b, _). b \<noteq> a) us = us" "filter (\<lambda>(b, _). b \<noteq> a) vs = vs"
    by (auto simp: filter_eq_self_iff)
  then have eq: "filter (\<lambda>(b, _). b \<noteq> a) xs = us @ vs" using xs(1) by simp
  have "remove_level level (map item (us @ (a, n) # vs)) = map item (us @ vs)"
    using xs(2,3) by (induction us) auto
  then show "map item (filter (\<lambda>(b, _). b \<noteq> a) xs) = remove_level level (map item xs)"
    unfolding eq by (simp only: xs(1))
  show "filter (\<lambda>x. mLevel (snd x) = l) (filter (\<lambda>(b, _). b \<noteq> a) xs) =
       (if l = level then rest else filter (\<lambda>x. mLevel (snd x) = l) xs)"
    unfolding eq using xs by (auto simp: filter_empty_conv)
qed

lemma pop_level_ok:
  assumes ok: "skip_list_ok s" and l: "level_ok level s"
  shows "\<exists>s'. pop_level level s = Some s' \<and> skip_list_ok s' \<and> dump s' = remove_level level (dump s) \<and>
     length (mHeadVec s') = length (mHeadVec s)"
proof (cases "level_nodes level s")
  case Nil
  then have "remove_level level (dump s) = dump s"
    using level_items [of level s] by (intro remove_level_absent) simp
  then show ?thesis using skip_list_okD(6) [OF ok l] Nil l ok by (simp add: pop_level_def)
next
  case (Cons x rest)
  obtain a n where x: "x = (a, n)" by (cases x)
  note d = skip_list_okD [OF ok]
  note gone = remove_address [OF d(1) Cons [unfolded level_nodes_def x]]
  have an: "(a, n) \<in> set (mMainList s)" using level_nodes_in_main [of x level s] Cons x by simp
  have head: "mHeadVec s ! nat level = Some a" using d(6) [OF l] Cons x by simp
  have nxt: "mNextInLevel n = first_of rest" and rest: "chained rest" using d(5) [OF l] Cons x by simp_all
  define s' where "s' = s\<lparr>mTailVec := (if rest = [] then (mTailVec s)[nat level := None] else mTailVec s),
     mMainList := filter (\<lambda>(b, _). b \<noteq> a) (mMainList s), mHeadVec := (mHeadVec s)[nat level := first_of rest]\<rparr>"
  have pop: "pop_level level s = Some s'"
    using l node_of_address [OF ok an] nxt head by (simp add: pop_level_def s'_def Let_def)
  have nodes: "level_nodes l' s' = (if l' = level then rest else level_nodes l' s)" for l'
    using gone(2) [of l'] by (simp add: level_nodes_def s'_def)
  have "level_linked l' s'" if "level_ok l' s'" for l'
  proof -
    have l1: "level_ok l' s" using that by (simp add: s'_def level_ok_def)
    show ?thesis
    proof (cases "l' = level")
      case True
      have "nat level < length (mHeadVec s)" using l by (auto simp: level_ok_def)
      then have "mTailVec s' ! nat level = last_of rest"
        using d(4) d(7) [OF l] Cons x by (simp add: s'_def last_of_Cons)
      moreover have "mHeadVec s' ! nat level = first_of rest"
        using \<open>nat level < length (mHeadVec s)\<close> by (simp add: s'_def)
      ultimately show ?thesis using True rest by (simp add: level_linked_def nodes)
    next
      case False
      have "nat l' \<noteq> nat level" using False l l1 by (auto simp: level_ok_def)
      then have "mHeadVec s' ! nat l' = mHeadVec s ! nat l'" "mTailVec s' ! nat l' = mTailVec s ! nat l'"
        by (simp_all add: s'_def)
      then show ?thesis using d(5-7) [OF l1] by (simp add: level_linked_def nodes False)
    qed
  qed
  moreover have "distinct (map fst (mMainList s'))" using d(1) by (simp add: s'_def distinct_map_filter)
  ultimately have "skip_list_ok s'"
    using d(2-4) by (simp add: skip_list_ok_def) (auto simp: s'_def level_ok_def)
  with pop gone(1) show ?thesis by (auto simp: s'_def dump_def)
qed

lemma dump_from_chain:
  assumes ok: "skip_list_ok s"
  shows "chained xs \<Longrightarrow> set xs \<subseteq> set (mMainList s) \<Longrightarrow> dump_from (first_of xs) s = Some (map item xs)"
proof (induction xs)
  case Nil
  then show ?case by (subst dump_from.simps) simp
next
  case (Cons x xs)
  then show ?case using node_of_address [OF ok, of "fst x" "snd x"] by (subst dump_from.simps) simp
qed

lemma dump_level_ok:
  assumes "skip_list_ok s" "level_ok level s"
  shows "dump_level level s = Some (of_level level (dump s))"
proof -
  have "set (level_nodes level s) \<subseteq> set (mMainList s)" by (auto simp: level_nodes_def)
  from dump_from_chain [OF assms(1) skip_list_okD(5) [OF assms] this] show ?thesis
    using skip_list_okD(6) [OF assms] assms(2) by (simp add: dump_level_def level_items)
qed

lemma front_ok:
  assumes ok: "skip_list_ok s" and l: "level_ok level s"
  shows "front level s = (case of_level level (dump s) of [] \<Rightarrow> None | x # _ \<Rightarrow> Some (fst x))"
proof (cases "level_nodes level s")
  case Nil
  then show ?thesis using level_items [of level s] skip_list_okD(6) [OF ok l] by (simp add: front_def)
next
  case (Cons x xs)
  then have "map_of (mMainList s) (fst x) = Some (snd x)"
    using node_of_address [OF ok, of "fst x" "snd x"] level_nodes_in_main [of x level s] by simp
  moreover have "of_level level (dump s) = item x # map item xs" using level_items [of level s] Cons by simp
  ultimately show ?thesis using skip_list_okD(6) [OF ok l] Cons l by (simp add: front_def item_def)
qed

lemma pop_oldest:
  assumes ok: "skip_list_ok s" and ne: "dump s \<noteq> []"
  shows "\<exists>s'. pop s = Some s' \<and> skip_list_ok s' \<and> dump s' = tl (dump s)"
proof (cases "mMainList s")
  case Nil
  with ne show ?thesis by (simp add: dump_def)
next
  case (Cons x xs)
  have "level_ok (mLevel (snd x)) s" using skip_list_okD(3) [OF ok, of x] Cons by simp
  from pop_level_ok [OF ok this] show ?thesis using Cons by (cases x) (auto simp: pop_def dump_def)
qed

section \<open>What the skip list promises\<close>

text \<open>
  Seen through \<open>dump()\<close> the skip list is one sequence of entries with their levels.
\<close>

text \<open>
  C28. The skip list refines a plain sequence of entries with levels: starting from a well-linked
  list, appending adds the entry at the end (a level out of range adds nothing), popping a level
  removes its oldest entry, popping without a level removes the oldest entry of all, the front of a
  level is its oldest entry, and both dumps list the entries in order of arrival. No operation
  follows an iterator to an erased node, and all keep the chains of every level well linked.\<close>

theorem skip_list_refines:
  assumes "skip_list_ok s"
  shows "(\<exists>s'. append_data x level s = Some s' \<and> skip_list_ok s' \<and>
            dump s' = (if level_ok level s then dump s @ [(x, level)] else dump s)) \<and>
         (level_ok level s \<longrightarrow>
            (\<exists>s'. pop_level level s = Some s' \<and> skip_list_ok s' \<and> dump s' = remove_level level (dump s)) \<and>
            front level s = (case of_level level (dump s) of [] \<Rightarrow> None | y # _ \<Rightarrow> Some (fst y)) \<and>
            dump_level level s = Some (of_level level (dump s))) \<and>
         (dump s \<noteq> [] \<longrightarrow> (\<exists>s'. pop s = Some s' \<and> skip_list_ok s' \<and> dump s' = tl (dump s))) \<and>
         skip_list_ok (flush s) \<and> dump (flush s) = []"
proof (intro conjI impI)
  show "\<exists>s'. append_data x level s = Some s' \<and> skip_list_ok s' \<and>
           dump s' = (if level_ok level s then dump s @ [(x, level)] else dump s)"
  proof (cases "level_ok level s")
    case True
    from append_inside [OF assms True, where x = x] True show ?thesis by metis
  next
    case False
    then show ?thesis using append_outside [OF False] assms by simp
  qed
  show "\<exists>s'. pop_level level s = Some s' \<and> skip_list_ok s' \<and> dump s' = remove_level level (dump s)"
    if "level_ok level s" using pop_level_ok [OF assms that] by blast
  show "\<exists>s'. pop s = Some s' \<and> skip_list_ok s' \<and> dump s' = tl (dump s)" if "dump s \<noteq> []"
    using pop_oldest [OF assms that] .
qed (simp_all add: assms front_ok dump_level_ok flush_ok)

definition example_skip_list :: "nat skip_list" where
  "example_skip_list = the (do { s1 \<leftarrow> append_data 7 1 (new_skip_list 2); s2 \<leftarrow> append_data 8 0 s1; append_data 9 1 s2 })"

lemma example_skip_list_ok: "skip_list_ok example_skip_list" "dump example_skip_list = [(7, 1), (8, 0), (9, 1)]"
  by (auto simp: example_skip_list_def new_skip_list_def append_data_def level_ok_def set_next_def link_to_def
      dump_def item_def skip_list_ok_def level_linked_def level_nodes_def first_of_def last_of_def less_Suc_eq
      numeral_2_eq_2 Let_def)

lemma skip_list_refines_witness:
  "front 1 example_skip_list = Some 7 \<and> dump_level 1 example_skip_list = Some [(7, 1), (9, 1)] \<and>
   (\<exists>s'. pop_level 0 example_skip_list = Some s' \<and> dump s' = [(7, 1), (9, 1)]) \<and>
   (\<exists>s'. append_data 5 0 example_skip_list = Some s' \<and> dump s' = [(7, 1), (8, 0), (9, 1), (5, 0)])"
proof -
  have len: "length (mHeadVec example_skip_list) = 2" by code_simp
  then have l: "level_ok 0 example_skip_list" "level_ok 1 example_skip_list" by (auto simp: level_ok_def)
  note r = skip_list_refines [OF example_skip_list_ok(1)]
  show ?thesis
    using r [where x = 5 and level = 0] r [where x = 5 and level = 1] l by (auto simp: example_skip_list_ok(2))
qed

section \<open>Every level is a queue\<close>

definition level_holds :: "int \<Rightarrow> 'a skip_list \<Rightarrow> 'a list \<Rightarrow> bool" where
  "level_holds level s xs \<longleftrightarrow>
     skip_list_ok s \<and> level_ok level s \<and> map fst (of_level level (dump s)) = xs"

definition take_front :: "int \<Rightarrow> 'a skip_list \<Rightarrow> ('a \<times> 'a skip_list) option" where
  "take_front level s = do { x \<leftarrow> front level s; s' \<leftarrow> pop_level level s; Some (x, s') }"

lemma level_ok_cong: "length (mHeadVec s') = length (mHeadVec s) \<Longrightarrow> level_ok level s' = level_ok level s"
  by (simp add: level_ok_def)

interpretation lvl: message_store "level_holds level" "\<lambda>_ _. True" "\<lambda>_ x. append_data x level"
  "take_front level" "\<lambda>x. x" "\<lambda>s. mHeadVec s ! nat level = None"
  for level :: int
proof unfold_locales
  fix s :: "'a skip_list" and xs x
  assume h: "level_holds level s xs"
  then have ok: "skip_list_ok s" "level_ok level s" by (auto simp: level_holds_def)
  from append_inside [OF ok, of x] obtain s' where
    s': "append_data x level s = Some s'" "skip_list_ok s'" "dump s' = dump s @ [(x, level)]"
      "length (mHeadVec s') = length (mHeadVec s)" .
  with h show "\<exists>s'. append_data x level s = Some s' \<and> level_holds level s' (xs @ [x])"
    by (auto simp: level_holds_def level_ok_def)
next
  fix s :: "'a skip_list" and x xs
  assume h: "level_holds level s (x # xs)"
  then have ok: "skip_list_ok s" "level_ok level s" by (auto simp: level_holds_def)
  from h obtain y ys where y: "of_level level (dump s) = y # ys" "fst y = x" "map fst ys = xs"
    by (auto simp: level_holds_def map_eq_Cons_conv)
  from pop_level_ok [OF ok] obtain s' where
    s': "pop_level level s = Some s'" "skip_list_ok s'" "dump s' = remove_level level (dump s)"
      "length (mHeadVec s') = length (mHeadVec s)" by blast
  have "take_front level s = Some (x, s')" using s'(1) front_ok [OF ok] y by (simp add: take_front_def)
  moreover have "level_holds level s' xs"
    using s'(2,3) y ok(2) level_ok_cong [OF s'(4)] by (simp add: level_holds_def of_level_remove)
  ultimately show "\<exists>s'. take_front level s = Some (x, s') \<and> level_holds level s' xs" by blast
next
  fix s :: "'a skip_list"
  assume "level_holds level s []"
  then show "take_front level s = None" by (auto simp: level_holds_def take_front_def front_ok)
next
  fix s :: "'a skip_list" and xs
  assume h: "level_holds level s xs"
  then have ok: "skip_list_ok s" "level_ok level s" by (auto simp: level_holds_def)
  have "mHeadVec s ! nat level = None \<longleftrightarrow> map item (level_nodes level s) = []"
    using skip_list_okD(6) [OF ok] by simp
  then show "mHeadVec s ! nat level = None \<longleftrightarrow> xs = []"
    using h by (auto simp: level_holds_def level_items)
qed

text \<open>
  Each level of the skip list is a first-in, first-out queue: over any sequence of appends to
  the level and removals of its front, what was in the level followed by what was appended is what
  came out followed by what is left.
\<close>
theorem skip_list_level_fifo:
  assumes "queue_run (\<lambda>_ _. True) (\<lambda>_ x. append_data x level) (take_front level) s es s'"
    and "level_holds level s xs"
  shows "\<exists>ys. level_holds level s' ys \<and> xs @ puts es = takes es @ ys"
  using lvl.fifo_history [OF assms] by simp

lemma skip_list_level_fifo_witness:
  "\<exists>s' ys. queue_run (\<lambda>_ _. True) (\<lambda>_ x. append_data x 1) (take_front 1) example_skip_list [Put 4, Take 7] s' \<and>
     level_holds 1 s' ys \<and> [7, 9, 4] = 7 # ys"
proof -
  have len: "length (mHeadVec example_skip_list) = 2" by code_simp
  then have h: "level_holds 1 example_skip_list [7, 9]"
    by (auto simp: level_holds_def example_skip_list_ok level_ok_def)
  obtain s1 where s1: "append_data 4 1 example_skip_list = Some s1" "level_holds 1 s1 [7, 9, 4]"
    using lvl.put_holds [OF h] by auto
  obtain s2 where s2: "take_front 1 s1 = Some (7, s2)" using lvl.take_holds [OF s1(2)] by blast
  have "queue_run (\<lambda>_ _. True) (\<lambda>_ x. append_data x 1) (take_front 1) example_skip_list [Put 4, Take 7] s2"
    using s1(1) s2 by (auto intro: queue_run.intros)
  with skip_list_level_fifo [OF this h] show ?thesis by auto
qed

end
