(* ===== verification/LogBuffer.thy ===== *)
theory LogBuffer
  imports SkipList LocCfgProps
begin

text \<open>
  The log buffer of \<open>src/gps/utils/LogBuffer.cpp\<close> and \<open>.h\<close>: a skip list of timed lines with a depth in
  seconds and a capacity for each of five levels, which \<open>gps.conf\<close> may set, and
  \<open>log_buffer_insert\<close> of \<open>loc_log.cpp\<close>. Undefined behaviour, the front of an empty level or a level
  out of range, is None. The files a dump writes are a map from paths to texts.
\<close>

record level_config =
  mTimeDepthThres :: "32 word"
  mMaxNumThres :: "32 word"
  mCurrentSize :: "32 word"

record log_buffer =
  mLogList :: "(64 word \<times> string) skip_list"
  mConfigVec :: "level_config list"

definition TOTAL_LOG_LEVELS :: nat where "TOTAL_LOG_LEVELS = 5"
definition TIME_DEPTH_THRESHOLD_MINIMAL_IN_SEC :: "32 word" where "TIME_DEPTH_THRESHOLD_MINIMAL_IN_SEC = 60"
definition MAXIMUM_NUM_IN_LIST :: "32 word" where "MAXIMUM_NUM_IN_LIST = 50"
definition LOG_BUFFER_FILE_PATH :: string where "LOG_BUFFER_FILE_PATH = ''/data/vendor/location/''"

definition level_map :: "string list" where
  "level_map = [''E'', ''W'', ''I'', ''D'', ''V'']"

definition log_buff_config_table :: "conf_entry list" where
  "log_buff_config_table =
     concat (map (\<lambda>l. [number_entry (l @ ''_LEVEL_TIME_DEPTH'') (l @ ''_LEVEL_TIME_DEPTH''),
                       number_entry (l @ ''_LEVEL_MAX_CAPACITY'') (l @ ''_LEVEL_MAX_CAPACITY'')]) level_map)"

text \<open>The constructor.\<close>

definition new_log_buffer :: "device \<Rightarrow> conf_store \<times> loc_logger \<Rightarrow> log_buffer \<times> conf_store \<times> loc_logger" where
  "new_log_buffer d sg =
     (let (s, g) = sg;
          s0 = fold (\<lambda>l s. s\<lparr>ints := (ints s)(l @ ''_LEVEL_TIME_DEPTH'' := TIME_DEPTH_THRESHOLD_MINIMAL_IN_SEC,
                                              l @ ''_LEVEL_MAX_CAPACITY'' := MAXIMUM_NUM_IN_LIST)\<rparr>) level_map s;
          (s1, g1) = loc_read_conf d ''/vendor/etc/gps.conf'' log_buff_config_table (s0, g)
      in (\<lparr>mLogList = new_skip_list TOTAL_LOG_LEVELS,
           mConfigVec = map (\<lambda>l. \<lparr>mTimeDepthThres = ints s1 (l @ ''_LEVEL_TIME_DEPTH''),
                                  mMaxNumThres = ints s1 (l @ ''_LEVEL_MAX_CAPACITY''), mCurrentSize = 0\<rparr>) level_map\<rparr>,
          s1, g1))"

definition config_of :: "int \<Rightarrow> log_buffer \<Rightarrow> level_config option" where
  "config_of level b =
     (if 0 \<le> level \<and> level < int (length (mConfigVec b)) then Some (mConfigVec b ! nat level) else None)"

definition set_size :: "int \<Rightarrow> 32 word \<Rightarrow> log_buffer \<Rightarrow> log_buffer" where
  "set_size level n b = b\<lparr>mConfigVec := (mConfigVec b)[nat level := (mConfigVec b ! nat level)\<lparr>mCurrentSize := n\<rparr>]\<rparr>"

lemma set_size_list [simp]: "mLogList (set_size level n b) = mLogList b"
  by (simp add: set_size_def)

definition over_limit :: "64 word \<Rightarrow> level_config \<Rightarrow> 64 word \<times> string \<Rightarrow> bool" where
  "over_limit now c x \<longleftrightarrow> ucast (mTimeDepthThres c) < now - fst x \<or> mMaxNumThres c < mCurrentSize c"

partial_function (option) trim_level :: "int \<Rightarrow> 64 word \<Rightarrow> log_buffer \<Rightarrow> log_buffer option" where
  "trim_level level now b =
     do { x \<leftarrow> front level (mLogList b);
          c \<leftarrow> config_of level b;
          if over_limit now c x
          then do { l \<leftarrow> pop_level level (mLogList b);
                    trim_level level now (set_size level (mCurrentSize c - 1) (b\<lparr>mLogList := l\<rparr>)) }
          else Some b }"

definition append_log :: "string \<Rightarrow> int \<Rightarrow> 64 word \<Rightarrow> log_buffer \<Rightarrow> log_buffer option" where
  "append_log data level timestamp b =
     do { l \<leftarrow> append_data (timestamp, data) level (mLogList b);
          c \<leftarrow> config_of level b;
          if mCurrentSize c = 2 ^ 31 - 1 then None
          else trim_level level timestamp (set_size level (mCurrentSize c + 1) (b\<lparr>mLogList := l\<rparr>)) }"

definition flush_log :: "log_buffer \<Rightarrow> log_buffer" where
  "flush_log b = b\<lparr>mLogList := flush (mLogList b)\<rparr>"

definition log_buffer_insert :: "string \<Rightarrow> int \<Rightarrow> 64 word \<Rightarrow> 64 word \<Rightarrow> log_buffer \<Rightarrow> log_buffer option" where
  "log_buffer_insert str level tv_sec tv_nsec b = append_log str level (tv_sec + tv_nsec div 1000000000) b"

section \<open>Dumping\<close>

definition dump_line :: "(64 word \<times> string) \<times> int \<Rightarrow> string option" where
  "dump_line it =
     (case it of ((ts, data), level) \<Rightarrow>
        if 0 \<le> level \<and> level < int (length level_map)
        then Some (''['' @ to_dec (unat ts) @ ''] '' @ ''Level '' @ level_map ! nat level @ '': '' @ data @ [CHR 0x0A])
        else None)"

definition dump_header :: "int \<Rightarrow> nat \<Rightarrow> string" where
  "dump_header level n =
     ''dump log buffer, level['' @ int_to_dec level @ '']'' @ '', buffer size: '' @ to_dec n @ [CHR 0x0A]"

definition dump_log :: "int \<Rightarrow> log_buffer \<Rightarrow> string list option" where
  "dump_log level b =
     do { li \<leftarrow> (if level = -1 then Some (dump (mLogList b)) else dump_level level (mLogList b));
          ls \<leftarrow> those (map dump_line li);
          Some (dump_header level (length li) # ls) }"

definition dumpToLogFile :: "string \<Rightarrow> log_buffer \<Rightarrow> (string \<Rightarrow> string) \<Rightarrow> (string \<Rightarrow> string) option" where
  "dumpToLogFile path b files =
     do { ls \<leftarrow> dump_log (-1) b; Some (files(path := files path @ concat ls)) }"

record tm =
  tm_year :: int
  tm_mon :: int
  tm_mday :: int
  tm_hour :: int
  tm_min :: int
  tm_sec :: int

definition log_file_path :: "tm \<Rightarrow> string" where
  "log_file_path t =
     take 49 (LOG_BUFFER_FILE_PATH @ ''gpslog_'' @ int_to_dec (1900 + tm_year t) @ int_to_dec (1 + tm_mon t) @
       int_to_dec (tm_mday t) @ ''-'' @ int_to_dec (tm_hour t) @ int_to_dec (tm_min t) @ int_to_dec (tm_sec t) @ ''.log'')"

text \<open>The handler of a signal: both dumps, then the action that was there before unless the signal is
  \<open>SIGUSR1\<close>.\<close>

datatype signal = SIGINT | SIGKILL | SIGSEGV | SIGABRT | SIGTRAP | SIGUSR1

definition signal_handler :: "signal \<Rightarrow> tm \<Rightarrow> log_buffer \<Rightarrow> (string \<Rightarrow> string) \<Rightarrow> ((string \<Rightarrow> string) \<times> bool) option" where
  "signal_handler code now b files =
     do { _ \<leftarrow> dump_log (-1) b;
          files1 \<leftarrow> dumpToLogFile (log_file_path now) b files;
          Some (files1, code \<noteq> SIGUSR1) }"

section \<open>What a level holds\<close>

definition level_lines :: "int \<Rightarrow> log_buffer \<Rightarrow> (64 word \<times> string) list" where
  "level_lines level b = map fst (of_level level (dump (mLogList b)))"

definition log_level :: "int \<Rightarrow> bool" where
  "log_level level \<longleftrightarrow> 0 \<le> level \<and> level < 5"

definition log_buffer_ok :: "log_buffer \<Rightarrow> bool" where
  "log_buffer_ok b \<longleftrightarrow>
     skip_list_ok (mLogList b) \<and> length (mHeadVec (mLogList b)) = 5 \<and> length (mConfigVec b) = 5 \<and>
     (\<forall>level. log_level level \<longrightarrow>
        unat (mCurrentSize (mConfigVec b ! nat level)) = length (level_lines level b) \<and>
        length (level_lines level b) < 2 ^ 31)"

text \<open>What trimming leaves of a list of lines. The age of a line is an unsigned difference.\<close>

fun trimmed :: "64 word \<Rightarrow> nat \<Rightarrow> nat \<Rightarrow> (64 word \<times> string) list \<Rightarrow> (64 word \<times> string) list" where
  "trimmed now depth cap [] = []"
| "trimmed now depth cap (x # xs) =
     (if depth < unat (now - fst x) \<or> cap < length (x # xs) then trimmed now depth cap xs else x # xs)"

text \<open>Lines that keep the limits of their level: not too many, and the first one is stamped no later than
  \<open>now\<close> and is no older than the depth.\<close>

definition within_limits :: "64 word \<Rightarrow> nat \<Rightarrow> nat \<Rightarrow> (64 word \<times> string) list \<Rightarrow> bool" where
  "within_limits now depth cap xs \<longleftrightarrow>
     length xs \<le> cap \<and> (xs \<noteq> [] \<longrightarrow> fst (hd xs) \<le> now \<and> unat now \<le> unat (fst (hd xs)) + depth)"

definition limits :: "int \<Rightarrow> log_buffer \<Rightarrow> nat \<times> nat" where
  "limits level b = (unat (mTimeDepthThres (mConfigVec b ! nat level)), unat (mMaxNumThres (mConfigVec b ! nat level)))"

definition same_but :: "int \<Rightarrow> log_buffer \<Rightarrow> log_buffer \<Rightarrow> bool" where
  "same_but level b b' \<longleftrightarrow>
     (\<forall>k. k \<noteq> level \<longrightarrow> level_lines k b' = level_lines k b) \<and> (\<forall>k. log_level k \<longrightarrow> limits k b' = limits k b)"

lemma same_but_refl [simp]: "same_but level b b"
  by (simp add: same_but_def)

lemma same_but_trans: "same_but level b c \<Longrightarrow> same_but level c d \<Longrightarrow> same_but level b d"
  by (simp add: same_but_def)

lemma log_levels:
  assumes "log_buffer_ok b" "log_level level"
  shows "skip_list_ok (mLogList b)" "level_ok level (mLogList b)" "nat level < length (mConfigVec b)"
    "config_of level b = Some (mConfigVec b ! nat level)"
    "unat (mCurrentSize (mConfigVec b ! nat level)) = length (level_lines level b)"
  using assms by (auto simp: log_buffer_ok_def log_level_def level_ok_def config_of_def)

text \<open>Changing one level's lines and its count together keeps the buffer well formed.\<close>

lemma change_level:
  assumes ok: "log_buffer_ok b" and l: "log_level level"
    and p: "skip_list_ok p" "length (mHeadVec p) = length (mHeadVec (mLogList b))"
    and other: "\<And>k. k \<noteq> level \<Longrightarrow> of_level k (dump p) = of_level k (dump (mLogList b))"
    and n: "unat n = length (of_level level (dump p))" "unat n < 2 ^ 31"
  shows "log_buffer_ok (set_size level n (b\<lparr>mLogList := p\<rparr>)) \<and>
         level_lines level (set_size level n (b\<lparr>mLogList := p\<rparr>)) = map fst (of_level level (dump p)) \<and>
         same_but level b (set_size level n (b\<lparr>mLogList := p\<rparr>))"
proof -
  let ?b = "set_size level n (b\<lparr>mLogList := p\<rparr>)"
  have len: "length (mConfigVec b) = 5" using ok by (simp add: log_buffer_ok_def)
  have lines: "level_lines k ?b = map fst (of_level k (dump p))" for k
    by (simp add: level_lines_def set_size_def)
  have inj: "nat k = nat level \<longleftrightarrow> k = level" if "log_level k" for k using that l by (auto simp: log_level_def)
  have "unat (mCurrentSize (mConfigVec ?b ! nat k)) = length (level_lines k ?b) \<and> length (level_lines k ?b) < 2 ^ 31"
    if k: "log_level k" for k
  proof (cases "k = level")
    case True
    have "nat level < 5" using l by (auto simp: log_level_def)
    then have "mConfigVec ?b ! nat level = (mConfigVec b ! nat level)\<lparr>mCurrentSize := n\<rparr>"
      by (simp add: set_size_def len)
    then show ?thesis using n True by (simp add: lines)
  next
    case False
    then show ?thesis
      using ok k inj [OF k] other [OF False] by (simp add: lines log_buffer_ok_def set_size_def level_lines_def)
  qed
  then have "log_buffer_ok ?b" using ok p len by (simp add: log_buffer_ok_def set_size_def)
  moreover have "limits k ?b = limits k b" if k: "log_level k" for k
    using inj [OF k] l len by (cases "k = level") (auto simp: limits_def set_size_def log_level_def)
  ultimately show ?thesis using other by (simp add: lines same_but_def) (simp add: level_lines_def)
qed

lemma pop_log:
  assumes ok: "log_buffer_ok b" and l: "log_level level" and xs: "level_lines level b = x # xs"
    and c: "c = mConfigVec b ! nat level"
  shows "\<exists>p. pop_level level (mLogList b) = Some p \<and>
     log_buffer_ok (set_size level (mCurrentSize c - 1) (b\<lparr>mLogList := p\<rparr>)) \<and>
     level_lines level (set_size level (mCurrentSize c - 1) (b\<lparr>mLogList := p\<rparr>)) = xs \<and>
     same_but level b (set_size level (mCurrentSize c - 1) (b\<lparr>mLogList := p\<rparr>))"
proof -
  note ll = log_levels [OF ok l]
  obtain p where p: "pop_level level (mLogList b) = Some p" "skip_list_ok p"
      "dump p = remove_level level (dump (mLogList b))" "length (mHeadVec p) = length (mHeadVec (mLogList b))"
    using pop_level_ok [OF ll(1,2)] by blast
  have lines: "map fst (of_level level (dump p)) = xs"
    using xs by (simp add: p(3) of_level_remove level_lines_def map_tl)
  have cur: "unat (mCurrentSize c) = Suc (length xs)" using ll(5) by (simp add: c xs)
  then have "mCurrentSize c \<noteq> 0" by auto
  then have n: "unat (mCurrentSize c - 1) = length xs" using cur by (simp add: unat_minus_one)
  have "length (of_level level (dump p)) = length xs" using lines by (metis length_map)
  moreover have "length xs < 2 ^ 31" using ok l xs unfolding log_buffer_ok_def by (metis Suc_lessD length_Cons)
  ultimately show ?thesis
    using change_level [OF ok l p(2,4), of "mCurrentSize c - 1"] n p(1) lines
    by (simp add: p(3) of_level_remove)
qed

lemma front_log:
  assumes "log_buffer_ok b" "log_level level" "level_lines level b = x # xs"
  shows "front level (mLogList b) = Some x"
  using assms(3) front_ok [OF log_levels(1,2) [OF assms(1,2)]]
  by (auto simp: level_lines_def split: list.splits)

lemma unat_widen: "unat (ucast (w :: 32 word) :: 64 word) = unat w"
proof -
  have "unat w < 2 ^ LENGTH(32)" by (rule unsigned_less)
  then have "unat w < 2 ^ 64" by simp
  then show ?thesis by (simp add: unsigned_ucast_eq take_bit_nat_eq_self_iff)
qed

lemma over_limit_lengths:
  assumes "log_buffer_ok b" "log_level level" "limits level b = (depth, cap)"
  shows "over_limit now (mConfigVec b ! nat level) x \<longleftrightarrow>
           depth < unat (now - fst x) \<or> cap < length (level_lines level b)"
  using assms(3) log_levels(5) [OF assms(1,2)]
  by (auto simp: over_limit_def limits_def word_less_nat_alt unat_widen)

lemma trim_level_ok:
  assumes "log_buffer_ok b" "log_level level" "limits level b = (depth, cap)" "0 < cap"
    and "level_lines level b = xs @ [(now, d)]"
  shows "\<exists>b'. trim_level level now b = Some b' \<and> log_buffer_ok b' \<and>
     level_lines level b' = trimmed now depth cap (xs @ [(now, d)]) \<and> same_but level b b'"
  using assms
proof (induction xs arbitrary: b)
  case Nil
  note ll = log_levels [OF Nil(1,2)]
  have "\<not> over_limit now (mConfigVec b ! nat level) (now, d)"
    using over_limit_lengths [OF Nil(1-3)] Nil(4,5) by simp
  then have "trim_level level now b = Some b"
    using front_log [OF Nil(1,2), of "(now, d)" "[]"] Nil(5) ll(4) by (subst trim_level.simps) simp
  then show ?case using Nil by simp
next
  case (Cons x xs)
  note ll = log_levels [OF Cons.prems(1,2)]
  have f: "front level (mLogList b) = Some x"
    using front_log [OF Cons.prems(1,2), of x "xs @ [(now, d)]"] Cons.prems(5) by simp
  have o: "over_limit now (mConfigVec b ! nat level) x \<longleftrightarrow>
      depth < unat (now - fst x) \<or> cap < length (x # xs @ [(now, d)])"
    using over_limit_lengths [OF Cons.prems(1-3)] Cons.prems(5) by simp
  show ?case
  proof (cases "over_limit now (mConfigVec b ! nat level) x")
    case True
    obtain p b1 where p: "pop_level level (mLogList b) = Some p"
      and e: "b1 = set_size level (mCurrentSize (mConfigVec b ! nat level) - 1) (b\<lparr>mLogList := p\<rparr>)"
      and b1: "log_buffer_ok b1" and lines: "level_lines level b1 = xs @ [(now, d)]" and same: "same_but level b b1"
      using pop_log [OF Cons.prems(1,2), of x "xs @ [(now, d)]"] Cons.prems(5) by auto
    have "limits level b1 = (depth, cap)" using same Cons.prems(2,3) by (simp add: same_but_def)
    from Cons.IH [OF b1 Cons.prems(2) this Cons.prems(4) lines] obtain b' where
      b': "trim_level level now b1 = Some b'" "log_buffer_ok b'"
        "level_lines level b' = trimmed now depth cap (xs @ [(now, d)])" "same_but level b1 b'" by blast
    have "trim_level level now b = Some b'"
      using f ll(4) True p b'(1) e by (subst trim_level.simps) simp
    moreover have "trimmed now depth cap ((x # xs) @ [(now, d)]) = trimmed now depth cap (xs @ [(now, d)])"
      using True o by auto
    ultimately show ?thesis using b' same_but_trans [OF same b'(4)] by auto
  next
    case False
    then have "trim_level level now b = Some b" using f ll(4) by (subst trim_level.simps) simp
    moreover have "trimmed now depth cap ((x # xs) @ [(now, d)]) = (x # xs) @ [(now, d)]"
      using False o by auto
    ultimately show ?thesis using Cons.prems by simp
  qed
qed

lemma append_log_step:
  assumes ok: "log_buffer_ok b" and l: "log_level level" and n: "length (level_lines level b) < 2 ^ 31 - 1"
  shows "\<exists>b1. append_log d level now b = trim_level level now b1 \<and> log_buffer_ok b1 \<and>
     level_lines level b1 = level_lines level b @ [(now, d)] \<and> same_but level b b1"
proof -
  note ll = log_levels [OF ok l]
  let ?c = "mConfigVec b ! nat level"
  obtain p where p: "append_data (now, d) level (mLogList b) = Some p" "skip_list_ok p"
      "dump p = dump (mLogList b) @ [((now, d), level)]" "length (mHeadVec p) = length (mHeadVec (mLogList b))"
    by (rule append_inside [OF ll(1,2), of "(now, d)"])
  have cur: "unat (mCurrentSize ?c) < 2 ^ 31 - 1" using ll(5) n by simp
  then have ne: "mCurrentSize ?c \<noteq> 2 ^ 31 - 1" by auto
  have sz: "unat (mCurrentSize ?c + 1) = Suc (length (level_lines level b))"
    using ll(5) cur by (subst unat_plus_simple [THEN iffD1]) (auto simp: word_le_nat_alt unat_word_ariths)
  have len: "length (of_level level (dump p)) = Suc (length (level_lines level b))"
    by (simp add: p(3) level_lines_def)
  have "append_log d level now b = trim_level level now (set_size level (mCurrentSize ?c + 1) (b\<lparr>mLogList := p\<rparr>))"
    using p(1) ll(4) ne by (simp add: append_log_def)
  moreover have "unat (mCurrentSize ?c + 1) < 2 ^ 31" using sz n by simp
  ultimately show ?thesis
    using change_level [OF ok l p(2,4), of "mCurrentSize ?c + 1"] sz len
    by (auto simp: p(3) level_lines_def)
qed

section \<open>What the buffer promises\<close>

lemma append_log_trimmed:
  assumes "log_buffer_ok b" "log_level level" "limits level b = (depth, cap)" "0 < cap"
    and "length (level_lines level b) < 2 ^ 31 - 1"
  shows "\<exists>b'. append_log d level now b = Some b' \<and> log_buffer_ok b' \<and>
     level_lines level b' = trimmed now depth cap (level_lines level b @ [(now, d)]) \<and> same_but level b b'"
proof -
  obtain b1 where b1: "append_log d level now b = trim_level level now b1" "log_buffer_ok b1"
     "level_lines level b1 = level_lines level b @ [(now, d)]" "same_but level b b1"
    using append_log_step [OF assms(1,2,5)] by blast
  have "limits level b1 = (depth, cap)" using b1(4) assms(2,3) by (simp add: same_but_def)
  from trim_level_ok [OF b1(2) assms(2) this assms(4) b1(3)] show ?thesis
    using b1(1,3) same_but_trans [OF b1(4)] by auto
qed

lemma trimmed_suffix:
  "0 < cap \<Longrightarrow> \<exists>ys. xs @ [(now, d)] = ys @ trimmed now depth cap (xs @ [(now, d)]) \<and>
     length (trimmed now depth cap (xs @ [(now, d)])) \<le> cap \<and>
     trimmed now depth cap (xs @ [(now, d)]) \<noteq> []"
proof (induction xs)
  case (Cons x xs)
  then obtain ys where ys: "xs @ [(now, d)] = ys @ trimmed now depth cap (xs @ [(now, d)])"
    "length (trimmed now depth cap (xs @ [(now, d)])) \<le> cap" "trimmed now depth cap (xs @ [(now, d)]) \<noteq> []" by blast
  show ?case
  proof (cases "depth < unat (now - fst x) \<or> cap < length (x # xs @ [(now, d)])")
    case True
    then have "trimmed now depth cap ((x # xs) @ [(now, d)]) = trimmed now depth cap (xs @ [(now, d)])" by auto
    then show ?thesis using ys by (intro exI [of _ "x # ys"]) simp
  next
    case False
    then have "trimmed now depth cap ((x # xs) @ [(now, d)]) = (x # xs) @ [(now, d)]" by auto
    then show ?thesis using False by (intro exI [of _ "[]"]) simp
  qed
qed simp

text \<open>The unsigned age of a line that is stamped later is huge.\<close>

lemma age_over:
  assumes "now < 2 ^ 63" "(t :: 64 word) < 2 ^ 63" "depth < 2 ^ 32"
  shows "depth < unat (now - t) \<longleftrightarrow> \<not> (t \<le> now \<and> unat now \<le> unat t + depth)"
  using assms unat_sub_if' [of now t] by (auto simp: word_less_nat_alt word_le_nat_alt)

lemma trimmed_longest:
  assumes "now < 2 ^ 63" "depth < 2 ^ 32" "\<forall>x\<in>set xs. fst x < 2 ^ 63"
  shows "within_limits now depth cap (trimmed now depth cap xs) \<and>
     (\<forall>us vs. xs = us @ vs \<and> length (trimmed now depth cap xs) < length vs \<longrightarrow> \<not> within_limits now depth cap vs)"
  using assms(3)
proof (induction xs)
  case Nil
  then show ?case by (simp add: within_limits_def)
next
  case (Cons x xs)
  have age: "depth < unat (now - fst x) \<longleftrightarrow> \<not> (fst x \<le> now \<and> unat now \<le> unat (fst x) + depth)"
    using age_over [OF assms(1) _ assms(2)] Cons.prems by simp
  show ?case
  proof (cases "depth < unat (now - fst x) \<or> cap < length (x # xs)")
    case True
    then have t: "trimmed now depth cap (x # xs) = trimmed now depth cap xs" "\<not> within_limits now depth cap (x # xs)"
      using age by (auto simp: within_limits_def)
    then show ?thesis using Cons by (auto simp: Cons_eq_append_conv)
  next
    case False
    then have "trimmed now depth cap (x # xs) = x # xs" by auto
    then show ?thesis using False age by (auto simp: within_limits_def dest: arg_cong [of _ _ length])
  qed
qed

text \<open>
  C31. Appending to a level of the log buffer that is not of capacity zero is defined, keeps the
  buffer well formed and leaves in the level the longest end of its lines, the new one included, that is
  not longer than its capacity and whose first line is not older than the level's depth nor stamped
  later than the new line (which can happen, as the time is read before the lock is taken); the other
  levels keep their lines and all levels their limits. A buffer is well formed when the counts of its
  levels are those of their lines, as they are until it is flushed; the stamps are below \<open>2 ^ 63\<close>.\<close>

theorem log_append_keeps_limits:
  assumes "log_buffer_ok b" "log_level level" "limits level b = (depth, cap)" "0 < cap"
    and "length (level_lines level b) < 2 ^ 31 - 1" "now < 2 ^ 63" "\<forall>x\<in>set (level_lines level b). fst x < 2 ^ 63"
  shows "\<exists>b' ys zs. append_log d level now b = Some b' \<and> log_buffer_ok b' \<and> same_but level b b' \<and>
     level_lines level b' = zs \<and> level_lines level b @ [(now, d)] = ys @ zs \<and> zs \<noteq> [] \<and> within_limits now depth cap zs \<and>
     (\<forall>us vs. level_lines level b @ [(now, d)] = us @ vs \<and> length zs < length vs \<longrightarrow> \<not> within_limits now depth cap vs)"
proof -
  let ?xs = "level_lines level b @ [(now, d)]"
  obtain b' where b': "append_log d level now b = Some b'" "log_buffer_ok b'"
     "level_lines level b' = trimmed now depth cap ?xs" "same_but level b b'"
    using append_log_trimmed [OF assms(1-5)] by blast
  have depth: "depth < 2 ^ 32"
    using assms(3) unsigned_less [of "mTimeDepthThres (mConfigVec b ! nat level)"] by (auto simp: limits_def)
  obtain ys where "?xs = ys @ trimmed now depth cap ?xs" "trimmed now depth cap ?xs \<noteq> []"
    using trimmed_suffix [OF assms(4)] by blast
  moreover have "\<forall>x\<in>set ?xs. fst x < 2 ^ 63" using assms(6,7) by auto
  note trimmed_longest [OF assms(6) depth this, of cap]
  ultimately show ?thesis using b' by blast
qed

definition small_buffer :: log_buffer where
  "small_buffer = \<lparr>mLogList = new_skip_list 5, mConfigVec = replicate 5 \<lparr>mTimeDepthThres = 60, mMaxNumThres = 2, mCurrentSize = 0\<rparr>\<rparr>"

lemma small_buffer_ok: "log_buffer_ok small_buffer" "level_lines level small_buffer = []"
  using new_skip_list_ok [of 5]
  by (auto simp: log_buffer_ok_def small_buffer_def level_lines_def dump_def new_skip_list_def log_level_def)

lemma small_buffer_limits: "log_level level \<Longrightarrow> limits level small_buffer = (60, 2)"
  by (auto simp: limits_def small_buffer_def log_level_def)

theorem log_append_keeps_limits_witness:
  "\<exists>b'. append_log ''fix'' 2 100 small_buffer = Some b' \<and> level_lines 2 b' = [(100, ''fix'')]"
proof -
  obtain b' ys where "append_log ''fix'' 2 100 small_buffer = Some b'" "[(100, ''fix'')] = ys @ level_lines 2 b'"
      "level_lines 2 b' \<noteq> []"
    using log_append_keeps_limits [of small_buffer 2 60 2 100 "''fix''"]
      small_buffer_ok small_buffer_limits [of 2] by (auto simp: log_level_def)
  then show ?thesis by (cases ys) auto
qed

text \<open>
  Over any run of appends to an empty level the buffer stays defined, and the dump of the level
  is a non-empty end of what was appended, in order and not longer than the level's capacity.
\<close>

fun append_all :: "int \<Rightarrow> (64 word \<times> string) list \<Rightarrow> log_buffer \<Rightarrow> log_buffer option" where
  "append_all level [] b = Some b"
| "append_all level ((now, d) # xs) b = do { b1 \<leftarrow> append_log d level now b; append_all level xs b1 }"

theorem log_dump_is_newest:
  assumes "log_buffer_ok b" "log_level level" "limits level b = (depth, cap)" "0 < cap" "cap < 2 ^ 31 - 1"
    and "level_lines level b = []" "xs \<noteq> []"
  shows "\<exists>b' ys zs. append_all level xs b = Some b' \<and> log_buffer_ok b' \<and> xs = ys @ zs \<and> length zs \<le> cap \<and>
           zs \<noteq> [] \<and> dump_level level (mLogList b') = Some (map (\<lambda>x. (x, level)) zs)"
proof -
  have gen: "\<exists>b' ys zs. append_all level xs b = Some b' \<and> log_buffer_ok b' \<and> ws @ xs = ys @ zs \<and> length zs \<le> cap \<and>
           (zs \<noteq> [] \<or> xs = []) \<and> level_lines level b' = zs"
    if "log_buffer_ok b" "limits level b = (depth, cap)" "level_lines level b = ws" "length ws \<le> cap" for xs ws b
    using that
  proof (induction xs arbitrary: b ws)
    case Nil
    then show ?case by (intro exI [of _ b] exI [of _ "[]"] exI [of _ ws]) simp
  next
    case (Cons x xs)
    obtain now d where x: "x = (now, d)" by fastforce
    obtain b1 where b1: "append_log d level now b = Some b1" "log_buffer_ok b1"
      "level_lines level b1 = trimmed now depth cap (ws @ [(now, d)])" "same_but level b b1"
      using append_log_trimmed [OF Cons.prems(1) assms(2) Cons.prems(2) assms(4), of d now]
        Cons.prems(3,4) assms(5) by auto
    obtain us where us: "ws @ [(now, d)] = us @ level_lines level b1" "length (level_lines level b1) \<le> cap"
      "level_lines level b1 \<noteq> []"
      using trimmed_suffix [OF assms(4), of ws now d depth] b1(3) by metis
    have "limits level b1 = (depth, cap)" using b1(4) assms(2) Cons.prems(2) by (simp add: same_but_def)
    from Cons.IH [OF b1(2) this refl us(2)] obtain b' ys zs where
      r: "append_all level xs b1 = Some b'" "log_buffer_ok b'" "level_lines level b1 @ xs = ys @ zs"
        "length zs \<le> cap" "zs \<noteq> [] \<or> xs = []" "level_lines level b' = zs" by blast
    have "zs \<noteq> []" using us(3) r(1,5,6) by auto
    moreover have "ws @ x # xs = (us @ ys) @ zs" using us(1) r(3) x by (metis append.assoc append_Cons append_Nil)
    ultimately show ?case using r b1(1) x by auto
  qed
  obtain b' ys zs where r: "append_all level xs b = Some b'" "log_buffer_ok b'" "xs = ys @ zs" "length zs \<le> cap"
    "zs \<noteq> []" "level_lines level b' = zs"
    using gen [OF assms(1,3,6), of xs] assms(7) by auto
  have "of_level level (dump (mLogList b')) = map (\<lambda>x. (x, level)) (level_lines level b')"
    unfolding level_lines_def of_level_def map_map by (rule map_idI [symmetric]) auto
  then have "dump_level level (mLogList b') = Some (map (\<lambda>x. (x, level)) zs)"
    using dump_level_ok [OF log_levels(1,2) [OF r(2) assms(2)]] r(6) by simp
  with r show ?thesis by blast
qed

theorem log_dump_is_newest_witness:
  "\<exists>b' ys zs. append_all 1 [(5, ''a''), (6, ''b''), (7, ''c'')] small_buffer = Some b' \<and> log_buffer_ok b' \<and>
     [(5, ''a''), (6, ''b''), (7, ''c'')] = ys @ zs \<and> length zs \<le> 2 \<and> zs \<noteq> [] \<and>
     dump_level 1 (mLogList b') = Some (map (\<lambda>x. (x, 1)) zs)"
  by (rule log_dump_is_newest [OF small_buffer_ok(1) _ small_buffer_limits])
    (simp_all add: log_level_def small_buffer_ok)

text \<open>
  \<open>flush\<close> empties the levels but keeps their counts: the next line appended to a level that
  was at its capacity is thrown out by the trimming, which then reads the front of an empty level.
  The same happens to the first line of a level whose configured capacity is zero.
\<close>

theorem full_flush_breaks_append:
  assumes "log_buffer_ok b" "log_level level" "limits level b = (depth, cap)"
    and "cap = length (level_lines level b) \<and> b' = flush_log b \<or> cap = 0 \<and> level_lines level b = [] \<and> b' = b"
    and "cap < 2 ^ 31 - 1"
  shows "append_log d level now b' = None"
proof -
  let ?c = "mConfigVec b ! nat level"
  note ll = log_levels [OF assms(1,2)]
  have c: "mConfigVec b' = mConfigVec b" using assms(4) by (auto simp: flush_log_def)
  have ok: "skip_list_ok (mLogList b')" "level_ok level (mLogList b')" "of_level level (dump (mLogList b')) = []"
    using assms(4) ll(1,2) flush_ok [of "mLogList b"]
    by (auto simp: flush_log_def level_lines_def level_ok_def flush_def)
  obtain p where p: "append_data (now, d) level (mLogList b') = Some p" "skip_list_ok p"
      "dump p = dump (mLogList b') @ [((now, d), level)]" "length (mHeadVec p) = length (mHeadVec (mLogList b'))"
    by (rule append_inside [OF ok(1,2), of "(now, d)"])
  have pl: "level_ok level p" using p(4) ok(2) by (simp add: level_ok_def)
  have cur: "unat (mCurrentSize ?c) = cap" using ll(5) assms(4) by auto
  then have ne: "mCurrentSize ?c \<noteq> 2 ^ 31 - 1" using assms(5) by auto
  let ?b = "set_size level (mCurrentSize ?c + 1) (b'\<lparr>mLogList := p\<rparr>)"
  have cfg: "config_of level ?b = Some (?c\<lparr>mCurrentSize := mCurrentSize ?c + 1\<rparr>)"
    using ll(3,4) c by (simp add: config_of_def set_size_def split: if_splits)
  have "unat (mCurrentSize ?c + 1) = Suc cap"
    using cur assms(5) by (subst unat_plus_simple [THEN iffD1]) (auto simp: word_le_nat_alt unat_word_ariths)
  then have over: "over_limit now (?c\<lparr>mCurrentSize := mCurrentSize ?c + 1\<rparr>) x" for x
    using assms(3) by (auto simp: over_limit_def limits_def word_less_nat_alt)
  obtain q where q: "pop_level level p = Some q" "skip_list_ok q" "dump q = remove_level level (dump p)"
     "length (mHeadVec q) = length (mHeadVec p)"
    using pop_level_ok [OF p(2) pl] by blast
  have "front level q = None"
    using front_ok [OF q(2)] q(3,4) pl p(3) ok(3) by (simp add: of_level_remove level_ok_def)
  then have none: "mLogList B = q \<Longrightarrow> trim_level level now B = None" for B
    by (subst trim_level.simps) simp
  have "front level p = Some (now, d)" using front_ok [OF p(2) pl] p(3) ok(3) by simp
  then have "trim_level level now ?b = None"
    using cfg over q(1) none by (subst trim_level.simps) simp
  then show ?thesis using p(1) c ll(4) ne by (simp add: append_log_def config_of_def)
qed

theorem full_flush_breaks_append_witness:
  "append_log ''fix'' 0 9 (small_buffer\<lparr>mConfigVec := replicate 5 \<lparr>mTimeDepthThres = 60, mMaxNumThres = 0, mCurrentSize = 0\<rparr>\<rparr>) = None"
  (is "append_log _ _ _ ?b = None")
proof -
  have "log_buffer_ok ?b" using small_buffer_ok by (auto simp: log_buffer_ok_def small_buffer_def level_lines_def log_level_def)
  moreover have "limits 0 ?b = (60, 0)" by (simp add: limits_def)
  moreover have "level_lines 0 ?b = []" using small_buffer_ok(2) [of 0] by (simp add: level_lines_def)
  ultimately show ?thesis using full_flush_breaks_append [of ?b 0 60 0 ?b] by (simp add: log_level_def)
qed

text \<open>
  The name of a dumped log has its date and time without padding, so that dumps of different
  days go to the same file, where the later one is appended to the earlier one.
\<close>

theorem log_file_names_collide:
  "\<exists>t t'. 0 \<le> tm_mon t \<and> tm_mon t < 12 \<and> 1 \<le> tm_mday t \<and> tm_mday t \<le> 28 \<and>
     0 \<le> tm_mon t' \<and> tm_mon t' < 12 \<and> 1 \<le> tm_mday t' \<and> tm_mday t' \<le> 28 \<and>
     (tm_mon t, tm_mday t) \<noteq> (tm_mon t', tm_mday t') \<and> log_file_path t = log_file_path t'"
proof -
  let ?t = "\<lparr>tm_year = 120, tm_mon = 0, tm_mday = 11, tm_hour = 10, tm_min = 0, tm_sec = 0\<rparr>"
  let ?t' = "\<lparr>tm_year = 120, tm_mon = 10, tm_mday = 1, tm_hour = 10, tm_min = 0, tm_sec = 0\<rparr>"
  have "log_file_path ?t = log_file_path ?t'"
    by (simp add: log_file_path_def int_to_dec_def to_dec.simps digit_def)
  then show ?thesis by (intro exI [of _ ?t] exI [of _ ?t']) simp
qed

end
