(* ===== verification/GnssSvId.thy ===== *)
theory GnssSvId
  imports Prelude "HOL-Library.Word" "HOL-Library.Monad_Syntax"
begin

unbundle bit_operations_syntax

text \<open>
  Excluded satellites in \<open>src/gps/gnss/GnssAdapter.cpp\<close>: the conversions between a list of satellite
  ids and the 64-bit masks of the engine, one per constellation. A shift by 64 or more is undefined
  and is None.
\<close>

section \<open>Satellites and masks\<close>

datatype sv_type =
    GNSS_SV_TYPE_UNKNOWN | GNSS_SV_TYPE_GPS | GNSS_SV_TYPE_SBAS | GNSS_SV_TYPE_GLONASS | GNSS_SV_TYPE_QZSS
  | GNSS_SV_TYPE_BEIDOU | GNSS_SV_TYPE_GALILEO | GNSS_SV_TYPE_NAVIC

record sv_id_source =
  source_size :: "32 word"
  constellation :: sv_type
  svId :: "32 word"

record sv_id_config =
  config_size :: "32 word"
  gloBlacklistSvMask :: "64 word"
  bdsBlacklistSvMask :: "64 word"
  qzssBlacklistSvMask :: "64 word"
  galBlacklistSvMask :: "64 word"
  sbasBlacklistSvMask :: "64 word"
  navicBlacklistSvMask :: "64 word"

definition sizeof_source :: "32 word" where "sizeof_source = 12"
definition sizeof_config :: "32 word" where "sizeof_config = 56"

definition ALL_BITS :: "64 word" where "ALL_BITS = 0xFFFFFFFFFFFFFFFF"

definition GLO_INITIAL :: "32 word" where "GLO_INITIAL = 65"
definition BDS_INITIAL :: "32 word" where "BDS_INITIAL = 201"
definition QZSS_INITIAL :: "32 word" where "QZSS_INITIAL = 193"
definition GAL_INITIAL :: "32 word" where "GAL_INITIAL = 301"
definition SBAS_INITIAL :: "32 word" where "SBAS_INITIAL = 120"
definition SBAS_LENGTH :: nat where "SBAS_LENGTH = 39"
definition SBAS_INITIAL2 :: "32 word" where "SBAS_INITIAL2 = 183"
definition NAVIC_INITIAL :: "32 word" where "NAVIC_INITIAL = 401"

lemmas sv_constants =
  ALL_BITS_def GLO_INITIAL_def BDS_INITIAL_def QZSS_INITIAL_def GAL_INITIAL_def SBAS_INITIAL_def
  SBAS_LENGTH_def SBAS_INITIAL2_def NAVIC_INITIAL_def

text \<open>The mask a constellation is kept in.\<close>

fun sv_mask :: "sv_type \<Rightarrow> sv_id_config \<Rightarrow> 64 word" where
  "sv_mask GNSS_SV_TYPE_GLONASS c = gloBlacklistSvMask c"
| "sv_mask GNSS_SV_TYPE_BEIDOU c = bdsBlacklistSvMask c"
| "sv_mask GNSS_SV_TYPE_QZSS c = qzssBlacklistSvMask c"
| "sv_mask GNSS_SV_TYPE_GALILEO c = galBlacklistSvMask c"
| "sv_mask GNSS_SV_TYPE_SBAS c = sbasBlacklistSvMask c"
| "sv_mask GNSS_SV_TYPE_NAVIC c = navicBlacklistSvMask c"
| "sv_mask _ c = 0"

fun set_sv_mask :: "sv_type \<Rightarrow> 64 word \<Rightarrow> sv_id_config \<Rightarrow> sv_id_config" where
  "set_sv_mask GNSS_SV_TYPE_GLONASS m c = c\<lparr>gloBlacklistSvMask := m\<rparr>"
| "set_sv_mask GNSS_SV_TYPE_BEIDOU m c = c\<lparr>bdsBlacklistSvMask := m\<rparr>"
| "set_sv_mask GNSS_SV_TYPE_QZSS m c = c\<lparr>qzssBlacklistSvMask := m\<rparr>"
| "set_sv_mask GNSS_SV_TYPE_GALILEO m c = c\<lparr>galBlacklistSvMask := m\<rparr>"
| "set_sv_mask GNSS_SV_TYPE_SBAS m c = c\<lparr>sbasBlacklistSvMask := m\<rparr>"
| "set_sv_mask GNSS_SV_TYPE_NAVIC m c = c\<lparr>navicBlacklistSvMask := m\<rparr>"
| "set_sv_mask _ m c = c"

text \<open>The id of bit 0 and the offset of the second range, None where \<open>svMaskPtr\<close> stays NULL.\<close>

fun sv_range :: "sv_type \<Rightarrow> 32 word \<Rightarrow> (32 word \<times> 32 word) option" where
  "sv_range GNSS_SV_TYPE_GLONASS i = Some (GLO_INITIAL, 0)"
| "sv_range GNSS_SV_TYPE_BEIDOU i = Some (BDS_INITIAL, 0)"
| "sv_range GNSS_SV_TYPE_QZSS i = Some (QZSS_INITIAL, 0)"
| "sv_range GNSS_SV_TYPE_GALILEO i = Some (GAL_INITIAL, 0)"
| "sv_range GNSS_SV_TYPE_SBAS i =
     (if i = 0 then Some (0, 0)
      else if SBAS_INITIAL2 \<le> i then Some (SBAS_INITIAL2, of_nat SBAS_LENGTH)
      else if SBAS_INITIAL \<le> i \<and> i < SBAS_INITIAL + of_nat SBAS_LENGTH then Some (SBAS_INITIAL, 0)
      else None)"
| "sv_range GNSS_SV_TYPE_NAVIC i = Some (NAVIC_INITIAL, 0)"
| "sv_range _ i = None"

definition add_source :: "sv_id_source \<Rightarrow> sv_id_config \<Rightarrow> sv_id_config option" where
  "add_source src c =
     (let t = constellation src; i = svId src
      in case sv_range t i of
           None \<Rightarrow> Some c
         | Some (initial, offset) \<Rightarrow>
             if i = 0 then Some (set_sv_mask t ALL_BITS c)
             else if i < initial \<or> initial + 64 \<le> i then Some c
             else let shiftCnt = i + offset - initial
                  in if 64 \<le> shiftCnt then None
                     else Some (set_sv_mask t (sv_mask t c OR push_bit (unat shiftCnt) 1) c))"

fun add_sources :: "sv_id_source list \<Rightarrow> sv_id_config \<Rightarrow> sv_id_config option" where
  "add_sources [] c = Some c"
| "add_sources (src # srcs) c = do { c' \<leftarrow> add_source src c; add_sources srcs c' }"

definition convertToGnssSvIdConfig ::
  "sv_id_source list \<Rightarrow> sv_id_config \<Rightarrow> (bool \<times> sv_id_config) option"
where
  "convertToGnssSvIdConfig blacklistedSvIds config =
     (let c = config\<lparr>config_size := sizeof_config\<rparr>
      in if blacklistedSvIds = []
         then Some (True, c\<lparr>gloBlacklistSvMask := 0, bdsBlacklistSvMask := 0, qzssBlacklistSvMask := 0,
                           galBlacklistSvMask := 0, sbasBlacklistSvMask := 0, navicBlacklistSvMask := 0\<rparr>)
         else do {
           d \<leftarrow> add_sources blacklistedSvIds c;
           Some (gloBlacklistSvMask d \<noteq> 0 \<or> bdsBlacklistSvMask d \<noteq> 0 \<or> galBlacklistSvMask d \<noteq> 0 \<or>
                 qzssBlacklistSvMask d \<noteq> 0 \<or> sbasBlacklistSvMask d \<noteq> 0 \<or> navicBlacklistSvMask d \<noteq> 0, d) })"

section \<open>From masks to lists\<close>

lemma halve_less: "m \<noteq> 0 \<Longrightarrow> unat (drop_bit 1 m) < unat (m :: 'a::len word)"
proof -
  assume "m \<noteq> 0"
  then have "0 < unat m" by (simp add: unat_gt_0)
  moreover have "unat (drop_bit 1 m) = unat m div 2"
    by (simp only: unat_drop_bit_eq) (simp add: drop_bit_eq_div)
  ultimately show ?thesis by simp
qed

function mask_to_list :: "sv_type \<Rightarrow> 32 word \<Rightarrow> 32 word \<Rightarrow> 64 word \<Rightarrow> sv_id_source list" where
  "mask_to_list t initial bitNumber m =
     (if m = 0 then []
      else (if m AND 1 \<noteq> 0
            then [\<lparr>source_size = sizeof_source, constellation = t,
                   svId = (if t = GNSS_SV_TYPE_SBAS \<and> of_nat SBAS_LENGTH \<le> bitNumber
                           then bitNumber - of_nat SBAS_LENGTH + SBAS_INITIAL2 else bitNumber + initial)\<rparr>]
            else [])
           @ mask_to_list t initial (bitNumber + 1) (drop_bit 1 m))"
  by pat_completeness auto

termination
  by (relation "measure (\<lambda>(_, _, _, m). unat m)") (simp_all add: halve_less del: One_nat_def)

declare mask_to_list.simps [simp del]

definition convertGnssSvIdMaskToList :: "64 word \<Rightarrow> 32 word \<Rightarrow> sv_type \<Rightarrow> sv_id_source list" where
  "convertGnssSvIdMaskToList svIdMask initialSvId svType =
     (if svIdMask = ALL_BITS then [\<lparr>source_size = sizeof_source, constellation = svType, svId = 0\<rparr>]
      else mask_to_list svType initialSvId 0 svIdMask)"

text \<open>The result is appended to the list given.\<close>

definition convertFromGnssSvIdConfig :: "sv_id_config \<Rightarrow> sv_id_source list \<Rightarrow> sv_id_source list" where
  "convertFromGnssSvIdConfig c svIds =
     svIds
     @ (if bdsBlacklistSvMask c \<noteq> 0
        then convertGnssSvIdMaskToList (bdsBlacklistSvMask c) BDS_INITIAL GNSS_SV_TYPE_BEIDOU else [])
     @ (if galBlacklistSvMask c \<noteq> 0
        then convertGnssSvIdMaskToList (galBlacklistSvMask c) GAL_INITIAL GNSS_SV_TYPE_GALILEO else [])
     @ (if gloBlacklistSvMask c \<noteq> 0
        then convertGnssSvIdMaskToList (gloBlacklistSvMask c) GLO_INITIAL GNSS_SV_TYPE_GLONASS else [])
     @ (if qzssBlacklistSvMask c \<noteq> 0
        then convertGnssSvIdMaskToList (qzssBlacklistSvMask c) QZSS_INITIAL GNSS_SV_TYPE_QZSS else [])
     @ (if sbasBlacklistSvMask c \<noteq> 0
        then convertGnssSvIdMaskToList
               (drop_bit (64 - SBAS_LENGTH) (push_bit (64 - SBAS_LENGTH) (sbasBlacklistSvMask c)))
               SBAS_INITIAL GNSS_SV_TYPE_SBAS
             @ convertGnssSvIdMaskToList (drop_bit SBAS_LENGTH (sbasBlacklistSvMask c)) SBAS_INITIAL2 GNSS_SV_TYPE_SBAS
        else [])
     @ (if navicBlacklistSvMask c \<noteq> 0
        then convertGnssSvIdMaskToList (navicBlacklistSvMask c) NAVIC_INITIAL GNSS_SV_TYPE_NAVIC else [])"

section \<open>Reading back what was written\<close>

lemma set_sv_mask_twice [simp]: "set_sv_mask t m (set_sv_mask t m' c) = set_sv_mask t m c"
  by (cases t) simp_all

lemma set_sv_mask_same [simp]: "set_sv_mask t (sv_mask t c) c = c"
  by (cases t) simp_all

lemma sv_mask_set: "sv_range t i \<noteq> None \<Longrightarrow> sv_mask t (set_sv_mask t m c) = m"
  by (cases t) simp_all

lemma add_sources_append: "add_sources (xs @ ys) c = do { c' \<leftarrow> add_sources xs c; add_sources ys c' }"
  by (induction xs arbitrary: c) (simp_all split: Option.bind_splits)

lemma push_bit_halve:
  "push_bit n m = (if m AND 1 \<noteq> 0 then push_bit n 1 else 0) OR push_bit (Suc n) (drop_bit 1 m)"
  for m :: "'a::len word"
proof (rule bit_eqI)
  fix k assume k: "possible_bit TYPE('a word) k"
  have odd: "m AND 1 \<noteq> 0 \<longleftrightarrow> bit m 0" by (simp add: and_one_eq mod2_eq_if bit_0)
  consider "k < n" | "k = n" | j where "k = Suc n + j"
    by (metis add_Suc less_imp_Suc_add linorder_neqE_nat)
  then show "bit (push_bit n m) k \<longleftrightarrow>
     bit ((if m AND 1 \<noteq> 0 then push_bit n 1 else 0) OR push_bit (Suc n) (drop_bit 1 m)) k"
    using k by cases (auto simp: odd bit_push_bit_iff bit_or_iff bit_drop_bit_eq bit_1_iff bit_exp_iff
        simp del: push_bit_Suc drop_bit_Suc)
qed

text \<open>The ids that \<open>initial\<close>, \<open>offset\<close> map to the bits below \<open>limit\<close> are read back.\<close>

definition readable :: "sv_type \<Rightarrow> 32 word \<Rightarrow> nat \<Rightarrow> nat \<Rightarrow> bool" where
  "readable t initial offset limit \<longleftrightarrow>
     (\<forall>n < limit. of_nat n + initial \<noteq> 0 \<and> (t = GNSS_SV_TYPE_SBAS \<longrightarrow> n < SBAS_LENGTH) \<and>
        (\<forall>c. add_source \<lparr>source_size = sizeof_source, constellation = t, svId = of_nat n + initial\<rparr> c =
           Some (set_sv_mask t (sv_mask t c OR push_bit (n + offset) 1) c)))"

lemma add_mask_to_list:
  assumes r: "readable t initial offset limit" and t: "\<And>m c. sv_mask t (set_sv_mask t m c) = m"
    and lim: "limit \<le> 64"
    and m: "unat m < 2 ^ (limit - n)" and n: "n \<le> limit"
  shows "add_sources (mask_to_list t initial (of_nat n) m) c =
     Some (set_sv_mask t (sv_mask t c OR push_bit (n + offset) m) c)"
  using m n
proof (induction "unat m" arbitrary: m n c rule: less_induct)
  case less
  show ?case
  proof (cases "m = 0")
    case True
    then show ?thesis by (simp add: mask_to_list.simps)
  next
    case False
    then have pos: "0 < unat m" by (simp add: unat_gt_0)
    have "n < limit"
    proof (rule ccontr)
      assume "\<not> n < limit"
      then show False using less.prems pos by simp
    qed
    have half: "unat (drop_bit 1 m) = unat m div 2"
      by (simp only: unat_drop_bit_eq) (simp add: drop_bit_eq_div)
    have "(2::nat) ^ (limit - n) = 2 * 2 ^ (limit - Suc n)"
      using \<open>n < limit\<close> by (simp add: Suc_diff_Suc flip: power_Suc)
    then have b: "unat (drop_bit 1 m) < 2 ^ (limit - Suc n)" using less.prems(1) half by simp
    have IH: "add_sources (mask_to_list t initial (of_nat (Suc n)) (drop_bit 1 m)) d =
       Some (set_sv_mask t (sv_mask t d OR push_bit (Suc n + offset) (drop_bit 1 m)) d)" for d
      using less.hyps [OF _ b] halve_less [OF False] \<open>n < limit\<close> by simp
    have add: "add_source \<lparr>source_size = sizeof_source, constellation = t, svId = of_nat n + initial\<rparr> c =
        Some (set_sv_mask t (sv_mask t c OR push_bit (n + offset) 1) c)"
      and small: "t = GNSS_SV_TYPE_SBAS \<Longrightarrow> n < SBAS_LENGTH"
      using r \<open>n < limit\<close> by (auto simp: readable_def)
    have id: "\<not> of_nat SBAS_LENGTH \<le> (of_nat n :: 32 word)" if "t = GNSS_SV_TYPE_SBAS"
      using small [OF that] by (auto simp: word_le_nat_alt SBAS_LENGTH_def unat_of_nat)
    have step: "mask_to_list t initial (of_nat n) m =
       (if m AND 1 \<noteq> 0 then [\<lparr>source_size = sizeof_source, constellation = t, svId = of_nat n + initial\<rparr>] else [])
       @ mask_to_list t initial (of_nat (Suc n)) (drop_bit 1 m)"
      using False id by (subst mask_to_list.simps) (auto simp: add.commute)
    show ?thesis
    proof (cases "m AND 1 = 0")
      case True
      then show ?thesis using IH push_bit_halve [of "n + offset" m] step by simp
    next
      case odd: False
      have "push_bit (n + offset) m = push_bit (n + offset) 1 OR push_bit (Suc n + offset) (drop_bit 1 m)"
        using push_bit_halve [of "n + offset" m] odd by simp
      then show ?thesis using IH add step odd by (simp add: t or.assoc)
    qed
  qed
qed

lemma unat_add_small: "unat (of_nat n + i) = n + unat i" if "n + unat i < 2 ^ 32" for i :: "32 word"
  using that by (simp add: unat_word_ariths unat_of_nat)

lemma readable_plain:
  assumes range: "\<And>i. sv_range t i = Some (initial, 0)" and t: "t \<noteq> GNSS_SV_TYPE_SBAS"
    and i: "0 < unat initial" "unat initial < 1000"
  shows "readable t initial 0 64"
  unfolding readable_def
proof (intro allI impI conjI)
  fix n :: nat assume n: "n < 64"
  have u: "unat (of_nat n + initial) = n + unat initial" using n i by (intro unat_add_small) simp
  show nz: "of_nat n + initial \<noteq> 0" using u i by auto
  show "n < SBAS_LENGTH" if "t = GNSS_SV_TYPE_SBAS" using that t by simp
  fix c
  have "unat (initial + 64) = unat initial + 64"
    using unat_add_small [of 64 initial] i by (simp add: add.commute)
  then show "add_source \<lparr>source_size = sizeof_source, constellation = t, svId = of_nat n + initial\<rparr> c =
      Some (set_sv_mask t (sv_mask t c OR push_bit (n + 0) 1) c)"
    using nz u n by (simp add: add_source_def range word_less_nat_alt word_le_nat_alt unat_of_nat)
qed

lemma readable_sbas: "readable GNSS_SV_TYPE_SBAS SBAS_INITIAL 0 39"
  unfolding readable_def
proof (intro allI impI conjI)
  fix n :: nat and c assume n: "n < 39"
  have u: "unat (of_nat n + 0x78 :: 32 word) = n + 0x78" using n unat_add_small [of n "0x78"] by simp
  show nz: "of_nat n + SBAS_INITIAL \<noteq> 0" using u by (auto simp: SBAS_INITIAL_def)
  show "n < SBAS_LENGTH" using n by (simp add: SBAS_LENGTH_def)
  show "add_source \<lparr>source_size = sizeof_source, constellation = GNSS_SV_TYPE_SBAS, svId = of_nat n + SBAS_INITIAL\<rparr> c =
      Some (set_sv_mask GNSS_SV_TYPE_SBAS (sv_mask GNSS_SV_TYPE_SBAS c OR push_bit (n + 0) 1) c)"
    using nz u n by (simp add: add_source_def sv_constants word_less_nat_alt word_le_nat_alt unat_of_nat)
qed

lemma readable_sbas2: "readable GNSS_SV_TYPE_SBAS SBAS_INITIAL2 39 25"
  unfolding readable_def
proof (intro allI impI conjI)
  fix n :: nat and c assume n: "n < 25"
  have u: "unat (of_nat n + 0xB7 :: 32 word) = n + 0xB7" using n unat_add_small [of n "0xB7"] by simp
  show nz: "of_nat n + SBAS_INITIAL2 \<noteq> 0" using u by (auto simp: SBAS_INITIAL2_def)
  show "n < SBAS_LENGTH" using n by (simp add: SBAS_LENGTH_def)
  have v: "unat (of_nat n + 39 :: 32 word) = n + 39" using n unat_add_small [of n "39"] by simp
  have "0xB7 \<le> (of_nat n + 0xB7 :: 32 word)" "\<not> 0xF7 \<le> (of_nat n + 0xB7 :: 32 word)" "\<not> 64 \<le> (of_nat n + 39 :: 32 word)"
    using u v n by (simp_all add: word_le_nat_alt)
  moreover have "of_nat n + 0xB7 \<noteq> (0 :: 32 word)" using u by auto
  ultimately show "add_source \<lparr>source_size = sizeof_source, constellation = GNSS_SV_TYPE_SBAS, svId = of_nat n + SBAS_INITIAL2\<rparr> c =
      Some (set_sv_mask GNSS_SV_TYPE_SBAS (sv_mask GNSS_SV_TYPE_SBAS c OR push_bit (n + 39) 1) c)"
    using v by (simp add: add_source_def sv_constants not_less [symmetric])
qed

lemma plain_mask_read_back:
  assumes "t \<noteq> GNSS_SV_TYPE_SBAS" and range: "\<And>i. sv_range t i = Some (initial, 0)"
    and "0 < unat initial" "unat initial < 1000" and c: "sv_mask t c = 0"
  shows "add_sources (if m \<noteq> 0 then convertGnssSvIdMaskToList m initial t else []) c = Some (set_sv_mask t m c)"
proof -
  have t: "sv_mask t (set_sv_mask t m' c') = m'" for m' c' using range by (intro sv_mask_set) simp
  have r: "readable t initial 0 64" using assms by (intro readable_plain)
  have none: "set_sv_mask t 0 c = c" using c set_sv_mask_same [of t c] by simp
  have all: "add_source \<lparr>source_size = sizeof_source, constellation = t, svId = 0\<rparr> c = Some (set_sv_mask t ALL_BITS c)"
    by (simp add: add_source_def range)
  have "unat m < 2 ^ (64 - 0)" using unsigned_less [of m] by simp
  from add_mask_to_list [OF r t _ this, of c] show ?thesis
    using c none all by (simp add: convertGnssSvIdMaskToList_def)
qed

lemma sbas_mask_read_back:
  assumes c: "sbasBlacklistSvMask c = 0"
  shows "add_sources (if m \<noteq> 0 then
       convertGnssSvIdMaskToList (drop_bit (64 - SBAS_LENGTH) (push_bit (64 - SBAS_LENGTH) m)) SBAS_INITIAL GNSS_SV_TYPE_SBAS
       @ convertGnssSvIdMaskToList (drop_bit SBAS_LENGTH m) SBAS_INITIAL2 GNSS_SV_TYPE_SBAS else []) c =
     Some (c\<lparr>sbasBlacklistSvMask := m\<rparr>)"
proof -
  define lo where "lo = drop_bit (64 - SBAS_LENGTH) (push_bit (64 - SBAS_LENGTH) m)"
  define hi where "hi = drop_bit SBAS_LENGTH m"
  have lo_take: "lo = take_bit 39 m"
    unfolding lo_def SBAS_LENGTH_def by (rule bit_eqI) (auto simp: bit_simps)
  have lo: "unat lo < 2 ^ (39 - 0)" unfolding lo_take using take_bit_nat_less_exp [of 39 "unat m"] by (simp add: unsigned_take_bit_eq)
  have "unat m < 2 ^ 64" using unsigned_less [of m] by simp
  then have hi: "unat hi < 2 ^ (25 - 0)"
    unfolding hi_def SBAS_LENGTH_def
    by (simp only: unat_drop_bit_eq) (simp add: drop_bit_eq_div less_mult_imp_div_less)
  have ne: "lo \<noteq> ALL_BITS" "hi \<noteq> ALL_BITS" using lo hi by (auto simp: ALL_BITS_def)
  have join: "lo OR push_bit 39 hi = m"
    unfolding lo_take hi_def SBAS_LENGTH_def
    by (rule bit_eqI) (auto simp: bit_simps, metis le_add_diff_inverse not_less)
  have "add_sources (mask_to_list GNSS_SV_TYPE_SBAS SBAS_INITIAL 0 lo) c = Some (c\<lparr>sbasBlacklistSvMask := lo\<rparr>)"
    using add_mask_to_list [OF readable_sbas _ _ lo, of c] c by simp
  moreover have "add_sources (mask_to_list GNSS_SV_TYPE_SBAS SBAS_INITIAL2 0 hi) (c\<lparr>sbasBlacklistSvMask := lo\<rparr>) =
      Some (c\<lparr>sbasBlacklistSvMask := m\<rparr>)"
    using add_mask_to_list [OF readable_sbas2 _ _ hi, of "c\<lparr>sbasBlacklistSvMask := lo\<rparr>"] join by simp
  moreover have "c\<lparr>sbasBlacklistSvMask := 0\<rparr> = c" using c by (cases c) simp
  ultimately show ?thesis
    using ne by (simp add: convertGnssSvIdMaskToList_def add_sources_append flip: lo_def hi_def)
qed

text \<open>
  C13. Every configuration of excluded satellites survives the conversion to a list of satellite ids
  and back: all six masks are restored.\<close>

theorem sv_config_roundtrip:
  "convertToGnssSvIdConfig (convertFromGnssSvIdConfig c [])
     \<lparr>config_size = n, gloBlacklistSvMask = 0, bdsBlacklistSvMask = 0, qzssBlacklistSvMask = 0,
      galBlacklistSvMask = 0, sbasBlacklistSvMask = 0, navicBlacklistSvMask = 0\<rparr>
   = Some (True, c\<lparr>config_size := sizeof_config\<rparr>)"
proof -
  define z where "z = \<lparr>config_size = sizeof_config, gloBlacklistSvMask = 0, bdsBlacklistSvMask = 0,
    qzssBlacklistSvMask = 0, galBlacklistSvMask = 0, sbasBlacklistSvMask = 0, navicBlacklistSvMask = 0\<rparr>"
  define l where "l = convertFromGnssSvIdConfig c []"
  define d where "d = c\<lparr>config_size := sizeof_config\<rparr>"
  have bds: "add_sources (if m \<noteq> 0 then convertGnssSvIdMaskToList m BDS_INITIAL GNSS_SV_TYPE_BEIDOU else []) x =
      Some (x\<lparr>bdsBlacklistSvMask := m\<rparr>)" if "bdsBlacklistSvMask x = 0" for m x
    using plain_mask_read_back [of GNSS_SV_TYPE_BEIDOU BDS_INITIAL x m] that by (simp add: BDS_INITIAL_def)
  have gal: "add_sources (if m \<noteq> 0 then convertGnssSvIdMaskToList m GAL_INITIAL GNSS_SV_TYPE_GALILEO else []) x =
      Some (x\<lparr>galBlacklistSvMask := m\<rparr>)" if "galBlacklistSvMask x = 0" for m x
    using plain_mask_read_back [of GNSS_SV_TYPE_GALILEO GAL_INITIAL x m] that by (simp add: GAL_INITIAL_def)
  have glo: "add_sources (if m \<noteq> 0 then convertGnssSvIdMaskToList m GLO_INITIAL GNSS_SV_TYPE_GLONASS else []) x =
      Some (x\<lparr>gloBlacklistSvMask := m\<rparr>)" if "gloBlacklistSvMask x = 0" for m x
    using plain_mask_read_back [of GNSS_SV_TYPE_GLONASS GLO_INITIAL x m] that by (simp add: GLO_INITIAL_def)
  have qzss: "add_sources (if m \<noteq> 0 then convertGnssSvIdMaskToList m QZSS_INITIAL GNSS_SV_TYPE_QZSS else []) x =
      Some (x\<lparr>qzssBlacklistSvMask := m\<rparr>)" if "qzssBlacklistSvMask x = 0" for m x
    using plain_mask_read_back [of GNSS_SV_TYPE_QZSS QZSS_INITIAL x m] that by (simp add: QZSS_INITIAL_def)
  have navic: "add_sources (if m \<noteq> 0 then convertGnssSvIdMaskToList m NAVIC_INITIAL GNSS_SV_TYPE_NAVIC else []) x =
      Some (x\<lparr>navicBlacklistSvMask := m\<rparr>)" if "navicBlacklistSvMask x = 0" for m x
    using plain_mask_read_back [of GNSS_SV_TYPE_NAVIC NAVIC_INITIAL x m] that by (simp add: NAVIC_INITIAL_def)
  have "add_sources l z = Some d"
    unfolding l_def convertFromGnssSvIdConfig_def append_Nil
    by (simp only: add_sources_append bds gal glo qzss navic sbas_mask_read_back z_def sv_id_config.simps
        Option.bind.bind_lunit) (simp add: d_def)
  moreover from this have "z = d" if "l = []" using that by simp
  moreover have "l = []" if "gloBlacklistSvMask d = 0" "bdsBlacklistSvMask d = 0" "galBlacklistSvMask d = 0"
    "qzssBlacklistSvMask d = 0" "sbasBlacklistSvMask d = 0" "navicBlacklistSvMask d = 0"
    using that by (simp add: l_def d_def convertFromGnssSvIdConfig_def)
  ultimately show ?thesis
    unfolding convertToGnssSvIdConfig_def
    by (cases "l = []") (auto simp flip: l_def d_def simp: z_def Let_def)
qed

lemma add_source_undefined:
  "add_source src c = None \<longleftrightarrow> constellation src = GNSS_SV_TYPE_SBAS \<and> 208 \<le> svId src \<and> svId src < 247"
proof (cases "constellation src = GNSS_SV_TYPE_SBAS")
  case True
  define i where "i = svId src"
  show ?thesis
  proof (cases "SBAS_INITIAL2 \<le> i \<and> i < 247")
    case far: True
    then have i: "183 \<le> unat i" "unat i < 247" by (simp_all add: SBAS_INITIAL2_def word_le_nat_alt word_less_nat_alt)
    have j: "unat (i + 39) = unat i + 39" using i by (simp add: unat_word_ariths)
    then have "183 \<le> i + 39" using i by (simp add: word_le_nat_alt)
    from unat_sub [OF this] have "unat (i + 39 - 183) = unat i - 144" using i j by simp
    then have "64 \<le> i + 39 - 183 \<longleftrightarrow> 208 \<le> i" using i by (auto simp: word_le_nat_alt)
    moreover have "i \<noteq> 0" "\<not> i < 183" "\<not> 247 \<le> i" using i by (auto simp: word_le_nat_alt word_less_nat_alt)
    ultimately show ?thesis
      using True far by (auto simp: add_source_def Let_def sv_constants simp flip: i_def)
  next
    case near: False
    have "\<not> 64 \<le> i - 120" if "120 \<le> i" "i < 159"
      using that by (auto simp: word_le_nat_alt word_less_nat_alt unat_sub_if')
    moreover have "\<not> (208 \<le> i \<and> i < 247)"
      using near by (auto simp: SBAS_INITIAL2_def word_le_nat_alt word_less_nat_alt)
    ultimately show ?thesis
      using True near by (auto simp: add_source_def Let_def sv_constants simp flip: i_def split: if_splits)
  qed
next
  case False
  have "\<not> 64 \<le> i - initial" if "\<not> i < initial" "\<not> initial + 64 \<le> i" "unat initial < 1000" for i initial :: "32 word"
    using that by (auto simp: word_le_nat_alt word_less_nat_alt unat_sub_if' unat_word_ariths)
  then show ?thesis
    using False by (cases "constellation src") (auto simp: add_source_def Let_def sv_constants split: if_splits)
qed

text \<open>
  Converting a list of excluded satellites is undefined exactly when it names an SBAS satellite
  with an id from 208 to 246: the bit of such an id is 64 or more.
\<close>

theorem sbas_id_shifts_too_far:
  "convertToGnssSvIdConfig srcs c = None \<longleftrightarrow>
     (\<exists>src\<in>set srcs. constellation src = GNSS_SV_TYPE_SBAS \<and> 208 \<le> svId src \<and> svId src < 247)"
proof -
  have "add_sources srcs d = None \<longleftrightarrow>
     (\<exists>src\<in>set srcs. constellation src = GNSS_SV_TYPE_SBAS \<and> 208 \<le> svId src \<and> svId src < 247)" for d
    by (induction srcs arbitrary: d)
      (auto simp: bind_eq_None_conv add_source_undefined split: Option.bind_splits simp flip: not_None_eq)
  then show ?thesis by (simp add: convertToGnssSvIdConfig_def Let_def bind_eq_None_conv)
qed

end
