(* ===== verification/GnssNtrip.thy ===== *)
theory GnssNtrip
  imports CText "HOL-Library.Word"
begin

unbundle bit_operations_syntax

text \<open>
  The correction stream of \<open>src/gps/gnss/GnssAdapter.cpp\<close> (DGnss Ntrip source): when it is started,
  stopped and updated, and how a GGA sentence is taken out of the text of the engine. The service
  behind \<open>XtraSystemStatusObserver\<close> is asked by \<open>source_calls\<close>. Whether a tracking session runs and
  the time since boot are arguments. \<open>std::string::at\<close> beyond the end throws: None.
\<close>

section \<open>State\<close>

record ntrip_params =
  useSSL :: bool
  hostNameOrIp :: string
  port :: "32 word"
  mountPoint :: string
  username :: string
  password :: string
  requiresNmeaLocation :: bool

datatype source_call = StartSource ntrip_params string | StopSource | UpdateNmea string

record ntrip_state =
  mDgnssState :: "16 word"
  mSendNmeaConsent :: bool
  ntripParams :: ntrip_params
  ntrip_nmea :: string
  mDgnssLastNmeaBootTimeMilli :: "64 word"
  source_calls :: "source_call list"

definition ENABLE_NTRIP_COMMAND :: "16 word" where "ENABLE_NTRIP_COMMAND = 1"
definition NO_NMEA_PENDING :: "16 word" where "NO_NMEA_PENDING = 2"
definition NTRIP_SESSION_STARTED :: "16 word" where "NTRIP_SESSION_STARTED = 4"
definition RANGE_UPDATE_TIME_10MIN :: "64 word" where "RANGE_UPDATE_TIME_10MIN = 600000"

lemmas ntrip_bits = ENABLE_NTRIP_COMMAND_def NO_NMEA_PENDING_def NTRIP_SESSION_STARTED_def

definition cleared_params :: ntrip_params where
  "cleared_params = \<lparr>useSSL = False, hostNameOrIp = [], port = 0, mountPoint = [], username = [], password = [],
     requiresNmeaLocation = False\<rparr>"

definition isDgnssNmeaRequired :: "ntrip_state \<Rightarrow> bool" where
  "isDgnssNmeaRequired s \<longleftrightarrow> mSendNmeaConsent s \<and> requiresNmeaLocation (ntripParams s)"

definition ntrip_started :: "ntrip_state \<Rightarrow> bool" where
  "ntrip_started s \<longleftrightarrow> mDgnssState s AND NTRIP_SESSION_STARTED \<noteq> 0"

definition set_bits :: "16 word \<Rightarrow> ntrip_state \<Rightarrow> ntrip_state" where
  "set_bits b s = s\<lparr>mDgnssState := mDgnssState s OR b\<rparr>"

definition clear_bits :: "16 word \<Rightarrow> ntrip_state \<Rightarrow> ntrip_state" where
  "clear_bits b s = s\<lparr>mDgnssState := mDgnssState s AND NOT b\<rparr>"

definition ask_source :: "source_call \<Rightarrow> ntrip_state \<Rightarrow> ntrip_state" where
  "ask_source c s = s\<lparr>source_calls := source_calls s @ [c]\<rparr>"

section \<open>Starting and stopping\<close>

definition checkUpdateDgnssNtrip :: "bool \<Rightarrow> 64 word \<Rightarrow> bool \<Rightarrow> ntrip_state \<Rightarrow> ntrip_state" where
  "checkUpdateDgnssNtrip inSession curBootTime isLocationValid s =
     (if \<not> inSession then s
      else if mDgnssState s = ENABLE_NTRIP_COMMAND OR NO_NMEA_PENDING then
        (let s1 = ask_source (StartSource (ntripParams s) (ntrip_nmea s)) (set_bits NTRIP_SESSION_STARTED s)
         in if isDgnssNmeaRequired s1 then s1\<lparr>mDgnssLastNmeaBootTimeMilli := curBootTime\<rparr> else s1)
      else if ntrip_started s \<and> isLocationValid \<and> isDgnssNmeaRequired s \<and>
              curBootTime - mDgnssLastNmeaBootTimeMilli s > RANGE_UPDATE_TIME_10MIN
      then (ask_source (UpdateNmea (ntrip_nmea s)) s)\<lparr>mDgnssLastNmeaBootTimeMilli := curBootTime\<rparr>
      else s)"

definition stopDgnssNtrip :: "ntrip_state \<Rightarrow> ntrip_state" where
  "stopDgnssNtrip s = (if ntrip_started s then ask_source StopSource (clear_bits NTRIP_SESSION_STARTED s) else s)"

text \<open>What \<open>eraseTrackingSession\<close> does to the stream.\<close>

definition ntrip_session_erased :: "ntrip_state \<Rightarrow> ntrip_state" where
  "ntrip_session_erased s =
     stopDgnssNtrip (if mSendNmeaConsent s \<and> requiresNmeaLocation (ntripParams s)
                     then (clear_bits NO_NMEA_PENDING s)\<lparr>ntrip_nmea := []\<rparr> else s)"

text \<open>The last comparison of the source is of a value with itself.\<close>

definition same_params :: "ntrip_params \<Rightarrow> ntrip_params \<Rightarrow> bool" where
  "same_params old params \<longleftrightarrow>
     useSSL old = useSSL params \<and> hostNameOrIp old = hostNameOrIp params \<and> port old = port params \<and>
     mountPoint old = mountPoint params \<and> username old = username params \<and> password old = password params \<and>
     requiresNmeaLocation params = requiresNmeaLocation params"

definition handleEnablePPENtrip :: "bool \<Rightarrow> 64 word \<Rightarrow> ntrip_params \<Rightarrow> ntrip_state \<Rightarrow> ntrip_state" where
  "handleEnablePPENtrip inSession curBootTime params s =
     (if same_params (ntripParams s) params then s
      else
        (let s1 = clear_bits NTRIP_SESSION_STARTED (set_bits NO_NMEA_PENDING (set_bits ENABLE_NTRIP_COMMAND s));
             s2 = s1\<lparr>ntripParams := params, ntrip_nmea := []\<rparr>
         in if mSendNmeaConsent s2 \<and> requiresNmeaLocation (ntripParams s2)
            then (clear_bits NO_NMEA_PENDING s2)\<lparr>mDgnssLastNmeaBootTimeMilli := 0\<rparr>
            else checkUpdateDgnssNtrip inSession curBootTime False s2))"

definition handleDisablePPENtrip :: "ntrip_state \<Rightarrow> ntrip_state" where
  "handleDisablePPENtrip s =
     stopDgnssNtrip (set_bits NO_NMEA_PENDING (clear_bits ENABLE_NTRIP_COMMAND
       (s\<lparr>ntripParams := cleared_params, ntrip_nmea := []\<rparr>)))"

text \<open>A GGA sentence that the adapter has generated itself (\<open>reportPosition\<close>).\<close>

definition gga_generated :: "bool \<Rightarrow> 64 word \<Rightarrow> string \<Rightarrow> bool \<Rightarrow> ntrip_state \<Rightarrow> ntrip_state" where
  "gga_generated inSession curBootTime gga isLocationValid s =
     (if isDgnssNmeaRequired s
      then checkUpdateDgnssNtrip inSession curBootTime isLocationValid ((set_bits NO_NMEA_PENDING s)\<lparr>ntrip_nmea := gga\<rparr>)
      else s)"

section \<open>Sentences of the engine\<close>

definition find_from :: "string \<Rightarrow> string \<Rightarrow> nat \<Rightarrow> nat option" where
  "find_from pat s pos =
     (if length s < pos then None else map_option (\<lambda>n. pos + n) (find_str pat (drop pos s)))"

definition gga_sentence :: "string \<Rightarrow> string option" where
  "gga_sentence nmea =
     (case find_from ''GGA'' nmea 0 of
        None \<Rightarrow> None
      | Some foundPos \<Rightarrow>
          if foundPos < 3 then None
          else Some (case find_from ''$'' nmea foundPos of
                 Some foundNextSentence \<Rightarrow> take foundNextSentence (drop (foundPos - 3) nmea)
               | None \<Rightarrow> drop (foundPos - 3) nmea))"

fun skip_commas :: "nat \<Rightarrow> string \<Rightarrow> nat option \<Rightarrow> nat \<Rightarrow> nat option \<times> nat" where
  "skip_commas 0 gga foundPos foundNth = (foundPos, foundNth)"
| "skip_commas (Suc k) gga None foundNth = (None, foundNth)"
| "skip_commas (Suc k) gga (Some foundPos) foundNth =
     skip_commas k gga (find_from '','' gga (foundPos + 1)) (foundNth + 1)"

definition reportGGAToNtrip :: "bool \<Rightarrow> 64 word \<Rightarrow> string \<Rightarrow> ntrip_state \<Rightarrow> ntrip_state option" where
  "reportGGAToNtrip inSession curBootTime nmea s =
     (if \<not> isDgnssNmeaRequired s \<or> nmea = [] then Some s
      else case gga_sentence nmea of
          None \<Rightarrow> Some s
        | Some gga \<Rightarrow>
            (let (foundPos, foundNth) = skip_commas 6 gga (find_from '','' gga 0) 0
             in if foundNth = 6 then
                  (case foundPos of
                     None \<Rightarrow> None
                   | Some p \<Rightarrow>
                       if gga ! (p - 1) \<noteq> CHR ''0''
                       then Some (checkUpdateDgnssNtrip inSession curBootTime True
                              ((set_bits NO_NMEA_PENDING s)\<lparr>ntrip_nmea := gga\<rparr>))
                       else Some s)
                else Some s))"

section \<open>Bits\<close>

lemma started_set [simp]: "ntrip_started (set_bits NTRIP_SESSION_STARTED s)"
  by (simp add: ntrip_started_def set_bits_def ntrip_bits bit.conj_disj_distrib2)

lemma started_other [simp]:
  "ntrip_started (set_bits NO_NMEA_PENDING s) = ntrip_started s"
  "ntrip_started (set_bits ENABLE_NTRIP_COMMAND s) = ntrip_started s"
  "ntrip_started (clear_bits NO_NMEA_PENDING s) = ntrip_started s"
  "ntrip_started (clear_bits ENABLE_NTRIP_COMMAND s) = ntrip_started s"
  by (simp_all add: ntrip_started_def set_bits_def clear_bits_def ntrip_bits bit.conj_disj_distrib2 and.assoc)

lemma started_clear [simp]: "\<not> ntrip_started (clear_bits NTRIP_SESSION_STARTED s)"
  by (simp add: ntrip_started_def clear_bits_def ntrip_bits and.assoc)

lemma started_update [simp]:
  "ntrip_started (s\<lparr>ntripParams := p\<rparr>) = ntrip_started s"
  "ntrip_started (s\<lparr>ntrip_nmea := n\<rparr>) = ntrip_started s"
  "ntrip_started (s\<lparr>mDgnssLastNmeaBootTimeMilli := t\<rparr>) = ntrip_started s"
  "ntrip_started (s\<lparr>mSendNmeaConsent := b\<rparr>) = ntrip_started s"
  "ntrip_started (ask_source c s) = ntrip_started s"
  by (simp_all add: ntrip_started_def ask_source_def)

lemma fields_kept [simp]:
  "ntripParams (set_bits b s) = ntripParams s" "ntripParams (clear_bits b s) = ntripParams s"
  "ntripParams (ask_source c s) = ntripParams s"
  "mSendNmeaConsent (set_bits b s) = mSendNmeaConsent s" "mSendNmeaConsent (clear_bits b s) = mSendNmeaConsent s"
  "mSendNmeaConsent (ask_source c s) = mSendNmeaConsent s"
  "source_calls (set_bits b s) = source_calls s" "source_calls (clear_bits b s) = source_calls s"
  "source_calls (ask_source c s) = source_calls s @ [c]"
  by (simp_all add: set_bits_def clear_bits_def ask_source_def)

lemma stop_not_started [simp]: "\<not> ntrip_started (stopDgnssNtrip s)"
  by (simp add: stopDgnssNtrip_def)

lemma erased_not_started [simp]: "\<not> ntrip_started (ntrip_session_erased s)"
  by (simp add: ntrip_session_erased_def)

lemma disabled_not_started [simp]: "\<not> ntrip_started (handleDisablePPENtrip s)"
  by (simp add: handleDisablePPENtrip_def)

lemma started_only_in_session:
  "ntrip_started (checkUpdateDgnssNtrip b t v s) \<Longrightarrow> b \<or> ntrip_started s"
  "ntrip_started (handleEnablePPENtrip b t p s) \<Longrightarrow> b \<or> ntrip_started s"
  "ntrip_started (gga_generated b t g v s) \<Longrightarrow> b \<or> ntrip_started s"
  "reportGGAToNtrip b t n s = Some s' \<Longrightarrow> ntrip_started s' \<Longrightarrow> b \<or> ntrip_started s"
proof -
  show check: "ntrip_started (checkUpdateDgnssNtrip b t v s) \<Longrightarrow> b \<or> ntrip_started s" for v s
    by (auto simp: checkUpdateDgnssNtrip_def split: if_splits)
  show "ntrip_started (handleEnablePPENtrip b t p s) \<Longrightarrow> b \<or> ntrip_started s"
    by (auto simp: handleEnablePPENtrip_def Let_def dest!: check split: if_splits)
  show "ntrip_started (gga_generated b t g v s) \<Longrightarrow> b \<or> ntrip_started s"
    by (auto simp: gga_generated_def dest!: check split: if_splits)
  show "reportGGAToNtrip b t n s = Some s' \<Longrightarrow> ntrip_started s' \<Longrightarrow> b \<or> ntrip_started s"
    by (auto simp: reportGGAToNtrip_def Let_def dest!: check split: if_splits option.splits prod.splits)
qed

section \<open>Commas of a GGA sentence\<close>

abbreviation commas :: "string \<Rightarrow> nat" where
  "commas g \<equiv> length (filter (\<lambda>c. c = CHR '','') g)"

lemma find_str_absent: "c \<notin> set u \<Longrightarrow> find_str [c] u = None"
  by (induction u) (auto simp: find_str.simps)

lemma find_comma:
  assumes "p \<le> length g"
  shows "find_from '','' g p = None \<longleftrightarrow> commas (drop p g) = 0"
    and "find_from '','' g p = Some q \<Longrightarrow> q < length g \<and> commas (drop p g) = Suc (commas (drop (Suc q) g))"
proof -
  show "find_from '','' g p = None \<longleftrightarrow> commas (drop p g) = 0"
  proof (cases "CHR '','' \<in> set (drop p g)")
    case True
    then obtain u v where "drop p g = u @ CHR '','' # v" "CHR '','' \<notin> set u" by (meson split_list_first)
    then show ?thesis using assms by (simp add: find_from_def find_str_char)
  next
    case False
    then show ?thesis using assms by (auto simp: find_from_def find_str_absent filter_empty_conv)
  qed
  assume q: "find_from '','' g p = Some q"
  then have "CHR '','' \<in> set (drop p g)"
    using assms find_str_absent by (fastforce simp: find_from_def)
  then obtain u v where uv: "drop p g = u @ CHR '','' # v" "CHR '','' \<notin> set u" by (meson split_list_first)
  then have "q = p + length u" using q assms by (simp add: find_from_def find_str_char)
  moreover have "length g = p + length u + Suc (length v)"
    using arg_cong [OF uv(1), of length] assms by simp
  moreover have "drop (Suc (p + length u)) g = drop (Suc (length u)) (drop p g)" by (simp add: add.commute)
  ultimately show "q < length g \<and> commas (drop p g) = Suc (commas (drop (Suc q) g))"
    using uv by (auto simp: filter_empty_conv)
qed

lemma skip_commas_count:
  "p \<le> length g \<Longrightarrow> skip_commas k g (find_from '','' g p) n = (pos, m) \<Longrightarrow>
     m = n + min k (commas (drop p g)) \<and> (pos = None \<longleftrightarrow> commas (drop p g) \<le> k)"
proof (induction k arbitrary: p n)
  case 0
  then show ?case using find_comma(1) [of p g] by simp
next
  case (Suc k)
  show ?case
  proof (cases "find_from '','' g p")
    case None
    then show ?thesis using Suc.prems find_comma(1) [of p g] by simp
  next
    case (Some q)
    note f = find_comma(2) [OF Suc.prems(1) Some]
    have "skip_commas k g (find_from '','' g (Suc q)) (Suc n) = (pos, m)" using Suc.prems(2) Some by simp
    from Suc.IH [OF _ this] f show ?thesis by simp
  qed
qed

text \<open>
  When the consent for locations is given and the stream needs them, a GGA sentence with exactly
  six commas makes the adapter read the string at the position before \<open>npos\<close>, which throws. Any other
  text of the engine is handled.\<close>

theorem gga_with_six_commas_throws:
  "reportGGAToNtrip inSession now nmea s = None \<longleftrightarrow>
     isDgnssNmeaRequired s \<and> (\<exists>gga. gga_sentence nmea = Some gga \<and> commas gga = 6)"
proof -
  have empty: "gga_sentence [] = None" by (simp add: gga_sentence_def find_from_def find_str.simps)
  have six: "m = min 6 (commas g) \<and> (pos = None \<longleftrightarrow> commas g \<le> 6)"
    if "skip_commas 6 g (find_from '','' g 0) 0 = (pos, m)" for g pos m
    using skip_commas_count [OF _ that] by simp
  show ?thesis
    by (auto simp: reportGGAToNtrip_def Let_def empty dest!: six split: option.splits prod.splits)
qed

text \<open>
  The GGA sentence is cut off at the sentence that follows only if it is the first of the text:
  the position of the next sentence is used as the length, so a text before the sentence lets as many
  characters of the following one in.
\<close>

theorem gga_cut_too_late:
  assumes "find_from ''GGA'' (u @ g @ CHR ''$'' # v) 0 = Some (length u + 3)" "3 \<le> length g"
    "CHR ''$'' \<notin> set (drop 3 g)"
  shows "gga_sentence (u @ g @ CHR ''$'' # v) = Some (g @ take (length u) (CHR ''$'' # v))"
proof -
  have "find_from ''$'' (u @ g @ CHR ''$'' # v) (length u + 3) = Some (length u + length g)"
    using assms find_str_char [of "CHR ''$''" "drop 3 g" v] by (simp add: find_from_def)
  then show ?thesis using assms by (simp add: gga_sentence_def)
qed

theorem gga_cut_too_late_witness:
  "gga_sentence ''$A$GPGGA,1$B'' = Some ''$GPGGA,1$B''"
  using gga_cut_too_late [of "''$A''" "''$GPGGA,1''" "''B''"]
  by (simp add: find_from_def find_str.simps)

section \<open>Changing the stream\<close>

text \<open>
  A stream that is reconfigured while it runs, to one that needs locations, is never stopped: the
  started bit is cleared without asking the source to stop, so neither the end of the session nor the
  command that disables the stream stops it.
\<close>

theorem reconfigured_stream_never_stopped:
  assumes "mSendNmeaConsent s" "requiresNmeaLocation params" "\<not> same_params (ntripParams s) params"
  shows "source_calls (handleDisablePPENtrip (ntrip_session_erased (handleEnablePPENtrip inSession now params s)))
    = source_calls s"
proof -
  define e where "e = handleEnablePPENtrip inSession now params s"
  have e: "\<not> ntrip_started e" "source_calls e = source_calls s"
    using assms by (simp_all add: e_def handleEnablePPENtrip_def Let_def)
  then have "source_calls (ntrip_session_erased e) = source_calls s"
    by (simp add: ntrip_session_erased_def stopDgnssNtrip_def)
  then show ?thesis by (simp add: handleDisablePPENtrip_def stopDgnssNtrip_def flip: e_def)
qed

theorem reconfigured_stream_never_stopped_witness:
  "let p = cleared_params\<lparr>hostNameOrIp := ''a''\<rparr>;
       s0 = \<lparr>mDgnssState = 0, mSendNmeaConsent = True, ntripParams = cleared_params, ntrip_nmea = [],
             mDgnssLastNmeaBootTimeMilli = 0, source_calls = []\<rparr>;
       s = handleEnablePPENtrip True 0 p s0;
       q = p\<lparr>hostNameOrIp := ''b'', requiresNmeaLocation := True\<rparr>
   in source_calls (handleDisablePPENtrip (ntrip_session_erased (handleEnablePPENtrip True 1 q s))) = [StartSource p []]"
  unfolding Let_def
  by (subst reconfigured_stream_never_stopped)
    (simp_all add: handleEnablePPENtrip_def same_params_def cleared_params_def checkUpdateDgnssNtrip_def
      set_bits_def clear_bits_def ask_source_def ntrip_bits isDgnssNmeaRequired_def Let_def)

text \<open>
  A command that changes only whether the stream needs locations is taken for a repetition of the
  last one and ignored.
\<close>

theorem location_flag_change_ignored:
  "handleEnablePPENtrip inSession now ((ntripParams s)\<lparr>requiresNmeaLocation := b\<rparr>) s = s"
  by (simp add: handleEnablePPENtrip_def same_params_def)

end
