(* ===== verification/GnssOdcpi.thy ===== *)
theory GnssOdcpi
  imports Prelude "HOL-Library.Word" "HOL-Library.Monad_Syntax"
begin

text \<open>
  On-demand coarse positions in \<open>src/gps/gnss/GnssAdapter.cpp\<close> and \<open>.h\<close>: the requests of the modem
  (\<open>requestOdcpi\<close>) are handed to the framework at most once per period of the timer (\<open>OdcpiTimer\<close>).
  The timer is \<open>mActive\<close>, the flag of the adapter, and \<open>armed\<close>, whether the timer thread will call
  back; a callback queues a message (\<open>expire_msgs\<close>) that is processed later. What the callback of the
  framework is given is collected in \<open>odcpi_calls\<close>. A call of an empty callback throws: None.
\<close>

section \<open>State\<close>

datatype odcpi_type = ODCPI_START | ODCPI_STOP | ODCPI_INVALID

record odcpi_request =
  request_type :: odcpi_type
  tbfMillis :: "32 word"
  isEmergencyMode :: bool

datatype odcpi_priority = PRIORITY_LOW | PRIORITY_HIGH

fun priority_code :: "odcpi_priority \<Rightarrow> nat" where
  "priority_code PRIORITY_LOW = 0"
| "priority_code PRIORITY_HIGH = 1"

record odcpi_state =
  mOdcpiRequestCb :: "nat option"
  mOdcpiRequestActive :: bool
  mActive :: bool
  armed :: bool
  expire_msgs :: nat
  mOdcpiRequest :: odcpi_request
  mCallbackPriority :: odcpi_priority
  odcpi_calls :: "(nat \<times> odcpi_request) list"

section \<open>The timer\<close>

text \<open>\<open>LocTimer::start\<close> has no effect on a timer that runs.\<close>

definition timer_start :: "odcpi_state \<Rightarrow> odcpi_state" where
  "timer_start s = s\<lparr>mActive := True, armed := True\<rparr>"

definition timer_stop :: "odcpi_state \<Rightarrow> odcpi_state" where
  "timer_stop s = s\<lparr>mActive := False, armed := False\<rparr>"

definition timer_restart :: "odcpi_state \<Rightarrow> odcpi_state" where
  "timer_restart s = timer_start (timer_stop s)"

definition odcpiTimerExpireEvent :: "odcpi_state \<Rightarrow> odcpi_state" where
  "odcpiTimerExpireEvent s = (if armed s then s\<lparr>armed := False, expire_msgs := expire_msgs s + 1\<rparr> else s)"

section \<open>Requests\<close>

definition call_framework :: "nat \<Rightarrow> odcpi_request \<Rightarrow> odcpi_state \<Rightarrow> odcpi_state" where
  "call_framework cb r s = s\<lparr>odcpi_calls := odcpi_calls s @ [(cb, r)]\<rparr>"

definition requestOdcpi :: "odcpi_request \<Rightarrow> odcpi_state \<Rightarrow> odcpi_state" where
  "requestOdcpi r s =
     (case mOdcpiRequestCb s of
        None \<Rightarrow> s
      | Some cb \<Rightarrow>
          (case request_type r of
             ODCPI_START \<Rightarrow>
               (if \<not> mOdcpiRequestActive s \<and> \<not> mActive s
                then timer_start ((call_framework cb r s)\<lparr>mOdcpiRequestActive := True\<rparr>)
                else if \<not> isEmergencyMode (mOdcpiRequest s) \<and> isEmergencyMode r
                then (let s1 = (call_framework cb r s)\<lparr>mOdcpiRequestActive := True\<rparr>
                      in if mActive s1 then timer_restart s1 else timer_start s1)
                else if \<not> mOdcpiRequestActive s \<and> mActive s
                then s\<lparr>mOdcpiRequestActive := True\<rparr>
                else s)\<lparr>mOdcpiRequest := r\<rparr>
           | ODCPI_STOP \<Rightarrow> (call_framework cb r s)\<lparr>mOdcpiRequestActive := False\<rparr>
           | ODCPI_INVALID \<Rightarrow> s))"

definition initOdcpi :: "nat option \<Rightarrow> odcpi_priority \<Rightarrow> odcpi_state \<Rightarrow> bool \<times> odcpi_state" where
  "initOdcpi callback priority s =
     (if priority_code (mCallbackPriority s) \<le> priority_code priority
      then (True, s\<lparr>mOdcpiRequestCb := callback, mCallbackPriority := priority\<rparr>) else (False, s))"

definition odcpiTimerExpire :: "odcpi_state \<Rightarrow> odcpi_state option" where
  "odcpiTimerExpire s =
     (if mOdcpiRequestActive s
      then (case mOdcpiRequestCb s of
              None \<Rightarrow> None
            | Some cb \<Rightarrow> Some (timer_restart (call_framework cb (mOdcpiRequest s) s)))
      else Some (timer_stop s))"

section \<open>Runs\<close>

text \<open>The message task processes requests and expiry messages in their order; the timer thread may
  call back at any time; a modem restart clears the active flag.\<close>

datatype odcpi_event =
    Request odcpi_request | TimerCallback | ExpireMsg | ModemRestart | InitCallback "nat option" odcpi_priority

fun odcpi_step :: "odcpi_event \<Rightarrow> odcpi_state \<Rightarrow> odcpi_state option" where
  "odcpi_step (Request r) s = Some (requestOdcpi r s)"
| "odcpi_step TimerCallback s = Some (odcpiTimerExpireEvent s)"
| "odcpi_step ExpireMsg s =
     (if expire_msgs s = 0 then Some s else odcpiTimerExpire (s\<lparr>expire_msgs := expire_msgs s - 1\<rparr>))"
| "odcpi_step ModemRestart s = Some (s\<lparr>mOdcpiRequestActive := False\<rparr>)"
| "odcpi_step (InitCallback cb p) s = Some (snd (initOdcpi cb p s))"

fun odcpi_run :: "odcpi_event list \<Rightarrow> odcpi_state \<Rightarrow> odcpi_state option" where
  "odcpi_run [] s = Some s"
| "odcpi_run (e # es) s = do { s' \<leftarrow> odcpi_step e s; odcpi_run es s' }"

definition new_odcpi :: odcpi_state where
  "new_odcpi = \<lparr>mOdcpiRequestCb = None, mOdcpiRequestActive = False, mActive = False, armed = False, expire_msgs = 0,
     mOdcpiRequest = \<lparr>request_type = ODCPI_START, tbfMillis = 0, isEmergencyMode = False\<rparr>,
     mCallbackPriority = PRIORITY_LOW, odcpi_calls = []\<rparr>"

section \<open>An active request is repeated\<close>

definition odcpi_inv :: "odcpi_state \<Rightarrow> bool" where
  "odcpi_inv s \<longleftrightarrow>
     (mOdcpiRequestActive s \<longrightarrow> mActive s \<and> mOdcpiRequestCb s \<noteq> None) \<and>
     (mActive s \<longrightarrow> armed s \<or> 0 < expire_msgs s) \<and> (armed s \<longrightarrow> mActive s)"

lemmas odcpi_ops = requestOdcpi_def timer_start_def timer_stop_def timer_restart_def call_framework_def
  odcpiTimerExpireEvent_def odcpiTimerExpire_def initOdcpi_def

lemma odcpi_step_inv:
  assumes "odcpi_inv s" "\<forall>p. e \<noteq> InitCallback None p"
  shows "\<exists>s'. odcpi_step e s = Some s' \<and> odcpi_inv s'"
proof (cases e)
  case (Request r)
  then show ?thesis
    using assms by (cases "request_type r") (auto simp: odcpi_inv_def odcpi_ops Let_def split: option.splits)
next
  case (InitCallback cb p)
  then show ?thesis using assms by (cases cb) (auto simp: odcpi_inv_def odcpi_ops)
next
  case ExpireMsg
  then show ?thesis using assms by (auto simp: odcpi_inv_def odcpi_ops split: option.splits)
qed (use assms in \<open>auto simp: odcpi_inv_def odcpi_ops\<close>)

text \<open>
  C14. As long as no empty callback is registered, no event makes the adapter call an empty callback,
  and a request that is active is never forgotten: its timer runs or its expiry message is queued.\<close>

theorem odcpi_request_not_forgotten:
  assumes "\<forall>p. InitCallback None p \<notin> set es"
  shows "\<exists>s. odcpi_run es new_odcpi = Some s \<and> (mOdcpiRequestActive s \<longrightarrow> armed s \<or> 0 < expire_msgs s)"
proof -
  have "\<exists>t. odcpi_run es s = Some t \<and> odcpi_inv t" if "odcpi_inv s" for s
    using assms that
  proof (induction es arbitrary: s)
    case (Cons e es)
    obtain s' where "odcpi_step e s = Some s'" "odcpi_inv s'"
      using odcpi_step_inv [OF Cons.prems(2), of e] Cons.prems(1) by auto
    then show ?case using Cons by auto
  qed simp
  moreover have "odcpi_inv new_odcpi" by (simp add: odcpi_inv_def new_odcpi_def)
  ultimately show ?thesis unfolding odcpi_inv_def by blast
qed

theorem odcpi_request_not_forgotten_witness:
  "\<exists>s. odcpi_run [InitCallback (Some 7) PRIORITY_LOW,
        Request \<lparr>request_type = ODCPI_START, tbfMillis = 1, isEmergencyMode = False\<rparr>, TimerCallback] new_odcpi = Some s \<and>
     (mOdcpiRequestActive s \<longrightarrow> armed s \<or> 0 < expire_msgs s)"
  by (rule odcpi_request_not_forgotten) simp

section \<open>How often the framework is asked\<close>

definition starts :: "odcpi_state \<Rightarrow> nat" where
  "starts s = length (filter (\<lambda>(_, r). request_type r = ODCPI_START) (odcpi_calls s))"

fun calm :: "odcpi_event \<Rightarrow> bool" where
  "calm (Request r) \<longleftrightarrow> \<not> isEmergencyMode r"
| "calm ExpireMsg \<longleftrightarrow> False"
| "calm _ \<longleftrightarrow> True"

lemma calm_step:
  "calm e \<Longrightarrow> odcpi_step e s = Some s' \<Longrightarrow>
     starts s' + (if mActive s' then 0 else 1) \<le> starts s + (if mActive s then 0 else 1)"
  by (cases e)
    (auto simp: odcpi_ops starts_def Let_def split: option.splits odcpi_type.splits if_splits)

text \<open>
  C15. Between two expiries of the timer, requests that are no emergencies make the adapter ask the
  framework to start at most once, whatever the modem, the timer thread and a modem restart do, and
  not at all while the timer is active.\<close>

theorem odcpi_starts_limited:
  assumes "\<forall>e\<in>set es. calm e" "odcpi_run es s = Some s'"
  shows "starts s' \<le> starts s + (if mActive s then 0 else 1)"
proof -
  have "starts s' + (if mActive s' then 0 else 1) \<le> starts s + (if mActive s then 0 else 1)"
    using assms
  proof (induction es arbitrary: s)
    case (Cons e es)
    then obtain t where t: "odcpi_step e s = Some t" "odcpi_run es t = Some s'"
      by (auto simp: bind_eq_Some_conv)
    have "starts s' + (if mActive s' then 0 else 1) \<le> starts t + (if mActive t then 0 else 1)"
      using Cons.IH [OF _ t(2)] Cons.prems(1) by simp
    moreover have "starts t + (if mActive t then 0 else 1) \<le> starts s + (if mActive s then 0 else 1)"
      using calm_step [OF _ t(1)] Cons.prems(1) by simp
    ultimately show ?case by linarith
  qed simp
  then show ?thesis by linarith
qed

abbreviation "req ty em \<equiv> \<lparr>request_type = ty, tbfMillis = 1000, isEmergencyMode = em\<rparr>"

theorem odcpi_starts_limited_witness:
  "case odcpi_run [Request (req ODCPI_START False), Request (req ODCPI_STOP False), Request (req ODCPI_START False)]
          (new_odcpi\<lparr>mOdcpiRequestCb := Some 7\<rparr>) of
     None \<Rightarrow> False
   | Some s' \<Rightarrow> starts s' \<le> starts (new_odcpi\<lparr>mOdcpiRequestCb := Some 7\<rparr>) + 1"
proof -
  define es where "es = [Request (req ODCPI_START False), Request (req ODCPI_STOP False), Request (req ODCPI_START False)]"
  define s where "s = new_odcpi\<lparr>mOdcpiRequestCb := Some (7::nat)\<rparr>"
  obtain s' where s': "odcpi_run es s = Some s'" by (simp add: es_def)
  have "starts s' \<le> starts s + (if mActive s then 0 else 1)"
    by (rule odcpi_starts_limited [OF _ s']) (simp add: es_def)
  then show ?thesis using s' by (simp add: es_def s_def new_odcpi_def)
qed

text \<open>
  An emergency request can wait for the timer: when an emergency has been stopped and its timer
  still runs, the next emergency is only noted, because the last request was an emergency too. The
  framework is told of it when the timer expires.
\<close>

theorem second_emergency_waits:
  assumes "mOdcpiRequestCb s = Some cb" "isEmergencyMode (mOdcpiRequest s)" "mActive s"
    "request_type stop = ODCPI_STOP" "request_type start = ODCPI_START"
  shows "odcpi_calls (requestOdcpi start (requestOdcpi stop s)) = odcpi_calls s @ [(cb, stop)]"
  using assms by (simp add: odcpi_ops)

theorem second_emergency_waits_witness:
  "odcpi_calls (requestOdcpi (req ODCPI_START True) (requestOdcpi (req ODCPI_STOP True)
     (requestOdcpi (req ODCPI_START True) (new_odcpi\<lparr>mOdcpiRequestCb := Some 7\<rparr>)))) =
   [(7, req ODCPI_START True), (7, req ODCPI_STOP True)]"
  by (subst second_emergency_waits [of _ 7]) (simp_all add: odcpi_ops new_odcpi_def)

text \<open>
  Emergency requests that alternate with others are all handed to the framework, without any
  expiry of the timer in between: each other request replaces the emergency that was noted.
\<close>

theorem alternating_emergencies_not_limited:
  assumes "mOdcpiRequestCb s = Some cb" "mActive s" "mOdcpiRequestActive s" "\<not> isEmergencyMode (mOdcpiRequest s)"
    "request_type e = ODCPI_START" "isEmergencyMode e" "request_type r = ODCPI_START" "\<not> isEmergencyMode r"
  shows "map_option odcpi_calls (odcpi_run (concat (replicate n [Request e, Request r])) s) =
    Some (odcpi_calls s @ replicate n (cb, e))"
  using assms(1-4)
proof (induction n arbitrary: s)
  case (Suc n)
  define t where "t = requestOdcpi r (requestOdcpi e s)"
  have t: "mOdcpiRequestCb t = Some cb" "mActive t" "mOdcpiRequestActive t" "\<not> isEmergencyMode (mOdcpiRequest t)"
    "odcpi_calls t = odcpi_calls s @ [(cb, e)]"
    using Suc.prems assms(5-) by (auto simp: t_def odcpi_ops Let_def)
  show ?case using Suc.IH [OF t(1-4)] t(5) by (simp add: t_def)
qed simp

theorem alternating_emergencies_not_limited_witness:
  "map_option odcpi_calls (odcpi_run (concat (replicate 2 [Request (req ODCPI_START True), Request (req ODCPI_START False)]))
     (requestOdcpi (req ODCPI_START False) (new_odcpi\<lparr>mOdcpiRequestCb := Some 7\<rparr>))) =
   Some [(7, req ODCPI_START False), (7, req ODCPI_START True), (7, req ODCPI_START True)]"
  by (subst alternating_emergencies_not_limited [of _ 7])
    (simp_all add: odcpi_ops new_odcpi_def numeral_2_eq_2)

end
