(* ===== verification/GnssTracking.thy ===== *)
theory GnssTracking
  imports AdapterBase GnssSvId GnssNtrip GnssOdcpi
begin

text \<open>
  Tracking sessions of \<open>src/gps/gnss/GnssAdapter.cpp\<close>: the sessions of all clients share one engine.
  Sessions with a minimum distance are handed to the engine one by one, if it supports that; the
  others are multiplexed, the engine runs with the smallest interval. With them come what starting
  and stopping a session touches: the power state, the correction stream (\<open>GnssNtrip\<close>), the requests
  for coarse positions (\<open>GnssOdcpi\<close>), and the commands that suspend and resume the sessions. The engine
  behind \<open>LocApiBase\<close> and the engine hub are outside the program: what is asked of them is collected
  in \<open>ops\<close>, and for each request with an answer the closure waits in \<open>pending\<close>; the engine may
  answer in any order with any result. Dereferencing the end of a map is undefined, None.
\<close>

section \<open>Data\<close>

record tracking_options =
  opt_size :: "32 word"
  minInterval :: "32 word"
  minDistance :: "32 word"
  supl_mode :: nat
  locReqEngTypeMask :: nat
  powerMode :: nat
  tbm :: "32 word"

definition zero_options :: tracking_options where
  "zero_options = \<lparr>opt_size = 0, minInterval = 0, minDistance = 0, supl_mode = 0, locReqEngTypeMask = 0, powerMode = 0, tbm = 0\<rparr>"

definition MIN_TRACKING_INTERVAL :: "32 word" where "MIN_TRACKING_INTERVAL = 100"
definition TRACKING_TBM_THRESHOLD_MILLIS :: "32 word" where "TRACKING_TBM_THRESHOLD_MILLIS = 480000"
definition sizeof_tracking_options :: "32 word" where "sizeof_tracking_options = 28"

definition POWER_MODE_INVALID :: nat where "POWER_MODE_INVALID = 0"
definition POWER_MODE_M2 :: nat where "POWER_MODE_M2 = 2"
definition POWER_MODE_M4 :: nat where "POWER_MODE_M4 = 4"

datatype position_mode = POSITION_MODE_INVALID | MS_BASED | MS_ASSISTED | STANDALONE

text \<open>The members of \<open>LocPosMode\<close> that the adapter sets; the others keep their defaults.\<close>

record pos_mode =
  pos_mode_of :: position_mode
  min_interval :: "32 word"
  pos_power_mode :: nat
  timeBetweenMeasurements :: "32 word"

record sv_type_config =
  sv_type_size :: "32 word"
  blacklistedSvTypesMask :: "64 word"
  enabledSvTypesMask :: "64 word"

definition sizeof_sv_type_config :: "32 word" where "sizeof_sv_type_config = 24"

record aiding_data =
  deleteAll :: bool
  posEngineMask :: "32 word"
  aiding_items :: nat

datatype gnss_report =
    Capabilities "64 word"
  | Response loc_error session_id
  | SystemInfo nat
  | RemoveComplete

datatype engine_op =
    StartTimeBased tracking_options
  | StopFix
  | StartDistanceBased session_id tracking_options
  | StopDistanceBased session_id
  | HubSetFixMode pos_mode
  | HubStartFix
  | HubStopFix
  | SetConfig
  | SystemPowerState
  | SecondaryBand
  | NmeaTypes "32 word"
  | SetBlacklistSv sv_id_config
  | SetConstellationControl sv_type_config
  | ResetConstellationControl
  | ConfigMinGpsWeek "16 word"
  | DeleteAidingData aiding_data
  | HubDeleteAidingData aiding_data
  | DefaultEngineStates
  | ModemPowerVote bool
  | SetGpsLock "32 word"
  | XtraLockStatus "32 word"

datatype response =
    TimeBasedDone client session_id
  | UpdateDone client session_id tracking_options
  | StopFixDone client session_id
  | DistanceStartDone client session_id
  | DistanceStopDone client session_id
  | ClientDistanceStopDone client session_id
  | SwitchToTimeDone client session_id tracking_options
  | DistanceUpdateStopDone client session_id tracking_options
  | DistanceRestartDone client session_id tracking_options
  | ControlDone session_id
  | NoResponse

datatype technology = TECHNOLOGY_GNSS | TECHNOLOGY_OTHER

datatype gnss_msg =
    MsgAddClient client callbacks
  | MsgRemoveClient client bool
  | MsgRequestCapabilities client
  | MsgHandleEngineUpEvent
  | MsgStartTracking client session_id tracking_options
  | MsgUpdateTracking client session_id tracking_options
  | MsgStopTracking client session_id
  | MsgReportPower
  | MsgEnableGnss session_id technology
  | MsgDisableGnss session_id
  | MsgConfigMinGpsWeek session_id "16 word"
  | MsgUpdateSvConfig session_id sv_type_config sv_id_config
  | MsgGnssUpdateSvTypeConfig sv_type_config
  | MsgGnssResetSvTypeConfig
  | MsgDeleteAidingData session_id aiding_data
  | MsgEnableNtrip ntrip_params
  | MsgDisableNtrip
  | MsgRequestOdcpi odcpi_request
  | MsgOdcpiTimerExpire
  | MsgInitOdcpi "nat option" odcpi_priority

record gnss_adapter = "(gnss_msg, gnss_report) adapter_base" +
  mTimeBasedTrackingSessions :: "(session_key \<times> tracking_options) list"
  mDistanceBasedTrackingSessions :: "(session_key \<times> tracking_options) list"
  mLocPositionMode :: pos_mode
  mNHzNeeded :: bool
  mSPEAlreadyRunningAtHighestInterval :: bool
  mPrevNmeaRptTimeNsec :: "64 word"
  mPowerOn :: bool
  mPowerStateCb :: bool
  power_reports :: "bool list"
  ntrip :: ntrip_state
  boot_ms :: "64 word"
  odcpi :: odcpi_state
  mNmeaMask :: "32 word"
  EXTERNAL_DR_ENABLED :: bool
  engHubLoaded :: bool
  agpsRegistered :: bool
  systemInfoMask :: bool
  cached_system_info :: nat
  controlResponseCb :: bool
  control_reports :: "(loc_error \<times> session_id) list"
  mAfwControlId :: session_id
  mSupportNfwControl :: bool
  GPS_LOCK :: "32 word"
  mGnssSvIdConfig :: sv_id_config
  mGnssSvTypeConfig :: sv_type_config
  mBlacklistedSvIds :: "sv_id_source list"
  mLastDeleteAidingDataTime :: "64 word"
  ops :: "engine_op list"
  pending :: "response list"

definition engine :: "engine_op \<Rightarrow> response \<Rightarrow> gnss_adapter \<Rightarrow> gnss_adapter" where
  "engine op k s = s\<lparr>ops := ops s @ [op], pending := pending s @ [k]\<rparr>"

definition engine_set :: "engine_op \<Rightarrow> gnss_adapter \<Rightarrow> gnss_adapter" where
  "engine_set op s = s\<lparr>ops := ops s @ [op]\<rparr>"

section \<open>Sessions\<close>

definition isTimeBasedTrackingSession :: "client \<Rightarrow> session_id \<Rightarrow> gnss_adapter \<Rightarrow> bool" where
  "isTimeBasedTrackingSession c i s \<longleftrightarrow> map_of (mTimeBasedTrackingSessions s) (LocationSessionKey c i) \<noteq> None"

definition isDistanceBasedTrackingSession :: "client \<Rightarrow> session_id \<Rightarrow> gnss_adapter \<Rightarrow> bool" where
  "isDistanceBasedTrackingSession c i s \<longleftrightarrow> map_of (mDistanceBasedTrackingSessions s) (LocationSessionKey c i) \<noteq> None"

definition isInSession :: "gnss_adapter \<Rightarrow> bool" where
  "isInSession s \<longleftrightarrow> mTimeBasedTrackingSessions s \<noteq> []"

definition hasCallbacksToStartTracking :: "client \<Rightarrow> gnss_adapter \<Rightarrow> bool" where
  "hasCallbacksToStartTracking c s =
     (case map_of (mClientData s) c of
        None \<Rightarrow> False
      | Some cbs \<Rightarrow> trackingCb cbs \<or> gnssLocationInfoCb cbs \<or> engineLocationsInfoCb cbs \<or> gnssMeasurementsCb cbs \<or>
                    gnssDataCb cbs \<or> gnssSvCb cbs \<or> gnssNmeaCb cbs)"

definition reportResponse :: "client \<Rightarrow> loc_error \<Rightarrow> session_id \<Rightarrow> gnss_adapter \<Rightarrow> gnss_adapter" where
  "reportResponse c err i s =
     (case map_of (mClientData s) c of
        None \<Rightarrow> s
      | Some cbs \<Rightarrow> if responseCb cbs then tell c (Response err i) s else s)"

definition reportControlResponse :: "loc_error \<Rightarrow> session_id \<Rightarrow> gnss_adapter \<Rightarrow> gnss_adapter" where
  "reportControlResponse err i s =
     (if controlResponseCb s then s\<lparr>control_reports := control_reports s @ [(err, i)]\<rparr> else s)"

definition reportPowerStateIfChanged :: "gnss_adapter \<Rightarrow> gnss_adapter" where
  "reportPowerStateIfChanged s =
     (let newPowerOn = (mTimeBasedTrackingSessions s \<noteq> [] \<or> mDistanceBasedTrackingSessions s \<noteq> [])
      in if newPowerOn \<noteq> mPowerOn s
         then (let s1 = s\<lparr>mPowerOn := newPowerOn\<rparr>
               in if mPowerStateCb s1 then s1\<lparr>power_reports := power_reports s1 @ [mPowerOn s1]\<rparr> else s1)
         else s)"

definition update_ntrip :: "(ntrip_state \<Rightarrow> ntrip_state) \<Rightarrow> gnss_adapter \<Rightarrow> gnss_adapter" where
  "update_ntrip f s = s\<lparr>ntrip := f (ntrip s)\<rparr>"

definition saveTrackingSession ::
  "client \<Rightarrow> session_id \<Rightarrow> tracking_options \<Rightarrow> gnss_adapter \<Rightarrow> gnss_adapter"
where
  "saveTrackingSession c i opt s =
     (let key = LocationSessionKey c i;
          s1 = (if minDistance opt > 0 \<and> isMessageSupported DISTANCE_BASE_TRACKING (context_of s)
                then s\<lparr>mDistanceBasedTrackingSessions := put key opt (mDistanceBasedTrackingSessions s)\<rparr>
                else s\<lparr>mTimeBasedTrackingSessions := put key opt (mTimeBasedTrackingSessions s)\<rparr>);
          s2 = reportPowerStateIfChanged s1
      in update_ntrip (checkUpdateDgnssNtrip (isInSession s2) (boot_ms s2) False) s2)"

definition eraseTrackingSession :: "client \<Rightarrow> session_id \<Rightarrow> gnss_adapter \<Rightarrow> gnss_adapter" where
  "eraseTrackingSession c i s =
     (let key = LocationSessionKey c i;
          s1 = (if map_of (mTimeBasedTrackingSessions s) key \<noteq> None
                then s\<lparr>mTimeBasedTrackingSessions := AList.delete key (mTimeBasedTrackingSessions s)\<rparr>
                else s\<lparr>mDistanceBasedTrackingSessions := AList.delete key (mDistanceBasedTrackingSessions s)\<rparr>)
      in update_ntrip ntrip_session_erased (reportPowerStateIfChanged s1))"

section \<open>Requests to the engine\<close>

definition convertOptions :: "tracking_options \<Rightarrow> pos_mode" where
  "convertOptions opt =
     \<lparr>pos_mode_of = (if supl_mode opt = 1 then MS_BASED else if supl_mode opt = 2 then MS_ASSISTED else STANDALONE),
      min_interval = minInterval opt, pos_power_mode = powerMode opt, timeBetweenMeasurements = tbm opt\<rparr>"

definition setLocPositionMode :: "pos_mode \<Rightarrow> gnss_adapter \<Rightarrow> gnss_adapter" where
  "setLocPositionMode m s = (if mLocPositionMode s \<noteq> m then s\<lparr>mLocPositionMode := m\<rparr> else s)"

text \<open>Whether the engine already runs at the highest rate, the options to start with, the state.\<close>

definition checkAndSetSPEToRunforNHz ::
  "tracking_options \<Rightarrow> gnss_adapter \<Rightarrow> bool \<times> tracking_options \<times> gnss_adapter"
where
  "checkAndSetSPEToRunforNHz out s =
     (if \<not> mNHzNeeded s then (False, out, s)
      else if mSPEAlreadyRunningAtHighestInterval s then (True, out, s)
      else if minInterval out > MIN_TRACKING_INTERVAL
      then (False, out\<lparr>minInterval := MIN_TRACKING_INTERVAL\<rparr>, s\<lparr>mSPEAlreadyRunningAtHighestInterval := True\<rparr>)
      else (False, out, s))"

definition hub_start :: "gnss_adapter \<Rightarrow> gnss_adapter" where
  "hub_start s = engine_set HubStartFix (engine_set (HubSetFixMode (mLocPositionMode s)) s)"

definition start_engine :: "response \<Rightarrow> client \<Rightarrow> session_id \<Rightarrow> tracking_options \<Rightarrow> gnss_adapter \<Rightarrow> gnss_adapter" where
  "start_engine k c i opt s =
     (let s1 = hub_start (setLocPositionMode (convertOptions opt) s);
          (running, tempOptions, s2) = checkAndSetSPEToRunforNHz opt s1
      in if \<not> running then engine (StartTimeBased tempOptions) k s2 else reportResponse c SUCCESS i s2)"

definition startTimeBasedTracking ::
  "client \<Rightarrow> session_id \<Rightarrow> tracking_options \<Rightarrow> gnss_adapter \<Rightarrow> gnss_adapter"
where
  "startTimeBasedTracking c i opt s = start_engine (TimeBasedDone c i) c i opt s"

definition updateTracking ::
  "client \<Rightarrow> session_id \<Rightarrow> tracking_options \<Rightarrow> tracking_options \<Rightarrow> gnss_adapter \<Rightarrow> gnss_adapter"
where
  "updateTracking c i updatedOptions oldOptions s = start_engine (UpdateDone c i oldOptions) c i updatedOptions s"

definition stopTracking :: "client \<Rightarrow> session_id \<Rightarrow> gnss_adapter \<Rightarrow> gnss_adapter" where
  "stopTracking c i s =
     (engine StopFix (StopFixDone c i) (engine_set HubStopFix s))\<lparr>mSPEAlreadyRunningAtHighestInterval := False\<rparr>"

section \<open>Multiplexing\<close>

text \<open>The loops over the sessions: options of size 0 and the invalid power mode are not yet set.\<close>

definition pick_smallest :: "(session_key \<times> tracking_options) list \<Rightarrow> tracking_options" where
  "pick_smallest m =
     foldl (\<lambda>a (_, t). if opt_size a = 0 \<or> minInterval t < minInterval a then t else a) zero_options m"

definition pick_power :: "(session_key \<times> tracking_options) list \<Rightarrow> nat" where
  "pick_power m =
     foldl (\<lambda>p (_, t). if p = POWER_MODE_INVALID \<or> powerMode t < p then powerMode t else p) POWER_MODE_INVALID m"

definition pick_highest_power :: "(session_key \<times> tracking_options) list \<Rightarrow> tracking_options" where
  "pick_highest_power m =
     foldl (\<lambda>a (_, t). if opt_size a = 0 \<or> (powerMode t \<noteq> POWER_MODE_INVALID \<and> powerMode t < powerMode a)
                        then t else a) zero_options m"

definition setLocationOptions :: "tracking_options \<Rightarrow> tracking_options \<Rightarrow> tracking_options" where
  "setLocationOptions options t =
     t\<lparr>opt_size := sizeof_tracking_options, minInterval := minInterval options, minDistance := minDistance options,
       supl_mode := supl_mode options, locReqEngTypeMask := locReqEngTypeMask options\<rparr>"

definition others :: "client \<Rightarrow> session_id \<Rightarrow> gnss_adapter \<Rightarrow> (session_key \<times> tracking_options) list" where
  "others c i s = filter (\<lambda>(k, _). k \<noteq> LocationSessionKey c i) (mTimeBasedTrackingSessions s)"

text \<open>The first component says that the client is answered without waiting for the engine.\<close>

definition startTimeBasedTrackingMultiplex ::
  "client \<Rightarrow> session_id \<Rightarrow> tracking_options \<Rightarrow> gnss_adapter \<Rightarrow> bool \<times> gnss_adapter"
where
  "startTimeBasedTrackingMultiplex c i opt s =
     (if mTimeBasedTrackingSessions s = []
      then (False, startTimeBasedTracking c i opt (s\<lparr>mPrevNmeaRptTimeNsec := 0\<rparr>))
      else
        (let opts = pick_smallest (mTimeBasedTrackingSessions s);
             power = pick_power (mTimeBasedTrackingSessions s);
             (opts1, u1) = (if minInterval opt < minInterval opts then (opts\<lparr>minInterval := minInterval opt\<rparr>, True)
                            else (opts, False));
             (opts2, u2) = (if powerMode opt < power then (opts1\<lparr>powerMode := powerMode opt\<rparr>, True) else (opts1, u1))
         in if u2 then (False, startTimeBasedTracking c i opts2 s) else (True, s)))"

definition updateTrackingMultiplex ::
  "client \<Rightarrow> session_id \<Rightarrow> tracking_options \<Rightarrow> gnss_adapter \<Rightarrow> (bool \<times> gnss_adapter) option"
where
  "updateTrackingMultiplex c i opt s =
     (case map_of (mTimeBasedTrackingSessions s) (LocationSessionKey c i) of
        None \<Rightarrow> None
      | Some oldOptions \<Rightarrow>
          Some (if minInterval oldOptions \<noteq> minInterval opt \<or> powerMode oldOptions \<noteq> powerMode opt
          then
            (let opts = pick_smallest (others c i s);
                 power = pick_power (others c i s);
                 (opts1, u1) = (if minInterval opt < minInterval opts then (opts\<lparr>minInterval := minInterval opt\<rparr>, True)
                                else (opts, False));
                 (opts2, u2) = (if powerMode opt < power then (opts1\<lparr>powerMode := powerMode opt\<rparr>, True) else (opts1, u1));
                 (opts3, u3) = (if length (mTimeBasedTrackingSessions s) = 1 then (opt, True) else (opts2, u2))
             in if u3 then (False, updateTracking c i opts3 oldOptions s) else (True, s))
          else (True, s)))"

definition stopTimeBasedTrackingMultiplex ::
  "client \<Rightarrow> session_id \<Rightarrow> gnss_adapter \<Rightarrow> bool \<times> gnss_adapter"
where
  "stopTimeBasedTrackingMultiplex c i s =
     (if length (mTimeBasedTrackingSessions s) = 1 then (False, stopTracking c i s)
      else case map_of (mTimeBasedTrackingSessions s) (LocationSessionKey c i) of
          None \<Rightarrow> (True, s)
        | Some opt \<Rightarrow>
            (let opts = pick_smallest (others c i s);
                 power = pick_power (others c i s)
             in if minInterval opt < minInterval opts \<or> powerMode opt < power
                then (False, startTimeBasedTracking c i (opts\<lparr>powerMode := power\<rparr>) s)
                else (True, s)))"

section \<open>Suspending and restarting\<close>

definition checkAndRestartTimeBasedSession :: "gnss_adapter \<Rightarrow> gnss_adapter" where
  "checkAndRestartTimeBasedSession s =
     (if mTimeBasedTrackingSessions s = [] then s
      else
        (let opts = setLocationOptions (pick_smallest (mTimeBasedTrackingSessions s))
                      (pick_highest_power (mTimeBasedTrackingSessions s));
             (running, opts', s1) = checkAndSetSPEToRunforNHz opts s
         in if \<not> running then engine_set (StartTimeBased opts') s1 else s1))"

definition checkAndRestartSPESession :: "gnss_adapter \<Rightarrow> gnss_adapter" where
  "checkAndRestartSPESession s =
     fold (\<lambda>(k, opt). engine (StartDistanceBased (key_id k) opt) NoResponse) (mDistanceBasedTrackingSessions s)
       (checkAndRestartTimeBasedSession (s\<lparr>mSPEAlreadyRunningAtHighestInterval := False\<rparr>))"

definition restartSessions :: "bool \<Rightarrow> gnss_adapter \<Rightarrow> gnss_adapter" where
  "restartSessions modemSSR s =
     (let s1 = (if modemSSR then s\<lparr>odcpi := (odcpi s)\<lparr>mOdcpiRequestActive := False\<rparr>\<rparr> else s);
          s2 = s1\<lparr>mSPEAlreadyRunningAtHighestInterval := False\<rparr>;
          s3 = (if mTimeBasedTrackingSessions s2 \<noteq> [] then hub_start s2 else s2)
      in checkAndRestartSPESession s3)"

definition suspendSessions :: "gnss_adapter \<Rightarrow> gnss_adapter" where
  "suspendSessions s =
     (if mTimeBasedTrackingSessions s \<noteq> []
      then (engine_set StopFix (engine_set HubStopFix s))\<lparr>mSPEAlreadyRunningAtHighestInterval := False\<rparr>
      else s)"

text \<open>The engine hub asks for positions at more than 1 Hz, or no longer.\<close>

definition NHZ_MEASUREMENT :: "64 word" where "NHZ_MEASUREMENT = push_bit 37 1"

definition updateNHzRequirement :: "bool \<Rightarrow> bool \<Rightarrow> gnss_adapter \<Rightarrow> gnss_adapter" where
  "updateNHzRequirement nHzNeeded nHzMeasNeeded s =
     (let set_already = mEvtMask s AND NHZ_MEASUREMENT \<noteq> 0;
          s1 = (if nHzMeasNeeded \<and> \<not> set_already then updateEvtMask NHZ_MEASUREMENT MASK_ENABLED s
                else if set_already then updateEvtMask NHZ_MEASUREMENT MASK_DISABLED s else s)
      in if mNHzNeeded s1 \<noteq> nHzNeeded then checkAndRestartSPESession (s1\<lparr>mNHzNeeded := nHzNeeded\<rparr>) else s1)"

section \<open>Clients\<close>

definition updateClientsEventMask :: "gnss_adapter \<Rightarrow> gnss_adapter" where
  "updateClientsEventMask s =
     (let cbs = map snd (mClientData s);
          bit = (\<lambda>b n. if b then push_bit n 1 else 0) :: bool \<Rightarrow> nat \<Rightarrow> 64 word;
          data = (\<exists>c\<in>set cbs. gnssDataCb c);
          auto_case = (EXTERNAL_DR_ENABLED s \<or> engHubLoaded s);
          m = bit (\<exists>c\<in>set cbs. trackingCb c \<or> gnssLocationInfoCb c \<or> engineLocationsInfoCb c \<or> gnssDataCb c) 0
              OR bit (\<exists>c\<in>set cbs. gnssSvCb c) 1
              OR bit (data \<or> (\<exists>c\<in>set cbs. gnssNmeaCb c \<and> mNmeaMask s \<noteq> 0)) 2
              OR bit (\<exists>c\<in>set cbs. gnssMeasurementsCb c) 26;
          s1 = fold (\<lambda>c. if gnssDataCb c then engine_set (NmeaTypes (mNmeaMask s OR 0x20000)) else id) cbs s;
          m1 = (if auto_case
                then m OR push_bit 26 1 OR push_bit 23 1 OR push_bit 33 1 OR push_bit 35 1 OR push_bit 36 1 OR push_bit 38 1
                     OR (mEvtMask s AND NHZ_MEASUREMENT)
                else m);
          m2 = m1 OR bit (agpsRegistered s) 6 OR bit (mOdcpiRequestCb (odcpi s) \<noteq> None) 9
      in updateEvtMask (m2 OR push_bit 36 1 OR push_bit 4 1) MASK_SET s1)"

definition notifyClientOfCachedLocationSystemInfo :: "client \<Rightarrow> callbacks \<Rightarrow> gnss_adapter \<Rightarrow> gnss_adapter" where
  "notifyClientOfCachedLocationSystemInfo c cbs s =
     (if systemInfoMask s \<and> locationSystemInfoCb cbs \<and>
         (case map_of (mClientData s) c of None \<Rightarrow> True | Some old \<Rightarrow> \<not> locationSystemInfoCb old)
      then tell c (SystemInfo (cached_system_info s)) s else s)"

definition stop_time_based :: "session_key \<Rightarrow> gnss_adapter \<Rightarrow> gnss_adapter" where
  "stop_time_based k s =
     eraseTrackingSession (key_client k) (key_id k)
       (snd (stopTimeBasedTrackingMultiplex (key_client k) (key_id k) s))"

definition stopClientSessions :: "client \<Rightarrow> gnss_adapter \<Rightarrow> gnss_adapter" where
  "stopClientSessions c s =
     (let s1 = fold stop_time_based (filter (\<lambda>k. key_client k = c) (map fst (mTimeBasedTrackingSessions s))) s
      in fold (\<lambda>k. engine (StopDistanceBased (key_id k)) (ClientDistanceStopDone c (key_id k)))
           (filter (\<lambda>k. key_client k = c) (map fst (mDistanceBasedTrackingSessions s1))) s1)"

section \<open>Commands of the clients\<close>

definition startTrackingCommand ::
  "client \<Rightarrow> tracking_options \<Rightarrow> gnss_adapter \<Rightarrow> session_id \<times> gnss_adapter"
where
  "startTrackingCommand c opt s = (let (i, s1) = generateSessionId s in (i, sendMsg (MsgStartTracking c i opt) s1))"

definition at_least_min_interval :: "tracking_options \<Rightarrow> tracking_options" where
  "at_least_min_interval opt =
     (if minInterval opt < MIN_TRACKING_INTERVAL then opt\<lparr>minInterval := MIN_TRACKING_INTERVAL\<rparr> else opt)"

definition fall_back_to_m2 :: "tracking_options \<Rightarrow> tracking_options" where
  "fall_back_to_m2 opt =
     (if powerMode opt = POWER_MODE_M4 \<and> tbm opt > TRACKING_TBM_THRESHOLD_MILLIS
      then opt\<lparr>powerMode := POWER_MODE_M2\<rparr> else opt)"

text \<open>A start that is refused sets an error that nobody is told.\<close>

definition start_proc :: "client \<Rightarrow> session_id \<Rightarrow> tracking_options \<Rightarrow> gnss_adapter \<Rightarrow> gnss_adapter" where
  "start_proc c i opt s =
     (if \<not> mIsEngineCapabilitiesKnown s \<and> minDistance opt > 0 then postpone (MsgStartTracking c i opt) s
      else if \<not> hasCallbacksToStartTracking c s then s
      else if opt_size opt = 0 then s
      else
        (let opt1 = at_least_min_interval opt
         in if minDistance opt1 > 0 \<and> isMessageSupported DISTANCE_BASE_TRACKING (context_of s)
            then engine (StartDistanceBased i opt1) (DistanceStartDone c i) (saveTrackingSession c i opt1 s)
            else
              (let opt2 = fall_back_to_m2 opt1;
                   (now, s1) = startTimeBasedTrackingMultiplex c i opt2 s;
                   s2 = saveTrackingSession c i opt2 s1
               in if now then reportResponse c SUCCESS i s2 else s2)))"

definition update_proc ::
  "client \<Rightarrow> session_id \<Rightarrow> tracking_options \<Rightarrow> gnss_adapter \<Rightarrow> gnss_adapter option"
where
  "update_proc c i opt s =
     (if \<not> mIsEngineCapabilitiesKnown s \<and> minDistance opt > 0 then Some (postpone (MsgUpdateTracking c i opt) s)
      else
        (let isTimeBased = isTimeBasedTrackingSession c i s;
             isDistanceBased = isDistanceBasedTrackingSession c i s
         in if \<not> isTimeBased \<and> \<not> isDistanceBased then Some (reportResponse c ID_UNKNOWN i s)
            else if opt_size opt = 0 then Some (reportResponse c INVALID_PARAMETER i s)
            else
              (let opt1 = at_least_min_interval (fall_back_to_m2 opt)
               in if isTimeBased \<and> minDistance opt1 > 0 then
                    (let (now, s1) = stopTimeBasedTrackingMultiplex c i s;
                         s2 = eraseTrackingSession c i s1;
                         s3 = (if now then reportResponse c SUCCESS i s2 else s2)
                     in Some (engine (StartDistanceBased i opt1) NoResponse (saveTrackingSession c i opt1 s3)))
                  else if isDistanceBased \<and> minDistance opt1 = 0 then
                    Some (engine (StopDistanceBased i) (SwitchToTimeDone c i opt1) (eraseTrackingSession c i s))
                  else if isTimeBased then
                    do { (now, s1) \<leftarrow> updateTrackingMultiplex c i opt1 s;
                         let s2 = saveTrackingSession c i opt1 s1;
                         Some (if now then reportResponse c SUCCESS i s2 else s2) }
                  else Some (engine (StopDistanceBased i) (DistanceUpdateStopDone c i opt1) s))))"

definition stop_proc :: "client \<Rightarrow> session_id \<Rightarrow> gnss_adapter \<Rightarrow> gnss_adapter" where
  "stop_proc c i s =
     (if isTimeBasedTrackingSession c i s then
        (let (now, s1) = stopTimeBasedTrackingMultiplex c i s;
             s2 = eraseTrackingSession c i s1
         in if now then reportResponse c SUCCESS i s2 else s2)
      else if isDistanceBasedTrackingSession c i s
      then engine (StopDistanceBased i) (DistanceStopDone c i) s
      else reportResponse c ID_UNKNOWN i s)"

section \<open>Answers of the engine\<close>

fun respond :: "response \<Rightarrow> loc_error \<Rightarrow> gnss_adapter \<Rightarrow> gnss_adapter" where
  "respond (TimeBasedDone c i) err s =
     reportResponse c err i (if err \<noteq> SUCCESS then eraseTrackingSession c i s else s)"
| "respond (UpdateDone c i oldOptions) err s =
     reportResponse c err i (if err \<noteq> SUCCESS then saveTrackingSession c i oldOptions s else s)"
| "respond (StopFixDone c i) err s = reportResponse c err i s"
| "respond (DistanceStartDone c i) err s =
     reportResponse c err i (if err \<noteq> SUCCESS then eraseTrackingSession c i s else s)"
| "respond (DistanceStopDone c i) err s =
     reportResponse c err i (if err = SUCCESS then eraseTrackingSession c i s else s)"
| "respond (ClientDistanceStopDone c i) err s = (if err = SUCCESS then eraseTrackingSession c i s else s)"
| "respond (SwitchToTimeDone c i opt) err s =
     (let (now, s1) = startTimeBasedTrackingMultiplex c i opt s;
          s2 = saveTrackingSession c i opt s1
      in if now then reportResponse c SUCCESS i s2 else s2)"
| "respond (DistanceUpdateStopDone c i opt) err s =
     (if err = SUCCESS then engine (StartDistanceBased i opt) (DistanceRestartDone c i opt) s else s)"
| "respond (DistanceRestartDone c i opt) err s =
     reportResponse c err i (if err = SUCCESS then saveTrackingSession c i opt s else s)"
| "respond (ControlDone i) err s = reportControlResponse err i s"
| "respond NoResponse err s = s"

definition answer :: "nat \<Rightarrow> loc_error \<Rightarrow> gnss_adapter \<Rightarrow> gnss_adapter" where
  "answer n err s =
     (if n < length (pending s)
      then respond (pending s ! n) err (s\<lparr>pending := take n (pending s) @ drop (Suc n) (pending s)\<rparr>)
      else s)"

section \<open>Commands of the control client\<close>

text \<open>\<open>GPS_LOCK\<close> has bit 0 for requests of the mobile and bit 1 for those of the network.\<close>

definition LOCK_MO :: "32 word" where "LOCK_MO = 1"
definition LOCK_NI :: "32 word" where "LOCK_NI = 2"

definition enableCommand :: "technology \<Rightarrow> gnss_adapter \<Rightarrow> session_id \<times> gnss_adapter" where
  "enableCommand tech s = (let (i, s1) = generateSessionId s in (i, sendMsg (MsgEnableGnss i tech) s1))"

definition set_lock :: "32 word \<Rightarrow> gnss_adapter \<Rightarrow> gnss_adapter" where
  "set_lock gpsLock s = engine_set (XtraLockStatus gpsLock) (engine_set (SetGpsLock gpsLock) s)"

definition enable_proc :: "session_id \<Rightarrow> technology \<Rightarrow> gnss_adapter \<Rightarrow> gnss_adapter" where
  "enable_proc i tech s =
     (if tech \<noteq> TECHNOLOGY_GNSS then reportControlResponse INVALID_PARAMETER i s
      else if mAfwControlId s > 0 then reportControlResponse ALREADY_STARTED i s
      else
        (let s1 = (engine_set (ModemPowerVote True) s)\<lparr>mAfwControlId := i\<rparr>;
             s2 = (if mSupportNfwControl s1 then s1\<lparr>GPS_LOCK := GPS_LOCK s1 AND LOCK_NI\<rparr> else s1);
             gpsLock = (if mSupportNfwControl s1 then GPS_LOCK s2 else 0)
         in reportControlResponse SUCCESS i (set_lock gpsLock s2)))"

definition disable_proc :: "session_id \<Rightarrow> gnss_adapter \<Rightarrow> gnss_adapter" where
  "disable_proc i s =
     (if mAfwControlId s \<noteq> i then reportControlResponse ID_UNKNOWN i s
      else
        (let s1 = (engine_set (ModemPowerVote False) s)\<lparr>mAfwControlId := 0\<rparr>;
             s2 = (if mSupportNfwControl s1 then s1\<lparr>GPS_LOCK := GPS_LOCK s1 OR LOCK_MO\<rparr> else s1)
         in reportControlResponse SUCCESS i (set_lock (GPS_LOCK s2) s2)))"

definition configMinGpsWeek :: "session_id \<Rightarrow> 16 word \<Rightarrow> gnss_adapter \<Rightarrow> gnss_adapter" where
  "configMinGpsWeek i week s =
     (let s1 = suspendSessions s;
          s2 = (if i \<noteq> 0 then engine (ConfigMinGpsWeek week) (ControlDone i) s1 else engine_set (ConfigMinGpsWeek week) s1)
      in restartSessions False s2)"

section \<open>Excluded satellites\<close>

definition gnssSvIdConfigUpdate :: "gnss_adapter \<Rightarrow> gnss_adapter" where
  "gnssSvIdConfigUpdate s = engine_set (SetBlacklistSv (mGnssSvIdConfig s)) s"

text \<open>The bits of \<open>GnssSvTypesMask\<close>.\<close>

definition blacklist_types :: "64 word \<Rightarrow> sv_id_config \<Rightarrow> sv_id_config" where
  "blacklist_types m c =
     c\<lparr>gloBlacklistSvMask := (if m AND 1 \<noteq> 0 then ALL_BITS else gloBlacklistSvMask c),
       bdsBlacklistSvMask := (if m AND 2 \<noteq> 0 then ALL_BITS else bdsBlacklistSvMask c),
       qzssBlacklistSvMask := (if m AND 4 \<noteq> 0 then ALL_BITS else qzssBlacklistSvMask c),
       galBlacklistSvMask := (if m AND 8 \<noteq> 0 then ALL_BITS else galBlacklistSvMask c),
       navicBlacklistSvMask := (if m AND 16 \<noteq> 0 then ALL_BITS else navicBlacklistSvMask c)\<rparr>"

definition gnssSvTypeConfigUpdate :: "bool \<Rightarrow> gnss_adapter \<Rightarrow> gnss_adapter" where
  "gnssSvTypeConfigUpdate sendReset s =
     (let cfg = mGnssSvTypeConfig s
      in if sv_type_size cfg = sizeof_sv_type_config then
           (let s1 = (if sendReset then engine_set ResetConstellationControl s else s);
                s2 = engine_set (SetBlacklistSv (blacklist_types (blacklistedSvTypesMask cfg) (mGnssSvIdConfig s1))) s1
            in if enabledSvTypesMask cfg \<noteq> 0
               then engine_set (SetConstellationControl \<lparr>sv_type_size = sizeof_sv_type_config,
                      blacklistedSvTypesMask = 0, enabledSvTypesMask = enabledSvTypesMask cfg\<rparr>) s2
               else s2)
         else s)"

definition enabled_removed :: "sv_type_config \<Rightarrow> sv_type_config \<Rightarrow> bool" where
  "enabled_removed old new \<longleftrightarrow>
     enabledSvTypesMask old AND (enabledSvTypesMask old XOR enabledSvTypesMask new) \<noteq> 0"

definition update_sv_type_config :: "sv_type_config \<Rightarrow> gnss_adapter \<Rightarrow> gnss_adapter" where
  "update_sv_type_config cfg s =
     gnssSvTypeConfigUpdate (enabled_removed (mGnssSvTypeConfig s) cfg) (s\<lparr>mGnssSvTypeConfig := cfg\<rparr>)"

definition update_sv_type_proc :: "sv_type_config \<Rightarrow> gnss_adapter \<Rightarrow> gnss_adapter" where
  "update_sv_type_proc cfg s =
     (if \<not> mIsEngineCapabilitiesKnown s then postpone (MsgGnssUpdateSvTypeConfig cfg) s
      else if \<not> isFeatureSupported CONSTELLATION_ENABLEMENT (context_of s) then s
      else update_sv_type_config cfg s)"

definition reset_sv_type_proc :: "gnss_adapter \<Rightarrow> gnss_adapter" where
  "reset_sv_type_proc s =
     (if \<not> mIsEngineCapabilitiesKnown s then postpone MsgGnssResetSvTypeConfig s
      else if \<not> isFeatureSupported CONSTELLATION_ENABLEMENT (context_of s) then s
      else engine_set ResetConstellationControl (gnssSvIdConfigUpdate
             (s\<lparr>mGnssSvTypeConfig := \<lparr>sv_type_size = sizeof_sv_type_config, blacklistedSvTypesMask = 0,
                enabledSvTypesMask = 0\<rparr>\<rparr>)))"

definition gnssUpdateSvConfig :: "session_id \<Rightarrow> sv_type_config \<Rightarrow> sv_id_config \<Rightarrow> gnss_adapter \<Rightarrow> gnss_adapter" where
  "gnssUpdateSvConfig i cfg blacklist s =
     (let s1 = suspendSessions s;
          s2 = (if sv_type_size cfg = sizeof_sv_type_config then
                  engine_set (SetConstellationControl (mGnssSvTypeConfig s1))
                    (if enabled_removed (mGnssSvTypeConfig s1) cfg then engine_set ResetConstellationControl s1 else s1)
                else if sv_type_size cfg = 0 then engine_set ResetConstellationControl s1
                else s1);
          s3 = s2\<lparr>mGnssSvTypeConfig := cfg, mGnssSvIdConfig := blacklist,
                  mBlacklistedSvIds := convertFromGnssSvIdConfig blacklist []\<rparr>
      in restartSessions False (engine (SetBlacklistSv (mGnssSvIdConfig s3)) (ControlDone i) s3))"

section \<open>Aiding data\<close>

text \<open>Seconds since boot times 1000000 in signed 64-bit arithmetic; the limit is meant in milliseconds.
  \<open>clock_gettime\<close> does not fail.\<close>

definition DELETE_AIDING_DATA_EXPECTED_TIME_MS :: "64 word" where "DELETE_AIDING_DATA_EXPECTED_TIME_MS = 5000"

definition deleteAidingData :: "aiding_data \<Rightarrow> session_id \<Rightarrow> gnss_adapter \<Rightarrow> gnss_adapter" where
  "deleteAidingData data i s =
     (let bootDeleteTimeMs = (boot_ms s div 1000) * 1000000
      in if sint (bootDeleteTimeMs - mLastDeleteAidingDataTime s) > sint DELETE_AIDING_DATA_EXPECTED_TIME_MS
         then (engine (DeleteAidingData data) (ControlDone i) s)\<lparr>mLastDeleteAidingDataTime := bootDeleteTimeMs\<rparr>
         else s)"

definition delete_aiding_proc :: "session_id \<Rightarrow> aiding_data \<Rightarrow> gnss_adapter \<Rightarrow> gnss_adapter" where
  "delete_aiding_proc i data s =
     (let s1 = (if posEngineMask data AND 1 \<noteq> 0
                then (let s2 = deleteAidingData data i s
                      in if deleteAll data then engine_set DefaultEngineStates s2 else s2)
                else s)
      in engine_set (HubDeleteAidingData data) s1)"

section \<open>The message task\<close>

text \<open>\<open>handleEngineUpEvent\<close>: what \<open>setConfig\<close>, \<open>updateSystemPowerState\<close>, \<open>gnssSecondaryBandConfigUpdate\<close>
  and \<open>initCDFWService\<close> tell the engine is one request each; they touch no session.\<close>

definition engine_up :: "gnss_adapter \<Rightarrow> gnss_adapter" where
  "engine_up s =
     (let s1 = s\<lparr>mIsEngineCapabilitiesKnown := True\<rparr>;
          s2 = broadcastCapabilities Capabilities (getCapabilities True (context_of s1)) s1;
          s3 = gnssSvTypeConfigUpdate False (gnssSvIdConfigUpdate (engine_set SetConfig s2));
          s4 = restartSessions True (engine_set SecondaryBand (engine_set SystemPowerState s3))
      in (fold sendMsg (mPendingMsgs s4) s4)\<lparr>mPendingMsgs := []\<rparr>)"

definition update_odcpi :: "(odcpi_state \<Rightarrow> odcpi_state option) \<Rightarrow> gnss_adapter \<Rightarrow> gnss_adapter option" where
  "update_odcpi f s = map_option (\<lambda>q. s\<lparr>odcpi := q\<rparr>) (f (odcpi s))"

definition init_odcpi_proc :: "nat option \<Rightarrow> odcpi_priority \<Rightarrow> gnss_adapter \<Rightarrow> gnss_adapter" where
  "init_odcpi_proc cb p s =
     (let (register, q) = initOdcpi cb p (odcpi s); s1 = s\<lparr>odcpi := q\<rparr>
      in if register then updateEvtMask (push_bit 9 1) MASK_ENABLED s1 else s1)"

fun proc :: "gnss_msg \<Rightarrow> gnss_adapter \<Rightarrow> gnss_adapter option" where
  "proc (MsgAddClient c cbs) s =
     Some (saveClient updateClientsEventMask c cbs (notifyClientOfCachedLocationSystemInfo c cbs s))"
| "proc (MsgRemoveClient c cb) s =
     remove_client (\<lambda>c s. Some (stopClientSessions c s)) updateClientsEventMask (if cb then Some RemoveComplete else None) c s"
| "proc (MsgRequestCapabilities c) s = Some (request_capabilities Capabilities (MsgRequestCapabilities c) c s)"
| "proc MsgHandleEngineUpEvent s = Some (engine_up s)"
| "proc (MsgStartTracking c i opt) s = Some (start_proc c i opt s)"
| "proc (MsgUpdateTracking c i opt) s = update_proc c i opt s"
| "proc (MsgStopTracking c i) s = Some (stop_proc c i s)"
| "proc MsgReportPower s = Some (s\<lparr>mPowerStateCb := True, power_reports := power_reports s @ [mPowerOn s]\<rparr>)"
| "proc (MsgEnableGnss i tech) s = Some (enable_proc i tech s)"
| "proc (MsgDisableGnss i) s = Some (disable_proc i s)"
| "proc (MsgConfigMinGpsWeek i week) s = Some (configMinGpsWeek i week s)"
| "proc (MsgUpdateSvConfig i cfg blacklist) s = Some (gnssUpdateSvConfig i cfg blacklist s)"
| "proc (MsgGnssUpdateSvTypeConfig cfg) s = Some (update_sv_type_proc cfg s)"
| "proc MsgGnssResetSvTypeConfig s = Some (reset_sv_type_proc s)"
| "proc (MsgDeleteAidingData i data) s = Some (delete_aiding_proc i data s)"
| "proc (MsgEnableNtrip p) s = Some (update_ntrip (handleEnablePPENtrip (isInSession s) (boot_ms s) p) s)"
| "proc MsgDisableNtrip s = Some (update_ntrip handleDisablePPENtrip s)"
| "proc (MsgRequestOdcpi r) s = update_odcpi (odcpi_step (Request r)) s"
| "proc MsgOdcpiTimerExpire s = update_odcpi (odcpi_step ExpireMsg) s"
| "proc (MsgInitOdcpi cb p) s = Some (init_odcpi_proc cb p s)"

definition run_next :: "gnss_adapter \<Rightarrow> gnss_adapter option" where
  "run_next s = (case msg_queue s of [] \<Rightarrow> Some s | m # ms \<Rightarrow> proc m (s\<lparr>msg_queue := ms\<rparr>))"

definition odcpi_timer_callback :: "gnss_adapter \<Rightarrow> gnss_adapter" where
  "odcpi_timer_callback s =
     (if armed (odcpi s)
      then sendMsg MsgOdcpiTimerExpire (s\<lparr>odcpi := odcpiTimerExpireEvent (odcpi s)\<rparr>) else s)"

definition new_gnss_adapter :: "context_base \<Rightarrow> ntrip_params \<Rightarrow> bool \<Rightarrow> bool \<Rightarrow> 32 word \<Rightarrow> session_id \<Rightarrow> gnss_adapter"
where
  "new_gnss_adapter ctx garbage dr hub lock counter =
     \<lparr>mClientData = [], mEvtMask = 0, mIsEngineCapabilitiesKnown = False, mPendingMsgs = [],
      mSessionIdCounter = counter, context_of = ctx, msg_queue = [], open_requests = 0, reports = [],
      mTimeBasedTrackingSessions = [], mDistanceBasedTrackingSessions = [],
      mLocPositionMode = \<lparr>pos_mode_of = POSITION_MODE_INVALID, min_interval = 1000, pos_power_mode = 0,
        timeBetweenMeasurements = 1000\<rparr>,
      mNHzNeeded = False, mSPEAlreadyRunningAtHighestInterval = False, mPrevNmeaRptTimeNsec = 0,
      mPowerOn = False, mPowerStateCb = False, power_reports = [],
      ntrip = \<lparr>mDgnssState = 0, mSendNmeaConsent = False, ntripParams = garbage, ntrip_nmea = [],
        mDgnssLastNmeaBootTimeMilli = 0, source_calls = []\<rparr>,
      boot_ms = 0, odcpi = new_odcpi, mNmeaMask = 0, EXTERNAL_DR_ENABLED = dr, engHubLoaded = hub,
      agpsRegistered = False, systemInfoMask = False, cached_system_info = 0, controlResponseCb = False,
      control_reports = [], mAfwControlId = 0, mSupportNfwControl = True, GPS_LOCK = lock,
      mGnssSvIdConfig = \<lparr>config_size = 0, gloBlacklistSvMask = 0, bdsBlacklistSvMask = 0, qzssBlacklistSvMask = 0,
        galBlacklistSvMask = 0, sbasBlacklistSvMask = 0, navicBlacklistSvMask = 0\<rparr>,
      mGnssSvTypeConfig = \<lparr>sv_type_size = 0, blacklistedSvTypesMask = 0, enabledSvTypesMask = 0\<rparr>,
      mBlacklistedSvIds = [], mLastDeleteAidingDataTime = 0, ops = [], pending = []\<rparr>"

section \<open>Runs\<close>

text \<open>Events: a message is sent from outside, the message task runs the next one, the engine answers
  a request, or anything else happens: the engine hub changes its needs, the modem or the adapter has
  a GGA sentence, the timer of the coarse positions expires, time passes, the consent for locations
  changes. Reachability is relative to a condition on the events.\<close>

datatype gnss_event = SendEvent gnss_msg | NextEvent | AnswerEvent response loc_error | OtherEvent

inductive gnss_step :: "gnss_adapter \<Rightarrow> gnss_event \<Rightarrow> gnss_adapter \<Rightarrow> bool" where
  Send: "gnss_step s (SendEvent m) (sendMsg m s)"
| Next: "run_next s = Some s' \<Longrightarrow> gnss_step s NextEvent s'"
| Answer: "n < length (pending s) \<Longrightarrow> gnss_step s (AnswerEvent (pending s ! n) err) (answer n err s)"
| NHz: "gnss_step s OtherEvent (updateNHzRequirement b b' s)"
| EngineGga: "reportGGAToNtrip (isInSession s) (boot_ms s) nmea (ntrip s) = Some n \<Longrightarrow>
    gnss_step s OtherEvent (s\<lparr>ntrip := n\<rparr>)"
| AdapterGga: "gnss_step s OtherEvent (update_ntrip (gga_generated (isInSession s) (boot_ms s) gga valid) s)"
| Timer: "gnss_step s OtherEvent (odcpi_timer_callback s)"
| Time: "gnss_step s OtherEvent (s\<lparr>boot_ms := t\<rparr>)"
| Consent: "gnss_step s OtherEvent (update_ntrip (\<lambda>n. n\<lparr>mSendNmeaConsent := b\<rparr>) s)"

inductive gnss_reachable :: "(gnss_event \<Rightarrow> bool) \<Rightarrow> gnss_adapter \<Rightarrow> gnss_adapter \<Rightarrow> bool" for I s0 where
  Start: "gnss_reachable I s0 s0"
| Step: "gnss_reachable I s0 s \<Longrightarrow> gnss_step s e s' \<Longrightarrow> I e \<Longrightarrow> gnss_reachable I s0 s'"

inductive_cases gnss_stepE: "gnss_step s e s'"

text \<open>The engine accepts what it is asked for time-based sessions; other answers are free.\<close>

fun accepting :: "gnss_event \<Rightarrow> bool" where
  "accepting (AnswerEvent (TimeBasedDone c i) err) \<longleftrightarrow> err = SUCCESS"
| "accepting (AnswerEvent (UpdateDone c i old) err) \<longleftrightarrow> err = SUCCESS"
| "accepting _ \<longleftrightarrow> True"

end
