(* ===== verification/GnssTrackingProps.thy ===== *)
theory GnssTrackingProps
  imports GnssTracking
begin

text \<open>
  What holds in every state the adapter of \<open>GnssTracking\<close> reaches, and what does not: the power state
  it reports, the correction stream, the interval the engine runs with.
\<close>

section \<open>What each operation touches\<close>

text \<open>Most operations leave the sessions, the power state and the correction stream alone.\<close>

definition core :: "gnss_adapter \<Rightarrow> _" where
  "core s = (mTimeBasedTrackingSessions s, mDistanceBasedTrackingSessions s, mPowerOn s, mPowerStateCb s,
             power_reports s, ntrip s, context_of s)"

lemma core_reportResponse [simp]: "core (reportResponse c e i s) = core s"
  by (simp add: core_def reportResponse_def tell_def split: option.splits)

lemma core_control [simp]: "core (reportControlResponse e i s) = core s"
  by (simp add: core_def reportControlResponse_def)

lemma core_engine [simp]: "core (engine op k s) = core s" "core (engine_set op s) = core s"
  by (simp_all add: core_def engine_def engine_set_def)

lemma core_update [simp]:
  "core (s\<lparr>mSPEAlreadyRunningAtHighestInterval := b\<rparr>) = core s"
  "core (s\<lparr>mLocPositionMode := m\<rparr>) = core s" "core (s\<lparr>mNHzNeeded := b\<rparr>) = core s"
  "core (s\<lparr>mPrevNmeaRptTimeNsec := t\<rparr>) = core s" "core (s\<lparr>odcpi := q\<rparr>) = core s"
  "core (s\<lparr>boot_ms := t\<rparr>) = core s" "core (s\<lparr>mAfwControlId := i\<rparr>) = core s" "core (s\<lparr>GPS_LOCK := l\<rparr>) = core s"
  "core (s\<lparr>mGnssSvTypeConfig := tc\<rparr>) = core s" "core (s\<lparr>mGnssSvIdConfig := ic\<rparr>) = core s"
  "core (s\<lparr>mBlacklistedSvIds := l'\<rparr>) = core s" "core (s\<lparr>mLastDeleteAidingDataTime := t'\<rparr>) = core s"
  "core (s\<lparr>pending := ps\<rparr>) = core s" "core (s\<lparr>mPendingMsgs := ms\<rparr>) = core s" "core (s\<lparr>msg_queue := ms\<rparr>) = core s"
  "core (s\<lparr>mIsEngineCapabilitiesKnown := b\<rparr>) = core s" "core (s\<lparr>mClientData := cd\<rparr>) = core s"
  by (simp_all add: core_def)

lemma core_adapter [simp]:
  "core (sendMsg m s) = core s" "core (postpone m s) = core s" "core (tell c r s) = core s"
  "core (updateEvtMask m' st s) = core s" "core (broadcastCapabilities cb caps s) = core s"
  by (simp_all add: core_def sendMsg_def postpone_def tell_def updateEvtMask_def broadcastCapabilities_def)

lemma core_fold: "(\<And>x s. core (f x s) = core s) \<Longrightarrow> core (fold f xs s) = core s"
  by (induction xs arbitrary: s) simp_all

lemma core_start_engine [simp]: "core (start_engine k c i opt s) = core s"
  by (simp add: start_engine_def hub_start_def setLocPositionMode_def checkAndSetSPEToRunforNHz_def Let_def)

lemma core_startTimeBased [simp]: "core (startTimeBasedTracking c i opt s) = core s"
  by (simp add: startTimeBasedTracking_def)

lemma core_stopTracking [simp]: "core (stopTracking c i s) = core s"
  by (simp add: stopTracking_def)

lemma core_startMux [simp]: "core (snd (startTimeBasedTrackingMultiplex c i opt s)) = core s"
  by (auto simp: startTimeBasedTrackingMultiplex_def Let_def split: if_splits prod.splits)

lemma core_updateMux: "updateTrackingMultiplex c i opt s = Some (b, s') \<Longrightarrow> core s' = core s"
  by (auto simp: updateTrackingMultiplex_def updateTracking_def Let_def split: option.splits if_splits prod.splits)

lemma core_stopMux [simp]: "core (snd (stopTimeBasedTrackingMultiplex c i s)) = core s"
  by (auto simp: stopTimeBasedTrackingMultiplex_def Let_def split: if_splits prod.splits option.splits)

lemma core_restartTimeBased [simp]: "core (checkAndRestartTimeBasedSession s) = core s"
  by (simp add: checkAndRestartTimeBasedSession_def checkAndSetSPEToRunforNHz_def Let_def)

lemma core_restart [simp]:
  "core (checkAndRestartSPESession s) = core s" "core (restartSessions b s) = core s" "core (suspendSessions s) = core s"
  by (simp_all add: checkAndRestartSPESession_def restartSessions_def suspendSessions_def hub_start_def Let_def
      core_fold case_prod_beta)

lemma core_nhz [simp]: "core (updateNHzRequirement b b' s) = core s"
  by (simp add: updateNHzRequirement_def Let_def)

lemma core_mask [simp]: "core (updateClientsEventMask s) = core s"
  by (simp add: updateClientsEventMask_def Let_def core_fold)

lemma core_sv [simp]:
  "core (gnssSvIdConfigUpdate s) = core s" "core (gnssSvTypeConfigUpdate b s) = core s"
  "core (update_sv_type_config tc s) = core s" "core (update_sv_type_proc tc s) = core s"
  "core (reset_sv_type_proc s) = core s" "core (gnssUpdateSvConfig i tc ic s) = core s"
  by (simp_all add: gnssSvIdConfigUpdate_def gnssSvTypeConfigUpdate_def update_sv_type_config_def
      update_sv_type_proc_def reset_sv_type_proc_def gnssUpdateSvConfig_def Let_def)

lemma core_control_procs [simp]:
  "core (enable_proc i t s) = core s" "core (disable_proc i s) = core s" "core (configMinGpsWeek i w s) = core s"
  "core (delete_aiding_proc i d s) = core s" "core (init_odcpi_proc cb p s) = core s"
  by (simp_all add: enable_proc_def disable_proc_def configMinGpsWeek_def delete_aiding_proc_def deleteAidingData_def
      init_odcpi_proc_def set_lock_def Let_def case_prod_beta)

lemma core_engine_up [simp]: "core (engine_up s) = core s"
  by (simp add: engine_up_def Let_def core_fold)

section \<open>Power state and corrections\<close>

definition power_inv :: "gnss_adapter \<Rightarrow> bool" where
  "power_inv s \<longleftrightarrow>
     (mPowerOn s \<longleftrightarrow> mTimeBasedTrackingSessions s \<noteq> [] \<or> mDistanceBasedTrackingSessions s \<noteq> []) \<and>
     (mPowerStateCb s \<longrightarrow> power_reports s \<noteq> [] \<and> last (power_reports s) = mPowerOn s) \<and>
     (ntrip_started (ntrip s) \<longrightarrow> mTimeBasedTrackingSessions s \<noteq> [])"

lemma power_inv_core: "core s' = core s \<Longrightarrow> power_inv s' \<longleftrightarrow> power_inv s"
  by (simp add: power_inv_def core_def)

lemma put_not_Nil [simp]: "put k v m \<noteq> []"
  by (induction k v m rule: put.induct) simp_all

lemma power_inv_changed:
  assumes "mPowerStateCb s \<longrightarrow> power_reports s \<noteq> [] \<and> last (power_reports s) = mPowerOn s"
    "ntrip_started n \<longrightarrow> mTimeBasedTrackingSessions s \<noteq> []"
  shows "power_inv ((reportPowerStateIfChanged s)\<lparr>ntrip := n\<rparr>)"
  using assms by (auto simp: power_inv_def reportPowerStateIfChanged_def Let_def)

lemma changed_fields [simp]:
  "mTimeBasedTrackingSessions (reportPowerStateIfChanged s) = mTimeBasedTrackingSessions s"
  "mDistanceBasedTrackingSessions (reportPowerStateIfChanged s) = mDistanceBasedTrackingSessions s"
  "ntrip (reportPowerStateIfChanged s) = ntrip s" "context_of (reportPowerStateIfChanged s) = context_of s"
  "ops (reportPowerStateIfChanged s) = ops s" "pending (reportPowerStateIfChanged s) = pending s"
  "mNHzNeeded (reportPowerStateIfChanged s) = mNHzNeeded s"
  "mSPEAlreadyRunningAtHighestInterval (reportPowerStateIfChanged s) = mSPEAlreadyRunningAtHighestInterval s"
  by (simp_all add: reportPowerStateIfChanged_def Let_def)

lemma power_inv_save:
  assumes "power_inv s"
  shows "power_inv (saveTrackingSession c i opt s)"
proof -
  define t where "t = (if minDistance opt > 0 \<and> isMessageSupported DISTANCE_BASE_TRACKING (context_of s)
      then s\<lparr>mDistanceBasedTrackingSessions := put (LocationSessionKey c i) opt (mDistanceBasedTrackingSessions s)\<rparr>
      else s\<lparr>mTimeBasedTrackingSessions := put (LocationSessionKey c i) opt (mTimeBasedTrackingSessions s)\<rparr>)"
  have t: "mPowerStateCb t = mPowerStateCb s" "power_reports t = power_reports s" "mPowerOn t = mPowerOn s"
    "ntrip t = ntrip s" "mTimeBasedTrackingSessions s \<noteq> [] \<Longrightarrow> mTimeBasedTrackingSessions t \<noteq> []"
    by (auto simp: t_def)
  have "power_inv ((reportPowerStateIfChanged t)\<lparr>ntrip :=
      checkUpdateDgnssNtrip (isInSession (reportPowerStateIfChanged t)) (boot_ms (reportPowerStateIfChanged t)) False (ntrip t)\<rparr>)"
    using assms t by (intro power_inv_changed) (auto simp: power_inv_def isInSession_def dest: started_only_in_session(1))
  then show ?thesis
    by (simp add: saveTrackingSession_def Let_def update_ntrip_def t_def)
qed

lemma power_inv_erase: "power_inv s \<Longrightarrow> power_inv (eraseTrackingSession c i s)"
  unfolding eraseTrackingSession_def Let_def update_ntrip_def
  by (rule power_inv_changed) (auto simp: power_inv_def)

lemma power_inv_answered:
  "power_inv s \<Longrightarrow> power_inv (if b then reportResponse c SUCCESS i s else s)"
  by (simp add: power_inv_core [of "reportResponse c SUCCESS i s" s])

lemma power_inv_engine [simp]: "power_inv (engine op k s) = power_inv s"
  by (rule power_inv_core) simp

lemma power_inv_report [simp]: "power_inv (reportResponse c e i s) = power_inv s"
  by (rule power_inv_core) simp

lemma power_inv_mux:
  "power_inv (snd (startTimeBasedTrackingMultiplex c i opt s)) = power_inv s"
  "power_inv (snd (stopTimeBasedTrackingMultiplex c i s)) = power_inv s"
  by (rule power_inv_core, simp)+

lemma power_inv_start: "power_inv s \<Longrightarrow> power_inv (start_proc c i opt s)"
  by (simp add: start_proc_def Let_def case_prod_beta power_inv_core [of "postpone _ s"] power_inv_save power_inv_mux)

lemma power_inv_update: "power_inv s \<Longrightarrow> update_proc c i opt s = Some s' \<Longrightarrow> power_inv s'"
  by (auto simp: update_proc_def Let_def case_prod_beta power_inv_core [of "postpone _ s"] power_inv_save power_inv_erase
      power_inv_mux power_inv_core [OF core_updateMux] bind_eq_Some_conv split: if_splits)

lemma power_inv_stop: "power_inv s \<Longrightarrow> power_inv (stop_proc c i s)"
  by (simp add: stop_proc_def Let_def case_prod_beta power_inv_erase power_inv_mux)

lemma power_inv_stop_time_based: "power_inv s \<Longrightarrow> power_inv (stop_time_based k s)"
  by (simp add: stop_time_based_def power_inv_erase power_inv_mux)

lemma fold_inv: "(\<And>x s. P s \<Longrightarrow> P (f x s)) \<Longrightarrow> P s \<Longrightarrow> P (fold f xs s)"
  by (induction xs arbitrary: s) simp_all

lemma power_inv_stopClient: "power_inv s \<Longrightarrow> power_inv (stopClientSessions c s)"
  unfolding stopClientSessions_def Let_def
  by (rule fold_inv [where P = power_inv], simp add: case_prod_beta,
      rule fold_inv [where P = power_inv]) (simp_all add: power_inv_stop_time_based)

lemma power_inv_respond: "power_inv s \<Longrightarrow> power_inv (respond k err s)"
  by (cases k) (simp_all add: Let_def case_prod_beta power_inv_save power_inv_erase power_inv_mux
      power_inv_core [OF core_control])

lemma core_notify [simp]: "core (notifyClientOfCachedLocationSystemInfo c cbs s) = core s"
  by (simp add: notifyClientOfCachedLocationSystemInfo_def)

lemma core_client [simp]:
  "core (saveClient updateClientsEventMask c cbs s) = core s"
  "core (eraseClient updateClientsEventMask c s) = core s"
  by (simp_all add: saveClient_def eraseClient_def)

lemma core_request_capabilities [simp]: "core (request_capabilities cb m c s) = core s"
  by (simp add: request_capabilities_def)

lemma power_inv_proc: "power_inv s \<Longrightarrow> proc m s = Some s' \<Longrightarrow> power_inv s'"
proof (cases m)
  case (MsgRemoveClient c b)
  assume "power_inv s" "proc m s = Some s'"
  then show ?thesis
    using MsgRemoveClient power_inv_core [OF core_client(2), of c "stopClientSessions c s"] power_inv_stopClient [of s c]
    by (auto simp: remove_client_def Let_def power_inv_core [OF core_adapter(3)] split: if_splits)
next
  case MsgReportPower
  assume "power_inv s" "proc m s = Some s'"
  then show ?thesis using MsgReportPower by (auto simp: power_inv_def)
next
  case (MsgEnableNtrip p)
  assume "power_inv s" "proc m s = Some s'"
  then show ?thesis using MsgEnableNtrip
    by (auto simp: power_inv_def update_ntrip_def isInSession_def dest: started_only_in_session(2))
next
  case MsgDisableNtrip
  assume "power_inv s" "proc m s = Some s'"
  then show ?thesis using MsgDisableNtrip by (auto simp: power_inv_def update_ntrip_def)
qed (auto simp: update_odcpi_def power_inv_start power_inv_update power_inv_stop
      power_inv_core [OF core_client(1)] power_inv_core [OF core_notify] power_inv_core [OF core_request_capabilities]
      power_inv_core [OF core_engine_up] power_inv_core [OF core_control_procs(1)] power_inv_core [OF core_control_procs(2)]
      power_inv_core [OF core_control_procs(3)] power_inv_core [OF core_control_procs(4)]
      power_inv_core [OF core_control_procs(5)] power_inv_core [OF core_sv(4)] power_inv_core [OF core_sv(5)]
      power_inv_core [OF core_sv(6)] power_inv_core [OF core_update(5)])

lemma power_inv_step: "gnss_step s e s' \<Longrightarrow> power_inv s \<Longrightarrow> power_inv s'"
proof (induction rule: gnss_step.induct)
  case (Next s s')
  then show ?case
    by (auto simp: run_next_def power_inv_core [OF core_update(15)] split: list.splits elim!: power_inv_proc [rotated])
next
  case (Answer n s err)
  then show ?case using power_inv_core [OF core_update(13)] power_inv_respond by (auto simp: answer_def)
next
  case (EngineGga s nmea n)
  then show ?case by (auto simp: power_inv_def isInSession_def dest: started_only_in_session(4))
next
  case (AdapterGga s gga valid)
  then show ?case by (auto simp: power_inv_def update_ntrip_def isInSession_def dest: started_only_in_session(3))
next
  case (Consent s b)
  then show ?case by (auto simp: power_inv_def update_ntrip_def)
qed (simp_all add: power_inv_core [OF core_adapter(1)] power_inv_core [OF core_nhz] odcpi_timer_callback_def
      power_inv_core [OF core_update(6)] power_inv_core [OF core_update(5)])

lemma tracking_power_inv:
  "gnss_reachable I (new_gnss_adapter ctx garbage dr hub lock counter) s \<Longrightarrow> power_inv s"
proof (induction rule: gnss_reachable.induct)
  case Start
  show ?case by (simp add: power_inv_def new_gnss_adapter_def ntrip_started_def)
next
  case (Step s e s')
  then show ?case using power_inv_step by blast
qed

section \<open>Concrete runs\<close>

text \<open>Each message is sent and processed at once.\<close>

fun run_msgs :: "gnss_msg list \<Rightarrow> gnss_adapter \<Rightarrow> gnss_adapter option" where
  "run_msgs [] s = Some s"
| "run_msgs (m # ms) s = do { s' \<leftarrow> run_next (sendMsg m s); run_msgs ms s' }"

lemma run_msgs_reachable:
  assumes "gnss_reachable I s0 s" "run_msgs ms s = Some s'" "I NextEvent" "\<And>m. I (SendEvent m)"
  shows "gnss_reachable I s0 s'"
  using assms(1,2)
proof (induction ms arbitrary: s)
  case (Cons m ms)
  then obtain t where t: "run_next (sendMsg m s) = Some t" "run_msgs ms t = Some s'"
    by (auto simp: bind_eq_Some_conv)
  have "gnss_reachable I s0 t"
    using gnss_reachable.Step [OF Cons.prems(1) Send assms(4)] gnss_step.Next [OF t(1)] assms(3)
    by (blast intro: gnss_reachable.Step)
  then show ?case using Cons.IH t(2) by blast
qed simp

definition start_state :: gnss_adapter where
  "start_state = new_gnss_adapter \<lparr>sSupportedMsgMask = 4, sFeaturesSupported = [], sGnssMeasurementSupported = False,
     CAPABILITIES = 0, SUPL_MODE = 0\<rparr> cleared_params False False 3 1"

definition example_cbs :: callbacks where "example_cbs = no_callbacks\<lparr>responseCb := True, trackingCb := True\<rparr>"

definition options_of :: "32 word \<Rightarrow> nat \<Rightarrow> tracking_options" where
  "options_of interval pm = zero_options\<lparr>opt_size := 28, minInterval := interval, powerMode := pm\<rparr>"

definition example_msgs :: "gnss_msg list" where
  "example_msgs = [MsgAddClient 1 example_cbs, MsgReportPower, MsgEnableNtrip (cleared_params\<lparr>port := 1\<rparr>),
     MsgStartTracking 1 5 (options_of 1000 2)]"

lemma example_run:
  obtains s where "run_msgs example_msgs start_state = Some s" "ntrip_started (ntrip s)" "mPowerOn s" "mPowerStateCb s"
    "gnss_reachable (\<lambda>_. True) start_state s"
proof -
  have "case run_msgs example_msgs start_state of None \<Rightarrow> False
     | Some s \<Rightarrow> ntrip_started (ntrip s) \<and> mPowerOn s \<and> mPowerStateCb s"
    by code_simp
  then show thesis
    using that run_msgs_reachable [OF gnss_reachable.Start, of example_msgs start_state] by (auto split: option.splits)
qed

text \<open>
  C12. In every state the adapter reaches, whatever its clients, the engine and the modem do, the power
  state is on exactly while there is a tracking session, and the listener of the power state has
  been told the current one last.\<close>

theorem power_state_follows_sessions:
  assumes "gnss_reachable I (new_gnss_adapter ctx garbage dr hub lock counter) s"
  shows "(mPowerOn s \<longleftrightarrow> mTimeBasedTrackingSessions s \<noteq> [] \<or> mDistanceBasedTrackingSessions s \<noteq> []) \<and>
    (mPowerStateCb s \<longrightarrow> power_reports s \<noteq> [] \<and> last (power_reports s) = mPowerOn s)"
  using tracking_power_inv [OF assms] by (simp add: power_inv_def)

theorem power_state_follows_sessions_witness:
  "\<exists>s. run_msgs example_msgs start_state = Some s \<and> power_reports s \<noteq> [] \<and> last (power_reports s) = True \<and>
     (mTimeBasedTrackingSessions s \<noteq> [] \<or> mDistanceBasedTrackingSessions s \<noteq> [])"
proof -
  obtain s where s: "run_msgs example_msgs start_state = Some s" "mPowerOn s" "mPowerStateCb s"
    "gnss_reachable (\<lambda>_. True) start_state s" by (rule example_run)
  show ?thesis using power_state_follows_sessions [OF s(4) [unfolded start_state_def]] s(1-3) by auto
qed

text \<open>
  The correction stream is marked as started only while a time-based session exists.
\<close>

theorem corrections_only_in_session:
  assumes "gnss_reachable I (new_gnss_adapter ctx garbage dr hub lock counter) s" "ntrip_started (ntrip s)"
  shows "isInSession s"
  using tracking_power_inv [OF assms(1)] assms(2) by (simp add: power_inv_def isInSession_def)

theorem corrections_only_in_session_witness:
  "\<exists>s. run_msgs example_msgs start_state = Some s \<and> isInSession s"
proof -
  obtain s where s: "run_msgs example_msgs start_state = Some s" "ntrip_started (ntrip s)"
    "gnss_reachable (\<lambda>_. True) start_state s" by (rule example_run)
  show ?thesis using corrections_only_in_session [OF s(3) [unfolded start_state_def] s(2)] s(1) by auto
qed

end
