(* ===== verification/GnssInterval.thy ===== *)
theory GnssInterval
  imports GnssTrackingProps
begin

text \<open>
  The interval the engine runs with: as long as it accepts what it is asked, it runs at least as fast
  as every time-based session of \<open>GnssTracking\<close> needs.
\<close>

section \<open>What the engine was asked last\<close>

fun engine_after :: "tracking_options option \<Rightarrow> engine_op \<Rightarrow> tracking_options option" where
  "engine_after r (StartTimeBased opt) = Some opt"
| "engine_after r StopFix = None"
| "engine_after r _ = r"

definition running :: "gnss_adapter \<Rightarrow> tracking_options option" where
  "running s = foldl engine_after None (ops s)"

lemma running_engine [simp]:
  "running (engine op k s) = engine_after (running s) op" "running (engine_set op s) = engine_after (running s) op"
  by (simp_all add: running_def engine_def engine_set_def)

definition session_ok :: "tracking_options \<Rightarrow> bool" where
  "session_ok t \<longleftrightarrow> opt_size t \<noteq> 0 \<and> MIN_TRACKING_INTERVAL \<le> minInterval t"

fun response_ok :: "response \<Rightarrow> bool" where
  "response_ok (SwitchToTimeDone c i t) \<longleftrightarrow> session_ok t"
| "response_ok (DistanceUpdateStopDone c i t) \<longleftrightarrow> minDistance t > 0"
| "response_ok (DistanceRestartDone c i t) \<longleftrightarrow> minDistance t > 0"
| "response_ok _ \<longleftrightarrow> True"

definition sessions_ok :: "gnss_adapter \<Rightarrow> bool" where
  "sessions_ok s \<longleftrightarrow>
     ordered (mTimeBasedTrackingSessions s) \<and> (\<forall>x\<in>set (mTimeBasedTrackingSessions s). session_ok (snd x)) \<and>
     isMessageSupported DISTANCE_BASE_TRACKING (context_of s) \<and> (\<forall>k\<in>set (pending s). response_ok k)"

text \<open>The engine runs with an interval that serves a list of sessions.\<close>

definition serves :: "(session_key \<times> tracking_options) list \<Rightarrow> gnss_adapter \<Rightarrow> bool" where
  "serves m s \<longleftrightarrow>
     (m \<noteq> [] \<longrightarrow> (\<exists>opt. running s = Some opt \<and> (\<forall>x\<in>set m. minInterval opt \<le> minInterval (snd x))))"

definition highest_ok :: "gnss_adapter \<Rightarrow> bool" where
  "highest_ok s \<longleftrightarrow>
     (mSPEAlreadyRunningAtHighestInterval s \<longrightarrow>
        mNHzNeeded s \<and> (\<exists>opt. running s = Some opt \<and> minInterval opt = MIN_TRACKING_INTERVAL))"

definition interval_inv :: "gnss_adapter \<Rightarrow> bool" where
  "interval_inv s \<longleftrightarrow> sessions_ok s \<and> serves (mTimeBasedTrackingSessions s) s \<and> highest_ok s"

text \<open>What these depend on.\<close>

definition view :: "gnss_adapter \<Rightarrow> _" where
  "view s = (mTimeBasedTrackingSessions s, context_of s, running s, mSPEAlreadyRunningAtHighestInterval s,
             mNHzNeeded s, \<forall>k\<in>set (pending s). response_ok k)"

lemma view_inv:
  assumes "view s' = view s"
  shows "sessions_ok s' = sessions_ok s" "serves m s' = serves m s" "highest_ok s' = highest_ok s"
    "interval_inv s' = interval_inv s" "mTimeBasedTrackingSessions s' = mTimeBasedTrackingSessions s"
    "running s' = running s"
  using assms
  by (simp_all add: view_def sessions_ok_def serves_def highest_ok_def interval_inv_def)

lemma view_simps [simp]:
  "view (reportResponse c e i s) = view s" "view (reportControlResponse e i s) = view s"
  "view (s\<lparr>mLocPositionMode := m\<rparr>) = view s" "view (s\<lparr>mPrevNmeaRptTimeNsec := t\<rparr>) = view s"
  "view (s\<lparr>odcpi := q\<rparr>) = view s" "view (s\<lparr>boot_ms := t\<rparr>) = view s" "view (s\<lparr>mAfwControlId := i\<rparr>) = view s"
  "view (s\<lparr>GPS_LOCK := l\<rparr>) = view s" "view (s\<lparr>mGnssSvTypeConfig := tc\<rparr>) = view s" "view (s\<lparr>mGnssSvIdConfig := ic\<rparr>) = view s"
  "view (s\<lparr>mBlacklistedSvIds := l'\<rparr>) = view s" "view (s\<lparr>mLastDeleteAidingDataTime := t\<rparr>) = view s"
  "view (s\<lparr>mPendingMsgs := ms\<rparr>) = view s" "view (s\<lparr>msg_queue := ms\<rparr>) = view s"
  "view (s\<lparr>mIsEngineCapabilitiesKnown := b\<rparr>) = view s" "view (s\<lparr>mClientData := cd\<rparr>) = view s"
  "view (s\<lparr>ntrip := n\<rparr>) = view s" "view (s\<lparr>mPowerStateCb := b, power_reports := pr\<rparr>) = view s"
  "view (s\<lparr>mDistanceBasedTrackingSessions := ds\<rparr>) = view s" "view (reportPowerStateIfChanged s) = view s"
  "view (sendMsg msg s) = view s" "view (postpone msg s) = view s" "view (tell c r s) = view s"
  "view (updateEvtMask m' st s) = view s" "view (broadcastCapabilities cb caps s) = view s"
  "view (update_ntrip f s) = view s"
  by (simp_all add: view_def running_def reportResponse_def reportControlResponse_def tell_def sendMsg_def postpone_def
      updateEvtMask_def broadcastCapabilities_def update_ntrip_def reportPowerStateIfChanged_def Let_def
      split: option.splits)

lemma engine_fields [simp]:
  "mTimeBasedTrackingSessions (engine op k s) = mTimeBasedTrackingSessions s"
  "context_of (engine op k s) = context_of s" "mNHzNeeded (engine op k s) = mNHzNeeded s"
  "mSPEAlreadyRunningAtHighestInterval (engine op k s) = mSPEAlreadyRunningAtHighestInterval s"
  "pending (engine op k s) = pending s @ [k]" "pending (engine_set op s) = pending s"
  "mTimeBasedTrackingSessions (engine_set op s) = mTimeBasedTrackingSessions s"
  "context_of (engine_set op s) = context_of s" "mNHzNeeded (engine_set op s) = mNHzNeeded s"
  "mSPEAlreadyRunningAtHighestInterval (engine_set op s) = mSPEAlreadyRunningAtHighestInterval s"
  by (simp_all add: engine_def engine_set_def)

text \<open>Requests that are not about time-based sessions.\<close>

lemma view_other_request:
  assumes "\<And>r. engine_after r op = r"
  shows "view (engine_set op s) = view s" "response_ok k \<Longrightarrow> view (engine op k s) = view s"
  using assms by (auto simp: view_def)

lemmas view_requests [simp] =
  view_other_request [of "HubSetFixMode m" for m, simplified] view_other_request [of HubStartFix, simplified]
  view_other_request [of HubStopFix, simplified] view_other_request [of SetConfig, simplified]
  view_other_request [of SystemPowerState, simplified] view_other_request [of SecondaryBand, simplified]
  view_other_request [of "NmeaTypes m" for m, simplified] view_other_request [of "SetBlacklistSv m" for m, simplified]
  view_other_request [of "SetConstellationControl m" for m, simplified]
  view_other_request [of ResetConstellationControl, simplified] view_other_request [of "ConfigMinGpsWeek m" for m, simplified]
  view_other_request [of "DeleteAidingData m" for m, simplified] view_other_request [of "HubDeleteAidingData m" for m, simplified]
  view_other_request [of DefaultEngineStates, simplified] view_other_request [of "ModemPowerVote m" for m, simplified]
  view_other_request [of "SetGpsLock m" for m, simplified] view_other_request [of "XtraLockStatus m" for m, simplified]
  view_other_request [of "StartDistanceBased i m" for i m, simplified] view_other_request [of "StopDistanceBased i" for i, simplified]

lemma view_fold: "(\<And>x s. view (f x s) = view s) \<Longrightarrow> view (fold f xs s) = view s"
  by (induction xs arbitrary: s) simp_all

section \<open>The smallest interval\<close>

lemma pick_smallest_least:
  assumes "m \<noteq> []" "\<forall>x\<in>set m. session_ok (snd x)"
  shows "pick_smallest m \<in> snd ` set m \<and> session_ok (pick_smallest m) \<and>
    (\<forall>x\<in>set m. minInterval (pick_smallest m) \<le> minInterval (snd x))"
proof -
  define f :: "tracking_options \<Rightarrow> session_key \<times> tracking_options \<Rightarrow> tracking_options"
    where "f = (\<lambda>a (_, t). if opt_size a = 0 \<or> minInterval t < minInterval a then t else a)"
  have step: "foldl f a m \<in> insert a (snd ` set m) \<and> session_ok (foldl f a m) \<and> minInterval (foldl f a m) \<le> minInterval a \<and>
      (\<forall>x\<in>set m. minInterval (foldl f a m) \<le> minInterval (snd x))"
    if "session_ok a" "\<forall>x\<in>set m. session_ok (snd x)" for a m
    using that
  proof (induction m arbitrary: a)
    case (Cons x m)
    have "f a x \<in> {a, snd x}" "session_ok (f a x)" "minInterval (f a x) \<le> minInterval a" "minInterval (f a x) \<le> minInterval (snd x)"
      using Cons.prems by (auto simp: f_def session_ok_def split: prod.splits)
    moreover note Cons.IH [of "f a x"]
    ultimately show ?case using Cons.prems(2) by (auto intro: order_trans)
  qed simp
  obtain x m' where m: "m = x # m'" using assms(1) by (cases m) auto
  have "f zero_options x = snd x" by (simp add: f_def zero_options_def split: prod.splits)
  then show ?thesis
    using step [of "snd x" m'] assms(2) by (simp add: m pick_smallest_def flip: f_def)
qed

section \<open>Starting the engine\<close>

lemma start_engine_effect:
  assumes "sessions_ok s" "highest_ok s" "MIN_TRACKING_INTERVAL \<le> minInterval opt" "response_ok k"
  shows "sessions_ok (start_engine k c i opt s) \<and> highest_ok (start_engine k c i opt s) \<and>
    (\<exists>o'. running (start_engine k c i opt s) = Some o' \<and> minInterval o' \<le> minInterval opt)"
proof -
  define t where "t = hub_start (setLocPositionMode (convertOptions opt) s)"
  have t: "view t = view s" by (simp add: t_def hub_start_def setLocPositionMode_def)
  note v = view_inv [OF t]
  have st: "start_engine k c i opt s =
      (let (running, tempOptions, s2) = checkAndSetSPEToRunforNHz opt t
       in if \<not> running then engine (StartTimeBased tempOptions) k s2 else reportResponse c SUCCESS i s2)"
    by (simp add: start_engine_def t_def)
  have ok: "sessions_ok t" "highest_ok t" using assms v by simp_all
  show ?thesis
  proof (cases "mNHzNeeded t \<and> mSPEAlreadyRunningAtHighestInterval t")
    case True
    then have "start_engine k c i opt s = reportResponse c SUCCESS i t" by (simp add: st checkAndSetSPEToRunforNHz_def)
    moreover obtain o' where "running t = Some o'" "minInterval o' \<le> minInterval opt"
      using ok(2) True assms(3) by (auto simp: highest_ok_def)
    ultimately show ?thesis using ok view_inv [OF view_simps(1) [of c SUCCESS i t]] by auto
  next
    case False
    then show ?thesis
      using assms(3,4) ok
      by (auto simp: st checkAndSetSPEToRunforNHz_def sessions_ok_def highest_ok_def running_def engine_def split: if_splits)
  qed
qed

lemma serves_mono: "serves m s \<Longrightarrow> set m' \<subseteq> set m \<Longrightarrow> serves m' s"
  by (cases m) (fastforce simp: serves_def)+

lemma serves_running:
  "running s = Some opt \<Longrightarrow> (\<And>x. x \<in> set m \<Longrightarrow> minInterval opt \<le> minInterval (snd x)) \<Longrightarrow> serves m s"
  by (auto simp: serves_def)

lemma start_mux_effect:
  fixes c i
  assumes "interval_inv s" "session_ok opt"
  defines "s' \<equiv> snd (startTimeBasedTrackingMultiplex c i opt s)"
  shows "sessions_ok s' \<and> highest_ok s' \<and> serves ((k, opt) # mTimeBasedTrackingSessions s) s'"
proof -
  let ?m = "mTimeBasedTrackingSessions s"
  have inv: "sessions_ok s" "highest_ok s" "serves ?m s" using assms(1) by (simp_all add: interval_inv_def)
  have opt: "MIN_TRACKING_INTERVAL \<le> minInterval opt" using assms(2) by (simp add: session_ok_def)
  show ?thesis
  proof (cases "?m = []")
    case True
    define t where "t = s\<lparr>mPrevNmeaRptTimeNsec := 0\<rparr>"
    have t: "view t = view s" by (simp add: t_def)
    have "s' = start_engine (TimeBasedDone c i) c i opt t"
      using True by (simp add: s'_def startTimeBasedTrackingMultiplex_def startTimeBasedTracking_def t_def)
    with start_engine_effect [of t opt "TimeBasedDone c i" c i] inv opt view_inv [OF t] True
    show ?thesis by (auto intro: serves_running)
  next
    case False
    define p where "p = pick_smallest ?m"
    have p: "p \<in> snd ` set ?m" "session_ok p" "\<forall>x\<in>set ?m. minInterval p \<le> minInterval (snd x)"
      using pick_smallest_least [OF False] inv(1) by (auto simp: p_def sessions_ok_def)
    define q where "q = (if minInterval opt < minInterval p then p\<lparr>minInterval := minInterval opt\<rparr> else p)"
    define q' where "q' = (if powerMode opt < pick_power ?m then q\<lparr>powerMode := powerMode opt\<rparr> else q)"
    have q: "MIN_TRACKING_INTERVAL \<le> minInterval q'" "minInterval q' \<le> minInterval opt" "minInterval q' \<le> minInterval p"
      using p(2) opt by (auto simp: q'_def q_def session_ok_def)
    have s': "s' = (if minInterval opt < minInterval p \<or> powerMode opt < pick_power ?m
                    then start_engine (TimeBasedDone c i) c i q' s else s)"
      using False by (auto simp: s'_def startTimeBasedTrackingMultiplex_def startTimeBasedTracking_def p_def q_def q'_def Let_def)
    show ?thesis
    proof (cases "minInterval opt < minInterval p \<or> powerMode opt < pick_power ?m")
      case True
      obtain o' where "sessions_ok s'" "highest_ok s'" "running s' = Some o'" "minInterval o' \<le> minInterval q'"
        using start_engine_effect [OF inv(1,2) q(1), of "TimeBasedDone c i" c i] True s' by auto
      moreover have "minInterval o' \<le> minInterval (snd x)" if "x \<in> set ?m" for x
        using calculation(4) q(3) p(3) that by (blast intro: order_trans)
      ultimately show ?thesis using q(2) by (auto intro!: serves_running intro: order_trans)
    next
      case no: False
      obtain o' where o': "running s = Some o'" "\<forall>x\<in>set ?m. minInterval o' \<le> minInterval (snd x)"
        using inv(3) False by (auto simp: serves_def)
      have "minInterval o' \<le> minInterval p" using o'(2) p(1) by auto
      then show ?thesis using no s' inv o' by (auto intro!: serves_running intro: order_trans)
    qed
  qed
qed

section \<open>Sessions that come and go\<close>

lemma save_fields:
  "mTimeBasedTrackingSessions (saveTrackingSession c i opt s) =
     (if minDistance opt > 0 \<and> isMessageSupported DISTANCE_BASE_TRACKING (context_of s)
      then mTimeBasedTrackingSessions s else put (LocationSessionKey c i) opt (mTimeBasedTrackingSessions s))"
  "context_of (saveTrackingSession c i opt s) = context_of s" "running (saveTrackingSession c i opt s) = running s"
  "mSPEAlreadyRunningAtHighestInterval (saveTrackingSession c i opt s) = mSPEAlreadyRunningAtHighestInterval s"
  "mNHzNeeded (saveTrackingSession c i opt s) = mNHzNeeded s" "pending (saveTrackingSession c i opt s) = pending s"
  by (simp_all add: saveTrackingSession_def update_ntrip_def running_def Let_def)

lemma erase_fields:
  "mTimeBasedTrackingSessions (eraseTrackingSession c i s) =
     AList.delete (LocationSessionKey c i) (mTimeBasedTrackingSessions s)"
  "context_of (eraseTrackingSession c i s) = context_of s" "running (eraseTrackingSession c i s) = running s"
  "mSPEAlreadyRunningAtHighestInterval (eraseTrackingSession c i s) = mSPEAlreadyRunningAtHighestInterval s"
  "mNHzNeeded (eraseTrackingSession c i s) = mNHzNeeded s" "pending (eraseTrackingSession c i s) = pending s"
  by (auto simp: eraseTrackingSession_def update_ntrip_def running_def Let_def delete_absent)

lemma save_effect:
  assumes "sessions_ok s" "highest_ok s" "session_ok opt"
    "serves ((LocationSessionKey c i, opt) # filter (\<lambda>(k, _). k \<noteq> LocationSessionKey c i) (mTimeBasedTrackingSessions s)) s"
    "minDistance opt > 0 \<Longrightarrow> serves (mTimeBasedTrackingSessions s) s"
  shows "interval_inv (saveTrackingSession c i opt s)"
proof -
  let ?t = "saveTrackingSession c i opt s"
  have "sessions_ok ?t" using assms(1,3) by (auto simp: sessions_ok_def save_fields set_put_ordered)
  moreover have "highest_ok ?t" using assms(2) by (simp add: highest_ok_def save_fields)
  moreover have "serves (mTimeBasedTrackingSessions ?t) ?t"
  proof (cases "minDistance opt > 0 \<and> isMessageSupported DISTANCE_BASE_TRACKING (context_of s)")
    case True
    then show ?thesis using assms(5) by (simp add: serves_def save_fields)
  next
    case False
    have "set (mTimeBasedTrackingSessions ?t) \<subseteq>
        set ((LocationSessionKey c i, opt) # filter (\<lambda>(k, _). k \<noteq> LocationSessionKey c i) (mTimeBasedTrackingSessions s))"
      using False assms(1) by (auto simp: save_fields sessions_ok_def set_put_ordered)
    from serves_mono [OF assms(4) this] show ?thesis by (simp add: serves_def save_fields)
  qed
  ultimately show ?thesis by (simp add: interval_inv_def)
qed

lemma save_distance:
  assumes "interval_inv s" "minDistance opt > 0"
  shows "interval_inv (saveTrackingSession c i opt s)"
  using assms
  by (simp add: interval_inv_def sessions_ok_def highest_ok_def serves_def save_fields)

lemma erase_effect:
  assumes "sessions_ok s" "highest_ok s" "serves (filter (\<lambda>(k, _). k \<noteq> LocationSessionKey c i) (mTimeBasedTrackingSessions s)) s"
  shows "interval_inv (eraseTrackingSession c i s)"
proof -
  have "AList.delete (LocationSessionKey c i) (mTimeBasedTrackingSessions s) =
      filter (\<lambda>(k, _). k \<noteq> LocationSessionKey c i) (mTimeBasedTrackingSessions s)"
    by (simp add: delete_filter case_prod_unfold)
  then show ?thesis
    using assms by (auto simp: interval_inv_def sessions_ok_def highest_ok_def serves_def erase_fields)
qed

lemma erase_inv: "interval_inv s \<Longrightarrow> interval_inv (eraseTrackingSession c i s)"
  by (rule erase_effect) (auto simp: interval_inv_def elim!: serves_mono)

lemma start_and_save:
  assumes "interval_inv s" "session_ok opt"
  shows "interval_inv (saveTrackingSession c i opt (snd (startTimeBasedTrackingMultiplex c i opt s)))"
proof -
  let ?s = "snd (startTimeBasedTrackingMultiplex c i opt s)"
  have same: "mTimeBasedTrackingSessions ?s = mTimeBasedTrackingSessions s"
    using core_startMux [of c i opt s] by (simp add: core_def)
  note e = start_mux_effect [OF assms, of c i "LocationSessionKey c i"]
  show ?thesis
  proof (rule save_effect)
    show "serves ((LocationSessionKey c i, opt) # filter (\<lambda>(k, _). k \<noteq> LocationSessionKey c i) (mTimeBasedTrackingSessions ?s)) ?s"
      using e by (auto simp: same elim!: serves_mono)
    show "serves (mTimeBasedTrackingSessions ?s) ?s" using e by (auto simp: same elim!: serves_mono)
  qed (use e assms in simp_all)
qed

lemma stop_and_erase:
  assumes inv: "interval_inv s" and present: "isTimeBasedTrackingSession c i s"
  shows "interval_inv (eraseTrackingSession c i (snd (stopTimeBasedTrackingMultiplex c i s)))"
proof -
  let ?m = "mTimeBasedTrackingSessions s"
  let ?s = "snd (stopTimeBasedTrackingMultiplex c i s)"
  have same: "mTimeBasedTrackingSessions ?s = ?m" using core_stopMux [of c i s] by (simp add: core_def)
  have ok: "sessions_ok s" "highest_ok s" "serves ?m s" using inv by (simp_all add: interval_inv_def)
  obtain opt where opt: "map_of ?m (LocationSessionKey c i) = Some opt"
    using present by (auto simp: isTimeBasedTrackingSession_def)
  have rest: "filter (\<lambda>(k, _). k \<noteq> LocationSessionKey c i) ?m = others c i s" by (simp add: others_def)
  have "sessions_ok ?s \<and> highest_ok ?s \<and> serves (others c i s) ?s"
  proof (cases "length ?m = 1")
    case True
    then obtain x where x: "?m = [x]" by (metis One_nat_def length_0_conv length_Suc_conv)
    then have "others c i s = []" using opt by (cases x) (auto simp: others_def split: if_splits)
    moreover have "?s = stopTracking c i s" using True by (simp add: stopTimeBasedTrackingMultiplex_def)
    ultimately show ?thesis
      using ok by (simp add: stopTracking_def sessions_ok_def highest_ok_def serves_def)
  next
    case False
    define p where "p = pick_smallest (others c i s)"
    define b where "b \<longleftrightarrow> minInterval opt < minInterval p \<or> powerMode opt < pick_power (others c i s)"
    have s': "?s = (if b then start_engine (TimeBasedDone c i) c i (p\<lparr>powerMode := pick_power (others c i s)\<rparr>) s else s)"
      using False opt by (simp add: stopTimeBasedTrackingMultiplex_def startTimeBasedTracking_def Let_def p_def b_def)
    have sub: "set (others c i s) \<subseteq> set ?m" by (auto simp: others_def)
    show ?thesis
    proof (cases "b \<and> others c i s \<noteq> []")
      case True
      have p: "session_ok p" "\<forall>x\<in>set (others c i s). minInterval p \<le> minInterval (snd x)"
        using pick_smallest_least [of "others c i s"] True ok(1) sub by (auto simp: p_def sessions_ok_def)
      then show ?thesis
        using start_engine_effect [OF ok(1,2), of "p\<lparr>powerMode := pick_power (others c i s)\<rparr>" "TimeBasedDone c i" c i] True s'
        by (fastforce simp: session_ok_def intro!: serves_running intro: order_trans)
    next
      case no: False
      have "\<not> b"
      proof
        assume b
        then have "others c i s = []" using no by simp
        moreover have "length (others c i s) + 1 = length ?m"
          using delete_present_length [of ?m "LocationSessionKey c i" opt] opt ok(1)
          by (simp add: others_def sessions_ok_def delete_filter case_prod_unfold)
        ultimately show False using False by simp
      qed
      then show ?thesis using ok s' sub by (auto elim!: serves_mono)
    qed
  qed
  then show ?thesis by (intro erase_effect) (simp_all add: same rest)
qed

lemma update_mux_effect:
  assumes inv: "interval_inv s" and opt: "session_ok opt" and u: "updateTrackingMultiplex c i opt s = Some (now, s')"
  shows "sessions_ok s' \<and> highest_ok s' \<and> serves ((k, opt) # others c i s) s'"
proof -
  let ?m = "mTimeBasedTrackingSessions s"
  have ok: "sessions_ok s" "highest_ok s" "serves ?m s" using inv by (simp_all add: interval_inv_def)
  have min: "MIN_TRACKING_INTERVAL \<le> minInterval opt" using opt by (simp add: session_ok_def)
  obtain old where old: "map_of ?m (LocationSessionKey c i) = Some old"
    using u by (auto simp: updateTrackingMultiplex_def split: option.splits)
  have sub: "set (others c i s) \<subseteq> set ?m" by (auto simp: others_def)
  have mem: "(LocationSessionKey c i, old) \<in> set ?m" using old by (rule map_of_SomeD)
  then obtain o' where o': "running s = Some o'" "\<forall>x\<in>set ?m. minInterval o' \<le> minInterval (snd x)"
    using ok(3) by (cases ?m) (auto simp: serves_def)
  define p where "p = pick_smallest (others c i s)"
  define q where "q = (if minInterval opt < minInterval p then p\<lparr>minInterval := minInterval opt\<rparr> else p)"
  define q' where "q' = (if powerMode opt < pick_power (others c i s) then q\<lparr>powerMode := powerMode opt\<rparr> else q)"
  define b where "b \<longleftrightarrow> minInterval opt < minInterval p \<or> powerMode opt < pick_power (others c i s)"
  have "updateTrackingMultiplex c i opt s =
      Some (if minInterval old = minInterval opt \<and> powerMode old = powerMode opt then (True, s)
            else if length ?m = 1 then (False, start_engine (UpdateDone c i old) c i opt s)
            else if b then (False, start_engine (UpdateDone c i old) c i q' s) else (True, s))"
    unfolding updateTrackingMultiplex_def old updateTracking_def Let_def p_def q_def q'_def b_def option.case
    by (simp split del: if_split add: if_distrib) auto
  then consider (same) "minInterval old = minInterval opt" "s' = s"
    | (single) "length ?m = 1" "s' = start_engine (UpdateDone c i old) c i opt s"
    | (restart) "length ?m \<noteq> 1" b "s' = start_engine (UpdateDone c i old) c i q' s"
    | (keep) "length ?m \<noteq> 1" "\<not> b" "s' = s"
    unfolding u by (auto split: if_splits)
  then show ?thesis
  proof cases
    case same
    then show ?thesis using ok o' mem sub by (fastforce intro!: serves_running)
  next
    case single
    then obtain x where "?m = [x]" by (metis One_nat_def length_0_conv length_Suc_conv)
    then have "others c i s = []" using old by (cases x) (auto simp: others_def split: if_splits)
    then show ?thesis
      using single start_engine_effect [OF ok(1,2) min, of "UpdateDone c i old" c i] by (auto intro!: serves_running)
  next
    case restart
    have "length (others c i s) + 1 = length ?m"
      using delete_present_length [of ?m "LocationSessionKey c i" old] old ok(1)
      by (simp add: others_def sessions_ok_def delete_filter case_prod_unfold)
    then have "others c i s \<noteq> []" using restart(1) by auto
    then have p: "session_ok p" "\<forall>x\<in>set (others c i s). minInterval p \<le> minInterval (snd x)"
      using pick_smallest_least [of "others c i s"] ok(1) sub by (auto simp: p_def sessions_ok_def)
    have q: "MIN_TRACKING_INTERVAL \<le> minInterval q'" "minInterval q' \<le> minInterval opt" "minInterval q' \<le> minInterval p"
      using p(1) min by (auto simp: q'_def q_def session_ok_def)
    obtain o2 where o2: "sessions_ok s'" "highest_ok s'" "running s' = Some o2" "minInterval o2 \<le> minInterval q'"
      using start_engine_effect [OF ok(1,2) q(1), of "UpdateDone c i old" c i] restart by auto
    moreover have "minInterval o2 \<le> minInterval (snd x)" if "x \<in> set (others c i s)" for x
      using o2(4) q(3) p(2) that by (blast intro: order_trans)
    ultimately show ?thesis using q(2) by (auto intro!: serves_running intro: order_trans)
  next
    case keep
    have "length (others c i s) + 1 = length ?m"
      using delete_present_length [of ?m "LocationSessionKey c i" old] old ok(1)
      by (simp add: others_def sessions_ok_def delete_filter case_prod_unfold)
    then have "others c i s \<noteq> []" using keep(1) by auto
    then have "p \<in> snd ` set (others c i s)"
      using pick_smallest_least [of "others c i s"] ok(1) sub by (auto simp: p_def sessions_ok_def)
    then have "minInterval o' \<le> minInterval p" using o'(2) sub by auto
    then have "minInterval o' \<le> minInterval opt" using keep(2) by (auto simp: b_def)
    then show ?thesis using ok o' sub keep(3) by (auto intro!: serves_running)
  qed
qed

lemma update_and_save:
  assumes "interval_inv s" "session_ok opt" "updateTrackingMultiplex c i opt s = Some (now, s')" "\<not> minDistance opt > 0"
  shows "interval_inv (saveTrackingSession c i opt s')"
proof -
  note e = update_mux_effect [OF assms(1-3), of "LocationSessionKey c i"]
  have "mTimeBasedTrackingSessions s' = mTimeBasedTrackingSessions s"
    using core_updateMux [OF assms(3)] by (simp add: core_def)
  then show ?thesis
    using e assms(2,4) by (intro save_effect) (simp_all add: others_def)
qed

section \<open>Restarts\<close>

lemma restart_effect:
  assumes "sessions_ok s"
  shows "interval_inv (checkAndRestartSPESession s)"
proof -
  define t where "t = s\<lparr>mSPEAlreadyRunningAtHighestInterval := False\<rparr>"
  have t: "sessions_ok t" "highest_ok t" "\<not> mSPEAlreadyRunningAtHighestInterval t"
    using assms by (simp_all add: t_def sessions_ok_def highest_ok_def)
  have "interval_inv (checkAndRestartTimeBasedSession t)"
  proof (cases "mTimeBasedTrackingSessions t = []")
    case True
    then show ?thesis using t by (simp add: checkAndRestartTimeBasedSession_def interval_inv_def serves_def)
  next
    case False
    define p where "p = setLocationOptions (pick_smallest (mTimeBasedTrackingSessions t))
        (pick_highest_power (mTimeBasedTrackingSessions t))"
    have p: "MIN_TRACKING_INTERVAL \<le> minInterval p" "\<forall>x\<in>set (mTimeBasedTrackingSessions t). minInterval p \<le> minInterval (snd x)"
      using pick_smallest_least [OF False] t(1) by (auto simp: p_def setLocationOptions_def sessions_ok_def session_ok_def)
    have r: "checkAndRestartTimeBasedSession t =
        (let (running, opts', s1) = checkAndSetSPEToRunforNHz p t
         in if \<not> running then engine_set (StartTimeBased opts') s1 else s1)"
      using False by (simp add: checkAndRestartTimeBasedSession_def p_def Let_def)
    show ?thesis
    proof (cases "mNHzNeeded t \<and> MIN_TRACKING_INTERVAL < minInterval p")
      case True
      then have "checkAndRestartTimeBasedSession t = engine_set (StartTimeBased (p\<lparr>minInterval := MIN_TRACKING_INTERVAL\<rparr>))
          (t\<lparr>mSPEAlreadyRunningAtHighestInterval := True\<rparr>)"
        using t(3) by (simp add: r checkAndSetSPEToRunforNHz_def)
      then show ?thesis
        using p t(1) True by (auto simp: interval_inv_def sessions_ok_def highest_ok_def serves_def session_ok_def)
    next
      case False
      then have "checkAndRestartTimeBasedSession t = engine_set (StartTimeBased p) t"
        using t(3) by (simp add: r checkAndSetSPEToRunforNHz_def)
      then show ?thesis using p t(1,3) by (simp add: interval_inv_def sessions_ok_def highest_ok_def serves_def)
    qed
  qed
  moreover have "view (checkAndRestartSPESession s) = view (checkAndRestartTimeBasedSession t)"
    by (simp add: checkAndRestartSPESession_def t_def view_fold case_prod_beta)
  ultimately show ?thesis using view_inv(4) by blast
qed

lemma restartSessions_effect:
  assumes "sessions_ok s"
  shows "interval_inv (restartSessions b s)"
proof -
  define t where "t = (if b then s\<lparr>odcpi := (odcpi s)\<lparr>mOdcpiRequestActive := False\<rparr>\<rparr> else s)"
  define u where "u = t\<lparr>mSPEAlreadyRunningAtHighestInterval := False\<rparr>"
  have "view t = view s" by (simp add: t_def)
  then have "sessions_ok u" using assms view_inv(1) [of t s] by (simp add: u_def sessions_ok_def)
  moreover have "sessions_ok (hub_start u) = sessions_ok u" by (rule view_inv(1)) (simp add: hub_start_def)
  moreover have "restartSessions b s =
      checkAndRestartSPESession (if mTimeBasedTrackingSessions u \<noteq> [] then hub_start u else u)"
    by (simp add: restartSessions_def Let_def t_def u_def)
  ultimately show ?thesis by (simp add: restart_effect)
qed

lemma suspend_ok: "sessions_ok s \<Longrightarrow> sessions_ok (suspendSessions s)"
  by (simp add: suspendSessions_def sessions_ok_def)

section \<open>Every step\<close>

lemma view_interval: "interval_inv s \<Longrightarrow> view s' = view s \<Longrightarrow> interval_inv s'"
  using view_inv(4) by blast

lemma interval_report [simp]: "interval_inv (reportResponse c e i s) = interval_inv s"
  by (rule view_inv(4)) simp

lemma interval_distance_request [simp]:
  "response_ok k \<Longrightarrow> interval_inv (engine (StartDistanceBased i opt) k s) = interval_inv s"
  "response_ok k \<Longrightarrow> interval_inv (engine (StopDistanceBased i) k s) = interval_inv s"
  by (rule view_inv(4), simp)+

lemma session_ok_clamped: "opt_size opt \<noteq> 0 \<Longrightarrow> session_ok (at_least_min_interval opt)"
  by (auto simp: session_ok_def at_least_min_interval_def)

lemma fall_back_fields [simp]:
  "opt_size (fall_back_to_m2 opt) = opt_size opt" "minInterval (fall_back_to_m2 opt) = minInterval opt"
  "minDistance (fall_back_to_m2 opt) = minDistance opt" "minDistance (at_least_min_interval opt) = minDistance opt"
  by (simp_all add: fall_back_to_m2_def at_least_min_interval_def)

lemma session_ok_fall_back: "session_ok (fall_back_to_m2 opt) = session_ok opt"
  by (simp add: session_ok_def)

lemma interval_start: "interval_inv s \<Longrightarrow> interval_inv (start_proc c i opt s)"
  by (auto simp: start_proc_def Let_def case_prod_beta start_and_save session_ok_clamped session_ok_fall_back save_distance
      elim: view_interval)

lemma interval_stop: "interval_inv s \<Longrightarrow> interval_inv (stop_proc c i s)"
  by (simp add: stop_proc_def Let_def case_prod_beta stop_and_erase)

lemma interval_update:
  assumes "interval_inv s" "update_proc c i opt s = Some s'"
  shows "interval_inv s'"
proof -
  define opt1 where "opt1 = at_least_min_interval (fall_back_to_m2 opt)"
  have ok: "opt_size opt \<noteq> 0 \<Longrightarrow> session_ok opt1" by (simp add: opt1_def session_ok_clamped)
  have saved: "interval_inv (saveTrackingSession c i opt1 b)"
    if "updateTrackingMultiplex c i opt1 s = Some (now, b)" "minDistance opt1 = 0" "opt_size opt \<noteq> 0" for now b
    using update_and_save [OF assms(1) ok that(1)] that by simp
  have postponed: "interval_inv (postpone m s)" for m using assms(1) by (rule view_interval) simp
  show ?thesis
    using assms
    by (auto simp: update_proc_def Let_def case_prod_beta postponed ok bind_eq_Some_conv word_gt_0
        save_distance stop_and_erase erase_inv saved simp flip: opt1_def split: if_splits)
qed

lemma interval_stop_time_based:
  "interval_inv s \<Longrightarrow> k \<in> fst ` set (mTimeBasedTrackingSessions s) \<Longrightarrow> interval_inv (stop_time_based k s)"
  unfolding stop_time_based_def
  by (rule stop_and_erase) (auto simp: isTimeBasedTrackingSession_def map_of_eq_None_iff)

lemma interval_stop_all:
  "interval_inv s \<Longrightarrow> set ks \<subseteq> fst ` set (mTimeBasedTrackingSessions s) \<Longrightarrow> distinct ks \<Longrightarrow>
     interval_inv (fold stop_time_based ks s)"
proof (induction ks arbitrary: s)
  case (Cons k ks)
  have "mTimeBasedTrackingSessions (stop_time_based k s) = AList.delete k (mTimeBasedTrackingSessions s)"
    using core_stopMux [of "key_client k" "key_id k" s]
    by (simp add: stop_time_based_def erase_fields core_def)
  then have "set ks \<subseteq> fst ` set (mTimeBasedTrackingSessions (stop_time_based k s))"
    using Cons.prems(2,3) by (force simp: delete_filter)
  then show ?case using Cons interval_stop_time_based [of s k] by simp
qed simp

lemma interval_stopClient: "interval_inv s \<Longrightarrow> interval_inv (stopClientSessions c s)"
proof -
  assume inv: "interval_inv s"
  define t where "t = fold stop_time_based (filter (\<lambda>k. key_client k = c) (map fst (mTimeBasedTrackingSessions s))) s"
  have "interval_inv t"
    unfolding t_def using inv
    by (intro interval_stop_all) (auto simp: interval_inv_def sessions_ok_def ordered_distinct)
  moreover have "view (stopClientSessions c s) = view t"
    by (simp add: stopClientSessions_def Let_def t_def view_fold)
  ultimately show ?thesis by (rule view_interval)
qed

lemma interval_respond:
  assumes "interval_inv s" "response_ok k" "accepting (AnswerEvent k err)"
  shows "interval_inv (respond k err s)"
proof -
  have "interval_inv (reportControlResponse e i s)" for e i using assms(1) by (rule view_interval) simp
  then show ?thesis
    using assms by (cases k) (auto simp: Let_def case_prod_beta erase_inv start_and_save save_distance)
qed

lemma sessions_ok_view: "sessions_ok s \<Longrightarrow> view s' = view s \<Longrightarrow> sessions_ok s'"
  using view_inv(1) by blast

lemma suspended_restart:
  assumes "interval_inv s" "view t = view (suspendSessions s)"
  shows "interval_inv (restartSessions b t)"
  using assms suspend_ok [of s] sessions_ok_view by (intro restartSessions_effect) (auto simp: interval_inv_def)

lemma interval_min_week: "interval_inv s \<Longrightarrow> interval_inv (configMinGpsWeek i w s)"
  unfolding configMinGpsWeek_def Let_def by (rule suspended_restart [where s = s]) simp_all

lemma interval_sv_config: "interval_inv s \<Longrightarrow> interval_inv (gnssUpdateSvConfig i tc ic s)"
  unfolding gnssUpdateSvConfig_def Let_def by (rule suspended_restart [where s = s]) simp_all

lemma view_sv [simp]:
  "view (gnssSvIdConfigUpdate s) = view s" "view (gnssSvTypeConfigUpdate b s) = view s"
  "view (update_sv_type_proc tc s) = view s" "view (reset_sv_type_proc s) = view s"
  by (simp_all add: gnssSvIdConfigUpdate_def gnssSvTypeConfigUpdate_def update_sv_type_config_def
      update_sv_type_proc_def reset_sv_type_proc_def Let_def)

lemma view_control [simp]:
  "view (enable_proc i t s) = view s" "view (disable_proc i s) = view s" "view (delete_aiding_proc i d s) = view s"
  "view (init_odcpi_proc cb p s) = view s"
  by (simp_all add: enable_proc_def disable_proc_def delete_aiding_proc_def deleteAidingData_def init_odcpi_proc_def
      set_lock_def Let_def case_prod_beta)

lemma view_client [simp]:
  "view (updateClientsEventMask s) = view s" "view (saveClient updateClientsEventMask c cbs s) = view s"
  "view (eraseClient updateClientsEventMask c s) = view s"
  "view (notifyClientOfCachedLocationSystemInfo c cbs s) = view s" "view (request_capabilities cb m c s) = view s"
  by (simp_all add: updateClientsEventMask_def saveClient_def eraseClient_def
      notifyClientOfCachedLocationSystemInfo_def request_capabilities_def Let_def view_fold)

lemma interval_engine_up: "interval_inv s \<Longrightarrow> interval_inv (engine_up s)"
proof -
  assume inv: "interval_inv s"
  define s2 where "s2 = broadcastCapabilities Capabilities
      (getCapabilities True (context_of (s\<lparr>mIsEngineCapabilitiesKnown := True\<rparr>))) (s\<lparr>mIsEngineCapabilitiesKnown := True\<rparr>)"
  define s3 where "s3 = engine_set SecondaryBand (engine_set SystemPowerState
      (gnssSvTypeConfigUpdate False (gnssSvIdConfigUpdate (engine_set SetConfig s2))))"
  define s4 where "s4 = restartSessions True s3"
  have "view s3 = view s" by (simp add: s3_def s2_def)
  then have "interval_inv s4"
    using inv sessions_ok_view unfolding s4_def interval_inv_def [of s] by (intro restartSessions_effect) blast
  moreover have "engine_up s = (fold sendMsg (mPendingMsgs s4) s4)\<lparr>mPendingMsgs := []\<rparr>"
    by (simp add: engine_up_def Let_def s4_def s3_def s2_def)
  ultimately show ?thesis by (auto intro: view_interval simp: view_fold)
qed

lemma interval_nhz: "interval_inv s \<Longrightarrow> interval_inv (updateNHzRequirement b b' s)"
proof -
  assume inv: "interval_inv s"
  define t where "t = (if b' \<and> mEvtMask s AND NHZ_MEASUREMENT = 0 then updateEvtMask NHZ_MEASUREMENT MASK_ENABLED s
      else if mEvtMask s AND NHZ_MEASUREMENT \<noteq> 0 then updateEvtMask NHZ_MEASUREMENT MASK_DISABLED s else s)"
  have t: "interval_inv t" using inv by (rule view_interval) (simp add: t_def)
  have "updateNHzRequirement b b' s =
      (if mNHzNeeded t \<noteq> b then checkAndRestartSPESession (t\<lparr>mNHzNeeded := b\<rparr>) else t)"
    by (simp add: updateNHzRequirement_def t_def Let_def)
  moreover have "sessions_ok (t\<lparr>mNHzNeeded := b\<rparr>)" using t by (simp add: interval_inv_def sessions_ok_def)
  ultimately show ?thesis using t restart_effect by simp
qed

lemma interval_proc: "interval_inv s \<Longrightarrow> proc m s = Some s' \<Longrightarrow> interval_inv s'"
proof (cases m)
  case (MsgRemoveClient c b)
  assume inv: "interval_inv s" and p: "proc m s = Some s'"
  from p MsgRemoveClient have "view s' = view (stopClientSessions c s)"
    by (auto simp: remove_client_def Let_def split: if_splits)
  then show ?thesis using interval_stopClient [OF inv] by (rule view_interval [rotated])
next
  case (MsgRequestOdcpi r)
  assume inv: "interval_inv s" and p: "proc m s = Some s'"
  then show ?thesis using MsgRequestOdcpi by (auto simp: update_odcpi_def elim: view_interval)
next
  case MsgOdcpiTimerExpire
  assume inv: "interval_inv s" and p: "proc m s = Some s'"
  then show ?thesis using MsgOdcpiTimerExpire by (auto simp: update_odcpi_def elim: view_interval)
qed (auto simp: interval_start interval_stop interval_update interval_min_week interval_sv_config interval_engine_up
      elim: view_interval)

lemma interval_step:
  assumes "gnss_step s e s'" "interval_inv s" "accepting e"
  shows "interval_inv s'"
  using assms
proof (induction rule: gnss_step.induct)
  case (Next s s')
  then show ?case
    by (auto simp: run_next_def split: list.splits elim!: interval_proc [rotated] elim: view_interval)
next
  case (Answer n s err)
  define t where "t = s\<lparr>pending := take n (pending s) @ drop (Suc n) (pending s)\<rparr>"
  have "set (take n (pending s) @ drop (Suc n) (pending s)) \<subseteq> set (pending s)"
    by (auto dest: in_set_takeD in_set_dropD)
  then have "interval_inv t"
    using Answer.prems(1) by (auto simp: t_def interval_inv_def sessions_ok_def serves_def highest_ok_def running_def)
  moreover have "response_ok (pending s ! n)"
    using Answer.prems(1) Answer.hyps by (simp add: interval_inv_def sessions_ok_def)
  ultimately have "interval_inv (respond (pending s ! n) err t)" using Answer.prems(2) by (rule interval_respond)
  then show ?case using Answer.hyps by (simp add: answer_def t_def)
qed (auto simp: interval_nhz odcpi_timer_callback_def elim: view_interval)

text \<open>
  C11. As long as the engine accepts the requests for time-based sessions (and supports those that are
  distance-based), in every state the adapter reaches with a time-based session the engine was last
  asked to run, with an interval at most that of every time-based session. Starts, stops, updates,
  switches between the two kinds of session, removed clients, restarts of the modem, suspensions and
  changes of the engine hub, in any order and with late answers, all keep this.\<close>

theorem engine_serves_every_session:
  assumes "gnss_reachable accepting (new_gnss_adapter ctx garbage dr hub lock counter) s"
    "isMessageSupported DISTANCE_BASE_TRACKING ctx" "mTimeBasedTrackingSessions s \<noteq> []"
  shows "\<exists>opt. running s = Some opt \<and>
    (\<forall>x\<in>set (mTimeBasedTrackingSessions s). minInterval opt \<le> minInterval (snd x))"
proof -
  have "interval_inv s"
    using assms(1)
  proof (induction rule: gnss_reachable.induct)
    case Start
    show ?case
      using assms(2) by (simp add: interval_inv_def sessions_ok_def serves_def highest_ok_def new_gnss_adapter_def)
  next
    case (Step s e s')
    then show ?case using interval_step by blast
  qed
  then show ?thesis using assms(3) by (simp add: interval_inv_def serves_def)
qed

definition two_sessions :: "gnss_msg list" where
  "two_sessions = [MsgAddClient 1 example_cbs, MsgStartTracking 1 5 (options_of 1000 2), MsgStartTracking 1 6 (options_of 400 2),
     MsgStartTracking 1 7 (options_of 3000 3), MsgStopTracking 1 6]"

lemma two_sessions_run:
  "case run_msgs two_sessions start_state of None \<Rightarrow> False
   | Some s \<Rightarrow> map (minInterval \<circ> snd) (mTimeBasedTrackingSessions s) = [1000, 3000]"
  by code_simp

theorem engine_serves_every_session_witness:
  "\<exists>s opt. run_msgs two_sessions start_state = Some s \<and> running s = Some opt \<and> minInterval opt \<le> 1000"
proof -
  obtain s where s: "run_msgs two_sessions start_state = Some s"
    "map (minInterval \<circ> snd) (mTimeBasedTrackingSessions s) = [1000, 3000]"
    using two_sessions_run by (auto split: option.splits)
  then obtain x y where x: "mTimeBasedTrackingSessions s = [x, y]" "minInterval (snd x) = 1000" by auto
  have "gnss_reachable accepting start_state s"
    using run_msgs_reachable [OF gnss_reachable.Start s(1)] by simp
  then have "\<exists>opt. running s = Some opt \<and>
      (\<forall>x\<in>set (mTimeBasedTrackingSessions s). minInterval opt \<le> minInterval (snd x))"
    unfolding start_state_def
    by (rule engine_serves_every_session) (simp_all add: x isMessageSupported_def)
  then show ?thesis using s(1) x by auto
qed

end
