(* ===== verification/GnssTrackingErrors.thy ===== *)
theory GnssTrackingErrors
  imports GnssInterval
begin

text \<open>
  Where the tracking sessions of \<open>GnssTracking\<close> go wrong: what a refused request leaves behind, what
  an engine without distance-based tracking is asked, and commands that do not do what they say.
\<close>

section \<open>Requests that fail\<close>

text \<open>
  A start that is refused, because the client has no callback for positions or its options have no
  size, is never answered: nothing changes and nobody is told.
\<close>

theorem refused_start_not_answered:
  assumes "mIsEngineCapabilitiesKnown s \<or> minDistance opt = 0"
    "\<not> hasCallbacksToStartTracking c s \<or> opt_size opt = 0"
  shows "start_proc c i opt s = s"
  using assms by (auto simp: start_proc_def)

theorem refused_start_not_answered_witness:
  "start_proc 1 5 zero_options start_state = start_state"
  by (rule refused_start_not_answered) (simp_all add: zero_options_def)

text \<open>Runs: a message is sent and processed, the engine answers the first request that waits, or the
  engine hub says whether it needs more than 1 Hz.\<close>

datatype input = Msg gnss_msg | FirstAnswer loc_error | Hub bool

fun play :: "input list \<Rightarrow> gnss_adapter \<Rightarrow> gnss_adapter option" where
  "play [] s = Some s"
| "play (Msg m # is) s = do { s' \<leftarrow> run_next (sendMsg m s); play is s' }"
| "play (FirstAnswer err # is) s = play is (answer 0 err s)"
| "play (Hub b # is) s = play is (updateNHzRequirement b False s)"

definition starts_asked :: "gnss_adapter \<Rightarrow> 32 word list" where
  "starts_asked s = concat (map (\<lambda>op. case op of StartTimeBased opt \<Rightarrow> [minInterval opt] | _ \<Rightarrow> []) (ops s))"

text \<open>
  When the engine hub needs more than 1 Hz and the engine refuses the first session, the flag that
  it runs at the highest rate stays set: the next session is reported as started without the engine
  being asked again.
\<close>

theorem refused_start_blocks_next:
  "case play [Msg (MsgAddClient 1 example_cbs), Hub True, Msg (MsgStartTracking 1 5 (options_of 1000 2)),
              FirstAnswer GENERAL_FAILURE, Msg (MsgStartTracking 1 6 (options_of 1000 2))] start_state of
     None \<Rightarrow> False
   | Some s \<Rightarrow> starts_asked s = [100] \<and> map fst (mTimeBasedTrackingSessions s) = [LocationSessionKey 1 6] \<and>
       reports s = [(1, Response GENERAL_FAILURE 5), (1, Response SUCCESS 6)]"
  by code_simp

text \<open>
  An update that the engine refuses after the session was stopped brings the session back: the old
  options are saved again, the engine is stopped, and the power state stays on.
\<close>

theorem refused_update_revives_session:
  "case play [Msg (MsgAddClient 1 example_cbs), Msg (MsgStartTracking 1 5 (options_of 1000 2)), FirstAnswer SUCCESS,
              Msg (MsgUpdateTracking 1 5 (options_of 500 2)), Msg (MsgStopTracking 1 5),
              FirstAnswer GENERAL_FAILURE, FirstAnswer SUCCESS] start_state of
     None \<Rightarrow> False
   | Some s \<Rightarrow> map fst (mTimeBasedTrackingSessions s) = [LocationSessionKey 1 5] \<and> running s = None \<and> mPowerOn s \<and>
       pending s = []"
  by code_simp

text \<open>
  A start that the engine refuses strands the sessions that joined it: the second client was told
  that its session runs, the refusal removes only the first session, and the engine is not asked again.
\<close>

theorem refused_start_strands_others:
  "case play [Msg (MsgAddClient 1 example_cbs), Msg (MsgStartTracking 1 5 (options_of 1000 2)),
              Msg (MsgStartTracking 1 6 (options_of 1000 2)), FirstAnswer GENERAL_FAILURE] start_state of
     None \<Rightarrow> False
   | Some s \<Rightarrow> map fst (mTimeBasedTrackingSessions s) = [LocationSessionKey 1 6] \<and> starts_asked s = [1000] \<and>
       pending s = [] \<and> reports s = [(1, Response SUCCESS 6), (1, Response GENERAL_FAILURE 5)]"
  by code_simp

section \<open>Switches between the kinds of session\<close>

text \<open>
  On an engine without distance-based tracking, updating the only session with a minimum distance
  stops the engine but keeps the session as a time-based one: no positions arrive any more.
\<close>

theorem distance_update_stops_engine:
  assumes "\<not> isMessageSupported DISTANCE_BASE_TRACKING (context_of s)" "mIsEngineCapabilitiesKnown s"
    "mTimeBasedTrackingSessions s = [(LocationSessionKey c i, old)]" "minDistance opt > 0" "opt_size opt \<noteq> 0"
  shows "case update_proc c i opt s of
      None \<Rightarrow> False
    | Some s' \<Rightarrow> running s' = None \<and> map fst (mTimeBasedTrackingSessions s') = [LocationSessionKey c i]"
  using assms
  by (simp add: update_proc_def isTimeBasedTrackingSession_def stopTimeBasedTrackingMultiplex_def stopTracking_def
      Let_def save_fields erase_fields) (simp add: running_def engine_def engine_set_def)

definition example_session :: "session_key \<times> tracking_options" where
  "example_session = (LocationSessionKey 1 5, options_of 1000 2)"

theorem distance_update_stops_engine_witness:
  "case update_proc 1 5 ((options_of 1000 2)\<lparr>minDistance := 10\<rparr>)
      (start_state\<lparr>context_of := (context_of start_state)\<lparr>sSupportedMsgMask := 0\<rparr>, mIsEngineCapabilitiesKnown := True,
         mTimeBasedTrackingSessions := [example_session]\<rparr>) of
     None \<Rightarrow> False
   | Some s' \<Rightarrow> running s' = None \<and> map fst (mTimeBasedTrackingSessions s') = [LocationSessionKey 1 5]"
  by (rule distance_update_stops_engine)
    (simp_all add: isMessageSupported_def example_session_def options_of_def)

lemma save_time_based:
  "minDistance opt = 0 \<Longrightarrow> isTimeBasedTrackingSession c i (saveTrackingSession c i opt s)"
  by (auto simp: isTimeBasedTrackingSession_def save_fields map_of_eq_None_iff set_fst_put)

lemma erase_distance:
  "\<not> isTimeBasedTrackingSession c i s \<Longrightarrow> \<not> isDistanceBasedTrackingSession c i (eraseTrackingSession c i s)"
  by (simp add: isTimeBasedTrackingSession_def isDistanceBasedTrackingSession_def eraseTrackingSession_def
      update_ntrip_def Let_def)

text \<open>
  A session that is being switched from distance-based to time-based is in neither map until the
  engine answers: stopping it in between is answered with an unknown id, and it starts afterwards.
\<close>

theorem stop_during_switch_ignored:
  assumes "isDistanceBasedTrackingSession c i s" "\<not> isTimeBasedTrackingSession c i s" "minDistance opt = 0"
    "opt_size opt \<noteq> 0"
  shows "case update_proc c i opt s of
      None \<Rightarrow> False
    | Some s1 \<Rightarrow> stop_proc c i s1 = reportResponse c ID_UNKNOWN i s1 \<and>
        pending s1 = pending s @ [SwitchToTimeDone c i (at_least_min_interval (fall_back_to_m2 opt))] \<and>
        isTimeBasedTrackingSession c i
          (respond (SwitchToTimeDone c i (at_least_min_interval (fall_back_to_m2 opt))) err (stop_proc c i s1))"
proof -
  define opt1 where "opt1 = at_least_min_interval (fall_back_to_m2 opt)"
  define s1 where "s1 = engine (StopDistanceBased i) (SwitchToTimeDone c i opt1) (eraseTrackingSession c i s)"
  have "minDistance opt1 = 0" using assms(3) by (simp add: opt1_def)
  then have u: "update_proc c i opt s = Some s1"
    using assms by (simp add: update_proc_def Let_def s1_def flip: opt1_def)
  have neither: "\<not> isTimeBasedTrackingSession c i s1" "\<not> isDistanceBasedTrackingSession c i s1"
    using assms(2) erase_distance [OF assms(2)]
    by (simp_all add: s1_def isTimeBasedTrackingSession_def isDistanceBasedTrackingSession_def erase_fields engine_def)
  have report: "isTimeBasedTrackingSession c i (reportResponse c e i t) = isTimeBasedTrackingSession c i t" for e t
    using view_inv(5) [OF view_simps(1) [of c e i t]] by (simp add: isTimeBasedTrackingSession_def)
  have "isTimeBasedTrackingSession c i (respond (SwitchToTimeDone c i opt1) err t)" for t
    using \<open>minDistance opt1 = 0\<close> by (simp add: Let_def case_prod_beta save_time_based report)
  then show ?thesis
    using neither by (simp add: u stop_proc_def s1_def erase_fields flip: opt1_def)
qed

theorem stop_during_switch_ignored_witness:
  "let s = start_state\<lparr>mDistanceBasedTrackingSessions := [example_session]\<rparr>
   in case update_proc 1 5 (options_of 1000 2) s of
        None \<Rightarrow> False
      | Some s1 \<Rightarrow> stop_proc 1 5 s1 = reportResponse 1 ID_UNKNOWN 5 s1"
proof -
  define s where "s = start_state\<lparr>mDistanceBasedTrackingSessions := [example_session]\<rparr>"
  have "case update_proc 1 5 (options_of 1000 2) s of None \<Rightarrow> False
    | Some s1 \<Rightarrow> stop_proc 1 5 s1 = reportResponse 1 ID_UNKNOWN 5 s1 \<and>
        pending s1 = pending s @ [SwitchToTimeDone 1 5 (at_least_min_interval (fall_back_to_m2 (options_of 1000 2)))] \<and>
        isTimeBasedTrackingSession 1 5 (respond (SwitchToTimeDone 1 5
          (at_least_min_interval (fall_back_to_m2 (options_of 1000 2)))) SUCCESS (stop_proc 1 5 s1))"
    by (rule stop_during_switch_ignored)
      (simp_all add: s_def example_session_def start_state_def new_gnss_adapter_def isDistanceBasedTrackingSession_def
        isTimeBasedTrackingSession_def options_of_def zero_options_def)
  then show ?thesis by (auto simp: Let_def split: option.splits simp flip: s_def)
qed

section \<open>Multiplexing\<close>

text \<open>
  A start with a smaller interval takes the power mode of the session that was the fastest, not the
  highest power any session needs: here a session in mode 1 ends up on an engine in mode 5.
\<close>

theorem faster_start_drops_power:
  "case play [Msg (MsgAddClient 1 example_cbs), Msg (MsgStartTracking 1 5 (options_of 1000 5)),
              Msg (MsgStartTracking 1 6 (options_of 2000 1)), Msg (MsgStartTracking 1 7 (options_of 500 2))] start_state of
     None \<Rightarrow> False
   | Some s \<Rightarrow> map_option powerMode (running s) = Some 5 \<and>
       map (powerMode \<circ> snd) (mTimeBasedTrackingSessions s) = [5, 1, 2]"
  by code_simp

text \<open>
  When the fastest of several sessions is updated to a larger interval, the engine is not told: it
  keeps running faster than any session needs.
\<close>

theorem relaxed_update_keeps_engine_fast:
  "case play [Msg (MsgAddClient 1 example_cbs), Msg (MsgStartTracking 1 5 (options_of 200 2)),
              Msg (MsgStartTracking 1 6 (options_of 5000 2)), Msg (MsgUpdateTracking 1 5 (options_of 60000 2))] start_state of
     None \<Rightarrow> False
   | Some s \<Rightarrow> map_option minInterval (running s) = Some 200 \<and>
       map (minInterval \<circ> snd) (mTimeBasedTrackingSessions s) = [60000, 5000]"
  by code_simp

section \<open>Commands\<close>

text \<open>
  The engine hub that repeats its need for measurements at more than 1 Hz loses them: the second
  request finds the event registered and removes it.
\<close>

theorem repeated_nhz_request_disables:
  assumes "mNHzNeeded s = b" "mEvtMask s AND NHZ_MEASUREMENT \<noteq> 0"
  shows "mEvtMask (updateNHzRequirement b True s) AND NHZ_MEASUREMENT = 0"
  using assms by (simp add: updateNHzRequirement_def updateEvtMask_def Let_def and.assoc)

theorem repeated_nhz_request_disables_witness:
  "mEvtMask (updateNHzRequirement False True (updateNHzRequirement False True start_state)) AND NHZ_MEASUREMENT = 0"
  by (rule repeated_nhz_request_disables)
    (simp_all add: updateNHzRequirement_def updateEvtMask_def start_state_def new_gnss_adapter_def NHZ_MEASUREMENT_def)

definition constellations_asked :: "gnss_adapter \<Rightarrow> sv_type_config list" where
  "constellations_asked s = concat (map (\<lambda>op. case op of SetConstellationControl cfg \<Rightarrow> [cfg] | _ \<Rightarrow> []) (ops s))"

lemma constellations_simps [simp]:
  "constellations_asked (engine op k s) =
     constellations_asked s @ (case op of SetConstellationControl cfg \<Rightarrow> [cfg] | _ \<Rightarrow> [])"
  "constellations_asked (engine_set op s) =
     constellations_asked s @ (case op of SetConstellationControl cfg \<Rightarrow> [cfg] | _ \<Rightarrow> [])"
  "constellations_asked (s\<lparr>mSPEAlreadyRunningAtHighestInterval := b\<rparr>) = constellations_asked s"
  "constellations_asked (s\<lparr>odcpi := q\<rparr>) = constellations_asked s"
  "constellations_asked (s\<lparr>mGnssSvTypeConfig := tc, mGnssSvIdConfig := ic, mBlacklistedSvIds := l\<rparr>) = constellations_asked s"
  by (simp_all add: constellations_asked_def engine_def engine_set_def)

lemma constellations_fold:
  "(\<And>x s. constellations_asked (f x s) = constellations_asked s) \<Longrightarrow>
     constellations_asked (fold f xs s) = constellations_asked s"
  by (induction xs arbitrary: s) simp_all

lemma constellations_restart [simp]:
  "constellations_asked (restartSessions b s) = constellations_asked s"
  "constellations_asked (suspendSessions s) = constellations_asked s"
  by (simp_all add: restartSessions_def checkAndRestartSPESession_def checkAndRestartTimeBasedSession_def
      checkAndSetSPEToRunforNHz_def hub_start_def suspendSessions_def Let_def constellations_fold case_prod_beta)

lemma suspend_type_config: "mGnssSvTypeConfig (suspendSessions s) = mGnssSvTypeConfig s"
  by (simp add: suspendSessions_def engine_set_def)

text \<open>
  The command that configures the constellations sends the engine the configuration of the command
  before it: the new one is saved only afterwards.
\<close>

theorem constellations_one_command_late:
  assumes "sv_type_size cfg = sizeof_sv_type_config"
  shows "constellations_asked (gnssUpdateSvConfig i cfg blacklist s) = constellations_asked s @ [mGnssSvTypeConfig s]"
  using assms by (simp add: gnssUpdateSvConfig_def Let_def suspend_type_config)

theorem constellations_one_command_late_witness:
  "constellations_asked (gnssUpdateSvConfig 9 \<lparr>sv_type_size = 24, blacklistedSvTypesMask = 0, enabledSvTypesMask = 3\<rparr>
     (mGnssSvIdConfig start_state) start_state) =
   [\<lparr>sv_type_size = 0, blacklistedSvTypesMask = 0, enabledSvTypesMask = 0\<rparr>]"
  by (subst constellations_one_command_late)
    (simp_all add: sizeof_sv_type_config_def start_state_def new_gnss_adapter_def constellations_asked_def)

text \<open>
  Aiding data can be deleted again one second after the last time, not five: the seconds since boot
  are scaled to microseconds and compared with a limit in milliseconds.
\<close>

theorem aiding_data_limit_is_one_second:
  assumes "mLastDeleteAidingDataTime s = (boot_ms s div 1000 - 1) * 1000000" "posEngineMask data AND 1 \<noteq> 0"
  shows "DeleteAidingData data \<in> set (ops (delete_aiding_proc i data s))"
proof -
  have "(boot_ms s div 1000) * 1000000 - mLastDeleteAidingDataTime s = 1000000"
    unfolding assms(1) by (simp add: algebra_simps)
  then show ?thesis
    using assms(2) by (simp add: delete_aiding_proc_def deleteAidingData_def Let_def engine_def engine_set_def
        DELETE_AIDING_DATA_EXPECTED_TIME_MS_def)
qed

theorem aiding_data_limit_is_one_second_witness:
  "let data = \<lparr>deleteAll = True, posEngineMask = 1, aiding_items = 0\<rparr>
   in DeleteAidingData data \<in> set (ops (delete_aiding_proc 9 data
        (start_state\<lparr>boot_ms := 8000, mLastDeleteAidingDataTime := 7000000\<rparr>)))"
  unfolding Let_def by (rule aiding_data_limit_is_one_second) simp_all

end
