(* ===== verification/SystemStatusProps.thy ===== *)
theory SystemStatusProps
  imports SystemStatus
begin

text \<open>
  What the cache of \<open>SystemStatus\<close> keeps: its reports are the last changes, at most five of each kind;
  the fields of a debug sentence are read back; the table of networks is restored when a network that
  was entered last goes away, and what goes wrong with it otherwise.
\<close>

section \<open>Reports are the last changes\<close>

definition lastn :: "nat \<Rightarrow> 'a list \<Rightarrow> 'a list" where
  "lastn n xs = drop (length xs - n) xs"

lemma lastn_snoc: "lastn n (lastn n xs @ [x]) = lastn n (xs @ [x])"
  by (cases "length xs \<le> n") (auto simp: lastn_def Suc_diff_le)

lemma lastn_Nil_iff: "0 < n \<Longrightarrow> lastn n xs = [] \<longleftrightarrow> xs = []"
  by (cases xs) (auto simp: lastn_def)

lemma last_lastn: "0 < n \<Longrightarrow> xs \<noteq> [] \<Longrightarrow> last (lastn n xs) = last xs"
  by (simp add: lastn_def last_drop)

definition changes :: "'a list \<Rightarrow> 'a list" where
  "changes xs = remdups_adj xs"

lemma changes_snoc:
  "changes (xs @ [x]) = (if xs \<noteq> [] \<and> last xs = x then changes xs else changes xs @ [x])"
  by (cases xs rule: rev_cases) (auto simp: changes_def remdups_adj_append_two)

lemma changes_Nil_iff [simp]: "changes xs = [] \<longleftrightarrow> xs = []"
  by (simp add: changes_def)

lemma last_changes [simp]: "last (changes xs) = last xs"
  by (simp add: changes_def)

text \<open>An item is reported, or a default item is set when the engine is reset.\<close>

datatype 'a report_event = Reported 'a | Reset 'a

fun event_step :: "'a item_ops \<Rightarrow> 'a status_item report_event \<Rightarrow> 'a status_item list \<Rightarrow> 'a status_item list" where
  "event_step ops (Reported s) r = report_of ops s r"
| "event_step ops (Reset s) r = setDefaultIteminReport s r"

definition report_run :: "'a item_ops \<Rightarrow> 'a status_item report_event list \<Rightarrow> 'a status_item list" where
  "report_run ops es = foldl (\<lambda>r e. event_step ops e r) [] es"

lemma report_run_snoc: "report_run ops (es @ [e]) = event_step ops e (report_run ops es)"
  by (simp add: report_run_def)

text \<open>All the changes there ever were, without times: an item that is not to be ignored is collated
  with the last one and entered, as its copy, unless the last one equals it then.\<close>

fun record_change :: "'a item_ops \<Rightarrow> 'a report_event \<Rightarrow> 'a list \<Rightarrow> 'a list" where
  "record_change ops (Reported x) h =
     (if ignore ops x then h
      else (let x' = (if h = [] then x else collate ops x (last h))
            in if h \<noteq> [] \<and> equals ops (last h) x' then h else h @ [copied ops x']))"
| "record_change ops (Reset x) h = h @ [x]"

definition history :: "'a item_ops \<Rightarrow> 'a report_event list \<Rightarrow> 'a list" where
  "history ops es = foldl (\<lambda>h e. record_change ops e h) [] es"

lemma history_snoc: "history ops (es @ [e]) = record_change ops e (history ops es)"
  by (simp add: history_def)

lemma history_changes:
  "history ((base_ops (=))\<lparr>ignore := ign\<rparr>) (map Reported xs) = changes (filter (\<lambda>x. \<not> ign x) xs)"
proof (induction xs rule: rev_induct)
  case (snoc x xs)
  define ys where "ys = filter (\<lambda>x. \<not> ign x) xs"
  have "record_change ((base_ops (=))\<lparr>ignore := ign\<rparr>) (Reported x) (changes ys) =
      (if ign x \<or> ys \<noteq> [] \<and> last ys = x then changes ys else changes ys @ [x])"
    by (simp add: base_ops_def)
  with snoc show ?case by (simp add: history_snoc changes_snoc flip: ys_def)
qed (simp add: history_def changes_def)

lemma push_report_lastn: "length r \<le> maxItem \<Longrightarrow> push_report s r = lastn maxItem (r @ [s])"
  by (cases "length r = maxItem"; cases r) (auto simp: push_report_def lastn_def maxItem_def Let_def drop_Suc)

lemma map_lastn: "map f (lastn n xs) = lastn n (map f xs)"
  by (simp add: lastn_def drop_map)

lemma length_lastn: "length (lastn n xs) \<le> n"
  by (simp add: lastn_def)

lemma map_touch_last:
  "r \<noteq> [] \<Longrightarrow> map contents (butlast r @ [(last r)\<lparr>mUtcReported := t\<rparr>]) = map contents r"
  by (cases r rule: rev_cases) auto

text \<open>
  C16. For every kind of item, whatever its tests for equality and for what is to be ignored, its way to be
  collated and its copies are, the reports kept are the last five of all the changes there ever were: an
  item that after collating equals the last report enters no report, any other one does, a reset of the
  engine enters its default item, and the oldest report is dropped for the sixth. For the kinds whose
  items are compared as they are, these changes are the items reported without those to be ignored and
  without repetitions. (Comparing with a default location is undefined in the code, see
  \<open>eventPosition\<close>: of positions this speaks of runs in which it does not happen.)\<close>

theorem reports_are_last_changes:
  "map contents (report_run ops es) = lastn maxItem (history ops (map (map_report_event contents) es)) \<and>
   history ((base_ops (=))\<lparr>ignore := ign\<rparr>) (map Reported xs) = changes (filter (\<lambda>x. \<not> ign x) xs)"
proof -
  have "map contents (report_run ops es) = lastn maxItem (history ops (map (map_report_event contents) es))"
  proof (induction es rule: rev_induct)
    case Nil
    then show ?case by (simp add: report_run_def history_def lastn_def)
  next
    case (snoc e es)
    define r where "r = report_run ops es"
    define h where "h = history ops (map (map_report_event contents) es)"
    have r: "map contents r = lastn maxItem h" using snoc.IH by (simp add: r_def h_def)
    have len: "length r \<le> maxItem" using arg_cong [OF r, of length] length_lastn [of maxItem h] by simp
    have m: "0 < maxItem" by (simp add: maxItem_def)
    have empty: "r = [] \<longleftrightarrow> h = []"
      using arg_cong [OF r, of "\<lambda>l. l = []"] by (simp add: lastn_Nil_iff [OF m])
    have lst: "contents (last r) = last h" if "r \<noteq> []"
      using arg_cong [OF r, of last] that last_lastn [OF m, of h] empty by (simp add: last_map)
    have push: "map contents (push_report s r) = lastn maxItem (h @ [contents s])" for s
      by (simp add: push_report_lastn [OF len] map_lastn r lastn_snoc)
    have "map contents (event_step ops e r) = lastn maxItem (record_change ops (map_report_event contents e) h)"
    proof (cases e)
      case (Reported s)
      then show ?thesis
        using r empty lst
        by (auto simp: setIteminReport_def Let_def push map_touch_last simp del: butlast_snoc map_append map_butlast)
    next
      case (Reset s)
      then show ?thesis by (simp add: setDefaultIteminReport_def push)
    qed
    then show ?case by (simp add: report_run_snoc history_snoc flip: r_def h_def)
  qed
  then show ?thesis using history_changes by blast
qed

text \<open>The kinds whose test compares all the members.\<close>

theorem plain_comparisons:
  "time_and_clock_equals = (=)" "rf_and_params_equals = (=)" "injected_position_equals = (=)"
  "xtra_equals = (=)" "ephemeris_equals = (=)" "position_failure_equals = (=)" "time_change_equals = (=)"
proof -
  show "time_and_clock_equals = (=)"
    by (intro ext, case_tac x, case_tac xa) (simp add: time_and_clock_equals_def conj_ac)
  show "rf_and_params_equals = (=)"
    by (intro ext, case_tac x, case_tac xa) (simp add: rf_and_params_equals_def conj_ac)
  show "injected_position_equals = (=)"
    by (intro ext, case_tac x, case_tac xa) (simp add: injected_position_equals_def conj_ac)
  show "xtra_equals = (=)" by (intro ext, case_tac x, case_tac xa) (simp add: xtra_equals_def conj_ac)
  show "ephemeris_equals = (=)" by (intro ext, case_tac x, case_tac xa) (simp add: ephemeris_equals_def conj_ac)
  show "position_failure_equals = (=)"
    by (intro ext, case_tac x, case_tac xa) (simp add: position_failure_equals_def conj_ac)
  show "time_change_equals = (=)" by (intro ext, case_tac x, case_tac xa) (simp add: time_change_equals_def conj_ac)
qed

section \<open>No report grows\<close>

datatype status_op =
    NmeaSentence "nat \<Rightarrow> int \<times> int" string int
  | Position "int \<times> int" rat rat rat nat
  | DataItem "ptr \<Rightarrow> ptr" "int \<times> int" data_item
  | EngineDefaults "nat \<Rightarrow> int \<times> int"

fun status_step :: "status_op \<Rightarrow> reports \<Rightarrow> reports option" where
  "status_step (NmeaSentence now data len) c = map_option snd (setNmeaString now data len c)"
| "status_step (Position now lat lon alt rest) c = map_option snd (eventPosition now (status_location lat lon alt rest) c)"
| "status_step (DataItem peer now d) c = Some (fst (snd (eventDataItemNotify peer now d c)))"
| "status_step (EngineDefaults now) c = Some (snd (setDefaultGnssEngineStates now c))"

fun status_run :: "status_op list \<Rightarrow> reports \<Rightarrow> reports option" where
  "status_run [] c = Some c"
| "status_run (p # ps) c = do { c' \<leftarrow> status_step p c; status_run ps c' }"

definition report_lengths :: "reports \<Rightarrow> nat list" where
  "report_lengths c =
     [length (mLocation c), length (mTimeAndClock c), length (mXoState_reports c), length (mRfAndParams c),
      length (mErrRecovery c), length (mInjectedPosition c), length (mBestPosition c), length (mXtra c),
      length (mEphemeris c), length (mSvHealth c), length (mPdr c), length (mNavData c), length (mPositionFailure c),
      length (mAirplaneMode c), length (mENH c), length (mGPSState c), length (mNLPStatus c),
      length (mWifiHardwareState c), length (mNetworkInfo c), length (mRilServiceInfo c), length (mRilCellInfo c),
      length (mServiceStatus c), length (mModel c), length (mManufacturer c), length (mAssistedGps c),
      length (mScreenState c), length (mPowerConnectState c), length (mTimeZoneChange c), length (mTimeChange c),
      length (mWifiSupplicantStatus c), length (mShutdownState c), length (mTac c), length (mMccMnc c),
      length (mBtDeviceScanDetail c), length (mBtLeDeviceScanDetail c)]"

definition short_reports :: "reports \<Rightarrow> bool" where
  "short_reports c \<longleftrightarrow> (\<forall>n\<in>set (report_lengths c). n \<le> maxItem)"

lemma push_short [simp]: "length r \<le> maxItem \<Longrightarrow> length (push_report s r) \<le> maxItem"
  by (simp add: push_report_def Let_def)

lemma report_short [simp]: "length r \<le> maxItem \<Longrightarrow> length (report_of ops s r) \<le> maxItem"
  by (cases r rule: rev_cases) (auto simp: setIteminReport_def Let_def)

lemma report_short' [simp]: "setIteminReport ops s r = (b, r', x) \<Longrightarrow> length r \<le> maxItem \<Longrightarrow> length r' \<le> maxItem"
  using report_short [of r ops s] by simp

lemma short_m1: "short_reports c \<Longrightarrow> short_reports (set_m1 now s c)"
  by (simp add: set_m1_def short_reports_def report_lengths_def)

lemma short_updates:
  assumes "short_reports c"
  shows "length (mLocation c) \<le> maxItem"
    "length r1 \<le> maxItem \<Longrightarrow> short_reports (c\<lparr>mLocation := r1\<rparr>)"
    "short_reports (c\<lparr>mInjectedPosition := report_of ops2 s2 (mInjectedPosition c)\<rparr>)"
    "short_reports (c\<lparr>mBestPosition := report_of ops3 s3 (mBestPosition c)\<rparr>)"
    "short_reports (c\<lparr>mXtra := report_of ops4 s4 (mXtra c)\<rparr>)"
    "short_reports (c\<lparr>mEphemeris := report_of ops5 s5 (mEphemeris c)\<rparr>)"
    "short_reports (c\<lparr>mSvHealth := report_of ops6 s6 (mSvHealth c)\<rparr>)"
    "short_reports (c\<lparr>mPdr := report_of ops7 s7 (mPdr c)\<rparr>)"
    "short_reports (c\<lparr>mNavData := report_of ops8 s8 (mNavData c)\<rparr>)"
    "short_reports (c\<lparr>mPositionFailure := report_of ops9 s9 (mPositionFailure c)\<rparr>)"
    "short_reports (c\<lparr>mAirplaneMode := report_of o0 t0 (mAirplaneMode c)\<rparr>)"
    "short_reports (c\<lparr>mENH := report_of o1 t1 (mENH c)\<rparr>)"
    "short_reports (c\<lparr>mGPSState := report_of o2 t2 (mGPSState c)\<rparr>)"
    "short_reports (c\<lparr>mNLPStatus := report_of o3 t3 (mNLPStatus c)\<rparr>)"
    "short_reports (c\<lparr>mWifiHardwareState := report_of o4 t4 (mWifiHardwareState c)\<rparr>)"
    "short_reports (c\<lparr>mNetworkInfo := report_of o5 t5 (mNetworkInfo c)\<rparr>)"
    "short_reports (c\<lparr>mRilServiceInfo := report_of o6 t6 (mRilServiceInfo c)\<rparr>)"
    "short_reports (c\<lparr>mRilCellInfo := report_of o7 t7 (mRilCellInfo c)\<rparr>)"
    "short_reports (c\<lparr>mServiceStatus := report_of o8 t8 (mServiceStatus c)\<rparr>)"
    "short_reports (c\<lparr>mModel := report_of o9 t9 (mModel c)\<rparr>)"
    "short_reports (c\<lparr>mManufacturer := report_of o10 t10 (mManufacturer c)\<rparr>)"
    "short_reports (c\<lparr>mAssistedGps := report_of o11 t11 (mAssistedGps c)\<rparr>)"
    "short_reports (c\<lparr>mScreenState := report_of o12 t12 (mScreenState c)\<rparr>)"
    "short_reports (c\<lparr>mPowerConnectState := report_of o13 t13 (mPowerConnectState c)\<rparr>)"
    "short_reports (c\<lparr>mTimeZoneChange := report_of o14 t14 (mTimeZoneChange c)\<rparr>)"
    "short_reports (c\<lparr>mTimeChange := report_of o15 t15 (mTimeChange c)\<rparr>)"
    "short_reports (c\<lparr>mWifiSupplicantStatus := report_of o16 t16 (mWifiSupplicantStatus c)\<rparr>)"
    "short_reports (c\<lparr>mShutdownState := report_of o17 t17 (mShutdownState c)\<rparr>)"
    "short_reports (c\<lparr>mTac := report_of o18 t18 (mTac c)\<rparr>)"
    "short_reports (c\<lparr>mMccMnc := report_of o19 t19 (mMccMnc c)\<rparr>)"
    "short_reports (c\<lparr>mBtDeviceScanDetail := report_of o20 t20 (mBtDeviceScanDetail c)\<rparr>)"
    "short_reports (c\<lparr>mBtLeDeviceScanDetail := report_of o21 t21 (mBtLeDeviceScanDetail c)\<rparr>)"
  using assms by (simp_all add: short_reports_def report_lengths_def)

lemma short_set_sentence:
  "short_reports c \<Longrightarrow> set_sentence now kind buf len c = Some c' \<Longrightarrow> short_reports c'"
  unfolding set_sentence_def by (auto split: if_split_asm intro: short_m1 short_updates)

lemma short_sentence: "short_reports c \<Longrightarrow> setNmeaString now data len c = Some (b, c') \<Longrightarrow> short_reports c'"
  by (auto simp: setNmeaString_def split: if_split_asm intro: short_set_sentence)

lemma short_position: "short_reports c \<Longrightarrow> eventPosition now l c = Some (b, c') \<Longrightarrow> short_reports c'"
  by (auto simp: eventPosition_def intro!: short_updates(2) dest: short_updates(1) split: if_splits prod.splits)

lemma short_data_item: "short_reports c \<Longrightarrow> short_reports (fst (snd (eventDataItemNotify peer now d c)))"
  by (cases d) (simp_all add: eventDataItemNotify_def split_def Let_def short_updates)

lemma short_defaults: "short_reports c \<Longrightarrow> short_reports (snd (setDefaultGnssEngineStates now c))"
  by (simp add: setDefaultGnssEngineStates_def setDefaultIteminReport_def short_reports_def report_lengths_def)

lemma short_step: "short_reports c \<Longrightarrow> status_step p c = Some c' \<Longrightarrow> short_reports c'"
  by (cases p) (auto simp: short_data_item short_defaults intro: short_sentence short_position)

text \<open>
  Whatever sentences, positions and data items arrive, and however often the engine is reset, no
  kind of item ever has more than five reports.\<close>

theorem reports_bounded:
  "case status_run ps new_reports of None \<Rightarrow> True | Some c \<Rightarrow> (\<forall>n\<in>set (report_lengths c). n \<le> 5)"
proof -
  have "short_reports c'" if "short_reports c" "status_run ps c = Some c'" for c c'
    using that by (induction ps arbitrary: c) (auto simp: bind_eq_Some_conv intro: short_step)
  moreover have "short_reports new_reports"
    by (simp add: short_reports_def report_lengths_def new_reports_def)
  ultimately show ?thesis unfolding short_reports_def maxItem_def by (auto split: option.split)
qed

section \<open>Sentences are read field by field\<close>

definition sentence :: "string list \<Rightarrow> string \<Rightarrow> string" where
  "sentence ws checksum = butlast (joined ws) @ ''*'' @ checksum"

lemma joined_append: "joined (ws @ vs) = joined ws @ joined vs"
  by (induction ws) auto

lemma joined_last: "ws \<noteq> [] \<Longrightarrow> joined ws = butlast (joined ws) @ '',''"
  by (cases ws rule: rev_cases) (simp_all add: joined_append butlast_append)

lemma not_in_joined: "\<forall>w\<in>set ws. c \<notin> set w \<Longrightarrow> c \<noteq> CHR '','' \<Longrightarrow> c \<notin> set (joined ws)"
  by (induction ws) auto

text \<open>
  C39. The fields of a debug sentence are exactly the texts between its commas, up to the star. Nothing
  is asked of the checksum behind the star: it is not verified.\<close>

theorem debug_fields_exact:
  assumes "ws \<noteq> []" and w: "\<forall>w\<in>set ws. CHR '','' \<notin> set w \<and> CHR ''*'' \<notin> set w"
    and c: "CHR '','' \<notin> set checksum" and d: "loc_nmea_is_debug (sentence ws checksum) len"
  shows "nmea_fields (sentence ws checksum) len = ws"
proof -
  have star: "CHR ''*'' \<notin> set (butlast (joined ws))"
    using not_in_joined [of ws "CHR ''*''"] w by (auto dest: in_set_butlastD)
  then have "\<forall>c\<in>set (butlast (joined ws)). c \<noteq> CHR ''*''" by metis
  then have "takeWhile (\<lambda>c. c \<noteq> CHR ''*'') (sentence ws checksum) = butlast (joined ws)"
    by (simp add: sentence_def takeWhile_append2)
  then have "nmea_fields (sentence ws checksum) len = tokenize ((butlast (joined ws) @ '','') @ checksum)"
    using d by (simp add: nmea_fields_def Let_def) (simp add: sentence_def list_update_append)
  then have "nmea_fields (sentence ws checksum) len = tokenize (joined ws @ checksum)"
    unfolding joined_last [OF \<open>ws \<noteq> []\<close>, symmetric] .
  then show ?thesis using tokenize_joined w c by simp
qed

theorem debug_fields_exact_witness:
  "nmea_fields (sentence [''$PQWS1'', ''1'', ''2'', ''3''] ''00'') 15 = [''$PQWS1'', ''1'', ''2'', ''3'']"
  by (rule debug_fields_exact) (simp_all add: loc_nmea_is_debug_def DEBUG_NMEA_MINSIZE_def DEBUG_NMEA_MAXSIZE_def sentence_def)


section \<open>Networks\<close>

lemma type_bit_nonzero: "0 \<le> t \<Longrightarrow> t < TYPE_UNKNOWN \<Longrightarrow> typeToAllTypes t \<noteq> 0"
  by (simp add: typeToAllTypes_def TYPE_UNKNOWN_def exp_eq_zero_iff)

lemma mask_off:
  fixes a b :: "64 word"
  assumes "a AND b = 0"
  shows "(b OR a) AND NOT b = a"
proof (rule bit_word_eqI)
  fix n assume n: "n < LENGTH(64)"
  have "\<not> (bit a n \<and> bit b n)" using arg_cong [OF assms, of "\<lambda>w. bit w n"] by (simp add: bit_and_iff)
  then show "bit ((b OR a) AND NOT b) n \<longleftrightarrow> bit a n" using n by (auto simp: bit_simps)
qed

text \<open>
  C17. A network that is connected and then disconnected leaves the table of handles and the mask of
  types as they were, if the table is without gaps and not full and no other network of its type is
  connected; in between, its handle and its type are entered.\<close>

theorem network_comes_and_goes:
  assumes table: "mAllNetworkHandles cur = hs @ replicate (Suc n) no_handle"
    and hs: "\<forall>x\<in>set hs. fst x \<noteq> NETWORK_HANDLE_UNKNOWN" and len: "length hs + Suc n = MAX_NETWORK_HANDLES"
    and h: "h \<noteq> NETWORK_HANDLE_UNKNOWN" "h \<notin> known hs"
    and t: "0 \<le> t" "t < TYPE_UNKNOWN" "t \<notin> snd ` set hs" "mAllTypes cur AND typeToAllTypes t = 0"
    and up: "up = network_collate (new_network_info t a b True roaming h) cur"
    and down: "down = network_collate (new_network_info t a' b' False roaming' h) up"
  shows "mAllNetworkHandles up = hs @ (h, t) # replicate n no_handle \<and> mAllTypes up = typeToAllTypes t OR mAllTypes cur \<and>
    mAllNetworkHandles down = mAllNetworkHandles cur \<and> mAllTypes down = mAllTypes cur"
proof -
  have "h \<notin> fst ` set hs" using h hs by (auto simp: known_def)
  then have up_table: "mAllNetworkHandles up = hs @ (h, t) # replicate n no_handle"
    using enter_packed [OF hs, of "(h, t)" "Suc n"] h table
    by (simp add: up network_collate_def new_network_info_def Let_def)
  have up_types: "mAllTypes up = typeToAllTypes t OR mAllTypes cur"
    by (simp add: up network_collate_def new_network_info_def Let_def)
  have "remove_handle (h, t) (mAllNetworkHandles up) = (hs @ replicate (Suc n) no_handle, 0)"
    unfolding up_table using h t len by (intro remove_last [OF hs]) auto
  then have "mAllNetworkHandles down = mAllNetworkHandles cur \<and> mAllTypes down = mAllTypes up AND NOT (typeToAllTypes t)"
    using type_bit_nonzero [OF t(1,2)] table
    by (simp add: down network_collate_def new_network_info_def Let_def)
  then show ?thesis using up_table up_types mask_off [OF t(4)] by simp
qed

theorem network_comes_and_goes_witness:
  "\<exists>up down. up = network_collate (new_network_info 0 [] [] True False 6) (new_network_info 1 [] [] True False 5) \<and>
     down = network_collate (new_network_info 0 [] [] False False 6) up \<and>
     mAllNetworkHandles up = [(5, 1), (6, 0)] @ replicate 8 no_handle \<and> mAllTypes down = 2"
proof -
  define cur where "cur = new_network_info 1 [] [] True False 5"
  have "mAllNetworkHandles cur = [(5, 1)] @ replicate (Suc 8) no_handle"
    by (simp add: cur_def new_network_info_def MAX_NETWORK_HANDLES_def)
  from network_comes_and_goes [OF this _ _ _ _ _ _ _ _ refl refl, of 6 0 "[]" "[]" False "[]" "[]" False]
  show ?thesis
    by (simp add: cur_def MAX_NETWORK_HANDLES_def NETWORK_HANDLE_UNKNOWN_def TYPE_UNKNOWN_def new_network_info_def
        typeToAllTypes_def known_def)
qed

abbreviation "network type conn h \<equiv>
  DataItem id (0, 0) (NetworkInfo (new_network_info type [] [] conn False h))"

abbreviation "network_item type conn h \<equiv> new_item (0, 0) (new_network_info type [] [] conn False h)"

lemma network_run:
  "\<exists>c. status_run (map (\<lambda>(t, b, h). network t b h) es) c0 = Some c \<and>
     mNetworkInfo c = foldl (\<lambda>r (t, b, h). report_of network_ops (network_item t b h) r) (mNetworkInfo c0) es"
proof (induction es arbitrary: c0)
  case (Cons e es)
  obtain t b h where e: "e = (t, b, h)" by (cases e) auto
  show ?case
    using Cons [of "c0\<lparr>mNetworkInfo := report_of network_ops (network_item t b h) (mNetworkInfo c0)\<rparr>"]
    by (simp add: e eventDataItemNotify_def split_def Let_def)
qed simp

lemma all_handles:
  "(\<forall>i < 10. P i) \<longleftrightarrow> P (0::nat) \<and> P 1 \<and> P 2 \<and> P 3 \<and> P 4 \<and> P 5 \<and> P 6 \<and> P 7 \<and> P 8 \<and> P 9"
proof -
  have "(\<forall>i < 10. P i) \<longleftrightarrow> list_all P [0..<10]"
    by (auto simp: list_all_iff)
  also have "[0..<10] = [0, 1, 2, 3, 4, 5, 6, 7, 8, 9::nat]" by (simp add: upt_rec)
  finally show ?thesis by simp
qed

lemma free_handles: "replicate 9 x = [x, x, x, x, x, x, x, x, x]"
  by (simp add: eval_nat_numeral)

lemma no_networks: "mNetworkInfo new_reports = []"
  by (simp add: new_reports_def)

lemmas network_eval = MAX_NETWORK_HANDLES_def no_networks Let_def setIteminReport_def network_ops_def base_ops_def new_item_def push_report_def
  maxItem_def network_collate_def new_network_info_def network_equals_def typeToAllTypes_def TYPE_UNKNOWN_def
  remove_handle_def no_handle_def NETWORK_HANDLE_UNKNOWN_def

definition last_network :: "reports \<Rightarrow> network_info" where
  "last_network c = contents (last (mNetworkInfo c))"

text \<open>
  Of two networks the first is disconnected, then the other: the first leaves a gap at the front of
  the table (the place behind the last handle is moved there), the search for the second stops at the
  gap, and the last report keeps it as connected for good.\<close>

theorem disconnect_leaves_gap:
  "case status_run [network 1 True 5, network 0 True 6, network 1 False 5, network 0 False 6] new_reports of
     None \<Rightarrow> False
   | Some c \<Rightarrow> take 2 (mAllNetworkHandles (last_network c)) = [no_handle, (6, 0)] \<and> mAllTypes (last_network c) = 1"
  using network_run [of "[(1, True, 5), (0, True, 6), (1, False, 5), (0, False, 6)]" new_reports]
  by (auto simp: last_network_def simp del: status_run.simps) (simp_all add: network_eval all_handles free_handles)

text \<open>When one of two networks of a type is disconnected, the other types vanish from the mask.\<close>

theorem disconnect_forgets_other_types:
  "case status_run [network 1 True 5, network 0 True 6, network 0 True 7, network 0 False 7] new_reports of
     None \<Rightarrow> False
   | Some c \<Rightarrow> take 2 (mAllNetworkHandles (last_network c)) = [(5, 1), (6, 0)] \<and> mAllTypes (last_network c) = 1"
  using network_run [of "[(1, True, 5), (0, True, 6), (0, True, 7), (0, False, 7)]" new_reports]
  by (auto simp: last_network_def simp del: status_run.simps) (simp_all add: network_eval all_handles free_handles)

text \<open>A first event that reports a network as disconnected enters it as connected.\<close>

theorem first_disconnect_is_entered:
  "case status_run [network 1 False 5] new_reports of None \<Rightarrow> False
   | Some c \<Rightarrow> hd (mAllNetworkHandles (last_network c)) = (5, 1) \<and> mAllTypes (last_network c) = 2"
  using network_run [of "[(1, False, 5)]" new_reports]
  by (auto simp: last_network_def simp del: status_run.simps) (simp_all add: network_eval)

section \<open>Reports that go wrong\<close>

text \<open>A sentence with too few fields makes the adapter keep uninitialised memory; for \<open>$PQWM1\<close> zeros
  are kept.\<close>

theorem short_sentence_undefined:
  "setNmeaString now ''$PQWP2,1,2*00'' 13 c = None"
  by (simp add: setNmeaString_def set_sentence_def PQWP2parser_def nmea_fields_def loc_nmea_is_debug_def
      DEBUG_NMEA_MINSIZE_def DEBUG_NMEA_MAXSIZE_def strlcpy_def tokenize.simps Let_def)

theorem short_time_sentence_reports_zero:
  "setNmeaString now ''$PQWM1,2000*00'' 14 c = Some (True, set_m1 now zero_m1 c)"
  by (simp add: setNmeaString_def set_sentence_def PQWM1parser_def nmea_fields_def loc_nmea_is_debug_def
      DEBUG_NMEA_MINSIZE_def DEBUG_NMEA_MAXSIZE_def strlcpy_def tokenize.simps Let_def)

lemma push_report_not_empty [simp]: "push_report s r \<noteq> []"
  by (cases r) (simp_all add: push_report_def maxItem_def Let_def)

lemma last_push_report [simp]: "last (push_report s r) = s"
  by (cases r) (simp_all add: push_report_def maxItem_def Let_def)

lemma set_push_report: "set (push_report s r) \<subseteq> insert s (set r)"
  by (cases r) (auto simp: push_report_def Let_def)

text \<open>After a reset of the engine the next position is compared with uninitialised coordinates.\<close>

theorem position_after_reset_undefined:
  "eventPosition now l (snd (setDefaultGnssEngineStates clk c)) = None"
proof -
  have "mLocation (snd (setDefaultGnssEngineStates clk c)) = push_report (new_item (clk 0) default_location) (mLocation c)"
    by (simp add: setDefaultGnssEngineStates_def setDefaultIteminReport_def)
  then show ?thesis by (simp add: eventPosition_def new_item_def default_location_def)
qed

text \<open>The data of the radio items is lost when they are kept, so every event with data counts as new.\<close>

theorem ril_items_always_new:
  assumes "\<forall>r\<in>set (mRilCellInfo c). contents r = None" "peer p \<noteq> None"
  shows "case eventDataItemNotify peer now (RilCellInfo p) c of
     (ret, c', _) \<Rightarrow> ret \<and> (\<forall>r\<in>set (mRilCellInfo c'). contents r = None)"
proof -
  have "contents (last (mRilCellInfo c)) = None" if "mRilCellInfo c \<noteq> []" using assms(1) that by simp
  then have ret: "fst (setIteminReport ril_ops (new_item now (peer p)) (mRilCellInfo c))"
    and r: "report_of ril_ops (new_item now (peer p)) (mRilCellInfo c) = push_report (new_item now None) (mRilCellInfo c)"
    using assms(2) by (auto simp: setIteminReport_def ril_ops_def base_ops_def new_item_def)
  have "contents (new_item now (None :: ptr)) = None" by (simp add: new_item_def)
  with r have "\<forall>x\<in>set (report_of ril_ops (new_item now (peer p)) (mRilCellInfo c)). contents x = None"
    using assms(1) set_push_report by (metis insert_iff subsetD)
  then show ?thesis using ret by (simp add: eventDataItemNotify_def split_def Let_def)
qed

theorem ril_items_always_new_witness:
  "case eventDataItemNotify id (0, 0) (RilCellInfo (Some 1)) new_reports of
     (ret, c', _) \<Rightarrow> ret \<and> (\<forall>r\<in>set (mRilCellInfo c'). contents r = None)"
  by (rule ril_items_always_new) (simp_all add: new_reports_def)

text \<open>A change of the access point that keeps the name is no change.\<close>

theorem access_point_change_unnoticed:
  "fst (setIteminReport (base_ops wifi_supplicant_equals) (new_item now (w\<lparr>mApMacAddress := mac\<rparr>)) [new_item t w]) = False"
  by (simp add: setIteminReport_def base_ops_def wifi_supplicant_equals_def new_item_def)

text \<open>Scans of the two kinds of Bluetooth enter each other's report.\<close>

theorem bluetooth_reports_swapped:
  "mBtLeDeviceScanDetail (fst (snd (eventDataItemNotify peer now (BtLeDeviceScanDetails x) c))) = mBtLeDeviceScanDetail c"
  by (simp add: eventDataItemNotify_def split_def Let_def)

text \<open>\<open>strtol\<close> saturates: the last bit of a mask of 64 satellites is lost and, with \<open>atoi\<close>, the
  fraction of the injected accuracy.\<close>

theorem wide_mask_saturates:
  "hex_field [''FFFFFFFFFFFFFFFF''] 0 = (0x7FFFFFFFFFFFFFFF :: 64 word)"
proof -
  have "strtol16 (c_str ''FFFFFFFFFFFFFFFF'') = 0x7FFFFFFFFFFFFFFF"
    by (simp add: strtol16_def c_str_def hex_number_def hex_value_def is_digit_def is_space_def clamp64_def)
  then show ?thesis by (simp add: hex_field_def)
qed

theorem injected_accuracy_is_cut:
  "float_of_int_field [''3.9''] 0 = 3"
  by code_simp

end
