(* ===== verification/BiDict.thy ===== *)
theory BiDict
  imports OrderedMap "HOL-Library.Word"
begin

text \<open>
  \<open>LocationAPIClientBase::BiDict\<close> (\<open>src/gps/location/LocationAPIClientBase.h\<close>): the ids of the client
  and the sessions of the location API, in both directions, with a value for each session. Reading a
  \<open>std::map\<close> with \<open>[]\<close> enters 0 for a key it does not have. Each function holds the mutex of the dictionary.
\<close>

record 'a bidict =
  mForwardMap :: "(32 word \<times> 32 word) list"
  mBackwardMap :: "(32 word \<times> 32 word) list"
  mExtMap :: "(32 word \<times> 'a) list"

definition bi_empty :: "'a bidict" where
  "bi_empty = \<lparr>mForwardMap = [], mBackwardMap = [], mExtMap = []\<rparr>"

definition at0 :: "(32 word \<times> 32 word) list \<Rightarrow> 32 word \<Rightarrow> 32 word" where
  "at0 m k = (case map_of m k of None \<Rightarrow> 0 | Some v \<Rightarrow> v)"

definition hasId :: "32 word \<Rightarrow> 'a bidict \<Rightarrow> bool" where
  "hasId i b \<longleftrightarrow> map_of (mForwardMap b) i \<noteq> None"

definition hasSession :: "32 word \<Rightarrow> 'a bidict \<Rightarrow> bool" where
  "hasSession session b \<longleftrightarrow> map_of (mBackwardMap b) session \<noteq> None"

definition bi_set :: "32 word \<Rightarrow> 32 word \<Rightarrow> 'a \<Rightarrow> 'a bidict \<Rightarrow> 'a bidict" where
  "bi_set i session ext b =
     b\<lparr>mForwardMap := put i session (mForwardMap b), mBackwardMap := put session i (mBackwardMap b),
       mExtMap := put session ext (mExtMap b)\<rparr>"

definition rmById :: "32 word \<Rightarrow> 'a bidict \<Rightarrow> 'a bidict" where
  "rmById i b =
     b\<lparr>mForwardMap := AList.delete i (mForwardMap b),
       mBackwardMap := AList.delete (at0 (mForwardMap b) i) (mBackwardMap b),
       mExtMap := AList.delete (at0 (mForwardMap b) i) (mExtMap b)\<rparr>"

definition rmBySession :: "32 word \<Rightarrow> 'a bidict \<Rightarrow> 'a bidict" where
  "rmBySession session b =
     b\<lparr>mForwardMap := AList.delete (at0 (mBackwardMap b) session) (mForwardMap b),
       mBackwardMap := AList.delete session (mBackwardMap b),
       mExtMap := AList.delete session (mExtMap b)\<rparr>"

definition getId :: "32 word \<Rightarrow> 'a bidict \<Rightarrow> 32 word" where
  "getId session b = at0 (mBackwardMap b) session"

definition getSession :: "32 word \<Rightarrow> 'a bidict \<Rightarrow> 32 word" where
  "getSession i b = at0 (mForwardMap b) i"

text \<open>\<open>zero\<close> is the value \<open>memset\<close> leaves.\<close>

definition getExtById :: "'a \<Rightarrow> 32 word \<Rightarrow> 'a bidict \<Rightarrow> 'a \<times> 'a bidict" where
  "getExtById zero i b =
     (let session = at0 (mForwardMap b) i;
          b' = (if map_of (mForwardMap b) i = None then b\<lparr>mForwardMap := put i 0 (mForwardMap b)\<rparr> else b)
      in (if 0 < session then (case map_of (mExtMap b) session of None \<Rightarrow> zero | Some e \<Rightarrow> e) else zero, b'))"

definition getExtBySession :: "'a \<Rightarrow> 32 word \<Rightarrow> 'a bidict \<Rightarrow> 'a" where
  "getExtBySession zero session b = (case map_of (mExtMap b) session of None \<Rightarrow> zero | Some e \<Rightarrow> e)"

definition getAllSessions :: "'a bidict \<Rightarrow> 32 word list" where
  "getAllSessions b = map fst (mBackwardMap b)"

section \<open>The two directions agree\<close>

definition bi_ok :: "'a bidict \<Rightarrow> bool" where
  "bi_ok b \<longleftrightarrow>
     ordered (mForwardMap b) \<and> ordered (mBackwardMap b) \<and> ordered (mExtMap b) \<and>
     (\<forall>i s. map_of (mForwardMap b) i = Some s \<longleftrightarrow> map_of (mBackwardMap b) s = Some i) \<and>
     (\<forall>s. map_of (mExtMap b) s = None \<longleftrightarrow> map_of (mBackwardMap b) s = None)"

lemma bi_ok_empty [simp]: "bi_ok bi_empty"
  by (simp add: bi_ok_def bi_empty_def)

lemma bi_ok_iff: "bi_ok b \<Longrightarrow> map_of (mForwardMap b) i = Some s \<longleftrightarrow> map_of (mBackwardMap b) s = Some i"
  unfolding bi_ok_def by blast

lemma bi_ok_set:
  "bi_ok b \<Longrightarrow> \<not> hasId i b \<Longrightarrow> \<not> hasSession s b \<Longrightarrow> bi_ok (bi_set i s e b)"
  by (auto simp: bi_ok_def bi_set_def hasId_def hasSession_def)

lemma bi_ok_set_same:
  assumes b: "bi_ok b" and i: "map_of (mForwardMap b) i = Some s"
  shows "bi_ok (bi_set i s e b)"
proof -
  have s: "map_of (mBackwardMap b) s = Some i" using bi_ok_iff [OF b] i by simp
  then have "(map_of (mForwardMap b))(i \<mapsto> s) = map_of (mForwardMap b)"
    "(map_of (mBackwardMap b))(s \<mapsto> i) = map_of (mBackwardMap b)" using i by (auto simp: fun_eq_iff)
  then show ?thesis using b s by (auto simp: bi_ok_def bi_set_def)
qed

lemma bi_ok_cut:
  assumes b: "bi_ok b" and s: "map_of (mBackwardMap b) s = Some i"
  shows "bi_ok (b\<lparr>mForwardMap := AList.delete i (mForwardMap b), mBackwardMap := AList.delete s (mBackwardMap b),
    mExtMap := AList.delete s (mExtMap b)\<rparr>)"
proof -
  have "((map_of (mForwardMap b))(i := None)) j = Some t \<longleftrightarrow> ((map_of (mBackwardMap b))(s := None)) t = Some j" for j t
    using bi_ok_iff [OF b, of j t] bi_ok_iff [OF b, of i t] bi_ok_iff [OF b, of j s] s by (cases "j = i"; cases "t = s") auto
  then show ?thesis using b by (simp add: bi_ok_def)
qed

lemma bi_ok_rmBySession:
  assumes "bi_ok b" "hasSession s b"
  shows "bi_ok (rmBySession s b)"
proof -
  obtain i where "map_of (mBackwardMap b) s = Some i" using assms by (auto simp: hasSession_def)
  then show ?thesis using bi_ok_cut [OF assms(1)] by (simp add: rmBySession_def at0_def)
qed

lemma bi_ok_rmById:
  assumes "bi_ok b" "hasId i b"
  shows "bi_ok (rmById i b)"
proof -
  obtain s where s: "map_of (mForwardMap b) i = Some s" using assms by (auto simp: hasId_def)
  then have "map_of (mBackwardMap b) s = Some i" using bi_ok_iff [OF assms(1)] by simp
  then show ?thesis using bi_ok_cut [OF assms(1)] s by (simp add: rmById_def at0_def)
qed

lemma hasId_set [simp]: "bi_ok b \<Longrightarrow> hasId j (bi_set i s e b) \<longleftrightarrow> j = i \<or> hasId j b"
  by (simp add: hasId_def bi_set_def bi_ok_def)

lemma hasSession_set [simp]: "bi_ok b \<Longrightarrow> hasSession t (bi_set i s e b) \<longleftrightarrow> t = s \<or> hasSession t b"
  by (simp add: hasSession_def bi_set_def bi_ok_def)

lemma hasSession_rmBySession [simp]: "hasSession t (rmBySession s b) \<longleftrightarrow> t \<noteq> s \<and> hasSession t b"
  by (simp add: hasSession_def rmBySession_def)

lemma hasId_rmById [simp]: "hasId j (rmById i b) \<longleftrightarrow> j \<noteq> i \<and> hasId j b"
  by (simp add: hasId_def rmById_def)

lemma hasSession_rmById: "hasSession t (rmById i b) \<longleftrightarrow> t \<noteq> at0 (mForwardMap b) i \<and> hasSession t b"
  by (simp add: hasSession_def rmById_def)

lemma getExtById_known [simp]: "hasId i b \<Longrightarrow> snd (getExtById z i b) = b"
  by (auto simp: getExtById_def hasId_def Let_def)

lemma getId_getSession: "bi_ok b \<Longrightarrow> hasId i b \<Longrightarrow> getId (getSession i b) b = i"
  using bi_ok_iff [of b i] by (auto simp: getId_def getSession_def at0_def hasId_def split: option.split)

end
