(* ===== verification/LocationClient.thy ===== *)
theory LocationClient
  imports AdapterBase BiDict
begin

text \<open>
  \<open>LocationAPIClientBase\<close> in \<open>src/gps/location/LocationAPIClientBase.cpp\<close> and \<open>.h\<close>: a client of the location
  API. Each call that will be answered leaves a request object in one of four queues; an answer of
  the API takes the oldest request of the queue it belongs to and is handed to the client by it. The ids of
  the client and the sessions of the API are kept in two dictionaries. What the API returns is an
  argument, the calls made to it are collected in \<open>api_calls\<close>, what the client is told in \<open>client_calls\<close>. The
  mutex makes each call of the client one step; an answer takes its request under the mutex and is
  handled after it is released, which are two definitions. Calling an empty \<open>std::function\<close> throws: None.
\<close>

section \<open>Requests and queues\<close>

datatype api_request =
    StartTrackingRequest
  | StopTrackingRequest
  | UpdateTrackingOptionsRequest
  | StartBatchingRequest
  | StopBatchingRequest
  | UpdateBatchingOptionsRequest
  | GetBatchedLocationsRequest
  | AddGeofencesRequest
  | RemoveGeofencesRequest "32 word bidict"
  | ModifyGeofencesRequest
  | PauseGeofencesRequest
  | ResumeGeofencesRequest
  | GnssNiResponseRequest

record 'r request_queue =
  mSession :: "32 word"
  mSessionArrayPtr :: ptr
  mQueue :: "'r list"

definition new_queue :: "'r request_queue" where
  "new_queue = \<lparr>mSession = 0, mSessionArrayPtr = None, mQueue = []\<rparr>"

definition setSession :: "32 word \<Rightarrow> 'r request_queue \<Rightarrow> 'r request_queue" where
  "setSession session q = q\<lparr>mSession := session\<rparr>"

definition queue_reset :: "32 word \<Rightarrow> 'r request_queue \<Rightarrow> 'r request_queue" where
  "queue_reset session q = q\<lparr>mQueue := [], mSession := session\<rparr>"

definition queue_reset_array :: "ptr \<Rightarrow> 'r request_queue \<Rightarrow> 'r request_queue" where
  "queue_reset_array p q = (queue_reset 0 q)\<lparr>mSessionArrayPtr := p\<rparr>"

definition queue_push :: "'r \<Rightarrow> 'r request_queue \<Rightarrow> 'r request_queue" where
  "queue_push r q = q\<lparr>mQueue := mQueue q @ [r]\<rparr>"

definition queue_pop :: "'r request_queue \<Rightarrow> 'r option \<times> 'r request_queue" where
  "queue_pop q = (case mQueue q of [] \<Rightarrow> (None, q) | r # rs \<Rightarrow> (Some r, q\<lparr>mQueue := rs\<rparr>))"

section \<open>State\<close>

record api_options =
  api_minDistance :: "32 word"
  api_minInterval :: "32 word"
  api_mode :: nat
  api_rest :: nat

datatype batching_mode = BATCHING_MODE_ROUTINE | BATCHING_MODE_TRIP | BATCHING_MODE_NO_AUTO_REPORT

record batch_options =
  batch_mode :: batching_mode
  batch_minDistance :: "32 word"
  batch_minInterval :: "32 word"
  batch_supl :: nat

record session_entity =
  ent_id :: "32 word"
  trackingSession :: "32 word"
  batchingSession :: "32 word"
  sessionMode :: "32 word"

definition zero_entity :: session_entity where
  "zero_entity = \<lparr>ent_id = 0, trackingSession = 0, batchingSession = 0, sessionMode = 0\<rparr>"

definition SESSION_MODE_ON_FULL :: "32 word" where "SESSION_MODE_ON_FULL = 1"
definition SESSION_MODE_ON_FIX :: "32 word" where "SESSION_MODE_ON_FIX = 2"
definition SESSION_MODE_ON_TRIP_COMPLETED :: "32 word" where "SESSION_MODE_ON_TRIP_COMPLETED = 3"
definition GEOFENCE_SESSION_ID :: "32 word" where "GEOFENCE_SESSION_ID = 0xFFFFFFFF"

lemmas client_constants = SESSION_MODE_ON_FULL_def SESSION_MODE_ON_FIX_def SESSION_MODE_ON_TRIP_COMPLETED_def
  GEOFENCE_SESSION_ID_def

text \<open>A call that starts a session carries the session that was returned.\<close>

datatype api_call =
    CreateInstance
  | UpdateCallbacks
  | DestroyApi
  | ApiStartTracking "32 word" api_options
  | ApiStopTracking "32 word"
  | ApiUpdateTracking "32 word" api_options
  | ApiStartBatching "32 word" batch_options
  | ApiStopBatching "32 word"
  | ApiUpdateBatching "32 word" batch_options
  | ApiGetBatched "32 word" nat
  | ApiAddGeofences "32 word list option" nat
  | ApiRemoveGeofences "32 word list"
  | ApiModifyGeofences "32 word list" "32 word list"
  | ApiPauseGeofences "32 word list"
  | ApiResumeGeofences "32 word list"
  | ApiNiResponse "32 word"

datatype breach_type = BREACH_ENTER | BREACH_EXIT | BREACH_OTHER

datatype client_call =
    OnStartTracking loc_error
  | OnStopTracking loc_error
  | OnUpdateTrackingOptions loc_error
  | OnStartBatching loc_error
  | OnStopBatching loc_error
  | OnUpdateBatchingOptions loc_error
  | OnGetBatchedLocations loc_error
  | OnAddGeofences "loc_error list" "32 word list"
  | OnRemoveGeofences "loc_error list" "32 word list"
  | OnModifyGeofences "loc_error list" "32 word list"
  | OnPauseGeofences "loc_error list" "32 word list"
  | OnResumeGeofences "loc_error list" "32 word list"
  | OnGnssNiResponse loc_error
  | GeofenceBreach breach_type "32 word list"
  | BatchingStatus bool "32 word list"

record location_client =
  mGeofenceBreachCallback :: bool
  mBatchingStatusCallback :: bool
  mLocationAPI :: bool
  tracking_queue :: "api_request request_queue"
  session_queue :: "api_request request_queue"
  geofence_queue :: "api_request request_queue"
  niresponse_queue :: "api_request request_queue"
  mGeofenceBiDict :: "32 word bidict"
  mSessionBiDict :: "session_entity bidict"
  mBatchSize :: int
  mTracking :: bool
  api_calls :: "api_call list"
  client_calls :: "client_call list"

definition new_location_client :: location_client where
  "new_location_client =
     \<lparr>mGeofenceBreachCallback = False, mBatchingStatusCallback = False, mLocationAPI = False,
      tracking_queue = new_queue, session_queue = new_queue, geofence_queue = new_queue, niresponse_queue = new_queue,
      mGeofenceBiDict = bi_empty, mSessionBiDict = bi_empty, mBatchSize = - 1, mTracking = False,
      api_calls = [], client_calls = []\<rparr>"

definition api :: "api_call \<Rightarrow> location_client \<Rightarrow> location_client" where
  "api x s = s\<lparr>api_calls := api_calls s @ [x]\<rparr>"

definition tell_client :: "client_call \<Rightarrow> location_client \<Rightarrow> location_client" where
  "tell_client x s = s\<lparr>client_calls := client_calls s @ [x]\<rparr>"

definition push_tracking :: "api_request \<Rightarrow> location_client \<Rightarrow> location_client" where
  "push_tracking r s = s\<lparr>tracking_queue := queue_push r (tracking_queue s)\<rparr>"

definition push_session :: "api_request \<Rightarrow> location_client \<Rightarrow> location_client" where
  "push_session r s = s\<lparr>session_queue := queue_push r (session_queue s)\<rparr>"

definition push_geofence :: "api_request \<Rightarrow> location_client \<Rightarrow> location_client" where
  "push_geofence r s = s\<lparr>geofence_queue := queue_push r (geofence_queue s)\<rparr>"

section \<open>Callbacks and the end\<close>

definition locAPISetCallbacks :: "bool \<Rightarrow> bool \<Rightarrow> location_client \<Rightarrow> location_client" where
  "locAPISetCallbacks breachCb statusCb s =
     (let s1 = (if breachCb then s\<lparr>mGeofenceBreachCallback := True\<rparr> else s);
          s2 = (if statusCb then s1\<lparr>mBatchingStatusCallback := True\<rparr> else s1)
      in if mLocationAPI s2 then api UpdateCallbacks s2 else (api CreateInstance s2)\<lparr>mLocationAPI := True\<rparr>)"

definition client_destroy :: "location_client \<Rightarrow> location_client" where
  "client_destroy s =
     (let s1 = s\<lparr>mGeofenceBreachCallback := False\<rparr>;
          s2 = (if mLocationAPI s1 then (api DestroyApi s1)\<lparr>mLocationAPI := False\<rparr> else s1)
      in s2\<lparr>tracking_queue := queue_reset 0 (tracking_queue s2), session_queue := queue_reset 0 (session_queue s2),
           geofence_queue := queue_reset 0 (geofence_queue s2),
           niresponse_queue := queue_reset 0 (niresponse_queue s2)\<rparr>)"

section \<open>Tracking\<close>

definition locAPIStartTracking :: "32 word \<Rightarrow> api_options \<Rightarrow> location_client \<Rightarrow> loc_error \<times> location_client" where
  "locAPIStartTracking session options s =
     (if \<not> mLocationAPI s then (GENERAL_FAILURE, s)
      else if mTracking s then (SUCCESS, s)
      else
        (let s1 = api (ApiStartTracking session options) s;
             s2 = s1\<lparr>tracking_queue := queue_push StartTrackingRequest (queue_reset session (tracking_queue s1))\<rparr>
         in (SUCCESS, s2\<lparr>mTracking := True\<rparr>)))"

definition locAPIStopTracking :: "location_client \<Rightarrow> location_client" where
  "locAPIStopTracking s =
     (if mLocationAPI s \<and> 0 < mSession (tracking_queue s)
      then (api (ApiStopTracking (mSession (tracking_queue s))) (push_tracking StopTrackingRequest s))
             \<lparr>mTracking := False\<rparr>
      else s)"

definition locAPIUpdateTrackingOptions :: "api_options \<Rightarrow> location_client \<Rightarrow> location_client" where
  "locAPIUpdateTrackingOptions options s =
     (if mLocationAPI s \<and> 0 < mSession (tracking_queue s)
      then api (ApiUpdateTracking (mSession (tracking_queue s)) options) (push_tracking UpdateTrackingOptionsRequest s)
      else s)"

text \<open>\<open>conf\<close> is the value of \<open>BATCH_SIZE\<close> in the configuration file, if it is there.\<close>

definition locAPIGetBatchSize :: "int option \<Rightarrow> location_client \<Rightarrow> int \<times> location_client" where
  "locAPIGetBatchSize conf s =
     (if mBatchSize s = - 1
      then (let n = (case conf of None \<Rightarrow> mBatchSize s | Some v \<Rightarrow> v); n' = (if n < 0 then 0 else n)
            in (n', s\<lparr>mBatchSize := n'\<rparr>))
      else (mBatchSize s, s))"

section \<open>Sessions\<close>

definition batching_mode_of :: "32 word \<Rightarrow> batching_mode" where
  "batching_mode_of mode =
     (if mode = SESSION_MODE_ON_FULL then BATCHING_MODE_ROUTINE
      else if mode = SESSION_MODE_ON_TRIP_COMPLETED then BATCHING_MODE_TRIP else BATCHING_MODE_NO_AUTO_REPORT)"

definition batch_of :: "32 word \<Rightarrow> api_options \<Rightarrow> batch_options" where
  "batch_of mode options =
     \<lparr>batch_mode = batching_mode_of mode, batch_minDistance = api_minDistance options,
      batch_minInterval = api_minInterval options, batch_supl = api_mode options\<rparr>"

text \<open>\<open>session\<close> is what \<open>startTracking\<close> or \<open>startBatching\<close> returns.\<close>

definition locAPIStartSession ::
  "32 word \<Rightarrow> 32 word \<Rightarrow> 32 word \<Rightarrow> api_options \<Rightarrow> location_client \<Rightarrow> loc_error \<times> location_client"
where
  "locAPIStartSession session i mode options s =
     (if \<not> mLocationAPI s then (GENERAL_FAILURE, s)
      else if hasId i (mSessionBiDict s) then (ALREADY_STARTED, s)
      else
        (let fix = (mode = SESSION_MODE_ON_FIX);
             s1 = (if fix then push_session StartTrackingRequest (api (ApiStartTracking session options) s)
                   else (let t = api (ApiStartBatching session (batch_of mode options)) s
                         in push_session StartBatchingRequest
                              (t\<lparr>session_queue := setSession session (session_queue t)\<rparr>)));
             entity = \<lparr>ent_id = i, trackingSession = (if fix then session else 0),
                       batchingSession = (if fix then 0 else session), sessionMode = mode\<rparr>
         in (SUCCESS, s1\<lparr>mSessionBiDict := bi_set i session entity (mSessionBiDict s1)\<rparr>)))"

text \<open>What follows once the id was found.\<close>

definition stop_found :: "32 word \<Rightarrow> location_client \<Rightarrow> location_client" where
  "stop_found i s =
     (let (entity, d) = getExtById zero_entity i (mSessionBiDict s); s1 = s\<lparr>mSessionBiDict := d\<rparr>
      in if sessionMode entity = SESSION_MODE_ON_FIX
         then api (ApiStopTracking (trackingSession entity)) (push_session StopTrackingRequest s1)
         else api (ApiStopBatching (batchingSession entity)) (push_session StopBatchingRequest s1))"

definition locAPIStopSession :: "32 word \<Rightarrow> location_client \<Rightarrow> loc_error \<times> location_client" where
  "locAPIStopSession i s =
     (if \<not> mLocationAPI s then (GENERAL_FAILURE, s)
      else if hasId i (mSessionBiDict s) then (SUCCESS, stop_found i s)
      else (ID_UNKNOWN, s))"

text \<open>A change between tracking and batching stops the one, which gets no request of its own, and
  starts the other; otherwise the session goes on with new options. For a session that goes on as a batch
  the options handed over hold the mode only.\<close>

definition locAPIUpdateSessionOptions ::
  "32 word \<Rightarrow> 32 word \<Rightarrow> 32 word \<Rightarrow> api_options \<Rightarrow> location_client \<Rightarrow> loc_error \<times> location_client"
where
  "locAPIUpdateSessionOptions session i mode options s =
     (if \<not> mLocationAPI s then (GENERAL_FAILURE, s)
      else if hasId i (mSessionBiDict s)
      then
        (let (entity, d) = getExtById zero_entity i (mSessionBiDict s);
             s0 = s\<lparr>mSessionBiDict := d\<rparr>;
             sMode = sessionMode entity;
             (s1, tracking, batching) =
               (if mode = SESSION_MODE_ON_FIX
                then (let t = push_session UpdateTrackingOptionsRequest s0
                      in if sMode = SESSION_MODE_ON_FIX
                         then (api (ApiUpdateTracking (trackingSession entity) options) t,
                               trackingSession entity, batchingSession entity)
                         else (let t1 = api (ApiStopBatching (batchingSession entity)) t;
                                   t2 = t1\<lparr>session_queue := setSession 0 (session_queue t1)\<rparr>
                               in (api (ApiStartTracking session options) t2, session, 0)))
                else (let t = push_session UpdateBatchingOptionsRequest s0
                      in if sMode = SESSION_MODE_ON_FIX
                         then (let t1 = api (ApiStopTracking (trackingSession entity)) t;
                                   t2 = api (ApiStartBatching session (batch_of mode options)) t1
                               in (t2\<lparr>session_queue := setSession session (session_queue t2)\<rparr>, 0, session))
                         else (api (ApiUpdateBatching (batchingSession entity)
                                 \<lparr>batch_mode = batching_mode_of mode, batch_minDistance = 0, batch_minInterval = 0,
                                  batch_supl = 0\<rparr>) t,
                               trackingSession entity, batchingSession entity)));
             new = (if mode \<noteq> SESSION_MODE_ON_FIX then batching else tracking);
             entity' = entity\<lparr>trackingSession := tracking, batchingSession := batching, sessionMode := mode\<rparr>
         in (SUCCESS, s1\<lparr>mSessionBiDict := bi_set i new entity' (rmById i (mSessionBiDict s1))\<rparr>))
      else (ID_UNKNOWN, s))"

definition locAPIGetBatchedLocations :: "32 word \<Rightarrow> nat \<Rightarrow> location_client \<Rightarrow> loc_error \<times> location_client" where
  "locAPIGetBatchedLocations i count s =
     (if \<not> mLocationAPI s then (GENERAL_FAILURE, s)
      else if hasId i (mSessionBiDict s)
      then
        (let (entity, d) = getExtById zero_entity i (mSessionBiDict s); s1 = s\<lparr>mSessionBiDict := d\<rparr>
         in if sessionMode entity \<noteq> SESSION_MODE_ON_FIX
            then (SUCCESS, api (ApiGetBatched (batchingSession entity) count) (push_session GetBatchedLocationsRequest s1))
            else (NOT_SUPPORTED, s1))
      else (ID_UNKNOWN, s))"

section \<open>Geofences\<close>

text \<open>\<open>sessions\<close> is what \<open>addGeofences\<close> returns, None for NULL; the options are their breach masks.\<close>

definition locAPIAddGeofences ::
  "32 word list option \<Rightarrow> 32 word list \<Rightarrow> 32 word list \<Rightarrow> location_client \<Rightarrow> loc_error \<times> location_client"
where
  "locAPIAddGeofences sessions ids masks s =
     (if \<not> mLocationAPI s then (GENERAL_FAILURE, s)
      else
        (let s1 = (if mSession (geofence_queue s) \<noteq> GEOFENCE_SESSION_ID
                   then s\<lparr>geofence_queue := queue_reset GEOFENCE_SESSION_ID (geofence_queue s)\<rparr> else s);
             s2 = api (ApiAddGeofences sessions (length ids)) s1
         in case sessions of
              None \<Rightarrow> (GENERAL_FAILURE, s2)
            | Some ss \<Rightarrow>
                (let s3 = push_geofence AddGeofencesRequest s2
                 in (SUCCESS, s3\<lparr>mGeofenceBiDict :=
                       fold (\<lambda>k. bi_set (ids ! k) (ss ! k) (masks ! k)) [0..<length ids] (mGeofenceBiDict s3)\<rparr>))))"

text \<open>The sessions of the ids that are known, with the dictionary without them and the one with them.\<close>

fun remove_known ::
  "32 word list \<Rightarrow> 32 word bidict \<Rightarrow> 32 word bidict \<Rightarrow> 32 word list \<times> 32 word bidict \<times> 32 word bidict"
where
  "remove_known [] d removed = ([], d, removed)"
| "remove_known (i # ids) d removed =
     (let session = getSession i d
      in if 0 < session
         then (let type = getExtBySession 0 session d;
                   (ss, d', removed') = remove_known ids (rmBySession session d) (bi_set i session type removed)
               in (session # ss, d', removed'))
         else remove_known ids d removed)"

definition locAPIRemoveGeofences :: "32 word list \<Rightarrow> location_client \<Rightarrow> location_client" where
  "locAPIRemoveGeofences ids s =
     (if \<not> mLocationAPI s \<or> mSession (geofence_queue s) \<noteq> GEOFENCE_SESSION_ID then s
      else
        (let (sessions, d, removed) = remove_known ids (mGeofenceBiDict s) bi_empty;
             s1 = s\<lparr>mGeofenceBiDict := d\<rparr>
         in if sessions \<noteq> []
            then api (ApiRemoveGeofences sessions) (push_geofence (RemoveGeofencesRequest removed) s1)
            else s1))"

definition known_sessions :: "32 word list \<Rightarrow> 32 word bidict \<Rightarrow> 32 word list" where
  "known_sessions ids d = filter (\<lambda>session. 0 < session) (map (\<lambda>i. getSession i d) ids)"

definition set_known :: "(32 word \<times> 32 word) list \<Rightarrow> 32 word bidict \<Rightarrow> 32 word bidict" where
  "set_known xs d = fold (\<lambda>(i, m) d. if 0 < getSession i d then bi_set i (getSession i d) m d else d) xs d"

text \<open>The sessions are packed, the options are not.\<close>

definition locAPIModifyGeofences :: "32 word list \<Rightarrow> 32 word list \<Rightarrow> location_client \<Rightarrow> location_client" where
  "locAPIModifyGeofences ids masks s =
     (if \<not> mLocationAPI s \<or> mSession (geofence_queue s) \<noteq> GEOFENCE_SESSION_ID then s
      else
        (let sessions = known_sessions ids (mGeofenceBiDict s);
             s1 = s\<lparr>mGeofenceBiDict := set_known (zip ids masks) (mGeofenceBiDict s)\<rparr>
         in if sessions \<noteq> []
            then api (ApiModifyGeofences sessions (take (length sessions) masks)) (push_geofence ModifyGeofencesRequest s1)
            else s1))"

definition locAPIPauseGeofences :: "32 word list \<Rightarrow> location_client \<Rightarrow> location_client" where
  "locAPIPauseGeofences ids s =
     (if \<not> mLocationAPI s \<or> mSession (geofence_queue s) \<noteq> GEOFENCE_SESSION_ID then s
      else
        (let sessions = known_sessions ids (mGeofenceBiDict s)
         in if sessions \<noteq> [] then api (ApiPauseGeofences sessions) (push_geofence PauseGeofencesRequest s) else s))"

definition locAPIResumeGeofences :: "32 word list \<Rightarrow> 32 word list option \<Rightarrow> location_client \<Rightarrow> location_client" where
  "locAPIResumeGeofences ids masks s =
     (if \<not> mLocationAPI s \<or> mSession (geofence_queue s) \<noteq> GEOFENCE_SESSION_ID then s
      else
        (let sessions = known_sessions ids (mGeofenceBiDict s);
             s1 = (case masks of None \<Rightarrow> s
                   | Some m \<Rightarrow> s\<lparr>mGeofenceBiDict := set_known (zip ids m) (mGeofenceBiDict s)\<rparr>)
         in if sessions \<noteq> [] then api (ApiResumeGeofences sessions) (push_geofence ResumeGeofencesRequest s1) else s1))"

definition locAPIRemoveAllGeofences :: "location_client \<Rightarrow> location_client" where
  "locAPIRemoveAllGeofences s =
     (let sessionsVec = getAllSessions (mGeofenceBiDict s)
      in if 0 < length sessionsVec then locAPIRemoveGeofences sessionsVec s else s)"

definition locAPIGnssNiResponse :: "32 word \<Rightarrow> location_client \<Rightarrow> location_client" where
  "locAPIGnssNiResponse i s =
     (if mLocationAPI s
      then (api (ApiNiResponse i) s)
             \<lparr>niresponse_queue := queue_push GnssNiResponseRequest (queue_reset i (niresponse_queue s))\<rparr>
      else s)"

section \<open>Answers\<close>

definition removeSession :: "32 word \<Rightarrow> location_client \<Rightarrow> location_client" where
  "removeSession session s =
     (if hasSession session (mSessionBiDict s)
      then s\<lparr>mSessionBiDict := rmBySession session (mSessionBiDict s)\<rparr> else s)"

text \<open>The kinds of request that a single answer belongs to.\<close>

fun onResponse :: "api_request \<Rightarrow> loc_error \<Rightarrow> 32 word \<Rightarrow> location_client \<Rightarrow> location_client" where
  "onResponse StartTrackingRequest err i s =
     tell_client (OnStartTracking err) (if err \<noteq> SUCCESS then removeSession i s else s)"
| "onResponse StopTrackingRequest err i s =
     (let t = tell_client (OnStopTracking err) s in if err = SUCCESS then removeSession i t else t)"
| "onResponse UpdateTrackingOptionsRequest err i s = tell_client (OnUpdateTrackingOptions err) s"
| "onResponse StartBatchingRequest err i s =
     tell_client (OnStartBatching err) (if err \<noteq> SUCCESS then removeSession i s else s)"
| "onResponse StopBatchingRequest err i s =
     (let t = tell_client (OnStopBatching err) s in if err = SUCCESS then removeSession i t else t)"
| "onResponse UpdateBatchingOptionsRequest err i s = tell_client (OnUpdateBatchingOptions err) s"
| "onResponse GetBatchedLocationsRequest err i s = tell_client (OnGetBatchedLocations err) s"
| "onResponse GnssNiResponseRequest err i s = tell_client (OnGnssNiResponse err) s"
| "onResponse _ err i s = s"

fun onCollectiveResponse :: "api_request \<Rightarrow> loc_error list \<Rightarrow> 32 word list \<Rightarrow> location_client \<Rightarrow> location_client" where
  "onCollectiveResponse AddGeofencesRequest errors sessions s =
     tell_client (OnAddGeofences errors (map (\<lambda>t. getId t (mGeofenceBiDict s)) sessions)) s"
| "onCollectiveResponse (RemoveGeofencesRequest removed) errors sessions s =
     tell_client (OnRemoveGeofences errors (map (\<lambda>t. getId t removed) sessions)) s"
| "onCollectiveResponse ModifyGeofencesRequest errors sessions s =
     tell_client (OnModifyGeofences errors (map (\<lambda>t. getId t (mGeofenceBiDict s)) sessions)) s"
| "onCollectiveResponse PauseGeofencesRequest errors sessions s =
     tell_client (OnPauseGeofences errors (map (\<lambda>t. getId t (mGeofenceBiDict s)) sessions)) s"
| "onCollectiveResponse ResumeGeofencesRequest errors sessions s =
     tell_client (OnResumeGeofences errors (map (\<lambda>t. getId t (mGeofenceBiDict s)) sessions)) s"
| "onCollectiveResponse _ errors sessions s = s"

definition getRequestBySession :: "32 word \<Rightarrow> location_client \<Rightarrow> api_request option \<times> location_client" where
  "getRequestBySession session s =
     (let (request, s1) =
            (if mSession (tracking_queue s) = session
             then (let (r, q) = queue_pop (tracking_queue s) in (r, s\<lparr>tracking_queue := q\<rparr>))
             else if mSession (niresponse_queue s) = session
             then (let (r, q) = queue_pop (niresponse_queue s) in (r, s\<lparr>niresponse_queue := q\<rparr>))
             else (None, s))
      in if request = None \<and> hasSession session (mSessionBiDict s1)
         then (let (r, q) = queue_pop (session_queue s1) in (r, s1\<lparr>session_queue := q\<rparr>))
         else (request, s1))"

definition onResponseCb :: "loc_error \<Rightarrow> 32 word \<Rightarrow> location_client \<Rightarrow> location_client" where
  "onResponseCb err i s =
     (case getRequestBySession i s of (None, s1) \<Rightarrow> s1 | (Some r, s1) \<Rightarrow> onResponse r err i s1)"

definition geofence_request :: "location_client \<Rightarrow> api_request option \<times> location_client" where
  "geofence_request s =
     (if mSession (geofence_queue s) = GEOFENCE_SESSION_ID
      then (let (r, q) = queue_pop (geofence_queue s) in (r, s\<lparr>geofence_queue := q\<rparr>)) else (None, s))"

definition onCollectiveResponseCb :: "loc_error list \<Rightarrow> 32 word list \<Rightarrow> location_client \<Rightarrow> location_client" where
  "onCollectiveResponseCb errors ids s =
     (case geofence_request s of (None, s1) \<Rightarrow> s1 | (Some r, s1) \<Rightarrow> onCollectiveResponse r errors ids s1)"

section \<open>Reports\<close>

unbundle bit_operations_syntax

definition breach_wanted :: "breach_type \<Rightarrow> 32 word \<Rightarrow> bool" where
  "breach_wanted t m \<longleftrightarrow> t = BREACH_ENTER \<and> m AND 1 \<noteq> 0 \<or> t = BREACH_EXIT \<and> m AND 2 \<noteq> 0"

definition beforeGeofenceBreachCb :: "breach_type \<Rightarrow> 32 word list \<Rightarrow> location_client \<Rightarrow> location_client" where
  "beforeGeofenceBreachCb t sessions s =
     (if mGeofenceBreachCallback s
      then tell_client (GeofenceBreach t (map (\<lambda>x. getId x (mGeofenceBiDict s))
             (filter (\<lambda>x. breach_wanted t (getExtBySession 0 x (mGeofenceBiDict s))) sessions))) s
      else s)"

fun completed_sessions :: "32 word list \<Rightarrow> session_entity bidict \<Rightarrow> 32 word list \<times> session_entity bidict" where
  "completed_sessions [] d = ([], d)"
| "completed_sessions (x # xs) d =
     (if hasSession x d
      then (let e = getExtBySession zero_entity x d
            in if sessionMode e = SESSION_MODE_ON_TRIP_COMPLETED
               then (let (ids, d') = completed_sessions xs (rmBySession x d) in (ent_id e # ids, d'))
               else completed_sessions xs d)
      else completed_sessions xs d)"

definition beforeBatchingStatusCb :: "bool \<Rightarrow> 32 word list \<Rightarrow> location_client \<Rightarrow> location_client option" where
  "beforeBatchingStatusCb tripCompleted tripCompletedList s =
     (let (ids, d) = (if tripCompleted then completed_sessions tripCompletedList (mSessionBiDict s)
                      else ([], mSessionBiDict s))
      in if mBatchingStatusCallback s
         then Some (tell_client (BatchingStatus tripCompleted ids) (s\<lparr>mSessionBiDict := d\<rparr>)) else None)"

end
