(* ===== verification/LocationClientProps.thy ===== *)
theory LocationClientProps
  imports LocationClient
begin

text \<open>
  What \<open>LocationClient\<close> keeps while calls of the client and answers of the API interleave: the ids and sessions stay in one-to-one correspondence, and the answers
  to the tracking session reach the requests they belong to when the API gives the answers of a session in
  order. Then runs in which answers reach the wrong request, or none.
\<close>

section \<open>Runs\<close>

datatype client_event =
    SetCallbacks bool bool
  | Destroy
  | StartTrackingOp "32 word" api_options
  | StopTrackingOp
  | UpdateTrackingOp api_options
  | StartSessionOp "32 word" "32 word" "32 word" api_options
  | StopSessionOp "32 word"
  | UpdateSessionOp "32 word" "32 word" "32 word" api_options
  | GetBatchedOp "32 word" nat
  | AddGeofencesOp "32 word list option" "32 word list" "32 word list"
  | RemoveGeofencesOp "32 word list"
  | ModifyGeofencesOp "32 word list" "32 word list"
  | PauseGeofencesOp "32 word list"
  | ResumeGeofencesOp "32 word list" "32 word list option"
  | RemoveAllOp
  | NiResponseOp "32 word"
  | Answer loc_error "32 word"
  | CollectiveAnswer "loc_error list" "32 word list"
  | BreachEvent breach_type "32 word list"
  | BatchingStatusEvent bool "32 word list"

fun client_step :: "client_event \<Rightarrow> location_client \<Rightarrow> location_client option" where
  "client_step (SetCallbacks a b) s = Some (locAPISetCallbacks a b s)"
| "client_step Destroy s = Some (client_destroy s)"
| "client_step (StartTrackingOp t opts) s = Some (snd (locAPIStartTracking t opts s))"
| "client_step StopTrackingOp s = Some (locAPIStopTracking s)"
| "client_step (UpdateTrackingOp opts) s = Some (locAPIUpdateTrackingOptions opts s)"
| "client_step (StartSessionOp t i m opts) s = Some (snd (locAPIStartSession t i m opts s))"
| "client_step (StopSessionOp i) s = Some (snd (locAPIStopSession i s))"
| "client_step (UpdateSessionOp t i m opts) s = Some (snd (locAPIUpdateSessionOptions t i m opts s))"
| "client_step (GetBatchedOp i n) s = Some (snd (locAPIGetBatchedLocations i n s))"
| "client_step (AddGeofencesOp ss ids masks) s = Some (snd (locAPIAddGeofences ss ids masks s))"
| "client_step (RemoveGeofencesOp ids) s = Some (locAPIRemoveGeofences ids s)"
| "client_step (ModifyGeofencesOp ids masks) s = Some (locAPIModifyGeofences ids masks s)"
| "client_step (PauseGeofencesOp ids) s = Some (locAPIPauseGeofences ids s)"
| "client_step (ResumeGeofencesOp ids m) s = Some (locAPIResumeGeofences ids m s)"
| "client_step RemoveAllOp s = Some (locAPIRemoveAllGeofences s)"
| "client_step (NiResponseOp i) s = Some (locAPIGnssNiResponse i s)"
| "client_step (Answer err t) s = Some (onResponseCb err t s)"
| "client_step (CollectiveAnswer errs ids) s = Some (onCollectiveResponseCb errs ids s)"
| "client_step (BreachEvent t ss) s = Some (beforeGeofenceBreachCb t ss s)"
| "client_step (BatchingStatusEvent b ts) s = beforeBatchingStatusCb b ts s"

text \<open>An answer that has taken its request under the mutex and is still to be handled.\<close>

datatype answer =
    Single api_request loc_error "32 word"
  | Collective api_request "loc_error list" "32 word list"

fun handle :: "answer \<Rightarrow> location_client \<Rightarrow> location_client" where
  "handle (Single r err t) s = onResponse r err t s"
| "handle (Collective r errs ids) s = onCollectiveResponse r errs ids s"

fun take_answer :: "loc_error \<Rightarrow> 32 word \<Rightarrow> location_client \<times> answer list \<Rightarrow> location_client \<times> answer list" where
  "take_answer err t (s, fl) =
     (case getRequestBySession t s of (None, s1) \<Rightarrow> (s1, fl) | (Some r, s1) \<Rightarrow> (s1, fl @ [Single r err t]))"

fun take_collective ::
  "loc_error list \<Rightarrow> 32 word list \<Rightarrow> location_client \<times> answer list \<Rightarrow> location_client \<times> answer list" where
  "take_collective errs ids (s, fl) =
     (case geofence_request s of (None, s1) \<Rightarrow> (s1, fl) | (Some r, s1) \<Rightarrow> (s1, fl @ [Collective r errs ids]))"

text \<open>Both in one go is what the callback does.\<close>

lemma callback_split:
  "onResponseCb err t s = (case take_answer err t (s, []) of (s1, fl) \<Rightarrow> fold handle fl s1)"
  "onCollectiveResponseCb errs ids s = (case take_collective errs ids (s, []) of (s1, fl) \<Rightarrow> fold handle fl s1)"
  by (auto simp: onResponseCb_def onCollectiveResponseCb_def split: prod.split option.split)

fun client_run :: "client_event list \<Rightarrow> location_client \<Rightarrow> location_client option" where
  "client_run [] s = Some s"
| "client_run (e # es) s = do { s' \<leftarrow> client_step e s; client_run es s' }"

section \<open>The dictionary of sessions\<close>

text \<open>What the API returns for a session is not in use, and not 0.\<close>

fun fresh_session :: "client_event \<Rightarrow> location_client \<Rightarrow> bool" where
  "fresh_session (StartSessionOp t i m opts) s \<longleftrightarrow> 0 < t \<and> \<not> hasSession t (mSessionBiDict s)"
| "fresh_session (UpdateSessionOp t i m opts) s \<longleftrightarrow> 0 < t \<and> \<not> hasSession t (mSessionBiDict s)"
| "fresh_session _ s \<longleftrightarrow> True"

text \<open>The entity of a session names its id, and the session itself by its mode.\<close>

definition entity_session :: "session_entity \<Rightarrow> 32 word" where
  "entity_session e = (if sessionMode e = SESSION_MODE_ON_FIX then trackingSession e else batchingSession e)"

definition sessions_ok :: "session_entity bidict \<Rightarrow> bool" where
  "sessions_ok d \<longleftrightarrow> bi_ok d \<and> \<not> hasSession 0 d \<and>
     (\<forall>t e. map_of (mExtMap d) t = Some e \<longrightarrow> entity_session e = t \<and> map_of (mBackwardMap d) t = Some (ent_id e))"

lemma sessions_ok_empty: "sessions_ok bi_empty"
  by (simp add: sessions_ok_def) (simp add: bi_empty_def hasSession_def)

lemma sessions_ok_set:
  assumes d: "sessions_ok d" and i: "\<not> hasId i d" and t: "\<not> hasSession t d" "0 < t"
    and e: "entity_session e = t" "ent_id e = i"
  shows "sessions_ok (bi_set i t e d)"
  using d bi_ok_set [OF _ i t(1)] t e
  by (auto simp: sessions_ok_def bi_set_def hasSession_def bi_ok_def split: if_splits)

lemma sessions_ok_rmBySession:
  assumes d: "sessions_ok d" and t: "hasSession t d"
  shows "sessions_ok (rmBySession t d)"
proof -
  have "bi_ok (rmBySession t d)" using d t bi_ok_rmBySession by (auto simp: sessions_ok_def)
  then show ?thesis using d by (auto simp: sessions_ok_def) (auto simp: rmBySession_def hasSession_def split: if_splits)
qed

lemma sessions_ok_rmById:
  assumes d: "sessions_ok d" and i: "hasId i d"
  shows "sessions_ok (rmById i d)"
proof -
  obtain t where "map_of (mForwardMap d) i = Some t" using i by (auto simp: hasId_def)
  then have "rmById i d = rmBySession t d" "hasSession t d"
    using d bi_ok_iff [of d i t] by (simp_all add: sessions_ok_def rmById_def rmBySession_def at0_def hasSession_def)
  then show ?thesis using sessions_ok_rmBySession [OF d] by simp
qed

lemma entity_of_id:
  assumes d: "sessions_ok d" and i: "hasId i d"
  shows "\<exists>t e. map_of (mForwardMap d) i = Some t \<and> 0 < t \<and> map_of (mExtMap d) t = Some e \<and>
    getExtById zero_entity i d = (e, d) \<and> entity_session e = t \<and> ent_id e = i"
proof -
  obtain t where t: "map_of (mForwardMap d) i = Some t" using i by (auto simp: hasId_def)
  then have b: "map_of (mBackwardMap d) t = Some i" using d bi_ok_iff [of d i t] by (simp add: sessions_ok_def)
  then obtain e where e: "map_of (mExtMap d) t = Some e" using d by (force simp: sessions_ok_def bi_ok_def)
  have "t \<noteq> 0" using d b by (auto simp: sessions_ok_def hasSession_def)
  then have "0 < t" by (simp add: word_gt_0)
  moreover have "entity_session e = t" "ent_id e = i" using d e b by (auto simp: sessions_ok_def)
  ultimately show ?thesis using t e by (auto simp: getExtById_def at0_def Let_def)
qed

lemma queue_frames [simp]:
  "mSessionBiDict (api x s) = mSessionBiDict s"
  "mSessionBiDict (push_session r s) = mSessionBiDict s"
  "mSessionBiDict (push_tracking r s) = mSessionBiDict s"
  "mSessionBiDict (push_geofence r s) = mSessionBiDict s"
  "mSessionBiDict (tell_client c s) = mSessionBiDict s"
  by (simp_all add: api_def push_session_def push_tracking_def push_geofence_def tell_client_def)

lemma ok_removeSession [simp]: "sessions_ok (mSessionBiDict s) \<Longrightarrow> sessions_ok (mSessionBiDict (removeSession t s))"
  by (simp add: removeSession_def sessions_ok_rmBySession)

lemma ok_onResponse: "sessions_ok (mSessionBiDict s) \<Longrightarrow> sessions_ok (mSessionBiDict (onResponse r err t s))"
  by (cases r) (simp_all add: Let_def)

lemma dict_getRequest [simp]: "mSessionBiDict (snd (getRequestBySession t s)) = mSessionBiDict s"
  by (simp add: getRequestBySession_def Let_def split_def)

lemma ok_onResponseCb: "sessions_ok (mSessionBiDict s) \<Longrightarrow> sessions_ok (mSessionBiDict (onResponseCb err t s))"
  using dict_getRequest [of t s]
  by (cases "getRequestBySession t s") (auto simp: onResponseCb_def ok_onResponse split: option.split)

lemma dict_onCollective [simp]: "mSessionBiDict (onCollectiveResponse r errs ids s) = mSessionBiDict s"
  by (cases r) simp_all

lemma dict_geofence_request [simp]: "mSessionBiDict (snd (geofence_request s)) = mSessionBiDict s"
  by (simp add: geofence_request_def split: prod.split)

lemma dict_collective [simp]: "mSessionBiDict (onCollectiveResponseCb errs ids s) = mSessionBiDict s"
  using dict_geofence_request [of s] by (cases "geofence_request s") (auto simp: onCollectiveResponseCb_def split: option.split)

lemma ok_handle: "sessions_ok (mSessionBiDict s) \<Longrightarrow> sessions_ok (mSessionBiDict (handle a s))"
  by (cases a) (simp_all add: ok_onResponse)

lemma dict_take [simp]:
  "mSessionBiDict (fst (take_answer err t x)) = mSessionBiDict (fst x)"
  "mSessionBiDict (fst (take_collective errs ids x)) = mSessionBiDict (fst x)"
  using dict_getRequest [of t "fst x"] dict_geofence_request [of "fst x"]
  by (cases x; auto split: prod.split option.split)+

lemma ok_start:
  assumes "sessions_ok (mSessionBiDict s)" "0 < t" "\<not> hasSession t (mSessionBiDict s)"
  shows "sessions_ok (mSessionBiDict (snd (locAPIStartSession t i m opts s)))"
  using assms by (auto simp: locAPIStartSession_def Let_def entity_session_def intro!: sessions_ok_set)

lemma ok_update:
  assumes ok: "sessions_ok (mSessionBiDict s)" and t: "0 < t" "\<not> hasSession t (mSessionBiDict s)"
  shows "sessions_ok (mSessionBiDict (snd (locAPIUpdateSessionOptions t i m opts s)))"
proof (cases "mLocationAPI s \<and> hasId i (mSessionBiDict s)")
  case True
  define d where "d = mSessionBiDict s"
  from True obtain u e where e: "map_of (mForwardMap d) i = Some u" "0 < u" "getExtById zero_entity i d = (e, d)"
    "entity_session e = u" "ent_id e = i"
    using entity_of_id [OF ok conjunct2 [OF True]] by (auto simp: d_def)
  have rm: "sessions_ok (rmById i d)" using ok True by (simp add: d_def sessions_ok_rmById)
  have id: "\<not> hasId i (rmById i d)" by simp
  have u: "\<not> hasSession u (rmById i d)" "\<not> hasSession t (rmById i d)"
    using t e by (simp_all add: hasSession_rmById at0_def d_def)
  have new: "sessions_ok (bi_set i v f (rmById i d))" if "v = entity_session e \<or> v = t" "entity_session f = v" "ent_id f = ent_id e" for v f
  proof -
    have "\<not> hasSession v (rmById i d)" "0 < v" using that(1) u t(1) e(2,4) by auto
    then show ?thesis using sessions_ok_set [OF rm id] that(2,3) e(5) by simp
  qed
  show ?thesis
    using True e(3) by (auto simp: locAPIUpdateSessionOptions_def Let_def entity_session_def simp flip: d_def intro!: new)
qed (use ok in \<open>auto simp: locAPIUpdateSessionOptions_def\<close>)

lemma ok_completed: "sessions_ok d \<Longrightarrow> sessions_ok (snd (completed_sessions xs d))"
  by (induction xs d rule: completed_sessions.induct) (auto simp: Let_def split_def sessions_ok_rmBySession)

lemma ok_completed': "completed_sessions xs d = (ids, d') \<Longrightarrow> sessions_ok d \<Longrightarrow> sessions_ok d'"
  using ok_completed [of d xs] by simp

lemma dict_geofence [simp]:
  "mSessionBiDict (snd (locAPIAddGeofences ss ids masks s)) = mSessionBiDict s"
  "mSessionBiDict (locAPIRemoveGeofences ids s) = mSessionBiDict s"
  "mSessionBiDict (locAPIModifyGeofences ids masks s) = mSessionBiDict s"
  "mSessionBiDict (locAPIPauseGeofences ids s) = mSessionBiDict s"
  "mSessionBiDict (locAPIResumeGeofences ids m s) = mSessionBiDict s"
  "mSessionBiDict (locAPIRemoveAllGeofences s) = mSessionBiDict s"
  by (simp_all add: locAPIAddGeofences_def locAPIRemoveGeofences_def locAPIModifyGeofences_def
      locAPIPauseGeofences_def locAPIResumeGeofences_def locAPIRemoveAllGeofences_def Let_def split_def
      split: option.split)

lemma dict_simple [simp]:
  "mSessionBiDict (locAPISetCallbacks a b s) = mSessionBiDict s"
  "mSessionBiDict (client_destroy s) = mSessionBiDict s"
  "mSessionBiDict (snd (locAPIStartTracking t opts s)) = mSessionBiDict s"
  "mSessionBiDict (locAPIStopTracking s) = mSessionBiDict s"
  "mSessionBiDict (locAPIUpdateTrackingOptions opts s) = mSessionBiDict s"
  "mSessionBiDict (locAPIGnssNiResponse i s) = mSessionBiDict s"
  "mSessionBiDict (beforeGeofenceBreachCb bt ss s) = mSessionBiDict s"
  by (simp_all add: locAPISetCallbacks_def client_destroy_def locAPIStartTracking_def locAPIStopTracking_def
      locAPIUpdateTrackingOptions_def locAPIGnssNiResponse_def beforeGeofenceBreachCb_def Let_def)

lemma dict_session_ops [simp]:
  "mSessionBiDict (snd (locAPIStopSession i s)) = mSessionBiDict s"
  "mSessionBiDict (snd (locAPIGetBatchedLocations i n s)) = mSessionBiDict s"
  by (auto simp: locAPIStopSession_def stop_found_def locAPIGetBatchedLocations_def Let_def split_def)

lemma ok_step:
  assumes "sessions_ok (mSessionBiDict s)" "fresh_session e s" "client_step e s = Some s'"
  shows "sessions_ok (mSessionBiDict s')"
  using assms
  by (cases e) (auto simp: ok_start ok_update ok_onResponseCb beforeBatchingStatusCb_def ok_completed' split: if_splits prod.splits)

text \<open>Calls of the client, answers that take their request, and the handling of those that have
  taken one, in any order. A call is one step: nothing is handled in the middle of one.\<close>

inductive client_reachable :: "location_client \<Rightarrow> answer list \<Rightarrow> bool" where
  Start: "client_reachable new_location_client []"
| Call: "client_reachable s fl \<Longrightarrow> fresh_session e s \<Longrightarrow> client_step e s = Some s' \<Longrightarrow> client_reachable s' fl"
| Take: "client_reachable s fl \<Longrightarrow> take_answer err t (s, fl) = (s', fl') \<Longrightarrow> client_reachable s' fl'"
| TakeAll: "client_reachable s fl \<Longrightarrow> take_collective errs ids (s, fl) = (s', fl') \<Longrightarrow> client_reachable s' fl'"
| Handle: "client_reachable s (fl @ a # fl') \<Longrightarrow> client_reachable (handle a s) (fl @ fl')"

lemma reachable_sessions_ok: "client_reachable s fl \<Longrightarrow> sessions_ok (mSessionBiDict s)"
proof (induction rule: client_reachable.induct)
  case Start
  then show ?case using sessions_ok_empty by (simp add: new_location_client_def)
next
  case (Take s fl err t s' fl')
  then show ?case using dict_take(1) [of err t "(s, fl)"] by simp
next
  case (TakeAll s fl errs ids s' fl')
  then show ?case using dict_take(2) [of errs ids "(s, fl)"] by simp
qed (auto intro: ok_step ok_handle)



section \<open>Answers to the tracking session\<close>

text \<open>What the API owes an answer for: the session and the kind of request.\<close>

fun asks :: "api_call \<Rightarrow> (32 word \<times> api_request) list" where
  "asks (ApiStartTracking t _) = [(t, StartTrackingRequest)]"
| "asks (ApiStopTracking t) = [(t, StopTrackingRequest)]"
| "asks (ApiUpdateTracking t _) = [(t, UpdateTrackingOptionsRequest)]"
| "asks (ApiStartBatching t _) = [(t, StartBatchingRequest)]"
| "asks (ApiStopBatching t) = [(t, StopBatchingRequest)]"
| "asks (ApiUpdateBatching t _) = [(t, UpdateBatchingOptionsRequest)]"
| "asks (ApiGetBatched t _) = [(t, GetBatchedLocationsRequest)]"
| "asks (ApiNiResponse i) = [(i, GnssNiResponseRequest)]"
| "asks _ = []"

definition asked :: "location_client \<Rightarrow> location_client \<Rightarrow> (32 word \<times> api_request) list" where
  "asked s s' = concat (map asks (drop (length (api_calls s)) (api_calls s')))"

text \<open>The sessions the API hands out, and the ids of network initiated requests, differ from those in use.
  An answer takes its request in a step of its own, \<open>InOrder\<close>, and is handled later.\<close>

fun apart :: "client_event \<Rightarrow> location_client \<Rightarrow> (32 word \<times> api_request) list \<Rightarrow> bool" where
  "apart (StartTrackingOp t opts) s out \<longleftrightarrow> 0 < t \<and> t \<notin> fst ` set out \<and> \<not> hasSession t (mSessionBiDict s)"
| "apart (StartSessionOp t i m opts) s out \<longleftrightarrow>
     0 < t \<and> t \<noteq> mSession (tracking_queue s) \<and> \<not> hasSession t (mSessionBiDict s)"
| "apart (UpdateSessionOp t i m opts) s out \<longleftrightarrow>
     0 < t \<and> t \<noteq> mSession (tracking_queue s) \<and> \<not> hasSession t (mSessionBiDict s)"
| "apart (NiResponseOp i) s out \<longleftrightarrow> i \<noteq> mSession (tracking_queue s)"
| "apart (Answer err t) s out \<longleftrightarrow> False"
| "apart _ s out \<longleftrightarrow> True"

text \<open>The API answers the requests of a session in their order.\<close>

inductive orderly :: "location_client \<Rightarrow> answer list \<Rightarrow> (32 word \<times> api_request) list \<Rightarrow> bool" where
  Init: "orderly new_location_client [] []"
| Op: "orderly s fl out \<Longrightarrow> apart e s out \<Longrightarrow> client_step e s = Some s' \<Longrightarrow> orderly s' fl (out @ asked s s')"
| InOrder: "orderly s fl (xs @ (t, r) # ys) \<Longrightarrow> t \<notin> fst ` set xs \<Longrightarrow> take_answer err t (s, fl) = (s', fl') \<Longrightarrow>
    orderly s' fl' (xs @ ys)"
| Handled: "orderly s (fl @ a # fl') out \<Longrightarrow> orderly (handle a s) (fl @ fl') out"

abbreviation "for_session t out \<equiv> map snd (filter (\<lambda>x. fst x = t) out)"

definition tracking_ok :: "location_client \<Rightarrow> (32 word \<times> api_request) list \<Rightarrow> bool" where
  "tracking_ok s out \<longleftrightarrow> sessions_ok (mSessionBiDict s) \<and> \<not> hasSession (mSession (tracking_queue s)) (mSessionBiDict s) \<and>
     mQueue (tracking_queue s) = (if mSession (tracking_queue s) = 0 then [] else for_session (mSession (tracking_queue s)) out)"

lemma tq_frames [simp]:
  "tracking_queue (api x s) = tracking_queue s"
  "tracking_queue (push_session r s) = tracking_queue s"
  "tracking_queue (push_geofence r s) = tracking_queue s"
  "tracking_queue (push_tracking r s) = queue_push r (tracking_queue s)"
  "tracking_queue (tell_client c s) = tracking_queue s"
  "tracking_queue (removeSession t s) = tracking_queue s"
  "api_calls (api x s) = api_calls s @ [x]"
  "api_calls (push_session r s) = api_calls s"
  "api_calls (push_geofence r s) = api_calls s"
  "api_calls (push_tracking r s) = api_calls s"
  "api_calls (tell_client c s) = api_calls s"
  by (simp_all add: api_def push_session_def push_tracking_def push_geofence_def tell_client_def removeSession_def)

lemma tq_onResponse [simp]: "tracking_queue (onResponse r err t s) = tracking_queue s"
  by (cases r) (simp_all add: Let_def)

lemma tq_onCollective [simp]: "tracking_queue (onCollectiveResponse r errs ids s) = tracking_queue s"
  by (cases r) simp_all

lemma tq_collective [simp]: "tracking_queue (onCollectiveResponseCb errs ids s) = tracking_queue s"
  by (auto simp: onCollectiveResponseCb_def geofence_request_def split: prod.splits option.split if_splits)

lemma tq_handle [simp]: "tracking_queue (handle a s) = tracking_queue s"
  by (cases a) simp_all

lemma tq_geofence [simp]:
  "tracking_queue (snd (locAPIAddGeofences ss ids masks s)) = tracking_queue s"
  "tracking_queue (locAPIRemoveGeofences ids s) = tracking_queue s"
  "tracking_queue (locAPIModifyGeofences ids masks s) = tracking_queue s"
  "tracking_queue (locAPIPauseGeofences ids s) = tracking_queue s"
  "tracking_queue (locAPIResumeGeofences ids m s) = tracking_queue s"
  "tracking_queue (locAPIRemoveAllGeofences s) = tracking_queue s"
  by (simp_all add: locAPIAddGeofences_def locAPIRemoveGeofences_def locAPIModifyGeofences_def
      locAPIPauseGeofences_def locAPIResumeGeofences_def locAPIRemoveAllGeofences_def Let_def split_def
      split: option.split)

lemma tq_session_ops [simp]:
  "tracking_queue (snd (locAPIStopSession i s)) = tracking_queue s"
  "tracking_queue (snd (locAPIGetBatchedLocations i n s)) = tracking_queue s"
  by (auto simp: locAPIStopSession_def stop_found_def locAPIGetBatchedLocations_def Let_def split_def)

lemma asked_refl [simp]: "api_calls s' = api_calls s \<Longrightarrow> asked s s' = []"
  by (simp add: asked_def)

lemma asked_more: "api_calls s' = api_calls s @ cs \<Longrightarrow> asked s s' = concat (map asks cs)"
  by (simp add: asked_def)

lemma asked_geofence [simp]:
  "asked s (snd (locAPIAddGeofences ss ids masks s)) = []"
  "asked s (locAPIRemoveGeofences ids s) = []"
  "asked s (locAPIModifyGeofences ids masks s) = []"
  "asked s (locAPIPauseGeofences ids s) = []"
  "asked s (locAPIResumeGeofences ids m s) = []"
  "asked s (locAPIRemoveAllGeofences s) = []"
  by (simp_all add: asked_def locAPIAddGeofences_def locAPIRemoveGeofences_def locAPIModifyGeofences_def
      locAPIPauseGeofences_def locAPIResumeGeofences_def locAPIRemoveAllGeofences_def Let_def split_def
      split: option.split)

lemma asked_collective [simp]: "asked s (onCollectiveResponseCb errs ids s) = []"
proof -
  have "api_calls (onCollectiveResponse r errs ids u) = api_calls u" for r u by (cases r) simp_all
  then show ?thesis
    by (auto simp: onCollectiveResponseCb_def geofence_request_def split: prod.splits option.split if_splits)
qed

lemma tracking_other:
  assumes "tracking_ok s out" "tracking_queue s' = tracking_queue s"
    and "sessions_ok (mSessionBiDict s')" "\<not> hasSession (mSession (tracking_queue s)) (mSessionBiDict s')"
    and "\<forall>x\<in>set (asked s s'). fst x \<noteq> mSession (tracking_queue s)"
  shows "tracking_ok s' (out @ asked s s')"
  using assms by (auto simp: tracking_ok_def filter_empty_conv)

lemma tracking_same:
  assumes "tracking_ok s out" "tracking_queue s' = tracking_queue s" "mSessionBiDict s' = mSessionBiDict s" "asked s s' = []"
  shows "tracking_ok s' (out @ asked s s')"
  using assms by (simp add: tracking_ok_def)

lemma tracking_start:
  assumes ok: "tracking_ok s out" and a: "apart (StartTrackingOp t opts) s out"
  shows "tracking_ok (snd (locAPIStartTracking t opts s)) (out @ asked s (snd (locAPIStartTracking t opts s)))"
proof (cases "mLocationAPI s \<and> \<not> mTracking s")
  case True
  have "for_session t out = []" using a by (force simp: filter_empty_conv)
  then show ?thesis using True ok a
    by (auto simp: tracking_ok_def locAPIStartTracking_def Let_def asked_def api_def queue_push_def queue_reset_def)
qed (use ok in \<open>auto simp: locAPIStartTracking_def intro: tracking_same\<close>)

lemma tracking_stop:
  assumes ok: "tracking_ok s out"
  shows "tracking_ok (locAPIStopTracking s) (out @ asked s (locAPIStopTracking s))"
  using ok by (auto simp: tracking_ok_def locAPIStopTracking_def asked_def queue_push_def word_gt_0)

lemma tracking_update:
  assumes ok: "tracking_ok s out"
  shows "tracking_ok (locAPIUpdateTrackingOptions opts s) (out @ asked s (locAPIUpdateTrackingOptions opts s))"
  using ok by (auto simp: tracking_ok_def locAPIUpdateTrackingOptions_def asked_def queue_push_def word_gt_0)

lemma tracking_start_session:
  assumes ok: "tracking_ok s out" and a: "apart (StartSessionOp t i m opts) s out"
  shows "tracking_ok (snd (locAPIStartSession t i m opts s)) (out @ asked s (snd (locAPIStartSession t i m opts s)))"
proof (rule tracking_other [OF ok])
  have d: "sessions_ok (mSessionBiDict s)" "bi_ok (mSessionBiDict s)"
    using ok by (simp_all add: tracking_ok_def sessions_ok_def)
  show "sessions_ok (mSessionBiDict (snd (locAPIStartSession t i m opts s)))"
    using a by (intro ok_start d) simp_all
  show "\<not> hasSession (mSession (tracking_queue s)) (mSessionBiDict (snd (locAPIStartSession t i m opts s)))"
    using ok a d(2) by (auto simp: tracking_ok_def locAPIStartSession_def Let_def)
qed (use a in \<open>auto simp: locAPIStartSession_def Let_def asked_def api_def push_session_def\<close>)

lemma entity_apart:
  assumes ok: "tracking_ok s out" and i: "hasId i (mSessionBiDict s)" and e: "getExtById zero_entity i (mSessionBiDict s) = (e, d)"
  shows "d = mSessionBiDict s \<and> entity_session e \<noteq> mSession (tracking_queue s)"
proof -
  have "sessions_ok (mSessionBiDict s)" using ok by (simp add: tracking_ok_def)
  then obtain t where "map_of (mForwardMap (mSessionBiDict s)) i = Some t" "entity_session e = t" "d = mSessionBiDict s"
    using entity_of_id [OF _ i] e by auto
  moreover from this have "hasSession t (mSessionBiDict s)"
    using ok bi_ok_iff [of "mSessionBiDict s" i t] by (simp add: tracking_ok_def sessions_ok_def hasSession_def)
  ultimately show ?thesis using ok by (auto simp: tracking_ok_def)
qed

lemma entity_not_tracking:
  assumes "tracking_ok s out" "getExtById zero_entity i (mSessionBiDict s) = (e, d)" "hasId i (mSessionBiDict s)"
  shows "if sessionMode e = SESSION_MODE_ON_FIX then trackingSession e \<noteq> mSession (tracking_queue s)
    else batchingSession e \<noteq> mSession (tracking_queue s)"
  using entity_apart [OF assms(1,3,2)] by (simp add: entity_session_def split: if_splits)

lemma tracking_stop_session:
  assumes ok: "tracking_ok s out"
  shows "tracking_ok (snd (locAPIStopSession i s)) (out @ asked s (snd (locAPIStopSession i s)))"
proof (rule tracking_other [OF ok])
  show "\<forall>x\<in>set (asked s (snd (locAPIStopSession i s))). fst x \<noteq> mSession (tracking_queue s)"
    unfolding locAPIStopSession_def stop_found_def Let_def
    by (auto simp: asked_def split: prod.splits if_splits dest: entity_not_tracking [OF ok])
qed (use ok in \<open>simp_all add: tracking_ok_def\<close>)

lemma tracking_get_batched:
  assumes ok: "tracking_ok s out"
  shows "tracking_ok (snd (locAPIGetBatchedLocations i n s)) (out @ asked s (snd (locAPIGetBatchedLocations i n s)))"
proof (rule tracking_other [OF ok])
  show "\<forall>x\<in>set (asked s (snd (locAPIGetBatchedLocations i n s))). fst x \<noteq> mSession (tracking_queue s)"
    unfolding locAPIGetBatchedLocations_def Let_def
    by (auto simp: asked_def split: prod.splits if_splits dest: entity_not_tracking [OF ok])
qed (use ok in \<open>simp_all add: tracking_ok_def\<close>)

lemma tracking_update_session:
  assumes ok: "tracking_ok s out" and a: "apart (UpdateSessionOp t i m opts) s out"
  shows "tracking_ok (snd (locAPIUpdateSessionOptions t i m opts s))
     (out @ asked s (snd (locAPIUpdateSessionOptions t i m opts s)))"
proof (cases "mLocationAPI s \<and> hasId i (mSessionBiDict s)")
  case True
  define q where "q = mSession (tracking_queue s)"
  obtain e where e: "getExtById zero_entity i (mSessionBiDict s) = (e, mSessionBiDict s)" "entity_session e \<noteq> q"
    using True entity_apart [OF ok] by (metis q_def surj_pair)
  have d: "sessions_ok (mSessionBiDict s)" using ok by (simp add: tracking_ok_def)
  then have rm: "bi_ok (rmById i (mSessionBiDict s))" "\<not> hasSession q (rmById i (mSessionBiDict s))"
    using True sessions_ok_rmById [OF d] ok
    by (simp_all add: sessions_ok_def hasSession_rmById tracking_ok_def q_def)
  have q: "q \<noteq> t" using a by (auto simp: q_def)
  show ?thesis
  proof (rule tracking_other [OF ok])
    show "sessions_ok (mSessionBiDict (snd (locAPIUpdateSessionOptions t i m opts s)))"
      using a by (intro ok_update d) simp_all
    show "\<not> hasSession (mSession (tracking_queue s)) (mSessionBiDict (snd (locAPIUpdateSessionOptions t i m opts s)))"
      using True e q rm by (auto simp: locAPIUpdateSessionOptions_def Let_def entity_session_def simp flip: q_def split: if_splits)
    show "\<forall>x\<in>set (asked s (snd (locAPIUpdateSessionOptions t i m opts s))). fst x \<noteq> mSession (tracking_queue s)"
      using True e q by (auto simp: locAPIUpdateSessionOptions_def Let_def entity_session_def asked_def
          api_def push_session_def simp flip: q_def split: if_splits)
  qed (use True e in \<open>simp add: locAPIUpdateSessionOptions_def Let_def\<close>)
qed (use ok in \<open>auto simp: locAPIUpdateSessionOptions_def intro: tracking_same\<close>)

lemma tracking_simple:
  assumes ok: "tracking_ok s out"
  shows "tracking_ok (locAPISetCallbacks a b s) (out @ asked s (locAPISetCallbacks a b s))"
    and "i \<noteq> mSession (tracking_queue s) \<Longrightarrow>
      tracking_ok (locAPIGnssNiResponse i s) (out @ asked s (locAPIGnssNiResponse i s))"
    and "tracking_ok (beforeGeofenceBreachCb bt ss s) (out @ asked s (beforeGeofenceBreachCb bt ss s))"
    and "tracking_ok (client_destroy s) (out @ asked s (client_destroy s))"
  using ok by (auto simp: tracking_ok_def locAPISetCallbacks_def locAPIGnssNiResponse_def beforeGeofenceBreachCb_def
      client_destroy_def queue_reset_def asked_def api_def tell_client_def Let_def sessions_ok_def)

lemma completed_removes: "completed_sessions xs d = (ids, d') \<Longrightarrow> \<not> hasSession t d \<Longrightarrow> \<not> hasSession t d'"
  by (induction xs d arbitrary: ids d' rule: completed_sessions.induct) (auto simp: Let_def split: if_splits prod.splits)

lemma tracking_batching_status:
  assumes ok: "tracking_ok s out" and b: "beforeBatchingStatusCb tc ts s = Some s'"
  shows "tracking_ok s' (out @ asked s s')"
  using ok b completed_removes ok_completed'
  by (fastforce simp: beforeBatchingStatusCb_def tracking_ok_def asked_def tell_client_def split: if_splits prod.splits)

lemma tracking_step:
  assumes "tracking_ok s out" "apart e s out" "client_step e s = Some s'"
  shows "tracking_ok s' (out @ asked s s')"
  using assms
  by (cases e) (auto simp: tracking_start tracking_stop tracking_update tracking_start_session tracking_stop_session
      tracking_get_batched tracking_update_session tracking_simple tracking_batching_status intro: tracking_same
      simp del: append_Nil2)


lemma handle_removes: "hasSession u (mSessionBiDict (handle a s)) \<Longrightarrow> hasSession u (mSessionBiDict s)"
proof -
  have r: "hasSession u (mSessionBiDict (removeSession t v)) \<longleftrightarrow> u \<noteq> t \<and> hasSession u (mSessionBiDict v)" for t v
    by (auto simp: removeSession_def)
  have "hasSession u (mSessionBiDict (onResponse q err t s)) \<Longrightarrow> hasSession u (mSessionBiDict s)" for q err t
    by (cases q) (auto simp: Let_def r split: if_splits)
  then show "hasSession u (mSessionBiDict (handle a s)) \<Longrightarrow> hasSession u (mSessionBiDict s)" by (cases a) auto
qed

lemma request_of_tracking:
  assumes "tracking_ok s (xs @ (t, r) # ys)" "t \<notin> fst ` set xs" "t = mSession (tracking_queue s)" "0 < t"
  shows "fst (getRequestBySession t s) = Some r \<and>
    tracking_queue (snd (getRequestBySession t s)) = (tracking_queue s)\<lparr>mQueue := for_session t (xs @ ys)\<rparr>"
proof -
  have "filter (\<lambda>x. fst x = t) xs = []" using assms(2) by (force simp: filter_empty_conv)
  then have "mQueue (tracking_queue s) = r # for_session t (xs @ ys)"
    using assms by (simp add: tracking_ok_def word_gt_0)
  then show ?thesis using assms(3) by (simp add: getRequestBySession_def queue_pop_def Let_def)
qed

lemma tracking_answer:
  assumes ok: "tracking_ok s (xs @ (t, r) # ys)" and t: "t \<notin> fst ` set xs"
    and take: "take_answer err t (s, fl) = (s', fl')"
  shows "tracking_ok s' (xs @ ys)"
proof -
  have s': "s' = snd (getRequestBySession t s)" using take by (auto split: prod.splits option.splits)
  then have dict: "mSessionBiDict s' = mSessionBiDict s" by simp
  consider "t = mSession (tracking_queue s)" "0 < t" | "t = mSession (tracking_queue s)" "t = 0"
    | "t \<noteq> mSession (tracking_queue s)" by (metis word_gt_0)
  then show ?thesis
  proof cases
    case 1
    then show ?thesis using dict s' request_of_tracking [OF ok t] ok by (simp add: tracking_ok_def word_gt_0)
  next
    case 2
    then have "tracking_queue s' = tracking_queue s"
      using ok by (simp add: s' getRequestBySession_def queue_pop_def tracking_ok_def Let_def)
    then show ?thesis using 2 dict ok by (simp add: tracking_ok_def)
  next
    case 3
    then have "tracking_queue s' = tracking_queue s"
      by (simp add: s' getRequestBySession_def Let_def split_def)
    then show ?thesis using 3 dict ok by (simp add: tracking_ok_def)
  qed
qed

lemma orderly_tracking: "orderly s fl out \<Longrightarrow> tracking_ok s out"
proof (induction rule: orderly.induct)
  case Init
  then show ?case using sessions_ok_empty
    by (simp add: tracking_ok_def new_location_client_def new_queue_def) (simp add: hasSession_def bi_empty_def)
next
  case (Handled s fl a fl' out)
  then show ?case using handle_removes [of _ a s] by (auto simp: tracking_ok_def ok_handle)
qed (auto intro: tracking_step tracking_answer)

text \<open>
  C19. If the API answers the requests of a session in their order, hands out sessions that are neither
  in use nor owed an answer, and no network initiated request has the number of the tracking session as
  its id (these ids come from a counter of their own), then the next answer to the tracking session takes the request it answers
  out of the queues: the oldest one the API has not answered. The answers that have taken their request
  may be handled at any time between the calls of the client.\<close>

theorem tracking_answers_meet_requests:
  assumes "orderly s fl (xs @ (t, r) # ys)" "t \<notin> fst ` set xs" "t = mSession (tracking_queue s)" "0 < t"
  shows "fst (getRequestBySession t s) = Some r"
  using request_of_tracking [OF orderly_tracking [OF assms(1)] assms(2-4)] by blast

abbreviation "opts0 \<equiv> \<lparr>api_minDistance = 0, api_minInterval = 1000, api_mode = 0, api_rest = 0\<rparr>"

theorem tracking_answers_meet_requests_witness:
  "\<exists>s. client_run [SetCallbacks False False, StartTrackingOp 5 opts0, StopTrackingOp] new_location_client = Some s \<and>
     fst (getRequestBySession 5 s) = Some StartTrackingRequest"
proof -
  define s1 where "s1 = locAPISetCallbacks False False new_location_client"
  define s2 where "s2 = snd (locAPIStartTracking 5 opts0 s1)"
  define s3 where "s3 = locAPIStopTracking s2"
  have o1: "orderly s1 [] ([] @ asked new_location_client s1)"
    by (rule orderly.Op [OF Init, of "SetCallbacks False False"]) (simp_all add: s1_def)
  have a1: "asked new_location_client s1 = []"
    by (simp add: s1_def locAPISetCallbacks_def new_location_client_def asked_def api_def)
  have o2: "orderly s2 [] ([] @ asked s1 s2)"
    by (rule orderly.Op [OF o1 [unfolded a1 append_Nil], of "StartTrackingOp 5 opts0"])
      (simp_all add: s2_def s1_def new_location_client_def hasSession_def bi_empty_def)
  have a2: "asked s1 s2 = [(5, StartTrackingRequest)]"
    by (simp add: s2_def s1_def locAPIStartTracking_def locAPISetCallbacks_def new_location_client_def asked_def api_def)
  have o3: "orderly s3 [] ([(5, StartTrackingRequest)] @ asked s2 s3)"
    by (rule orderly.Op [OF o2 [unfolded a2 append_Nil], of StopTrackingOp]) (simp_all add: s3_def)
  have a3: "asked s2 s3 = [(5, StopTrackingRequest)]" and q: "mSession (tracking_queue s3) = 5"
    by (simp_all add: s3_def s2_def s1_def locAPIStopTracking_def locAPIStartTracking_def locAPISetCallbacks_def
        new_location_client_def asked_def api_def queue_push_def queue_reset_def push_tracking_def)
  have "fst (getRequestBySession 5 s3) = Some StartTrackingRequest"
    by (rule tracking_answers_meet_requests [of _ "[]" "[]" 5 _ "[(5, StopTrackingRequest)]"])
      (use o3 a3 q in simp_all)
  then show ?thesis by (simp add: s1_def s2_def s3_def)
qed

section \<open>Answers that go wrong\<close>

abbreviation "started_client es \<equiv> client_run (SetCallbacks True True # es) new_location_client"

text \<open>A network initiated request with the number of the tracking session as its id: the answer to it is
  taken for the answer to the start.\<close>

theorem ni_answer_taken_for_start:
  "case started_client [StartTrackingOp 5 opts0, NiResponseOp 5, Answer GENERAL_FAILURE 5] of
     None \<Rightarrow> False | Some s \<Rightarrow> last (client_calls s) = OnStartTracking GENERAL_FAILURE"
  by code_simp

text \<open>
  An answer handled in the middle of a call: session 5 is found under its id 1, then the answer to
  an earlier stop removes it, and the rest of the call enters the id again, without a session, and asks the API
  to stop session 0.\<close>

theorem removal_during_stop_enters_zero:
  "case started_client [StartSessionOp 5 1 2 opts0, Answer SUCCESS 5, StopSessionOp 1] of
     None \<Rightarrow> False
   | Some s \<Rightarrow> hasId 1 (mSessionBiDict s) \<and>
       (let s' = stop_found 1 (onResponseCb SUCCESS 5 s)
        in map_of (mForwardMap (mSessionBiDict s')) 1 = Some 0 \<and> \<not> hasSession 0 (mSessionBiDict s') \<and>
           last (api_calls s') = ApiStopBatching 0)"
  by code_simp

text \<open>
  All sessions share one queue and its oldest request is taken for whatever session the answer names.
  Session 5 is being stopped when session 6 starts; the answer to the start comes first, takes the
  stop request, and the session that has just started is removed from the dictionary.\<close>

theorem stop_request_removes_other_session:
  "case started_client [StartSessionOp 5 1 2 opts0, Answer SUCCESS 5, StopSessionOp 1, StartSessionOp 6 2 2 opts0, Answer SUCCESS 6] of
     None \<Rightarrow> False
   | Some s \<Rightarrow> last (client_calls s) = OnStopTracking SUCCESS \<and> \<not> hasId 2 (mSessionBiDict s) \<and> hasId 1 (mSessionBiDict s)"
  by code_simp

text \<open>
  A session stopped twice before the first answer: the second answer finds no session, its request
  stays in the queue and meets the answer to the next start.\<close>

theorem second_stop_leaves_request:
  "case started_client [StartSessionOp 5 1 2 opts0, Answer SUCCESS 5, StopSessionOp 1, StopSessionOp 1, Answer SUCCESS 5,
       Answer SUCCESS 5, StartSessionOp 6 2 2 opts0, Answer SUCCESS 6] of
     None \<Rightarrow> False
   | Some s \<Rightarrow> last (client_calls s) = OnStopTracking SUCCESS \<and> \<not> hasId 2 (mSessionBiDict s)"
  by code_simp

text \<open>A start of the tracking session that is refused leaves it marked as running: later starts
  succeed without asking the API.\<close>

theorem refused_tracking_blocks_start:
  "case started_client [StartTrackingOp 5 opts0, Answer GENERAL_FAILURE 5] of
     None \<Rightarrow> False | Some s \<Rightarrow> locAPIStartTracking 6 opts0 s = (SUCCESS, s)"
  by code_simp

text \<open>New options of a batching session are not handed on: distance and interval are 0.\<close>

theorem batching_update_drops_options:
  "case started_client [StartSessionOp 5 1 1 opts0, UpdateSessionOp 6 1 1 opts0] of
     None \<Rightarrow> False
   | Some s \<Rightarrow> last (api_calls s) =
       ApiUpdateBatching 5 \<lparr>batch_mode = BATCHING_MODE_ROUTINE, batch_minDistance = 0, batch_minInterval = 0, batch_supl = 0\<rparr>"
  by code_simp

text \<open>When all geofences are to be removed, the sessions are taken for ids: nothing is removed unless
  they happen to be equal.\<close>

theorem remove_all_removes_nothing:
  "case started_client [AddGeofencesOp (Some [100, 101]) [1, 2] [3, 3], RemoveAllOp] of
     None \<Rightarrow> False | Some s \<Rightarrow> last (api_calls s) = ApiAddGeofences (Some [100, 101]) 2 \<and> hasId 1 (mGeofenceBiDict s)"
  by code_simp

text \<open>An unknown id among those to be modified shifts the options: geofence 2 gets those of the
  unknown one.\<close>

theorem modify_shifts_options:
  "case started_client [AddGeofencesOp (Some [100, 101]) [1, 2] [3, 3], ModifyGeofencesOp [9, 2] [1, 2]] of
     None \<Rightarrow> False | Some s \<Rightarrow> last (api_calls s) = ApiModifyGeofences [101] [1]"
  by code_simp

end
