(* ===== verification/ControlClient.thy ===== *)
theory ControlClient
  imports LocationClient
begin

text \<open>
  \<open>LocationAPIControlClient\<close> in \<open>src/gps/location/LocationAPIClientBase.cpp\<close> and \<open>.h\<close>, with the comparison of
  configurations in \<open>src/gps/location/LocationDataTypes.h\<close>. The sessions and the arrays of sessions the
  control API returns are arguments; an array is known by its address. The name of the assistance server is
  its text, as if it stayed allocated as long as the configuration is kept.
\<close>

section \<open>Configurations\<close>

record assistance_server =
  as_type :: nat
  as_hostName :: "string option"
  as_port :: "32 word"

definition assistance_server_equals :: "assistance_server \<Rightarrow> assistance_server \<Rightarrow> bool" where
  "assistance_server_equals a c \<longleftrightarrow>
     as_type c = as_type a \<and> as_port c = as_port a \<and>
     (as_hostName c = None \<and> as_hostName a = None \<or>
      as_hostName c \<noteq> None \<and> as_hostName a \<noteq> None \<and> the (as_hostName c) = the (as_hostName a))"

record robust_location =
  rl_validMask :: nat
  rl_enabled :: bool
  rl_enabledForE911 :: bool
  rl_major :: "8 word"
  rl_minor :: "16 word"

definition robust_location_equals :: "robust_location \<Rightarrow> robust_location \<Rightarrow> bool" where
  "robust_location_equals a c \<longleftrightarrow>
     rl_validMask c = rl_validMask a \<and> rl_enabled c = rl_enabled a \<and> rl_enabledForE911 c = rl_enabledForE911 a \<and>
     rl_major c = rl_major a \<and> rl_minor c = rl_minor a"

record secondary_band =
  sb_size :: "32 word"
  sb_enabled :: "64 word"
  sb_blacklisted :: "64 word"

definition secondary_band_equals :: "secondary_band \<Rightarrow> secondary_band \<Rightarrow> bool" where
  "secondary_band_equals a c \<longleftrightarrow>
     sb_size c = sb_size a \<and> sb_enabled c = sb_enabled a \<and> sb_blacklisted c = sb_blacklisted a"

record gnss_config =
  cfg_size :: "32 word"
  cfg_flags :: "32 word"
  gpsLock :: nat
  suplVersion :: nat
  assistanceServer :: assistance_server
  lppProfileMask :: nat
  lppeControlPlaneMask :: nat
  lppeUserPlaneMask :: nat
  aGlonassPositionProtocolMask :: nat
  emergencyPdnForEmergencySupl :: nat
  suplEmergencyServices :: nat
  suplModeMask :: nat
  blacklistedSvIds :: "(nat \<times> 32 word) list"
  emergencyExtensionSeconds :: "32 word"
  robustLocationConfig :: robust_location
  minGpsWeek :: "16 word"
  minSvElevation :: "8 word"
  secondaryBandConfig :: secondary_band

definition gnss_config_equals :: "gnss_config \<Rightarrow> gnss_config \<Rightarrow> bool" where
  "gnss_config_equals a c \<longleftrightarrow>
     cfg_flags a = cfg_flags c \<and> gpsLock a = gpsLock c \<and> suplVersion a = suplVersion c \<and>
     assistance_server_equals (assistanceServer a) (assistanceServer c) \<and>
     lppProfileMask a = lppProfileMask c \<and> lppeControlPlaneMask a = lppeControlPlaneMask c \<and>
     lppeUserPlaneMask a = lppeUserPlaneMask c \<and>
     aGlonassPositionProtocolMask a = aGlonassPositionProtocolMask c \<and>
     emergencyPdnForEmergencySupl a = emergencyPdnForEmergencySupl c \<and>
     suplEmergencyServices a = suplEmergencyServices c \<and> suplModeMask a = suplModeMask c \<and>
     blacklistedSvIds a = blacklistedSvIds c \<and> emergencyExtensionSeconds a = emergencyExtensionSeconds c \<and>
     robust_location_equals (robustLocationConfig a) (robustLocationConfig c) \<and>
     minGpsWeek a = minGpsWeek c \<and> minSvElevation a = minSvElevation c \<and>
     secondary_band_equals (secondaryBandConfig a) (secondaryBandConfig c)"

definition zero_config :: gnss_config where
  "zero_config =
     \<lparr>cfg_size = 0, cfg_flags = 0, gpsLock = 0, suplVersion = 0,
      assistanceServer = \<lparr>as_type = 0, as_hostName = None, as_port = 0\<rparr>, lppProfileMask = 0,
      lppeControlPlaneMask = 0, lppeUserPlaneMask = 0, aGlonassPositionProtocolMask = 0,
      emergencyPdnForEmergencySupl = 0, suplEmergencyServices = 0, suplModeMask = 0, blacklistedSvIds = [],
      emergencyExtensionSeconds = 0,
      robustLocationConfig = \<lparr>rl_validMask = 0, rl_enabled = False, rl_enabledForE911 = False, rl_major = 0, rl_minor = 0\<rparr>,
      minGpsWeek = 0, minSvElevation = 0,
      secondaryBandConfig = \<lparr>sb_size = 0, sb_enabled = 0, sb_blacklisted = 0\<rparr>\<rparr>"

section \<open>The client\<close>

datatype ctrl_request =
    GnssDeleteAidingDataRequest | EnableRequest | DisableRequest | GnssUpdateConfigRequest | GnssGetConfigRequest

datatype ctrl_call =
    CtrlDeleteAidingData "32 word"
  | CtrlEnable "32 word"
  | CtrlDisable "32 word"
  | CtrlUpdateConfig gnss_config ptr
  | CtrlGetConfig "32 word" ptr
  | CtrlDestroy

datatype ctrl_answer =
    OnDeleteAidingData loc_error
  | OnEnable loc_error
  | OnDisable loc_error
  | OnUpdateConfig "loc_error list"
  | OnGetConfig "loc_error list"

record control_client =
  mLocationControlAPI :: bool
  deleteaidingdata_queue :: "ctrl_request request_queue"
  control_queue :: "ctrl_request request_queue"
  config_update_queue :: "ctrl_request request_queue"
  config_get_queue :: "ctrl_request request_queue"
  mEnabled :: bool
  mConfig :: gnss_config
  ctrl_calls :: "ctrl_call list"
  ctrl_answers :: "ctrl_answer list"

text \<open>\<open>created\<close> is whether \<open>createInstance\<close> succeeds.\<close>

definition new_control_client :: "bool \<Rightarrow> control_client" where
  "new_control_client created =
     \<lparr>mLocationControlAPI = created, deleteaidingdata_queue = new_queue, control_queue = new_queue,
      config_update_queue = new_queue, config_get_queue = new_queue, mEnabled = False, mConfig = zero_config,
      ctrl_calls = [], ctrl_answers = []\<rparr>"

definition ctrl :: "ctrl_call \<Rightarrow> control_client \<Rightarrow> control_client" where
  "ctrl x s = s\<lparr>ctrl_calls := ctrl_calls s @ [x]\<rparr>"

definition ctrl_tell :: "ctrl_answer \<Rightarrow> control_client \<Rightarrow> control_client" where
  "ctrl_tell x s = s\<lparr>ctrl_answers := ctrl_answers s @ [x]\<rparr>"

definition delete_control_client :: "control_client \<Rightarrow> control_client" where
  "delete_control_client s =
     (let s1 = (if mLocationControlAPI s then (ctrl CtrlDestroy s)\<lparr>mLocationControlAPI := False\<rparr> else s)
      in s1\<lparr>deleteaidingdata_queue := queue_reset 0 (deleteaidingdata_queue s1),
           control_queue := queue_reset 0 (control_queue s1),
           config_update_queue := queue_reset 0 (config_update_queue s1),
           config_get_queue := queue_reset 0 (config_get_queue s1)\<rparr>)"

definition locAPIGnssDeleteAidingData :: "32 word \<Rightarrow> control_client \<Rightarrow> loc_error \<times> control_client" where
  "locAPIGnssDeleteAidingData session s =
     (if mLocationControlAPI s
      then (let s1 = ctrl (CtrlDeleteAidingData session) s
            in (SUCCESS, s1\<lparr>deleteaidingdata_queue :=
                  queue_push GnssDeleteAidingDataRequest (queue_reset session (deleteaidingdata_queue s1))\<rparr>))
      else (GENERAL_FAILURE, s))"

definition locAPIEnable :: "32 word \<Rightarrow> control_client \<Rightarrow> loc_error \<times> control_client" where
  "locAPIEnable session s =
     (if mEnabled s then (SUCCESS, s)
      else if mLocationControlAPI s
      then (let s1 = ctrl (CtrlEnable session) s
            in (SUCCESS, s1\<lparr>control_queue := queue_push EnableRequest (queue_reset session (control_queue s1)),
                  mEnabled := True\<rparr>))
      else (GENERAL_FAILURE, s))"

definition locAPIDisable :: "control_client \<Rightarrow> control_client" where
  "locAPIDisable s =
     (if mEnabled s \<and> mLocationControlAPI s \<and> 0 < mSession (control_queue s)
      then ctrl (CtrlDisable (mSession (control_queue s)))
             (s\<lparr>control_queue := queue_push DisableRequest (control_queue s), mEnabled := False\<rparr>)
      else s)"

text \<open>The queue takes over the array only if it has one.\<close>

definition queue_config :: "ptr \<Rightarrow> ctrl_request \<Rightarrow> ctrl_request request_queue \<Rightarrow> ctrl_request request_queue" where
  "queue_config idArray r q =
     queue_push r (if mSessionArrayPtr q \<noteq> None then queue_reset_array idArray q else q)"

definition locAPIGnssUpdateConfig :: "ptr \<Rightarrow> gnss_config \<Rightarrow> control_client \<Rightarrow> loc_error \<times> control_client" where
  "locAPIGnssUpdateConfig idArray config s =
     (if \<not> mLocationControlAPI s then (GENERAL_FAILURE, s)
      else if gnss_config_equals (mConfig s) config then (SUCCESS, s)
      else
        (let s1 = ctrl (CtrlUpdateConfig config idArray) (s\<lparr>mConfig := config\<rparr>)
         in if idArray \<noteq> None
            then (SUCCESS, s1\<lparr>config_update_queue := queue_config idArray GnssUpdateConfigRequest (config_update_queue s1)\<rparr>)
            else (GENERAL_FAILURE, s1)))"

definition locAPIGnssGetConfig :: "ptr \<Rightarrow> 32 word \<Rightarrow> control_client \<Rightarrow> loc_error \<times> control_client" where
  "locAPIGnssGetConfig idArray flags s =
     (if \<not> mLocationControlAPI s then (GENERAL_FAILURE, s)
      else
        (let s1 = ctrl (CtrlGetConfig flags idArray) s
         in if idArray \<noteq> None
            then (SUCCESS, s1\<lparr>config_get_queue := queue_config idArray GnssGetConfigRequest (config_get_queue s1)\<rparr>)
            else (GENERAL_FAILURE, s1)))"

definition ctrl_getRequestBySession :: "32 word \<Rightarrow> control_client \<Rightarrow> ctrl_request option \<times> control_client" where
  "ctrl_getRequestBySession session s =
     (if mSession (deleteaidingdata_queue s) = session
      then (let (r, q) = queue_pop (deleteaidingdata_queue s) in (r, s\<lparr>deleteaidingdata_queue := q\<rparr>))
      else if mSession (control_queue s) = session
      then (let (r, q) = queue_pop (control_queue s) in (r, s\<lparr>control_queue := q\<rparr>))
      else (None, s))"

definition getRequestBySessionArrayPtr :: "ptr \<Rightarrow> control_client \<Rightarrow> ctrl_request option \<times> control_client" where
  "getRequestBySessionArrayPtr p s =
     (if mSessionArrayPtr (config_update_queue s) = p
      then (let (r, q) = queue_pop (config_update_queue s) in (r, s\<lparr>config_update_queue := q\<rparr>))
      else if mSessionArrayPtr (config_get_queue s) = p
      then (let (r, q) = queue_pop (config_get_queue s) in (r, s\<lparr>config_get_queue := q\<rparr>))
      else (None, s))"

fun ctrl_onResponse :: "ctrl_request \<Rightarrow> loc_error \<Rightarrow> control_client \<Rightarrow> control_client" where
  "ctrl_onResponse GnssDeleteAidingDataRequest err s = ctrl_tell (OnDeleteAidingData err) s"
| "ctrl_onResponse EnableRequest err s = ctrl_tell (OnEnable err) s"
| "ctrl_onResponse DisableRequest err s = ctrl_tell (OnDisable err) s"
| "ctrl_onResponse _ err s = s"

fun ctrl_onCollectiveResponse :: "ctrl_request \<Rightarrow> loc_error list \<Rightarrow> control_client \<Rightarrow> control_client" where
  "ctrl_onCollectiveResponse GnssUpdateConfigRequest errors s = ctrl_tell (OnUpdateConfig errors) s"
| "ctrl_onCollectiveResponse GnssGetConfigRequest errors s = ctrl_tell (OnGetConfig errors) s"
| "ctrl_onCollectiveResponse _ errors s = s"

definition onCtrlResponseCb :: "loc_error \<Rightarrow> 32 word \<Rightarrow> control_client \<Rightarrow> control_client" where
  "onCtrlResponseCb err i s =
     (case ctrl_getRequestBySession i s of (None, s1) \<Rightarrow> s1 | (Some r, s1) \<Rightarrow> ctrl_onResponse r err s1)"

definition onCtrlCollectiveResponseCb :: "loc_error list \<Rightarrow> ptr \<Rightarrow> control_client \<Rightarrow> control_client" where
  "onCtrlCollectiveResponseCb errors ids s =
     (case getRequestBySessionArrayPtr ids s of
        (None, s1) \<Rightarrow> s1 | (Some r, s1) \<Rightarrow> ctrl_onCollectiveResponse r errors s1)"

section \<open>Comparing configurations\<close>

text \<open>Everything but the size is compared.\<close>

theorem config_equals_iff:
  "gnss_config_equals a c \<longleftrightarrow> a\<lparr>cfg_size := 0\<rparr> = c\<lparr>cfg_size := 0\<rparr>"
proof -
  have "assistance_server_equals x y \<longleftrightarrow> x = y" for x y
    by (cases x; cases y) (auto simp: assistance_server_equals_def)
  moreover have "robust_location_equals x y \<longleftrightarrow> x = y" for x y
    by (cases x; cases y) (auto simp: robust_location_equals_def)
  moreover have "secondary_band_equals x y \<longleftrightarrow> x = y" for x y
    by (cases x; cases y) (auto simp: secondary_band_equals_def)
  ultimately show ?thesis by (cases a; cases c) (auto simp: gnss_config_equals_def)
qed

section \<open>Answers to configuration commands\<close>

datatype ctrl_event =
    DeleteAidingData "32 word"
  | EnableOp "32 word"
  | DisableOp
  | UpdateConfig ptr gnss_config
  | GetConfig ptr "32 word"
  | CtrlResponse loc_error "32 word"
  | CtrlCollective "loc_error list" ptr

fun ctrl_step :: "ctrl_event \<Rightarrow> control_client \<Rightarrow> control_client" where
  "ctrl_step (DeleteAidingData t) s = snd (locAPIGnssDeleteAidingData t s)"
| "ctrl_step (EnableOp t) s = snd (locAPIEnable t s)"
| "ctrl_step DisableOp s = locAPIDisable s"
| "ctrl_step (UpdateConfig p c) s = snd (locAPIGnssUpdateConfig p c s)"
| "ctrl_step (GetConfig p m) s = snd (locAPIGnssGetConfig p m s)"
| "ctrl_step (CtrlResponse err t) s = onCtrlResponseCb err t s"
| "ctrl_step (CtrlCollective errs p) s = onCtrlCollectiveResponseCb errs p s"

definition ctrl_run :: "ctrl_event list \<Rightarrow> control_client \<Rightarrow> control_client" where
  "ctrl_run es s = foldl (\<lambda>s e. ctrl_step e s) s es"

definition no_arrays :: "control_client \<Rightarrow> bool" where
  "no_arrays s \<longleftrightarrow> mSessionArrayPtr (config_update_queue s) = None \<and> mSessionArrayPtr (config_get_queue s) = None"

fun config_answer :: "ctrl_answer \<Rightarrow> bool" where
  "config_answer (OnUpdateConfig _) \<longleftrightarrow> True"
| "config_answer (OnGetConfig _) \<longleftrightarrow> True"
| "config_answer _ \<longleftrightarrow> False"

lemma ctrl_onResponse_frame [simp]:
  "config_update_queue (ctrl_onResponse r err s) = config_update_queue s"
  "config_get_queue (ctrl_onResponse r err s) = config_get_queue s"
  "filter config_answer (ctrl_answers (ctrl_onResponse r err s)) = filter config_answer (ctrl_answers s)"
  by (cases r; simp add: ctrl_tell_def)+

lemma ctrl_step_arrays:
  assumes "no_arrays s" "\<forall>errs. e \<noteq> CtrlCollective errs None"
  shows "no_arrays (ctrl_step e s) \<and>
    filter config_answer (ctrl_answers (ctrl_step e s)) = filter config_answer (ctrl_answers s)"
  using assms
  by (cases e)
    (auto simp: no_arrays_def locAPIGnssDeleteAidingData_def locAPIEnable_def locAPIDisable_def locAPIGnssUpdateConfig_def
      locAPIGnssGetConfig_def onCtrlResponseCb_def onCtrlCollectiveResponseCb_def ctrl_getRequestBySession_def
      getRequestBySessionArrayPtr_def queue_config_def queue_push_def ctrl_def Let_def split: prod.split option.split)

text \<open>
  C40. No answer to a configuration command ever reaches the client: the array an answer is known by is
  only entered into the queue if the queue has one already, which it never has.\<close>

theorem config_answers_never_delivered:
  assumes "\<forall>errs. CtrlCollective errs None \<notin> set es"
  shows "filter config_answer (ctrl_answers (ctrl_run es (new_control_client created))) = []"
proof -
  have "no_arrays (ctrl_run es s) \<and> filter config_answer (ctrl_answers (ctrl_run es s)) = filter config_answer (ctrl_answers s)"
    if "no_arrays s" for s
    using that assms
  proof (induction es arbitrary: s)
    case (Cons e es)
    then have "no_arrays (ctrl_step e s)" "filter config_answer (ctrl_answers (ctrl_step e s)) = filter config_answer (ctrl_answers s)"
      using ctrl_step_arrays [of s e] by force+
    then show ?case using Cons by (simp add: ctrl_run_def)
  qed (simp add: ctrl_run_def)
  then show ?thesis by (simp add: no_arrays_def new_control_client_def new_queue_def)
qed

theorem config_answers_never_delivered_witness:
  "filter config_answer (ctrl_answers (ctrl_run [GetConfig (Some 64) 1, CtrlCollective [SUCCESS] (Some 64)]
     (new_control_client True))) = []"
  by (rule config_answers_never_delivered) simp

text \<open>A refused enable leaves the client enabled: the next one succeeds without asking.\<close>

theorem refused_enable_stays_enabled:
  "locAPIEnable 2 (ctrl_run [EnableOp 1, CtrlResponse ALREADY_STARTED 1] (new_control_client True)) =
     (SUCCESS, ctrl_run [EnableOp 1, CtrlResponse ALREADY_STARTED 1] (new_control_client True))"
  by (simp add: ctrl_run_def locAPIEnable_def new_control_client_def ctrl_def onCtrlResponseCb_def
      ctrl_getRequestBySession_def queue_push_def queue_reset_def new_queue_def queue_pop_def ctrl_tell_def)

end
