(* ===== verification/PerfNode.thy ===== *)
theory PerfNode
  imports Prelude
begin

text \<open>
  The sysfs and property nodes of \<open>power-libperfmgr/libperfmgr\<close>: \<open>RequestGroup.cc\<close>,
  \<open>Node.cc\<close>, \<open>FileNode.cc\<close>, \<open>PropertyNode.cc\<close> and \<open>NodeLooperThread.cc\<close>.
  Times are nanoseconds of the steady clock, durations milliseconds, both 64-bit in the
  code. An operation that reads the clock takes the time as an argument; it is taken to
  stand still during one call. What the kernel answers to a write is an argument too.
  A \<open>std::map\<close> of requests is an association list with distinct keys, its order immaterial.
\<close>

definition TIME_MAX :: int where "TIME_MAX = 2 ^ 63 - 1"
definition MS_MAX :: int where "MS_MAX = 2 ^ 63 - 1"

definition to_ms :: "int \<Rightarrow> int" where
  "to_ms ns = ns sdiv 1000000"

section \<open>Request groups\<close>

record request_group =
  request_value :: string
  request_map :: "(string \<times> int) list"

definition erase_key :: "string \<Rightarrow> (string \<times> int) list \<Rightarrow> (string \<times> int) list" where
  "erase_key k m = filter (\<lambda>(k', _). k' \<noteq> k) m"

definition group_AddRequest :: "string \<Rightarrow> int \<Rightarrow> request_group \<Rightarrow> bool \<times> request_group" where
  "group_AddRequest hint_type end_time g =
     (case map_of (request_map g) hint_type of
        None \<Rightarrow> (True, g\<lparr>request_map := request_map g @ [(hint_type, end_time)]\<rparr>)
      | Some t \<Rightarrow>
          (False, if t < end_time
             then g\<lparr>request_map := map (\<lambda>(k, t'). (k, if k = hint_type then end_time else t')) (request_map g)\<rparr>
             else g))"

definition group_RemoveRequest :: "string \<Rightarrow> request_group \<Rightarrow> bool \<times> request_group" where
  "group_RemoveRequest hint_type g =
     (map_of (request_map g) hint_type \<noteq> None, g\<lparr>request_map := erase_key hint_type (request_map g)\<rparr>)"

text \<open>The loop of \<open>GetExpireTime\<close>: the active flag, the nearest expiration and what is
  left of the map.\<close>

fun expire_time_loop :: "int \<Rightarrow> (string \<times> int) list \<Rightarrow> bool \<Rightarrow> int \<Rightarrow> bool \<times> int \<times> (string \<times> int) list" where
  "expire_time_loop now [] active expire = (active, expire, [])"
| "expire_time_loop now ((k, t) # m) active expire =
     (let duration = to_ms (t - now) in
      if duration \<le> 0 then expire_time_loop now m active expire
      else case expire_time_loop now m True (min duration expire) of
             (a, e, m') \<Rightarrow> (a, e, (k, t) # m'))"

definition GetExpireTime :: "int \<Rightarrow> request_group \<Rightarrow> bool \<times> int \<times> request_group" where
  "GetExpireTime now g =
     (case expire_time_loop now (request_map g) False MS_MAX of
        (active, expire, m) \<Rightarrow> (active, expire, g\<lparr>request_map := m\<rparr>))"

section \<open>Nodes\<close>

datatype node_kind = FileNode bool | PropertyNode

record node =
  name :: string
  node_path :: string
  req_sorted :: "request_group list"
  default_val_index :: nat
  reset_on_init :: bool
  current_val_index :: nat
  kind :: node_kind
  fd_open :: bool

definition new_node :: "string \<Rightarrow> string \<Rightarrow> request_group list \<Rightarrow> nat \<Rightarrow> bool \<Rightarrow> node_kind \<Rightarrow> node" where
  "new_node nm path reqs dflt reset k =
     \<lparr>name = nm, node_path = path, req_sorted = reqs, default_val_index = dflt,
      reset_on_init = reset, current_val_index = dflt, kind = k, fd_open = False\<rparr>"

definition node_AddRequest :: "nat \<Rightarrow> string \<Rightarrow> int \<Rightarrow> node \<Rightarrow> bool \<times> node" where
  "node_AddRequest value_index hint_type end_time n =
     (if value_index \<ge> length (req_sorted n) then (False, n)
      else (True, n\<lparr>req_sorted := (req_sorted n)[value_index :=
              snd (group_AddRequest hint_type end_time (req_sorted n ! value_index))]\<rparr>))"

definition node_RemoveRequest :: "string \<Rightarrow> node \<Rightarrow> bool \<times> node" where
  "node_RemoveRequest hint_type n =
     (let rs = map (group_RemoveRequest hint_type) (req_sorted n)
      in (list_ex fst rs, n\<lparr>req_sorted := map snd rs\<rparr>))"

definition GetValueIndex :: "string \<Rightarrow> node \<Rightarrow> nat option" where
  "GetValueIndex value n =
     (let i = length (takeWhile (\<lambda>g. request_value g \<noteq> value) (req_sorted n))
      in if i < length (req_sorted n) then Some i else None)"

definition GetValues :: "node \<Rightarrow> string list" where
  "GetValues n = map request_value (req_sorted n)"

text \<open>The search of \<open>Update\<close> for the first group with an active request: its index,
  the expiration time, and the groups, those before and at the index purged.\<close>

fun find_active :: "int \<Rightarrow> request_group list \<Rightarrow> nat option \<times> int \<times> request_group list" where
  "find_active now [] = (None, MS_MAX, [])"
| "find_active now (g # gs) =
     (case GetExpireTime now g of (active, expire, g') \<Rightarrow>
        if active then (Some 0, expire, g' # gs)
        else case find_active now gs of (i, e, gs') \<Rightarrow> (map_option Suc i, e, g' # gs'))"

text \<open>What the kernel answers to \<open>open\<close> and \<open>write\<close>, or to setting the property.\<close>

datatype io_result = OpenFails | WriteFails | Written

text \<open>Both kinds of node look for the value first and write it only when it differs from the
  current one or the node is to be reset; they differ in the write.\<close>

definition FileNode_Update :: "bool \<Rightarrow> int \<Rightarrow> io_result \<Rightarrow> node \<Rightarrow> int \<times> node" where
  "FileNode_Update hold_fd now io n =
     (case find_active now (req_sorted n) of (found, expire, gs) \<Rightarrow>
        let value_index = (case found of Some i \<Rightarrow> i | None \<Rightarrow> default_val_index n);
            n1 = n\<lparr>req_sorted := gs\<rparr>
        in if value_index \<noteq> current_val_index n1 \<or> reset_on_init n1
           then (case io of
                   OpenFails \<Rightarrow> (min expire 500, n1\<lparr>fd_open := False\<rparr>)
                 | WriteFails \<Rightarrow> (min expire 500, n1\<lparr>fd_open := True\<rparr>)
                 | Written \<Rightarrow>
                     (expire, n1\<lparr>fd_open := (hold_fd \<and> value_index \<noteq> default_val_index n1),
                        current_val_index := value_index, reset_on_init := False\<rparr>))
           else (expire, n1))"

definition PropertyNode_Update :: "int \<Rightarrow> io_result \<Rightarrow> node \<Rightarrow> int \<times> node" where
  "PropertyNode_Update now io n =
     (case find_active now (req_sorted n) of (found, expire, gs) \<Rightarrow>
        let value_index = (case found of Some i \<Rightarrow> i | None \<Rightarrow> default_val_index n);
            n1 = n\<lparr>req_sorted := gs\<rparr>
        in if value_index \<noteq> current_val_index n1 \<or> reset_on_init n1
           then (if io = Written
                 then (expire, n1\<lparr>current_val_index := value_index, reset_on_init := False\<rparr>)
                 else (expire, n1))
           else (expire, n1))"

definition Update :: "int \<Rightarrow> io_result \<Rightarrow> node \<Rightarrow> int \<times> node" where
  "Update now io n =
     (case kind n of
        FileNode hold_fd \<Rightarrow> FileNode_Update hold_fd now io n
      | PropertyNode \<Rightarrow> PropertyNode_Update now io n)"

lemmas Update_defs = Update_def FileNode_Update_def PropertyNode_Update_def

section \<open>The looper thread\<close>

record node_action =
  node_index :: nat
  value_index :: nat
  timeout_ms :: int

record looper =
  nodes :: "node list"
  exit_pending :: bool

definition request_end_time :: "int \<Rightarrow> int \<Rightarrow> int" where
  "request_end_time now timeout =
     (if timeout \<noteq> 0 \<and> to_ms (TIME_MAX - now) > timeout then now + timeout * 1000000 else TIME_MAX)"

fun request_loop :: "int \<Rightarrow> string \<Rightarrow> node_action list \<Rightarrow> bool \<Rightarrow> node list \<Rightarrow> bool \<times> node list" where
  "request_loop now h [] ret ns = (ret, ns)"
| "request_loop now h (a # as) ret ns =
     (if node_index a \<ge> length ns then request_loop now h as False ns
      else case node_AddRequest (value_index a) h (request_end_time now (timeout_ms a)) (ns ! node_index a) of
             (ok, n') \<Rightarrow> request_loop now h as (ok \<and> ret) (ns[node_index a := n']))"

definition Request :: "int \<Rightarrow> node_action list \<Rightarrow> string \<Rightarrow> looper \<Rightarrow> bool \<times> looper" where
  "Request now actions hint_type l =
     (if exit_pending l then (False, l)
      else case request_loop now hint_type actions True (nodes l) of (ret, ns) \<Rightarrow> (ret, l\<lparr>nodes := ns\<rparr>))"

fun cancel_loop :: "string \<Rightarrow> node_action list \<Rightarrow> bool \<Rightarrow> node list \<Rightarrow> bool \<times> node list" where
  "cancel_loop h [] ret ns = (ret, ns)"
| "cancel_loop h (a # as) ret ns =
     (if node_index a \<ge> length ns then cancel_loop h as False ns
      else cancel_loop h as ret (ns[node_index a := snd (node_RemoveRequest h (ns ! node_index a))]))"

definition Cancel :: "node_action list \<Rightarrow> string \<Rightarrow> looper \<Rightarrow> bool \<times> looper" where
  "Cancel actions hint_type l =
     (if exit_pending l then (False, l)
      else case cancel_loop hint_type actions True (nodes l) of (ret, ns) \<Rightarrow> (ret, l\<lparr>nodes := ns\<rparr>))"

fun first_pass :: "int \<Rightarrow> io_result list \<Rightarrow> node list \<Rightarrow> node list" where
  "first_pass now ios [] = []"
| "first_pass now [] ns = ns"
| "first_pass now (io # ios) (n # ns) = snd (Update now io n) # first_pass now ios ns"

fun second_pass :: "int \<Rightarrow> io_result list \<Rightarrow> node list \<Rightarrow> int \<Rightarrow> int \<times> node list" where
  "second_pass now ios [] t = (t, [])"
| "second_pass now [] ns t = (t, ns)"
| "second_pass now (io # ios) (n # ns) t =
     (case Update now io n of (e, n') \<Rightarrow>
        case second_pass now ios ns (min e t) of (t', ns') \<Rightarrow> (t', n' # ns'))"

text \<open>One round of \<open>threadLoop\<close>; \<open>ios1\<close> and \<open>ios2\<close> are the answers of the kernel in
  the two passes, one per node. The result is how long the thread then waits, in nanoseconds.\<close>

definition threadLoop :: "int \<Rightarrow> io_result list \<Rightarrow> io_result list \<Rightarrow> looper \<Rightarrow> int \<times> looper" where
  "threadLoop now ios1 ios2 l =
     (case second_pass now ios2 (first_pass now ios1 (nodes l)) MS_MAX of (timeout, ns) \<Rightarrow>
        (if timeout < (2 ^ 63 - 1) div 1000 div 1000 then timeout * 1000 * 1000 else 2 ^ 63 - 1,
         l\<lparr>nodes := ns\<rparr>))"

definition requestExit :: "looper \<Rightarrow> looper" where
  "requestExit l = l\<lparr>exit_pending := True\<rparr>"

section \<open>What an update computes\<close>

text \<open>A request counts as active while at least a full millisecond is left of it.\<close>

definition live :: "int \<Rightarrow> int \<Rightarrow> bool" where
  "live now t \<longleftrightarrow> t - now \<ge> 1000000"

definition group_live :: "int \<Rightarrow> request_group \<Rightarrow> bool" where
  "group_live now g \<longleftrightarrow> (\<exists>r\<in>set (request_map g). live now (snd r))"

text \<open>The specification: the first value with a live request, or the default.\<close>

fun first_live :: "int \<Rightarrow> request_group list \<Rightarrow> nat option" where
  "first_live now [] = None"
| "first_live now (g # gs) = (if group_live now g then Some 0 else map_option Suc (first_live now gs))"

definition selected :: "int \<Rightarrow> node \<Rightarrow> nat" where
  "selected now n = (case first_live now (req_sorted n) of Some i \<Rightarrow> i | None \<Rightarrow> default_val_index n)"

lemma to_ms_pos_iff: "to_ms d \<le> 0 \<longleftrightarrow> d < 1000000"
  using sdiv_le_zero_iff [of 1000000 d] by (simp add: to_ms_def)

lemma to_ms_nonneg: "0 \<le> d \<Longrightarrow> to_ms d = d div 1000000"
  by (simp add: to_ms_def sdiv_nonneg)

lemma to_ms_le: "0 \<le> d \<Longrightarrow> to_ms d * 1000000 \<le> d"
  by (simp add: to_ms_nonneg)

lemma Min_insert_min:
  "finite A \<Longrightarrow> Min (insert (min a b) A) = Min (insert b (insert a (A :: int set)))"
  by (cases "A = {}") (auto simp: min.commute min.left_commute)

lemma expire_time_loop_spec:
  "expire_time_loop now m active e =
     (active \<or> (\<exists>r\<in>set m. live now (snd r)),
      Min (insert e (set (map (\<lambda>r. to_ms (snd r - now)) (filter (\<lambda>r. live now (snd r)) m)))),
      filter (\<lambda>r. live now (snd r)) m)"
  by (induction m arbitrary: active e)
    (auto simp: live_def to_ms_pos_iff not_less Let_def Min_insert_min insert_commute)

definition purge :: "int \<Rightarrow> request_group \<Rightarrow> request_group" where
  "purge now g = g\<lparr>request_map := filter (\<lambda>r. live now (snd r)) (request_map g)\<rparr>"

definition group_expire :: "int \<Rightarrow> request_group \<Rightarrow> int" where
  "group_expire now g = Min (insert MS_MAX (set (map (\<lambda>r. to_ms (snd r - now))
     (filter (\<lambda>r. live now (snd r)) (request_map g)))))"

lemma GetExpireTime_spec: "GetExpireTime now g = (group_live now g, group_expire now g, purge now g)"
  by (simp add: GetExpireTime_def expire_time_loop_spec group_live_def group_expire_def purge_def)

lemma purge_map: "request_map (purge now g) = filter (\<lambda>r. live now (snd r)) (request_map g)"
  by (simp add: purge_def)

lemma group_live_purge [simp]: "group_live now (purge now g) = group_live now g"
  unfolding group_live_def purge_map set_filter by blast

lemma live_mono: "live t' x \<Longrightarrow> t \<le> t' \<Longrightarrow> live t x"
  by (simp add: live_def)

lemma group_live_mono: "group_live t' g \<Longrightarrow> t \<le> t' \<Longrightarrow> group_live t g"
  using live_mono unfolding group_live_def by blast

lemma group_live_purge_later: "now \<le> t \<Longrightarrow> group_live t (purge now g) = group_live t g"
  using live_mono [of t _ now] unfolding group_live_def purge_map set_filter by blast

text \<open>The expiration time of the group that is selected.\<close>

definition expire_of :: "int \<Rightarrow> request_group list \<Rightarrow> int" where
  "expire_of now gs = (case first_live now gs of Some i \<Rightarrow> group_expire now (gs ! i) | None \<Rightarrow> MS_MAX)"

lemma group_expire_idle: "\<not> group_live now g \<Longrightarrow> group_expire now g = MS_MAX"
  by (auto simp: group_live_def group_expire_def)

lemma find_active_spec:
  "\<exists>gs'. find_active now gs = (first_live now gs, expire_of now gs, gs') \<and> length gs' = length gs \<and>
     (\<forall>i<length gs. gs' ! i = gs ! i \<or> gs' ! i = purge now (gs ! i))"
proof (induction gs)
  case (Cons g gs)
  then obtain gs' where IH: "find_active now gs = (first_live now gs, expire_of now gs, gs')"
    "length gs' = length gs" "\<forall>i<length gs. gs' ! i = gs ! i \<or> gs' ! i = purge now (gs ! i)" by blast
  show ?case
  proof (cases "group_live now g")
    case True
    then show ?thesis by (auto simp: GetExpireTime_spec expire_of_def nth_Cons split: nat.split)
  next
    case False
    then have "expire_of now (g # gs) = expire_of now gs"
      by (simp add: expire_of_def split: option.split)
    with False IH show ?thesis
      by (auto simp: GetExpireTime_spec nth_Cons split: nat.split)
  qed
qed (simp add: expire_of_def)

lemma first_live_cong:
  "list_all2 (\<lambda>g' g. group_live t g' = group_live t g) gs' gs \<Longrightarrow> first_live t gs' = first_live t gs"
  by (induction rule: list_all2_induct) simp_all

lemma find_active_later:
  assumes "find_active now gs = (i, e, gs')" "now \<le> t"
  shows "first_live t gs' = first_live t gs"
proof -
  have "list_all2 (\<lambda>g' g. group_live t g' = group_live t g) gs' gs"
    using find_active_spec [of now gs] assms group_live_purge_later
    by (fastforce simp: list_all2_conv_all_nth)
  then show ?thesis by (rule first_live_cong)
qed

lemma Update_cases:
  fixes n :: node
  assumes "Update now io n = (e, n')"
  shows "find_active now (req_sorted n) = (first_live now (req_sorted n), expire_of now (req_sorted n), req_sorted n')"
    "default_val_index n' = default_val_index n" "kind n' = kind n" "name n' = name n"
    "length (req_sorted n') = length (req_sorted n)"
    "current_val_index n' = (if io = Written then selected now n else current_val_index n) \<or>
       (current_val_index n' = selected now n \<and> current_val_index n' = current_val_index n)"
    "reset_on_init n' \<longrightarrow> reset_on_init n"
    "io = Written \<longrightarrow> current_val_index n' = selected now n \<and> \<not> reset_on_init n'"
    "selected now n = current_val_index n \<longrightarrow> \<not> reset_on_init n \<longrightarrow>
       n' = n\<lparr>req_sorted := req_sorted n'\<rparr> \<and> e = expire_of now (req_sorted n)"
    "io = Written \<longrightarrow> e = expire_of now (req_sorted n)"
    "e \<le> expire_of now (req_sorted n)"
    "e = (if (\<exists>hold. kind n = FileNode hold) \<and> io \<noteq> Written \<and> (selected now n \<noteq> current_val_index n \<or> reset_on_init n)
          then min (expire_of now (req_sorted n)) 500 else expire_of now (req_sorted n))"
    "io \<noteq> Written \<longrightarrow> reset_on_init n' = reset_on_init n"
  using assms find_active_spec [of now "req_sorted n"]
  by (auto simp: Update_defs selected_def Let_def split: option.splits if_splits node_kind.splits io_result.splits)

lemma selected_later:
  assumes "Update now io n = (e, n')" "now \<le> t"
  shows "selected t n' = selected t n"
  using find_active_later [OF Update_cases(1) [OF assms(1)] assms(2)] Update_cases(2) [OF assms(1)]
  by (simp add: selected_def split: option.split)

lemma first_live_SomeD:
  "first_live now gs = Some i \<Longrightarrow> i < length gs \<and> group_live now (gs ! i) \<and> (\<forall>j<i. \<not> group_live now (gs ! j))"
proof (induction gs arbitrary: i)
  case (Cons g gs)
  then show ?case by (cases i) (auto simp: nth_Cons split: if_splits nat.splits)
qed simp

lemma first_live_None: "first_live now gs = None \<longleftrightarrow> (\<forall>g\<in>set gs. \<not> group_live now g)"
  by (induction gs) auto

lemma first_liveI:
  "i < length gs \<Longrightarrow> group_live now (gs ! i) \<Longrightarrow> (\<forall>j<i. \<not> group_live now (gs ! j)) \<Longrightarrow> first_live now gs = Some i"
proof (induction gs arbitrary: i)
  case (Cons g gs)
  show ?case
  proof (cases i)
    case 0
    with Cons.prems show ?thesis by simp
  next
    case (Suc k)
    with Cons.prems have "\<forall>j<k. \<not> group_live now (gs ! j)" "\<not> group_live now g" by fastforce+
    with Cons Suc show ?thesis by simp
  qed
qed simp

text \<open>While less than the reported expiration time, but for its last millisecond, has
  passed, the selection does not change.\<close>

lemma first_live_stable:
  assumes "now \<le> t" "t + 1000000 \<le> now + expire_of now gs * 1000000"
  shows "first_live t gs = first_live now gs"
proof (cases "first_live now gs")
  case None
  then have "first_live t gs = None"
    using group_live_mono [OF _ assms(1)] by (fastforce simp: first_live_None)
  with None show ?thesis by simp
next
  case (Some i)
  note i = first_live_SomeD [OF Some]
  then obtain r where r: "r \<in> set (request_map (gs ! i))" "live now (snd r)"
    by (auto simp: group_live_def)
  have "to_ms (snd r - now) \<in> insert MS_MAX (set (map (\<lambda>r. to_ms (snd r - now))
     (filter (\<lambda>r. live now (snd r)) (request_map (gs ! i)))))" using r by auto
  then have "group_expire now (gs ! i) \<le> to_ms (snd r - now)"
    unfolding group_expire_def by (rule Min_le [rotated]) simp
  moreover have "to_ms (snd r - now) * 1000000 \<le> snd r - now"
    using r(2) by (intro to_ms_le) (simp add: live_def)
  ultimately have "live t (snd r)" using assms(2) Some by (simp add: expire_of_def live_def)
  with r(1) have "group_live t (gs ! i)" by (auto simp: group_live_def)
  moreover have "\<forall>j<i. \<not> group_live t (gs ! j)" using i group_live_mono [OF _ assms(1)] by blast
  ultimately have "first_live t gs = Some i" using first_liveI i by blast
  with Some show ?thesis by simp
qed

section \<open>Properties\<close>

text \<open>
  C23. \<open>Update\<close> drives a node to the value of highest priority (lowest index) that has
  an outstanding request with at least a millisecond left, and to the default value when
  there is none. A successful write always gets there, and ends the initial reset; a failed write leaves
  the recorded value and the initial reset as they were. The result is the number
  of milliseconds until the first live request for the value runs out, and when a file is to be written, because the value changes or for the initial reset,
  and the write fails, at most the 500 ms after which to try again.\<close>

theorem update_selects_highest:
  assumes "Update now io n = (e, n')"
  shows "(case first_live now (req_sorted n) of
      Some i \<Rightarrow> selected now n = i \<and> i < length (req_sorted n) \<and> group_live now (req_sorted n ! i) \<and>
        (\<forall>j<i. \<not> group_live now (req_sorted n ! j))
    | None \<Rightarrow> selected now n = default_val_index n \<and> (\<forall>g\<in>set (req_sorted n). \<not> group_live now g)) \<and>
    (if io = Written then current_val_index n' = selected now n \<and> \<not> reset_on_init n'
     else current_val_index n' = current_val_index n \<and> reset_on_init n' = reset_on_init n) \<and>
    e = (if (\<exists>hold. kind n = FileNode hold) \<and> io \<noteq> Written \<and> (selected now n \<noteq> current_val_index n \<or> reset_on_init n)
         then min (expire_of now (req_sorted n)) 500 else expire_of now (req_sorted n))"
proof -
  have "case first_live now (req_sorted n) of
      Some i \<Rightarrow> selected now n = i \<and> i < length (req_sorted n) \<and> group_live now (req_sorted n ! i) \<and>
        (\<forall>j<i. \<not> group_live now (req_sorted n ! j))
    | None \<Rightarrow> selected now n = default_val_index n \<and> (\<forall>g\<in>set (req_sorted n). \<not> group_live now g)"
  proof (cases "first_live now (req_sorted n)")
    case None
    then show ?thesis using first_live_None [of now "req_sorted n"] by (simp add: selected_def)
  next
    case (Some i)
    then show ?thesis using first_live_SomeD [OF Some] by (simp add: selected_def)
  qed
  moreover have "if io = Written then current_val_index n' = selected now n \<and> \<not> reset_on_init n'
     else current_val_index n' = current_val_index n \<and> reset_on_init n' = reset_on_init n"
    using Update_cases(6,8,13) [OF assms] by (cases "io = Written") auto
  moreover note Update_cases(12) [OF assms]
  ultimately show ?thesis by blast
qed

theorem update_selects_highest_witness:
  "\<exists>e n'. Update 0 Written (new_node ''cpu'' ''/max'' [\<lparr>request_value = ''high'', request_map = [(''LAUNCH'', 5000000)]\<rparr>,
      \<lparr>request_value = ''low'', request_map = []\<rparr>] 1 False (FileNode False)) = (e, n') \<and>
    current_val_index n' = 0 \<and> e = 5"
proof -
  let ?n = "new_node ''cpu'' ''/max'' [\<lparr>request_value = ''high'', request_map = [(''LAUNCH'', 5000000)]\<rparr>,
      \<lparr>request_value = ''low'', request_map = []\<rparr>] 1 False (FileNode False)"
  obtain e n' where u: "Update 0 Written ?n = (e, n')" "e = 5"
    by (simp add: Update_defs new_node_def GetExpireTime_def to_ms_def Let_def sdiv_nonneg MS_MAX_def)
  have "selected 0 ?n = 0" by (simp add: selected_def new_node_def group_live_def live_def)
  with update_selects_highest [OF u(1)] u show ?thesis by auto
qed

text \<open>
  The end time of a request never overflows: it is the largest time for a request
  without a timeout or one too long to represent, and exactly the timeout after now
  otherwise.\<close>

theorem request_end_time_bounds:
  assumes "0 \<le> now" "now \<le> TIME_MAX" "0 \<le> timeout"
  shows "now \<le> request_end_time now timeout \<and> request_end_time now timeout \<le> TIME_MAX \<and>
    (timeout = 0 \<longrightarrow> request_end_time now timeout = TIME_MAX) \<and>
    (0 < timeout \<and> now + (timeout + 1) * 1000000 \<le> TIME_MAX \<longrightarrow>
      request_end_time now timeout = now + timeout * 1000000)"
proof -
  have ms: "to_ms (TIME_MAX - now) = (TIME_MAX - now) div 1000000"
    using assms(2) by (simp add: to_ms_nonneg)
  have up: "timeout * 1000000 \<le> TIME_MAX - now" if "timeout < (TIME_MAX - now) div 1000000"
  proof -
    have "x div 1000000 * 1000000 \<le> x" for x :: int by presburger
    from this [of "TIME_MAX - now"] that show ?thesis by linarith
  qed
  define x where "x = (TIME_MAX - now) div 1000000"
  have eq: "request_end_time now timeout =
      (if timeout \<noteq> 0 \<and> timeout < x then now + timeout * 1000000 else TIME_MAX)"
    by (simp add: request_end_time_def ms x_def)
  have "(timeout + 1) * 1000000 \<le> TIME_MAX - now \<Longrightarrow> timeout + 1 \<le> x"
    using zdiv_mono1 [of "(timeout + 1) * 1000000" "TIME_MAX - now" 1000000] by (simp add: x_def)
  then have lo: "now + (timeout + 1) * 1000000 \<le> TIME_MAX \<Longrightarrow> timeout < x" by linarith
  have hi: "timeout < x \<Longrightarrow> now + timeout * 1000000 \<le> TIME_MAX" using up by (simp add: x_def)
  show ?thesis
  proof (cases "timeout \<noteq> 0 \<and> timeout < x")
    case True
    then show ?thesis unfolding eq using hi assms by simp
  next
    case False
    then show ?thesis unfolding eq using lo assms by auto
  qed
qed

theorem request_end_time_bounds_witness: "request_end_time 5 3 = 3000005"
  using request_end_time_bounds [of 5 3] by (simp add: TIME_MAX_def)

section \<open>Requesting and cancelling\<close>

text \<open>The end time that hint \<open>h\<close> has requested for a value of a node, if any.\<close>

definition requested :: "string \<Rightarrow> nat \<Rightarrow> node \<Rightarrow> int option" where
  "requested h v n = map_of (request_map (req_sorted n ! v)) h"

lemma map_of_extend:
  "map_of (map (\<lambda>(k, t). (k, if k = h then e else t)) m) k =
     (if k = h \<and> map_of m h \<noteq> None then Some e else map_of m k)"
  by (induction m) auto

lemma map_of_erase: "map_of (erase_key h m) k = (if k = h then None else map_of m k)"
  by (induction m) (auto simp: erase_key_def)

lemma group_AddRequest_map:
  "map_of (request_map (snd (group_AddRequest h e g))) k =
     (if k = h then Some (case map_of (request_map g) h of None \<Rightarrow> e | Some t \<Rightarrow> max t e)
      else map_of (request_map g) k)"
  by (auto simp: group_AddRequest_def map_of_extend map_add_def max_def split: option.split)

lemma node_AddRequest_requested:
  assumes "node_AddRequest v h e n = (ok, n')"
  shows "ok \<longleftrightarrow> v < length (req_sorted n)"
    "length (req_sorted n') = length (req_sorted n)"
    "u < length (req_sorted n) \<Longrightarrow> requested k u n' =
       (if u = v \<and> k = h then Some (case requested h v n of None \<Rightarrow> e | Some t \<Rightarrow> max t e)
        else requested k u n)"
  using assms by (auto simp: node_AddRequest_def requested_def group_AddRequest_map nth_list_update
      split: if_splits)

lemma node_RemoveRequest_requested:
  "u < length (req_sorted n) \<Longrightarrow>
     requested k u (snd (node_RemoveRequest h n)) = (if k = h then None else requested k u n)"
  "length (req_sorted (snd (node_RemoveRequest h n))) = length (req_sorted n)"
  by (simp_all add: requested_def node_RemoveRequest_def group_RemoveRequest_def map_of_erase Let_def)

definition actions_valid :: "node_action list \<Rightarrow> looper \<Rightarrow> bool" where
  "actions_valid as l \<longleftrightarrow> (\<forall>a\<in>set as. node_index a < length (nodes l) \<and>
     value_index a < length (req_sorted (nodes l ! node_index a)))"

text \<open>What a batch of requests or cancellations for hint \<open>h\<close> leaves alone.\<close>

definition same_shape :: "node list \<Rightarrow> node list \<Rightarrow> bool" where
  "same_shape ns ns' \<longleftrightarrow> length ns' = length ns \<and>
     (\<forall>j<length ns. length (req_sorted (ns' ! j)) = length (req_sorted (ns ! j)))"

definition others_kept :: "string \<Rightarrow> node list \<Rightarrow> node list \<Rightarrow> bool" where
  "others_kept h ns ns' \<longleftrightarrow> same_shape ns ns' \<and>
     (\<forall>j<length ns. \<forall>u<length (req_sorted (ns ! j)). \<forall>k. k \<noteq> h \<longrightarrow>
        requested k u (ns' ! j) = requested k u (ns ! j))"

lemma others_kept_refl: "others_kept h ns ns"
  by (simp add: others_kept_def same_shape_def)

lemma others_kept_trans: "others_kept h ns ns' \<Longrightarrow> others_kept h ns' ns'' \<Longrightarrow> others_kept h ns ns''"
  by (simp add: others_kept_def same_shape_def)

lemma others_kept_update:
  assumes "j < length ns" "length (req_sorted n') = length (req_sorted (ns ! j))"
    "\<And>u k. u < length (req_sorted (ns ! j)) \<Longrightarrow> k \<noteq> h \<Longrightarrow> requested k u n' = requested k u (ns ! j)"
  shows "others_kept h ns (ns[j := n'])"
  using assms by (auto simp: others_kept_def same_shape_def nth_list_update)

definition extends :: "string \<Rightarrow> node list \<Rightarrow> node list \<Rightarrow> bool" where
  "extends h ns ns' \<longleftrightarrow> (\<forall>j<length ns. \<forall>u<length (req_sorted (ns ! j)). \<forall>t.
     requested h u (ns ! j) = Some t \<longrightarrow> (\<exists>t'\<ge>t. requested h u (ns' ! j) = Some t'))"

lemma extends_trans:
  "same_shape ns ns' \<Longrightarrow> extends h ns ns' \<Longrightarrow> extends h ns' ns'' \<Longrightarrow> extends h ns ns''"
proof -
  assume sh: "same_shape ns ns'" and a: "extends h ns ns'" and b: "extends h ns' ns''"
  show "extends h ns ns''"
    unfolding extends_def
  proof (intro allI impI)
    fix j u t
    assume j: "j < length ns" "u < length (req_sorted (ns ! j))" "requested h u (ns ! j) = Some t"
    with a obtain t1 where t1: "t1 \<ge> t" "requested h u (ns' ! j) = Some t1"
      unfolding extends_def by blast
    moreover have "j < length ns'" "u < length (req_sorted (ns' ! j))"
      using sh j by (auto simp: same_shape_def)
    ultimately obtain t2 where "t2 \<ge> t1" "requested h u (ns'' ! j) = Some t2"
      using b unfolding extends_def by blast
    with t1(1) show "\<exists>t'\<ge>t. requested h u (ns'' ! j) = Some t'" by (meson order_trans)
  qed
qed

lemma request_loop_spec:
  assumes "\<forall>a\<in>set as. node_index a < length ns \<and> value_index a < length (req_sorted (ns ! node_index a))"
    "request_loop now h as ret ns = (ret', ns')"
  shows "ret' = ret \<and> others_kept h ns ns' \<and> extends h ns ns' \<and>
    (\<forall>a\<in>set as. \<exists>t\<ge>request_end_time now (timeout_ms a).
       requested h (value_index a) (ns' ! node_index a) = Some t)"
  using assms
proof (induction as arbitrary: ns ret)
  case Nil
  then show ?case by (simp add: others_kept_refl extends_def)
next
  case (Cons a as)
  let ?e = "request_end_time now (timeout_ms a)"
  define n1 where "n1 = snd (node_AddRequest (value_index a) h ?e (ns ! node_index a))"
  let ?ns1 = "ns[node_index a := n1]"
  have a: "node_index a < length ns" "value_index a < length (req_sorted (ns ! node_index a))"
    using Cons.prems(1) by auto
  have add: "node_AddRequest (value_index a) h ?e (ns ! node_index a) = (True, n1)"
    using a(2) by (simp add: n1_def node_AddRequest_def)
  note req = node_AddRequest_requested [OF add]
  have kept: "others_kept h ns ?ns1" using a req by (intro others_kept_update) auto
  have ext: "extends h ns ?ns1"
    using a req(3) by (auto simp: extends_def nth_list_update split: option.split)
  have here: "\<exists>t\<ge>?e. requested h (value_index a) (?ns1 ! node_index a) = Some t"
    using a req(3) by (auto split: option.split)
  have rest: "request_loop now h as ret ?ns1 = (ret', ns')"
    using Cons.prems(2) a(1) add by simp
  have "\<forall>a\<in>set as. node_index a < length ?ns1 \<and> value_index a < length (req_sorted (?ns1 ! node_index a))"
    using Cons.prems(1) kept by (auto simp: others_kept_def same_shape_def)
  from Cons.IH [OF this rest] have IH: "ret' = ret" "others_kept h ?ns1 ns'" "extends h ?ns1 ns'"
    "\<forall>a\<in>set as. \<exists>t\<ge>request_end_time now (timeout_ms a).
       requested h (value_index a) (ns' ! node_index a) = Some t" by auto
  have "\<exists>t\<ge>?e. requested h (value_index a) (ns' ! node_index a) = Some t"
  proof -
    from here obtain t where t: "t \<ge> ?e" "requested h (value_index a) (?ns1 ! node_index a) = Some t"
      by blast
    have "node_index a < length ?ns1" "value_index a < length (req_sorted (?ns1 ! node_index a))"
      using a req(2) by auto
    with t(2) IH(3) obtain t' where "t' \<ge> t" "requested h (value_index a) (ns' ! node_index a) = Some t'"
      unfolding extends_def by blast
    with t(1) show ?thesis by (meson order_trans)
  qed
  moreover have "others_kept h ns ns'" using others_kept_trans kept IH(2) by blast
  moreover have "extends h ns ns'"
    using extends_trans [OF _ ext IH(3)] kept by (simp add: others_kept_def)
  ultimately show ?case using IH(1,4) by simp
qed

lemma cancel_loop_spec:
  assumes "\<forall>a\<in>set as. node_index a < length ns" "cancel_loop h as ret ns = (ret', ns')"
  shows "ret' = ret \<and> others_kept h ns ns' \<and>
    (\<forall>j<length ns. \<forall>u<length (req_sorted (ns ! j)).
       requested h u (ns' ! j) = (if j \<in> node_index ` set as then None else requested h u (ns ! j)))"
  using assms
proof (induction as arbitrary: ns)
  case Nil
  then show ?case by (simp add: others_kept_refl)
next
  case (Cons a as)
  let ?n1 = "snd (node_RemoveRequest h (ns ! node_index a))"
  let ?ns1 = "ns[node_index a := ?n1]"
  note rem = node_RemoveRequest_requested
  have a: "node_index a < length ns" using Cons.prems(1) by simp
  have kept: "others_kept h ns ?ns1" using a rem by (intro others_kept_update) auto
  have "\<forall>a\<in>set as. node_index a < length ?ns1" using Cons.prems(1) by simp
  from Cons.IH [OF this] Cons.prems(2) a
  have IH: "ret' = ret" "others_kept h ?ns1 ns'"
    "\<forall>j<length ?ns1. \<forall>u<length (req_sorted (?ns1 ! j)).
       requested h u (ns' ! j) = (if j \<in> node_index ` set as then None else requested h u (?ns1 ! j))"
    by simp_all
  have "requested h u (ns' ! j) = (if j \<in> node_index ` set (a # as) then None else requested h u (ns ! j))"
    if "j < length ns" "u < length (req_sorted (ns ! j))" for j u
  proof -
    have "j < length ?ns1" "u < length (req_sorted (?ns1 ! j))"
      using that rem(2) [of h "ns ! j"] by (cases "j = node_index a"; simp)+
    with IH(3) have "requested h u (ns' ! j) =
        (if j \<in> node_index ` set as then None else requested h u (?ns1 ! j))" by blast
    with that rem(1) [of u "ns ! j" h h] show ?thesis by (auto simp: nth_list_update)
  qed
  with IH(1) others_kept_trans [OF kept IH(2)] show ?case by simp
qed

text \<open>
  A request whose indices are in range succeeds: afterwards each named value carries
  an outstanding request of the hint that lasts at least the asked time, no earlier request
  of the hint was shortened, and the requests of every other hint are as before. Cancelling
  the same actions succeeds, leaves no request of the hint on any node they name, and again
  touches no other hint.\<close>

theorem request_then_cancel:
  assumes "\<not> exit_pending l" "actions_valid as l"
    "Request now as h l = (r1, l1)" "Cancel as h l1 = (r2, l2)"
  shows "r1 \<and> r2 \<and> extends h (nodes l) (nodes l1) \<and> others_kept h (nodes l) (nodes l1) \<and>
    others_kept h (nodes l) (nodes l2) \<and>
    (\<forall>a\<in>set as. \<exists>t\<ge>request_end_time now (timeout_ms a).
       requested h (value_index a) (nodes l1 ! node_index a) = Some t) \<and>
    (\<forall>a\<in>set as. \<forall>u<length (req_sorted (nodes l ! node_index a)).
       requested h u (nodes l2 ! node_index a) = None)"
proof -
  obtain ns1 where 1: "request_loop now h as True (nodes l) = (r1, ns1)" "l1 = l\<lparr>nodes := ns1\<rparr>"
    using assms(1,3) by (auto simp: Request_def split: prod.splits)
  obtain ns2 where 2: "cancel_loop h as True ns1 = (r2, ns2)" "l2 = l\<lparr>nodes := ns2\<rparr>"
    using assms(1,4) 1(2) by (auto simp: Cancel_def split: prod.splits)
  have v: "\<forall>a\<in>set as. node_index a < length (nodes l) \<and>
      value_index a < length (req_sorted (nodes l ! node_index a))"
    using assms(2) by (simp add: actions_valid_def)
  note rq = request_loop_spec [OF v 1(1)]
  then have sh: "same_shape (nodes l) ns1" by (simp add: others_kept_def)
  with v have "\<forall>a\<in>set as. node_index a < length ns1" by (simp add: same_shape_def)
  note cn = cancel_loop_spec [OF this 2(1)]
  have "others_kept h (nodes l) ns2" using others_kept_trans rq cn by blast
  moreover have "\<forall>a\<in>set as. \<forall>u<length (req_sorted (nodes l ! node_index a)).
       requested h u (ns2 ! node_index a) = None"
    using cn sh v by (auto simp: same_shape_def)
  ultimately show ?thesis using rq cn 1(2) 2(2) by simp
qed

definition sample_looper :: looper where
  "sample_looper = \<lparr>nodes = [new_node ''cpu'' ''/max'' [\<lparr>request_value = ''high'', request_map = []\<rparr>,
      \<lparr>request_value = ''low'', request_map = []\<rparr>] 1 False (FileNode False)], exit_pending = False\<rparr>"

theorem request_then_cancel_witness:
  "\<exists>l1 l2 t. Request 0 [\<lparr>node_index = 0, value_index = 0, timeout_ms = 8\<rparr>] ''LAUNCH'' sample_looper = (True, l1) \<and>
    Cancel [\<lparr>node_index = 0, value_index = 0, timeout_ms = 8\<rparr>] ''LAUNCH'' l1 = (True, l2) \<and>
    requested ''LAUNCH'' 0 (nodes l1 ! 0) = Some t \<and> t \<ge> 8000000 \<and>
    requested ''LAUNCH'' 0 (nodes l2 ! 0) = None"
proof -
  let ?as = "[\<lparr>node_index = 0, value_index = 0, timeout_ms = 8\<rparr>]"
  obtain r1 l1 where 1: "Request 0 ?as ''LAUNCH'' sample_looper = (r1, l1)" by fastforce
  obtain r2 l2 where 2: "Cancel ?as ''LAUNCH'' l1 = (r2, l2)" by fastforce
  have v: "\<not> exit_pending sample_looper" "actions_valid ?as sample_looper"
    by (simp_all add: sample_looper_def actions_valid_def new_node_def)
  have e: "request_end_time 0 8 = 8000000"
    by (simp add: request_end_time_def TIME_MAX_def to_ms_nonneg)
  from request_then_cancel [OF v 1 2] e 1 2 show ?thesis
    by (auto simp: sample_looper_def new_node_def)
qed

lemma second_pass_spec:
  assumes "length ios = length ns" "second_pass now ios ns t = (t', ns')"
  shows "t' \<le> t \<and> list_all2 (\<lambda>(io, n) n'. \<exists>e\<ge>t'. Update now io n = (e, n')) (zip ios ns) ns'"
  using assms
proof (induction ns arbitrary: ios t ns')
  case Nil
  then show ?case by (cases ios) auto
next
  case (Cons n ns)
  then obtain io ios' where ios: "ios = io # ios'" by (cases ios) auto
  obtain e n' where u: "Update now io n = (e, n')" by fastforce
  obtain ns'' where r: "second_pass now ios' ns (min e t) = (t', ns'')" "ns' = n' # ns''"
    using Cons.prems(2) ios u by (auto split: prod.splits)
  from Cons.IH [OF _ r(1)] Cons.prems(1) ios have "t' \<le> min e t"
    "list_all2 (\<lambda>(io, n) n'. \<exists>e\<ge>t'. Update now io n = (e, n')) (zip ios' ns) ns''" by auto
  with ios u r(2) show ?case by auto
qed

lemma first_pass_length [simp]: "length ios = length ns \<Longrightarrow> length (first_pass now ios ns) = length ns"
  by (induction now ios ns rule: first_pass.induct) auto

text \<open>
  One round of the looper thread, whatever failed in its first pass: if the writes of
  the second pass succeed, every node holds the value its outstanding requests call for. The
  thread then sleeps no longer than that stays true: until its wake-up, less the last
  millisecond, no request runs out in a way that changes what any node should hold.\<close>

theorem looper_round:
  assumes "threadLoop now ios1 ios2 l = (sleep, l')" "length ios1 = length (nodes l)"
    "ios2 = replicate (length (nodes l)) Written" "n' \<in> set (nodes l')"
    "0 \<le> now" "now \<le> t" "t + 1000000 \<le> now + sleep" "t + 2000000 \<le> TIME_MAX"
  shows "current_val_index n' = selected now n' \<and> selected t n' = current_val_index n'"
proof -
  let ?ns = "first_pass now ios1 (nodes l)"
  obtain w ns' where p: "second_pass now ios2 ?ns MS_MAX = (w, ns')" "nodes l' = ns'"
    "sleep = (if w < (2 ^ 63 - 1) div 1000 div 1000 then w * 1000 * 1000 else 2 ^ 63 - 1)"
    using assms(1) by (auto simp: threadLoop_def split: prod.splits)
  have len: "length ios2 = length ?ns" using assms(2,3) by simp
  obtain j where j: "j < length ns'" "n' = ns' ! j" using assms(4) p(2) by (auto simp: in_set_conv_nth)
  have l2: "list_all2 (\<lambda>(io, n) n'. \<exists>e\<ge>w. Update now io n = (e, n')) (zip ios2 ?ns) ns'"
    using second_pass_spec [OF len p(1)] by simp
  then have "j < length ?ns" using j len by (simp add: list_all2_conv_all_nth)
  moreover have "ios2 ! j = Written" using assms(2,3) calculation by simp
  ultimately obtain e where u: "Update now Written (?ns ! j) = (e, n')" "e \<ge> w"
    using l2 j len by (auto simp: list_all2_conv_all_nth)
  have cur: "current_val_index n' = selected now (?ns ! j)" and e: "e = expire_of now (req_sorted (?ns ! j))"
    using Update_cases(8,10) [OF u(1)] by simp_all
  have "t + 1000000 \<le> now + w * 1000000"
    using p(3) assms(5,7,8) by (simp add: TIME_MAX_def split: if_splits)
  then have "t + 1000000 \<le> now + expire_of now (req_sorted (?ns ! j)) * 1000000"
    using u(2) e by linarith
  then have "first_live t (req_sorted (?ns ! j)) = first_live now (req_sorted (?ns ! j))"
    by (rule first_live_stable [OF assms(6)])
  then have "selected t (?ns ! j) = selected now (?ns ! j)" by (simp add: selected_def)
  with cur selected_later [OF u(1)] assms(6) show ?thesis by simp
qed

theorem looper_round_witness:
  "\<exists>l sleep l'. snd (Request 0 [\<lparr>node_index = 0, value_index = 0, timeout_ms = 8\<rparr>] ''LAUNCH'' sample_looper) = l \<and>
    threadLoop 0 [WriteFails] [Written] l = (sleep, l') \<and>
    selected 6000000 (nodes l' ! 0) = 0 \<and> selected 8000000 (nodes l' ! 0) = 1"
proof -
  let ?l = "snd (Request 0 [\<lparr>node_index = 0, value_index = 0, timeout_ms = 8\<rparr>] ''LAUNCH'' sample_looper)"
  obtain sleep l' where t: "threadLoop 0 [WriteFails] [Written] ?l = (sleep, l')" by fastforce
  have n: "nodes ?l = [new_node ''cpu'' ''/max'' [\<lparr>request_value = ''high'', request_map = [(''LAUNCH'', 8000000)]\<rparr>,
      \<lparr>request_value = ''low'', request_map = []\<rparr>] 1 False (FileNode False)]"
    by (simp add: Request_def sample_looper_def node_AddRequest_def group_AddRequest_def
        request_end_time_def TIME_MAX_def to_ms_nonneg new_node_def)
  have e: "sleep = 8000000 \<and> length (nodes l') = 1 \<and> current_val_index (nodes l' ! 0) = 0 \<and>
      req_sorted (nodes l' ! 0) = [\<lparr>request_value = ''high'', request_map = [(''LAUNCH'', 8000000)]\<rparr>,
      \<lparr>request_value = ''low'', request_map = []\<rparr>] \<and> default_val_index (nodes l' ! 0) = 1"
    using t n by (auto simp: threadLoop_def Update_defs new_node_def GetExpireTime_def to_ms_nonneg MS_MAX_def)
  then have "nodes l' ! 0 \<in> set (nodes l')" by auto
  from looper_round [OF t _ _ this, of 6000000] e n have "selected 6000000 (nodes l' ! 0) = 0"
    by (simp add: TIME_MAX_def)
  with t e show ?thesis by (auto simp: selected_def group_live_def live_def)
qed

end
