(* ===== verification/HintManager.thy ===== *)
theory HintManager
  imports PerfNode
begin

text \<open>
  The hint manager of \<open>power-libperfmgr/libperfmgr/HintManager.cc\<close>: hints, their
  statistics, and \<open>DoHint\<close> and \<open>EndHint\<close> with the hint actions they trigger. The
  status of every hint is taken to be set up (\<open>InitHintStatus\<close> has run, as
  \<open>GetFromJSON\<close> makes sure), the clock to stand still during a call. \<open>DoHint\<close>
  runs the hints named by its actions and so may not return: it is a partial function whose
  value is None when it does not.
\<close>

record hint_status =
  max_timeout :: int
  start_time :: int
  end_time :: int
  stat_count :: int
  duration_ms :: int

datatype hint_action_type = NodeAction | DoHintAction | EndHintAction | MaskHintAction

record hint =
  node_actions :: "node_action list"
  hint_actions :: "(hint_action_type \<times> string) list"
  enabled :: bool
  status :: hint_status

record hint_manager =
  nm :: "looper option"
  actions :: "string \<rightharpoonup> hint"

definition TIME_MIN :: int where "TIME_MIN = - (2 ^ 63)"

definition wrap64 :: "int \<Rightarrow> int" where
  "wrap64 x = signed_take_bit 63 x"

section \<open>Status\<close>

definition new_status :: "int \<Rightarrow> hint_status" where
  "new_status timeout = \<lparr>max_timeout = timeout, start_time = TIME_MIN, end_time = TIME_MIN, stat_count = 0, duration_ms = 0\<rparr>"

definition init_timeout :: "node_action list \<Rightarrow> int" where
  "init_timeout as =
     (if as = [] then 0
      else if Min (set (map timeout_ms as)) = 0 then 0 else Max (set (map timeout_ms as)))"

definition InitHintStatus :: "hint_manager option \<Rightarrow> bool \<times> hint_manager option" where
  "InitHintStatus hm =
     (case hm of
        None \<Rightarrow> (False, None)
      | Some s \<Rightarrow> (True, Some (s\<lparr>actions := map_option (\<lambda>a. a\<lparr>status := new_status (init_timeout (node_actions a))\<rparr>) \<circ> actions s\<rparr>)))"

text \<open>The end time \<open>now + timeout\<close> is computed in 64 bits without a guard.\<close>

definition do_status :: "int \<Rightarrow> int \<Rightarrow> hint_status \<Rightarrow> hint_status" where
  "do_status now timeout st =
     (let st1 = st\<lparr>stat_count := (stat_count st + 1) mod 2 ^ 32\<rparr>;
          st2 = (if now > end_time st1
                 then st1\<lparr>duration_ms := (duration_ms st1 + to_ms (end_time st1 - start_time st1)) mod 2 ^ 64,
                          start_time := now\<rparr>
                 else st1)
      in st2\<lparr>end_time := (if timeout = 0 then TIME_MAX else wrap64 (now + timeout * 1000000))\<rparr>)"

definition end_status :: "int \<Rightarrow> hint_status \<Rightarrow> hint_status" where
  "end_status now st =
     (if now < end_time st
      then st\<lparr>duration_ms := (duration_ms st + to_ms (now - start_time st)) mod 2 ^ 64, end_time := now\<rparr>
      else st)"

definition update_hint :: "string \<Rightarrow> (hint \<Rightarrow> hint) \<Rightarrow> hint_manager \<Rightarrow> hint_manager" where
  "update_hint h f s = s\<lparr>actions := (actions s)(h := map_option f (actions s h))\<rparr>"

definition DoHintStatus :: "int \<Rightarrow> string \<Rightarrow> int \<Rightarrow> hint_manager \<Rightarrow> hint_manager" where
  "DoHintStatus now h timeout s = update_hint h (\<lambda>a. a\<lparr>status := do_status now timeout (status a)\<rparr>) s"

definition EndHintStatus :: "int \<Rightarrow> string \<Rightarrow> hint_manager \<Rightarrow> hint_manager" where
  "EndHintStatus now h s = update_hint h (\<lambda>a. a\<lparr>status := end_status now (status a)\<rparr>) s"

section \<open>Doing and ending hints\<close>

definition IsHintSupported :: "string \<Rightarrow> hint_manager \<Rightarrow> bool" where
  "IsHintSupported h s \<longleftrightarrow> actions s h \<noteq> None"

definition ValidateHint :: "string \<Rightarrow> hint_manager \<Rightarrow> bool" where
  "ValidateHint h s \<longleftrightarrow> nm s \<noteq> None \<and> IsHintSupported h s"

definition IsHintEnabled :: "string \<Rightarrow> hint_manager \<Rightarrow> bool" where
  "IsHintEnabled h s = enabled (the (actions s h))"

definition GetHintStats :: "string \<Rightarrow> hint_manager \<Rightarrow> int \<times> int" where
  "GetHintStats h s =
     (if ValidateHint h s then (stat_count (status (the (actions s h))), duration_ms (status (the (actions s h))))
      else (0, 0))"

definition set_enabled :: "string \<Rightarrow> bool \<Rightarrow> hint_manager \<Rightarrow> hint_manager" where
  "set_enabled h b s = update_hint h (\<lambda>a. a\<lparr>enabled := b\<rparr>) s"

definition EndHintActions :: "string \<Rightarrow> hint_manager \<Rightarrow> hint_manager" where
  "EndHintActions h s =
     fold (\<lambda>(ty, v) s. if ty = MaskHintAction \<and> actions s v \<noteq> None then set_enabled v True s else s)
       (hint_actions (the (actions s h))) s"

definition EndHint :: "int \<Rightarrow> string \<Rightarrow> hint_manager \<Rightarrow> bool \<times> hint_manager" where
  "EndHint now h s =
     (if \<not> ValidateHint h s then (False, s)
      else case Cancel (node_actions (the (actions s h))) h (the (nm s)) of (ok, l) \<Rightarrow>
        let s1 = s\<lparr>nm := Some l\<rparr>
        in if ok then (True, EndHintActions h (EndHintStatus now h s1)) else (False, s1))"

text \<open>A pending piece of \<open>DoHint\<close>: the hint itself, with the overriding timeout if any,
  or the rest of the actions that \<open>DoHintAction\<close> has still to run.\<close>

datatype hint_call = DoHintCall string "int option" | ActionsCall "(hint_action_type \<times> string) list"

definition request_of :: "int option \<Rightarrow> hint \<Rightarrow> node_action list" where
  "request_of override a =
     (case override of
        None \<Rightarrow> node_actions a
      | Some t \<Rightarrow> map (\<lambda>x. x\<lparr>timeout_ms := t\<rparr>) (node_actions a))"

partial_function (option) hint_run ::
  "int \<Rightarrow> hint_call \<Rightarrow> hint_manager \<Rightarrow> (bool \<times> hint_manager) option"
where
  "hint_run now c s =
     (case c of
        DoHintCall h override \<Rightarrow>
          (if \<not> ValidateHint h s \<or> \<not> IsHintEnabled h s then Some (False, s)
           else case Request now (request_of override (the (actions s h))) h (the (nm s)) of (ok, l) \<Rightarrow>
             if \<not> ok then Some (False, s\<lparr>nm := Some l\<rparr>)
             else
               (let timeout = (case override of Some t \<Rightarrow> t | None \<Rightarrow> max_timeout (status (the (actions s h))));
                    s1 = DoHintStatus now h timeout (s\<lparr>nm := Some l\<rparr>)
                in Option.bind (hint_run now (ActionsCall (hint_actions (the (actions s1 h)))) s1)
                     (\<lambda>(_, s2). Some (True, s2))))
      | ActionsCall as \<Rightarrow>
          (case as of
             [] \<Rightarrow> Some (True, s)
           | a # rest \<Rightarrow>
               (case fst a of
                  DoHintAction \<Rightarrow>
                    Option.bind (hint_run now (DoHintCall (snd a) None) s)
                      (\<lambda>(_, s1). hint_run now (ActionsCall rest) s1)
                | EndHintAction \<Rightarrow> hint_run now (ActionsCall rest) (snd (EndHint now (snd a) s))
                | MaskHintAction \<Rightarrow>
                    hint_run now (ActionsCall rest)
                      (if actions s (snd a) = None then s else set_enabled (snd a) False s)
                | NodeAction \<Rightarrow> hint_run now (ActionsCall rest) s)))"

definition DoHint :: "int \<Rightarrow> string \<Rightarrow> hint_manager \<Rightarrow> (bool \<times> hint_manager) option" where
  "DoHint now h s = hint_run now (DoHintCall h None) s"

definition DoHint_override :: "int \<Rightarrow> string \<Rightarrow> int \<Rightarrow> hint_manager \<Rightarrow> (bool \<times> hint_manager) option" where
  "DoHint_override now h t s = hint_run now (DoHintCall h (Some t)) s"

lemmas DoHintCall_run = hint_run.simps [of _ "DoHintCall _ _", simplified]
lemmas ActionsCall_run = hint_run.simps [of _ "ActionsCall _", simplified]

definition timeout_of :: "int option \<Rightarrow> hint \<Rightarrow> int" where
  "timeout_of override a = (case override of Some t \<Rightarrow> t | None \<Rightarrow> max_timeout (status a))"

lemma run_refused:
  "\<not> ValidateHint h s \<or> \<not> IsHintEnabled h s \<Longrightarrow> hint_run now (DoHintCall h ovr) s = Some (False, s)"
  by (subst DoHintCall_run) auto

lemma run_no_request:
  assumes "ValidateHint h s" "IsHintEnabled h s" "actions s h = Some a"
    "Request now (request_of ovr a) h (the (nm s)) = (False, l)"
  shows "hint_run now (DoHintCall h ovr) s = Some (False, s\<lparr>nm := Some l\<rparr>)"
  using assms by (subst DoHintCall_run) auto

lemma run_request:
  assumes "ValidateHint h s" "IsHintEnabled h s" "actions s h = Some a"
    "Request now (request_of ovr a) h (the (nm s)) = (True, l)"
  shows "hint_run now (DoHintCall h ovr) s =
    map_option (\<lambda>(_, s2). (True, s2)) (hint_run now (ActionsCall (hint_actions a))
      (DoHintStatus now h (timeout_of ovr a) (s\<lparr>nm := Some l\<rparr>)))"
proof -
  have "hint_actions (the (actions (DoHintStatus now h t (s\<lparr>nm := Some l\<rparr>)) h)) = hint_actions a" for t
    using assms(3) by (simp add: DoHintStatus_def update_hint_def)
  then show ?thesis
    using assms by (subst DoHintCall_run)
      (auto simp: timeout_of_def Let_def split: option.split Option.bind_split)
qed

section \<open>Termination\<close>

definition graph :: "hint_manager \<Rightarrow> string \<Rightarrow> (hint_action_type \<times> string) list option" where
  "graph s h = map_option hint_actions (actions s h)"

lemma graph_update [simp]:
  "(\<And>a. hint_actions (f a) = hint_actions a) \<Longrightarrow> graph (update_hint h f s) = graph s"
  by (auto simp: graph_def update_hint_def fun_eq_iff option.map_comp comp_def)

lemma graph_nm [simp]: "graph (s\<lparr>nm := l\<rparr>) = graph s"
  by (simp add: graph_def fun_eq_iff)

lemma graph_frames [simp]:
  "graph (DoHintStatus now h t s) = graph s" "graph (EndHintStatus now h s) = graph s"
  "graph (set_enabled h b s) = graph s"
  by (simp_all add: DoHintStatus_def EndHintStatus_def set_enabled_def)

lemma graph_end_actions: 
  "graph (fold (\<lambda>(ty, v) s. if ty = MaskHintAction \<and> actions s v \<noteq> None then set_enabled v True s else s) xs s) = graph s"
  by (induction xs arbitrary: s) (auto split: prod.split)

lemma graph_EndHintActions [simp]: "graph (EndHintActions h s) = graph s"
  unfolding EndHintActions_def by (rule graph_end_actions)

lemma graph_EndHint [simp]: "graph (snd (EndHint now h s)) = graph s"
  by (auto simp: EndHint_def Let_def split: prod.split)

text \<open>No chain of hints doing hints comes back to where it started: there is a rank that
  falls along every such edge.\<close>

definition acyclic_hints :: "(string \<Rightarrow> nat) \<Rightarrow> hint_manager \<Rightarrow> bool" where
  "acyclic_hints rank s \<longleftrightarrow>
     (\<forall>h as v. graph s h = Some as \<longrightarrow> (DoHintAction, v) \<in> set as \<longrightarrow> rank v < rank h)"

lemma actions_run:
  assumes "\<And>v s. (DoHintAction, v) \<in> set as \<Longrightarrow> graph s = g \<Longrightarrow>
      \<exists>b s'. hint_run now (DoHintCall v None) s = Some (b, s') \<and> graph s' = g"
    "graph s = g"
  shows "\<exists>b s'. hint_run now (ActionsCall as) s = Some (b, s') \<and> graph s' = g"
  using assms
proof (induction as arbitrary: s)
  case Nil
  then show ?case by (subst ActionsCall_run) auto
next
  case (Cons a as)
  obtain ty v where a: "a = (ty, v)" by fastforce
  have IH: "\<exists>b s'. hint_run now (ActionsCall as) s1 = Some (b, s') \<and> graph s' = g"
    if "graph s1 = g" for s1
    using Cons.IH [OF _ that] Cons.prems(1) by simp
  show ?case
  proof (cases ty)
    case DoHintAction
    with a Cons.prems(1) [of v s] Cons.prems(2)
    obtain b s1 where s1: "hint_run now (DoHintCall v None) s = Some (b, s1)" "graph s1 = g"
      by auto
    with IH [OF s1(2)] show ?thesis
      by (subst ActionsCall_run) (simp add: a DoHintAction)
  next
    case NodeAction
    with IH [OF Cons.prems(2)] show ?thesis by (subst ActionsCall_run) (simp add: a)
  next
    case EndHintAction
    have "graph (snd (EndHint now v s)) = g" using Cons.prems(2) by simp
    from IH [OF this] EndHintAction show ?thesis by (subst ActionsCall_run) (simp add: a)
  next
    case MaskHintAction
    have "graph (if actions s v = None then s else set_enabled v False s) = g" using Cons.prems(2) by simp
    from IH [OF this] MaskHintAction show ?thesis by (subst ActionsCall_run) (auto simp: a)
  qed
qed

lemma do_hint_run:
  assumes "acyclic_hints rank s"
  shows "\<exists>b s'. hint_run now (DoHintCall h ovr) s = Some (b, s') \<and> graph s' = graph s"
  using assms
proof (induction "rank h" arbitrary: h ovr s rule: less_induct)
  case less
  show ?case
  proof (cases "ValidateHint h s \<and> IsHintEnabled h s")
    case False
    then have "hint_run now (DoHintCall h ovr) s = Some (False, s)" by (intro run_refused) simp
    then show ?thesis by blast
  next
    case True
    then obtain a where a: "actions s h = Some a" by (auto simp: ValidateHint_def IsHintSupported_def)
    obtain ok l where rq: "Request now (request_of ovr a) h (the (nm s)) = (ok, l)" by fastforce
    show ?thesis
    proof (cases ok)
      case False
      with True a rq have "hint_run now (DoHintCall h ovr) s = Some (False, s\<lparr>nm := Some l\<rparr>)"
        by (intro run_no_request) simp_all
      then show ?thesis by auto
    next
      case ok: True
      let ?s1 = "DoHintStatus now h (timeout_of ovr a) (s\<lparr>nm := Some l\<rparr>)"
      have "\<exists>b s'. hint_run now (ActionsCall (hint_actions a)) ?s1 = Some (b, s') \<and> graph s' = graph s"
      proof (rule actions_run)
        fix v u
        assume v: "(DoHintAction, v) \<in> set (hint_actions a)" "graph u = graph s"
        have "rank v < rank h" using less.prems a v(1) by (simp add: acyclic_hints_def graph_def)
        moreover have "acyclic_hints rank u" using less.prems v(2) by (simp add: acyclic_hints_def)
        ultimately show "\<exists>b s'. hint_run now (DoHintCall v None) u = Some (b, s') \<and> graph s' = graph s"
          using less.hyps [of v u None] v(2) by simp
      qed simp
      then obtain b s' where r: "hint_run now (ActionsCall (hint_actions a)) ?s1 = Some (b, s')" "graph s' = graph s"
        by blast
      have "Request now (request_of ovr a) h (the (nm s)) = (True, l)" using rq ok by simp
      from run_request [OF _ _ a this] True r show ?thesis by auto
    qed
  qed
qed

section \<open>A hint that does itself\<close>

definition circular :: "string \<Rightarrow> hint_manager \<Rightarrow> bool" where
  "circular h s \<longleftrightarrow> (\<exists>a l rest. nm s = Some l \<and> \<not> exit_pending l \<and> actions s h = Some a \<and> enabled a \<and>
     node_actions a = [] \<and> hint_actions a = (DoHintAction, h) # rest)"

fun stuck_call :: "hint_call \<Rightarrow> hint_manager \<Rightarrow> bool" where
  "stuck_call (DoHintCall h ovr) s \<longleftrightarrow> circular h s"
| "stuck_call (ActionsCall as) s \<longleftrightarrow> (\<exists>h rest. as = (DoHintAction, h) # rest \<and> circular h s)"

lemma circular_run_not_Some: "hint_run now c s = Some y \<Longrightarrow> \<not> stuck_call c s"
proof (induction rule: hint_run.raw_induct [rotated, consumes 1, case_names call])
  case (call run now c s y)
  show ?case
  proof
    assume st: "stuck_call c s"
    show False
    proof (cases c)
      case (DoHintCall h ovr)
      with st obtain a l rest where a: "nm s = Some l" "\<not> exit_pending l" "actions s h = Some a" "enabled a"
        "node_actions a = []" "hint_actions a = (DoHintAction, h) # rest"
        by (auto simp: circular_def)
      have rq: "Request now (request_of ovr a) h l = (True, l)"
        using a by (simp add: Request_def request_of_def split: option.split)
      define s1 where "s1 = DoHintStatus now h (timeout_of ovr a) (s\<lparr>nm := Some l\<rparr>)"
      have c1: "circular h s1" "hint_actions (the (actions s1 h)) = (DoHintAction, h) # rest"
        using a by (auto simp: circular_def s1_def DoHintStatus_def update_hint_def)
      have "\<exists>r. run now (ActionsCall ((DoHintAction, h) # rest)) s1 = Some r"
        using call(2) DoHintCall a rq c1(2) unfolding s1_def timeout_of_def
        by (cases ovr)
          (auto simp: ValidateHint_def IsHintSupported_def IsHintEnabled_def Let_def split: Option.bind_splits)
      then obtain r where "run now (ActionsCall ((DoHintAction, h) # rest)) s1 = Some r" by blast
      from call(1) [OF this] c1(1) show False by simp
    next
      case (ActionsCall as)
      with st obtain h rest where h: "as = (DoHintAction, h) # rest" "circular h s" by auto
      with ActionsCall call(2) obtain r where "run now (DoHintCall h None) s = Some r"
        by (auto split: Option.bind_splits)
      from call(1) [OF this] h(2) show False by simp
    qed
  qed
qed

section \<open>Properties\<close>

text \<open>
  C36. \<open>DoHint\<close> returns, for every time, hint and override, whenever the hints that do
  other hints form no cycle; and afterwards every hint has the hint actions it had, so that the hints
  still form no cycle and every later call returns as well.\<close>

theorem do_hint_terminates:
  assumes "acyclic_hints rank s"
  shows "(\<exists>b s'. DoHint now h s = Some (b, s') \<and> graph s' = graph s \<and> acyclic_hints rank s') \<and>
    (\<exists>b s'. DoHint_override now h t s = Some (b, s') \<and> graph s' = graph s \<and> acyclic_hints rank s')"
  using do_hint_run [OF assms, of now h None] do_hint_run [OF assms, of now h "Some t"] assms
  by (auto simp: DoHint_def DoHint_override_def acyclic_hints_def)

definition plain_hint :: "node_action list \<Rightarrow> (hint_action_type \<times> string) list \<Rightarrow> hint" where
  "plain_hint as has = \<lparr>node_actions = as, hint_actions = has, enabled = True, status = new_status (init_timeout as)\<rparr>"

definition sample_hints :: hint_manager where
  "sample_hints = \<lparr>nm = Some sample_looper, actions =
     [''LAUNCH'' \<mapsto> plain_hint [\<lparr>node_index = 0, value_index = 0, timeout_ms = 8\<rparr>] [],
      ''GAME'' \<mapsto> plain_hint [] [(DoHintAction, ''LAUNCH''), (MaskHintAction, ''LAUNCH'')]]\<rparr>"

theorem do_hint_terminates_witness:
  "\<exists>b s'. DoHint 0 ''GAME'' sample_hints = Some (b, s') \<and> graph s' = graph sample_hints"
proof -
  have "acyclic_hints (\<lambda>h. if h = ''GAME'' then 1 else 0) sample_hints"
    by (auto simp: acyclic_hints_def graph_def sample_hints_def plain_hint_def split: if_splits)
  from do_hint_terminates [OF this, of 0 "''GAME''"] show ?thesis by blast
qed

text \<open>
  Nothing keeps a configuration from making a hint do itself, and then \<open>DoHint\<close>
  never returns: the recursion through \<open>DoHintAction\<close> has no bound.\<close>

theorem circular_hint_never_returns:
  assumes "nm s = Some l" "\<not> exit_pending l" "actions s h = Some a" "enabled a" "node_actions a = []"
    "hint_actions a = (DoHintAction, h) # rest"
  shows "DoHint now h s = None \<and> DoHint_override now h t s = None"
proof -
  have "circular h s" using assms by (auto simp: circular_def)
  then have "stuck_call (DoHintCall h ovr) s" for ovr by simp
  then have "hint_run now (DoHintCall h ovr) s = None" for ovr
    using circular_run_not_Some by (metis not_Some_eq)
  then show ?thesis by (simp add: DoHint_def DoHint_override_def)
qed

theorem circular_hint_never_returns_witness:
  "DoHint 0 ''A'' \<lparr>nm = Some sample_looper, actions = [''A'' \<mapsto> plain_hint [] [(DoHintAction, ''A'')]]\<rparr> = None"
  using circular_hint_never_returns [of "\<lparr>nm = Some sample_looper, actions = [''A'' \<mapsto> plain_hint [] [(DoHintAction, ''A'')]]\<rparr>"
      sample_looper "''A''" "plain_hint [] [(DoHintAction, ''A'')]" "[]" 0]
  by (simp add: plain_hint_def sample_looper_def)

text \<open>
  \<open>DoHint\<close> of a hint that is unknown, or masked, or without a looper, changes
  nothing and reports failure. Otherwise, for a hint whose node actions are in range and
  that triggers no other hints, it succeeds: every node action now has a request of this
  hint for at least its timeout, no request of another hint moved, the hint's use counter
  is one up (modulo 2^32), and the other hints' records are untouched.\<close>

theorem do_hint_outcome:
  "(\<not> ValidateHint h s \<or> \<not> IsHintEnabled h s \<longrightarrow> DoHint now h s = Some (False, s)) \<and>
   (nm s = Some l \<and> \<not> exit_pending l \<and> actions s h = Some a \<and> enabled a \<and> hint_actions a = [] \<and>
      actions_valid (node_actions a) l \<longrightarrow>
    (\<exists>s' l'. DoHint now h s = Some (True, s') \<and> nm s' = Some l' \<and>
      others_kept h (nodes l) (nodes l') \<and> extends h (nodes l) (nodes l') \<and>
      (\<forall>x\<in>set (node_actions a). \<exists>t\<ge>request_end_time now (timeout_ms x).
         requested h (value_index x) (nodes l' ! node_index x) = Some t) \<and>
      fst (GetHintStats h s') = (fst (GetHintStats h s) + 1) mod 2 ^ 32 \<and>
      (\<forall>k. k \<noteq> h \<longrightarrow> actions s' k = actions s k)))"
proof (intro conjI impI)
  assume "\<not> ValidateHint h s \<or> \<not> IsHintEnabled h s"
  then show "DoHint now h s = Some (False, s)" unfolding DoHint_def by (rule run_refused)
next
  assume a: "nm s = Some l \<and> \<not> exit_pending l \<and> actions s h = Some a \<and> enabled a \<and> hint_actions a = [] \<and>
      actions_valid (node_actions a) l"
  obtain ok l' where rq: "Request now (node_actions a) h l = (ok, l')" by fastforce
  obtain ok2 l2 where cn: "Cancel (node_actions a) h l' = (ok2, l2)" by fastforce
  note spec = request_loop_spec [of "node_actions a" "nodes l" now h True]
  have r: "ok \<and> others_kept h (nodes l) (nodes l') \<and> extends h (nodes l) (nodes l') \<and>
      (\<forall>x\<in>set (node_actions a). \<exists>t\<ge>request_end_time now (timeout_ms x).
         requested h (value_index x) (nodes l' ! node_index x) = Some t)"
    using rq a spec by (auto simp: Request_def actions_valid_def split: prod.splits)
  have v: "ValidateHint h s" "IsHintEnabled h s"
    using a by (simp_all add: ValidateHint_def IsHintSupported_def IsHintEnabled_def)
  let ?s = "DoHintStatus now h (max_timeout (status a)) (s\<lparr>nm := Some l'\<rparr>)"
  have "DoHint now h s = Some (True, ?s)"
    using run_request [OF v, of a now None l'] a rq r
    by (simp add: DoHint_def request_of_def timeout_of_def ActionsCall_run)
  moreover have "fst (GetHintStats h ?s) = (fst (GetHintStats h s) + 1) mod 2 ^ 32"
    using a v by (simp add: GetHintStats_def ValidateHint_def IsHintSupported_def DoHintStatus_def
        update_hint_def do_status_def Let_def)
  ultimately show "\<exists>s' l'. DoHint now h s = Some (True, s') \<and> nm s' = Some l' \<and>
      others_kept h (nodes l) (nodes l') \<and> extends h (nodes l) (nodes l') \<and>
      (\<forall>x\<in>set (node_actions a). \<exists>t\<ge>request_end_time now (timeout_ms x).
         requested h (value_index x) (nodes l' ! node_index x) = Some t) \<and>
      fst (GetHintStats h s') = (fst (GetHintStats h s) + 1) mod 2 ^ 32 \<and>
      (\<forall>k. k \<noteq> h \<longrightarrow> actions s' k = actions s k)"
    using r by (intro exI [of _ ?s] exI [of _ l']) (simp add: DoHintStatus_def update_hint_def)
qed

theorem do_hint_outcome_witness:
  "\<exists>s' l' t. DoHint 0 ''LAUNCH'' sample_hints = Some (True, s') \<and> nm s' = Some l' \<and>
    requested ''LAUNCH'' 0 (nodes l' ! 0) = Some t \<and> t \<ge> 8000000"
proof -
  let ?a = "plain_hint [\<lparr>node_index = 0, value_index = 0, timeout_ms = 8\<rparr>] []"
  have a: "nm sample_hints = Some sample_looper \<and> \<not> exit_pending sample_looper \<and>
      actions sample_hints ''LAUNCH'' = Some ?a \<and> enabled ?a \<and> hint_actions ?a = [] \<and>
      actions_valid (node_actions ?a) sample_looper"
    by (simp add: sample_hints_def plain_hint_def sample_looper_def actions_valid_def new_node_def)
  have e: "request_end_time 0 8 = 8000000"
    by (simp add: request_end_time_def TIME_MAX_def to_ms_nonneg)
  from do_hint_outcome [of "''LAUNCH''" sample_hints 0 sample_looper ?a] a e show ?thesis
    by (auto simp: plain_hint_def)
qed

lemma ActionsCall_Nil: "hint_run now (ActionsCall []) s = Some (True, s)"
  by (subst ActionsCall_run) simp

lemma ActionsCall_Mask: "hint_run now (ActionsCall ((MaskHintAction, m) # as)) s =
    hint_run now (ActionsCall as) (if actions s m = None then s else set_enabled m False s)"
  by (subst ActionsCall_run) simp

text \<open>
  Masking: after doing a hint that masks \<open>m\<close>, every \<open>DoHint\<close> of \<open>m\<close> is
  refused without any effect, until the masking hint is ended; then \<open>m\<close> is enabled again.\<close>

theorem mask_until_end:
  assumes "nm s = Some l" "\<not> exit_pending l" "actions s h = Some a" "enabled a"
    "node_actions a = []" "hint_actions a = [(MaskHintAction, m)]" "m \<noteq> h" "actions s m = Some b"
  shows "\<exists>s1. DoHint now h s = Some (True, s1) \<and> DoHint t m s1 = Some (False, s1) \<and>
    fst (EndHint t h s1) \<and> IsHintEnabled m (snd (EndHint t h s1))"
proof -
  let ?s0 = "DoHintStatus now h (max_timeout (status a)) (s\<lparr>nm := Some l\<rparr>)"
  let ?s1 = "set_enabled m False ?s0"
  have v: "ValidateHint h s" "IsHintEnabled h s"
    using assms by (simp_all add: ValidateHint_def IsHintSupported_def IsHintEnabled_def)
  have rq: "Request now (request_of None a) h (the (nm s)) = (True, l)"
    using assms by (simp add: request_of_def Request_def)
  have m: "actions ?s0 m = Some b" using assms by (simp add: DoHintStatus_def update_hint_def)
  have "DoHint now h s = Some (True, ?s1)"
    using run_request [OF v assms(3) rq] assms(6) m
    by (simp add: DoHint_def timeout_of_def ActionsCall_Mask ActionsCall_Nil)
  moreover have "\<not> IsHintEnabled m ?s1" using m by (simp add: IsHintEnabled_def set_enabled_def update_hint_def)
  then have "DoHint t m ?s1 = Some (False, ?s1)" unfolding DoHint_def by (intro run_refused) simp
  moreover have "fst (EndHint t h ?s1) \<and> IsHintEnabled m (snd (EndHint t h ?s1))"
    using assms by (simp add: EndHint_def ValidateHint_def IsHintSupported_def set_enabled_def update_hint_def
        DoHintStatus_def EndHintStatus_def EndHintActions_def IsHintEnabled_def Cancel_def Let_def)
  ultimately show ?thesis by blast
qed

theorem mask_until_end_witness:
  "\<exists>s1. DoHint 0 ''M'' (sample_hints\<lparr>actions := (actions sample_hints)(''M'' \<mapsto> plain_hint [] [(MaskHintAction, ''LAUNCH'')])\<rparr>)
      = Some (True, s1) \<and> DoHint 5 ''LAUNCH'' s1 = Some (False, s1)"
  using mask_until_end [of "sample_hints\<lparr>actions := (actions sample_hints)(''M'' \<mapsto> plain_hint [] [(MaskHintAction, ''LAUNCH'')])\<rparr>"
      sample_looper "''M''" "plain_hint [] [(MaskHintAction, ''LAUNCH'')]" "''LAUNCH''"
      "plain_hint [\<lparr>node_index = 0, value_index = 0, timeout_ms = 8\<rparr>] []" 0 5]
  by (auto simp: sample_hints_def plain_hint_def sample_looper_def)

text \<open>
  A hint that is ended early is accounted twice. Ending it adds the time it ran and
  moves its end to now; the next \<open>DoHint\<close> finds the hint expired and adds the same
  stretch, from the old start to the old end, once more.\<close>

theorem early_end_counted_twice:
  assumes "start_time st = t0" "t0 \<le> t1" "t1 < end_time st" "t1 < t2"
  shows "duration_ms (do_status t2 timeout (end_status t1 st)) =
    (duration_ms st + 2 * to_ms (t1 - t0)) mod 2 ^ 64"
proof -
  define x where "x = to_ms (t1 - t0)"
  have "duration_ms (do_status t2 timeout (end_status t1 st)) = ((duration_ms st + x) mod 2 ^ 64 + x) mod 2 ^ 64"
    using assms by (simp add: do_status_def end_status_def Let_def x_def)
  also have "\<dots> = (duration_ms st + x + x) mod 2 ^ 64" by (rule mod_add_left_eq)
  also have "duration_ms st + x + x = duration_ms st + 2 * to_ms (t1 - t0)" by (simp add: x_def)
  finally show ?thesis .
qed

theorem early_end_counted_twice_witness:
  "duration_ms (do_status 20000000000 10000 (end_status 3000000000 (do_status 0 10000 (new_status 10000)))) = 6000"
proof -
  have "do_status 0 10000 (new_status 10000) =
      \<lparr>max_timeout = 10000, start_time = 0, end_time = 10000000000, stat_count = 1, duration_ms = 0\<rparr>"
    by (simp add: do_status_def new_status_def Let_def TIME_MIN_def wrap64_def to_ms_nonneg
        signed_take_bit_int_eq_self)
  then show ?thesis
    using early_end_counted_twice [of "do_status 0 10000 (new_status 10000)" 0 3000000000 20000000000 10000]
    by (simp add: to_ms_nonneg)
qed

text \<open>
  \<open>Request\<close> guards its end time against overflow, \<open>DoHintStatus\<close> does not: for a
  timeout too long to represent, the request never expires while the statistics record an
  end time before now.\<close>

theorem status_end_time_overflows:
  assumes "0 \<le> now" "2 ^ 63 \<le> now + timeout * 1000000" "now + timeout * 1000000 < 2 ^ 64" "0 < timeout"
    "now \<le> TIME_MAX"
  shows "request_end_time now timeout = TIME_MAX \<and> end_time (do_status now timeout st) < now"
proof -
  have "\<not> timeout < to_ms (TIME_MAX - now)"
    using to_ms_le [of "TIME_MAX - now"] assms by (simp add: TIME_MAX_def)
  moreover have "wrap64 (now + timeout * 1000000) = now + timeout * 1000000 - 2 ^ 64"
  proof -
    define y where "y = now + timeout * 1000000 - 2 ^ 63"
    have y: "0 \<le> y" "y < 2 ^ 63" using assms(2,3) by (simp_all add: y_def)
    have "wrap64 (now + timeout * 1000000) = (y + 2 ^ 64) mod 2 ^ 64 - 2 ^ 63"
      by (simp add: wrap64_def signed_take_bit_eq_take_bit_shift take_bit_eq_mod y_def add.commute)
    also have "(y + 2 ^ 64) mod 2 ^ 64 = y" using y by simp
    also have "y - 2 ^ 63 = now + timeout * 1000000 - 2 ^ 64" by (simp add: y_def)
    finally show ?thesis .
  qed
  ultimately show ?thesis
    using assms by (simp add: request_end_time_def do_status_def Let_def)
qed

theorem status_end_time_overflows_witness:
  "end_time (do_status 0 10000000000000 (new_status 10000000000000)) < 0 \<and>
   request_end_time 0 10000000000000 = TIME_MAX"
  using status_end_time_overflows [of 0 10000000000000 "new_status 10000000000000"]
  by (simp add: TIME_MAX_def)

end
