(* ===== verification/HintConfig.thy ===== *)
theory HintConfig
  imports HintManager
begin

text \<open>
  Reading the configuration: \<open>ParseNodes\<close>, \<open>ParseActions\<close> and \<open>GetFromJSON\<close> of
  \<open>power-libperfmgr/libperfmgr/HintManager.cc\<close>. The JSON library is not part of the
  program: its reader is the parameter \<open>parse\<close>, and the accessors of \<open>Json::Value\<close>
  that the code calls are the fields of a \<open>json_api\<close>, about which nothing is assumed. A
  parse error, which the code reports by an empty result, is None inside the loops. The
  thread start of \<open>GetFromJSON\<close> is not modelled.
\<close>

record 'j json_api =
  member :: "'j \<Rightarrow> string \<Rightarrow> 'j"
  element :: "'j \<Rightarrow> nat \<Rightarrow> 'j"
  json_size :: "'j \<Rightarrow> nat"
  asString :: "'j \<Rightarrow> string"
  json_empty :: "'j \<Rightarrow> bool"
  isUInt64 :: "'j \<Rightarrow> bool"
  asUInt64 :: "'j \<Rightarrow> nat"
  isBool :: "'j \<Rightarrow> bool"
  asBool :: "'j \<Rightarrow> bool"

definition elements :: "('j, 'm) json_api_scheme \<Rightarrow> 'j \<Rightarrow> 'j list" where
  "elements J v = map (element J v) [0..<json_size J v]"

section \<open>Nodes\<close>

fun parse_values :: "'j json_api \<Rightarrow> bool \<Rightarrow> string list \<Rightarrow> 'j list \<Rightarrow> request_group list option" where
  "parse_values J is_file seen [] = Some []"
| "parse_values J is_file seen (v # vs) =
     (let value = asString J v in
      if value \<in> set seen then None
      else if is_file \<and> value = [] then None
      else map_option (\<lambda>gs. \<lparr>request_value = value, request_map = []\<rparr> # gs)
             (parse_values J is_file (value # seen) vs))"

definition node_is_file :: "string \<Rightarrow> bool option" where
  "node_is_file node_type =
     (if node_type = [] \<or> node_type = ''File'' then Some True
      else if node_type = ''Property'' then Some False else None)"

definition bool_member :: "('j, 'm) json_api_scheme \<Rightarrow> 'j \<Rightarrow> string \<Rightarrow> bool" where
  "bool_member J v k =
     (let x = member J v k in if json_empty J x \<or> \<not> isBool J x then False else asBool J x)"

definition parse_default_index :: "'j json_api \<Rightarrow> 'j \<Rightarrow> nat \<Rightarrow> nat option" where
  "parse_default_index J v n =
     (let d = member J v ''DefaultIndex'';
          default_index = (if json_empty J d \<or> \<not> isUInt64 J d then n - 1 else asUInt64 J d)
      in if default_index > n - 1 then None else Some default_index)"

text \<open>The body of the loop of \<open>ParseNodes\<close> after the name and path are accepted.\<close>

definition parse_node :: "'j json_api \<Rightarrow> string \<Rightarrow> string \<Rightarrow> 'j \<Rightarrow> node option" where
  "parse_node J nname path v =
     do { is_file \<leftarrow> node_is_file (asString J (member J v ''Type''));
          gs \<leftarrow> parse_values J is_file [] (elements J (member J v ''Values''));
          if gs = [] then None
          else do { d \<leftarrow> parse_default_index J v (length gs);
                    Some (new_node nname path gs d (bool_member J v ''ResetOnInit'')
                      (if is_file then FileNode (bool_member J v ''HoldFd'') else PropertyNode)) } }"

fun parse_nodes_loop :: "'j json_api \<Rightarrow> string list \<Rightarrow> string list \<Rightarrow> 'j list \<Rightarrow> node list option" where
  "parse_nodes_loop J names paths [] = Some []"
| "parse_nodes_loop J names paths (v # vs) =
     (let nname = asString J (member J v ''Name''); path = asString J (member J v ''Path'') in
      if nname = [] then None
      else if nname \<in> set names then None
      else if path = [] then None
      else if path \<in> set paths then None
      else do { n \<leftarrow> parse_node J nname path v;
                ns \<leftarrow> parse_nodes_loop J (nname # names) (path # paths) vs;
                Some (n # ns) })"

definition ParseNodes :: "'j json_api \<Rightarrow> (string \<Rightarrow> 'j option) \<Rightarrow> string \<Rightarrow> node list" where
  "ParseNodes J parse doc =
     (case parse doc of
        None \<Rightarrow> []
      | Some root \<Rightarrow>
          (case parse_nodes_loop J [] [] (elements J (member J root ''Nodes'')) of
             None \<Rightarrow> [] | Some ns \<Rightarrow> ns))"

section \<open>Actions\<close>

definition default_hint :: hint where
  "default_hint = \<lparr>node_actions = [], hint_actions = [], enabled = True, status = new_status 0\<rparr>"

text \<open>\<open>actions_parsed[k]\<close> changed by \<open>f\<close>; a key that is not there is made first.\<close>

definition hint_at :: "string \<Rightarrow> (string \<times> hint) list \<Rightarrow> hint" where
  "hint_at k m = (case map_of m k of None \<Rightarrow> default_hint | Some a \<Rightarrow> a)"

definition change_hint :: "string \<Rightarrow> (hint \<Rightarrow> hint) \<Rightarrow> (string \<times> hint) list \<Rightarrow> (string \<times> hint) list" where
  "change_hint k f m =
     (if map_of m k = None then m @ [(k, f default_hint)]
      else map (\<lambda>(k', a). (k', if k' = k then f a else a)) m)"

definition action_type :: "string \<Rightarrow> hint_action_type option" where
  "action_type s =
     (if s = [] then Some NodeAction
      else if s = ''DoHint'' then Some DoHintAction
      else if s = ''EndHint'' then Some EndHintAction
      else if s = ''MaskHint'' then Some MaskHintAction
      else None)"

definition nodes_index :: "node list \<Rightarrow> string \<Rightarrow> nat option" where
  "nodes_index ns = map_of (rev (zip (map name ns) [0..<length ns]))"

definition parse_node_action :: "'j json_api \<Rightarrow> node list \<Rightarrow> 'j \<Rightarrow> node_action option" where
  "parse_node_action J ns v =
     do { i \<leftarrow> nodes_index ns (asString J (member J v ''Node''));
          vi \<leftarrow> GetValueIndex (asString J (member J v ''Value'')) (ns ! i);
          (let d = member J v ''Duration'' in
           if json_empty J d \<or> \<not> isUInt64 J d then None
           else Some \<lparr>node_index = i, value_index = vi, timeout_ms = wrap64 (int (asUInt64 J d))\<rparr>) }"

fun parse_actions_loop ::
  "'j json_api \<Rightarrow> node list \<Rightarrow> (string \<times> hint) list \<Rightarrow> 'j list \<Rightarrow> (string \<times> hint) list option"
where
  "parse_actions_loop J ns m [] = Some m"
| "parse_actions_loop J ns m (v # vs) =
     (let hint_type = asString J (member J v ''PowerHint'') in
      if hint_type = [] then None
      else do { ty \<leftarrow> action_type (asString J (member J v ''Type''));
                if ty = NodeAction then
                  do { a \<leftarrow> parse_node_action J ns v;
                       if node_index a \<in> node_index ` set (node_actions (hint_at hint_type m)) then None
                       else parse_actions_loop J ns
                              (change_hint hint_type (\<lambda>h. h\<lparr>node_actions := node_actions h @ [a]\<rparr>) m) vs }
                else
                  (let value = asString J (member J v ''Value'') in
                   if value = [] then None
                   else parse_actions_loop J ns
                          (change_hint hint_type (\<lambda>h. h\<lparr>hint_actions := hint_actions h @ [(ty, value)]\<rparr>) m) vs) })"

definition ParseActions ::
  "'j json_api \<Rightarrow> (string \<Rightarrow> 'j option) \<Rightarrow> string \<Rightarrow> node list \<Rightarrow> (string \<times> hint) list"
where
  "ParseActions J parse doc ns =
     (case parse doc of
        None \<Rightarrow> []
      | Some root \<Rightarrow>
          (case parse_actions_loop J ns [] (elements J (member J root ''Actions'')) of
             None \<Rightarrow> [] | Some m \<Rightarrow> m))"

definition GetFromJSON ::
  "'j json_api \<Rightarrow> (string \<Rightarrow> 'j option) \<Rightarrow> string option \<Rightarrow> hint_manager option"
where
  "GetFromJSON J parse file =
     (case file of
        None \<Rightarrow> None
      | Some doc \<Rightarrow>
          (let ns = ParseNodes J parse doc in
           if ns = [] then None
           else
             (let m = ParseActions J parse doc ns in
              if m = [] then None
              else snd (InitHintStatus (Some \<lparr>nm = Some \<lparr>nodes = ns, exit_pending = False\<rparr>, actions = map_of m\<rparr>)))))"

section \<open>What the parser accepts\<close>

definition node_ok :: "node \<Rightarrow> bool" where
  "node_ok n \<longleftrightarrow> name n \<noteq> [] \<and> node_path n \<noteq> [] \<and> distinct (GetValues n) \<and>
     default_val_index n < length (req_sorted n) \<and> current_val_index n = default_val_index n \<and>
     (\<forall>g\<in>set (req_sorted n). request_map g = []) \<and> (kind n \<noteq> PropertyNode \<longrightarrow> [] \<notin> set (GetValues n))"

lemma parse_values_ok:
  "parse_values J f seen vs = Some gs \<Longrightarrow>
     distinct (map request_value gs) \<and> set (map request_value gs) \<inter> set seen = {} \<and>
     (\<forall>g\<in>set gs. request_map g = []) \<and> (f \<longrightarrow> [] \<notin> set (map request_value gs))"
  by (induction J f seen vs arbitrary: gs rule: parse_values.induct)
    (fastforce simp: Let_def split: if_splits)+

lemma parse_node_ok:
  assumes "parse_node J nname path v = Some n" "nname \<noteq> []" "path \<noteq> []"
  shows "node_ok n" "name n = nname" "node_path n = path"
proof -
  from assms(1) obtain f gs d where gs: "parse_values J f [] (elements J (member J v ''Values'')) = Some gs"
    "gs \<noteq> []" "parse_default_index J v (length gs) = Some d"
    "n = new_node nname path gs d (bool_member J v ''ResetOnInit'')
      (if f then FileNode (bool_member J v ''HoldFd'') else PropertyNode)"
    by (auto simp: parse_node_def split: Option.bind_splits if_splits)
  then have "d < length gs" by (cases gs) (auto simp: parse_default_index_def Let_def split: if_splits)
  with gs parse_values_ok [OF gs(1)] assms(2,3) show "node_ok n" "name n = nname" "node_path n = path"
    by (auto simp: node_ok_def new_node_def GetValues_def)
qed

lemma parse_nodes_loop_ok:
  "parse_nodes_loop J names paths vs = Some ns \<Longrightarrow>
     (\<forall>n\<in>set ns. node_ok n) \<and> distinct (map name ns) \<and> distinct (map node_path ns) \<and>
     set (map name ns) \<inter> set names = {} \<and> set (map node_path ns) \<inter> set paths = {}"
proof (induction J names paths vs arbitrary: ns rule: parse_nodes_loop.induct)
  case (2 J names paths v vs)
  let ?nn = "asString J (member J v ''Name'')" and ?p = "asString J (member J v ''Path'')"
  from "2.prems" obtain n ns' where n: "?nn \<noteq> []" "?nn \<notin> set names" "?p \<noteq> []" "?p \<notin> set paths"
    "parse_node J ?nn ?p v = Some n" "parse_nodes_loop J (?nn # names) (?p # paths) vs = Some ns'" "ns = n # ns'"
    by (auto simp: Let_def split: if_splits Option.bind_splits)
  with "2.IH" [OF refl refl n(1-4) n(5,6)] parse_node_ok [OF n(5) n(1,3)] show ?case by auto
qed simp

definition action_in :: "node list \<Rightarrow> node_action \<Rightarrow> bool" where
  "action_in ns a \<longleftrightarrow> node_index a < length ns \<and> value_index a < length (req_sorted (ns ! node_index a))"

definition hint_ok :: "node list \<Rightarrow> hint \<Rightarrow> bool" where
  "hint_ok ns a \<longleftrightarrow> enabled a \<and> distinct (map node_index (node_actions a)) \<and>
     (\<forall>x\<in>set (node_actions a). action_in ns x) \<and>
     (\<forall>(ty, v)\<in>set (hint_actions a). ty \<noteq> NodeAction \<and> v \<noteq> [])"

lemma hint_ok_default: "hint_ok ns default_hint"
  by (simp add: hint_ok_def default_hint_def)

lemma nodes_index_SomeD: "nodes_index ns s = Some i \<Longrightarrow> i < length ns"
  unfolding nodes_index_def by (auto dest!: map_of_SomeD simp: set_zip)

lemma GetValueIndex_SomeD: "GetValueIndex v n = Some i \<Longrightarrow> i < length (req_sorted n)"
  by (auto simp: GetValueIndex_def Let_def split: if_splits)

lemma parse_node_action_ok: "parse_node_action J ns v = Some a \<Longrightarrow> action_in ns a"
  by (auto simp: parse_node_action_def action_in_def Let_def split: Option.bind_splits if_splits
      dest: nodes_index_SomeD GetValueIndex_SomeD)

definition hints_ok :: "node list \<Rightarrow> (string \<times> hint) list \<Rightarrow> bool" where
  "hints_ok ns m \<longleftrightarrow> distinct (map fst m) \<and> (\<forall>p\<in>set m. fst p \<noteq> [] \<and> hint_ok ns (snd p))"

lemma hint_at_ok: "hints_ok ns m \<Longrightarrow> hint_ok ns (hint_at k m)"
  by (auto simp: hints_ok_def hint_at_def hint_ok_default split: option.split dest: map_of_SomeD)

lemma change_hint_ok:
  assumes m: "hints_ok ns m" and k: "k \<noteq> []" and f: "hint_ok ns (f (hint_at k m))"
  shows "hints_ok ns (change_hint k f m)"
proof (cases "map_of m k")
  case None
  then have "k \<notin> fst ` set m" by (simp add: map_of_eq_None_iff)
  with None assms show ?thesis by (auto simp: hints_ok_def change_hint_def hint_at_def)
next
  case (Some a)
  have eq: "map fst (change_hint k f m) = map fst m"
    using Some by (simp add: change_hint_def comp_def case_prod_beta)
  have "hint_ok ns (f b)" if "(k, b) \<in> set m" for b
  proof -
    have "map_of m k = Some b" using m that by (simp add: hints_ok_def)
    then show ?thesis using f by (simp add: hint_at_def)
  qed
  then have "fst p \<noteq> [] \<and> hint_ok ns (snd p)" if "p \<in> set (change_hint k f m)" for p
    using that m k Some by (fastforce simp: hints_ok_def change_hint_def)
  with eq m show ?thesis by (simp add: hints_ok_def)
qed

lemma parse_actions_loop_ok:
  "parse_actions_loop J ns m vs = Some m' \<Longrightarrow> hints_ok ns m \<Longrightarrow> hints_ok ns m'"
proof (induction vs arbitrary: m)
  case (Cons v vs)
  let ?h = "asString J (member J v ''PowerHint'')"
  have h: "?h \<noteq> []" using Cons.prems(1) by (auto simp: Let_def split: if_splits)
  then obtain ty where ty: "action_type (asString J (member J v ''Type'')) = Some ty"
    using Cons.prems(1) by (auto simp: Let_def split: Option.bind_splits)
  have ok: "hint_ok ns (hint_at ?h m)" by (rule hint_at_ok [OF Cons.prems(2)])
  show ?case
  proof (cases "ty = NodeAction")
    case True
    with Cons.prems(1) h ty obtain a where a: "parse_node_action J ns v = Some a"
      "node_index a \<notin> node_index ` set (node_actions (hint_at ?h m))"
      "parse_actions_loop J ns (change_hint ?h (\<lambda>h. h\<lparr>node_actions := node_actions h @ [a]\<rparr>) m) vs = Some m'"
      by (auto simp: Let_def split: Option.bind_splits if_splits)
    have "hint_ok ns ((hint_at ?h m)\<lparr>node_actions := node_actions (hint_at ?h m) @ [a]\<rparr>)"
      using ok a(2) parse_node_action_ok [OF a(1)] by (auto simp: hint_ok_def)
    then have "hints_ok ns (change_hint ?h (\<lambda>h. h\<lparr>node_actions := node_actions h @ [a]\<rparr>) m)"
      by (intro change_hint_ok Cons.prems(2) h)
    from Cons.IH [OF a(3) this] show ?thesis .
  next
    case False
    let ?v = "asString J (member J v ''Value'')"
    from Cons.prems(1) h ty False have a: "?v \<noteq> []"
      "parse_actions_loop J ns (change_hint ?h (\<lambda>h. h\<lparr>hint_actions := hint_actions h @ [(ty, ?v)]\<rparr>) m) vs = Some m'"
      by (auto simp: Let_def split: if_splits)
    have "hint_ok ns ((hint_at ?h m)\<lparr>hint_actions := hint_actions (hint_at ?h m) @ [(ty, ?v)]\<rparr>)"
      using ok a(1) False by (auto simp: hint_ok_def)
    then have "hints_ok ns (change_hint ?h (\<lambda>h. h\<lparr>hint_actions := hint_actions h @ [(ty, ?v)]\<rparr>) m)"
      by (intro change_hint_ok Cons.prems(2) h)
    from Cons.IH [OF a(2) this] show ?thesis .
  qed
qed simp

section \<open>Properties\<close>

text \<open>
  Whatever document the reader is given and whatever its JSON values are, the nodes
  \<open>ParseNodes\<close> accepts have distinct names and distinct paths, none of them empty; each has
  distinct values, at least one, none empty for a file; its default index is in range, it
  starts at its default and without requests.\<close>

theorem parsed_nodes_wellformed:
  "(\<forall>n\<in>set (ParseNodes J parse doc). node_ok n) \<and> distinct (map name (ParseNodes J parse doc)) \<and>
   distinct (map node_path (ParseNodes J parse doc))"
  using parse_nodes_loop_ok [of J "[]" "[]"]
  by (auto simp: ParseNodes_def split: option.split)

text \<open>
  A hint manager made from a configuration file has a looper and at least one hint;
  all hints are enabled and unused, none names a node twice or an index out of range, and so
  every \<open>Request\<close> of a hint's actions succeeds.\<close>

theorem parsed_hints_wellformed:
  assumes "GetFromJSON J parse file = Some hm"
  shows "\<exists>l. nm hm = Some l \<and> nodes l \<noteq> [] \<and> (\<exists>h. actions hm h \<noteq> None) \<and>
    (\<forall>h a. actions hm h = Some a \<longrightarrow> h \<noteq> [] \<and> enabled a \<and> GetHintStats h hm = (0, 0) \<and>
       distinct (map node_index (node_actions a)) \<and> actions_valid (node_actions a) l \<and>
       fst (Request now (node_actions a) k l))"
proof -
  obtain doc where doc: "file = Some doc" using assms by (auto simp: GetFromJSON_def split: option.splits)
  let ?ns = "ParseNodes J parse doc" and ?m = "ParseActions J parse doc (ParseNodes J parse doc)"
  let ?l = "\<lparr>nodes = ?ns, exit_pending = False\<rparr>"
  have hm: "hm = \<lparr>nm = Some ?l, actions = map_option (\<lambda>a. a\<lparr>status := new_status (init_timeout (node_actions a))\<rparr>) \<circ> map_of ?m\<rparr>"
    and ne: "?ns \<noteq> []" "?m \<noteq> []"
    using assms doc by (auto simp: GetFromJSON_def InitHintStatus_def Let_def split: if_splits)
  have e: "hints_ok ?ns []" by (simp add: hints_ok_def)
  then have "hints_ok ?ns ?m"
    by (auto simp: ParseActions_def split: option.split intro: parse_actions_loop_ok [OF _ e])
  then have ok: "k \<noteq> [] \<and> hint_ok ?ns b" if "map_of ?m k = Some b" for k b
    using map_of_SomeD [OF that] by (fastforce simp: hints_ok_def)
  have "h \<noteq> [] \<and> enabled a \<and> GetHintStats h hm = (0, 0) \<and>
       distinct (map node_index (node_actions a)) \<and> actions_valid (node_actions a) ?l \<and>
       fst (Request now (node_actions a) k ?l)" if a: "actions hm h = Some a" for h a
  proof -
    obtain b where b: "map_of ?m h = Some b"
      "a = b\<lparr>status := new_status (init_timeout (node_actions b))\<rparr>" using a hm by auto
    have v: "actions_valid (node_actions a) ?l"
      using ok [OF b(1)] b(2) by (auto simp: hint_ok_def actions_valid_def action_in_def)
    obtain r ns' where rq: "request_loop now k (node_actions a) True ?ns = (r, ns')" by fastforce
    have "r" using request_loop_spec [OF _ rq] v by (simp add: actions_valid_def)
    moreover have "GetHintStats h hm = (0, 0)"
      using b(1) by (simp add: GetHintStats_def ValidateHint_def IsHintSupported_def hm new_status_def)
    ultimately show ?thesis
      using rq v ok [OF b(1)] b(2) by (simp add: hint_ok_def Request_def)
  qed
  moreover have "\<exists>h. actions hm h \<noteq> None"
  proof -
    obtain k b m' where "?m = (k, b) # m'" using ne(2) by (cases ?m) auto
    then have "map_of ?m k = Some b" by simp
    then have "actions hm k \<noteq> None" by (simp add: hm)
    then show ?thesis by blast
  qed
  ultimately show ?thesis using ne(1) by (intro exI [of _ ?l]) (simp add: hm)
qed

text \<open>A small JSON, for the witness.\<close>

datatype json = JNull | JNum nat | JStr string | JArr "json list" | JObj "(string \<times> json) list"

definition small_api :: "json json_api" where
  "small_api =
    \<lparr>member = (\<lambda>v k. case v of JObj m \<Rightarrow> (case map_of m k of Some x \<Rightarrow> x | None \<Rightarrow> JNull) | _ \<Rightarrow> JNull),
     element = (\<lambda>v i. case v of JArr xs \<Rightarrow> if i < length xs then xs ! i else JNull | _ \<Rightarrow> JNull),
     json_size = (\<lambda>v. case v of JArr xs \<Rightarrow> length xs | _ \<Rightarrow> 0),
     asString = (\<lambda>v. case v of JStr s \<Rightarrow> s | _ \<Rightarrow> []),
     json_empty = (\<lambda>v. v = JNull), isUInt64 = (\<lambda>v. case v of JNum _ \<Rightarrow> True | _ \<Rightarrow> False),
     asUInt64 = (\<lambda>v. case v of JNum n \<Rightarrow> n | _ \<Rightarrow> 0), isBool = (\<lambda>_. False), asBool = (\<lambda>_. False)\<rparr>"

definition small_config :: json where
  "small_config = JObj
    [(''Nodes'', JArr [JObj [(''Name'', JStr ''cpu''), (''Path'', JStr ''/max''),
       (''Values'', JArr [JStr ''high'', JStr ''low''])]]),
     (''Actions'', JArr [JObj [(''PowerHint'', JStr ''LAUNCH''), (''Node'', JStr ''cpu''),
       (''Value'', JStr ''high''), (''Duration'', JNum 500)]])]"

theorem parsed_hints_wellformed_witness:
  "\<exists>hm l. GetFromJSON small_api (\<lambda>_. Some small_config) (Some []) = Some hm \<and> nm hm = Some l \<and> nodes l \<noteq> []"
proof -
  obtain hm where hm: "GetFromJSON small_api (\<lambda>_. Some small_config) (Some []) = Some hm"
    by (simp add: GetFromJSON_def ParseNodes_def ParseActions_def elements_def small_config_def
        parse_node_def node_is_file_def parse_default_index_def bool_member_def action_type_def
        parse_node_action_def nodes_index_def GetValueIndex_def change_hint_def hint_at_def
        default_hint_def new_node_def InitHintStatus_def Let_def small_api_def upt_rec)
  from parsed_hints_wellformed [OF hm] hm show ?thesis by blast
qed

end
