(* ===== verification/HintClient.thy ===== *)
theory HintClient
  imports HintManager
begin

text \<open>
  What the clients of the hint manager rely on (\<open>Power.cpp\<close>,
  \<open>PowerSessionManager.cpp\<close> and \<open>InteractionHandler.cpp\<close> under
  \<open>power-libperfmgr\<close>): the requests they make of it, as a locale whose laws are proved
  for the model of \<open>HintManager.cc\<close>. A client is modelled as a state transformer that
  also yields the requests it makes, in their order; \<open>serve_all\<close> runs them.
\<close>

datatype hint_req = ReqDo string | ReqDoFor string int | ReqEnd string

fun hint_of :: "hint_req \<Rightarrow> string" where
  "hint_of (ReqDo h) = h"
| "hint_of (ReqDoFor h _) = h"
| "hint_of (ReqEnd h) = h"

definition serve :: "int \<Rightarrow> hint_req \<Rightarrow> hint_manager \<Rightarrow> (bool \<times> hint_manager) option" where
  "serve now r s =
     (case r of
        ReqDo h \<Rightarrow> DoHint now h s
      | ReqDoFor h t \<Rightarrow> DoHint_override now h t s
      | ReqEnd h \<Rightarrow> Some (EndHint now h s))"

fun serve_all :: "('r \<Rightarrow> 's \<Rightarrow> (bool \<times> 's) option) \<Rightarrow> 'r list \<Rightarrow> 's \<Rightarrow> 's option" where
  "serve_all f [] s = Some s"
| "serve_all f (r # rs) s = (case f r s of None \<Rightarrow> None | Some (_, s') \<Rightarrow> serve_all f rs s')"

lemma serve_all_append:
  "serve_all f (rs @ qs) s = Option.bind (serve_all f rs s) (serve_all f qs)"
  by (induction rs arbitrary: s) (auto split: option.split)

section \<open>Sequences of requests\<close>

text \<open>Whether a sequence of requests leaves a hint on, starting from \<open>b\<close>, if it is not one for a time
  that has passed; and whether the sequence takes and ends the hint \<open>g\<close> strictly in turn, never takes
  it for a time only, and concerns no other.\<close>

fun holds :: "hint_req list \<Rightarrow> bool \<Rightarrow> bool" where
  "holds [] b = b"
| "holds (ReqDo _ # rs) b = holds rs True"
| "holds (ReqEnd _ # rs) b = holds rs False"
| "holds (ReqDoFor _ _ # rs) b = holds rs True"

fun alternates :: "string \<Rightarrow> hint_req list \<Rightarrow> bool \<Rightarrow> bool" where
  "alternates g [] b = True"
| "alternates g (ReqDo h # rs) b \<longleftrightarrow> \<not> b \<and> h = g \<and> alternates g rs True"
| "alternates g (ReqEnd h # rs) b \<longleftrightarrow> b \<and> h = g \<and> alternates g rs False"
| "alternates g (ReqDoFor h _ # rs) b \<longleftrightarrow> False"

lemma holds_append [simp]: "holds (rs @ qs) b = holds qs (holds rs b)"
  by (induction rs b rule: holds.induct) simp_all

lemma alternates_append [simp]: "alternates g (rs @ qs) b \<longleftrightarrow> alternates g rs b \<and> alternates g qs (holds rs b)"
  by (induction g rs b rule: alternates.induct) auto

section \<open>The interface\<close>

locale hint_service =
  fixes run :: "'r \<Rightarrow> 's \<Rightarrow> (bool \<times> 's) option"
    and good :: "'s \<Rightarrow> bool"
    and unknown :: "'r \<Rightarrow> 's \<Rightarrow> bool"
  assumes run_returns: "good s \<Longrightarrow> \<exists>b s'. run r s = Some (b, s') \<and> good s'"
    and run_unknown: "unknown r s \<Longrightarrow> run r s = Some (False, s)"
begin

lemma all_return: "good s \<Longrightarrow> \<exists>s'. serve_all run rs s = Some s' \<and> good s'"
proof (induction rs arbitrary: s)
  case Nil
  then show ?case by simp
next
  case (Cons r rs)
  obtain b s1 where s1: "run r s = Some (b, s1)" "good s1" using run_returns [OF Cons.prems] by blast
  from Cons.IH [OF s1(2)] s1(1) show ?case by simp
qed

lemma all_unknown: "\<forall>r\<in>set rs. unknown r s \<Longrightarrow> serve_all run rs s = Some s"
  by (induction rs) (simp_all add: run_unknown)

end

lemma acyclic_same_graph: "acyclic_hints rank s \<Longrightarrow> graph s' = graph s \<Longrightarrow> acyclic_hints rank s'"
  by (simp add: acyclic_hints_def)

lemma serve_returns:
  assumes "acyclic_hints rank s"
  shows "\<exists>b s'. serve now r s = Some (b, s') \<and> acyclic_hints rank s'"
proof (cases r)
  case (ReqDo h)
  then show ?thesis
    using do_hint_run [OF assms, of now h None] acyclic_same_graph [OF assms]
    by (auto simp: serve_def DoHint_def)
next
  case (ReqDoFor h t)
  then show ?thesis
    using do_hint_run [OF assms, of now h "Some t"] acyclic_same_graph [OF assms]
    by (auto simp: serve_def DoHint_override_def)
next
  case (ReqEnd h)
  obtain b s' where e: "EndHint now h s = (b, s')" by fastforce
  have "graph s' = graph s" using graph_EndHint [of now h s] e by simp
  with e ReqEnd acyclic_same_graph [OF assms] show ?thesis by (simp add: serve_def)
qed

lemma serve_unknown: "actions s (hint_of r) = None \<Longrightarrow> serve now r s = Some (False, s)"
  by (cases r)
    (simp_all add: serve_def DoHint_def DoHint_override_def EndHint_def run_refused ValidateHint_def
      IsHintSupported_def)

interpretation hm: hint_service "serve now" "acyclic_hints rank" "\<lambda>r s. actions s (hint_of r) = None"
  for now rank
  by unfold_locales (simp_all add: serve_returns serve_unknown)

end
