(* ===== verification/PowerSession.thy ===== *)
theory PowerSession
  imports HintClient Binary64 "HOL-Library.Word"
begin

text \<open>
  ADPF hint sessions and their manager: \<open>PowerHintSession.cpp\<close> and
  \<open>PowerSessionManager.cpp\<close> under \<open>power-libperfmgr/aidl\<close>. The world holds the
  session objects that are alive, the manager's registered sessions and thread reference counts,
  and what the code leaves outside itself: the clamp the kernel has for each thread, the messages
  given to the looper and the requests to the hint manager, both in the order they were made.
  An operation yields None where the source has no defined behaviour (a call on a session that
  has been destroyed, overflow of int64_t, a conversion of an infinity or NaN).

  Tunables are read from properties once; they form \<open>adpf_config\<close>. The system calls' results
  are parameters in \<open>power_env\<close>.
\<close>

record adpf_config =
  sPidPOver :: double
  sPidPUnder :: double
  sPidI :: double
  sPidDOver :: double
  sPidDUnder :: double
  sPidIInit :: int
  sPidIHighLimit :: int
  sPidILowLimit :: int
  sUclampMinHighLimit :: int
  sUclampMinLowLimit :: int
  sUclampMinGranularity :: int
  sStaleTimeFactor :: int
  sPSamplingWindow :: int
  sISamplingWindow :: int
  sDSamplingWindow :: int

record power_env =
  uclamp_enabled :: bool
  setattr_ok :: "int \<Rightarrow> bool"
  profile_ok :: "int \<Rightarrow> bool \<Rightarrow> bool"
  monitor_running :: bool

record app_hint_desc =
  tgid :: int
  uid :: int
  threadIds :: "int list"
  target_duration :: int
  current_min :: int
  is_active :: bool
  update_count :: int
  integral_error :: int
  previous_error :: int

record hint_session =
  mDescriptor :: app_hint_desc
  kAdpfRate :: int
  mIsMonitoringStale :: bool
  mLastUpdatedTime :: int
  mSessionClosed :: bool

datatype looper_call = ToManager | ToStale addr int | RemoveStale addr

record power_world =
  alive :: "addr \<rightharpoonup> hint_session"
  mSessions :: "addr list"
  mTidRefCountMap :: "int \<rightharpoonup> int"
  mActive :: bool
  mDisplayRefreshRate :: int
  hint_manager_set :: bool
  uclamps :: "int \<rightharpoonup> int \<times> int"
  looper_calls :: "looper_call list"
  requests :: "hint_req list"

datatype binder_status = STATUS_OK | EX_ILLEGAL_STATE | EX_ILLEGAL_ARGUMENT | EX_UNSUPPORTED_OPERATION

definition kMaxUclampValue :: int where "kMaxUclampValue = 1024"
definition kDisableBoostHintName :: string where "kDisableBoostHintName = ''ADPF_DISABLE_TA_BOOST''"

definition put_session :: "addr \<Rightarrow> hint_session \<Rightarrow> power_world \<Rightarrow> power_world" where
  "put_session a x w = w\<lparr>alive := (alive w)(a \<mapsto> x)\<rparr>"

definition put_desc :: "addr \<Rightarrow> hint_session \<Rightarrow> app_hint_desc \<Rightarrow> power_world \<Rightarrow> power_world" where
  "put_desc a x d w = put_session a (x\<lparr>mDescriptor := d\<rparr>) w"

definition to_looper :: "looper_call \<Rightarrow> power_world \<Rightarrow> power_world" where
  "to_looper m w = w\<lparr>looper_calls := looper_calls w @ [m]\<rparr>"

definition request :: "hint_req \<Rightarrow> power_world \<Rightarrow> power_world" where
  "request r w = w\<lparr>requests := requests w @ [r]\<rparr>"

section \<open>The manager\<close>

definition new_desc :: "int \<Rightarrow> int \<Rightarrow> int list \<Rightarrow> app_hint_desc" where
  "new_desc tg u tids = \<lparr>tgid = tg, uid = u, threadIds = tids, target_duration = 0, current_min = 0,
     is_active = True, update_count = 0, integral_error = 0, previous_error = 0\<rparr>"

definition updateHintMode :: "string \<Rightarrow> bool \<Rightarrow> power_world \<Rightarrow> power_world" where
  "updateHintMode md on w =
     (if on \<and> take 8 md = ''REFRESH_'' then
        if md = ''REFRESH_120FPS'' then w\<lparr>mDisplayRefreshRate := 120\<rparr>
        else if md = ''REFRESH_90FPS'' then w\<lparr>mDisplayRefreshRate := 90\<rparr>
        else if md = ''REFRESH_60FPS'' then w\<lparr>mDisplayRefreshRate := 60\<rparr>
        else w
      else w)"

definition add_tid :: "power_env \<Rightarrow> int \<Rightarrow> (int \<rightharpoonup> int) \<Rightarrow> (int \<rightharpoonup> int)" where
  "add_tid e t m =
     (case m t of
        None \<Rightarrow> if \<not> profile_ok e t True then m else m(t \<mapsto> 1)
      | Some n \<Rightarrow> if n \<le> 0 then m else m(t \<mapsto> n + 1))"

definition remove_tid :: "int \<Rightarrow> (int \<rightharpoonup> int) \<Rightarrow> (int \<rightharpoonup> int)" where
  "remove_tid t m =
     (case m t of
        None \<Rightarrow> m
      | Some n \<Rightarrow> if n - 1 \<le> 0 then m(t := None) else m(t \<mapsto> n - 1))"

definition addPowerSession :: "power_env \<Rightarrow> addr \<Rightarrow> int list \<Rightarrow> power_world \<Rightarrow> power_world" where
  "addPowerSession e a tids w =
     w\<lparr>mTidRefCountMap := fold (add_tid e) tids (mTidRefCountMap w), mSessions := List.insert a (mSessions w)\<rparr>"

definition removePowerSession :: "addr \<Rightarrow> int list \<Rightarrow> power_world \<Rightarrow> power_world" where
  "removePowerSession a tids w =
     w\<lparr>mTidRefCountMap := fold remove_tid tids (mTidRefCountMap w), mSessions := remove1 a (mSessions w)\<rparr>"

definition getStaleTime :: "adpf_config \<Rightarrow> hint_session \<Rightarrow> int" where
  "getStaleTime cfg x = mLastUpdatedTime x + (kAdpfRate x sdiv 1000000) * sStaleTimeFactor cfg * 1000000"

definition isStale :: "adpf_config \<Rightarrow> int \<Rightarrow> hint_session \<Rightarrow> bool" where
  "isStale cfg now x \<longleftrightarrow> getStaleTime cfg x \<le> now"

definition counts_as_active :: "adpf_config \<Rightarrow> int \<Rightarrow> power_world \<Rightarrow> addr \<Rightarrow> bool" where
  "counts_as_active cfg now w a \<longleftrightarrow>
     (case alive w a of None \<Rightarrow> False | Some x \<Rightarrow> is_active (mDescriptor x) \<and> \<not> isStale cfg now x)"

definition isAnySessionActive :: "adpf_config \<Rightarrow> int \<Rightarrow> power_world \<Rightarrow> (bool option \<times> power_world) option" where
  "isAnySessionActive cfg now w =
     (if list_ex (\<lambda>a. alive w a = None) (mSessions w) then None
      else let active = list_ex (counts_as_active cfg now w) (mSessions w)
           in Some (if active = mActive w then (None, w) else (Some active, w\<lparr>mActive := active\<rparr>)))"

definition enableSystemTopAppBoost :: "power_world \<Rightarrow> power_world" where
  "enableSystemTopAppBoost w = (if hint_manager_set w then request (ReqEnd kDisableBoostHintName) w else w)"

definition disableSystemTopAppBoost :: "power_world \<Rightarrow> power_world" where
  "disableSystemTopAppBoost w = (if hint_manager_set w then request (ReqDo kDisableBoostHintName) w else w)"

definition manager_message :: "adpf_config \<Rightarrow> int \<Rightarrow> power_world \<Rightarrow> power_world option" where
  "manager_message cfg now w =
     (case isAnySessionActive cfg now w of
        None \<Rightarrow> None
      | Some (None, w1) \<Rightarrow> Some w1
      | Some (Some active, w1) \<Rightarrow> Some (if active then disableSystemTopAppBoost w1 else enableSystemTopAppBoost w1))"

section \<open>A session\<close>

definition updateUniveralBoostMode :: "power_world \<Rightarrow> power_world" where
  "updateUniveralBoostMode = to_looper ToManager"

definition sched_setattr :: "power_env \<Rightarrow> int \<times> int \<Rightarrow> int \<Rightarrow> (int \<rightharpoonup> int \<times> int) \<Rightarrow> (int \<rightharpoonup> int \<times> int)" where
  "sched_setattr e c t m = (if uclamp_enabled e \<and> setattr_ok e t then m(t \<mapsto> c) else m)"

definition clamp_min :: "int \<Rightarrow> int \<Rightarrow> int" where
  "clamp_min mn mx = min (max 0 mn) mx"

definition clamp_max :: "int \<Rightarrow> int \<Rightarrow> int" where
  "clamp_max mn mx = max (clamp_min mn mx) (max 0 mx)"

definition setUclamp :: "power_env \<Rightarrow> addr \<Rightarrow> int \<Rightarrow> int \<Rightarrow> power_world \<Rightarrow> power_world option" where
  "setUclamp e a mn mx w =
     (case alive w a of
        None \<Rightarrow> None
      | Some x \<Rightarrow>
          (let d = mDescriptor x; lo = clamp_min mn mx; hi = clamp_max mn mx
           in Some (put_desc a x (d\<lparr>current_min := lo\<rparr>)
                (w\<lparr>uclamps := fold (sched_setattr e (lo, hi)) (threadIds d) (uclamps w)\<rparr>))))"

definition create_session ::
  "adpf_config \<Rightarrow> power_env \<Rightarrow> int \<Rightarrow> addr \<Rightarrow> int \<Rightarrow> int \<Rightarrow> int list \<Rightarrow> int \<Rightarrow> int \<Rightarrow> power_world \<Rightarrow> power_world option"
where
  "create_session cfg e now a tg u tids dur rate w =
     (let x = \<lparr>mDescriptor = (new_desc tg u tids)\<lparr>target_duration := dur\<rparr>, kAdpfRate = rate,
              mIsMonitoringStale = False, mLastUpdatedTime = now, mSessionClosed = False\<rparr>
      in setUclamp e a (sUclampMinHighLimit cfg) kMaxUclampValue
           (addPowerSession e a tids (put_session a x w)))"

definition pause :: "power_env \<Rightarrow> addr \<Rightarrow> power_world \<Rightarrow> (binder_status \<times> power_world) option" where
  "pause e a w = do {
     x \<leftarrow> alive w a;
     if \<not> is_active (mDescriptor x) then Some (EX_ILLEGAL_STATE, w)
     else do {
       w1 \<leftarrow> setUclamp e a 0 kMaxUclampValue w;
       x1 \<leftarrow> alive w1 a;
       Some (STATUS_OK, updateUniveralBoostMode (put_desc a x1 ((mDescriptor x1)\<lparr>is_active := False\<rparr>) w1))
     }
   }"

definition resume :: "adpf_config \<Rightarrow> power_env \<Rightarrow> addr \<Rightarrow> power_world \<Rightarrow> (binder_status \<times> power_world) option" where
  "resume cfg e a w = do {
     x \<leftarrow> alive w a;
     if is_active (mDescriptor x) then Some (EX_ILLEGAL_STATE, w)
     else do {
       let d = mDescriptor x;
       w1 \<leftarrow> setUclamp e a (sUclampMinHighLimit cfg) kMaxUclampValue
         (put_desc a x (d\<lparr>is_active := True, integral_error := max (sPidIInit cfg) (integral_error d)\<rparr>) w);
       Some (STATUS_OK, updateUniveralBoostMode w1)
     }
   }"

definition close_session :: "power_env \<Rightarrow> addr \<Rightarrow> power_world \<Rightarrow> (binder_status \<times> power_world) option" where
  "close_session e a w = do {
     x \<leftarrow> alive w a;
     if mSessionClosed x then Some (EX_ILLEGAL_STATE, w)
     else do {
       w1 \<leftarrow> setUclamp e a 0 kMaxUclampValue (to_looper (RemoveStale a) (put_session a (x\<lparr>mSessionClosed := True\<rparr>) w));
       Some (STATUS_OK, updateUniveralBoostMode (removePowerSession a (threadIds (mDescriptor x)) w1))
     }
   }"

definition destroy_session :: "power_env \<Rightarrow> addr \<Rightarrow> power_world \<Rightarrow> power_world option" where
  "destroy_session e a w = do {
     (_, w1) \<leftarrow> close_session e a w;
     Some (w1\<lparr>alive := (alive w1)(a := None)\<rparr>)
   }"

text \<open>The ratio of the durations is an integer division, converted afterwards.\<close>

definition updateTargetWorkDuration ::
  "adpf_config \<Rightarrow> addr \<Rightarrow> int \<Rightarrow> power_world \<Rightarrow> (binder_status \<times> power_world) option"
where
  "updateTargetWorkDuration cfg a t w = do {
     x \<leftarrow> alive w a;
     if t \<le> 0 then Some (EX_ILLEGAL_ARGUMENT, w)
     else do {
       let d = mDescriptor x;
       scaled \<leftarrow> to_int64 (dmul (of_int64 (integral_error d)) (of_int64 (target_duration d sdiv t)));
       Some (STATUS_OK, put_desc a x (d\<lparr>integral_error := max (sPidIInit cfg) scaled, target_duration := t\<rparr>) w)
     }
   }"

section \<open>The stale timer\<close>

definition updateStaleTimer :: "adpf_config \<Rightarrow> power_env \<Rightarrow> int \<Rightarrow> addr \<Rightarrow> power_world \<Rightarrow> power_world option" where
  "updateStaleTimer cfg e now a w = do {
     x \<leftarrow> alive w a;
     if \<not> monitor_running e then Some w
     else do {
       let x1 = x\<lparr>mLastUpdatedTime := now\<rparr>;
       let w1 = put_session a x1 w;
       let w2 = (if getStaleTime cfg x < now then updateUniveralBoostMode w1 else w1);
       Some (if mIsMonitoringStale x1 then w2
             else put_session a (x1\<lparr>mIsMonitoringStale := True\<rparr>)
                    (to_looper (ToStale a (getStaleTime cfg x1 - now)) w2))
     }
   }"

definition setStale :: "power_env \<Rightarrow> addr \<Rightarrow> power_world \<Rightarrow> power_world option" where
  "setStale e a w = map_option updateUniveralBoostMode (setUclamp e a 0 kMaxUclampValue w)"

definition stale_message :: "adpf_config \<Rightarrow> power_env \<Rightarrow> int \<Rightarrow> addr \<Rightarrow> power_world \<Rightarrow> power_world option" where
  "stale_message cfg e now a w = do {
     x \<leftarrow> alive w a;
     if getStaleTime cfg x < now then do {
       w1 \<leftarrow> setStale e a w;
       x1 \<leftarrow> alive w1 a;
       Some (put_session a (x1\<lparr>mIsMonitoringStale := False\<rparr>) w1)
     }
     else Some (to_looper (ToStale a (getStaleTime cfg x - now)) w)
   }"

section \<open>Reporting work\<close>

record pid_acc =
  err_sum :: int
  derivative_sum :: int
  pid_integral :: int
  pid_previous :: int

definition ns_to_100us :: "int \<Rightarrow> int" where
  "ns_to_100us ns = ns sdiv 100000"

definition window_start :: "int \<Rightarrow> int \<Rightarrow> int" where
  "window_start window len = (if window = 0 \<or> window > len then 0 else len - window)"

definition pid_step :: "adpf_config \<Rightarrow> int \<Rightarrow> int \<times> int \<times> int \<Rightarrow> int \<Rightarrow> int \<Rightarrow> pid_acc \<Rightarrow> pid_acc option" where
  "pid_step cfg target starts k actual acc = (case starts of (p_start, i_start, d_start) \<Rightarrow> do {
     _ \<leftarrow> ck64 \<bar>actual\<bar>;
     _ \<leftarrow> ck64 (target * 20);
     diff \<leftarrow> ck64 (actual - target);
     let error = ns_to_100us diff;
     ds \<leftarrow> (if d_start \<le> k then Option.bind (ck64 (error - pid_previous acc)) (\<lambda>x. ck64 (derivative_sum acc + x))
            else Some (derivative_sum acc));
     es \<leftarrow> (if p_start \<le> k then ck64 (err_sum acc + error) else Some (err_sum acc));
     it \<leftarrow> (if i_start \<le> k then do {
              m \<leftarrow> ck64 (error * ns_to_100us target);
              x \<leftarrow> ck64 (pid_integral acc + m);
              Some (max (sPidILowLimit cfg) (min (sPidIHighLimit cfg) x))
            } else Some (pid_integral acc));
     Some \<lparr>err_sum = es, derivative_sum = ds, pid_integral = it, pid_previous = error\<rparr>
   })"

fun pid_loop :: "adpf_config \<Rightarrow> int \<Rightarrow> int \<times> int \<times> int \<Rightarrow> int \<Rightarrow> int list \<Rightarrow> pid_acc \<Rightarrow> pid_acc option" where
  "pid_loop cfg target starts k [] acc = Some acc"
| "pid_loop cfg target starts k (x # xs) acc =
     Option.bind (pid_step cfg target starts k x acc) (pid_loop cfg target starts (k + 1) xs)"

definition p_out :: "adpf_config \<Rightarrow> int \<Rightarrow> int \<Rightarrow> int option" where
  "p_out cfg es n =
     Option.bind (ddiv (dmul (if es > 0 then sPidPOver cfg else sPidPUnder cfg) (of_int64 es)) (of_int64 n)) to_int64"

definition i_out :: "adpf_config \<Rightarrow> int \<Rightarrow> int option" where
  "i_out cfg it = to_int64 (dmul (sPidI cfg) (of_int64 it))"

definition d_out :: "adpf_config \<Rightarrow> int \<Rightarrow> int \<Rightarrow> int \<Rightarrow> int option" where
  "d_out cfg ds dt n = do {
     x \<leftarrow> ddiv (dmul (if ds > 0 then sPidDOver cfg else sPidDUnder cfg) (of_int64 ds)) (of_int64 dt);
     y \<leftarrow> ddiv x (of_int64 n);
     to_int64 y
   }"

definition in32 :: "int \<Rightarrow> bool" where
  "in32 x \<longleftrightarrow> - (2 ^ 31) \<le> x \<and> x < 2 ^ 31"

text \<open>The step of the clamp for an output of the controller: the output is cut to 32 bits, the
  sum may not overflow, the result is kept between the limits.\<close>

definition next_min :: "adpf_config \<Rightarrow> int \<Rightarrow> int \<Rightarrow> int option" where
  "next_min cfg cur output =
     (let s = cur + signed_take_bit 31 output
      in if in32 s then Some (max (sUclampMinLowLimit cfg) (min (sUclampMinHighLimit cfg) s)) else None)"

text \<open>The controller on a descriptor: the output, and the descriptor with the error terms and the
  count of reports brought up to date.\<close>

definition pid_control :: "adpf_config \<Rightarrow> int list \<Rightarrow> app_hint_desc \<Rightarrow> (int \<times> app_hint_desc) option" where
  "pid_control cfg actual d =
     (let target = target_duration d;
          len = int (length actual);
          p_start = window_start (sPSamplingWindow cfg) len;
          i_start = window_start (sISamplingWindow cfg) len;
          d_start = window_start (sDSamplingWindow cfg) len;
          first = min p_start (min i_start d_start)
      in do {
        acc \<leftarrow> pid_loop cfg target (p_start, i_start, d_start) first (drop (nat first) actual)
                 \<lparr>err_sum = 0, derivative_sum = 0, pid_integral = integral_error d, pid_previous = previous_error d\<rparr>;
        pOut \<leftarrow> p_out cfg (err_sum acc) (len - p_start);
        iOut \<leftarrow> i_out cfg (pid_integral acc);
        dOut \<leftarrow> d_out cfg (derivative_sum acc) (ns_to_100us target) (len - d_start);
        pi \<leftarrow> ck64 (pOut + iOut);
        output \<leftarrow> ck64 (pi + dOut);
        Some (output, d\<lparr>integral_error := pid_integral acc, previous_error := pid_previous acc,
                        update_count := (update_count d + 1) mod 2 ^ 64\<rparr>)
      })"

definition apply_output :: "adpf_config \<Rightarrow> power_env \<Rightarrow> addr \<Rightarrow> int \<Rightarrow> power_world \<Rightarrow> power_world option" where
  "apply_output cfg e a output w = do {
     x \<leftarrow> alive w a;
     if output = 0 then Some w
     else do {
       n \<leftarrow> next_min cfg (current_min (mDescriptor x)) output;
       if sUclampMinGranularity cfg < \<bar>current_min (mDescriptor x) - n\<bar> then setUclamp e a n kMaxUclampValue w
       else Some w
     }
   }"

definition fresh_integral :: "adpf_config \<Rightarrow> power_env \<Rightarrow> int \<Rightarrow> hint_session \<Rightarrow> app_hint_desc" where
  "fresh_integral cfg e now x =
     (let d = mDescriptor x
      in if monitor_running e \<and> isStale cfg now x then d\<lparr>integral_error := max (sPidIInit cfg) (integral_error d)\<rparr> else d)"

text \<open>The clock is read twice, for the staleness check and for the timer.\<close>

definition reportActualWorkDuration ::
  "adpf_config \<Rightarrow> power_env \<Rightarrow> int \<Rightarrow> int \<Rightarrow> addr \<Rightarrow> int list \<Rightarrow> power_world \<Rightarrow> (binder_status \<times> power_world) option"
where
  "reportActualWorkDuration cfg e now now' a actual w = do {
     x \<leftarrow> alive w a;
     if target_duration (mDescriptor x) = 0 then Some (EX_ILLEGAL_STATE, w)
     else if actual = [] then Some (EX_ILLEGAL_ARGUMENT, w)
     else if \<not> is_active (mDescriptor x) then Some (EX_ILLEGAL_STATE, w)
     else do {
       (output, d) \<leftarrow> pid_control cfg actual (fresh_integral cfg e now x);
       w1 \<leftarrow> updateStaleTimer cfg e now' a (put_desc a x d w);
       w2 \<leftarrow> apply_output cfg e a output w1;
       Some (STATUS_OK, w2)
     }
   }"

section \<open>Everything that can happen\<close>

inductive pstep :: "adpf_config \<Rightarrow> (power_env \<Rightarrow> bool) \<Rightarrow> power_world \<Rightarrow> power_world \<Rightarrow> bool"
  for cfg :: adpf_config and E :: "power_env \<Rightarrow> bool" where
  create: "alive w a = None \<Longrightarrow> E e \<Longrightarrow> create_session cfg e now a tg u tids dur rate w = Some w' \<Longrightarrow> pstep cfg E w w'"
| destroy: "E e \<Longrightarrow> destroy_session e a w = Some w' \<Longrightarrow> pstep cfg E w w'"
| pause: "E e \<Longrightarrow> pause e a w = Some (st, w') \<Longrightarrow> pstep cfg E w w'"
| resume: "E e \<Longrightarrow> resume cfg e a w = Some (st, w') \<Longrightarrow> pstep cfg E w w'"
| close: "E e \<Longrightarrow> close_session e a w = Some (st, w') \<Longrightarrow> pstep cfg E w w'"
| target: "updateTargetWorkDuration cfg a t w = Some (st, w') \<Longrightarrow> pstep cfg E w w'"
| report: "E e \<Longrightarrow> reportActualWorkDuration cfg e now now' a actual w = Some (st, w') \<Longrightarrow> pstep cfg E w w'"
| stale: "E e \<Longrightarrow> stale_message cfg e now a w = Some w' \<Longrightarrow> pstep cfg E w w'"
| manager: "manager_message cfg now w = Some w' \<Longrightarrow> pstep cfg E w w'"
| hint_mode: "pstep cfg E w (updateHintMode md on w)"

definition power_start :: "bool \<Rightarrow> power_world" where
  "power_start hm = \<lparr>alive = Map.empty, mSessions = [], mTidRefCountMap = Map.empty, mActive = False,
     mDisplayRefreshRate = 60, hint_manager_set = hm, uclamps = Map.empty, looper_calls = [], requests = []\<rparr>"

definition preachable :: "adpf_config \<Rightarrow> (power_env \<Rightarrow> bool) \<Rightarrow> power_world \<Rightarrow> bool" where
  "preachable cfg E w \<longleftrightarrow> (\<exists>hm. (pstep cfg E)\<^sup>*\<^sup>* (power_start hm) w)"

section \<open>What the operations on a session leave alone\<close>

definition shape :: "power_world \<Rightarrow> addr \<Rightarrow> (int list \<times> bool) option" where
  "shape w a = map_option (\<lambda>x. (threadIds (mDescriptor x), mSessionClosed x)) (alive w a)"

definition same_book :: "power_world \<Rightarrow> power_world \<Rightarrow> bool" where
  "same_book w w' \<longleftrightarrow> mSessions w' = mSessions w \<and> mTidRefCountMap w' = mTidRefCountMap w \<and>
     shape w' = shape w \<and> mActive w' = mActive w \<and> requests w' = requests w \<and>
     hint_manager_set w' = hint_manager_set w"

named_theorems book_intros

lemma same_book_refl [simp, book_intros]: "same_book w w"
  by (simp add: same_book_def)

lemma same_book_trans: "same_book w u \<Longrightarrow> same_book u v \<Longrightarrow> same_book w v"
  by (simp add: same_book_def)

lemma book_looper [simp]: "same_book w (to_looper m u) = same_book w u"
  "same_book w (updateUniveralBoostMode u) = same_book w u"
  by (simp_all add: same_book_def to_looper_def updateUniveralBoostMode_def shape_def fun_eq_iff)

lemma shape_put_session:
  "alive u a = Some y \<Longrightarrow> threadIds (mDescriptor x) = threadIds (mDescriptor y) \<Longrightarrow>
   mSessionClosed x = mSessionClosed y \<Longrightarrow> shape (put_session a x u) = shape u"
  by (rule ext) (simp add: shape_def put_session_def)

lemma put_session_frame [simp]:
  "mSessions (put_session a x u) = mSessions u" "mTidRefCountMap (put_session a x u) = mTidRefCountMap u"
  "mActive (put_session a x u) = mActive u" "requests (put_session a x u) = requests u"
  "hint_manager_set (put_session a x u) = hint_manager_set u" "uclamps (put_session a x u) = uclamps u"
  by (simp_all add: put_session_def)

lemma book_put_session:
  "same_book w u \<Longrightarrow> alive u a = Some y \<Longrightarrow> threadIds (mDescriptor x) = threadIds (mDescriptor y) \<Longrightarrow>
   mSessionClosed x = mSessionClosed y \<Longrightarrow> same_book w (put_session a x u)"
  by (simp add: same_book_def shape_put_session)

lemma alive_put [simp]: "alive (put_session a x w) b = (if b = a then Some x else alive w b)"
  "alive (put_desc a x d w) b = (if b = a then Some (x\<lparr>mDescriptor := d\<rparr>) else alive w b)"
  "alive (to_looper m w) = alive w" "alive (updateUniveralBoostMode w) = alive w"
  by (simp_all add: put_session_def put_desc_def to_looper_def updateUniveralBoostMode_def)

lemma alive_removePowerSession [simp]: "alive (removePowerSession a ts w) = alive w"
  "alive (addPowerSession e a ts w) = alive w"
  by (simp_all add: removePowerSession_def addPowerSession_def)

lemma setUclamp_alive:
  "setUclamp e a mn mx w = Some w' \<Longrightarrow> \<exists>x. alive w a = Some x \<and>
    alive w' = (alive w)(a \<mapsto> x\<lparr>mDescriptor := (mDescriptor x)\<lparr>current_min := clamp_min mn mx\<rparr>\<rparr>)"
  by (auto simp: setUclamp_def Let_def put_desc_def put_session_def split: option.splits)

lemma book_put_desc:
  "same_book w u \<Longrightarrow> alive u a = Some x \<Longrightarrow> threadIds d = threadIds (mDescriptor x) \<Longrightarrow>
   same_book w (put_desc a x d u)"
  unfolding put_desc_def by (rule book_put_session) simp_all

lemma book_uclamps [simp]: "same_book w (u\<lparr>uclamps := m\<rparr>) = same_book w u"
  by (simp add: same_book_def shape_def fun_eq_iff)

lemma book_setUclamp: "setUclamp e a mn mx u = Some w' \<Longrightarrow> same_book w u \<Longrightarrow> same_book w w'"
  by (auto simp: setUclamp_def Let_def split: option.splits intro!: book_put_desc)

lemma book_pause: "pause e a w = Some (st, w') \<Longrightarrow> same_book w w'"
  by (auto simp: pause_def split: Option.bind_splits if_splits
      intro!: book_put_desc dest: book_setUclamp [OF _ same_book_refl])

lemma book_resume: "resume cfg e a w = Some (st, w') \<Longrightarrow> same_book w w'"
  by (auto simp: resume_def Let_def split: Option.bind_splits if_splits
      dest!: book_setUclamp intro: book_put_desc)

lemma book_target: "updateTargetWorkDuration cfg a d w = Some (st, w') \<Longrightarrow> same_book w w'"
  by (auto simp: updateTargetWorkDuration_def Let_def split: Option.bind_splits if_splits intro!: book_put_desc)

lemma book_timer:
  assumes "updateStaleTimer cfg e now a u = Some w'" "same_book w u"
  shows "same_book w w'"
  using assms by (auto simp: updateStaleTimer_def Let_def split: Option.bind_splits if_splits
      intro!: book_put_session)

lemma book_output: "apply_output cfg e a n u = Some w' \<Longrightarrow> same_book w u \<Longrightarrow> same_book w w'"
  by (auto simp: apply_output_def split: Option.bind_splits if_splits dest: book_setUclamp)

lemma pid_control_frame:
  assumes "pid_control cfg actual d = Some (n, d')"
  shows "threadIds d' = threadIds d" "current_min d' = current_min d" "is_active d' = is_active d"
    "target_duration d' = target_duration d"
  using assms by (auto simp: pid_control_def Let_def split: Option.bind_splits)

lemma fresh_integral_frame [simp]:
  "threadIds (fresh_integral cfg e now x) = threadIds (mDescriptor x)"
  "current_min (fresh_integral cfg e now x) = current_min (mDescriptor x)"
  "target_duration (fresh_integral cfg e now x) = target_duration (mDescriptor x)"
  by (simp_all add: fresh_integral_def Let_def)

lemma book_report:
  assumes "reportActualWorkDuration cfg e now now' a actual w = Some (st, w')"
  shows "same_book w w'"
proof -
  obtain x where x: "alive w a = Some x"
    using assms by (auto simp: reportActualWorkDuration_def split: Option.bind_splits)
  show ?thesis
  proof (cases "w' = w")
    case False
    with assms x obtain n d w1 where c: "pid_control cfg actual (fresh_integral cfg e now x) = Some (n, d)"
      "updateStaleTimer cfg e now' a (put_desc a x d w) = Some w1" "apply_output cfg e a n w1 = Some w'"
      by (auto simp: reportActualWorkDuration_def split: Option.bind_splits if_splits)
    have "same_book w (put_desc a x d w)"
      using pid_control_frame(1) [OF c(1)] x by (intro book_put_desc) simp_all
    with c show ?thesis by (blast intro: book_timer book_output)
  qed simp
qed

lemma book_stale: "stale_message cfg e now a w = Some w' \<Longrightarrow> same_book w w'"
  by (auto simp: stale_message_def setStale_def split: Option.bind_splits if_splits
      intro!: book_put_session dest: book_setUclamp [OF _ same_book_refl])

lemma book_hint_mode: "same_book w (updateHintMode md on w)"
  by (auto simp: updateHintMode_def same_book_def shape_def fun_eq_iff)

section \<open>The books of the manager\<close>

definition same_rest :: "power_world \<Rightarrow> power_world \<Rightarrow> bool" where
  "same_rest w w' \<longleftrightarrow> mActive w' = mActive w \<and> requests w' = requests w \<and> hint_manager_set w' = hint_manager_set w"

lemma create_book:
  assumes "create_session cfg e now a tg u tids dur rate w = Some w'"
  shows "mSessions w' = List.insert a (mSessions w) \<and>
    mTidRefCountMap w' = fold (add_tid e) tids (mTidRefCountMap w) \<and>
    shape w' = (shape w)(a \<mapsto> (tids, False)) \<and> same_rest w w'"
proof -
  define x where "x = \<lparr>mDescriptor = (new_desc tg u tids)\<lparr>target_duration := dur\<rparr>, kAdpfRate = rate,
              mIsMonitoringStale = False, mLastUpdatedTime = now, mSessionClosed = False\<rparr>"
  define w1 where "w1 = addPowerSession e a tids (put_session a x w)"
  have "same_book w1 w'"
    using assms book_setUclamp [of e a _ _ w1 w' w1] by (simp add: create_session_def w1_def x_def)
  moreover have "shape w1 = (shape w)(a \<mapsto> (tids, False))"
    by (auto simp: shape_def w1_def x_def new_desc_def fun_eq_iff)
  ultimately show ?thesis by (simp add: same_book_def w1_def addPowerSession_def same_rest_def)
qed

lemma close_book:
  assumes "close_session e a w = Some (st, w')"
  obtains (already) ts where "w' = w" "shape w a = Some (ts, True)" "st = EX_ILLEGAL_STATE"
  | (closing) ts where "shape w a = Some (ts, False)" "mSessions w' = remove1 a (mSessions w)"
      "mTidRefCountMap w' = fold remove_tid ts (mTidRefCountMap w)"
      "shape w' = (shape w)(a \<mapsto> (ts, True))" "same_rest w w'" "st = STATUS_OK"
proof -
  obtain x where x: "alive w a = Some x" using assms by (auto simp: close_session_def split: Option.bind_splits)
  show thesis
  proof (cases "mSessionClosed x")
    case True
    with x assms show thesis by (intro already [of "threadIds (mDescriptor x)"]) (auto simp: close_session_def shape_def)
  next
    case False
    define w0 where "w0 = to_looper (RemoveStale a) (put_session a (x\<lparr>mSessionClosed := True\<rparr>) w)"
    from False x assms obtain w1 where w1: "setUclamp e a 0 kMaxUclampValue w0 = Some w1" "st = STATUS_OK"
      "w' = updateUniveralBoostMode (removePowerSession a (threadIds (mDescriptor x)) w1)"
      by (auto simp: close_session_def w0_def split: Option.bind_splits)
    have b: "same_book w0 w1" using book_setUclamp [OF w1(1)] by simp
    have s: "shape w0 = (shape w)(a \<mapsto> (threadIds (mDescriptor x), True))"
      by (auto simp: shape_def w0_def fun_eq_iff)
    have r: "same_rest w w0" "mSessions w0 = mSessions w" "mTidRefCountMap w0 = mTidRefCountMap w"
      by (simp_all add: w0_def same_rest_def to_looper_def)
    show thesis
    proof (rule closing [of "threadIds (mDescriptor x)"])
      show "shape w' = (shape w)(a \<mapsto> (threadIds (mDescriptor x), True))"
        using b s w1(3) by (simp add: same_book_def shape_def fun_eq_iff)
    qed (use b r w1 x False in \<open>simp_all add: same_book_def same_rest_def removePowerSession_def
        updateUniveralBoostMode_def to_looper_def shape_def\<close>)
  qed
qed

lemma destroy_book:
  assumes "destroy_session e a w = Some w'"
  obtains st w1 where "close_session e a w = Some (st, w1)" "mSessions w' = mSessions w1"
    "mTidRefCountMap w' = mTidRefCountMap w1" "shape w' = (shape w1)(a := None)" "same_rest w1 w'"
proof -
  obtain st w1 where w1: "close_session e a w = Some (st, w1)" "w' = w1\<lparr>alive := (alive w1)(a := None)\<rparr>"
    using assms by (auto simp: destroy_session_def split: Option.bind_splits)
  then show thesis
    by (intro that [OF w1(1)]) (auto simp: shape_def same_rest_def fun_eq_iff)
qed

definition registered_inv :: "power_world \<Rightarrow> bool" where
  "registered_inv w \<longleftrightarrow> distinct (mSessions w) \<and>
     (\<forall>a. a \<in> set (mSessions w) \<longleftrightarrow> (\<exists>ts. shape w a = Some (ts, False)))"

text \<open>How often the registered sessions name a thread.\<close>

definition thread_refs :: "power_world \<Rightarrow> int \<Rightarrow> nat" where
  "thread_refs w t = (\<Sum>a\<leftarrow>mSessions w. case shape w a of None \<Rightarrow> 0 | Some (ts, _) \<Rightarrow> count_list ts t)"

definition counts :: "(int \<Rightarrow> nat) \<Rightarrow> (int \<rightharpoonup> int)" where
  "counts f t = (if f t = 0 then None else Some (int (f t)))"

lemma registered_book: "same_book w w' \<Longrightarrow> registered_inv w \<Longrightarrow> registered_inv w'"
  by (simp add: registered_inv_def same_book_def)

lemma thread_refs_book: "same_book w w' \<Longrightarrow> thread_refs w' = thread_refs w"
  by (simp add: thread_refs_def same_book_def fun_eq_iff)

lemma fold_add_counts:
  assumes "\<forall>t. profile_ok e t True"
  shows "fold (add_tid e) ts (counts f) = counts (\<lambda>t. f t + count_list ts t)"
proof (induction ts arbitrary: f)
  case (Cons t ts)
  have "add_tid e t (counts f) = counts (f(t := f t + 1))"
    using assms by (auto simp: add_tid_def counts_def fun_eq_iff)
  then have "fold (add_tid e) (t # ts) (counts f) = counts (\<lambda>u. (f(t := f t + 1)) u + count_list ts u)"
    using Cons.IH by simp
  also have "(\<lambda>u. (f(t := f t + 1)) u + count_list ts u) = (\<lambda>u. f u + count_list (t # ts) u)"
    by auto
  finally show ?case .
qed simp

lemma fold_remove_counts: "fold remove_tid ts (counts f) = counts (\<lambda>t. f t - count_list ts t)"
proof (induction ts arbitrary: f)
  case (Cons t ts)
  have "remove_tid t (counts f) = counts (f(t := f t - 1))"
    by (auto simp: remove_tid_def counts_def fun_eq_iff)
  then have "fold remove_tid (t # ts) (counts f) = counts (\<lambda>u. (f(t := f t - 1)) u - count_list ts u)"
    using Cons.IH by simp
  also have "(\<lambda>u. (f(t := f t - 1)) u - count_list ts u) = (\<lambda>u. f u - count_list (t # ts) u)"
    by auto
  finally show ?case .
qed simp

lemma refs_cong:
  assumes "\<And>b. b \<in> set xs \<Longrightarrow> s b = s' b"
  shows "(\<Sum>b\<leftarrow>xs. case s b of None \<Rightarrow> (0::nat) | Some (ts, _) \<Rightarrow> count_list ts t) =
    (\<Sum>b\<leftarrow>xs. case s' b of None \<Rightarrow> 0 | Some (ts, _) \<Rightarrow> count_list ts t)"
  using assms by (intro arg_cong [of _ _ sum_list] map_cong) simp_all

lemma refs_insert:
  assumes "a \<notin> set (mSessions w)" "mSessions w' = a # mSessions w" "shape w' = (shape w)(a \<mapsto> (ts, b))"
  shows "thread_refs w' t = count_list ts t + thread_refs w t"
  unfolding thread_refs_def using assms by (auto intro: refs_cong)

lemma refs_remove:
  assumes "a \<in> set (mSessions w)" "distinct (mSessions w)" "shape w a = Some (ts, b)"
    "mSessions w' = remove1 a (mSessions w)" "\<And>c. c \<noteq> a \<Longrightarrow> shape w' c = shape w c"
  shows "thread_refs w t = count_list ts t + thread_refs w' t"
proof -
  let ?f = "\<lambda>s b. case s b of None \<Rightarrow> (0::nat) | Some (ts, _) \<Rightarrow> count_list ts t"
  have "thread_refs w t = ?f (shape w) a + (\<Sum>b\<leftarrow>remove1 a (mSessions w). ?f (shape w) b)"
    unfolding thread_refs_def using sum_list_map_remove1 [OF assms(1), of "?f (shape w)"] .
  moreover have "(\<Sum>b\<leftarrow>remove1 a (mSessions w). ?f (shape w) b) = (\<Sum>b\<leftarrow>remove1 a (mSessions w). ?f (shape w') b)"
    using assms(2,5) by (intro refs_cong) (auto simp: set_remove1_eq)
  ultimately show ?thesis by (simp add: thread_refs_def assms(3,4))
qed

lemma manager_book:
  assumes "manager_message cfg now w = Some w'"
  shows "mSessions w' = mSessions w \<and> mTidRefCountMap w' = mTidRefCountMap w \<and> alive w' = alive w \<and>
    uclamps w' = uclamps w \<and> hint_manager_set w' = hint_manager_set w \<and>
    mActive w' = list_ex (counts_as_active cfg now w) (mSessions w) \<and>
    requests w' = (if mActive w' = mActive w \<or> \<not> hint_manager_set w then requests w
      else requests w @ [if mActive w' then ReqDo kDisableBoostHintName else ReqEnd kDisableBoostHintName])"
  using assms
  by (auto simp: manager_message_def isAnySessionActive_def Let_def disableSystemTopAppBoost_def
      enableSystemTopAppBoost_def request_def split: if_splits)

lemma shape_alive: "alive w' = alive w \<Longrightarrow> shape w' = shape w"
  by (simp add: shape_def fun_eq_iff)

lemma pstep_book:
  assumes "pstep cfg E w w'"
  obtains (same) "same_book w w'"
  | (create) e a ts where "alive w a = None" "E e" "mSessions w' = List.insert a (mSessions w)"
      "mTidRefCountMap w' = fold (add_tid e) ts (mTidRefCountMap w)" "shape w' = (shape w)(a \<mapsto> (ts, False))" "same_rest w w'"
  | (close) a ts where "shape w a = Some (ts, False)" "mSessions w' = remove1 a (mSessions w)"
      "mTidRefCountMap w' = fold remove_tid ts (mTidRefCountMap w)"
      "\<And>b. b \<noteq> a \<Longrightarrow> shape w' b = shape w b" "\<forall>ts. shape w' a \<noteq> Some (ts, False)" "same_rest w w'"
  | (free) a ts where "shape w a = Some (ts, True)" "shape w' = (shape w)(a := None)" "mSessions w' = mSessions w"
      "mTidRefCountMap w' = mTidRefCountMap w" "same_rest w w'"
  | (manager) now where "manager_message cfg now w = Some w'"
  using assms
proof cases
  case (create a e now tg u tids dur rate)
  then show thesis using that(2) [of a e tids] create_book [of cfg e now a tg u tids dur rate w w'] by blast
next
  case (destroy e a)
  from destroy(2) obtain st w1 where w1: "close_session e a w = Some (st, w1)" "mSessions w' = mSessions w1"
    "mTidRefCountMap w' = mTidRefCountMap w1" "shape w' = (shape w1)(a := None)" "same_rest w1 w'"
    by (rule destroy_book)
  from w1(1) show thesis
  proof (cases rule: close_book)
    case (already ts)
    with w1 show thesis by (intro that(4)) simp_all
  next
    case (closing ts)
    with w1 show thesis by (intro that(3) [of a ts]) (simp_all add: same_rest_def)
  qed
next
  case (close e a st)
  from close(2) show thesis
  proof (cases rule: close_book)
    case (already ts)
    then show thesis by (intro that(1)) simp
  next
    case (closing ts)
    then show thesis by (intro that(3) [of a ts]) simp_all
  qed
next
  case (manager now)
  then show thesis by (intro that(5))
qed (auto intro!: that(1) dest: book_pause book_resume book_target book_report book_stale intro: book_hint_mode)

lemma registered_step:
  assumes "pstep cfg E w w'" "registered_inv w"
  shows "registered_inv w'"
  using assms(1)
proof (cases rule: pstep_book)
  case same
  then show ?thesis using assms(2) registered_book by blast
next
  case (create e a ts)
  have "shape w a = None" using create(1) by (simp add: shape_def)
  then show ?thesis using assms(2) create by (auto simp: registered_inv_def)
next
  case (close a ts)
  have d: "distinct (mSessions w)" "\<And>b. b \<in> set (mSessions w) \<longleftrightarrow> (\<exists>ts. shape w b = Some (ts, False))"
    using assms(2) by (simp_all add: registered_inv_def)
  have "b \<in> set (mSessions w') \<longleftrightarrow> (\<exists>ts. shape w' b = Some (ts, False))" for b
    using d close(2) close(4) [of b] close(5) by (cases "b = a") (simp_all add: set_remove1_eq)
  with d(1) close(2) show ?thesis by (simp add: registered_inv_def)
next
  case (free a ts)
  with assms(2) show ?thesis by (auto simp: registered_inv_def)
next
  case (manager now)
  then have "mSessions w' = mSessions w" "shape w' = shape w"
    using manager_book [of cfg now w w'] shape_alive [of w' w] by fast+
  with assms(2) show ?thesis by (simp add: registered_inv_def)
qed

lemma counts_step:
  assumes "pstep cfg E w w'" "registered_inv w" "\<forall>e. E e \<longrightarrow> (\<forall>t. profile_ok e t True)"
    "mTidRefCountMap w = counts (thread_refs w)"
  shows "mTidRefCountMap w' = counts (thread_refs w')"
  using assms(1)
proof (cases rule: pstep_book)
  case same
  then show ?thesis using assms(4) thread_refs_book [OF same] same by (simp add: same_book_def)
next
  case (create e a ts)
  have a: "a \<notin> set (mSessions w)" using create(1) assms(2) by (auto simp: registered_inv_def shape_def)
  with create(3) have "mSessions w' = a # mSessions w" by (simp add: List.insert_def)
  then have "thread_refs w' = (\<lambda>t. thread_refs w t + count_list ts t)"
    using refs_insert [OF a _ create(5)] by (simp add: fun_eq_iff)
  then show ?thesis using fold_add_counts [of e ts "thread_refs w"] assms(3,4) create by simp
next
  case (close a ts)
  have "a \<in> set (mSessions w)" "distinct (mSessions w)"
    using assms(2) close(1) by (auto simp: registered_inv_def)
  then have "thread_refs w t = count_list ts t + thread_refs w' t" for t
    using refs_remove close by blast
  then have "thread_refs w' = (\<lambda>t. thread_refs w t - count_list ts t)" by (simp add: fun_eq_iff)
  then show ?thesis using fold_remove_counts [of ts "thread_refs w"] assms(4) close(3) by simp
next
  case (free a ts)
  then have "a \<notin> set (mSessions w)" using assms(2) by (auto simp: registered_inv_def)
  then have "thread_refs w' t = thread_refs w t" for t
    unfolding thread_refs_def free(3) by (intro refs_cong) (auto simp: free(2))
  then have "thread_refs w' = thread_refs w" by (simp add: fun_eq_iff)
  with assms(4) free(4) show ?thesis by simp
next
  case (manager now)
  then have m: "mSessions w' = mSessions w" "shape w' = shape w" "mTidRefCountMap w' = mTidRefCountMap w"
    using manager_book [of cfg now w w'] shape_alive [of w' w] by fast+
  then have "thread_refs w' = thread_refs w" by (simp add: thread_refs_def fun_eq_iff)
  with m(3) assms(4) show ?thesis by simp
qed

definition boost_inv :: "power_world \<Rightarrow> bool" where
  "boost_inv w \<longleftrightarrow> alternates kDisableBoostHintName (requests w) False \<and>
     (if hint_manager_set w then holds (requests w) False = mActive w else requests w = [])"

lemma boost_step: "pstep cfg E w w' \<Longrightarrow> boost_inv w \<Longrightarrow> boost_inv w'"
proof (erule pstep_book)
  fix now assume "manager_message cfg now w = Some w'" "boost_inv w"
  then show "boost_inv w'"
    using manager_book [of cfg now w w'] by (auto simp: boost_inv_def split: if_splits)
qed (auto simp: boost_inv_def same_book_def same_rest_def)

lemma power_inv_reachable:
  assumes "preachable cfg E w"
  shows "registered_inv w \<and> boost_inv w \<and>
    ((\<forall>e. E e \<longrightarrow> (\<forall>t. profile_ok e t True)) \<longrightarrow> mTidRefCountMap w = counts (thread_refs w))"
proof -
  obtain hm where "(pstep cfg E)\<^sup>*\<^sup>* (power_start hm) w" using assms by (auto simp: preachable_def)
  then show ?thesis
  proof (induction rule: rtranclp_induct)
    case base
    then show ?case
      by (auto simp: registered_inv_def boost_inv_def power_start_def shape_def counts_def thread_refs_def fun_eq_iff)
  next
    case (step u v)
    then show ?case using registered_step boost_step counts_step by blast
  qed
qed

section \<open>Clamps\<close>

definition clamp_inv :: "power_world \<Rightarrow> bool" where
  "clamp_inv w \<longleftrightarrow>
     (\<forall>a x. alive w a = Some x \<longrightarrow> 0 \<le> current_min (mDescriptor x) \<and> current_min (mDescriptor x) \<le> kMaxUclampValue) \<and>
     (\<forall>t lo hi. uclamps w t = Some (lo, hi) \<longrightarrow> 0 \<le> lo \<and> lo \<le> hi \<and> hi = kMaxUclampValue)"

lemma clamp_range: "0 \<le> clamp_min mn kMaxUclampValue" "clamp_min mn kMaxUclampValue \<le> kMaxUclampValue"
  "clamp_max mn kMaxUclampValue = kMaxUclampValue"
  by (simp_all add: clamp_min_def clamp_max_def kMaxUclampValue_def)

lemma fold_setattr:
  "fold (sched_setattr e c) ts m t =
     (if t \<in> set ts \<and> uclamp_enabled e \<and> setattr_ok e t then Some c else m t)"
  by (induction ts arbitrary: m) (auto simp: sched_setattr_def)

lemma clamp_put_session:
  "clamp_inv u \<Longrightarrow> 0 \<le> current_min (mDescriptor x) \<Longrightarrow> current_min (mDescriptor x) \<le> kMaxUclampValue \<Longrightarrow>
   clamp_inv (put_session a x u)"
  by (simp add: clamp_inv_def)

lemma clamp_put_desc:
  "clamp_inv u \<Longrightarrow> 0 \<le> current_min d \<Longrightarrow> current_min d \<le> kMaxUclampValue \<Longrightarrow> clamp_inv (put_desc a x d u)"
  by (simp add: put_desc_def clamp_put_session)

lemma clamp_alive:
  "clamp_inv u \<Longrightarrow> alive u a = Some x \<Longrightarrow> 0 \<le> current_min (mDescriptor x) \<and> current_min (mDescriptor x) \<le> kMaxUclampValue"
  by (simp add: clamp_inv_def)

lemma clamp_same: "clamp_inv u \<Longrightarrow> alive w = alive u \<Longrightarrow> uclamps w = uclamps u \<Longrightarrow> clamp_inv w"
  by (simp add: clamp_inv_def)

lemma clamp_looper [simp]: "clamp_inv (to_looper m u) = clamp_inv u" "clamp_inv (updateUniveralBoostMode u) = clamp_inv u"
  by (simp_all add: clamp_inv_def to_looper_def updateUniveralBoostMode_def)

lemma setUclamp_eq:
  "alive w a = Some x \<Longrightarrow> setUclamp e a mn mx w =
    Some (put_desc a x ((mDescriptor x)\<lparr>current_min := clamp_min mn mx\<rparr>)
      (w\<lparr>uclamps := fold (sched_setattr e (clamp_min mn mx, clamp_max mn mx)) (threadIds (mDescriptor x)) (uclamps w)\<rparr>))"
  by (simp add: setUclamp_def Let_def)

lemma clamp_setUclamp:
  assumes "setUclamp e a mn kMaxUclampValue u = Some w'" "clamp_inv u"
  shows "clamp_inv w'"
proof -
  obtain x where x: "alive u a = Some x" using assms(1) by (auto simp: setUclamp_def split: option.splits)
  have "clamp_inv (u\<lparr>uclamps := fold (sched_setattr e (clamp_min mn kMaxUclampValue, kMaxUclampValue))
      (threadIds (mDescriptor x)) (uclamps u)\<rparr>)"
    using assms(2) by (auto simp: clamp_inv_def fold_setattr clamp_range split: if_splits)
  then show ?thesis using assms(1) setUclamp_eq [OF x] by (auto simp: clamp_range intro!: clamp_put_desc)
qed

lemma clamp_timer:
  assumes "updateStaleTimer cfg e now a u = Some w'" "clamp_inv u"
  shows "clamp_inv w'"
proof -
  obtain x where x: "alive u a = Some x" using assms(1) by (auto simp: updateStaleTimer_def split: Option.bind_splits)
  with assms clamp_alive [OF assms(2) x] show ?thesis
    by (auto simp: updateStaleTimer_def Let_def split: if_splits intro!: clamp_put_session)
qed

lemma clamp_create:
  assumes "create_session cfg e now a tg u tids dur rate w = Some w'" "clamp_inv w"
  shows "clamp_inv w'"
proof -
  define x where "x = \<lparr>mDescriptor = (new_desc tg u tids)\<lparr>target_duration := dur\<rparr>, kAdpfRate = rate,
              mIsMonitoringStale = False, mLastUpdatedTime = now, mSessionClosed = False\<rparr>"
  have "current_min (mDescriptor x) = 0" by (simp add: x_def new_desc_def)
  then have "clamp_inv (put_session a x w)"
    using clamp_put_session [OF assms(2), of x a] by (simp add: kMaxUclampValue_def)
  then have "clamp_inv (addPowerSession e a tids (put_session a x w))"
    by (rule clamp_same) (simp_all add: addPowerSession_def)
  with assms(1) clamp_setUclamp show ?thesis unfolding create_session_def Let_def x_def by blast
qed

lemma clamp_close:
  assumes "close_session e a w = Some (st, w')" "clamp_inv w"
  shows "clamp_inv w'"
proof -
  obtain x where x: "alive w a = Some x" using assms(1) by (auto simp: close_session_def split: Option.bind_splits)
  show ?thesis
  proof (cases "mSessionClosed x")
    case False
    with x assms(1) obtain w1 where w1:
      "setUclamp e a 0 kMaxUclampValue (to_looper (RemoveStale a) (put_session a (x\<lparr>mSessionClosed := True\<rparr>) w)) = Some w1"
      "w' = updateUniveralBoostMode (removePowerSession a (threadIds (mDescriptor x)) w1)"
      by (auto simp: close_session_def split: Option.bind_splits)
    have "clamp_inv w1"
      using clamp_setUclamp [OF w1(1)] clamp_alive [OF assms(2) x] assms(2) by (simp add: clamp_put_session)
    then show ?thesis using w1(2) by (auto intro: clamp_same simp: removePowerSession_def)
  qed (use x assms in \<open>auto simp: close_session_def\<close>)
qed

lemma clamp_pause:
  assumes "pause e a w = Some (st, w')" "clamp_inv w"
  shows "clamp_inv w'"
proof (cases "w' = w")
  case False
  with assms(1) obtain w1 x1 where w1: "setUclamp e a 0 kMaxUclampValue w = Some w1" "alive w1 a = Some x1"
    "w' = updateUniveralBoostMode (put_desc a x1 ((mDescriptor x1)\<lparr>is_active := False\<rparr>) w1)"
    by (auto simp: pause_def split: Option.bind_splits if_splits)
  have "clamp_inv w1" using clamp_setUclamp [OF w1(1) assms(2)] .
  with clamp_alive [OF this w1(2)] w1(3) show ?thesis by (auto intro!: clamp_put_desc)
qed (simp add: assms)

lemma clamp_resume:
  assumes "resume cfg e a w = Some (st, w')" "clamp_inv w"
  shows "clamp_inv w'"
proof (cases "w' = w")
  case False
  with assms(1) obtain x w1 where w1: "alive w a = Some x" "w' = updateUniveralBoostMode w1"
    "setUclamp e a (sUclampMinHighLimit cfg) kMaxUclampValue (put_desc a x ((mDescriptor x)
        \<lparr>is_active := True, integral_error := max (sPidIInit cfg) (integral_error (mDescriptor x))\<rparr>) w) = Some w1"
    by (auto simp: resume_def Let_def split: Option.bind_splits if_splits)
  let ?d = "(mDescriptor x)\<lparr>is_active := True, integral_error := max (sPidIInit cfg) (integral_error (mDescriptor x))\<rparr>"
  have "clamp_inv (put_desc a x ?d w)"
    using clamp_alive [OF assms(2) w1(1)] assms(2) by (intro clamp_put_desc) simp_all
  then have "clamp_inv w1" using clamp_setUclamp [OF w1(3)] by simp
  then show ?thesis using w1(2) by simp
qed (simp add: assms)

lemma clamp_target: "updateTargetWorkDuration cfg a d w = Some (st, w') \<Longrightarrow> clamp_inv w \<Longrightarrow> clamp_inv w'"
  by (auto simp: updateTargetWorkDuration_def Let_def split: Option.bind_splits if_splits
      dest: clamp_alive intro!: clamp_put_desc)

lemma clamp_output: "apply_output cfg e a n u = Some w' \<Longrightarrow> clamp_inv u \<Longrightarrow> clamp_inv w'"
  by (auto simp: apply_output_def split: Option.bind_splits if_splits dest: clamp_setUclamp)

lemma report_cases:
  assumes "reportActualWorkDuration cfg e now now' a actual w = Some (st, w')"
  obtains (refused) "w' = w" "st \<noteq> STATUS_OK"
  | (accepted) x n d w1 where "alive w a = Some x" "st = STATUS_OK" "target_duration (mDescriptor x) \<noteq> 0" "actual \<noteq> []"
      "is_active (mDescriptor x)" "pid_control cfg actual (fresh_integral cfg e now x) = Some (n, d)"
      "updateStaleTimer cfg e now' a (put_desc a x d w) = Some w1" "apply_output cfg e a n w1 = Some w'"
  using assms by (auto simp: reportActualWorkDuration_def split: Option.bind_splits if_splits)

lemma clamp_report:
  assumes "reportActualWorkDuration cfg e now now' a actual w = Some (st, w')" "clamp_inv w"
  shows "clamp_inv w'"
  using assms(1)
proof (cases rule: report_cases)
  case (accepted x n d w1)
  have "clamp_inv (put_desc a x d w)"
    using clamp_alive [OF assms(2) accepted(1)] pid_control_frame(2) [OF accepted(6)] assms(2) by (intro clamp_put_desc) simp_all
  with accepted show ?thesis by (blast intro: clamp_timer clamp_output)
qed (use assms(2) in simp)

lemma clamp_stale:
  assumes "stale_message cfg e now a w = Some w'" "clamp_inv w"
  shows "clamp_inv w'"
proof -
  obtain x where x: "alive w a = Some x" using assms(1) by (auto simp: stale_message_def split: Option.bind_splits)
  show ?thesis
  proof (cases "getStaleTime cfg x < now")
    case True
    with x assms(1) obtain w1 x1 where w1: "setStale e a w = Some w1" "alive w1 a = Some x1"
      "w' = put_session a (x1\<lparr>mIsMonitoringStale := False\<rparr>) w1"
      by (auto simp: stale_message_def split: Option.bind_splits)
    have "clamp_inv w1"
      using w1(1) clamp_setUclamp [OF _ assms(2)] by (auto simp: setStale_def)
    with clamp_alive [OF this w1(2)] w1(3) show ?thesis by (auto intro!: clamp_put_session)
  qed (use x assms in \<open>auto simp: stale_message_def\<close>)
qed

lemma clamp_step: "pstep cfg E w w' \<Longrightarrow> clamp_inv w \<Longrightarrow> clamp_inv w'"
proof (erule pstep.cases, goal_cases)
  case (2 e a u u')
  then obtain st w1 where "close_session e a u = Some (st, w1)" "u' = w1\<lparr>alive := (alive w1)(a := None)\<rparr>"
    by (auto simp: destroy_session_def split: Option.bind_splits)
  with 2 clamp_close have "clamp_inv w1" by blast
  with 2 \<open>u' = _\<close> show ?case by (auto simp: clamp_inv_def)
next
  case (9 now u u')
  then show ?case using manager_book [of cfg now u u'] by (auto intro: clamp_same)
next
  case (10 u md on)
  then show ?case by (auto simp: updateHintMode_def clamp_inv_def)
qed (blast intro: clamp_create clamp_pause clamp_resume clamp_close clamp_target clamp_report clamp_stale)+

lemma clamp_reachable: "preachable cfg E w \<Longrightarrow> clamp_inv w"
proof -
  assume "preachable cfg E w"
  then obtain hm where "(pstep cfg E)\<^sup>*\<^sup>* (power_start hm) w" by (auto simp: preachable_def)
  then show "clamp_inv w"
  proof (induction rule: rtranclp_induct)
    case base
    show ?case by (simp add: clamp_inv_def power_start_def)
  next
    case (step u v)
    then show ?case by (blast intro: clamp_step)
  qed
qed

section \<open>Properties\<close>

definition adpf_default :: adpf_config where
  "adpf_default = \<lparr>sPidPOver = (5, 0), sPidPUnder = (3, 0), sPidI = (1152921504606847, - 60),
     sPidDOver = (500, 0), sPidDUnder = (0, 0), sPidIInit = 200000, sPidIHighLimit = 512000,
     sPidILowLimit = - 120000, sUclampMinHighLimit = 512, sUclampMinLowLimit = 0, sUclampMinGranularity = 5,
     sStaleTimeFactor = 20, sPSamplingWindow = 1, sISamplingWindow = 0, sDSamplingWindow = 1\<rparr>"

definition env_default :: power_env where
  "env_default = \<lparr>uclamp_enabled = True, setattr_ok = (\<lambda>_. True), profile_ok = (\<lambda>_ _. True), monitor_running = True\<rparr>"

definition open_session :: hint_session where
  "open_session = \<lparr>mDescriptor = \<lparr>tgid = 100, uid = 1000, threadIds = [7, 8, 7], target_duration = 10000000,
     current_min = 512, is_active = True, update_count = 0, integral_error = 0, previous_error = 0\<rparr>,
     kAdpfRate = 16000000, mIsMonitoringStale = False, mLastUpdatedTime = 0, mSessionClosed = False\<rparr>"

definition open_world :: power_world where
  "open_world = (power_start True)\<lparr>alive := [1 \<mapsto> open_session], mSessions := [1],
     mTidRefCountMap := [7 \<mapsto> 2, 8 \<mapsto> 1], uclamps := [7 \<mapsto> (512, 1024), 8 \<mapsto> (512, 1024)]\<rparr>"

lemma open_created: "create_session adpf_default env_default 0 1 100 1000 [7, 8, 7] 10000000 16000000 (power_start True) = Some open_world"
  by (simp add: create_session_def setUclamp_def Let_def addPowerSession_def new_desc_def power_start_def
      open_world_def open_session_def put_session_def put_desc_def add_tid_def env_default_def adpf_default_def
      sched_setattr_def clamp_min_def clamp_max_def kMaxUclampValue_def fun_eq_iff)

lemma open_reachable: "preachable adpf_default (\<lambda>e. \<forall>t. profile_ok e t True) open_world"
proof -
  have "pstep adpf_default (\<lambda>e. \<forall>t. profile_ok e t True) (power_start True) open_world"
    by (rule pstep.create [OF _ _ open_created]) (simp_all add: power_start_def env_default_def)
  then show ?thesis unfolding preachable_def by blast
qed

text \<open>
  C26. The reference counts of threads are exact: in every state that any sequence of calls on
  any sessions can reach, as long as setting the task profile succeeds, a thread's count is the
  number of times the sessions that are open name it, and it has no entry when none does. So a
  thread shared by two sessions keeps its profile until the last of them is closed.\<close>

theorem session_refcounts_exact:
  assumes "preachable cfg (\<lambda>e. \<forall>t. profile_ok e t True) w"
  shows "mTidRefCountMap w t = (if thread_refs w t = 0 then None else Some (int (thread_refs w t)))"
  using power_inv_reachable [OF assms] by (simp add: counts_def)

theorem session_refcounts_exact_witness:
  "mTidRefCountMap open_world 7 = Some (int (thread_refs open_world 7)) \<and> thread_refs open_world 7 = 2"
  using session_refcounts_exact [OF open_reachable, of 7]
  by (simp add: thread_refs_def open_world_def power_start_def shape_def open_session_def)

text \<open>
  One failure to set a thread's profile makes its count wrong for good: when a first session
  could not set it, a second one on the same thread counts one, and closing the first drops that
  count although the second is open and still needs the profile.\<close>

definition env_no_profile :: power_env where
  "env_no_profile = env_default\<lparr>profile_ok := (\<lambda>_ _. False)\<rparr>"

theorem failed_profile_skews_refcount:
  "\<exists>w1 w2 w3.
     create_session adpf_default env_no_profile 0 1 100 1000 [7] 10000000 16000000 (power_start True) = Some w1 \<and>
     create_session adpf_default env_default 0 2 100 1000 [7] 10000000 16000000 w1 = Some w2 \<and>
     mTidRefCountMap w2 7 = Some 1 \<and>
     close_session env_default 1 w2 = Some (STATUS_OK, w3) \<and>
     mTidRefCountMap w3 7 = None \<and> mSessions w3 = [2] \<and> thread_refs w3 7 = 1"
  by (simp add: create_session_def setUclamp_def Let_def addPowerSession_def new_desc_def power_start_def
      put_session_def put_desc_def add_tid_def env_default_def env_no_profile_def adpf_default_def
      sched_setattr_def close_session_def to_looper_def removePowerSession_def updateUniveralBoostMode_def
      remove_tid_def thread_refs_def shape_def)

text \<open>
  The system's top-app boost follows the sessions: from every reachable state the manager's
  message handler returns, records as active exactly whether some registered session is active
  and not stale, has the disable-boost hint on exactly when it is, and over the whole run takes
  and ends that hint strictly in turn.\<close>

theorem boost_hint_follows_activity:
  assumes "preachable cfg E w"
  shows "\<exists>w'. manager_message cfg now w = Some w' \<and>
    mActive w' = (\<exists>a\<in>set (mSessions w). counts_as_active cfg now w a) \<and>
    alternates kDisableBoostHintName (requests w') False \<and>
    (hint_manager_set w \<longrightarrow> holds (requests w') False = mActive w')"
proof -
  have reg: "registered_inv w" "boost_inv w" using power_inv_reachable [OF assms] by simp_all
  have "\<not> list_ex (\<lambda>a. alive w a = None) (mSessions w)"
    using reg(1) by (auto simp: registered_inv_def shape_def list_ex_iff)
  then obtain w' where w': "manager_message cfg now w = Some w'"
    by (cases "list_ex (counts_as_active cfg now w) (mSessions w) = mActive w")
      (auto simp: manager_message_def isAnySessionActive_def Let_def)
  have "boost_inv w'" using boost_step [OF pstep.manager [OF w'] reg(2)] .
  with w' manager_book [OF w'] show ?thesis by (auto simp: boost_inv_def list_ex_iff)
qed

theorem boost_hint_follows_activity_witness:
  "\<exists>w'. manager_message adpf_default 1000 open_world = Some w' \<and> mActive w' \<and> holds (requests w') False"
  using boost_hint_follows_activity [OF open_reachable, of 1000]
  by (auto simp: open_world_def power_start_def counts_as_active_def open_session_def isStale_def getStaleTime_def
      adpf_default_def signed_divide_int_def)

text \<open>
  Whatever the sessions ask for and the controller computes, every clamp given to the kernel
  is a range within 0 and 1024, with the maximum at 1024, and so is the minimum each session
  remembers.\<close>

theorem session_clamps_bounded:
  assumes "preachable cfg E w"
  shows "(uclamps w t = Some (lo, hi) \<longrightarrow> 0 \<le> lo \<and> lo \<le> hi \<and> hi = kMaxUclampValue) \<and>
    (alive w a = Some x \<longrightarrow> 0 \<le> current_min (mDescriptor x) \<and> current_min (mDescriptor x) \<le> kMaxUclampValue)"
  using clamp_reachable [OF assms] by (auto simp: clamp_inv_def)

theorem session_clamps_bounded_witness: "512 \<le> kMaxUclampValue"
  using session_clamps_bounded [OF open_reachable, of 7 512 1024 1 open_session]
  by (auto simp: open_world_def)

text \<open>
  A session that was paused and then closed can still be resumed: the call succeeds and
  raises the clamps of its threads to the high limit although no manager knows the session any
  more, and destroying the session afterwards leaves them there.\<close>

theorem closed_session_boosts:
  assumes "alive w a = Some x" "mSessionClosed x" "\<not> is_active (mDescriptor x)"
    "0 \<le> sUclampMinHighLimit cfg" "sUclampMinHighLimit cfg \<le> kMaxUclampValue"
    "t \<in> set (threadIds (mDescriptor x))" "uclamp_enabled e" "setattr_ok e t"
  shows "\<exists>w1 w2. resume cfg e a w = Some (STATUS_OK, w1) \<and> destroy_session e a w1 = Some w2 \<and>
    uclamps w2 t = Some (sUclampMinHighLimit cfg, kMaxUclampValue) \<and> alive w2 a = None"
proof -
  have c: "clamp_min (sUclampMinHighLimit cfg) kMaxUclampValue = sUclampMinHighLimit cfg"
    using assms(4,5) by (simp add: clamp_min_def)
  show ?thesis
    using assms by (simp add: resume_def Let_def setUclamp_def destroy_session_def close_session_def
      updateUniveralBoostMode_def to_looper_def put_desc_def put_session_def fold_setattr c clamp_range)
qed

definition closed_world :: power_world where
  "closed_world = open_world\<lparr>alive := [1 \<mapsto> open_session\<lparr>mSessionClosed := True,
     mDescriptor := (mDescriptor open_session)\<lparr>is_active := False, current_min := 0\<rparr>\<rparr>]\<rparr>"

theorem closed_session_boosts_witness:
  "\<exists>w1 w2. resume adpf_default env_default 1 closed_world = Some (STATUS_OK, w1) \<and>
    destroy_session env_default 1 w1 = Some w2 \<and> uclamps w2 7 = Some (512, 1024)"
  using closed_session_boosts [of closed_world 1 "open_session\<lparr>mSessionClosed := True,
     mDescriptor := (mDescriptor open_session)\<lparr>is_active := False, current_min := 0\<rparr>\<rparr>" adpf_default 7 env_default]
  by (auto simp: closed_world_def open_session_def adpf_default_def env_default_def kMaxUclampValue_def)

end
