(* ===== verification/PowerControl.thy ===== *)
theory PowerControl
  imports PowerSession
begin

text \<open>
  What the PID controller of \<open>PowerHintSession::reportActualWorkDuration\<close> guarantees and
  where it fails: limits, the sign of its output in binary64 arithmetic, targets that leave it
  without a result, and the scaling of its error by \<open>updateTargetWorkDuration\<close>.
\<close>

section \<open>The controller\<close>

definition limits_ok :: "adpf_config \<Rightarrow> bool" where
  "limits_ok cfg \<longleftrightarrow> sPidILowLimit cfg \<le> sPidIHighLimit cfg \<and> 0 \<le> sUclampMinLowLimit cfg \<and>
     sUclampMinLowLimit cfg \<le> sUclampMinHighLimit cfg \<and> sUclampMinHighLimit cfg \<le> kMaxUclampValue \<and>
     0 \<le> sISamplingWindow cfg \<and> 0 \<le> sPSamplingWindow cfg \<and> 0 \<le> sDSamplingWindow cfg"

lemma pid_step_integral:
  assumes "pid_step cfg target (p, i, d) k x acc = Some acc'" "i \<le> k" "sPidILowLimit cfg \<le> sPidIHighLimit cfg"
  shows "sPidILowLimit cfg \<le> pid_integral acc' \<and> pid_integral acc' \<le> sPidIHighLimit cfg"
  using assms by (auto simp: pid_step_def Let_def split: Option.bind_splits)

lemma pid_loop_integral:
  assumes "pid_loop cfg target (p, i, d) k xs acc = Some acc'" "xs \<noteq> []" "i < k + int (length xs)"
    "sPidILowLimit cfg \<le> sPidIHighLimit cfg"
  shows "sPidILowLimit cfg \<le> pid_integral acc' \<and> pid_integral acc' \<le> sPidIHighLimit cfg"
  using assms
proof (induction xs arbitrary: k acc)
  case (Cons x xs)
  from Cons.prems(1) obtain acc1 where s: "pid_step cfg target (p, i, d) k x acc = Some acc1"
    "pid_loop cfg target (p, i, d) (k + 1) xs acc1 = Some acc'" by (auto split: Option.bind_splits)
  show ?case
  proof (cases "xs = []")
    case True
    with s Cons.prems(3,4) pid_step_integral [OF s(1)] show ?thesis by simp
  next
    case False
    with Cons.IH [OF s(2)] Cons.prems(3,4) show ?thesis by simp
  qed
qed simp

lemma window_start_range: "0 < len \<Longrightarrow> 0 \<le> w \<Longrightarrow> 0 \<le> window_start w len \<and> window_start w len < len"
  by (simp add: window_start_def)

lemma pid_control_integral:
  assumes "pid_control cfg actual d = Some (n, d')" "actual \<noteq> []" "limits_ok cfg"
  shows "sPidILowLimit cfg \<le> integral_error d' \<and> integral_error d' \<le> sPidIHighLimit cfg"
proof -
  let ?len = "int (length actual)"
  let ?p = "window_start (sPSamplingWindow cfg) ?len"
  let ?i = "window_start (sISamplingWindow cfg) ?len"
  let ?d = "window_start (sDSamplingWindow cfg) ?len"
  let ?f = "min ?p (min ?i ?d)"
  have len: "0 < ?len" using assms(2) by simp
  have w: "0 \<le> ?p \<and> ?p < ?len" "0 \<le> ?i \<and> ?i < ?len" "0 \<le> ?d \<and> ?d < ?len"
    using window_start_range [OF len] assms(3) by (simp_all add: limits_ok_def)
  obtain acc where acc: "pid_loop cfg (target_duration d) (?p, ?i, ?d) ?f (drop (nat ?f) actual)
      \<lparr>err_sum = 0, derivative_sum = 0, pid_integral = integral_error d, pid_previous = previous_error d\<rparr> = Some acc"
    "integral_error d' = pid_integral acc"
    using assms(1) by (auto simp: pid_control_def Let_def split: Option.bind_splits)
  have "nat ?f < length actual" using w by linarith
  then have "drop (nat ?f) actual \<noteq> []" "?i < ?f + int (length (drop (nat ?f) actual))"
    using w by auto
  with pid_loop_integral [OF acc(1)] assms(3) acc(2) show ?thesis by (simp add: limits_ok_def)
qed

lemma timer_desc:
  assumes "updateStaleTimer cfg e now a u = Some w1" "alive u a = Some x"
  shows "\<exists>y. alive w1 a = Some y \<and> mDescriptor y = mDescriptor x"
  using assms by (auto simp: updateStaleTimer_def Let_def split: if_splits)

lemma output_desc:
  assumes "apply_output cfg e a n w1 = Some w'" "alive w1 a = Some y" "limits_ok cfg"
  shows "\<exists>z m. alive w' a = Some z \<and> mDescriptor z = (mDescriptor y)\<lparr>current_min := m\<rparr> \<and>
    (m = current_min (mDescriptor y) \<or> sUclampMinLowLimit cfg \<le> m \<and> m \<le> sUclampMinHighLimit cfg \<and>
      next_min cfg (current_min (mDescriptor y)) n = Some m)"
proof (cases "w' = w1")
  case True
  have "mDescriptor y = (mDescriptor y)\<lparr>current_min := current_min (mDescriptor y)\<rparr>" by simp
  with True assms(2) show ?thesis by blast
next
  case False
  with assms(1,2) obtain m where m: "next_min cfg (current_min (mDescriptor y)) n = Some m"
    "setUclamp e a m kMaxUclampValue w1 = Some w'"
    by (auto simp: apply_output_def split: Option.bind_splits if_splits)
  have r: "sUclampMinLowLimit cfg \<le> m \<and> m \<le> sUclampMinHighLimit cfg"
    using m(1) assms(3) by (auto simp: next_min_def limits_ok_def Let_def split: if_splits)
  then have "clamp_min m kMaxUclampValue = m" using assms(3) by (simp add: clamp_min_def limits_ok_def)
  with setUclamp_alive [OF m(2)] assms(2) r m(1) show ?thesis by auto
qed

text \<open>
  A report that is accepted leaves the controller within its limits: the accumulated error
  between its low and high limit, whatever it was before (also when a new target had scaled it
  beyond), and the minimum clamp either untouched or between the configured limits.\<close>

theorem report_keeps_limits:
  assumes "limits_ok cfg" "reportActualWorkDuration cfg e now now' a actual w = Some (STATUS_OK, w')"
    "alive w a = Some x"
  shows "\<exists>y. alive w' a = Some y \<and>
    sPidILowLimit cfg \<le> integral_error (mDescriptor y) \<and> integral_error (mDescriptor y) \<le> sPidIHighLimit cfg \<and>
    (current_min (mDescriptor y) = current_min (mDescriptor x) \<or>
     sUclampMinLowLimit cfg \<le> current_min (mDescriptor y) \<and> current_min (mDescriptor y) \<le> sUclampMinHighLimit cfg)"
  using assms(2)
proof (cases rule: report_cases)
  case (accepted x1 n d w1)
  have "x1 = x" using accepted(1) assms(3) by simp
  obtain y where y: "alive w1 a = Some y" "mDescriptor y = d"
    using timer_desc [OF accepted(7), of "x1\<lparr>mDescriptor := d\<rparr>"] by auto
  have "current_min d = current_min (mDescriptor x)"
    using pid_control_frame(2) [OF accepted(6)] \<open>x1 = x\<close> by simp
  moreover have "sPidILowLimit cfg \<le> integral_error d \<and> integral_error d \<le> sPidIHighLimit cfg"
    using pid_control_integral [OF accepted(6,4) assms(1)] .
  ultimately show ?thesis using output_desc [OF accepted(8) y(1) assms(1)] y(2) by auto
qed simp

text \<open>An example with the default tunables: eleven milliseconds of work for a target of ten.\<close>

lemma bits_numerals:
  "bits 1 = 1" "bits 100 = 7" "bits 1152921504606847000 = 61" "bits 7205759403792793600 = 63"
  "bits 461168601842738790400 = 69" "bits 1014120480182583521197362564300800 = 110"
  by (simp_all add: bits_code)

lemma outs_default:
  "p_out adpf_default 10 1 = Some 50" "i_out adpf_default 1000 = Some 1" "d_out adpf_default 10 100 1 = Some 50"
  by (simp_all add: p_out_def i_out_def d_out_def adpf_default_def of_int64_exact dmul_def round53_exact ddiv_def
      bits_numerals Let_def)
    (simp_all add: round53_def bits_numerals half_even_def to_int64_def in64_def Let_def)

definition slow_session :: hint_session where
  "slow_session = open_session\<lparr>mDescriptor := (mDescriptor open_session)\<lparr>current_min := 100\<rparr>\<rparr>"

definition slow_world :: power_world where
  "slow_world = open_world\<lparr>alive := [1 \<mapsto> slow_session]\<rparr>"

lemma pid_default:
  "pid_control adpf_default [11000000] (mDescriptor slow_session) =
    Some (101, (mDescriptor slow_session)\<lparr>integral_error := 1000, previous_error := 10, update_count := 1\<rparr>)"
proof -
  have "window_start w 1 = 0" if "w \<in> {0, 1}" for w using that by (auto simp: window_start_def)
  then have w: "window_start (sPSamplingWindow adpf_default) 1 = 0" "window_start (sISamplingWindow adpf_default) 1 = 0"
    "window_start (sDSamplingWindow adpf_default) 1 = 0"
    by (simp_all add: adpf_default_def)
  have e: "ns_to_100us 10000000 = 100" "ns_to_100us 1000000 = 10"
    by (simp_all add: ns_to_100us_def signed_divide_int_def)
  have l: "sPidILowLimit adpf_default = - 120000" "sPidIHighLimit adpf_default = 512000"
    by (simp_all add: adpf_default_def)
  show ?thesis
    using outs_default by (simp add: pid_control_def w Let_def slow_session_def open_session_def pid_step_def e l ck64_def in64_def)
qed

lemma slow_report:
  "\<exists>w' y. reportActualWorkDuration adpf_default env_default 1000 1000 1 [11000000] slow_world = Some (STATUS_OK, w') \<and>
    alive w' 1 = Some y \<and> current_min (mDescriptor y) = 201"
proof -
  have s: "alive slow_world 1 = Some slow_session" "target_duration (mDescriptor slow_session) \<noteq> 0"
    "is_active (mDescriptor slow_session)" "threadIds (mDescriptor slow_session) = [7, 8, 7]"
    "current_min (mDescriptor slow_session) = 100"
    by (simp_all add: slow_world_def slow_session_def open_session_def)
  have g: "getStaleTime adpf_default slow_session = 320000000"
    by (simp add: getStaleTime_def adpf_default_def slow_session_def open_session_def signed_divide_int_def)
  then have f: "fresh_integral adpf_default env_default 1000 slow_session = mDescriptor slow_session"
    by (simp add: fresh_integral_def isStale_def Let_def)
  have n: "next_min adpf_default 100 101 = Some 201"
    by (simp add: next_min_def adpf_default_def in32_def signed_take_bit_int_eq_self)
  have gr: "sUclampMinGranularity adpf_default = 5" "monitor_running env_default"
    by (simp_all add: adpf_default_def env_default_def)
  show ?thesis
    using s n g gr by (simp add: reportActualWorkDuration_def f pid_default updateStaleTimer_def Let_def
        apply_output_def setUclamp_def clamp_min_def kMaxUclampValue_def getStaleTime_def)
qed

theorem report_keeps_limits_witness:
  "\<exists>w' y. reportActualWorkDuration adpf_default env_default 1000 1000 1 [11000000] slow_world = Some (STATUS_OK, w') \<and>
    alive w' 1 = Some y \<and> integral_error (mDescriptor y) \<le> 512000"
proof -
  obtain w' where w': "reportActualWorkDuration adpf_default env_default 1000 1000 1 [11000000] slow_world = Some (STATUS_OK, w')"
    using slow_report by blast
  have "limits_ok adpf_default" by (simp add: limits_ok_def adpf_default_def kMaxUclampValue_def)
  from report_keeps_limits [OF this w', of slow_session] w' show ?thesis
    by (auto simp: slow_world_def adpf_default_def)
qed

section \<open>The sign of the output\<close>

definition gains_ok :: "adpf_config \<Rightarrow> bool" where
  "gains_ok cfg \<longleftrightarrow> 0 \<le> fst (sPidPOver cfg) \<and> 0 \<le> fst (sPidI cfg) \<and> 0 \<le> fst (sPidDOver cfg) \<and>
     0 \<le> fst (sPidPUnder cfg) \<and> 0 \<le> fst (sPidDUnder cfg) \<and> 0 \<le> sPidIHighLimit cfg"

lemma sdiv_mono_nonneg: "0 \<le> (x :: int) \<Longrightarrow> 0 \<le> ns_to_100us x"
  by (simp add: ns_to_100us_def sdiv_nonneg pos_imp_zdiv_nonneg_iff)

lemma outs_nonneg:
  "gains_ok cfg \<Longrightarrow> 0 \<le> es \<Longrightarrow> 0 \<le> n \<Longrightarrow> p_out cfg es n = Some x \<Longrightarrow> 0 \<le> x"
  "gains_ok cfg \<Longrightarrow> 0 \<le> it \<Longrightarrow> i_out cfg it = Some y \<Longrightarrow> 0 \<le> y"
  "gains_ok cfg \<Longrightarrow> 0 \<le> ds \<Longrightarrow> 0 \<le> dt \<Longrightarrow> 0 \<le> n \<Longrightarrow> d_out cfg ds dt n = Some z \<Longrightarrow> 0 \<le> z"
proof -
  assume g: "gains_ok cfg"
  { assume "0 \<le> es" "0 \<le> n" "p_out cfg es n = Some x"
    then obtain u where u: "ddiv (dmul (if es > 0 then sPidPOver cfg else sPidPUnder cfg) (of_int64 es)) (of_int64 n) = Some u"
      "to_int64 u = Some x"
      by (auto simp: p_out_def bind_eq_Some_conv)
    have c: "0 \<le> fst (if es > 0 then sPidPOver cfg else sPidPUnder cfg)" using g by (simp add: gains_ok_def)
    have "0 \<le> fst u"
      by (rule ddiv_nonneg [OF dmul_nonneg [OF c of_int64_nonneg [OF \<open>0 \<le> es\<close>]] of_int64_nonneg [OF \<open>0 \<le> n\<close>] u(1)])
    then show "0 \<le> x" by (rule to_int64_nonneg [OF _ u(2)]) }
  { assume "0 \<le> it" "i_out cfg it = Some y"
    with g show "0 \<le> y"
      using to_int64_nonneg [OF dmul_nonneg [OF _ of_int64_nonneg]] unfolding i_out_def gains_ok_def by blast }
  { assume a: "0 \<le> ds" "0 \<le> dt" "0 \<le> n" "d_out cfg ds dt n = Some z"
    then obtain u v where u: "ddiv (dmul (if ds > 0 then sPidDOver cfg else sPidDUnder cfg) (of_int64 ds)) (of_int64 dt) = Some u"
      "ddiv u (of_int64 n) = Some v" "to_int64 v = Some z"
      by (auto simp: d_out_def bind_eq_Some_conv)
    have c: "0 \<le> fst (if ds > 0 then sPidDOver cfg else sPidDUnder cfg)" using g by (simp add: gains_ok_def)
    have "0 \<le> fst u"
      by (rule ddiv_nonneg [OF dmul_nonneg [OF c of_int64_nonneg [OF a(1)]] of_int64_nonneg [OF a(2)] u(1)])
    then have "0 \<le> fst v" by (rule ddiv_nonneg [OF _ of_int64_nonneg [OF a(3)] u(2)])
    then show "0 \<le> z" by (rule to_int64_nonneg [OF _ u(3)]) }
qed

lemma window_start_one: "0 \<le> w \<Longrightarrow> window_start w 1 = 0"
  by (auto simp: window_start_def)

lemma single_sample:
  assumes "limits_ok cfg" "pid_control cfg [d] desc = Some (n, desc')"
  obtains es ds it pOut iOut dOut where
    "es = ns_to_100us (d - target_duration desc)" "ds = es - previous_error desc"
    "it = max (sPidILowLimit cfg) (min (sPidIHighLimit cfg) (integral_error desc + es * ns_to_100us (target_duration desc)))"
    "p_out cfg es 1 = Some pOut" "i_out cfg it = Some iOut" "d_out cfg ds (ns_to_100us (target_duration desc)) 1 = Some dOut"
    "n = pOut + iOut + dOut"
proof -
  have w: "window_start (sPSamplingWindow cfg) 1 = 0" "window_start (sISamplingWindow cfg) 1 = 0"
    "window_start (sDSamplingWindow cfg) 1 = 0"
    using assms(1) by (simp_all add: limits_ok_def window_start_one)
  show thesis
    using assms(2) by (auto simp: pid_control_def w Let_def pid_step_def bind_eq_Some_conv intro!: that)
qed

text \<open>
  Work that overran its target, no faster than the last one, never lowers the boost: the
  controller's output for a report of one such duration is not negative, in binary64 arithmetic
  with its rounding, and the session's minimum clamp does not fall as long as the output fits the
  32 bits it is cut to.\<close>

theorem overrun_never_lowers_clamp:
  assumes "limits_ok cfg" "gains_ok cfg" "alive w a = Some x"
    "current_min (mDescriptor x) \<le> sUclampMinHighLimit cfg" "0 < target_duration (mDescriptor x)"
    "target_duration (mDescriptor x) \<le> d" "0 \<le> integral_error (mDescriptor x)"
    "previous_error (mDescriptor x) \<le> ns_to_100us (d - target_duration (mDescriptor x))"
    "reportActualWorkDuration cfg e now now' a [d] w = Some (STATUS_OK, w')"
  shows "\<exists>n desc y. pid_control cfg [d] (fresh_integral cfg e now x) = Some (n, desc) \<and> 0 \<le> n \<and>
    alive w' a = Some y \<and> (n < 2 ^ 31 \<longrightarrow> current_min (mDescriptor x) \<le> current_min (mDescriptor y))"
  using assms(9)
proof (cases rule: report_cases)
  case (accepted x1 n desc w1)
  have [simp]: "x1 = x" using accepted(1) assms(3) by simp
  let ?f = "fresh_integral cfg e now x"
  have prev: "previous_error ?f = previous_error (mDescriptor x)" and it: "0 \<le> integral_error ?f"
    using assms(7) by (auto simp: fresh_integral_def Let_def)
  from accepted(6) have pc: "pid_control cfg [d] ?f = Some (n, desc)" by simp
  from assms(1) pc obtain es ds it pOut iOut dOut where o:
    "es = ns_to_100us (d - target_duration ?f)" "ds = es - previous_error ?f"
    "it = max (sPidILowLimit cfg) (min (sPidIHighLimit cfg) (integral_error ?f + es * ns_to_100us (target_duration ?f)))"
    "p_out cfg es 1 = Some pOut" "i_out cfg it = Some iOut" "d_out cfg ds (ns_to_100us (target_duration ?f)) 1 = Some dOut"
    "n = pOut + iOut + dOut"
    by (rule single_sample)
  have es: "0 \<le> es" and dt: "0 \<le> ns_to_100us (target_duration ?f)" and ds: "0 \<le> ds"
    using o(1,2) prev assms(5,6,8) by (simp_all add: sdiv_mono_nonneg)
  have "0 \<le> integral_error ?f + es * ns_to_100us (target_duration ?f)" using it es dt by simp
  then have "0 \<le> it" using o(3) assms(2) by (simp add: gains_ok_def le_max_iff_disj)
  then have "0 \<le> iOut" using outs_nonneg(2) [OF assms(2) _ o(5)] by simp
  moreover have "0 \<le> pOut" using outs_nonneg(1) [OF assms(2) es _ o(4)] by simp
  moreover have "0 \<le> dOut" using outs_nonneg(3) [OF assms(2) ds dt _ o(6)] by simp
  ultimately have n: "0 \<le> n" using o(7) by simp
  obtain y where y: "alive w1 a = Some y" "mDescriptor y = desc"
    using timer_desc [OF accepted(7), of "x\<lparr>mDescriptor := desc\<rparr>"] by auto
  have cm: "current_min desc = current_min (mDescriptor x)" using pid_control_frame(2) [OF pc] by simp
  obtain z m where z: "alive w' a = Some z" "current_min (mDescriptor z) = m"
    "m = current_min desc \<or> next_min cfg (current_min desc) n = Some m"
    using output_desc [OF accepted(8) y(1) assms(1)] y(2) by auto
  have "current_min desc \<le> m" if "n < 2 ^ 31"
    using z(3)
  proof
    assume "next_min cfg (current_min desc) n = Some m"
    moreover have "signed_take_bit 31 n = n" using n that by (intro signed_take_bit_int_eq_self) simp_all
    ultimately show ?thesis using n cm assms(4) by (auto simp: next_min_def Let_def split: if_splits)
  qed simp
  with pc n z cm show ?thesis by auto
qed (use assms(9) in simp)

theorem overrun_never_lowers_clamp_witness:
  "\<exists>n desc. pid_control adpf_default [11000000] (fresh_integral adpf_default env_default 1000 slow_session) = Some (n, desc) \<and> 0 \<le> n"
proof -
  obtain w' where w': "reportActualWorkDuration adpf_default env_default 1000 1000 1 [11000000] slow_world = Some (STATUS_OK, w')"
    using slow_report by blast
  have "limits_ok adpf_default" "gains_ok adpf_default"
    by (simp_all add: limits_ok_def gains_ok_def adpf_default_def kMaxUclampValue_def)
  from overrun_never_lowers_clamp [OF this _ _ _ _ _ _ w', of slow_session] show ?thesis
    by (auto simp: slow_world_def slow_session_def open_session_def adpf_default_def ns_to_100us_def signed_divide_int_def)
qed

text \<open>
  An output of the controller that needs more than 31 bits is cut to a negative number: far
  too slow work then takes the boost away altogether, although slower work is meant to get more.\<close>

theorem huge_output_drops_clamp:
  assumes "limits_ok cfg" "0 \<le> cur" "cur \<le> kMaxUclampValue" "2 ^ 31 \<le> n" "n < 2 ^ 32 - kMaxUclampValue"
  shows "next_min cfg cur n = Some (sUclampMinLowLimit cfg)"
proof -
  have "take_bit 32 n = n" using assms by (intro take_bit_int_eq_self) (simp_all add: kMaxUclampValue_def)
  moreover have "bit n 31"
  proof -
    have "n div 2 ^ 31 = 1" using assms(4,5) by (intro int_div_pos_eq [of _ _ _ "n - 2 ^ 31"]) (simp_all add: kMaxUclampValue_def)
    then show ?thesis by (simp add: bit_iff_odd)
  qed
  ultimately have "signed_take_bit 31 n = n - 2 ^ 32"
    by (simp add: signed_take_bit_eq_take_bit_minus)
  with assms show ?thesis
    by (simp add: next_min_def Let_def in32_def limits_ok_def kMaxUclampValue_def)
qed

theorem huge_output_drops_clamp_witness: "next_min adpf_default 512 3000000000 = Some 0"
  using huge_output_drops_clamp [of adpf_default 512 3000000000]
  by (simp add: limits_ok_def adpf_default_def kMaxUclampValue_def)

text \<open>
  Raising the target by any amount throws the accumulated error away: the old target divided
  by the new one is an integer division, so the factor meant to scale the error is zero and only
  the initial value is left.\<close>

theorem raised_target_drops_integral:
  assumes "alive w a = Some x" "0 \<le> target_duration (mDescriptor x)" "target_duration (mDescriptor x) < t"
  shows "\<exists>w' y. updateTargetWorkDuration cfg a t w = Some (STATUS_OK, w') \<and> alive w' a = Some y \<and>
    integral_error (mDescriptor y) = max (sPidIInit cfg) 0 \<and> target_duration (mDescriptor y) = t"
proof -
  have "target_duration (mDescriptor x) sdiv t = 0" using assms by (simp add: sdiv_nonneg)
  then have "to_int64 (dmul (of_int64 (integral_error (mDescriptor x))) (of_int64 (target_duration (mDescriptor x) sdiv t))) = Some 0"
    by (simp add: of_int64_exact dmul_def)
  with assms show ?thesis by (simp add: updateTargetWorkDuration_def Let_def)
qed

theorem raised_target_drops_integral_witness:
  "\<exists>w' y. updateTargetWorkDuration adpf_default 1 10000001 open_world = Some (STATUS_OK, w') \<and> alive w' 1 = Some y \<and>
    integral_error (mDescriptor y) = 200000"
  using raised_target_drops_integral [of open_world 1 open_session 10000001 adpf_default]
  by (auto simp: open_world_def open_session_def adpf_default_def)

text \<open>
  With a target under 100 microseconds no report has a defined result: the target in units of
  100 microseconds is zero and the derivative term divides by it, which makes an infinity or a NaN
  that is then converted to an integer.\<close>

theorem short_target_undefined:
  assumes "alive w a = Some x" "0 < target_duration (mDescriptor x)" "target_duration (mDescriptor x) < 100000"
    "is_active (mDescriptor x)" "actual \<noteq> []"
  shows "reportActualWorkDuration cfg e now now' a actual w = None"
proof -
  have "ns_to_100us (target_duration (mDescriptor x)) = 0" using assms by (simp add: ns_to_100us_def sdiv_nonneg)
  moreover have "d_out cfg ds 0 n = None" for ds n by (simp add: d_out_def ddiv_def of_int64_exact)
  ultimately have "pid_control cfg actual (fresh_integral cfg e now x) = None"
    by (auto simp: pid_control_def Let_def bind_eq_None_conv)
  with assms show ?thesis by (simp add: reportActualWorkDuration_def)
qed

theorem short_target_undefined_witness:
  "reportActualWorkDuration adpf_default env_default 0 0 1 [50000]
     (put_desc 1 open_session ((mDescriptor open_session)\<lparr>target_duration := 60000\<rparr>) open_world) = None"
  using short_target_undefined [of "put_desc 1 open_session ((mDescriptor open_session)\<lparr>target_duration := 60000\<rparr>) open_world"
    1 "open_session\<lparr>mDescriptor := (mDescriptor open_session)\<lparr>target_duration := 60000\<rparr>\<rparr>" "[50000]"]
  by (simp add: open_session_def)

end
