(* ===== verification/Interaction.thy ===== *)
theory Interaction
  imports HintClient "HOL-Library.Word"
begin

text \<open>
  The display-idle interaction boost of
  \<open>power-libperfmgr/disp-power/InteractionHandler.cpp\<close>: the state machine that client
  calls to \<open>Acquire\<close> and the \<open>Routine\<close> thread share. Every section that the code
  runs under \<open>mLock\<close> is one step, the thread's position between them is
  \<open>routine_pc\<close>. The eventfd is its counter, as eventfd(2) documents it: a write adds, a
  read empties, a full counter refuses the write. The calls to the hint manager are recorded in
  order.
\<close>

datatype interaction_state =
  INTERACTION_STATE_UNINITIALIZED | INTERACTION_STATE_IDLE |
  INTERACTION_STATE_INTERACTION | INTERACTION_STATE_WAITING

record timespec =
  tv_sec :: int
  tv_nsec :: int

record interaction_config =
  kDisplayIdleSupport :: bool
  kMinDurationMs :: "32 word"
  kMaxDurationMs :: "32 word"
  kDurationOffsetMs :: "32 word"

record interaction_handler =
  mState :: interaction_state
  mDurationMs :: int
  mLastTimespec :: timespec
  mEventFd :: nat
  hint_calls :: "hint_req list"

definition new_handler :: interaction_handler where
  "new_handler = \<lparr>mState = INTERACTION_STATE_UNINITIALIZED, mDurationMs = 0,
     mLastTimespec = \<lparr>tv_sec = 0, tv_nsec = 0\<rparr>, mEventFd = 0, hint_calls = []\<rparr>"

definition call_hint :: "hint_req \<Rightarrow> interaction_handler \<Rightarrow> interaction_handler" where
  "call_hint r s = s\<lparr>hint_calls := hint_calls s @ [r]\<rparr>"

definition PerfLock :: "interaction_handler \<Rightarrow> interaction_handler" where
  "PerfLock = call_hint (ReqDo ''INTERACTION'')"

definition PerfRel :: "interaction_handler \<Rightarrow> interaction_handler" where
  "PerfRel = call_hint (ReqEnd ''INTERACTION'')"

text \<open>The difference of two times in milliseconds, an unsigned 64-bit sum.\<close>

definition CalcTimespecDiffMs :: "timespec \<Rightarrow> timespec \<Rightarrow> int" where
  "CalcTimespecDiffMs start finish =
     ((tv_sec finish - tv_sec start) * 1000 + (tv_nsec finish - tv_nsec start) sdiv 1000000) mod 2 ^ 64"

definition AbortWaitLocked :: "interaction_handler \<Rightarrow> interaction_handler" where
  "AbortWaitLocked s = s\<lparr>mEventFd := (if mEventFd s < 2 ^ 64 - 2 then mEventFd s + 1 else mEventFd s)\<rparr>"

section \<open>Operations\<close>

definition Init :: "bool \<Rightarrow> bool \<Rightarrow> interaction_handler \<Rightarrow> bool \<times> interaction_handler" where
  "Init idle_opened event_opened s =
     (if mState s \<noteq> INTERACTION_STATE_UNINITIALIZED then (True, s)
      else if \<not> idle_opened then (False, s)
      else if \<not> event_opened then (False, s)
      else (True, s\<lparr>mState := INTERACTION_STATE_IDLE, mEventFd := 0\<rparr>))"

text \<open>\<open>Exit\<close> up to the point where it waits for the thread.\<close>

definition Exit :: "interaction_handler \<Rightarrow> interaction_handler" where
  "Exit s =
     (if mState s = INTERACTION_STATE_UNINITIALIZED then s
      else (AbortWaitLocked s)\<lparr>mState := INTERACTION_STATE_UNINITIALIZED\<rparr>)"

text \<open>The sum with the offset and both comparisons are unsigned, the result is signed.\<close>

definition final_duration :: "interaction_config \<Rightarrow> int \<Rightarrow> int" where
  "final_duration cfg duration =
     (let inputDuration = word_of_int duration + kDurationOffsetMs cfg in
      if inputDuration > kMaxDurationMs cfg then sint (kMaxDurationMs cfg)
      else if inputDuration > kMinDurationMs cfg then sint inputDuration
      else sint (kMinDurationMs cfg))"

definition covered :: "int \<Rightarrow> timespec \<Rightarrow> interaction_handler \<Rightarrow> bool" where
  "covered finalDuration cur s \<longleftrightarrow>
     mState s \<noteq> INTERACTION_STATE_IDLE \<and> finalDuration \<le> mDurationMs s \<and>
     CalcTimespecDiffMs (mLastTimespec s) cur \<le> mDurationMs s - finalDuration"

definition Acquire :: "interaction_config \<Rightarrow> timespec \<Rightarrow> int \<Rightarrow> interaction_handler \<Rightarrow> interaction_handler" where
  "Acquire cfg cur duration s =
     (let finalDuration = final_duration cfg duration in
      if \<not> kDisplayIdleSupport cfg \<or> mState s = INTERACTION_STATE_UNINITIALIZED
      then call_hint (ReqDoFor ''INTERACTION'' finalDuration) s
      else if covered finalDuration cur s then s
      else let s1 = s\<lparr>mLastTimespec := cur, mDurationMs := finalDuration\<rparr>;
               s2 = (if mState s1 = INTERACTION_STATE_WAITING then AbortWaitLocked s1
                     else if mState s1 = INTERACTION_STATE_IDLE then PerfLock s1 else s1)
           in s2\<lparr>mState := INTERACTION_STATE_INTERACTION\<rparr>)"

definition Release :: "interaction_handler \<Rightarrow> interaction_handler" where
  "Release s =
     (if mState s = INTERACTION_STATE_WAITING then (PerfRel s)\<lparr>mState := INTERACTION_STATE_IDLE\<rparr>
      else s\<lparr>mEventFd := 0\<rparr>)"

text \<open>The thread's wait changes nothing of the handler; how it ends depends on what poll and
  pread return. A failed pread leaves the buffer unset before it is compared: no result.\<close>

datatype wait_outcome =
  WaitAborted | PollFailed | UnexpectedEof | AlreadyIdle | IdleFailed | TimedOut | IdleAborted | IdleDetected | Woken

datatype read_result = ReadError | ReadEof | ReadData string

definition WaitForIdle :: "int \<Rightarrow> read_result \<Rightarrow> int \<Rightarrow> bool \<Rightarrow> bool \<Rightarrow> wait_outcome option" where
  "WaitForIdle poll1 rd poll2 revents0 revents1 =
     (if poll1 > 0 then Some WaitAborted
      else if poll1 < 0 then Some PollFailed
      else case rd of
        ReadEof \<Rightarrow> Some UnexpectedEof
      | ReadError \<Rightarrow> None
      | ReadData d \<Rightarrow>
          (if take 4 d = ''idle'' then Some AlreadyIdle
           else Some (if poll2 < 0 then IdleFailed
                      else if poll2 = 0 then TimedOut
                      else if revents0 then IdleAborted
                      else if revents1 then IdleDetected
                      else Woken)))"

section \<open>The thread and its clients\<close>

datatype routine_pc = NotStarted | AtTop | InWait | Returned

record interaction_system =
  handler :: interaction_handler
  pc :: routine_pc

text \<open>One step of \<open>Routine\<close>: the wait at the top of the loop (blocked while idle, over
  when the handler is shut down), or \<open>Release\<close> after \<open>WaitForIdle\<close> has come back.\<close>

definition routine :: "interaction_system \<Rightarrow> interaction_system option" where
  "routine y =
     (case pc y of
        AtTop \<Rightarrow>
          (case mState (handler y) of
             INTERACTION_STATE_IDLE \<Rightarrow> None
           | INTERACTION_STATE_UNINITIALIZED \<Rightarrow> Some (y\<lparr>pc := Returned\<rparr>)
           | _ \<Rightarrow> Some (y\<lparr>handler := (handler y)\<lparr>mState := INTERACTION_STATE_WAITING\<rparr>, pc := InWait\<rparr>))
      | InWait \<Rightarrow> Some (y\<lparr>handler := Release (handler y), pc := AtTop\<rparr>)
      | _ \<Rightarrow> None)"

fun routines :: "nat \<Rightarrow> interaction_system \<Rightarrow> interaction_system" where
  "routines 0 y = y"
| "routines (Suc n) y = (case routine y of None \<Rightarrow> y | Some y' \<Rightarrow> routines n y')"

text \<open>The constructor's \<open>Init\<close> starts the thread; \<open>Acquire\<close> may come at any time, before
  and after it too.\<close>

inductive istep :: "interaction_config \<Rightarrow> interaction_system \<Rightarrow> interaction_system \<Rightarrow> bool"
  for cfg :: interaction_config where
  init: "pc y = NotStarted \<Longrightarrow> Init io eo (handler y) = (ok, h) \<Longrightarrow>
    istep cfg y (y\<lparr>handler := h, pc := (if mState h = INTERACTION_STATE_IDLE then AtTop else NotStarted)\<rparr>)"
| acquire: "istep cfg y (y\<lparr>handler := Acquire cfg cur d (handler y)\<rparr>)"
| thread: "routine y = Some y' \<Longrightarrow> istep cfg y y'"
| exit: "istep cfg y (y\<lparr>handler := Exit (handler y)\<rparr>)"

definition interaction_start :: interaction_system where
  "interaction_start = \<lparr>handler = new_handler, pc = NotStarted\<rparr>"

definition ireachable :: "interaction_config \<Rightarrow> interaction_system \<Rightarrow> bool" where
  "ireachable cfg y \<longleftrightarrow> (istep cfg)\<^sup>*\<^sup>* interaction_start y"

section \<open>The hint that is held\<close>

text \<open>Boosts for a time, which nobody ends.\<close>

definition timed :: "interaction_config \<Rightarrow> hint_req list \<Rightarrow> bool" where
  "timed cfg rs \<longleftrightarrow> (\<forall>r\<in>set rs. \<exists>d. r = ReqDoFor ''INTERACTION'' (final_duration cfg d))"

lemma timed_simps [simp]:
  "timed cfg []" "timed cfg (xs @ ys) \<longleftrightarrow> timed cfg xs \<and> timed cfg ys"
  "timed cfg [ReqDoFor ''INTERACTION'' (final_duration cfg d)]"
  by (auto simp: timed_def)

text \<open>The calls to the hint manager before the handler runs, while it runs, and after it was shut down.\<close>

definition calls_split :: "interaction_config \<Rightarrow> interaction_system \<Rightarrow> hint_req list \<Rightarrow> hint_req list \<Rightarrow> hint_req list \<Rightarrow> bool" where
  "calls_split cfg y before run after \<longleftrightarrow>
     hint_calls (handler y) = before @ run @ after \<and> timed cfg before \<and> timed cfg after \<and>
     alternates ''INTERACTION'' run False \<and>
     (mState (handler y) \<noteq> INTERACTION_STATE_UNINITIALIZED \<longrightarrow> after = []) \<and>
     (pc y = NotStarted \<or> \<not> kDisplayIdleSupport cfg \<longrightarrow> run = []) \<and>
     (mState (handler y) = INTERACTION_STATE_IDLE \<longrightarrow> \<not> holds run False) \<and>
     (mState (handler y) \<in> {INTERACTION_STATE_INTERACTION, INTERACTION_STATE_WAITING} \<longrightarrow> holds run False)"

text \<open>Where the thread can be in each state, and when an abort is pending in the eventfd.\<close>

definition thread_inv :: "interaction_system \<Rightarrow> bool" where
  "thread_inv y \<longleftrightarrow>
     (case mState (handler y) of
        INTERACTION_STATE_UNINITIALIZED \<Rightarrow> True
      | INTERACTION_STATE_IDLE \<Rightarrow> pc y = AtTop \<and> mEventFd (handler y) = 0
      | INTERACTION_STATE_INTERACTION \<Rightarrow> pc y = InWait \<or> pc y = AtTop \<and> mEventFd (handler y) = 0
      | INTERACTION_STATE_WAITING \<Rightarrow> pc y = InWait \<and> mEventFd (handler y) = 0)"

definition interaction_inv :: "interaction_config \<Rightarrow> interaction_system \<Rightarrow> bool" where
  "interaction_inv cfg y \<longleftrightarrow> thread_inv y \<and> (\<exists>before run after. calls_split cfg y before run after)"

lemmas interaction_defs =
  Acquire_def Release_def Exit_def Init_def AbortWaitLocked_def PerfLock_def PerfRel_def call_hint_def

lemma thread_inv_step: "thread_inv y \<Longrightarrow> istep cfg y z \<Longrightarrow> thread_inv z"
  by (erule istep.cases; cases "mState (handler y)"; cases "pc y")
    (auto simp: thread_inv_def interaction_defs routine_def Let_def split: if_splits)

lemma split_acquire:
  assumes t: "thread_inv y" and s: "calls_split cfg y before run after"
  shows "\<exists>before run after. calls_split cfg (y\<lparr>handler := Acquire cfg cur d (handler y)\<rparr>) before run after"
proof -
  define t where "t = ReqDoFor ''INTERACTION'' (final_duration cfg d)"
  define z where "z = y\<lparr>handler := Acquire cfg cur d (handler y)\<rparr>"
  consider "mState (handler y) = INTERACTION_STATE_UNINITIALIZED"
    | "mState (handler y) \<noteq> INTERACTION_STATE_UNINITIALIZED" "\<not> kDisplayIdleSupport cfg"
    | "mState (handler y) = INTERACTION_STATE_IDLE" "kDisplayIdleSupport cfg"
    | "mState (handler y) \<in> {INTERACTION_STATE_INTERACTION, INTERACTION_STATE_WAITING}" "kDisplayIdleSupport cfg"
    by (cases "mState (handler y)") auto
  then have "\<exists>before run after. calls_split cfg z before run after"
  proof cases
    case 1
    then have "calls_split cfg z before run (after @ [t])"
      using s by (auto simp: calls_split_def z_def t_def interaction_defs Let_def)
    then show ?thesis by blast
  next
    case 2
    then have "calls_split cfg z (before @ [t]) run after"
      using s by (auto simp: calls_split_def z_def t_def interaction_defs Let_def)
    then show ?thesis by blast
  next
    case 3
    then have "calls_split cfg z before (run @ [ReqDo ''INTERACTION'']) after"
      using s t by (auto simp: calls_split_def z_def thread_inv_def covered_def interaction_defs Let_def)
    then show ?thesis by blast
  next
    case 4
    then have "calls_split cfg z before run after"
      using s by (auto simp: calls_split_def z_def interaction_defs Let_def)
    then show ?thesis by blast
  qed
  then show ?thesis by (simp add: z_def)
qed

lemma split_init:
  assumes s: "calls_split cfg y before run after" and p: "pc y = NotStarted"
    and i: "Init io eo (handler y) = (ok, h)"
  shows "\<exists>before run after. calls_split cfg
    (y\<lparr>handler := h, pc := (if mState h = INTERACTION_STATE_IDLE then AtTop else NotStarted)\<rparr>) before run after"
proof -
  have "run = []" using s p by (simp add: calls_split_def)
  then have "calls_split cfg (y\<lparr>handler := h, pc := (if mState h = INTERACTION_STATE_IDLE then AtTop else NotStarted)\<rparr>)
      (before @ after) [] []"
    using s i by (cases "mState (handler y)") (auto simp: calls_split_def interaction_defs split: if_splits)
  then show ?thesis by blast
qed

lemma split_thread:
  assumes t: "thread_inv y" and s: "calls_split cfg y before run after" and r: "routine y = Some z"
  shows "\<exists>before run after. calls_split cfg z before run after"
proof (cases "pc y = InWait \<and> mState (handler y) = INTERACTION_STATE_WAITING")
  case True
  then have "calls_split cfg z before (run @ [ReqEnd ''INTERACTION'']) after"
    using s r by (auto simp: calls_split_def routine_def interaction_defs)
  then show ?thesis by blast
next
  case False
  then have "calls_split cfg z before run after"
    using s r by (cases "mState (handler y)"; cases "pc y") (auto simp: calls_split_def routine_def interaction_defs)
  then show ?thesis by blast
qed

lemma inv_reachable: "ireachable cfg y \<Longrightarrow> interaction_inv cfg y"
  unfolding ireachable_def
proof (induction rule: rtranclp_induct)
  case base
  have "calls_split cfg interaction_start [] [] []"
    by (simp add: calls_split_def interaction_start_def new_handler_def)
  then show ?case by (auto simp: interaction_inv_def thread_inv_def interaction_start_def new_handler_def)
next
  case (step y z)
  then obtain before run after where y: "thread_inv y" "calls_split cfg y before run after"
    by (auto simp: interaction_inv_def)
  from step.hyps(2) have "\<exists>before run after. calls_split cfg z before run after"
  proof cases
    case exit
    have "calls_split cfg z before run after"
      using y(2) by (auto simp: exit calls_split_def interaction_defs)
    then show ?thesis by blast
  next
    case thread
    then show ?thesis using split_thread [OF y] by blast
  qed (use y split_acquire split_init in blast)+
  with thread_inv_step [OF y(1) step.hyps(2)] show ?case by (simp add: interaction_inv_def)
qed


definition default_cfg :: interaction_config where
  "default_cfg = \<lparr>kDisplayIdleSupport = True, kMinDurationMs = 1400, kMaxDurationMs = 5650, kDurationOffsetMs = 650\<rparr>"

definition boosting :: interaction_system where
  "boosting = \<lparr>handler = \<lparr>mState = INTERACTION_STATE_INTERACTION, mDurationMs = 1650,
     mLastTimespec = \<lparr>tv_sec = 7, tv_nsec = 0\<rparr>, mEventFd = 0, hint_calls = [ReqDo ''INTERACTION'']\<rparr>, pc = AtTop\<rparr>"

definition waiting :: interaction_system where
  "waiting = boosting\<lparr>handler := (handler boosting)\<lparr>mState := INTERACTION_STATE_WAITING\<rparr>, pc := InWait\<rparr>"

lemma boosting_reachable: "ireachable default_cfg boosting"
proof -
  define idle where "idle = interaction_start\<lparr>handler := (handler interaction_start)\<lparr>mState := INTERACTION_STATE_IDLE\<rparr>, pc := AtTop\<rparr>"
  have "istep default_cfg interaction_start idle"
    using istep.init [of interaction_start True True True "handler idle" default_cfg]
    by (simp add: idle_def interaction_start_def new_handler_def Init_def)
  moreover have "Acquire default_cfg \<lparr>tv_sec = 7, tv_nsec = 0\<rparr> 1000 (handler idle) = handler boosting"
    by (simp add: idle_def boosting_def interaction_start_def new_handler_def Acquire_def covered_def
        final_duration_def default_cfg_def PerfLock_def call_hint_def)
  then have "istep default_cfg idle boosting"
    using istep.acquire [of default_cfg idle "\<lparr>tv_sec = 7, tv_nsec = 0\<rparr>" 1000]
    by (simp add: idle_def boosting_def interaction_start_def)
  ultimately show ?thesis by (simp add: ireachable_def)
qed

lemma waiting_reachable: "ireachable default_cfg waiting"
proof -
  have "routine boosting = Some waiting"
    by (simp add: routine_def boosting_def waiting_def)
  then show ?thesis
    using boosting_reachable istep.thread rtranclp.rtrancl_into_rtrancl by (metis ireachable_def)
qed


text \<open>
  The wake-up that \<open>Acquire\<close> writes to cut a wait short never survives into a later
  wait: whenever the thread waits for a boost that has not been renewed (state WAITING), the
  eventfd is empty, so the wait is not cut short and the boost is not dropped early.\<close>

theorem no_stale_abort:
  assumes "ireachable cfg y" "mState (handler y) = INTERACTION_STATE_WAITING"
  shows "mEventFd (handler y) = 0 \<and> pc y = InWait"
  using inv_reachable [OF assms(1)] assms(2) by (simp add: interaction_inv_def thread_inv_def)

theorem no_stale_abort_witness: "mEventFd (handler waiting) = 0 \<and> pc waiting = InWait"
  using no_stale_abort [OF waiting_reachable] by (simp add: waiting_def)

text \<open>
  A boost does not stay on: from every reachable state that holds it while the handler is
  running, at most three steps of the thread with no further \<open>Acquire\<close> make the handler
  idle, its last call to the hint manager being the \<open>EndHint\<close> of INTERACTION.\<close>

theorem boost_is_released:
  assumes "ireachable cfg y" "mState (handler y) \<in> {INTERACTION_STATE_INTERACTION, INTERACTION_STATE_WAITING}"
  shows "\<exists>n\<le>3. mState (handler (routines n y)) = INTERACTION_STATE_IDLE \<and>
    hint_calls (handler (routines n y)) = hint_calls (handler y) @ [ReqEnd ''INTERACTION'']"
proof (cases "mState (handler y) = INTERACTION_STATE_WAITING")
  case True
  with inv_reachable [OF assms(1)] have "pc y = InWait" by (simp add: interaction_inv_def thread_inv_def)
  with True show ?thesis
    by (intro exI [of _ 1]) (simp add: routine_def interaction_defs)
next
  case False
  with assms(2) have st: "mState (handler y) = INTERACTION_STATE_INTERACTION" by simp
  with inv_reachable [OF assms(1)] have "pc y = InWait \<or> pc y = AtTop" by (auto simp: interaction_inv_def thread_inv_def)
  then show ?thesis
  proof
    assume "pc y = AtTop"
    with st show ?thesis
      by (intro exI [of _ 2]) (simp add: routine_def interaction_defs numeral_2_eq_2)
  next
    assume "pc y = InWait"
    with st show ?thesis
      by (intro exI [of _ 3]) (simp add: routine_def interaction_defs numeral_3_eq_3)
  qed
qed

theorem boost_is_released_witness:
  "\<exists>n\<le>3. mState (handler (routines n boosting)) = INTERACTION_STATE_IDLE \<and>
    hint_calls (handler (routines n boosting)) = [ReqDo ''INTERACTION'', ReqEnd ''INTERACTION'']"
  using boost_is_released [OF boosting_reachable] by (simp add: boosting_def)

section \<open>Durations\<close>

definition nanos :: "timespec \<Rightarrow> int" where
  "nanos t = tv_sec t * 1000000000 + tv_nsec t"

definition normal_time :: "timespec \<Rightarrow> bool" where
  "normal_time t \<longleftrightarrow> 0 \<le> tv_sec t \<and> tv_sec t < 2 ^ 50 \<and> 0 \<le> tv_nsec t \<and> tv_nsec t < 1000000000"

lemma sdiv_million: "\<bar>x - (x sdiv 1000000) * 1000000\<bar> < (1000000 :: int)"
  by (cases "0 \<le> x") (auto simp: signed_divide_int_def sgn_if abs_if; presburger)+

lemma diff_ms:
  assumes "normal_time t" "normal_time u" "nanos t \<le> nanos u"
  shows "\<bar>nanos u - nanos t - CalcTimespecDiffMs t u * 1000000\<bar> < 1000000"
proof -
  define e where "e = (tv_sec u - tv_sec t) * 1000 + (tv_nsec u - tv_nsec t) sdiv 1000000"
  have b: "\<bar>nanos u - nanos t - e * 1000000\<bar> < 1000000"
    using sdiv_million [of "tv_nsec u - tv_nsec t"] by (simp add: e_def nanos_def algebra_simps)
  have "0 \<le> e" using b assms(3) by linarith
  moreover have "e < 2 ^ 64"
    using b assms(1,2) by (simp add: normal_time_def nanos_def) linarith
  ultimately have "CalcTimespecDiffMs t u = e" by (simp add: CalcTimespecDiffMs_def e_def)
  with b show ?thesis by simp
qed

definition cfg_ok :: "interaction_config \<Rightarrow> bool" where
  "cfg_ok cfg \<longleftrightarrow> kDisplayIdleSupport cfg \<and> kMinDurationMs cfg \<le> kMaxDurationMs cfg \<and> uint (kMaxDurationMs cfg) < 2 ^ 31"

lemma sint_small: "uint (x :: 32 word) < 2 ^ 31 \<Longrightarrow> sint x = uint x"
  using signed_take_bit_int_eq_self [of 31 "uint x"] uint_ge_0 [of x] by (simp add: sint_uint)

lemma final_duration_range:
  assumes "cfg_ok cfg"
  shows "sint (kMinDurationMs cfg) \<le> final_duration cfg d" "final_duration cfg d \<le> sint (kMaxDurationMs cfg)"
    "0 \<le> sint (kMinDurationMs cfg)"
proof -
  let ?i = "word_of_int d + kDurationOffsetMs cfg"
  have m: "uint (kMinDurationMs cfg) \<le> uint (kMaxDurationMs cfg)" "uint (kMaxDurationMs cfg) < 2 ^ 31"
    using assms by (simp_all add: cfg_ok_def word_le_def)
  then have s: "sint (kMinDurationMs cfg) = uint (kMinDurationMs cfg)"
    "sint (kMaxDurationMs cfg) = uint (kMaxDurationMs cfg)" by (simp_all add: sint_small)
  have i: "\<not> ?i > kMaxDurationMs cfg \<Longrightarrow> sint ?i = uint ?i"
    using m(2) by (intro sint_small) (simp only: word_less_def not_less)
  show "sint (kMinDurationMs cfg) \<le> final_duration cfg d"
    using m s i by (auto simp: final_duration_def Let_def word_less_def simp del: uint_plus_if')
  show "final_duration cfg d \<le> sint (kMaxDurationMs cfg)"
    using m s i by (auto simp: final_duration_def Let_def word_less_def not_less)
  show "0 \<le> sint (kMinDurationMs cfg)" using s by simp
qed

text \<open>
  After \<open>Acquire\<close> on a running handler the boost in force covers what was asked for:
  whether the call renewed the boost or was dropped because an earlier one covers it, the
  recorded boost ends, to within a millisecond, no earlier than the requested duration from now,
  where the requested duration is clamped between the configured minimum and maximum.\<close>

theorem acquire_covers_request:
  assumes "cfg_ok cfg" "mState s \<noteq> INTERACTION_STATE_UNINITIALIZED"
    "normal_time (mLastTimespec s)" "normal_time cur" "nanos (mLastTimespec s) \<le> nanos cur"
  shows "mState (Acquire cfg cur d s) \<in> {INTERACTION_STATE_INTERACTION, INTERACTION_STATE_WAITING} \<and>
    nanos cur + (final_duration cfg d - 1) * 1000000
      < nanos (mLastTimespec (Acquire cfg cur d s)) + mDurationMs (Acquire cfg cur d s) * 1000000 \<and>
    sint (kMinDurationMs cfg) \<le> final_duration cfg d \<and> final_duration cfg d \<le> sint (kMaxDurationMs cfg)"
proof (cases "covered (final_duration cfg d) cur s")
  case True
  have "nanos cur - nanos (mLastTimespec s) < (CalcTimespecDiffMs (mLastTimespec s) cur + 1) * 1000000"
    using diff_ms [OF assms(3,4,5)] by (simp only: distrib_right)
  also have "\<dots> \<le> (mDurationMs s - final_duration cfg d + 1) * 1000000"
    using True by (simp add: covered_def)
  finally have "nanos cur + (final_duration cfg d - 1) * 1000000 < nanos (mLastTimespec s) + mDurationMs s * 1000000"
    by (simp add: algebra_simps)
  moreover have "Acquire cfg cur d s = s"
    using True assms by (simp add: Acquire_def cfg_ok_def Let_def)
  moreover have "mState s \<in> {INTERACTION_STATE_INTERACTION, INTERACTION_STATE_WAITING}"
    using True assms(2) by (cases "mState s") (auto simp: covered_def)
  ultimately show ?thesis using final_duration_range [OF assms(1)] by simp
next
  case False
  then show ?thesis
    using assms(1,2) final_duration_range [OF assms(1)]
    by (auto simp: Acquire_def Let_def cfg_ok_def interaction_defs)
qed

theorem acquire_covers_request_witness:
  "mState (Acquire default_cfg \<lparr>tv_sec = 7, tv_nsec = 100000000\<rparr> 800 (handler boosting)) \<in>
    {INTERACTION_STATE_INTERACTION, INTERACTION_STATE_WAITING}"
  using acquire_covers_request [of default_cfg "handler boosting" "\<lparr>tv_sec = 7, tv_nsec = 100000000\<rparr>" 800]
  by (simp add: cfg_ok_def default_cfg_def boosting_def normal_time_def nanos_def)

text \<open>
  A negative duration gets the longest boost: the sum with the offset is compared as an
  unsigned number, so every request below minus the offset counts as larger than the maximum,
  while a request of zero gets the minimum.\<close>

theorem negative_duration_boosts_longest:
  assumes "- (2 ^ 31) \<le> d" "d < - 650"
  shows "final_duration default_cfg d = 5650 \<and> final_duration default_cfg 0 = 1400"
proof -
  have "uint (word_of_int d + 650 :: 32 word) = (d + 650) mod 2 ^ 32"
    by (simp add: uint_word_ariths uint_word_of_int mod_add_left_eq)
  also have "\<dots> = d + 650 + 2 ^ 32"
    using assms mod_add_self2 [of "d + 650" "2 ^ 32"] mod_pos_pos_trivial [of "d + 650 + 2 ^ 32" "2 ^ 32"]
    by simp
  finally have "(word_of_int d + 650 :: 32 word) > 5650"
    using assms by (simp add: word_less_def)
  then show ?thesis
    by (simp add: final_duration_def default_cfg_def)
qed

theorem negative_duration_boosts_longest_witness: "final_duration default_cfg (- 1000) = 5650"
  using negative_duration_boosts_longest [of "- 1000"] by simp

end
