(* ===== verification/PowerHal.thy ===== *)
theory PowerHal
  imports PowerControl Interaction
begin

text \<open>
  The two binder services of \<open>power-libperfmgr/aidl\<close>, \<open>Power.cpp\<close> and
  \<open>PowerExt.cpp\<close>: modes and boosts are turned into requests to the hint manager (the model
  of HintManager), to the interaction handler (Interaction) and to the session manager
  (PowerSession). The requests a call makes are appended to \<open>hal_requests\<close>, those of the
  interaction handler to its own. \<open>toString\<close>, which the AIDL compiler generates, is a
  parameter of the operations.
\<close>

datatype power_mode =
  DOUBLE_TAP_TO_WAKE | LOW_POWER | SUSTAINED_PERFORMANCE | LAUNCH | FIXED_PERFORMANCE |
  EXPENSIVE_RENDERING | INTERACTIVE | DEVICE_IDLE | DISPLAY_INACTIVE | AUDIO_STREAMING_LOW_LATENCY |
  OtherMode string

datatype power_boost = INTERACTION | DISPLAY_UPDATE_IMMINENT | ML_ACC | AUDIO_LAUNCH | OtherBoost string

record power_hal =
  interaction :: interaction_handler
  session_world :: power_world
  mSustainedPerfModeOn :: bool
  mAdpfRateNs :: int
  tap_to_wake_node :: string
  hal_requests :: "hint_req list"

definition ask :: "hint_req \<Rightarrow> power_hal \<Rightarrow> power_hal" where
  "ask r p = p\<lparr>hal_requests := hal_requests p @ [r]\<rparr>"

definition hint_mode :: "string \<Rightarrow> bool \<Rightarrow> power_hal \<Rightarrow> power_hal" where
  "hint_mode md on p = p\<lparr>session_world := updateHintMode md on (session_world p)\<rparr>"

definition switch_hint :: "string \<Rightarrow> bool \<Rightarrow> power_hal \<Rightarrow> power_hal" where
  "switch_hint h on = ask (if on then ReqDo h else ReqEnd h)"

definition boost_hint :: "string \<Rightarrow> int \<Rightarrow> power_hal \<Rightarrow> power_hal" where
  "boost_hint h durationMs =
     ask (if durationMs > 0 then ReqDoFor h durationMs else if durationMs = 0 then ReqDo h else ReqEnd h)"

section \<open>Start\<close>

text \<open>The three persisted properties decide which hints are done at start; whether the
  interaction handler can be set up depends on its two file descriptors.\<close>

definition new_power :: "string \<Rightarrow> string \<Rightarrow> string \<Rightarrow> int \<Rightarrow> bool \<Rightarrow> bool \<Rightarrow> bool \<Rightarrow> power_hal" where
  "new_power state audio rendering rate idle_opened event_opened hm =
     (let p0 = \<lparr>interaction = snd (Init idle_opened event_opened new_handler), session_world = power_start hm,
                mSustainedPerfModeOn = False, mAdpfRateNs = rate, tap_to_wake_node = [], hal_requests = []\<rparr>;
          p1 = (if state = ''SUSTAINED_PERFORMANCE''
                then (ask (ReqDo ''SUSTAINED_PERFORMANCE'') p0)\<lparr>mSustainedPerfModeOn := True\<rparr> else p0);
          p2 = (if audio = ''AUDIO_STREAMING_LOW_LATENCY'' then ask (ReqDo audio) p1 else p1)
      in if rendering = ''EXPENSIVE_RENDERING'' then ask (ReqDo ''EXPENSIVE_RENDERING'') p2 else p2)"

section \<open>Modes and boosts\<close>

definition setMode :: "(power_mode \<Rightarrow> string) \<Rightarrow> power_mode \<Rightarrow> bool \<Rightarrow> power_hal \<Rightarrow> power_hal" where
  "setMode toString ty on p =
     (let p1 = hint_mode (toString ty) on p
      in case ty of
           DOUBLE_TAP_TO_WAKE \<Rightarrow> p1\<lparr>tap_to_wake_node := (if on then ''1'' else ''0'')\<rparr>
         | LOW_POWER \<Rightarrow> p1
         | SUSTAINED_PERFORMANCE \<Rightarrow>
             (if on then ask (ReqDo ''SUSTAINED_PERFORMANCE'') p1 else p1)\<lparr>mSustainedPerfModeOn := True\<rparr>
         | LAUNCH \<Rightarrow> (if mSustainedPerfModeOn p1 then p1 else switch_hint (toString ty) on p1)
         | _ \<Rightarrow> switch_hint (toString ty) on p1)"

definition isModeSupported :: "(power_mode \<Rightarrow> string) \<Rightarrow> power_mode \<Rightarrow> hint_manager \<Rightarrow> bool" where
  "isModeSupported toString ty s \<longleftrightarrow>
     (if ty = LOW_POWER \<or> ty = DOUBLE_TAP_TO_WAKE then True else IsHintSupported (toString ty) s)"

definition setBoost ::
  "(power_boost \<Rightarrow> string) \<Rightarrow> interaction_config \<Rightarrow> timespec \<Rightarrow> power_boost \<Rightarrow> int \<Rightarrow> power_hal \<Rightarrow> power_hal"
where
  "setBoost toString cfg now ty durationMs p =
     (case ty of
        INTERACTION \<Rightarrow>
          (if mSustainedPerfModeOn p then p
           else p\<lparr>interaction := Acquire cfg now durationMs (interaction p)\<rparr>)
      | _ \<Rightarrow> (if mSustainedPerfModeOn p then p else boost_hint (toString ty) durationMs p))"

definition isBoostSupported :: "(power_boost \<Rightarrow> string) \<Rightarrow> power_boost \<Rightarrow> hint_manager \<Rightarrow> bool" where
  "isBoostSupported toString ty s = IsHintSupported (toString ty) s"

definition createHintSession ::
  "adpf_config \<Rightarrow> power_env \<Rightarrow> int \<Rightarrow> addr \<Rightarrow> int \<Rightarrow> int \<Rightarrow> int list \<Rightarrow> int \<Rightarrow> power_hal \<Rightarrow>
    (binder_status \<times> addr option \<times> power_hal) option"
where
  "createHintSession cfg e now a tg u tids dur p =
     (if mAdpfRateNs p \<le> 0 then Some (EX_UNSUPPORTED_OPERATION, None, p)
      else if tids = [] then Some (EX_ILLEGAL_ARGUMENT, None, p)
      else case create_session cfg e now a tg u tids dur (mAdpfRateNs p) (session_world p) of
             None \<Rightarrow> None
           | Some w \<Rightarrow> Some (STATUS_OK, Some a, p\<lparr>session_world := w\<rparr>))"

definition getHintSessionPreferredRate :: "power_hal \<Rightarrow> binder_status \<times> int" where
  "getHintSessionPreferredRate p =
     ((if mAdpfRateNs p \<le> 0 then EX_UNSUPPORTED_OPERATION else STATUS_OK), mAdpfRateNs p)"

section \<open>The extension service\<close>

definition ext_setMode :: "string \<Rightarrow> bool \<Rightarrow> power_hal \<Rightarrow> power_hal" where
  "ext_setMode md on p = hint_mode md on (switch_hint md on p)"

definition ext_setBoost :: "string \<Rightarrow> int \<Rightarrow> power_hal \<Rightarrow> power_hal" where
  "ext_setBoost b durationMs p = boost_hint b durationMs p"

section \<open>Any sequence of calls\<close>

inductive hal_step :: "(power_mode \<Rightarrow> string) \<Rightarrow> (power_boost \<Rightarrow> string) \<Rightarrow> interaction_config \<Rightarrow> power_hal \<Rightarrow> power_hal \<Rightarrow> bool"
  for ms :: "power_mode \<Rightarrow> string" and bs :: "power_boost \<Rightarrow> string" and cfg :: interaction_config where
  mode: "hal_step ms bs cfg p (setMode ms ty on p)"
| boost: "hal_step ms bs cfg p (setBoost bs cfg now bt d p)"
| ext_mode: "hal_step ms bs cfg p (ext_setMode md on p)"
| ext_boost: "hal_step ms bs cfg p (ext_setBoost b d p)"

lemmas hal_defs = setMode_def setBoost_def ext_setMode_def ext_setBoost_def switch_hint_def boost_hint_def
  hint_mode_def ask_def

lemma sustained_step: "hal_step ms bs cfg p p' \<Longrightarrow> mSustainedPerfModeOn p \<Longrightarrow> mSustainedPerfModeOn p'"
  by (erule hal_step.cases) (auto simp: hal_defs Let_def split: power_mode.split power_boost.split)

lemma sustained_steps:
  "(hal_step ms bs cfg)\<^sup>*\<^sup>* p p' \<Longrightarrow> mSustainedPerfModeOn p \<Longrightarrow> mSustainedPerfModeOn p'"
  by (induction rule: rtranclp_induct) (auto intro: sustained_step)

text \<open>
  Sustained performance mode cannot be left: switching it off sets the same flag as switching
  it on and ends no hint, so after one call with either value no sequence of calls clears the
  flag, and every boost from then on is dropped.\<close>

theorem sustained_mode_never_ends:
  assumes "(hal_step ms bs cfg)\<^sup>*\<^sup>* (setMode ms SUSTAINED_PERFORMANCE on p) p'"
  shows "mSustainedPerfModeOn p' \<and> setBoost bs cfg now ty d p' = p' \<and>
    hal_requests (setMode ms SUSTAINED_PERFORMANCE False p') = hal_requests p'"
proof -
  have "mSustainedPerfModeOn (setMode ms SUSTAINED_PERFORMANCE on p)" by (simp add: hal_defs Let_def)
  with sustained_steps [OF assms] have "mSustainedPerfModeOn p'" by simp
  then show ?thesis by (auto simp: hal_defs Let_def split: power_boost.split)
qed

definition plain_power :: power_hal where
  "plain_power = new_power [] [] [] 16000000 True True True"

theorem sustained_mode_never_ends_witness:
  "mSustainedPerfModeOn (setMode (\<lambda>_. ''SUSTAINED_PERFORMANCE'') SUSTAINED_PERFORMANCE False plain_power)"
  using sustained_mode_never_ends [OF rtranclp.rtrancl_refl] by blast

text \<open>
  A hint session is created only with a positive update rate and at least one thread; the
  error says which is missing and then nothing changes; otherwise the new session is registered,
  open, and its threads are boosted to the high limit.\<close>

theorem create_session_outcome:
  assumes "alive (session_world p) a = None" "0 \<le> sUclampMinHighLimit cfg" "sUclampMinHighLimit cfg \<le> kMaxUclampValue"
  shows "\<exists>st r p'. createHintSession cfg e now a tg u tids dur p = Some (st, r, p') \<and>
    (st = EX_UNSUPPORTED_OPERATION \<longleftrightarrow> mAdpfRateNs p \<le> 0) \<and>
    (st = EX_ILLEGAL_ARGUMENT \<longleftrightarrow> 0 < mAdpfRateNs p \<and> tids = []) \<and>
    (st = STATUS_OK \<longleftrightarrow> 0 < mAdpfRateNs p \<and> tids \<noteq> []) \<and>
    (st \<noteq> STATUS_OK \<longrightarrow> r = None \<and> p' = p) \<and>
    (st = STATUS_OK \<longrightarrow> r = Some a \<and> a \<in> set (mSessions (session_world p')) \<and>
       shape (session_world p') a = Some (tids, False) \<and>
       (\<forall>t\<in>set tids. uclamp_enabled e \<and> setattr_ok e t \<longrightarrow>
          uclamps (session_world p') t = Some (sUclampMinHighLimit cfg, kMaxUclampValue)))"
proof (cases "0 < mAdpfRateNs p \<and> tids \<noteq> []")
  case True
  have c: "clamp_min (sUclampMinHighLimit cfg) kMaxUclampValue = sUclampMinHighLimit cfg"
    using assms(2,3) by (simp add: clamp_min_def)
  obtain w where w: "create_session cfg e now a tg u tids dur (mAdpfRateNs p) (session_world p) = Some w"
    "\<forall>t\<in>set tids. uclamp_enabled e \<and> setattr_ok e t \<longrightarrow> uclamps w t = Some (sUclampMinHighLimit cfg, kMaxUclampValue)"
    by (auto simp: create_session_def setUclamp_def Let_def new_desc_def put_desc_def put_session_def
        addPowerSession_def fold_setattr c clamp_range)
  with True create_book [OF w(1)] show ?thesis by (auto simp: createHintSession_def)
next
  case False
  then show ?thesis by (auto simp: createHintSession_def)
qed

theorem create_session_outcome_witness:
  "\<exists>p'. createHintSession adpf_default env_default 0 1 100 1000 [7] 10000000 plain_power = Some (STATUS_OK, Some 1, p') \<and>
    uclamps (session_world p') 7 = Some (512, kMaxUclampValue)"
proof -
  have "alive (session_world plain_power) 1 = None" "mAdpfRateNs plain_power = 16000000"
    by (simp_all add: plain_power_def new_power_def power_start_def)
  with create_session_outcome [of plain_power 1 adpf_default env_default 0 100 1000 "[7]" 10000000] show ?thesis
    by (auto simp: adpf_default_def kMaxUclampValue_def env_default_def)
qed

end
