(* ===== verification/ThermalConfig.thy ===== *)
theory ThermalConfig
  imports HintConfig Float32 "HOL-Library.AList"
begin

text \<open>
  The thermal configuration: the structures of \<open>thermal/utils/config_parser.h\<close> and the
  three parsers of \<open>config_parser.cpp\<close>. An array indexed by the seven severities of
  \<open>ThrottlingSeverity\<close> is a function on 0 to 6. The JSON library is a parameter, as in
  HintConfig, with the accessors this parser calls besides; the names of the generated
  enumerations are the parameter \<open>types\<close>. A parser has three outcomes: the process ends (an
  exception nobody catches, or LOG(FATAL)), the file is rejected and the result is the cleared map,
  or a value.
\<close>

section \<open>The structures\<close>

type_synonym severity = nat
type_synonym throttling_array = "severity \<Rightarrow> float32"
type_synonym cdev_array = "severity \<Rightarrow> int"

definition kThrottlingSeverityCount :: nat where "kThrottlingSeverityCount = 7"
definition kMinPollIntervalMs :: int where "kMinPollIntervalMs = 2000"
definition kUeventPollTimeoutMs :: int where "kUeventPollTimeoutMs = 300000"
definition max_int :: int where "max_int = 2147483647"
definition max_ms :: int where "max_ms = 2 ^ 63 - 1"

datatype formula = COUNT_THRESHOLD | WEIGHTED_AVG | MAXIMUM | MINIMUM

text \<open>\<open>VirtualSensorInfo\<close> and \<open>VirtualPowerRailInfo\<close>: the latter has no trigger.\<close>

record virtual_info =
  linked :: "string list"
  coefficients :: "float32 list"
  v_offset :: float32
  v_formula :: formula

record virtual_sensor_info = virtual_info +
  trigger_sensor :: string

datatype release_logic = INCREASE | DECREASE | STEPWISE | RELEASE_TO_FLOOR | NONE

record binded_cdev_info =
  limit_info :: cdev_array
  power_thresholds :: throttling_array
  b_release_logic :: release_logic
  cdev_weight_for_pid :: throttling_array
  cdev_ceiling :: cdev_array
  cdev_floor_with_power_link :: cdev_array
  power_rail :: string
  high_power_check :: bool
  throttling_with_power_link :: bool

record pid_info =
  k_po :: throttling_array
  k_pu :: throttling_array
  k_i :: throttling_array
  k_d :: throttling_array
  i_max :: throttling_array
  max_alloc_power :: throttling_array
  min_alloc_power :: throttling_array
  s_power :: throttling_array
  i_cutoff :: throttling_array

record throttling_info = pid_info +
  binded_cdev_info_map :: "(string \<times> binded_cdev_info) list"

record sensor_info =
  s_type :: int
  hot_thresholds :: throttling_array
  cold_thresholds :: throttling_array
  hot_hysteresis :: throttling_array
  cold_hysteresis :: throttling_array
  temp_path :: string
  vr_threshold :: float32
  multiplier :: float32
  polling_delay :: int
  passive_delay :: int
  send_cb :: bool
  send_powerhint :: bool
  is_monitor :: bool
  virtual_sensor :: "virtual_sensor_info option"
  throttling :: throttling_info

record cdev_info =
  c_type :: int
  read_path :: string
  write_path :: string
  state2power :: "float32 list"
  max_state :: int

record power_rail_info =
  rail :: string
  power_sample_count :: int
  power_sample_delay :: int
  virtual_rail :: "virtual_info option"

section \<open>Outcomes\<close>

datatype 'a parsed = Dies | Rejects | Parsed 'a

fun andthen :: "'a parsed \<Rightarrow> ('a \<Rightarrow> 'b parsed) \<Rightarrow> 'b parsed" where
  "andthen (Parsed a) f = f a"
| "andthen Rejects f = Rejects"
| "andthen Dies f = Dies"

fun mapM :: "('a \<Rightarrow> 'b parsed) \<Rightarrow> 'a list \<Rightarrow> 'b list parsed" where
  "mapM f [] = Parsed []"
| "mapM f (x # xs) = andthen (f x) (\<lambda>y. andthen (mapM f xs) (\<lambda>ys. Parsed (y # ys)))"

definition require :: "bool \<Rightarrow> unit parsed" where
  "require b = (if b then Parsed () else Rejects)"

lemma andthen_Parsed [simp]: "andthen p f = Parsed b \<longleftrightarrow> (\<exists>a. p = Parsed a \<and> f a = Parsed b)"
  by (cases p) auto

lemma require_Parsed [simp]: "require b = Parsed u \<longleftrightarrow> b"
  by (simp add: require_def)

lemma mapM_length: "mapM f xs = Parsed ys \<Longrightarrow> length ys = length xs"
  by (induction xs arbitrary: ys) auto

section \<open>Values\<close>

record 'j thermal_json = "'j json_api" +
  isString :: "'j \<Rightarrow> bool"
  asInt :: "'j \<Rightarrow> int"
  asFloat :: "'j \<Rightarrow> float32"
  isNull :: "'j \<Rightarrow> bool"

definition getFloatFromValue :: "('j, 'm) thermal_json_scheme \<Rightarrow> 'j \<Rightarrow> float32 parsed" where
  "getFloatFromValue J v =
     (if isString J v then (case stof (asString J v) of None \<Rightarrow> Dies | Some f \<Rightarrow> Parsed f)
      else Parsed (asFloat J v))"

text \<open>The \<open>unsigned long\<close> of \<open>stoul\<close> is cut to the width of the result.\<close>

definition getIntFromValue :: "('j, 'm) thermal_json_scheme \<Rightarrow> 'j \<Rightarrow> int parsed" where
  "getIntFromValue J v =
     (if isString J v then
        if asString J v = ''max'' then Parsed max_int
        else (case stoul (asString J v) of None \<Rightarrow> Dies | Some w \<Rightarrow> Parsed (signed_take_bit 31 (uint w)))
      else Parsed (asInt J v))"

text \<open>\<open>last\<close> is not initialised: its first value is an argument of the model.\<close>

fun int_loop :: "('j, 'm) thermal_json_scheme \<Rightarrow> bool \<Rightarrow> bool \<Rightarrow> int \<Rightarrow> 'j list \<Rightarrow> int list parsed" where
  "int_loop J inc dec prv [] = Parsed []"
| "int_loop J inc dec prv (v # vs) =
     andthen (getIntFromValue J v) (\<lambda>x.
       if inc \<and> x < prv then Dies
       else if dec \<and> x > prv then Dies
       else andthen (int_loop J inc dec x vs) (\<lambda>xs. Parsed (x # xs)))"

definition array_of :: "'a \<Rightarrow> 'a list \<Rightarrow> severity \<Rightarrow> 'a" where
  "array_of d xs i = (if i < length xs then xs ! i else d)"

definition getIntFromJsonValues ::
  "('j, 'm) thermal_json_scheme \<Rightarrow> int \<Rightarrow> 'j \<Rightarrow> bool \<Rightarrow> bool \<Rightarrow> cdev_array parsed" where
  "getIntFromJsonValues J garbage values inc dec =
     (if inc \<and> dec then Rejects
      else if json_size J values \<noteq> kThrottlingSeverityCount then Rejects
      else andthen (int_loop J inc dec garbage (elements J values))
             (\<lambda>xs. Parsed (array_of 0 xs)))"

fun float_loop :: "('j, 'm) thermal_json_scheme \<Rightarrow> bool \<Rightarrow> bool \<Rightarrow> float32 \<Rightarrow> 'j list \<Rightarrow> float32 list parsed" where
  "float_loop J inc dec prv [] = Parsed []"
| "float_loop J inc dec prv (v # vs) =
     andthen (getFloatFromValue J v) (\<lambda>x.
       if inc \<and> f_less x prv then Dies
       else if dec \<and> f_less prv x then Dies
       else andthen (float_loop J inc dec (if x = None then prv else x) vs) (\<lambda>xs. Parsed (x # xs)))"

definition getFloatFromJsonValues ::
  "('j, 'm) thermal_json_scheme \<Rightarrow> 'j \<Rightarrow> bool \<Rightarrow> bool \<Rightarrow> throttling_array parsed" where
  "getFloatFromJsonValues J values inc dec =
     (if inc \<and> dec then Rejects
      else if json_size J values \<noteq> kThrottlingSeverityCount then Rejects
      else andthen (float_loop J inc dec None (elements J values))
             (\<lambda>xs. Parsed (array_of None xs)))"

section \<open>Sensors\<close>

text \<open>
  Hot thresholds must not fall from one severity to the next, nor below the smallest positive
  number; cold thresholds must not rise. A NaN is skipped.
\<close>

definition min_positive :: rat where "min_positive = 1 / 2 ^ 126"

fun hot_loop :: "('j, 'm) thermal_json_scheme \<Rightarrow> float32 \<Rightarrow> 'j list \<Rightarrow> float32 list parsed" where
  "hot_loop J lo [] = Parsed []"
| "hot_loop J lo (v # vs) =
     andthen (getFloatFromValue J v) (\<lambda>x.
       if f_less x lo then Rejects
       else andthen (hot_loop J (if x = None then lo else x) vs) (\<lambda>xs. Parsed (x # xs)))"

fun cold_loop :: "('j, 'm) thermal_json_scheme \<Rightarrow> float32 \<Rightarrow> 'j list \<Rightarrow> float32 list parsed" where
  "cold_loop J hi [] = Parsed []"
| "cold_loop J hi (v # vs) =
     andthen (getFloatFromValue J v) (\<lambda>x.
       if f_less hi x then Rejects
       else andthen (cold_loop J (if x = None then hi else x) vs) (\<lambda>xs. Parsed (x # xs)))"

definition parse_hot :: "('j, 'm) thermal_json_scheme \<Rightarrow> 'j \<Rightarrow> throttling_array parsed" where
  "parse_hot J values =
     (if json_size J values \<noteq> kThrottlingSeverityCount then Rejects
      else andthen (hot_loop J (Some min_positive) (elements J values))
             (\<lambda>xs. Parsed (array_of None xs)))"

definition parse_cold :: "('j, 'm) thermal_json_scheme \<Rightarrow> 'j \<Rightarrow> throttling_array parsed" where
  "parse_cold J values =
     (if json_size J values \<noteq> kThrottlingSeverityCount then Parsed (\<lambda>_. None)
      else andthen (cold_loop J (Some max32) (elements J values))
             (\<lambda>xs. Parsed (array_of None xs)))"

definition parse_hysteresis :: "('j, 'm) thermal_json_scheme \<Rightarrow> 'j \<Rightarrow> throttling_array parsed" where
  "parse_hysteresis J values =
     (if json_size J values \<noteq> kThrottlingSeverityCount then Parsed (\<lambda>_. Some 0)
      else andthen (mapM (\<lambda>v. andthen (getFloatFromValue J v)
                                (\<lambda>x. if x = None then Rejects else Parsed x)) (elements J values))
             (\<lambda>xs. Parsed (array_of (Some 0) xs)))"

definition formula_of :: "string \<Rightarrow> formula parsed" where
  "formula_of s =
     (if s = ''COUNT_THRESHOLD'' then Parsed COUNT_THRESHOLD
      else if s = ''WEIGHTED_AVG'' then Parsed WEIGHTED_AVG
      else if s = ''MAXIMUM'' then Parsed MAXIMUM
      else if s = ''MINIMUM'' then Parsed MINIMUM
      else Rejects)"

text \<open>The combination of a virtual sensor and of a virtual power rail is read by the same code.\<close>

definition parse_combination :: "('j, 'm) thermal_json_scheme \<Rightarrow> 'j \<Rightarrow> virtual_info parsed" where
  "parse_combination J v =
     (let ls = elements J (member J v ''Combination'');
          cs = elements J (member J v ''Coefficient'');
          off = member J v ''Offset''
      in andthen (require (ls \<noteq> [])) (\<lambda>_.
         andthen (require (cs \<noteq> [])) (\<lambda>_.
         andthen (mapM (getFloatFromValue J) cs) (\<lambda>coeffs.
         andthen (require (length ls = length coeffs)) (\<lambda>_.
         andthen (formula_of (asString J (member J v ''Formula''))) (\<lambda>f.
         Parsed \<lparr>linked = map (asString J) ls, coefficients = coeffs,
                 v_offset = (if json_empty J off then Some 0 else asFloat J off),
                 v_formula = f\<rparr>))))))"

definition parse_virtual :: "('j, 'm) thermal_json_scheme \<Rightarrow> 'j \<Rightarrow> virtual_sensor_info option parsed" where
  "parse_virtual J v =
     (if \<not> bool_member J v ''VirtualSensor'' then Parsed None
      else andthen (parse_combination J v) (\<lambda>i.
             Parsed (Some (virtual_info.extend i
               (virtual_sensor_info.fields (asString J (member J v ''TriggerSensor'')))))))"

definition pid_field :: "('j, 'm) thermal_json_scheme \<Rightarrow> 'j \<Rightarrow> string \<Rightarrow> bool \<Rightarrow> throttling_array parsed" where
  "pid_field J pid key dec =
     (if json_empty J (member J pid key) then Rejects
      else getFloatFromJsonValues J (member J pid key) False dec)"

definition no_pid :: pid_info where
  "no_pid = \<lparr>k_po = (\<lambda>_. Some 0), k_pu = (\<lambda>_. Some 0), k_i = (\<lambda>_. Some 0), k_d = (\<lambda>_. Some 0),
     i_max = (\<lambda>_. None), max_alloc_power = (\<lambda>_. None), min_alloc_power = (\<lambda>_. None),
     s_power = (\<lambda>_. None), i_cutoff = (\<lambda>_. None)\<rparr>"

fun valid_pid_combination :: "pid_info \<Rightarrow> bool \<Rightarrow> nat list \<Rightarrow> bool" where
  "valid_pid_combination p valid [] = valid"
| "valid_pid_combination p valid (j # js) =
     (if s_power p j \<noteq> None then
        if k_po p j = None \<or> k_pu p j = None \<or> k_i p j = None \<or> k_d p j = None \<or> i_max p j = None
           \<or> max_alloc_power p j = None \<or> min_alloc_power p j = None \<or> i_cutoff p j = None
        then False
        else valid_pid_combination p True js
      else valid_pid_combination p valid js)"

text \<open>The parameters, and \<open>support_pid\<close>.\<close>

definition parse_pid :: "('j, 'm) thermal_json_scheme \<Rightarrow> 'j \<Rightarrow> (pid_info \<times> bool) parsed" where
  "parse_pid J v =
     (let pid = member J v ''PIDInfo'' in
      if json_empty J pid then Parsed (no_pid, False)
      else andthen (pid_field J pid ''K_Po'' False) (\<lambda>po.
           andthen (pid_field J pid ''K_Pu'' False) (\<lambda>pu.
           andthen (pid_field J pid ''K_I'' False) (\<lambda>ki.
           andthen (pid_field J pid ''K_D'' False) (\<lambda>kd.
           andthen (pid_field J pid ''I_Max'' False) (\<lambda>im.
           andthen (pid_field J pid ''MaxAllocPower'' True) (\<lambda>mx.
           andthen (pid_field J pid ''MinAllocPower'' True) (\<lambda>mn.
           andthen (pid_field J pid ''S_Power'' True) (\<lambda>sp.
           andthen (pid_field J pid ''I_Cutoff'' False) (\<lambda>ic.
             let p = \<lparr>k_po = po, k_pu = pu, k_i = ki, k_d = kd, i_max = im, max_alloc_power = mx,
                      min_alloc_power = mn, s_power = sp, i_cutoff = ic\<rparr>
             in if valid_pid_combination p False [0..<kThrottlingSeverityCount]
                then Parsed (p, True) else Rejects))))))))))"

section \<open>Bound cooling devices\<close>

fun logic_of :: "string \<Rightarrow> release_logic option" where
  "logic_of s =
     (if s = ''INCREASE'' then Some INCREASE
      else if s = ''DECREASE'' then Some DECREASE
      else if s = ''STEPWISE'' then Some STEPWISE
      else if s = ''RELEASE_TO_FLOOR'' then Some RELEASE_TO_FLOOR
      else None)"

text \<open>A rejected part keeps its default and is noted as invalid.\<close>

fun noted :: "'a \<Rightarrow> 'a parsed \<Rightarrow> ('a \<times> bool) parsed" where
  "noted d (Parsed a) = Parsed (a, False)"
| "noted d Rejects = Parsed (d, True)"
| "noted d Dies = Dies"

definition parse_power_link ::
  "('j, 'm) thermal_json_scheme \<Rightarrow> int \<Rightarrow> 'j \<Rightarrow> binded_cdev_info \<Rightarrow> binded_cdev_info parsed" where
  "parse_power_link J garbage v b =
     (let flo = member J v ''CdevFloorWithPowerLink''; th = member J v ''PowerThreshold'';
          logic = logic_of (asString J (member J v ''ReleaseLogic''));
          b = b\<lparr>power_rail := asString J (member J v ''BindedPowerRail''),
                high_power_check := asBool J (member J v ''HighPowerCheck''),
                throttling_with_power_link := asBool J (member J v ''ThrottlingWithPowerLink'')\<rparr>
      in andthen (if json_size J flo = 0 then Parsed (\<lambda>_. 0, False)
                  else noted (\<lambda>_. 0) (getIntFromJsonValues J garbage flo False False)) (\<lambda>(fl, bad).
         if json_size J th = 0 then Parsed (b\<lparr>cdev_floor_with_power_link := fl\<rparr>)
         else andthen (noted (\<lambda>_. None) (getFloatFromJsonValues J th False False)) (\<lambda>(ts, bad').
              if bad \<or> bad' \<or> logic = None then Rejects
              else Parsed (b\<lparr>cdev_floor_with_power_link := fl, power_thresholds := ts,
                             b_release_logic := the logic\<rparr>))))"

definition parse_binded ::
  "('j, 'm) thermal_json_scheme \<Rightarrow> int \<Rightarrow> bool \<Rightarrow> bool \<Rightarrow> 'j \<Rightarrow> (binded_cdev_info \<times> bool) parsed" where
  "parse_binded J garbage power_link_disabled support_pid v =
     (let w = member J v ''CdevWeightForPID''; c = member J v ''CdevCeiling'';
          l = member J v ''LimitInfo''
      in andthen (if \<not> support_pid \<or> json_empty J w then Parsed (\<lambda>_. None)
                  else getFloatFromJsonValues J w False False) (\<lambda>weights.
         andthen (if \<not> support_pid \<or> json_empty J c then Parsed (\<lambda>_. max_int)
                  else getIntFromJsonValues J garbage c False False) (\<lambda>ceilings.
         andthen (if json_size J l = 0 then Parsed (\<lambda>_. 0)
                  else getIntFromJsonValues J garbage l False False) (\<lambda>limits.
         let b = \<lparr>limit_info = limits, power_thresholds = (\<lambda>_. None), b_release_logic = NONE,
                  cdev_weight_for_pid = weights, cdev_ceiling = ceilings,
                  cdev_floor_with_power_link = (\<lambda>_. 0), power_rail = [], high_power_check = False,
                  throttling_with_power_link = False\<rparr>
         in andthen (if power_link_disabled then Parsed b else parse_power_link J garbage v b)
              (\<lambda>b. Parsed (b, json_size J l \<noteq> 0))))))"

fun binded_loop ::
  "('j, 'm) thermal_json_scheme \<Rightarrow> int \<Rightarrow> bool \<Rightarrow> bool \<Rightarrow> (string \<times> binded_cdev_info) list \<times> bool \<Rightarrow>
   'j list \<Rightarrow> ((string \<times> binded_cdev_info) list \<times> bool) parsed" where
  "binded_loop J garbage disabled pid acc [] = Parsed acc"
| "binded_loop J garbage disabled pid (m, hard) (v # vs) =
     andthen (parse_binded J garbage disabled pid v) (\<lambda>(b, h).
       binded_loop J garbage disabled pid
         (AList.update (asString J (member J v ''CdevRequest'')) b m, hard \<or> h) vs)"

section \<open>The three parsers\<close>

definition parse_delay :: "('j, 'm) thermal_json_scheme \<Rightarrow> 'j \<Rightarrow> int \<Rightarrow> int parsed" where
  "parse_delay J v d = (if json_empty J v then Parsed d else getIntFromValue J v)"

text \<open>The body of the loop of \<open>ParseSensorInfo\<close> after the name is accepted.\<close>

definition parse_sensor ::
  "('j, 'm) thermal_json_scheme \<Rightarrow> (string \<Rightarrow> int option) \<Rightarrow> bool \<Rightarrow> int \<Rightarrow> 'j \<Rightarrow> sensor_info parsed" where
  "parse_sensor J types disabled garbage v =
     (case types (asString J (member J v ''Type'')) of
        None \<Rightarrow> Rejects
      | Some t \<Rightarrow>
          andthen (parse_hot J (member J v ''HotThreshold'')) (\<lambda>hot.
          andthen (parse_hysteresis J (member J v ''HotHysteresis'')) (\<lambda>hot_hyst.
          andthen (parse_cold J (member J v ''ColdThreshold'')) (\<lambda>cold.
          andthen (parse_hysteresis J (member J v ''ColdHysteresis'')) (\<lambda>cold_hyst.
          andthen (parse_virtual J v) (\<lambda>virt.
          andthen (getFloatFromValue J (member J v ''VrThreshold'')) (\<lambda>vr.
          andthen (parse_delay J (member J v ''PollingDelay'') kUeventPollTimeoutMs) (\<lambda>polling.
          andthen (parse_delay J (member J v ''PassiveDelay'') kMinPollIntervalMs) (\<lambda>passive.
          andthen (parse_pid J v) (\<lambda>(p, pid).
          andthen (binded_loop J garbage disabled pid ([], False)
                     (elements J (member J v ''BindedCdevInfo''))) (\<lambda>(binded, hard).
            let cb = bool_member J v ''Monitor''; hint = bool_member J v ''SendPowerHint'';
                tp = member J v ''TempPath''
            in Parsed \<lparr>s_type = t, hot_thresholds = hot, cold_thresholds = cold,
                 hot_hysteresis = hot_hyst, cold_hysteresis = cold_hyst,
                 temp_path = (if json_empty J tp then [] else asString J tp), vr_threshold = vr,
                 multiplier = asFloat J (member J v ''Multiplier''), polling_delay = polling,
                 passive_delay = passive, send_cb = cb, send_powerhint = hint,
                 is_monitor = (cb \<or> hint \<or> pid \<or> hard), virtual_sensor = virt,
                 throttling = pid_info.extend p (throttling_info.fields binded)\<rparr>)))))))))))"

fun named_loop ::
  "('j, 'm) thermal_json_scheme \<Rightarrow> ('j \<Rightarrow> string \<Rightarrow> 'a parsed) \<Rightarrow> string list \<Rightarrow> 'j list \<Rightarrow>
   (string \<times> 'a) list parsed" where
  "named_loop J f names [] = Parsed []"
| "named_loop J f names (v # vs) =
     (let n = asString J (member J v ''Name'') in
      if n = [] then Rejects
      else if n \<in> set names then Rejects
      else andthen (f v n) (\<lambda>a. andthen (named_loop J f (n # names) vs) (\<lambda>as. Parsed ((n, a) # as))))"

fun cleared :: "'a list parsed \<Rightarrow> 'a list parsed" where
  "cleared Rejects = Parsed []"
| "cleared p = p"

text \<open>The frame of the three parsers: read the file, parse it, walk the array, clear on failure.\<close>

definition parse_file ::
  "('j, 'm) thermal_json_scheme \<Rightarrow> (string \<Rightarrow> 'j option) \<Rightarrow> string option \<Rightarrow> string \<Rightarrow>
   ('j \<Rightarrow> string \<Rightarrow> 'a parsed) \<Rightarrow> (string \<times> 'a) list parsed" where
  "parse_file J parse doc key f =
     (case doc of
        None \<Rightarrow> Parsed []
      | Some d \<Rightarrow>
          (case parse d of
             None \<Rightarrow> Parsed []
           | Some doc_root \<Rightarrow> cleared (named_loop J f [] (elements J (member J doc_root key)))))"

definition ParseSensorInfo ::
  "('j, 'm) thermal_json_scheme \<Rightarrow> (string \<Rightarrow> int option) \<Rightarrow> bool \<Rightarrow> int \<Rightarrow> (string \<Rightarrow> 'j option) \<Rightarrow>
   string option \<Rightarrow> (string \<times> sensor_info) list parsed" where
  "ParseSensorInfo J types disabled garbage parse doc =
     parse_file J parse doc ''Sensors'' (\<lambda>v _. parse_sensor J types disabled garbage v)"

definition parse_cdev ::
  "('j, 'm) thermal_json_scheme \<Rightarrow> (string \<Rightarrow> int option) \<Rightarrow> 'j \<Rightarrow> cdev_info parsed" where
  "parse_cdev J types v =
     (case types (asString J (member J v ''Type'')) of
        None \<Rightarrow> Rejects
      | Some t \<Rightarrow>
          andthen (mapM (getFloatFromValue J) (elements J (member J v ''State2Power''))) (\<lambda>ps.
          Parsed \<lparr>c_type = t, read_path = asString J (member J v ''ReadPath''),
                  write_path = asString J (member J v ''WritePath''), state2power = ps,
                  max_state = 0\<rparr>))"

definition ParseCoolingDevice ::
  "('j, 'm) thermal_json_scheme \<Rightarrow> (string \<Rightarrow> int option) \<Rightarrow> (string \<Rightarrow> 'j option) \<Rightarrow>
   string option \<Rightarrow> (string \<times> cdev_info) list parsed" where
  "ParseCoolingDevice J types parse doc =
     parse_file J parse doc ''CoolingDevices'' (\<lambda>v _. parse_cdev J types v)"

definition parse_power_rail :: "('j, 'm) thermal_json_scheme \<Rightarrow> 'j \<Rightarrow> string \<Rightarrow> power_rail_info parsed" where
  "parse_power_rail J v n =
     (let r = member J v ''Rail''; delay = member J v ''PowerSampleDelay'' in
      andthen (if \<not> bool_member J v ''VirtualRails'' then Parsed None
               else andthen (parse_combination J v) (\<lambda>i. Parsed (Some i))) (\<lambda>virt.
      andthen (if isNull J delay then Parsed max_ms else getIntFromValue J delay) (\<lambda>d.
      Parsed \<lparr>rail = (if json_empty J r then n else asString J r),
              power_sample_count = asInt J (member J v ''PowerSampleCount''),
              power_sample_delay = d, virtual_rail = virt\<rparr>)))"

definition ParsePowerRailInfo ::
  "('j, 'm) thermal_json_scheme \<Rightarrow> (string \<Rightarrow> 'j option) \<Rightarrow> string option \<Rightarrow>
   (string \<times> power_rail_info) list parsed" where
  "ParsePowerRailInfo J parse doc = parse_file J parse doc ''PowerRails'' (parse_power_rail J)"

section \<open>What a parsed configuration satisfies\<close>

definition rising :: "float32 \<Rightarrow> float32 \<Rightarrow> bool" where
  "rising a b \<longleftrightarrow> (\<forall>x y. a = Some x \<longrightarrow> b = Some y \<longrightarrow> x \<le> y)"

lemma rising_None [simp]: "rising None b" "rising a None"
  by (simp_all add: rising_def)

lemma rising_Some [simp]: "rising (Some x) (Some y) \<longleftrightarrow> x \<le> y"
  by (simp add: rising_def)

lemma hot_loop_rising:
  "hot_loop J (Some l) vs = Parsed xs \<Longrightarrow> (\<forall>x. Some x \<in> set xs \<longrightarrow> l \<le> x) \<and> sorted_wrt rising xs"
proof (induction vs arbitrary: l xs)
  case (Cons v vs)
  then obtain a ys where a: "getFloatFromValue J v = Parsed a" "\<not> f_less a (Some l)" "xs = a # ys"
      "hot_loop J (if a = None then Some l else a) vs = Parsed ys"
    by (auto split: if_splits)
  show ?case
  proof (cases a)
    case None
    with a Cons.IH [of l ys] show ?thesis by auto
  next
    case (Some x)
    with a have x: "l \<le> x" "hot_loop J (Some x) vs = Parsed ys" by auto
    from Cons.IH [OF x(2)] have ge: "\<forall>y. Some y \<in> set ys \<longrightarrow> x \<le> y" and so: "sorted_wrt rising ys"
      by auto
    have "\<forall>b\<in>set ys. rising (Some x) b" using ge by (auto simp: rising_def)
    with so x ge a(3) Some show ?thesis by fastforce
  qed
qed simp

lemma cold_loop_falling:
  "cold_loop J (Some h) vs = Parsed xs \<Longrightarrow>
     (\<forall>x. Some x \<in> set xs \<longrightarrow> x \<le> h) \<and> sorted_wrt (\<lambda>a b. rising b a) xs"
proof (induction vs arbitrary: h xs)
  case (Cons v vs)
  then obtain a ys where a: "getFloatFromValue J v = Parsed a" "\<not> f_less (Some h) a" "xs = a # ys"
      "cold_loop J (if a = None then Some h else a) vs = Parsed ys"
    by (auto split: if_splits)
  show ?case
  proof (cases a)
    case None
    with a Cons.IH [of h ys] show ?thesis by auto
  next
    case (Some x)
    with a have x: "x \<le> h" "cold_loop J (Some x) vs = Parsed ys" by auto
    from Cons.IH [OF x(2)] have le: "\<forall>y. Some y \<in> set ys \<longrightarrow> y \<le> x"
      and so: "sorted_wrt (\<lambda>a b. rising b a) ys" by auto
    have "\<forall>b\<in>set ys. rising b (Some x)" using le by (auto simp: rising_def)
    with so x le a(3) Some show ?thesis by fastforce
  qed
qed simp

lemma array_of_nth: "i < length xs \<Longrightarrow> array_of d xs i = xs ! i"
  by (simp add: array_of_def)

lemma elements_length [simp]: "length (elements J v) = json_size J v"
  by (simp add: elements_def)

lemma hot_loop_length: "hot_loop J lo vs = Parsed xs \<Longrightarrow> length xs = length vs"
  by (induction vs arbitrary: lo xs) (auto split: if_splits)

lemma cold_loop_length: "cold_loop J hi vs = Parsed xs \<Longrightarrow> length xs = length vs"
  by (induction vs arbitrary: hi xs) (auto split: if_splits)

definition hot_ok :: "throttling_array \<Rightarrow> bool" where
  "hot_ok a \<longleftrightarrow> (\<forall>i<7. \<forall>x. a i = Some x \<longrightarrow> 0 < x) \<and> (\<forall>j<7. \<forall>i<j. rising (a i) (a j))"

definition cold_ok :: "throttling_array \<Rightarrow> bool" where
  "cold_ok a \<longleftrightarrow> (\<forall>j<7. \<forall>i<j. rising (a j) (a i))"

definition numbers :: "throttling_array \<Rightarrow> bool" where
  "numbers a \<longleftrightarrow> (\<forall>i<7. a i \<noteq> None)"

lemma parse_hot_ok: "parse_hot J v = Parsed a \<Longrightarrow> hot_ok a"
proof -
  assume "parse_hot J v = Parsed a"
  then obtain xs where xs: "hot_loop J (Some min_positive) (elements J v) = Parsed xs"
      "a = array_of None xs" "json_size J v = 7"
    by (auto simp: parse_hot_def kThrottlingSeverityCount_def split: if_splits)
  have len: "length xs = 7" using hot_loop_length [OF xs(1)] xs(3) by simp
  have pos: "0 < min_positive" by (simp add: min_positive_def)
  from hot_loop_rising [OF xs(1)] have lo: "\<And>x. Some x \<in> set xs \<Longrightarrow> min_positive \<le> x"
    and so: "sorted_wrt rising xs" by auto
  have "0 < x" if "i < 7" "a i = Some x" for i x
    using lo [of x] that pos len xs(2) by (metis array_of_nth less_le_trans nth_mem)
  moreover have "rising (a i) (a j)" if "j < 7" "i < j" for i j
    using sorted_wrt_nth_less [OF so that(2)] that len xs(2) by (simp add: array_of_nth)
  ultimately show ?thesis by (simp add: hot_ok_def)
qed

lemma parse_cold_ok: "parse_cold J v = Parsed a \<Longrightarrow> cold_ok a"
proof (cases "json_size J v = 7")
  case True
  assume "parse_cold J v = Parsed a"
  with True obtain xs where xs: "cold_loop J (Some max32) (elements J v) = Parsed xs"
      "a = array_of None xs"
    by (auto simp: parse_cold_def kThrottlingSeverityCount_def split: if_splits)
  have len: "length xs = 7" using cold_loop_length [OF xs(1)] True by simp
  from cold_loop_falling [OF xs(1)] have so: "sorted_wrt (\<lambda>a b. rising b a) xs" by auto
  have "rising (a j) (a i)" if "j < 7" "i < j" for i j
    using sorted_wrt_nth_less [OF so that(2)] that len xs(2) by (simp add: array_of_nth)
  then show ?thesis by (simp add: cold_ok_def)
qed (auto simp: parse_cold_def kThrottlingSeverityCount_def cold_ok_def)

lemma mapM_set: "mapM f xs = Parsed ys \<Longrightarrow> y \<in> set ys \<Longrightarrow> \<exists>x\<in>set xs. f x = Parsed y"
  by (induction xs arbitrary: ys) auto

lemma parse_hysteresis_ok:
  assumes "parse_hysteresis J v = Parsed a"
  shows "numbers a"
proof (cases "json_size J v = 7")
  case True
  with assms obtain xs where
    xs: "mapM (\<lambda>v. andthen (getFloatFromValue J v) (\<lambda>x. if x = None then Rejects else Parsed x))
           (elements J v) = Parsed xs" "a = array_of (Some 0) xs"
    by (auto simp: parse_hysteresis_def kThrottlingSeverityCount_def split: if_splits)
  have len: "length xs = 7" using mapM_length [OF xs(1)] True by simp
  have "a i \<noteq> None" if "i < 7" for i
  proof -
    have "xs ! i \<in> set xs" using that len by simp
    from mapM_set [OF xs(1) this] show ?thesis using that len xs(2)
      by (auto simp: array_of_nth split: if_splits dest: sym)
  qed
  then show ?thesis by (simp add: numbers_def)
next
  case False
  with assms show ?thesis by (auto simp: parse_hysteresis_def kThrottlingSeverityCount_def numbers_def)
qed

lemma parse_combination_ok:
  "parse_combination J v = Parsed i \<Longrightarrow> linked i \<noteq> [] \<and> length (linked i) = length (coefficients i)"
  by (auto simp: parse_combination_def Let_def)

definition pid_complete :: "('m) pid_info_scheme \<Rightarrow> nat \<Rightarrow> bool" where
  "pid_complete p j \<longleftrightarrow> k_po p j \<noteq> None \<and> k_pu p j \<noteq> None \<and> k_i p j \<noteq> None \<and> k_d p j \<noteq> None \<and>
     i_max p j \<noteq> None \<and> max_alloc_power p j \<noteq> None \<and> min_alloc_power p j \<noteq> None \<and> i_cutoff p j \<noteq> None"

lemma valid_pid_combination_iff:
  "valid_pid_combination p b js \<longleftrightarrow>
     (b \<or> (\<exists>j\<in>set js. s_power p j \<noteq> None)) \<and> (\<forall>j\<in>set js. s_power p j \<noteq> None \<longrightarrow> pid_complete p j)"
  by (induction p b js rule: valid_pid_combination.induct) (auto simp: pid_complete_def)

text \<open>A weight of a bound device is read only for a sensor with PID parameters.\<close>

definition binded_ok :: "bool \<Rightarrow> (string \<times> binded_cdev_info) list \<Rightarrow> bool" where
  "binded_ok pid m \<longleftrightarrow>
     distinct (map fst m) \<and> (\<forall>(n, b)\<in>set m. \<not> pid \<longrightarrow> cdev_weight_for_pid b = (\<lambda>_. None))"

lemma parse_power_link_weight:
  "parse_power_link J garbage v b = Parsed b' \<Longrightarrow> cdev_weight_for_pid b' = cdev_weight_for_pid b"
  by (auto simp: parse_power_link_def Let_def split: if_splits prod.splits)

lemma parse_binded_weight:
  "parse_binded J garbage disabled False v = Parsed (b, h) \<Longrightarrow> cdev_weight_for_pid b = (\<lambda>_. None)"
  by (auto simp: parse_binded_def Let_def dest!: parse_power_link_weight split: if_splits)

lemma set_update_subset: "set (AList.update k v m) \<subseteq> insert (k, v) (set m)"
  by (induction m) auto

lemma binded_loop_ok:
  "binded_loop J garbage disabled pid (m, hard) vs = Parsed (m', hard') \<Longrightarrow> binded_ok pid m \<Longrightarrow> binded_ok pid m'"
proof (induction vs arbitrary: m hard)
  case (Cons v vs)
  then obtain b h where b: "parse_binded J garbage disabled pid v = Parsed (b, h)"
    and r: "binded_loop J garbage disabled pid
        (AList.update (asString J (member J v ''CdevRequest'')) b m, hard \<or> h) vs = Parsed (m', hard')"
    by auto
  have "\<not> pid \<Longrightarrow> cdev_weight_for_pid b = (\<lambda>_. None)" using parse_binded_weight b by (cases pid) auto
  with Cons.prems(2) have "binded_ok pid (AList.update (asString J (member J v ''CdevRequest'')) b m)"
    using set_update_subset [of "asString J (member J v ''CdevRequest'')" b m]
    by (fastforce simp: binded_ok_def distinct_update)
  then show ?case by (rule Cons.IH [OF r])
qed simp

definition sensor_ok :: "sensor_info \<Rightarrow> bool" where
  "sensor_ok s \<longleftrightarrow>
     hot_ok (hot_thresholds s) \<and> cold_ok (cold_thresholds s) \<and>
     numbers (hot_hysteresis s) \<and> numbers (cold_hysteresis s) \<and>
     (\<forall>v. virtual_sensor s = Some v \<longrightarrow> linked v \<noteq> [] \<and> length (linked v) = length (coefficients v)) \<and>
     (\<forall>j<7. s_power (throttling s) j \<noteq> None \<longrightarrow> pid_complete (throttling s) j) \<and>
     distinct (map fst (binded_cdev_info_map (throttling s))) \<and>
     (\<forall>(n, b)\<in>set (binded_cdev_info_map (throttling s)). \<forall>j.
        cdev_weight_for_pid b j \<noteq> None \<longrightarrow> (\<exists>j<7. s_power (throttling s) j \<noteq> None) \<and> is_monitor s)"

lemma parse_pid_ok:
  assumes "parse_pid J v = Parsed (p, pid)"
  shows "(\<forall>j<7. s_power p j \<noteq> None \<longrightarrow> pid_complete p j) \<and> (pid \<longrightarrow> (\<exists>j<7. s_power p j \<noteq> None))"
proof (cases "json_empty J (member J v ''PIDInfo'')")
  case True
  with assms show ?thesis by (auto simp: parse_pid_def no_pid_def)
next
  case False
  with assms have "valid_pid_combination p False [0..<7]"
    by (auto simp: parse_pid_def kThrottlingSeverityCount_def Let_def split: if_splits)
  then show ?thesis by (auto simp: valid_pid_combination_iff)
qed

lemma pid_complete_extend [simp]: "pid_complete (pid_info.extend p m) j = pid_complete p j"
  by (cases p) (simp add: pid_complete_def pid_info.extend_def)

lemma extend_pid_simps [simp]:
  "s_power (pid_info.extend p m) = s_power p"
  "binded_cdev_info_map (pid_info.extend p (throttling_info.fields b)) = b"
  by (simp_all add: pid_info.extend_def throttling_info.fields_def)

lemma extend_virtual_simps [simp]:
  "linked (virtual_info.extend i m) = linked i" "coefficients (virtual_info.extend i m) = coefficients i"
  by (simp_all add: virtual_info.extend_def)

lemma parse_virtual_ok:
  "parse_virtual J v = Parsed (Some i) \<Longrightarrow> linked i \<noteq> [] \<and> length (linked i) = length (coefficients i)"
  by (auto simp: parse_virtual_def dest!: parse_combination_ok split: if_splits)

lemma parse_sensor_ok:
  assumes "parse_sensor J types disabled garbage v = Parsed s"
  shows "sensor_ok s"
proof -
  from assms obtain t hot hh cold ch virt vr po pa p pid b hard where
    steps: "parse_hot J (member J v ''HotThreshold'') = Parsed hot"
      "parse_hysteresis J (member J v ''HotHysteresis'') = Parsed hh"
      "parse_cold J (member J v ''ColdThreshold'') = Parsed cold"
      "parse_hysteresis J (member J v ''ColdHysteresis'') = Parsed ch"
      "parse_virtual J v = Parsed virt" "parse_pid J v = Parsed (p, pid)"
      "binded_loop J garbage disabled pid ([], False) (elements J (member J v ''BindedCdevInfo'')) =
         Parsed (b, hard)"
    and s: "hot_thresholds s = hot" "hot_hysteresis s = hh" "cold_thresholds s = cold"
      "cold_hysteresis s = ch" "virtual_sensor s = virt" "pid \<Longrightarrow> is_monitor s"
      "throttling s = pid_info.extend p (throttling_info.fields b)"
    by (auto simp: parse_sensor_def Let_def split: option.splits prod.splits)
  have b: "binded_ok pid b" by (rule binded_loop_ok [OF steps(7)]) (simp add: binded_ok_def)
  have w: "(\<exists>j<7. s_power p j \<noteq> None) \<and> is_monitor s"
    if "(n, bi) \<in> set b" "cdev_weight_for_pid bi j \<noteq> None" for n bi j
  proof -
    have "pid" using b that by (auto simp: binded_ok_def)
    then show ?thesis using parse_pid_ok [OF steps(6)] s(6) by blast
  qed
  then have w: "\<forall>(n, bi)\<in>set b. \<forall>j. cdev_weight_for_pid bi j \<noteq> None \<longrightarrow>
      (\<exists>j<7. s_power p j \<noteq> None) \<and> is_monitor s" by blast
  have virt: "\<forall>i. virt = Some i \<longrightarrow> linked i \<noteq> [] \<and> length (linked i) = length (coefficients i)"
    using parse_virtual_ok [of J v] steps(5) by blast
  show ?thesis
    unfolding sensor_ok_def
    using parse_hot_ok [OF steps(1)] parse_hysteresis_ok [OF steps(2)] parse_cold_ok [OF steps(3)]
      parse_hysteresis_ok [OF steps(4)] virt parse_pid_ok [OF steps(6)] b w
    by (simp add: s(1-5,7) binded_ok_def case_prod_beta)
qed

lemma named_loop_ok:
  "named_loop J f names vs = Parsed xs \<Longrightarrow>
     distinct (map fst xs) \<and> set (map fst xs) \<inter> set names = {} \<and> [] \<notin> set (map fst xs) \<and>
     (\<forall>(n, a)\<in>set xs. \<exists>v. f v n = Parsed a)"
proof (induction vs arbitrary: names xs)
  case (Cons v vs)
  then obtain a ys where a: "asString J (member J v ''Name'') \<noteq> []"
      "asString J (member J v ''Name'') \<notin> set names"
      "f v (asString J (member J v ''Name'')) = Parsed a"
      "xs = (asString J (member J v ''Name''), a) # ys"
      "named_loop J f (asString J (member J v ''Name'') # names) vs = Parsed ys"
    by (auto simp: Let_def split: if_splits)
  with Cons.IH [OF a(5)] show ?case by auto
qed simp

lemma parse_file_ok:
  assumes "parse_file J parse doc key f = Parsed xs" "(n, a) \<in> set xs"
  shows "\<exists>v. f v n = Parsed a"
proof -
  from assms obtain vs where "cleared (named_loop J f [] vs) = Parsed xs"
    by (auto simp: parse_file_def split: option.splits)
  with assms(2) have "named_loop J f [] vs = Parsed xs"
    by (cases "named_loop J f [] vs") auto
  from named_loop_ok [OF this] assms(2) show ?thesis by auto
qed

lemma cleared_Parsed: "cleared p = Parsed xs \<Longrightarrow> xs = [] \<or> p = Parsed xs"
  by (cases p) auto

lemma parse_file_distinct:
  assumes "parse_file J parse doc key f = Parsed xs"
  shows "distinct (map fst xs)"
proof (cases "xs = []")
  case False
  with assms obtain vs where "cleared (named_loop J f [] vs) = Parsed xs"
    by (auto simp: parse_file_def split: option.splits)
  with False have "named_loop J f [] vs = Parsed xs" by (auto dest: cleared_Parsed)
  from named_loop_ok [OF this] show ?thesis by blast
qed simp

text \<open>
  C38. A sensor configuration that ParseSensorInfo accepts is well formed. The names are distinct;
  the hot thresholds of a sensor are positive and do not fall from one severity to the next, its
  cold thresholds do not rise, its hystereses are numbers; a virtual sensor has a coefficient for
  each of its linked sensors, of which there is at least one; PID parameters are complete for every
  severity that has a sustained power; and a bound cooling device has a PID weight only if its
  sensor has PID parameters and is monitored.\<close>

theorem parsed_sensors_wellformed:
  assumes "ParseSensorInfo J types disabled garbage parse doc = Parsed ss"
  shows "distinct (map fst ss) \<and> (\<forall>(n, s)\<in>set ss. sensor_ok s)"
proof -
  have "sensor_ok s" if n: "(n, s) \<in> set ss" for n s
  proof -
    obtain v where "parse_sensor J types disabled garbage v = Parsed s"
      using parse_file_ok [OF assms [unfolded ParseSensorInfo_def] n] ..
    then show ?thesis by (rule parse_sensor_ok)
  qed
  then show ?thesis
    using parse_file_distinct [OF assms [unfolded ParseSensorInfo_def]] by auto
qed

text \<open>A small configuration, for the witness.\<close>

definition thermal_api :: "json thermal_json" where
  "thermal_api = json_api.extend small_api (thermal_json.fields
     (\<lambda>v. case v of JStr _ \<Rightarrow> True | _ \<Rightarrow> False)
     (\<lambda>v. case v of JNum n \<Rightarrow> int n | _ \<Rightarrow> 0)
     (\<lambda>v. case v of JNum n \<Rightarrow> Some (of_nat n) | _ \<Rightarrow> Some 0)
     (\<lambda>v. v = JNull))"

lemma thermal_api_simps [simp]:
  "member thermal_api = member small_api" "element thermal_api = element small_api"
  "json_size thermal_api = json_size small_api" "asString thermal_api = asString small_api"
  "json_empty thermal_api = json_empty small_api" "isBool thermal_api = isBool small_api"
  "asBool thermal_api = asBool small_api"
  "isString thermal_api v = (case v of JStr _ \<Rightarrow> True | _ \<Rightarrow> False)"
  "asInt thermal_api v = (case v of JNum n \<Rightarrow> int n | _ \<Rightarrow> 0)"
  "asFloat thermal_api v = (case v of JNum n \<Rightarrow> Some (of_nat n) | _ \<Rightarrow> Some 0)"
  "isNull thermal_api v \<longleftrightarrow> v = JNull"
  by (simp_all add: thermal_api_def json_api.extend_def thermal_json.fields_def small_api_def)

definition skin_config :: json where
  "skin_config = JObj [(''Sensors'', JArr [JObj
     [(''Name'', JStr ''skin''), (''Type'', JStr ''SKIN''),
      (''HotThreshold'', JArr [JStr ''NAN'', JNum 37, JNum 39, JNum 42, JNum 45, JNum 47, JNum 55]),
      (''BindedCdevInfo'', JArr [JObj [(''CdevRequest'', JStr ''cpu''),
         (''LimitInfo'', JArr [JNum 0, JNum 0, JNum 1, JNum 2, JNum 3, JNum 4, JNum 5])]])]])]"

lemma elements_small: "elements thermal_api (JArr xs) = xs"
  by (rule nth_equalityI) (simp_all add: elements_def small_api_def)

theorem parsed_sensors_wellformed_witness:
  "\<exists>s. ParseSensorInfo thermal_api (\<lambda>_. Some 3) False 0 (\<lambda>_. Some skin_config) (Some []) =
         Parsed [(''skin'', s)] \<and> sensor_ok s"
proof -
  have "\<exists>s. ParseSensorInfo thermal_api (\<lambda>_. Some 3) False 0 (\<lambda>_. Some skin_config) (Some []) =
          Parsed [(''skin'', s)]"
    by (simp add: ParseSensorInfo_def parse_file_def skin_config_def elements_small parse_sensor_def
        parse_hot_def parse_cold_def parse_hysteresis_def parse_virtual_def parse_delay_def parse_pid_def
        parse_binded_def parse_power_link_def getIntFromJsonValues_def getIntFromValue_def
        bool_member_def kThrottlingSeverityCount_def getFloatFromValue_def stof_def is_nan_text_def
        is_space_def Let_def min_positive_def elements_def small_api_def upt_rec
        thermal_api_simps(1-7) [unfolded small_api_def])
  then obtain s where s: "ParseSensorInfo thermal_api (\<lambda>_. Some 3) False 0 (\<lambda>_. Some skin_config)
      (Some []) = Parsed [(''skin'', s)]" ..
  from parsed_sensors_wellformed [OF s] s show ?thesis by auto
qed

end
