(* ===== verification/ThermalPower.thy ===== *)
theory ThermalPower
  imports ThermalConfig
begin

text \<open>
  The power rails that a bound cooling device is linked to: \<open>thermal/utils/power_files.cpp\<close>.
  Energy counters are read from text files, averaged over a queue of samples, and compared with a
  budget that moves the release step of the cooling device. Counters and times are
  \<open>uint64_t\<close>; an unordered map is an association list. The reading of a file is a parameter;
  None is an exception (a missing key) or undefined behaviour (an index out of range).
\<close>

record power_sample =
  energy_counter :: "64 word"
  duration :: "64 word"

record release_status =
  release_step :: int
  max_release_step :: int

record power_status =
  time_remaining :: int
  power_history :: "power_sample list list"
  last_updated_avg_power :: float32

record power_files =
  energy_info_map :: "(string \<times> power_sample) list"
  throttling_release_map :: "(string \<times> (string \<times> release_status) list) list"
  power_status_map :: "(string \<times> (string \<times> power_status) list) list"
  energy_path_set :: "string list"

definition no_sample :: power_sample where
  "no_sample = \<lparr>energy_counter = 0, duration = 0\<rparr>"

definition lookup2 :: "(string \<times> (string \<times> 'a) list) list \<Rightarrow> string \<Rightarrow> string \<Rightarrow> 'a option" where
  "lookup2 m s k = (case map_of m s of None \<Rightarrow> None | Some n \<Rightarrow> map_of n k)"

definition entry2 :: "string \<Rightarrow> string \<Rightarrow> ('a \<Rightarrow> 'a) \<Rightarrow> (string \<times> (string \<times> 'a) list) list \<Rightarrow>
    (string \<times> (string \<times> 'a) list) list" where
  "entry2 s k f m = AList.map_entry s (AList.map_entry k f) m"

text \<open>\<open>m[s][k] = a\<close>.\<close>

definition assign2 :: "string \<Rightarrow> string \<Rightarrow> 'a \<Rightarrow> (string \<times> (string \<times> 'a) list) list \<Rightarrow>
    (string \<times> (string \<times> 'a) list) list" where
  "assign2 s k a m = AList.map_default s [(k, a)] (AList.update k a) m"

section \<open>Reading the energy files\<close>

definition parse_energy_line :: "string \<Rightarrow> (string \<times> power_sample) option" where
  "parse_energy_line l =
     (case find_str ''T='' l of
        None \<Rightarrow> None
      | Some p \<Rightarrow>
          (let d = strtoul (cut l (p + 2) (find_str '')'' l)) in
           case find_str '')['' l of
             None \<Rightarrow> None
           | Some q \<Rightarrow>
               (let n = cut l (q + 2) (find_str '']'' l) in
                case find_str ''],'' l of
                  None \<Rightarrow> None
                | Some r \<Rightarrow>
                    Some (n, \<lparr>energy_counter = strtoul (drop (r + 2) l), duration = d\<rparr>))))"

definition note_energy :: "string \<Rightarrow> (string \<times> power_sample) list \<Rightarrow> (string \<times> power_sample) list" where
  "note_energy l m = (case parse_energy_line l of None \<Rightarrow> m | Some (n, e) \<Rightarrow> AList.update n e m)"

definition clearEnergyInfoMap :: "power_files \<Rightarrow> power_files" where
  "clearEnergyInfoMap pf = pf\<lparr>energy_info_map := []\<rparr>"

fun read_all :: "(string \<Rightarrow> string option) \<Rightarrow> string list \<Rightarrow> string option" where
  "read_all read [] = Some []"
| "read_all read (p # ps) =
     do { c \<leftarrow> read p; cs \<leftarrow> read_all read ps; Some (c @ cs) }"

definition updateEnergyValues :: "(string \<Rightarrow> string option) \<Rightarrow> power_files \<Rightarrow> bool \<times> power_files" where
  "updateEnergyValues read pf =
     (case read_all read (energy_path_set pf) of
        None \<Rightarrow> (False, pf)
      | Some text \<Rightarrow>
          (True, (clearEnergyInfoMap pf)\<lparr>energy_info_map := fold note_energy (split_lines text) []\<rparr>))"

text \<open>\<open>!energy_info_map_.size() && !updateEnergyValues()\<close>, negated.\<close>

definition ensure_energy :: "(string \<Rightarrow> string option) \<Rightarrow> power_files \<Rightarrow> bool \<times> power_files" where
  "ensure_energy read pf = (if energy_info_map pf = [] then updateEnergyValues read pf else (True, pf))"

text \<open>The directory \<open>/sys/bus/iio/devices\<close>: None when it cannot be opened.\<close>

definition findEnergySourceToWatch ::
  "string list option \<Rightarrow> (string \<Rightarrow> string option) \<Rightarrow> power_files \<Rightarrow> bool \<times> power_files" where
  "findEnergySourceToWatch dir read pf =
     (if energy_path_set pf \<noteq> [] then (True, pf)
      else (case dir of
              None \<Rightarrow> (False, pf)
            | Some names \<Rightarrow>
                (let node = (\<lambda>n. ''/sys/bus/iio/devices/'' @ n @ ''/energy_value'');
                     found = filter (\<lambda>n. find_str ''iio:device'' n \<noteq> None \<and>
                               (case read (node n) of None \<Rightarrow> False | Some c \<Rightarrow> c \<noteq> [])) names;
                     paths = remdups (map node found)
                 in (paths \<noteq> [], pf\<lparr>energy_path_set := paths\<rparr>))))"

section \<open>Registration, reset and the release step\<close>

text \<open>The queue of the \<open>i\<close>-th linked rail is appended at the end but filled at index
  \<open>i\<close>.\<close>

fun history_loop ::
  "(string \<times> power_sample) list \<Rightarrow> int \<Rightarrow> nat \<Rightarrow> string list \<Rightarrow> power_sample list list \<Rightarrow>
   power_sample list list option" where
  "history_loop energy n i [] h = Some h"
| "history_loop energy n i (r # rs) h =
     (if map_of energy r = None then history_loop energy n (i + 1) rs h
      else if i \<le> length h
           then history_loop energy n (i + 1) rs
                  ((h @ [[]])[i := (h @ [[]]) ! i @ replicate (nat n) no_sample])
           else None)"

definition new_history ::
  "(string \<times> power_sample) list \<Rightarrow> power_rail_info \<Rightarrow> power_sample list list option" where
  "new_history energy pr =
     (case virtual_rail pr of
        Some v \<Rightarrow>
          if linked v \<noteq> [] then history_loop energy (power_sample_count pr) 0 (linked v) []
          else history_loop energy (power_sample_count pr) 0 [rail pr] []
      | None \<Rightarrow> history_loop energy (power_sample_count pr) 0 [rail pr] [])"

definition registerPowerRailsToWatch ::
  "(string \<Rightarrow> string option) \<Rightarrow> string \<Rightarrow> string \<Rightarrow> binded_cdev_info \<Rightarrow> cdev_info \<Rightarrow> power_rail_info \<Rightarrow>
   power_files \<Rightarrow> (bool \<times> power_files) option" where
  "registerPowerRailsToWatch read sensor cdev b ci pr pf =
     (if lookup2 (throttling_release_map pf) sensor (power_rail b) \<noteq> None then Some (True, pf)
      else (case ensure_energy read pf of
              (False, pf') \<Rightarrow> Some (False, pf')
            | (True, pf') \<Rightarrow>
                do { h \<leftarrow> new_history (energy_info_map pf') pr;
                     if h = [] then Some (False, pf')
                     else Some (True, pf'\<lparr>
                       throttling_release_map := assign2 sensor cdev
                         \<lparr>release_step = 0, max_release_step = max_state ci\<rparr> (throttling_release_map pf'),
                       power_status_map := assign2 sensor (power_rail b)
                         \<lparr>time_remaining = power_sample_delay pr, power_history = h,
                          last_updated_avg_power = None\<rparr> (power_status_map pf')\<rparr>) }))"

definition reset_status :: "power_status \<Rightarrow> power_status" where
  "reset_status ps =
     ps\<lparr>power_history := map (\<lambda>q. replicate (length q) no_sample) (power_history ps),
        last_updated_avg_power := None\<rparr>"

definition setPowerDataToDefault :: "string \<Rightarrow> power_files \<Rightarrow> power_files" where
  "setPowerDataToDefault sensor pf =
     (if map_of (throttling_release_map pf) sensor = None \<or> map_of (power_status_map pf) sensor = None then pf
      else pf\<lparr>power_status_map :=
                AList.map_entry sensor (map (\<lambda>(k, ps). (k, reset_status ps))) (power_status_map pf),
              throttling_release_map :=
                AList.map_entry sensor (map (\<lambda>(k, rs). (k, rs\<lparr>release_step := 0\<rparr>)))
                  (throttling_release_map pf)\<rparr>)"

definition getReleaseStep :: "string \<Rightarrow> string \<Rightarrow> power_files \<Rightarrow> int" where
  "getReleaseStep sensor cdev pf =
     (case lookup2 (throttling_release_map pf) sensor cdev of None \<Rightarrow> 0 | Some rs \<Rightarrow> release_step rs)"

section \<open>Average power\<close>

text \<open>
  The result, the queue and the average, which starts at -1 in the callers and is left alone when
  the oldest sample is an empty one. The differences are unsigned: \<open>duration <= 0\<close> holds
  for 0 only, and \<open>deltaEnergy < 0\<close> never.
\<close>

definition getAveragePower ::
  "(string \<times> power_sample) list \<Rightarrow> string \<Rightarrow> power_sample list \<Rightarrow> bool \<Rightarrow> float32 \<Rightarrow>
   (bool \<times> power_sample list \<times> float32) option" where
  "getAveragePower energy rl history upd avg =
     do { curr \<leftarrow> map_of energy rl;
          if history = [] then None
          else
            let prv = hd history;
                dur = duration curr - duration prv;
                delta = energy_counter curr - energy_counter prv;
                history' = (if upd then tl history @ [curr] else history)
            in Some (if duration prv = 0 then (True, history', avg)
                     else if dur = 0 then (False, history', avg)
                     else (True, history', f_div (of_uint (unat delta)) (of_uint (unat dur)))) }"

text \<open>One linked value enters the combination; \<open>first\<close> says that its index is 0. The same
  switch combines the sensors of a virtual sensor.\<close>

definition combine :: "formula \<Rightarrow> bool \<Rightarrow> float32 \<Rightarrow> float32 \<Rightarrow> float32 \<Rightarrow> float32" where
  "combine fo first coefficient x val =
     (case fo of
        COUNT_THRESHOLD \<Rightarrow>
          if f_less coefficient (Some 0) \<and> f_less x (f_neg coefficient)
             \<or> f_le (Some 0) coefficient \<and> f_le coefficient x
          then f_add val (Some 1) else val
      | WEIGHTED_AVG \<Rightarrow> f_add val (f_mul x coefficient)
      | MAXIMUM \<Rightarrow>
          (let val = (if first then Some (- max32) else val)
           in if f_less val (f_mul x coefficient) then f_mul x coefficient else val)
      | MINIMUM \<Rightarrow>
          (let val = (if first then Some max32 else val)
           in if f_less (f_mul x coefficient) val then f_mul x coefficient else val))"

fun rails_loop ::
  "(string \<times> power_sample) list \<Rightarrow> virtual_info \<Rightarrow> bool \<Rightarrow> nat \<Rightarrow> string list \<Rightarrow>
   bool \<times> power_sample list list \<times> float32 \<Rightarrow> (bool \<times> power_sample list list \<times> float32) option" where
  "rails_loop energy vi upd i [] acc = Some acc"
| "rails_loop energy vi upd i (r # rs) (ret, hs, val) =
     (if length (coefficients vi) \<le> i \<or> length hs \<le> i then None
      else do { (ok, h, x) \<leftarrow> getAveragePower energy r (hs ! i) upd (Some (- 1));
                rails_loop energy vi upd (i + 1) rs
                  (if \<not> ok then (False, hs[i := h], val)
                   else if f_less x (Some 0) then (ret, hs[i := h], val)
                   else (ret, hs[i := h],
                         combine (v_formula vi) (i = 0) (coefficients vi ! i) x val)) })"

definition computeAveragePower ::
  "(string \<times> power_sample) list \<Rightarrow> virtual_info \<Rightarrow> power_status \<Rightarrow> bool \<Rightarrow>
   (bool \<times> power_status \<times> float32) option" where
  "computeAveragePower energy vi ps upd =
     do { (ret, hs, val) \<leftarrow> rails_loop energy vi upd 0 (linked vi) (True, power_history ps, Some (- 1));
          Some (ret, ps\<lparr>power_history := hs\<rparr>,
                if f_le (Some 0) val then f_add val (v_offset vi) else val) }"

definition measure_power ::
  "(string \<times> power_sample) list \<Rightarrow> binded_cdev_info \<Rightarrow> power_rail_info \<Rightarrow> power_status \<Rightarrow> bool \<Rightarrow>
   (bool \<times> power_status \<times> float32) option" where
  "measure_power energy b pr ps upd =
     (case virtual_rail pr of
        Some vi \<Rightarrow> computeAveragePower energy vi ps upd
      | None \<Rightarrow>
          (case power_history ps of
             [] \<Rightarrow> None
           | h # hs \<Rightarrow>
               do { (ok, h', avg) \<leftarrow> getAveragePower energy (power_rail b) h upd (Some (- 1));
                    Some (ok, ps\<lparr>power_history := h' # hs\<rparr>, avg) }))"

section \<open>The release step\<close>

datatype gate = Stop bool | Go bool

text \<open>When to sample: the remaining time, and either the result or the new
  \<open>power_sample_update\<close>.\<close>

definition sample_gate :: "power_status \<Rightarrow> power_rail_info \<Rightarrow> int \<Rightarrow> bool \<Rightarrow> bool \<Rightarrow> power_status \<times> gate" where
  "sample_gate ps pr elapsed upd severity_changed =
     (if upd then
        if elapsed > time_remaining ps then (ps\<lparr>time_remaining := power_sample_delay pr\<rparr>, Go True)
        else (ps\<lparr>time_remaining := time_remaining ps - elapsed\<rparr>,
              if \<not> severity_changed then Stop True else Go False)
      else if \<not> severity_changed \<and> time_remaining ps \<noteq> power_sample_delay pr then (ps, Stop False)
      else (ps, Go False))"

definition over_budget :: "binded_cdev_info \<Rightarrow> severity \<Rightarrow> float32 \<Rightarrow> bool" where
  "over_budget b sev avg =
     (if \<not> high_power_check b then \<not> f_less avg (power_thresholds b sev)
      else \<not> f_less (power_thresholds b sev) avg)"

fun next_step :: "release_logic \<Rightarrow> bool \<Rightarrow> release_status \<Rightarrow> int" where
  "next_step INCREASE over rs =
     (if \<not> over then
        if \<bar>release_step rs\<bar> < max_release_step rs then release_step rs - 1 else release_step rs
      else 0)"
| "next_step DECREASE over rs =
     (if \<not> over then
        if release_step rs < max_release_step rs then release_step rs + 1 else release_step rs
      else 0)"
| "next_step STEPWISE over rs =
     (if \<not> over then
        if release_step rs < max_release_step rs then release_step rs + 1 else release_step rs
      else if \<bar>release_step rs\<bar> < max_release_step rs then release_step rs - 1 else release_step rs)"
| "next_step RELEASE_TO_FLOOR over rs = (if over then 0 else max_release_step rs)"
| "next_step NONE over rs = release_step rs"

definition set_step :: "string \<Rightarrow> string \<Rightarrow> int \<Rightarrow> power_files \<Rightarrow> power_files" where
  "set_step sensor cdev n pf =
     pf\<lparr>throttling_release_map :=
          entry2 sensor cdev (\<lambda>rs. rs\<lparr>release_step := n\<rparr>) (throttling_release_map pf)\<rparr>"

definition set_power :: "string \<Rightarrow> string \<Rightarrow> power_status \<Rightarrow> power_files \<Rightarrow> power_files" where
  "set_power sensor rl ps pf =
     pf\<lparr>power_status_map := entry2 sensor rl (\<lambda>_. ps) (power_status_map pf)\<rparr>"

text \<open>The part of \<open>throttlingReleaseUpdate\<close> that has the average in hand.\<close>

definition decide_release ::
  "string \<Rightarrow> string \<Rightarrow> severity \<Rightarrow> binded_cdev_info \<Rightarrow> release_status \<Rightarrow> power_status \<Rightarrow> float32 \<Rightarrow>
   power_files \<Rightarrow> power_files" where
  "decide_release sensor cdev sev b rs ps avg pf =
     set_step sensor cdev (next_step (b_release_logic b) (over_budget b sev avg) rs)
       (set_power sensor (power_rail b) (ps\<lparr>last_updated_avg_power := avg\<rparr>) pf)"

definition throttlingReleaseUpdate ::
  "(string \<Rightarrow> string option) \<Rightarrow> string \<Rightarrow> string \<Rightarrow> severity \<Rightarrow> int \<Rightarrow> binded_cdev_info \<Rightarrow>
   power_rail_info \<Rightarrow> bool \<Rightarrow> bool \<Rightarrow> power_files \<Rightarrow> (bool \<times> power_files) option" where
  "throttlingReleaseUpdate read sensor cdev sev elapsed b pr upd severity_changed pf =
     (case (lookup2 (throttling_release_map pf) sensor cdev,
            lookup2 (power_status_map pf) sensor (power_rail b)) of
        (Some rs, Some ps) \<Rightarrow>
          (case sample_gate ps pr elapsed upd severity_changed of
             (ps1, Stop r) \<Rightarrow> Some (r, set_power sensor (power_rail b) ps1 pf)
           | (ps1, Go upd') \<Rightarrow>
               (case ensure_energy read (set_power sensor (power_rail b) ps1 pf) of
                  (False, pf2) \<Rightarrow> Some (False, set_step sensor cdev 0 pf2)
                | (True, pf2) \<Rightarrow>
                    if \<not> upd' \<and> last_updated_avg_power ps1 \<noteq> None
                    then Some (True, decide_release sensor cdev sev b rs ps1 (last_updated_avg_power ps1) pf2)
                    else do { (ok, ps2, avg) \<leftarrow> measure_power (energy_info_map pf2) b pr ps1 upd';
                              let pf3 = set_power sensor (power_rail b) ps2 pf2;
                                  full = set_step sensor cdev (max_release_step rs) pf3
                              in Some (if \<not> ok
                                       then (False, if throttling_with_power_link b then full
                                                    else set_step sensor cdev 0 pf3)
                                       else if f_less avg (Some 0)
                                       then (True, if throttling_with_power_link b then full else pf3)
                                       else (True, decide_release sensor cdev sev b rs ps2 avg pf3)) }))
      | _ \<Rightarrow> Some (False, pf))"

section \<open>Nested maps\<close>

lemma lookup2_entry2:
  "lookup2 (entry2 s k f m) s' k' =
     (if s' = s \<and> k' = k then map_option f (lookup2 m s k) else lookup2 m s' k')"
  by (auto simp: lookup2_def entry2_def AList.map_of_map_entry split: option.splits)

lemma map_of_map_default:
  "map_of (AList.map_default k v f m) =
     (map_of m)(k \<mapsto> (case map_of m k of None \<Rightarrow> v | Some x \<Rightarrow> f x))"
  by (induction m) auto

lemma lookup2_assign2:
  "lookup2 (assign2 s k a m) s' k' = (if s' = s \<and> k' = k then Some a else lookup2 m s' k')"
  by (auto simp: lookup2_def assign2_def map_of_map_default update_conv' split: option.splits)

lemma lookup2_map_entry_map:
  "lookup2 (AList.map_entry s (map (\<lambda>(k, x). (k, g x))) m) s' k' =
     (if s' = s then map_option g (lookup2 m s' k') else lookup2 m s' k')"
  by (auto simp: lookup2_def AList.map_of_map_entry map_of_map split: option.splits)

section \<open>The release step stays within its maximum\<close>

definition release_bounded :: "power_files \<Rightarrow> bool" where
  "release_bounded pf \<longleftrightarrow>
     (\<forall>s c rs. lookup2 (throttling_release_map pf) s c = Some rs \<longrightarrow>
        \<bar>release_step rs\<bar> \<le> \<bar>max_release_step rs\<bar>)"

lemma next_step_bounded:
  "\<bar>release_step rs\<bar> \<le> \<bar>max_release_step rs\<bar> \<Longrightarrow> \<bar>next_step l over rs\<bar> \<le> \<bar>max_release_step rs\<bar>"
  by (cases l) auto

lemma set_power_release [simp]:
  "throttling_release_map (set_power s r ps pf) = throttling_release_map pf"
  by (simp add: set_power_def)

lemma ensure_energy_release:
  "ensure_energy read pf = (r, pf') \<Longrightarrow> throttling_release_map pf' = throttling_release_map pf"
  by (auto simp: ensure_energy_def updateEnergyValues_def clearEnergyInfoMap_def
      split: if_splits option.splits)

text \<open>What an update does to the release steps.\<close>

lemma release_update_map:
  assumes "throttlingReleaseUpdate read s c sev el b pr upd ch pf = Some (r, pf')"
    and "lookup2 (throttling_release_map pf) s c = Some rs"
  obtains (same) "throttling_release_map pf' = throttling_release_map pf"
    | (step) n over where "throttling_release_map pf' =
          entry2 s c (\<lambda>rs. rs\<lparr>release_step := n\<rparr>) (throttling_release_map pf)"
        "n = max_release_step rs \<or> n = next_step (b_release_logic b) over rs \<or> n = 0 \<and> \<not> r"
proof (cases "lookup2 (power_status_map pf) s (power_rail b)")
  case None
  with assms have "pf' = pf" by (auto simp: throttlingReleaseUpdate_def)
  with same show ?thesis by simp
next
  case (Some ps)
  obtain ps1 g where g: "sample_gate ps pr el upd ch = (ps1, g)" by fastforce
  show ?thesis
  proof (cases g)
    case (Stop x)
    with assms Some g same show ?thesis by (auto simp: throttlingReleaseUpdate_def)
  next
    case (Go upd')
    obtain ok pf2 where e: "ensure_energy read (set_power s (power_rail b) ps1 pf) = (ok, pf2)"
      by fastforce
    then have m: "throttling_release_map pf2 = throttling_release_map pf"
      by (simp add: ensure_energy_release [OF e])
    have st: "throttling_release_map (set_step s c n q) =
        entry2 s c (\<lambda>rs. rs\<lparr>release_step := n\<rparr>) (throttling_release_map q)" for n q
      by (simp add: set_step_def)
    from assms Some g Go e show ?thesis
      by (auto simp: throttlingReleaseUpdate_def decide_release_def Let_def bind_eq_Some_conv m st
          split: bool.splits if_splits intro: same step)
  qed
qed

lemma release_update_bounded:
  assumes "throttlingReleaseUpdate read s c sev el b pr upd ch pf = Some (r, pf')" "release_bounded pf"
  shows "release_bounded pf'"
proof (cases "lookup2 (throttling_release_map pf) s c")
  case None
  with assms show ?thesis by (auto simp: throttlingReleaseUpdate_def)
next
  case (Some rs)
  then have rs: "\<bar>release_step rs\<bar> \<le> \<bar>max_release_step rs\<bar>"
    using assms(2) by (auto simp: release_bounded_def)
  from assms(1) Some show ?thesis
  proof (cases rule: release_update_map)
    case same
    with assms(2) show ?thesis by (simp add: release_bounded_def)
  next
    case (step n over)
    then have "\<bar>n\<bar> \<le> \<bar>max_release_step rs\<bar>" using next_step_bounded [OF rs] by auto
    with step(1) assms(2) Some show ?thesis by (auto simp: release_bounded_def lookup2_entry2)
  qed
qed

text \<open>
  The operations of the power files that the thermal helper calls, in any order.
\<close>

inductive power_step :: "power_files \<Rightarrow> power_files \<Rightarrow> bool" where
  register: "registerPowerRailsToWatch read s c b ci pr pf = Some (r, pf') \<Longrightarrow> power_step pf pf'"
| find_source: "findEnergySourceToWatch dir read pf = (r, pf') \<Longrightarrow> power_step pf pf'"
| clear: "power_step pf (clearEnergyInfoMap pf)"
| energy: "updateEnergyValues read pf = (r, pf') \<Longrightarrow> power_step pf pf'"
| reset: "power_step pf (setPowerDataToDefault s pf)"
| release: "throttlingReleaseUpdate read s c sev el b pr upd ch pf = Some (r, pf') \<Longrightarrow> power_step pf pf'"

lemma register_bounded:
  assumes "registerPowerRailsToWatch read s c b ci pr pf = Some (r, pf')" "release_bounded pf"
  shows "release_bounded pf'"
proof -
  obtain ok pf2 where e: "ensure_energy read pf = (ok, pf2)" by fastforce
  then have m: "throttling_release_map pf2 = throttling_release_map pf" by (rule ensure_energy_release)
  show ?thesis
    using assms e m
    by (auto simp: registerPowerRailsToWatch_def release_bounded_def lookup2_assign2 bind_eq_Some_conv
        split: if_splits bool.splits)
qed

lemma reset_bounded: "release_bounded pf \<Longrightarrow> release_bounded (setPowerDataToDefault s pf)"
  by (auto simp: release_bounded_def setPowerDataToDefault_def lookup2_map_entry_map split: if_splits)

lemma find_source_release:
  "throttling_release_map (snd (findEnergySourceToWatch dir read pf)) = throttling_release_map pf"
  unfolding findEnergySourceToWatch_def Let_def
  by (simp only: if_distrib [of snd] if_distrib [of throttling_release_map] snd_conv if_cancel)
    (simp split: option.split)

lemma power_step_bounded: "power_step pf pf' \<Longrightarrow> release_bounded pf \<Longrightarrow> release_bounded pf'"
proof (induction rule: power_step.induct)
  case (find_source dir read pf r pf')
  then have "throttling_release_map pf' = throttling_release_map pf"
    using find_source_release [of dir read pf] by simp
  with find_source show ?case by (simp add: release_bounded_def)
next
  case (energy read pf r pf')
  then have "throttling_release_map pf' = throttling_release_map pf"
    by (auto simp: updateEnergyValues_def clearEnergyInfoMap_def split: option.splits)
  with energy show ?case by (simp add: release_bounded_def)
next
  case (clear pf)
  then show ?case by (simp add: release_bounded_def clearEnergyInfoMap_def)
qed (blast intro: register_bounded release_update_bounded reset_bounded)+

section \<open>Reading back what the driver prints\<close>

text \<open>A line of the driver, as the comment of the parser shows it.\<close>

definition energy_line :: "nat \<times> string \<times> nat \<times> nat \<Rightarrow> string" where
  "energy_line r =
     (case r of (ch, n, e, d) \<Rightarrow>
        ''CH'' @ to_dec ch @ ''(T='' @ to_dec d @ '')['' @ n @ ''], '' @ to_dec e)"

definition energy_entry :: "nat \<times> string \<times> nat \<times> nat \<Rightarrow> string \<times> power_sample" where
  "energy_entry r =
     (case r of (ch, n, e, d) \<Rightarrow> (n, \<lparr>energy_counter = of_nat e, duration = of_nat d\<rparr>))"

lemma not_digit_in_dec: "\<not> is_digit c \<Longrightarrow> c \<notin> set (to_dec n)"
  using to_dec_digits by blast

lemma parse_energy_line_back:
  assumes "e < 2 ^ 64" "d < 2 ^ 64" "CHR '']'' \<notin> set n"
  shows "parse_energy_line (energy_line (ch, n, e, d)) = Some (energy_entry (ch, n, e, d))"
proof -
  let ?l = "energy_line (ch, n, e, d)"
  have nd: "\<not> is_digit CHR ''T''" "\<not> is_digit CHR '')''" "\<not> is_digit CHR '']''"
    by (simp_all add: is_digit_def)
  note out = not_digit_in_dec [OF nd(1)] not_digit_in_dec [OF nd(2)] not_digit_in_dec [OF nd(3)]
  let ?a = "''CH'' @ to_dec ch @ ''(''" and ?b = "to_dec d" and ?e = "'' '' @ to_dec e"
  have l: "?l = ?a @ CHR ''T'' # CHR ''='' # ?b @ '')['' @ n @ ''],'' @ ?e"
    "?l = (?a @ ''T='' @ ?b) @ CHR '')'' # ''['' @ n @ ''],'' @ ?e"
    "?l = (?a @ ''T='' @ ?b) @ CHR '')'' # CHR ''['' # n @ ''],'' @ ?e"
    "?l = (?a @ ''T='' @ ?b @ '')['' @ n) @ CHR '']'' # '','' @ ?e"
    "?l = (?a @ ''T='' @ ?b @ '')['' @ n) @ CHR '']'' # CHR '','' # ?e"
    by (simp_all add: energy_line_def)
  have f1: "find_str ''T='' ?l = Some (length ?a)"
    by (subst l(1), rule find_str_pair) (simp add: out)
  have f2: "find_str '')'' ?l = Some (length (?a @ ''T='' @ ?b))"
    by (subst l(2), rule find_str_char) (simp add: out)
  have f3: "find_str '')['' ?l = Some (length (?a @ ''T='' @ ?b))"
    by (subst l(3), rule find_str_pair) (simp add: out)
  have f4: "find_str '']'' ?l = Some (length (?a @ ''T='' @ ?b @ '')['' @ n))"
    by (subst l(4), rule find_str_char) (simp add: out assms(3))
  have f5: "find_str ''],'' ?l = Some (length (?a @ ''T='' @ ?b @ '')['' @ n))"
    by (subst l(5), rule find_str_pair) (simp add: out assms(3))
  have d: "cut ?l (length ?a + 2) (Some (length (?a @ ''T='' @ ?b))) = to_dec d"
    by (simp add: cut_def energy_line_def)
  have n: "cut ?l (length (?a @ ''T='' @ ?b) + 2) (Some (length (?a @ ''T='' @ ?b @ '')['' @ n))) = n"
  proof -
    let ?p = "?a @ ''T='' @ ?b @ '')[''"
    have p: "length (?a @ ''T='' @ ?b) + 2 = length ?p" "length (?a @ ''T='' @ ?b @ '')['' @ n) = length ?p + length n"
      and lp: "?l = ?p @ n @ ''],'' @ ?e" by (simp_all add: energy_line_def)
    show ?thesis unfolding p lp by (rule cut_middle)
  qed
  have e: "drop (length (?a @ ''T='' @ ?b @ '')['' @ n) + 2) ?l = CHR '' '' # to_dec e"
  proof -
    let ?p = "?a @ ''T='' @ ?b @ '')['' @ n @ ''],''"
    have p: "length (?a @ ''T='' @ ?b @ '')['' @ n) + 2 = length ?p" and lp: "?l = ?p @ ?e"
      by (simp_all add: energy_line_def)
    have "drop (length ?p) (?p @ ?e) = ?e" by (rule drop_front)
    then show ?thesis unfolding p lp by simp
  qed
  have sd: "strtoul (to_dec d) = of_nat d" "strtoul (CHR '' '' # to_dec e) = of_nat e"
    using strtoul_to_dec [of "[]" d] strtoul_to_dec [of "[]" e] assms by (simp_all add: strtoul_blank)
  show ?thesis
    unfolding parse_energy_line_def f1 f2 f3 f4 f5 option.case Let_def d n e sd
    by (simp add: energy_entry_def)
qed

lemma fold_note_energy:
  assumes "\<forall>(ch, n, e, d)\<in>set rs. e < 2 ^ 64 \<and> d < 2 ^ 64 \<and> CHR '']'' \<notin> set n"
  shows "map_of (fold note_energy (map energy_line rs) m) = map_of m ++ map_of (rev (map energy_entry rs))"
  using assms
proof (induction rs arbitrary: m)
  case (Cons r rs)
  obtain ch n e d where r: "r = (ch, n, e, d)" by (cases r) auto
  from Cons.prems have "parse_energy_line (energy_line r) = Some (energy_entry r)"
    unfolding r by (intro parse_energy_line_back) auto
  then have "map_of (note_energy (energy_line r) m) = map_of m ++ map_of [energy_entry r]"
    by (simp add: note_energy_def update_conv' split: prod.split)
  with Cons show ?case by (simp add: map_add_assoc)
qed simp

lemma split_lines_energy:
  "\<forall>l\<in>set ls. CHR 0x0A \<notin> set l \<Longrightarrow> split_lines (concat (map (\<lambda>l. l @ [CHR 0x0A]) ls)) = ls"
  by (induction ls) (auto simp: split_lines_line)

lemma energy_line_one_line:
  "CHR 0x0A \<notin> set n \<Longrightarrow> CHR 0x0A \<notin> set (energy_line (ch, n, e, d))"
  using not_digit_in_dec [of "CHR 0x0A"] by (simp add: energy_line_def is_digit_def)

text \<open>
  C33. Reading the energy file gives back what the driver printed: after updateEnergyValues on a
  file of lines \<open>CH3(T=358356)[S2M_VDD_CPUCL2], 761330\<close>, whose rail names hold neither a
  closing bracket nor a newline, every rail has the counter and the time of its last line, as
  64-bit numbers, and there is nothing else in the map.\<close>

theorem energy_roundtrip:
  assumes "energy_path_set pf = [p]"
    and "read p = Some (concat (map (\<lambda>r. energy_line r @ [CHR 0x0A]) rs))"
    and "\<forall>(ch, n, e, d)\<in>set rs. e < 2 ^ 64 \<and> d < 2 ^ 64 \<and> set n \<inter> {CHR '']'', CHR 0x0A} = {}"
  shows "\<exists>pf'. updateEnergyValues read pf = (True, pf') \<and>
           map_of (energy_info_map pf') = map_of (rev (map energy_entry rs))"
proof -
  have c: "map (\<lambda>r. energy_line r @ [CHR 0x0A]) rs = map (\<lambda>l. l @ [CHR 0x0A]) (map energy_line rs)"
    by simp
  have "\<forall>l\<in>set (map energy_line rs). CHR 0x0A \<notin> set l"
    using assms(3) energy_line_one_line by auto
  then have "split_lines (concat (map (\<lambda>r. energy_line r @ [CHR 0x0A]) rs)) = map energy_line rs"
    unfolding c by (rule split_lines_energy)
  moreover have "\<forall>(ch, n, e, d)\<in>set rs. e < 2 ^ 64 \<and> d < 2 ^ 64 \<and> CHR '']'' \<notin> set n"
    using assms(3) by auto
  ultimately show ?thesis
    using fold_note_energy [of rs "[]"] assms(1,2)
    by (simp add: updateEnergyValues_def clearEnergyInfoMap_def)
qed

theorem energy_roundtrip_witness:
  "\<exists>pf'. updateEnergyValues (\<lambda>_. Some (energy_line (3, ''S2M_VDD_CPUCL2'', 761330, 358356) @ [CHR 0x0A]))
      \<lparr>energy_info_map = [], throttling_release_map = [], power_status_map = [], energy_path_set = [''e'']\<rparr> =
      (True, pf') \<and>
    map_of (energy_info_map pf') ''S2M_VDD_CPUCL2'' = Some \<lparr>energy_counter = 761330, duration = 358356\<rparr>"
  using energy_roundtrip [of "\<lparr>energy_info_map = [], throttling_release_map = [], power_status_map = [],
        energy_path_set = [''e'']\<rparr>" "''e''"
      "\<lambda>_. Some (energy_line (3, ''S2M_VDD_CPUCL2'', 761330, 358356) @ [CHR 0x0A])"
      "[(3, ''S2M_VDD_CPUCL2'', 761330, 358356)]"]
  by (auto simp: energy_entry_def)

section \<open>Properties\<close>

text \<open>
  C34. Whatever sequence of operations runs on the power files (registration, sampling, release
  updates, resets, in any order and with any measurements), the release step of a cooling device
  never exceeds the number of its states, in either direction.\<close>

theorem release_step_bounded:
  assumes "power_step\<^sup>*\<^sup>* \<lparr>energy_info_map = [], throttling_release_map = [], power_status_map = [],
             energy_path_set = []\<rparr> pf"
    and "lookup2 (throttling_release_map pf) sensor cdev = Some rs"
  shows "\<bar>getReleaseStep sensor cdev pf\<bar> \<le> \<bar>max_release_step rs\<bar>"
proof -
  from assms(1) have "release_bounded pf"
  proof (induction rule: rtranclp_induct)
    case base
    show ?case by (simp add: release_bounded_def lookup2_def)
  qed (rule power_step_bounded)
  with assms(2) show ?thesis by (simp add: release_bounded_def getReleaseStep_def)
qed

lemma register_example:
  assumes "energy_info_map pf = []" "energy_path_set pf = [p]"
    "read p = Some (energy_line (3, ''rail'', 7, 5) @ [CHR 0x0A])" "lookup2 (throttling_release_map pf) s ''rail'' = None"
    "power_rail b = ''rail''" "rail pr = ''rail''" "virtual_rail pr = None" "max_state ci = 5"
  shows "\<exists>pf'. registerPowerRailsToWatch read s c b ci pr pf = Some (True, pf') \<and>
           lookup2 (throttling_release_map pf') s c = Some \<lparr>release_step = 0, max_release_step = 5\<rparr>"
proof -
  have "split_lines (energy_line (3, ''rail'', 7, 5) @ [CHR 0x0A]) = [energy_line (3, ''rail'', 7, 5)]"
    using split_lines_energy [of "[energy_line (3, ''rail'', 7, 5)]"] energy_line_one_line [of "''rail''"]
    by simp
  moreover have "map_of (note_energy (energy_line (3, ''rail'', 7, 5)) []) ''rail'' \<noteq> None"
    using fold_note_energy [of "[(3, ''rail'', 7, 5)]" "[]"] by (simp add: energy_entry_def)
  ultimately show ?thesis
    using assms
    by (simp add: registerPowerRailsToWatch_def ensure_energy_def updateEnergyValues_def
        clearEnergyInfoMap_def new_history_def lookup2_assign2)
qed

theorem release_step_bounded_witness:
  "\<exists>pf rs. lookup2 (throttling_release_map pf) ''skin'' ''cpu'' = Some rs \<and> max_release_step rs = 5 \<and>
     \<bar>getReleaseStep ''skin'' ''cpu'' pf\<bar> \<le> \<bar>max_release_step rs\<bar>"
proof -
  let ?e = "\<lparr>energy_info_map = [], throttling_release_map = [], power_status_map = [], energy_path_set = []\<rparr>"
  let ?read = "\<lambda>p :: string. Some (energy_line (3, ''rail'', 7, 5) @ [CHR 0x0A])"
  let ?p = "?e\<lparr>energy_path_set := [''/sys/bus/iio/devices/iio:device0/energy_value'']\<rparr>"
  let ?b = "\<lparr>limit_info = (\<lambda>_. 0), power_thresholds = (\<lambda>_. None), b_release_logic = STEPWISE,
     cdev_weight_for_pid = (\<lambda>_. None), cdev_ceiling = (\<lambda>_. 5), cdev_floor_with_power_link = (\<lambda>_. 0),
     power_rail = ''rail'', high_power_check = False, throttling_with_power_link = False\<rparr>"
  let ?c = "\<lparr>c_type = 0, read_path = [], write_path = [], state2power = [], max_state = 5\<rparr>"
  let ?r = "\<lparr>rail = ''rail'', power_sample_count = 2, power_sample_delay = 100, virtual_rail = None\<rparr>"
  have "findEnergySourceToWatch (Some [''iio:device0'']) ?read ?e = (True, ?p)"
    by (simp add: findEnergySourceToWatch_def find_str.simps [of "''iio:device''" "''iio:device0''"])
  then have 1: "power_step ?e ?p" by (rule power_step.find_source)
  obtain pf' where r: "registerPowerRailsToWatch ?read ''skin'' ''cpu'' ?b ?c ?r ?p = Some (True, pf')"
      "lookup2 (throttling_release_map pf') ''skin'' ''cpu'' = Some \<lparr>release_step = 0, max_release_step = 5\<rparr>"
    using register_example [of ?p _ ?read "''skin''" ?b ?r ?c "''cpu''"] by (auto simp: lookup2_def)
  from 1 power_step.register [OF r(1)] have "power_step\<^sup>*\<^sup>* ?e pf'"
    by (meson converse_rtranclp_into_rtranclp rtranclp.rtrancl_refl)
  from release_step_bounded [OF this r(2)] r(2) show ?thesis by fastforce
qed

lemma next_step_stuck: "release_step rs = max_release_step rs \<Longrightarrow> next_step STEPWISE over rs = max_release_step rs"
  by (cases "max_release_step rs < 0") auto

text \<open>
  With the STEPWISE logic the release step is stuck at its maximum. Once it equals the number
  of states of the cooling device, so that its throttling is released in full, a power rail over its
  budget does not lower it: whatever the elapsed time and the measured power, an update that
  succeeds leaves it there.
\<close>

theorem stepwise_stuck_at_maximum:
  assumes "throttlingReleaseUpdate read s c sev el b pr upd ch pf = Some (True, pf')"
    and "lookup2 (throttling_release_map pf) s c = Some rs" "release_step rs = max_release_step rs"
    and "b_release_logic b = STEPWISE"
  shows "getReleaseStep s c pf' = max_release_step rs"
  using assms(1,2)
proof (cases rule: release_update_map)
  case same
  with assms show ?thesis by (simp add: getReleaseStep_def)
next
  case (step n over)
  then have "n = max_release_step rs" using next_step_stuck [OF assms(3)] assms(4) by auto
  with step(1) assms(2) show ?thesis by (simp add: getReleaseStep_def lookup2_entry2)
qed

theorem stepwise_stuck_at_maximum_witness:
  "\<exists>pf'. throttlingReleaseUpdate (\<lambda>_. None) ''skin'' ''cpu'' 3 50
      \<lparr>limit_info = (\<lambda>_. 0), power_thresholds = (\<lambda>_. Some 50), b_release_logic = STEPWISE,
       cdev_weight_for_pid = (\<lambda>_. None), cdev_ceiling = (\<lambda>_. 5), cdev_floor_with_power_link = (\<lambda>_. 0),
       power_rail = ''r'', high_power_check = False, throttling_with_power_link = False\<rparr>
      \<lparr>rail = ''r'', power_sample_count = 1, power_sample_delay = 100, virtual_rail = None\<rparr> False True
      \<lparr>energy_info_map = [(''r'', no_sample)],
       throttling_release_map = [(''skin'', [(''cpu'', \<lparr>release_step = 5, max_release_step = 5\<rparr>)])],
       power_status_map = [(''skin'', [(''r'', \<lparr>time_remaining = 100, power_history = [[no_sample]],
          last_updated_avg_power = Some 900\<rparr>)])], energy_path_set = []\<rparr> = Some (True, pf') \<and>
     getReleaseStep ''skin'' ''cpu'' pf' = 5"
  (is "\<exists>pf'. ?u = Some (True, pf') \<and> _")
proof -
  obtain pf' where u: "?u = Some (True, pf')"
    by (simp add: throttlingReleaseUpdate_def lookup2_def sample_gate_def ensure_energy_def set_power_def)
  have "getReleaseStep ''skin'' ''cpu'' pf' = max_release_step \<lparr>release_step = 5, max_release_step = 5\<rparr>"
    by (rule stepwise_stuck_at_maximum [OF u]) (simp_all add: lookup2_def)
  with u show ?thesis by simp
qed

text \<open>
  A power rail whose configuration gives it another name for the energy driver (\<open>Rail\<close>
  differs from \<open>Name\<close>) is registered but cannot be measured. Registration looks the driver's
  name up and succeeds; the first update that samples the rail looks up the configuration's name
  instead, which the driver does not report, and the access throws.
\<close>

theorem renamed_rail_throws:
  assumes "registerPowerRailsToWatch read s c b ci pr pf = Some (True, pf')"
    and "lookup2 (throttling_release_map pf) s (power_rail b) = None" "virtual_rail pr = None"
    and "map_of (energy_info_map pf') (power_rail b) = None" "power_sample_delay pr < elapsed"
  shows "throttlingReleaseUpdate read' s c sev elapsed b pr True changed pf' = None"
proof -
  obtain ok pf2 where e: "ensure_energy read pf = (ok, pf2)" by fastforce
  have p: "ok" "power_status_map pf' = assign2 s (power_rail b)
        \<lparr>time_remaining = power_sample_delay pr, power_history = [replicate (nat (power_sample_count pr)) no_sample],
         last_updated_avg_power = None\<rparr> (power_status_map pf2)"
      "throttling_release_map pf' = assign2 s c
        \<lparr>release_step = 0, max_release_step = max_state ci\<rparr> (throttling_release_map pf2)"
      "energy_info_map pf' \<noteq> []"
    using assms(1-3) e
    by (auto simp: registerPowerRailsToWatch_def new_history_def bind_eq_Some_conv split: bool.splits if_splits)
  then show ?thesis
    using assms(3-5)
    by (simp add: throttlingReleaseUpdate_def lookup2_assign2 sample_gate_def ensure_energy_def set_power_def
        measure_power_def getAveragePower_def)
qed

theorem renamed_rail_throws_witness:
  "\<exists>pf'. registerPowerRailsToWatch (\<lambda>_. None) ''skin'' ''cpu''
      \<lparr>limit_info = (\<lambda>_. 0), power_thresholds = (\<lambda>_. Some 50), b_release_logic = INCREASE,
       cdev_weight_for_pid = (\<lambda>_. None), cdev_ceiling = (\<lambda>_. 5), cdev_floor_with_power_link = (\<lambda>_. 0),
       power_rail = ''cpu_rail'', high_power_check = False, throttling_with_power_link = False\<rparr>
      \<lparr>c_type = 0, read_path = [], write_path = [], state2power = [], max_state = 5\<rparr>
      \<lparr>rail = ''S2M'', power_sample_count = 1, power_sample_delay = 100, virtual_rail = None\<rparr>
      \<lparr>energy_info_map = [(''S2M'', no_sample)], throttling_release_map = [], power_status_map = [],
       energy_path_set = [''e'']\<rparr> = Some (True, pf') \<and>
    throttlingReleaseUpdate (\<lambda>_. None) ''skin'' ''cpu'' 3 200
      \<lparr>limit_info = (\<lambda>_. 0), power_thresholds = (\<lambda>_. Some 50), b_release_logic = INCREASE,
       cdev_weight_for_pid = (\<lambda>_. None), cdev_ceiling = (\<lambda>_. 5), cdev_floor_with_power_link = (\<lambda>_. 0),
       power_rail = ''cpu_rail'', high_power_check = False, throttling_with_power_link = False\<rparr>
      \<lparr>rail = ''S2M'', power_sample_count = 1, power_sample_delay = 100, virtual_rail = None\<rparr>
      True False pf' = None"
  (is "\<exists>pf'. ?r = Some (True, pf') \<and> _")
proof -
  obtain pf' where r: "?r = Some (True, pf')" "energy_info_map pf' = [(''S2M'', no_sample)]"
    by (simp add: registerPowerRailsToWatch_def lookup2_def ensure_energy_def new_history_def)
  have "throttlingReleaseUpdate (\<lambda>_. None) ''skin'' ''cpu'' 3 200
      \<lparr>limit_info = (\<lambda>_. 0), power_thresholds = (\<lambda>_. Some 50), b_release_logic = INCREASE,
       cdev_weight_for_pid = (\<lambda>_. None), cdev_ceiling = (\<lambda>_. 5), cdev_floor_with_power_link = (\<lambda>_. 0),
       power_rail = ''cpu_rail'', high_power_check = False, throttling_with_power_link = False\<rparr>
      \<lparr>rail = ''S2M'', power_sample_count = 1, power_sample_delay = 100, virtual_rail = None\<rparr>
      True False pf' = None"
    by (rule renamed_rail_throws [OF r(1)]) (simp_all add: lookup2_def r(2))
  with r show ?thesis by blast
qed

end
