(* ===== verification/Thermal.thy ===== *)
theory Thermal
  imports ThermalPower "HOL-Library.Monad_Syntax"
begin

text \<open>
  The watcher of the thermal service: \<open>ThermalHelper\<close> of \<open>thermal/thermal-helper.cpp\<close>
  with \<open>ThermalFiles\<close> of \<open>thermal/utils/thermal_files.cpp\<close>. Sensors are read, their
  severities derived with hysteresis, a PID controller and the configured limits turned into
  requests to the cooling devices, the requests of all sensors aggregated into one file per device,
  and changes of severity reported. Reading files and the time are parameters; what leaves the
  program (writes, callbacks, power hints) is a list of effects. None is an exception nobody
  catches or undefined behaviour.
\<close>

section \<open>State\<close>

record sensor_status =
  cur_severity :: severity
  prev_hot_severity :: severity
  prev_cold_severity :: severity
  prev_hint_severity :: severity
  last_update_time :: "int option"
  pid_request_map :: "(string \<times> int) list"
  hard_limit_request_map :: "(string \<times> int) list"
  err_integral :: float32
  prev_err :: float32

record temperature =
  t_type :: int
  t_name :: string
  t_value :: float32
  throttling_status :: severity

text \<open>An attempt to write to the file of a cooling device (its name, its path, the text, whether it
  succeeded), a report to the callback, and a power hint switched on or off.\<close>

datatype effect =
    WriteCdev string string string bool
  | Notify temperature
  | SetMode string severity bool

text \<open>\<open>PowerHalService\<close>: whether the service is thought to exist, and the connections.\<close>

record power_hal =
  power_hal_aidl_exist :: bool
  hal_connected :: bool
  ext_connected :: bool

record helper =
  sensor_info_map :: "(string \<times> sensor_info) list"
  cooling_device_info_map :: "(string \<times> cdev_info) list"
  power_rail_info_map :: "(string \<times> power_rail_info) list"
  supported_powerhint_map :: "string \<Rightarrow> severity \<Rightarrow> severity"
  thermal_sensors :: "(string \<times> string) list"
  cooling_devices :: "(string \<times> string) list"
  sensor_status_map :: "(string \<times> sensor_status) list"
  cdev_status_map :: "(string \<times> (string \<times> int) list) list"
  h_power_files :: power_files
  hal :: power_hal
  effects :: "effect list"

definition emit :: "effect \<Rightarrow> helper \<Rightarrow> helper" where
  "emit e h = h\<lparr>effects := effects h @ [e]\<rparr>"

definition NONE_SEVERITY :: severity where "NONE_SEVERITY = 0"
definition SEVERE :: severity where "SEVERE = 3"
definition SHUTDOWN :: severity where "SHUTDOWN = 6"

section \<open>Files\<close>

definition getThermalFilePath :: "(string \<times> string) list \<Rightarrow> string \<Rightarrow> string" where
  "getThermalFilePath fs n = (case map_of fs n of None \<Rightarrow> [] | Some p \<Rightarrow> p)"

definition addThermalFile :: "string \<Rightarrow> string \<Rightarrow> (string \<times> string) list \<Rightarrow> bool \<times> (string \<times> string) list" where
  "addThermalFile n p fs = (if map_of fs n = None then (True, fs @ [(n, p)]) else (False, fs))"

definition readThermalFile ::
  "(string \<Rightarrow> string option) \<Rightarrow> (string \<times> string) list \<Rightarrow> string \<Rightarrow> string option" where
  "readThermalFile read fs n =
     (let p = getThermalFilePath fs n in if p = [] then None else map_option trim (read p))"

text \<open>Whether a write succeeds is a parameter, which may depend on all that was done before.\<close>

type_synonym write_result = "effect list \<Rightarrow> string \<Rightarrow> string \<Rightarrow> bool"

definition writeCdevFile :: "write_result \<Rightarrow> string \<Rightarrow> string \<Rightarrow> helper \<Rightarrow> bool \<times> helper" where
  "writeCdevFile wr n text h =
     (let file_path = getThermalFilePath (cooling_devices h) (n @ ''_w'');
          ok = wr (effects h) file_path text
      in (ok, emit (WriteCdev n file_path text ok) h))"

section \<open>Reading temperatures\<close>

text \<open>
  A virtual sensor combines linked sensors, which may be virtual in turn. Some None is a failed
  read; None is an exception (a number that cannot be parsed, an unknown linked sensor, a
  missing coefficient) or a recursion without end.
\<close>

partial_function (option) virtual_loop ::
  "(string \<Rightarrow> string option) \<Rightarrow> helper \<Rightarrow> virtual_sensor_info \<Rightarrow> nat \<Rightarrow> float32 \<Rightarrow> string option option" where
  "virtual_loop read h vi i val =
     (if length (linked vi) \<le> i then Some (Some (to_string_f (f_add val (v_offset vi))))
      else do {
        si \<leftarrow> map_of (sensor_info_map h) (linked vi ! i);
        data \<leftarrow> (case virtual_sensor si of
                   None \<Rightarrow> Some (readThermalFile read (thermal_sensors h) (linked vi ! i))
                 | Some vj \<Rightarrow> virtual_loop read h vj 0 (Some 0));
        (case data of
           None \<Rightarrow> if virtual_sensor si = None then virtual_loop read h vi (i + 1) val else Some None
         | Some text \<Rightarrow>
             do { x \<leftarrow> stof (trim text);
                  if length (coefficients vi) \<le> i then None
                  else if coefficients vi ! i = None then Some None
                  else virtual_loop read h vi (i + 1)
                         (combine (v_formula vi) (i = 0) (coefficients vi ! i) x val) }) })"

definition checkVirtualSensor ::
  "(string \<Rightarrow> string option) \<Rightarrow> helper \<Rightarrow> string \<Rightarrow> string option option" where
  "checkVirtualSensor read h n =
     do { si \<leftarrow> map_of (sensor_info_map h) n; vi \<leftarrow> virtual_sensor si; virtual_loop read h vi 0 (Some 0) }"

text \<open>The loop from SHUTDOWN down to LIGHT, over the hot severity, the one with hysteresis, the cold
  severity and the one with hysteresis.\<close>

definition severity_body ::
  "sensor_info \<Rightarrow> float32 \<Rightarrow> nat \<Rightarrow> nat \<times> nat \<times> nat \<times> nat \<Rightarrow> nat \<times> nat \<times> nat \<times> nat" where
  "severity_body s value i acc =
     (case acc of (h, hh, c, ch) \<Rightarrow>
       (if hot_thresholds s i \<noteq> None \<and> f_le (hot_thresholds s i) value \<and> h = NONE_SEVERITY then i else h,
        if hot_thresholds s i \<noteq> None \<and> f_less (f_sub (hot_thresholds s i) (hot_hysteresis s i)) value
           \<and> hh = NONE_SEVERITY then i else hh,
        if cold_thresholds s i \<noteq> None \<and> f_le value (cold_thresholds s i) \<and> c = NONE_SEVERITY then i else c,
        if cold_thresholds s i \<noteq> None \<and> f_less value (f_add (cold_thresholds s i) (cold_hysteresis s i))
           \<and> ch = NONE_SEVERITY then i else ch))"

fun severity_loop ::
  "sensor_info \<Rightarrow> float32 \<Rightarrow> nat \<Rightarrow> nat \<times> nat \<times> nat \<times> nat \<Rightarrow> nat \<times> nat \<times> nat \<times> nat" where
  "severity_loop s value 0 acc = acc"
| "severity_loop s value (Suc i) acc = severity_loop s value i (severity_body s value (Suc i) acc)"

definition getSeverityFromThresholds :: "sensor_info \<Rightarrow> severity \<Rightarrow> severity \<Rightarrow> float32 \<Rightarrow> severity \<times> severity" where
  "getSeverityFromThresholds s prev_hot prev_cold value =
     (case severity_loop s value SHUTDOWN (NONE_SEVERITY, NONE_SEVERITY, NONE_SEVERITY, NONE_SEVERITY) of
        (h, hh, c, ch) \<Rightarrow> (if h < prev_hot then hh else h, if c < prev_cold then ch else c))"

text \<open>\<open>readTemperature\<close> for the 2.0 interface: the temperature and the hot and cold severity.\<close>

definition read_text :: "(string \<Rightarrow> string option) \<Rightarrow> helper \<Rightarrow> string \<Rightarrow> bool \<Rightarrow> string option option" where
  "read_text read h n is_virtual =
     (if is_virtual then checkVirtualSensor read h n
      else Some (case readThermalFile read (thermal_sensors h) n of
                   None \<Rightarrow> None
                 | Some text \<Rightarrow> if text = [] then None else Some text))"

definition readTemperature ::
  "(string \<Rightarrow> string option) \<Rightarrow> helper \<Rightarrow> string \<Rightarrow> bool \<Rightarrow>
   (temperature \<times> severity \<times> severity) option option" where
  "readTemperature read h n is_virtual =
     do { text \<leftarrow> read_text read h n is_virtual;
          (case text of
             None \<Rightarrow> Some None
           | Some t \<Rightarrow>
               do { si \<leftarrow> map_of (sensor_info_map h) n;
                    x \<leftarrow> stof t;
                    let value = f_mul x (multiplier si);
                    (hot, cold) \<leftarrow> (if is_monitor si
                       then do { st \<leftarrow> map_of (sensor_status_map h) n;
                                 Some (getSeverityFromThresholds si (prev_hot_severity st)
                                         (prev_cold_severity st) value) }
                       else Some (NONE_SEVERITY, NONE_SEVERITY));
                    Some (Some (\<lparr>t_type = s_type si, t_name = n, t_value = value,
                                 throttling_status = (if cold < hot then hot else cold)\<rparr>, hot, cold)) }) }"

text \<open>The 1.0 interface: the type, the value and the thresholds it reports.\<close>

definition readTemperature_1_0 ::
  "(string \<Rightarrow> string option) \<Rightarrow> helper \<Rightarrow> int \<Rightarrow> int \<Rightarrow> string \<Rightarrow> bool \<Rightarrow>
   (int \<times> string \<times> float32 \<times> float32 \<times> float32 \<times> float32) option option" where
  "readTemperature_1_0 read h skin unknown n is_virtual =
     do { text \<leftarrow> read_text read h n is_virtual;
          (case text of
             None \<Rightarrow> Some None
           | Some t \<Rightarrow>
               do { si \<leftarrow> map_of (sensor_info_map h) n;
                    x \<leftarrow> stof t;
                    Some (Some (if s_type si > skin then unknown else s_type si, n,
                      f_mul x (multiplier si), hot_thresholds si SEVERE, hot_thresholds si SHUTDOWN,
                      vr_threshold si)) }) }"

section \<open>The PID controller\<close>

definition f_abs :: "float32 \<Rightarrow> float32" where "f_abs = map_option abs"

definition of_ms :: "int \<Rightarrow> float32" where "of_ms n = Some (fl32 (of_int n))"

fun target_loop :: "throttling_info \<Rightarrow> severity \<Rightarrow> nat \<Rightarrow> severity list \<Rightarrow> nat" where
  "target_loop ti cur target [] = target"
| "target_loop ti cur target (sev # sevs) =
     (if s_power ti sev = None then target_loop ti cur target sevs
      else if cur < sev then sev
      else target_loop ti cur sev sevs)"

definition getTargetStateOfPID :: "sensor_info \<Rightarrow> sensor_status \<Rightarrow> nat" where
  "getTargetStateOfPID si st =
     target_loop (throttling si) (cur_severity st) 0 [0..<kThrottlingSeverityCount]"

definition pid_integral :: "throttling_info \<Rightarrow> nat \<Rightarrow> float32 \<Rightarrow> float32 \<Rightarrow> float32 \<times> float32" where
  "pid_integral ti k err integral =
     (let i = f_mul integral (k_i ti k);
          i_next = f_add i (f_mul err (k_i ti k))
      in if f_less err (i_cutoff ti k) \<and> f_less (f_abs i_next) (i_max ti k)
         then (i_next, f_add integral err) else (i, integral))"

definition clamp_power :: "throttling_info \<Rightarrow> nat \<Rightarrow> float32 \<Rightarrow> float32" where
  "clamp_power ti k b =
     (let b = (if f_less b (min_alloc_power ti k) then min_alloc_power ti k else b)
      in if f_less (max_alloc_power ti k) b then max_alloc_power ti k else b)"

definition pidPowerCalculator ::
  "float32 \<Rightarrow> sensor_info \<Rightarrow> sensor_status \<Rightarrow> int \<Rightarrow> nat \<Rightarrow> float32 \<times> sensor_status" where
  "pidPowerCalculator value si st elapsed k =
     (if k = 0 \<or> cur_severity st = NONE_SEVERITY
      then (Some max32, st\<lparr>err_integral := Some 0, prev_err := None\<rparr>)
      else
        let ti = throttling si;
            err = f_sub (hot_thresholds si k) value;
            p = f_mul err (if f_less err (Some 0) then k_po ti k else k_pu ti k);
            (i, integral) = pid_integral ti k err (err_integral st);
            d = (if prev_err st \<noteq> None \<and> elapsed \<noteq> 0
                 then f_div (f_mul (k_d ti k) (f_sub err (prev_err st))) (of_ms elapsed) else Some 0)
        in (clamp_power ti k (f_add (f_add (f_add (s_power ti k) p) i) d),
            st\<lparr>err_integral := integral, prev_err := err\<rparr>))"

section \<open>Requests of one sensor\<close>

definition weights :: "sensor_info \<Rightarrow> nat \<Rightarrow> float32 list" where
  "weights si k = filter (\<lambda>w. w \<noteq> None)
     (map (\<lambda>(_, b). cdev_weight_for_pid b k) (binded_cdev_info_map (throttling si)))"

text \<open>The first state whose power is below the budget, or the last; with no states the bound
  \<open>size() - 1\<close> wraps and the loop reads beyond the vector.\<close>

fun power_state :: "float32 \<Rightarrow> float32 list \<Rightarrow> int option" where
  "power_state budget [] = None"
| "power_state budget [p] = Some 0"
| "power_state budget (p # q # ps) =
     (if f_less p budget then Some 0 else map_option ((+) 1) (power_state budget (q # ps)))"

text \<open>\<open>map.at(k) = v\<close>.\<close>

definition set_at :: "string \<Rightarrow> int \<Rightarrow> (string \<times> int) list \<Rightarrow> (string \<times> int) list option" where
  "set_at k v m = (if map_of m k = None then None else Some (AList.update k v m))"

fun power_requests ::
  "helper \<Rightarrow> float32 \<Rightarrow> float32 \<Rightarrow> nat \<Rightarrow> (string \<times> binded_cdev_info) list \<Rightarrow> (string \<times> int) list \<Rightarrow>
   (string \<times> int) list option" where
  "power_requests h budget tw k [] m = Some m"
| "power_requests h budget tw k ((c, b) # bs) m =
     (if cdev_weight_for_pid b k = None then power_requests h budget tw k bs m
      else do { ci \<leftarrow> map_of (cooling_device_info_map h) c;
                j \<leftarrow> power_state (f_mul budget (f_div (cdev_weight_for_pid b k) tw)) (state2power ci);
                m' \<leftarrow> set_at c j m;
                power_requests h budget tw k bs m' })"

definition requestCdevByPower ::
  "helper \<Rightarrow> sensor_status \<Rightarrow> sensor_info \<Rightarrow> float32 \<Rightarrow> nat \<Rightarrow> (bool \<times> sensor_status) option" where
  "requestCdevByPower h st si budget k =
     (let tw = fold (\<lambda>w t. f_add t w) (weights si k) (Some 0) in
      if tw = Some 0 then Some (False, st)
      else do { m \<leftarrow> power_requests h budget tw k (binded_cdev_info_map (throttling si))
                       (pid_request_map st);
                Some (True, st\<lparr>pid_request_map := m\<rparr>) })"

fun limit_requests ::
  "severity \<Rightarrow> (string \<times> binded_cdev_info) list \<Rightarrow> (string \<times> int) list \<Rightarrow> (string \<times> int) list option" where
  "limit_requests sev [] m = Some m"
| "limit_requests sev ((c, b) # bs) m =
     do { m' \<leftarrow> set_at c (limit_info b sev) m; limit_requests sev bs m' }"

definition requestCdevBySeverity :: "sensor_status \<Rightarrow> sensor_info \<Rightarrow> sensor_status option" where
  "requestCdevBySeverity st si =
     do { m \<leftarrow> limit_requests (cur_severity st) (binded_cdev_info_map (throttling si))
                 (hard_limit_request_map st);
          Some (st\<lparr>hard_limit_request_map := m\<rparr>) }"

section \<open>Requests of all sensors\<close>

text \<open>The state one sensor asks of one device; \<open>request_state - release_step\<close> is undefined
  when it leaves the range of int.\<close>

definition request_state :: "binded_cdev_info \<Rightarrow> severity \<Rightarrow> int \<Rightarrow> int \<Rightarrow> int \<Rightarrow> int option" where
  "request_state b sev pid hard step =
     (let r = max pid hard; fl = cdev_floor_with_power_link b sev; ceil = cdev_ceiling b sev
      in if step = 0 then Some (min r ceil)
         else if step \<ge> r then Some (min (max 0 fl) ceil)
         else if r - step > max_int then None
         else Some (min (max (r - step) fl) ceil))"

definition or_zero :: "int option \<Rightarrow> int" where
  "or_zero x = (case x of None \<Rightarrow> 0 | Some n \<Rightarrow> n)"

fun compute_loop ::
  "helper \<Rightarrow> string \<Rightarrow> sensor_info \<Rightarrow> sensor_status \<Rightarrow> (string \<times> (string \<times> int) list) list \<Rightarrow>
   ((string \<times> (string \<times> int) list) list \<times> string list) option" where
  "compute_loop h n si st [] = Some ([], [])"
| "compute_loop h n si st ((c, reqs) # cs) =
     (case map_of reqs n of
        None \<Rightarrow> do { (cs', upd) \<leftarrow> compute_loop h n si st cs; Some ((c, reqs) # cs', upd) }
      | Some old \<Rightarrow>
          do { b \<leftarrow> map_of (binded_cdev_info_map (throttling si)) c;
               r \<leftarrow> request_state b (cur_severity st) (or_zero (map_of (pid_request_map st) c))
                         (or_zero (map_of (hard_limit_request_map st) c))
                         (getReleaseStep n c (h_power_files h));
               (cs', upd) \<leftarrow> compute_loop h n si st cs;
               Some ((c, AList.update n r reqs) # cs', if old \<noteq> r then c # upd else upd) })"

definition computeCoolingDevicesRequest ::
  "string \<Rightarrow> sensor_info \<Rightarrow> sensor_status \<Rightarrow> helper \<Rightarrow> (helper \<times> string list) option" where
  "computeCoolingDevicesRequest n si st h =
     do { (cs, upd) \<leftarrow> compute_loop h n si st (cdev_status_map h);
          Some (h\<lparr>cdev_status_map := cs\<rparr>, upd) }"

definition max_request :: "(string \<times> int) list \<Rightarrow> int" where
  "max_request reqs = fold (\<lambda>(_, r) m. if r > m then r else m) reqs 0"

text \<open>A write that fails is only not logged: the request stays noted as it is.\<close>

fun updateCoolingDevices :: "write_result \<Rightarrow> string list \<Rightarrow> helper \<Rightarrow> helper option" where
  "updateCoolingDevices wr [] h = Some h"
| "updateCoolingDevices wr (c # cs) h =
     do { reqs \<leftarrow> map_of (cdev_status_map h) c;
          updateCoolingDevices wr cs (snd (writeCdevFile wr c (int_to_dec (max_request reqs)) h)) }"

section \<open>Power hints\<close>

text \<open>
  Whether the service accepts a call is the parameter \<open>ok\<close>; a refused call drops the
  connections.
\<close>

definition drop_hal :: "helper \<Rightarrow> helper" where
  "drop_hal h = h\<lparr>hal := \<lparr>power_hal_aidl_exist = False, hal_connected = False, ext_connected = False\<rparr>\<rparr>"

text \<open>\<open>connect\<close>, given which of the four lookups succeed: the binder of the service, its
  interface, the binder of the extension, its interface.\<close>

definition connect :: "bool \<Rightarrow> bool \<Rightarrow> bool \<Rightarrow> bool \<Rightarrow> power_hal \<Rightarrow> bool \<times> power_hal" where
  "connect binder aidl ext_binder ext p =
     (if \<not> power_hal_aidl_exist p then (False, p)
      else if hal_connected p then (True, p)
      else if \<not> binder then (False, p\<lparr>power_hal_aidl_exist := False\<rparr>)
      else if \<not> aidl then (False, p\<lparr>power_hal_aidl_exist := False\<rparr>)
      else if \<not> ext_binder then (False, p\<lparr>hal_connected := True, power_hal_aidl_exist := False\<rparr>)
      else (True, p\<lparr>hal_connected := True, ext_connected := ext, power_hal_aidl_exist := ext\<rparr>))"

text \<open>The extension is used without a check: None.\<close>

definition setMode_hint ::
  "(string \<Rightarrow> severity \<Rightarrow> bool \<Rightarrow> bool) \<Rightarrow> string \<Rightarrow> severity \<Rightarrow> bool \<Rightarrow> helper \<Rightarrow> helper option" where
  "setMode_hint ok n sev enable h =
     (if \<not> hal_connected (hal h) then Some h
      else if \<not> ext_connected (hal h) then None
      else if ok n sev enable then Some (emit (SetMode n sev enable) h) else Some (drop_hal h))"

definition isModeSupported ::
  "(string \<Rightarrow> severity \<Rightarrow> bool option) \<Rightarrow> string \<Rightarrow> severity \<Rightarrow> helper \<Rightarrow> bool \<times> helper" where
  "isModeSupported answer n sev h =
     (if \<not> hal_connected (hal h) then (False, h)
      else (case answer n sev of None \<Rightarrow> (False, drop_hal h) | Some b \<Rightarrow> (b, h)))"

fun hint_loop ::
  "(string \<Rightarrow> severity \<Rightarrow> bool option) \<Rightarrow> string \<Rightarrow> severity \<Rightarrow> severity list \<Rightarrow> helper \<Rightarrow> helper" where
  "hint_loop answer n cur [] h = h"
| "hint_loop answer n cur (sev # sevs) h =
     (if sev = NONE_SEVERITY
      then hint_loop answer n cur sevs
             (h\<lparr>supported_powerhint_map := (supported_powerhint_map h)(n := (supported_powerhint_map h n)(sev := NONE_SEVERITY))\<rparr>)
      else let (sup, h1) = (if ext_connected (hal h) then isModeSupported answer n sev h else (False, h));
               cur = (if sup then sev else cur)
           in hint_loop answer n cur sevs
                (h1\<lparr>supported_powerhint_map := (supported_powerhint_map h1)(n := (supported_powerhint_map h1 n)(sev := cur))\<rparr>))"

definition updateSupportedPowerHints :: "(string \<Rightarrow> severity \<Rightarrow> bool option) \<Rightarrow> helper \<Rightarrow> helper" where
  "updateSupportedPowerHints answer h =
     fold (\<lambda>(n, si) h. if send_powerhint si
                       then hint_loop answer n NONE_SEVERITY [0..<kThrottlingSeverityCount] h else h)
       (sensor_info_map h) h"

definition change_status :: "string \<Rightarrow> (sensor_status \<Rightarrow> sensor_status) \<Rightarrow> helper \<Rightarrow> helper" where
  "change_status n f h = h\<lparr>sensor_status_map := AList.map_entry n f (sensor_status_map h)\<rparr>"

definition switch_hint ::
  "(string \<Rightarrow> severity \<Rightarrow> bool \<Rightarrow> bool) \<Rightarrow> string \<Rightarrow> severity \<Rightarrow> bool \<Rightarrow> helper \<Rightarrow> helper option" where
  "switch_hint ok n sev enable h =
     (if sev \<noteq> NONE_SEVERITY then setMode_hint ok n sev enable h else Some h)"

definition sendPowerExtHint ::
  "(string \<Rightarrow> severity \<Rightarrow> bool \<Rightarrow> bool) \<Rightarrow> temperature \<Rightarrow> helper \<Rightarrow> helper option" where
  "sendPowerExtHint ok t h =
     do { st \<leftarrow> map_of (sensor_status_map h) (t_name t);
          let prv = prev_hint_severity st;
              cur = supported_powerhint_map h (t_name t) (throttling_status t)
          in if prv = cur then Some h
             else do {
               h1 \<leftarrow> switch_hint ok (t_name t) prv False h;
               h2 \<leftarrow> switch_hint ok (t_name t) cur True h1;
               Some (change_status (t_name t) (\<lambda>st. st\<lparr>prev_hint_severity := cur\<rparr>) h2) } }"

section \<open>The watcher callback\<close>

text \<open>\<open>duration_cast\<close> from nanoseconds, towards zero.\<close>

definition elapsed_ms :: "int \<Rightarrow> int \<Rightarrow> int" where
  "elapsed_ms now last_time = (now - last_time) sdiv 1000000"

definition sleep_of :: "sensor_info \<Rightarrow> severity \<Rightarrow> int" where
  "sleep_of si sev = (if sev \<noteq> NONE_SEVERITY then passive_delay si else polling_delay si)"

text \<open>The elapsed time, and whether the sensor is to be updated.\<close>

definition update_due ::
  "helper \<Rightarrow> int \<Rightarrow> string list \<Rightarrow> string \<Rightarrow> sensor_info \<Rightarrow> sensor_status \<Rightarrow> (int \<times> bool) option" where
  "update_due h now uevents n si st =
     (case last_update_time st of
        None \<Rightarrow> Some (0, True)
      | Some l \<Rightarrow>
          (let el = elapsed_ms now l in
           if el > sleep_of si (cur_severity st) then Some (el, True)
           else if (case virtual_sensor si of Some v \<Rightarrow> trigger_sensor v | None \<Rightarrow> n) \<in> set uevents
           then Some (el, True)
           else (case virtual_sensor si of
                   None \<Rightarrow> Some (el, False)
                 | Some v \<Rightarrow> do { ts \<leftarrow> map_of (sensor_status_map h) (trigger_sensor v);
                                  Some (el, cur_severity ts \<noteq> NONE_SEVERITY) })))"

text \<open>What the loop over the sensors accumulates besides the state: the temperatures to report,
  the devices to write, the rails already sampled, and the shortest sleep.\<close>

record round =
  temps :: "temperature list"
  to_update :: "string list"
  updated_rails :: "string list"
  min_sleep :: int

text \<open>Sampling of the power rails bound to the sensor.\<close>

fun release_loop ::
  "(string \<Rightarrow> string option) \<Rightarrow> string \<Rightarrow> severity \<Rightarrow> int \<Rightarrow> bool \<Rightarrow> (string \<times> binded_cdev_info) list \<Rightarrow>
   helper \<Rightarrow> string list \<Rightarrow> (helper \<times> string list) option" where
  "release_loop read n sev el changed [] h rails = Some (h, rails)"
| "release_loop read n sev el changed ((c, b) # bs) h rails =
     (if power_rail b = [] then release_loop read n sev el changed bs h rails
      else do { pr \<leftarrow> map_of (power_rail_info_map h) (power_rail b);
                (r, pf) \<leftarrow> throttlingReleaseUpdate read n c sev el b pr (power_rail b \<notin> set rails) changed
                            (h_power_files h);
                release_loop read n sev el changed bs (h\<lparr>h_power_files := pf\<rparr>)
                  (if r then power_rail b # rails else rails) })"

definition pid_stage :: "helper \<Rightarrow> float32 \<Rightarrow> int \<Rightarrow> sensor_info \<Rightarrow> sensor_status \<Rightarrow> sensor_status option" where
  "pid_stage h value el si st =
     (if pid_request_map st = [] then Some st
      else
        let k = getTargetStateOfPID si st;
            (budget, st1) = pidPowerCalculator value si st el k
        in map_option snd (requestCdevByPower h st1 si budget k))"

definition limit_stage :: "sensor_info \<Rightarrow> sensor_status \<Rightarrow> sensor_status option" where
  "limit_stage si st = (if hard_limit_request_map st = [] then Some st else requestCdevBySeverity st si)"

definition aggregate_stage ::
  "(string \<Rightarrow> string option) \<Rightarrow> string \<Rightarrow> sensor_info \<Rightarrow> sensor_status \<Rightarrow> int \<Rightarrow> bool \<Rightarrow> helper \<Rightarrow> string list \<Rightarrow>
   (helper \<times> string list \<times> string list) option" where
  "aggregate_stage read n si st el changed h rails =
     (if pid_request_map st = [] \<and> hard_limit_request_map st = [] then Some (h, rails, [])
      else do {
        (h1, rails1) \<leftarrow>
          (if cur_severity st = NONE_SEVERITY
           then Some (h\<lparr>h_power_files := setPowerDataToDefault n (h_power_files h)\<rparr>, rails)
           else release_loop read n (cur_severity st) el changed (binded_cdev_info_map (throttling si)) h rails);
        (h2, upd) \<leftarrow> computeCoolingDevicesRequest n si st h1;
        Some (h2, rails1, upd) })"

text \<open>The body of the loop over \<open>sensor_status_map_\<close>.\<close>

definition watch_sensor ::
  "(string \<Rightarrow> string option) \<Rightarrow> int \<Rightarrow> string list \<Rightarrow> string \<Rightarrow> helper \<times> round \<Rightarrow> (helper \<times> round) option" where
  "watch_sensor read now uevents n hr =
     (let (h, r) = hr in
      do { st \<leftarrow> map_of (sensor_status_map h) n;
           si \<leftarrow> map_of (sensor_info_map h) n;
           if \<not> is_monitor si then Some (h, r)
           else do {
             (el, due) \<leftarrow> update_due h now uevents n si st;
             if \<not> due
             then Some (h, r\<lparr>min_sleep := min (min_sleep r) (sleep_of si (cur_severity st) - el)\<rparr>)
             else do {
               reading \<leftarrow> readTemperature read h n (virtual_sensor si \<noteq> None);
               (case reading of
                  None \<Rightarrow> Some (h, r)
                | Some (t, hot, cold) \<Rightarrow>
                    (let changed = (throttling_status t \<noteq> cur_severity st);
                         st1 = st\<lparr>prev_hot_severity := hot, prev_cold_severity := cold,
                                  cur_severity := throttling_status t\<rparr>
                     in do {
                       st2 \<leftarrow> pid_stage h (t_value t) el si st1;
                       st3 \<leftarrow> limit_stage si st2;
                       (h1, rails, upd) \<leftarrow> aggregate_stage read n si st3 el changed h (updated_rails r);
                       Some (change_status n (\<lambda>_. st3\<lparr>last_update_time := Some now\<rparr>) h1,
                             r\<lparr>temps := (if changed then temps r @ [t] else temps r),
                               to_update := to_update r @ upd, updated_rails := rails,
                               min_sleep := min (min_sleep r) (sleep_of si (throttling_status t))\<rparr>) })) } } })"

fun watch_loop ::
  "(string \<Rightarrow> string option) \<Rightarrow> int \<Rightarrow> string list \<Rightarrow> string list \<Rightarrow> helper \<times> round \<Rightarrow> (helper \<times> round) option" where
  "watch_loop read now uevents [] hr = Some hr"
| "watch_loop read now uevents (n # ns) hr =
     do { hr' \<leftarrow> watch_sensor read now uevents n hr; watch_loop read now uevents ns hr' }"

definition report_one ::
  "bool \<Rightarrow> (string \<Rightarrow> severity \<Rightarrow> bool \<Rightarrow> bool) \<Rightarrow> temperature \<Rightarrow> helper \<Rightarrow> helper option" where
  "report_one cb ok t h =
     do { si \<leftarrow> map_of (sensor_info_map h) (t_name t);
          let h1 = (if send_cb si \<and> cb then emit (Notify t) h else h);
          if send_powerhint si \<and> power_hal_aidl_exist (hal h1) then sendPowerExtHint ok t h1 else Some h1 }"

fun report_loop ::
  "bool \<Rightarrow> (string \<Rightarrow> severity \<Rightarrow> bool \<Rightarrow> bool) \<Rightarrow> temperature list \<Rightarrow> helper \<Rightarrow> helper option" where
  "report_loop cb ok [] h = Some h"
| "report_loop cb ok (t # ts) h = do { h' \<leftarrow> report_one cb ok t h; report_loop cb ok ts h' }"

definition thermalWatcherCallbackFunc ::
  "(string \<Rightarrow> string option) \<Rightarrow> int \<Rightarrow> string list \<Rightarrow> bool \<Rightarrow> (string \<Rightarrow> severity \<Rightarrow> bool \<Rightarrow> bool) \<Rightarrow> write_result \<Rightarrow> helper \<Rightarrow>
   (helper \<times> int) option" where
  "thermalWatcherCallbackFunc read now uevents cb ok wr h =
     do { (h1, r) \<leftarrow> watch_loop read now uevents (map fst (sensor_status_map h))
                      (h, \<lparr>temps = [], to_update = [], updated_rails = [], min_sleep = max_ms\<rparr>);
          h2 \<leftarrow> updateCoolingDevices wr (to_update r) h1;
          h3 \<leftarrow> report_loop cb ok (temps r) h2;
          Some (h3\<lparr>h_power_files := clearEnergyInfoMap (h_power_files h3)\<rparr>,
                if min_sleep r < kMinPollIntervalMs then kMinPollIntervalMs else min_sleep r) }"

end
