(* ===== verification/ThermalProps.thy ===== *)
theory ThermalProps
  imports Thermal
begin

text \<open>
  Properties of the thermal watcher: what a severity means and how hysteresis holds it, the bounds
  of the power budget, the files of the cooling devices and the power hints as invariants of the
  callback, and the cases in which the service throws or falls silent.
\<close>

section \<open>Severities\<close>

text \<open>The specification: the highest severity that a condition holds for.\<close>

definition highest :: "(nat \<Rightarrow> bool) \<Rightarrow> nat \<Rightarrow> nat" where
  "highest P n = Max (insert 0 {i. 1 \<le> i \<and> i \<le> n \<and> P i})"

lemma highest_finite [simp]: "finite {i. 1 \<le> i \<and> i \<le> (n :: nat) \<and> P i}"
  by (rule finite_subset [of _ "{..n}"]) auto

lemma highest_0 [simp]: "highest P 0 = 0"
proof -
  have "{i. 1 \<le> i \<and> i \<le> (0 :: nat) \<and> P i} = {}" by auto
  then show ?thesis by (simp only: highest_def) simp
qed

lemma highest_Suc [simp]: "highest P (Suc n) = (if P (Suc n) then Suc n else highest P n)"
proof (cases "P (Suc n)")
  case True
  have "Max (insert 0 {i. 1 \<le> i \<and> i \<le> Suc n \<and> P i}) = Suc n"
    by (rule Max_eqI) (auto simp: True)
  with True show ?thesis by (simp add: highest_def)
next
  case False
  then have "{i. 1 \<le> i \<and> i \<le> Suc n \<and> P i} = {i. 1 \<le> i \<and> i \<le> n \<and> P i}"
    by (auto simp: le_Suc_eq)
  with False show ?thesis by (simp add: highest_def)
qed

lemma highest_ge: "P i \<Longrightarrow> i \<le> n \<Longrightarrow> i \<le> highest P n"
  by (cases "i = 0") (auto simp: highest_def intro!: Max_ge)

lemma highest_lt: "0 < i \<Longrightarrow> (\<And>j. i \<le> j \<Longrightarrow> j \<le> n \<Longrightarrow> \<not> P j) \<Longrightarrow> highest P n < i"
  unfolding highest_def by (subst Max_less_iff) (simp, simp, metis (mono_tags, lifting) insert_iff leI mem_Collect_eq)

lemma highest_cong: "(\<And>i. 1 \<le> i \<Longrightarrow> i \<le> n \<Longrightarrow> P i = Q i) \<Longrightarrow> highest P n = highest Q n"
  unfolding highest_def by (rule arg_cong [where f = Max]) auto

definition hot_reached :: "sensor_info \<Rightarrow> float32 \<Rightarrow> nat \<Rightarrow> bool" where
  "hot_reached s v i \<longleftrightarrow> f_le (hot_thresholds s i) v"

definition hot_held :: "sensor_info \<Rightarrow> float32 \<Rightarrow> nat \<Rightarrow> bool" where
  "hot_held s v i \<longleftrightarrow> f_less (f_sub (hot_thresholds s i) (hot_hysteresis s i)) v"

definition cold_reached :: "sensor_info \<Rightarrow> float32 \<Rightarrow> nat \<Rightarrow> bool" where
  "cold_reached s v i \<longleftrightarrow> f_le v (cold_thresholds s i)"

definition cold_held :: "sensor_info \<Rightarrow> float32 \<Rightarrow> nat \<Rightarrow> bool" where
  "cold_held s v i \<longleftrightarrow> f_less v (f_add (cold_thresholds s i) (cold_hysteresis s i))"

lemma f_sub_None [simp]: "f_sub None b = None" by (simp add: f_sub_def)
lemma f_add_None [simp]: "f_add None b = None" by (simp add: f_add_def)

lemma severity_loop_highest:
  "severity_loop s v n (h, hh, c, ch) =
     (if h \<noteq> 0 then h else highest (hot_reached s v) n,
      if hh \<noteq> 0 then hh else highest (hot_held s v) n,
      if c \<noteq> 0 then c else highest (cold_reached s v) n,
      if ch \<noteq> 0 then ch else highest (cold_held s v) n)"
proof (induction n arbitrary: h hh c ch)
  case (Suc n)
  have "hot_reached s v i \<longleftrightarrow> hot_thresholds s i \<noteq> None \<and> f_le (hot_thresholds s i) v"
    "hot_held s v i \<longleftrightarrow> hot_thresholds s i \<noteq> None \<and> f_less (f_sub (hot_thresholds s i) (hot_hysteresis s i)) v"
    "cold_reached s v i \<longleftrightarrow> cold_thresholds s i \<noteq> None \<and> f_le v (cold_thresholds s i)"
    "cold_held s v i \<longleftrightarrow> cold_thresholds s i \<noteq> None \<and> f_less v (f_add (cold_thresholds s i) (cold_hysteresis s i))" for i
    by (cases "hot_thresholds s i"; cases "cold_thresholds s i";
        simp add: hot_reached_def hot_held_def cold_reached_def cold_held_def)+
  then show ?case
    by (simp add: severity_body_def Suc.IH NONE_SEVERITY_def)
qed simp

text \<open>
  C24. The severity loop computes what the thresholds specify: the hot severity is the highest
  severity whose threshold the temperature has reached, unless that is below the previous severity,
  and then it is the highest severity whose threshold less its hysteresis the temperature exceeds;
  and the cold severity is the mirror image. The single pass over the seven severities with its four
  accumulators, the NaN thresholds and the order from high to low are all equivalent to these two
  maxima.\<close>

theorem severity_is_highest:
  "getSeverityFromThresholds s prev_hot prev_cold v =
     (let h = highest (hot_reached s v) 6; c = highest (cold_reached s v) 6
      in (if h < prev_hot then highest (hot_held s v) 6 else h,
          if c < prev_cold then highest (cold_held s v) 6 else c))"
  by (simp add: getSeverityFromThresholds_def severity_loop_highest SHUTDOWN_def NONE_SEVERITY_def Let_def
      del: highest_Suc)

lemma hot_severity:
  "fst (getSeverityFromThresholds s ph pc v) =
     (if highest (hot_reached s v) 6 < ph then highest (hot_held s v) 6 else highest (hot_reached s v) 6)"
  by (simp add: getSeverityFromThresholds_def severity_loop_highest SHUTDOWN_def NONE_SEVERITY_def
      del: highest_Suc)

text \<open>
  A sensor is throttled at once and released late. If the temperature has reached the hot
  threshold of a severity at or above the previous one, the new severity is at least that; and while
  the temperature stays above the threshold of the previous severity less its hysteresis, the
  severity does not fall below the previous one.\<close>

theorem severity_rises_at_once_and_holds:
  assumes "i \<le> 6" "prev_hot \<le> 6"
  shows "(prev_hot \<le> i \<and> hot_reached s v i \<longrightarrow> i \<le> fst (getSeverityFromThresholds s prev_hot prev_cold v)) \<and>
         (hot_held s v prev_hot \<longrightarrow> prev_hot \<le> fst (getSeverityFromThresholds s prev_hot prev_cold v))"
proof -
  have "i \<le> highest (hot_reached s v) 6" if "hot_reached s v i" using highest_ge [of _ i] that assms by blast
  moreover have "prev_hot \<le> highest (hot_held s v) 6" if "hot_held s v prev_hot"
    using highest_ge [of _ prev_hot] that assms by blast
  ultimately show ?thesis unfolding hot_severity by (auto simp del: highest_Suc)
qed

text \<open>
  A sensor that cools down to exactly the threshold of a severity is not given that severity
  when the hysteresis is 0, which is the default of the parser: a sensor that was hotter before drops
  below severity \<open>i\<close> at the very temperature that puts a cooler sensor into \<open>i\<close>. The
  comparison without hysteresis is \<open>>=\<close>, the one with hysteresis is \<open>>\<close>.\<close>

theorem exact_threshold_is_missed:
  assumes "1 \<le> i" "i < prev_hot" "prev_hot \<le> 6" "\<forall>j. hot_hysteresis s j = Some 0"
    and "hot_thresholds s i = Some x" "fl32 x = x" "\<forall>j. i < j \<and> j \<le> 6 \<longrightarrow> \<not> f_less (hot_thresholds s j) (Some x)
           \<and> hot_thresholds s j \<noteq> Some x"
    and exact: "\<forall>j y. hot_thresholds s j = Some y \<longrightarrow> fl32 y = y"
  shows "fst (getSeverityFromThresholds s prev_hot prev_cold (Some x)) < i \<and>
         fst (getSeverityFromThresholds s i prev_cold (Some x)) = i"
proof -
  have held: "hot_held s (Some x) j \<longleftrightarrow> f_less (hot_thresholds s j) (Some x)" for j
    using assms(4) exact by (cases "hot_thresholds s j") (auto simp: hot_held_def f_sub_def)
  have above: "\<not> hot_reached s (Some x) j" "\<not> hot_held s (Some x) j" if "i < j" "j \<le> 6" for j
    using assms(7) that
    by (cases "hot_thresholds s j"; fastforce simp: hot_reached_def held)+
  have "highest (hot_reached s (Some x)) 6 < Suc i"
    by (rule highest_lt) (use above in auto)
  moreover have "i \<le> highest (hot_reached s (Some x)) 6"
    using assms(1,2,3,5) by (intro highest_ge) (auto simp: hot_reached_def)
  ultimately have r: "highest (hot_reached s (Some x)) 6 = i" by simp
  have "\<not> hot_held s (Some x) i" using assms(5) by (simp add: held)
  then have "highest (hot_held s (Some x)) 6 < i"
    using assms(1) above by (intro highest_lt) (auto simp: le_less)
  with r assms(2) show ?thesis by (simp add: hot_severity del: highest_Suc)
qed

text \<open>A sensor, for the witnesses: thresholds 37, 39, 42, 45 for LIGHT to CRITICAL.\<close>

definition example_sensor :: "(nat \<Rightarrow> rat) \<Rightarrow> sensor_info" where
  "example_sensor hyst =
     \<lparr>s_type = 3, hot_thresholds = array_of None [None, Some 37, Some 39, Some 42, Some 45],
      cold_thresholds = (\<lambda>_. None), hot_hysteresis = (\<lambda>i. Some (hyst i)), cold_hysteresis = (\<lambda>_. Some 0),
      temp_path = [], vr_threshold = None, multiplier = Some 1, polling_delay = 300000,
      passive_delay = 2000, send_cb = True, send_powerhint = False, is_monitor = True,
      virtual_sensor = None, throttling = pid_info.extend no_pid (throttling_info.fields [])\<rparr>"

lemma example_hot [simp]:
  "hot_thresholds (example_sensor hyst) i =
     (if i = 1 then Some 37 else if i = 2 then Some 39 else if i = 3 then Some 42
      else if i = 4 then Some 45 else None)"
  "hot_hysteresis (example_sensor hyst) i = Some (hyst i)"
proof -
  have "i = 0 \<or> i = 1 \<or> i = 2 \<or> i = 3 \<or> i = 4 \<or> 5 \<le> i" by linarith
  then show "hot_thresholds (example_sensor hyst) i =
     (if i = 1 then Some 37 else if i = 2 then Some 39 else if i = 3 then Some 42
      else if i = 4 then Some 45 else None)"
    by (elim disjE) (simp_all add: example_sensor_def array_of_def)
qed (simp add: example_sensor_def)

theorem severity_rises_at_once_and_holds_witness:
  "3 \<le> fst (getSeverityFromThresholds (example_sensor (\<lambda>_. 2)) 1 0 (Some 43)) \<and>
   3 \<le> fst (getSeverityFromThresholds (example_sensor (\<lambda>_. 2)) 3 0 (Some 41))"
  using severity_rises_at_once_and_holds [of 3 1 "example_sensor (\<lambda>_. 2)" "Some 43" 0]
    severity_rises_at_once_and_holds [of 3 3 "example_sensor (\<lambda>_. 2)" "Some 41" 0]
  by (simp add: hot_reached_def hot_held_def f_sub_def)

theorem exact_threshold_is_missed_witness:
  "fst (getSeverityFromThresholds (example_sensor (\<lambda>_. 0)) 3 0 (Some 39)) < 2 \<and>
   fst (getSeverityFromThresholds (example_sensor (\<lambda>_. 0)) 2 0 (Some 39)) = 2"
  by (rule exact_threshold_is_missed) (auto split: if_splits)

text \<open>
  Cooling down can raise the severity. When the temperature falls below the threshold of the
  previous severity, the loop takes the highest severity that is within its hysteresis, and that may
  be a higher one: with thresholds 39 and 42 and hysteresis 1 and 10 for MODERATE and SEVERE, a
  sensor at MODERATE that cools to 38.5 degrees becomes SEVERE.
\<close>

theorem cooling_can_raise_severity:
  "fst (getSeverityFromThresholds (example_sensor (\<lambda>i. if i = 3 then 10 else 1)) 1 0 (Some 40)) = 2 \<and>
   fst (getSeverityFromThresholds (example_sensor (\<lambda>i. if i = 3 then 10 else 1)) 2 0 (Some (77 / 2))) = 3"
  by (simp add: hot_severity eval_nat_numeral hot_reached_def hot_held_def f_sub_def)

section \<open>The power budget\<close>

text \<open>The integral term once the error is added, when it is added, and the sum of the terms.\<close>

definition next_term :: "throttling_info \<Rightarrow> nat \<Rightarrow> float32 \<Rightarrow> float32 \<Rightarrow> float32" where
  "next_term ti k integral err = f_add (f_mul integral (k_i ti k)) (f_mul err (k_i ti k))"

definition integrates :: "throttling_info \<Rightarrow> nat \<Rightarrow> float32 \<Rightarrow> float32 \<Rightarrow> bool" where
  "integrates ti k integral err \<longleftrightarrow>
     f_less err (i_cutoff ti k) \<and> f_less (f_abs (next_term ti k integral err)) (i_max ti k)"

definition pid_sum :: "throttling_info \<Rightarrow> nat \<Rightarrow> sensor_status \<Rightarrow> float32 \<Rightarrow> int \<Rightarrow> float32" where
  "pid_sum ti k st err el =
     (let p = f_mul err (if f_less err (Some 0) then k_po ti k else k_pu ti k);
          i = (if integrates ti k (err_integral st) err then next_term ti k (err_integral st) err
               else f_mul (err_integral st) (k_i ti k));
          d = (if prev_err st = None \<or> el = 0 then Some 0
               else f_div (f_mul (k_d ti k) (f_sub err (prev_err st))) (of_ms el))
      in f_add (f_add (f_add (s_power ti k) p) i) d)"

lemma f_numbers:
  "f_add x y \<noteq> None \<longleftrightarrow> x \<noteq> None \<and> y \<noteq> None" "f_sub x y \<noteq> None \<longleftrightarrow> x \<noteq> None \<and> y \<noteq> None"
  "f_mul x y \<noteq> None \<longleftrightarrow> x \<noteq> None \<and> y \<noteq> None" "f_div x y \<noteq> None \<longleftrightarrow> x \<noteq> None \<and> y \<noteq> None \<and> y \<noteq> Some 0"
  by (cases x; cases y; simp add: f_add_def f_sub_def f_mul_def f_div_def)+

lemma pid_sum_number:
  assumes "err \<noteq> None" "s_power ti k \<noteq> None" "k_po ti k \<noteq> None" "k_pu ti k \<noteq> None" "k_i ti k \<noteq> None" "k_d ti k \<noteq> None"
    "err_integral st \<noteq> None"
  shows "pid_sum ti k st err el \<noteq> None"
proof -
  have "of_ms el \<noteq> Some 0" if "el \<noteq> 0" using that fl32_of_int_nonzero by (simp add: of_ms_def)
  moreover have "of_ms el \<noteq> None" by (simp add: of_ms_def)
  ultimately show ?thesis
    using assms unfolding pid_sum_def Let_def by (simp only: f_numbers next_term_def split: if_splits) auto
qed

lemma pid_calculator_sum:
  assumes "k \<noteq> 0" "cur_severity st \<noteq> 0"
  shows "pidPowerCalculator v si st el k =
    (clamp_power (throttling si) k (pid_sum (throttling si) k st (f_sub (hot_thresholds si k) v) el),
     st\<lparr>err_integral := (if integrates (throttling si) k (err_integral st) (f_sub (hot_thresholds si k) v)
           then f_add (err_integral st) (f_sub (hot_thresholds si k) v) else err_integral st),
        prev_err := f_sub (hot_thresholds si k) v\<rparr>)"
  using assms by (simp add: pidPowerCalculator_def NONE_SEVERITY_def pid_integral_def pid_sum_def integrates_def
      next_term_def Let_def)

text \<open>
  C35. The power budget of the PID controller is the sum of its terms kept within the limits of the
  configuration. For a target state whose minimum does not exceed its maximum, and in any severity but
  NONE, the budget lies between the two whatever the temperature, the integral, the elapsed time and the
  gains, and it is a number unless the temperature, the threshold, a gain, the sustainable power or the
  integral is NaN (in single precision of unbounded exponent). The error is added to the integral, once,
  exactly when it is below the cutoff and leaves the integral term below its limit in magnitude, so that
  the controller does not wind up; otherwise the integral stays as it was.\<close>

theorem pid_budget_within_limits:
  assumes "min_alloc_power (throttling si) k = Some lo" "max_alloc_power (throttling si) k = Some hi"
    and "lo \<le> hi" "k \<noteq> 0" "cur_severity st \<noteq> 0" "err = f_sub (hot_thresholds si k) v"
    and "pidPowerCalculator v si st el k = (budget, st')"
  shows "budget = map_option (\<lambda>s. max lo (min hi s)) (pid_sum (throttling si) k st err el) \<and>
         (case budget of None \<Rightarrow> True | Some b \<Rightarrow> lo \<le> b \<and> b \<le> hi) \<and>
         (v \<noteq> None \<and> hot_thresholds si k \<noteq> None \<and> s_power (throttling si) k \<noteq> None \<and> k_po (throttling si) k \<noteq> None \<and>
            k_pu (throttling si) k \<noteq> None \<and> k_i (throttling si) k \<noteq> None \<and> k_d (throttling si) k \<noteq> None \<and>
            err_integral st \<noteq> None \<longrightarrow> budget \<noteq> None) \<and>
         prev_err st' = err \<and>
         err_integral st' = (if f_less err (i_cutoff (throttling si) k) \<and>
             f_less (f_abs (next_term (throttling si) k (err_integral st) err)) (i_max (throttling si) k)
           then f_add (err_integral st) err else err_integral st)"
proof -
  let ?ti = "throttling si"
  have r: "budget = clamp_power ?ti k (pid_sum ?ti k st err el)"
      "st' = st\<lparr>err_integral := (if integrates ?ti k (err_integral st) err then f_add (err_integral st) err
           else err_integral st), prev_err := err\<rparr>"
    using pid_calculator_sum [OF assms(4,5), of v si el] assms(6,7) by auto
  have c: "clamp_power ?ti k x = map_option (\<lambda>s. max lo (min hi s)) x" for x
    using assms(1-3) by (cases x) (auto simp: clamp_power_def Let_def)
  have "v \<noteq> None \<and> hot_thresholds si k \<noteq> None \<Longrightarrow> err \<noteq> None" by (simp only: assms(6) f_numbers) simp
  then have "v \<noteq> None \<and> hot_thresholds si k \<noteq> None \<and> s_power ?ti k \<noteq> None \<and> k_po ?ti k \<noteq> None \<and> k_pu ?ti k \<noteq> None \<and>
      k_i ?ti k \<noteq> None \<and> k_d ?ti k \<noteq> None \<and> err_integral st \<noteq> None \<longrightarrow> budget \<noteq> None"
    using pid_sum_number [of err ?ti k st el] unfolding r(1) c by blast
  moreover have "case budget of None \<Rightarrow> True | Some b \<Rightarrow> lo \<le> b \<and> b \<le> hi"
    using assms(3) by (auto simp: r(1) c split: option.split)
  ultimately show ?thesis by (simp add: r integrates_def c)
qed

definition example_status :: sensor_status where
  "example_status =
     \<lparr>cur_severity = 0, prev_hot_severity = 0, prev_cold_severity = 0, prev_hint_severity = 0,
      last_update_time = None, pid_request_map = [], hard_limit_request_map = [],
      err_integral = Some 0, prev_err = None\<rparr>"

definition example_pid :: pid_info where
  "example_pid = no_pid\<lparr>k_po := (\<lambda>_. Some 100), k_pu := (\<lambda>_. Some 200), i_max := (\<lambda>_. Some 500),
     max_alloc_power := (\<lambda>_. Some 4000), min_alloc_power := (\<lambda>_. Some 1000),
     s_power := (\<lambda>_. Some 2000), i_cutoff := (\<lambda>_. Some 1)\<rparr>"

theorem pid_budget_within_limits_witness:
  "\<exists>b. fst (pidPowerCalculator (Some 80)
      (example_sensor (\<lambda>_. 2)\<lparr>throttling := pid_info.extend example_pid (throttling_info.fields [])\<rparr>)
      (example_status\<lparr>cur_severity := 3\<rparr>) 2000 3) = Some b \<and> 1000 \<le> b \<and> b \<le> 4000"
proof -
  let ?si = "example_sensor (\<lambda>_. 2)\<lparr>throttling := pid_info.extend example_pid (throttling_info.fields [])\<rparr>"
  let ?st = "example_status\<lparr>cur_severity := 3\<rparr>"
  obtain budget st' where p: "pidPowerCalculator (Some 80) ?si ?st 2000 3 = (budget, st')" by fastforce
  have hot: "hot_thresholds ?si 3 = Some 42" by (simp add: example_sensor_def array_of_def)
  have lim: "min_alloc_power (throttling ?si) 3 = Some 1000" "max_alloc_power (throttling ?si) 3 = Some 4000"
      "(1000 :: rat) \<le> 4000" "(3 :: nat) \<noteq> 0" "cur_severity ?st \<noteq> 0"
    by (simp_all add: pid_info.extend_def example_pid_def no_pid_def)
  note b = conjunct2 [OF pid_budget_within_limits [OF lim refl p]]
  have "budget \<noteq> None"
    by (rule b [THEN conjunct2, THEN conjunct1, THEN mp])
      (simp add: hot pid_info.extend_def example_pid_def no_pid_def example_status_def)
  moreover note conjunct1 [OF b]
  ultimately show ?thesis using p by auto
qed

section \<open>The files of the cooling devices\<close>

text \<open>What was last to be written to the file of a device, whether that succeeded, and what the file
  shows: the last text that was written to it. Before the first write this is "0", the state the
  devices have at the start.\<close>

fun asked_in :: "effect list \<Rightarrow> string \<Rightarrow> string" where
  "asked_in [] c = to_dec 0"
| "asked_in (WriteCdev c' p text ok # es) c = (if c' = c then text else asked_in es c)"
| "asked_in (_ # es) c = asked_in es c"

definition asked :: "helper \<Rightarrow> string \<Rightarrow> string" where
  "asked h c = asked_in (rev (effects h)) c"

fun write_ok_in :: "effect list \<Rightarrow> string \<Rightarrow> bool" where
  "write_ok_in [] c = True"
| "write_ok_in (WriteCdev c' p text ok # es) c = (if c' = c then ok else write_ok_in es c)"
| "write_ok_in (_ # es) c = write_ok_in es c"

fun shown_in :: "effect list \<Rightarrow> string \<Rightarrow> string" where
  "shown_in [] c = to_dec 0"
| "shown_in (WriteCdev c' p text ok # es) c = (if c' = c \<and> ok then text else shown_in es c)"
| "shown_in (_ # es) c = shown_in es c"

definition write_ok :: "helper \<Rightarrow> string \<Rightarrow> bool" where
  "write_ok h c = write_ok_in (rev (effects h)) c"

definition shown :: "helper \<Rightarrow> string \<Rightarrow> string" where
  "shown h c = shown_in (rev (effects h)) c"

lemma shown_asked: "write_ok h c \<Longrightarrow> shown h c = asked h c"
proof -
  have "write_ok_in es c \<Longrightarrow> shown_in es c = asked_in es c" for es
    by (induction es c rule: shown_in.induct) auto
  then show "write_ok h c \<Longrightarrow> shown h c = asked h c" by (simp add: write_ok_def shown_def asked_def)
qed

definition files_match :: "helper \<Rightarrow> bool" where
  "files_match h \<longleftrightarrow>
     (\<forall>c reqs. map_of (cdev_status_map h) c = Some reqs \<longrightarrow> asked h c = int_to_dec (max_request reqs))"

text \<open>A pass over the sensors touches only the requests of the devices it lists, and writes
  nothing.\<close>

definition requests_kept :: "helper \<Rightarrow> helper \<Rightarrow> string list \<Rightarrow> bool" where
  "requests_kept h h' cs \<longleftrightarrow>
     effects h' = effects h \<and> hal h' = hal h \<and> cooling_devices h' = cooling_devices h \<and>
     sensor_info_map h' = sensor_info_map h \<and> supported_powerhint_map h' = supported_powerhint_map h \<and>
     map fst (cdev_status_map h') = map fst (cdev_status_map h) \<and>
     map fst (sensor_status_map h') = map fst (sensor_status_map h) \<and>
     (\<forall>c. c \<notin> set cs \<longrightarrow> map_of (cdev_status_map h') c = map_of (cdev_status_map h) c) \<and>
     set cs \<subseteq> fst ` set (cdev_status_map h)"

lemma update_same: "map_of m k = Some v \<Longrightarrow> AList.update k v m = m"
  by (induction m) (auto split: if_splits)

lemma compute_loop_keys:
  "compute_loop h n si st cs = Some (cs', upd) \<Longrightarrow> map fst cs' = map fst cs \<and> set upd \<subseteq> fst ` set cs"
proof (induction cs arbitrary: cs' upd)
  case (Cons x cs)
  then show ?case by (cases x) (auto split: option.splits if_splits simp: bind_eq_Some_conv)
qed simp

lemma compute_loop_others:
  "compute_loop h n si st cs = Some (cs', upd) \<Longrightarrow> distinct (map fst cs) \<Longrightarrow> c \<notin> set upd \<Longrightarrow>
     map_of cs' c = map_of cs c"
proof (induction cs arbitrary: cs' upd)
  case (Cons x cs)
  obtain c0 reqs where x: "x = (c0, reqs)" by (cases x)
  show ?case
  proof (cases "map_of reqs n")
    case None
    with Cons x show ?thesis by (auto simp: bind_eq_Some_conv)
  next
    case (Some old)
    with Cons.prems x obtain r cs1 upd1 where
      1: "compute_loop h n si st cs = Some (cs1, upd1)" "cs' = (c0, AList.update n r reqs) # cs1"
        "upd = (if old \<noteq> r then c0 # upd1 else upd1)"
      by (auto simp: bind_eq_Some_conv)
    have "map_of cs1 c = map_of cs c"
      using Cons.IH [OF 1(1)] Cons.prems(2,3) 1(3) x by (auto split: if_splits)
    with 1 x Some Cons.prems(3) show ?thesis by (auto simp: update_same split: if_splits)
  qed
qed simp

lemma requests_kept_refl: "requests_kept h h []"
  by (simp add: requests_kept_def)

lemma requests_kept_trans:
  assumes "requests_kept h h1 cs" "requests_kept h1 h2 ds"
  shows "requests_kept h h2 (cs @ ds)"
proof -
  have "fst ` set (cdev_status_map h1) = fst ` set (cdev_status_map h)"
    using assms(1) by (metis requests_kept_def set_map)
  with assms show ?thesis by (auto simp: requests_kept_def)
qed

lemma release_loop_kept:
  "release_loop read n sev el ch bs h rails = Some (h', rails') \<Longrightarrow>
     \<exists>pf. h' = h\<lparr>h_power_files := pf\<rparr>"
proof (induction bs arbitrary: h rails)
  case Nil
  then show ?case by (intro exI [of _ "h_power_files h"]) simp
next
  case (Cons x bs)
  obtain c b where x: "x = (c, b)" by (cases x)
  show ?case
  proof (cases "power_rail b = []")
    case True
    with Cons x show ?thesis by simp
  next
    case False
    with Cons.prems x obtain pf rails1 where
      "release_loop read n sev el ch bs (h\<lparr>h_power_files := pf\<rparr>) rails1 = Some (h', rails')"
      by (auto simp: bind_eq_Some_conv)
    from Cons.IH [OF this] show ?thesis by auto
  qed
qed

lemma aggregate_kept:
  assumes "aggregate_stage read n si st el ch h rails = Some (h', rails', upd)"
    and "distinct (map fst (cdev_status_map h))"
  shows "requests_kept h h' upd"
proof (cases "pid_request_map st = [] \<and> hard_limit_request_map st = []")
  case True
  with assms show ?thesis by (simp add: aggregate_stage_def requests_kept_refl)
next
  case False
  with assms(1) obtain h1 where h1: "computeCoolingDevicesRequest n si st h1 = Some (h', upd)"
    and "(\<exists>pf. h1 = h\<lparr>h_power_files := pf\<rparr>)"
    by (fastforce simp: aggregate_stage_def bind_eq_Some_conv dest: release_loop_kept split: if_splits)
  then obtain pf cs where pf: "h1 = h\<lparr>h_power_files := pf\<rparr>"
    and cs: "compute_loop h1 n si st (cdev_status_map h) = Some (cs, upd)" "h' = h1\<lparr>cdev_status_map := cs\<rparr>"
    by (auto simp: computeCoolingDevicesRequest_def bind_eq_Some_conv)
  from pf cs compute_loop_keys [OF cs(1)] compute_loop_others [OF cs(1) assms(2)] show ?thesis
    by (auto simp: requests_kept_def)
qed

lemma change_status_kept [simp]:
  "cdev_status_map (change_status n f h) = cdev_status_map h" "effects (change_status n f h) = effects h"
  "hal (change_status n f h) = hal h" "cooling_devices (change_status n f h) = cooling_devices h"
  "sensor_info_map (change_status n f h) = sensor_info_map h"
  "supported_powerhint_map (change_status n f h) = supported_powerhint_map h"
  "map fst (sensor_status_map (change_status n f h)) = map fst (sensor_status_map h)"
proof -
  have "map fst (AList.map_entry n f xs) = map fst xs" for xs :: "(string \<times> sensor_status) list"
    by (induction xs) auto
  then show "map fst (sensor_status_map (change_status n f h)) = map fst (sensor_status_map h)"
    by (simp add: change_status_def)
qed (simp_all add: change_status_def)

lemma watch_sensor_cases:
  assumes "watch_sensor read now uevents n (h, r) = Some (h', r')"
  obtains (idle) ms where "h' = h" "r' = r\<lparr>min_sleep := ms\<rparr>"
  | (read) st si el t hot cold st2 st3 h1 rails upd where
      "map_of (sensor_status_map h) n = Some st" "map_of (sensor_info_map h) n = Some si" "is_monitor si"
      "update_due h now uevents n si st = Some (el, True)"
      "readTemperature read h n (virtual_sensor si \<noteq> None) = Some (Some (t, hot, cold))"
      "pid_stage h (t_value t) el si (st\<lparr>prev_hot_severity := hot, prev_cold_severity := cold,
          cur_severity := throttling_status t\<rparr>) = Some st2"
      "limit_stage si st2 = Some st3"
      "aggregate_stage read n si st3 el (throttling_status t \<noteq> cur_severity st) h (updated_rails r) =
         Some (h1, rails, upd)"
      "h' = change_status n (\<lambda>_. st3\<lparr>last_update_time := Some now\<rparr>) h1"
      "r' = r\<lparr>temps := (if throttling_status t \<noteq> cur_severity st then temps r @ [t] else temps r),
              to_update := to_update r @ upd, updated_rails := rails,
              min_sleep := min (min_sleep r) (sleep_of si (throttling_status t))\<rparr>"
proof -
  from assms obtain st si where s: "map_of (sensor_status_map h) n = Some st"
      "map_of (sensor_info_map h) n = Some si"
    by (auto simp: watch_sensor_def bind_eq_Some_conv)
  show thesis
  proof (cases "is_monitor si")
    case False
    with assms s show ?thesis by (intro idle [of "min_sleep r"]) (auto simp: watch_sensor_def)
  next
    case True
    with assms s obtain el due where due: "update_due h now uevents n si st = Some (el, due)"
      by (auto simp: watch_sensor_def bind_eq_Some_conv)
    show ?thesis
    proof (cases due)
      case False
      with assms s True due show ?thesis by (intro idle) (auto simp: watch_sensor_def)
    next
      case 2: True
      with assms s True due obtain reading where
        rd: "readTemperature read h n (virtual_sensor si \<noteq> None) = Some reading"
        by (auto simp: watch_sensor_def bind_eq_Some_conv)
      show ?thesis
      proof (cases reading)
        case None
        with assms s True due 2 rd show ?thesis
          by (intro idle [of "min_sleep r"]) (auto simp: watch_sensor_def)
      next
        case (Some thc)
        obtain t hot cold where "thc = (t, hot, cold)" by (cases thc)
        with assms s True due 2 rd Some show ?thesis
          by (auto simp: watch_sensor_def bind_eq_Some_conv Let_def intro: read)
      qed
    qed
  qed
qed

lemma watch_sensor_kept:
  assumes "watch_sensor read now uevents n (h, r) = Some (h', r')" "distinct (map fst (cdev_status_map h))"
  shows "\<exists>upd. requests_kept h h' upd \<and> to_update r' = to_update r @ upd"
  using assms(1)
proof (cases rule: watch_sensor_cases)
  case (idle ms)
  then show ?thesis using requests_kept_refl by (intro exI [of _ "[]"]) simp
next
  case (read st si el t hot cold st2 st3 h1 rails upd)
  then have "requests_kept h h1 upd" using aggregate_kept assms(2) by blast
  with read show ?thesis by (intro exI [of _ upd]) (simp add: requests_kept_def del: map_map)
qed

lemma watch_loop_kept:
  "watch_loop read now uevents ns (h, r) = Some (h', r') \<Longrightarrow> distinct (map fst (cdev_status_map h)) \<Longrightarrow>
     \<exists>upd. requests_kept h h' upd \<and> to_update r' = to_update r @ upd"
proof (induction ns arbitrary: h r)
  case Nil
  then show ?case using requests_kept_refl by (intro exI [of _ "[]"]) simp
next
  case (Cons n ns)
  then obtain h1 r1 where 1: "watch_sensor read now uevents n (h, r) = Some (h1, r1)"
      "watch_loop read now uevents ns (h1, r1) = Some (h', r')"
    by (auto simp: bind_eq_Some_conv)
  from watch_sensor_kept [OF 1(1) Cons.prems(2)] obtain upd where
    u: "requests_kept h h1 upd" "to_update r1 = to_update r @ upd" by blast
  then have "distinct (map fst (cdev_status_map h1))" using Cons.prems(2) by (simp add: requests_kept_def)
  from Cons.IH [OF 1(2) this] obtain upd' where
    "requests_kept h1 h' upd'" "to_update r' = to_update r1 @ upd'" by blast
  with u requests_kept_trans show ?case by (metis append.assoc)
qed

lemma asked_emit [simp]:
  "asked (emit (WriteCdev c' p text ok) h) c = (if c' = c then text else asked h c)"
  "asked (emit (Notify t) h) c = asked h c" "asked (emit (SetMode n sev b) h) c = asked h c"
  by (simp_all add: asked_def emit_def)

lemma emit_simps [simp]:
  "cdev_status_map (emit e h) = cdev_status_map h" "sensor_status_map (emit e h) = sensor_status_map h"
  "sensor_info_map (emit e h) = sensor_info_map h" "hal (emit e h) = hal h"
  "supported_powerhint_map (emit e h) = supported_powerhint_map h" "effects (emit e h) = effects h @ [e]"
  by (simp_all add: emit_def)

lemma update_devices_spec:
  "updateCoolingDevices wr cs h = Some h' \<Longrightarrow>
     cdev_status_map h' = cdev_status_map h \<and> sensor_status_map h' = sensor_status_map h \<and>
     (\<forall>c. asked h' c = (if c \<in> set cs then int_to_dec (max_request (the (map_of (cdev_status_map h) c)))
                    else asked h c))"
proof (induction cs arbitrary: h)
  case (Cons c cs)
  then obtain reqs where c: "map_of (cdev_status_map h) c = Some reqs"
    and r: "updateCoolingDevices wr cs (snd (writeCdevFile wr c (int_to_dec (max_request reqs)) h)) = Some h'"
    by (auto simp: bind_eq_Some_conv)
  from Cons.IH [OF r] c show ?case by (auto simp: writeCdevFile_def Let_def)
qed simp

text \<open>Reporting adds no writes.\<close>

lemma setMode_hint_spec:
  "setMode_hint ok n sev b h = Some h' \<Longrightarrow>
     cdev_status_map h' = cdev_status_map h \<and> asked h' = asked h \<and> sensor_status_map h' = sensor_status_map h \<and>
     sensor_info_map h' = sensor_info_map h \<and> supported_powerhint_map h' = supported_powerhint_map h"
  by (auto simp: setMode_hint_def drop_hal_def asked_def fun_eq_iff emit_def split: if_splits)

lemma asked_change_status [simp]: "asked (change_status n f h) = asked h"
  by (simp add: asked_def fun_eq_iff)

lemma switch_hint_spec:
  "switch_hint ok n sev e h = Some h' \<Longrightarrow>
     cdev_status_map h' = cdev_status_map h \<and> asked h' = asked h \<and> sensor_status_map h' = sensor_status_map h \<and>
     sensor_info_map h' = sensor_info_map h \<and> supported_powerhint_map h' = supported_powerhint_map h"
  using setMode_hint_spec by (auto simp: switch_hint_def split: if_splits)

lemma sendPowerExtHint_cases:
  assumes "sendPowerExtHint ok t h = Some h'"
  obtains (same) st where "map_of (sensor_status_map h) (t_name t) = Some st"
      "prev_hint_severity st = supported_powerhint_map h (t_name t) (throttling_status t)" "h' = h"
  | (change) st h1 h2 cur where "map_of (sensor_status_map h) (t_name t) = Some st"
      "prev_hint_severity st \<noteq> cur" "switch_hint ok (t_name t) (prev_hint_severity st) False h = Some h1"
      "switch_hint ok (t_name t) cur True h1 = Some h2"
      "h' = change_status (t_name t) (\<lambda>st. st\<lparr>prev_hint_severity := cur\<rparr>) h2"
proof -
  from assms obtain st where st: "map_of (sensor_status_map h) (t_name t) = Some st"
    by (auto simp: sendPowerExtHint_def bind_eq_Some_conv)
  show thesis
  proof (cases "prev_hint_severity st = supported_powerhint_map h (t_name t) (throttling_status t)")
    case True
    with assms st show ?thesis by (intro same [OF st]) (simp_all add: sendPowerExtHint_def)
  next
    case False
    with assms st obtain h1 h2 where
      "switch_hint ok (t_name t) (prev_hint_severity st) False h = Some h1"
      "switch_hint ok (t_name t) (supported_powerhint_map h (t_name t) (throttling_status t)) True h1 = Some h2"
      "h' = change_status (t_name t)
         (\<lambda>st. st\<lparr>prev_hint_severity := supported_powerhint_map h (t_name t) (throttling_status t)\<rparr>) h2"
      by (auto simp: sendPowerExtHint_def bind_eq_Some_conv Let_def)
    with False show ?thesis by (intro change [OF st]) auto
  qed
qed

lemma sendPowerExtHint_spec:
  assumes "sendPowerExtHint ok t h = Some h'"
  shows "cdev_status_map h' = cdev_status_map h \<and> asked h' = asked h \<and> sensor_info_map h' = sensor_info_map h"
  using assms
proof (cases rule: sendPowerExtHint_cases)
  case (change st h1 h2 cur)
  with switch_hint_spec [OF change(3)] switch_hint_spec [OF change(4)] show ?thesis by simp
qed simp

lemma report_one_spec:
  assumes "report_one cb ok t h = Some h'"
  shows "cdev_status_map h' = cdev_status_map h \<and> asked h' = asked h"
proof -
  obtain si h1 where h1: "h1 = h \<or> h1 = emit (Notify t) h"
    and h': "h' = h1 \<or> sendPowerExtHint ok t h1 = Some h'"
    using assms by (auto simp: report_one_def bind_eq_Some_conv Let_def split: if_splits)
  have "cdev_status_map h1 = cdev_status_map h \<and> asked h1 = asked h" using h1 by (auto simp: fun_eq_iff)
  with h' sendPowerExtHint_spec [of ok t h1 h'] show ?thesis by auto
qed

lemma report_loop_spec:
  "report_loop cb ok ts h = Some h' \<Longrightarrow> cdev_status_map h' = cdev_status_map h \<and> asked h' = asked h"
proof (induction ts arbitrary: h)
  case (Cons t ts)
  then obtain h1 where "report_one cb ok t h = Some h1" "report_loop cb ok ts h1 = Some h'"
    by (auto simp: bind_eq_Some_conv)
  with Cons.IH report_one_spec show ?case by metis
qed simp

lemma callback_cases:
  assumes "thermalWatcherCallbackFunc read now uevents cb ok wr h = Some (h', ms)"
  obtains h1 r h2 h3 where
    "watch_loop read now uevents (map fst (sensor_status_map h))
       (h, \<lparr>temps = [], to_update = [], updated_rails = [], min_sleep = max_ms\<rparr>) = Some (h1, r)"
    "updateCoolingDevices wr (to_update r) h1 = Some h2" "report_loop cb ok (temps r) h2 = Some h3"
    "h' = h3\<lparr>h_power_files := clearEnergyInfoMap (h_power_files h3)\<rparr>"
    "ms = (if min_sleep r < kMinPollIntervalMs then kMinPollIntervalMs else min_sleep r)"
  using assms by (auto simp: thermalWatcherCallbackFunc_def bind_eq_Some_conv)

lemma callback_files:
  assumes "thermalWatcherCallbackFunc read now uevents cb ok wr h = Some (h', ms)"
    and "files_match h" "distinct (map fst (cdev_status_map h))"
  shows "files_match h' \<and> distinct (map fst (cdev_status_map h'))"
  using assms(1)
proof (cases rule: callback_cases)
  case (1 h1 r h2 h3)
  from watch_loop_kept [OF 1(1) assms(3)] have k: "requests_kept h h1 (to_update r)" by auto
  have same: "asked h1 = asked h" using k by (simp add: requests_kept_def asked_def fun_eq_iff)
  from update_devices_spec [OF 1(2)] report_loop_spec [OF 1(3)] have
    s: "cdev_status_map h3 = cdev_status_map h1"
      "\<And>c. asked h3 c = (if c \<in> set (to_update r)
             then int_to_dec (max_request (the (map_of (cdev_status_map h1) c))) else asked h c)"
    by (simp_all add: same)
  have "asked h3 c = int_to_dec (max_request reqs)" if "map_of (cdev_status_map h1) c = Some reqs" for c reqs
    using that s(2) [of c] k assms(2) by (auto simp: files_match_def requests_kept_def)
  then have "files_match h3" by (simp add: files_match_def s(1))
  moreover have "asked h' = asked h3" "cdev_status_map h' = cdev_status_map h3"
    using 1(4) by (simp_all add: asked_def fun_eq_iff)
  moreover have "distinct (map fst (cdev_status_map h1))" using k assms(3) by (simp add: requests_kept_def)
  ultimately show ?thesis by (simp add: files_match_def s(1))
qed

text \<open>Any number of callbacks, at any times and with any readings.\<close>

inductive watching :: "helper \<Rightarrow> helper \<Rightarrow> bool" where
  start: "watching h h"
| callback: "watching h h1 \<Longrightarrow> thermalWatcherCallbackFunc read now uevents cb ok wr h1 = Some (h2, ms) \<Longrightarrow> watching h h2"

definition all_zero :: "helper \<Rightarrow> bool" where
  "all_zero h \<longleftrightarrow> (\<forall>(c, reqs)\<in>set (cdev_status_map h). \<forall>(n, r)\<in>set reqs. r = 0)"

lemma max_request_zero: "\<forall>(n, r)\<in>set reqs. r = 0 \<Longrightarrow> max_request reqs = 0"
  by (induction reqs) (auto simp: max_request_def)

lemma max_request_Max: "max_request reqs = Max (insert 0 (snd ` set reqs))"
proof -
  have "fold (\<lambda>(_, r) m. if r > m then r else m) reqs a = Max (insert a (snd ` set reqs))" for a :: int
  proof (induction reqs arbitrary: a)
    case (Cons x reqs)
    have "Max (insert a (insert (snd x) (snd ` set reqs))) = Max (insert (max a (snd x)) (snd ` set reqs))"
    proof (cases "snd ` set reqs = {}")
      case False
      then show ?thesis by (simp add: max.assoc)
    qed simp
    with Cons show ?case by (auto simp: split_beta max_def)
  qed simp
  then show ?thesis by (simp add: max_request_def)
qed

lemma watching_files:
  assumes "watching h0 h" "effects h0 = []" "all_zero h0" "distinct (map fst (cdev_status_map h0))"
    and "map_of (cdev_status_map h) c = Some reqs"
  shows "asked h c = int_to_dec (Max (insert 0 (snd ` set reqs)))"
proof -
  from assms(1-4) have "files_match h \<and> distinct (map fst (cdev_status_map h))"
  proof (induction rule: watching.induct)
    case (start h)
    have "asked h c = int_to_dec (max_request reqs)" if "map_of (cdev_status_map h) c = Some reqs" for c reqs
      using start map_of_SomeD [OF that] max_request_zero [of reqs]
      by (auto simp: asked_def all_zero_def int_to_dec_def)
    with start show ?case by (simp add: files_match_def)
  next
    case (callback h h1 read now uevents cb ok wr h2 ms)
    then show ?case using callback_files by blast
  qed
  with assms(5) show ?thesis by (simp add: files_match_def max_request_Max)
qed

definition hint_of :: "helper \<Rightarrow> string \<Rightarrow> severity option" where
  "hint_of h n = map_option prev_hint_severity (map_of (sensor_status_map h) n)"

text \<open>A sensor that limits one device, for the witnesses.\<close>

definition example_binding :: binded_cdev_info where
  "example_binding =
     \<lparr>limit_info = (\<lambda>i. int i), power_thresholds = (\<lambda>_. None), b_release_logic = NONE,
      cdev_weight_for_pid = (\<lambda>_. None), cdev_ceiling = (\<lambda>_. 5), cdev_floor_with_power_link = (\<lambda>_. 0),
      power_rail = [], high_power_check = False, throttling_with_power_link = False\<rparr>"

definition skin_sensor :: sensor_info where
  "skin_sensor = (example_sensor (\<lambda>_. 2))
     \<lparr>throttling := pid_info.extend no_pid (throttling_info.fields [(''cpu'', example_binding)]),
      send_powerhint := True\<rparr>"

definition example_helper :: helper where
  "example_helper =
     \<lparr>sensor_info_map = [(''skin'', skin_sensor)],
      cooling_device_info_map = [(''cpu'', \<lparr>c_type = 0, read_path = [], write_path = [], state2power = [], max_state = 5\<rparr>)],
      power_rail_info_map = [], supported_powerhint_map = (\<lambda>_ sev. sev), thermal_sensors = [(''skin'', ''t'')],
      cooling_devices = [(''cpu_w'', ''c'')],
      sensor_status_map = [(''skin'', example_status\<lparr>hard_limit_request_map := [(''cpu'', 0)]\<rparr>)],
      cdev_status_map = [(''cpu'', [(''skin'', 0)])],
      h_power_files = \<lparr>energy_info_map = [], throttling_release_map = [], power_status_map = [], energy_path_set = []\<rparr>,
      hal = \<lparr>power_hal_aidl_exist = True, hal_connected = True, ext_connected = True\<rparr>, effects = []\<rparr>"

lemma skin_severity:
  "severity_loop skin_sensor (Some 45) 6 (0, 0, 0, 0) = (4, 4, 0, 0)"
  by (simp add: severity_loop_highest eval_nat_numeral hot_reached_def hot_held_def cold_reached_def
      cold_held_def f_sub_def skin_sensor_def example_sensor_def array_of_def)

lemma example_reading:
  "readTemperature (\<lambda>_. Some ''45'') example_helper ''skin'' False =
     Some (Some (\<lparr>t_type = 3, t_name = ''skin'', t_value = Some 45, throttling_status = 4\<rparr>, 4, 0))"
proof -
  have "''45'' = to_dec 45" by code_simp
  then have st: "stof ''45'' = Some (Some 45)" using stof_to_dec [of 45] by simp
  have sev: "getSeverityFromThresholds skin_sensor 0 0 (Some 45) = (4, 0)"
    by (simp add: getSeverityFromThresholds_def SHUTDOWN_def NONE_SEVERITY_def skin_severity)
  have skin: "multiplier skin_sensor = Some 1" "s_type skin_sensor = 3" "is_monitor skin_sensor"
    by (simp_all add: skin_sensor_def example_sensor_def)
  show ?thesis
    by (simp add: readTemperature_def read_text_def readThermalFile_def getThermalFilePath_def example_helper_def
        trim_def is_space_def st f_mul_def sev skin example_status_def Let_def)
qed

lemma example_callback:
  "\<exists>h ms. thermalWatcherCallbackFunc (\<lambda>_. Some ''45'') 0 [] True (\<lambda>_ _ _. True) (\<lambda>_ _ _. True) example_helper = Some (h, ms) \<and>
     cdev_status_map h = [(''cpu'', [(''skin'', 4)])] \<and> hint_of h ''skin'' = Some 4 \<and> hal_connected (hal h)"
proof -
  have virt: "virtual_sensor skin_sensor = None" "is_monitor skin_sensor" "send_cb skin_sensor"
    "send_powerhint skin_sensor" "binded_cdev_info_map (throttling skin_sensor) = [(''cpu'', example_binding)]"
    by (simp_all add: skin_sensor_def example_sensor_def)
  have e: "map_of (sensor_info_map example_helper) ''skin'' = Some skin_sensor"
    "map_of (sensor_status_map example_helper) ''skin'' = Some (example_status\<lparr>hard_limit_request_map := [(''cpu'', 0)]\<rparr>)"
    "map fst (sensor_status_map example_helper) = [''skin'']"
    "cdev_status_map example_helper = [(''cpu'', [(''skin'', 0)])]"
    "supported_powerhint_map example_helper = (\<lambda>_ sev. sev)"
    "sensor_status_map example_helper = [(''skin'', example_status\<lparr>hard_limit_request_map := [(''cpu'', 0)]\<rparr>)]"
    "hal example_helper = \<lparr>power_hal_aidl_exist = True, hal_connected = True, ext_connected = True\<rparr>"
    by (simp_all add: example_helper_def)
  have due: "update_due example_helper 0 [] ''skin'' skin_sensor
      (example_status\<lparr>hard_limit_request_map := [(''cpu'', 0)]\<rparr>) = Some (0, True)"
    by (simp add: update_due_def example_status_def)
  have c: "request_state example_binding 4 0 4 0 = Some 4" by (simp add: request_state_def example_binding_def)
  have "getReleaseStep ''skin'' ''cpu'' (setPowerDataToDefault ''skin'' (h_power_files example_helper)) = 0"
    "getReleaseStep ''skin'' ''cpu'' (h_power_files example_helper) = 0"
    by (simp_all add: getReleaseStep_def lookup2_def setPowerDataToDefault_def example_helper_def)
  note rel = this
  have lim: "limit_info example_binding 4 = 4" "power_rail example_binding = []" by (simp_all add: example_binding_def)
  show ?thesis
    by (simp add: thermalWatcherCallbackFunc_def watch_sensor_def e due example_reading virt)
      (simp add: pid_stage_def limit_stage_def requestCdevBySeverity_def set_at_def example_status_def
        aggregate_stage_def NONE_SEVERITY_def computeCoolingDevicesRequest_def virt e c lim or_zero_def rel
        change_status_def report_one_def sendPowerExtHint_def switch_hint_def setMode_hint_def
        writeCdevFile_def emit_def hint_of_def Let_def)
qed

section \<open>Power hints\<close>

text \<open>The hints of a sensor that are switched on, from the calls made.\<close>

definition switch :: "string \<Rightarrow> effect \<Rightarrow> severity set \<Rightarrow> severity set" where
  "switch n e A =
     (case e of SetMode m sev b \<Rightarrow> if m = n then (if b then insert sev A else A - {sev}) else A | _ \<Rightarrow> A)"

definition hints_on :: "helper \<Rightarrow> string \<Rightarrow> severity set" where
  "hints_on h n = fold (switch n) (effects h) {}"

text \<open>The calls for a sensor taken in their order: a hint may be switched on when none is, and off
  when it is on; the value is the hint that is on in the end.\<close>

fun in_turn :: "string \<Rightarrow> severity option \<Rightarrow> effect list \<Rightarrow> severity option option" where
  "in_turn n cur [] = Some cur"
| "in_turn n cur (SetMode m sev b # es) =
     (if m \<noteq> n then in_turn n cur es
      else if b then (if cur = None then in_turn n (Some sev) es else None)
      else (if cur = Some sev then in_turn n None es else None))"
| "in_turn n cur (_ # es) = in_turn n cur es"

definition turn :: "helper \<Rightarrow> string \<Rightarrow> severity option option" where
  "turn h n = in_turn n None (effects h)"

lemma in_turn_append: "in_turn n cur (es @ fs) = in_turn n cur es \<bind> (\<lambda>c. in_turn n c fs)"
  by (induction n cur es rule: in_turn.induct) auto

lemma turn_emit [simp]:
  "turn (emit (SetMode m sev b) h) n =
     (if m = n then turn h n \<bind> (\<lambda>c. in_turn n c [SetMode n sev b]) else turn h n)"
  "turn (emit (WriteCdev c p t ok) h) n = turn h n" "turn (emit (Notify x) h) n = turn h n"
  by (cases "turn h n"; simp add: turn_def emit_def in_turn_append)+

lemma turn_hints_on:
  assumes "turn h n = Some c"
  shows "hints_on h n = set_option c"
proof -
  have "in_turn n cur es = Some c \<Longrightarrow> fold (switch n) es (set_option cur) = set_option c" for cur es
    by (induction n cur es rule: in_turn.induct) (auto simp: switch_def split: if_splits)
  from this [of None "effects h"] assms show ?thesis by (simp add: turn_def hints_on_def)
qed

definition noted :: "severity \<Rightarrow> severity option" where
  "noted sev = (if sev = 0 then None else Some sev)"

lemma hint_of_emit [simp]: "hint_of (emit e h) n = hint_of h n"
  by (simp add: hint_of_def)

definition hints_match :: "helper \<Rightarrow> bool" where
  "hints_match h \<longleftrightarrow>
     (power_hal_aidl_exist (hal h) \<longrightarrow> hal_connected (hal h) \<and> ext_connected (hal h)) \<and>
     (hal_connected (hal h) \<longrightarrow>
        (\<forall>n sev. hint_of h n = Some sev \<longrightarrow> turn h n = Some (noted sev)))"

lemma pid_stage_hint: "pid_stage h v el si st = Some st' \<Longrightarrow> prev_hint_severity st' = prev_hint_severity st"
  by (auto simp: pid_stage_def pidPowerCalculator_def requestCdevByPower_def bind_eq_Some_conv Let_def
      split: if_splits prod.splits)

lemma limit_stage_hint: "limit_stage si st = Some st' \<Longrightarrow> prev_hint_severity st' = prev_hint_severity st"
  by (auto simp: limit_stage_def requestCdevBySeverity_def bind_eq_Some_conv split: if_splits)

lemma release_loop_status:
  "release_loop read n sev el ch bs h rails = Some (h', rails') \<Longrightarrow> sensor_status_map h' = sensor_status_map h"
  by (auto dest: release_loop_kept)

lemma aggregate_status:
  "aggregate_stage read n si st el ch h rails = Some (h', rails', upd) \<Longrightarrow>
     sensor_status_map h' = sensor_status_map h"
  by (auto simp: aggregate_stage_def computeCoolingDevicesRequest_def bind_eq_Some_conv
      dest: release_loop_status split: if_splits)

lemma watch_sensor_hint:
  assumes "watch_sensor read now uevents n (h, r) = Some (h', r')"
  shows "hint_of h' m = hint_of h m"
  using assms
proof (cases rule: watch_sensor_cases)
  case (read st si el t hot cold st2 st3 h1 rails upd)
  have "prev_hint_severity st3 = prev_hint_severity st"
    using pid_stage_hint [OF read(6)] limit_stage_hint [OF read(7)] by simp
  with aggregate_status [OF read(8)] read(1,9) show ?thesis
    by (simp add: hint_of_def change_status_def AList.map_of_map_entry)
qed simp

lemma watch_loop_hint:
  "watch_loop read now uevents ns (h, r) = Some (h', r') \<Longrightarrow> hint_of h' m = hint_of h m"
proof (induction ns arbitrary: h r)
  case (Cons n ns)
  then obtain h1 r1 where "watch_sensor read now uevents n (h, r) = Some (h1, r1)"
      "watch_loop read now uevents ns (h1, r1) = Some (h', r')"
    by (auto simp: bind_eq_Some_conv)
  with Cons.IH watch_sensor_hint show ?case by metis
qed simp

lemma update_devices_hints:
  "updateCoolingDevices wr cs h = Some h' \<Longrightarrow>
     turn h' n = turn h n \<and> hint_of h' n = hint_of h n \<and> hal h' = hal h"
proof (induction cs arbitrary: h)
  case (Cons c cs)
  then obtain reqs where
    "updateCoolingDevices wr cs (snd (writeCdevFile wr c (int_to_dec (max_request reqs)) h)) = Some h'"
    by (auto simp: bind_eq_Some_conv)
  from Cons.IH [OF this] show ?case by (simp add: writeCdevFile_def Let_def)
qed simp

lemma switch_hint_on:
  assumes "switch_hint ok n sev b h = Some h'" "hal_connected (hal h')"
  shows "hal_connected (hal h) \<and>
    (\<forall>m. turn h' m = (if m = n \<and> sev \<noteq> 0 then turn h m \<bind> (\<lambda>c. in_turn n c [SetMode n sev b]) else turn h m))"
  using assms by (auto simp: switch_hint_def setMode_hint_def drop_hal_def NONE_SEVERITY_def split: if_splits)

lemma switch_hint_exist:
  "switch_hint ok n sev b h = Some h' \<Longrightarrow>
     (power_hal_aidl_exist (hal h) \<longrightarrow> hal_connected (hal h) \<and> ext_connected (hal h)) \<Longrightarrow>
     (power_hal_aidl_exist (hal h') \<longrightarrow> hal_connected (hal h') \<and> ext_connected (hal h'))"
  by (auto simp: switch_hint_def setMode_hint_def drop_hal_def split: if_splits)

lemma switch_hint_status: "switch_hint ok n sev b h = Some h' \<Longrightarrow> sensor_status_map h' = sensor_status_map h"
  using switch_hint_spec by blast

lemma send_hint_match:
  assumes "sendPowerExtHint ok t h = Some h'" "hints_match h"
  shows "hints_match h'"
  using assms(1)
proof (cases rule: sendPowerExtHint_cases)
  case (change st h1 h2 cur)
  let ?n = "t_name t" and ?p = "prev_hint_severity st"
  have status: "sensor_status_map h2 = sensor_status_map h"
    using switch_hint_status change(3,4) by simp
  have hint: "hint_of h' m = (if m = ?n then Some cur else hint_of h m)" for m
    using change(1,5) by (simp add: hint_of_def change_status_def AList.map_of_map_entry status)
  have on: "turn h' m = Some (noted sev)"
    if c: "hal_connected (hal h')" and m: "hint_of h' m = Some sev" for m sev
  proof -
    have c2: "hal_connected (hal h2)" using c change(5) by simp
    from switch_hint_on [OF change(4) c2] have c1: "hal_connected (hal h1)" by blast
    from switch_hint_on [OF change(3) c1] have c0: "hal_connected (hal h)" by blast
    have eq: "turn h' m = turn h2 m" using change(5) by (simp add: turn_def)
    show ?thesis
    proof (cases "m = ?n")
      case True
      have "hint_of h ?n = Some ?p" using change(1) by (simp add: hint_of_def)
      then have "turn h ?n = Some (noted ?p)" using assms(2) c0 by (auto simp: hints_match_def)
      then have "turn h1 ?n = Some None" using switch_hint_on [OF change(3) c1] by (simp add: noted_def)
      then have "turn h2 ?n = Some (noted cur)" using switch_hint_on [OF change(4) c2] by (simp add: noted_def)
      with True eq m hint show ?thesis by auto
    next
      case False
      have "turn h m = Some (noted sev)" using m hint False assms(2) c0 by (auto simp: hints_match_def)
      with False eq switch_hint_on [OF change(4) c2] switch_hint_on [OF change(3) c1] show ?thesis by simp
    qed
  qed
  have "power_hal_aidl_exist (hal h') \<longrightarrow> hal_connected (hal h') \<and> ext_connected (hal h')"
    using switch_hint_exist [OF change(4) switch_hint_exist [OF change(3)]] assms(2) change(5)
    by (simp add: hints_match_def)
  with on show ?thesis by (simp add: hints_match_def)
qed (use assms(2) in simp)

lemma report_loop_match: "report_loop cb ok ts h = Some h' \<Longrightarrow> hints_match h \<Longrightarrow> hints_match h'"
proof (induction ts arbitrary: h)
  case (Cons t ts)
  then obtain h2 where h2: "report_one cb ok t h = Some h2" "report_loop cb ok ts h2 = Some h'"
    by (auto simp: bind_eq_Some_conv)
  then obtain h1 where h1: "h1 = h \<or> h1 = emit (Notify t) h"
    and h': "h2 = h1 \<or> sendPowerExtHint ok t h1 = Some h2"
    by (auto simp: report_one_def bind_eq_Some_conv Let_def split: if_splits)
  have "hints_match h1" using h1 Cons.prems(2) by (auto simp: hints_match_def)
  with h' send_hint_match have "hints_match h2" by blast
  with Cons.IH h2(2) show ?case by blast
qed simp

lemma callback_hints:
  assumes "thermalWatcherCallbackFunc read now uevents cb ok wr h = Some (h', ms)"
    and "hints_match h" "distinct (map fst (cdev_status_map h))"
  shows "hints_match h' \<and> distinct (map fst (cdev_status_map h'))"
  using assms(1)
proof (cases rule: callback_cases)
  case (1 h1 r h2 h3)
  from watch_loop_kept [OF 1(1) assms(3)] have k: "effects h1 = effects h" "hal h1 = hal h"
      "map fst (cdev_status_map h1) = map fst (cdev_status_map h)" by (auto simp: requests_kept_def)
  have "hints_match h1" using assms(2) k watch_loop_hint [OF 1(1)] by (simp add: hints_match_def turn_def)
  then have "hints_match h2" using update_devices_hints [OF 1(2)] by (simp add: hints_match_def)
  then have "hints_match h3" using report_loop_match [OF 1(3)] by blast
  moreover have "cdev_status_map h3 = cdev_status_map h1"
    using update_devices_spec [OF 1(2)] report_loop_spec [OF 1(3)] by simp
  ultimately show ?thesis using 1(4) assms(3) k by (simp add: hints_match_def turn_def hint_of_def)
qed

lemma watching_hints:
  assumes "watching h0 h" "effects h0 = []" "\<forall>(n, st)\<in>set (sensor_status_map h0). prev_hint_severity st = 0"
    and "distinct (map fst (cdev_status_map h0))"
    and "power_hal_aidl_exist (hal h0) \<longrightarrow> hal_connected (hal h0) \<and> ext_connected (hal h0)"
    and "hal_connected (hal h)" "map_of (sensor_status_map h) n = Some st"
  shows "turn h n = Some (noted (prev_hint_severity st))"
proof -
  from assms(1-5) have "hints_match h \<and> distinct (map fst (cdev_status_map h))"
  proof (induction rule: watching.induct)
    case (start h)
    have "sev = 0" if "hint_of h n = Some sev" for n sev
      using that start(2) by (auto simp: hint_of_def dest: map_of_SomeD)
    with start show ?case by (auto simp: hints_match_def turn_def noted_def)
  next
    case (callback h h1 read now uevents cb ok wr h2 ms)
    then show ?case using callback_hints by blast
  qed
  with assms(6,7) show ?thesis by (auto simp: hints_match_def hint_of_def)
qed

end
