(* ===== verification/ThermalInit.thy ===== *)
theory ThermalInit
  imports ThermalProps
begin

text \<open>
  The start of the thermal service: the constructor of \<open>ThermalHelper\<close> in
  \<open>thermal/thermal-helper.cpp\<close> with the initialisation of the sensors, the cooling devices,
  the status maps and the trip points. The file system is a parameter: \<open>read\<close> for files,
  \<open>can_write\<close> for the writes that succeed, and the maps from sysfs names to directories.
  None is an exception nobody catches or LOG(FATAL).
\<close>

section \<open>Sensors and cooling devices\<close>

fun initializeSensorMap ::
  "(string \<times> string) list \<Rightarrow> (string \<times> sensor_info) list \<Rightarrow> (string \<times> string) list \<Rightarrow>
   bool \<times> (string \<times> string) list" where
  "initializeSensorMap path_map [] fs = (True, fs)"
| "initializeSensorMap path_map ((n, si) # sis) fs =
     (if virtual_sensor si \<noteq> None then initializeSensorMap path_map sis fs
      else (case map_of path_map n of
              None \<Rightarrow> (False, fs)
            | Some dir \<Rightarrow>
                (case addThermalFile n (if temp_path si = [] then dir @ ''/temp'' else temp_path si) fs of
                   (False, fs') \<Rightarrow> (False, fs')
                 | (True, fs') \<Rightarrow> initializeSensorMap path_map sis fs')))"

text \<open>Extraction of unsigned numbers from a stream, until it fails; fuel is the length.\<close>

fun read_uints :: "nat \<Rightarrow> string \<Rightarrow> nat list" where
  "read_uints 0 s = []"
| "read_uints (Suc n) s =
     (let s1 = dropWhile is_space s;
          neg = (s1 \<noteq> [] \<and> hd s1 = CHR ''-'');
          s2 = (if s1 \<noteq> [] \<and> (hd s1 = CHR ''-'' \<or> hd s1 = CHR ''+'') then tl s1 else s1);
          ds = takeWhile is_digit s2; v = dec_value ds
      in if ds = [] \<or> v \<ge> 2 ^ 32 then []
         else (if neg then (2 ^ 32 - v) mod 2 ^ 32 else v) # read_uints n (dropWhile is_digit s2))"

text \<open>\<open>std::stoi\<close>: None when it throws.\<close>

definition stoi :: "string \<Rightarrow> int option" where
  "stoi s =
     (let s1 = dropWhile is_space s;
          neg = (s1 \<noteq> [] \<and> hd s1 = CHR ''-'');
          s2 = (if s1 \<noteq> [] \<and> (hd s1 = CHR ''-'' \<or> hd s1 = CHR ''+'') then tl s1 else s1);
          ds = takeWhile is_digit s2;
          v = (if neg then - int (dec_value ds) else int (dec_value ds))
      in if ds = [] \<or> v < - max_int - 1 \<or> v > max_int then None else Some v)"

definition init_cdev ::
  "(string \<Rightarrow> string option) \<Rightarrow> (string \<times> string) list \<Rightarrow> string \<Rightarrow> cdev_info \<Rightarrow> (string \<times> string) list \<Rightarrow>
   (cdev_info \<times> (string \<times> string) list) option" where
  "init_cdev read path_map n ci fs =
     (case map_of path_map n of
        None \<Rightarrow> Some (ci, fs)
      | Some dir \<Rightarrow>
          (case addThermalFile n (if read_path ci \<noteq> [] then read_path ci else dir @ ''/cur_state'') fs of
             (False, fs1) \<Rightarrow> Some (ci, fs1)
           | (True, fs1) \<Rightarrow>
               do { let ci1 = (case read (dir @ ''/state2power_table'') of
                                 None \<Rightarrow> ci
                               | Some t \<Rightarrow> ci\<lparr>state2power := map of_uint (read_uints (length t) t)\<rparr>);
                    m \<leftarrow> (case read (dir @ ''/max_state'') of None \<Rightarrow> Some max_int | Some t \<Rightarrow> stoi (trim t));
                    Some (ci1\<lparr>max_state := m\<rparr>,
                          snd (addThermalFile (n @ ''_w'')
                            (if write_path ci \<noteq> [] then write_path ci else dir @ ''/cur_state'') fs1)) }))"

fun initializeCoolingDevices ::
  "(string \<Rightarrow> string option) \<Rightarrow> (string \<times> string) list \<Rightarrow> (string \<times> cdev_info) list \<Rightarrow>
   (string \<times> string) list \<Rightarrow> ((string \<times> cdev_info) list \<times> (string \<times> string) list) option" where
  "initializeCoolingDevices read path_map [] fs = Some ([], fs)"
| "initializeCoolingDevices read path_map ((n, ci) # cdevs) fs =
     do { (ci', fs1) \<leftarrow> init_cdev read path_map n ci fs;
          (cdevs', fs2) \<leftarrow> initializeCoolingDevices read path_map cdevs fs1;
          Some ((n, ci') # cdevs', fs2) }"

section \<open>The status maps\<close>

definition new_status :: sensor_status where
  "new_status =
     \<lparr>cur_severity = NONE_SEVERITY, prev_hot_severity = NONE_SEVERITY, prev_cold_severity = NONE_SEVERITY,
      prev_hint_severity = NONE_SEVERITY, last_update_time = None, pid_request_map = [],
      hard_limit_request_map = [], err_integral = Some 0, prev_err = None\<rparr>"

definition change_sensor :: "string \<Rightarrow> (sensor_info \<Rightarrow> sensor_info) \<Rightarrow> helper \<Rightarrow> helper" where
  "change_sensor n f h = h\<lparr>sensor_info_map := AList.map_entry n f (sensor_info_map h)\<rparr>"

definition set_bindings :: "(string \<times> binded_cdev_info) list \<Rightarrow> sensor_info \<Rightarrow> sensor_info" where
  "set_bindings bs si = si\<lparr>throttling := (throttling si)\<lparr>binded_cdev_info_map := bs\<rparr>\<rparr>"

definition has_weight :: "binded_cdev_info \<Rightarrow> bool" where
  "has_weight b \<longleftrightarrow> (\<exists>i\<in>set [0..<kThrottlingSeverityCount]. cdev_weight_for_pid b i \<noteq> None)"

definition has_limit :: "binded_cdev_info \<Rightarrow> bool" where
  "has_limit b \<longleftrightarrow> (\<exists>i\<in>set [0..<kThrottlingSeverityCount]. limit_info b i > 0)"

definition clamp_ceiling :: "int \<Rightarrow> binded_cdev_info \<Rightarrow> binded_cdev_info" where
  "clamp_ceiling m b =
     b\<lparr>cdev_ceiling := (\<lambda>i. if cdev_ceiling b i > m then m else cdev_ceiling b i)\<rparr>"

text \<open>The power rail of a bound device: whether it is invalid.\<close>

definition register_rail ::
  "string list option \<Rightarrow> (string \<Rightarrow> string option) \<Rightarrow> (string \<times> power_rail_info) list \<Rightarrow> string \<Rightarrow> string \<Rightarrow>
   binded_cdev_info \<Rightarrow> cdev_info \<Rightarrow> power_files \<Rightarrow> (bool \<times> power_files) option" where
  "register_rail dir read rails n c b ci pf =
     (case map_of rails (power_rail b) of
        None \<Rightarrow> Some (False, pf)
      | Some pr \<Rightarrow>
          if power_sample_count pr = 0 then Some (False, pf)
          else (case findEnergySourceToWatch dir read pf of
                  (False, pf1) \<Rightarrow> Some (False, pf1)
                | (True, pf1) \<Rightarrow>
                    do { (r, pf2) \<leftarrow> registerPowerRailsToWatch read n c b ci pr pf1; Some (\<not> r, pf2) }))"

text \<open>One bound device: the entries in the status maps, the ceiling, and the power rail.\<close>

definition init_binding ::
  "string list option \<Rightarrow> (string \<Rightarrow> string option) \<Rightarrow> string \<Rightarrow> string \<Rightarrow> binded_cdev_info \<Rightarrow>
   sensor_status \<Rightarrow> helper \<Rightarrow> (binded_cdev_info \<times> sensor_status \<times> helper \<times> bool) option" where
  "init_binding dir read n c b st h =
     do { ci \<leftarrow> map_of (cooling_device_info_map h) c;
          let b1 = clamp_ceiling (max_state ci) b;
          (bad, pf) \<leftarrow> register_rail dir read (power_rail_info_map h) n c b1 ci (h_power_files h);
          Some (b1,
                st\<lparr>pid_request_map :=
                     (if has_weight b then AList.update c 0 (pid_request_map st) else pid_request_map st),
                   hard_limit_request_map :=
                     (if has_limit b then AList.update c 0 (hard_limit_request_map st)
                      else hard_limit_request_map st)\<rparr>,
                h\<lparr>cdev_status_map :=
                    (if has_weight b \<or> has_limit b then assign2 c n 0 (cdev_status_map h) else cdev_status_map h),
                  h_power_files := pf\<rparr>, bad) }"

fun init_bindings ::
  "string list option \<Rightarrow> (string \<Rightarrow> string option) \<Rightarrow> string \<Rightarrow> (string \<times> binded_cdev_info) list \<Rightarrow>
   sensor_status \<Rightarrow> helper \<Rightarrow>
   ((string \<times> binded_cdev_info) list \<times> sensor_status \<times> helper \<times> bool) option" where
  "init_bindings dir read n [] st h = Some ([], st, h, False)"
| "init_bindings dir read n ((c, b) # bs) st h =
     do { (b1, st1, h1, bad) \<leftarrow> init_binding dir read n c b st h;
          (bs', st2, h2, bad') \<leftarrow> init_bindings dir read n bs st1 h1;
          Some ((c, b1) # bs', st2, h2, bad \<or> bad') }"

text \<open>The body of the loop of the constructor: when a rail is invalid the sensor keeps no
  bound devices; the trigger of a monitored virtual sensor becomes monitored.\<close>

definition init_sensor ::
  "string list option \<Rightarrow> (string \<Rightarrow> string option) \<Rightarrow> string \<Rightarrow> helper \<Rightarrow> helper option" where
  "init_sensor dir read n h =
     do { si \<leftarrow> map_of (sensor_info_map h) n;
          (bs, st, h1, bad) \<leftarrow> init_bindings dir read n (binded_cdev_info_map (throttling si)) new_status h;
          let st' = (if bad then st\<lparr>hard_limit_request_map := [], pid_request_map := []\<rparr> else st);
          let h2 = change_sensor n (set_bindings (if bad then [] else bs))
                     (h1\<lparr>sensor_status_map := sensor_status_map h1 @ [(n, st')]\<rparr>);
          (case virtual_sensor si of
             None \<Rightarrow> Some h2
           | Some v \<Rightarrow>
               if \<not> is_monitor si then Some h2
               else if map_of (sensor_info_map h2) (trigger_sensor v) = None then None
               else Some (change_sensor (trigger_sensor v) (\<lambda>s. s\<lparr>is_monitor := True\<rparr>) h2)) }"

fun init_status :: "string list option \<Rightarrow> (string \<Rightarrow> string option) \<Rightarrow> string list \<Rightarrow> helper \<Rightarrow> helper option" where
  "init_status dir read [] h = Some h"
| "init_status dir read (n # ns) h = do { h' \<leftarrow> init_sensor dir read n h; init_status dir read ns h' }"

section \<open>Trip points\<close>

definition setMinTimeout :: "sensor_info \<Rightarrow> sensor_info" where
  "setMinTimeout si = si\<lparr>polling_delay := kMinPollIntervalMs, passive_delay := kMinPollIntervalMs\<rparr>"

text \<open>\<open>static_cast<int>\<close> of a float: undefined out of range.\<close>

definition to_int32 :: "float32 \<Rightarrow> int option" where
  "to_int32 x =
     (case x of None \<Rightarrow> None
      | Some y \<Rightarrow>
          (let n = (if y < 0 then - \<lfloor>- y\<rfloor> else \<lfloor>y\<rfloor>)
           in if - max_int - 1 \<le> n \<and> n \<le> max_int then Some n else None))"

definition first_trip :: "sensor_info \<Rightarrow> severity option" where
  "first_trip si = find (\<lambda>i. hot_thresholds si i \<noteq> None \<and> hot_hysteresis si i \<noteq> None)
     [0..<kThrottlingSeverityCount]"

definition write_trip :: "(string \<Rightarrow> string \<Rightarrow> bool) \<Rightarrow> string \<Rightarrow> sensor_info \<Rightarrow> bool option" where
  "write_trip can_write dir si =
     (case first_trip si of
        None \<Rightarrow> Some False
      | Some i \<Rightarrow>
          do { t \<leftarrow> to_int32 (f_div (hot_thresholds si i) (multiplier si));
               if \<not> can_write (dir @ ''/trip_point_0_temp'') (int_to_dec t) then Some False
               else do { y \<leftarrow> to_int32 (f_div (hot_hysteresis si i) (multiplier si));
                         Some (can_write (dir @ ''/trip_point_0_hyst'') (int_to_dec y)) } })"

definition init_trip ::
  "(string \<Rightarrow> string option) \<Rightarrow> (string \<Rightarrow> string \<Rightarrow> bool) \<Rightarrow> (string \<times> string) list \<Rightarrow> bool \<Rightarrow> string \<Rightarrow>
   sensor_info \<Rightarrow> (sensor_info \<times> bool) option" where
  "init_trip read can_write path_map genl n si =
     (if \<not> is_monitor si \<or> virtual_sensor si \<noteq> None then Some (si, False)
      else do { dir \<leftarrow> map_of path_map n;
                let supported = (genl \<or> (case read (dir @ ''/policy'') of
                                           None \<Rightarrow> False | Some p \<Rightarrow> trim p = ''user_space''));
                ok \<leftarrow> (if supported then write_trip can_write dir si else Some False);
                Some (if ok then si else setMinTimeout si, supported) })"

text \<open>The new sensors, and those to watch.\<close>

fun initializeTrip ::
  "(string \<Rightarrow> string option) \<Rightarrow> (string \<Rightarrow> string \<Rightarrow> bool) \<Rightarrow> (string \<times> string) list \<Rightarrow> bool \<Rightarrow>
   (string \<times> sensor_info) list \<Rightarrow> ((string \<times> sensor_info) list \<times> string list) option" where
  "initializeTrip read can_write path_map genl [] = Some ([], [])"
| "initializeTrip read can_write path_map genl ((n, si) # sis) =
     do { (si', w) \<leftarrow> init_trip read can_write path_map genl n si;
          (sis', ws) \<leftarrow> initializeTrip read can_write path_map genl sis;
          Some ((n, si') # sis', if w then n # ws else ws) }"

section \<open>What the constructor leaves\<close>

definition hints_none :: "helper \<Rightarrow> bool" where
  "hints_none h \<longleftrightarrow> (\<forall>(n, st)\<in>set (sensor_status_map h). prev_hint_severity st = 0)"

text \<open>Nothing requested, every device listed once, no hint on.\<close>

definition at_rest :: "helper \<Rightarrow> bool" where
  "at_rest h \<longleftrightarrow> all_zero h \<and> distinct (map fst (cdev_status_map h)) \<and> hints_none h"

lemma map_default_keys:
  "fst ` set (AList.map_default k v f m) = insert k (fst ` set m)"
  by (induction m) auto

lemma distinct_map_default: "distinct (map fst m) \<Longrightarrow> distinct (map fst (AList.map_default k v f m))"
  by (induction m) (auto simp: map_default_keys)

lemma update_zero:
  "\<forall>(n, r)\<in>set reqs. r = (0 :: int) \<Longrightarrow> \<forall>(n, r)\<in>set (AList.update n0 0 reqs). r = 0"
  by (induction reqs) auto

lemma assign2_zero:
  "\<forall>(c, reqs)\<in>set m. \<forall>(n, r)\<in>set reqs. r = (0 :: int) \<Longrightarrow>
     \<forall>(c, reqs)\<in>set (assign2 c0 n0 0 m). \<forall>(n, r)\<in>set reqs. r = 0"
proof (induction m)
  case (Cons x m)
  obtain c reqs where x: "x = (c, reqs)" by (cases x)
  with Cons update_zero [of reqs n0] show ?case by (auto simp: assign2_def simp del: AList.update.simps)
qed (simp add: assign2_def)

lemma init_binding_rest:
  assumes "init_binding dir read n c b st h = Some (b', st', h', bad)" "at_rest h" "prev_hint_severity st = 0"
  shows "at_rest h' \<and> prev_hint_severity st' = 0 \<and> effects h' = effects h \<and> hal h' = hal h"
proof -
  obtain ci pf where h': "h' = h\<lparr>cdev_status_map := (if has_weight b \<or> has_limit b
        then assign2 c n 0 (cdev_status_map h) else cdev_status_map h), h_power_files := pf\<rparr>"
    and st: "prev_hint_severity st' = prev_hint_severity st"
    using assms(1) by (auto simp: init_binding_def Let_def bind_eq_Some_conv)
  have "distinct (map fst (assign2 c n 0 (cdev_status_map h)))"
    using assms(2) by (simp add: at_rest_def assign2_def distinct_map_default)
  then have "at_rest h'"
    using assms(2) assign2_zero [of "cdev_status_map h" c n]
    by (simp add: h' at_rest_def all_zero_def hints_none_def)
  with st assms(3) show ?thesis by (simp add: h')
qed

lemma init_bindings_rest:
  "init_bindings dir read n bs st h = Some (bs', st', h', bad) \<Longrightarrow> at_rest h \<Longrightarrow> prev_hint_severity st = 0 \<Longrightarrow>
     at_rest h' \<and> prev_hint_severity st' = 0 \<and> effects h' = effects h \<and> hal h' = hal h"
proof (induction bs arbitrary: bs' st h bad)
  case (Cons x bs)
  obtain c b where x: "x = (c, b)" by (cases x)
  with Cons.prems(1) obtain r where r: "init_binding dir read n c b st h = Some r"
    by (auto simp: bind_eq_Some_conv)
  obtain b1 st1 h1 bad1 where r1: "r = (b1, st1, h1, bad1)" by (cases r)
  with Cons.prems(1) x r obtain q where q: "init_bindings dir read n bs st1 h1 = Some q"
    by (auto simp: bind_eq_Some_conv)
  obtain bs1 st2 h2 bad2 where q1: "q = (bs1, st2, h2, bad2)" by (cases q)
  have 1: "init_binding dir read n c b st h = Some (b1, st1, h1, bad1)"
    "init_bindings dir read n bs st1 h1 = Some (bs1, st', h', bad2)"
    using Cons.prems(1) x r r1 q q1 by auto
  from init_binding_rest [OF 1(1) Cons.prems(2,3)] Cons.IH [OF 1(2)] show ?case by simp
qed simp

lemma change_sensor_rest [simp]:
  "at_rest (change_sensor n f h) = at_rest h" "effects (change_sensor n f h) = effects h"
  "hal (change_sensor n f h) = hal h"
  by (simp_all add: change_sensor_def at_rest_def all_zero_def hints_none_def)

lemma init_sensor_rest:
  assumes "init_sensor dir read n h = Some h'" "at_rest h"
  shows "at_rest h' \<and> effects h' = effects h \<and> hal h' = hal h"
proof -
  from assms(1) obtain si where si: "map_of (sensor_info_map h) n = Some si"
    by (auto simp: init_sensor_def bind_eq_Some_conv)
  with assms(1) obtain r where
    r: "init_bindings dir read n (binded_cdev_info_map (throttling si)) new_status h = Some r"
    by (auto simp: init_sensor_def bind_eq_Some_conv)
  obtain bs st h1 bad where r1: "r = (bs, st, h1, bad)" by (cases r)
  note 1 = r [unfolded r1]
  let ?st = "if bad then st\<lparr>hard_limit_request_map := [], pid_request_map := []\<rparr> else st"
  let ?h2 = "change_sensor n (set_bindings (if bad then [] else bs))
               (h1\<lparr>sensor_status_map := sensor_status_map h1 @ [(n, ?st)]\<rparr>)"
  have h': "h' = ?h2 \<or> (\<exists>m g. h' = change_sensor m g ?h2)"
    using assms(1) si 1 by (auto simp: init_sensor_def Let_def split: option.splits if_split_asm)
  from init_bindings_rest [OF 1 assms(2)] have
    q: "at_rest h1 \<and> prev_hint_severity st = 0 \<and> effects h1 = effects h \<and> hal h1 = hal h"
    by (simp add: new_status_def NONE_SEVERITY_def)
  then have "at_rest (h1\<lparr>sensor_status_map := sensor_status_map h1 @ [(n, st')]\<rparr>)"
    if "prev_hint_severity st' = 0" for st'
    using that by (auto simp: at_rest_def all_zero_def hints_none_def)
  from this [of ?st] q have "at_rest ?h2 \<and> effects ?h2 = effects h \<and> hal ?h2 = hal h" by simp
  with h' show ?thesis by auto
qed

lemma init_status_rest:
  "init_status dir read ns h = Some h' \<Longrightarrow> at_rest h \<Longrightarrow> at_rest h' \<and> effects h' = effects h \<and> hal h' = hal h"
proof (induction ns arbitrary: h)
  case (Cons n ns)
  then obtain h1 where 1: "init_sensor dir read n h = Some h1" "init_status dir read ns h1 = Some h'"
    by (auto simp: bind_eq_Some_conv)
  from init_sensor_rest [OF 1(1) Cons.prems(2)] Cons.IH [OF 1(2)] show ?case by simp
qed simp

section \<open>From the constructor to any moment of the watcher\<close>

text \<open>A helper as the member initialisers and the parsers leave it, for the witnesses.\<close>

definition fresh_helper :: helper where
  "fresh_helper = example_helper\<lparr>sensor_status_map := [], cdev_status_map := []\<rparr>"

lemma init_example: "init_status None (\<lambda>_. None) [''skin''] fresh_helper = Some example_helper"
proof -
  have w: "\<not> has_weight example_binding" "has_limit example_binding"
    "power_rail example_binding = []" "clamp_ceiling 5 example_binding = example_binding"
    by (auto simp: has_weight_def has_limit_def example_binding_def clamp_ceiling_def
        kThrottlingSeverityCount_def intro: bexI [of _ 1])
  have s: "virtual_sensor skin_sensor = None"
    "binded_cdev_info_map (throttling skin_sensor) = [(''cpu'', example_binding)]"
    "set_bindings [(''cpu'', example_binding)] skin_sensor = skin_sensor"
    by (simp_all add: skin_sensor_def example_sensor_def set_bindings_def pid_info.extend_def
        throttling_info.fields_def)
  show ?thesis
    by (simp add: fresh_helper_def example_helper_def init_sensor_def init_binding_def register_rail_def
        w s assign2_def change_sensor_def new_status_def example_status_def NONE_SEVERITY_def Let_def)
qed

lemma at_rest_fresh: "sensor_status_map h = [] \<Longrightarrow> cdev_status_map h = [] \<Longrightarrow> at_rest h"
  by (simp add: at_rest_def all_zero_def hints_none_def)

text \<open>
  C6. The last thing asked of the file of every cooling device is the maximum of what the sensors
  request of the device. After the constructor has set up the status maps, and after any number of
  watcher callbacks, with any readings, events and times and with writes that fail at any moment, the
  last text given to the file of a device (0 if none was) is the largest of the requests that the
  sensors currently have on it, or 0: no change of the largest request goes without a write, and a request
  that falls is written too. If that last write succeeded the file shows this value; a write that failed
  is not repeated.\<close>

theorem device_files_show_maximum:
  assumes "init_status dir read ns h0 = Some h1" "sensor_status_map h0 = []" "cdev_status_map h0 = []"
    and "effects h0 = []" "watching h1 h" "map_of (cdev_status_map h) c = Some reqs"
  shows "asked h c = int_to_dec (Max (insert 0 (snd ` set reqs))) \<and>
    (write_ok h c \<longrightarrow> shown h c = int_to_dec (Max (insert 0 (snd ` set reqs))))"
  using watching_files [OF assms(5) _ _ _ assms(6)] init_status_rest [OF assms(1) at_rest_fresh]
    assms(2-4) shown_asked by (simp add: at_rest_def)

theorem device_files_show_maximum_witness:
  "\<exists>h. watching example_helper h \<and> asked h ''cpu'' = int_to_dec 4"
proof -
  obtain h ms where h: "thermalWatcherCallbackFunc (\<lambda>_. Some ''45'') 0 [] True (\<lambda>_ _ _. True) (\<lambda>_ _ _. True) example_helper =
      Some (h, ms)" "cdev_status_map h = [(''cpu'', [(''skin'', 4)])]"
    using example_callback by metis
  have w: "watching example_helper h" by (rule watching.callback [OF watching.start h(1)])
  have "asked h ''cpu'' = int_to_dec (Max (insert 0 (snd ` set [(''skin'', 4 :: int)])))"
    by (rule conjunct1 [OF device_files_show_maximum [OF init_example _ _ _ w]])
      (simp_all add: h(2) fresh_helper_def example_helper_def)
  with w show ?thesis by auto
qed

text \<open>
  A write that failed is not repeated as long as the requests stay what they are: a sensor that changes
  no request asks for no device to be written.\<close>

theorem failed_write_not_repeated:
  assumes "computeCoolingDevicesRequest n si st h = Some (h', upd)" "cdev_status_map h' = cdev_status_map h"
  shows "upd = []"
proof -
  have "compute_loop h n si st cs = Some (cs, upd) \<Longrightarrow> upd = []" for cs upd
  proof (induction cs arbitrary: upd)
    case (Cons x cs)
    obtain c reqs where x: "x = (c, reqs)" by (cases x)
    have old: "r = v" if "map_of reqs n = Some v" "AList.update n r reqs = reqs" for r v
      using that(1) arg_cong [OF that(2), of "\<lambda>m. map_of m n"] by (simp add: update_conv')
    show ?case using Cons x old by (auto simp: bind_eq_Some_conv split: option.splits if_splits)
  qed simp
  with assms show ?thesis by (auto simp: computeCoolingDevicesRequest_def bind_eq_Some_conv)
qed

text \<open>
  C25. Power hints are switched on and off in turn. After the constructor and any number of watcher
  callbacks during which the power service stayed connected, in the order of the calls made for a
  sensor a hint was only switched on when none was on, and only switched off when it was on: the hint of
  the previous severity goes off before another goes on. In the end the sensor has exactly the hint on
  that its status remembers, and none when it remembers NONE: no hint is left behind.\<close>

theorem hints_switched_in_turn:
  assumes "init_status dir read ns h0 = Some h1" "sensor_status_map h0 = []" "cdev_status_map h0 = []"
    and "effects h0 = []" "power_hal_aidl_exist (hal h0) \<longrightarrow> hal_connected (hal h0) \<and> ext_connected (hal h0)"
    and "watching h1 h" "hal_connected (hal h)" "map_of (sensor_status_map h) n = Some st"
  shows "in_turn n None (effects h) = Some (if prev_hint_severity st = 0 then None else Some (prev_hint_severity st)) \<and>
    hints_on h n = (if prev_hint_severity st = 0 then {} else {prev_hint_severity st})"
proof -
  have "turn h n = Some (noted (prev_hint_severity st))"
    using watching_hints [OF assms(6) _ _ _ _ assms(7,8)] init_status_rest [OF assms(1) at_rest_fresh]
      assms(2-5) by (auto simp: at_rest_def hints_none_def)
  with turn_hints_on [OF this] show ?thesis by (simp add: turn_def noted_def)
qed

theorem hints_switched_in_turn_witness:
  "\<exists>h. watching example_helper h \<and> hints_on h ''skin'' = {4}"
proof -
  obtain h ms where h: "thermalWatcherCallbackFunc (\<lambda>_. Some ''45'') 0 [] True (\<lambda>_ _ _. True) (\<lambda>_ _ _. True) example_helper =
      Some (h, ms)" "hint_of h ''skin'' = Some 4" "hal_connected (hal h)"
    using example_callback by blast
  then obtain st where st: "map_of (sensor_status_map h) ''skin'' = Some st" "prev_hint_severity st = 4"
    by (auto simp: hint_of_def)
  have w: "watching example_helper h" by (rule watching.callback [OF watching.start h(1)])
  from hints_switched_in_turn [OF init_example _ _ _ _ w h(3) st(1)] st(2) w show ?thesis
    by (auto simp: fresh_helper_def example_helper_def)
qed

section \<open>Limits on some of the devices only\<close>

lemma set_at_iff: "set_at k v m \<noteq> None \<longleftrightarrow> k \<in> dom (map_of m)"
  by (auto simp: set_at_def)

lemma set_at_dom: "set_at k v m = Some m' \<Longrightarrow> dom (map_of m') = dom (map_of m)"
  by (auto simp: set_at_def update_conv' split: if_splits)

lemma limit_requests_iff: "limit_requests sev bs m \<noteq> None \<longleftrightarrow> fst ` set bs \<subseteq> dom (map_of m)"
proof (induction bs arbitrary: m)
  case (Cons x bs)
  obtain c b where x: "x = (c, b)" by (cases x)
  show ?case
  proof (cases "set_at c (limit_info b sev) m")
    case None
    then show ?thesis using set_at_iff [of c "limit_info b sev" m] x by auto
  next
    case (Some m')
    then have "c \<in> dom (map_of m)" using set_at_iff [of c "limit_info b sev" m] by simp
    with Some x Cons.IH [of m'] set_at_dom [OF Some] show ?thesis by simp
  qed
qed simp

lemma init_bindings_keys:
  "init_bindings dir read n bs st h = Some (bs', st', h', bad) \<Longrightarrow>
     map fst bs' = map fst bs \<and>
     dom (map_of (hard_limit_request_map st')) =
       dom (map_of (hard_limit_request_map st)) \<union> {c. \<exists>b. (c, b) \<in> set bs \<and> has_limit b}"
proof (induction bs arbitrary: bs' st h bad)
  case (Cons x bs)
  obtain c b where x: "x = (c, b)" by (cases x)
  with Cons.prems(1) obtain r where r: "init_binding dir read n c b st h = Some r"
    by (auto simp: bind_eq_Some_conv)
  obtain b1 st1 h1 bad1 where r1: "r = (b1, st1, h1, bad1)" by (cases r)
  with Cons.prems(1) x r obtain q where q: "init_bindings dir read n bs st1 h1 = Some q"
    by (auto simp: bind_eq_Some_conv)
  obtain bs1 st2 h2 bad2 where q1: "q = (bs1, st2, h2, bad2)" by (cases q)
  have eq: "bs' = (c, b1) # bs1" and i: "init_bindings dir read n bs st1 h1 = Some (bs1, st', h', bad2)"
    using Cons.prems(1) x r r1 q q1 by auto
  have "dom (map_of (hard_limit_request_map st1)) =
      dom (map_of (hard_limit_request_map st)) \<union> (if has_limit b then {c} else {})"
    using r r1 by (auto simp: init_binding_def bind_eq_Some_conv update_conv' Let_def)
  moreover have "{c'. \<exists>b'. (c', b') \<in> set (x # bs) \<and> has_limit b'} =
      (if has_limit b then {c} else {}) \<union> {c'. \<exists>b'. (c', b') \<in> set bs \<and> has_limit b'}"
    using x by auto
  ultimately show ?case using Cons.IH [OF i] eq x by (simp only: Un_assoc) simp
qed simp

definition example_cdev :: cdev_info where
  "example_cdev = \<lparr>c_type = 0, read_path = [], write_path = [], state2power = [], max_state = 5\<rparr>"

text \<open>
  The limits of a sensor work only if all of its bound cooling devices have one, or none has.
  After the constructor, in any severity, the step that applies the limits succeeds exactly in these
  two cases; when some devices have a limit and some have none (they are only controlled by the PID
  algorithm, say), it looks up a request that was never made, and the exception ends the service.\<close>

theorem mixed_limits_throw:
  assumes "init_bindings dir read n bs new_status h = Some (bs', st, h', False)"
    and "distinct (map fst bs)"
  shows "limit_stage (set_bindings bs' si) (st\<lparr>cur_severity := sev\<rparr>) \<noteq> None \<longleftrightarrow>
           (\<forall>(c, b)\<in>set bs. has_limit b) \<or> (\<forall>(c, b)\<in>set bs. \<not> has_limit b)"
proof -
  from init_bindings_keys [OF assms(1)] have k: "map fst bs' = map fst bs"
    and d: "dom (map_of (hard_limit_request_map st)) = {c. \<exists>b. (c, b) \<in> set bs \<and> has_limit b}"
    by (simp_all add: new_status_def)
  have none: "hard_limit_request_map st = [] \<longleftrightarrow> (\<forall>(c, b)\<in>set bs. \<not> has_limit b)"
  proof -
    have "hard_limit_request_map st = [] \<longleftrightarrow> dom (map_of (hard_limit_request_map st)) = {}"
      by (cases "hard_limit_request_map st") (auto simp: dom_def)
    then show ?thesis by (auto simp: d)
  qed
  have "fst ` set bs' = fst ` set bs" using k by (metis set_map)
  moreover have "fst ` set bs \<subseteq> dom (map_of (hard_limit_request_map st)) \<longleftrightarrow> (\<forall>(c, b)\<in>set bs. has_limit b)"
  proof
    assume s: "fst ` set bs \<subseteq> dom (map_of (hard_limit_request_map st))"
    have "has_limit b" if cb: "(c, b) \<in> set bs" for c b
    proof -
      have "c \<in> dom (map_of (hard_limit_request_map st))" using s cb by force
      then obtain b' where "(c, b') \<in> set bs" "has_limit b'" by (auto simp: d)
      with cb distinct_map_fst_eq [OF assms(2)] show ?thesis by blast
    qed
    then show "\<forall>(c, b)\<in>set bs. has_limit b" by blast
  next
    assume "\<forall>(c, b)\<in>set bs. has_limit b"
    then show "fst ` set bs \<subseteq> dom (map_of (hard_limit_request_map st))" unfolding d by force
  qed
  ultimately show ?thesis
    using none limit_requests_iff [of sev bs' "hard_limit_request_map st"]
    by (auto simp: limit_stage_def requestCdevBySeverity_def set_bindings_def)
qed

theorem mixed_limits_throw_witness:
  "\<exists>bs' st h'. init_bindings None (\<lambda>_. None) ''skin''
        [(''cpu'', example_binding), (''gpu'', example_binding\<lparr>limit_info := \<lambda>_. 0\<rparr>)] new_status
        (fresh_helper\<lparr>cooling_device_info_map := [(''cpu'', example_cdev), (''gpu'', example_cdev)]\<rparr>) = Some (bs', st, h', False) \<and>
     limit_stage (set_bindings bs' skin_sensor) (st\<lparr>cur_severity := 3\<rparr>) = None"
proof -
  let ?bs = "[(''cpu'', example_binding), (''gpu'', example_binding\<lparr>limit_info := \<lambda>_. 0\<rparr>)]"
  have l: "has_limit example_binding" "\<not> has_limit (example_binding\<lparr>limit_info := \<lambda>_. 0\<rparr>)"
    by (auto simp: has_limit_def example_binding_def kThrottlingSeverityCount_def intro: bexI [of _ 1])
  have rail: "register_rail None (\<lambda>_. None) [] n c b ci pf = Some (False, pf)" for n c b ci pf
    by (simp add: register_rail_def)
  obtain bs' st h' where i: "init_bindings None (\<lambda>_. None) ''skin'' ?bs new_status
      (fresh_helper\<lparr>cooling_device_info_map := [(''cpu'', example_cdev), (''gpu'', example_cdev)]\<rparr>) = Some (bs', st, h', False)"
    by (simp add: init_binding_def rail fresh_helper_def example_helper_def Let_def)
  have d: "distinct (map fst ?bs)" by simp
  from mixed_limits_throw [OF i d, of skin_sensor 3] l
  have "limit_stage (set_bindings bs' skin_sensor) (st\<lparr>cur_severity := 3\<rparr>) = None" by auto
  with i show ?thesis by blast
qed

section \<open>Sensors that cannot be read\<close>

lemma watch_loop_unreadable:
  assumes "\<forall>n\<in>set ns. \<exists>st si. map_of (sensor_status_map h) n = Some st \<and> map_of (sensor_info_map h) n = Some si \<and>
      (is_monitor si \<longrightarrow> (\<exists>el. update_due h now uevents n si st = Some (el, True)) \<and>
         readTemperature read h n (virtual_sensor si \<noteq> None) = Some None)"
  shows "watch_loop read now uevents ns (h, r) = Some (h, r)"
  using assms
proof (induction ns)
  case (Cons n ns)
  then obtain st si where "map_of (sensor_status_map h) n = Some st" "map_of (sensor_info_map h) n = Some si"
      "is_monitor si \<longrightarrow> (\<exists>el. update_due h now uevents n si st = Some (el, True)) \<and>
         readTemperature read h n (virtual_sensor si \<noteq> None) = Some None" by auto
  then have "watch_sensor read now uevents n (h, r) = Some (h, r)"
    by (cases "is_monitor si") (auto simp: watch_sensor_def)
  with Cons show ?case by simp
qed simp

text \<open>
  A watcher whose sensors cannot be read stops polling. A sensor that is due but fails to be read
  is skipped without a vote on the sleep time, so that if every monitored sensor fails in one
  callback, as it may right after boot when all are due, the callback changes nothing and asks to
  sleep for \<open>milliseconds::max()\<close>: throttling stays off until a uevent arrives.\<close>

theorem unreadable_sensors_stop_polling:
  assumes "\<forall>(n, st)\<in>set (sensor_status_map h). last_update_time st = None \<and>
      (\<exists>si. map_of (sensor_info_map h) n = Some si \<and>
        (is_monitor si \<longrightarrow> readTemperature read h n (virtual_sensor si \<noteq> None) = Some None))"
    and "distinct (map fst (sensor_status_map h))"
  shows "thermalWatcherCallbackFunc read now uevents cb ok wr h =
           Some (h\<lparr>h_power_files := clearEnergyInfoMap (h_power_files h)\<rparr>, max_ms)"
proof -
  have "watch_loop read now uevents (map fst (sensor_status_map h)) (h, r) = Some (h, r)" for r
  proof (rule watch_loop_unreadable, rule ballI)
    fix n
    assume "n \<in> set (map fst (sensor_status_map h))"
    then obtain st where st: "(n, st) \<in> set (sensor_status_map h)" by auto
    then have m: "map_of (sensor_status_map h) n = Some st" using assms(2) by simp
    from st assms(1) obtain si where "last_update_time st = None" "map_of (sensor_info_map h) n = Some si"
        "is_monitor si \<longrightarrow> readTemperature read h n (virtual_sensor si \<noteq> None) = Some None" by blast
    with m show "\<exists>st si. map_of (sensor_status_map h) n = Some st \<and> map_of (sensor_info_map h) n = Some si \<and>
      (is_monitor si \<longrightarrow> (\<exists>el. update_due h now uevents n si st = Some (el, True)) \<and>
         readTemperature read h n (virtual_sensor si \<noteq> None) = Some None)"
      by (auto simp: update_due_def)
  qed
  then show ?thesis
    by (simp add: thermalWatcherCallbackFunc_def max_ms_def kMinPollIntervalMs_def)
qed

theorem unreadable_sensors_stop_polling_witness:
  "map_option snd (thermalWatcherCallbackFunc (\<lambda>_. None) 0 [] True (\<lambda>_ _ _. True) (\<lambda>_ _ _. True) example_helper) = Some max_ms"
proof -
  have "readTemperature (\<lambda>_. None) example_helper ''skin'' False = Some None"
    by (simp add: readTemperature_def read_text_def readThermalFile_def Let_def)
  moreover have "virtual_sensor skin_sensor = None" by (simp add: skin_sensor_def example_sensor_def)
  ultimately have "thermalWatcherCallbackFunc (\<lambda>_. None) 0 [] True (\<lambda>_ _ _. True) (\<lambda>_ _ _. True) example_helper =
      Some (example_helper\<lparr>h_power_files := clearEnergyInfoMap (h_power_files example_helper)\<rparr>, max_ms)"
    by (intro unreadable_sensors_stop_polling) (simp_all add: example_helper_def example_status_def)
  then show ?thesis by simp
qed

section \<open>Virtual sensors\<close>

text \<open>
  A minimum or maximum over linked sensors takes part with 0 when the first sensor cannot be
  read. The accumulator starts at 0 and is set to the neutral element only when index 0 is combined;
  an unreadable first sensor is skipped before that. With a second sensor at a positive reading the
  MINIMUM is then 0 instead of that reading, and with a negative one the MAXIMUM is.
\<close>

theorem unreadable_first_sensor_counts_as_zero:
  assumes "linked v = [a, b]" "coefficients v = [Some 1, Some 1]" "v_offset v = Some 0"
    and "map_of (sensor_info_map h) a = Some sa" "virtual_sensor sa = None"
    and "map_of (sensor_info_map h) b = Some sb" "virtual_sensor sb = None"
    and "readThermalFile read (thermal_sensors h) a = None"
    and "readThermalFile read (thermal_sensors h) b = Some content" "stof (trim content) = Some (Some x)" "fl32 x = x"
    and "v_formula v = MINIMUM \<and> 0 < x \<or> v_formula v = MAXIMUM \<and> x < 0"
  shows "virtual_loop read h v 0 (Some 0) = Some (Some (to_string_f (Some 0)))"
proof -
  have c: "combine (v_formula v) False (Some 1) (Some x) (Some 0) = Some 0"
    using assms(11,12) by (auto simp: combine_def f_mul_def)
  have "virtual_loop read h v 0 (Some 0) = virtual_loop read h v (Suc 0) (Some 0)"
    using assms(1,4,5,8) by (subst virtual_loop.simps) simp
  also have "\<dots> = virtual_loop read h v (Suc (Suc 0)) (Some 0)"
    using assms(1,2,6,7,9,10) c by (subst virtual_loop.simps) simp
  also have "\<dots> = Some (Some (to_string_f (Some 0)))"
    using assms(1,3) by (subst virtual_loop.simps) (simp add: f_add_def)
  finally show ?thesis .
qed

theorem unreadable_first_sensor_counts_as_zero_witness:
  "virtual_loop (\<lambda>p. if p = ''b'' then Some ''45'' else None)
     (example_helper\<lparr>sensor_info_map := [(''x'', skin_sensor), (''y'', skin_sensor)],
        thermal_sensors := [(''x'', ''a''), (''y'', ''b'')]\<rparr>)
     \<lparr>linked = [''x'', ''y''], coefficients = [Some 1, Some 1], v_offset = Some 0, v_formula = MINIMUM,
      trigger_sensor = ''x''\<rparr> 0 (Some 0) = Some (Some (to_string_f (Some 0)))"
proof -
  have "''45'' = to_dec 45" by code_simp
  then have "stof ''45'' = Some (Some 45)" using stof_to_dec [of 45] by simp
  moreover have "virtual_sensor skin_sensor = None" by (simp add: skin_sensor_def example_sensor_def)
  ultimately show ?thesis
    by (intro unreadable_first_sensor_counts_as_zero [where x = 45 and a = "''x''" and b = "''y''"
          and sa = skin_sensor and sb = skin_sensor and content = "''45''"])
      (simp_all add: readThermalFile_def getThermalFilePath_def trim_def is_space_def)
qed

end
