(* ===== verification/ThermalService.thy ===== *)
theory ThermalService
  imports ThermalInit
begin

text \<open>
  The binder service \<open>Thermal\<close> of \<open>thermal/Thermal.cpp\<close> and the queries of
  \<open>thermal-helper.cpp\<close> it answers with: temperatures, thresholds, cooling devices, CPU usage,
  and the registration of callbacks. Callbacks are identified by numbers (\<open>interfacesEqual\<close>);
  whether a call to one succeeds is a parameter. Dumps are not modelled.
\<close>

section \<open>Queries\<close>

text \<open>Reads all entries in turn: None throws; otherwise whether all succeeded, and the results up to
  the first failure.\<close>

fun query_all :: "('a \<Rightarrow> 'b option option) \<Rightarrow> 'a list \<Rightarrow> (bool \<times> 'b list) option" where
  "query_all f [] = Some (True, [])"
| "query_all f (x # xs) =
     do { r \<leftarrow> f x;
          (case r of
             None \<Rightarrow> Some (False, [])
           | Some y \<Rightarrow> do { (ok, ys) \<leftarrow> query_all f xs; Some (ok, y # ys) }) }"

text \<open>The vector is resized first: an entry that is not reached keeps its default, None.\<close>

definition fillTemperatures ::
  "(string \<Rightarrow> string option) \<Rightarrow> helper \<Rightarrow> int \<Rightarrow> int \<Rightarrow>
   (bool \<times> (int \<times> string \<times> float32 \<times> float32 \<times> float32 \<times> float32) option list) option" where
  "fillTemperatures read h skin unknown =
     do { (ok, ts) \<leftarrow> query_all (\<lambda>(n, si). readTemperature_1_0 read h skin unknown n (virtual_sensor si \<noteq> None))
                        (sensor_info_map h);
          Some (ok \<and> ts \<noteq> [],
                map Some ts @ replicate (length (sensor_info_map h) - length ts) None) }"

definition filtered :: "bool \<Rightarrow> ('a \<Rightarrow> int) \<Rightarrow> int \<Rightarrow> (string \<times> 'a) list \<Rightarrow> (string \<times> 'a) list" where
  "filtered filterType ty t xs = filter (\<lambda>(n, x). \<not> (filterType \<and> ty x \<noteq> t)) xs"

text \<open>The output is assigned only when every read succeeds.\<close>

definition answer_all :: "(bool \<times> 'a list) option \<Rightarrow> (bool \<times> 'a list) option" where
  "answer_all r = do { (ok, xs) \<leftarrow> r; Some (if ok then (xs \<noteq> [], xs) else (False, [])) }"

definition fillCurrentTemperatures ::
  "(string \<Rightarrow> string option) \<Rightarrow> helper \<Rightarrow> bool \<Rightarrow> int \<Rightarrow> (bool \<times> temperature list) option" where
  "fillCurrentTemperatures read h filterType t =
     answer_all (query_all
       (\<lambda>(n, si). map_option (map_option fst) (readTemperature read h n (virtual_sensor si \<noteq> None)))
       (filtered filterType s_type t (sensor_info_map h)))"

record threshold =
  th_type :: int
  th_name :: string
  hotThrottlingThresholds :: throttling_array
  coldThrottlingThresholds :: throttling_array
  vrThrottlingThreshold :: float32

definition readTemperatureThreshold :: "helper \<Rightarrow> string \<Rightarrow> threshold option" where
  "readTemperatureThreshold h n =
     map_option (\<lambda>si. \<lparr>th_type = s_type si, th_name = n, hotThrottlingThresholds = hot_thresholds si,
         coldThrottlingThresholds = cold_thresholds si, vrThrottlingThreshold = vr_threshold si\<rparr>)
       (map_of (sensor_info_map h) n)"

definition fillTemperatureThresholds :: "helper \<Rightarrow> bool \<Rightarrow> int \<Rightarrow> (bool \<times> threshold list) option" where
  "fillTemperatureThresholds h filterType t =
     answer_all (query_all (\<lambda>(n, si). Some (readTemperatureThreshold h n))
       (filtered filterType s_type t (sensor_info_map h)))"

record cooling_device =
  cd_type :: int
  cd_name :: string
  cd_value :: int

definition readCoolingDevice ::
  "(string \<Rightarrow> string option) \<Rightarrow> helper \<Rightarrow> string \<Rightarrow> cooling_device option option" where
  "readCoolingDevice read h n =
     (case readThermalFile read (cooling_devices h) n of
        None \<Rightarrow> Some None
      | Some d \<Rightarrow>
          do { ci \<leftarrow> map_of (cooling_device_info_map h) n; v \<leftarrow> stoi d;
               Some (Some \<lparr>cd_type = c_type ci, cd_name = n, cd_value = v\<rparr>) })"

definition fillCurrentCoolingDevices ::
  "(string \<Rightarrow> string option) \<Rightarrow> helper \<Rightarrow> bool \<Rightarrow> int \<Rightarrow> (bool \<times> cooling_device list) option" where
  "fillCurrentCoolingDevices read h filterType t =
     answer_all (query_all (\<lambda>(n, ci). readCoolingDevice read h n)
       (filtered filterType c_type t (cooling_device_info_map h)))"

section \<open>CPU usage\<close>

fun split_on :: "char \<Rightarrow> string \<Rightarrow> string list" where
  "split_on d [] = [[]]"
| "split_on d (c # cs) =
     (if c = d then [] # split_on d cs
      else (case split_on d cs of [] \<Rightarrow> [[c]] | w # ws \<Rightarrow> (c # w) # ws))"

definition getNumberOfCores :: "(string \<Rightarrow> string option) \<Rightarrow> int option" where
  "getNumberOfCores read =
     (case read ''/sys/devices/system/cpu/present'' of
        None \<Rightarrow> Some 0
      | Some f \<Rightarrow>
          (case split_on CHR ''-'' f of
             [a, b] \<Rightarrow>
               do { lo \<leftarrow> stoul a; hi \<leftarrow> stoul b;
                    Some (if hi < lo then 0 else signed_take_bit 31 (uint (hi - lo + 1))) }
           | _ \<Rightarrow> Some 0))"

record cpu_usage =
  cpu_name :: string
  active :: "64 word"
  total_time :: "64 word"
  isOnline :: bool

text \<open>One line of \<open>/proc/stat\<close>: None throws or indexes beyond the words; Some None ends the
  loop.\<close>

definition cpu_line ::
  "(string \<Rightarrow> string option) \<Rightarrow> int \<Rightarrow> string \<Rightarrow> cpu_usage list \<Rightarrow> cpu_usage list option option" where
  "cpu_line read max_cpus l us =
     (if \<not> (prefix ''cpu'' l \<and> length l > 3 \<and> is_digit (l ! 3)) then Some (Some us)
      else
        let words = split_on CHR '' '' l; cname = hd words in
        do { num \<leftarrow> stoi (drop 3 cname);
             if \<not> num < max_cpus then Some None
             else if length words < 5 then None
             else do {
               user \<leftarrow> stoul (words ! 1); nice \<leftarrow> stoul (words ! 2);
               sys \<leftarrow> stoul (words ! 3); idle \<leftarrow> stoul (words ! 4);
               let online = read (''/sys/devices/system/cpu/'' @ cname @ ''/online'');
               if online = None \<and> num \<noteq> 0 then Some None
               else
                 let on = (case online of None \<Rightarrow> ''1'' | Some s \<Rightarrow> trim s)
                 in Some (Some (us[nat num := (us ! nat num)\<lparr>active := user + nice + sys,
                            total_time := user + nice + sys + idle, isOnline := (on = ''1'')\<rparr>])) } })"

fun cpu_lines ::
  "(string \<Rightarrow> string option) \<Rightarrow> int \<Rightarrow> string list \<Rightarrow> cpu_usage list \<Rightarrow> cpu_usage list option" where
  "cpu_lines read max_cpus [] us = Some us"
| "cpu_lines read max_cpus (l # ls) us =
     do { r \<leftarrow> cpu_line read max_cpus l us;
          (case r of None \<Rightarrow> Some us | Some us' \<Rightarrow> cpu_lines read max_cpus ls us') }"

definition fillCpuUsages :: "(string \<Rightarrow> string option) \<Rightarrow> int \<Rightarrow> cpu_usage list option" where
  "fillCpuUsages read max_cpus =
     (let us = map (\<lambda>i. \<lparr>cpu_name = ''cpu'' @ int_to_dec i, active = 0, total_time = 0, isOnline = False\<rparr>)
                 [0..max_cpus - 1]
      in case read ''/proc/stat'' of
           None \<Rightarrow> Some us
         | Some f \<Rightarrow> cpu_lines read max_cpus (split_lines f) us)"

section \<open>Callbacks\<close>

record callback_setting =
  cb_id :: nat
  is_filter_type :: bool
  cb_type :: int

datatype status = SUCCESS | FAILURE string

definition registerThermalChangedCallback ::
  "nat option \<Rightarrow> bool \<Rightarrow> int \<Rightarrow> callback_setting list \<Rightarrow> status \<times> callback_setting list" where
  "registerThermalChangedCallback cb filterType t cbs =
     (case cb of
        None \<Rightarrow> (FAILURE ''Invalid nullptr callback'', cbs)
      | Some c \<Rightarrow>
          if \<exists>x\<in>set cbs. cb_id x = c then (FAILURE ''Same callback registered already'', cbs)
          else (SUCCESS, cbs @ [\<lparr>cb_id = c, is_filter_type = filterType, cb_type = t\<rparr>]))"

definition unregisterThermalChangedCallback ::
  "nat option \<Rightarrow> callback_setting list \<Rightarrow> status \<times> callback_setting list" where
  "unregisterThermalChangedCallback cb cbs =
     (case cb of
        None \<Rightarrow> (FAILURE ''Invalid nullptr callback'', cbs)
      | Some c \<Rightarrow>
          let cbs' = filter (\<lambda>x. cb_id x \<noteq> c) cbs
          in if \<exists>x\<in>set cbs. cb_id x = c then (SUCCESS, cbs')
             else (FAILURE ''The callback was not registered before'', cbs'))"

definition wants :: "int \<Rightarrow> callback_setting \<Rightarrow> bool" where
  "wants t c \<longleftrightarrow> \<not> is_filter_type c \<or> t = cb_type c"

text \<open>The callbacks called, in order, and those that stay: a failed call removes its callback.\<close>

fun sendThermalChangedCallback ::
  "(nat \<Rightarrow> bool) \<Rightarrow> int \<Rightarrow> callback_setting list \<Rightarrow> nat list \<times> callback_setting list" where
  "sendThermalChangedCallback ok t [] = ([], [])"
| "sendThermalChangedCallback ok t (c # cs) =
     (let (called, kept) = sendThermalChangedCallback ok t cs in
      if wants t c then (cb_id c # called, if ok (cb_id c) then c # kept else kept)
      else (called, c # kept))"

text \<open>The answer of a query: the status and the data.\<close>

definition answer_query :: "bool \<Rightarrow> string \<Rightarrow> 'a list \<Rightarrow> (bool \<times> 'a list) option \<Rightarrow> (status \<times> 'a list) option" where
  "answer_query initialized message empty_data r =
     (if \<not> initialized then Some (FAILURE ''Failure initializing thermal HAL'', empty_data)
      else do { (ok, xs) \<leftarrow> r; Some (if ok then SUCCESS else FAILURE message, xs) })"

definition getTemperatures where
  "getTemperatures initialized read h skin unknown =
     answer_query initialized ''Failed to read thermal sensors.'' [] (fillTemperatures read h skin unknown)"

definition getCurrentTemperatures where
  "getCurrentTemperatures initialized read h filterType t =
     answer_query initialized ''Failed to read thermal sensors.'' [] (fillCurrentTemperatures read h filterType t)"

definition getTemperatureThresholds where
  "getTemperatureThresholds initialized h filterType t =
     answer_query initialized ''Failed to read thermal sensors.'' [] (fillTemperatureThresholds h filterType t)"

definition getCurrentCoolingDevices where
  "getCurrentCoolingDevices initialized read h filterType t =
     answer_query initialized ''Failed to read thermal sensors.'' [] (fillCurrentCoolingDevices read h filterType t)"

definition getCpuUsages where
  "getCpuUsages initialized read max_cpus =
     answer_query initialized ''Failed to get CPU usages.'' []
       (map_option (\<lambda>us. (True, us)) (fillCpuUsages read max_cpus))"

section \<open>The constructor\<close>

text \<open>
  From the three parsed maps to a running watcher: None when the process aborts. The last component
  says whether the watcher runs; \<open>connects\<close> are the four lookups of \<open>connect\<close>, tried once by
  the member and again at the end, and \<open>watches\<close> is the start of the thread.
\<close>

definition no_power :: power_files where
  "no_power = \<lparr>energy_info_map = [], throttling_release_map = [], power_status_map = [], energy_path_set = []\<rparr>"

definition disconnected :: power_hal where
  "disconnected = \<lparr>power_hal_aidl_exist = True, hal_connected = False, ext_connected = False\<rparr>"

fun clear_cdevs :: "write_result \<Rightarrow> string list \<Rightarrow> helper \<Rightarrow> helper" where
  "clear_cdevs wr [] h = h"
| "clear_cdevs wr (c # cs) h = clear_cdevs wr cs (snd (writeCdevFile wr c (int_to_dec 0) h))"

definition connect_hal :: "bool \<times> bool \<times> bool \<times> bool \<Rightarrow> power_hal \<Rightarrow> bool \<times> power_hal" where
  "connect_hal c p = (case c of (a, b, d, e) \<Rightarrow> connect a b d e p)"

definition ThermalHelper ::
  "(string \<times> sensor_info) list \<Rightarrow> (string \<times> cdev_info) list \<Rightarrow> (string \<times> power_rail_info) list \<Rightarrow>
   (string \<times> string) list \<Rightarrow> (string \<times> string) list \<Rightarrow> string list option \<Rightarrow> (string \<Rightarrow> string option) \<Rightarrow>
   (string \<Rightarrow> string \<Rightarrow> bool) \<Rightarrow> bool \<Rightarrow> bool \<Rightarrow> bool \<Rightarrow> bool \<times> bool \<times> bool \<times> bool \<Rightarrow>
   (string \<Rightarrow> severity \<Rightarrow> bool option) \<Rightarrow> (helper \<times> string list) option" where
  "ThermalHelper sensors cdevs rails tz_map cdev_map dir read can_write disabled genl watches connects answer =
     (case initializeSensorMap tz_map sensors [] of
        (False, _) \<Rightarrow> None
      | (True, sensor_files) \<Rightarrow>
          do { (cdevs', cdev_files) \<leftarrow> initializeCoolingDevices read cdev_map cdevs [];
               h1 \<leftarrow> init_status dir read (map fst sensors)
                 \<lparr>sensor_info_map = sensors, cooling_device_info_map = cdevs', power_rail_info_map = rails,
                  supported_powerhint_map = (\<lambda>_ _. NONE_SEVERITY), thermal_sensors = sensor_files,
                  cooling_devices = cdev_files, sensor_status_map = [], cdev_status_map = [],
                  h_power_files = no_power, hal = snd (connect_hal connects disconnected), effects = []\<rparr>;
               if disabled then Some (clear_cdevs (\<lambda>_. can_write) (map fst cdevs') h1, [])
               else do {
                 (sensors', monitored) \<leftarrow> initializeTrip read can_write tz_map genl (sensor_info_map h1);
                 if \<not> watches then None
                 else
                   let (connected, p) = connect_hal connects (hal h1);
                       h2 = h1\<lparr>sensor_info_map := sensors', hal := p\<rparr>
                   in Some (if connected then updateSupportedPowerHints answer h2 else h2, monitored) } })"

section \<open>Properties\<close>

inductive callback_step :: "callback_setting list \<Rightarrow> callback_setting list \<Rightarrow> bool" where
  "callback_step cbs (snd (registerThermalChangedCallback cb f t cbs))"
| "callback_step cbs (snd (unregisterThermalChangedCallback cb cbs))"
| "callback_step cbs (snd (sendThermalChangedCallback ok t cbs))"

lemma send_spec:
  "sendThermalChangedCallback ok t cbs =
     (map cb_id (filter (wants t) cbs), filter (\<lambda>c. wants t c \<longrightarrow> ok (cb_id c)) cbs)"
  by (induction cbs) auto

lemma callback_step_distinct:
  "callback_step cbs cbs' \<Longrightarrow> distinct (map cb_id cbs) \<Longrightarrow> distinct (map cb_id cbs')"
  by (induction rule: callback_step.induct)
    (auto simp: registerThermalChangedCallback_def unregisterThermalChangedCallback_def send_spec
      distinct_map_filter Let_def split: option.split)

text \<open>
  Every registered callback hears of a change at most once. After any sequence of registrations,
  removals and reports, a callback is registered at most once; a report calls, in the order of
  registration and once each, exactly the callbacks whose filter admits the type of the sensor, and
  drops exactly those whose call fails.
\<close>

theorem callbacks_called_once:
  assumes "callback_step\<^sup>*\<^sup>* [] cbs"
  shows "distinct (map cb_id cbs) \<and>
         sendThermalChangedCallback ok t cbs =
           (map cb_id (filter (wants t) cbs), filter (\<lambda>c. wants t c \<longrightarrow> ok (cb_id c)) cbs) \<and>
         distinct (fst (sendThermalChangedCallback ok t cbs))"
proof -
  from assms have "distinct (map cb_id cbs)"
    by (induction rule: rtranclp_induct) (auto intro: callback_step_distinct)
  then show ?thesis by (simp add: send_spec distinct_map_filter)
qed

theorem callbacks_called_once_witness:
  "fst (sendThermalChangedCallback (\<lambda>_. True) 3
     [\<lparr>cb_id = 1, is_filter_type = True, cb_type = 3\<rparr>]) = [1]"
proof -
  have "callback_step [] [\<lparr>cb_id = 1, is_filter_type = True, cb_type = 3\<rparr>]"
    using callback_step.intros(1) [of "[]" "Some 1" True 3] by (simp add: registerThermalChangedCallback_def)
  then have "callback_step\<^sup>*\<^sup>* [] [\<lparr>cb_id = 1, is_filter_type = True, cb_type = 3\<rparr>]" by blast
  from callbacks_called_once [OF this, of "\<lambda>_. True" 3] show ?thesis by (simp add: wants_def)
qed

lemma hint_loop_spec:
  assumes "\<forall>n sev. answer n sev \<noteq> None"
  shows "1 \<le> k \<Longrightarrow> hal_connected (hal h) \<Longrightarrow> ext_connected (hal h) \<Longrightarrow>
     hint_loop answer n (highest (\<lambda>i. answer n i = Some True) (k - 1)) [k..<k + m] h =
       h\<lparr>supported_powerhint_map := (supported_powerhint_map h)(n := (\<lambda>sev.
           if k \<le> sev \<and> sev < k + m then highest (\<lambda>i. answer n i = Some True) sev
           else supported_powerhint_map h n sev))\<rparr>"
proof (induction m arbitrary: k h)
  case 0
  have "(supported_powerhint_map h)(n := (\<lambda>sev. if k \<le> sev \<and> sev < k + 0
      then highest (\<lambda>i. answer n i = Some True) sev else supported_powerhint_map h n sev)) = supported_powerhint_map h"
    by (auto simp: fun_eq_iff)
  then show ?case by (simp only:) simp
next
  case (Suc m)
  let ?P = "\<lambda>i. answer n i = Some True"
  obtain b where b: "answer n k = Some b" using assms by blast
  obtain j where j: "k = Suc j" using Suc.prems(1) by (cases k) auto
  have cur: "(if b then k else highest ?P (k - 1)) = highest ?P (Suc k - 1)" using b j by simp
  let ?h = "h\<lparr>supported_powerhint_map := (supported_powerhint_map h)(n := (supported_powerhint_map h n)(k := highest ?P k))\<rparr>"
  have "hint_loop answer n (highest ?P (k - 1)) [k..<k + Suc m] h =
      hint_loop answer n (highest ?P (Suc k - 1)) [Suc k..<Suc k + m] ?h"
    using Suc.prems b cur
    by (cases b) (simp_all add: upt_conv_Cons NONE_SEVERITY_def isModeSupported_def Let_def del: upt_Suc)
  also have "\<dots> = ?h\<lparr>supported_powerhint_map := (supported_powerhint_map ?h)(n := (\<lambda>sev.
      if Suc k \<le> sev \<and> sev < Suc k + m then highest ?P sev else supported_powerhint_map ?h n sev))\<rparr>"
    by (rule Suc.IH) (use Suc.prems in simp_all)
  also have "\<dots> = h\<lparr>supported_powerhint_map := (supported_powerhint_map h)(n := (\<lambda>sev.
      if k \<le> sev \<and> sev < k + Suc m then highest ?P sev else supported_powerhint_map h n sev))\<rparr>"
    by (auto simp: fun_eq_iff intro!: arg_cong [where f = "\<lambda>f. h\<lparr>supported_powerhint_map := f\<rparr>"])
  finally show ?case .
qed

lemma hint_loop_all:
  assumes "\<forall>n sev. answer n sev \<noteq> None" "hal_connected (hal h)" "ext_connected (hal h)"
  shows "hint_loop answer n NONE_SEVERITY [0..<kThrottlingSeverityCount] h =
     h\<lparr>supported_powerhint_map := (supported_powerhint_map h)(n := (\<lambda>sev.
         if sev < 7 then highest (\<lambda>i. answer n i = Some True) sev else supported_powerhint_map h n sev))\<rparr>"
proof -
  let ?h = "h\<lparr>supported_powerhint_map := (supported_powerhint_map h)(n := (supported_powerhint_map h n)(0 := 0))\<rparr>"
  have "[0..<kThrottlingSeverityCount] = 0 # [1..<1 + 6]"
    by (simp add: kThrottlingSeverityCount_def upt_conv_Cons del: upt_Suc)
  then have "hint_loop answer n NONE_SEVERITY [0..<kThrottlingSeverityCount] h =
      hint_loop answer n (highest (\<lambda>i. answer n i = Some True) (1 - 1)) [1..<1 + 6] ?h"
    by (simp add: NONE_SEVERITY_def del: upt_Suc)
  also have "\<dots> = ?h\<lparr>supported_powerhint_map := (supported_powerhint_map ?h)(n := (\<lambda>sev.
      if 1 \<le> sev \<and> sev < 1 + 6 then highest (\<lambda>i. answer n i = Some True) sev
      else supported_powerhint_map ?h n sev))\<rparr>"
    by (rule hint_loop_spec [OF assms(1)]) (use assms(2,3) in simp_all)
  also have "\<dots> = h\<lparr>supported_powerhint_map := (supported_powerhint_map h)(n := (\<lambda>sev.
      if sev < 7 then highest (\<lambda>i. answer n i = Some True) sev else supported_powerhint_map h n sev))\<rparr>"
    by (auto simp: fun_eq_iff le_Suc_eq not_le intro!: arg_cong [where f = "\<lambda>f. h\<lparr>supported_powerhint_map := f\<rparr>"])
  finally show ?thesis .
qed

text \<open>
  A severity is reported to the power service as the nearest hint below it that the service
  supports. When the service answers every question, the table that is built at start maps each
  severity of a sensor with power hints to the highest supported severity that does not exceed it,
  NONE if there is none, and has no entries for other sensors.\<close>

theorem hint_table_is_nearest_below:
  assumes "\<forall>n sev. answer n sev \<noteq> None" "hal_connected (hal h)" "ext_connected (hal h)"
    and "\<forall>n sev. supported_powerhint_map h n sev = 0" "sev \<le> 6"
  shows "supported_powerhint_map (updateSupportedPowerHints answer h) n sev =
           (if \<exists>si. (n, si) \<in> set (sensor_info_map h) \<and> send_powerhint si
            then highest (\<lambda>i. answer n i = Some True) sev else 0)"
proof -
  let ?f = "\<lambda>(n, si) h. if send_powerhint si
       then hint_loop answer n NONE_SEVERITY [0..<kThrottlingSeverityCount] h else h"
  have "hal (fold ?f xs g) = hal g \<and> supported_powerhint_map (fold ?f xs g) n sev =
        (if \<exists>si. (n, si) \<in> set xs \<and> send_powerhint si
         then highest (\<lambda>i. answer n i = Some True) sev else supported_powerhint_map g n sev)"
    if "hal_connected (hal g)" "ext_connected (hal g)" for xs g
    using that
  proof (induction xs arbitrary: g)
    case (Cons x xs)
    obtain m si where x: "x = (m, si)" by (cases x)
    show ?case
    proof (cases "send_powerhint si")
      case True
      let ?g = "hint_loop answer m NONE_SEVERITY [0..<kThrottlingSeverityCount] g"
      have g: "hal ?g = hal g" "supported_powerhint_map ?g n sev =
          (if n = m then highest (\<lambda>i. answer n i = Some True) sev else supported_powerhint_map g n sev)"
        using hint_loop_all [OF assms(1) Cons.prems, of m] assms(5) by (auto simp del: highest_Suc)
      from Cons.IH [of ?g] Cons.prems g x True show ?thesis by auto
    next
      case False
      with Cons x show ?thesis by auto
    qed
  qed simp
  from this [of h "sensor_info_map h"] assms(2-4) show ?thesis by (auto simp: updateSupportedPowerHints_def)
qed

theorem hint_table_is_nearest_below_witness:
  "supported_powerhint_map (updateSupportedPowerHints (\<lambda>_ sev. Some (sev = 2))
     (example_helper\<lparr>supported_powerhint_map := (\<lambda>_ _. 0)\<rparr>)) ''skin'' 4 = 2"
proof -
  have "\<exists>si. (''skin'', si) \<in> set (sensor_info_map (example_helper\<lparr>supported_powerhint_map := (\<lambda>_ _. 0)\<rparr>)) \<and>
      send_powerhint si"
    by (simp add: example_helper_def skin_sensor_def)
  moreover have "highest (\<lambda>i. Some (i = 2) = Some True) 4 = 2" by (simp add: eval_nat_numeral)
  ultimately show ?thesis
    using hint_table_is_nearest_below [of "\<lambda>_ sev. Some (sev = 2)"
        "example_helper\<lparr>supported_powerhint_map := (\<lambda>_ _. 0)\<rparr>" 4 "''skin''"]
    by (simp add: example_helper_def del: highest_Suc)
qed

end
