(* ===== verification/Spec2Isabelle.thy ===== *)
theory Spec2Isabelle
  imports MsgQ LocTimer Agps Geofence BatchingProps OsObserver LocLaunch LogBuffer GnssTrackingErrors SystemStatusProps
    LocationClientProps ControlClient HintConfig PowerHal ThermalService
begin

text \<open>
  Verification of the native code of the Xiaomi cepheus device tree.

  The program. \<open>src/gps\<close> is the location stack: utilities in C and C++ (\<open>utils\<close>), the
  adapters that multiplex the clients of the location API onto one positioning engine
  (\<open>gnss\<close>, \<open>geofence\<close>, \<open>batching\<close>) and their bindings. \<open>src/power-libperfmgr\<close> is
  the power service: a hint manager that switches performance nodes, and its clients (binder
  services, interaction boost, hint sessions). \<open>src/thermal\<close> is the thermal service, which reads
  sensors, throttles cooling devices and switches power hints through the power service.

  Conventions. A theory models a source file or a few that belong together, a record its class,
  with the names of the source (a suffix where HOL has the name). An operation takes its arguments
  and the state and returns the new state. None stands for undefined behaviour and, where the text
  of a theory says so, for an exception nothing catches; the errors the source returns are values.
  A pointer that may be NULL is an option; freed objects are modelled where the code can reach
  them again (nodes of the linked list, timers, batches of the geofence adapter). Unordered maps
  are association lists or maps, depending on whether the order of iteration can be observed.
  A file is the text left to read, a system property a function.
  Calls that leave the program (the modem, the framework, sysfs files, the looper) are outputs
  collected in the state; what they answer are arguments. Locks are not modelled beyond making a
  locked section one step; where threads interleave (message queue, timers, interaction handler, the
  answers to a client of the location API) the steps are a relation. What is read from memory that was
  freed is an argument without any assumption on it (\<open>stale\<close>), other undefined behaviour None.

  Machine numbers. Counters and masks that can wrap are words. \<open>int64_t\<close> computations whose
  overflow is undefined return an option (\<open>Binary64\<close>). Doubles and floats are rationals rounded
  to 53 and 24 bits, half to even; exponents are not bounded, and the products and sums of the
  source are rounded one by one, as without contraction.

  Loops. Loops over a given list recurse on it. Loops over linked structures are
  \<open>partial_function (option)\<close>, so that running forever is None, and the theorems about them
  prove that they return: for the linked list and the skip list from the invariant that the chain
  is acyclic, for the hints that do other hints from a rank of the hint graph, for the log buffer
  from the line just appended, at which the trimming stops. Loops over a file recurse on the text
  that is left, with a termination proof. The one fuel is that of \<open>read_uints\<close> in \<open>ThermalInit\<close>, the
  length of the text it reads, of which every round takes at least one character.

  The location utilities.
  \<^item> \<open>LinkedList\<close> (\<open>utils/linked_list.c\<close>): nodes in an explicit store; first in first out,
    search and flush complete, termination of the loops over a well-formed list.
  \<^item> \<open>MsgQ\<close> (\<open>utils/msg_q.c\<close>): the queue on the list, with blocked receivers as threads of
    a step relation; delivery in order, no lost wake-up, unblocking.
  \<^item> \<open>SkipList\<close> (\<open>utils/SkipList.h\<close>): one list threaded by a chain per level; refinement of a
    plain sequence.
  \<^item> \<open>LocHeap\<close>, \<open>LocTimer\<close> (\<open>utils/LocHeap.cpp\<close>, \<open>LocTimer.cpp\<close>): the heap of ranked nodes
    and the timers on it; multiset and order of the heap, no timer lost, no use after free.
  \<^item> \<open>Agps\<close> (\<open>gnss/Agps.cpp\<close>): the state machines of the data connections; a connection is up
    or pending exactly while there are subscribers.
  \<^item> \<open>GnssSvId\<close>, \<open>GnssNtrip\<close>, \<open>GnssOdcpi\<close>, \<open>GnssTracking\<close> (\<open>gnss/GnssAdapter.cpp\<close>): excluded satellites
    and their masks, the stream of corrections, coarse positions on demand, and the tracking sessions
    with the commands around them. A step of \<open>gnss_step\<close> is labelled with what happened (a
    command queued, a message processed, an answer of the engine); \<open>gnss_reachable\<close> lets an
    interface choose the labels it allows, e.g. \<open>accepting\<close>, an engine that refuses nothing.
    \<open>GnssTrackingProps\<close>, \<open>GnssInterval\<close>: the power state and the corrections follow the sessions, the
    engine runs at least as fast as every session wants. \<open>GnssTrackingErrors\<close>: runs in which
    refusals and races leave sessions without an engine or clients without an answer.
  \<^item> \<open>AdapterBase\<close> (\<open>core/LocAdapterBase.cpp\<close>), \<open>OrderedMap\<close> (\<open>std::map\<close>): clients, session ids,
    event masks and capabilities that the adapters share.
  \<^item> \<open>Geofence\<close> (\<open>geofence/GeofenceAdapter.cpp\<close>): the maps of geofences, commands whose answers
    arrive later in any order, restarts in between, reports to owners; the maps agree as long as the
    engine gives no id to a new geofence that is in use.
  \<^item> \<open>Batching\<close>, \<open>BatchingProps\<close> (\<open>batching/BatchingAdapter.cpp\<close>): sessions and trips on one
    engine, the multiplexing of trip distances, restarts; the batch-full event is registered while
    there are trips, and the engine is asked for the nearest of the remaining distances.
  \<^item> \<open>SetMap\<close> (\<open>utils/LocUnorderedSetMap.h\<close>), \<open>OsObserver\<close>
    (\<open>core/SystemStatusOsObserver.cpp\<close>): subscriptions to data items, and notifications, which go through
    the cache of \<open>SystemStatus\<close> first. The argument \<open>stale\<close> is what the code reads from an entry it has
    erased, anything. The two maps stay inverse to each other; the framework is asked for exactly what the
    clients want, but for the items read from erased entries; a notification reaches the subscribers
    of the items that \<open>SystemStatus\<close> records and that changed, with their new contents.
  \<^item> \<open>StatusParsers\<close>, \<open>NetworkTable\<close>, \<open>StatusItems\<close>, \<open>SystemStatus\<close>, \<open>SystemStatusProps\<close>
    (\<open>core/SystemStatus.cpp\<close>): the debug sentences of the modem, the table of networks, the items and the
    cache of the last reports of each; the cache is the last changes, sentences are read field by field, a
    network that comes and goes leaves the table as it was if it was the last.
  \<^item> \<open>BiDict\<close>, \<open>LocationClient\<close>, \<open>LocationClientProps\<close>, \<open>ControlClient\<close>
    (\<open>location/LocationAPIClientBase.cpp\<close>): the clients of the location API with their queues of
    requests. An answer takes its request in one step and is handled in a later one. Ids and sessions
    correspond as long as nothing is handled in the middle of a call; answers meet their requests for the
    tracking session, and do not for shared queues, for ids of network initiated requests that
    collide with it, and for configurations.
  \<^item> \<open>CStdio\<close>, \<open>LocTarget\<close>, \<open>LocCfg\<close>, \<open>LocCfgProps\<close>, \<open>LocLaunch\<close> (\<open>utils/loc_cfg.cpp\<close>,
    \<open>loc_target.cpp\<close>, \<open>loc_misc_utils.cpp\<close>): C text functions, the kind of device, configuration files
    and the list of processes to launch; round trip of a file, what duplicate, over-long and missing
    lines do, when a process is enabled.
  \<^item> \<open>LogBuffer\<close> (\<open>utils/LogBuffer.cpp\<close>): the levels of the log on the skip list; an append
    keeps the longest end of the lines within the limits, and is undefined after a flush of a full level.

  The power service.
  \<^item> \<open>PerfNode\<close> (\<open>libperfmgr\<close>: request groups, nodes, the looper): the highest requested value
    is the one written.
  \<^item> \<open>HintManager\<close>, \<open>HintConfig\<close> (\<open>HintManager.cc\<close>): hints as actions on nodes and other hints,
    their statistics, and the reading of the configuration.
  \<^item> \<open>HintClient\<close>: the interface its clients use. \<open>Interaction\<close>, \<open>PowerSession\<close>, \<open>PowerControl\<close>,
    \<open>PowerHal\<close>: the idle handler, the sessions with their PID controller, the binder services.

  The thermal service.
  \<^item> \<open>CText\<close>, \<open>Float32\<close>, \<open>Binary64\<close>: the text functions and numbers it uses.
  \<^item> \<open>ThermalConfig\<close>, \<open>ThermalPower\<close>, \<open>Thermal\<close>, \<open>ThermalInit\<close>, \<open>ThermalService\<close>: parsing,
    power rails, the watcher, the start, the queries; \<open>ThermalProps\<close> states what the watcher keeps:
    severities, budgets, device files, whose writes may fail, and hints, in the order they are switched.

  Interfaces. \<open>message_store\<close> (\<open>QueueContract\<close>) is what a queue owes its clients; it is
  interpreted on the linked list (\<open>ll\<close>), on the message queue (\<open>mq\<close>) and on every level of the skip
  list (\<open>lvl\<close>). \<open>rankable\<close> (\<open>LocHeap\<close>) is the order the heap needs, interpreted on timers
  (\<open>tm\<close>). \<open>hint_service\<close> (\<open>HintClient\<close>) is what the power clients rely on, interpreted on the hint
  manager (\<open>hm\<close>).

  Not modelled. Of the GNSS adapter the configuration commands, network initiated sessions and the
  reports of positions and satellites; the layers that forward calls and events between adapters,
  engine and clients (\<open>LocationAPI.cpp\<close>, \<open>LocApiBase.cpp\<close>, the HIDL bindings); the formatting of NMEA
  sentences. Logging and dumps; pure input and output (sockets, netlink, inotify, HIDL and
  binder glue, the display socket, sensors, fingerprint); data types and constants without
  behaviour; the JSON library, the protobuf and AIDL code a build generates, and the kernel, which
  are parameters; the Java parts and resources.
\<close>

end
